(* ===== verification/Ordered_Map.thy ===== *)
theory Ordered_Map
  imports Prelude
begin

text \<open>
  Rust's \<open>BTreeMap<K, V>\<close> as an association list in ascending key order, and the interface the
  rest of the development uses of it. The order is observable (serialization, \<open>iter\<close>, \<open>values\<close>),
  so the list is kept and not only the finite map it stands for.
\<close>

named_theorems bt_simps \<open>lookup and membership facts of ordered maps\<close>

type_synonym ('k, 'v) btree_map = "('k \<times> 'v) list"

section \<open>The interface of a map with an iteration order\<close>

locale keyed_store =
  fixes empty :: "'m"
    and lookup :: "'m \<Rightarrow> 'k \<Rightarrow> 'v option"
    and insert_at :: "'k \<Rightarrow> 'v \<Rightarrow> 'm \<Rightarrow> 'm"
    and entries :: "'m \<Rightarrow> ('k \<times> 'v) list"
    and wf :: "'m \<Rightarrow> bool"
  assumes wf_empty: "wf empty"
    and wf_insert: "wf m \<Longrightarrow> wf (insert_at k v m)"
    and lookup_empty: "lookup empty k = None"
    and lookup_insert: "wf m \<Longrightarrow> lookup (insert_at k v m) k' = (if k' = k then Some v else lookup m k')"
    and entries_lookup: "wf m \<Longrightarrow> (k, v) \<in> set (entries m) \<longleftrightarrow> lookup m k = Some v"
begin

fun insert_all :: "('k \<times> 'v) list \<Rightarrow> 'm \<Rightarrow> 'm" where
  "insert_all [] m = m"
| "insert_all ((k, v) # kvs) m = insert_all kvs (insert_at k v m)"

lemma wf_insert_all: "wf m \<Longrightarrow> wf (insert_all kvs m)"
  by (induction kvs m rule: insert_all.induct) (auto intro: wf_insert)

lemma lookup_insert_all:
  "wf m \<Longrightarrow> distinct (map fst kvs) \<Longrightarrow>
     lookup (insert_all kvs m) k = (case map_of kvs k of Some v \<Rightarrow> Some v | None \<Rightarrow> lookup m k)"
proof (induction kvs m rule: insert_all.induct)
  case (1 m)
  then show ?case by simp
next
  case (2 k' v kvs m)
  then have IH: "lookup (insert_all kvs (insert_at k' v m)) k =
      (case map_of kvs k of Some w \<Rightarrow> Some w | None \<Rightarrow> lookup (insert_at k' v m) k)"
    and "k' \<notin> fst ` set kvs"
    by (simp_all add: wf_insert)
  then have "map_of kvs k' = None" by (simp add: map_of_eq_None_iff)
  with IH "2.prems"(1) show ?case
    by (cases "k = k'") (simp_all add: lookup_insert split: option.splits)
qed

lemma keys_insert: "wf m \<Longrightarrow> fst ` set (entries (insert_at k v m)) = insert k (fst ` set (entries m))"
proof -
  assume m: "wf m"
  have "x \<in> fst ` set (entries n) \<longleftrightarrow> lookup n x \<noteq> None" if "wf n" for n x
    using entries_lookup [OF that] by force
  with m show ?thesis
    by (auto simp: wf_insert lookup_insert set_eq_iff)
qed

end

section \<open>The ordered association list\<close>

fun bt_insert :: "'k::linorder \<Rightarrow> 'v \<Rightarrow> ('k, 'v) btree_map \<Rightarrow> ('k, 'v) btree_map" where
  "bt_insert k v [] = [(k, v)]"
| "bt_insert k v ((k', v') # m) =
     (if k < k' then (k, v) # (k', v') # m
      else if k = k' then (k, v) # m
      else (k', v') # bt_insert k v m)"

definition bt_get :: "('k, 'v) btree_map \<Rightarrow> 'k \<Rightarrow> 'v option" where
  "bt_get m k = map_of m k"

definition bt_contains_key :: "('k, 'v) btree_map \<Rightarrow> 'k \<Rightarrow> bool" where
  "bt_contains_key m k \<longleftrightarrow> bt_get m k \<noteq> None"

definition bt_keys :: "('k, 'v) btree_map \<Rightarrow> 'k list" where
  "bt_keys m = map fst m"

definition bt_values :: "('k, 'v) btree_map \<Rightarrow> 'v list" where
  "bt_values m = map snd m"

definition bt_wf :: "('k::linorder, 'v) btree_map \<Rightarrow> bool" where
  "bt_wf m \<longleftrightarrow> sorted_wrt (<) (map fst m)"

lemma set_keys_bt_insert: "fst ` set (bt_insert k v m) = insert k (fst ` set m)"
proof (induction m)
  case Nil
  then show ?case by simp
next
  case (Cons kv m)
  obtain k' v' where "kv = (k', v')" by (cases kv)
  with Cons show ?case by (simp add: insert_commute)
qed

lemma bt_wf_empty [simp]: "bt_wf []"
  by (simp add: bt_wf_def)

lemma bt_wf_Cons: "bt_wf ((k, v) # m) \<longleftrightarrow> (\<forall>k' \<in> fst ` set m. k < k') \<and> bt_wf m"
  by (auto simp: bt_wf_def)

lemma bt_wf_insert [simp]: "bt_wf m \<Longrightarrow> bt_wf (bt_insert k v m)"
proof (induction m)
  case Nil
  then show ?case by (simp add: bt_wf_Cons)
next
  case (Cons kv m)
  obtain k' v' where kv: "kv = (k', v')" by (cases kv)
  with Cons show ?case
    by (auto simp: bt_wf_Cons set_keys_bt_insert)
qed

lemma bt_get_empty [simp, bt_simps]: "bt_get [] k = None"
  by (simp add: bt_get_def)

lemma bt_get_insert [simp, bt_simps]:
  "bt_get (bt_insert k v m) k' = (if k' = k then Some v else bt_get m k')"
  by (induction m) (auto simp: bt_get_def)

lemma bt_wf_distinct: "bt_wf m \<Longrightarrow> distinct (map fst m)"
  by (simp add: bt_wf_def strict_sorted_iff)

lemma bt_get_entries: "bt_wf m \<Longrightarrow> (k, v) \<in> set m \<longleftrightarrow> bt_get m k = Some v"
  by (simp add: bt_get_def bt_wf_distinct)

lemma bt_get_None_iff: "bt_get m k = None \<longleftrightarrow> k \<notin> fst ` set m"
  by (simp add: bt_get_def map_of_eq_None_iff)

lemma bt_keys_set: "set (bt_keys m) = {k. bt_get m k \<noteq> None}"
  by (auto simp: bt_keys_def bt_get_def map_of_eq_None_iff)

lemma bt_insert_not_Nil [simp]: "bt_insert k v m \<noteq> []"
  by (cases m) (auto split: if_splits)

text \<open>Two ordered maps with the same lookups are the same list: the order carries no information.\<close>

lemma bt_ext:
  assumes "bt_wf m" and "bt_wf n" and "\<And>k. bt_get m k = bt_get n k"
  shows "m = n"
proof -
  have keys: "map fst m = map fst n"
  proof (rule strict_sorted_equal)
    show "sorted_wrt (<) (map fst m)" "sorted_wrt (<) (map fst n)"
      using assms(1,2) by (simp_all add: bt_wf_def)
    have "set (bt_keys m) = set (bt_keys n)"
      by (simp add: bt_keys_set assms(3))
    then show "set (map fst m) = set (map fst n)"
      by (simp add: bt_keys_def)
  qed
  have set: "set m = set n"
    using assms bt_get_entries by (metis subsetI subset_antisym surj_pair)
  have "inj_on fst (set m \<union> set n)"
    using bt_wf_distinct [OF assms(1)] set by (simp add: distinct_map)
  then show ?thesis by (rule map_inj_on [OF keys])
qed

interpretation bt: keyed_store "[]" bt_get bt_insert "\<lambda>m. m" bt_wf
  by unfold_locales (auto simp: bt_get_entries)

end
