(* ===== verification/Canonical.thy ===== *)
theory Canonical
  imports Ordered_Map "HOL-Library.Multiset"
begin

text \<open>
  \<open>capsules/capsule-surface-model/src/canonical.rs\<close>: canonical JSON, document digests.

  \<open>raw_json\<close> is serde's data model of a JSON text: what \<open>serde_json\<close> hands to a visitor and what a
  \<open>Serialize\<close> instance emits, with the members of an object in textual order and possibly repeated.
  \<open>canonical_json\<close> is the source's \<open>CanonicalJson\<close>, whose objects are ordered maps. The text
  encoder and parser of \<open>serde_json\<close> and the BLAKE3 function are third-party code: they are the
  fields of the parameter \<open>host\<close>.
\<close>

section \<open>Data\<close>

datatype raw_json =
    RNull
  | RBool bool
  | RU64 u64
  | RI64 u64 \<comment> \<open>two's complement\<close>
  | RF64 f64
  | RStr string
  | RArr "raw_json list"
  | RObj "(string \<times> raw_json) list"

datatype json_number = PosInt u64 | NegInt u64 | Float f64

datatype canonical_json =
    CNull
  | CBool bool
  | CNumber json_number
  | CString string
  | CArray "canonical_json list"
  | CObject "(string, canonical_json) btree_map"

datatype json_error = JsonSyntax | JsonNotFinite | JsonDuplicateKey string | JsonIo

record host =
  serde_to_vec :: "raw_json \<Rightarrow> string option"
  serde_from_slice :: "string \<Rightarrow> raw_json option"
  blake3_hex :: "string \<Rightarrow> string"
  blake3_bytes :: "string \<Rightarrow> 8 word list"

definition max_canonical_document_bytes :: nat where
  "max_canonical_document_bytes = 1048576"

section \<open>Serialization of a canonical value\<close>

fun serialize_number :: "json_number \<Rightarrow> raw_json" where
  "serialize_number (PosInt n) = RU64 n"
| "serialize_number (NegInt n) = RI64 n"
| "serialize_number (Float x) = RF64 x"

fun serialize_canonical :: "canonical_json \<Rightarrow> raw_json" where
  "serialize_canonical CNull = RNull"
| "serialize_canonical (CBool b) = RBool b"
| "serialize_canonical (CNumber n) = serialize_number n"
| "serialize_canonical (CString s) = RStr s"
| "serialize_canonical (CArray vs) = RArr (map serialize_canonical vs)"
| "serialize_canonical (CObject m) = RObj (map (\<lambda>(k, v). (k, serialize_canonical v)) m)"

section \<open>The duplicate-rejecting visitor\<close>

definition number_from_i64 :: "u64 \<Rightarrow> json_number" where
  "number_from_i64 n = (if sint n < 0 then NegInt n else PosInt n)"

definition visit_f64 :: "f64 \<Rightarrow> json_error + canonical_json" where
  "visit_f64 x = (if f64_is_finite x then Ok (CNumber (Float x)) else Err JsonNotFinite)"

fun visit :: "raw_json \<Rightarrow> json_error + canonical_json"
and visit_seq :: "raw_json list \<Rightarrow> json_error + canonical_json list"
and visit_map :: "(string, canonical_json) btree_map \<Rightarrow> (string \<times> raw_json) list
      \<Rightarrow> json_error + (string, canonical_json) btree_map" where
  "visit RNull = Ok CNull"
| "visit (RBool b) = Ok (CBool b)"
| "visit (RU64 n) = Ok (CNumber (PosInt n))"
| "visit (RI64 n) = Ok (CNumber (number_from_i64 n))"
| "visit (RF64 x) = visit_f64 x"
| "visit (RStr s) = Ok (CString s)"
| "visit (RArr vs) = and_then (visit_seq vs) (\<lambda>cs. Ok (CArray cs))"
| "visit (RObj ms) = and_then (visit_map [] ms) (\<lambda>m. Ok (CObject m))"
| "visit_seq [] = Ok []"
| "visit_seq (v # vs) =
     and_then (visit v) (\<lambda>c. and_then (visit_seq vs) (\<lambda>cs. Ok (c # cs)))"
| "visit_map acc [] = Ok acc"
| "visit_map acc ((k, v) # ms) =
     and_then (visit v) (\<lambda>c.
       if bt_contains_key acc k then Err (JsonDuplicateKey k)
       else visit_map (bt_insert k c acc) ms)"

section \<open>Canonical bytes and digests\<close>

definition canonical_bytes :: "host \<Rightarrow> raw_json \<Rightarrow> json_error + string" where
  "canonical_bytes H v =
     and_then (ok_or JsonSyntax (serde_to_vec H v)) (\<lambda>raw.
     and_then (map_err (\<lambda>_. JsonIo) (and_then (ok_or JsonSyntax (serde_from_slice H raw)) visit)) (\<lambda>parsed.
     ok_or JsonSyntax (serde_to_vec H (serialize_canonical parsed))))"

definition len_bytes :: "host \<Rightarrow> canonical_json \<Rightarrow> nat" where
  "len_bytes H c = (case canonical_bytes H (serialize_canonical c) of
     Err _ \<Rightarrow> usize_max | Ok bytes \<Rightarrow> length bytes)"

definition parse_canonical :: "host \<Rightarrow> (string \<Rightarrow> 't option) \<Rightarrow> string \<Rightarrow> json_error + 't" where
  "parse_canonical H decode input =
     (if length input > max_canonical_document_bytes then Err JsonIo
      else and_then (ok_or JsonSyntax (serde_from_slice H input)) (\<lambda>raw.
           and_then (visit raw) (\<lambda>parsed.
           and_then (ok_or JsonSyntax (serde_to_vec H (serialize_canonical parsed))) (\<lambda>canonical.
           ok_or JsonSyntax (decode canonical)))))"

definition digest_parts :: "host \<Rightarrow> raw_json \<Rightarrow> json_error + string" where
  "digest_parts H parts = and_then (canonical_bytes H parts) (\<lambda>bytes. Ok (blake3_hex H bytes))"

definition is_lower_hex :: "char \<Rightarrow> bool" where
  "is_lower_hex c \<longleftrightarrow> is_ascii_digit c \<or> (let n = (of_char c :: nat) in 97 \<le> n \<and> n \<le> 102)"

definition valid_blake3_digest :: "string \<Rightarrow> bool" where
  "valid_blake3_digest s \<longleftrightarrow> length s = 64 \<and> list_all is_lower_hex s"

section \<open>What the visitor accepts\<close>

fun clean_json :: "raw_json \<Rightarrow> bool" where
  "clean_json (RF64 x) \<longleftrightarrow> f64_is_finite x"
| "clean_json (RArr vs) \<longleftrightarrow> list_all clean_json vs"
| "clean_json (RObj ms) \<longleftrightarrow> distinct (map fst ms) \<and> list_all (\<lambda>(_, v). clean_json v) ms"
| "clean_json _ \<longleftrightarrow> True"

fun wf_number :: "json_number \<Rightarrow> bool" where
  "wf_number (NegInt n) \<longleftrightarrow> sint n < 0"
| "wf_number (Float x) \<longleftrightarrow> f64_is_finite x"
| "wf_number (PosInt _) \<longleftrightarrow> True"

fun wf_canonical :: "canonical_json \<Rightarrow> bool" where
  "wf_canonical (CNumber n) \<longleftrightarrow> wf_number n"
| "wf_canonical (CArray vs) \<longleftrightarrow> list_all wf_canonical vs"
| "wf_canonical (CObject m) \<longleftrightarrow> bt_wf m \<and> list_all (\<lambda>(_, v). wf_canonical v) m"
| "wf_canonical _ \<longleftrightarrow> True"

definition visited :: "(string \<times> raw_json) list \<Rightarrow> (string \<times> canonical_json) list" where
  "visited ms = map (\<lambda>(k, v). (k, projr (visit v))) ms"

lemma visited_simps [simp]:
  "visited [] = []"
  "visited ((k, v) # ms) = (k, projr (visit v)) # visited ms"
  by (simp_all add: visited_def)

lemma fst_visited [simp]: "map fst (visited ms) = map fst ms"
  by (simp add: visited_def case_prod_beta comp_def)

lemma visit_seq_Ok_iff:
  "visit_seq vs = Ok cs \<longleftrightarrow> list_all2 (\<lambda>v c. visit v = Ok c) vs cs"
  by (induction vs arbitrary: cs) (auto simp: result_simps list_all2_Cons1)

lemma visit_map_Ok_iff:
  "visit_map acc ms = Ok m \<longleftrightarrow>
     distinct (map fst ms) \<and> fst ` set ms \<inter> fst ` set acc = {} \<and>
     (\<forall>(k, v) \<in> set ms. is_ok (visit v)) \<and> m = bt.insert_all (visited ms) acc"
proof (induction ms arbitrary: acc)
  case Nil
  then show ?case by auto
next
  case (Cons kv ms)
  obtain k v where kv: "kv = (k, v)" by (cases kv)
  show ?case
  proof (cases "visit v")
    case (Inl e)
    with kv show ?thesis by (simp add: is_ok_iff)
  next
    case (Inr c)
    show ?thesis
      by (simp add: kv Inr Cons.IH bt_contains_key_def bt_get_None_iff set_keys_bt_insert) blast
  qed
qed

lemma is_ok_visit_seq: "is_ok (visit_seq vs) \<longleftrightarrow> (\<forall>v \<in> set vs. is_ok (visit v))"
  by (induction vs) (auto simp: is_ok_iff result_simps)

lemma is_ok_visit_obj:
  "is_ok (visit (RObj ms)) \<longleftrightarrow> distinct (map fst ms) \<and> (\<forall>(k, v) \<in> set ms. is_ok (visit v))"
  by (simp add: result_simps visit_map_Ok_iff)

lemma is_ok_visit_iff: "is_ok (visit r) \<longleftrightarrow> clean_json r"
proof (induction r)
  case (RArr vs)
  then show ?case
    using is_ok_visit_seq [of vs]
    by (auto simp: is_ok_iff result_simps list_all_iff)
next
  case (RObj ms)
  then have "is_ok (visit v) \<longleftrightarrow> clean_json v" if "(k, v) \<in> set ms" for k v
    using that by (metis prod_set_simps(2) singletonI snds.intros)
  then show ?case
    unfolding is_ok_visit_obj by (auto simp: list_all_iff)
qed (simp_all add: visit_f64_def)

lemma bt_wf_insert_all: "bt_wf acc \<Longrightarrow> bt_wf (bt.insert_all kvs acc)"
  by (rule bt.wf_insert_all)

lemma set_insert_all:
  "bt_wf acc \<Longrightarrow> distinct (map fst kvs) \<Longrightarrow> fst ` set kvs \<inter> fst ` set acc = {} \<Longrightarrow>
     set (bt.insert_all kvs acc) = set kvs \<union> set acc"
proof -
  assume wf: "bt_wf acc" and d: "distinct (map fst kvs)" and disj: "fst ` set kvs \<inter> fst ` set acc = {}"
  have "(k, v) \<in> set (bt.insert_all kvs acc) \<longleftrightarrow> (k, v) \<in> set kvs \<union> set acc" for k v
  proof -
    have kvs: "(k, v) \<in> set kvs \<longleftrightarrow> map_of kvs k = Some v"
      using d by (simp add: map_of_eq_Some_iff)
    have acc: "(k, v) \<in> set acc \<longleftrightarrow> bt_get acc k = Some v"
      using wf by (rule bt_get_entries)
    have "map_of kvs k = None \<or> bt_get acc k = None"
      using disj by (auto simp: map_of_eq_None_iff bt_get_None_iff)
    then show ?thesis
      by (auto simp: bt_get_entries [OF bt_wf_insert_all [OF wf]] bt.lookup_insert_all [OF wf d]
          kvs acc split: option.splits)
  qed
  then show ?thesis by (simp add: set_eq_iff)
qed

section \<open>The visitor normalizes\<close>

lemma wf_number_from_i64: "wf_number (number_from_i64 n)"
  by (simp add: number_from_i64_def)

lemma visit_obj_eq:
  "visit (RObj ms) = Ok c \<longleftrightarrow>
     distinct (map fst ms) \<and> (\<forall>(k, v) \<in> set ms. is_ok (visit v)) \<and>
     c = CObject (bt.insert_all (visited ms) [])"
  by (auto simp: result_simps visit_map_Ok_iff)

lemma visit_objD:
  assumes "visit (RObj ms) = Ok c"
  shows "distinct (map fst ms)" and "\<forall>(k, v) \<in> set ms. is_ok (visit v)"
    and "c = CObject (bt.insert_all (visited ms) [])"
  using assms unfolding visit_obj_eq by blast+

lemma visit_Ok_wf_canonical: "visit r = Ok c \<Longrightarrow> wf_canonical c"
proof (induction r arbitrary: c)
  case (RI64 n)
  then show ?case by (auto simp: wf_number_from_i64)
next
  case (RF64 x)
  then show ?case by (auto simp: visit_f64_def split: if_splits)
next
  case (RArr vs)
  then obtain cs where cs: "list_all2 (\<lambda>v c. visit v = Ok c) vs cs" and c: "c = CArray cs"
    by (auto simp: result_simps visit_seq_Ok_iff)
  have "wf_canonical d" if "d \<in> set cs" for d
    using that cs RArr.IH by (fastforce simp: list_all2_conv_all_nth in_set_conv_nth)
  then show ?case by (simp add: c list_all_iff)
next
  case (RObj ms)
  note ok = visit_objD(2) [OF RObj.prems] and c = visit_objD(3) [OF RObj.prems]
  have d: "distinct (map fst (visited ms))"
    using visit_objD(1) [OF RObj.prems] by simp
  have "wf_canonical w" if "(k, w) \<in> set (visited ms)" for k w
  proof -
    from that obtain v where v: "(k, v) \<in> set ms" "w = projr (visit v)"
      by (auto simp: visited_def)
    with ok obtain w' where "visit v = Ok w'" by (auto simp: is_ok_iff)
    with v RObj.IH [OF v(1)] show ?thesis by simp
  qed
  then show ?case
    by (auto simp: c list_all_iff bt_wf_insert_all set_insert_all [OF bt_wf_empty d])
qed (auto)

lemma insert_all_unique:
  assumes "distinct (map fst kvs)" and "distinct (map fst lvs)" and "set kvs = set lvs"
  shows "bt.insert_all kvs [] = bt.insert_all lvs []"
proof (rule bt_ext)
  have "map_of kvs = map_of lvs"
    using assms by (simp add: map_of_inject_set)
  then show "bt_get (bt.insert_all kvs []) k = bt_get (bt.insert_all lvs []) k" for k
    by (simp add: bt.lookup_insert_all assms)
qed (simp_all add: bt_wf_insert_all)

lemma insert_all_sorted: "bt_wf m \<Longrightarrow> bt.insert_all m [] = m"
proof (rule bt_ext)
  assume m: "bt_wf m"
  show "bt_get (bt.insert_all m []) k = bt_get m k" for k
    using bt.lookup_insert_all [OF bt_wf_empty bt_wf_distinct [OF m], of k]
    by (simp add: bt_get_def split: option.splits)
qed (simp_all add: bt_wf_insert_all)

lemma visit_serialize_number: "wf_number n \<Longrightarrow> visit (serialize_number n) = Ok (CNumber n)"
  by (cases n) (simp_all add: number_from_i64_def visit_f64_def)

lemma visit_serialize: "wf_canonical c \<Longrightarrow> visit (serialize_canonical c) = Ok c"
proof (induction c)
  case (CNumber n)
  then show ?case by (simp add: visit_serialize_number)
next
  case (CArray vs)
  then have "visit_seq (map serialize_canonical vs) = Ok vs"
    by (auto simp: visit_seq_Ok_iff list_all2_map1 list_all_iff intro!: list.rel_refl_strong)
  then show ?case by simp
next
  case (CObject m)
  let ?ms = "map (\<lambda>(k, v). (k, serialize_canonical v)) m"
  have ok: "visit (serialize_canonical v) = Ok v" if "(k, v) \<in> set m" for k v
    using that CObject by (fastforce simp: list_all_iff)
  have keys: "map fst ?ms = map fst m"
    by (simp add: case_prod_beta comp_def)
  have "visited ?ms = m"
    unfolding visited_def map_map using ok by (intro map_idI) auto
  moreover have "bt_wf m" using CObject.prems by simp
  ultimately have "visit (RObj ?ms) = Ok (CObject m)"
    unfolding visit_obj_eq keys
    using bt_wf_distinct [of m] ok by (auto simp: insert_all_sorted)
  then show ?case by simp
qed (simp_all)

inductive same_document :: "raw_json \<Rightarrow> raw_json \<Rightarrow> bool" where
  same_refl: "same_document r r"
| same_arr: "list_all2 same_document vs ws \<Longrightarrow> same_document (RArr vs) (RArr ws)"
| same_obj: "mset ms = mset ms' \<Longrightarrow>
     list_all2 (rel_prod (=) same_document) ms' ns \<Longrightarrow> same_document (RObj ms) (RObj ns)"

lemma visit_obj_pointwise:
  assumes "list_all2 (rel_prod (=) (\<lambda>v w. \<forall>c. visit v = Ok c \<longrightarrow> visit w = Ok c)) ms ns"
    and "visit (RObj ms) = Ok c"
  shows "visit (RObj ns) = Ok c"
proof -
  note d = visit_objD(1) [OF assms(2)] and ok = visit_objD(2) [OF assms(2)]
    and c = visit_objD(3) [OF assms(2)]
  have "map fst ns = map fst ms \<and> visited ns = visited ms \<and> (\<forall>(k, v) \<in> set ns. is_ok (visit v))"
    using assms(1) ok
  proof (induction ms ns rule: list_all2_induct)
    case Nil
    then show ?case by simp
  next
    case (Cons x xs y ys)
    obtain k v l w where xy: "x = (k, v)" "y = (l, w)" by (cases x, cases y)
    with Cons.prems obtain c where "visit v = Ok c" by (auto simp: is_ok_iff)
    with Cons xy show ?case by auto
  qed
  then have keys: "map fst ns = map fst ms" and vis: "visited ns = visited ms"
    and ok': "\<forall>(k, v) \<in> set ns. is_ok (visit v)"
    by blast+
  show ?thesis
    unfolding visit_obj_eq keys vis using d ok' c by blast
qed

lemma visit_obj_permuted:
  assumes "mset ms = mset ns" and "visit (RObj ms) = Ok c"
  shows "visit (RObj ns) = Ok c"
proof -
  note d = visit_objD(1) [OF assms(2)] and ok = visit_objD(2) [OF assms(2)]
    and c = visit_objD(3) [OF assms(2)]
  have sets: "set ms = set ns" using assms(1) by (rule mset_eq_setD)
  have "mset (map fst ms) = mset (map fst ns)" using assms(1) by simp
  then have d': "distinct (map fst ns)" using d by (metis mset_eq_imp_distinct_iff)
  have "set (visited ms) = set (visited ns)" by (simp add: visited_def sets)
  then have "bt.insert_all (visited ms) [] = bt.insert_all (visited ns) []"
    by (intro insert_all_unique) (simp_all add: d d')
  then show ?thesis
    unfolding visit_obj_eq using d' ok sets c by simp
qed

lemma same_document_visit: "same_document r s \<Longrightarrow> visit r = Ok c \<Longrightarrow> visit s = Ok c"
proof (induction arbitrary: c rule: same_document.induct)
  case (same_refl r)
  then show ?case by simp
next
  case (same_arr vs ws)
  from same_arr.prems obtain cs where cs: "list_all2 (\<lambda>v c. visit v = Ok c) vs cs" and c: "c = CArray cs"
    by (auto simp: result_simps visit_seq_Ok_iff)
  have "list_all2 (\<lambda>v c. visit v = Ok c) ws cs"
    using same_arr.IH cs by (fastforce simp: list_all2_conv_all_nth)
  then show ?case by (auto simp: c result_simps visit_seq_Ok_iff)
next
  case (same_obj ms ms' ns)
  from same_obj.IH have "list_all2 (rel_prod (=) (\<lambda>v w. \<forall>c. visit v = Ok c \<longrightarrow> visit w = Ok c)) ms' ns"
    by (rule list_all2_mono) (auto elim!: rel_prod.cases)
  then show ?case
    using visit_obj_pointwise visit_obj_permuted same_obj.hyps(1) same_obj.prems by blast
qed

definition reads_back :: "host \<Rightarrow> raw_json \<Rightarrow> bool" where
  "reads_back H r \<longleftrightarrow> (\<exists>s. serde_to_vec H r = Some s \<and> serde_from_slice H s = Some r)"

lemma digest_reads_back:
  "reads_back H r \<Longrightarrow> visit r = Ok c \<Longrightarrow>
     digest_parts H r = and_then (ok_or JsonSyntax (serde_to_vec H (serialize_canonical c)))
       (\<lambda>bytes. Ok (blake3_hex H bytes))"
  by (auto simp: reads_back_def digest_parts_def canonical_bytes_def)

lemma digest_Ok_visit:
  assumes "reads_back H r" and "digest_parts H r = Ok d"
  obtains c where "visit r = Ok c"
  using assms by (auto simp: reads_back_def digest_parts_def canonical_bytes_def result_simps)

text \<open>A valid digest is 64 lowercase hexadecimal characters, so it is a well-formed document field.\<close>

lemma valid_blake3_digest_length: "valid_blake3_digest s \<Longrightarrow> length s = 64"
  by (simp add: valid_blake3_digest_def)

lemma valid_blake3_digest_not_Nil: "valid_blake3_digest s \<Longrightarrow> s \<noteq> []"
  by (auto simp: valid_blake3_digest_def)

section \<open>Properties\<close>

text \<open>The canonical JSON visitor accepts a document exactly when every number in it is finite and
  no object in it, at any depth, repeats a member name.\<close>

theorem canonical_accepts_iff: "is_ok (visit r) \<longleftrightarrow> clean_json r"
  by (rule is_ok_visit_iff)

text \<open>C35. Canonicalization is a normal form: what the visitor returns has strictly ascending member
  names in every object, and serializing it and visiting it again returns it unchanged.\<close>

theorem canonical_normal_form:
  assumes "visit r = Ok c"
  shows "wf_canonical c \<and> visit (serialize_canonical c) = Ok c"
  using visit_Ok_wf_canonical [OF assms] visit_serialize by blast

theorem canonical_normal_form_witness:
  "visit (RObj [(''z'', RU64 1), (''a'', RI64 2)]) =
     Ok (CObject [(''a'', CNumber (PosInt 2)), (''z'', CNumber (PosInt 1))]) \<and>
   visit (serialize_canonical (CObject [(''a'', CNumber (PosInt 2)), (''z'', CNumber (PosInt 1))])) =
     Ok (CObject [(''a'', CNumber (PosInt 2)), (''z'', CNumber (PosInt 1))])"
proof -
  have h: "visit (RObj [(''z'', RU64 1), (''a'', RI64 2)]) =
     Ok (CObject [(''a'', CNumber (PosInt 2)), (''z'', CNumber (PosInt 1))])"
    by code_simp
  with canonical_normal_form [OF h] show ?thesis by blast
qed

text \<open>Two JSON texts of the same document, which differ only in the order of object members at
  any depth, have the same content digest (whenever the JSON library reads back what it wrote).\<close>

theorem digest_ignores_member_order:
  assumes "same_document r s" and "reads_back H r" and "reads_back H s"
    and "digest_parts H r = Ok d"
  shows "digest_parts H s = Ok d"
proof -
  obtain c where c: "visit r = Ok c" using digest_Ok_visit assms(2,4) .
  with assms(1) have "visit s = Ok c" by (rule same_document_visit)
  with c assms(2,3,4) show ?thesis by (simp add: digest_reads_back)
qed

definition example_host :: host where
  "example_host = \<lparr>
     serde_to_vec = (\<lambda>r. Some (if r = RObj [(''b'', RNull), (''a'', RNull)] then ''b,a''
                          else if r = RObj [(''a'', RNull), (''b'', RNull)] then ''a,b'' else ''?'')),
     serde_from_slice = (\<lambda>s. if s = ''b,a'' then Some (RObj [(''b'', RNull), (''a'', RNull)])
                          else if s = ''a,b'' then Some (RObj [(''a'', RNull), (''b'', RNull)]) else None),
     blake3_hex = (\<lambda>s. replicate 61 (CHR ''0'') @ s),
     blake3_bytes = (\<lambda>s. replicate 32 0)\<rparr>"

theorem digest_ignores_member_order_witness:
  "digest_parts example_host (RObj [(''a'', RNull), (''b'', RNull)]) =
     Ok (replicate 61 (CHR ''0'') @ ''a,b'')"
proof (rule digest_ignores_member_order)
  show "same_document (RObj [(''b'', RNull), (''a'', RNull)]) (RObj [(''a'', RNull), (''b'', RNull)])"
    by (rule same_obj [where ms' = "[(''a'', RNull), (''b'', RNull)]"]) (auto intro: same_refl)
  show "reads_back example_host (RObj [(''b'', RNull), (''a'', RNull)])"
    "reads_back example_host (RObj [(''a'', RNull), (''b'', RNull)])"
    by (auto simp: reads_back_def example_host_def)
  show "digest_parts example_host (RObj [(''b'', RNull), (''a'', RNull)]) =
      Ok (replicate 61 (CHR ''0'') @ ''a,b'')"
    by code_simp
qed

end
