(* ===== verification/Identity.thy ===== *)
theory Identity
  imports Canonical
begin

text \<open>
  \<open>capsules/capsule-surface-model/src/activity.rs\<close>: opaque owner and actor references, and the
  identifier syntax that every document of the surface model uses.
\<close>

definition max_id_bytes :: nat where "max_id_bytes = 256"

definition document_char :: "char \<Rightarrow> bool" where
  "document_char c \<longleftrightarrow> is_ascii_alphanumeric c \<or> c \<in> set ''.-_:''"

section \<open>Owners\<close>

datatype opaque_owner_ref = OwnerUser string | OwnerPrincipal string | OwnerFleet string

fun owner_id :: "opaque_owner_ref \<Rightarrow> string" where
  "owner_id (OwnerUser i) = i"
| "owner_id (OwnerPrincipal i) = i"
| "owner_id (OwnerFleet i) = i"

definition owner_is_valid :: "opaque_owner_ref \<Rightarrow> bool" where
  "owner_is_valid r \<longleftrightarrow> owner_id r \<noteq> [] \<and> length (owner_id r) \<le> max_id_bytes \<and>
     \<not> contains_str (owner_id r) ''..'' \<and> list_all document_char (owner_id r)"

definition owner_deserialize :: "opaque_owner_ref \<Rightarrow> string + opaque_owner_ref" where
  "owner_deserialize parsed =
     (if owner_is_valid parsed then Ok parsed else Err ''invalid opaque owner reference'')"

fun owner_json :: "opaque_owner_ref \<Rightarrow> raw_json" where
  "owner_json (OwnerUser i) = RObj [(''kind'', RStr ''user''), (''id'', RStr i)]"
| "owner_json (OwnerPrincipal i) = RObj [(''kind'', RStr ''principal''), (''id'', RStr i)]"
| "owner_json (OwnerFleet i) = RObj [(''kind'', RStr ''fleet''), (''id'', RStr i)]"

section \<open>Principals\<close>

datatype opaque_principal_ref = PrincipalUser string | PrincipalAgent string | PrincipalService string

fun principal_id :: "opaque_principal_ref \<Rightarrow> string" where
  "principal_id (PrincipalUser i) = i"
| "principal_id (PrincipalAgent i) = i"
| "principal_id (PrincipalService i) = i"

definition principal_is_valid :: "opaque_principal_ref \<Rightarrow> bool" where
  "principal_is_valid r \<longleftrightarrow> principal_id r \<noteq> [] \<and> length (principal_id r) \<le> max_id_bytes \<and>
     \<not> contains_str (principal_id r) ''..'' \<and> list_all document_char (principal_id r)"

definition principal_deserialize :: "opaque_principal_ref \<Rightarrow> string + opaque_principal_ref" where
  "principal_deserialize parsed =
     (if principal_is_valid parsed then Ok parsed else Err ''invalid opaque principal'')"

lemma owner_json_inject: "owner_json r = owner_json r' \<longleftrightarrow> r = r'"
  by (cases r; cases r') auto

text \<open>
  \<open>capsules/capsule-surface-model/src/error.rs\<close>: namespaced, bounded extension values, and the error
  types of document validation.
\<close>

section \<open>Errors\<close>

datatype extension_error =
    NotNamespaced string
  | InvalidKey string
  | DuplicateKey string
  | TooLarge string
  | Unsupported string

datatype document_error =
    DocCanonical string
  | DocSchema
  | DocInvalid string
  | DocExtensions extension_error

section \<open>Extensions\<close>

type_synonym extensions = "(string \<times> canonical_json) list"

definition max_extension_value_bytes :: nat where "max_extension_value_bytes = 4096"
definition max_extension_key_bytes :: nat where "max_extension_key_bytes = 256"

definition extension_key_char :: "char \<Rightarrow> bool" where
  "extension_key_char c \<longleftrightarrow> is_ascii_alphanumeric c \<or> c \<in> set ''.-_/:''"

definition find_separator :: "string \<Rightarrow> nat option" where
  "find_separator key =
     (if \<exists>c \<in> set key. c \<in> set ''/:''
      then Some (length (takeWhile (\<lambda>c. c \<notin> set ''/:'') key)) else None)"

definition validate_key :: "string \<Rightarrow> extension_error + unit" where
  "validate_key key =
     and_then (ok_or (NotNamespaced key) (find_separator key)) (\<lambda>separator.
       if separator = 0 \<or> length key > max_extension_key_bytes \<or>
          \<not> list_all extension_key_char key \<or> contains_str key ''..''
       then Err (InvalidKey key) else Ok ())"

fun extensions_check :: "host \<Rightarrow> string set \<Rightarrow> extensions \<Rightarrow> extension_error + unit" where
  "extensions_check H seen [] = Ok ()"
| "extensions_check H seen ((key, value) # rest) =
     and_then (validate_key key) (\<lambda>_.
       if len_bytes H value > max_extension_value_bytes then Err (TooLarge key)
       else if key \<in> seen then Err (DuplicateKey key)
       else extensions_check H (insert key seen) rest)"

definition extensions_new :: "host \<Rightarrow> extensions \<Rightarrow> extension_error + extensions" where
  "extensions_new H values = and_then (extensions_check H {} values) (\<lambda>_. Ok values)"

definition extensions_validate :: "host \<Rightarrow> extensions \<Rightarrow> extension_error + unit" where
  "extensions_validate H es = and_then (extensions_new H es) (\<lambda>_. Ok ())"

definition extensions_get :: "extensions \<Rightarrow> string \<Rightarrow> extension_error + canonical_json" where
  "extensions_get es key =
     and_then (validate_key key) (\<lambda>_.
       ok_or (Unsupported key) (map_option snd (find (\<lambda>(stored, _). stored = key) es)))"

definition extensions_is_empty :: "extensions \<Rightarrow> bool" where
  "extensions_is_empty es \<longleftrightarrow> es = []"

definition extensions_json :: "extensions \<Rightarrow> raw_json" where
  "extensions_json es = RArr (map (\<lambda>(k, v). RArr [RStr k, serialize_canonical v]) es)"

section \<open>What is accepted\<close>

definition key_ok :: "string \<Rightarrow> bool" where
  "key_ok key \<longleftrightarrow>
     (case key of [] \<Rightarrow> False | c # _ \<Rightarrow> c \<noteq> CHR ''/'' \<and> c \<noteq> CHR '':'') \<and>
     (CHR ''/'' \<in> set key \<or> CHR '':'' \<in> set key) \<and> length key \<le> 256 \<and>
     list_all extension_key_char key \<and> \<not> contains_str key ''..''"

lemma validate_key_Ok_iff: "validate_key key = Ok u \<longleftrightarrow> key_ok key"
  by (cases key)
     (auto simp: validate_key_def find_separator_def key_ok_def result_simps
        max_extension_key_bytes_def split: if_splits)

lemma extensions_check_Ok_iff:
  "extensions_check H seen es = Ok u \<longleftrightarrow>
     list_all (\<lambda>(k, v). key_ok k \<and> len_bytes H v \<le> max_extension_value_bytes) es \<and>
     distinct (map fst es) \<and> fst ` set es \<inter> seen = {}"
proof (induction es arbitrary: seen)
  case Nil
  then show ?case by simp
next
  case (Cons kv es)
  obtain k v where kv: "kv = (k, v)" by (cases kv)
  show ?case
  proof (cases "key_ok k \<and> len_bytes H v \<le> max_extension_value_bytes \<and> k \<notin> seen")
    case True
    then have "validate_key k = Ok ()" by (simp add: validate_key_Ok_iff)
    then have step: "extensions_check H seen (kv # es) = extensions_check H (insert k seen) es"
      using True by (simp add: kv)
    show ?thesis
      unfolding step Cons.IH using True by (simp add: kv) blast
  next
    case False
    then show ?thesis
      by (auto simp: kv result_simps validate_key_Ok_iff split: if_splits)
  qed
qed

lemma extensions_validate_Ok_iff:
  "extensions_validate H es = Ok u \<longleftrightarrow>
     list_all (\<lambda>(k, v). key_ok k \<and> len_bytes H v \<le> max_extension_value_bytes) es \<and>
     distinct (map fst es)"
  by (auto simp: extensions_validate_def extensions_new_def result_simps extensions_check_Ok_iff)

lemma find_map_of: "map_option snd (find (\<lambda>(stored, _). stored = k) es) = map_of es k"
  by (induction es) auto

text \<open>Reading an extension from a validated set is a finite-map lookup with two distinct failures:
  a key that is not a bounded, namespaced, traversal-free name is rejected as such, and only a well-formed
  key without a stored value is reported as unsupported.\<close>

theorem extensions_get_spec:
  "extensions_get es key =
     (if key_ok key then (case map_of es key of Some v \<Rightarrow> Ok v | None \<Rightarrow> Err (Unsupported key))
      else if CHR ''/'' \<in> set key \<or> CHR '':'' \<in> set key then Err (InvalidKey key)
      else Err (NotNamespaced key))"
proof (cases "key_ok key")
  case True
  then have "validate_key key = Ok ()" by (simp add: validate_key_Ok_iff)
  with True show ?thesis
    by (simp add: extensions_get_def find_map_of split: option.splits)
next
  case False
  then have "validate_key key \<noteq> Ok ()" by (simp add: validate_key_Ok_iff)
  with False show ?thesis
    by (auto simp: extensions_get_def validate_key_def find_separator_def split: if_splits)
qed

end
