(* ===== verification/Bindings.thy ===== *)
theory Bindings
  imports Identity 
begin

text \<open>
  \<open>capsules/capsule-surface-model/src/bindings.rs\<close>: binding references of durable documents. A binding
  describes a target and never grants authority.
\<close>

section \<open>Syntactic checks\<close>

definition bounded :: "string \<Rightarrow> nat \<Rightarrow> bool" where
  "bounded value mx \<longleftrightarrow> value \<noteq> [] \<and> length value \<le> mx"

definition identifier_char :: "char \<Rightarrow> bool" where
  "identifier_char c \<longleftrightarrow> is_ascii_alphanumeric c \<or> c \<in> set ''.-_:*''"

definition valid_identifier :: "string \<Rightarrow> nat \<Rightarrow> bool" where
  "valid_identifier value mx \<longleftrightarrow>
     bounded value mx \<and> list_all identifier_char value \<and> \<not> contains_str value ''..''"

definition valid_interface :: "string \<Rightarrow> bool" where
  "valid_interface value \<longleftrightarrow> CHR '':'' \<in> set value \<and> valid_identifier value 256"

definition is_ascii_control :: "char \<Rightarrow> bool" where
  "is_ascii_control c \<longleftrightarrow> (let n = (of_char c :: nat) in n < 32 \<or> n = 127)"

fun contains_control :: "string \<Rightarrow> bool" where
  "contains_control [] \<longleftrightarrow> False"
| "contains_control [c] \<longleftrightarrow> is_ascii_control c"
| "contains_control (c # d # cs) \<longleftrightarrow> is_ascii_control c \<or>
     (of_char c :: nat) = 0xC2 \<and> 0x80 \<le> (of_char d :: nat) \<and> (of_char d :: nat) \<le> 0x9F \<or>
     contains_control (d # cs)"

definition mime_char :: "char \<Rightarrow> bool" where
  "mime_char c \<longleftrightarrow> is_ascii_alphanumeric c \<or> c \<in> set ''/;=-+._ ''"

definition valid_mime :: "string \<Rightarrow> bool" where
  "valid_mime value =
     (let (kind, parameters) = (case split_once (CHR '';'') value of Some kp \<Rightarrow> kp | None \<Rightarrow> (value, []))
      in if \<not> bounded value 128 \<or> contains_control parameters \<or>
            contains_str (to_ascii_lowercase parameters) ''path='' \<or>
            contains_str (to_ascii_lowercase parameters) ''home=''
         then False
         else (case split_once (CHR ''/'') (trim_ascii kind) of
                 None \<Rightarrow> False
               | Some (type_name, subtype) \<Rightarrow>
                   type_name \<noteq> [] \<and> subtype \<noteq> [] \<and> list_all mime_char value))"

section \<open>Bindings\<close>

record capsule_binding =
  cb_capsule :: string
  cb_interface :: string
  cb_contract_version :: string
  cb_requested_route :: string

definition capsule_binding_validate :: "capsule_binding \<Rightarrow> document_error + unit" where
  "capsule_binding_validate b =
     (if valid_identifier (cb_capsule b) 128 \<and> valid_interface (cb_interface b) \<and>
         valid_identifier (cb_contract_version b) 32 \<and> valid_identifier (cb_requested_route b) 256
      then Ok () else Err (DocInvalid ''capsule binding''))"

datatype restore_policy = RestoreRecipe | CloseOnRestart | PreserveFocusOnly

record native_binding =
  nb_app_identity :: string
  nb_portal_contract :: string
  nb_descriptor_schema :: string
  nb_descriptor_id :: string
  nb_restore_policy :: restore_policy

definition native_binding_validate :: "native_binding \<Rightarrow> document_error + unit" where
  "native_binding_validate b =
     (if valid_identifier (nb_app_identity b) 256 \<and> valid_interface (nb_portal_contract b) \<and>
         valid_identifier (nb_descriptor_schema b) 256 \<and> valid_identifier (nb_descriptor_id b) 256
      then Ok () else Err (DocInvalid ''native binding''))"

datatype freshness_policy = Always | Immutable | OlderThanMs u64
datatype cache_policy = NoStore | Private | Shared

record data_binding =
  db_owner :: opaque_owner_ref
  db_kernel_object_id :: string
  db_grant_id :: "string option"
  db_content_hash :: string
  db_mime :: string
  db_freshness :: freshness_policy
  db_cache :: cache_policy

definition data_binding_validate :: "data_binding \<Rightarrow> document_error + unit" where
  "data_binding_validate b =
     (if \<not> valid_identifier (db_kernel_object_id b) 256 then Err (DocInvalid ''data object id'')
      else if \<not> owner_is_valid (db_owner b) then Err (DocInvalid ''data owner'')
      else if \<not> (case db_grant_id b of None \<Rightarrow> True | Some i \<Rightarrow> valid_identifier i 256)
        then Err (DocInvalid ''data grant id'')
      else if \<not> valid_blake3_digest (db_content_hash b) \<or> \<not> valid_mime (db_mime b)
        then Err (DocInvalid ''data content reference'')
      else Ok ())"

datatype binding =
    BindingCapsule capsule_binding
  | BindingNative native_binding
  | BindingData data_binding

fun binding_validate :: "binding \<Rightarrow> document_error + unit" where
  "binding_validate (BindingCapsule b) = capsule_binding_validate b"
| "binding_validate (BindingNative b) = native_binding_validate b"
| "binding_validate (BindingData b) = data_binding_validate b"

datatype rhai_reference =
    NamedProfile string
  | StricterThanCeiling string string

fun rhai_ok :: "rhai_reference \<Rightarrow> bool" where
  "rhai_ok (NamedProfile profile) \<longleftrightarrow> valid_identifier profile 128"
| "rhai_ok (StricterThanCeiling ceiling requested) \<longleftrightarrow>
     valid_identifier ceiling 128 \<and> valid_identifier requested 128 \<and> ceiling \<noteq> requested"

definition rhai_validate :: "rhai_reference \<Rightarrow> document_error + unit" where
  "rhai_validate r = (if rhai_ok r then Ok () else Err (DocInvalid ''Rhai reference''))"

record binding_set =
  bs_binding :: "binding option"
  bs_rhai :: "rhai_reference option"
  bs_extensions :: extensions

definition binding_set_default :: binding_set where
  "binding_set_default = \<lparr>bs_binding = None, bs_rhai = None, bs_extensions = []\<rparr>"

definition binding_set_validate :: "host \<Rightarrow> binding_set \<Rightarrow> document_error + unit" where
  "binding_set_validate H bs =
     and_then (case bs_binding bs of None \<Rightarrow> Ok () | Some b \<Rightarrow> binding_validate b) (\<lambda>_.
     and_then (case bs_rhai bs of None \<Rightarrow> Ok () | Some r \<Rightarrow> rhai_validate r) (\<lambda>_.
     map_err (\<lambda>_. DocInvalid ''extensions'') (extensions_validate H (bs_extensions bs))))"

definition binding_set_extension :: "binding_set \<Rightarrow> string \<Rightarrow> extension_error + canonical_json" where
  "binding_set_extension bs key = extensions_get (bs_extensions bs) key"

section \<open>Serialization\<close>

definition optional_member :: "string \<Rightarrow> raw_json option \<Rightarrow> (string \<times> raw_json) list" where
  "optional_member key v = (case v of None \<Rightarrow> [] | Some j \<Rightarrow> [(key, j)])"

definition restore_policy_json :: "restore_policy \<Rightarrow> raw_json" where
  "restore_policy_json r = RStr (case r of
     RestoreRecipe \<Rightarrow> ''restore-recipe'' | CloseOnRestart \<Rightarrow> ''close-on-restart''
   | PreserveFocusOnly \<Rightarrow> ''preserve-focus-only'')"

fun freshness_json :: "freshness_policy \<Rightarrow> raw_json" where
  "freshness_json Always = RStr ''always''"
| "freshness_json Immutable = RStr ''immutable''"
| "freshness_json (OlderThanMs n) = RObj [(''older-than-ms'', RU64 n)]"

fun cache_json :: "cache_policy \<Rightarrow> raw_json" where
  "cache_json NoStore = RStr ''no-store''"
| "cache_json Private = RStr ''private''"
| "cache_json Shared = RStr ''shared''"

fun binding_json :: "binding \<Rightarrow> raw_json" where
  "binding_json (BindingCapsule b) = RObj [
     (''kind'', RStr ''capsule''), (''capsule'', RStr (cb_capsule b)),
     (''interface'', RStr (cb_interface b)), (''contract_version'', RStr (cb_contract_version b)),
     (''requested_route'', RStr (cb_requested_route b))]"
| "binding_json (BindingNative b) = RObj [
     (''kind'', RStr ''native''), (''app_identity'', RStr (nb_app_identity b)),
     (''portal_contract'', RStr (nb_portal_contract b)),
     (''descriptor_schema'', RStr (nb_descriptor_schema b)),
     (''descriptor_id'', RStr (nb_descriptor_id b)),
     (''restore_policy'', restore_policy_json (nb_restore_policy b))]"
| "binding_json (BindingData b) = RObj ([
     (''kind'', RStr ''data''), (''owner'', owner_json (db_owner b)),
     (''kernel_object_id'', RStr (db_kernel_object_id b))] @
     optional_member ''grant_id'' (map_option RStr (db_grant_id b)) @ [
     (''content_hash'', RStr (db_content_hash b)), (''mime'', RStr (db_mime b)),
     (''freshness'', freshness_json (db_freshness b)), (''cache'', cache_json (db_cache b))])"

fun rhai_json :: "rhai_reference \<Rightarrow> raw_json" where
  "rhai_json (NamedProfile p) = RObj [(''kind'', RStr ''named-profile''), (''profile'', RStr p)]"
| "rhai_json (StricterThanCeiling c r) = RObj [
     (''kind'', RStr ''stricter-than-ceiling''), (''ceiling_profile'', RStr c),
     (''requested_profile'', RStr r)]"

definition binding_set_json :: "binding_set \<Rightarrow> raw_json" where
  "binding_set_json bs = RObj (
     optional_member ''binding'' (map_option binding_json (bs_binding bs)) @
     optional_member ''rhai'' (map_option rhai_json (bs_rhai bs)) @
     (if extensions_is_empty (bs_extensions bs) then []
      else [(''extensions'', extensions_json (bs_extensions bs))]))"

end
