(* ===== verification/Components.thy ===== *)
theory Components
  imports Canonical
begin

text \<open>
  \<open>capsules/capsule-surface-model/src/components.rs\<close>: the bounded catalog of semantic scene nodes.
  A scene is a tree of \<open>semantic_node\<close>; \<open>validate_node\<close> is \<open>SemanticNode::validate\<close> and
  \<open>raw_validate\<close> the validation inside the node's \<open>Deserialize\<close> instance. \<open>scene_ok\<close> states
  declaratively what both decide.
\<close>

section \<open>Limits\<close>

definition max_children :: nat where "max_children = 64"
definition max_depth :: nat where "max_depth = 32"
definition max_nodes :: nat where "max_nodes = 512"
definition max_props :: nat where "max_props = 32"
definition max_prop_bytes :: nat where "max_prop_bytes = 4096"
definition max_semantic_text_bytes :: nat where "max_semantic_text_bytes = 512"
definition known_state_bits :: u16 where "known_state_bits = push_bit 12 1 - 1"
definition no_children :: nat where "no_children = 0"

lemmas component_limits =
  max_children_def max_depth_def max_nodes_def max_props_def max_prop_bytes_def
  max_semantic_text_bytes_def no_children_def

section \<open>Component kinds\<close>

datatype component_kind =
    Region | Stack | Grid | Split | Sidebar | ActionBar | Card | Group | Collapse | Repeater |
    ScrollRegion | Divider | Heading | TextBlock | InlineContent | CodeBlock | Badge | KeyFigure |
    EmptyState | Icon | Button | TextField | TextArea | NumberField | Select | MultiSelect |
    Switch | Checkbox | Slider | DateTimeField | Table | RecordSummary | DatasetChart |
    Timeline | Difference | Progress | Tabs | Breadcrumb | Menu | Pager | Link | Alert |
    Toast | InlineMessage | Skeleton | Spinner | StatusDot | Dialog | CapabilityCard |
    ConsentForm | SecurePrompt | FilePicker | ImageView | AudioPlayer | VideoPlayer |
    FileDetails | MediaEmbed | CanvasStage | DiagramView | AnnotationLayer | TerminalView |
    NativePortal

definition all_kinds :: "component_kind list" where
  "all_kinds = [
    Region, Stack, Grid, Split, Sidebar, ActionBar, Card, Group, Collapse, Repeater,
    ScrollRegion, Divider, Heading, TextBlock, InlineContent, CodeBlock, Badge, KeyFigure,
    EmptyState, Icon, Button, TextField, TextArea, NumberField, Select, MultiSelect, Switch,
    Checkbox, Slider, DateTimeField, Table, RecordSummary, DatasetChart, Timeline, Difference,
    Progress, Tabs, Breadcrumb, Menu, Pager, Link, Alert, Toast, InlineMessage, Skeleton,
    Spinner, StatusDot, Dialog, CapabilityCard, ConsentForm, SecurePrompt, FilePicker,
    ImageView, AudioPlayer, VideoPlayer, FileDetails, MediaEmbed, CanvasStage, DiagramView,
    AnnotationLayer, TerminalView, NativePortal]"

definition family :: "component_kind \<Rightarrow> string" where
  "family k =
    (if k \<in> {Region, Stack, Grid, Split, Sidebar, ActionBar, Card, Group, Collapse, Repeater,
        ScrollRegion, Divider} then ''Structure''
     else if k \<in> {Heading, TextBlock, InlineContent, CodeBlock, Badge, KeyFigure, EmptyState, Icon} then ''Content''
     else if k \<in> {Button, TextField, TextArea, NumberField, Select, MultiSelect, Switch, Checkbox,
        Slider, DateTimeField} then ''Input''
     else if k \<in> {Table, RecordSummary, DatasetChart, Timeline, Difference, Progress} then ''Data''
     else if k \<in> {Tabs, Breadcrumb, Menu, Pager, Link} then ''Navigation''
     else if k \<in> {Alert, Toast, InlineMessage, Skeleton, Spinner, StatusDot, Dialog} then ''Feedback''
     else if k \<in> {CapabilityCard, ConsentForm, SecurePrompt, FilePicker} then ''Governed''
     else if k \<in> {ImageView, AudioPlayer, VideoPlayer, FileDetails, MediaEmbed} then ''Media''
     else if k \<in> {CanvasStage, DiagramView, AnnotationLayer} then ''Canvas''
     else if k \<in> {TerminalView} then ''Terminal''
     else ''Native'')"

section \<open>Interaction and status bits\<close>

type_synonym state_set = u16

definition state_hover :: u16 where "state_hover = push_bit 0 1"
definition state_pressed :: u16 where "state_pressed = push_bit 1 1"
definition state_focus :: u16 where "state_focus = push_bit 2 1"
definition state_disabled :: u16 where "state_disabled = push_bit 3 1"
definition state_selected :: u16 where "state_selected = push_bit 4 1"
definition state_loading :: u16 where "state_loading = push_bit 5 1"
definition state_error :: u16 where "state_error = push_bit 6 1"
definition state_empty_flag :: u16 where "state_empty_flag = push_bit 7 1"
definition state_success :: u16 where "state_success = push_bit 8 1"
definition state_warning :: u16 where "state_warning = push_bit 9 1"
definition state_danger :: u16 where "state_danger = push_bit 10 1"
definition state_validation_only :: u16 where "state_validation_only = push_bit 11 1"

lemmas state_bits =
  state_hover_def state_pressed_def state_focus_def state_disabled_def state_selected_def
  state_loading_def state_error_def state_empty_flag_def state_success_def state_warning_def
  state_danger_def state_validation_only_def

definition interaction :: u16 where
  "interaction = state_hover OR state_pressed OR state_focus OR state_disabled"
definition selectable :: u16 where
  "selectable = interaction OR state_selected"
definition status :: u16 where
  "status = state_loading OR state_error OR state_empty_flag OR state_success OR state_warning
     OR state_danger"
definition runtime_only :: u16 where
  "runtime_only = interaction OR status"

definition state_set_empty :: state_set where "state_set_empty = 0"

definition state_set_with :: "state_set \<Rightarrow> u16 \<Rightarrow> bool \<Rightarrow> state_set" where
  "state_set_with s flag enabled = (if enabled then s OR flag else s AND NOT flag)"

definition state_set_contains :: "state_set \<Rightarrow> u16 \<Rightarrow> bool" where
  "state_set_contains s flag \<longleftrightarrow> s AND flag \<noteq> 0"

section \<open>Property values and property bags\<close>

definition general_props :: "string list" where
  "general_props = [
    ''title'', ''label'', ''name'', ''subtitle'', ''placeholder'', ''status'', ''value'',
    ''source'', ''text'', ''language'', ''alt'', ''duration'', ''action'', ''min'', ''max'',
    ''step'', ''options'', ''columns'', ''uri'', ''mime'', ''size'', ''modified'',
    ''progress'', ''collapse'', ''gap'', ''role'']"

type_synonym node_id = u64

definition node_id_from_key :: "host \<Rightarrow> string \<Rightarrow> node_id" where
  "node_id_from_key H key = word_rcat (rev (take 8 (blake3_bytes H key)))"

datatype prop_value = Text string | Number f64 | Bool bool | Token string

fun byte_len :: "prop_value \<Rightarrow> nat" where
  "byte_len (Text value) = length value"
| "byte_len (Token value) = length value"
| "byte_len (Number value) = (if f64_is_finite value then 8 else usize_max)"
| "byte_len (Bool _) = 1"

type_synonym bounded_props = "(string, prop_value) btree_map"

datatype props_error = PropsTooMany | PropsTooLarge

definition props_bytes :: "bounded_props \<Rightarrow> nat" where
  "props_bytes values =
     usize_sum (map (\<lambda>(key, value). usize_saturating_add (length key) (byte_len value)) values)"

definition props_new :: "bounded_props \<Rightarrow> props_error + bounded_props" where
  "props_new values =
     (if length values > max_props then Err PropsTooMany
      else if props_bytes values > max_prop_bytes then Err PropsTooLarge
      else Ok values)"

definition props_with :: "bounded_props \<Rightarrow> string \<Rightarrow> prop_value \<Rightarrow> props_error + bounded_props" where
  "props_with props key value = props_new (bt_insert key value props)"

section \<open>Nodes\<close>

record accessibility =
  ax_role :: string
  ax_name :: string
  ax_description :: "string option"

definition accessibility_named :: "string \<Rightarrow> string \<Rightarrow> accessibility" where
  "accessibility_named role name = \<lparr>ax_role = role, ax_name = name, ax_description = None\<rparr>"

definition bounded_text :: "string \<Rightarrow> bool" where
  "bounded_text value \<longleftrightarrow> value \<noteq> [] \<and> length value \<le> max_semantic_text_bytes"

datatype semantic_node = SemanticNode
  (nid: node_id)
  (nkind: component_kind)
  (nprops: bounded_props)
  (nstate: state_set)
  (nacc: accessibility)
  (nchildren: "semantic_node list")

datatype scene_error =
    TooDeep node_id
  | TooManyChildren node_id
  | TooManyNodes
  | DuplicateNode node_id
  | SelfParent node_id
  | InvalidState
  | UnsupportedState node_id component_kind
  | MissingProperty node_id component_kind string
  | UnknownProperty node_id component_kind string
  | InvalidSurfaceId

definition state_set_from_bits :: "u16 \<Rightarrow> scene_error + state_set" where
  "state_set_from_bits bits =
     (if bits AND NOT known_state_bits \<noteq> 0 then Err InvalidState else Ok bits)"

record component_contract =
  ct_family :: string
  ct_required_props :: "string list"
  ct_allowed_props :: "string list"
  ct_allowed_state :: u16
  ct_max_children :: nat

definition contract_row :: "component_kind \<Rightarrow> string list \<times> u16 \<times> nat" where
  "contract_row k =
     (if k = Heading then ([''text''], interaction, no_children)
      else if k \<in> {TextBlock, InlineContent} then ([''text''], interaction, no_children)
      else if k = CodeBlock then ([''text'', ''language''], interaction, no_children)
      else if k = Button then ([''label'', ''action''], selectable OR status, no_children)
      else if k \<in> {TextField, TextArea, NumberField, DateTimeField} then
        ([''value''], selectable OR status, no_children)
      else if k \<in> {Select, MultiSelect} then
        ([''value'', ''options''], selectable OR status, no_children)
      else if k \<in> {Switch, Checkbox} then ([''value''], selectable OR status, no_children)
      else if k = Slider then
        ([''value'', ''min'', ''max'', ''step''], selectable OR status, no_children)
      else if k = Table then ([''columns''], selectable OR status, max_children)
      else if k = DatasetChart then ([''source''], status, no_children)
      else if k = Progress then ([''value'', ''min'', ''max''], status, no_children)
      else if k = Tabs then ([''options''], selectable, max_children)
      else if k = Link then ([''label'', ''uri''], interaction, no_children)
      else if k = ImageView then ([''source'', ''alt''], status, no_children)
      else if k \<in> {AudioPlayer, VideoPlayer} then ([''source'', ''duration''], status, no_children)
      else if k = FileDetails then ([''name'', ''size''], status, no_children)
      else if k = NativePortal then ([''status''], status OR state_empty_flag, no_children)
      else if k \<in> {Repeater, Grid, Stack, Split} then ([], status, max_children)
      else ([], runtime_only, max_children))"

definition contract :: "component_kind \<Rightarrow> component_contract" where
  "contract k = (case contract_row k of (required, st, ch) \<Rightarrow>
     \<lparr>ct_family = family k, ct_required_props = required, ct_allowed_props = general_props,
      ct_allowed_state = st, ct_max_children = ch\<rparr>)"

definition node_new :: "host \<Rightarrow> string \<Rightarrow> component_kind \<Rightarrow> string \<Rightarrow> semantic_node" where
  "node_new H key k name =
     SemanticNode (node_id_from_key H key) k [] state_set_empty (accessibility_named (family k) name) []"

definition push :: "semantic_node \<Rightarrow> semantic_node \<Rightarrow> scene_error + semantic_node" where
  "push n child =
     (if length (nchildren n) \<ge> max_children then Err (TooManyChildren (nid n))
      else Ok (SemanticNode (nid n) (nkind n) (nprops n) (nstate n) (nacc n) (nchildren n @ [child])))"

section \<open>Validation\<close>

definition check_contract :: "node_id \<Rightarrow> component_kind \<Rightarrow> bounded_props \<Rightarrow> state_set \<Rightarrow> nat
    \<Rightarrow> scene_error + unit" where
  "check_contract i k p st n =
     (let ct = contract k in
      if n > ct_max_children ct then Err (TooManyChildren i)
      else if st AND NOT (ct_allowed_state ct) \<noteq> 0 then Err (UnsupportedState i k)
      else case find (\<lambda>key. bt_get p key = None) (ct_required_props ct) of
        Some key \<Rightarrow> Err (MissingProperty i k key)
      | None \<Rightarrow>
         (case find (\<lambda>key. key \<notin> set (ct_allowed_props ct)) (bt_keys p) of
            Some key \<Rightarrow> Err (UnknownProperty i k key)
          | None \<Rightarrow> Ok ()))"

fun validate_at :: "nat \<Rightarrow> node_id set \<Rightarrow> semantic_node \<Rightarrow> scene_error + (nat \<times> node_id set)"
and validate_children :: "node_id \<Rightarrow> nat \<Rightarrow> nat \<Rightarrow> node_id set \<Rightarrow> semantic_node list
      \<Rightarrow> scene_error + (nat \<times> node_id set)" where
  "validate_at depth seen (SemanticNode i k p st a cs) =
     (if depth > max_depth then Err (TooDeep i)
      else if i \<in> seen then Err (DuplicateNode i)
      else and_then (check_contract i k p st (length cs)) (\<lambda>_.
        validate_children i (depth + 1) 1 (insert i seen) cs))"
| "validate_children i depth total_nodes seen [] = Ok (total_nodes, seen)"
| "validate_children i depth total_nodes seen (c # cs) =
     and_then (validate_at depth seen c) (\<lambda>(n, seen').
       if total_nodes + n > usize_max then Err TooManyNodes
       else if total_nodes + n > max_nodes then Err TooManyNodes
       else if nid c = i then Err (SelfParent i)
       else validate_children i depth (total_nodes + n) seen' cs)"

definition validate_node :: "semantic_node \<Rightarrow> scene_error + nat" where
  "validate_node n = and_then (validate_at 0 {} n) (\<lambda>(total_nodes, _). Ok total_nodes)"

subsection \<open>Validation while deserializing\<close>

datatype raw_node = RawNode
  (raw_id: node_id)
  (raw_kind: component_kind)
  (raw_props: bounded_props)
  (raw_state: state_set)
  (raw_acc: accessibility)
  (raw_children: "raw_node list")

fun raw_validate :: "raw_node \<Rightarrow> nat \<Rightarrow> node_id option \<Rightarrow> node_id set
      \<Rightarrow> scene_error + (nat \<times> node_id set)"
and raw_validate_children :: "node_id \<Rightarrow> nat \<Rightarrow> nat \<Rightarrow> node_id set \<Rightarrow> raw_node list
      \<Rightarrow> scene_error + (nat \<times> node_id set)" where
  "raw_validate (RawNode i k p st a cs) depth parent seen =
     (if depth > max_depth then Err (TooDeep i)
      else if parent = Some i then Err (SelfParent i)
      else if i \<in> seen then Err (DuplicateNode i)
      else and_then (check_contract i k p st (length cs)) (\<lambda>_.
        raw_validate_children i (depth + 1) 1 (insert i seen) cs))"
| "raw_validate_children i depth total_nodes seen [] = Ok (total_nodes, seen)"
| "raw_validate_children i depth total_nodes seen (c # cs) =
     and_then (raw_validate c depth (Some i) seen) (\<lambda>(n, seen').
       if total_nodes + n > usize_max then Err TooManyNodes
       else if total_nodes + n > max_nodes then Err TooManyNodes
       else raw_validate_children i depth (total_nodes + n) seen' cs)"

fun expand :: "raw_node \<Rightarrow> semantic_node" where
  "expand (RawNode i k p st a cs) = SemanticNode i k p st a (map expand cs)"

definition deserialize_node :: "raw_node \<Rightarrow> scene_error + semantic_node" where
  "deserialize_node raw = and_then (raw_validate raw 0 None {}) (\<lambda>_. Ok (expand raw))"

section \<open>Finding and replacing a node\<close>

text \<open>\<open>find_mut\<close> hands out a mutable reference to the first node, in preorder, with the wanted
  identity. \<open>find_node\<close> is the node it refers to and \<open>replace_node\<close> the tree after a write through
  the reference.\<close>

fun find_node :: "node_id \<Rightarrow> semantic_node \<Rightarrow> semantic_node option"
and find_children :: "node_id \<Rightarrow> semantic_node list \<Rightarrow> semantic_node option" where
  "find_node target (SemanticNode i k p st a cs) =
     (if i = target then Some (SemanticNode i k p st a cs) else find_children target cs)"
| "find_children target [] = None"
| "find_children target (c # cs) =
     (case find_node target c of Some m \<Rightarrow> Some m | None \<Rightarrow> find_children target cs)"

fun replace_node :: "node_id \<Rightarrow> semantic_node \<Rightarrow> semantic_node \<Rightarrow> semantic_node"
and replace_children :: "node_id \<Rightarrow> semantic_node \<Rightarrow> semantic_node list \<Rightarrow> semantic_node list" where
  "replace_node target new (SemanticNode i k p st a cs) =
     (if i = target then new else SemanticNode i k p st a (replace_children target new cs))"
| "replace_children target new [] = []"
| "replace_children target new (c # cs) =
     (case find_node target c of
        Some _ \<Rightarrow> replace_node target new c # cs
      | None \<Rightarrow> c # replace_children target new cs)"

section \<open>Structural equality\<close>

fun prop_value_eq :: "prop_value \<Rightarrow> prop_value \<Rightarrow> bool" where
  "prop_value_eq (Number x) (Number y) \<longleftrightarrow> f64_eq x y"
| "prop_value_eq v w \<longleftrightarrow> v = w"

definition props_eq :: "bounded_props \<Rightarrow> bounded_props \<Rightarrow> bool" where
  "props_eq = list_all2 (\<lambda>(k, v) (l, w). k = l \<and> prop_value_eq v w)"

fun node_eq :: "semantic_node \<Rightarrow> semantic_node \<Rightarrow> bool"
and nodes_eq :: "semantic_node list \<Rightarrow> semantic_node list \<Rightarrow> bool" where
  "node_eq (SemanticNode i k p st a cs) (SemanticNode i' k' p' st' a' cs') \<longleftrightarrow>
     i = i' \<and> k = k' \<and> props_eq p p' \<and> st = st' \<and> a = a' \<and> nodes_eq cs cs'"
| "nodes_eq [] [] \<longleftrightarrow> True"
| "nodes_eq (c # cs) (d # ds) \<longleftrightarrow> node_eq c d \<and> nodes_eq cs ds"
| "nodes_eq [] (d # ds) \<longleftrightarrow> False"
| "nodes_eq (c # cs) [] \<longleftrightarrow> False"

section \<open>Order of component kinds\<close>

text \<open>\<open>ComponentKind\<close> derives \<open>Ord\<close>: kinds compare by their position in the declaration.\<close>

definition kind_rank :: "component_kind \<Rightarrow> nat" where
  "kind_rank k = length (takeWhile (\<lambda>l. l \<noteq> k) all_kinds)"

lemma all_kinds_complete: "k \<in> set all_kinds"
  by (cases k) (simp_all add: all_kinds_def)

lemma kind_rank_nth: "all_kinds ! kind_rank k = k"
proof -
  have "kind_rank k < length all_kinds"
    unfolding kind_rank_def using all_kinds_complete [of k]
    by (metis (mono_tags, lifting) length_takeWhile_le linorder_not_le le_antisym
        set_takeWhileD takeWhile_eq_take take_all)
  then show ?thesis
    unfolding kind_rank_def using nth_length_takeWhile [of "\<lambda>l. l \<noteq> k" all_kinds] by simp
qed

lemma kind_rank_inject: "kind_rank k = kind_rank l \<longleftrightarrow> k = l"
  by (metis kind_rank_nth)

instantiation component_kind :: linorder
begin

definition less_eq_component_kind :: "component_kind \<Rightarrow> component_kind \<Rightarrow> bool" where
  "less_eq_component_kind k l \<longleftrightarrow> kind_rank k \<le> kind_rank l"

definition less_component_kind :: "component_kind \<Rightarrow> component_kind \<Rightarrow> bool" where
  "less_component_kind k l \<longleftrightarrow> kind_rank k < kind_rank l"

instance
  by standard (auto simp: less_eq_component_kind_def less_component_kind_def kind_rank_inject)

end

section \<open>Serialization\<close>

definition kind_names :: "string list" where
  "kind_names = [
    ''Region'', ''Stack'', ''Grid'', ''Split'', ''Sidebar'', ''ActionBar'', ''Card'',
    ''Group'', ''Collapse'', ''Repeater'', ''ScrollRegion'', ''Divider'', ''Heading'',
    ''Text'', ''InlineContent'', ''CodeBlock'', ''Badge'', ''KeyFigure'', ''EmptyState'',
    ''Icon'', ''Button'', ''TextField'', ''TextArea'', ''NumberField'', ''Select'',
    ''MultiSelect'', ''Switch'', ''Checkbox'', ''Slider'', ''DateTimeField'', ''Table'',
    ''RecordSummary'', ''DatasetChart'', ''Timeline'', ''Difference'', ''Progress'', ''Tabs'',
    ''Breadcrumb'', ''Menu'', ''Pager'', ''Link'', ''Alert'', ''Toast'', ''InlineMessage'',
    ''Skeleton'', ''Spinner'', ''StatusDot'', ''Dialog'', ''CapabilityCard'', ''ConsentForm'',
    ''SecurePrompt'', ''FilePicker'', ''ImageView'', ''AudioPlayer'', ''VideoPlayer'',
    ''FileDetails'', ''MediaEmbed'', ''CanvasStage'', ''DiagramView'', ''AnnotationLayer'',
    ''TerminalView'', ''NativePortal'']"

definition kind_json :: "component_kind \<Rightarrow> raw_json" where
  "kind_json k = RStr (kind_names ! kind_rank k)"

fun prop_value_json :: "prop_value \<Rightarrow> raw_json" where
  "prop_value_json (Text s) = RStr s"
| "prop_value_json (Number x) = (if f64_is_finite x then RF64 x else RNull)"
| "prop_value_json (Bool b) = RBool b"
| "prop_value_json (Token s) = RStr s"

definition props_json :: "bounded_props \<Rightarrow> raw_json" where
  "props_json p = RObj (map (\<lambda>(k, v). (k, prop_value_json v)) p)"

definition accessibility_json :: "accessibility \<Rightarrow> raw_json" where
  "accessibility_json a = RObj ([(''role'', RStr (ax_role a)), (''name'', RStr (ax_name a))] @
     (case ax_description a of None \<Rightarrow> [] | Some d \<Rightarrow> [(''description'', RStr d)]))"

fun node_json :: "semantic_node \<Rightarrow> raw_json" where
  "node_json (SemanticNode i k p st a cs) = RObj [
     (''id'', RU64 i), (''kind'', kind_json k), (''props'', props_json p), (''state'', RU64 (ucast st)),
     (''accessibility'', accessibility_json a), (''children'', RArr (map node_json cs))]"

end
