(* ===== verification/Scene_Validation.thy ===== *)
theory Scene_Validation
  imports Components
begin

text \<open>
  What the scene validators of \<open>Components\<close> decide: a declarative description of valid scenes, its
  equivalence with \<open>validate_node\<close>, the agreement of the deserializer with it, and how writes through
  \<open>find_mut\<close> behave.
\<close>

section \<open>Scenes as lists of placed nodes\<close>

fun node_ids :: "semantic_node \<Rightarrow> node_id list" where
  "node_ids (SemanticNode i k p st a cs) = i # concat (map node_ids cs)"

fun node_count :: "semantic_node \<Rightarrow> nat" where
  "node_count (SemanticNode i k p st a cs) = 1 + sum_list (map node_count cs)"

fun placed_nodes :: "nat \<Rightarrow> semantic_node \<Rightarrow> (nat \<times> semantic_node) list" where
  "placed_nodes d (SemanticNode i k p st a cs) =
     (d, SemanticNode i k p st a cs) # concat (map (placed_nodes (d + 1)) cs)"

definition contract_ok :: "semantic_node \<Rightarrow> bool" where
  "contract_ok n \<longleftrightarrow> (let ct = contract (nkind n) in
     length (nchildren n) \<le> ct_max_children ct \<and>
     nstate n AND NOT (ct_allowed_state ct) = 0 \<and>
     list_all (\<lambda>key. bt_contains_key (nprops n) key) (ct_required_props ct) \<and>
     list_all (\<lambda>key. key \<in> set (ct_allowed_props ct)) (bt_keys (nprops n)))"

definition scene_ok :: "semantic_node \<Rightarrow> bool" where
  "scene_ok n \<longleftrightarrow> distinct (node_ids n) \<and> node_count n \<le> max_nodes \<and>
     list_all (\<lambda>(d, m). d \<le> max_depth \<and> contract_ok m) (placed_nodes 0 n)"

definition placed_ok :: "nat \<Rightarrow> semantic_node \<Rightarrow> bool" where
  "placed_ok d n \<longleftrightarrow> list_all (\<lambda>(d, m). d \<le> max_depth \<and> contract_ok m) (placed_nodes d n)"

lemma placed_ok_simps [simp]:
  "placed_ok d (SemanticNode i k p st a cs) \<longleftrightarrow>
     d \<le> max_depth \<and> contract_ok (SemanticNode i k p st a cs) \<and> list_all (placed_ok (d + 1)) cs"
  by (auto simp: placed_ok_def list_all_iff)

lemma check_contract_Ok_iff:
  "check_contract i k p st (length cs) = Ok u \<longleftrightarrow> contract_ok (SemanticNode i k p st a cs)"
  by (auto simp: check_contract_def contract_ok_def Let_def list_all_iff bt_contains_key_def
      find_None_iff find_Some_iff split: option.splits if_splits)

lemma node_count_pos: "0 < node_count n"
  by (cases n) simp

lemma nid_in_node_ids: "nid n \<in> set (node_ids n)"
  by (cases n) simp

definition forest_ids :: "semantic_node list \<Rightarrow> node_id list" where
  "forest_ids cs = concat (map node_ids cs)"

definition forest_count :: "semantic_node list \<Rightarrow> nat" where
  "forest_count cs = sum_list (map node_count cs)"

lemma forest_simps [simp]:
  "forest_ids [] = []"
  "forest_ids (c # cs) = node_ids c @ forest_ids cs"
  "forest_count [] = 0"
  "forest_count (c # cs) = node_count c + forest_count cs"
  by (simp_all add: forest_ids_def forest_count_def)

lemma max_nodes_le_usize: "max_nodes \<le> usize_max"
  by (simp add: max_nodes_def usize_max_def)

lemma validate_at_Ok_iff:
  "validate_at d seen n = Ok (t, seen') \<longleftrightarrow>
     placed_ok d n \<and> distinct (node_ids n) \<and> set (node_ids n) \<inter> seen = {} \<and>
     node_count n \<le> max_nodes \<and> t = node_count n \<and> seen' = seen \<union> set (node_ids n)"
  "i \<in> seen \<Longrightarrow> tot \<le> max_nodes \<Longrightarrow> validate_children i d tot seen cs = Ok (t, seen') \<longleftrightarrow>
     list_all (placed_ok d) cs \<and> distinct (forest_ids cs) \<and> set (forest_ids cs) \<inter> seen = {} \<and>
     tot + forest_count cs \<le> max_nodes \<and> t = tot + forest_count cs \<and>
     seen' = seen \<union> set (forest_ids cs)"
proof (induction d seen n and i d tot seen cs arbitrary: t seen' and t seen' rule: validate_at_validate_children.induct)
  case (1 depth seen i k p st a cs)
  show ?case
  proof (cases "depth \<le> max_depth \<and> i \<notin> seen \<and> contract_ok (SemanticNode i k p st a cs)")
    case True
    then have "check_contract i k p st (length cs) = Ok ()"
      by (simp add: check_contract_Ok_iff [where a = a])
    with True "1.IH" show ?thesis
      by (auto simp: forest_ids_def forest_count_def max_nodes_def)
  next
    case False
    then show ?thesis
      by (auto simp: result_simps check_contract_Ok_iff [where a = a] split: if_splits)
  qed
next
  case (2 i depth tot seen)
  then show ?case by auto
next
  case (3 i depth tot seen c cs)
  let ?s1 = "seen \<union> set (node_ids c)"
  let ?head = "placed_ok depth c \<and> distinct (node_ids c) \<and> set (node_ids c) \<inter> seen = {} \<and>
    node_count c \<le> max_nodes"
  have head: "validate_at depth seen c = Ok (n, s1) \<longleftrightarrow> ?head \<and> n = node_count c \<and> s1 = ?s1" for n s1
    using "3.IH"(1) [of n s1] by blast
  show ?case
  proof (cases "?head \<and> tot + node_count c \<le> max_nodes")
    case True
    then have c: "validate_at depth seen c = Ok (node_count c, ?s1)" by (simp add: head)
    have "nid c \<noteq> i" using True "3.prems"(1) nid_in_node_ids [of c] by blast
    moreover have "\<not> tot + node_count c > usize_max" using True max_nodes_le_usize by simp
    ultimately have step: "validate_children i depth tot seen (c # cs) =
        validate_children i depth (tot + node_count c) ?s1 cs"
      using True by (simp add: c)
    have "validate_children i depth (tot + node_count c) ?s1 cs = Ok (t, seen') \<longleftrightarrow>
      list_all (placed_ok depth) cs \<and> distinct (forest_ids cs) \<and> set (forest_ids cs) \<inter> ?s1 = {} \<and>
      tot + node_count c + forest_count cs \<le> max_nodes \<and> t = tot + node_count c + forest_count cs \<and>
      seen' = ?s1 \<union> set (forest_ids cs)"
      by (rule "3.IH"(2))
        (use True "3.prems"(1) \<open>nid c \<noteq> i\<close> \<open>\<not> tot + node_count c > usize_max\<close> in auto)
    then show ?thesis unfolding step using True by auto
  next
    case False
    then show ?thesis
      using max_nodes_le_usize by (auto simp: result_simps head split: if_splits)
  qed
qed

lemma validate_node_Ok_iff: "validate_node n = Ok t \<longleftrightarrow> scene_ok n \<and> t = node_count n"
  by (auto simp: validate_node_def result_simps validate_at_Ok_iff scene_ok_def placed_ok_def)

lemma validate_at_not_SelfParent:
  "validate_at d seen n \<noteq> Err (SelfParent j)"
  "i \<in> seen \<Longrightarrow> validate_children i d tot seen cs \<noteq> Err (SelfParent j)"
proof (induction d seen n and i d tot seen cs rule: validate_at_validate_children.induct)
  case (1 depth seen i k p st a cs)
  then show ?case
    by (auto simp: result_simps check_contract_def Let_def split: if_splits option.splits)
next
  case (2 i depth tot seen)
  then show ?case by simp
next
  case (3 i depth tot seen c cs)
  have "nid c \<noteq> i" if "validate_at depth seen c = Ok x" for x
    using that "3.prems" nid_in_node_ids [of c] by (cases x) (auto simp: validate_at_Ok_iff)
  moreover have "i \<in> snd x" if "validate_at depth seen c = Ok x" for x
    using that "3.prems" by (cases x) (auto simp: validate_at_Ok_iff)
  ultimately show ?case
    using 3 by (auto simp: result_simps split: if_splits)
qed

section \<open>The deserializer\<close>

lemma raw_validate_iff:
  "parent = None \<or> (\<exists>i \<in> seen. parent = Some i) \<Longrightarrow>
     raw_validate raw d parent seen = Ok x \<longleftrightarrow> validate_at d seen (expand raw) = Ok x"
  "i \<in> seen \<Longrightarrow>
     raw_validate_children i d tot seen rs = Ok x \<longleftrightarrow>
     validate_children i d tot seen (map expand rs) = Ok x"
proof (induction raw d parent seen and i d tot seen rs arbitrary: x and x
    rule: raw_validate_raw_validate_children.induct)
  case (1 i k p st a cs depth parent seen)
  then show ?case by (auto simp: result_simps)
next
  case (2 i depth tot seen)
  then show ?case by simp
next
  case (3 i depth tot seen c cs)
  have nid: "nid (expand c) \<noteq> i" if "validate_at depth seen (expand c) = Ok y" for y
    using that "3.prems" nid_in_node_ids [of "expand c"] by (cases y) (auto simp: validate_at_Ok_iff)
  have mem: "i \<in> snd y" if "validate_at depth seen (expand c) = Ok y" for y
    using that "3.prems" by (cases y) (auto simp: validate_at_Ok_iff)
  have head: "raw_validate c depth (Some i) seen = Ok y \<longleftrightarrow> validate_at depth seen (expand c) = Ok y" for y
    using 3 by blast
  show ?case
  proof (cases "validate_at depth seen (expand c)")
    case (Inl e)
    then show ?thesis
      by (cases "raw_validate c depth (Some i) seen") (simp_all add: head)
  next
    case (Inr y)
    then have "raw_validate c depth (Some i) seen = Ok y" by (simp add: head)
    with Inr nid [OF Inr] mem [OF Inr] 3 show ?thesis by (cases y) simp
  qed
qed

lemma deserialize_node_Ok_iff:
  "deserialize_node raw = Ok n \<longleftrightarrow> scene_ok (expand raw) \<and> n = expand raw"
proof -
  have "raw_validate raw 0 None {} = Ok x \<longleftrightarrow> validate_at 0 {} (expand raw) = Ok x" for x
    by (rule raw_validate_iff) simp
  then show ?thesis
    by (auto simp: deserialize_node_def result_simps validate_at_Ok_iff scene_ok_def placed_ok_def)
qed

section \<open>Writes through \<open>find_mut\<close>\<close>

fun node_rows :: "nat \<Rightarrow> semantic_node \<Rightarrow>
    (nat \<times> node_id \<times> component_kind \<times> bounded_props \<times> state_set \<times> accessibility) list" where
  "node_rows d (SemanticNode i k p st a cs) = (d, i, k, p, st, a) # concat (map (node_rows (d + 1)) cs)"

definition set_row :: "node_id \<Rightarrow> bounded_props \<Rightarrow> state_set \<Rightarrow>
    nat \<times> node_id \<times> component_kind \<times> bounded_props \<times> state_set \<times> accessibility \<Rightarrow>
    nat \<times> node_id \<times> component_kind \<times> bounded_props \<times> state_set \<times> accessibility" where
  "set_row t p' st' = (\<lambda>(d, i, k, p, st, a). if i = t then (d, i, k, p', st', a) else (d, i, k, p, st, a))"

lemma row_ids: "i \<notin> set (node_ids n) \<Longrightarrow> map (set_row i p st) (node_rows d n) = node_rows d n"
proof (induction n arbitrary: d)
  case (SemanticNode j k q s a cs)
  then have "map (set_row i p st) (concat (map (node_rows (d + 1)) cs)) = concat (map (node_rows (d + 1)) cs)"
    by (auto simp: map_concat comp_def intro!: arg_cong [where f = concat])
  with SemanticNode.prems show ?case by (auto simp: set_row_def)
qed

lemma find_node_None_iff:
  "find_node t n = None \<longleftrightarrow> t \<notin> set (node_ids n)"
  "find_children t cs = None \<longleftrightarrow> t \<notin> set (forest_ids cs)"
  by (induction t n and t cs rule: find_node_find_children.induct)
     (auto simp: forest_ids_def split: option.splits)

lemma find_node_nid:
  "find_node t n = Some m \<Longrightarrow> nid m = t"
  "find_children t cs = Some m \<Longrightarrow> nid m = t"
  by (induction t n and t cs rule: find_node_find_children.induct)
     (auto split: if_splits option.splits)

lemma rows_replace_node:
  "distinct (node_ids n) \<Longrightarrow> find_node t n = Some (SemanticNode i k p st a cs) \<Longrightarrow>
     node_rows d (replace_node t (SemanticNode i k p' st' a cs) n) = map (set_row t p' st') (node_rows d n)"
  "distinct (forest_ids ns) \<Longrightarrow> find_children t ns = Some (SemanticNode i k p st a cs) \<Longrightarrow>
     concat (map (node_rows d) (replace_children t (SemanticNode i k p' st' a cs) ns)) =
     map (set_row t p' st') (concat (map (node_rows d) ns))"
proof (induction t n and t ns arbitrary: d and d rule: find_node_find_children.induct)
  case (1 t i0 k0 p0 st0 a0 cs0)
  show ?case
  proof (cases "i0 = t")
    case True
    with "1.prems" have "map (set_row t p' st') (concat (map (node_rows (d + 1)) cs0)) =
        concat (map (node_rows (d + 1)) cs0)"
      by (auto simp: map_concat comp_def row_ids intro!: arg_cong [where f = concat])
    with True "1.prems" show ?thesis by (simp add: set_row_def)
  next
    case False
    with 1 show ?thesis by (simp add: set_row_def forest_ids_def)
  qed
next
  case (2 t)
  then show ?case by simp
next
  case (3 t c ns)
  show ?case
  proof (cases "find_node t c")
    case None
    then have "t \<notin> set (node_ids c)" by (simp add: find_node_None_iff)
    with None 3 show ?thesis by (simp add: row_ids)
  next
    case (Some m)
    then have "t \<in> set (node_ids c)" using find_node_None_iff(1) [of t c] by auto
    with "3.prems" have "t \<notin> set (node_ids x)" if "x \<in> set ns" for x
      using that by (auto simp: forest_ids_def)
    then have "map (set_row t p' st') (concat (map (node_rows d) ns)) = concat (map (node_rows d) ns)"
      by (auto simp: map_concat comp_def row_ids intro!: arg_cong [where f = concat])
    with Some 3 show ?thesis by simp
  qed
qed

section \<open>Property bags\<close>

definition prop_cost :: "string \<times> prop_value \<Rightarrow> nat" where
  "prop_cost = (\<lambda>(key, value). length key + byte_len value)"

definition finite_value :: "prop_value \<Rightarrow> bool" where
  "finite_value v \<longleftrightarrow> (case v of Number x \<Rightarrow> f64_is_finite x | _ \<Rightarrow> True)"

lemma props_bytes_exact:
  assumes "sum_list (map prop_cost vs) < 2 ^ 64"
  shows "props_bytes vs = sum_list (map prop_cost vs)"
proof -
  have "usize_saturating_add (length k) (byte_len v) = prop_cost (k, v)" if "(k, v) \<in> set vs" for k v
  proof -
    have "prop_cost (k, v) \<le> sum_list (map prop_cost vs)"
      using that by (intro member_le_sum_list) auto
    with assms show ?thesis
      by (simp add: usize_saturating_add_def usize_max_def prop_cost_def)
  qed
  then have "map (\<lambda>(k, v). usize_saturating_add (length k) (byte_len v)) vs = map prop_cost vs"
    by auto
  then have "props_bytes vs = usize_sum (map prop_cost vs)" by (simp only: props_bytes_def)
  also have "\<dots> = sum_list (map prop_cost vs)" by (rule usize_sum_small) (rule assms)
  finally show ?thesis .
qed

lemma finite_cost:
  assumes "\<forall>(k, v) \<in> set vs. finite_value v \<and> length k + byte_len v < 2 ^ 32" and "length vs < 2 ^ 16"
  shows "sum_list (map prop_cost vs) < 2 ^ 64"
proof -
  have "sum_list (map prop_cost vs) \<le> length vs * 2 ^ 32"
    using assms(1) by (induction vs) (auto simp: prop_cost_def)
  also have "\<dots> < 2 ^ 16 * 2 ^ 32" using assms(2) by simp
  finally show ?thesis by simp
qed

lemma props_with_Ok_iff:
  "props_with p k v = Ok q \<longleftrightarrow>
     q = bt_insert k v p \<and> length q \<le> max_props \<and> props_bytes q \<le> max_prop_bytes"
  by (auto simp: props_with_def props_new_def)

lemma props_with_wf: "bt_wf p \<Longrightarrow> props_with p k v = Ok q \<Longrightarrow> bt_wf q"
  by (simp add: props_with_Ok_iff)

section \<open>Properties\<close>

text \<open>C34. The scene validator is exact: it accepts a tree, and returns its node count, exactly when all
  node identities are distinct, the tree has at most 512 nodes and depth 32, and every node meets the
  contract of its component kind (children, state bits, required and allowed properties).\<close>

theorem validate_node_exact: "validate_node n = Ok t \<longleftrightarrow> scene_ok n \<and> t = node_count n"
  by (rule validate_node_Ok_iff)

text \<open>The deserializer's own validation agrees with \<open>SemanticNode::validate\<close>: a raw tree is accepted
  exactly when the tree it expands to validates, and then it is that tree.\<close>

theorem deserializer_agrees:
  "deserialize_node raw = Ok n \<longleftrightarrow> is_ok (validate_node (expand raw)) \<and> n = expand raw"
  by (auto simp: deserialize_node_Ok_iff is_ok_iff validate_node_Ok_iff)

text \<open>\<open>SemanticNode::validate\<close> never reports \<open>SelfParent\<close>: a child with its parent's identity is always
  reported as a duplicate first.\<close>

theorem validate_node_never_self_parent: "validate_node n \<noteq> Err (SelfParent i)"
  by (auto simp: validate_node_def result_simps validate_at_not_SelfParent(1))

text \<open>The byte bound of a property bag is exact as long as its values are finite: for a bag of realistic
  size without non-finite numbers, \<open>BoundedProps::new\<close> accepts exactly the bags with at most 32 properties and
  at most 4096 bytes of keys and values.\<close>

theorem props_new_exact:
  assumes "\<forall>(k, v) \<in> set vs. finite_value v \<and> length k + byte_len v < 2 ^ 32"
    and "length vs < 2 ^ 16"
  shows "props_new vs = Ok vs \<longleftrightarrow>
    length vs \<le> 32 \<and> sum_list (map prop_cost vs) \<le> 4096"
  using props_bytes_exact [OF finite_cost [OF assms]]
  by (simp add: props_new_def max_props_def max_prop_bytes_def)

theorem props_new_exact_witness:
  "props_new [(''label'', Text ''go''), (''value'', Number 0)] =
     Ok [(''label'', Text ''go''), (''value'', Number 0)]"
proof -
  have "\<forall>(k, v) \<in> set [(''label'', Text ''go''), (''value'', Number 0)].
      finite_value v \<and> length k + byte_len v < 2 ^ 32"
    by (simp add: finite_value_def f64_is_finite_def)
  from props_new_exact [OF this] show ?thesis
    by (simp add: prop_cost_def f64_is_finite_def)
qed

text \<open>A non-finite number is charged \<open>usize::MAX\<close> bytes so that its bag is rejected, and alone it is; next
  to any other property the unchecked sum wraps around and the bag is accepted (in builds without overflow checks,
  such as this workspace's release profile).\<close>

theorem props_new_nonfinite_wraps:
  "props_new [(''value'', Number 0x7FF0000000000000)] = Err PropsTooLarge \<and>
   props_new [(''label'', Text ''x''), (''value'', Number 0x7FF0000000000000)] =
     Ok [(''label'', Text ''x''), (''value'', Number 0x7FF0000000000000)]"
  by (simp add: props_new_def props_bytes_def usize_sum_def usize_saturating_add_def usize_max_def
      max_props_def max_prop_bytes_def f64_is_finite_def)

end
