(* ===== verification/Recipes.thy ===== *)
theory Recipes
  imports Bindings Scene_Validation
begin

text \<open>
  \<open>capsules/capsule-surface-model/src/recipe.rs\<close> and \<open>surface.rs\<close>: the durable restore-truth documents
  (activities and recipes with their immutable revision records) and the ephemeral surface that is
  materialized from a recipe. \<open>recipe_content_json\<close> is the tuple that the content digest covers.
\<close>

section \<open>Constants and identifier checks\<close>

definition activity_schema :: string where "activity_schema = ''aos.activity@1''"
definition recipe_schema :: string where "recipe_schema = ''aos.recipe@1''"
definition surface_schema :: string where "surface_schema = ''aos.surface@1''"
definition patch_schema :: string where "patch_schema = ''aos.patch@1''"
definition max_recipe_metadata :: nat where "max_recipe_metadata = 16"
definition max_recipe_metadata_bytes :: nat where "max_recipe_metadata_bytes = 2048"

definition bounded_nonempty :: "string \<Rightarrow> nat \<Rightarrow> bool" where
  "bounded_nonempty value maximum \<longleftrightarrow> value \<noteq> [] \<and> length value \<le> maximum"

definition valid_document_id :: "string \<Rightarrow> bool" where
  "valid_document_id value \<longleftrightarrow>
     bounded_nonempty value max_id_bytes \<and> \<not> contains_str value ''..'' \<and> list_all document_char value"

definition value_text_len :: "prop_value \<Rightarrow> nat" where
  "value_text_len v = byte_len v"

datatype recipe_validation_error =
    RSchema
  | RIdentity
  | RParentLink
  | RMetadataTooLarge
  | RDigest
  | RSerialization
  | RScene scene_error

section \<open>Activities\<close>

record surface_pointer =
  sp_surface_id :: string
  sp_incarnation :: u64

record activity =
  act_schema :: string
  act_activity_id :: string
  act_owner_ref :: opaque_owner_ref
  act_title :: string
  act_recipe_id :: string
  act_bindings :: binding_set
  act_current_surface :: "surface_pointer option"

definition activity_validate :: "host \<Rightarrow> activity \<Rightarrow> recipe_validation_error + unit" where
  "activity_validate H a =
     (if act_schema a \<noteq> activity_schema \<or> \<not> valid_document_id (act_activity_id a) \<or>
         \<not> owner_is_valid (act_owner_ref a) \<or>
         \<not> bounded_nonempty (act_title a) max_semantic_text_bytes \<or>
         \<not> valid_document_id (act_recipe_id a)
      then Err RIdentity
      else and_then (map_err (\<lambda>_. RIdentity) (binding_set_validate H (act_bindings a))) (\<lambda>_.
        case act_current_surface a of
          Some surface \<Rightarrow>
            if sp_incarnation surface = 0 \<or> \<not> valid_document_id (sp_surface_id surface)
            then Err RIdentity else Ok ()
        | None \<Rightarrow> Ok ()))"

definition activity_new :: "host \<Rightarrow> string \<Rightarrow> opaque_owner_ref \<Rightarrow> string \<Rightarrow> string
    \<Rightarrow> recipe_validation_error + activity" where
  "activity_new H activity_id owner_ref title recipe_id =
     (let value = \<lparr>act_schema = activity_schema, act_activity_id = activity_id,
        act_owner_ref = owner_ref, act_title = title, act_recipe_id = recipe_id,
        act_bindings = binding_set_default, act_current_surface = None\<rparr>
      in and_then (activity_validate H value) (\<lambda>_. Ok value))"

text \<open>\<open>ActivityInput\<close> has the fields of \<open>Activity\<close>; conversion validates.\<close>

definition activity_try_from :: "host \<Rightarrow> activity \<Rightarrow> recipe_validation_error + activity" where
  "activity_try_from H input = and_then (activity_validate H input) (\<lambda>_. Ok input)"

section \<open>Recipes\<close>

record recipe =
  rcp_schema :: string
  rcp_owner_ref :: opaque_owner_ref
  rcp_recipe_id :: string
  rcp_revision :: u64
  rcp_parent_revision :: "u64 option"
  rcp_parent_digest :: string
  rcp_digest :: string
  rcp_theme_id :: string
  rcp_metadata :: "(string, prop_value) btree_map"
  rcp_root :: semantic_node
  rcp_bindings :: binding_set

definition recipe_content_json :: "recipe \<Rightarrow> raw_json" where
  "recipe_content_json r = RArr [
     RStr (rcp_schema r), owner_json (rcp_owner_ref r), RStr (rcp_recipe_id r),
     RU64 (rcp_revision r),
     (case rcp_parent_revision r of None \<Rightarrow> RNull | Some n \<Rightarrow> RU64 n),
     RStr (rcp_parent_digest r), RStr (rcp_theme_id r), props_json (rcp_metadata r),
     node_json (rcp_root r), binding_set_json (rcp_bindings r)]"

definition content_digest :: "host \<Rightarrow> recipe \<Rightarrow> recipe_validation_error + string" where
  "content_digest H r = map_err (\<lambda>_. RSerialization) (digest_parts H (recipe_content_json r))"

definition refresh_digest :: "host \<Rightarrow> recipe \<Rightarrow> recipe_validation_error + recipe" where
  "refresh_digest H r = and_then (content_digest H r) (\<lambda>d. Ok (r\<lparr>rcp_digest := d\<rparr>))"

definition parent_link_ok :: "u64 \<Rightarrow> u64 option \<Rightarrow> string \<Rightarrow> bool" where
  "parent_link_ok revision parent_revision parent_digest =
     (if revision = 1 \<and> parent_revision = None \<and> parent_digest = [] then True
      else case parent_revision of
        Some parent \<Rightarrow> parent \<ge> 1 \<and> parent + 1 = revision \<and> valid_blake3_digest parent_digest
      | None \<Rightarrow> False)"

definition metadata_bytes :: "(string, prop_value) btree_map \<Rightarrow> nat" where
  "metadata_bytes m =
     usize_sum (map (\<lambda>(key, value). usize_saturating_add (length key) (value_text_len value)) m)"

definition recipe_validate :: "host \<Rightarrow> recipe \<Rightarrow> recipe_validation_error + unit" where
  "recipe_validate H r =
     (if rcp_schema r \<noteq> recipe_schema then Err RSchema
      else if \<not> owner_is_valid (rcp_owner_ref r) \<or> \<not> valid_document_id (rcp_recipe_id r) \<or>
              \<not> bounded_nonempty (rcp_theme_id r) 128 \<or> rcp_revision r = 0
        then Err RIdentity
      else if \<not> parent_link_ok (rcp_revision r) (rcp_parent_revision r) (rcp_parent_digest r)
        then Err RParentLink
      else if length (rcp_metadata r) > max_recipe_metadata then Err RMetadataTooLarge
      else if metadata_bytes (rcp_metadata r) > max_recipe_metadata_bytes then Err RMetadataTooLarge
      else and_then (map_err (\<lambda>_. RIdentity) (binding_set_validate H (rcp_bindings r))) (\<lambda>_.
        and_then (map_err RScene (validate_node (rcp_root r))) (\<lambda>_. Ok ())))"

definition recipe_new :: "host \<Rightarrow> opaque_owner_ref \<Rightarrow> string \<Rightarrow> string \<Rightarrow> semantic_node
    \<Rightarrow> recipe_validation_error + recipe" where
  "recipe_new H owner_ref recipe_id theme_id root =
     (let value = \<lparr>rcp_schema = recipe_schema, rcp_owner_ref = owner_ref, rcp_recipe_id = recipe_id,
        rcp_revision = 1, rcp_parent_revision = None, rcp_parent_digest = [], rcp_digest = [],
        rcp_theme_id = theme_id, rcp_metadata = [], rcp_root = root,
        rcp_bindings = binding_set_default\<rparr>
      in and_then (recipe_validate H value) (\<lambda>_. refresh_digest H value))"

text \<open>\<open>RecipeInput\<close> has the fields of \<open>Recipe\<close>; conversion validates and recomputes the digest.\<close>

definition recipe_try_from :: "host \<Rightarrow> recipe \<Rightarrow> recipe_validation_error + recipe" where
  "recipe_try_from H input =
     and_then (recipe_validate H input) (\<lambda>_.
     and_then (content_digest H input) (\<lambda>d.
       if rcp_digest input \<noteq> d then Err RDigest else Ok input))"

definition finish_revision :: "host \<Rightarrow> recipe \<Rightarrow> u64 \<Rightarrow> string \<Rightarrow> recipe_validation_error + recipe" where
  "finish_revision H r parent_revision parent_digest =
     (let r1 = r\<lparr>rcp_parent_revision := Some parent_revision, rcp_parent_digest := parent_digest\<rparr>
      in and_then (ok_or RIdentity (u64_checked_add (rcp_revision r1) 1)) (\<lambda>revision.
         let r2 = r1\<lparr>rcp_revision := revision\<rparr>
         in and_then (recipe_validate H r2) (\<lambda>_. refresh_digest H r2)))"

definition refresh_after_declared_change :: "host \<Rightarrow> recipe \<Rightarrow> recipe_validation_error + recipe" where
  "refresh_after_declared_change H r = and_then (recipe_validate H r) (\<lambda>_. refresh_digest H r)"

definition downgrade_boundary :: "recipe \<Rightarrow> string \<Rightarrow> recipe_validation_error + unit" where
  "downgrade_boundary r target_schema =
     (if target_schema \<noteq> ''aos.recipe@0.9'' then Err RSchema
      else if bs_binding (rcp_bindings r) \<noteq> None \<or> bs_rhai (rcp_bindings r) \<noteq> None \<or>
              bs_extensions (rcp_bindings r) \<noteq> []
        then Err RIdentity
      else Ok ())"

section \<open>Surfaces\<close>

record surface =
  sfc_schema :: string
  sfc_surface_id :: string
  sfc_recipe_id :: string
  sfc_recipe_revision :: u64
  sfc_recipe_digest :: string
  sfc_incarnation :: u64
  sfc_bindings :: binding_set
  sfc_root :: semantic_node

definition surface_valid_document_id :: "string \<Rightarrow> bool" where
  "surface_valid_document_id value \<longleftrightarrow>
     value \<noteq> [] \<and> length value \<le> 256 \<and> \<not> contains_str value ''..'' \<and> list_all document_char value"

definition surface_from_recipe :: "host \<Rightarrow> recipe \<Rightarrow> string \<Rightarrow> u64 \<Rightarrow> recipe_validation_error + surface" where
  "surface_from_recipe H r surface_id incarnation =
     (if \<not> surface_valid_document_id surface_id \<or> incarnation = 0 \<or> \<not> valid_blake3_digest (rcp_digest r)
      then Err RIdentity
      else and_then (recipe_validate H r) (\<lambda>_. Ok
        \<lparr>sfc_schema = surface_schema, sfc_surface_id = surface_id, sfc_recipe_id = rcp_recipe_id r,
         sfc_recipe_revision = rcp_revision r, sfc_recipe_digest = rcp_digest r,
         sfc_incarnation = incarnation, sfc_bindings = rcp_bindings r, sfc_root = rcp_root r\<rparr>))"

definition surface_validate :: "host \<Rightarrow> surface \<Rightarrow> scene_error + unit" where
  "surface_validate H s =
     (if sfc_schema s \<noteq> surface_schema \<or> \<not> surface_valid_document_id (sfc_surface_id s) \<or>
         \<not> surface_valid_document_id (sfc_recipe_id s) \<or> sfc_recipe_revision s = 0 \<or>
         sfc_incarnation s = 0 \<or> \<not> valid_blake3_digest (sfc_recipe_digest s) \<or>
         \<not> is_ok (binding_set_validate H (sfc_bindings s))
      then Err InvalidSurfaceId
      else and_then (validate_node (sfc_root s)) (\<lambda>_. Ok ()))"

definition surface_try_from :: "host \<Rightarrow> surface \<Rightarrow> scene_error + surface" where
  "surface_try_from H input = and_then (surface_validate H input) (\<lambda>_. Ok input)"

section \<open>Facts about validated documents\<close>

lemma recipe_validate_Ok_iff:
  "recipe_validate H r = Ok u \<longleftrightarrow>
     rcp_schema r = recipe_schema \<and> owner_is_valid (rcp_owner_ref r) \<and>
     valid_document_id (rcp_recipe_id r) \<and> bounded_nonempty (rcp_theme_id r) 128 \<and>
     rcp_revision r \<noteq> 0 \<and>
     parent_link_ok (rcp_revision r) (rcp_parent_revision r) (rcp_parent_digest r) \<and>
     length (rcp_metadata r) \<le> max_recipe_metadata \<and>
     metadata_bytes (rcp_metadata r) \<le> max_recipe_metadata_bytes \<and>
     binding_set_validate H (rcp_bindings r) = Ok () \<and> scene_ok (rcp_root r)"
  by (auto simp: recipe_validate_def result_simps validate_node_Ok_iff split: if_splits)

text \<open>Validation reads neither the digest field nor anything that a digest refresh changes.\<close>

lemma recipe_validate_digest [simp]: "recipe_validate H (r\<lparr>rcp_digest := d\<rparr>) = recipe_validate H r"
  by (simp add: recipe_validate_def)

lemma content_digest_digest [simp]: "content_digest H (r\<lparr>rcp_digest := d\<rparr>) = content_digest H r"
  by (simp add: content_digest_def recipe_content_json_def)

definition recipe_sealed :: "host \<Rightarrow> recipe \<Rightarrow> bool" where
  "recipe_sealed H r \<longleftrightarrow> recipe_validate H r = Ok () \<and> content_digest H r = Ok (rcp_digest r)"

lemma refresh_digest_sealed:
  "recipe_validate H r = Ok () \<Longrightarrow> refresh_digest H r = Ok r' \<Longrightarrow> recipe_sealed H r'"
  by (auto simp: refresh_digest_def recipe_sealed_def result_simps)

lemma finish_revision_Ok_iff:
  "finish_revision H r pr pd = Ok r' \<longleftrightarrow>
     unat (rcp_revision r) < 2 ^ 64 - 1 \<and>
     recipe_validate H (r\<lparr>rcp_parent_revision := Some pr, rcp_parent_digest := pd,
       rcp_revision := rcp_revision r + 1\<rparr>) = Ok () \<and>
     refresh_digest H (r\<lparr>rcp_parent_revision := Some pr, rcp_parent_digest := pd,
       rcp_revision := rcp_revision r + 1\<rparr>) = Ok r'"
  by (auto simp: finish_revision_def Let_def result_simps u64_checked_add_def)

lemma finish_revision_fields:
  assumes "finish_revision H r pr pd = Ok r'"
  shows "recipe_sealed H r'" and "rcp_revision r' = rcp_revision r + 1"
    and "unat (rcp_revision r') = unat (rcp_revision r) + 1"
    and "rcp_parent_revision r' = Some pr" and "rcp_parent_digest r' = pd"
    and "rcp_owner_ref r' = rcp_owner_ref r" and "rcp_recipe_id r' = rcp_recipe_id r"
    and "rcp_theme_id r' = rcp_theme_id r" and "rcp_metadata r' = rcp_metadata r"
    and "rcp_root r' = rcp_root r" and "rcp_bindings r' = rcp_bindings r"
proof -
  let ?r = "r\<lparr>rcp_parent_revision := Some pr, rcp_parent_digest := pd, rcp_revision := rcp_revision r + 1\<rparr>"
  have ok: "unat (rcp_revision r) < 2 ^ 64 - 1" "recipe_validate H ?r = Ok ()" "refresh_digest H ?r = Ok r'"
    using assms by (simp_all add: finish_revision_Ok_iff)
  then obtain d where r': "r' = ?r\<lparr>rcp_digest := d\<rparr>" by (auto simp: refresh_digest_def result_simps)
  show "recipe_sealed H r'" using ok(2,3) by (rule refresh_digest_sealed)
  show "unat (rcp_revision r') = unat (rcp_revision r) + 1"
    using ok(1) by (simp add: r' unat_word_ariths)
  show "rcp_revision r' = rcp_revision r + 1" "rcp_parent_revision r' = Some pr" "rcp_parent_digest r' = pd"
    "rcp_owner_ref r' = rcp_owner_ref r" "rcp_recipe_id r' = rcp_recipe_id r"
    "rcp_theme_id r' = rcp_theme_id r" "rcp_metadata r' = rcp_metadata r"
    "rcp_root r' = rcp_root r" "rcp_bindings r' = rcp_bindings r"
    by (simp_all add: r')
qed

lemma recipe_try_from_Ok_iff: "recipe_try_from H r = Ok r' \<longleftrightarrow> r' = r \<and> recipe_sealed H r"
  by (auto simp: recipe_try_from_def recipe_sealed_def result_simps split: if_splits)

lemma recipe_new_sealed: "recipe_new H ow i th rt = Ok r \<Longrightarrow> recipe_sealed H r"
  by (auto simp: recipe_new_def Let_def result_simps intro: refresh_digest_sealed)

end
