(* ===== verification/Patches.thy ===== *)
theory Patches
  imports Recipes
begin

text \<open>
  \<open>capsules/capsule-surface-model/src/store.rs\<close>, first part: patches, their validation, their intent
  digest, and the effect of one operation on a candidate recipe.
\<close>

section \<open>Data\<close>

definition max_patch_ops :: nat where "max_patch_ops = 64"
definition max_patch_text_bytes :: nat where "max_patch_text_bytes = 4096"

record review_acceptance =
  rv_reviewer :: opaque_principal_ref
  rv_receipt :: string

datatype patch_op =
    SetState node_id state_set
  | SetProperty node_id string prop_value
  | ReplaceRoot semantic_node
  | ClearRoot
  | SetTheme string
  | SetRecipeMetadata string prop_value
  | SetBinding binding
  | SetRhai rhai_reference
  | RestoreRevision u64 string

record patch =
  pat_schema :: string
  pat_owner_ref :: opaque_owner_ref
  pat_acting_principal :: opaque_principal_ref
  pat_proposal_id :: string
  pat_review :: review_acceptance
  pat_patch_id :: string
  pat_recipe_id :: string
  pat_base_revision :: u64
  pat_base_digest :: string
  pat_summary :: string
  pat_operations :: "patch_op list"

datatype patch_error =
    InvalidSchema
  | TooManyOperations
  | MetadataTooLarge
  | InvalidProperty
  | InvalidTheme
  | InvalidRecipeMetadata
  | InvalidBinding
  | InvalidRhai
  | PatchInvalidState
  | UnknownRecipe
  | UnknownRecipeRevision
  | UnknownNode node_id
  | Conflict u64 string
  | PatchScene scene_error
  | PatchProps props_error
  | PatchRecipe recipe_validation_error
  | InvalidPrincipal
  | SelfApproved
  | OwnerMismatch
  | Serialization
  | RevisionOverflow
  | PatchIdConflict string
  | DuplicateRecipe string
  | InvalidCanonicalDocument
  | ReplayUnexpectedlyIdempotent
  | DisjointFieldMergeRejected
  | NotConflicted
  | InvalidRestore

section \<open>Validation\<close>

definition principal_validate :: "opaque_principal_ref \<Rightarrow> patch_error + unit" where
  "principal_validate p = (if \<not> principal_is_valid p then Err InvalidPrincipal else Ok ())"

definition patch_fields :: "patch \<Rightarrow> string list" where
  "patch_fields p = [pat_patch_id p, pat_recipe_id p, pat_proposal_id p, rv_receipt (pat_review p),
     pat_base_digest p, pat_summary p]"

fun op_validate :: "nat \<Rightarrow> patch_op \<Rightarrow> patch_error + unit" where
  "op_validate n (SetProperty _ key value) =
     (if key = [] \<or> length key > 128 \<or> byte_len value = usize_max then Err InvalidProperty else Ok ())"
| "op_validate n (SetTheme theme_id) =
     (if theme_id = [] \<or> length theme_id > 128 then Err InvalidTheme else Ok ())"
| "op_validate n (SetRecipeMetadata key value) =
     (if key = [] \<or> length key > 128 \<or> byte_len value > 1024 then Err InvalidRecipeMetadata else Ok ())"
| "op_validate n (SetBinding b) = map_err (\<lambda>_. InvalidBinding) (binding_validate b)"
| "op_validate n (SetRhai r) = map_err (\<lambda>_. InvalidRhai) (rhai_validate r)"
| "op_validate n (SetState _ st) =
     and_then (map_err (\<lambda>_. PatchInvalidState) (state_set_from_bits st)) (\<lambda>_. Ok ())"
| "op_validate n (ReplaceRoot root) =
     and_then (map_err PatchScene (validate_node root)) (\<lambda>_. Ok ())"
| "op_validate n ClearRoot = Ok ()"
| "op_validate n (RestoreRevision target_revision target_digest) =
     (if n \<noteq> 1 \<or> target_revision = 0 \<or> \<not> valid_blake3_digest target_digest
      then Err InvalidRestore else Ok ())"

definition patch_validate :: "patch \<Rightarrow> patch_error + unit" where
  "patch_validate p =
     (if pat_schema p \<noteq> patch_schema then Err InvalidSchema
      else if \<not> owner_is_valid (pat_owner_ref p) then Err OwnerMismatch
      else and_then (principal_validate (pat_acting_principal p)) (\<lambda>_.
        and_then (principal_validate (rv_reviewer (pat_review p))) (\<lambda>_.
        if pat_acting_principal p = rv_reviewer (pat_review p) then Err SelfApproved
        else if pat_base_revision p = 0 \<or> \<not> valid_blake3_digest (pat_base_digest p)
          then Err MetadataTooLarge
        else if list_ex (\<lambda>value. value = [] \<or> length value > 256) (patch_fields p) \<or>
                sum_list (map length (patch_fields p)) > max_patch_text_bytes
          then Err MetadataTooLarge
        else if pat_operations p = [] \<or> length (pat_operations p) > max_patch_ops
          then Err TooManyOperations
        else check_all (op_validate (length (pat_operations p))) (pat_operations p))))"

definition patch_new :: "opaque_owner_ref \<Rightarrow> opaque_principal_ref \<Rightarrow> opaque_principal_ref \<Rightarrow> string
    \<Rightarrow> string \<Rightarrow> string \<Rightarrow> u64 \<Rightarrow> string \<Rightarrow> string \<Rightarrow> patch_op list \<Rightarrow> patch_error + patch" where
  "patch_new owner_ref acting_principal reviewer receipt patch_id recipe_id base_revision base_digest
     summary operations =
     (let value = \<lparr>pat_schema = patch_schema, pat_owner_ref = owner_ref,
        pat_acting_principal = acting_principal, pat_proposal_id = ''proposal:'' @ patch_id,
        pat_review = \<lparr>rv_reviewer = reviewer, rv_receipt = receipt\<rparr>,
        pat_patch_id = patch_id, pat_recipe_id = recipe_id, pat_base_revision = base_revision,
        pat_base_digest = base_digest, pat_summary = summary, pat_operations = operations\<rparr>
      in and_then (patch_validate value) (\<lambda>_. Ok value))"

text \<open>\<open>PatchInput\<close> has the fields of \<open>Patch\<close>; conversion validates.\<close>

definition patch_try_from :: "patch \<Rightarrow> patch_error + patch" where
  "patch_try_from input = and_then (patch_validate input) (\<lambda>_. Ok input)"

section \<open>Intent digest\<close>

fun patch_op_json :: "patch_op \<Rightarrow> raw_json" where
  "patch_op_json (SetState i st) =
     RObj [(''SetState'', RObj [(''node_id'', RU64 i), (''state'', RU64 (ucast st))])]"
| "patch_op_json (SetProperty i key value) =
     RObj [(''SetProperty'', RObj [(''node_id'', RU64 i), (''key'', RStr key),
       (''value'', prop_value_json value)])]"
| "patch_op_json (ReplaceRoot root) = RObj [(''ReplaceRoot'', RObj [(''root'', node_json root)])]"
| "patch_op_json ClearRoot = RStr ''ClearRoot''"
| "patch_op_json (SetTheme theme_id) = RObj [(''SetTheme'', RObj [(''theme_id'', RStr theme_id)])]"
| "patch_op_json (SetRecipeMetadata key value) =
     RObj [(''SetRecipeMetadata'', RObj [(''key'', RStr key), (''value'', prop_value_json value)])]"
| "patch_op_json (SetBinding b) = RObj [(''SetBinding'', RObj [(''binding'', binding_json b)])]"
| "patch_op_json (SetRhai r) = RObj [(''SetRhai'', RObj [(''reference'', rhai_json r)])]"
| "patch_op_json (RestoreRevision n d) =
     RObj [(''RestoreRevision'', RObj [(''target_revision'', RU64 n), (''target_digest'', RStr d)])]"

definition intent_json :: "patch \<Rightarrow> raw_json" where
  "intent_json p = RArr [owner_json (pat_owner_ref p), RStr (pat_recipe_id p),
     RU64 (pat_base_revision p), RStr (pat_base_digest p), RArr (map patch_op_json (pat_operations p))]"

definition intent_digest :: "host \<Rightarrow> patch \<Rightarrow> patch_error + string" where
  "intent_digest H p = map_err (\<lambda>_. Serialization) (digest_parts H (intent_json p))"

section \<open>Operations on a candidate\<close>

text \<open>The candidate and the \<open>visual_changed\<close> flag are threaded through the operations.\<close>

definition set_node_state :: "semantic_node \<Rightarrow> state_set \<Rightarrow> semantic_node" where
  "set_node_state n st = SemanticNode (nid n) (nkind n) (nprops n) st (nacc n) (nchildren n)"

definition set_node_props :: "semantic_node \<Rightarrow> bounded_props \<Rightarrow> semantic_node" where
  "set_node_props n p = SemanticNode (nid n) (nkind n) p (nstate n) (nacc n) (nchildren n)"

definition cleared_root :: "host \<Rightarrow> semantic_node" where
  "cleared_root H = node_new H ''surface-model/cleared-root'' Region ''Cleared surface''"

fun apply_operation :: "host \<Rightarrow> recipe \<times> bool \<Rightarrow> patch_op \<Rightarrow> patch_error + (recipe \<times> bool)" where
  "apply_operation H (r, vc) (SetState i st) =
     and_then (ok_or (UnknownNode i) (find_node i (rcp_root r))) (\<lambda>n.
       Ok (r\<lparr>rcp_root := replace_node i (set_node_state n st) (rcp_root r)\<rparr>, True))"
| "apply_operation H (r, vc) (SetProperty i key value) =
     and_then (ok_or (UnknownNode i) (find_node i (rcp_root r))) (\<lambda>n.
     and_then (map_err PatchProps (props_with (nprops n) key value)) (\<lambda>p.
       Ok (r\<lparr>rcp_root := replace_node i (set_node_props n p) (rcp_root r)\<rparr>, True)))"
| "apply_operation H (r, vc) (ReplaceRoot root) =
     and_then (map_err PatchScene (validate_node root)) (\<lambda>count.
       if count > max_nodes then Err (PatchScene TooManyNodes)
       else Ok (r\<lparr>rcp_root := root\<rparr>, True))"
| "apply_operation H (r, vc) ClearRoot = Ok (r\<lparr>rcp_root := cleared_root H\<rparr>, True)"
| "apply_operation H (r, vc) (SetTheme theme_id) = Ok (r\<lparr>rcp_theme_id := theme_id\<rparr>, vc)"
| "apply_operation H (r, vc) (SetRecipeMetadata key value) =
     Ok (r\<lparr>rcp_metadata := bt_insert key value (rcp_metadata r)\<rparr>, vc)"
| "apply_operation H (r, vc) (SetBinding b) =
     Ok (r\<lparr>rcp_bindings := (rcp_bindings r)\<lparr>bs_binding := Some b\<rparr>\<rparr>, vc)"
| "apply_operation H (r, vc) (SetRhai ref) =
     Ok (r\<lparr>rcp_bindings := (rcp_bindings r)\<lparr>bs_rhai := Some ref\<rparr>\<rparr>, vc)"
| "apply_operation H (r, vc) (RestoreRevision _ _) = Err InvalidRestore"

fun apply_operations :: "host \<Rightarrow> recipe \<times> bool \<Rightarrow> patch_op list \<Rightarrow> patch_error + (recipe \<times> bool)" where
  "apply_operations H c [] = Ok c"
| "apply_operations H c (x # xs) = and_then (apply_operation H c x) (\<lambda>c'. apply_operations H c' xs)"

definition restore_revision :: "recipe \<Rightarrow> recipe \<Rightarrow> string \<Rightarrow> patch_error + (recipe \<times> bool)" where
  "restore_revision r target expected_digest =
     (if rcp_digest target \<noteq> expected_digest then Err InvalidRestore
      else if rcp_owner_ref target \<noteq> rcp_owner_ref r \<or> rcp_recipe_id target \<noteq> rcp_recipe_id r
        then Err OwnerMismatch
      else Ok (r\<lparr>rcp_root := rcp_root target, rcp_theme_id := rcp_theme_id target,
                 rcp_metadata := rcp_metadata target, rcp_bindings := rcp_bindings target\<rparr>,
               \<not> node_eq (rcp_root r) (rcp_root target) \<or> rcp_theme_id r \<noteq> rcp_theme_id target))"

text \<open>The slice pattern \<open>[PatchOp::RestoreRevision { .. }]\<close> of \<open>apply_patch_once\<close>.\<close>

definition sole_restore :: "patch_op list \<Rightarrow> (u64 \<times> string) option" where
  "sole_restore xs = (case xs of [RestoreRevision n d] \<Rightarrow> Some (n, d) | _ \<Rightarrow> None)"

lemma sole_restore_Some: "sole_restore xs = Some (n, d) \<longleftrightarrow> xs = [RestoreRevision n d]"
  by (auto simp: sole_restore_def split: list.splits patch_op.splits)

section \<open>Facts\<close>

lemma patch_validate_Ok_iff:
  "patch_validate p = Ok u \<longleftrightarrow>
     pat_schema p = patch_schema \<and> owner_is_valid (pat_owner_ref p) \<and>
     principal_is_valid (pat_acting_principal p) \<and>
     principal_is_valid (rv_reviewer (pat_review p)) \<and>
     pat_acting_principal p \<noteq> rv_reviewer (pat_review p) \<and>
     pat_base_revision p \<noteq> 0 \<and> valid_blake3_digest (pat_base_digest p) \<and>
     (\<forall>v \<in> set (patch_fields p). v \<noteq> [] \<and> length v \<le> 256) \<and>
     pat_operations p \<noteq> [] \<and> length (pat_operations p) \<le> max_patch_ops \<and>
     (\<forall>x \<in> set (pat_operations p). op_validate (length (pat_operations p)) x = Ok ())"
proof -
  have "sum_list (map length (patch_fields p)) \<le> max_patch_text_bytes"
    if "\<forall>v \<in> set (patch_fields p). length v \<le> 256"
    using that by (simp add: patch_fields_def max_patch_text_bytes_def)
  then have "list_ex (\<lambda>v. v = [] \<or> length v > 256) (patch_fields p) \<or>
      sum_list (map length (patch_fields p)) > max_patch_text_bytes \<longleftrightarrow>
      \<not> (\<forall>v \<in> set (patch_fields p). v \<noteq> [] \<and> length v \<le> 256)"
    by (cases "\<forall>v \<in> set (patch_fields p). length v \<le> 256") (auto simp: list_ex_iff not_le)
  then show ?thesis
    by (auto simp: patch_validate_def principal_validate_def result_simps split: if_splits)
qed

text \<open>The fields of a candidate that no operation writes.\<close>

definition same_identity :: "recipe \<Rightarrow> recipe \<Rightarrow> bool" where
  "same_identity r r' \<longleftrightarrow>
     rcp_schema r' = rcp_schema r \<and> rcp_owner_ref r' = rcp_owner_ref r \<and>
     rcp_recipe_id r' = rcp_recipe_id r \<and> rcp_revision r' = rcp_revision r \<and>
     rcp_parent_revision r' = rcp_parent_revision r \<and> rcp_parent_digest r' = rcp_parent_digest r \<and>
     rcp_digest r' = rcp_digest r"

lemma same_identity_refl [simp]: "same_identity r r"
  by (simp add: same_identity_def)

lemma same_identity_trans: "same_identity r s \<Longrightarrow> same_identity s t \<Longrightarrow> same_identity r t"
  by (simp add: same_identity_def)

lemma apply_operation_identity:
  "apply_operation H (r, vc) x = Ok (r', vc') \<Longrightarrow> same_identity r r'"
  by (cases x) (auto simp: same_identity_def result_simps split: if_splits)

lemma apply_operations_identity:
  "apply_operations H (r, vc) xs = Ok (r', vc') \<Longrightarrow> same_identity r r'"
proof (induction xs arbitrary: r vc)
  case Nil
  then show ?case by simp
next
  case (Cons x xs)
  then obtain s w where s: "apply_operation H (r, vc) x = Ok (s, w)"
    and "apply_operations H (s, w) xs = Ok (r', vc')"
    by (auto simp: result_simps)
  with Cons.IH have "same_identity s r'" by blast
  with apply_operation_identity [OF s] show ?case by (rule same_identity_trans)
qed

lemma restore_revision_identity:
  "restore_revision r target d = Ok (r', vc') \<Longrightarrow> same_identity r r'"
  by (auto simp: restore_revision_def same_identity_def split: if_splits)

lemma apply_operations_append:
  "apply_operations H c (xs @ ys) = and_then (apply_operations H c xs) (\<lambda>c'. apply_operations H c' ys)"
  by (induction xs arbitrary: c) (auto simp: and_then_def split: sum.splits)

text \<open>A restore is never one operation among several: the loop refuses it.\<close>

lemma apply_operations_no_restore:
  "apply_operations H c xs = Ok c' \<Longrightarrow> RestoreRevision n d \<notin> set xs"
proof (induction xs arbitrary: c)
  case Nil
  then show ?case by simp
next
  case (Cons x xs)
  then show ?case by (cases c) (auto simp: result_simps)
qed

end
