(* ===== verification/Recipe_Store.thy ===== *)
theory Recipe_Store
  imports Patches
begin

text \<open>
  \<open>capsules/capsule-surface-model/src/store.rs\<close>, second part: the recipe ledger. \<open>RecipeStore\<close> keeps
  the head of every recipe, its whole revision history, and which patches were applied. Each method
  that takes \<open>&mut self\<close> is a function from the store to the store and the result, on every branch.
\<close>

section \<open>State\<close>

record recipe_store =
  st_current :: "(string, recipe) btree_map"
  st_history :: "(string \<times> u64, recipe) btree_map"
  st_applied_patches :: "(string, string) btree_map"
  st_applied_patch_by_revision :: "(string \<times> u64, patch) btree_map"

datatype patch_outcome =
    Applied recipe bool
  | AlreadyApplied recipe

record conflict_candidate =
  cc_current :: recipe
  cc_incoming :: patch
  cc_merged :: "patch option"

record rollback_request =
  rb_owner_ref :: opaque_owner_ref
  rb_recipe_id :: string
  rb_target_revision :: u64
  rb_acting_principal :: opaque_principal_ref
  rb_reviewer :: opaque_principal_ref
  rb_receipt :: string

definition store_new :: recipe_store where
  "store_new = \<lparr>st_current = [], st_history = [], st_applied_patches = [],
     st_applied_patch_by_revision = []\<rparr>"

section \<open>Insertion and lookup\<close>

definition store_insert :: "host \<Rightarrow> recipe_store \<Rightarrow> recipe \<Rightarrow> recipe_store \<times> (patch_error + unit)" where
  "store_insert H s r =
     (if rcp_schema r \<noteq> recipe_schema \<or> rcp_revision r \<noteq> 1
      then (s, Err (PatchRecipe RIdentity))
      else case recipe_validate H r of
        Err e \<Rightarrow> (s, Err (PatchRecipe e))
      | Ok _ \<Rightarrow> (case content_digest H r of
          Err e \<Rightarrow> (s, Err (PatchRecipe e))
        | Ok d \<Rightarrow>
            if rcp_digest r \<noteq> d then (s, Err (PatchRecipe RDigest))
            else if bt_contains_key (st_current s) (rcp_recipe_id r)
              then (s, Err (DuplicateRecipe (rcp_recipe_id r)))
            else (s\<lparr>st_history := bt_insert (rcp_recipe_id r, rcp_revision r) r (st_history s),
                    st_current := bt_insert (rcp_recipe_id r) r (st_current s)\<rparr>, Ok ())))"

definition store_get :: "recipe_store \<Rightarrow> string \<Rightarrow> recipe option" where
  "store_get s recipe_id = bt_get (st_current s) recipe_id"

definition store_revision :: "recipe_store \<Rightarrow> string \<Rightarrow> u64 \<Rightarrow> recipe option" where
  "store_revision s recipe_id n = bt_get (st_history s) (recipe_id, n)"

section \<open>Applying a patch\<close>

definition build_candidate :: "host \<Rightarrow> recipe_store \<Rightarrow> patch \<Rightarrow> recipe \<Rightarrow> patch_error + (recipe \<times> bool)" where
  "build_candidate H s p r =
     (case sole_restore (pat_operations p) of
        Some (target_revision, target_digest) \<Rightarrow>
          and_then (ok_or UnknownRecipeRevision (bt_get (st_history s) (pat_recipe_id p, target_revision)))
            (\<lambda>target. restore_revision r target target_digest)
      | None \<Rightarrow> apply_operations H (r, False) (pat_operations p))"

definition record_revision :: "recipe_store \<Rightarrow> patch \<Rightarrow> recipe \<Rightarrow> recipe_store" where
  "record_revision s p c = s\<lparr>
     st_history := bt_insert (rcp_recipe_id c, rcp_revision c) c (st_history s),
     st_applied_patch_by_revision :=
       bt_insert (rcp_recipe_id c, rcp_revision c) p (st_applied_patch_by_revision s),
     st_current := bt_insert (rcp_recipe_id c) c (st_current s)\<rparr>"

definition apply_patch_once :: "host \<Rightarrow> recipe_store \<Rightarrow> patch \<Rightarrow> recipe_store \<times> (patch_error + patch_outcome)" where
  "apply_patch_once H s p =
     (case patch_validate p of Err e \<Rightarrow> (s, Err e) | Ok _ \<Rightarrow>
      case intent_digest H p of Err e \<Rightarrow> (s, Err e) | Ok intent \<Rightarrow>
      case bt_get (st_applied_patches s) (pat_patch_id p) of
        Some previous_intent \<Rightarrow>
          if previous_intent \<noteq> intent then (s, Err (PatchIdConflict (pat_patch_id p)))
          else (s, and_then (ok_or UnknownRecipe (bt_get (st_current s) (pat_recipe_id p)))
                     (\<lambda>r. Ok (AlreadyApplied r)))
      | None \<Rightarrow>
      case bt_get (st_current s) (pat_recipe_id p) of None \<Rightarrow> (s, Err UnknownRecipe) | Some r \<Rightarrow>
      if rcp_owner_ref r \<noteq> pat_owner_ref p then (s, Err OwnerMismatch)
      else if rcp_revision r \<noteq> pat_base_revision p \<or> rcp_digest r \<noteq> pat_base_digest p
        then (s, Err (Conflict (rcp_revision r) (rcp_digest r)))
      else
      case build_candidate H s p r of Err e \<Rightarrow> (s, Err e) | Ok (candidate, visual_changed) \<Rightarrow>
      case finish_revision H candidate (rcp_revision r) (rcp_digest r) of
        Err e \<Rightarrow> (s, Err (PatchRecipe e))
      | Ok candidate' \<Rightarrow>
          (let s' = record_revision s p candidate' in
           case intent_digest H p of
             Err e \<Rightarrow> (s', Err e)
           | Ok d \<Rightarrow> (s'\<lparr>st_applied_patches := bt_insert (pat_patch_id p) d (st_applied_patches s')\<rparr>,
                      Ok (Applied candidate' visual_changed))))"

definition apply_patch :: "host \<Rightarrow> recipe_store \<Rightarrow> patch \<Rightarrow> recipe_store \<times> (patch_error + patch_outcome)" where
  "apply_patch H s p =
     (case apply_patch_once H s p of
        (s', Err e) \<Rightarrow> (s', Err e)
      | (s', Ok (Applied r visual_changed)) \<Rightarrow> (s', Ok (Applied r visual_changed))
      | (s', Ok (AlreadyApplied r)) \<Rightarrow> (s', Ok (AlreadyApplied r)))"

section \<open>Narrow merge of a conflicting patch\<close>

fun disjoint_fields :: "string set \<Rightarrow> (node_id \<times> string) set \<Rightarrow> patch_op list \<Rightarrow>
    patch_error + (string set \<times> (node_id \<times> string) set)" where
  "disjoint_fields mk pf [] = Ok (mk, pf)"
| "disjoint_fields mk pf (SetRecipeMetadata key _ # xs) =
     (if key \<in> mk then Err DisjointFieldMergeRejected else disjoint_fields (insert key mk) pf xs)"
| "disjoint_fields mk pf (SetProperty i key _ # xs) =
     (if (i, key) \<in> pf then Err DisjointFieldMergeRejected
      else disjoint_fields mk (insert (i, key) pf) xs)"
| "disjoint_fields mk pf (_ # xs) = Err DisjointFieldMergeRejected"

definition merge_disjoint_fields :: "patch \<Rightarrow> patch \<Rightarrow> string \<Rightarrow> patch_error + patch" where
  "merge_disjoint_fields base incoming merged_patch_id =
     and_then (patch_validate base) (\<lambda>_.
     and_then (patch_validate incoming) (\<lambda>_.
     if pat_recipe_id base \<noteq> pat_recipe_id incoming \<or> pat_owner_ref base \<noteq> pat_owner_ref incoming \<or>
        merged_patch_id = [] \<or> length merged_patch_id > 256 \<or>
        merged_patch_id = pat_patch_id base \<or> merged_patch_id = pat_patch_id incoming
     then Err DisjointFieldMergeRejected
     else and_then (disjoint_fields {} {} (pat_operations base @ pat_operations incoming)) (\<lambda>_.
       if length (pat_operations base) + length (pat_operations incoming) > max_patch_ops
       then Err TooManyOperations
       else (let merged = base\<lparr>pat_patch_id := merged_patch_id,
                    pat_proposal_id := ''proposal:'' @ merged_patch_id,
                    pat_operations := pat_operations base @ pat_operations incoming\<rparr>
             in and_then (patch_validate merged) (\<lambda>_. Ok merged)))))"

definition compute_conflict_candidate :: "recipe_store \<Rightarrow> patch \<Rightarrow> string \<Rightarrow> patch_error + conflict_candidate" where
  "compute_conflict_candidate s incoming merged_patch_id =
     and_then (patch_validate incoming) (\<lambda>_.
     and_then (ok_or UnknownRecipe (bt_get (st_current s) (pat_recipe_id incoming))) (\<lambda>current.
     if rcp_owner_ref current \<noteq> pat_owner_ref incoming then Err OwnerMismatch
     else if rcp_revision current = pat_base_revision incoming \<and>
             rcp_digest current = pat_base_digest incoming then Err NotConflicted
     else and_then
       (case bt_get (st_applied_patch_by_revision s) (pat_recipe_id incoming, rcp_revision current) of
          Some previous \<Rightarrow>
            (case merge_disjoint_fields previous incoming merged_patch_id of
               Ok merged \<Rightarrow> Ok (Some (merged\<lparr>pat_base_revision := rcp_revision current,
                                           pat_base_digest := rcp_digest current\<rparr>))
             | Err e \<Rightarrow> Err e)
        | None \<Rightarrow> Ok None)
       (\<lambda>merged. Ok \<lparr>cc_current = current, cc_incoming = incoming, cc_merged = merged\<rparr>)))"

definition apply_patch_with_narrow_merge ::
  "host \<Rightarrow> recipe_store \<Rightarrow> patch \<Rightarrow> string \<Rightarrow> recipe_store \<times> (patch_error + patch_outcome)" where
  "apply_patch_with_narrow_merge H s incoming merged_patch_id =
     (case apply_patch_once H s incoming of
        (s', Ok outcome) \<Rightarrow> (s', Ok outcome)
      | (s', Err (Conflict _ _)) \<Rightarrow>
          (case compute_conflict_candidate s' incoming merged_patch_id of
             Err e \<Rightarrow> (s', Err e)
           | Ok candidate \<Rightarrow>
               (case cc_merged candidate of
                  None \<Rightarrow> (s', Err DisjointFieldMergeRejected)
                | Some merged \<Rightarrow> apply_patch H s' merged))
      | (s', Err e) \<Rightarrow> (s', Err e))"

section \<open>Rollback and replay\<close>

definition existing_restore_outcome :: "patch \<Rightarrow> rollback_request \<Rightarrow> recipe \<Rightarrow> patch_error + recipe" where
  "existing_restore_outcome existing request current =
     (case sole_restore (pat_operations existing) of
        Some (target_revision, _) \<Rightarrow>
          if pat_owner_ref existing = rb_owner_ref request \<and>
             pat_recipe_id existing = rb_recipe_id request \<and>
             target_revision = rb_target_revision request
          then Ok current else Err (PatchIdConflict (pat_patch_id existing))
      | None \<Rightarrow> Err (PatchIdConflict (pat_patch_id existing)))"

definition rollback :: "host \<Rightarrow> recipe_store \<Rightarrow> rollback_request \<Rightarrow> string \<Rightarrow> recipe_store \<times> (patch_error + recipe)" where
  "rollback H s request patch_id =
     (case bt_get (st_current s) (rb_recipe_id request) of None \<Rightarrow> (s, Err UnknownRecipe) | Some current \<Rightarrow>
      if rcp_owner_ref current \<noteq> rb_owner_ref request then (s, Err OwnerMismatch)
      else
      case find (\<lambda>p. pat_patch_id p = patch_id) (bt_values (st_applied_patch_by_revision s)) of
        Some existing \<Rightarrow> (s, existing_restore_outcome existing request current)
      | None \<Rightarrow>
      case bt_get (st_history s) (rb_recipe_id request, rb_target_revision request) of
        None \<Rightarrow> (s, Err UnknownRecipeRevision)
      | Some target \<Rightarrow>
      case patch_new (rb_owner_ref request) (rb_acting_principal request) (rb_reviewer request)
             (rb_receipt request) patch_id (rb_recipe_id request) (rcp_revision current)
             (rcp_digest current)
             (''rollback to revision '' @ show_nat (unat (rb_target_revision request)))
             [RestoreRevision (rb_target_revision request) (rcp_digest target)] of
        Err e \<Rightarrow> (s, Err e)
      | Ok p \<Rightarrow>
          (case apply_patch H s p of
             (s', Err e) \<Rightarrow> (s', Err e)
           | (s', Ok (Applied r _)) \<Rightarrow> (s', Ok r)
           | (s', Ok (AlreadyApplied r)) \<Rightarrow> (s', Ok r)))"

fun replay_patches :: "host \<Rightarrow> recipe_store \<Rightarrow> patch list \<Rightarrow> patch_error + recipe_store" where
  "replay_patches H s [] = Ok s"
| "replay_patches H s (p # ps) =
     (case apply_patch H s p of
        (_, Err e) \<Rightarrow> Err e
      | (_, Ok (AlreadyApplied _)) \<Rightarrow> Err ReplayUnexpectedlyIdempotent
      | (s', Ok (Applied _ _)) \<Rightarrow> replay_patches H s' ps)"

text \<open>\<open>decode\<close> is the derived deserializer of \<open>Recipe\<close> up to its \<open>TryFrom\<close> conversion.\<close>

definition replay :: "host \<Rightarrow> (string \<Rightarrow> recipe option) \<Rightarrow> string \<Rightarrow> patch list \<Rightarrow> patch_error + recipe" where
  "replay H decode recipe_bytes patches =
     and_then (map_err (\<lambda>_. InvalidCanonicalDocument)
       (parse_canonical H (\<lambda>text. case decode text of None \<Rightarrow> None
          | Some input \<Rightarrow> (case recipe_try_from H input of Err _ \<Rightarrow> None | Ok r \<Rightarrow> Some r)) recipe_bytes)) (\<lambda>r.
     case store_insert H store_new r of
       (_, Err e) \<Rightarrow> Err e
     | (s, Ok _) \<Rightarrow>
         and_then (replay_patches H s patches) (\<lambda>s'.
         ok_or UnknownRecipe (case bt_values (st_current s') of [] \<Rightarrow> None | r # _ \<Rightarrow> Some r)))"

end
