(* ===== verification/Ledger.thy ===== *)
theory Ledger
  imports Recipe_Store
begin

text \<open>
  The abstract specification of \<open>RecipeStore\<close> and the proof that the store implements it. Abstractly,
  a store is one append-only log per recipe: the list of its revisions, each with the patch that made
  it. A log is a hash chain (\<open>chain\<close>): every revision is sealed, linked to its parent by number and
  digest, and was produced from its parent by the recorded patch. \<open>represents\<close> ties the four maps of
  the store to the logs.
\<close>

section \<open>Logs\<close>

type_synonym revision_log = "(recipe \<times> patch option) list"

definition log_at :: "revision_log \<Rightarrow> u64 \<Rightarrow> (recipe \<times> patch option) option" where
  "log_at L n = (if n = 0 \<or> unat n > length L then None else Some (L ! (unat n - 1)))"

lemma log_at_Nil [simp]: "log_at [] n = None"
  by (cases "n = 0") (simp_all add: log_at_def u64_zero_iff flip: neq0_conv)

definition log_head :: "revision_log \<Rightarrow> recipe" where
  "log_head L = fst (last L)"

definition log_candidate :: "host \<Rightarrow> revision_log \<Rightarrow> patch \<Rightarrow> patch_error + (recipe \<times> bool)" where
  "log_candidate H L p =
     (case sole_restore (pat_operations p) of
        Some (n, d) \<Rightarrow>
          and_then (ok_or UnknownRecipeRevision (map_option fst (log_at L n)))
            (\<lambda>target. restore_revision (log_head L) target d)
      | None \<Rightarrow> apply_operations H (log_head L, False) (pat_operations p))"

definition log_step :: "host \<Rightarrow> revision_log \<Rightarrow> patch \<Rightarrow> recipe \<Rightarrow> bool \<Rightarrow> bool" where
  "log_step H L p r vc \<longleftrightarrow> (let q = log_head L in
     patch_validate p = Ok () \<and> is_ok (intent_digest H p) \<and>
     pat_recipe_id p = rcp_recipe_id q \<and> pat_owner_ref p = rcp_owner_ref q \<and>
     pat_base_revision p = rcp_revision q \<and> pat_base_digest p = rcp_digest q \<and>
     (\<exists>c. log_candidate H L p = Ok (c, vc) \<and>
          finish_revision H c (rcp_revision q) (rcp_digest q) = Ok r))"

inductive chain :: "host \<Rightarrow> string \<Rightarrow> revision_log \<Rightarrow> bool" for H i where
  chain_root: "rcp_recipe_id r = i \<Longrightarrow> rcp_revision r = 1 \<Longrightarrow> recipe_sealed H r \<Longrightarrow> chain H i [(r, None)]"
| chain_step: "chain H i L \<Longrightarrow> log_step H L p r vc \<Longrightarrow> chain H i (L @ [(r, Some p)])"

inductive_cases chain_snocE: "chain H i (L @ [e])"

lemma chain_not_Nil: "chain H i L \<Longrightarrow> L \<noteq> []"
  by (induction rule: chain.induct) auto

lemma log_candidate_identity: "log_candidate H L p = Ok (c, vc) \<Longrightarrow> same_identity (log_head L) c"
  by (auto simp: log_candidate_def result_simps split: option.splits
      dest: apply_operations_identity restore_revision_identity)

lemma log_step_fields:
  assumes "log_step H L p r vc"
  defines "q \<equiv> log_head L"
  shows "recipe_sealed H r" and "unat (rcp_revision r) = unat (rcp_revision q) + 1"
    and "rcp_parent_revision r = Some (rcp_revision q)" and "rcp_parent_digest r = rcp_digest q"
    and "rcp_recipe_id r = rcp_recipe_id q" and "rcp_owner_ref r = rcp_owner_ref q"
proof -
  from assms obtain c where c: "log_candidate H L p = Ok (c, vc)"
    and fin: "finish_revision H c (rcp_revision q) (rcp_digest q) = Ok r"
    by (auto simp: log_step_def Let_def)
  from c have same: "same_identity q c" unfolding q_def by (rule log_candidate_identity)
  note f = finish_revision_fields [OF fin]
  show "recipe_sealed H r" by (rule f(1))
  show "unat (rcp_revision r) = unat (rcp_revision q) + 1"
    "rcp_parent_revision r = Some (rcp_revision q)" "rcp_parent_digest r = rcp_digest q"
    "rcp_recipe_id r = rcp_recipe_id q" "rcp_owner_ref r = rcp_owner_ref q"
    using f same by (simp_all add: same_identity_def)
qed

lemma chain_head:
  "chain H i L \<Longrightarrow> rcp_recipe_id (log_head L) = i \<and> unat (rcp_revision (log_head L)) = length L \<and>
     recipe_sealed H (log_head L)"
proof (induction rule: chain.induct)
  case (chain_root r)
  then show ?case by (simp add: log_head_def)
next
  case (chain_step L p r vc)
  then show ?case
    using log_step_fields [OF chain_step.hyps(2)] by (simp add: log_head_def)
qed

lemma chain_take: "chain H i L \<Longrightarrow> 0 < n \<Longrightarrow> n \<le> length L \<Longrightarrow> chain H i (take n L)"
proof (induction rule: chain.induct)
  case (chain_root r)
  then have "n = 1" by simp
  with chain_root show ?case by (simp add: chain.chain_root)
next
  case (chain_step L p r vc)
  show ?case
  proof (cases "n \<le> length L")
    case True
    with chain_step show ?thesis by simp
  next
    case False
    with chain_step.prems have "take n (L @ [(r, Some p)]) = L @ [(r, Some p)]" by simp
    with chain_step.hyps show ?thesis by (simp add: chain.chain_step)
  qed
qed

lemma chain_nth:
  assumes "chain H i L" and "j < length L"
  shows "rcp_recipe_id (fst (L ! j)) = i" and "unat (rcp_revision (fst (L ! j))) = j + 1"
    and "recipe_sealed H (fst (L ! j))"
proof -
  have "chain H i (take (Suc j) L)" using assms by (intro chain_take) auto
  from chain_head [OF this] assms(2)
  show "rcp_recipe_id (fst (L ! j)) = i" "unat (rcp_revision (fst (L ! j))) = j + 1"
    "recipe_sealed H (fst (L ! j))"
    by (simp_all add: log_head_def take_Suc_conv_app_nth)
qed

lemma chain_nth_step:
  assumes "chain H i L" and "j < length L"
  shows "(j = 0 \<and> snd (L ! j) = None) \<or>
     (0 < j \<and> (\<exists>p vc. snd (L ! j) = Some p \<and> log_step H (take j L) p (fst (L ! j)) vc))"
proof -
  have "chain H i (take j L @ [L ! j])"
    using assms chain_take [of H i L "Suc j"] by (simp add: take_Suc_conv_app_nth)
  then show ?thesis
  proof (rule chain_snocE)
    fix r
    assume "take j L = []" "L ! j = (r, None)"
    with assms(2) show ?thesis by auto
  next
    fix p r vc
    assume *: "L ! j = (r, Some p)" "chain H i (take j L)" "log_step H (take j L) p r vc"
    from chain_not_Nil [OF *(2)] have "0 < j" by simp
    with * show ?thesis by auto
  qed
qed

lemma chain_length_bound: "chain H i L \<Longrightarrow> length L < 2 ^ 64"
  using chain_head [of H i L] u64_bound [of "rcp_revision (log_head L)"] by simp

section \<open>Stores as families of logs\<close>

definition logged :: "(string \<Rightarrow> revision_log) \<Rightarrow> patch set" where
  "logged L = {p. \<exists>i. Some p \<in> snd ` set (L i)}"

definition distinct_patch_ids :: "(string \<Rightarrow> revision_log) \<Rightarrow> bool" where
  "distinct_patch_ids L \<longleftrightarrow>
     (\<forall>i j a b p q. a < length (L i) \<and> b < length (L j) \<and> snd (L i ! a) = Some p \<and>
        snd (L j ! b) = Some q \<and> pat_patch_id p = pat_patch_id q \<longrightarrow> i = j \<and> a = b)"

definition represents :: "host \<Rightarrow> recipe_store \<Rightarrow> (string \<Rightarrow> revision_log) \<Rightarrow> bool" where
  "represents H s L \<longleftrightarrow>
     bt_wf (st_current s) \<and> bt_wf (st_history s) \<and> bt_wf (st_applied_patches s) \<and>
     bt_wf (st_applied_patch_by_revision s) \<and>
     (\<forall>i. L i = [] \<or> chain H i (L i)) \<and>
     (\<forall>i. bt_get (st_current s) i = (if L i = [] then None else Some (log_head (L i)))) \<and>
     (\<forall>i n. bt_get (st_history s) (i, n) = map_option fst (log_at (L i) n)) \<and>
     (\<forall>i n. bt_get (st_applied_patch_by_revision s) (i, n) = Option.bind (log_at (L i) n) snd) \<and>
     (\<forall>k d. bt_get (st_applied_patches s) k = Some d \<longleftrightarrow>
        (\<exists>p \<in> logged L. pat_patch_id p = k \<and> intent_digest H p = Ok d)) \<and>
     distinct_patch_ids L"

lemma representsD:
  assumes "represents H s L"
  shows "L i \<noteq> [] \<Longrightarrow> chain H i (L i)"
    and "bt_get (st_current s) i = (if L i = [] then None else Some (log_head (L i)))"
    and "bt_get (st_history s) (i, n) = map_option fst (log_at (L i) n)"
    and "bt_get (st_applied_patch_by_revision s) (i, n) = Option.bind (log_at (L i) n) snd"
    and "bt_get (st_applied_patches s) k = Some d \<longleftrightarrow>
        (\<exists>p \<in> logged L. pat_patch_id p = k \<and> intent_digest H p = Ok d)"
    and "distinct_patch_ids L"
  using assms unfolding represents_def by blast+

lemma represents_new: "represents H store_new (\<lambda>_. [])"
  by (auto simp: represents_def store_new_def log_at_def logged_def distinct_patch_ids_def u64_zero_iff)

lemma log_at_snoc:
  assumes "length L + 1 < 2 ^ 64"
  shows "log_at (L @ [e]) n = (if unat n = length L + 1 then Some e else log_at L n)"
proof (cases "n = 0")
  case True
  then show ?thesis using assms by (simp add: log_at_def)
next
  case False
  then have "0 < unat n" by (simp add: u64_zero_iff flip: neq0_conv)
  then show ?thesis by (auto simp: log_at_def nth_append)
qed

lemma logged_update:
  "logged (L(i := L i @ [(r, Some p)])) = insert p (logged L)"
proof -
  have "q \<in> logged (L(i := L i @ [(r, Some p)])) \<longleftrightarrow> q = p \<or> q \<in> logged L" for q
    by (auto simp: logged_def split: if_splits)
  then show ?thesis by (simp add: set_eq_iff)
qed

section \<open>Inserting a recipe starts a log\<close>

lemma store_insert_Ok_iff:
  "store_insert H s r = (s', Ok ()) \<longleftrightarrow>
     rcp_revision r = 1 \<and> recipe_sealed H r \<and> bt_get (st_current s) (rcp_recipe_id r) = None \<and>
     s' = s\<lparr>st_history := bt_insert (rcp_recipe_id r, rcp_revision r) r (st_history s),
            st_current := bt_insert (rcp_recipe_id r) r (st_current s)\<rparr>"
proof -
  have schema: "recipe_validate H r = Ok () \<Longrightarrow> rcp_schema r = recipe_schema"
    by (simp add: recipe_validate_Ok_iff)
  show ?thesis
    by (auto simp: store_insert_def recipe_sealed_def bt_contains_key_def dest: schema
        split: sum.splits if_splits)
qed

lemma insert_represents:
  assumes rep: "represents H s L" and ins: "store_insert H s r = (s', Ok ())"
  shows "L (rcp_recipe_id r) = []"
    and "represents H s' (L(rcp_recipe_id r := [(r, None)]))"
proof -
  let ?i = "rcp_recipe_id r"
  let ?L = "L(?i := [(r, None)])"
  have ok: "rcp_revision r = 1" "recipe_sealed H r" "bt_get (st_current s) ?i = None"
    and s': "s' = s\<lparr>st_history := bt_insert (?i, rcp_revision r) r (st_history s),
            st_current := bt_insert ?i r (st_current s)\<rparr>"
    using ins by (simp_all add: store_insert_Ok_iff)
  show empty: "L ?i = []"
    using ok(3) representsD(2) [OF rep, of ?i] by (simp split: if_splits)
  have log: "log_at [(r, None)] n = (if n = 1 then Some (r, None) else None)" for n
  proof (cases "n = 0 \<or> n = 1")
    case True
    then show ?thesis by (auto simp: log_at_def)
  next
    case False
    then have "unat n \<noteq> unat (0::u64)" "unat n \<noteq> unat (1::u64)" by (simp_all only: word_unat_eq_iff) auto
    with False show ?thesis by (simp add: log_at_def)
  qed
  have logged: "logged ?L = logged L"
  proof (intro set_eqI)
    fix p
    have "Some p \<in> snd ` set (?L j) \<longleftrightarrow> Some p \<in> snd ` set (L j)" for j
      by (cases "j = ?i") (simp_all add: empty)
    then show "p \<in> logged ?L \<longleftrightarrow> p \<in> logged L" by (simp add: logged_def)
  qed
  have "snd (?L j ! a) = Some p \<and> a < length (?L j) \<longleftrightarrow> snd (L j ! a) = Some p \<and> a < length (L j)" for j a p
    by (cases "j = ?i"; cases a) (auto simp: empty)
  with representsD(6) [OF rep] have "distinct_patch_ids ?L" unfolding distinct_patch_ids_def by blast
  moreover have "chain H ?i [(r, None)]" using ok by (simp add: chain_root)
  ultimately show "represents H s' ?L"
    using rep unfolding represents_def
    by (auto simp: s' ok(1) logged log log_head_def empty)
qed

section \<open>Applying a patch extends a log\<close>

lemma apply_patch_eq: "apply_patch H s p = apply_patch_once H s p"
  by (auto simp: apply_patch_def split: prod.splits sum.splits patch_outcome.splits)

definition commit :: "recipe_store \<Rightarrow> patch \<Rightarrow> recipe \<Rightarrow> string \<Rightarrow> recipe_store" where
  "commit s p r intent = (let s' = record_revision s p r in
     s'\<lparr>st_applied_patches := bt_insert (pat_patch_id p) intent (st_applied_patches s')\<rparr>)"

lemma apply_patch_Applied_iff:
  "apply_patch H s p = (s', Ok (Applied r vc)) \<longleftrightarrow>
     (\<exists>intent q c. patch_validate p = Ok () \<and> intent_digest H p = Ok intent \<and>
        bt_get (st_applied_patches s) (pat_patch_id p) = None \<and>
        bt_get (st_current s) (pat_recipe_id p) = Some q \<and>
        rcp_owner_ref q = pat_owner_ref p \<and> rcp_revision q = pat_base_revision p \<and>
        rcp_digest q = pat_base_digest p \<and> build_candidate H s p q = Ok (c, vc) \<and>
        finish_revision H c (rcp_revision q) (rcp_digest q) = Ok r \<and> s' = commit s p r intent)"
  unfolding apply_patch_eq apply_patch_once_def
  by (cases "patch_validate p"; cases "intent_digest H p")
     (auto simp: commit_def Let_def result_simps split: option.splits sum.splits if_splits prod.splits)

lemma apply_patch_unchanged:
  assumes "apply_patch H s p = (s', res)" and "\<And>r vc. res \<noteq> Ok (Applied r vc)"
  shows "s' = s"
  using assms unfolding apply_patch_eq apply_patch_once_def
  by (cases "patch_validate p"; cases "intent_digest H p")
     (auto simp: Let_def split: option.splits sum.splits if_splits prod.splits)

lemma build_candidate_log:
  assumes "represents H s L" and "L (pat_recipe_id p) \<noteq> []"
  shows "build_candidate H s p (log_head (L (pat_recipe_id p))) = log_candidate H (L (pat_recipe_id p)) p"
  by (cases "sole_restore (pat_operations p)")
     (auto simp: build_candidate_def log_candidate_def representsD(3) [OF assms(1)])

lemma apply_represents:
  assumes rep: "represents H s L" and app: "apply_patch H s p = (s', Ok (Applied r vc))"
  defines "i \<equiv> pat_recipe_id p"
  shows "L i \<noteq> []" and "log_step H (L i) p r vc"
    and "\<And>q. q \<in> logged L \<Longrightarrow> pat_patch_id q \<noteq> pat_patch_id p"
    and "represents H s' (L(i := L i @ [(r, Some p)]))"
proof -
  from app obtain intent q c where
    val: "patch_validate p = Ok ()" and int: "intent_digest H p = Ok intent" and
    fresh: "bt_get (st_applied_patches s) (pat_patch_id p) = None" and
    cur: "bt_get (st_current s) i = Some q" and
    own: "rcp_owner_ref q = pat_owner_ref p" "rcp_revision q = pat_base_revision p"
      "rcp_digest q = pat_base_digest p" and
    bld: "build_candidate H s p q = Ok (c, vc)" and
    fin: "finish_revision H c (rcp_revision q) (rcp_digest q) = Ok r" and
    s': "s' = commit s p r intent"
    unfolding apply_patch_Applied_iff i_def by blast
  show ne: "L i \<noteq> []"
    using cur representsD(2) [OF rep, of i] by (auto split: if_splits)
  have q: "q = log_head (L i)"
    using cur representsD(2) [OF rep, of i] ne by simp
  have ch: "chain H i (L i)" using representsD(1) [OF rep] ne .
  have head: "rcp_recipe_id q = i" "unat (rcp_revision q) = length (L i)"
    using chain_head [OF ch] by (simp_all add: q)
  have "log_candidate H (L i) p = Ok (c, vc)"
    using bld build_candidate_log [OF rep, of p] ne unfolding q i_def by simp
  then show step: "log_step H (L i) p r vc"
    using val int own fin head(1) by (auto simp: log_step_def Let_def is_ok_iff i_def q)
  note f = log_step_fields [OF step]
  have r: "rcp_recipe_id r = i" "unat (rcp_revision r) = length (L i) + 1"
    using f(2,5) head by (simp_all add: q)
  have bound: "length (L i) + 1 < 2 ^ 64" using r(2) u64_bound [of "rcp_revision r"] by simp
  show fresh': "pat_patch_id q' \<noteq> pat_patch_id p" if "q' \<in> logged L" for q'
  proof
    assume same: "pat_patch_id q' = pat_patch_id p"
    from that obtain j where "Some q' \<in> snd ` set (L j)" by (auto simp: logged_def)
    then obtain a where a: "a < length (L j)" "snd (L j ! a) = Some q'"
      by (auto simp: in_set_conv_nth)
    then have "L j \<noteq> []" by auto
    with a chain_nth_step [OF representsD(1) [OF rep] a(1)] have "is_ok (intent_digest H q')"
      by (auto simp: log_step_def Let_def)
    then obtain d where "intent_digest H q' = Ok d" by (auto simp: is_ok_iff)
    with that same have "bt_get (st_applied_patches s) (pat_patch_id p) = Some d"
      using representsD(5) [OF rep] by blast
    with fresh show False by simp
  qed
  let ?L = "L(i := L i @ [(r, Some p)])"
  have at: "log_at (L i @ [(r, Some p)]) n = (if n = rcp_revision r then Some (r, Some p) else log_at (L i) n)" for n
    using log_at_snoc [OF bound] r(2) by (metis word_unat_eq_iff)
  have "distinct_patch_ids ?L"
    unfolding distinct_patch_ids_def
  proof (intro allI impI, elim conjE)
    fix j k a b p1 p2
    assume h: "a < length (?L j)" "b < length (?L k)" "snd (?L j ! a) = Some p1"
      "snd (?L k ! b) = Some p2" "pat_patch_id p1 = pat_patch_id p2"
    have old: "p' \<in> logged L" if "m < length (L l)" "snd (L l ! m) = Some p'" for m l p'
      using that by (force simp: logged_def in_set_conv_nth)
    let ?new = "\<lambda>l m. l = i \<and> m = length (L i)"
    have pos: "m < length (L l) \<and> snd (L l ! m) = Some p'" if "m < length (?L l)" "snd (?L l ! m) = Some p'" "\<not> ?new l m" for l m p'
      using that by (auto simp: nth_append split: if_splits)
    have new: "p' = p" if "snd (?L l ! m) = Some p'" "?new l m" for l m p'
      using that by auto
    show "j = k \<and> a = b"
    proof (cases "?new j a \<or> ?new k b")
      case True
      then show ?thesis using h pos old new fresh' by metis
    next
      case False
      with h pos representsD(6) [OF rep] show ?thesis unfolding distinct_patch_ids_def by metis
    qed
  qed
  moreover have "chain H i (L i @ [(r, Some p)])" using ch step by (rule chain_step)
  moreover have "bt_get (st_applied_patches s') k = Some d \<longleftrightarrow>
      (\<exists>p' \<in> logged ?L. pat_patch_id p' = k \<and> intent_digest H p' = Ok d)" for k d
  proof (cases "k = pat_patch_id p")
    case True
    then show ?thesis using fresh' int rep
      by (auto simp: s' commit_def record_revision_def Let_def logged_update represents_def)
  next
    case False
    then show ?thesis using rep
      by (auto simp: s' commit_def record_revision_def Let_def logged_update represents_def)
  qed
  moreover have "bt_get (st_history s') (j, n) = map_option fst (log_at (?L j) n)" for j n
    using rep by (auto simp: s' commit_def record_revision_def Let_def at r(1) represents_def)
  moreover have "bt_get (st_applied_patch_by_revision s') (j, n) = Option.bind (log_at (?L j) n) snd" for j n
    using rep by (auto simp: s' commit_def record_revision_def Let_def at r(1) represents_def)
  moreover have "bt_get (st_current s') j = (if ?L j = [] then None else Some (log_head (?L j)))" for j
    using rep by (auto simp: s' commit_def record_revision_def Let_def r(1) represents_def log_head_def)
  moreover have "bt_wf (st_current s')" "bt_wf (st_history s')" "bt_wf (st_applied_patches s')"
      "bt_wf (st_applied_patch_by_revision s')"
    using rep by (auto simp: s' commit_def record_revision_def Let_def represents_def)
  ultimately show "represents H s' ?L"
    using rep unfolding represents_def by (simp add: fun_upd_def)
qed

end
