(* ===== verification/Store_Laws.thy ===== *)
theory Store_Laws
  imports Ledger
begin

text \<open>
  What \<open>RecipeStore\<close> promises over any sequence of calls: the store read as a family of logs
  (\<open>store_log\<close>), the functional specification of \<open>apply_patch\<close> on logs (\<open>spec_apply\<close>), append-only
  history, atomic failure, idempotent reapplication and conflict detection.
\<close>

section \<open>The log of a store\<close>

definition store_log :: "recipe_store \<Rightarrow> string \<Rightarrow> revision_log" where
  "store_log s i = (case bt_get (st_current s) i of
     None \<Rightarrow> []
   | Some r \<Rightarrow> map (\<lambda>n. (the (bt_get (st_history s) (i, of_nat n)),
                     bt_get (st_applied_patch_by_revision s) (i, of_nat n)))
                 [1..<Suc (unat (rcp_revision r))])"

lemma log_at_nth:
  assumes "length L < 2 ^ 64" and "j < length L"
  shows "log_at L (of_nat (Suc j)) = Some (L ! j)"
proof -
  have "unat (of_nat (Suc j) :: u64) = Suc j"
    using assms by (simp add: unsigned_of_nat take_bit_nat_eq_self del: of_nat_Suc)
  moreover from this have "(of_nat (Suc j) :: u64) \<noteq> 0" by (metis nat.simps(3) unat_0)
  ultimately show ?thesis using assms by (simp add: log_at_def del: of_nat_Suc)
qed

lemma store_log_represents:
  assumes rep: "represents H s L"
  shows "store_log s = L"
proof
  fix i
  show "store_log s i = L i"
  proof (cases "L i = []")
    case True
    then show ?thesis using representsD(2) [OF rep, of i] by (simp add: store_log_def)
  next
    case False
    have ch: "chain H i (L i)" using representsD(1) [OF rep] False .
    note len = chain_length_bound [OF ch]
    have cur: "bt_get (st_current s) i = Some (log_head (L i))"
      using representsD(2) [OF rep, of i] False by simp
    have rev: "unat (rcp_revision (log_head (L i))) = length (L i)"
      using chain_head [OF ch] by simp
    show ?thesis
    proof (rule nth_equalityI)
      show "length (store_log s i) = length (L i)" by (simp add: store_log_def cur rev del: upt_Suc)
      fix j
      assume "j < length (store_log s i)"
      then have j: "j < length (L i)" by (simp add: store_log_def cur rev del: upt_Suc)
      show "store_log s i ! j = L i ! j"
        using log_at_nth [OF len j] j
        by (simp add: store_log_def cur rev representsD(3,4) [OF rep] del: of_nat_Suc upt_Suc)
    qed
  qed
qed

lemma represents_store_log: "represents H s L \<Longrightarrow> represents H s (store_log s)"
  using store_log_represents by simp

section \<open>Calls\<close>

datatype store_call =
    CallInsert recipe
  | CallApply patch
  | CallMerge patch string
  | CallRollback rollback_request string

fun run_call :: "host \<Rightarrow> recipe_store \<Rightarrow> store_call \<Rightarrow> recipe_store \<times> bool" where
  "run_call H s (CallInsert r) = (case store_insert H s r of (s', res) \<Rightarrow> (s', is_ok res))"
| "run_call H s (CallApply p) = (case apply_patch H s p of (s', res) \<Rightarrow> (s', is_ok res))"
| "run_call H s (CallMerge p i) =
     (case apply_patch_with_narrow_merge H s p i of (s', res) \<Rightarrow> (s', is_ok res))"
| "run_call H s (CallRollback q i) = (case rollback H s q i of (s', res) \<Rightarrow> (s', is_ok res))"

definition run_calls :: "host \<Rightarrow> recipe_store \<Rightarrow> store_call list \<Rightarrow> recipe_store" where
  "run_calls H = foldl (\<lambda>s c. fst (run_call H s c))"

lemma store_insert_Err: "store_insert H s r = (s', Err e) \<Longrightarrow> s' = s"
  by (auto simp: store_insert_def split: sum.splits if_splits)

lemma merge_cases:
  assumes "apply_patch_with_narrow_merge H s p i = (s', res)"
  obtains "s' = s"
  | q r vc where "apply_patch H s q = (s', Ok (Applied r vc))" "res = Ok (Applied r vc)"
proof (cases "apply_patch H s p")
  case (Pair t res1)
  show thesis
  proof (cases "\<exists>r vc. res1 = Ok (Applied r vc)")
    case True
    with Pair assms that show thesis
      by (auto simp: apply_patch_with_narrow_merge_def apply_patch_eq)
  next
    case False
    with Pair have t: "t = s" using apply_patch_unchanged by blast
    show thesis
    proof (cases "s' = s")
      case False
      then obtain q where q: "apply_patch H s q = (s', res)"
        using assms Pair t
        by (auto simp: apply_patch_with_narrow_merge_def apply_patch_eq
            split: sum.splits patch_error.splits option.splits)
      with False have "\<exists>r vc. res = Ok (Applied r vc)" using apply_patch_unchanged by blast
      with q that show thesis by blast
    qed (rule that(1))
  qed
qed

lemma rollback_cases:
  assumes "rollback H s q i = (s', res)"
  obtains "s' = s" | p r vc where "apply_patch H s p = (s', Ok (Applied r vc))" "res = Ok r"
proof (cases "s' = s")
  case False
  with assms obtain p res1 where p: "apply_patch H s p = (s', res1)"
    and res: "res = (case res1 of Err e \<Rightarrow> Err e | Ok (Applied r _) \<Rightarrow> Ok r | Ok (AlreadyApplied r) \<Rightarrow> Ok r)"
    by (auto simp: rollback_def split: option.splits sum.splits if_splits prod.splits patch_outcome.splits)
  with False obtain r vc where "res1 = Ok (Applied r vc)" using apply_patch_unchanged by blast
  with p res that show thesis by simp
qed (rule that)

lemma call_cases:
  assumes "run_call H s c = (s', ok)"
  obtains "s' = s"
  | r where "store_insert H s r = (s', Ok ())" "ok"
  | p r vc where "apply_patch H s p = (s', Ok (Applied r vc))" "ok"
proof (cases c)
  case (CallInsert r)
  with assms that store_insert_Err show thesis
    by (cases "store_insert H s r"; cases "snd (store_insert H s r)") auto
next
  case (CallApply p)
  with assms that apply_patch_unchanged show thesis
    by (cases "apply_patch H s p") (fastforce simp: is_ok_iff)
next
  case (CallMerge p i)
  with assms obtain res where "apply_patch_with_narrow_merge H s p i = (s', res)" "ok = is_ok res"
    by (auto split: prod.splits)
  with that show thesis by (elim merge_cases) auto
next
  case (CallRollback q i)
  with assms obtain res where "rollback H s q i = (s', res)" "ok = is_ok res"
    by (auto split: prod.splits)
  with that show thesis by (elim rollback_cases) auto
qed

section \<open>Histories only grow\<close>

locale append_only_log = preserved inv step
  for inv :: "'s \<Rightarrow> bool" and step :: "'s \<Rightarrow> 'c \<Rightarrow> 's" +
  fixes view :: "'s \<Rightarrow> 'k \<Rightarrow> 'e list"
  assumes grow_step: "inv s \<Longrightarrow> prefix (view s k) (view (step s c) k)"
begin

lemma grow_run: "inv s \<Longrightarrow> prefix (view s k) (view (foldl step s cs) k)"
proof (induction cs arbitrary: s)
  case Nil
  then show ?case by simp
next
  case (Cons c cs)
  then have "prefix (view (step s c) k) (view (foldl step (step s c) cs) k)"
    by (simp add: inv_step)
  with grow_step [OF Cons.prems] show ?case
    using prefix_order.order_trans by fastforce
qed

lemma entry_stable:
  assumes "inv s" and "n < length (view s k)"
  shows "n < length (view (foldl step s cs) k) \<and> view (foldl step s cs) k ! n = view s k ! n"
  using grow_run [OF assms(1), of k cs] assms(2) by (auto simp: prefix_def nth_append)

end

lemma step_represents:
  assumes rep: "represents H s L" and run: "run_call H s c = (s', ok)"
  shows "\<exists>L'. represents H s' L' \<and> (\<forall>i. prefix (L i) (L' i))"
  using run
proof (cases rule: call_cases)
  case 1
  with rep show ?thesis by auto
next
  case (2 r)
  from insert_represents [OF rep 2(1)] show ?thesis by auto
next
  case (3 p r vc)
  from apply_represents(4) [OF rep 3(1)] show ?thesis by auto
qed

interpretation recipe_log: append_only_log
  "\<lambda>s. represents H s (store_log s)" "\<lambda>s c. fst (run_call H s c)" store_log for H
proof
  fix s c k
  assume rep: "represents H s (store_log s)"
  obtain s' ok where run: "run_call H s c = (s', ok)" by (cases "run_call H s c")
  then obtain L' where L': "represents H s' L'" "\<forall>i. prefix (store_log s i) (L' i)"
    using step_represents [OF rep] by blast
  from L' run show "represents H (fst (run_call H s c)) (store_log (fst (run_call H s c)))"
    by (simp add: represents_store_log)
  from L' run show "prefix (store_log s k) (store_log (fst (run_call H s c)) k)"
    by (simp add: store_log_represents)
qed

lemma reached_represents: "represents H (run_calls H store_new cs) (store_log (run_calls H store_new cs))"
  unfolding run_calls_def
  by (rule recipe_log.inv_run) (rule represents_store_log [OF represents_new])

section \<open>The specification of \<open>apply_patch\<close> on logs\<close>

definition spec_apply :: "host \<Rightarrow> (string \<Rightarrow> revision_log) \<Rightarrow> patch
    \<Rightarrow> (string \<Rightarrow> revision_log) \<times> (patch_error + patch_outcome)" where
  "spec_apply H L p = (let i = pat_recipe_id p; q = log_head (L i) in
     case patch_validate p of Err e \<Rightarrow> (L, Err e) | Ok _ \<Rightarrow>
     case intent_digest H p of Err e \<Rightarrow> (L, Err e) | Ok d \<Rightarrow>
     if \<exists>p' \<in> logged L. pat_patch_id p' = pat_patch_id p then
       (if \<exists>p' \<in> logged L. pat_patch_id p' = pat_patch_id p \<and> intent_digest H p' = Ok d
        then (L, if L i = [] then Err UnknownRecipe else Ok (AlreadyApplied q))
        else (L, Err (PatchIdConflict (pat_patch_id p))))
     else if L i = [] then (L, Err UnknownRecipe)
     else if rcp_owner_ref q \<noteq> pat_owner_ref p then (L, Err OwnerMismatch)
     else if rcp_revision q \<noteq> pat_base_revision p \<or> rcp_digest q \<noteq> pat_base_digest p
       then (L, Err (Conflict (rcp_revision q) (rcp_digest q)))
     else case log_candidate H (L i) p of Err e \<Rightarrow> (L, Err e) | Ok (c, vc) \<Rightarrow>
       case finish_revision H c (rcp_revision q) (rcp_digest q) of
         Err e \<Rightarrow> (L, Err (PatchRecipe e))
       | Ok r \<Rightarrow> (L(i := L i @ [(r, Some p)]), Ok (Applied r vc)))"

lemma logged_intent:
  assumes rep: "represents H s L" and "p \<in> logged L"
  shows "patch_validate p = Ok ()" and "\<exists>d. intent_digest H p = Ok d"
proof -
  from assms(2) obtain j a where a: "a < length (L j)" "snd (L j ! a) = Some p"
    by (force simp: logged_def in_set_conv_nth)
  then have "L j \<noteq> []" by auto
  with chain_nth_step [OF representsD(1) [OF rep] a(1)] a(2)
  show "patch_validate p = Ok ()" "\<exists>d. intent_digest H p = Ok d"
    by (auto simp: log_step_def Let_def is_ok_iff)
qed

lemma applied_None_iff:
  assumes rep: "represents H s L"
  shows "bt_get (st_applied_patches s) k = None \<longleftrightarrow> \<not> (\<exists>p \<in> logged L. pat_patch_id p = k)"
proof -
  have "(\<exists>d. bt_get (st_applied_patches s) k = Some d) \<longleftrightarrow> (\<exists>p \<in> logged L. pat_patch_id p = k)"
    using representsD(5) [OF rep] logged_intent(2) [OF rep] by metis
  then show ?thesis by (cases "bt_get (st_applied_patches s) k") auto
qed

lemma apply_spec:
  assumes rep: "represents H s L" and app: "apply_patch H s p = (s', res)"
  shows "spec_apply H L p = (store_log s', res)"
proof (cases "\<exists>r vc. res = Ok (Applied r vc)")
  case True
  then obtain r vc where res: "res = Ok (Applied r vc)" by blast
  note ap = apply_represents [OF rep app [unfolded res]]
  have "store_log s' = L(pat_recipe_id p := L (pat_recipe_id p) @ [(r, Some p)])"
    by (rule store_log_represents [OF ap(4)])
  then show ?thesis
    using ap(1,2,3) by (auto simp: spec_apply_def res Let_def log_step_def is_ok_iff)
next
  case False
  with app have s': "s' = s" using apply_patch_unchanged by blast
  have log: "store_log s = L" "store_log s' = L"
    using store_log_represents [OF rep] by (simp_all add: s')
  have cur: "bt_get (st_current s) i = (if L i = [] then None else Some (log_head (L i)))" for i
    by (rule representsD(2) [OF rep])
  have none: "bt_get (st_applied_patches s) k = None \<Longrightarrow> p \<in> logged L \<Longrightarrow> pat_patch_id p \<noteq> k" for k p
    using applied_None_iff [OF rep] by blast
  have some: "bt_get (st_applied_patches s) k = Some d \<Longrightarrow> \<exists>p \<in> logged L. pat_patch_id p = k" for k d
    using applied_None_iff [OF rep, of k] by auto
  have same: "bt_get (st_applied_patches s) k = Some d \<Longrightarrow>
      (\<exists>p \<in> logged L. pat_patch_id p = k \<and> intent_digest H p = Ok d') \<longleftrightarrow> d = d'" for k d d'
    using representsD(5) [OF rep] by (metis option.inject)
  have bld: "L (pat_recipe_id p) \<noteq> [] \<Longrightarrow> build_candidate H s p (log_head (L (pat_recipe_id p))) =
      log_candidate H (L (pat_recipe_id p)) p"
    by (rule build_candidate_log [OF rep])
  show ?thesis
  proof (cases "patch_validate p")
    case (Inl e)
    with app show ?thesis
      by (simp add: spec_apply_def apply_patch_eq apply_patch_once_def log)
  next
    case valid: (Inr u)
    show ?thesis
    proof (cases "intent_digest H p")
      case (Inl e)
      with app valid show ?thesis
        by (auto simp: spec_apply_def apply_patch_eq apply_patch_once_def log)
    next
      case intent: (Inr d)
      show ?thesis
      proof (cases "bt_get (st_applied_patches s) (pat_patch_id p)")
        case None
        then have "\<not> (\<exists>p' \<in> logged L. pat_patch_id p' = pat_patch_id p)"
          by (simp add: applied_None_iff [OF rep])
        with None app False valid intent bld show ?thesis
          by (auto simp: spec_apply_def apply_patch_eq apply_patch_once_def log cur Let_def
              split: if_splits sum.splits prod.splits)
      next
        case (Some d')
        with app valid intent some [OF Some] same [OF Some, of d] show ?thesis
          by (auto simp: spec_apply_def apply_patch_eq apply_patch_once_def log cur split: if_splits)
      qed
    qed
  qed
qed

section \<open>Consequences on logs\<close>

lemma chain_owner:
  "chain H i L \<Longrightarrow> j < length L \<Longrightarrow> rcp_owner_ref (fst (L ! j)) = rcp_owner_ref (log_head L)"
proof (induction rule: chain.induct)
  case (chain_root r)
  then show ?case by (simp add: log_head_def)
next
  case (chain_step L p r vc)
  then show ?case
    using log_step_fields(6) [OF chain_step.hyps(2)]
    by (cases "j < length L") (auto simp: log_head_def nth_append less_Suc_eq)
qed

lemma chain_logged:
  assumes "chain H i L" and "Some p \<in> snd ` set L"
  shows "patch_validate p = Ok ()" and "pat_recipe_id p = i" and "pat_owner_ref p = rcp_owner_ref (log_head L)"
proof -
  from assms(2) obtain j where j: "j < length L" "snd (L ! j) = Some p"
    by (force simp: in_set_conv_nth)
  with chain_nth_step [OF assms(1) j(1)] obtain vc
    where step: "log_step H (take j L) p (fst (L ! j)) vc" and "0 < j" by auto
  moreover have "rcp_recipe_id (fst (L ! j)) = i" by (rule chain_nth(1) [OF assms(1) j(1)])
  ultimately show "patch_validate p = Ok ()" "pat_recipe_id p = i"
    "pat_owner_ref p = rcp_owner_ref (log_head L)"
    using log_step_fields(5,6) [OF step] chain_owner [OF assms(1) j(1)]
    by (simp_all add: log_step_def Let_def)
qed

definition well_linked :: "host \<Rightarrow> string \<Rightarrow> revision_log \<Rightarrow> bool" where
  "well_linked H i L \<longleftrightarrow> (\<forall>j < length L. let r = fst (L ! j) in
     rcp_recipe_id r = i \<and> unat (rcp_revision r) = j + 1 \<and> recipe_sealed H r \<and>
     (0 < j \<longrightarrow> (let q = fst (L ! (j - 1)) in rcp_parent_revision r = Some (rcp_revision q) \<and>
        rcp_parent_digest r = rcp_digest q \<and> rcp_owner_ref r = rcp_owner_ref q)))"

lemma chain_well_linked: "chain H i L \<Longrightarrow> well_linked H i L"
proof -
  assume ch: "chain H i L"
  have "rcp_parent_revision (fst (L ! j)) = Some (rcp_revision (fst (L ! (j - 1)))) \<and>
      rcp_parent_digest (fst (L ! j)) = rcp_digest (fst (L ! (j - 1))) \<and>
      rcp_owner_ref (fst (L ! j)) = rcp_owner_ref (fst (L ! (j - 1)))" if "j < length L" "0 < j" for j
  proof -
    from chain_nth_step [OF ch that(1)] that(2) obtain p vc
      where step: "log_step H (take j L) p (fst (L ! j)) vc" by auto
    have "log_head (take j L) = fst (L ! (j - 1))"
      using that by (cases "take j L = []") (auto simp: log_head_def last_conv_nth)
    then show ?thesis using log_step_fields [OF step] by simp
  qed
  then show ?thesis
    unfolding well_linked_def Let_def using chain_nth [OF ch] by blast
qed

section \<open>Rollback\<close>

lemma values_logged:
  assumes rep: "represents H s L" and p: "p \<in> set (bt_values (st_applied_patch_by_revision s))"
  shows "p \<in> logged L"
proof -
  from p obtain k where "(k, p) \<in> set (st_applied_patch_by_revision s)"
    by (auto simp: bt_values_def)
  then obtain i n where "((i, n), p) \<in> set (st_applied_patch_by_revision s)" by (cases k) auto
  moreover have "bt_wf (st_applied_patch_by_revision s)"
    using rep unfolding represents_def by (elim conjE)
  ultimately have "bt_get (st_applied_patch_by_revision s) (i, n) = Some p"
    by (simp add: bt_get_entries)
  then obtain e where e: "log_at (L i) n = Some e" "snd e = Some p"
    by (auto simp: representsD(4) [OF rep] bind_eq_Some_conv)
  then have "e \<in> set (L i)"
    using u64_zero_iff [of n] by (auto simp: log_at_def split: if_splits)
  with e(2) show ?thesis by (force simp: logged_def)
qed

lemma rollback_Ok:
  assumes rep: "represents H s L" and run: "rollback H s q pid = (s', Ok r)"
    and fresh: "\<forall>p \<in> logged L. pat_patch_id p \<noteq> pid"
  obtains p t vc where "apply_patch H s p = (s', Ok (Applied r vc))"
    and "pat_operations p = [RestoreRevision (rb_target_revision q) (rcp_digest t)]"
    and "pat_recipe_id p = rb_recipe_id q" and "pat_patch_id p = pid"
    and "bt_get (st_history s) (rb_recipe_id q, rb_target_revision q) = Some t"
proof -
  have "find (\<lambda>p. pat_patch_id p = pid) (bt_values (st_applied_patch_by_revision s)) = None"
    using values_logged [OF rep] fresh by (auto simp: find_None_iff)
  note none = this
  obtain current where cur: "bt_get (st_current s) (rb_recipe_id q) = Some current"
    using run by (cases "bt_get (st_current s) (rb_recipe_id q)") (simp_all add: rollback_def)
  have own: "rcp_owner_ref current = rb_owner_ref q"
    using run by (cases "rcp_owner_ref current = rb_owner_ref q") (simp_all add: rollback_def cur)
  obtain t where t: "bt_get (st_history s) (rb_recipe_id q, rb_target_revision q) = Some t"
    using run by (cases "bt_get (st_history s) (rb_recipe_id q, rb_target_revision q)")
      (simp_all add: rollback_def cur own none)
  define made where "made = patch_new (rb_owner_ref q) (rb_acting_principal q) (rb_reviewer q)
    (rb_receipt q) pid (rb_recipe_id q) (rcp_revision current) (rcp_digest current)
    (''rollback to revision '' @ show_nat (unat (rb_target_revision q)))
    [RestoreRevision (rb_target_revision q) (rcp_digest t)]"
  have run': "(case made of Err e \<Rightarrow> (s, Err e) | Ok p \<Rightarrow>
      (case apply_patch H s p of
         (s', Err e) \<Rightarrow> (s', Err e)
       | (s', Ok (Applied r _)) \<Rightarrow> (s', Ok r)
       | (s', Ok (AlreadyApplied r)) \<Rightarrow> (s', Ok r))) = (s', Ok r)"
    using run unfolding rollback_def made_def by (simp add: cur own none t)
  then obtain p where p: "made = Ok p" by (cases made) simp_all
  obtain res where app: "apply_patch H s p = (s', res)"
    and res: "Ok r = (case res of Err e \<Rightarrow> Err e | Ok (Applied r _) \<Rightarrow> Ok r | Ok (AlreadyApplied r) \<Rightarrow> Ok r)"
    using run' by (cases "apply_patch H s p") (auto simp: p split: sum.splits patch_outcome.splits)
  have p_fields: "pat_operations p = [RestoreRevision (rb_target_revision q) (rcp_digest t)]"
    "pat_recipe_id p = rb_recipe_id q" "pat_patch_id p = pid"
    using p by (auto simp: made_def patch_new_def Let_def result_simps)
  have none: "bt_get (st_applied_patches s) (pat_patch_id p) = None"
    using applied_None_iff [OF rep] fresh by (simp add: p_fields(3))
  have "res \<noteq> Ok (AlreadyApplied u)" for u
    using app none unfolding apply_patch_eq apply_patch_once_def
    by (auto simp: Let_def split: option.splits sum.splits if_splits prod.splits)
  with res obtain vc where "res = Ok (Applied r vc)"
    by (auto split: sum.splits patch_outcome.splits)
  with app that [OF _ p_fields t] show thesis by blast
qed

section \<open>Replay\<close>

definition log_patches :: "revision_log \<Rightarrow> patch list" where
  "log_patches L = concat (map (\<lambda>e. case snd e of None \<Rightarrow> [] | Some p \<Rightarrow> [p]) L)"

lemma log_patches_simps [simp]:
  "log_patches [(r, None)] = []"
  "log_patches (L @ [(r, Some p)]) = log_patches L @ [p]"
  by (simp_all add: log_patches_def)

definition distinct_log :: "revision_log \<Rightarrow> bool" where
  "distinct_log L \<longleftrightarrow> (\<forall>a b p q. a < length L \<and> b < length L \<and> snd (L ! a) = Some p \<and>
     snd (L ! b) = Some q \<and> pat_patch_id p = pat_patch_id q \<longrightarrow> a = b)"

lemma distinct_log_snoc:
  assumes "distinct_log (L @ [(r, Some p)])"
  shows "distinct_log L" and "q \<in> logged (\<lambda>j. if j = i then L else []) \<Longrightarrow> pat_patch_id q \<noteq> pat_patch_id p"
proof -
  note d = assms [unfolded distinct_log_def]
  show "distinct_log L"
    unfolding distinct_log_def
  proof (intro allI impI, elim conjE)
    fix a b p1 p2
    assume "a < length L" "b < length L" "snd (L ! a) = Some p1" "snd (L ! b) = Some p2"
      "pat_patch_id p1 = pat_patch_id p2"
    then show "a = b" using d [rule_format, of a b p1 p2] by (simp add: nth_append)
  qed
  assume "q \<in> logged (\<lambda>j. if j = i then L else [])"
  then obtain a where a: "a < length L" "snd (L ! a) = Some q"
    by (force simp: logged_def in_set_conv_nth split: if_splits)
  show "pat_patch_id q \<noteq> pat_patch_id p"
  proof
    assume "pat_patch_id q = pat_patch_id p"
    with a d [rule_format, of a "length L" q p] show False by (simp add: nth_append)
  qed
qed

lemma replay_patches_append:
  "replay_patches H s (ps @ qs) = and_then (replay_patches H s ps) (\<lambda>s'. replay_patches H s' qs)"
  by (induction ps arbitrary: s) (auto split: prod.splits sum.splits patch_outcome.splits)

lemma log_step_applies:
  assumes rep: "represents H s (\<lambda>j. if j = i then L else [])" and ch: "chain H i L"
    and step: "log_step H L p r vc"
    and fresh: "\<And>q. q \<in> logged (\<lambda>j. if j = i then L else []) \<Longrightarrow> pat_patch_id q \<noteq> pat_patch_id p"
  obtains s' where "apply_patch H s p = (s', Ok (Applied r vc))"
    and "represents H s' (\<lambda>j. if j = i then L @ [(r, Some p)] else [])"
proof -
  let ?L = "\<lambda>j. if j = i then L else []"
  have i: "pat_recipe_id p = i"
    using step chain_head [OF ch] by (simp add: log_step_def Let_def)
  have "snd (spec_apply H ?L p) = Ok (Applied r vc)"
    using step fresh chain_not_Nil [OF ch]
    by (auto simp: spec_apply_def Let_def i log_step_def is_ok_iff)
  moreover obtain s' res where app: "apply_patch H s p = (s', res)" by (cases "apply_patch H s p")
  ultimately have res: "res = Ok (Applied r vc)" using apply_spec [OF rep app] by simp
  have "?L(i := L @ [(r, Some p)]) = (\<lambda>j. if j = i then L @ [(r, Some p)] else [])" by auto
  with apply_represents(4) [OF rep app [unfolded res]]
  have "represents H s' (\<lambda>j. if j = i then L @ [(r, Some p)] else [])" by (simp add: i)
  with app res that show thesis by blast
qed

lemma replay_chain:
  "chain H i L \<Longrightarrow> distinct_log L \<Longrightarrow>
     \<exists>s0 s. store_insert H store_new (fst (hd L)) = (s0, Ok ()) \<and>
        replay_patches H s0 (log_patches L) = Ok s \<and> represents H s (\<lambda>j. if j = i then L else [])"
proof (induction rule: chain.induct)
  case (chain_root r)
  obtain s0 where ins: "store_insert H store_new r = (s0, Ok ())"
    using chain_root by (auto simp: store_insert_Ok_iff store_new_def)
  have "(\<lambda>_. [])(rcp_recipe_id r := [(r, None)]) = (\<lambda>j. if j = i then [(r, None)] else [])"
    using chain_root by auto
  from insert_represents(2) [OF represents_new ins, unfolded this]
  have "represents H s0 (\<lambda>j. if j = i then [(r, None)] else [])" .
  with ins show ?case by simp
next
  case (chain_step L p r vc)
  note d = distinct_log_snoc [OF chain_step.prems]
  from chain_step.IH [OF d(1)] obtain s0 s where
    ins: "store_insert H store_new (fst (hd L)) = (s0, Ok ())" and
    run: "replay_patches H s0 (log_patches L) = Ok s" and
    rep: "represents H s (\<lambda>j. if j = i then L else [])" by blast
  from log_step_applies [OF rep chain_step.hyps(1,2) d(2) [where i = i]]
  obtain s' where "apply_patch H s p = (s', Ok (Applied r vc))"
    and "represents H s' (\<lambda>j. if j = i then L @ [(r, Some p)] else [])" by blast
  with ins run chain_not_Nil [OF chain_step.hyps(1)] show ?case
    by (simp add: replay_patches_append hd_append)
qed

lemma sole_value:
  assumes rep: "represents H s (\<lambda>j. if j = i then L else [])" and "L \<noteq> []"
  shows "bt_values (st_current s) = [log_head L]"
proof -
  have "st_current s = [(i, log_head L)]"
  proof (rule bt_ext)
    show "bt_wf (st_current s)" using rep unfolding represents_def by blast
    show "bt_wf [(i, log_head L)]" by (simp add: bt_wf_def)
    show "bt_get (st_current s) k = bt_get [(i, log_head L)] k" for k
      using representsD(2) [OF rep, of k] assms(2) by (simp add: bt_get_def)
  qed
  then show ?thesis by (simp add: bt_values_def)
qed

end
