(* ===== verification/Field_Writes.thy ===== *)
theory Field_Writes
  imports Store_Laws
begin

text \<open>
  The effect of single operations on a candidate recipe, read field by field: a metadata entry or a
  property of a node. This is what the narrow merge of \<open>store.rs\<close> reasons about
  (\<open>disjoint_fields\<close>): writes to different fields commute, and a merged patch keeps all of them.
\<close>

section \<open>Fields\<close>

type_synonym field = "string + (node_id \<times> string)"

fun field_write :: "patch_op \<Rightarrow> (field \<times> prop_value) option" where
  "field_write (SetRecipeMetadata key value) = Some (Inl key, value)"
| "field_write (SetProperty i key value) = Some (Inr (i, key), value)"
| "field_write _ = None"

fun field_value :: "recipe \<Rightarrow> field \<Rightarrow> prop_value option" where
  "field_value r (Inl key) = bt_get (rcp_metadata r) key"
| "field_value r (Inr (i, key)) = Option.bind (find_node i (rcp_root r)) (\<lambda>n. bt_get (nprops n) key)"

definition field_writes :: "patch_op list \<Rightarrow> (field \<times> prop_value) list" where
  "field_writes xs = map (\<lambda>x. the (field_write x)) xs"

definition disjoint_writes :: "patch_op list \<Rightarrow> bool" where
  "disjoint_writes xs \<longleftrightarrow> list_all (\<lambda>x. field_write x \<noteq> None) xs \<and> distinct (map fst (field_writes xs))"

lemma disjoint_fields_Ok_iff:
  "is_ok (disjoint_fields mk pf xs) \<longleftrightarrow>
     disjoint_writes xs \<and> fst ` set (field_writes xs) \<inter> (Inl ` mk \<union> Inr ` pf) = {}"
proof (induction xs arbitrary: mk pf)
  case Nil
  then show ?case by (simp add: disjoint_writes_def field_writes_def)
next
  case (Cons x xs)
  show ?case
    by (cases x) (auto simp: Cons.IH disjoint_writes_def field_writes_def image_iff)
qed

section \<open>Writing a node\<close>

lemma props_replace_node:
  "find_node i n = Some (SemanticNode i k p st a cs) \<Longrightarrow>
     map_option nprops (find_node j (replace_node i (SemanticNode i k p' st' a cs) n)) =
     (if j = i then Some p' else map_option nprops (find_node j n))"
  "find_children i ns = Some (SemanticNode i k p st a cs) \<Longrightarrow>
     map_option nprops (find_children j (replace_children i (SemanticNode i k p' st' a cs) ns)) =
     (if j = i then Some p' else map_option nprops (find_children j ns))"
proof (induction i n and i ns rule: find_node_find_children.induct)
  case (1 t i0 k0 p0 st0 a0 cs0)
  then show ?case by (auto split: if_splits)
next
  case (2 t)
  then show ?case by simp
next
  case (3 t c ns)
  have opt: "map_option nprops (case u of Some m \<Rightarrow> Some m | None \<Rightarrow> v) =
      (case map_option nprops u of Some q \<Rightarrow> Some q | None \<Rightarrow> map_option nprops v)" for u v
    by (cases u) auto
  show ?case
  proof (cases "find_node t c")
    case None
    with 3 show ?thesis by (auto simp: opt split: option.splits)
  next
    case (Some m)
    with 3 show ?thesis by (auto simp: opt split: option.splits)
  qed
qed

lemma bind_nprops:
  "Option.bind u (\<lambda>n. bt_get (nprops n) key) = Option.bind (map_option nprops u) (\<lambda>p. bt_get p key)"
  by (cases u) auto

lemma found_node:
  assumes "find_node i root = Some n"
  obtains k p st a cs where "n = SemanticNode i k p st a cs"
  using find_node_nid(1) [OF assms] that by (cases n) auto

lemma apply_field_write:
  assumes "field_write x = Some (f, v)" and "apply_operation H (r, vc) x = Ok (r', vc')"
  shows "field_value r' g = (if g = f then Some v else field_value r g)"
proof (cases x)
  case (SetProperty i key w)
  have f: "f = Inr (i, key)" "v = w" using assms(1) SetProperty by simp_all
  have "apply_operation H (r, vc) (SetProperty i key w) = Ok (r', vc')"
    using assms(2) SetProperty by simp
  then obtain n p where n: "find_node i (rcp_root r) = Some n"
    and p: "props_with (nprops n) key w = Ok p"
    and r': "r' = r\<lparr>rcp_root := replace_node i (set_node_props n p) (rcp_root r)\<rparr>"
    unfolding apply_operation.simps and_then_Ok_iff ok_or_Ok_iff map_err_Ok_iff by blast
  from n obtain k q st a cs where node: "n = SemanticNode i k q st a cs" by (rule found_node)
  have "p = bt_insert key w q" using p by (simp add: node props_with_Ok_iff)
  then show ?thesis
    using props_replace_node(1) [OF n [unfolded node]] n
    by (cases g) (auto simp: r' node f set_node_props_def bind_nprops split: if_splits)
next
  case (SetRecipeMetadata key w)
  with assms show ?thesis by (cases g) (auto split: if_splits)
qed (use assms in auto)

lemma apply_field_writes:
  assumes "disjoint_writes xs" and "apply_operations H (r, vc) xs = Ok (r', vc')"
  shows "field_value r' g =
    (case map_of (field_writes xs) g of Some v \<Rightarrow> Some v | None \<Rightarrow> field_value r g)"
  using assms
proof (induction xs arbitrary: r vc)
  case Nil
  then show ?case by (simp add: field_writes_def)
next
  case (Cons x xs)
  from Cons.prems(1) obtain f v where fv: "field_write x = Some (f, v)"
    by (auto simp: disjoint_writes_def)
  from Cons.prems(2) obtain s w where s: "apply_operation H (r, vc) x = Ok (s, w)"
    and rest: "apply_operations H (s, w) xs = Ok (r', vc')"
    by (auto simp: result_simps)
  have dis: "disjoint_writes xs" and "f \<notin> fst ` set (field_writes xs)"
    using Cons.prems(1) fv by (auto simp: disjoint_writes_def field_writes_def)
  then have "map_of (field_writes xs) f = None" by (simp add: map_of_eq_None_iff)
  then show ?case
    using Cons.IH [OF dis rest] apply_field_write [OF fv s]
    by (auto simp: field_writes_def fv split: option.splits)
qed

lemma replace_found:
  "find_node t n = Some m \<Longrightarrow> replace_node t m n = n"
  "find_children t ns = Some m \<Longrightarrow> replace_children t m ns = ns"
  by (induction t n and t ns rule: find_node_find_children.induct)
     (auto split: if_splits option.splits)

lemma found_row:
  assumes "distinct (node_ids root)" and "find_node i root = Some (SemanticNode i k q s a cs)"
    and "(d, i, k', p, st, a') \<in> set (node_rows 0 root)"
  shows "p = q \<and> st = s"
proof -
  have "map (set_row i q s) (node_rows 0 root) = map id (node_rows 0 root)"
    using rows_replace_node(1) [OF assms(1,2), of 0 q s] replace_found(1) [OF assms(2)] by simp
  then have "set_row i q s row = row" if "row \<in> set (node_rows 0 root)" for row
    using that unfolding map_eq_conv by simp
  from this [OF assms(3)] show ?thesis by (simp add: set_row_def)
qed

lemma rows_set_state:
  assumes "distinct (node_ids root)" and "find_node i root = Some n"
  shows "node_rows 0 (replace_node i (set_node_state n st) root) =
    map (\<lambda>(d, j, k, p, s, a). (d, j, k, p, if j = i then st else s, a)) (node_rows 0 root)"
proof -
  from assms(2) obtain k q s a cs where node: "n = SemanticNode i k q s a cs" by (rule found_node)
  have "set_row i q st row = (case row of (d, j, k, p, s, a) \<Rightarrow> (d, j, k, p, if j = i then st else s, a))"
    if "row \<in> set (node_rows 0 root)" for row
    using found_row [OF assms(1) assms(2) [unfolded node]] that by (cases row) (auto simp: set_row_def)
  then show ?thesis
    using rows_replace_node(1) [OF assms(1) assms(2) [unfolded node]]
    by (simp add: node set_node_state_def cong: map_cong)
qed

lemma rows_set_props:
  assumes "distinct (node_ids root)" and "find_node i root = Some n"
  shows "node_rows 0 (replace_node i (set_node_props n (bt_insert key v (nprops n))) root) =
    map (\<lambda>(d, j, k, p, s, a). (d, j, k, if j = i then bt_insert key v p else p, s, a)) (node_rows 0 root)"
proof -
  from assms(2) obtain k q s a cs where node: "n = SemanticNode i k q s a cs" by (rule found_node)
  have "map (set_row i (bt_insert key v q) s) (node_rows 0 root) =
      map (\<lambda>(d, j, k, p, s, a). (d, j, k, if j = i then bt_insert key v p else p, s, a)) (node_rows 0 root)"
    using found_row [OF assms(1) assms(2) [unfolded node]] by (auto simp: set_row_def)
  then show ?thesis
    using rows_replace_node(1) [OF assms(1) assms(2) [unfolded node]]
    by (simp add: node set_node_props_def)
qed

end
