(* ===== verification/Store_Properties.thy ===== *)
theory Store_Properties
  imports Field_Writes
begin

text \<open>
  The properties of \<open>RecipeStore\<close> (\<open>capsules/capsule-surface-model/src/store.rs\<close>), over the stores that
  any sequence of calls reaches from \<open>RecipeStore::new\<close>, and a concrete store on which the hypotheses hold.
\<close>

section \<open>A concrete store\<close>

definition demo_digest :: string where
  "demo_digest = replicate 64 (CHR ''0'')"

definition demo_host :: host where
  "demo_host = \<lparr>serde_to_vec = (\<lambda>_. Some ''null''), serde_from_slice = (\<lambda>_. Some RNull),
     blake3_hex = (\<lambda>_. demo_digest), blake3_bytes = (\<lambda>_. replicate 32 0)\<rparr>"

definition demo_root :: semantic_node where
  "demo_root = SemanticNode 1 Region [] 0 (accessibility_named ''region'' ''root'') []"

definition demo_recipe :: recipe where
  "demo_recipe = \<lparr>rcp_schema = recipe_schema, rcp_owner_ref = OwnerUser ''ann'', rcp_recipe_id = ''home'',
     rcp_revision = 1, rcp_parent_revision = None, rcp_parent_digest = [], rcp_digest = demo_digest,
     rcp_theme_id = ''dark'', rcp_metadata = [], rcp_root = demo_root, rcp_bindings = binding_set_default\<rparr>"

definition demo_patch :: "string \<Rightarrow> u64 \<Rightarrow> patch_op list \<Rightarrow> patch" where
  "demo_patch i base xs = \<lparr>pat_schema = patch_schema, pat_owner_ref = OwnerUser ''ann'',
     pat_acting_principal = PrincipalAgent ''bot'', pat_proposal_id = ''proposal'',
     pat_review = \<lparr>rv_reviewer = PrincipalUser ''ann'', rv_receipt = ''ok''\<rparr>,
     pat_patch_id = i, pat_recipe_id = ''home'', pat_base_revision = base,
     pat_base_digest = demo_digest, pat_summary = ''demo'', pat_operations = xs\<rparr>"

definition demo_start :: "store_call list" where
  "demo_start = [CallInsert demo_recipe]"

definition demo_child :: "recipe \<Rightarrow> recipe" where
  "demo_child r = r\<lparr>rcp_parent_revision := Some (rcp_revision r), rcp_parent_digest := rcp_digest r,
     rcp_revision := rcp_revision r + 1, rcp_digest := demo_digest\<rparr>"

lemma demo_digest_valid [simp]: "valid_blake3_digest demo_digest"
  by code_simp

lemma demo_digest_parts [simp]: "digest_parts demo_host j = Ok demo_digest"
  by (simp add: digest_parts_def canonical_bytes_def demo_host_def)

lemma demo_intent [simp]: "intent_digest demo_host p = Ok demo_digest"
  by (simp add: intent_digest_def)

lemma demo_content [simp]: "content_digest demo_host r = Ok demo_digest"
  by (simp add: content_digest_def)

lemma demo_scene: "scene_ok demo_root"
proof -
  have "validate_node demo_root = Ok 1" by code_simp
  then show ?thesis by (simp add: validate_node_Ok_iff)
qed

lemma demo_recipe_valid: "recipe_validate demo_host demo_recipe = Ok ()"
proof -
  have "valid_document_id ''home''" "owner_is_valid (OwnerUser ''ann'')" by code_simp+
  moreover have "binding_set_validate demo_host binding_set_default = Ok ()"
    by (simp add: binding_set_validate_def binding_set_default_def extensions_validate_def extensions_new_def)
  ultimately show ?thesis
    by (simp add: recipe_validate_Ok_iff demo_recipe_def demo_scene parent_link_ok_def metadata_bytes_def
        usize_sum_def bounded_nonempty_def max_recipe_metadata_def max_recipe_metadata_bytes_def)
qed

lemma demo_insert:
  "store_insert demo_host store_new demo_recipe =
     (\<lparr>st_current = [(''home'', demo_recipe)], st_history = [((''home'', 1), demo_recipe)],
       st_applied_patches = [], st_applied_patch_by_revision = []\<rparr>, Ok ())"
  by (simp add: store_insert_def demo_recipe_valid store_new_def bt_contains_key_def)
     (simp add: demo_recipe_def)

text \<open>The store after one applied patch.\<close>

definition demo_pin :: patch where
  "demo_pin = demo_patch ''pin'' 1 [SetRecipeMetadata ''pinned'' (Bool True)]"

definition demo_recipe2 :: recipe where
  "demo_recipe2 = demo_child (demo_recipe\<lparr>rcp_metadata := [(''pinned'', Bool True)]\<rparr>)"

definition demo_store :: recipe_store where
  "demo_store = \<lparr>st_current = [(''home'', demo_recipe2)],
     st_history = [((''home'', 1), demo_recipe), ((''home'', 2), demo_recipe2)],
     st_applied_patches = [(''pin'', demo_digest)], st_applied_patch_by_revision = [((''home'', 2), demo_pin)]\<rparr>"

lemma demo_documents_valid:
  "owner_is_valid (OwnerUser ''ann'')" "valid_document_id ''home''"
  "principal_is_valid (PrincipalAgent ''bot'')" "principal_is_valid (PrincipalUser ''ann'')"
  by code_simp+

lemma demo_bindings_valid: "binding_set_validate demo_host binding_set_default = Ok ()"
  by (simp add: binding_set_validate_def binding_set_default_def extensions_validate_def extensions_new_def)

lemma demo_patch_valid:
  assumes "i \<noteq> []" "length i \<le> 256" "base \<noteq> 0" "xs \<noteq> []" "length xs \<le> 64"
    "\<forall>x \<in> set xs. op_validate (length xs) x = Ok ()"
  shows "patch_validate (demo_patch i base xs) = Ok ()"
  using assms unfolding patch_validate_Ok_iff
  by (simp add: demo_patch_def demo_documents_valid patch_fields_def max_patch_ops_def demo_digest_def)
     (simp flip: demo_digest_def)

lemma demo_child_valid:
  assumes "rcp_schema r = recipe_schema" "rcp_owner_ref r = OwnerUser ''ann''" "rcp_recipe_id r = ''home''"
    "rcp_theme_id r = ''dark''" "rcp_root r = demo_root" "rcp_bindings r = binding_set_default"
    "rcp_revision r = n" "rcp_digest r = demo_digest" "n = 1 \<or> n = 2 \<or> n = 3"
    "length (rcp_metadata r) \<le> 16" "metadata_bytes (rcp_metadata r) \<le> 2048"
  shows "finish_revision demo_host r n demo_digest = Ok (demo_child r)"
proof -
  have n: "unat n < 10" "1 \<le> n" "n + 1 \<noteq> 0"
    using assms(9) by auto
  have "recipe_validate demo_host (r\<lparr>rcp_parent_revision := Some n, rcp_parent_digest := demo_digest,
      rcp_revision := n + 1\<rparr>) = Ok ()"
    using assms n
    by (simp add: recipe_validate_Ok_iff demo_documents_valid demo_bindings_valid demo_scene
        parent_link_ok_def bounded_nonempty_def max_recipe_metadata_def max_recipe_metadata_bytes_def)
  then show ?thesis
    using assms n by (simp add: finish_revision_Ok_iff refresh_digest_def demo_child_def)
qed

lemma demo_fields [simp]:
  "rcp_schema demo_recipe = recipe_schema" "rcp_owner_ref demo_recipe = OwnerUser ''ann''"
  "rcp_recipe_id demo_recipe = ''home''" "rcp_revision demo_recipe = 1"
  "rcp_digest demo_recipe = demo_digest" "rcp_theme_id demo_recipe = ''dark''"
  "rcp_metadata demo_recipe = []" "rcp_root demo_recipe = demo_root"
  "rcp_bindings demo_recipe = binding_set_default"
  "rcp_schema demo_recipe2 = recipe_schema" "rcp_owner_ref demo_recipe2 = OwnerUser ''ann''"
  "rcp_recipe_id demo_recipe2 = ''home''" "rcp_revision demo_recipe2 = 2"
  "rcp_digest demo_recipe2 = demo_digest" "rcp_theme_id demo_recipe2 = ''dark''"
  "rcp_metadata demo_recipe2 = [(''pinned'', Bool True)]" "rcp_root demo_recipe2 = demo_root"
  "rcp_bindings demo_recipe2 = binding_set_default"
  by (simp_all add: demo_recipe2_def demo_child_def) (simp_all add: demo_recipe_def)

lemma demo_patch_fields [simp]:
  "pat_patch_id (demo_patch i n xs) = i" "pat_recipe_id (demo_patch i n xs) = ''home''"
  "pat_owner_ref (demo_patch i n xs) = OwnerUser ''ann''"
  "pat_base_revision (demo_patch i n xs) = n" "pat_base_digest (demo_patch i n xs) = demo_digest"
  "pat_operations (demo_patch i n xs) = xs"
  by (simp_all add: demo_patch_def)

lemma demo_store_gets [simp]:
  "bt_get (st_current demo_store) ''home'' = Some demo_recipe2"
  "bt_get (st_history demo_store) (''home'', 1) = Some demo_recipe"
  "bt_get (st_history demo_store) (''home'', 2) = Some demo_recipe2"
  "bt_get (st_applied_patches demo_store) k = (if k = ''pin'' then Some demo_digest else None)"
  "bt_get (st_applied_patch_by_revision demo_store) (''home'', 2) = Some demo_pin"
  by (simp_all add: demo_store_def bt_get_def)

lemma demo_pin_applied:
  "apply_patch demo_host (fst (store_insert demo_host store_new demo_recipe)) demo_pin =
     (demo_store, Ok (Applied demo_recipe2 False))"
proof -
  let ?r = "demo_recipe\<lparr>rcp_metadata := [(''pinned'', Bool True)]\<rparr>"
  have "patch_validate demo_pin = Ok ()"
    unfolding demo_pin_def by (rule demo_patch_valid) simp_all
  moreover have "finish_revision demo_host ?r 1 demo_digest = Ok demo_recipe2"
    unfolding demo_recipe2_def
    by (rule demo_child_valid) (simp_all add: metadata_bytes_def usize_sum_def
        usize_saturating_add_def usize_max_def value_text_len_def)
  ultimately show ?thesis
    unfolding apply_patch_Applied_iff demo_insert
    by (auto simp: demo_pin_def build_candidate_def sole_restore_def commit_def record_revision_def
        demo_store_def bt_get_def)
qed

definition demo_calls :: "store_call list" where
  "demo_calls = [CallInsert demo_recipe, CallApply demo_pin]"

lemma demo_reached: "run_calls demo_host store_new demo_calls = demo_store"
  using demo_pin_applied
  by (simp add: run_calls_def demo_calls_def demo_insert)

lemma demo_log: "store_log demo_store ''home'' = [(demo_recipe, None), (demo_recipe2, Some demo_pin)]"
  by (simp add: store_log_def upt_rec) (simp add: demo_store_def bt_get_def)

section \<open>Histories\<close>

text \<open>C1. Whatever sequence of inserts, patches, merges and rollbacks is called, accepted or refused, the four
  maps of the store stay the maps of one hash-chained log of revisions per recipe: current is the last entry, history
  and the applied patches are the entries by number, applied digests are exactly those of the logged patches.\<close>

theorem store_represents_logs:
  "represents H (run_calls H store_new cs) (store_log (run_calls H store_new cs))"
  by (rule reached_represents)

text \<open>C2. \<open>apply_patch\<close> refines its specification on logs: on every branch, for every store that calls can
  reach, result and new state are those of \<open>spec_apply\<close>, which appends to one log or changes nothing.\<close>

theorem apply_patch_refines:
  "spec_apply H (store_log (run_calls H store_new cs)) p =
     (case apply_patch H (run_calls H store_new cs) p of (s', res) \<Rightarrow> (store_log s', res))"
  by (cases "apply_patch H (run_calls H store_new cs) p") (simp add: apply_spec [OF reached_represents])

text \<open>History is append-only: later calls never change or drop a recorded revision or its patch.\<close>

theorem history_append_only:
  "prefix (store_log (run_calls H store_new cs) i) (store_log (run_calls H store_new (cs @ ds)) i)"
proof -
  have "run_calls H store_new (cs @ ds) = run_calls H (run_calls H store_new cs) ds"
    by (simp add: run_calls_def)
  then show ?thesis
    using recipe_log.grow_run [OF reached_represents [of H cs], of i ds] by (simp add: run_calls_def)
qed

text \<open>C3. The revisions of a recipe form a hash chain: the entry at position j has revision j + 1, is valid and
  carries the digest of its own content, and names number and digest of its predecessor and the same owner.\<close>

theorem history_is_hash_chain: "well_linked H i (store_log (run_calls H store_new cs) i)"
  using representsD(1) [OF reached_represents [of H cs], of i] chain_well_linked
  by (cases "store_log (run_calls H store_new cs) i = []") (simp_all add: well_linked_def)

text \<open>A call that is refused leaves the store as it was: insertion, patch, merge and rollback are atomic.\<close>

theorem refused_call_changes_nothing:
  assumes "run_call H s c = (s', False)"
  shows "s' = s"
  using assms by (cases rule: call_cases) simp_all

theorem refused_call_changes_nothing_witness:
  "fst (run_call demo_host store_new (CallApply demo_pin)) = store_new"
proof (rule refused_call_changes_nothing)
  have "patch_validate demo_pin = Ok ()"
    unfolding demo_pin_def by (rule demo_patch_valid) simp_all
  then show "run_call demo_host store_new (CallApply demo_pin) =
      (fst (run_call demo_host store_new (CallApply demo_pin)), False)"
    by (simp add: apply_patch_eq apply_patch_once_def store_new_def)
qed

text \<open>C4. Every patch in a history was validated, was reviewed by someone other than the acting principal, and
  belongs to the recipe and to the owner of that history.\<close>

theorem logged_patch_reviewed:
  assumes "Some p \<in> snd ` set (store_log (run_calls H store_new cs) i)"
  shows "patch_validate p = Ok () \<and> pat_acting_principal p \<noteq> rv_reviewer (pat_review p) \<and>
    pat_recipe_id p = i \<and>
    (\<exists>r. store_get (run_calls H store_new cs) i = Some r \<and> rcp_owner_ref r = pat_owner_ref p)"
proof -
  let ?s = "run_calls H store_new cs"
  from assms have ne: "store_log ?s i \<noteq> []" by auto
  have rep: "represents H ?s (store_log ?s)" by (rule reached_represents)
  note logged = chain_logged [OF representsD(1) [OF rep ne] assms]
  have "pat_acting_principal p \<noteq> rv_reviewer (pat_review p)"
    using logged(1) by (simp add: patch_validate_Ok_iff)
  then show ?thesis
    using logged representsD(2) [OF rep, of i] ne by (simp add: store_get_def)
qed

theorem logged_patch_reviewed_witness: "pat_acting_principal demo_pin \<noteq> rv_reviewer (pat_review demo_pin)"
  using logged_patch_reviewed [of demo_pin demo_host demo_calls "''home''"]
  by (simp add: demo_reached demo_log)

text \<open>Patches are idempotent: applying a logged patch again, at any later time, reports \<open>AlreadyApplied\<close>
  with the current head and changes nothing.\<close>

lemma reapply_is_idempotent:
  assumes "Some p \<in> snd ` set (store_log (run_calls H store_new cs) i)"
  shows "\<exists>r. store_get (run_calls H store_new (cs @ ds)) i = Some r \<and>
    apply_patch H (run_calls H store_new (cs @ ds)) p =
      (run_calls H store_new (cs @ ds), Ok (AlreadyApplied r))"
proof -
  let ?s = "run_calls H store_new (cs @ ds)"
  have rep: "represents H ?s (store_log ?s)" by (rule reached_represents)
  have s: "?s = foldl (\<lambda>s c. fst (run_call H s c)) (run_calls H store_new cs) ds"
    by (simp add: run_calls_def)
  have pre: "prefix (store_log (run_calls H store_new cs) i) (store_log ?s i)"
    unfolding s by (rule recipe_log.grow_run) (rule reached_represents)
  with assms have p: "Some p \<in> snd ` set (store_log ?s i)" by (auto simp: prefix_def)
  then have ne: "store_log ?s i \<noteq> []" and mem: "p \<in> logged (store_log ?s)" by (auto simp: logged_def)
  have "pat_recipe_id p = i"
    by (rule chain_logged(2) [OF representsD(1) [OF rep ne] p])
  moreover obtain d where "intent_digest H p = Ok d" using logged_intent(2) [OF rep mem] by blast
  moreover from this have "bt_get (st_applied_patches ?s) (pat_patch_id p) = Some d"
    using mem representsD(5) [OF rep] by blast
  ultimately show ?thesis
    using logged_intent(1) [OF rep mem] representsD(2) [OF rep, of i] ne
    by (simp add: store_get_def apply_patch_eq apply_patch_once_def)
qed

lemma reapply_is_idempotent_witness:
  "\<exists>r. store_get demo_store ''home'' = Some r \<and>
     apply_patch demo_host demo_store demo_pin = (demo_store, Ok (AlreadyApplied r))"
  using reapply_is_idempotent [of demo_pin demo_host demo_calls "''home''" "[]"]
  by (simp add: demo_reached demo_log)

text \<open>Of two patches made against the same revision only the first is applied: the other one is refused with
  \<open>Conflict\<close>, naming the revision and digest it has to be rebased on.\<close>

theorem second_patch_conflicts:
  assumes "apply_patch H (run_calls H store_new cs) p = (s', Ok (Applied r vc))"
    and "pat_recipe_id p' = pat_recipe_id p" and "pat_owner_ref p' = pat_owner_ref p"
    and "pat_base_revision p' = pat_base_revision p"
    and "\<forall>q \<in> logged (store_log s'). pat_patch_id q \<noteq> pat_patch_id p'"
    and "patch_validate p' = Ok ()" and "is_ok (intent_digest H p')"
  shows "apply_patch H s' p' = (s', Err (Conflict (rcp_revision r) (rcp_digest r)))"
proof -
  let ?L = "store_log (run_calls H store_new cs)" and ?i = "pat_recipe_id p"
  note ap = apply_represents [OF reached_represents assms(1)]
  note f = log_step_fields [OF ap(2)]
  have base: "pat_base_revision p = rcp_revision (log_head (?L ?i))"
    "pat_owner_ref p = rcp_owner_ref (log_head (?L ?i))"
    using ap(2) by (simp_all add: log_step_def Let_def)
  have log: "store_log s' = ?L(?i := ?L ?i @ [(r, Some p)])"
    by (rule store_log_represents [OF ap(4)])
  have cur: "bt_get (st_current s') ?i = Some r"
    using representsD(2) [OF ap(4), of ?i] by (simp add: log_head_def)
  have "bt_get (st_applied_patches s') (pat_patch_id p') = None"
    using applied_None_iff [OF ap(4)] assms(5) by (simp add: log)
  moreover have "rcp_revision r \<noteq> pat_base_revision p"
    using f(2) base(1) by auto
  moreover obtain d where "intent_digest H p' = Ok d" using assms(7) by (auto simp: is_ok_iff)
  ultimately show ?thesis
    using assms(2,3,4,6) cur f(6) base(2)
    by (simp add: apply_patch_eq apply_patch_once_def)
qed

lemma demo_logged: "logged (store_log demo_store) = {demo_pin}"
proof -
  have other: "store_log demo_store i = []" if "i \<noteq> ''home''" for i
    using that by (simp add: store_log_def demo_store_def bt_get_def)
  have "Some p \<in> snd ` set (store_log demo_store i) \<longleftrightarrow> i = ''home'' \<and> p = demo_pin" for i p
    by (cases "i = ''home''") (simp_all add: demo_log other)
  then show ?thesis by (auto simp: logged_def)
qed

theorem second_patch_conflicts_witness:
  "apply_patch demo_host demo_store (demo_patch ''late'' 1 [ClearRoot]) =
     (demo_store, Err (Conflict 2 demo_digest))"
proof -
  have "run_calls demo_host store_new demo_start = fst (store_insert demo_host store_new demo_recipe)"
    by (simp add: run_calls_def demo_start_def demo_insert)
  moreover have "patch_validate (demo_patch ''late'' 1 [ClearRoot]) = Ok ()"
    by (rule demo_patch_valid) simp_all
  ultimately show ?thesis
    using second_patch_conflicts [of demo_host demo_start demo_pin demo_store demo_recipe2 False
        "demo_patch ''late'' 1 [ClearRoot]"] demo_pin_applied
    by (simp add: demo_logged demo_pin_def)
qed

end
