(* ===== verification/A2ui.thy ===== *)
theory A2ui
  imports Store_Properties
begin

text \<open>
  \<open>capsules/capsule-surface-model/src/a2ui.rs\<close>: the boundary to A2UI documents. Storage messages are imported
  as recipes and patches, everything else is refused; a recipe is exported as a projection onto the
  component kinds a catalog supports, with a count of what was left out. \<open>project_node\<close> threads that
  count (\<open>degraded\<close>, a saturating \<open>usize\<close>) through the tree.
\<close>

section \<open>Messages\<close>

definition authority_labels :: "string list" where
  "authority_labels = [''owner'', ''principal'', ''actor'', ''authority'', ''grant'', ''capability'',
     ''capabilities'', ''scope'', ''scopes'', ''token'', ''cookie'', ''credential'', ''secret'', ''handle'',
     ''fd'', ''socket'', ''pid'', ''argv'', ''env'', ''path'', ''home'', ''xdg'']"

definition max_a2ui_data_bytes :: nat where "max_a2ui_data_bytes = 4096"

datatype a2ui_version = V0_9 | V1_0

record create_surface_message =
  cm_version :: a2ui_version
  cm_surface_id :: string
  cm_recipe_id :: string
  cm_root :: semantic_node

record update_components_message =
  um_version :: a2ui_version
  um_surface_id :: string
  um_recipe_id :: string
  um_root :: semantic_node

record update_data_model_message =
  dm_version :: a2ui_version
  dm_surface_id :: string
  dm_recipe_id :: string
  dm_data :: canonical_json

record delete_surface_message =
  xm_version :: a2ui_version
  xm_surface_id :: string
  xm_recipe_id :: string

datatype non_storage_call = Renderer canonical_json | AgentFunctionCall string canonical_json

datatype imported_document = ImportedRecipe recipe | ImportedPatch patch | EphemeralDelete

datatype a2ui_error =
    UnsupportedCatalog
  | AuthorityField
  | NonStorage
  | Oversized
  | A2uiPatch patch_error
  | A2uiRecipe recipe_validation_error

section \<open>Checks\<close>

fun validate_version :: "a2ui_version \<Rightarrow> a2ui_error + unit" where
  "validate_version V0_9 = Ok ()"
| "validate_version V1_0 = Ok ()"

definition a2ui_valid_id :: "string \<Rightarrow> a2ui_error + unit" where
  "a2ui_valid_id v =
     (if v = [] \<or> length v > 256 \<or> contains_str v ''..'' \<or>
         \<not> list_all (\<lambda>c. is_ascii_alphanumeric c \<or> c \<in> set ''-_:.'') v
      then Err UnsupportedCatalog else Ok ())"

definition bounded_value_at :: "host \<Rightarrow> raw_json \<Rightarrow> nat \<Rightarrow> a2ui_error + unit" where
  "bounded_value_at H v maximum =
     and_then (map_err (\<lambda>_. UnsupportedCatalog) (canonical_bytes H v)) (\<lambda>bytes.
       if length bytes > maximum then Err Oversized else Ok ())"

definition bounded_value :: "host \<Rightarrow> raw_json \<Rightarrow> a2ui_error + unit" where
  "bounded_value H v = bounded_value_at H v max_canonical_document_bytes"

definition same_target :: "string \<Rightarrow> string \<Rightarrow> recipe \<Rightarrow> a2ui_error + unit" where
  "same_target surface_id recipe_id base =
     and_then (a2ui_valid_id surface_id) (\<lambda>_.
       if recipe_id \<noteq> rcp_recipe_id base then Err UnsupportedCatalog else Ok ())"

definition normalized_label :: "string \<Rightarrow> string" where
  "normalized_label key = filter (\<lambda>c. c \<notin> set ''-_ '') (to_ascii_lowercase key)"

definition reject_authority_label :: "string \<Rightarrow> a2ui_error + unit" where
  "reject_authority_label key =
     (let normalized = normalized_label key in
      if normalized \<in> set authority_labels \<or> contains_str normalized ''path'' \<or>
         contains_str normalized ''home'' \<or> contains_str normalized ''xdg''
      then Err AuthorityField else Ok ())"

fun reject_authority_value :: "canonical_json \<Rightarrow> a2ui_error + unit"
and reject_authority_values :: "canonical_json list \<Rightarrow> a2ui_error + unit"
and reject_authority_members :: "(string \<times> canonical_json) list \<Rightarrow> a2ui_error + unit" where
  "reject_authority_value (CArray vs) = reject_authority_values vs"
| "reject_authority_value (CObject ms) = reject_authority_members ms"
| "reject_authority_value CNull = Ok ()"
| "reject_authority_value (CBool b) = Ok ()"
| "reject_authority_value (CNumber n) = Ok ()"
| "reject_authority_value (CString s) = Ok ()"
| "reject_authority_values [] = Ok ()"
| "reject_authority_values (v # vs) = and_then (reject_authority_value v) (\<lambda>_. reject_authority_values vs)"
| "reject_authority_members [] = Ok ()"
| "reject_authority_members ((key, v) # ms) =
     and_then (reject_authority_label key) (\<lambda>_.
     and_then (reject_authority_value v) (\<lambda>_. reject_authority_members ms))"

section \<open>Import\<close>

definition import_create_surface :: "host \<Rightarrow> create_surface_message \<Rightarrow> opaque_owner_ref \<Rightarrow>
    opaque_principal_ref \<Rightarrow> string \<Rightarrow> a2ui_error + recipe" where
  "import_create_surface H m owner_ref acting_principal theme_id =
     and_then (validate_version (cm_version m)) (\<lambda>_.
     and_then (a2ui_valid_id (cm_surface_id m)) (\<lambda>_.
     and_then (a2ui_valid_id (cm_recipe_id m)) (\<lambda>_.
     and_then (bounded_value H (node_json (cm_root m))) (\<lambda>_.
     and_then (map_err (\<lambda>_. UnsupportedCatalog) (validate_node (cm_root m))) (\<lambda>_.
     map_err A2uiRecipe (recipe_new H owner_ref (cm_recipe_id m) theme_id (cm_root m)))))))"

definition import_update_components :: "host \<Rightarrow> update_components_message \<Rightarrow> opaque_owner_ref \<Rightarrow>
    opaque_principal_ref \<Rightarrow> opaque_principal_ref \<Rightarrow> string \<Rightarrow> recipe \<Rightarrow> a2ui_error + patch" where
  "import_update_components H m owner_ref actor reviewer receipt base =
     and_then (validate_version (um_version m)) (\<lambda>_.
     and_then (same_target (um_surface_id m) (um_recipe_id m) base) (\<lambda>_.
     and_then (bounded_value H (node_json (um_root m))) (\<lambda>_.
     and_then (map_err (\<lambda>_. UnsupportedCatalog) (validate_node (um_root m))) (\<lambda>_.
     map_err A2uiPatch (patch_new owner_ref actor reviewer receipt
       (''a2ui:'' @ um_surface_id m @ '':components'') (rcp_recipe_id base) (rcp_revision base) (rcp_digest base)
       (''A2UI '' @ (case um_version m of V0_9 \<Rightarrow> ''v0.9'' | V1_0 \<Rightarrow> ''v1.0'') @ '' component update'')
       [ReplaceRoot (um_root m)])))))"

fun data_operations :: "host \<Rightarrow> (string \<times> canonical_json) list \<Rightarrow> a2ui_error + patch_op list" where
  "data_operations H [] = Ok []"
| "data_operations H ((key, v) # entries) =
     and_then (reject_authority_label key) (\<lambda>_.
     and_then (map_err (\<lambda>_. UnsupportedCatalog) (canonical_bytes H (serialize_canonical v))) (\<lambda>encoded.
     and_then (data_operations H entries) (\<lambda>ops.
       Ok (SetRecipeMetadata (''a2ui/data:'' @ key) (Text encoded) # ops))))"

definition import_update_data_model :: "host \<Rightarrow> update_data_model_message \<Rightarrow> opaque_owner_ref \<Rightarrow>
    opaque_principal_ref \<Rightarrow> opaque_principal_ref \<Rightarrow> string \<Rightarrow> recipe \<Rightarrow> a2ui_error + patch" where
  "import_update_data_model H m owner_ref actor reviewer receipt base =
     and_then (validate_version (dm_version m)) (\<lambda>_.
     and_then (same_target (dm_surface_id m) (dm_recipe_id m) base) (\<lambda>_.
     and_then (bounded_value_at H (serialize_canonical (dm_data m)) max_a2ui_data_bytes) (\<lambda>_.
     and_then (reject_authority_value (dm_data m)) (\<lambda>_.
     and_then (case dm_data m of CObject es \<Rightarrow> Ok es | _ \<Rightarrow> Err UnsupportedCatalog) (\<lambda>entries.
     if entries = [] \<or> length entries > max_recipe_metadata then Err UnsupportedCatalog
     else and_then (data_operations H entries) (\<lambda>operations.
       map_err A2uiPatch (patch_new owner_ref actor reviewer receipt
         (''a2ui:'' @ dm_surface_id m @ '':data'') (rcp_recipe_id base) (rcp_revision base) (rcp_digest base)
         ''A2UI data model update'' operations)))))))"

definition import_delete_surface :: "delete_surface_message \<Rightarrow> a2ui_error + imported_document" where
  "import_delete_surface m =
     and_then (validate_version (xm_version m)) (\<lambda>_.
     and_then (a2ui_valid_id (xm_surface_id m)) (\<lambda>_.
     and_then (a2ui_valid_id (xm_recipe_id m)) (\<lambda>_. Ok EphemeralDelete)))"

fun reject_non_storage :: "non_storage_call \<Rightarrow> a2ui_error + imported_document" where
  "reject_non_storage (Renderer _) = Err NonStorage"
| "reject_non_storage (AgentFunctionCall _ _) = Err NonStorage"

section \<open>Export\<close>

type_synonym export_catalog = "component_kind set"

definition catalog_minimal :: export_catalog where
  "catalog_minimal = {Region, TextBlock, Button}"

definition prop_text :: "prop_value \<Rightarrow> string option" where
  "prop_text v = (case v of Text s \<Rightarrow> Some s | Token s \<Rightarrow> Some s | _ \<Rightarrow> None)"

definition component_label :: "component_kind \<Rightarrow> string" where
  "component_label k = (case k of
     Region \<Rightarrow> ''region'' | TextBlock \<Rightarrow> ''text'' | Button \<Rightarrow> ''button'' | _ \<Rightarrow> ''unsupported'')"

type_synonym json_object = "(string, canonical_json) btree_map"

text \<open>The two property steps of \<open>project_node\<close>: each extends the object and the set of projected keys.\<close>

definition project_text :: "bounded_props \<Rightarrow> json_object \<times> string set \<Rightarrow> json_object \<times> string set" where
  "project_text p = (\<lambda>(object, projected).
     case (case bt_get p ''label'' of Some v \<Rightarrow> Some v | None \<Rightarrow> bt_get p ''text'') of
       None \<Rightarrow> (object, projected)
     | Some accessible_name \<Rightarrow>
        (case prop_text accessible_name of
           None \<Rightarrow> (object, projected)
         | Some s \<Rightarrow> (bt_insert ''text'' (CString s) object,
             insert (if bt_get p ''label'' \<noteq> None then ''label'' else ''text'') projected)))"

definition project_action :: "component_kind \<Rightarrow> bounded_props \<Rightarrow> json_object \<times> string set \<times> nat \<Rightarrow>
    json_object \<times> string set \<times> nat" where
  "project_action k p = (\<lambda>(object, projected, degraded).
     case bt_get p ''action'' of
       Some v \<Rightarrow>
         (case prop_text v of
            Some s \<Rightarrow> (bt_insert ''action'' (CString s) object, insert ''action'' projected, degraded)
          | None \<Rightarrow> (object, insert ''action'' projected, usize_saturating_add degraded 1))
     | None \<Rightarrow> (object, projected, if k = Button then usize_saturating_add degraded 1 else degraded))"

definition count_unprojected :: "bounded_props \<Rightarrow> string set \<Rightarrow> nat \<Rightarrow> nat" where
  "count_unprojected p projected degraded =
     foldl (\<lambda>d (key, _). if key \<notin> projected then usize_saturating_add d 1 else d) degraded p"

fun project_node :: "export_catalog \<Rightarrow> semantic_node \<Rightarrow> nat \<Rightarrow> canonical_json \<times> nat"
and project_nodes :: "export_catalog \<Rightarrow> semantic_node list \<Rightarrow> nat \<Rightarrow> canonical_json list \<times> nat" where
  "project_node C (SemanticNode i k p st a cs) degraded =
     (if k \<notin> C then
        (CObject (bt_insert ''reason'' (CString ''catalog-subset'')
           (bt_insert ''kind'' (CString ''unsupported'') [])), usize_saturating_add degraded 1)
      else
        let (object1, projected1) = project_text p (bt_insert ''kind'' (CString (component_label k)) [], {});
            (object2, projected2, degraded2) = project_action k p (object1, projected1, degraded);
            degraded3 = count_unprojected p projected2 degraded2;
            (children, degraded4) = project_nodes C cs degraded3
        in (CObject (if children \<noteq> [] then bt_insert ''children'' (CArray children) object2 else object2),
            degraded4))"
| "project_nodes C [] degraded = ([], degraded)"
| "project_nodes C (c # cs) degraded =
     (let (j, degraded1) = project_node C c degraded;
          (js, degraded2) = project_nodes C cs degraded1
      in (j # js, degraded2))"

record export_projection_result =
  ep_version :: a2ui_version
  ep_surface_id :: string
  ep_recipe_id :: string
  ep_recipe_revision :: u64
  ep_lossy :: bool
  ep_degraded_nodes :: nat
  ep_root :: canonical_json

definition export_projection :: "recipe \<Rightarrow> string \<Rightarrow> a2ui_version \<Rightarrow> export_catalog \<Rightarrow>
    a2ui_error + export_projection_result" where
  "export_projection r surface_id version C =
     (if C = {} \<or> surface_id = [] \<or> length surface_id > 256 then Err UnsupportedCatalog
      else let (root, degraded) = project_node C (rcp_root r) 0 in
        Ok \<lparr>ep_version = version, ep_surface_id = surface_id, ep_recipe_id = rcp_recipe_id r,
            ep_recipe_revision = rcp_revision r, ep_lossy = degraded > 0, ep_degraded_nodes = degraded,
            ep_root = root\<rparr>)"

section \<open>Facts about import\<close>

text \<open>All member names in a value, at any depth.\<close>

fun json_keys :: "canonical_json \<Rightarrow> string set" where
  "json_keys (CArray vs) = (\<Union>v \<in> set vs. json_keys v)"
| "json_keys (CObject ms) = (\<Union>(k, v) \<in> set ms. insert k (json_keys v))"
| "json_keys _ = {}"

definition authority_free :: "string \<Rightarrow> bool" where
  "authority_free key \<longleftrightarrow> normalized_label key \<notin> set authority_labels \<and>
     \<not> (\<exists>a b. normalized_label key = a @ ''path'' @ b \<or> normalized_label key = a @ ''home'' @ b \<or>
        normalized_label key = a @ ''xdg'' @ b)"

lemma reject_label_Ok_iff: "reject_authority_label key = Ok () \<longleftrightarrow> authority_free key"
  by (auto simp: reject_authority_label_def authority_free_def Let_def contains_str_iff)

lemma reject_values_Ok_iff:
  "reject_authority_value v = Ok () \<longleftrightarrow> (\<forall>k \<in> json_keys v. authority_free k)"
  "reject_authority_values vs = Ok () \<longleftrightarrow> (\<forall>v \<in> set vs. \<forall>k \<in> json_keys v. authority_free k)"
  "reject_authority_members ms = Ok () \<longleftrightarrow>
     (\<forall>(key, v) \<in> set ms. authority_free key \<and> (\<forall>k \<in> json_keys v. authority_free k))"
  by (induction v and vs and ms rule: reject_authority_value_reject_authority_values_reject_authority_members.induct)
    (auto simp: result_simps reject_label_Ok_iff)

lemma data_operations_Ok:
  "data_operations H es = Ok ops \<Longrightarrow> length ops = length es \<and>
     (\<forall>x \<in> set ops. \<exists>k v c. (k, v) \<in> set es \<and> canonical_bytes H (serialize_canonical v) = Ok c \<and>
        x = SetRecipeMetadata (''a2ui/data:'' @ k) (Text c))"
proof (induction H es arbitrary: ops rule: data_operations.induct)
  case (2 H key v entries)
  from "2.prems" obtain encoded ops' where d: "data_operations H entries = Ok ops'"
    "canonical_bytes H (serialize_canonical v) = Ok encoded" "reject_authority_label key = Ok ()"
    "ops = SetRecipeMetadata (''a2ui/data:'' @ key) (Text encoded) # ops'"
    by (auto simp: result_simps)
  from "2.IH" [OF d(1)] d show ?case by fastforce
qed simp

lemma patch_new_Ok:
  assumes "patch_new ow ap rv rc i rid n dg sm ops = Ok p"
  shows "patch_validate p = Ok ()" and "pat_owner_ref p = ow" and "pat_recipe_id p = rid" and "pat_patch_id p = i"
    and "pat_operations p = ops" and "pat_base_revision p = n" and "pat_base_digest p = dg"
    and "pat_acting_principal p = ap" and "rv_reviewer (pat_review p) = rv"
  using assms by (auto simp: patch_new_def Let_def result_simps)

lemma import_components_Ok:
  assumes "import_update_components H m ow ap rv rc base = Ok p"
  shows "patch_new ow ap rv rc (''a2ui:'' @ um_surface_id m @ '':components'') (rcp_recipe_id base)
    (rcp_revision base) (rcp_digest base)
    (''A2UI '' @ (case um_version m of V0_9 \<Rightarrow> ''v0.9'' | V1_0 \<Rightarrow> ''v1.0'') @ '' component update'')
    [ReplaceRoot (um_root m)] = Ok p"
  using assms by (auto simp: import_update_components_def result_simps)

lemma logged_id_not_applied:
  assumes "p \<in> logged (store_log (run_calls H store_new cs))" and "pat_patch_id q = pat_patch_id p"
  shows "\<exists>res. apply_patch H (run_calls H store_new cs) q = (run_calls H store_new cs, res) \<and>
    (\<forall>r vc. res \<noteq> Ok (Applied r vc))"
proof -
  have rep: "represents H (run_calls H store_new cs) (store_log (run_calls H store_new cs))"
    by (rule reached_represents)
  obtain d where "intent_digest H p = Ok d" using logged_intent(2) [OF rep assms(1)] by blast
  then have "bt_get (st_applied_patches (run_calls H store_new cs)) (pat_patch_id q) = Some d"
    using assms representsD(5) [OF rep] by auto
  then show ?thesis
    by (auto simp: apply_patch_eq apply_patch_once_def result_simps split: sum.split)
qed

section \<open>Facts about export\<close>

definition text_key :: "bounded_props \<Rightarrow> string" where
  "text_key p = (if bt_get p ''label'' \<noteq> None then ''label'' else ''text'')"

text \<open>Every property of the node reaches the projection, and a button has its action.\<close>

definition props_projected :: "component_kind \<Rightarrow> bounded_props \<Rightarrow> bool" where
  "props_projected k p \<longleftrightarrow>
     (\<forall>key \<in> fst ` set p. key = ''action'' \<or>
        key = text_key p \<and> (\<exists>v. bt_get p key = Some v \<and> prop_text v \<noteq> None)) \<and>
     (case bt_get p ''action'' of Some v \<Rightarrow> prop_text v \<noteq> None | None \<Rightarrow> k \<noteq> Button)"

fun fully_projected :: "export_catalog \<Rightarrow> semantic_node \<Rightarrow> bool" where
  "fully_projected C (SemanticNode i k p st a cs) \<longleftrightarrow>
     k \<in> C \<and> props_projected k p \<and> (\<forall>c \<in> set cs. fully_projected C c)"

lemma saturating_step: "d \<le> usize_max \<Longrightarrow> d \<le> usize_saturating_add d 1 \<and> usize_saturating_add d 1 \<le> usize_max \<and>
    (d < usize_max \<longrightarrow> d < usize_saturating_add d 1)"
  by (auto simp: usize_saturating_add_def)

text \<open>\<open>counts b d d'\<close>: the counter goes from \<open>d\<close> to \<open>d'\<close>, and moves exactly when \<open>b\<close> fails.\<close>

definition counts :: "bool \<Rightarrow> nat \<Rightarrow> nat \<Rightarrow> bool" where
  "counts b d d' \<longleftrightarrow> (d \<le> usize_max \<longrightarrow> d \<le> d' \<and> d' \<le> usize_max \<and> (b \<longrightarrow> d' = d) \<and> (\<not> b \<and> d < usize_max \<longrightarrow> d < d'))"

lemma counts_refl: "counts True d d"
  by (simp add: counts_def)

lemma counts_add: "counts False d (usize_saturating_add d 1)"
  using saturating_step [of d] by (simp add: counts_def)

lemma counts_trans: "counts b d d' \<Longrightarrow> counts c d' d'' \<Longrightarrow> counts (b \<and> c) d d''"
  by (auto simp: counts_def)

lemma counts_unprojected: "counts (\<forall>key \<in> fst ` set p. key \<in> projected) d (count_unprojected p projected d)"
proof (induction p arbitrary: d)
  case Nil
  then show ?case by (simp add: count_unprojected_def counts_refl)
next
  case (Cons kv p)
  obtain key v where kv: "kv = (key, v)" by (cases kv)
  let ?d = "if key \<notin> projected then usize_saturating_add d 1 else d"
  have "counts (key \<in> projected) d ?d" using counts_refl counts_add by simp
  from counts_trans [OF this Cons.IH [of ?d]] show ?case
    by (simp add: count_unprojected_def kv)
qed

lemma project_counts:
  assumes "project_text p (ob, {}) = (ob1, pr1)" and "project_action k p (ob1, pr1, d) = (ob2, pr2, d2)"
  shows "counts (props_projected k p) d (count_unprojected p pr2 d2)"
proof -
  let ?named = "\<exists>v. bt_get p (text_key p) = Some v \<and> prop_text v \<noteq> None"
  let ?acts = "case bt_get p ''action'' of Some v \<Rightarrow> prop_text v \<noteq> None | None \<Rightarrow> k \<noteq> Button"
  have t: "pr1 = (if ?named then {text_key p} else {})"
    using assms(1) by (auto simp: project_text_def text_key_def split: option.splits if_splits)
  have a: "pr2 = (if bt_get p ''action'' = None then pr1 else insert ''action'' pr1)"
    using assms(2) by (auto simp: project_action_def split: option.splits)
  have c: "counts ?acts d d2"
    using assms(2) counts_refl counts_add by (auto simp: project_action_def split: option.splits if_splits)
  have "counts (?acts \<and> (\<forall>key \<in> fst ` set p. key \<in> pr2)) d (count_unprojected p pr2 d2)"
    by (rule counts_trans [OF c counts_unprojected])
  moreover define K where "K = fst ` set p"
  moreover have "''action'' \<notin> K" if "bt_get p ''action'' = None"
    using that by (simp add: bt_get_None_iff K_def)
  then have "(?acts \<and> (\<forall>key \<in> K. key \<in> pr2)) = props_projected k p"
    unfolding props_projected_def t a K_def [symmetric]
    by (cases "bt_get p ''action'' = None"; cases ?named) auto
  ultimately show ?thesis by simp
qed

lemma project_node_counts:
  "counts (fully_projected C n) d (snd (project_node C n d))"
  "counts (\<forall>c \<in> set cs. fully_projected C c) d (snd (project_nodes C cs d))"
proof (induction C n d and C cs d rule: project_node_project_nodes.induct)
  case (1 C i k p st a cs d)
  show ?case
  proof (cases "k \<in> C")
    case False
    then show ?thesis by (simp add: counts_add [simplified])
  next
    case True
    obtain ob1 pr1 where t: "project_text p (bt_insert ''kind'' (CString (component_label k)) [], {}) = (ob1, pr1)"
      by fastforce
    obtain ob2 pr2 d2 where ac: "project_action k p (ob1, pr1, d) = (ob2, pr2, d2)" by (rule prod_cases3)
    have "counts (\<forall>c \<in> set cs. fully_projected C c) (count_unprojected p pr2 d2)
        (snd (project_nodes C cs (count_unprojected p pr2 d2)))"
      using "1.IH" True t [symmetric] ac [symmetric] by blast
    from counts_trans [OF project_counts [OF t ac] this] show ?thesis
      using True t ac by (simp add: Let_def case_prod_unfold)
  qed
next
  case (3 C c cs d)
  show ?case
    using counts_trans [OF "3.IH"(1) "3.IH"(2) [OF surjective_pairing [symmetric] refl]]
    by (simp add: case_prod_unfold Let_def)
qed (simp add: counts_refl)

text \<open>The node without identities, states and accessibility.\<close>

fun bare_node :: "semantic_node \<Rightarrow> semantic_node" where
  "bare_node (SemanticNode i k p st a cs) =
     SemanticNode 0 k p state_set_empty (accessibility_named [] []) (map bare_node cs)"

lemma project_bare:
  "project_node C (bare_node n) d = project_node C n d"
  "project_nodes C (map bare_node cs) d = project_nodes C cs d"
  by (induction C n d and C cs d rule: project_node_project_nodes.induct)
    (auto simp: Let_def split: prod.splits)

section \<open>A running example\<close>

definition demo_update :: "a2ui_version \<Rightarrow> update_components_message" where
  "demo_update v = \<lparr>um_version = v, um_surface_id = ''s1'', um_recipe_id = ''home'', um_root = demo_root\<rparr>"

definition demo_data :: update_data_model_message where
  "demo_data = \<lparr>dm_version = V0_9, dm_surface_id = ''s1'', dm_recipe_id = ''home'',
     dm_data = CObject [(''title'', CString ''x'')]\<rparr>"

definition demo_surface_patch :: "string \<Rightarrow> string \<Rightarrow> patch_op list \<Rightarrow> patch" where
  "demo_surface_patch i sm xs = \<lparr>pat_schema = patch_schema, pat_owner_ref = OwnerUser ''ann'',
     pat_acting_principal = PrincipalAgent ''bot'', pat_proposal_id = ''proposal:'' @ i,
     pat_review = \<lparr>rv_reviewer = PrincipalUser ''ann'', rv_receipt = ''ok''\<rparr>,
     pat_patch_id = i, pat_recipe_id = ''home'', pat_base_revision = 1,
     pat_base_digest = demo_digest, pat_summary = sm, pat_operations = xs\<rparr>"

definition demo_update_patch :: "a2ui_version \<Rightarrow> patch" where
  "demo_update_patch v = demo_surface_patch ''a2ui:s1:components''
     (''A2UI '' @ (case v of V0_9 \<Rightarrow> ''v0.9'' | V1_0 \<Rightarrow> ''v1.0'') @ '' component update'') [ReplaceRoot demo_root]"

lemma demo_bytes [simp]: "canonical_bytes demo_host j = Ok ''null''"
  by (simp add: canonical_bytes_def demo_host_def)

lemma demo_surface_patch_valid:
  assumes "i \<noteq> []" "length i \<le> 200" "sm \<noteq> []" "length sm \<le> 256" "xs \<noteq> []" "length xs \<le> 64"
    "\<forall>x \<in> set xs. op_validate (length xs) x = Ok ()"
  shows "patch_new (OwnerUser ''ann'') (PrincipalAgent ''bot'') (PrincipalUser ''ann'') ''ok'' i ''home'' 1 demo_digest
    sm xs = Ok (demo_surface_patch i sm xs)"
proof -
  have "patch_validate (demo_surface_patch i sm xs) = Ok ()"
    using assms unfolding patch_validate_Ok_iff
    by (simp add: demo_surface_patch_def demo_documents_valid patch_fields_def max_patch_ops_def demo_digest_def)
       (simp flip: demo_digest_def)
  then show ?thesis by (simp add: patch_new_def demo_surface_patch_def)
qed

lemma demo_ids: "a2ui_valid_id ''s1'' = Ok ()" "a2ui_valid_id ''home'' = Ok ()"
  by code_simp+

lemma demo_root_valid: "validate_node demo_root = Ok 1"
  by code_simp

lemma demo_update_import:
  "import_update_components demo_host (demo_update v) (OwnerUser ''ann'') (PrincipalAgent ''bot'')
     (PrincipalUser ''ann'') ''ok'' demo_recipe = Ok (demo_update_patch v)"
proof -
  have "patch_new (OwnerUser ''ann'') (PrincipalAgent ''bot'') (PrincipalUser ''ann'') ''ok'' ''a2ui:s1:components''
      ''home'' 1 demo_digest (''A2UI '' @ (case v of V0_9 \<Rightarrow> ''v0.9'' | V1_0 \<Rightarrow> ''v1.0'') @ '' component update'')
      [ReplaceRoot demo_root] = Ok (demo_update_patch v)"
    unfolding demo_update_patch_def by (rule demo_surface_patch_valid) (simp_all add: demo_root_valid split: a2ui_version.split)
  then show ?thesis
    by (cases v) (simp_all add: import_update_components_def demo_update_def same_target_def demo_ids bounded_value_def
      bounded_value_at_def max_canonical_document_bytes_def demo_root_valid)
qed

lemma demo_data_import:
  "import_update_data_model demo_host demo_data (OwnerUser ''ann'') (PrincipalAgent ''bot'') (PrincipalUser ''ann'')
     ''ok'' demo_recipe =
     Ok (demo_surface_patch ''a2ui:s1:data'' ''A2UI data model update'' [SetRecipeMetadata ''a2ui/data:title'' (Text ''null'')])"
proof -
  have "reject_authority_label ''title'' = Ok ()" by code_simp
  then show ?thesis
    by (simp add: import_update_data_model_def demo_data_def same_target_def demo_ids
        bounded_value_at_def max_a2ui_data_bytes_def max_recipe_metadata_def demo_surface_patch_valid)
qed

definition demo_surface_calls :: "store_call list" where
  "demo_surface_calls = [CallInsert demo_recipe, CallApply (demo_update_patch V1_0)]"

lemma demo_update_logged:
  "Some (demo_update_patch V1_0) \<in> snd ` set (store_log (run_calls demo_host store_new demo_surface_calls) ''home'')"
proof -
  let ?p = "demo_update_patch V1_0"
  let ?s = "fst (store_insert demo_host store_new demo_recipe)"
  have s: "?s = run_calls demo_host store_new [CallInsert demo_recipe]"
    by (simp add: run_calls_def demo_insert)
  note fields = patch_new_Ok [OF import_components_Ok [OF demo_update_import]]
  have root: "um_root (demo_update v) = demo_root" for v by (simp add: demo_update_def)
  have "finish_revision demo_host (demo_recipe\<lparr>rcp_root := demo_root\<rparr>) 1 demo_digest = Ok (demo_child demo_recipe)"
    using demo_child_valid [of demo_recipe 1]
    by (simp add: metadata_bytes_def usize_sum_def demo_recipe_def)
  then obtain s' r vc where a: "apply_patch demo_host ?s ?p = (s', Ok (Applied r vc))"
    unfolding apply_patch_Applied_iff demo_insert
    by (auto simp: fields build_candidate_def sole_restore_def bt_get_def root demo_root_valid max_nodes_def)
  have "store_log s' = (store_log ?s)(''home'' := store_log ?s ''home'' @ [(r, Some ?p)])"
    using store_log_represents [OF apply_represents(4) [OF reached_represents a [unfolded s]]]
    by (simp add: fields s)
  then show ?thesis
    using a by (simp add: run_calls_def demo_insert demo_surface_calls_def)
qed

section \<open>Properties\<close>

text \<open>C38. An imported data-model update carries no authority: no member name in its data, at any depth, normalizes
  to an authority label, and the patch only sets metadata entries under \<open>a2ui/data:\<close>, one per entry, on the
  revision of the recipe it was made for, under the owner that was given.\<close>

theorem data_import_carries_no_authority:
  assumes "import_update_data_model H m owner_ref actor reviewer receipt base = Ok p"
  shows "\<exists>es. dm_data m = CObject es \<and> (\<forall>k \<in> json_keys (dm_data m). authority_free k) \<and>
    patch_validate p = Ok () \<and> pat_owner_ref p = owner_ref \<and> pat_recipe_id p = rcp_recipe_id base \<and>
    pat_base_revision p = rcp_revision base \<and> length (pat_operations p) = length es \<and>
    (\<forall>x \<in> set (pat_operations p). \<exists>k v c. (k, v) \<in> set es \<and>
       x = SetRecipeMetadata (''a2ui/data:'' @ k) (Text c))"
proof -
  obtain es ops where d: "dm_data m = CObject es" "reject_authority_value (dm_data m) = Ok ()"
    "data_operations H es = Ok ops"
    "patch_new owner_ref actor reviewer receipt (''a2ui:'' @ dm_surface_id m @ '':data'') (rcp_recipe_id base)
       (rcp_revision base) (rcp_digest base) ''A2UI data model update'' ops = Ok p"
    using assms by (auto simp: import_update_data_model_def result_simps split: if_splits canonical_json.splits)
  show ?thesis
    using d(1) patch_new_Ok [OF d(4)] data_operations_Ok [OF d(3)] d(2) [unfolded reject_values_Ok_iff(1)]
    by (intro exI [of _ es]) fastforce
qed

theorem data_import_carries_no_authority_witness:
  "\<exists>es. dm_data demo_data = CObject es \<and> authority_free ''title'' \<and> length es = 1"
  using data_import_carries_no_authority [OF demo_data_import] by (auto simp: demo_data_def demo_surface_patch_def)

text \<open>A projection says that it is lossy exactly when some node's kind is outside the catalog, some property of a
  node did not reach it, or a button has no textual action.\<close>

theorem export_declares_loss:
  "case export_projection r surface_id v C of
     Err e \<Rightarrow> C = {} \<or> surface_id = [] \<or> length surface_id > 256
   | Ok e \<Rightarrow> (ep_lossy e \<longleftrightarrow> \<not> fully_projected C (rcp_root r)) \<and> (ep_lossy e \<longleftrightarrow> ep_degraded_nodes e > 0)"
  using project_node_counts(1) [of C "rcp_root r" 0]
  by (auto simp: export_projection_def counts_def usize_max_def split: prod.split sum.split)

text \<open>States, identities and accessibility never reach a projection and are never declared as loss: the result is
  that of the bare tree.\<close>

theorem export_hides_state:
  "export_projection r surface_id v C = export_projection (r\<lparr>rcp_root := bare_node (rcp_root r)\<rparr>) surface_id v C"
  by (simp add: export_projection_def project_bare)

text \<open>Component updates of one surface share one patch id, so once one of them is in a history no later one is
  ever applied, to that or to any other recipe, whatever it contains.\<close>

theorem surface_updates_once:
  assumes "import_update_components H1 m1 o1 a1 v1 rc1 base1 = Ok p1"
    and "import_update_components H2 m2 o2 a2 v2 rc2 base2 = Ok p2"
    and "um_surface_id m1 = um_surface_id m2"
    and "Some p1 \<in> snd ` set (store_log (run_calls H store_new cs) i)"
  shows "\<exists>res. apply_patch H (run_calls H store_new cs) p2 = (run_calls H store_new cs, res) \<and>
    (\<forall>r vc. res \<noteq> Ok (Applied r vc))"
proof (rule logged_id_not_applied)
  show "p1 \<in> logged (store_log (run_calls H store_new cs))" using assms(4) by (auto simp: logged_def)
  show "pat_patch_id p2 = pat_patch_id p1"
    using patch_new_Ok(4) [OF import_components_Ok [OF assms(1)]] patch_new_Ok(4) [OF import_components_Ok [OF assms(2)]]
      assms(3) by simp
qed

theorem surface_updates_once_witness:
  "\<exists>res. apply_patch demo_host (run_calls demo_host store_new demo_surface_calls) (demo_update_patch V0_9) =
     (run_calls demo_host store_new demo_surface_calls, res) \<and> (\<forall>r vc. res \<noteq> Ok (Applied r vc))"
  by (rule surface_updates_once [OF demo_update_import demo_update_import _ demo_update_logged]) (simp add: demo_update_def)

end
