(* ===== verification/Unicode.thy ===== *)
theory Unicode
  imports Prelude
begin

text \<open>
  Rust strings are UTF-8; in this development a \<open>string\<close> is the byte sequence, so that \<open>len\<close> is
  \<open>length\<close>. This theory holds the operations that see characters: \<open>chars\<close> splits a string into its
  encoded scalar values, each kept as its bytes, and \<open>trim\<close> removes Unicode white space.
\<close>

definition is_continuation :: "char \<Rightarrow> bool" where
  "is_continuation c \<longleftrightarrow> (let n = (of_char c :: nat) in 0x80 \<le> n \<and> n \<le> 0xBF)"

function chars :: "string \<Rightarrow> string list" where
  "chars [] = []"
| "chars (c # cs) = (c # takeWhile is_continuation cs) # chars (dropWhile is_continuation cs)"
  by pat_completeness auto
termination
  by (relation "measure length") (simp_all add: le_imp_less_Suc length_dropWhile_le)

lemma concat_chars: "concat (chars s) = s"
  by (induction s rule: chars.induct) (simp_all)

lemma chars_inject: "chars s = chars t \<longleftrightarrow> s = t"
  by (metis concat_chars)

lemma chars_ascii: "list_all (\<lambda>c. \<not> is_continuation c) s \<Longrightarrow> chars s = map (\<lambda>c. [c]) s"
proof (induction s)
  case Nil
  then show ?case by simp
next
  case (Cons c s)
  then have "takeWhile is_continuation s = [] \<and> dropWhile is_continuation s = s" by (cases s) auto
  with Cons show ?case by simp
qed

text \<open>The bytes of the characters with the \<open>White_Space\<close> property.\<close>

definition is_whitespace :: "string \<Rightarrow> bool" where
  "is_whitespace c \<longleftrightarrow> (let ns = map (of_char :: char \<Rightarrow> nat) c in
     ns \<in> {[9], [10], [11], [12], [13], [32], [0xC2, 0x85], [0xC2, 0xA0], [0xE1, 0x9A, 0x80],
       [0xE2, 0x80, 0xA8], [0xE2, 0x80, 0xA9], [0xE2, 0x80, 0xAF], [0xE2, 0x81, 0x9F], [0xE3, 0x80, 0x80]} \<or>
     (case ns of [a, b, d] \<Rightarrow> a = 0xE2 \<and> b = 0x80 \<and> 0x80 \<le> d \<and> d \<le> 0x8A | _ \<Rightarrow> False))"

definition trim :: "string \<Rightarrow> string" where
  "trim s = concat (rev (dropWhile is_whitespace (rev (dropWhile is_whitespace (chars s)))))"

text \<open>The words between runs of white space.\<close>

fun words_of :: "string \<Rightarrow> string list \<Rightarrow> string list" where
  "words_of w [] = (if w = [] then [] else [w])"
| "words_of w (c # cs) =
     (if is_whitespace c then (if w = [] then words_of [] cs else w # words_of [] cs)
      else words_of (w @ c) cs)"

definition split_whitespace :: "string \<Rightarrow> string list" where
  "split_whitespace s = words_of [] (chars s)"

text \<open>\<open>std::str::from_utf8\<close>: the well-formed byte sequences.\<close>

definition byte_in :: "nat \<Rightarrow> nat \<Rightarrow> nat \<Rightarrow> bool" where
  "byte_in lo hi b \<longleftrightarrow> lo \<le> b \<and> b \<le> hi"

definition utf8_two :: "nat \<Rightarrow> nat \<Rightarrow> bool" where
  "utf8_two a b \<longleftrightarrow> byte_in 0xC2 0xDF a \<and> byte_in 0x80 0xBF b"

definition utf8_three :: "nat \<Rightarrow> nat \<Rightarrow> nat \<Rightarrow> bool" where
  "utf8_three a b c \<longleftrightarrow> byte_in 0x80 0xBF c \<and>
     (a = 0xE0 \<and> byte_in 0xA0 0xBF b \<or> a = 0xED \<and> byte_in 0x80 0x9F b \<or>
      (byte_in 0xE1 0xEC a \<or> byte_in 0xEE 0xEF a) \<and> byte_in 0x80 0xBF b)"

definition utf8_four :: "nat \<Rightarrow> nat \<Rightarrow> nat \<Rightarrow> nat \<Rightarrow> bool" where
  "utf8_four a b c d \<longleftrightarrow> byte_in 0x80 0xBF c \<and> byte_in 0x80 0xBF d \<and>
     (a = 0xF0 \<and> byte_in 0x90 0xBF b \<or> byte_in 0xF1 0xF3 a \<and> byte_in 0x80 0xBF b \<or>
      a = 0xF4 \<and> byte_in 0x80 0x8F b)"

fun utf8_bytes :: "nat list \<Rightarrow> bool" where
  "utf8_bytes [] \<longleftrightarrow> True"
| "utf8_bytes [a] \<longleftrightarrow> a < 0x80"
| "utf8_bytes [a, b] \<longleftrightarrow> a < 0x80 \<and> utf8_bytes [b] \<or> utf8_two a b"
| "utf8_bytes [a, b, c] \<longleftrightarrow> a < 0x80 \<and> utf8_bytes [b, c] \<or> utf8_two a b \<and> utf8_bytes [c] \<or> utf8_three a b c"
| "utf8_bytes (a # b # c # d # xs) \<longleftrightarrow>
     a < 0x80 \<and> utf8_bytes (b # c # d # xs) \<or> utf8_two a b \<and> utf8_bytes (c # d # xs) \<or>
     utf8_three a b c \<and> utf8_bytes (d # xs) \<or> utf8_four a b c d \<and> utf8_bytes xs"

definition utf8_valid :: "string \<Rightarrow> bool" where
  "utf8_valid s \<longleftrightarrow> utf8_bytes (map of_char s)"

lemma utf8_ascii: "list_all (\<lambda>n. n < 0x80) ns \<Longrightarrow> utf8_bytes ns"
  by (induction ns rule: utf8_bytes.induct) auto

text \<open>Visible ASCII text, which has no white space and encodes itself.\<close>

definition visible_ascii :: "char \<Rightarrow> bool" where
  "visible_ascii c \<longleftrightarrow> (let n = (of_char c :: nat) in 32 < n \<and> n < 127)"

lemma visible_ascii_facts:
  assumes "list_all visible_ascii s"
  shows "chars s = map (\<lambda>c. [c]) s" and "list_all (\<lambda>c. \<not> is_whitespace c) (chars s)"
proof -
  have "\<not> is_continuation c" if "visible_ascii c" for c
    using that by (auto simp: visible_ascii_def is_continuation_def Let_def)
  then show c: "chars s = map (\<lambda>c. [c]) s"
    using assms by (intro chars_ascii) (auto simp: list_all_iff)
  have "\<not> is_whitespace [c]" if "visible_ascii c" for c
    using that by (auto simp: visible_ascii_def is_whitespace_def Let_def)
  then show "list_all (\<lambda>c. \<not> is_whitespace c) (chars s)"
    using assms by (auto simp: c list_all_iff)
qed

lemma trim_visible_ends:
  assumes "chars s = c # cs" and "\<not> is_whitespace c" and "\<not> is_whitespace (last (c # cs))"
  shows "trim s = s"
proof -
  have "dropWhile is_whitespace (chars s) = chars s" using assms(1,2) by simp
  moreover have "dropWhile is_whitespace (rev (chars s)) = rev (chars s)"
    using assms(1,3) hd_rev [of "c # cs"] by (cases "rev (c # cs)") simp_all
  ultimately show ?thesis by (simp add: trim_def concat_chars)
qed

end
