(* ===== verification/Policy.thy ===== *)
theory Policy
  imports Unicode Canonical
begin

text \<open>
  \<open>crates/aos-mcp-broker/src/policy.rs\<close>: the decision point for tool calls. Rules are tried in order;
  a rule fires when its tool glob and all its argument matchers hold; the default is to allow.
  \<open>serde_json\<close>'s JSON pointer lookup and number formatting, and the environment, are parameters
  (\<open>json_lib\<close>, \<open>env_result\<close>).
\<close>

section \<open>Rules\<close>

definition max_rules :: nat where "max_rules = 256"
definition max_pattern_len :: nat where "max_pattern_len = 512"
definition max_pointer_len :: nat where "max_pointer_len = 256"

datatype effect = EffectDeny | EffectAllow

datatype match_op = OpEq | OpPrefix | OpContains | OpGlob

record arg_matcher =
  am_pointer :: string
  am_op :: match_op
  am_value :: string

record rule =
  rl_id :: string
  rl_effect :: effect
  rl_tool :: string
  rl_when :: "arg_matcher list"

datatype decision = Allow | Deny string

record json_lib =
  jl_pointer :: "canonical_json \<Rightarrow> string \<Rightarrow> canonical_json option"
  jl_number :: "json_number \<Rightarrow> string"

section \<open>Glob matching\<close>

text \<open>The loop of \<open>glob_match\<close>: \<open>None\<close> is the early \<open>return false\<close>, \<open>Some p\<close> the pattern index when the
  text is used up.\<close>

function glob_loop :: "string list \<Rightarrow> string list \<Rightarrow> nat \<Rightarrow> nat \<Rightarrow> nat option \<Rightarrow> nat \<Rightarrow> nat option" where
  "glob_loop pat tx p t star resume =
     (if t < length tx then
        if p < length pat \<and> (pat ! p = ''?'' \<or> pat ! p = tx ! t)
        then glob_loop pat tx (p + 1) (t + 1) star resume
        else if p < length pat \<and> pat ! p = ''*''
        then glob_loop pat tx (p + 1) t (Some p) t
        else case star of
          Some sp \<Rightarrow> glob_loop pat tx (sp + 1) (resume + 1) star (resume + 1)
        | None \<Rightarrow> None
      else Some p)"
  by pat_completeness auto
termination
  by (relation "measures [\<lambda>(pat, tx, p, t, star, resume). if resume > t then 1 else 0,
      \<lambda>(pat, tx, p, t, star, resume). length tx - resume,
      \<lambda>(pat, tx, p, t, star, resume). length pat - p]") auto

declare glob_loop.simps [simp del]

definition glob_match :: "string \<Rightarrow> string \<Rightarrow> bool" where
  "glob_match pattern text =
     (case glob_loop (chars pattern) (chars text) 0 0 None 0 of
        None \<Rightarrow> False
      | Some p \<Rightarrow> dropWhile (\<lambda>c. c = ''*'') (drop p (chars pattern)) = [])"

section \<open>Evaluation\<close>

definition scalar_text :: "json_lib \<Rightarrow> canonical_json \<Rightarrow> string option" where
  "scalar_text J target = (case target of
     CString s \<Rightarrow> Some s
   | CNumber n \<Rightarrow> Some (jl_number J n)
   | CBool b \<Rightarrow> Some (if b then ''true'' else ''false'')
   | _ \<Rightarrow> None)"

definition matcher_holds :: "json_lib \<Rightarrow> arg_matcher \<Rightarrow> canonical_json \<Rightarrow> bool" where
  "matcher_holds J m arguments =
     (case jl_pointer J arguments (am_pointer m) of
        None \<Rightarrow> False
      | Some target \<Rightarrow>
         (case scalar_text J target of
            None \<Rightarrow> False
          | Some text \<Rightarrow>
             (case am_op m of
                OpEq \<Rightarrow> text = am_value m
              | OpPrefix \<Rightarrow> prefix (am_value m) text
              | OpContains \<Rightarrow> contains_str text (am_value m)
              | OpGlob \<Rightarrow> glob_match (am_value m) text)))"

fun evaluate :: "json_lib \<Rightarrow> rule list \<Rightarrow> string \<Rightarrow> canonical_json \<Rightarrow> decision" where
  "evaluate J [] tool_name arguments = Allow"
| "evaluate J (r # rs) tool_name arguments =
     (if \<not> glob_match (rl_tool r) tool_name then evaluate J rs tool_name arguments
      else if list_all (\<lambda>m. matcher_holds J m arguments) (rl_when r)
        then (case rl_effect r of EffectDeny \<Rightarrow> Deny (rl_id r) | EffectAllow \<Rightarrow> Allow)
      else evaluate J rs tool_name arguments)"

section \<open>Loading\<close>

definition matcher_validate :: "arg_matcher \<Rightarrow> string + unit" where
  "matcher_validate m =
     (if am_pointer m = [] \<or> length (am_pointer m) > max_pointer_len then Err ''bad_pointer''
      else if \<not> prefix ''/'' (am_pointer m) then Err ''bad_pointer''
      else if length (am_value m) > max_pattern_len then Err ''oversize_matcher_value''
      else Ok ())"

definition rule_validate :: "rule \<Rightarrow> string + unit" where
  "rule_validate r =
     (if rl_id r = [] \<or> length (rl_id r) > max_pattern_len then Err ''bad_rule_id''
      else if rl_tool r = [] \<or> length (rl_tool r) > max_pattern_len then Err ''bad_tool_glob''
      else check_all matcher_validate (rl_when r))"

definition rules_validate :: "rule list \<Rightarrow> string + unit" where
  "rules_validate rs =
     (if length rs > max_rules then Err ''too_many_rules'' else check_all rule_validate rs)"

datatype env_result = EnvError | EnvUnset | EnvSet string

text \<open>The second component is the audit record that a failed load publishes.\<close>

definition load_rules :: "(string \<Rightarrow> rule list option) \<Rightarrow> env_result \<Rightarrow> rule list \<times> string option" where
  "load_rules parse env = (case env of
     EnvError \<Rightarrow> ([], Some ''env_read_error'')
   | EnvUnset \<Rightarrow> ([], None)
   | EnvSet raw \<Rightarrow>
       if trim raw = [] then ([], None)
       else (case parse raw of
         None \<Rightarrow> ([], Some ''parse_error'')
       | Some parsed \<Rightarrow>
           (case rules_validate parsed of
              Err reason \<Rightarrow> ([], Some reason)
            | Ok _ \<Rightarrow> (parsed, None))))"

section \<open>What a glob means\<close>

text \<open>\<open>*\<close> stands for any run of characters, \<open>?\<close> for any one character.\<close>

fun glob_spec :: "string list \<Rightarrow> string list \<Rightarrow> bool" where
  "glob_spec [] ts \<longleftrightarrow> ts = []"
| "glob_spec (c # ps) ts \<longleftrightarrow>
     (if c = ''*'' then (\<exists>k \<le> length ts. glob_spec ps (drop k ts))
      else (case ts of [] \<Rightarrow> False | t # ts' \<Rightarrow> (c = ''?'' \<or> c = t) \<and> glob_spec ps ts'))"

lemma glob_spec_Nil: "glob_spec ps [] \<longleftrightarrow> dropWhile (\<lambda>c. c = ''*'') ps = []"
  by (induction ps) auto

definition char_ok :: "string \<Rightarrow> string \<Rightarrow> bool" where
  "char_ok c t \<longleftrightarrow> c \<noteq> ''*'' \<and> (c = ''?'' \<or> c = t)"

lemma glob_spec_segment:
  "list_all (\<lambda>c. c \<noteq> ''*'') seg \<Longrightarrow> glob_spec (seg @ ps) ts \<longleftrightarrow>
     length seg \<le> length ts \<and> list_all2 char_ok seg (take (length seg) ts) \<and>
     glob_spec ps (drop (length seg) ts)"
proof (induction seg arbitrary: ts)
  case Nil
  then show ?case by simp
next
  case (Cons c seg)
  then show ?case by (cases ts) (auto simp: char_ok_def)
qed

section \<open>The loop meets the specification\<close>

definition accepts :: "string list \<Rightarrow> nat option \<Rightarrow> bool" where
  "accepts pat res = (case res of None \<Rightarrow> False | Some p \<Rightarrow> dropWhile (\<lambda>c. c = ''*'') (drop p pat) = [])"

text \<open>Where the loop is: what is still to be decided, and, after a star, the segment of the pattern that is
  tentatively matched from \<open>resume\<close> on.\<close>

definition glob_goal :: "string list \<Rightarrow> string list \<Rightarrow> nat \<Rightarrow> nat \<Rightarrow> nat option \<Rightarrow> nat \<Rightarrow> bool" where
  "glob_goal pat tx p t star resume = (case star of
     None \<Rightarrow> glob_spec (drop p pat) (drop t tx)
   | Some sp \<Rightarrow> (\<exists>k. resume \<le> k \<and> k \<le> length tx \<and> glob_spec (drop (sp + 1) pat) (drop k tx)))"

definition glob_inv :: "string list \<Rightarrow> string list \<Rightarrow> nat \<Rightarrow> nat \<Rightarrow> nat option \<Rightarrow> nat \<Rightarrow> bool" where
  "glob_inv pat tx p t star resume \<longleftrightarrow> t \<le> length tx \<and> (case star of
     None \<Rightarrow> True
   | Some sp \<Rightarrow> (\<exists>seg. drop (sp + 1) pat = seg @ drop p pat \<and> resume + length seg = t \<and>
       list_all2 char_ok seg (take (length seg) (drop resume tx))))"

lemma segment_no_star: "list_all2 char_ok seg ts \<Longrightarrow> list_all (\<lambda>c. c \<noteq> ''*'') seg"
  by (induction rule: list_all2_induct) (auto simp: char_ok_def)

lemma glob_goal_segment:
  assumes "drop (sp + 1) pat = seg @ ps" and "resume + length seg = t" and "t \<le> length tx"
    and "list_all2 char_ok seg (take (length seg) (drop resume tx))"
  shows "glob_spec (drop (sp + 1) pat) (drop resume tx) \<longleftrightarrow> glob_spec ps (drop t tx)"
proof -
  have "length seg \<le> length (drop resume tx)" using assms(2,3) by simp
  then show ?thesis
    using assms glob_spec_segment [OF segment_no_star [OF assms(4)], of ps "drop resume tx"]
    by (simp add: add.commute)
qed

lemma goal_end:
  assumes "glob_inv pat tx p (length tx) star resume"
  shows "glob_goal pat tx p (length tx) star resume \<longleftrightarrow> accepts pat (Some p)"
proof (cases star)
  case None
  then show ?thesis by (simp add: glob_goal_def accepts_def glob_spec_Nil)
next
  case (Some sp)
  with assms obtain seg where seg: "drop (sp + 1) pat = seg @ drop p pat"
    "resume + length seg = length tx" "list_all2 char_ok seg (take (length seg) (drop resume tx))"
    by (auto simp: glob_inv_def)
  have "k = resume" if k: "resume \<le> k" "k \<le> length tx" and g: "glob_spec (drop (sp + 1) pat) (drop k tx)" for k
  proof -
    have "length seg \<le> length (drop k tx)"
      using g glob_spec_segment [OF segment_no_star [OF seg(3)], of "drop p pat" "drop k tx"] seg(1) by simp
    with k seg(2) show ?thesis by simp
  qed
  moreover have "glob_spec (drop (sp + 1) pat) (drop resume tx) \<longleftrightarrow> accepts pat (Some p)"
    using glob_goal_segment [OF seg(1,2) _ seg(3)] by (simp add: accepts_def glob_spec_Nil)
  ultimately show ?thesis
    using seg(2) by (auto simp: glob_goal_def Some intro!: exI [of _ resume])
qed

lemma goal_mismatch:
  assumes "glob_inv pat tx p t (Some sp) resume" and "t < length tx"
    and "\<not> glob_spec (drop p pat) (drop t tx)"
  shows "glob_goal pat tx p t (Some sp) resume \<longleftrightarrow>
    glob_goal pat tx (sp + 1) (resume + 1) (Some sp) (resume + 1)"
proof -
  from assms(1) obtain seg where seg: "drop (sp + 1) pat = seg @ drop p pat"
    "resume + length seg = t" "list_all2 char_ok seg (take (length seg) (drop resume tx))"
    by (auto simp: glob_inv_def)
  have "\<not> glob_spec (drop (sp + 1) pat) (drop resume tx)"
    using glob_goal_segment [OF seg(1,2) _ seg(3)] assms(2,3) by simp
  then have "resume \<le> k \<and> glob_spec (drop (sp + 1) pat) (drop k tx) \<longleftrightarrow>
      resume + 1 \<le> k \<and> glob_spec (drop (sp + 1) pat) (drop k tx)" for k
    using le_eq_less_or_eq by auto
  then show ?thesis by (auto simp: glob_goal_def)
qed

lemma goal_star:
  assumes inv: "glob_inv pat tx p t star resume" and "t < length tx" and "p < length pat" and "pat ! p = ''*''"
  shows "glob_goal pat tx p t star resume \<longleftrightarrow> glob_goal pat tx (p + 1) t (Some p) t"
proof -
  have drop: "drop p pat = ''*'' # drop (p + 1) pat" using Cons_nth_drop_Suc [OF assms(3)] assms(4) by simp
  have here: "glob_spec (drop p pat) (drop t tx) \<longleftrightarrow> glob_goal pat tx (p + 1) t (Some p) t"
  proof -
    have "(\<exists>j \<le> length tx - t. glob_spec ps (drop (t + j) tx)) \<longleftrightarrow>
        (\<exists>k. t \<le> k \<and> k \<le> length tx \<and> glob_spec ps (drop k tx))" for ps
    proof
      assume "\<exists>j \<le> length tx - t. glob_spec ps (drop (t + j) tx)"
      then obtain j where "j \<le> length tx - t" "glob_spec ps (drop (t + j) tx)" by blast
      then show "\<exists>k. t \<le> k \<and> k \<le> length tx \<and> glob_spec ps (drop k tx)"
        using assms(2) by (intro exI [of _ "t + j"]) simp
    next
      assume "\<exists>k. t \<le> k \<and> k \<le> length tx \<and> glob_spec ps (drop k tx)"
      then obtain k where "t \<le> k" "k \<le> length tx" "glob_spec ps (drop k tx)" by blast
      then show "\<exists>j \<le> length tx - t. glob_spec ps (drop (t + j) tx)"
        by (intro exI [of _ "k - t"]) simp
    qed
    then show ?thesis by (simp add: drop glob_goal_def add.commute)
  qed
  show ?thesis
  proof (cases star)
    case None
    then show ?thesis using here by (simp add: glob_goal_def)
  next
    case (Some sp)
    with inv obtain seg where seg: "drop (sp + 1) pat = seg @ drop p pat"
      "resume + length seg = t" "list_all2 char_ok seg (take (length seg) (drop resume tx))"
      by (auto simp: glob_inv_def)
    note split = glob_spec_segment [OF segment_no_star [OF seg(3)], of "drop p pat"]
    have "glob_goal pat tx p t star resume \<longleftrightarrow> glob_spec (drop p pat) (drop t tx)"
    proof
      assume "glob_goal pat tx p t star resume"
      then obtain k where k: "resume \<le> k" "k \<le> length tx" "glob_spec (drop (sp + 1) pat) (drop k tx)"
        by (auto simp: glob_goal_def Some)
      then have "glob_spec (seg @ drop p pat) (drop k tx)" unfolding seg(1) by blast
      with split [of "drop k tx"] have g: "glob_spec (drop p pat) (drop (k + length seg) tx)"
        and len: "length seg \<le> length tx - k"
        by (simp_all add: add.commute)
      then obtain j where j: "j \<le> length tx - (k + length seg)"
        "glob_spec (drop (p + 1) pat) (drop (k + length seg + j) tx)"
        by (auto simp: drop add.commute add.left_commute)
      have "t \<le> k + length seg + j" "k + length seg + j \<le> length tx" using k seg(2) len j(1) by simp_all
      with j(2) show "glob_spec (drop p pat) (drop t tx)"
        unfolding here glob_goal_def option.case by blast
    next
      assume "glob_spec (drop p pat) (drop t tx)"
      then have "glob_spec (drop (sp + 1) pat) (drop resume tx)"
        using glob_goal_segment [OF seg(1,2) _ seg(3)] assms(2) by simp
      with seg(2) assms(2) show "glob_goal pat tx p t star resume"
        by (auto simp: glob_goal_def Some intro!: exI [of _ resume])
    qed
    with here show ?thesis by simp
  qed
qed

lemma inv_match:
  assumes "glob_inv pat tx p t star resume" and "t < length tx" and "p < length pat"
    and "char_ok (pat ! p) (tx ! t)"
  shows "glob_inv pat tx (p + 1) (t + 1) star resume"
proof (cases star)
  case None
  with assms show ?thesis by (simp add: glob_inv_def)
next
  case (Some sp)
  with assms obtain seg where seg: "drop (sp + 1) pat = seg @ drop p pat"
    "resume + length seg = t" "list_all2 char_ok seg (take (length seg) (drop resume tx))"
    by (auto simp: glob_inv_def)
  have "drop (sp + 1) pat = (seg @ [pat ! p]) @ drop (p + 1) pat"
    using seg(1) assms(3) by (simp add: Cons_nth_drop_Suc)
  moreover have "take (length (seg @ [pat ! p])) (drop resume tx) =
      take (length seg) (drop resume tx) @ [tx ! t]"
    using seg(2) assms(2) by (simp add: take_Suc_conv_app_nth)
  then have "list_all2 char_ok (seg @ [pat ! p]) (take (length (seg @ [pat ! p])) (drop resume tx))"
    using seg(3) assms(4) by (simp only:) (simp add: list_all2_appendI)
  moreover have "resume + length (seg @ [pat ! p]) = t + 1" using seg(2) by simp
  ultimately have "\<exists>s. drop (sp + 1) pat = s @ drop (p + 1) pat \<and> resume + length s = t + 1 \<and>
      list_all2 char_ok s (take (length s) (drop resume tx))" by blast
  then show ?thesis using assms(2) by (simp add: glob_inv_def Some)
qed

lemma drop_step: "p < length pat \<Longrightarrow> drop p pat = pat ! p # drop (p + 1) pat"
  by (simp add: Cons_nth_drop_Suc)

lemma glob_loop_complete:
  "''*'' \<notin> set tx \<Longrightarrow> glob_inv pat tx p t st resume \<Longrightarrow>
     accepts pat (glob_loop pat tx p t st resume) \<longleftrightarrow> glob_goal pat tx p t st resume"
proof (induction pat tx p t st resume rule: glob_loop.induct)
  case (1 pat tx p t st resume)
  show ?case
  proof (cases "t < length tx")
    case False
    with "1.prems"(2) have "t = length tx" by (simp add: glob_inv_def)
    with goal_end [of pat tx p st resume] "1.prems"(2) show ?thesis
      by (subst glob_loop.simps) simp
  next
    case t: True
    consider (matched) "p < length pat" "pat ! p = ''?'' \<or> pat ! p = tx ! t"
      | (star) "p < length pat" "pat ! p = ''*''" "\<not> (pat ! p = ''?'' \<or> pat ! p = tx ! t)"
      | (other) "p < length pat \<longrightarrow> pat ! p \<noteq> ''*'' \<and> \<not> (pat ! p = ''?'' \<or> pat ! p = tx ! t)"
      by blast
    then show ?thesis
    proof cases
      case matched
      have "tx ! t \<noteq> ''*''" using "1.prems"(1) t by (metis nth_mem)
      with matched have ok: "char_ok (pat ! p) (tx ! t)" by (auto simp: char_ok_def)
      have "glob_goal pat tx p t st resume \<longleftrightarrow> glob_goal pat tx (p + 1) (t + 1) st resume"
        using ok drop_step [OF matched(1)] drop_step [OF t]
        by (auto simp: glob_goal_def char_ok_def split: option.splits)
      moreover have "glob_loop pat tx p t st resume = glob_loop pat tx (p + 1) (t + 1) st resume"
        using matched t by (subst glob_loop.simps) simp
      ultimately show ?thesis
        using "1.IH"(1) [OF t _ "1.prems"(1) inv_match [OF "1.prems"(2) t matched(1) ok]] matched by simp
    next
      case star
      have "glob_inv pat tx (p + 1) t (Some p) t" using t by (simp add: glob_inv_def)
      moreover have "glob_loop pat tx p t st resume = glob_loop pat tx (p + 1) t (Some p) t"
        using star t by (subst glob_loop.simps) simp
      ultimately show ?thesis
        using "1.IH"(2) [OF t _ _ "1.prems"(1)] goal_star [OF "1.prems"(2) t star(1,2)] star by simp
    next
      case other
      then have no: "\<not> glob_spec (drop p pat) (drop t tx)"
        using drop_step [OF t] drop_step [of p pat] t by (cases "p < length pat") auto
      show ?thesis
      proof (cases "\<exists>sp. st = Some sp")
        case False
        then have "st = None" by simp
        with other t no show ?thesis
          by (subst glob_loop.simps) (auto simp: accepts_def glob_goal_def)
      next
        case True
        then obtain sp where sp: "st = Some sp" by blast
        with "1.prems"(2) have inv: "glob_inv pat tx (sp + 1) (resume + 1) (Some sp) (resume + 1)"
          using t by (auto simp: glob_inv_def intro!: exI [of _ "[]"])
        have "glob_loop pat tx p t st resume = glob_loop pat tx (sp + 1) (resume + 1) st (resume + 1)"
          using other t sp by (subst glob_loop.simps) auto
        moreover have "accepts pat (glob_loop pat tx (sp + 1) (resume + 1) st (resume + 1)) \<longleftrightarrow>
            glob_goal pat tx (sp + 1) (resume + 1) st (resume + 1)"
          by (rule "1.IH"(3) [OF t _ _ sp "1.prems"(1)]) (use other inv sp in auto)
        ultimately show ?thesis
          using goal_mismatch [OF "1.prems"(2) [unfolded sp] t no] by (simp add: sp)
      qed
    qed
  qed
qed

lemma glob_loop_sound:
  assumes "accepts pat (glob_loop pat tx p t st resume)" and "resume \<le> t" and "t \<le> length tx"
    and "glob_spec (drop p pat) (drop t tx) \<Longrightarrow> M"
    and "\<And>sp k. st = Some sp \<Longrightarrow> resume \<le> k \<Longrightarrow> k \<le> length tx \<Longrightarrow>
      glob_spec (drop (sp + 1) pat) (drop k tx) \<Longrightarrow> M"
  shows M
  using assms
proof (induction pat tx p t st resume rule: glob_loop.induct)
  case (1 pat tx p t st resume)
  show ?case
  proof (cases "t < length tx")
    case False
    with "1.prems" show ?thesis
      by (subst (asm) glob_loop.simps) (simp add: accepts_def glob_spec_Nil)
  next
    case t: True
    consider (matched) "p < length pat" "pat ! p = ''?'' \<or> pat ! p = tx ! t"
      | (star) "p < length pat" "pat ! p = ''*''" "\<not> (pat ! p = ''?'' \<or> pat ! p = tx ! t)"
      | (other) "p < length pat \<longrightarrow> pat ! p \<noteq> ''*'' \<and> \<not> (pat ! p = ''?'' \<or> pat ! p = tx ! t)"
      by blast
    then show ?thesis
    proof cases
      case matched
      have eq: "glob_loop pat tx p t st resume = glob_loop pat tx (p + 1) (t + 1) st resume"
        using matched t by (subst glob_loop.simps) simp
      have "glob_spec (drop p pat) (drop t tx)" if "glob_spec (drop (p + 1) pat) (drop (t + 1) tx)"
        using that matched drop_step [OF matched(1)] drop_step [OF t]
        by (auto intro!: exI [of _ 1])
      note lift = this
      show ?thesis
      proof (rule "1.IH"(1) [OF t])
        show "glob_spec (drop (p + 1) pat) (drop (t + 1) tx) \<Longrightarrow> M"
          using "1.prems"(4) lift by blast
        show "st = Some sp \<Longrightarrow> resume \<le> k \<Longrightarrow> k \<le> length tx \<Longrightarrow>
            glob_spec (drop (sp + 1) pat) (drop k tx) \<Longrightarrow> M" for sp k
          using "1.prems"(5) by blast
      qed (use "1.prems"(1,2,3) eq matched t in simp_all)
    next
      case star
      have eq: "glob_loop pat tx p t st resume = glob_loop pat tx (p + 1) t (Some p) t"
        using star t by (subst glob_loop.simps) simp
      have "glob_spec (drop p pat) (drop t tx)"
        if "glob_spec (drop (p + 1) pat) (drop k tx)" "t \<le> k" "k \<le> length tx" for k
        using that star(2) drop_step [OF star(1)] by (auto intro!: exI [of _ "k - t"])
      note lift = this
      show ?thesis
      proof (rule "1.IH"(2) [OF t])
        show "glob_spec (drop (p + 1) pat) (drop t tx) \<Longrightarrow> M"
          using "1.prems"(3,4) lift by blast
        show "Some p = Some sp \<Longrightarrow> t \<le> k \<Longrightarrow> k \<le> length tx \<Longrightarrow>
            glob_spec (drop (sp + 1) pat) (drop k tx) \<Longrightarrow> M" for sp k
          using "1.prems"(4) lift [of k] by simp
      qed (use "1.prems"(1,2,3) eq star t in simp_all)
    next
      case other
      then obtain sp where sp: "st = Some sp"
        using "1.prems"(1) t by (subst (asm) glob_loop.simps) (cases st; auto simp: accepts_def)
      have eq: "glob_loop pat tx p t st resume = glob_loop pat tx (sp + 1) (resume + 1) st (resume + 1)"
        using other t sp by (subst glob_loop.simps) auto
      show ?thesis
      proof (rule "1.IH"(3) [OF t _ _ sp])
        show "glob_spec (drop (sp + 1) pat) (drop (resume + 1) tx) \<Longrightarrow> M"
          using "1.prems"(5) [OF sp, of "resume + 1"] "1.prems"(2) t by simp
        show "st = Some sp' \<Longrightarrow> resume + 1 \<le> k \<Longrightarrow> k \<le> length tx \<Longrightarrow>
            glob_spec (drop (sp' + 1) pat) (drop k tx) \<Longrightarrow> M" for sp' k
          using "1.prems"(5) [of sp' k] by simp
      qed (use "1.prems"(1,2,3) eq other t sp in auto)
    qed
  qed
qed

lemma glob_match_accepts:
  "glob_match pattern text \<longleftrightarrow> accepts (chars pattern) (glob_loop (chars pattern) (chars text) 0 0 None 0)"
  by (simp add: glob_match_def accepts_def)

section \<open>The rule that decides\<close>

definition fires :: "json_lib \<Rightarrow> rule \<Rightarrow> string \<Rightarrow> canonical_json \<Rightarrow> bool" where
  "fires J r tool arguments \<longleftrightarrow> glob_match (rl_tool r) tool \<and>
     (\<forall>m \<in> set (rl_when r). matcher_holds J m arguments)"

definition verdict :: "rule \<Rightarrow> decision" where
  "verdict r = (case rl_effect r of EffectDeny \<Rightarrow> Deny (rl_id r) | EffectAllow \<Rightarrow> Allow)"

lemma evaluate_find:
  "evaluate J rs tool arguments =
     (case find (\<lambda>r. fires J r tool arguments) rs of None \<Rightarrow> Allow | Some r \<Rightarrow> verdict r)"
  by (induction rs) (auto simp: fires_def verdict_def list_all_iff)

definition rules_ok :: "rule list \<Rightarrow> bool" where
  "rules_ok rs \<longleftrightarrow> length rs \<le> 256 \<and> (\<forall>r \<in> set rs. rl_id r \<noteq> [] \<and> length (rl_id r) \<le> 512 \<and>
     rl_tool r \<noteq> [] \<and> length (rl_tool r) \<le> 512 \<and>
     (\<forall>m \<in> set (rl_when r). prefix ''/'' (am_pointer m) \<and> length (am_pointer m) \<le> 256 \<and>
        length (am_value m) \<le> 512))"

lemma matcher_validate_Ok_iff:
  "matcher_validate m = Ok () \<longleftrightarrow> prefix ''/'' (am_pointer m) \<and> length (am_pointer m) \<le> 256 \<and>
     length (am_value m) \<le> 512"
  by (auto simp: matcher_validate_def max_pattern_len_def max_pointer_len_def)

lemma rule_validate_Ok_iff:
  "rule_validate r = Ok () \<longleftrightarrow> rl_id r \<noteq> [] \<and> length (rl_id r) \<le> 512 \<and>
     rl_tool r \<noteq> [] \<and> length (rl_tool r) \<le> 512 \<and> (\<forall>m \<in> set (rl_when r). matcher_validate m = Ok ())"
  by (auto simp: rule_validate_def result_simps max_pattern_len_def)

lemma rules_validate_Ok_iff: "rules_validate rs = Ok () \<longleftrightarrow> rules_ok rs"
  by (auto simp: rules_validate_def rules_ok_def result_simps rule_validate_Ok_iff matcher_validate_Ok_iff
      max_rules_def)

definition demo_json :: json_lib where
  "demo_json = \<lparr>jl_pointer = (\<lambda>v p. if p = ''/command'' then Some v else None), jl_number = (\<lambda>_. ''0'')\<rparr>"

definition demo_rule :: rule where
  "demo_rule = \<lparr>rl_id = ''no-rm'', rl_effect = EffectDeny, rl_tool = ''*'',
     rl_when = [\<lparr>am_pointer = ''/command'', am_op = OpGlob, am_value = ''rm *''\<rparr>]\<rparr>"

section \<open>Properties\<close>

text \<open>First match wins: a call is denied exactly when some rule fires, has effect deny, and no rule before it
  fires; the reason is that rule's id. In particular a call that no rule matches is allowed.\<close>

lemma evaluate_first_match:
  "evaluate J rs tool arguments = Deny reason \<longleftrightarrow>
     (\<exists>i < length rs. fires J (rs ! i) tool arguments \<and> rl_effect (rs ! i) = EffectDeny \<and>
        rl_id (rs ! i) = reason \<and> \<not> (\<exists>j < i. fires J (rs ! j) tool arguments))"
proof -
  have verdict: "verdict r = Deny reason \<longleftrightarrow> rl_effect r = EffectDeny \<and> rl_id r = reason" for r
    by (cases "rl_effect r") (simp_all add: verdict_def)
  show ?thesis
  proof (cases "find (\<lambda>r. fires J r tool arguments) rs")
    case None
    then have "\<not> fires J (rs ! i) tool arguments" if "i < length rs" for i
      using that by (simp add: find_None_iff)
    then show ?thesis by (auto simp: evaluate_find None)
  next
    case (Some r)
    then obtain i where i: "i < length rs" "fires J (rs ! i) tool arguments" "r = rs ! i"
      "\<forall>j < i. \<not> fires J (rs ! j) tool arguments"
      by (auto simp: find_Some_iff)
    then have "i' = i" if "i' < length rs" "fires J (rs ! i') tool arguments"
      "\<not> (\<exists>j < i'. fires J (rs ! j) tool arguments)" for i'
      using that by (metis linorder_neqE_nat)
    moreover have "evaluate J rs tool arguments = Deny reason \<longleftrightarrow>
        rl_effect (rs ! i) = EffectDeny \<and> rl_id (rs ! i) = reason"
      by (simp add: evaluate_find Some verdict i(3))
    ultimately show ?thesis using i(1,2,4) by metis
  qed
qed

text \<open>\<open>glob_match\<close> never matches more than the wildcard pattern says, for every pattern and text.\<close>

theorem glob_match_sound:
  assumes "glob_match pattern text"
  shows "glob_spec (chars pattern) (chars text)"
proof (rule glob_loop_sound [where p = 0 and t = 0 and st = None and resume = 0])
  show "accepts (chars pattern) (glob_loop (chars pattern) (chars text) 0 0 None 0)"
    using assms by (simp add: glob_match_accepts)
qed simp_all

theorem glob_match_sound_witness: "glob_spec (chars ''fs_*'') (chars ''fs_read'')"
proof (rule glob_match_sound)
  show "glob_match ''fs_*'' ''fs_read''" by code_simp
qed

text \<open>On texts without a star character \<open>glob_match\<close> decides exactly the wildcard pattern.\<close>

theorem glob_match_exact:
  assumes "CHR ''*'' \<notin> set s"
  shows "glob_match pattern s \<longleftrightarrow> glob_spec (chars pattern) (chars s)"
proof -
  have "set s = \<Union> (set ` set (chars s))" using concat_chars [of s] by (metis set_concat)
  with assms have "''*'' \<notin> set (chars s)" by auto
  from glob_loop_complete [OF this, of "chars pattern" 0 0 None 0]
  show ?thesis by (simp add: glob_match_accepts glob_inv_def glob_goal_def)
qed

theorem glob_match_exact_witness: "\<not> glob_spec (chars ''fs_?'') (chars ''fs_read'')"
proof -
  have "\<not> glob_match ''fs_?'' ''fs_read''" by code_simp
  with glob_match_exact [of "''fs_read''" "''fs_?''"] show ?thesis by simp
qed

text \<open>A literal star in the text defeats a glob: the loop compares characters before it looks for the wildcard,
  so a star in the text uses up the star of the pattern. A deny rule for commands \<open>rm *\<close> fires on
  \<open>rm -r x\<close>, and does not fire on \<open>rm *.log\<close>, which the pattern covers as well.\<close>

theorem glob_star_evasion:
  "evaluate demo_json [demo_rule] ''shell'' (CString ''rm -r x'') = Deny ''no-rm'' \<and>
   evaluate demo_json [demo_rule] ''shell'' (CString ''rm *.log'') = Allow \<and>
   glob_spec (chars ''rm *'') (chars ''rm *.log'')"
proof (intro conjI)
  show "evaluate demo_json [demo_rule] ''shell'' (CString ''rm -r x'') = Deny ''no-rm''" by code_simp
  show "evaluate demo_json [demo_rule] ''shell'' (CString ''rm *.log'') = Allow" by code_simp
  show "glob_spec (chars ''rm *'') (chars ''rm *.log'')"
    by (simp add: is_continuation_def) (intro exI [of _ 5], simp)
qed

text \<open>Rules that are in force are within the caps, whatever the environment and the parser returned; a load that
  fails leaves no rules in force and always reports why.\<close>

theorem loaded_rules_bounded:
  "case load_rules parse env of (rs, audit) \<Rightarrow>
     rules_ok rs \<and> (rs = [] \<or> audit = None) \<and>
     (audit = None \<longleftrightarrow> (case env of EnvError \<Rightarrow> False | EnvUnset \<Rightarrow> True
        | EnvSet raw \<Rightarrow> trim raw = [] \<or> (\<exists>rs'. parse raw = Some rs' \<and> rules_ok rs')))"
proof -
  have "rules_ok []" by (simp add: rules_ok_def)
  then show ?thesis
    by (auto simp: load_rules_def rules_validate_Ok_iff [symmetric] split: env_result.splits option.splits sum.splits)
qed

end
