(* ===== verification/Key_Value.thy ===== *)
theory Key_Value
  imports Ordered_Map
begin

text \<open>
  The key-value service that capsules keep their records in, as \<open>capsules/capsule-users/src/store.rs\<close> sees it through
  its \<open>Backend\<close> trait: an ordered map from keys to bytes whose every call may fail. The failures are a list
  of outcomes, consumed one per call; the empty list is a service that no longer fails. Operations of a
  store are functions from the service's state to a result and the new state (\<open>'a op\<close>), composed by
  \<open>op_bind\<close>, which is \<open>?\<close>. An operation that panics has the failure \<open>Panics\<close>.
\<close>

section \<open>Stores that can delete\<close>

locale deletable_store = keyed_store empty lookup insert_at entries wf
  for empty :: "'m"
    and lookup :: "'m \<Rightarrow> 'k \<Rightarrow> 'v option"
    and insert_at :: "'k \<Rightarrow> 'v \<Rightarrow> 'm \<Rightarrow> 'm"
    and entries :: "'m \<Rightarrow> ('k \<times> 'v) list"
    and wf :: "'m \<Rightarrow> bool" +
  fixes delete_at :: "'k \<Rightarrow> 'm \<Rightarrow> 'm"
  assumes wf_delete: "wf m \<Longrightarrow> wf (delete_at k m)"
    and lookup_delete: "wf m \<Longrightarrow> lookup (delete_at k m) k' = (if k' = k then None else lookup m k')"
begin

definition delete_all :: "'k list \<Rightarrow> 'm \<Rightarrow> 'm" where
  "delete_all ks m = fold delete_at ks m"

lemma wf_delete_all: "wf m \<Longrightarrow> wf (delete_all ks m)"
  by (induction ks arbitrary: m) (simp_all add: delete_all_def wf_delete)

lemma lookup_delete_all:
  "wf m \<Longrightarrow> lookup (delete_all ks m) k = (if k \<in> set ks then None else lookup m k)"
proof (induction ks arbitrary: m)
  case (Cons j ks)
  then have "lookup (delete_all ks (delete_at j m)) k = (if k \<in> set ks then None else lookup (delete_at j m) k)"
    by (simp add: wf_delete)
  then show ?case using Cons.prems by (simp add: delete_all_def lookup_delete)
qed (simp add: delete_all_def)

end

definition bt_delete :: "'k \<Rightarrow> ('k, 'v) btree_map \<Rightarrow> ('k, 'v) btree_map" where
  "bt_delete k m = filter (\<lambda>(k', _). k' \<noteq> k) m"

lemma bt_wf_delete: "bt_wf m \<Longrightarrow> bt_wf (bt_delete k m)"
  by (auto simp: bt_wf_def bt_delete_def sorted_wrt_map intro: sorted_wrt_filter)

lemma bt_get_delete: "bt_get (bt_delete k m) k' = (if k' = k then None else bt_get m k')"
  by (induction m) (auto simp: bt_get_def bt_delete_def)

interpretation btd: deletable_store "[]" bt_get bt_insert "\<lambda>m. m" bt_wf bt_delete
  by unfold_locales (simp_all add: bt_wf_delete bt_get_delete)

section \<open>Operations that may fail\<close>

record kv =
  kv_map :: "(string, string) btree_map"
  kv_faults :: "string option list"

datatype 'e failure = Fails 'e | Panics

type_synonym ('e, 'a) kv_op = "kv \<Rightarrow> ('e failure + 'a) \<times> kv"

definition op_return :: "'a \<Rightarrow> ('e, 'a) kv_op" where
  "op_return x = (\<lambda>s. (Ok x, s))"

definition op_fail :: "'e \<Rightarrow> ('e, 'a) kv_op" where
  "op_fail e = (\<lambda>s. (Err (Fails e), s))"

definition op_panic :: "('e, 'a) kv_op" where
  "op_panic = (\<lambda>s. (Err Panics, s))"

definition op_lift :: "'e + 'a \<Rightarrow> ('e, 'a) kv_op" where
  "op_lift r = (\<lambda>s. (map_err Fails r, s))"

definition op_bind :: "('e, 'a) kv_op \<Rightarrow> ('a \<Rightarrow> ('e, 'b) kv_op) \<Rightarrow> ('e, 'b) kv_op" where
  "op_bind m f = (\<lambda>s. case m s of (Err e, s') \<Rightarrow> (Err e, s') | (Ok x, s') \<Rightarrow> f x s')"

fun op_each :: "('a \<Rightarrow> ('e, 'b) kv_op) \<Rightarrow> 'a list \<Rightarrow> ('e, 'b list) kv_op" where
  "op_each f [] = op_return []"
| "op_each f (x # xs) = op_bind (f x) (\<lambda>y. op_bind (op_each f xs) (\<lambda>ys. op_return (y # ys)))"

text \<open>One call of the service: \<open>wrap\<close> makes the store's error of the service's message.\<close>

definition kv_call :: "(string \<Rightarrow> 'e) \<Rightarrow> (kv \<Rightarrow> 'a \<times> kv) \<Rightarrow> ('e, 'a) kv_op" where
  "kv_call wrap f = (\<lambda>s.
     case kv_faults s of
       [] \<Rightarrow> (case f s of (x, s') \<Rightarrow> (Ok x, s'))
     | fault # faults \<Rightarrow>
         let s0 = s\<lparr>kv_faults := faults\<rparr> in
         (case fault of Some msg \<Rightarrow> (Err (Fails (wrap msg)), s0)
          | None \<Rightarrow> (case f s0 of (x, s') \<Rightarrow> (Ok x, s'))))"

definition kv_get :: "(string \<Rightarrow> 'e) \<Rightarrow> string \<Rightarrow> ('e, string option) kv_op" where
  "kv_get wrap key = kv_call wrap (\<lambda>s.
     (case bt_get (kv_map s) key of None \<Rightarrow> None | Some bytes \<Rightarrow> if bytes = [] then None else Some bytes, s))"

definition kv_set :: "(string \<Rightarrow> 'e) \<Rightarrow> string \<Rightarrow> string \<Rightarrow> ('e, unit) kv_op" where
  "kv_set wrap key v = kv_call wrap (\<lambda>s. ((), s\<lparr>kv_map := bt_insert key v (kv_map s)\<rparr>))"

definition kv_delete :: "(string \<Rightarrow> 'e) \<Rightarrow> string \<Rightarrow> ('e, unit) kv_op" where
  "kv_delete wrap key = kv_call wrap (\<lambda>s. ((), s\<lparr>kv_map := bt_delete key (kv_map s)\<rparr>))"

definition kv_list_keys :: "(string \<Rightarrow> 'e) \<Rightarrow> string \<Rightarrow> ('e, string list) kv_op" where
  "kv_list_keys wrap p = kv_call wrap (\<lambda>s. (filter (prefix p) (bt_keys (kv_map s)), s))"

section \<open>Codecs\<close>

text \<open>The code that \<open>serde\<close> derives for a record: a parameter of the components that store records.\<close>

record 'a json_codec =
  jc_encode :: "'a \<Rightarrow> string + string"
  jc_decode :: "string \<Rightarrow> string + 'a"

definition json_codec_ok :: "'a json_codec \<Rightarrow> bool" where
  "json_codec_ok J \<longleftrightarrow> (\<forall>x b. jc_encode J x = Ok b \<longrightarrow> b \<noteq> [] \<and> jc_decode J b = Ok x)"

section \<open>Facts\<close>

named_theorems op_simps \<open>running operations on a service that does not fail\<close>

lemma op_basic [op_simps]:
  "op_return x s = (Ok x, s)" "op_fail e s = (Err (Fails e), s)" "op_panic s = (Err Panics, s)"
  "op_lift (Ok x) s = (Ok x, s)" "op_lift (Err e) s = (Err (Fails e), s)"
  by (simp_all add: op_return_def op_fail_def op_panic_def op_lift_def)

lemma op_bind_run [op_simps]:
  "m s = (Ok x, s') \<Longrightarrow> op_bind m f s = f x s'"
  "m s = (Err e, s') \<Longrightarrow> op_bind m f s = (Err e, s')"
  by (simp_all add: op_bind_def)

lemma op_bind_Ok_iff:
  "op_bind m f s = (Ok y, t) \<longleftrightarrow> (\<exists>x s'. m s = (Ok x, s') \<and> f x s' = (Ok y, t))"
  by (auto simp: op_bind_def split: prod.splits sum.splits)

lemma op_bind_Err_iff:
  "op_bind m f s = (Err e, t) \<longleftrightarrow> m s = (Err e, t) \<or> (\<exists>x s'. m s = (Ok x, s') \<and> f x s' = (Err e, t))"
  by (auto simp: op_bind_def split: prod.splits sum.splits)

lemma op_Ok_iff:
  "op_return x s = (Ok y, t) \<longleftrightarrow> y = x \<and> t = s"
  "op_fail e s = (Ok y, t) \<longleftrightarrow> False"
  "op_panic s = (Ok y, t) \<longleftrightarrow> False"
  "op_lift r s = (Ok y, t) \<longleftrightarrow> r = Ok y \<and> t = s"
  by (auto simp: op_return_def op_fail_def op_panic_def op_lift_def result_simps)

text \<open>A reachable service state that has no failures left.\<close>

definition healthy :: "kv \<Rightarrow> bool" where
  "healthy s \<longleftrightarrow> kv_faults s = [] \<and> bt_wf (kv_map s)"

definition kv_value :: "kv \<Rightarrow> string \<Rightarrow> string option" where
  "kv_value s key = (case bt_get (kv_map s) key of None \<Rightarrow> None | Some bytes \<Rightarrow> if bytes = [] then None else Some bytes)"

lemma kv_get_run [op_simps]: "healthy s \<Longrightarrow> kv_get w key s = (Ok (kv_value s key), s)"
  by (simp add: kv_get_def kv_call_def healthy_def kv_value_def)

lemma kv_set_run [op_simps]:
  "healthy s \<Longrightarrow> kv_set w key v s = (Ok (), s\<lparr>kv_map := bt_insert key v (kv_map s)\<rparr>)"
  by (simp add: kv_set_def kv_call_def healthy_def)

lemma kv_delete_run [op_simps]:
  "healthy s \<Longrightarrow> kv_delete w key s = (Ok (), s\<lparr>kv_map := bt_delete key (kv_map s)\<rparr>)"
  by (simp add: kv_delete_def kv_call_def healthy_def)

lemma kv_list_run [op_simps]:
  "healthy s \<Longrightarrow> kv_list_keys w p s = (Ok (filter (prefix p) (bt_keys (kv_map s))), s)"
  by (simp add: kv_list_keys_def kv_call_def healthy_def)

lemma healthy_update [simp]:
  "healthy s \<Longrightarrow> healthy (s\<lparr>kv_map := bt_insert key v (kv_map s)\<rparr>)"
  "healthy s \<Longrightarrow> healthy (s\<lparr>kv_map := bt_delete key (kv_map s)\<rparr>)"
  by (simp_all add: healthy_def bt_wf_delete)

lemma kv_value_insert [simp]:
  "kv_value (s\<lparr>kv_map := bt_insert key v (kv_map s)\<rparr>) key' =
     (if key' = key then if v = [] then None else Some v else kv_value s key')"
  by (simp add: kv_value_def)

lemma kv_value_delete [simp]:
  "kv_value (s\<lparr>kv_map := bt_delete key (kv_map s)\<rparr>) key' = (if key' = key then None else kv_value s key')"
  by (simp add: kv_value_def bt_get_delete)

text \<open>Deleting a list of keys.\<close>

definition kv_without :: "string list \<Rightarrow> kv \<Rightarrow> kv" where
  "kv_without keys s = s\<lparr>kv_map := btd.delete_all keys (kv_map s)\<rparr>"

lemma healthy_without [simp]: "healthy s \<Longrightarrow> healthy (kv_without keys s)"
  by (simp add: healthy_def kv_without_def btd.wf_delete_all)

lemma kv_value_without:
  "healthy s \<Longrightarrow> kv_value (kv_without keys s) key = (if key \<in> set keys then None else kv_value s key)"
  by (simp add: kv_value_def kv_without_def healthy_def btd.lookup_delete_all)

lemma delete_each_run:
  "healthy s \<Longrightarrow> op_each (kv_delete w) keys s = (Ok (replicate (length keys) ()), kv_without keys s)"
proof (induction keys arbitrary: s)
  case Nil
  then show ?case by (simp add: op_simps kv_without_def btd.delete_all_def)
next
  case (Cons key keys)
  from Cons.IH [OF healthy_update(2) [OF Cons.prems]] Cons.prems show ?case
    by (simp add: op_simps kv_without_def btd.delete_all_def)
qed

end
