(* ===== verification/Host_World.thy ===== *)
theory Host_World
  imports Canonical Unicode "HOL-Library.State_Monad"
begin

text \<open>
  What the capsules that talk to a host share: reading and building JSON values, operations as state monads
  over the capsule's world with \<open>?\<close> as \<open>attempt\<close>, and the laws of operations that keep a predicate of the world.
\<close>

definition quote :: string where "quote = [CHR 0x27]"
definition line_feed :: string where "line_feed = [CHR 0x0A]"

section \<open>Numbers in text\<close>

fun digits_value :: "nat \<Rightarrow> string \<Rightarrow> nat option" where
  "digits_value n [] = Some n"
| "digits_value n (c # cs) = (if is_ascii_digit c then digits_value (10 * n + (of_char c - 48)) cs else None)"

section \<open>JSON values\<close>

definition json_get :: "canonical_json \<Rightarrow> string \<Rightarrow> canonical_json option" where
  "json_get v k = (case v of CObject m \<Rightarrow> bt_get m k | _ \<Rightarrow> None)"

definition json_str :: "canonical_json \<Rightarrow> string option" where
  "json_str v = (case v of CString s \<Rightarrow> Some s | _ \<Rightarrow> None)"

definition json_bool :: "canonical_json \<Rightarrow> bool option" where
  "json_bool v = (case v of CBool b \<Rightarrow> Some b | _ \<Rightarrow> None)"

definition json_array :: "canonical_json \<Rightarrow> canonical_json list option" where
  "json_array v = (case v of CArray xs \<Rightarrow> Some xs | _ \<Rightarrow> None)"

definition json_u64 :: "canonical_json \<Rightarrow> u64 option" where
  "json_u64 v = (case v of CNumber (PosInt n) \<Rightarrow> Some n | _ \<Rightarrow> None)"

definition json_obj :: "(string \<times> canonical_json) list \<Rightarrow> canonical_json" where
  "json_obj kvs = CObject (fold (\<lambda>(k, v). bt_insert k v) kvs [])"

lemma json_get_obj: "json_get (json_obj kvs) k = map_of (rev kvs) k"
proof -
  have "bt_get (fold (\<lambda>(k, v). bt_insert k v) kvs m) k = (case map_of (rev kvs) k of Some v \<Rightarrow> Some v | None \<Rightarrow> bt_get m k)" for m
    by (induction kvs arbitrary: m) (auto simp: map_add_def split: option.splits)
  then show ?thesis by (simp add: json_get_def json_obj_def split: option.split)
qed

section \<open>Operations\<close>

abbreviation ret :: "'a \<Rightarrow> ('w, 'a) state" where "ret \<equiv> State_Monad.return"

text \<open>\<open>?\<close>: go on with the value, or return the error.\<close>

definition attempt :: "('w, 'e + 'a) state \<Rightarrow> ('a \<Rightarrow> ('w, 'e + 'b) state) \<Rightarrow> ('w, 'e + 'b) state" where
  "attempt m f = State_Monad.bind m (\<lambda>r. case r of Err e \<Rightarrow> ret (Err e) | Ok x \<Rightarrow> f x)"

text \<open>Running a state monad.\<close>

lemma run_bind: "run_state (State_Monad.bind m f) w = (case run_state m w of (x, w') \<Rightarrow> run_state (f x) w')"
  by (simp add: State_Monad.bind_def split: prod.splits)

lemma run_attempt:
  "run_state (attempt m f) w = (case run_state m w of (Err e, w') \<Rightarrow> (Err e, w') | (Ok x, w') \<Rightarrow> run_state (f x) w')"
  by (auto simp: attempt_def run_bind split: prod.splits sum.splits)

section \<open>Operations that keep a predicate of the world\<close>

named_theorems stays \<open>operations that keep a predicate\<close>

definition keeps_world :: "('w \<Rightarrow> bool) \<Rightarrow> ('w, 'a) state \<Rightarrow> bool" where
  "keeps_world I m \<longleftrightarrow> (\<forall>w. I w \<longrightarrow> I (snd (run_state m w)))"

lemma keeps_worldD: "keeps_world I m \<Longrightarrow> I w \<Longrightarrow> I (snd (run_state m w))"
  by (simp add: keeps_world_def)

lemma keeps_ret [stays]: "keeps_world I (State_Monad.return x)"
  by (simp add: keeps_world_def)

lemma keeps_get [stays]: "keeps_world I State_Monad.get"
  by (simp add: keeps_world_def)

lemma keeps_world_bind [stays]:
  assumes "keeps_world I m" and "\<And>x. keeps_world I (f x)"
  shows "keeps_world I (State_Monad.bind m f)"
  using assms by (auto simp: keeps_world_def split: prod.splits)

lemma keeps_update: "(\<And>w. I w \<Longrightarrow> I (f w)) \<Longrightarrow> keeps_world I (State_Monad.update f)"
  by (simp add: keeps_world_def State_Monad.update_def)

lemma keeps_world_if [stays]:
  "(b \<Longrightarrow> keeps_world I m) \<Longrightarrow> (\<not> b \<Longrightarrow> keeps_world I n) \<Longrightarrow> keeps_world I (if b then m else n)"
  by simp

lemma keeps_world_option [stays]:
  "(x = None \<Longrightarrow> keeps_world I m) \<Longrightarrow> (\<And>y. x = Some y \<Longrightarrow> keeps_world I (f y)) \<Longrightarrow>
     keeps_world I (case x of None \<Rightarrow> m | Some y \<Rightarrow> f y)"
  by (cases x) simp_all

lemma keeps_world_sum [stays]:
  "(\<And>y. x = Err y \<Longrightarrow> keeps_world I (f y)) \<Longrightarrow> (\<And>y. x = Ok y \<Longrightarrow> keeps_world I (g y)) \<Longrightarrow>
     keeps_world I (case x of Err y \<Rightarrow> f y | Ok y \<Rightarrow> g y)"
  by (cases x) simp_all

lemma keeps_world_prod [stays]: "(\<And>a b. keeps_world I (f a b)) \<Longrightarrow> keeps_world I (case p of (a, b) \<Rightarrow> f a b)"
  by (cases p) simp

section \<open>Predicates with results\<close>

definition yields :: "('w \<Rightarrow> bool) \<Rightarrow> ('w, 'a) state \<Rightarrow> ('a \<Rightarrow> bool) \<Rightarrow> bool" where
  "yields I m R \<longleftrightarrow> (\<forall>w. I w \<longrightarrow> R (fst (run_state m w)) \<and> I (snd (run_state m w)))"

lemma yields_keeps: "yields I m R \<Longrightarrow> keeps_world I m"
  by (simp add: yields_def keeps_world_def)

lemma keeps_yields: "keeps_world I m \<Longrightarrow> yields I m (\<lambda>_. True)"
  by (simp add: yields_def keeps_world_def)

lemma yields_ret: "R x \<Longrightarrow> yields I (ret x) R"
  by (simp add: yields_def)

lemma yields_bind:
  assumes "yields I m R" and "\<And>x. R x \<Longrightarrow> yields I (f x) S"
  shows "yields I (State_Monad.bind m f) S"
  unfolding yields_def
proof (intro allI impI)
  fix w assume "I w"
  obtain x w' where r: "run_state m w = (x, w')" by (cases "run_state m w")
  with assms(1) \<open>I w\<close> have "R x" "I w'" by (auto simp: yields_def)
  with assms(2)[of x] show "S (fst (run_state (m \<bind> f) w)) \<and> I (snd (run_state (m \<bind> f) w))"
    by (simp add: r yields_def)
qed

lemma yields_get: "yields I State_Monad.get I"
  by (simp add: yields_def)

lemma keeps_bind_yields:
  assumes "yields I m R" and "\<And>x. R x \<Longrightarrow> keeps_world I (f x)"
  shows "keeps_world I (State_Monad.bind m f)"
  by (rule yields_keeps, rule yields_bind[OF assms(1)]) (rule keeps_yields, rule assms(2))

lemma yields_weaken: "yields I m R \<Longrightarrow> (\<And>x. R x \<Longrightarrow> S x) \<Longrightarrow> yields I m S"
  by (auto simp: yields_def)

lemma keeps_attempt [stays]:
  "keeps_world I m \<Longrightarrow> (\<And>x. keeps_world I (f x)) \<Longrightarrow> keeps_world I (attempt m f)"
  unfolding attempt_def by (intro stays)

lemma yields_attempt:
  assumes "yields I m (\<lambda>r. \<forall>x. r = Ok x \<longrightarrow> R x)" and "\<And>x. R x \<Longrightarrow> yields I (f x) S" and "\<And>e. S (Err e)"
  shows "yields I (attempt m f) S"
  unfolding attempt_def
proof (rule yields_bind [OF assms(1)])
  fix r :: "'b + 'c" assume "\<forall>x. r = Ok x \<longrightarrow> R x"
  then show "yields I (case r of Err e \<Rightarrow> ret (Err e) | Ok x \<Rightarrow> f x) S"
    using assms(2,3) by (cases r) (auto intro: yields_ret)
qed

section \<open>Operations that lead from one predicate to another\<close>

definition turns :: "('w \<Rightarrow> bool) \<Rightarrow> ('w, 'a) state \<Rightarrow> ('w \<Rightarrow> bool) \<Rightarrow> bool" where
  "turns I m J \<longleftrightarrow> (\<forall>w. I w \<longrightarrow> J (snd (run_state m w)))"

lemma turns_after: "yields I m R \<Longrightarrow> (\<And>x. R x \<Longrightarrow> turns I (f x) J) \<Longrightarrow> turns I (State_Monad.bind m f) J"
  by (fastforce simp: turns_def yields_def split: prod.splits)

lemma turns_after_keeps: "keeps_world I m \<Longrightarrow> (\<And>x. turns I (f x) J) \<Longrightarrow> turns I (State_Monad.bind m f) J"
  by (rule turns_after[OF keeps_yields])

lemma turns_before: "turns I m J \<Longrightarrow> (\<And>x. keeps_world J (f x)) \<Longrightarrow> turns I (State_Monad.bind m f) J"
  by (fastforce simp: turns_def keeps_world_def split: prod.splits)

lemma turns_if: "(b \<Longrightarrow> turns I m J) \<Longrightarrow> (\<not> b \<Longrightarrow> turns I n J) \<Longrightarrow> turns I (if b then m else n) J"
  by simp

lemma turns_option: "(x = None \<Longrightarrow> turns I m J) \<Longrightarrow> (\<And>y. x = Some y \<Longrightarrow> turns I (f y) J) \<Longrightarrow>
    turns I (case x of None \<Rightarrow> m | Some y \<Rightarrow> f y) J"
  by (cases x) simp_all

lemma turns_sum: "(\<And>y. x = Err y \<Longrightarrow> turns I (f y) J) \<Longrightarrow> (\<And>y. x = Ok y \<Longrightarrow> turns I (g y) J) \<Longrightarrow>
    turns I (case x of Err y \<Rightarrow> f y | Ok y \<Rightarrow> g y) J"
  by (cases x) simp_all

end
