(* ===== verification/Broker_World.thy ===== *)
theory Broker_World
  imports Policy Key_Value Host_World
begin

text \<open>
  What the MCP broker (\<open>crates/aos-mcp-broker\<close>) sees of its host, for one principal: the key-value store that
  the kernel scopes to that principal, the messages it has put on the bus, and the inputs of the current
  invocation (\<open>broker_inputs\<close>): the caller the kernel stamped, successive readings of the clock, which calls
  of the host fail, and what polls of its subscriptions yield. Handlers are state monads over this world.
  Readings of the clock that only reach a log line are not modelled, as log lines are not.
  Code that \<open>serde\<close> derives, the JSON printer and parser and the \<open>uuid\<close> library are fields of \<open>broker_host\<close>.
\<close>

section \<open>The world\<close>

record caller_context =
  cc_source_id :: string
  cc_principal :: "string option"

record bus_message =
  bm_topic :: string
  bm_payload :: string
  bm_source_id :: string
  bm_verified :: "string option"

record broker_inputs =
  in_caller :: "caller_context option"
  in_clock :: "u64 list"
  in_kv_faults :: "bool list"
  in_bus_faults :: "bool list"
  in_subscribe_faults :: "bool list"
  in_delivery_id :: string
  in_policy :: env_result
  in_failures :: "bus_message list option list"
  in_signals :: "bus_message list option list"
  in_results :: "bus_message list option list"
  in_describes :: "bus_message list list"

record broker_world =
  bw_kv :: "(string, string) btree_map"
  bw_bus :: "(string \<times> canonical_json) list"
  bw_in :: broker_inputs

type_synonym 'a broker_op = "(broker_world, 'a) state"

text \<open>Consuming the head of a queue of inputs; \<open>d\<close> is what an exhausted queue yields.\<close>

definition next_input :: "(broker_inputs \<Rightarrow> 'a list) \<Rightarrow> (('a list \<Rightarrow> 'a list) \<Rightarrow> broker_inputs \<Rightarrow> broker_inputs) \<Rightarrow>
    'a \<Rightarrow> 'a broker_op" where
  "next_input sel upd d = State (\<lambda>w. case sel (bw_in w) of
     [] \<Rightarrow> (d, w) | x # xs \<Rightarrow> (x, w\<lparr>bw_in := upd (\<lambda>_. xs) (bw_in w)\<rparr>))"

definition wall_ms :: "u64 broker_op" where
  "wall_ms = next_input in_clock in_clock_update 0"

definition caller :: "caller_context option broker_op" where
  "caller = do { w \<leftarrow> State_Monad.get; ret (in_caller (bw_in w)) }"

definition subscribe_fails :: "bool broker_op" where
  "subscribe_fails = next_input in_subscribe_faults in_subscribe_faults_update False"

section \<open>Host calls\<close>

definition kv_fails :: "bool broker_op" where
  "kv_fails = next_input in_kv_faults in_kv_faults_update False"

definition bk_get :: "string \<Rightarrow> (unit + string option) broker_op" where
  "bk_get key = do {
     failed \<leftarrow> kv_fails;
     w \<leftarrow> State_Monad.get;
     ret (if failed then Err () else Ok (bt_get (bw_kv w) key)) }"

definition bk_set :: "string \<Rightarrow> string \<Rightarrow> (unit + unit) broker_op" where
  "bk_set key v = do {
     failed \<leftarrow> kv_fails;
     if failed then ret (Err ())
     else do { State_Monad.update (bw_kv_update (bt_insert key v)); ret (Ok ()) } }"

definition bk_delete :: "string \<Rightarrow> (unit + unit) broker_op" where
  "bk_delete key = do {
     failed \<leftarrow> kv_fails;
     if failed then ret (Err ())
     else do { State_Monad.update (bw_kv_update (bt_delete key)); ret (Ok ()) } }"

definition bk_cas :: "string \<Rightarrow> string option \<Rightarrow> string \<Rightarrow> (unit + bool) broker_op" where
  "bk_cas key expected v = do {
     failed \<leftarrow> kv_fails;
     w \<leftarrow> State_Monad.get;
     if failed then ret (Err ())
     else if bt_get (bw_kv w) key \<noteq> expected then ret (Ok False)
     else do { State_Monad.update (bw_kv_update (bt_insert key v)); ret (Ok True) } }"

definition publish_json :: "string \<Rightarrow> canonical_json \<Rightarrow> (unit + unit) broker_op" where
  "publish_json topic message = do {
     failed \<leftarrow> next_input in_bus_faults in_bus_faults_update False;
     if failed then ret (Err ())
     else do { State_Monad.update (bw_bus_update (\<lambda>bus. bus @ [(topic, message)])); ret (Ok ()) } }"

text \<open>Calls whose result the source only logs.\<close>

definition send :: "string \<Rightarrow> canonical_json \<Rightarrow> unit broker_op" where
  "send topic message = do { _ \<leftarrow> publish_json topic message; ret () }"

definition discard :: "'a broker_op \<Rightarrow> unit broker_op" where
  "discard m = do { _ \<leftarrow> m; ret () }"

section \<open>Topics and text\<close>

definition log_tag :: string where "log_tag = ''aos-mcp''"
definition mcp_tool_prefix :: string where "mcp_tool_prefix = ''mcp__aos__''"
definition tools_list_topic :: string where "tools_list_topic = ''astrid.v1.tools.list''"

definition audit_topic :: "string \<Rightarrow> string" where
  "audit_topic event = ''astrid.v1.audit.'' @ event"

text \<open>One segment of a topic: the charset gate of request ids, approval ids and correlation ids.\<close>

definition clean_segment :: "string \<Rightarrow> bool" where
  "clean_segment i \<longleftrightarrow> i \<noteq> [] \<and> length i \<le> 128 \<and>
     list_all (\<lambda>b. is_ascii_alphanumeric b \<or> b = CHR ''_'' \<or> b = CHR ''-'') i"

definition reply_topic :: "string \<Rightarrow> string option" where
  "reply_topic req_id = (if clean_segment req_id then Some (''astrid.v1.response.'' @ req_id) else None)"

definition mcp_content :: "(canonical_json \<Rightarrow> string option) \<Rightarrow> canonical_json \<Rightarrow> canonical_json" where
  "mcp_content print content =
     (let text = (case content of CString s \<Rightarrow> s
        | _ \<Rightarrow> (case print content of Some s \<Rightarrow> s | None \<Rightarrow> ''<unserializable tool result>''))
      in CArray [json_obj [(''type'', CString ''text''), (''text'', CString text)]])"

lemma clean_segment_visible: "clean_segment i \<Longrightarrow> list_all visible_ascii i \<and> CHR '' '' \<notin> set i"
  by (fastforce simp: clean_segment_def list_all_iff visible_ascii_def is_ascii_alphanumeric_def Let_def)

end
