(* ===== verification/Grant_Decision.thy ===== *)
theory Grant_Decision
  imports Broker_World
begin

text \<open>
  \<open>crates/aos-mcp-broker/src/grant_decision.rs\<close>: the durable decision that a user took for a capsule, the marker
  of an outstanding grant prompt with its time stamp and request id, and the replies of the grant outcomes.
\<close>

section \<open>Decisions\<close>

datatype grant_decision = GrantApprove | GrantDeny

definition as_kv_value :: "grant_decision \<Rightarrow> string" where
  "as_kv_value d = (case d of GrantApprove \<Rightarrow> ''approve'' | GrantDeny \<Rightarrow> ''deny'')"

datatype granted_action = AutoApprove | AutoDeny | Prompt

definition grant_decision_key :: "string \<Rightarrow> string option" where
  "grant_decision_key capsule_id = (if capsule_id = [] then None else Some (''mcp.grant.decision.'' @ capsule_id))"

definition from_utf8 :: "string \<Rightarrow> string option" where
  "from_utf8 bytes = (if utf8_valid bytes then Some bytes else None)"

definition parse_grant_decision :: "string \<Rightarrow> grant_decision option" where
  "parse_grant_decision bytes =
     (let text = (case map_option trim (from_utf8 bytes) of Some t \<Rightarrow> t | None \<Rightarrow> [])
      in if text = ''approve'' then Some GrantApprove else if text = ''deny'' then Some GrantDeny else None)"

section \<open>Pending markers\<close>

definition grant_pending_ttl_ms :: u64 where "grant_pending_ttl_ms = 120000"

definition has_whitespace :: "string \<Rightarrow> bool" where
  "has_whitespace s \<longleftrightarrow> list_ex is_whitespace (chars s)"

definition encode_grant_pending_marker :: "u64 \<Rightarrow> string \<Rightarrow> string option" where
  "encode_grant_pending_marker written request_id =
     (let request_id = trim request_id
      in if request_id = [] \<or> has_whitespace request_id then None
         else Some (show_nat (unat written) @ '' '' @ request_id))"

text \<open>\<open>str::parse::<u64>\<close>.\<close>

definition parse_u64 :: "string \<Rightarrow> u64 option" where
  "parse_u64 s =
     (let ds = (case s of c # cs \<Rightarrow> if c = CHR ''+'' then cs else s | [] \<Rightarrow> [])
      in if ds = [] then None
         else (case digits_value 0 ds of None \<Rightarrow> None | Some n \<Rightarrow> if n < 2 ^ 64 then Some (of_nat n) else None))"

definition parse_grant_pending_marker :: "string \<Rightarrow> (u64 \<times> string) option" where
  "parse_grant_pending_marker bytes =
     (case map_option trim (from_utf8 bytes) of None \<Rightarrow> None | Some text \<Rightarrow>
      case split_once (CHR '' '') text of None \<Rightarrow> None | Some (stamp, request_id) \<Rightarrow>
      if stamp = [] \<or> request_id = [] \<or> has_whitespace request_id then None
      else (case parse_u64 stamp of None \<Rightarrow> None | Some written \<Rightarrow> Some (written, request_id)))"

datatype marker_disposition = Match | Mismatch | Malformed | Stale

definition grant_marker_disposition :: "string \<Rightarrow> string \<Rightarrow> u64 \<Rightarrow> marker_disposition" where
  "grant_marker_disposition bytes request_id now =
     (case parse_grant_pending_marker bytes of None \<Rightarrow> Malformed | Some (written, stored_id) \<Rightarrow>
      if now = 0 \<or> written = 0 \<or> written > now \<or> now - written \<ge> grant_pending_ttl_ms then Stale
      else if stored_id = request_id then Match else Mismatch)"

definition marker_is_fresh_at :: "string \<Rightarrow> u64 \<Rightarrow> bool" where
  "marker_is_fresh_at bytes now =
     (case parse_grant_pending_marker bytes of None \<Rightarrow> False | Some (written, _) \<Rightarrow>
      now \<noteq> 0 \<and> written \<noteq> 0 \<and> written \<le> now \<and> now - written < grant_pending_ttl_ms)"

section \<open>Recording\<close>

definition respond_decision_to_record :: "bool \<Rightarrow> grant_decision option" where
  "respond_decision_to_record granted = (if granted then Some GrantApprove else None)"

definition record_grant_decision :: "string \<Rightarrow> grant_decision \<Rightarrow> unit broker_op" where
  "record_grant_decision capsule_id decision =
     (case grant_decision_key capsule_id of None \<Rightarrow> ret ()
      | Some key \<Rightarrow> discard (bk_set key (as_kv_value decision)))"

definition recorded_grant_decision :: "string \<Rightarrow> grant_decision option broker_op" where
  "recorded_grant_decision capsule_id =
     (case grant_decision_key capsule_id of None \<Rightarrow> ret None
      | Some key \<Rightarrow> do {
          found \<leftarrow> bk_get key;
          ret (case found of Ok (Some bytes) \<Rightarrow> parse_grant_decision bytes | Ok None \<Rightarrow> None | Err _ \<Rightarrow> None) })"

definition grant_action :: "grant_decision option \<Rightarrow> granted_action" where
  "grant_action d = (case d of Some GrantApprove \<Rightarrow> AutoApprove | Some GrantDeny \<Rightarrow> AutoDeny | None \<Rightarrow> Prompt)"

section \<open>Replies\<close>

definition grant_reply :: "string \<Rightarrow> string \<Rightarrow> bool \<Rightarrow> canonical_json" where
  "grant_reply req_id message is_error = json_obj [
     (''kind'', CString ''tool.call''), (''req_id'', CString req_id),
     (''content'', mcp_content (\<lambda>_. None) (CString message)), (''isError'', CBool is_error)]"

definition ttl_hint :: "u64 \<Rightarrow> string" where
  "ttl_hint ttl_ms =
     (let ms_per_minute = 60000 in
      if ttl_ms > 0 \<and> ttl_ms mod ms_per_minute = 0
      then (let minutes = ttl_ms div ms_per_minute in
            if minutes = 1 then ''~1 minute'' else ''~'' @ show_nat (unat minutes) @ '' minutes'')
      else ''~'' @ show_nat ((unat ttl_ms + 999) div 1000) @ '' seconds'')"

definition grant_dedup_reply :: "string \<Rightarrow> canonical_json" where
  "grant_dedup_reply req_id = grant_reply req_id
     (log_tag @ '': a consent prompt for this capsule is open in your client. Answer it and retry; if it never '' @
      ''appeared, retry after '' @ ttl_hint grant_pending_ttl_ms @ '' and it will be re-asked.'') False"

definition grant_auto_approve_reply :: "string \<Rightarrow> string \<Rightarrow> canonical_json" where
  "grant_auto_approve_reply req_id capsule_id = grant_reply req_id
     (log_tag @ '': session access to capsule '' @ quote @ capsule_id @ quote @ '' is already approved for '' @
      ''this identity; the grant has been applied. Retry the tool call.'') False"

definition grant_auto_deny_reply :: "string \<Rightarrow> string \<Rightarrow> string \<Rightarrow> canonical_json" where
  "grant_auto_deny_reply req_id capsule_id pr =
     (let who = (if pr = [] then ''<principal>'' else pr) in grant_reply req_id
     (log_tag @ '': session access to capsule '' @ quote @ capsule_id @ quote @ '' was denied for this '' @
      ''identity. An operator can allow it with: aos --principal default agent modify '' @ who @
      '' --add-capsule '' @ capsule_id @ '' (or later revoke a grant with --remove-capsule).'') True)"

definition grant_unroutable_reply :: "string \<Rightarrow> string \<Rightarrow> canonical_json" where
  "grant_unroutable_reply req_id capsule_id = grant_reply req_id
     (log_tag @ '': could not apply the recorded grant for capsule '' @ quote @ capsule_id @ quote @
      '' (unroutable kernel request id). Re-grant it, or an operator can run: '' @
      ''aos --principal default agent modify <principal> --add-capsule '' @ capsule_id @ ''.'') True"

section \<open>Markers read back\<close>

lemma digits_value_append:
  "digits_value n (s @ t) = (case digits_value n s of None \<Rightarrow> None | Some m \<Rightarrow> digits_value m t)"
  by (induction s arbitrary: n) auto

lemma digit_char_value: "d < 10 \<Longrightarrow> is_ascii_digit (digit_char d) \<and> (of_char (digit_char d) :: nat) = 48 + d"
  by (simp add: is_ascii_digit_def digit_char_def Let_def)

lemma show_nat_digits: "list_all is_ascii_digit (show_nat n)"
proof (induction n rule: show_nat.induct)
  case (1 n)
  then show ?case by (subst show_nat.simps) (simp add: digit_char_value)
qed

lemma digits_value_show: "digits_value 0 (show_nat n) = Some n"
proof (induction n rule: show_nat.induct)
  case (1 n)
  show ?case
  proof (cases "n < 10")
    case True
    then show ?thesis by (subst show_nat.simps) (simp add: digit_char_value)
  next
    case False
    with 1 show ?thesis by (subst show_nat.simps) (simp add: digits_value_append digit_char_value)
  qed
qed

lemma parse_u64_show: "parse_u64 (show_nat (unat (n :: u64))) = Some n"
proof -
  obtain c cs where s: "show_nat (unat n) = c # cs" using show_nat_not_Nil by (cases "show_nat (unat n)") auto
  moreover have "is_ascii_digit c" using show_nat_digits [of "unat n"] s by simp
  then have "c \<noteq> CHR ''+''" by (auto simp: is_ascii_digit_def)
  moreover have "digits_value 0 (c # cs) = Some (unat n)" using digits_value_show [of "unat n"] s by simp
  ultimately show ?thesis using u64_bound [of n] by (simp add: parse_u64_def)
qed

lemma digit_visible: "is_ascii_digit c \<Longrightarrow> visible_ascii c \<and> c \<noteq> CHR '' ''"
  by (auto simp: is_ascii_digit_def visible_ascii_def Let_def)

lemma visible_text:
  assumes "list_all visible_ascii s" and "s \<noteq> []"
  shows "trim s = s" and "\<not> has_whitespace s"
proof -
  note v = visible_ascii_facts [OF assms(1)]
  show "\<not> has_whitespace s" using v(2) by (auto simp: has_whitespace_def list_all_iff list_ex_iff)
  obtain c cs where "chars s = c # cs" using v(1) assms(2) by (cases s) auto
  moreover from this v(2) have "\<not> is_whitespace c" "\<not> is_whitespace (last (c # cs))"
    by (auto simp: list_all_iff)
  ultimately show "trim s = s" by (intro trim_visible_ends)
qed

lemma encode_visible:
  assumes "list_all visible_ascii i" and "i \<noteq> []"
  shows "encode_grant_pending_marker w i = Some (show_nat (unat w) @ '' '' @ i)"
  using visible_text [OF assms] assms(2) by (simp add: encode_grant_pending_marker_def)

lemma parse_encoded:
  assumes "list_all visible_ascii i" and "i \<noteq> []" and "CHR '' '' \<notin> set i"
  shows "parse_grant_pending_marker (show_nat (unat w) @ '' '' @ i) = Some (w, i)"
proof -
  let ?n = "show_nat (unat w)" and ?v = "show_nat (unat w) @ '' '' @ i"
  have n: "list_all visible_ascii ?n" "CHR '' '' \<notin> set ?n" "?n \<noteq> []"
    using show_nat_digits [of "unat w"] digit_visible show_nat_not_Nil by (auto simp: list_all_iff)
  have ascii: "list_all (\<lambda>c. (of_char c :: nat) < 128) ?v"
    using n(1) assms(1) by (auto simp: list_all_iff visible_ascii_def Let_def)
  then have utf8: "utf8_valid ?v"
    unfolding utf8_valid_def by (intro utf8_ascii) (auto simp: list_all_iff)
  have ch: "chars ?v = map (\<lambda>c. [c]) ?v"
  proof (rule chars_ascii)
    have "\<not> is_continuation c" if "(of_char c :: nat) < 128" for c
      using that by (simp add: is_continuation_def Let_def)
    with ascii show "list_all (\<lambda>c. \<not> is_continuation c) ?v" unfolding list_all_iff by blast
  qed
  obtain c cs where c: "?n = c # cs" using n(3) by (cases ?n) auto
  have last: "last ?v = last i" using assms(2) by simp
  have ws: "\<not> is_whitespace [c]" "\<not> is_whitespace [last i]"
    using visible_ascii_facts [OF n(1)] visible_ascii_facts [OF assms(1)] c assms(2) by (auto simp: list_all_iff)
  have "trim ?v = ?v"
  proof (rule trim_visible_ends)
    show "chars ?v = [c] # map (\<lambda>c. [c]) (cs @ '' '' @ i)" using ch c by simp
    have "last ([c] # map (\<lambda>c. [c]) (cs @ '' '' @ i)) = [last i]" using assms(2) by (simp add: last_map)
    then show "\<not> is_whitespace (last ([c] # map (\<lambda>c. [c]) (cs @ '' '' @ i)))" using ws by simp
  qed (rule ws(1))
  moreover have "split_once (CHR '' '') ?v = Some (?n, i)" using n(2) by (simp add: split_once_Some_iff)
  ultimately show ?thesis
    using utf8 n(3) assms(2) visible_text [OF assms(1,2)]
    by (simp add: parse_grant_pending_marker_def from_utf8_def parse_u64_show)
qed

lemma fresh_iff_paired:
  "marker_is_fresh_at v now \<longleftrightarrow> (\<exists>i. grant_marker_disposition v i now = Match)"
  "grant_marker_disposition v i now = Match \<longleftrightarrow>
     marker_is_fresh_at v now \<and> (\<exists>w. parse_grant_pending_marker v = Some (w, i))"
  by (auto simp: marker_is_fresh_at_def grant_marker_disposition_def not_le not_less split: option.splits prod.splits if_splits)

text \<open>A marker reads back: what was written for a routable request id is parsed into that stamp and that id, and
  it pairs with a response exactly when the ids agree and the stamp is no more than the time to live in the past.\<close>

theorem marker_reads_back:
  assumes "clean_segment request_id"
  shows "\<exists>v. encode_grant_pending_marker written request_id = Some v \<and>
    parse_grant_pending_marker v = Some (written, request_id) \<and>
    (grant_marker_disposition v other now = Match \<longleftrightarrow>
       other = request_id \<and> written \<noteq> 0 \<and> unat written \<le> unat now \<and> unat now < unat written + 120000)"
proof -
  have i: "list_all visible_ascii request_id" "request_id \<noteq> []" "CHR '' '' \<notin> set request_id"
    using clean_segment_visible [OF assms] assms by (auto simp: clean_segment_def)
  let ?v = "show_nat (unat written) @ '' '' @ request_id"
  note p = parse_encoded [OF i, of written]
  have age: "now - written < grant_pending_ttl_ms \<longleftrightarrow> unat now < unat written + 120000" if "written \<le> now"
    using that by (auto simp: word_less_nat_alt unat_sub grant_pending_ttl_ms_def word_le_nat_alt)
  have "grant_marker_disposition ?v other now = Match \<longleftrightarrow>
      other = request_id \<and> now \<noteq> 0 \<and> written \<noteq> 0 \<and> written \<le> now \<and> now - written < grant_pending_ttl_ms"
    by (auto simp: grant_marker_disposition_def p [simplified] not_le not_less split: if_splits)
  also have "\<dots> \<longleftrightarrow> other = request_id \<and> written \<noteq> 0 \<and> written \<le> now \<and> unat now < unat written + 120000"
    using age by auto
  finally have "grant_marker_disposition ?v other now = Match \<longleftrightarrow>
      other = request_id \<and> written \<noteq> 0 \<and> unat written \<le> unat now \<and> unat now < unat written + 120000"
    by (simp add: word_le_nat_alt)
  with p encode_visible [OF i(1,2)] show ?thesis by blast
qed

theorem marker_reads_back_witness:
  "\<exists>v. encode_grant_pending_marker 5 ''r-1'' = Some v \<and> grant_marker_disposition v ''r-1'' 1005 = Match"
proof -
  have "clean_segment ''r-1''" by (simp add: clean_segment_def is_ascii_alphanumeric_def)
  from marker_reads_back [OF this, of 5 "''r-1''" 1005] show ?thesis by auto
qed

end
