(* ===== verification/Broker_Wire.thy ===== *)
theory Broker_Wire
  imports Grant_Decision
begin

text \<open>
  The records that the broker exchanges and stores (\<open>approval.rs\<close>, \<open>broker.rs\<close>, \<open>cache.rs\<close>, \<open>hook_gate.rs\<close>), and the
  code outside the repository that reads and prints them (\<open>broker_host\<close>): derived \<open>serde\<close> code, the JSON
  parser and printer and the \<open>uuid\<close> library.
\<close>

record approval_required =
  ar_request_id :: string
  ar_action :: string
  ar_resource :: string
  ar_reason :: string

record grant_required =
  gr_request_id :: string
  gr_principal :: string
  gr_capsule_id :: string

record approval_respond =
  av_req_id :: string
  av_request_id :: string
  av_decision :: string
  av_tool_name :: string
  av_call_id :: string
  av_reason :: "string option"

record ingress_respond =
  iv_req_id :: string
  iv_accept :: bool

record grant_respond =
  gv_req_id :: string
  gv_request_id :: string
  gv_decision :: string
  gv_capsule_id :: string

record call_request =
  cr_req_id :: string
  cr_name :: string
  cr_arguments :: canonical_json

record before_tool_call_event =
  bt_payload :: canonical_json
  bt_correlation_id :: "string option"

record pending_result_route =
  pr_tool_name :: string
  pr_call_id :: string
  pr_provider_source_id :: string
  pr_delivery_id :: "string option"
  pr_created_at_ms :: u64

type_synonym pending_result_routes = "(string, pending_result_route) btree_map"

record mcp_tool_descriptor =
  td_name :: string
  td_provider_source_id :: string
  td_title :: "string option"
  td_description :: string
  td_input_schema :: canonical_json
  td_capabilities :: "canonical_json option"

record cache_state =
  ch_updated_at_ms :: u64
  ch_tools :: "(string, mcp_tool_descriptor) btree_map"

record broker_host =
  bh_parse :: "string \<Rightarrow> canonical_json option"
  bh_print :: "canonical_json \<Rightarrow> string option"
  bh_uuid :: "string \<Rightarrow> 128 word option"
  bh_uuid_simple :: "128 word \<Rightarrow> string"
  bh_approval_required :: "canonical_json \<Rightarrow> approval_required option"
  bh_grant_required :: "canonical_json \<Rightarrow> grant_required option"
  bh_approval_respond :: "canonical_json \<Rightarrow> approval_respond option"
  bh_ingress_respond :: "canonical_json \<Rightarrow> ingress_respond option"
  bh_grant_respond :: "canonical_json \<Rightarrow> grant_respond option"
  bh_list_request :: "canonical_json \<Rightarrow> string option"
  bh_call_request :: "canonical_json \<Rightarrow> call_request option"
  bh_before_tool_call :: "canonical_json \<Rightarrow> before_tool_call_event option"
  bh_descriptor :: "canonical_json \<Rightarrow> mcp_tool_descriptor option"
  bh_routes :: "pending_result_routes json_codec"
  bh_cache :: "cache_state json_codec"
  bh_policy :: json_lib
  bh_rules :: "string \<Rightarrow> rule list option"

section \<open>Identifiers\<close>

definition max_tool_name_len :: nat where "max_tool_name_len = 128"

definition is_valid_tool_name :: "string \<Rightarrow> bool" where
  "is_valid_tool_name name \<longleftrightarrow> name \<noteq> [] \<and> length name \<le> max_tool_name_len \<and>
     list_all (\<lambda>b. is_ascii_alphanumeric b \<or> b \<in> set ''_.-'') name"

definition is_valid_provider_source_id :: "broker_host \<Rightarrow> string \<Rightarrow> bool" where
  "is_valid_provider_source_id H source_id \<longleftrightarrow>
     (case bh_uuid H source_id of None \<Rightarrow> False | Some i \<Rightarrow> i \<noteq> 0)"

text \<open>\<open>execute/delivery_failure.rs\<close>: the ids of publications and the receipts that the host sends for them.\<close>

definition is_valid_delivery_id :: "broker_host \<Rightarrow> string \<Rightarrow> bool" where
  "is_valid_delivery_id H v \<longleftrightarrow> (case bh_uuid H v of None \<Rightarrow> False | Some i \<Rightarrow> i \<noteq> 0 \<and> bh_uuid_simple H i = v)"

definition nil_source_id :: string where "nil_source_id = ''00000000-0000-0000-0000-000000000000''"

definition match_failure :: "broker_host \<Rightarrow> bus_message \<Rightarrow> string \<Rightarrow> string \<Rightarrow> string \<Rightarrow> string option" where
  "match_failure H message delivery_id request_topic pr =
     (if bm_source_id message \<noteq> nil_source_id \<or> bm_verified message \<noteq> Some pr then None
      else case strip_prefix_str ''astrid.v1.delivery.failure.'' (bm_topic message) of None \<Rightarrow> None | Some suff \<Rightarrow>
      case split_once (CHR ''.'') suff of None \<Rightarrow> None | Some (publisher, topic_id) \<Rightarrow>
      if \<not> is_valid_delivery_id H publisher \<or> topic_id \<noteq> delivery_id then None
      else case bh_parse H (bm_payload message) of None \<Rightarrow> None | Some v \<Rightarrow>
      case Option.bind (json_get v ''delivery_id'') json_str of None \<Rightarrow> None | Some d \<Rightarrow>
      if d \<noteq> delivery_id then None
      else case Option.bind (json_get v ''request_topic'') json_str of None \<Rightarrow> None | Some r \<Rightarrow>
      if r \<noteq> request_topic then None
      else Option.bind (json_get v ''reason'') json_str)"

fun find_failure :: "broker_host \<Rightarrow> string \<Rightarrow> string \<Rightarrow> string \<Rightarrow> bus_message list \<Rightarrow> string option" where
  "find_failure H delivery_id request_topic pr [] = None"
| "find_failure H delivery_id request_topic pr (m # ms) =
     (case match_failure H m delivery_id request_topic pr of Some reason \<Rightarrow> Some reason
      | None \<Rightarrow> find_failure H delivery_id request_topic pr ms)"

text \<open>One poll of the receipts; an error of the host counts as no receipt.\<close>

definition poll_failure :: "broker_host \<Rightarrow> string \<Rightarrow> string \<Rightarrow> string \<Rightarrow> string option broker_op" where
  "poll_failure H delivery_id request_topic pr = do {
     batch \<leftarrow> next_input in_failures in_failures_update (Some []);
     ret (case batch of None \<Rightarrow> None | Some ms \<Rightarrow> find_failure H delivery_id request_topic pr ms) }"

text \<open>Subscribing to receipts: an invalid id fails before the host is asked.\<close>

definition subscribe_failures :: "broker_host \<Rightarrow> string \<Rightarrow> bool broker_op" where
  "subscribe_failures H delivery_id =
     (if is_valid_delivery_id H delivery_id then subscribe_fails else ret True)"

section \<open>Results\<close>

definition json_member :: "canonical_json option \<Rightarrow> string \<Rightarrow> canonical_json option" where
  "json_member v k = Option.bind v (\<lambda>v. json_get v k)"

definition match_result :: "broker_host \<Rightarrow> string \<Rightarrow> string \<Rightarrow> string \<Rightarrow> string \<Rightarrow> (canonical_json \<times> bool) option" where
  "match_result H payload call_id message_source_id provider_source_id =
     (if message_source_id \<noteq> provider_source_id \<or> \<not> is_valid_provider_source_id H message_source_id then None
      else case bh_parse H payload of None \<Rightarrow> None | Some v \<Rightarrow>
      if Option.bind (json_get v ''call_id'') json_str \<noteq> Some call_id then None
      else let result_obj = json_get v ''result'' in
        Some (case json_member result_obj ''content'' of Some c \<Rightarrow> c | None \<Rightarrow> CString [],
          case Option.bind (json_member result_obj ''is_error'') json_bool of Some b \<Rightarrow> b | None \<Rightarrow> False))"

fun find_result :: "broker_host \<Rightarrow> string \<Rightarrow> string \<Rightarrow> bus_message list \<Rightarrow> (canonical_json \<times> bool) option" where
  "find_result H call_id provider_source_id [] = None"
| "find_result H call_id provider_source_id (m # ms) =
     (case match_result H (bm_payload m) call_id (bm_source_id m) provider_source_id of
        Some found \<Rightarrow> Some found
      | None \<Rightarrow> find_result H call_id provider_source_id ms)"

lemma find_result_from:
  "find_result H call_id p ms = Some r \<Longrightarrow>
     \<exists>m \<in> set ms. bm_source_id m = p \<and> is_valid_provider_source_id H p \<and>
       match_result H (bm_payload m) call_id p p = Some r"
  by (induction ms) (auto simp: match_result_def split: option.splits if_splits)

text \<open>
  The consent records of \<open>crates/aos-mcp-broker/src/execute.rs\<close>: which ingress is trusted, which ingress has an
  outstanding consent prompt, and which capsule has an outstanding grant prompt for which request id.
\<close>

section \<open>Keys\<close>

definition ingress_trust_key :: "string \<Rightarrow> string option" where
  "ingress_trust_key source_id = (if source_id = [] then None else Some (''mcp.ingress.trust.'' @ source_id))"

definition ingress_pending_key :: "string \<Rightarrow> string option" where
  "ingress_pending_key source_id = (if source_id = [] then None else Some (''mcp.ingress.pending.'' @ source_id))"

definition grant_pending_key :: "string \<Rightarrow> string \<Rightarrow> string option" where
  "grant_pending_key pr capsule_id = (if capsule_id = [] then None else Some (''mcp.grant.pending.'' @ capsule_id))"

section \<open>Ingress\<close>

definition mark_ingress_pending :: "string \<Rightarrow> unit broker_op" where
  "mark_ingress_pending source_id =
     (case ingress_pending_key source_id of None \<Rightarrow> ret () | Some key \<Rightarrow> discard (bk_set key ''1''))"

definition take_ingress_pending :: "string \<Rightarrow> bool broker_op" where
  "take_ingress_pending source_id =
     (case ingress_pending_key source_id of None \<Rightarrow> ret False | Some key \<Rightarrow> do {
        found \<leftarrow> bk_get key;
        case found of
          Ok (Some _) \<Rightarrow> do { _ \<leftarrow> bk_delete key; ret True }
        | Ok None \<Rightarrow> ret False
        | Err _ \<Rightarrow> ret False })"

definition is_ingress_trusted :: "string \<Rightarrow> bool broker_op" where
  "is_ingress_trusted source_id =
     (case ingress_trust_key source_id of None \<Rightarrow> ret False | Some key \<Rightarrow> do {
        found \<leftarrow> bk_get key;
        ret (case found of Ok (Some _) \<Rightarrow> True | _ \<Rightarrow> False) })"

section \<open>Grants\<close>

definition marker_is_fresh :: "string \<Rightarrow> bool broker_op" where
  "marker_is_fresh bytes = do { now \<leftarrow> wall_ms; ret (marker_is_fresh_at bytes now) }"

definition grant_pending :: "string \<Rightarrow> string \<Rightarrow> bool broker_op" where
  "grant_pending pr capsule_id =
     (case grant_pending_key pr capsule_id of None \<Rightarrow> ret False | Some key \<Rightarrow> do {
        found \<leftarrow> bk_get key;
        case found of
          Ok (Some bytes) \<Rightarrow> do {
            fresh \<leftarrow> marker_is_fresh bytes;
            if fresh then ret True else do { _ \<leftarrow> bk_delete key; ret False } }
        | Ok None \<Rightarrow> ret False
        | Err _ \<Rightarrow> ret False })"

definition mark_grant_pending :: "string \<Rightarrow> string \<Rightarrow> string \<Rightarrow> unit broker_op" where
  "mark_grant_pending pr capsule_id request_id =
     (case grant_pending_key pr capsule_id of None \<Rightarrow> ret () | Some key \<Rightarrow> do {
        now \<leftarrow> wall_ms;
        case encode_grant_pending_marker now request_id of None \<Rightarrow> ret () | Some v \<Rightarrow> do {
          live \<leftarrow> grant_pending pr capsule_id;
          if live then ret () else discard (bk_set key v) } })"

definition take_grant_pending :: "string \<Rightarrow> string \<Rightarrow> string \<Rightarrow> bool broker_op" where
  "take_grant_pending pr capsule_id request_id =
     (if request_id = [] then ret False
      else case grant_pending_key pr capsule_id of None \<Rightarrow> ret False | Some key \<Rightarrow> do {
        found \<leftarrow> bk_get key;
        case found of
          Ok (Some bytes) \<Rightarrow> do {
            now \<leftarrow> wall_ms;
            case grant_marker_disposition bytes request_id now of
              Match \<Rightarrow> do { _ \<leftarrow> bk_delete key; ret True }
            | Mismatch \<Rightarrow> ret False
            | Malformed \<Rightarrow> ret False
            | Stale \<Rightarrow> do { _ \<leftarrow> bk_delete key; ret False } }
        | Ok None \<Rightarrow> ret False
        | Err _ \<Rightarrow> ret False })"

end
