(* ===== verification/Dispatch.thy ===== *)
theory Dispatch
  imports Broker_Wire
begin

text \<open>
  The dispatch of a tool call in \<open>crates/aos-mcp-broker/src/execute.rs\<close>: subscribe, publish the request, and drain
  in slices until a result of the selected provider, a signal of the access gate or a failure receipt arrives,
  or the window closes. The texts of host errors are left out of the failure messages.
\<close>

definition execute_timeout_ms :: nat where "execute_timeout_ms = 50000"
definition execute_slice_ms :: nat where "execute_slice_ms = 250"

datatype dispatch_outcome =
    DispatchResult canonical_json bool
  | DispatchApproval approval_required "string option"
  | DispatchGrant grant_required
  | DispatchFailed string

section \<open>Signals\<close>

definition tagged_with_id :: "string \<Rightarrow> canonical_json \<Rightarrow> bool" where
  "tagged_with_id tag v \<longleftrightarrow> Option.bind (json_get v ''type'') json_str = Some tag \<and>
     (case Option.bind (json_get v ''request_id'') json_str of Some i \<Rightarrow> i \<noteq> [] | None \<Rightarrow> False)"

definition is_approval_required :: "canonical_json \<Rightarrow> bool" where
  "is_approval_required v \<longleftrightarrow> tagged_with_id ''approval_required'' v"

definition is_grant_required :: "canonical_json \<Rightarrow> bool" where
  "is_grant_required v \<longleftrightarrow> tagged_with_id ''grant_required'' v"

fun scan_signals :: "broker_host \<Rightarrow> approval_required option \<Rightarrow> bus_message list \<Rightarrow> dispatch_outcome option" where
  "scan_signals H approval [] = map_option (\<lambda>r. DispatchApproval r None) approval"
| "scan_signals H approval (m # ms) =
     (case bh_parse H (bm_payload m) of None \<Rightarrow> scan_signals H approval ms | Some v \<Rightarrow>
      case (if is_grant_required v then bh_grant_required H v else None) of
        Some grant \<Rightarrow> Some (DispatchGrant grant)
      | None \<Rightarrow> scan_signals H
          (if approval = None \<and> is_approval_required v then bh_approval_required H v else approval) ms)"

definition poll_signal :: "broker_host \<Rightarrow> dispatch_outcome option broker_op" where
  "poll_signal H = do {
     batch \<leftarrow> next_input in_signals in_signals_update (Some []);
     ret (case batch of None \<Rightarrow> None | Some ms \<Rightarrow> scan_signals H None ms) }"

text \<open>What the drain loop makes of a polled signal.\<close>

definition signal_outcome :: "string \<Rightarrow> dispatch_outcome option \<Rightarrow> dispatch_outcome option" where
  "signal_outcome delivery_id s = (case s of
     Some (DispatchGrant grant) \<Rightarrow> Some (DispatchGrant grant)
   | Some (DispatchApproval r _) \<Rightarrow> Some (DispatchApproval r (Some delivery_id))
   | _ \<Rightarrow> None)"

section \<open>Draining\<close>

text \<open>A loop that subtracts \<open>min remaining slice\<close> until nothing remains runs this often.\<close>

definition slices :: "nat \<Rightarrow> nat \<Rightarrow> nat" where
  "slices budget step = (budget + step - 1) div step"

lemma slices_step:
  assumes "0 < step" and "0 < budget"
  shows "slices budget step = Suc (slices (budget - min budget step) step)"
proof (cases "budget \<le> step")
  case True
  with assms have "budget + step - 1 = step + (budget - 1)" "budget - 1 < step" by linarith+
  then have "slices budget step = (step + (budget - 1)) div step" "(step + (budget - 1)) div step = 1"
    using assms(1) by (simp_all only: slices_def div_add_self1 div_less)
  with True assms show ?thesis by (simp add: slices_def min_def)
next
  case False
  with assms have "budget + step - 1 = step + (budget - step + step - 1)" by linarith
  then have "slices budget step = (step + (budget - step + step - 1)) div step" by (simp only: slices_def)
  with assms(1) have "slices budget step = Suc ((budget - step + step - 1) div step)"
    by (simp only: div_add_self1 Suc_eq_plus1 less_numeral_extra neq0_conv)
  with False show ?thesis by (simp add: slices_def min_def)
qed

lemma execute_slices [code_unfold]: "slices execute_timeout_ms execute_slice_ms = 200"
  by (simp add: slices_def execute_timeout_ms_def execute_slice_ms_def)

primrec drain :: "broker_host \<Rightarrow> string \<Rightarrow> string \<Rightarrow> string \<Rightarrow> string \<Rightarrow> string \<Rightarrow> nat \<Rightarrow> dispatch_outcome broker_op" where
  "drain H tool_name call_id provider_source_id delivery_id pr 0 =
     ret (DispatchFailed (log_tag @ '': tool '' @ quote @ tool_name @ quote @ '' did not respond within '' @
       show_nat (execute_timeout_ms div 1000) @ ''s''))"
| "drain H tool_name call_id provider_source_id delivery_id pr (Suc n) = do {
     failed \<leftarrow> poll_failure H delivery_id (''tool.v1.execute.'' @ tool_name) pr;
     case failed of
       Some reason \<Rightarrow> ret (DispatchFailed (log_tag @ '': tool '' @ quote @ tool_name @ quote @
         '' runtime invocation failed: '' @ reason))
     | None \<Rightarrow> do {
     before \<leftarrow> poll_signal H;
     case signal_outcome delivery_id before of Some out \<Rightarrow> ret out | None \<Rightarrow> do {
     batch \<leftarrow> next_input in_results in_results_update (Some []);
     case Option.bind batch (find_result H call_id provider_source_id) of
       Some (content, is_error) \<Rightarrow> ret (DispatchResult content is_error)
     | None \<Rightarrow> do {
     after \<leftarrow> poll_signal H;
     case signal_outcome delivery_id after of Some out \<Rightarrow> ret out | None \<Rightarrow>
       drain H tool_name call_id provider_source_id delivery_id pr n } } } }"

definition tool_execute_request :: "string \<Rightarrow> string \<Rightarrow> string \<Rightarrow> canonical_json \<Rightarrow> canonical_json" where
  "tool_execute_request delivery_id call_id tool_name arguments = json_obj [
     (''type'', CString ''tool_execute_request''), (''_astrid_delivery_id'', CString delivery_id),
     (''call_id'', CString call_id), (''tool_name'', CString tool_name), (''arguments'', arguments)]"

definition dispatch_with_approval :: "broker_host \<Rightarrow> string \<Rightarrow> string \<Rightarrow> canonical_json \<Rightarrow> string \<Rightarrow>
    dispatch_outcome broker_op" where
  "dispatch_with_approval H tool_name call_id arguments provider_source_id =
     (if \<not> is_valid_tool_name tool_name then
        ret (DispatchFailed (log_tag @ '': invalid tool name '' @ quote @ tool_name @ quote))
      else if \<not> is_valid_provider_source_id H provider_source_id then
        ret (DispatchFailed (log_tag @ '': tool '' @ quote @ tool_name @ quote @ '' has no verified provider identity''))
      else do {
        w \<leftarrow> State_Monad.get;
        let delivery_id = in_delivery_id (bw_in w);
        ctx \<leftarrow> caller;
        case Option.bind ctx cc_principal of
          None \<Rightarrow> ret (DispatchFailed ''tool dispatch has no authenticated principal'')
        | Some pr \<Rightarrow> do {
        no_failures \<leftarrow> subscribe_failures H delivery_id;
        if no_failures then ret (DispatchFailed ''failed to subscribe to delivery failures'')
        else do {
        no_results \<leftarrow> subscribe_fails;
        if no_results then ret (DispatchFailed (log_tag @ '': failed to subscribe to tool.v1.execute.'' @ tool_name @ ''.result''))
        else do {
        no_approvals \<leftarrow> subscribe_fails;
        if no_approvals then ret (DispatchFailed (log_tag @ '': failed to subscribe to astrid.v1.approval''))
        else do {
        published \<leftarrow> publish_json (''tool.v1.execute.'' @ tool_name)
          (tool_execute_request delivery_id call_id tool_name arguments);
        case published of
          Err _ \<Rightarrow> ret (DispatchFailed (log_tag @ '': failed to publish tool.v1.execute.'' @ tool_name))
        | Ok _ \<Rightarrow> drain H tool_name call_id provider_source_id delivery_id pr
            (slices execute_timeout_ms execute_slice_ms) } } } } })"

section \<open>Facts\<close>

lemma signal_outcome_grant:
  "signal_outcome d s = Some (DispatchGrant g) \<longleftrightarrow> s = Some (DispatchGrant g)"
  by (auto simp: signal_outcome_def split: option.splits dispatch_outcome.splits)

text \<open>A grant signal in a batch is preferred to an approval.\<close>

lemma scan_signals_grant_first:
  assumes "m \<in> set ms" and "bh_parse H (bm_payload m) = Some v" and "is_grant_required v" and "bh_grant_required H v = Some g"
  shows "\<exists>g'. scan_signals H approval ms = Some (DispatchGrant g')"
  using assms by (induction ms arbitrary: approval) (auto split: option.splits)

end
