(* ===== verification/Approval.thy ===== *)
theory Approval
  imports Broker_Wire Dispatch
begin

text \<open>
  \<open>crates/aos-mcp-broker/src/approval.rs\<close> and \<open>approval/result.rs\<close>: the answers of the user. An approval of a parked
  tool call is published for the host and the call's result drained; an ingress consent records trust in the
  caller; a grant decision is paired with its prompt, recorded and published. The routes of parked calls are
  one bounded map in the key-value service.
\<close>

definition max_display_len :: nat where "max_display_len = 1024"
definition resume_timeout_ms :: nat where "resume_timeout_ms = 50000"
definition resume_slice_ms :: nat where "resume_slice_ms = 250"
definition pending_result_route_ttl_ms :: u64 where "pending_result_route_ttl_ms = 120000"
definition max_pending_result_routes :: nat where "max_pending_result_routes = 128"
definition pending_result_routes_key :: string where
  "pending_result_routes_key = ''mcp.approval.pending_result_routes''"

section \<open>Text\<close>

definition clamp :: "string \<Rightarrow> string" where
  "clamp s = (let trimmed = trim s in
     if length (chars trimmed) \<le> max_display_len then trimmed else concat (take max_display_len (chars trimmed)))"

definition approval_flag :: "approval_required \<Rightarrow> string \<Rightarrow> string \<Rightarrow> canonical_json" where
  "approval_flag r tool_name call_id = json_obj [
     (''request_id'', CString (ar_request_id r)), (''action'', CString (clamp (ar_action r))),
     (''resource'', CString (clamp (ar_resource r))), (''reason'', CString (clamp (ar_reason r))),
     (''tool_name'', CString tool_name), (''call_id'', CString call_id)]"

definition grant_flag :: "grant_required \<Rightarrow> string \<Rightarrow> string \<Rightarrow> canonical_json" where
  "grant_flag g tool_name call_id = json_obj [
     (''request_id'', CString (gr_request_id g)), (''capsule_id'', CString (clamp (gr_capsule_id g))),
     (''principal'', CString (clamp (gr_principal g))),
     (''tool_name'', CString tool_name), (''call_id'', CString call_id)]"

definition normalize_decision :: "string \<Rightarrow> string" where
  "normalize_decision d =
     (let v = to_ascii_lowercase (trim d) in
      if v \<in> {''approve'', ''approve_session'', ''approve_always''} then v else ''deny'')"

definition is_approve_verb :: "string \<Rightarrow> bool" where
  "is_approve_verb d \<longleftrightarrow> d \<in> {''approve'', ''approve_session'', ''approve_always''}"

definition response_topic :: "string \<Rightarrow> string option" where
  "response_topic request_id =
     (if clean_segment request_id then Some (''astrid.v1.approval.response.'' @ request_id) else None)"

section \<open>Publishing\<close>

definition decision_envelope :: "string \<Rightarrow> string \<Rightarrow> string option \<Rightarrow> canonical_json" where
  "decision_envelope request_id decision reason = json_obj (
     [(''type'', CString ''approval_response''), (''request_id'', CString request_id), (''decision'', CString decision)] @
     (case reason of None \<Rightarrow> [] | Some r \<Rightarrow> if clamp r = [] then [] else [(''reason'', CString (clamp r))]))"

definition publish_decision :: "string \<Rightarrow> string \<Rightarrow> string \<Rightarrow> string option \<Rightarrow> unit broker_op" where
  "publish_decision topic request_id decision reason = send topic (decision_envelope request_id decision reason)"

definition publish_grant_auto_decision :: "string \<Rightarrow> bool \<Rightarrow> bool broker_op" where
  "publish_grant_auto_decision request_id approve =
     (case response_topic request_id of None \<Rightarrow> ret False
      | Some topic \<Rightarrow> do {
          publish_decision topic request_id (if approve then ''approve'' else ''deny'') None;
          ret True })"

definition deny_untracked_approval :: "string \<Rightarrow> unit broker_op" where
  "deny_untracked_approval request_id =
     (case response_topic request_id of None \<Rightarrow> ret ()
      | Some topic \<Rightarrow> publish_decision topic request_id ''deny'' None)"

text \<open>Replies to the shim go out when its request id forms a topic.\<close>

definition to_shim :: "string \<Rightarrow> canonical_json \<Rightarrow> unit broker_op" where
  "to_shim req_id message = (case reply_topic req_id of None \<Rightarrow> ret () | Some topic \<Rightarrow> send topic message)"

definition acknowledgement :: "string \<Rightarrow> string \<Rightarrow> bool \<Rightarrow> canonical_json" where
  "acknowledgement kind req_id granted =
     json_obj [(''kind'', CString kind), (''req_id'', CString req_id), (''granted'', CBool granted)]"

definition ingress_ack :: "string \<Rightarrow> bool \<Rightarrow> unit broker_op" where
  "ingress_ack req_id granted = to_shim req_id (acknowledgement ''ingress.respond'' req_id granted)"

definition grant_ack :: "string \<Rightarrow> bool \<Rightarrow> unit broker_op" where
  "grant_ack req_id granted = to_shim req_id (acknowledgement ''grant.respond'' req_id granted)"

definition deliver_result :: "broker_host \<Rightarrow> string \<Rightarrow> canonical_json \<Rightarrow> bool \<Rightarrow> unit broker_op" where
  "deliver_result H req_id content is_error = to_shim req_id (json_obj [
     (''kind'', CString ''tool.call''), (''req_id'', CString req_id),
     (''content'', mcp_content (bh_print H) content), (''isError'', CBool is_error)])"

definition deliver_error :: "broker_host \<Rightarrow> string \<Rightarrow> string \<Rightarrow> unit broker_op" where
  "deliver_error H req_id text = deliver_result H req_id (CString (log_tag @ '': '' @ text)) True"

section \<open>Routes of parked calls\<close>

definition route_matches :: "broker_host \<Rightarrow> pending_result_route \<Rightarrow> string \<Rightarrow> string \<Rightarrow> bool" where
  "route_matches H r tool_name call_id \<longleftrightarrow> pr_tool_name r = tool_name \<and> pr_call_id r = call_id \<and>
     is_valid_provider_source_id H (pr_provider_source_id r) \<and>
     (case pr_delivery_id r of None \<Rightarrow> True | Some i \<Rightarrow> is_valid_delivery_id H i)"

definition route_is_fresh :: "u64 \<Rightarrow> pending_result_route \<Rightarrow> bool" where
  "route_is_fresh now r \<longleftrightarrow> now \<noteq> 0 \<and> pr_created_at_ms r \<noteq> 0 \<and> pr_created_at_ms r \<le> now \<and>
     now - pr_created_at_ms r < pending_result_route_ttl_ms"

definition retain_fresh :: "u64 \<Rightarrow> pending_result_routes \<Rightarrow> pending_result_routes" where
  "retain_fresh now routes = filter (\<lambda>(_, r). route_is_fresh now r) routes"

text \<open>\<open>min_by_key\<close> on the creation time: the first minimum.\<close>

fun oldest_route :: "pending_result_routes \<Rightarrow> string option" where
  "oldest_route [] = None"
| "oldest_route ((i, r) # rs) = Some (fst (foldl
     (\<lambda>(j, s) (k, t). if pr_created_at_ms t < pr_created_at_ms s then (k, t) else (j, s)) (i, r) rs))"

definition load_pending_result_routes :: "broker_host \<Rightarrow> pending_result_routes broker_op" where
  "load_pending_result_routes H = do {
     found \<leftarrow> bk_get pending_result_routes_key;
     ret (case found of
            Ok (Some bytes) \<Rightarrow> (case jc_decode (bh_routes H) bytes of Ok rs \<Rightarrow> rs | Err _ \<Rightarrow> [])
          | Ok None \<Rightarrow> [] | Err _ \<Rightarrow> []) }"

definition persist_pending_result_routes :: "broker_host \<Rightarrow> pending_result_routes \<Rightarrow> bool broker_op" where
  "persist_pending_result_routes H routes =
     (case jc_encode (bh_routes H) routes of Err _ \<Rightarrow> ret False
      | Ok bytes \<Rightarrow> do { r \<leftarrow> bk_set pending_result_routes_key bytes; ret (is_ok r) })"

definition remember_route :: "u64 \<Rightarrow> string \<Rightarrow> pending_result_route \<Rightarrow> pending_result_routes \<Rightarrow> pending_result_routes" where
  "remember_route now request_id r routes =
     (let fresh = retain_fresh now routes;
          room = (if length fresh \<ge> max_pending_result_routes
            then (case oldest_route fresh of Some i \<Rightarrow> bt_delete i fresh | None \<Rightarrow> fresh) else fresh)
      in bt_insert request_id r room)"

definition remember_pending_result_route :: "broker_host \<Rightarrow> string \<Rightarrow> string \<Rightarrow> string \<Rightarrow> string \<Rightarrow>
    string option \<Rightarrow> bool broker_op" where
  "remember_pending_result_route H request_id tool_name call_id provider_source_id delivery_id =
     (if response_topic request_id = None \<or> \<not> is_valid_tool_name tool_name \<or> reply_topic call_id = None \<or>
         \<not> is_valid_provider_source_id H provider_source_id \<or>
         (case delivery_id of None \<Rightarrow> False | Some i \<Rightarrow> \<not> is_valid_delivery_id H i)
      then ret False
      else do {
        now \<leftarrow> wall_ms;
        if now = 0 then ret False
        else do {
          routes \<leftarrow> load_pending_result_routes H;
          persist_pending_result_routes H (remember_route now request_id
            \<lparr>pr_tool_name = tool_name, pr_call_id = call_id, pr_provider_source_id = provider_source_id,
             pr_delivery_id = delivery_id, pr_created_at_ms = now\<rparr> routes) } })"

definition take_pending_result_route :: "broker_host \<Rightarrow> approval_respond \<Rightarrow> pending_result_route option broker_op" where
  "take_pending_result_route H req = do {
     now \<leftarrow> wall_ms;
     routes \<leftarrow> load_pending_result_routes H;
     persisted \<leftarrow> persist_pending_result_routes H (retain_fresh now (bt_delete (av_request_id req) routes));
     ret (if \<not> persisted then None
          else case bt_get routes (av_request_id req) of None \<Rightarrow> None
            | Some r \<Rightarrow> if route_is_fresh now r \<and> route_matches H r (av_tool_name req) (av_call_id req)
                then Some r else None) }"

section \<open>Resuming a parked call\<close>

primrec drain_result :: "broker_host \<Rightarrow> string \<Rightarrow> pending_result_route \<Rightarrow> string option \<Rightarrow> nat \<Rightarrow>
    (canonical_json \<times> bool) option broker_op" where
  "drain_result H call_id route pr 0 = ret None"
| "drain_result H call_id route pr (Suc n) = do {
     failed \<leftarrow> (case (pr_delivery_id route, pr) of
        (Some i, Some p) \<Rightarrow> poll_failure H i (''tool.v1.execute.'' @ pr_tool_name route) p
      | _ \<Rightarrow> ret None);
     case failed of
       Some reason \<Rightarrow> ret (Some (CString (''runtime invocation failed: '' @ reason), True))
     | None \<Rightarrow> do {
     batch \<leftarrow> next_input in_results in_results_update (Some []);
     case Option.bind batch (find_result H call_id (pr_provider_source_id route)) of
       Some found \<Rightarrow> ret (Some found)
     | None \<Rightarrow> drain_result H call_id route pr n } }"

definition resolve_with_decision :: "broker_host \<Rightarrow> approval_respond \<Rightarrow> string \<Rightarrow> string \<Rightarrow> string option \<Rightarrow>
    pending_result_route \<Rightarrow> unit broker_op" where
  "resolve_with_decision H req topic decision reason route =
     (if \<not> is_valid_tool_name (av_tool_name req) then do {
        publish_decision topic (av_request_id req) decision reason;
        deliver_error H (av_req_id req) ''approval echoed an invalid tool name'' }
      else do {
        no_results \<leftarrow> subscribe_fails;
        ctx \<leftarrow> caller;
        let pr = Option.bind ctx cc_principal;
        if pr_delivery_id route \<noteq> None \<and> (pr = None \<or> pr = Some []) then do {
          publish_decision topic (av_request_id req) ''deny'' None;
          deliver_error H (av_req_id req) ''resumed invocation has no authenticated principal'' }
        else do {
        no_failures \<leftarrow> (case pr_delivery_id route of None \<Rightarrow> ret False | Some i \<Rightarrow> subscribe_failures H i);
        if no_failures then do {
          publish_decision topic (av_request_id req) ''deny'' None;
          deliver_error H (av_req_id req) ''cannot observe resumed invocation'' }
        else do {
        publish_decision topic (av_request_id req) decision reason;
        case reply_topic (av_req_id req) of None \<Rightarrow> ret () | Some _ \<Rightarrow> do {
          found \<leftarrow> (if no_results then ret None
            else drain_result H (av_call_id req) route pr (slices resume_timeout_ms resume_slice_ms));
          case found of
            Some (content, is_error) \<Rightarrow> deliver_result H (av_req_id req) content is_error
          | None \<Rightarrow> deliver_error H (av_req_id req) ''tool did not return a result after the approval decision'' } } } })"

section \<open>Handlers\<close>

definition handle_mcp_approval :: "broker_host \<Rightarrow> canonical_json \<Rightarrow> unit broker_op" where
  "handle_mcp_approval H payload =
     (case bh_approval_respond H payload of None \<Rightarrow> ret () | Some req \<Rightarrow>
      case response_topic (av_request_id req) of
        None \<Rightarrow> deliver_error H (av_req_id req) ''approval request_id was not routable''
      | Some topic \<Rightarrow> do {
        route \<leftarrow> take_pending_result_route H req;
        case route of
          None \<Rightarrow> do {
            publish_decision topic (av_request_id req) ''deny'' None;
            deliver_error H (av_req_id req) ''approval result route was not verifiable'' }
        | Some route \<Rightarrow> do {
          ctx \<leftarrow> caller;
          case ctx of
            None \<Rightarrow> resolve_with_decision H req topic ''deny'' None route
          | Some ctx \<Rightarrow> do {
            trusted \<leftarrow> is_ingress_trusted (cc_source_id ctx);
            if \<not> trusted then resolve_with_decision H req topic ''deny'' None route
            else resolve_with_decision H req topic (normalize_decision (av_decision req)) (av_reason req) route } } })"

definition handle_mcp_ingress_respond :: "broker_host \<Rightarrow> canonical_json \<Rightarrow> unit broker_op" where
  "handle_mcp_ingress_respond H payload =
     (case bh_ingress_respond H payload of None \<Rightarrow> ret () | Some req \<Rightarrow> do {
        ctx \<leftarrow> caller;
        case ctx of
          None \<Rightarrow> ingress_ack (iv_req_id req) False
        | Some ctx \<Rightarrow> do {
          had_prompt \<leftarrow> take_ingress_pending (cc_source_id ctx);
          if \<not> iv_accept req then ingress_ack (iv_req_id req) False
          else if \<not> had_prompt then ingress_ack (iv_req_id req) False
          else case ingress_trust_key (cc_source_id ctx) of
            None \<Rightarrow> ingress_ack (iv_req_id req) False
          | Some key \<Rightarrow> do {
              stored \<leftarrow> bk_set key ''1'';
              case stored of
                Err _ \<Rightarrow> ingress_ack (iv_req_id req) False
              | Ok _ \<Rightarrow> do {
                  send (audit_topic ''ingress_trusted'') (json_obj [(''source_id'', CString (cc_source_id ctx))]);
                  ingress_ack (iv_req_id req) True } } } })"

definition handle_mcp_grant_respond :: "broker_host \<Rightarrow> canonical_json \<Rightarrow> unit broker_op" where
  "handle_mcp_grant_respond H payload =
     (case bh_grant_respond H payload of None \<Rightarrow> ret () | Some req \<Rightarrow>
      case response_topic (gv_request_id req) of
        None \<Rightarrow> grant_ack (gv_req_id req) False
      | Some topic \<Rightarrow> do {
        ctx \<leftarrow> caller;
        let pr = (case Option.bind ctx cc_principal of Some p \<Rightarrow> p | None \<Rightarrow> []);
        paired \<leftarrow> take_grant_pending pr (gv_capsule_id req) (gv_request_id req);
        if \<not> paired then grant_ack (gv_req_id req) False
        else case ctx of
          None \<Rightarrow> do {
            publish_decision topic (gv_request_id req) ''deny'' None;
            grant_ack (gv_req_id req) False }
        | Some ctx \<Rightarrow> do {
          trusted \<leftarrow> is_ingress_trusted (cc_source_id ctx);
          if \<not> trusted then do {
            publish_decision topic (gv_request_id req) ''deny'' None;
            grant_ack (gv_req_id req) False }
          else do {
            let decision = normalize_decision (gv_decision req);
            let granted = is_approve_verb decision;
            (case respond_decision_to_record granted of None \<Rightarrow> ret ()
             | Some d \<Rightarrow> record_grant_decision (gv_capsule_id req) d);
            publish_decision topic (gv_request_id req) decision None;
            grant_ack (gv_req_id req) granted } } })"

end
