(* ===== verification/Tool_Cache.thy ===== *)
theory Tool_Cache
  imports Broker_Wire
begin

text \<open>
  \<open>crates/aos-mcp-broker/src/cache.rs\<close> and \<open>discovery.rs\<close>: the cache of tool descriptors and the ways it is
  filled: the describe fan-out, broadcasts of single capsules, and the metadata the kernel sends when the
  set of capsules changes. The batches that the fan-out's window yields are inputs.
\<close>

section \<open>The cache\<close>

definition cache_key :: string where "cache_key = ''tools.cache''"
definition cache_ttl_ms :: u64 where "cache_ttl_ms = 60000"
definition cas_max_retries :: nat where "cas_max_retries = 8"
definition max_cached_tools :: nat where "max_cached_tools = 512"

definition cache_default :: cache_state where
  "cache_default = \<lparr>ch_updated_at_ms = 0, ch_tools = []\<rparr>"

definition cache_is_fresh :: "broker_host \<Rightarrow> cache_state \<Rightarrow> u64 \<Rightarrow> bool" where
  "cache_is_fresh H c now =
     (if now = 0 \<or> ch_updated_at_ms c = 0 \<or> ch_tools c = [] \<or>
         list_ex (\<lambda>t. \<not> is_valid_provider_source_id H (td_provider_source_id t)) (bt_values (ch_tools c))
      then False
      else (if now < ch_updated_at_ms c then 0 else now - ch_updated_at_ms c) < cache_ttl_ms)"

definition as_vec :: "cache_state \<Rightarrow> mcp_tool_descriptor list" where
  "as_vec c = bt_values (ch_tools c)"

definition decode_cache :: "broker_host \<Rightarrow> string option \<Rightarrow> cache_state" where
  "decode_cache H bytes = (case bytes of None \<Rightarrow> cache_default
     | Some b \<Rightarrow> (case jc_decode (bh_cache H) b of Ok c \<Rightarrow> c | Err _ \<Rightarrow> cache_default))"

definition cache_load :: "broker_host \<Rightarrow> cache_state broker_op" where
  "cache_load H = do {
     found \<leftarrow> bk_get cache_key;
     ret (decode_cache H (case found of Ok b \<Rightarrow> b | Err _ \<Rightarrow> None)) }"

text \<open>The two loops that add descriptors: \<open>upsert\<close> skips a new name when the cache is full, \<open>replace\<close> stops.\<close>

fun merge_tools :: "mcp_tool_descriptor list \<Rightarrow> (string, mcp_tool_descriptor) btree_map \<Rightarrow>
    (string, mcp_tool_descriptor) btree_map" where
  "merge_tools [] tools = tools"
| "merge_tools (d # ds) tools =
     (if length tools \<ge> max_cached_tools \<and> \<not> bt_contains_key tools (td_name d) then merge_tools ds tools
      else merge_tools ds (bt_insert (td_name d) d tools))"

fun take_tools :: "mcp_tool_descriptor list \<Rightarrow> (string, mcp_tool_descriptor) btree_map \<Rightarrow>
    (string, mcp_tool_descriptor) btree_map" where
  "take_tools [] tools = tools"
| "take_tools (d # ds) tools =
     (if length tools \<ge> max_cached_tools then tools else take_tools ds (bt_insert (td_name d) d tools))"

primrec upsert_retry :: "broker_host \<Rightarrow> mcp_tool_descriptor list \<Rightarrow> nat \<Rightarrow> cache_state broker_op" where
  "upsert_retry H incoming 0 = cache_load H"
| "upsert_retry H incoming (Suc n) = do {
     found \<leftarrow> bk_get cache_key;
     let expected = (case found of Ok b \<Rightarrow> b | Err _ \<Rightarrow> None);
     now \<leftarrow> wall_ms;
     let c = \<lparr>ch_updated_at_ms = now, ch_tools = merge_tools incoming (ch_tools (decode_cache H expected))\<rparr>;
     case jc_encode (bh_cache H) c of Err _ \<Rightarrow> ret c | Ok bytes \<Rightarrow> do {
       won \<leftarrow> bk_cas cache_key expected bytes;
       case won of Ok b \<Rightarrow> if b then ret c else upsert_retry H incoming n | Err _ \<Rightarrow> ret c } }"

definition cache_upsert :: "broker_host \<Rightarrow> mcp_tool_descriptor list \<Rightarrow> cache_state broker_op" where
  "cache_upsert H incoming =
     (if incoming = [] then cache_load H else upsert_retry H incoming cas_max_retries)"

definition cache_replace :: "broker_host \<Rightarrow> mcp_tool_descriptor list \<Rightarrow> cache_state broker_op" where
  "cache_replace H snapshot = do {
     now \<leftarrow> wall_ms;
     let c = \<lparr>ch_updated_at_ms = now, ch_tools = take_tools snapshot []\<rparr>;
     found \<leftarrow> bk_get cache_key;
     let expected = (case found of Ok b \<Rightarrow> b | Err _ \<Rightarrow> None);
     case jc_encode (bh_cache H) c of Err _ \<Rightarrow> ret c | Ok bytes \<Rightarrow> do {
       won \<leftarrow> bk_cas cache_key expected bytes;
       case won of Ok b \<Rightarrow> if b then ret c else cache_upsert H snapshot | Err _ \<Rightarrow> ret c } }"

definition cache_invalidate :: "broker_host \<Rightarrow> unit broker_op" where
  "cache_invalidate H =
     (case jc_encode (bh_cache H) cache_default of Err _ \<Rightarrow> ret ()
      | Ok bytes \<Rightarrow> discard (bk_set cache_key bytes))"

section \<open>Descriptors from outside\<close>

definition max_description_len :: nat where "max_description_len = 4096"
definition max_input_schema_bytes :: nat where "max_input_schema_bytes = 16384"
definition max_capabilities_bytes :: nat where "max_capabilities_bytes = 2048"
definition max_tools_per_response :: nat where "max_tools_per_response = 256"

definition json_byte_len :: "broker_host \<Rightarrow> canonical_json \<Rightarrow> nat" where
  "json_byte_len H v = (case bh_print H v of Some s \<Rightarrow> length s | None \<Rightarrow> usize_max)"

definition is_valid_descriptor :: "broker_host \<Rightarrow> mcp_tool_descriptor \<Rightarrow> bool" where
  "is_valid_descriptor H d \<longleftrightarrow> is_valid_tool_name (td_name d) \<and>
     length (td_description d) \<le> max_description_len \<and>
     (case td_title d of Some t \<Rightarrow> length t \<le> max_description_len | None \<Rightarrow> True) \<and>
     json_byte_len H (td_input_schema d) \<le> max_input_schema_bytes \<and>
     (case td_capabilities d of Some c \<Rightarrow> json_byte_len H c \<le> max_capabilities_bytes | None \<Rightarrow> True)"

definition remap_input_schema :: "canonical_json \<Rightarrow> canonical_json" where
  "remap_input_schema v = (case v of
     CObject m \<Rightarrow>
       if bt_contains_key m ''inputSchema'' then v
       else (case bt_get m ''input_schema'' of None \<Rightarrow> v
             | Some s \<Rightarrow> CObject (bt_insert ''inputSchema'' s (bt_delete ''input_schema'' m)))
   | _ \<Rightarrow> v)"

definition parse_describe_response :: "broker_host \<Rightarrow> canonical_json \<Rightarrow> mcp_tool_descriptor list" where
  "parse_describe_response H v =
     (case Option.bind (case json_get v ''tools'' of Some t \<Rightarrow> Some t
            | None \<Rightarrow> json_member (json_get v ''data'') ''tools'') json_array of
        None \<Rightarrow> []
      | Some tools \<Rightarrow> List.map_filter (\<lambda>raw. case bh_descriptor H (remap_input_schema raw) of
          Some d \<Rightarrow> if is_valid_descriptor H d then Some d else None | None \<Rightarrow> None)
          (take max_tools_per_response tools))"

definition bind_provider :: "broker_host \<Rightarrow> mcp_tool_descriptor list \<Rightarrow> string \<Rightarrow> mcp_tool_descriptor list" where
  "bind_provider H ds source_id =
     (if is_valid_provider_source_id H source_id then map (td_provider_source_id_update (\<lambda>_. source_id)) ds else [])"

text \<open>Duplicates are removed from the back: the last descriptor of a name stays.\<close>

fun retain_new :: "string set \<Rightarrow> mcp_tool_descriptor list \<Rightarrow> mcp_tool_descriptor list" where
  "retain_new seen [] = []"
| "retain_new seen (d # ds) =
     (if td_name d \<in> seen then retain_new seen ds else d # retain_new (insert (td_name d) seen) ds)"

definition dedupe_last :: "mcp_tool_descriptor list \<Rightarrow> mcp_tool_descriptor list" where
  "dedupe_last ds = rev (retain_new {} (rev ds))"

definition collected :: "broker_host \<Rightarrow> bus_message list list \<Rightarrow> mcp_tool_descriptor list" where
  "collected H batches = concat (map (\<lambda>m. case bh_parse H (bm_payload m) of
     None \<Rightarrow> [] | Some v \<Rightarrow> bind_provider H (parse_describe_response H v) (bm_source_id m)) (concat batches))"

definition discover :: "broker_host \<Rightarrow> mcp_tool_descriptor list broker_op" where
  "discover H = do {
     failed \<leftarrow> subscribe_fails;
     if failed then ret []
     else do {
       published \<leftarrow> publish_json ''tool.v1.request.describe'' (CObject []);
       case published of Err _ \<Rightarrow> ret []
       | Ok _ \<Rightarrow> do {
           w \<leftarrow> State_Monad.get;
           State_Monad.update (bw_in_update (in_describes_update (\<lambda>_. [])));
           ret (dedupe_last (collected H (in_describes (bw_in w)))) } } }"

definition collect_snapshot :: "broker_host \<Rightarrow> mcp_tool_descriptor list broker_op" where
  "collect_snapshot H = do {
     cached \<leftarrow> cache_load H;
     now \<leftarrow> wall_ms;
     if cache_is_fresh H cached now then ret (as_vec cached)
     else do {
       descriptors \<leftarrow> discover H;
       if descriptors = [] then ret (as_vec cached)
       else do { c \<leftarrow> cache_replace H descriptors; ret (as_vec c) } } }"

definition provider_source_id :: "broker_host \<Rightarrow> string \<Rightarrow> string option broker_op" where
  "provider_source_id H tool_name = do {
     snapshot \<leftarrow> collect_snapshot H;
     ret (case find (\<lambda>d. td_name d = tool_name) snapshot of None \<Rightarrow> None
          | Some d \<Rightarrow> if is_valid_provider_source_id H (td_provider_source_id d)
              then Some (td_provider_source_id d) else None) }"

section \<open>Publishing\<close>

definition mcp_descriptor_with_prefix :: "string \<Rightarrow> mcp_tool_descriptor \<Rightarrow> canonical_json" where
  "mcp_descriptor_with_prefix p d = json_obj (
     [(''name'', CString (p @ td_name d))] @
     (case td_title d of Some t \<Rightarrow> [(''title'', CString t)] | None \<Rightarrow> []) @
     [(''description'', CString (td_description d)), (''inputSchema'', td_input_schema d)] @
     (case td_capabilities d of Some c \<Rightarrow> [(''capabilities'', c)] | None \<Rightarrow> []))"

definition to_mcp_descriptors :: "mcp_tool_descriptor list \<Rightarrow> canonical_json list" where
  "to_mcp_descriptors ds = map (mcp_descriptor_with_prefix []) ds"

definition publish_tools_list :: "mcp_tool_descriptor list \<Rightarrow> unit broker_op" where
  "publish_tools_list ds = send tools_list_topic (CArray (map (mcp_descriptor_with_prefix mcp_tool_prefix) ds))"

definition describe_tools :: "broker_host \<Rightarrow> unit broker_op" where
  "describe_tools H = do { snapshot \<leftarrow> collect_snapshot H; publish_tools_list snapshot }"

definition collect_tool_descriptors :: "broker_host \<Rightarrow> canonical_json \<Rightarrow> unit broker_op" where
  "collect_tool_descriptors H payload = do {
     ctx \<leftarrow> caller;
     case ctx of None \<Rightarrow> ret () | Some ctx \<Rightarrow>
     if \<not> is_valid_provider_source_id H (cc_source_id ctx) then ret ()
     else let ds = bind_provider H (parse_describe_response H payload) (cc_source_id ctx) in
       if ds = [] then ret ()
       else do { merged \<leftarrow> cache_upsert H ds; publish_tools_list (as_vec merged) } }"

section \<open>Static metadata\<close>

definition static_tool :: "string \<Rightarrow> canonical_json \<Rightarrow> mcp_tool_descriptor option" where
  "static_tool source_id t = (case Option.bind (json_get t ''name'') json_str of None \<Rightarrow> None
     | Some name \<Rightarrow> Some \<lparr>td_name = name, td_provider_source_id = source_id, td_title = None,
         td_description = (case Option.bind (json_get t ''description'') json_str of Some d \<Rightarrow> d | None \<Rightarrow> []),
         td_input_schema = (case json_get t ''input_schema'' of Some s \<Rightarrow> s | None \<Rightarrow> CNull),
         td_capabilities = None\<rparr>)"

definition static_tools_of_capsule :: "broker_host \<Rightarrow> canonical_json \<Rightarrow> mcp_tool_descriptor list option" where
  "static_tools_of_capsule H capsule =
     (case json_get capsule ''meta'' of None \<Rightarrow> None | Some meta \<Rightarrow>
      if meta = CNull then None
      else case Option.bind (json_get meta ''tools'') json_array of None \<Rightarrow> None | Some tools \<Rightarrow>
      if tools = [] then Some []
      else case Option.bind (json_get capsule ''source_id'') json_str of None \<Rightarrow> None | Some source_id \<Rightarrow>
      if \<not> is_valid_provider_source_id H source_id then None
      else Some (List.map_filter (static_tool source_id) tools))"

fun collect_static :: "broker_host \<Rightarrow> canonical_json list \<Rightarrow> mcp_tool_descriptor list option" where
  "collect_static H [] = Some []"
| "collect_static H (c # cs) =
     (case static_tools_of_capsule H c of None \<Rightarrow> None | Some ds \<Rightarrow>
      case collect_static H cs of None \<Rightarrow> None | Some rest \<Rightarrow> Some (ds @ rest))"

definition static_tools_from_payload :: "broker_host \<Rightarrow> canonical_json \<Rightarrow> mcp_tool_descriptor list option" where
  "static_tools_from_payload H payload =
     Option.bind (Option.bind (json_get payload ''capsules'') json_array) (collect_static H)"

definition on_capsules_loaded :: "broker_host \<Rightarrow> canonical_json \<Rightarrow> unit broker_op" where
  "on_capsules_loaded H payload =
     (case static_tools_from_payload H payload of
        Some descriptors \<Rightarrow> do { c \<leftarrow> cache_replace H descriptors; publish_tools_list (as_vec c) }
      | None \<Rightarrow> cache_invalidate H)"

end
