(* ===== verification/Broker.thy ===== *)
theory Broker
  imports Approval Tool_Cache
begin

text \<open>
  \<open>crates/aos-mcp-broker/src/broker.rs\<close> and \<open>hook_gate.rs\<close>: listing tools, calling one (the pre-tool-use gate,
  the ingress gate, the policy, the provider and the outcomes of a dispatch), and answering the hook that
  precedes native tool calls. Log lines are left out.
\<close>

section \<open>Replies\<close>

definition pretooluse_gate_tool :: string where "pretooluse_gate_tool = ''aos_pretooluse_gate''"

definition em_dash :: string where "em_dash = [CHR 0xE2, CHR 0x80, CHR 0x94]"

definition ingress_consent_guidance :: "string \<Rightarrow> string" where
  "ingress_consent_guidance source_id =
     ''Astrid withheld this tool call: the ingress session (source_id: '' @ source_id @ '') '' @
     ''is not yet trusted. The first tool call from a new client session opens a '' @
     ''one-time interactive consent prompt; approving it records trust for this '' @
     ''source_id so later calls dispatch without re-prompting. Approve the prompt '' @
     ''in your MCP client. If your client cannot display interactive prompts (no '' @
     ''MCP elicitation support), the call fails closed by design '' @ em_dash @ '' retry from a '' @
     ''client that can, such as the Astrid CLI uplink. This interactive prompt is '' @
     ''the only way to grant trust: there is no operator allow-list or config key '' @
     ''to set.''"

definition call_reply :: "broker_host \<Rightarrow> string \<Rightarrow> canonical_json \<Rightarrow> bool \<Rightarrow> (string \<times> canonical_json) list \<Rightarrow> canonical_json" where
  "call_reply H req_id content is_error extra = json_obj (
     [(''kind'', CString ''tool.call''), (''req_id'', CString req_id),
      (''content'', mcp_content (bh_print H) content), (''isError'', CBool is_error)] @ extra)"

definition json_str_member :: "canonical_json \<Rightarrow> string \<Rightarrow> string" where
  "json_str_member v k = (case Option.bind (json_get v k) json_str of Some s \<Rightarrow> s | None \<Rightarrow> [])"

definition gate_tool_input :: "broker_host \<Rightarrow> canonical_json \<Rightarrow> canonical_json" where
  "gate_tool_input H arguments = (case json_get arguments ''tool_input'' of
     Some (CObject m) \<Rightarrow> CObject m
   | Some (CArray xs) \<Rightarrow> CArray xs
   | Some (CString s) \<Rightarrow> (case bh_parse H s of Some v \<Rightarrow> v | None \<Rightarrow> CNull)
   | _ \<Rightarrow> CNull)"

definition gate_reply_body :: "broker_host \<Rightarrow> string \<Rightarrow> decision \<Rightarrow> canonical_json" where
  "gate_reply_body H req_id d =
     (let hook_output = (case d of
          Deny reason \<Rightarrow> json_obj [(''hookSpecificOutput'', json_obj [
            (''hookEventName'', CString ''PreToolUse''), (''permissionDecision'', CString ''deny''),
            (''permissionDecisionReason'', CString (''denied by Astrid policy (rule: '' @ reason @ '')''))])]
        | Allow \<Rightarrow> json_obj [(''continue'', CBool True)])
      in call_reply H req_id (CString (case bh_print H hook_output of Some s \<Rightarrow> s
           | None \<Rightarrow> [CHR 0x7B, CHR 0x22] @ ''continue'' @ [CHR 0x22] @ '':true'' @ [CHR 0x7D])) False [])"

definition verdict_body :: "decision \<Rightarrow> canonical_json" where
  "verdict_body d = (case d of
     Deny reason \<Rightarrow> json_obj [(''skip'', CBool True), (''reason'', CString reason)]
   | Allow \<Rightarrow> json_obj [(''skip'', CBool False)])"

section \<open>Policy\<close>

definition policy_rules :: "broker_host \<Rightarrow> rule list broker_op" where
  "policy_rules H = do {
     w \<leftarrow> State_Monad.get;
     let loaded = load_rules (bh_rules H) (in_policy (bw_in w));
     (case snd loaded of None \<Rightarrow> ret ()
      | Some reason \<Rightarrow> send (audit_topic ''policy_load_failed'') (json_obj [(''reason'', CString reason)]));
     ret (fst loaded) }"

definition policy_decision :: "broker_host \<Rightarrow> string \<Rightarrow> canonical_json \<Rightarrow> decision broker_op" where
  "policy_decision H tool arguments = do { rules \<leftarrow> policy_rules H; ret (evaluate (bh_policy H) rules tool arguments) }"

definition audit_denial :: "string \<Rightarrow> string \<Rightarrow> decision \<Rightarrow> unit broker_op" where
  "audit_denial event tool d = (case d of Allow \<Rightarrow> ret ()
     | Deny reason \<Rightarrow> send (audit_topic event) (json_obj [(''tool'', CString tool), (''rule'', CString reason)]))"

definition pretooluse_gate_reply :: "broker_host \<Rightarrow> call_request \<Rightarrow> canonical_json broker_op" where
  "pretooluse_gate_reply H req = do {
     let tool = json_str_member (cr_arguments req) ''tool_name'';
     d \<leftarrow> policy_decision H tool (gate_tool_input H (cr_arguments req));
     audit_denial ''pretooluse_deny'' tool d;
     ret (gate_reply_body H (cr_req_id req) d) }"

section \<open>Outcomes of a dispatch\<close>

definition grant_required_reply :: "broker_host \<Rightarrow> call_request \<Rightarrow> string \<Rightarrow> grant_required \<Rightarrow> canonical_json broker_op" where
  "grant_required_reply H req pr grant = do {
     recorded \<leftarrow> recorded_grant_decision (gr_capsule_id grant);
     case grant_action recorded of
       AutoApprove \<Rightarrow> do {
         published \<leftarrow> publish_grant_auto_decision (gr_request_id grant) True;
         if published then do {
           send (audit_topic ''grant_auto_approved'') (json_obj [(''capsule'', CString (gr_capsule_id grant))]);
           ret (grant_auto_approve_reply (cr_req_id req) (gr_capsule_id grant)) }
         else ret (grant_unroutable_reply (cr_req_id req) (gr_capsule_id grant)) }
     | AutoDeny \<Rightarrow> do {
         published \<leftarrow> publish_grant_auto_decision (gr_request_id grant) False;
         (if published
          then send (audit_topic ''grant_auto_denied'') (json_obj [(''capsule'', CString (gr_capsule_id grant))])
          else ret ());
         ret (grant_auto_deny_reply (cr_req_id req) (gr_capsule_id grant) pr) }
     | Prompt \<Rightarrow> do {
         pending \<leftarrow> grant_pending pr (gr_capsule_id grant);
         if pending then ret (grant_dedup_reply (cr_req_id req))
         else do {
           mark_grant_pending pr (gr_capsule_id grant) (gr_request_id grant);
           ret (call_reply H (cr_req_id req) (CString []) False
             [(''grant_required'', grant_flag grant (cr_name req) (cr_req_id req))]) } } }"

definition outcome_reply :: "broker_host \<Rightarrow> call_request \<Rightarrow> string \<Rightarrow> string \<Rightarrow> dispatch_outcome \<Rightarrow> canonical_json broker_op" where
  "outcome_reply H req pr provider outcome = (case outcome of
     DispatchResult content is_error \<Rightarrow> ret (call_reply H (cr_req_id req) content is_error [])
   | DispatchApproval r delivery_id \<Rightarrow> do {
       kept \<leftarrow> remember_pending_result_route H (ar_request_id r) (cr_name req) (cr_req_id req) provider delivery_id;
       if kept then ret (call_reply H (cr_req_id req) (CString []) False
         [(''approval_required'', approval_flag r (cr_name req) (cr_req_id req))])
       else do {
         deny_untracked_approval (ar_request_id r);
         ret (call_reply H (cr_req_id req)
           (CString ''tool approval could not retain provider identity'') True []) } }
   | DispatchGrant grant \<Rightarrow> grant_required_reply H req pr grant
   | DispatchFailed message \<Rightarrow> ret (call_reply H (cr_req_id req) (CString message) True []))"

section \<open>Handlers\<close>

definition handle_mcp_list :: "broker_host \<Rightarrow> canonical_json \<Rightarrow> unit broker_op" where
  "handle_mcp_list H payload = (case bh_list_request H payload of None \<Rightarrow> ret () | Some req_id \<Rightarrow>
     case reply_topic req_id of None \<Rightarrow> ret () | Some topic \<Rightarrow> do {
       snapshot \<leftarrow> collect_snapshot H;
       send topic (json_obj [(''kind'', CString ''tools.list''), (''req_id'', CString req_id),
         (''tools'', CArray (to_mcp_descriptors snapshot))]) })"

text \<open>What follows the ingress gate: policy, provider, dispatch.\<close>

definition trusted_call :: "broker_host \<Rightarrow> call_request \<Rightarrow> string \<Rightarrow> canonical_json broker_op" where
  "trusted_call H req pr = do {
     d \<leftarrow> policy_decision H (cr_name req) (cr_arguments req);
     case d of
       Deny reason \<Rightarrow> do {
         audit_denial ''policy_deny'' (cr_name req) d;
         ret (call_reply H (cr_req_id req)
           (CString (log_tag @ '': tool call denied by policy (rule: '' @ reason @ '')'')) True []) }
     | Allow \<Rightarrow> do {
         provider \<leftarrow> provider_source_id H (cr_name req);
         case provider of
           None \<Rightarrow> ret (call_reply H (cr_req_id req)
             (CString (log_tag @ '': tool provider identity is unavailable'')) True [])
         | Some p \<Rightarrow> do {
             outcome \<leftarrow> dispatch_with_approval H (cr_name req) (cr_req_id req) (cr_arguments req) p;
             outcome_reply H req pr p outcome } } }"

definition gated_call :: "broker_host \<Rightarrow> call_request \<Rightarrow> canonical_json broker_op" where
  "gated_call H req =
     (if cr_name req = pretooluse_gate_tool then pretooluse_gate_reply H req
      else do {
        ctx \<leftarrow> caller;
        case ctx of
          None \<Rightarrow> ret (call_reply H (cr_req_id req)
            (CString (log_tag @ '': caller context unavailable; tool call rejected'')) True [])
        | Some ctx \<Rightarrow> do {
            trusted \<leftarrow> is_ingress_trusted (cc_source_id ctx);
            if \<not> trusted then do {
              mark_ingress_pending (cc_source_id ctx);
              let guidance = ingress_consent_guidance (cc_source_id ctx);
              ret (call_reply H (cr_req_id req) (CString guidance) False
                [(''ingress_approval_required'', CBool True), (''source_id'', CString (cc_source_id ctx)),
                 (''tool_name'', CString (cr_name req)), (''message'', CString guidance)]) }
            else trusted_call H req (case cc_principal ctx of Some p \<Rightarrow> p | None \<Rightarrow> []) } })"

definition handle_mcp_call :: "broker_host \<Rightarrow> canonical_json \<Rightarrow> unit broker_op" where
  "handle_mcp_call H payload = (case bh_call_request H payload of None \<Rightarrow> ret () | Some req \<Rightarrow>
     case reply_topic (cr_req_id req) of None \<Rightarrow> ret () | Some topic \<Rightarrow> do {
       reply \<leftarrow> gated_call H req;
       send topic reply })"

section \<open>The hook before native tool calls\<close>

definition hook_reply_topic :: "string \<Rightarrow> string option" where
  "hook_reply_topic correlation_id =
     (if clean_segment correlation_id then Some (''hook.v1.response.before_tool_call.'' @ correlation_id) else None)"

definition hook_verdict :: "broker_host \<Rightarrow> string \<Rightarrow> canonical_json \<Rightarrow> canonical_json broker_op" where
  "hook_verdict H tool input = do {
     d \<leftarrow> policy_decision H tool input;
     audit_denial ''pretooluse_deny'' tool d;
     ret (verdict_body d) }"

definition handle_before_tool_call :: "broker_host \<Rightarrow> canonical_json \<Rightarrow> unit broker_op" where
  "handle_before_tool_call H payload = (case bh_before_tool_call H payload of None \<Rightarrow> ret () | Some event \<Rightarrow>
     case bt_correlation_id event of None \<Rightarrow> ret () | Some correlation_id \<Rightarrow>
     case hook_reply_topic correlation_id of None \<Rightarrow> ret () | Some topic \<Rightarrow> do {
       reply \<leftarrow> hook_verdict H (json_str_member (bt_payload event) ''tool_name'') (gate_tool_input H (bt_payload event));
       send topic reply })"

end
