(* ===== verification/Broker_Frame.thy ===== *)
theory Broker_Frame
  imports Broker
begin

text \<open>
  A small host of the broker on which its properties are exercised: one tool, one provider, one session. Its
  codecs know the values that arise.
\<close>

definition demo_tool :: mcp_tool_descriptor where
  "demo_tool = \<lparr>td_name = ''echo'', td_provider_source_id = ''prov'', td_title = None, td_description = [],
     td_input_schema = CNull, td_capabilities = None\<rparr>"

definition demo_cache :: cache_state where
  "demo_cache = \<lparr>ch_updated_at_ms = 5, ch_tools = [(''echo'', demo_tool)]\<rparr>"

definition demo_route :: pending_result_route where
  "demo_route = \<lparr>pr_tool_name = ''echo'', pr_call_id = ''r-1'', pr_provider_source_id = ''prov'',
     pr_delivery_id = Some ''d-1'', pr_created_at_ms = 5\<rparr>"

definition two_values :: "'a \<Rightarrow> 'a \<Rightarrow> 'a json_codec" where
  "two_values a b = \<lparr>jc_encode = (\<lambda>x. if x = a then Ok ''a'' else if x = b then Ok ''b'' else Err ''unknown''),
     jc_decode = (\<lambda>s. if s = ''a'' then Ok a else if s = ''b'' then Ok b else Err ''unknown'')\<rparr>"

lemma two_values_ok: "a \<noteq> b \<Longrightarrow> json_codec_ok (two_values a b)"
  by (auto simp: json_codec_ok_def two_values_def split: if_splits)

definition demo_parse :: "string \<Rightarrow> canonical_json option" where
  "demo_parse s =
     (if s = ''tools'' then Some (json_obj [(''tools'', CArray [CNull])])
      else if s = ''result'' then Some (json_obj [(''call_id'', CString ''r-1''),
        (''result'', json_obj [(''content'', CString ''hi''), (''is_error'', CBool False)])])
      else if s = ''grant'' then Some (json_obj [(''type'', CString ''grant_required''), (''request_id'', CString ''g-1'')])
      else None)"

definition demo_host :: broker_host where
  "demo_host = \<lparr>bh_parse = demo_parse, bh_print = (\<lambda>_. Some ''null''),
     bh_uuid = (\<lambda>s. if s = ''prov'' then Some 7 else if s = ''d-1'' then Some 9 else None),
     bh_uuid_simple = (\<lambda>i. if i = 9 then ''d-1'' else ''prov''),
     bh_approval_required = (\<lambda>_. None),
     bh_grant_required = (\<lambda>_. Some \<lparr>gr_request_id = ''g-1'', gr_principal = ''alice'', gr_capsule_id = ''cap''\<rparr>),
     bh_approval_respond = (\<lambda>_. Some \<lparr>av_req_id = ''r-4'', av_request_id = ''a-1'', av_decision = ''approve'',
       av_tool_name = ''echo'', av_call_id = ''r-1'', av_reason = None\<rparr>),
     bh_ingress_respond = (\<lambda>_. Some \<lparr>iv_req_id = ''r-2'', iv_accept = True\<rparr>),
     bh_grant_respond = (\<lambda>_. Some \<lparr>gv_req_id = ''r-3'', gv_request_id = ''g-1'', gv_decision = ''Approve'',
       gv_capsule_id = ''cap''\<rparr>),
     bh_list_request = (\<lambda>_. Some ''r-0''),
     bh_call_request = (\<lambda>_. Some \<lparr>cr_req_id = ''r-1'', cr_name = ''echo'', cr_arguments = CNull\<rparr>),
     bh_before_tool_call = (\<lambda>_. None),
     bh_descriptor = (\<lambda>_. Some (demo_tool\<lparr>td_provider_source_id := ''forged''\<rparr>)),
     bh_routes = two_values [] [(''a-1'', demo_route)],
     bh_cache = two_values cache_default demo_cache,
     bh_policy = demo_json, bh_rules = (\<lambda>_. None)\<rparr>"

lemma demo_codecs: "json_codec_ok (bh_cache demo_host)" "json_codec_ok (bh_routes demo_host)"
  by (simp_all add: demo_host_def two_values_ok cache_default_def demo_cache_def)

definition demo_message :: "string \<Rightarrow> bus_message" where
  "demo_message payload = \<lparr>bm_topic = ''topic'', bm_payload = payload, bm_source_id = ''prov'', bm_verified = None\<rparr>"

definition demo_inputs :: broker_inputs where
  "demo_inputs = \<lparr>in_caller = Some \<lparr>cc_source_id = ''cli'', cc_principal = Some ''alice''\<rparr>, in_clock = [5, 5, 5, 5],
     in_kv_faults = [], in_bus_faults = [], in_subscribe_faults = [], in_delivery_id = ''d-1'', in_policy = EnvUnset,
     in_failures = [], in_signals = [], in_results = [], in_describes = [[demo_message ''tools'']]\<rparr>"

definition demo_world :: broker_world where
  "demo_world = \<lparr>bw_kv = [], bw_bus = [], bw_in = demo_inputs\<rparr>"

text \<open>
  What every operation of the broker keeps. \<open>world_law\<close> is the interface between a predicate of the world and
  the host calls: which writes, deletions and publications the predicate tolerates; \<open>broker_law\<close> adds what
  the predicate knows of the two stored maps. The lemmas of \<open>broker_law\<close> say of each operation which of the
  sensitive effects (consent records, replies, decisions, dispatches) it needs to be tolerated.
\<close>

section \<open>Inputs\<close>

text \<open>Host calls consume inputs, but leave the caller, the policy and the id of the publication, and the polls of
  results to come are among those that were to come.\<close>

definition advances :: "broker_inputs \<Rightarrow> broker_inputs \<Rightarrow> bool" where
  "advances i j \<longleftrightarrow> in_caller j = in_caller i \<and> in_policy j = in_policy i \<and> in_delivery_id j = in_delivery_id i \<and>
     (in_bus_faults i = [] \<longrightarrow> in_bus_faults j = []) \<and> set (in_results j) \<subseteq> set (in_results i)"

lemma set_tl: "set (tl xs) \<subseteq> set xs"
  by (cases xs) auto

section \<open>The interface\<close>

locale world_law =
  fixes I :: "broker_world \<Rightarrow> bool"
    and writable :: "string \<Rightarrow> string \<Rightarrow> bool"
    and erasable :: "string \<Rightarrow> bool"
    and sendable :: "string \<Rightarrow> canonical_json \<Rightarrow> bool"
  assumes law_inputs: "I w \<Longrightarrow> advances (bw_in w) i \<Longrightarrow> I (w\<lparr>bw_in := i\<rparr>)"
    and law_write: "I w \<Longrightarrow> writable k v \<Longrightarrow> I (bw_kv_update (bt_insert k v) w)"
    and law_erase: "I w \<Longrightarrow> erasable k \<Longrightarrow> I (bw_kv_update (bt_delete k) w)"
    and law_send: "I w \<Longrightarrow> sendable t m \<Longrightarrow> I (bw_bus_update (\<lambda>bus. bus @ [(t, m)]) w)"
begin

lemma keeps_next_input:
  assumes "\<And>i xs ys. sel i = xs \<Longrightarrow> advances i (upd (\<lambda>_. tl xs) i)"
  shows "keeps_world I (next_input sel upd d)"
  unfolding keeps_world_def
proof (intro allI impI)
  fix w assume "I w"
  then show "I (snd (run_state (next_input sel upd d) w))"
    using law_inputs[OF \<open>I w\<close>] assms[OF refl, of "bw_in w"]
    by (cases "sel (bw_in w)") (simp_all add: next_input_def)
qed

lemma keeps_wall_ms [stays]: "keeps_world I wall_ms"
  unfolding wall_ms_def by (rule keeps_next_input) (simp add: advances_def)

lemma keeps_kv_fails [stays]: "keeps_world I kv_fails"
  unfolding kv_fails_def by (rule keeps_next_input) (simp add: advances_def)

lemma keeps_subscribe_fails [stays]: "keeps_world I subscribe_fails"
  unfolding subscribe_fails_def by (rule keeps_next_input) (simp add: advances_def)

lemma keeps_bus_faults [stays]: "keeps_world I (next_input in_bus_faults in_bus_faults_update False)"
  by (rule keeps_next_input) (auto simp: advances_def)

lemma keeps_polls [stays]:
  "keeps_world I (next_input in_failures in_failures_update x)"
  "keeps_world I (next_input in_signals in_signals_update y)"
  "keeps_world I (next_input in_results in_results_update z)"
  by (rule keeps_next_input, simp add: advances_def set_tl)+

lemma keeps_describes [stays]:
  "keeps_world I (State_Monad.update (bw_in_update (in_describes_update f)))"
proof (rule keeps_update)
  fix w assume "I w"
  from law_inputs[OF this, of "in_describes_update f (bw_in w)"]
  show "I (bw_in_update (in_describes_update f) w)" by (cases w) (simp add: advances_def)
qed

lemma keeps_caller [stays]: "keeps_world I caller"
  unfolding caller_def by (intro stays)

lemma keeps_bk_get [stays]: "keeps_world I (bk_get k)"
  unfolding bk_get_def by (intro stays)

lemma yields_bk_get:
  assumes "\<And>w v. I w \<Longrightarrow> bt_get (bw_kv w) k = Some v \<Longrightarrow> R v"
  shows "yields I (bk_get k) (\<lambda>r. \<forall>v. r = Ok (Some v) \<longrightarrow> R v)"
  unfolding bk_get_def
  by (rule yields_bind[OF keeps_yields[OF keeps_kv_fails]], rule yields_bind[OF yields_get], rule yields_ret)
    (use assms in auto)

lemma keeps_bk_set [stays]: "writable k v \<Longrightarrow> keeps_world I (bk_set k v)"
  unfolding bk_set_def by (intro stays keeps_update law_write)

lemma keeps_bk_delete [stays]: "erasable k \<Longrightarrow> keeps_world I (bk_delete k)"
  unfolding bk_delete_def by (intro stays keeps_update law_erase)

lemma keeps_bk_cas [stays]: "writable k v \<Longrightarrow> keeps_world I (bk_cas k e v)"
  unfolding bk_cas_def by (intro stays keeps_update law_write)

lemma keeps_publish_json [stays]: "sendable t m \<Longrightarrow> keeps_world I (publish_json t m)"
  unfolding publish_json_def by (intro stays keeps_update law_send)

lemma keeps_send [stays]: "sendable t m \<Longrightarrow> keeps_world I (send t m)"
  unfolding send_def by (intro stays)

lemma keeps_discard [stays]: "keeps_world I m \<Longrightarrow> keeps_world I (discard m)"
  unfolding discard_def by (intro stays)

end

section \<open>What the stored maps hold\<close>

definition admissible_route :: "broker_host \<Rightarrow> string \<Rightarrow> pending_result_route \<Rightarrow> bool" where
  "admissible_route H request_id r \<longleftrightarrow> clean_segment request_id \<and> is_valid_tool_name (pr_tool_name r) \<and>
     clean_segment (pr_call_id r) \<and> is_valid_provider_source_id H (pr_provider_source_id r) \<and>
     (case pr_delivery_id r of None \<Rightarrow> True | Some i \<Rightarrow> is_valid_delivery_id H i) \<and> pr_created_at_ms r \<noteq> 0"

definition attributed :: "broker_host \<Rightarrow> mcp_tool_descriptor list \<Rightarrow> bool" where
  "attributed H ds \<longleftrightarrow> list_all (\<lambda>d. is_valid_provider_source_id H (td_provider_source_id d)) ds"

lemma attributed_bind_provider: "attributed H (bind_provider H ds s)"
  by (auto simp: attributed_def bind_provider_def list_all_iff)

lemma attributed_empty: "attributed H []"
  by (simp add: attributed_def)

lemma attributed_collected: "attributed H (collected H batches)"
proof -
  have concats: "attributed H (concat xss)" if "\<forall>xs \<in> set xss. attributed H xs" for xss
    using that by (simp add: attributed_def list_all_iff)
  show ?thesis
    unfolding collected_def
    by (rule concats) (auto simp: attributed_bind_provider attributed_empty split: option.splits)
qed

lemma set_retain_new: "set (retain_new seen ds) \<subseteq> set ds"
  by (induction seen ds rule: retain_new.induct) auto

lemma attributed_dedupe_last: "attributed H ds \<Longrightarrow> attributed H (dedupe_last ds)"
  using set_retain_new[of "{}" "rev ds"] by (auto simp: attributed_def dedupe_last_def list_all_iff)

lemma attributed_static:
  assumes "static_tools_of_capsule H c = Some ds"
  shows "attributed H ds"
  using assms
  by (auto simp: static_tools_of_capsule_def attributed_def list_all_iff List.map_filter_def static_tool_def
      split: option.splits if_splits)

lemma attributed_collect_static: "collect_static H cs = Some ds \<Longrightarrow> attributed H ds"
  by (induction cs arbitrary: ds) (auto dest: attributed_static simp: attributed_def split: option.splits)

lemma attributed_payload: "static_tools_from_payload H p = Some ds \<Longrightarrow> attributed H ds"
  by (auto simp: static_tools_from_payload_def bind_eq_Some_conv intro: attributed_collect_static)

locale broker_law = world_law +
  fixes H :: broker_host
    and good_cache :: "cache_state \<Rightarrow> bool"
    and good_routes :: "pending_result_routes \<Rightarrow> bool"
  assumes cache_read: "I w \<Longrightarrow> bt_get (bw_kv w) cache_key = Some b \<Longrightarrow> jc_decode (bh_cache H) b = Ok c \<Longrightarrow> good_cache c"
    and cache_write: "good_cache c \<Longrightarrow> jc_encode (bh_cache H) c = Ok b \<Longrightarrow> writable cache_key b"
    and cache_empty: "good_cache cache_default"
    and cache_merge: "good_cache c \<Longrightarrow> attributed H ds \<Longrightarrow>
      good_cache \<lparr>ch_updated_at_ms = now, ch_tools = merge_tools ds (ch_tools c)\<rparr>"
    and cache_take: "attributed H ds \<Longrightarrow> good_cache \<lparr>ch_updated_at_ms = now, ch_tools = take_tools ds []\<rparr>"
    and routes_read: "I w \<Longrightarrow> bt_get (bw_kv w) pending_result_routes_key = Some b \<Longrightarrow>
      jc_decode (bh_routes H) b = Ok rs \<Longrightarrow> good_routes rs"
    and routes_write: "good_routes rs \<Longrightarrow> jc_encode (bh_routes H) rs = Ok b \<Longrightarrow> writable pending_result_routes_key b"
    and routes_empty: "good_routes []"
    and routes_remember: "good_routes rs \<Longrightarrow> admissible_route H i r \<Longrightarrow> good_routes (remember_route now i r rs)"
    and routes_take: "good_routes rs \<Longrightarrow> good_routes (retain_fresh now (bt_delete i rs))"
    and marker_write: "encode_grant_pending_marker now i = Some v \<Longrightarrow> writable (''mcp.grant.pending.'' @ capsule) v"
    and marker_erase: "erasable (''mcp.grant.pending.'' @ capsule)"
    and audit_send: "sendable (audit_topic e) m"
    and tools_list_send: "sendable tools_list_topic m"
    and describe_send: "sendable ''tool.v1.request.describe'' m"
begin

lemmas law_sends [stays] = keeps_send[OF audit_send] keeps_send[OF tools_list_send] keeps_publish_json[OF describe_send]

subsection \<open>The tool cache\<close>

lemma good_decode_cache:
  "I w \<Longrightarrow> (\<And>v. b = Some v \<Longrightarrow> bt_get (bw_kv w) cache_key = Some v) \<Longrightarrow> good_cache (decode_cache H b)"
  by (auto simp: decode_cache_def cache_empty intro: cache_read split: option.splits sum.splits)

lemma yields_cache_get:
  "yields I (bk_get cache_key) (\<lambda>r. good_cache (decode_cache H (case r of Ok b \<Rightarrow> b | Err _ \<Rightarrow> None)))"
proof (rule yields_weaken[OF yields_bk_get[where R = "\<lambda>v. good_cache (decode_cache H (Some v))"]])
  show "good_cache (decode_cache H (Some v))" if "I w" "bt_get (bw_kv w) cache_key = Some v" for w v
    using that by (auto intro: good_decode_cache)
qed (auto simp: decode_cache_def cache_empty split: sum.splits option.splits)

lemma yields_cache_load: "yields I (cache_load H) good_cache"
  unfolding cache_load_def by (rule yields_bind[OF yields_cache_get], rule yields_ret)

lemma yields_bind_keeps: "keeps_world I m \<Longrightarrow> (\<And>x. yields I (f x) S) \<Longrightarrow> yields I (State_Monad.bind m f) S"
  by (rule yields_bind[OF keeps_yields])

lemma yields_upsert_retry: "attributed H ds \<Longrightarrow> yields I (upsert_retry H ds n) good_cache"
proof (induction n)
  case (Suc n)
  show ?case
    unfolding upsert_retry.simps Let_def
  proof (rule yields_bind[OF yields_cache_get], rule yields_bind_keeps[OF keeps_wall_ms])
    fix r :: "unit + string option" and now
    let ?e = "case r of Ok b \<Rightarrow> b | Err _ \<Rightarrow> None"
    let ?c = "\<lparr>ch_updated_at_ms = now, ch_tools = merge_tools ds (ch_tools (decode_cache H ?e))\<rparr>"
    assume "good_cache (decode_cache H ?e)"
    with Suc.prems have good: "good_cache ?c" by (intro cache_merge)
    have "yields I (bk_cas cache_key ?e b \<bind> (\<lambda>won. case won of Ok s \<Rightarrow> if s then ret ?c else upsert_retry H ds n
        | Err _ \<Rightarrow> ret ?c)) good_cache" if "jc_encode (bh_cache H) ?c = Ok b" for b
      using cache_write[OF good that] good Suc
      by (intro yields_bind_keeps keeps_bk_cas) (auto intro: yields_ret split: sum.splits)
    with good show "yields I (case jc_encode (bh_cache H) ?c of Ok b \<Rightarrow> bk_cas cache_key ?e b \<bind>
        (\<lambda>won. case won of Ok s \<Rightarrow> if s then ret ?c else upsert_retry H ds n | Err _ \<Rightarrow> ret ?c) | Err _ \<Rightarrow> ret ?c) good_cache"
      by (auto intro: yields_ret split: sum.splits)
  qed
qed (simp add: yields_cache_load)

lemma yields_cache_upsert: "attributed H ds \<Longrightarrow> yields I (cache_upsert H ds) good_cache"
  by (simp add: cache_upsert_def yields_cache_load yields_upsert_retry)

lemma keeps_cache_replace [stays]: "attributed H ds \<Longrightarrow> keeps_world I (cache_replace H ds)"
  unfolding cache_replace_def Let_def
  by (intro stays yields_keeps[OF yields_cache_upsert]; (assumption | rule cache_write[OF cache_take]; assumption))

lemma keeps_cache_invalidate [stays]: "keeps_world I (cache_invalidate H)"
  using cache_write[OF cache_empty]
  by (auto simp: cache_invalidate_def intro!: keeps_ret keeps_discard keeps_bk_set split: sum.splits)

lemma yields_discover: "yields I (discover H) (attributed H)"
  unfolding discover_def
  apply (intro yields_bind_keeps keeps_subscribe_fails)
  subgoal for failed
    apply (cases failed)
    subgoal by (simp add: yields_ret attributed_def)
    subgoal
      apply (simp only: if_False simp_thms if_cancel)
      apply (rule yields_bind_keeps[OF keeps_publish_json[OF describe_send]])
      subgoal for r
        by (cases r) (auto intro!: yields_bind_keeps yields_ret attributed_dedupe_last attributed_collected stays
            simp: attributed_def)
      done
    done
  done

lemma keeps_collect_snapshot [stays]: "keeps_world I (collect_snapshot H)"
  unfolding collect_snapshot_def
  by (rule keeps_bind_yields[OF yields_cache_load], rule keeps_world_bind[OF keeps_wall_ms], rule keeps_world_if,
      rule keeps_ret, rule keeps_bind_yields[OF yields_discover], rule keeps_world_if, rule keeps_ret) (intro stays)

lemma keeps_provider_source_id [stays]: "keeps_world I (provider_source_id H tool)"
  unfolding provider_source_id_def by (intro stays)

lemma keeps_publish_tools_list [stays]: "keeps_world I (publish_tools_list ds)"
  unfolding publish_tools_list_def by (intro stays)

lemma keeps_describe_tools: "keeps_world I (describe_tools H)"
  unfolding describe_tools_def by (intro stays)

lemma keeps_collect_tool_descriptors: "keeps_world I (collect_tool_descriptors H p)"
  unfolding collect_tool_descriptors_def Let_def
  by (intro stays yields_keeps[OF yields_cache_upsert] attributed_bind_provider)

lemma keeps_on_capsules_loaded: "keeps_world I (on_capsules_loaded H p)"
  unfolding on_capsules_loaded_def by (intro stays attributed_payload)

end

end
