(* ===== verification/Broker_Handlers.thy ===== *)
theory Broker_Handlers
  imports Broker_Frame
begin

text \<open>
  The lemmas of \<open>broker_law\<close> for the consent records, the dispatch and the handlers. Their premises name the
  sensitive effects of each: the consent records it writes and the messages it puts before others.
\<close>

context broker_law
begin

section \<open>Consent records\<close>

lemma keeps_is_ingress_trusted [stays]: "keeps_world I (is_ingress_trusted s)"
  unfolding is_ingress_trusted_def by (intro stays)

lemma keeps_mark_ingress_pending:
  "(\<And>k. ingress_pending_key s = Some k \<Longrightarrow> writable k ''1'') \<Longrightarrow> keeps_world I (mark_ingress_pending s)"
  unfolding mark_ingress_pending_def by (intro stays)

lemma keeps_take_ingress_pending:
  assumes "\<And>k. ingress_pending_key s = Some k \<Longrightarrow> erasable k"
  shows "keeps_world I (take_ingress_pending s)"
proof -
  have "keeps_world I (case r of Ok (Some _) \<Rightarrow> bk_delete k \<bind> (\<lambda>_. ret True) | Ok None \<Rightarrow> ret False | Err _ \<Rightarrow> ret False)"
    if "erasable k" for k and r :: "unit + string option"
    using that by (intro stays)
  then show ?thesis unfolding take_ingress_pending_def by (intro stays assms)
qed

lemma marker_erase_key: "grant_pending_key pr c = Some k \<Longrightarrow> erasable k"
  using marker_erase[of c] by (auto simp: grant_pending_key_def split: if_splits)

lemma keeps_grant_pending [stays]: "keeps_world I (grant_pending pr c)"
  unfolding grant_pending_def marker_is_fresh_def by (intro stays; rule marker_erase_key; assumption)

lemma keeps_mark_grant_pending [stays]: "keeps_world I (mark_grant_pending pr c i)"
  unfolding mark_grant_pending_def
  using marker_write[where capsule = c] by (intro stays) (auto simp: grant_pending_key_def split: if_splits)

lemma keeps_disposition: "keeps_world I m \<Longrightarrow> keeps_world I n \<Longrightarrow>
    keeps_world I (case d of Match \<Rightarrow> m | Mismatch \<Rightarrow> ret False | Malformed \<Rightarrow> ret False | Stale \<Rightarrow> n)"
  by (cases d) (simp_all add: stays)

lemma keeps_take_grant_pending [stays]: "keeps_world I (take_grant_pending pr c i)"
  unfolding take_grant_pending_def by (intro stays keeps_disposition; rule marker_erase_key; assumption)

lemma keeps_record_grant_decision:
  "(\<And>k. grant_decision_key c = Some k \<Longrightarrow> writable k (as_kv_value d)) \<Longrightarrow> keeps_world I (record_grant_decision c d)"
  unfolding record_grant_decision_def by (intro stays)

lemma keeps_recorded_grant_decision [stays]: "keeps_world I (recorded_grant_decision c)"
  unfolding recorded_grant_decision_def by (intro stays)

section \<open>Routes of parked calls\<close>

lemma yields_load_routes: "yields I (load_pending_result_routes H) good_routes"
  unfolding load_pending_result_routes_def
proof (rule yields_bind[OF yields_bk_get[where R = "\<lambda>v. \<forall>rs. jc_decode (bh_routes H) v = Ok rs \<longrightarrow> good_routes rs"]])
  show "\<forall>rs. jc_decode (bh_routes H) v = Ok rs \<longrightarrow> good_routes rs"
    if "I w" "bt_get (bw_kv w) pending_result_routes_key = Some v" for w v
    using routes_read that by blast
qed (auto intro!: yields_ret routes_empty split: sum.splits option.splits)

lemma keeps_persist_routes: "good_routes rs \<Longrightarrow> keeps_world I (persist_pending_result_routes H rs)"
  using routes_write
  by (auto simp: persist_pending_result_routes_def intro!: stays split: sum.splits)

lemma keeps_remember_route [stays]:
  "keeps_world I (remember_pending_result_route H i tool call provider delivery)"
  unfolding remember_pending_result_route_def
  by (intro keeps_world_if keeps_ret keeps_world_bind[OF keeps_wall_ms] keeps_bind_yields[OF yields_load_routes]
        keeps_persist_routes routes_remember)
    (auto simp: admissible_route_def response_topic_def reply_topic_def split: if_splits option.splits)

lemma keeps_take_route [stays]: "keeps_world I (take_pending_result_route H req)"
  unfolding take_pending_result_route_def
  by (rule keeps_world_bind[OF keeps_wall_ms], rule keeps_bind_yields[OF yields_load_routes])
    (intro stays keeps_persist_routes routes_take)

section \<open>Dispatch\<close>

lemma keeps_poll_failure [stays]: "keeps_world I (poll_failure H d t pr)"
  unfolding poll_failure_def by (intro stays)

lemma keeps_subscribe_failures [stays]: "keeps_world I (subscribe_failures H d)"
  unfolding subscribe_failures_def by (intro stays)

lemma keeps_poll_signal [stays]: "keeps_world I (poll_signal H)"
  unfolding poll_signal_def by (intro stays)

lemma keeps_drain [stays]: "keeps_world I (drain H tool call provider d pr n)"
  by (induction n) (unfold drain.simps, (intro stays; assumption?)+)

lemma keeps_drain_result [stays]: "keeps_world I (drain_result H call route pr n)"
  by (induction n) (unfold drain_result.simps, (intro stays; assumption?)+)

lemma keeps_dispatch:
  "(\<And>m. sendable (''tool.v1.execute.'' @ tool) m) \<Longrightarrow> keeps_world I (dispatch_with_approval H tool call args provider)"
  unfolding dispatch_with_approval_def Let_def by (intro stays; assumption)

section \<open>Messages\<close>

lemma keeps_publish_decision:
  "sendable t (decision_envelope i d r) \<Longrightarrow> keeps_world I (publish_decision t i d r)"
  unfolding publish_decision_def by (intro stays)

lemma keeps_auto_decision:
  assumes "\<And>t. response_topic i = Some t \<Longrightarrow> sendable t (decision_envelope i (if b then ''approve'' else ''deny'') None)"
  shows "keeps_world I (publish_grant_auto_decision i b)"
  unfolding publish_grant_auto_decision_def by (intro stays keeps_publish_decision assms)

lemma keeps_deny_untracked:
  "(\<And>t. response_topic i = Some t \<Longrightarrow> sendable t (decision_envelope i ''deny'' None)) \<Longrightarrow>
     keeps_world I (deny_untracked_approval i)"
  unfolding deny_untracked_approval_def by (intro stays keeps_publish_decision)

lemma keeps_to_shim: "(\<And>t. reply_topic r = Some t \<Longrightarrow> sendable t m) \<Longrightarrow> keeps_world I (to_shim r m)"
  unfolding to_shim_def by (intro stays)

lemma keeps_deliver_error:
  "(\<And>t m. reply_topic r = Some t \<Longrightarrow> sendable t m) \<Longrightarrow> keeps_world I (deliver_error H r x)"
  unfolding deliver_error_def deliver_result_def by (intro keeps_to_shim)

lemma keeps_policy_decision [stays]: "keeps_world I (policy_decision H tool args)"
  unfolding policy_decision_def policy_rules_def Let_def by (intro stays)

lemma keeps_audit_denial [stays]: "keeps_world I (audit_denial e tool d)"
  unfolding audit_denial_def by (cases d) (simp_all add: stays)

section \<open>Calls\<close>

lemma keeps_pretooluse_gate_reply [stays]: "keeps_world I (pretooluse_gate_reply H req)"
  unfolding pretooluse_gate_reply_def Let_def by (intro stays)

lemma keeps_grant_required_reply:
  assumes recorded: "yields I (recorded_grant_decision (gr_capsule_id g)) R"
    and approve: "\<And>t. R (Some GrantApprove) \<Longrightarrow> response_topic (gr_request_id g) = Some t \<Longrightarrow>
      sendable t (decision_envelope (gr_request_id g) ''approve'' None)"
    and deny: "\<And>t. response_topic (gr_request_id g) = Some t \<Longrightarrow> sendable t (decision_envelope (gr_request_id g) ''deny'' None)"
  shows "keeps_world I (grant_required_reply H req pr g)"
proof -
  have actions: "keeps_world I (case grant_action d of AutoApprove \<Rightarrow> a | AutoDeny \<Rightarrow> b | Prompt \<Rightarrow> c)"
    if "d = Some GrantApprove \<Longrightarrow> keeps_world I a" "keeps_world I b" "keeps_world I c" for d and a b c :: "'x broker_op"
    using that by (auto simp: grant_action_def split: option.splits grant_decision.splits)
  show ?thesis
    unfolding grant_required_reply_def
    by (rule keeps_bind_yields[OF recorded], intro stays actions keeps_auto_decision) (simp_all add: approve deny)
qed

lemma keeps_outcome_reply:
  assumes "\<And>c. yields I (recorded_grant_decision c) R"
    and "\<And>i t. R (Some GrantApprove) \<Longrightarrow> response_topic i = Some t \<Longrightarrow> sendable t (decision_envelope i ''approve'' None)"
    and "\<And>i t. response_topic i = Some t \<Longrightarrow> sendable t (decision_envelope i ''deny'' None)"
  shows "keeps_world I (outcome_reply H req pr p out)"
  unfolding outcome_reply_def
  by (cases out; simp only: dispatch_outcome.case;
      (intro stays keeps_grant_required_reply[OF assms] keeps_deny_untracked assms(3)); assumption)

lemma keeps_trusted_call:
  assumes "\<And>c. yields I (recorded_grant_decision c) R"
    and "\<And>i t. R (Some GrantApprove) \<Longrightarrow> response_topic i = Some t \<Longrightarrow> sendable t (decision_envelope i ''approve'' None)"
    and "\<And>i t. response_topic i = Some t \<Longrightarrow> sendable t (decision_envelope i ''deny'' None)"
    and policy: "yields I (policy_decision H (cr_name req) (cr_arguments req)) D"
    and "\<And>m. D Allow \<Longrightarrow> sendable (''tool.v1.execute.'' @ cr_name req) m"
  shows "keeps_world I (trusted_call H req pr)"
proof -
  have decisions: "keeps_world I (case d of Allow \<Rightarrow> a | Deny r \<Rightarrow> f r)"
    if "d = Allow \<Longrightarrow> keeps_world I a" "\<And>r. keeps_world I (f r)" for d and a :: "'x broker_op" and f
    using that by (cases d) simp_all
  show ?thesis
    unfolding trusted_call_def
    by (rule keeps_bind_yields[OF policy], rule decisions)
      (intro stays keeps_dispatch keeps_outcome_reply[OF assms(1-3)] assms(5); simp)+
qed

lemma keeps_gated_call:
  assumes caller: "yields I caller C"
    and trusted: "\<And>c. C (Some c) \<Longrightarrow> yields I (is_ingress_trusted (cc_source_id c)) (T c)"
    and call: "\<And>c pr. C (Some c) \<Longrightarrow> T c True \<Longrightarrow> keeps_world I (trusted_call H req pr)"
    and pending: "\<And>c k. cr_name req \<noteq> pretooluse_gate_tool \<Longrightarrow> C (Some c) \<Longrightarrow> ingress_pending_key (cc_source_id c) = Some k \<Longrightarrow> writable k ''1''"
  shows "keeps_world I (gated_call H req)"
  unfolding gated_call_def Let_def
  by (rule keeps_world_if, rule keeps_pretooluse_gate_reply, rule keeps_bind_yields[OF caller], rule keeps_world_option,
      rule keeps_ret, rule keeps_bind_yields[OF trusted], blast, rule keeps_world_if)
    (intro stays keeps_mark_ingress_pending pending call; simp)+

lemma keeps_mcp_call:
  assumes "\<And>req. bh_call_request H p = Some req \<Longrightarrow> reply_topic (cr_req_id req) \<noteq> None \<Longrightarrow> keeps_world I (gated_call H req)"
    and "\<And>r t m. reply_topic r = Some t \<Longrightarrow> sendable t m"
  shows "keeps_world I (handle_mcp_call H p)"
  unfolding handle_mcp_call_def by (intro stays assms; simp)

text \<open>The case in which the predicate tolerates every effect of a call.\<close>

lemma keeps_any_call:
  assumes "\<And>i t d. response_topic i = Some t \<Longrightarrow> sendable t (decision_envelope i d None)"
    and "\<And>tool m. sendable (''tool.v1.execute.'' @ tool) m"
    and "\<And>s k. ingress_pending_key s = Some k \<Longrightarrow> writable k ''1''"
    and "\<And>r t m. reply_topic r = Some t \<Longrightarrow> sendable t m"
  shows "keeps_world I (handle_mcp_call H p)"
proof (rule keeps_mcp_call)
  show "keeps_world I (gated_call H req)" for req
    by (rule keeps_gated_call[where C = "\<lambda>_. True" and T = "\<lambda>_ _. True"],
        rule keeps_yields[OF keeps_caller], rule keeps_yields[OF keeps_is_ingress_trusted],
        rule keeps_trusted_call[where R = "\<lambda>_. True" and D = "\<lambda>_. True"])
      (assumption | rule keeps_yields[OF keeps_recorded_grant_decision] keeps_yields[OF keeps_policy_decision] assms)+
qed (rule assms)

lemma keeps_mcp_list:
  "(\<And>r t m. reply_topic r = Some t \<Longrightarrow> sendable t m) \<Longrightarrow> keeps_world I (handle_mcp_list H p)"
  unfolding handle_mcp_list_def by (intro stays; assumption)

lemma keeps_before_tool_call:
  "(\<And>r t m. hook_reply_topic r = Some t \<Longrightarrow> sendable t m) \<Longrightarrow> keeps_world I (handle_before_tool_call H p)"
  unfolding handle_before_tool_call_def hook_verdict_def by (intro stays; assumption)

section \<open>Answers of the user\<close>

lemma keeps_resolve:
  assumes "sendable t (decision_envelope (av_request_id req) ''deny'' None)"
    and "sendable t (decision_envelope (av_request_id req) decision reason)"
    and "\<And>r t m. reply_topic r = Some t \<Longrightarrow> sendable t m"
  shows "keeps_world I (resolve_with_decision H req t decision reason route)"
  unfolding resolve_with_decision_def deliver_result_def Let_def
  by (intro stays keeps_publish_decision keeps_deliver_error keeps_to_shim assms) (simp_all add: assms)

lemma keeps_mcp_approval:
  assumes caller: "yields I caller C"
    and trusted: "\<And>c. C (Some c) \<Longrightarrow> yields I (is_ingress_trusted (cc_source_id c)) (T c)"
    and deny: "\<And>i t. response_topic i = Some t \<Longrightarrow> sendable t (decision_envelope i ''deny'' None)"
    and decided: "\<And>req c t. bh_approval_respond H p = Some req \<Longrightarrow> C (Some c) \<Longrightarrow> T c True \<Longrightarrow>
      response_topic (av_request_id req) = Some t \<Longrightarrow>
      sendable t (decision_envelope (av_request_id req) (normalize_decision (av_decision req)) (av_reason req))"
    and replies: "\<And>r t m. reply_topic r = Some t \<Longrightarrow> sendable t m"
  shows "keeps_world I (handle_mcp_approval H p)"
  unfolding handle_mcp_approval_def
  apply (rule keeps_world_option, rule keeps_ret, rule keeps_world_option, rule keeps_deliver_error, erule replies)
  apply (rule keeps_world_bind[OF keeps_take_route], rule keeps_world_option)
   apply (intro stays keeps_publish_decision keeps_deliver_error deny replies; assumption)
  apply (rule keeps_bind_yields[OF caller], rule keeps_world_option)
   apply (intro keeps_resolve; auto intro: deny replies)
  apply (rule keeps_bind_yields[OF trusted], blast, rule keeps_world_if)
   apply (intro keeps_resolve; auto intro: deny replies)
  apply (intro keeps_resolve; auto intro: deny replies decided)
  done

lemma keeps_ingress_respond:
  assumes caller: "yields I caller C"
    and prompt: "\<And>c. C (Some c) \<Longrightarrow> yields I (take_ingress_pending (cc_source_id c)) (A c)"
    and trust: "\<And>req c k. bh_ingress_respond H p = Some req \<Longrightarrow> iv_accept req \<Longrightarrow> C (Some c) \<Longrightarrow> A c True \<Longrightarrow>
      ingress_trust_key (cc_source_id c) = Some k \<Longrightarrow> writable k ''1''"
    and replies: "\<And>r t m. reply_topic r = Some t \<Longrightarrow> sendable t m"
  shows "keeps_world I (handle_mcp_ingress_respond H p)"
proof -
  note ack = keeps_to_shim[OF replies, folded ingress_ack_def]
  show ?thesis
    unfolding handle_mcp_ingress_respond_def
    apply (rule keeps_world_option, rule keeps_ret, rule keeps_bind_yields[OF caller], rule keeps_world_option)
     apply (simp add: ingress_ack_def keeps_to_shim replies)
    apply (rule keeps_bind_yields[OF prompt], blast)
    apply (intro stays trust)
           apply (simp_all add: ingress_ack_def keeps_to_shim replies audit_send)
    done
qed

lemma keeps_grant_respond:
  assumes caller: "yields I caller C"
    and trusted: "\<And>c. C (Some c) \<Longrightarrow> yields I (is_ingress_trusted (cc_source_id c)) (T c)"
    and deny: "\<And>i t. response_topic i = Some t \<Longrightarrow> sendable t (decision_envelope i ''deny'' None)"
    and decided: "\<And>req c t. bh_grant_respond H p = Some req \<Longrightarrow> C (Some c) \<Longrightarrow> T c True \<Longrightarrow>
      response_topic (gv_request_id req) = Some t \<Longrightarrow>
      sendable t (decision_envelope (gv_request_id req) (normalize_decision (gv_decision req)) None)"
    and recorded: "\<And>req c k. bh_grant_respond H p = Some req \<Longrightarrow> C (Some c) \<Longrightarrow> T c True \<Longrightarrow>
      is_approve_verb (normalize_decision (gv_decision req)) \<Longrightarrow> grant_decision_key (gv_capsule_id req) = Some k \<Longrightarrow>
      writable k ''approve''"
    and replies: "\<And>r t m. reply_topic r = Some t \<Longrightarrow> sendable t m"
  shows "keeps_world I (handle_mcp_grant_respond H p)"
proof -
  have ack: "keeps_world I (grant_ack r g)" for r g
    by (simp add: grant_ack_def keeps_to_shim replies)
  have records: "keeps_world I (case respond_decision_to_record g of None \<Rightarrow> ret () | Some d \<Rightarrow> record_grant_decision c d)"
    if "\<And>k. g \<Longrightarrow> grant_decision_key c = Some k \<Longrightarrow> writable k ''approve''" for g c
    using that by (auto simp: respond_decision_to_record_def as_kv_value_def intro!: stays keeps_record_grant_decision)
  show ?thesis
    unfolding handle_mcp_grant_respond_def Let_def
    apply (rule keeps_world_option, rule keeps_ret, rule keeps_world_option, rule ack)
    apply (rule keeps_bind_yields[OF caller], rule keeps_world_bind[OF keeps_take_grant_pending], rule keeps_world_if, rule ack)
    apply (rule keeps_world_option)
     apply (intro keeps_world_bind keeps_publish_decision ack deny; assumption)
    apply (rule keeps_bind_yields[OF trusted], blast, rule keeps_world_if)
     apply (intro keeps_world_bind keeps_publish_decision ack deny; assumption)
    apply (intro keeps_world_bind keeps_publish_decision ack records recorded decided; simp)
    done
qed

end

end
