(* ===== verification/Broker_Trace.thy ===== *)
theory Broker_Trace
  imports Broker_Handlers
begin

text \<open>
  The broker as a machine: its entry points (\<open>handlers\<close> in \<open>crates/aos-mcp-broker/src/lib.rs\<close>), runs of invocations with their
  inputs, and what every value it stores looks like after any run.
\<close>

section \<open>Runs\<close>

datatype broker_request =
    DescribeTools
  | CollectDescriptors canonical_json
  | CapsulesChanged canonical_json
  | McpList canonical_json
  | McpCall canonical_json
  | McpApproval canonical_json
  | IngressRespond canonical_json
  | GrantRespond canonical_json
  | BeforeToolCall canonical_json

definition broker_handle :: "broker_host \<Rightarrow> broker_request \<Rightarrow> unit broker_op" where
  "broker_handle H r = (case r of
     DescribeTools \<Rightarrow> describe_tools H
   | CollectDescriptors p \<Rightarrow> collect_tool_descriptors H p
   | CapsulesChanged p \<Rightarrow> on_capsules_loaded H p
   | McpList p \<Rightarrow> handle_mcp_list H p
   | McpCall p \<Rightarrow> handle_mcp_call H p
   | McpApproval p \<Rightarrow> handle_mcp_approval H p
   | IngressRespond p \<Rightarrow> handle_mcp_ingress_respond H p
   | GrantRespond p \<Rightarrow> handle_mcp_grant_respond H p
   | BeforeToolCall p \<Rightarrow> handle_before_tool_call H p)"

type_synonym broker_event = "broker_inputs \<times> broker_request"

definition broker_invoke :: "broker_host \<Rightarrow> broker_event \<Rightarrow> broker_world \<Rightarrow> broker_world" where
  "broker_invoke H e w = snd (run_state (broker_handle H (snd e)) (w\<lparr>bw_in := fst e\<rparr>))"

definition broker_run :: "broker_host \<Rightarrow> broker_event list \<Rightarrow> broker_world \<Rightarrow> broker_world" where
  "broker_run H es w = fold (broker_invoke H) es w"

lemma broker_run_snoc: "broker_run H (es @ [e]) w = broker_invoke H e (broker_run H es w)"
  by (simp add: broker_run_def)

lemma broker_run_Nil: "broker_run H [] w = w"
  by (simp add: broker_run_def)

section \<open>Stored values\<close>

definition bounded_cache :: "broker_host \<Rightarrow> cache_state \<Rightarrow> bool" where
  "bounded_cache H c \<longleftrightarrow> bt_wf (ch_tools c) \<and> length (ch_tools c) \<le> 512 \<and>
     list_all (\<lambda>(k, d). k = td_name d \<and> is_valid_provider_source_id H (td_provider_source_id d)) (ch_tools c)"

definition bounded_routes :: "broker_host \<Rightarrow> pending_result_routes \<Rightarrow> bool" where
  "bounded_routes H rs \<longleftrightarrow> bt_wf rs \<and> length rs \<le> 128 \<and> list_all (\<lambda>(i, r). admissible_route H i r) rs"

definition stored_ok :: "broker_host \<Rightarrow> string \<Rightarrow> string \<Rightarrow> bool" where
  "stored_ok H k v \<longleftrightarrow>
     k = ''tools.cache'' \<and> (\<exists>c. jc_decode (bh_cache H) v = Ok c \<and> bounded_cache H c) \<or>
     k = ''mcp.approval.pending_result_routes'' \<and> (\<exists>rs. jc_decode (bh_routes H) v = Ok rs \<and> bounded_routes H rs) \<or>
     prefix ''mcp.grant.decision.'' k \<and> v = ''approve'' \<or>
     prefix ''mcp.grant.pending.'' k \<and> (\<exists>now i. encode_grant_pending_marker now i = Some v) \<or>
     (prefix ''mcp.ingress.trust.'' k \<or> prefix ''mcp.ingress.pending.'' k) \<and> v = ''1''"

definition codecs_ok :: "broker_host \<Rightarrow> bool" where
  "codecs_ok H \<longleftrightarrow> json_codec_ok (bh_cache H) \<and> json_codec_ok (bh_routes H)"

definition well_stored :: "broker_host \<Rightarrow> broker_world \<Rightarrow> bool" where
  "well_stored H w \<longleftrightarrow> (codecs_ok H \<longrightarrow> (\<forall>k v. bt_get (bw_kv w) k = Some v \<longrightarrow> stored_ok H k v))"

subsection \<open>The maps\<close>

lemma set_bt_insert: "set (bt_insert k v m) \<subseteq> insert (k, v) (set m)"
  by (induction m) (auto split: if_splits)

lemma length_keys: "bt_wf m \<Longrightarrow> length m = card (fst ` set m)"
  using distinct_card[of "map fst m"] by (simp add: bt_wf_distinct)

lemma length_bt_insert: "bt_wf m \<Longrightarrow> length (bt_insert k v m) = (if bt_contains_key m k then length m else Suc (length m))"
  by (simp add: length_keys set_keys_bt_insert bt_contains_key_def bt_get_None_iff card_insert_if)

lemma bounded_insert:
  assumes "bounded_cache H c" and "is_valid_provider_source_id H (td_provider_source_id d)"
    and "length (ch_tools c) < 512 \<or> bt_contains_key (ch_tools c) (td_name d)"
  shows "bounded_cache H (c\<lparr>ch_tools := bt_insert (td_name d) d (ch_tools c)\<rparr>)"
proof -
  have "list_all P (bt_insert k v m)" if "list_all P m" "P (k, v)" for P k v and m :: "(string, mcp_tool_descriptor) btree_map"
    using that set_bt_insert[of k v m] by (auto simp: list_all_iff)
  with assms show ?thesis by (auto simp: bounded_cache_def length_bt_insert)
qed

lemma bounded_any_time: "bounded_cache H \<lparr>ch_updated_at_ms = t, ch_tools = ch_tools c\<rparr> \<longleftrightarrow> bounded_cache H c"
  by (simp add: bounded_cache_def)

lemma bounded_merge:
  "bounded_cache H \<lparr>ch_updated_at_ms = t, ch_tools = m\<rparr> \<Longrightarrow> attributed H ds \<Longrightarrow>
     bounded_cache H \<lparr>ch_updated_at_ms = t, ch_tools = merge_tools ds m\<rparr>"
proof (induction ds m rule: merge_tools.induct)
  case (2 d ds m)
  have "bounded_cache H \<lparr>ch_updated_at_ms = t, ch_tools = bt_insert (td_name d) d m\<rparr>"
    if "\<not> (length m \<ge> max_cached_tools \<and> \<not> bt_contains_key m (td_name d))"
    using bounded_insert[OF "2.prems"(1), of d] that "2.prems"(2)
    by (auto simp: attributed_def max_cached_tools_def)
  with 2 show ?case by (simp add: attributed_def)
qed simp

lemma bounded_take:
  "bounded_cache H \<lparr>ch_updated_at_ms = t, ch_tools = m\<rparr> \<Longrightarrow> attributed H ds \<Longrightarrow>
     bounded_cache H \<lparr>ch_updated_at_ms = t, ch_tools = take_tools ds m\<rparr>"
proof (induction ds m rule: take_tools.induct)
  case (2 d ds m)
  have "bounded_cache H \<lparr>ch_updated_at_ms = t, ch_tools = bt_insert (td_name d) d m\<rparr>" if "\<not> length m \<ge> max_cached_tools"
    using bounded_insert[OF "2.prems"(1), of d] that "2.prems"(2)
    by (auto simp: attributed_def max_cached_tools_def)
  with 2 show ?case by (simp add: attributed_def)
qed simp

lemma bounded_empty: "bounded_cache H \<lparr>ch_updated_at_ms = t, ch_tools = []\<rparr>"
  by (simp add: bounded_cache_def)

lemma bt_wf_filter: "bt_wf m \<Longrightarrow> bt_wf (filter p m)"
  by (auto simp: bt_wf_def sorted_wrt_map intro: sorted_wrt_filter)

lemma bounded_filter: "bounded_routes H rs \<Longrightarrow> bounded_routes H (filter p rs)"
  using le_trans[OF length_filter_le[of p rs]] by (auto simp: bounded_routes_def bt_wf_filter list_all_iff)

lemma bounded_retain: "bounded_routes H rs \<Longrightarrow> bounded_routes H (retain_fresh now rs)"
  by (simp add: retain_fresh_def bounded_filter)

lemma bounded_delete: "bounded_routes H rs \<Longrightarrow> bounded_routes H (bt_delete i rs)"
  by (simp add: bt_delete_def bounded_filter)

text \<open>The oldest route is one of the map, so dropping it makes room.\<close>

lemma oldest_route_in: "oldest_route rs = Some i \<Longrightarrow> i \<in> fst ` set rs"
proof (cases rs)
  case (Cons p ps)
  let ?f = "\<lambda>(j, s) (k, t). if pr_created_at_ms t < pr_created_at_ms s then (k, t) else (j, s)"
  have "foldl ?f q qs \<in> insert q (set qs)" for q :: "string \<times> pending_result_route" and qs
    by (induction qs arbitrary: q) (fastforce split: prod.splits if_splits)+
  from this[of p ps] Cons show "oldest_route rs = Some i \<Longrightarrow> i \<in> fst ` set rs"
    by (cases p) (auto simp: image_iff)
qed simp

lemma length_delete_present: "i \<in> fst ` set m \<Longrightarrow> length (bt_delete i m) < length m"
  unfolding bt_delete_def by (induction m) (auto simp: le_imp_less_Suc)

lemma bounded_remember:
  assumes "bounded_routes H rs" and "admissible_route H i r"
  shows "bounded_routes H (remember_route now i r rs)"
proof -
  let ?fresh = "retain_fresh now rs"
  define room where "room = (if length ?fresh \<ge> max_pending_result_routes
      then (case oldest_route ?fresh of Some j \<Rightarrow> bt_delete j ?fresh | None \<Rightarrow> ?fresh) else ?fresh)"
  have fresh: "bounded_routes H ?fresh" using assms(1) by (rule bounded_retain)
  have "length room < 128"
  proof (cases "oldest_route ?fresh")
    case None
    then have "?fresh = []" by (cases ?fresh) auto
    then show ?thesis by (simp add: room_def max_pending_result_routes_def)
  next
    case (Some j)
    from length_delete_present[OF oldest_route_in[OF Some]] fresh Some show ?thesis
      by (auto simp: room_def max_pending_result_routes_def bounded_routes_def)
  qed
  moreover have "bounded_routes H room"
    using fresh by (auto simp: room_def bounded_delete split: option.splits)
  ultimately have "bounded_routes H (bt_insert i r room)"
    using set_bt_insert[of i r room] assms(2)
    by (auto simp: bounded_routes_def length_bt_insert list_all_iff)
  then show ?thesis by (simp add: remember_route_def room_def Let_def)
qed

subsection \<open>The invariant\<close>

lemma stored_cache: "stored_ok H cache_key v \<longleftrightarrow> (\<exists>c. jc_decode (bh_cache H) v = Ok c \<and> bounded_cache H c)"
  by (simp add: stored_ok_def cache_key_def)

lemma stored_routes:
  "stored_ok H pending_result_routes_key v \<longleftrightarrow> (\<exists>rs. jc_decode (bh_routes H) v = Ok rs \<and> bounded_routes H rs)"
  by (simp add: stored_ok_def pending_result_routes_key_def)

interpretation stored: broker_law "well_stored H" "\<lambda>k v. codecs_ok H \<longrightarrow> stored_ok H k v" "\<lambda>_. True" "\<lambda>_ _. True" H
  "\<lambda>c. codecs_ok H \<longrightarrow> bounded_cache H c" "\<lambda>rs. codecs_ok H \<longrightarrow> bounded_routes H rs" for H
proof unfold_locales
  fix w k v
  assume "well_stored H w"
  then show "well_stored H (bw_kv_update (bt_delete k) w)"
    by (auto simp: well_stored_def bt_get_delete)
next
  fix w c b assume "well_stored H w" "bt_get (bw_kv w) cache_key = Some b" "jc_decode (bh_cache H) b = Ok c"
  then show "codecs_ok H \<longrightarrow> bounded_cache H c" using stored_cache[of H b] by (auto simp: well_stored_def)
next
  fix w rs b assume "well_stored H w" "bt_get (bw_kv w) pending_result_routes_key = Some b" "jc_decode (bh_routes H) b = Ok rs"
  then show "codecs_ok H \<longrightarrow> bounded_routes H rs" using stored_routes[of H b] by (auto simp: well_stored_def)
next
  fix c b assume "codecs_ok H \<longrightarrow> bounded_cache H c" "jc_encode (bh_cache H) c = Ok b"
  then show "codecs_ok H \<longrightarrow> stored_ok H cache_key b"
    by (auto simp: stored_cache codecs_ok_def json_codec_ok_def)
next
  fix rs b assume "codecs_ok H \<longrightarrow> bounded_routes H rs" "jc_encode (bh_routes H) rs = Ok b"
  then show "codecs_ok H \<longrightarrow> stored_ok H pending_result_routes_key b"
    by (auto simp: stored_routes codecs_ok_def json_codec_ok_def)
next
  fix c :: cache_state and ds now
  assume "codecs_ok H \<longrightarrow> bounded_cache H c" "attributed H ds"
  then show "codecs_ok H \<longrightarrow> bounded_cache H \<lparr>ch_updated_at_ms = now, ch_tools = merge_tools ds (ch_tools c)\<rparr>"
    by (auto intro!: bounded_merge simp: bounded_any_time)
next
  fix now i v c assume "encode_grant_pending_marker now i = Some v"
  then show "codecs_ok H \<longrightarrow> stored_ok H (''mcp.grant.pending.'' @ c) v"
    by (auto simp: stored_ok_def)
qed (auto simp: well_stored_def cache_default_def bounded_empty bounded_take bounded_remember bounded_retain bounded_delete
    bounded_routes_def[of H "[]" for H])

lemma well_stored_handle: "keeps_world (well_stored H) (broker_handle H r)"
proof -
  have ok: "stored_ok H (''mcp.ingress.pending.'' @ s) ''1''" "stored_ok H (''mcp.ingress.trust.'' @ s) ''1''"
    "stored_ok H (''mcp.grant.decision.'' @ s) ''approve''" for s
    by (simp_all add: stored_ok_def)
  have pending: "codecs_ok H \<longrightarrow> stored_ok H k ''1''" if "ingress_pending_key s = Some k" for s k
    using that ok(1)[of s] by (simp add: ingress_pending_key_def split: if_splits)
  have trust: "codecs_ok H \<longrightarrow> stored_ok H k ''1''" if "ingress_trust_key s = Some k" for s k
    using that ok(2)[of s] by (simp add: ingress_trust_key_def split: if_splits)
  have decision: "codecs_ok H \<longrightarrow> stored_ok H k ''approve''" if "grant_decision_key s = Some k" for s k
    using that ok(3)[of s] by (simp add: grant_decision_key_def split: if_splits)
  have call: "keeps_world (well_stored H) (handle_mcp_call H p)" for p
    by (rule stored.keeps_any_call) (rule TrueI | erule pending)+
  have ingress: "keeps_world (well_stored H) (handle_mcp_ingress_respond H p)" for p
    by (rule stored.keeps_ingress_respond[where C = "\<lambda>_. True" and A = "\<lambda>_ _. True"],
        rule keeps_yields[OF stored.keeps_caller], rule keeps_yields[OF stored.keeps_take_ingress_pending])
      (rule TrueI | erule trust)+
  have grant: "keeps_world (well_stored H) (handle_mcp_grant_respond H p)" for p
    by (rule stored.keeps_grant_respond[where C = "\<lambda>_. True" and T = "\<lambda>_ _. True"],
        rule keeps_yields[OF stored.keeps_caller], rule keeps_yields[OF stored.keeps_is_ingress_trusted])
      (rule TrueI | erule decision)+
  have approval: "keeps_world (well_stored H) (handle_mcp_approval H p)" for p
    by (rule stored.keeps_mcp_approval[where C = "\<lambda>_. True" and T = "\<lambda>_ _. True"],
        rule keeps_yields[OF stored.keeps_caller], rule keeps_yields[OF stored.keeps_is_ingress_trusted]) (rule TrueI)+
  have queries: "keeps_world (well_stored H) (handle_mcp_list H p)" "keeps_world (well_stored H) (handle_before_tool_call H p)" for p
    by (rule stored.keeps_mcp_list stored.keeps_before_tool_call, rule TrueI)+
  show ?thesis
    unfolding broker_handle_def
    by (cases r) (simp_all only: broker_request.case stored.keeps_describe_tools stored.keeps_collect_tool_descriptors
        stored.keeps_on_capsules_loaded call ingress grant approval queries)
qed

lemma well_stored_run: "well_stored H w \<Longrightarrow> well_stored H (broker_run H es w)"
proof (induction es rule: rev_induct)
  case (snoc e es)
  then have "well_stored H (broker_run H es w\<lparr>bw_in := fst e\<rparr>)" by (simp add: well_stored_def)
  then show ?case
    unfolding broker_run_snoc broker_invoke_def by (rule keeps_worldD[OF well_stored_handle])
qed (simp add: broker_run_Nil)

text \<open>C20. Whatever messages arrive and whichever host calls fail, every value that the broker has written for a
  principal is in order: the tool cache holds at most 512 tools, each under its own name and with a verified
  provider; at most 128 parked calls are remembered, each routable and with a verified provider; grant decisions
  are only ever approvals (a refusal is never made durable); the other records are well-formed markers.\<close>

theorem broker_store_invariant:
  assumes "codecs_ok H" and "bw_kv w = []" and "bt_get (bw_kv (broker_run H es w)) k = Some v"
  shows "stored_ok H k v"
proof -
  have "well_stored H w" using assms(2) by (simp add: well_stored_def)
  from well_stored_run[OF this, of es] assms(1,3) show ?thesis by (simp add: well_stored_def)
qed

text \<open>A session calls a tool, accepts the prompt, calls again, is asked for a grant and approves it.\<close>

definition demo_events :: "broker_event list" where
  "demo_events = [(demo_inputs, McpCall CNull), (demo_inputs, IngressRespond CNull),
     (demo_inputs\<lparr>in_signals := [Some [demo_message ''grant'']]\<rparr>, McpCall CNull), (demo_inputs, GrantRespond CNull)]"


definition demo_world_at :: "(string, string) btree_map \<Rightarrow> (string \<times> canonical_json) list \<Rightarrow> broker_inputs \<Rightarrow> broker_world" where
  "demo_world_at kv bus i = \<lparr>bw_kv = kv, bw_bus = bus, bw_in = i\<rparr>"

lemma demo_step1: "bw_kv (broker_invoke demo_host (demo_events ! 0) demo_world) = [(''mcp.ingress.pending.cli'', ''1'')]"
  by code_simp

lemma demo_step2:
  "bw_kv (broker_invoke demo_host (demo_events ! 1) (demo_world_at [(''mcp.ingress.pending.cli'', ''1'')] bus i)) =
     [(''mcp.ingress.trust.cli'', ''1'')]"
  by code_simp

definition demo_store :: "(string, string) btree_map" where
  "demo_store = [(''mcp.grant.pending.cap'', ''5 g-1''), (''mcp.ingress.trust.cli'', ''1''), (''tools.cache'', ''b'')]"

lemma demo_step3:
  "bw_kv (broker_invoke demo_host (demo_events ! 2) (demo_world_at [(''mcp.ingress.trust.cli'', ''1'')] bus i)) = demo_store"
  "bw_bus (broker_invoke demo_host (demo_events ! 2) (demo_world_at [(''mcp.ingress.trust.cli'', ''1'')] bus i)) =
     ((bus @ [(''tool.v1.request.describe'', CObject [])]) @
       [(''tool.v1.execute.echo'', tool_execute_request ''d-1'' ''r-1'' ''echo'' CNull)]) @
       [(''astrid.v1.response.r-1'', call_reply demo_host ''r-1'' (CString []) False [(''grant_required'',
          grant_flag \<lparr>gr_request_id = ''g-1'', gr_principal = ''alice'', gr_capsule_id = ''cap''\<rparr> ''echo'' ''r-1'')])]"
  by code_simp+

lemma demo_disposition: "grant_marker_disposition ''5 g-1'' ''g-1'' 5 = Match"
proof -
  have "show_nat (unat (5 :: u64)) @ '' '' @ ''g-1'' = ''5 g-1''" by code_simp
  with parse_encoded[of "''g-1''" 5] show ?thesis
    by (simp add: grant_marker_disposition_def grant_pending_ttl_ms_def visible_ascii_def)
qed

lemma demo_step4:
  "bw_bus (broker_invoke demo_host (demo_events ! 3) (demo_world_at demo_store bus i)) =
     bus @ [(''astrid.v1.approval.response.g-1'', decision_envelope ''g-1'' ''approve'' None),
       (''astrid.v1.response.r-3'', acknowledgement ''grant.respond'' ''r-3'' True)]"
proof -
  have "normalize_decision ''Approve'' = ''approve''" by code_simp
  then show ?thesis
    by (simp add: broker_invoke_def demo_events_def demo_world_at_def broker_handle_def handle_mcp_grant_respond_def
        demo_host_def take_grant_pending_def grant_pending_key_def bk_get_def bk_set_def bk_delete_def kv_fails_def
        next_input_def demo_inputs_def response_topic_def reply_topic_def clean_segment_def caller_def wall_ms_def
        demo_disposition State_Monad.update_def State_Monad.get_def State_Monad.set_def bt_get_def bt_delete_def
        is_ingress_trusted_def ingress_trust_key_def is_ascii_alphanumeric_def demo_store_def publish_decision_def
        send_def publish_json_def grant_ack_def to_shim_def is_approve_verb_def respond_decision_to_record_def
        record_grant_decision_def grant_decision_key_def discard_def Let_def)
qed

text \<open>The worlds of the scenario, event by event.\<close>

lemma world_at_kv: "bw_kv w = kv \<Longrightarrow> w = demo_world_at kv (bw_bus w) (bw_in w)"
  by (auto simp: demo_world_at_def)

lemma kv_after:
  "(\<And>bus i. bw_kv (broker_invoke H e (demo_world_at kv bus i)) = kv') \<Longrightarrow> bw_kv w = kv \<Longrightarrow> bw_kv (broker_invoke H e w) = kv'"
  by (subst world_at_kv) auto

lemma bus_after:
  "(\<And>bus i. bw_bus (broker_invoke H e (demo_world_at kv bus i)) = f bus) \<Longrightarrow> bw_kv w = kv \<Longrightarrow>
     bw_bus (broker_invoke H e w) = f (bw_bus w)"
  by (subst world_at_kv) auto

lemma demo_runs:
  "broker_run demo_host (take 1 demo_events) demo_world = broker_invoke demo_host (demo_events ! 0) demo_world"
  "broker_run demo_host (take 2 demo_events) demo_world =
     broker_invoke demo_host (demo_events ! 1) (broker_run demo_host (take 1 demo_events) demo_world)"
  "broker_run demo_host (take 3 demo_events) demo_world =
     broker_invoke demo_host (demo_events ! 2) (broker_run demo_host (take 2 demo_events) demo_world)"
  "broker_run demo_host demo_events demo_world =
     broker_invoke demo_host (demo_events ! 3) (broker_run demo_host (take 3 demo_events) demo_world)"
  by (simp_all add: broker_run_def demo_events_def)

lemma demo_kv1: "bw_kv (broker_run demo_host (take 1 demo_events) demo_world) = [(''mcp.ingress.pending.cli'', ''1'')]"
  unfolding demo_runs(1) by (rule demo_step1)

lemma demo_kv2: "bw_kv (broker_run demo_host (take 2 demo_events) demo_world) = [(''mcp.ingress.trust.cli'', ''1'')]"
  unfolding demo_runs(2) by (rule kv_after[OF demo_step2 demo_kv1])

lemma demo_run3:
  "bw_kv (broker_run demo_host (take 3 demo_events) demo_world) = demo_store"
  "(''tool.v1.execute.echo'', tool_execute_request ''d-1'' ''r-1'' ''echo'' CNull)
     \<in> set (bw_bus (broker_run demo_host (take 3 demo_events) demo_world))"
  unfolding demo_runs(3)
  by (rule kv_after[OF demo_step3(1) demo_kv2]) (simp add: bus_after[OF demo_step3(2) demo_kv2])

lemma demo_run4:
  "(''astrid.v1.approval.response.g-1'', decision_envelope ''g-1'' ''approve'' None)
     \<in> set (bw_bus (broker_run demo_host demo_events demo_world))"
  unfolding demo_runs(4)
  by (simp add: bus_after[OF demo_step4 demo_run3(1)])

theorem broker_store_invariant_witness: "stored_ok demo_host ''tools.cache'' ''b''"
proof (rule broker_store_invariant)
  show "codecs_ok demo_host" by (simp add: codecs_ok_def demo_codecs)
  show "bw_kv demo_world = []" by (simp add: demo_world_def)
  show "bt_get (bw_kv (broker_run demo_host (take 3 demo_events) demo_world)) ''tools.cache'' = Some ''b''"
    by (simp add: demo_run3 demo_store_def bt_get_def)
qed

end
