(* ===== verification/Consent_Properties.thy ===== *)
theory Consent_Properties
  imports Broker_Trace
begin

text \<open>
  What the consent protocol of the broker guarantees over any run: trust in an ingress, dispatches of tools and
  approvals all go back to answers of the user.
\<close>

section \<open>What stays absent and unsaid\<close>

definition sensitive_key :: "string \<Rightarrow> bool" where
  "sensitive_key k \<longleftrightarrow> prefix ''mcp.ingress.'' k \<or> prefix ''mcp.grant.decision.'' k"

definition watched_topic :: "string \<Rightarrow> bool" where
  "watched_topic t \<longleftrightarrow> prefix ''astrid.v1.response.'' t \<or> prefix ''tool.v1.execute.'' t \<or>
     prefix ''astrid.v1.approval.response.'' t \<or> prefix ''hook.v1.response.'' t"

definition watched :: "(string \<Rightarrow> canonical_json \<Rightarrow> bool) \<Rightarrow> broker_world \<Rightarrow> (string \<times> canonical_json) list" where
  "watched P w = filter (\<lambda>(t, m). watched_topic t \<and> P t m) (bw_bus w)"

definition calm :: "caller_context option \<Rightarrow> env_result \<Rightarrow> bool \<Rightarrow> (string \<Rightarrow> bool) \<Rightarrow> (string \<Rightarrow> canonical_json \<Rightarrow> bool) \<Rightarrow>
    (string \<times> canonical_json) list \<Rightarrow> broker_world \<Rightarrow> bool" where
  "calm ctx pol up K P said w \<longleftrightarrow> in_caller (bw_in w) = ctx \<and> in_policy (bw_in w) = pol \<and>
     (up \<longrightarrow> in_bus_faults (bw_in w) = []) \<and> watched P w = said \<and>
     (\<forall>k. K k \<and> sensitive_key k \<longrightarrow> bt_get (bw_kv w) k = None)"

interpretation calm: broker_law "calm ctx pol up K P said" "\<lambda>k v. \<not> (K k \<and> sensitive_key k)" "\<lambda>_. True"
  "\<lambda>t m. \<not> (watched_topic t \<and> P t m)" H "\<lambda>_. True" "\<lambda>_. True" for ctx pol up K P said H
  by unfold_locales
    (auto simp: calm_def advances_def watched_def bt_get_delete sensitive_key_def watched_topic_def cache_key_def
      pending_result_routes_key_def audit_topic_def tools_list_topic_def)

lemma calm_caller: "yields (calm ctx pol h K P said) caller (\<lambda>c. c = ctx)"
  by (simp add: yields_def caller_def calm_def)

lemma calm_policy:
  "yields (calm ctx pol h K P said) (policy_decision H tool args)
     (\<lambda>d. d = evaluate (bh_policy H) (fst (load_rules (bh_rules H) pol)) tool args)"
proof -
  have rules: "yields (calm ctx pol h K P said) (policy_rules H) (\<lambda>r. r = fst (load_rules (bh_rules H) pol))"
    unfolding policy_rules_def Let_def
    by (rule yields_bind[OF yields_get])
      (auto simp: calm_def intro!: yields_bind[OF keeps_yields] yields_ret stays calm.keeps_send[OF calm.audit_send]
        split: option.splits)
  show ?thesis
    unfolding policy_decision_def by (rule yields_bind[OF rules], rule yields_ret) simp
qed

lemma calm_get_absent:
  "K k \<Longrightarrow> sensitive_key k \<Longrightarrow> yields (calm ctx pol h K P said) (bk_get k) (\<lambda>r. r = Ok None \<or> r = Err ())"
  by (rule yields_weaken[OF calm.yields_bk_get[where R = "\<lambda>_. False"]])
    (auto simp: calm_def, metis old.sum.exhaust old.unit.exhaust option.exhaust)


definition trust_of :: "string \<Rightarrow> string" where "trust_of s = ''mcp.ingress.trust.'' @ s"
definition prompt_of :: "string \<Rightarrow> string" where "prompt_of s = ''mcp.ingress.pending.'' @ s"
definition decision_of :: "string \<Rightarrow> string" where "decision_of c = ''mcp.grant.decision.'' @ c"

lemma sensitive_keys: "sensitive_key (trust_of s)" "sensitive_key (prompt_of s)" "sensitive_key (decision_of s)"
  by (simp_all add: sensitive_key_def trust_of_def prompt_of_def decision_of_def)

lemma distinct_keys:
  "trust_of s \<noteq> prompt_of t" "trust_of s \<noteq> decision_of t" "prompt_of s \<noteq> decision_of t"
  "prompt_of t \<noteq> trust_of s" "decision_of t \<noteq> trust_of s" "decision_of t \<noteq> prompt_of s"
  "trust_of s = trust_of t \<longleftrightarrow> s = t" "prompt_of s = prompt_of t \<longleftrightarrow> s = t"
  by (simp_all add: trust_of_def prompt_of_def decision_of_def)

lemma key_forms:
  "ingress_trust_key s = (if s = [] then None else Some (trust_of s))"
  "ingress_pending_key s = (if s = [] then None else Some (prompt_of s))"
  "grant_decision_key c = (if c = [] then None else Some (decision_of c))"
  by (simp_all add: ingress_trust_key_def ingress_pending_key_def grant_decision_key_def trust_of_def prompt_of_def decision_of_def)

lemma yields_only_if:
  "keeps_world I m \<Longrightarrow> (\<not> Q \<Longrightarrow> yields I m (\<lambda>x. \<not> S x)) \<Longrightarrow> yields I m (\<lambda>x. S x \<longrightarrow> Q)"
  by (cases Q) (auto intro: keeps_yields yields_weaken)

lemma calm_trusted:
  "yields (calm ctx pol u K P said) (is_ingress_trusted s) (\<lambda>b. b \<longrightarrow> s \<noteq> [] \<and> \<not> K (trust_of s))"
proof (rule yields_only_if[OF calm.keeps_is_ingress_trusted])
  assume "\<not> (s \<noteq> [] \<and> \<not> K (trust_of s))"
  then show "yields (calm ctx pol u K P said) (is_ingress_trusted s) (\<lambda>b. \<not> b)"
    unfolding is_ingress_trusted_def key_forms
    by (cases "s = []") (auto intro!: yields_bind[OF calm_get_absent[OF _ sensitive_keys(1)]] yields_ret)
qed

lemma calm_prompted:
  "yields (calm ctx pol u K P said) (take_ingress_pending s) (\<lambda>b. b \<longrightarrow> s \<noteq> [] \<and> \<not> K (prompt_of s))"
proof (rule yields_only_if)
  show "keeps_world (calm ctx pol u K P said) (take_ingress_pending s)"
    by (rule calm.keeps_take_ingress_pending) simp
  assume "\<not> (s \<noteq> [] \<and> \<not> K (prompt_of s))"
  then show "yields (calm ctx pol u K P said) (take_ingress_pending s) (\<lambda>b. \<not> b)"
    unfolding take_ingress_pending_def key_forms
    by (cases "s = []") (auto intro!: yields_bind[OF calm_get_absent[OF _ sensitive_keys(2)]] yields_ret)
qed

lemma calm_recorded:
  "yields (calm ctx pol u K P said) (recorded_grant_decision c) (\<lambda>d. d = Some GrantApprove \<longrightarrow> (\<exists>c. \<not> K (decision_of c)))"
proof (rule yields_only_if[OF calm.keeps_recorded_grant_decision])
  assume "\<not> (\<exists>c. \<not> K (decision_of c))"
  then show "yields (calm ctx pol u K P said) (recorded_grant_decision c) (\<lambda>d. d \<noteq> Some GrantApprove)"
    unfolding recorded_grant_decision_def key_forms
    by (cases "c = []") (auto intro!: yields_bind[OF calm_get_absent[OF _ sensitive_keys(3)]] yields_ret)
qed

section \<open>What a single invocation can change\<close>

lemma calm_handle:
  assumes replies: "\<And>q t m. reply_topic q = Some t \<or> hook_reply_topic q = Some t \<Longrightarrow> \<not> P t m"
    and deny: "\<And>i t. response_topic i = Some t \<Longrightarrow> \<not> P t (decision_envelope i ''deny'' None)"
    and prompt: "\<And>p req c. r = McpCall p \<Longrightarrow> bh_call_request H p = Some req \<Longrightarrow> ctx = Some c \<Longrightarrow>
      cr_name req \<noteq> pretooluse_gate_tool \<Longrightarrow> reply_topic (cr_req_id req) \<noteq> None \<Longrightarrow> \<not> K (prompt_of (cc_source_id c))"
    and accept: "\<And>p req c. r = IngressRespond p \<Longrightarrow> bh_ingress_respond H p = Some req \<Longrightarrow> iv_accept req \<Longrightarrow>
      ctx = Some c \<Longrightarrow> \<not> K (prompt_of (cc_source_id c)) \<Longrightarrow> \<not> K (trust_of (cc_source_id c))"
    and execute: "\<And>p req c m. r = McpCall p \<Longrightarrow> bh_call_request H p = Some req \<Longrightarrow> ctx = Some c \<Longrightarrow>
      cc_source_id c \<noteq> [] \<Longrightarrow> \<not> K (trust_of (cc_source_id c)) \<Longrightarrow>
      evaluate (bh_policy H) (fst (load_rules (bh_rules H) pol)) (cr_name req) (cr_arguments req) = Allow \<Longrightarrow>
      \<not> P (''tool.v1.execute.'' @ cr_name req) m"
    and auto: "\<And>p i t c. r = McpCall p \<Longrightarrow> \<not> K (decision_of c) \<Longrightarrow> response_topic i = Some t \<Longrightarrow>
      \<not> P t (decision_envelope i ''approve'' None)"
    and approval: "\<And>p req c t. r = McpApproval p \<Longrightarrow> bh_approval_respond H p = Some req \<Longrightarrow> ctx = Some c \<Longrightarrow>
      cc_source_id c \<noteq> [] \<Longrightarrow> \<not> K (trust_of (cc_source_id c)) \<Longrightarrow> response_topic (av_request_id req) = Some t \<Longrightarrow>
      \<not> P t (decision_envelope (av_request_id req) (normalize_decision (av_decision req)) (av_reason req))"
    and grant: "\<And>p req c t. r = GrantRespond p \<Longrightarrow> bh_grant_respond H p = Some req \<Longrightarrow> ctx = Some c \<Longrightarrow>
      cc_source_id c \<noteq> [] \<Longrightarrow> \<not> K (trust_of (cc_source_id c)) \<Longrightarrow> response_topic (gv_request_id req) = Some t \<Longrightarrow>
      \<not> P t (decision_envelope (gv_request_id req) (normalize_decision (gv_decision req)) None)"
    and recorded: "\<And>p req c. r = GrantRespond p \<Longrightarrow> bh_grant_respond H p = Some req \<Longrightarrow> ctx = Some c \<Longrightarrow>
      cc_source_id c \<noteq> [] \<Longrightarrow> \<not> K (trust_of (cc_source_id c)) \<Longrightarrow> is_approve_verb (normalize_decision (gv_decision req)) \<Longrightarrow>
      \<not> K (decision_of (gv_capsule_id req))"
  shows "keeps_world (calm ctx pol u K P said) (broker_handle H r)"
proof -
  let ?I = "calm ctx pol u K P said"
  note trusted = calm_trusted[of ctx pol u K P said]
  have call: "keeps_world ?I (handle_mcp_call H p)" if r: "r = McpCall p" for p
  proof (rule calm.keeps_mcp_call)
    fix req assume req: "bh_call_request H p = Some req" and routable: "reply_topic (cr_req_id req) \<noteq> None"
    show "keeps_world ?I (gated_call H req)"
    proof (rule calm.keeps_gated_call[OF calm_caller trusted])
      fix c pr assume c: "Some c = ctx" "True \<longrightarrow> cc_source_id c \<noteq> [] \<and> \<not> K (trust_of (cc_source_id c))"
      show "keeps_world ?I (trusted_call H req pr)"
        by (rule calm.keeps_trusted_call[OF calm_recorded _ _ calm_policy])
          (use auto[OF r] deny execute[OF r req] c in \<open>blast | metis\<close>)+
    qed (use prompt[OF r req] routable in \<open>auto simp: key_forms split: if_splits\<close>)
  qed (use replies in blast)
  have approvals: "keeps_world ?I (handle_mcp_approval H p)" if r: "r = McpApproval p" for p
    by (rule calm.keeps_mcp_approval[OF calm_caller trusted])
      (use deny replies approval[OF r] in blast)+
  have ingress: "keeps_world ?I (handle_mcp_ingress_respond H p)" if r: "r = IngressRespond p" for p
    by (rule calm.keeps_ingress_respond[OF calm_caller calm_prompted])
      (use replies accept[OF r] in \<open>blast | auto simp: key_forms split: if_splits\<close>)+
  have grants: "keeps_world ?I (handle_mcp_grant_respond H p)" if r: "r = GrantRespond p" for p
    by (rule calm.keeps_grant_respond[OF calm_caller trusted])
      (use deny replies grant[OF r] recorded[OF r] in \<open>blast | auto simp: key_forms split: if_splits\<close>)+
  have queries: "keeps_world ?I (handle_mcp_list H p)" "keeps_world ?I (handle_before_tool_call H p)" for p
    by (rule calm.keeps_mcp_list calm.keeps_before_tool_call, use replies in blast)+
  show ?thesis
    unfolding broker_handle_def
    by (cases r) (simp_all add: calm.keeps_describe_tools calm.keeps_collect_tool_descriptors
        calm.keeps_on_capsules_loaded call approvals ingress grants queries)
qed

text \<open>
  The guarantees of the consent protocol over whole runs: an invariant that ties what the store holds and what
  the bus carries to the answers in the history, and its consequences for dispatches and approvals.
\<close>

section \<open>Answers in a history\<close>

definition source_of :: "broker_event \<Rightarrow> string option" where
  "source_of e = map_option cc_source_id (in_caller (fst e))"

definition calls :: "broker_host \<Rightarrow> string \<Rightarrow> broker_event \<Rightarrow> bool" where
  "calls H s e \<longleftrightarrow> source_of e = Some s \<and>
     (case snd e of McpCall p \<Rightarrow> (case bh_call_request H p of
        Some req \<Rightarrow> cr_name req \<noteq> pretooluse_gate_tool \<and> reply_topic (cr_req_id req) \<noteq> None | None \<Rightarrow> False)
      | _ \<Rightarrow> False)"

definition accepts :: "broker_host \<Rightarrow> string \<Rightarrow> broker_event \<Rightarrow> bool" where
  "accepts H s e \<longleftrightarrow> source_of e = Some s \<and>
     (case snd e of IngressRespond p \<Rightarrow> (case bh_ingress_respond H p of Some req \<Rightarrow> iv_accept req | None \<Rightarrow> False) | _ \<Rightarrow> False)"

definition approves :: "broker_host \<Rightarrow> string \<Rightarrow> broker_event \<Rightarrow> bool" where
  "approves H s e \<longleftrightarrow> source_of e = Some s \<and>
     (case snd e of
        GrantRespond p \<Rightarrow> (case bh_grant_respond H p of
          Some req \<Rightarrow> is_approve_verb (normalize_decision (gv_decision req)) | None \<Rightarrow> False)
      | McpApproval p \<Rightarrow> (case bh_approval_respond H p of
          Some req \<Rightarrow> is_approve_verb (normalize_decision (av_decision req)) | None \<Rightarrow> False)
      | _ \<Rightarrow> False)"

text \<open>Some event satisfies \<open>Q\<close>, given the events before it.\<close>

definition sometime :: "(broker_event list \<Rightarrow> broker_event \<Rightarrow> bool) \<Rightarrow> broker_event list \<Rightarrow> bool" where
  "sometime Q es \<longleftrightarrow> list_ex (\<lambda>n. Q (take n es) (es ! n)) [0..<length es]"

definition consented :: "broker_host \<Rightarrow> string \<Rightarrow> broker_event list \<Rightarrow> bool" where
  "consented H s = sometime (\<lambda>past e. accepts H s e \<and> list_ex (calls H s) past)"

definition by_trusted :: "broker_host \<Rightarrow> (string \<Rightarrow> broker_event \<Rightarrow> bool) \<Rightarrow> broker_event list \<Rightarrow> broker_event \<Rightarrow> bool" where
  "by_trusted H Q past e \<longleftrightarrow> (case source_of e of None \<Rightarrow> False | Some s \<Rightarrow> Q s e \<and> consented H s past)"

definition approved :: "broker_host \<Rightarrow> broker_event list \<Rightarrow> bool" where
  "approved H = sometime (by_trusted H (approves H))"

definition requests_tool :: "broker_host \<Rightarrow> string \<Rightarrow> string \<Rightarrow> broker_event \<Rightarrow> bool" where
  "requests_tool H tool s e \<longleftrightarrow> (case snd e of
     McpCall p \<Rightarrow> (case bh_call_request H p of
       Some req \<Rightarrow> cr_name req = tool \<and>
         evaluate (bh_policy H) (fst (load_rules (bh_rules H) (in_policy (fst e)))) (cr_name req) (cr_arguments req) = Allow
     | None \<Rightarrow> False)
   | _ \<Rightarrow> False)"

lemma sometime_snoc: "sometime Q (es @ [e]) \<longleftrightarrow> sometime Q es \<or> Q es e"
  by (auto simp: sometime_def list_ex_iff nth_append)

lemma sometime_Nil: "\<not> sometime Q []"
  by (simp add: sometime_def)

lemmas history_simps = sometime_snoc sometime_Nil consented_def approved_def

section \<open>The invariant\<close>

definition says_approve :: "canonical_json \<Rightarrow> bool" where
  "says_approve m \<longleftrightarrow> (case Option.bind (json_get m ''decision'') json_str of Some d \<Rightarrow> is_approve_verb d | None \<Rightarrow> False)"

definition approval_message :: "string \<Rightarrow> canonical_json \<Rightarrow> bool" where
  "approval_message t m \<longleftrightarrow> prefix ''astrid.v1.approval.response.'' t \<and> says_approve m"

definition accounted :: "broker_host \<Rightarrow> broker_event list \<Rightarrow> broker_world \<Rightarrow> bool" where
  "accounted H es w \<longleftrightarrow>
     (\<forall>s. bt_get (bw_kv w) (prompt_of s) \<noteq> None \<longrightarrow> list_ex (calls H s) es) \<and>
     (\<forall>s. bt_get (bw_kv w) (trust_of s) \<noteq> None \<longrightarrow> consented H s es) \<and>
     (\<forall>c. bt_get (bw_kv w) (decision_of c) \<noteq> None \<longrightarrow> approved H es) \<and>
     (\<forall>tool m. (''tool.v1.execute.'' @ tool, m) \<in> set (bw_bus w) \<longrightarrow> sometime (by_trusted H (requests_tool H tool)) es) \<and>
     (\<forall>t m. (t, m) \<in> set (bw_bus w) \<and> approval_message t m \<longrightarrow> approved H es)"

text \<open>One step: what is absent stays absent and what is unsaid stays unsaid, unless the event accounts for it.\<close>

lemma calm_start:
  assumes "\<And>k. K k \<Longrightarrow> bt_get (bw_kv w) k = None"
  shows "calm (in_caller (fst e)) (in_policy (fst e)) False K P (watched P w) (w\<lparr>bw_in := fst e\<rparr>)"
  using assms by (simp add: calm_def watched_def)

lemma calm_end:
  assumes "keeps_world (calm (in_caller (fst e)) (in_policy (fst e)) False K P (watched P w)) (broker_handle H (snd e))"
    and "\<And>k. K k \<Longrightarrow> bt_get (bw_kv w) k = None"
  shows "watched P (broker_invoke H e w) = watched P w"
    and "K k \<Longrightarrow> sensitive_key k \<Longrightarrow> bt_get (bw_kv (broker_invoke H e w)) k = None"
  using keeps_worldD[OF assms(1) calm_start[OF assms(2)]] by (auto simp: broker_invoke_def calm_def)

lemma unsaid: "watched P w' = watched P w \<Longrightarrow> watched_topic t \<Longrightarrow> P t m \<Longrightarrow> (t, m) \<in> set (bw_bus w') \<Longrightarrow> (t, m) \<in> set (bw_bus w)"
proof -
  assume a: "watched P w' = watched P w" "watched_topic t" "P t m" "(t, m) \<in> set (bw_bus w')"
  from a(2-4) have "(t, m) \<in> set (watched P w')" by (simp add: watched_def)
  then have "(t, m) \<in> set (watched P w)" by (simp only: a(1))
  then show ?thesis by (simp add: watched_def)
qed

lemma topics_differ:
  "reply_topic q = Some t \<Longrightarrow> \<not> prefix ''tool.v1.execute.'' t \<and> \<not> prefix ''astrid.v1.approval.response.'' t"
  "hook_reply_topic q = Some t \<Longrightarrow> \<not> prefix ''tool.v1.execute.'' t \<and> \<not> prefix ''astrid.v1.approval.response.'' t"
  by (auto simp: reply_topic_def hook_reply_topic_def response_topic_def split: if_splits)

lemma says_approve_envelope: "says_approve (decision_envelope i d r) \<longleftrightarrow> is_approve_verb d"
  by (auto simp: says_approve_def decision_envelope_def json_get_obj json_str_def map_add_def split: option.splits)

lemma prompts_step:
  assumes "bt_get (bw_kv (broker_invoke H e w)) (prompt_of s) \<noteq> None"
  shows "bt_get (bw_kv w) (prompt_of s) \<noteq> None \<or> calls H s e"
proof (rule ccontr)
  assume *: "\<not> ?thesis"
  have "keeps_world (calm (in_caller (fst e)) (in_policy (fst e)) False (\<lambda>k. k = prompt_of s) (\<lambda>_ _. False) (watched (\<lambda>_ _. False) w))
      (broker_handle H (snd e))"
    by (rule calm_handle) (use * in \<open>auto simp: distinct_keys calls_def source_of_def\<close>)
  from calm_end(2)[OF this, of "prompt_of s"] assms * show False by (simp add: sensitive_keys)
qed

lemma trust_step:
  assumes "bt_get (bw_kv (broker_invoke H e w)) (trust_of s) \<noteq> None"
  shows "bt_get (bw_kv w) (trust_of s) \<noteq> None \<or> accepts H s e \<and> bt_get (bw_kv w) (prompt_of s) \<noteq> None"
proof (rule ccontr)
  assume *: "\<not> ?thesis"
  let ?K = "\<lambda>k. k = trust_of s \<or> k = prompt_of s \<and> accepts H s e"
  have "keeps_world (calm (in_caller (fst e)) (in_policy (fst e)) False ?K (\<lambda>_ _. False) (watched (\<lambda>_ _. False) w))
      (broker_handle H (snd e))"
    by (rule calm_handle) (auto simp: distinct_keys accepts_def source_of_def)
  from calm_end(2)[OF this, of "trust_of s"] assms * show False by (auto simp: sensitive_keys)
qed

lemma accepted_by: "in_caller (fst e) = Some c \<Longrightarrow> source_of e = Some (cc_source_id c)"
  by (simp add: source_of_def)

text \<open>The event answers for its source, and that source is trusted.\<close>

definition trusted_event :: "(string \<Rightarrow> broker_event \<Rightarrow> bool) \<Rightarrow> broker_event \<Rightarrow> broker_world \<Rightarrow> bool" where
  "trusted_event Q e w \<longleftrightarrow> (\<exists>s. source_of e = Some s \<and> Q s e \<and> bt_get (bw_kv w) (trust_of s) \<noteq> None)"

definition trust_of_event :: "(string \<Rightarrow> broker_event \<Rightarrow> bool) \<Rightarrow> broker_event \<Rightarrow> string \<Rightarrow> bool" where
  "trust_of_event Q e k \<longleftrightarrow> (\<exists>s. k = trust_of s \<and> source_of e = Some s \<and> Q s e)"

lemma trust_of_event_keys:
  "\<not> trust_of_event Q e (prompt_of s)" "\<not> trust_of_event Q e (decision_of c)"
  "trust_of_event Q e (trust_of s) \<longleftrightarrow> source_of e = Some s \<and> Q s e"
  by (auto simp: trust_of_event_def distinct_keys)

lemma trust_of_event_absent: "\<not> trusted_event Q e w \<Longrightarrow> trust_of_event Q e k \<Longrightarrow> bt_get (bw_kv w) k = None"
  by (auto simp: trusted_event_def trust_of_event_def)

lemma decision_step:
  assumes "bt_get (bw_kv (broker_invoke H e w)) (decision_of c) \<noteq> None"
  shows "bt_get (bw_kv w) (decision_of c) \<noteq> None \<or> trusted_event (approves H) e w"
proof (rule ccontr)
  assume *: "\<not> ?thesis"
  let ?K = "\<lambda>k. k = decision_of c \<or> trust_of_event (approves H) e k"
  have absent: "bt_get (bw_kv w) k = None" if "?K k" for k
    using that * trust_of_event_absent[of _ e w k] by blast
  have "keeps_world (calm (in_caller (fst e)) (in_policy (fst e)) False ?K (\<lambda>_ _. False) (watched (\<lambda>_ _. False) w))
      (broker_handle H (snd e))"
    by (rule calm_handle) (auto simp: distinct_keys trust_of_event_keys accepted_by approves_def)
  from calm_end(2)[OF this absent, of "decision_of c"] assms show False by (simp add: sensitive_keys)
qed

lemma execute_step:
  assumes "(''tool.v1.execute.'' @ tool, m) \<in> set (bw_bus (broker_invoke H e w))"
  shows "(''tool.v1.execute.'' @ tool, m) \<in> set (bw_bus w) \<or> trusted_event (requests_tool H tool) e w"
proof (rule ccontr)
  assume *: "\<not> ?thesis"
  let ?K = "trust_of_event (requests_tool H tool) e" and ?P = "\<lambda>t m. t = ''tool.v1.execute.'' @ tool"
  have absent: "bt_get (bw_kv w) k = None" if "?K k" for k
    using that * trust_of_event_absent by blast
  have "keeps_world (calm (in_caller (fst e)) (in_policy (fst e)) False ?K ?P (watched ?P w)) (broker_handle H (snd e))"
    by (rule calm_handle)
      (auto simp: distinct_keys trust_of_event_keys accepted_by requests_tool_def reply_topic_def hook_reply_topic_def
        response_topic_def split: if_splits)
  from unsaid[OF calm_end(1)[OF this absent] _ refl assms] * show False by (simp add: watched_topic_def)
qed

lemma approve_step:
  assumes "(t, m) \<in> set (bw_bus (broker_invoke H e w))" and "approval_message t m"
  shows "(t, m) \<in> set (bw_bus w) \<or> trusted_event (approves H) e w \<or> (\<exists>c. bt_get (bw_kv w) (decision_of c) \<noteq> None)"
proof (rule ccontr)
  assume *: "\<not> ?thesis"
  let ?K = "\<lambda>k. (\<exists>c. k = decision_of c) \<or> trust_of_event (approves H) e k"
  have absent: "bt_get (bw_kv w) k = None" if "?K k" for k
    using that * trust_of_event_absent by blast
  have silent: "approval_message t (decision_envelope i d r) \<longleftrightarrow> prefix ''astrid.v1.approval.response.'' t \<and> is_approve_verb d"
    for t i d r
    by (simp add: approval_message_def says_approve_envelope)
  have dispatches: "\<not> approval_message (''tool.v1.execute.'' @ u) v" for u v
    by (simp add: approval_message_def)
  have apart: "\<not> approval_message u v" if "reply_topic q = Some u \<or> hook_reply_topic q = Some u" for q u v
    using that topics_differ(1,2) by (auto simp: approval_message_def)
  have "keeps_world (calm (in_caller (fst e)) (in_policy (fst e)) False ?K approval_message (watched approval_message w))
      (broker_handle H (snd e))"
    by (rule calm_handle)
      (auto simp: distinct_keys trust_of_event_keys accepted_by approves_def silent apart dispatches[simplified]
        is_approve_verb_def[of "''deny''"])
  from unsaid[OF calm_end(1)[OF this absent] _ assms(2,1)] * assms(2) show False
    by (auto simp: watched_topic_def approval_message_def)
qed

section \<open>Guarantees\<close>

lemma accounted_step:
  assumes "accounted H es w"
  shows "accounted H (es @ [e]) (broker_invoke H e w)"
proof -
  have trusted: "by_trusted H Q es e" if "trusted_event Q e w" for Q
    using that assms by (auto simp: by_trusted_def trusted_event_def accounted_def)
  show ?thesis
    unfolding accounted_def
  proof (intro conjI allI impI)
    show "list_ex (calls H s) (es @ [e])" if "bt_get (bw_kv (broker_invoke H e w)) (prompt_of s) \<noteq> None" for s
      using prompts_step[OF that] assms by (auto simp: accounted_def)
    show "consented H s (es @ [e])" if "bt_get (bw_kv (broker_invoke H e w)) (trust_of s) \<noteq> None" for s
      using trust_step[OF that] assms by (auto simp: accounted_def history_simps)
    show "approved H (es @ [e])" if "bt_get (bw_kv (broker_invoke H e w)) (decision_of c) \<noteq> None" for c
      using decision_step[OF that] assms trusted by (auto simp: accounted_def history_simps)
    show "sometime (by_trusted H (requests_tool H tool)) (es @ [e])"
      if "(''tool.v1.execute.'' @ tool, m) \<in> set (bw_bus (broker_invoke H e w))" for tool m
      using execute_step[OF that] assms trusted by (auto simp: accounted_def history_simps simp del: append_Cons)
    show "approved H (es @ [e])" if "(t, m) \<in> set (bw_bus (broker_invoke H e w)) \<and> approval_message t m" for t m
      using approve_step[of t m H e w] that assms trusted by (auto simp: accounted_def history_simps)
  qed
qed

lemma accounted_run:
  assumes "bw_kv w = []" and "bw_bus w = []"
  shows "accounted H es (broker_run H es w)"
proof (induction es rule: rev_induct)
  case Nil
  with assms show ?case by (simp add: accounted_def broker_run_Nil)
next
  case (snoc e es)
  then show ?case unfolding broker_run_snoc by (rule accounted_step)
qed

text \<open>The ingress gate. Over any run from an empty store, a session that the broker trusts has accepted a consent
  prompt: the history holds an accepting answer of that very session, and before it a tool call of that session, to
  which the broker answers with the prompt. Nothing else, no failing host call included, makes a session trusted.\<close>

lemma trust_needs_consent:
  assumes "bw_kv w = []" and "bw_bus w = []"
    and "bt_get (bw_kv (broker_run H es w)) (''mcp.ingress.trust.'' @ s) \<noteq> None"
  shows "consented H s es"
  using accounted_run[OF assms(1,2), of H es] assms(3) by (simp add: accounted_def trust_of_def)

lemma trust_needs_consent_witness: "consented demo_host ''cli'' (take 2 demo_events)"
  by (rule trust_needs_consent[of demo_world demo_host]) (simp_all add: demo_kv2 bt_get_def, simp_all add: demo_world_def)

text \<open>C17. Dispatch is gated. Whenever the broker has put an execution request for a tool on the bus, the history holds
  a call of that tool by a session which had consented before, and which the policy loaded for that call allows. The
  arguments of the request and of the call are not compared.\<close>

theorem dispatch_needs_consent_and_policy:
  assumes "bw_kv w = []" and "bw_bus w = []"
    and "(''tool.v1.execute.'' @ tool, m) \<in> set (bw_bus (broker_run H es w))"
  shows "sometime (by_trusted H (requests_tool H tool)) es"
  using accounted_run[OF assms(1,2), of H es] assms(3) unfolding accounted_def by blast

theorem dispatch_needs_consent_and_policy_witness:
  "sometime (by_trusted demo_host (requests_tool demo_host ''echo'')) (take 3 demo_events)"
proof (rule dispatch_needs_consent_and_policy)
  show "bw_kv demo_world = []" "bw_bus demo_world = []" by (simp_all add: demo_world_def)
  show "(''tool.v1.execute.'' @ ''echo'', tool_execute_request ''d-1'' ''r-1'' ''echo'' CNull)
      \<in> set (bw_bus (broker_run demo_host (take 3 demo_events) demo_world))"
    using demo_run3(2) by simp
qed

text \<open>C18. Approvals come from the user. Whenever a message on the bus approves a capability or a grant, be it at once or
  automatically from a recorded decision, some session that had consented has answered with an approval.\<close>

theorem approval_needs_user:
  assumes "bw_kv w = []" and "bw_bus w = []"
    and "(t, m) \<in> set (bw_bus (broker_run H es w))" and "approval_message t m"
  shows "approved H es"
  using accounted_run[OF assms(1,2), of H es] assms(3,4) unfolding accounted_def by blast

theorem approval_needs_user_witness: "approved demo_host demo_events"
proof (rule approval_needs_user[OF _ _ demo_run4])
  show "bw_kv demo_world = []" "bw_bus demo_world = []" by (simp_all add: demo_world_def)
  show "approval_message ''astrid.v1.approval.response.g-1'' (decision_envelope ''g-1'' ''approve'' None)"
    by (simp add: approval_message_def says_approve_envelope is_approve_verb_def)
qed

end
