(* ===== verification/Broker_Answers.thy ===== *)
theory Broker_Answers
  imports Consent_Properties
begin

text \<open>
  What a caller of the broker gets back: one reply per request, results that only the selected provider can
  give, parked calls that resume once, and tools attributed to the capsules that advertised them.
\<close>

section \<open>One reply\<close>

text \<open>The topic on which a request is to be answered, and the id and kind that its answer carries.\<close>

definition addressed :: "broker_host \<Rightarrow> broker_request \<Rightarrow> (string \<times> string) option" where
  "addressed H r = (case r of
     McpList p \<Rightarrow> map_option (\<lambda>i. (i, ''tools.list'')) (bh_list_request H p)
   | McpCall p \<Rightarrow> map_option (\<lambda>q. (cr_req_id q, ''tool.call'')) (bh_call_request H p)
   | McpApproval p \<Rightarrow> map_option (\<lambda>q. (av_req_id q, ''tool.call'')) (bh_approval_respond H p)
   | IngressRespond p \<Rightarrow> map_option (\<lambda>q. (iv_req_id q, ''ingress.respond'')) (bh_ingress_respond H p)
   | GrantRespond p \<Rightarrow> map_option (\<lambda>q. (gv_req_id q, ''grant.respond'')) (bh_grant_respond H p)
   | _ \<Rightarrow> None)"

definition reply_to :: "string \<times> string \<Rightarrow> canonical_json \<Rightarrow> bool" where
  "reply_to a m \<longleftrightarrow> json_get m ''req_id'' = Some (CString (fst a)) \<and> json_get m ''kind'' = Some (CString (snd a))"

text \<open>Nothing said on the topic yet, and one reply said.\<close>

abbreviation waiting :: "caller_context option \<Rightarrow> env_result \<Rightarrow> string \<Rightarrow> (string \<times> canonical_json) list \<Rightarrow> broker_world \<Rightarrow> bool" where
  "waiting ctx pol t said \<equiv> calm ctx pol True (\<lambda>_. False) (\<lambda>u _. u = t) said"

definition replied :: "string \<times> string \<Rightarrow> caller_context option \<Rightarrow> env_result \<Rightarrow> string \<Rightarrow> (string \<times> canonical_json) list \<Rightarrow>
    broker_world \<Rightarrow> bool" where
  "replied a ctx pol t said w \<longleftrightarrow> (\<exists>m. reply_to a m \<and> waiting ctx pol t (said @ [(t, m)]) w)"

lemma turns_send:
  assumes "watched_topic t" and "reply_to a m"
  shows "turns (waiting ctx pol t said) (send t m) (replied a ctx pol t said)"
  unfolding turns_def
proof (intro allI impI)
  fix w assume "waiting ctx pol t said w"
  then show "replied a ctx pol t said (snd (run_state (send t m) w))"
    using assms
    by (auto simp: send_def publish_json_def next_input_def calm_def replied_def watched_def State_Monad.update_def
        intro!: exI[of _ m])
qed

lemma reply_watched: "reply_topic i = Some t \<Longrightarrow> watched_topic t"
  by (auto simp: reply_topic_def watched_topic_def split: if_splits)

lemma turns_to_shim:
  assumes "reply_topic (fst a) = Some t" and "reply_to a m"
  shows "turns (waiting ctx pol t said) (to_shim (fst a) m) (replied a ctx pol t said)"
  using turns_send[OF reply_watched[OF assms(1)] assms(2)] assms(1) by (simp add: to_shim_def)

section \<open>The replies of a call\<close>

definition gives :: "'a broker_op \<Rightarrow> ('a \<Rightarrow> bool) \<Rightarrow> bool" where
  "gives m R \<longleftrightarrow> (\<forall>w. R (fst (run_state m w)))"

lemma gives_ret: "R x \<Longrightarrow> gives (ret x) R"
  by (simp add: gives_def)

lemma gives_bind: "(\<And>x. gives (f x) R) \<Longrightarrow> gives (State_Monad.bind m f) R"
  by (simp add: gives_def split: prod.splits)

lemma yields_gives: "keeps_world I m \<Longrightarrow> gives m R \<Longrightarrow> yields I m R"
  by (simp add: gives_def yields_def keeps_world_def)

lemma reply_to_call: "reply_to (cr_req_id req, ''tool.call'') (call_reply H (cr_req_id req) c e [])"
  by (simp add: reply_to_def call_reply_def json_get_obj)

lemma reply_to_extra:
  "''req_id'' \<notin> fst ` set ex \<Longrightarrow> ''kind'' \<notin> fst ` set ex \<Longrightarrow> reply_to (i, ''tool.call'') (call_reply H i c e ex)"
  by (simp add: reply_to_def call_reply_def json_get_obj map_add_def map_of_eq_None_iff[THEN iffD2] split: option.splits)

lemma reply_to_grant: "reply_to (i, ''tool.call'') (grant_reply i m e)"
  by (simp add: reply_to_def grant_reply_def json_get_obj)

lemma gives_grant_required: "gives (grant_required_reply H req pr g) (reply_to (cr_req_id req, ''tool.call''))"
  unfolding grant_required_reply_def grant_dedup_reply_def grant_auto_approve_reply_def grant_auto_deny_reply_def
    grant_unroutable_reply_def Let_def
  by (rule gives_bind, split granted_action.split)
    (auto intro!: gives_bind gives_ret reply_to_grant reply_to_extra)

lemma gives_outcome: "gives (outcome_reply H req pr p out) (reply_to (cr_req_id req, ''tool.call''))"
  unfolding outcome_reply_def
  by (cases out) (auto intro!: gives_bind gives_ret gives_grant_required reply_to_extra)

lemma gives_trusted_call: "gives (trusted_call H req pr) (reply_to (cr_req_id req, ''tool.call''))"
  unfolding trusted_call_def
  by (rule gives_bind, split decision.split)
    (auto intro!: gives_bind gives_ret gives_outcome reply_to_extra split: option.split)

lemma gives_gated_call: "gives (gated_call H req) (reply_to (cr_req_id req, ''tool.call''))"
  unfolding gated_call_def pretooluse_gate_reply_def gate_reply_body_def Let_def
  by (auto intro!: gives_bind gives_ret gives_trusted_call reply_to_extra split: option.split)

section \<open>The handlers\<close>

lemma quiet_topics:
  assumes "reply_topic i = Some t"
  shows "response_topic j = Some u \<Longrightarrow> u \<noteq> t" and "''tool.v1.execute.'' @ tool \<noteq> t" and "hook_reply_topic k = Some u \<Longrightarrow> u \<noteq> t"
  using assms by (auto simp: reply_topic_def response_topic_def hook_reply_topic_def split: if_splits)

lemma waiting_gated_call:
  assumes "reply_topic i = Some t"
  shows "keeps_world (waiting ctx pol t said) (gated_call H req)"
proof (rule calm.keeps_gated_call[where C = "\<lambda>_. True" and T = "\<lambda>_ _. True"])
  show "keeps_world (waiting ctx pol t said) (trusted_call H req pr)" for pr
    by (rule calm.keeps_trusted_call[where R = "\<lambda>_. True" and D = "\<lambda>_. True"])
      (use quiet_topics[OF assms] in \<open>blast intro: keeps_yields calm.keeps_recorded_grant_decision calm.keeps_policy_decision\<close>)+
qed (simp_all add: keeps_yields calm.keeps_caller calm.keeps_is_ingress_trusted)

lemma waiting_decision:
  assumes "reply_topic i = Some t" and "response_topic j = Some u"
  shows "keeps_world (waiting ctx pol t said) (publish_decision u k d r)"
  by (rule calm.keeps_publish_decision) (use quiet_topics(1)[OF assms] in simp)

lemma turns_deliver:
  assumes "reply_topic i = Some t"
  shows "turns (waiting ctx pol t said) (deliver_result H i c e) (replied (i, ''tool.call'') ctx pol t said)"
    and "turns (waiting ctx pol t said) (deliver_error H i x) (replied (i, ''tool.call'') ctx pol t said)"
proof -
  show r: "turns (waiting ctx pol t said) (deliver_result H i c e) (replied (i, ''tool.call'') ctx pol t said)" for c e
    unfolding deliver_result_def
    by (rule turns_to_shim[of "(i, ''tool.call'')", simplified fst_conv])
      (simp_all add: assms reply_to_def json_get_obj)
  show "turns (waiting ctx pol t said) (deliver_error H i x) (replied (i, ''tool.call'') ctx pol t said)"
    unfolding deliver_error_def by (rule r)
qed

lemma turns_ack:
  assumes "reply_topic i = Some t"
  shows "turns (waiting ctx pol t said) (ingress_ack i g) (replied (i, ''ingress.respond'') ctx pol t said)"
    and "turns (waiting ctx pol t said) (grant_ack i g) (replied (i, ''grant.respond'') ctx pol t said)"
  unfolding ingress_ack_def grant_ack_def acknowledgement_def
  by (rule turns_to_shim[of "(i, _)", simplified fst_conv], simp_all add: assms reply_to_def json_get_obj)+

lemma turns_resolve:
  assumes t: "reply_topic (av_req_id req) = Some t" and u: "response_topic (av_request_id req) = Some u"
  shows "turns (waiting ctx pol t said) (resolve_with_decision H req u d r route) (replied (av_req_id req, ''tool.call'') ctx pol t said)"
proof -
  have observe: "keeps_world (waiting ctx pol t said) (case pr_delivery_id route of None \<Rightarrow> ret False | Some i \<Rightarrow> subscribe_failures H i)"
    by (intro stays calm.keeps_subscribe_failures)
  have collect: "keeps_world (waiting ctx pol t said) (if b then ret None
      else drain_result H (av_call_id req) route pr (slices resume_timeout_ms resume_slice_ms))" for b pr
    by (intro stays calm.keeps_drain_result)
  note published = turns_after_keeps[OF waiting_decision[OF t u]]
  show ?thesis
    unfolding resolve_with_decision_def Let_def
    by (intro turns_if published turns_deliver[OF t] turns_after_keeps[OF calm.keeps_subscribe_fails]
          turns_after_keeps[OF calm.keeps_caller] turns_after_keeps[OF observe])
      (simp add: t turns_after_keeps[OF collect] turns_option turns_deliver[OF t] split: option.split prod.split)
qed

lemma turns_handle:
  assumes "addressed H r = Some a" and "reply_topic (fst a) = Some t"
  shows "turns (waiting ctx pol t said) (broker_handle H r) (replied a ctx pol t said)"
proof (cases r)
  case (McpList p)
  with assms have a: "bh_list_request H p = Some (fst a)" "a = (fst a, ''tools.list'')" by (auto simp: addressed_def)
  have "reply_to a (json_obj [(''kind'', CString ''tools.list''), (''req_id'', CString (fst a)), (''tools'', x)])" for x
    by (subst a(2)) (simp add: reply_to_def json_get_obj)
  then show ?thesis
    using McpList a(1) assms(2)
    by (simp add: broker_handle_def handle_mcp_list_def turns_after_keeps[OF calm.keeps_collect_snapshot]
        turns_send[OF reply_watched[OF assms(2)]])
next
  case (McpCall p)
  with assms obtain q where q: "bh_call_request H p = Some q" "a = (cr_req_id q, ''tool.call'')" by (auto simp: addressed_def)
  have "turns (waiting ctx pol t said) (gated_call H q \<bind> send t) (replied a ctx pol t said)"
    by (rule turns_after[OF yields_gives[OF waiting_gated_call[OF assms(2)] gives_gated_call]])
      (simp add: q(2) turns_send[OF reply_watched[OF assms(2)]])
  with McpCall q assms(2) show ?thesis by (simp add: broker_handle_def handle_mcp_call_def)
next
  case (McpApproval p)
  with assms obtain q where q: "bh_approval_respond H p = Some q" "a = (av_req_id q, ''tool.call'')" by (auto simp: addressed_def)
  with assms have t: "reply_topic (av_req_id q) = Some t" by simp
  have "turns (waiting ctx pol t said) (handle_mcp_approval H p) (replied a ctx pol t said)"
    unfolding handle_mcp_approval_def q
    by (auto simp: t intro!: turns_deliver[OF t] turns_after_keeps[OF calm.keeps_take_route] turns_resolve[OF t]
        turns_after_keeps[OF waiting_decision[OF t]] turns_after_keeps[OF calm.keeps_caller]
        turns_after_keeps[OF calm.keeps_is_ingress_trusted] split: option.split)
  with McpApproval show ?thesis by (simp add: broker_handle_def)
next
  case (IngressRespond p)
  with assms obtain q where q: "bh_ingress_respond H p = Some q" "a = (iv_req_id q, ''ingress.respond'')" by (auto simp: addressed_def)
  with assms have t: "reply_topic (iv_req_id q) = Some t" by simp
  note ack = turns_ack(1)[OF t]
  have prompt: "keeps_world (waiting ctx pol t said) (take_ingress_pending s)" for s
    by (rule calm.keeps_take_ingress_pending) simp
  have trust: "keeps_world (waiting ctx pol t said) (bk_set k v)" for k v
    by (rule calm.keeps_bk_set) simp
  have "turns (waiting ctx pol t said) (handle_mcp_ingress_respond H p) (replied a ctx pol t said)"
    unfolding handle_mcp_ingress_respond_def q
    by (auto intro!: ack turns_after_keeps[OF calm.keeps_caller] turns_after_keeps[OF prompt] turns_after_keeps[OF trust]
        turns_after_keeps[OF calm.keeps_send[OF calm.audit_send]] split: option.split sum.split)
  with IngressRespond show ?thesis by (simp add: broker_handle_def)
next
  case (GrantRespond p)
  with assms obtain q where q: "bh_grant_respond H p = Some q" "a = (gv_req_id q, ''grant.respond'')" by (auto simp: addressed_def)
  with assms have t: "reply_topic (gv_req_id q) = Some t" by simp
  note ack = turns_ack(2)[OF t]
  have recording: "keeps_world (waiting ctx pol t said) (record_grant_decision c d)" for c d
    by (rule calm.keeps_record_grant_decision) simp
  have "turns (waiting ctx pol t said) (handle_mcp_grant_respond H p) (replied a ctx pol t said)"
    unfolding handle_mcp_grant_respond_def q Let_def
    by (auto intro!: ack turns_after_keeps[OF calm.keeps_caller] turns_after_keeps[OF calm.keeps_take_grant_pending]
        turns_after_keeps[OF waiting_decision[OF t]] turns_after_keeps[OF calm.keeps_is_ingress_trusted]
        turns_after_keeps[OF recording] split: option.split)
  with GrantRespond show ?thesis by (simp add: broker_handle_def)
qed (use assms in \<open>simp_all add: addressed_def\<close>)

text \<open>C21. Every accepted request is answered exactly once. A list, a call, an approval, an ingress or a grant answer
  with a routable request id, while the bus takes messages, puts exactly one message on its reply topic, and that
  message carries the request's id and kind; whatever the store, the policy, the provider and the polls do.\<close>

theorem answered_exactly_once:
  assumes "addressed H r = Some a" and "reply_topic (fst a) = Some t" and "in_bus_faults i = []"
  shows "\<exists>m. reply_to a m \<and> filter (\<lambda>(u, _). u = t) (bw_bus (broker_invoke H (i, r) w)) =
    filter (\<lambda>(u, _). u = t) (bw_bus w) @ [(t, m)]"
proof -
  have w: "watched (\<lambda>u _. u = t) v = filter (\<lambda>(u, _). u = t) (bw_bus v)" for v
    using reply_watched[OF assms(2)] by (auto simp: watched_def intro: filter_cong)
  have "waiting (in_caller i) (in_policy i) t (watched (\<lambda>u _. u = t) w) (w\<lparr>bw_in := i\<rparr>)"
    using assms(3) by (simp add: calm_def watched_def)
  with turns_handle[OF assms(1,2)]
  have "replied a (in_caller i) (in_policy i) t (watched (\<lambda>u _. u = t) w) (broker_invoke H (i, r) w)"
    by (fastforce simp: turns_def broker_invoke_def)
  then show ?thesis by (auto simp: replied_def calm_def w)
qed

theorem answered_exactly_once_witness:
  "\<exists>m. reply_to (''r-1'', ''tool.call'') m \<and>
     filter (\<lambda>(u, _). u = ''astrid.v1.response.r-1'') (bw_bus (broker_invoke demo_host (demo_inputs, McpCall CNull) demo_world)) = [(''astrid.v1.response.r-1'', m)]"
proof -
  have "addressed demo_host (McpCall CNull) = Some (''r-1'', ''tool.call'')" by (simp add: addressed_def demo_host_def)
  moreover have "reply_topic (fst (''r-1'', ''tool.call'')) = Some ''astrid.v1.response.r-1''" by code_simp
  moreover have "in_bus_faults demo_inputs = []" by (simp add: demo_inputs_def)
  ultimately show ?thesis
    using answered_exactly_once[of demo_host "McpCall CNull" _ _ demo_inputs demo_world] by (simp add: demo_world_def)
qed

section \<open>Results\<close>

definition delivered :: "bus_message list option list \<Rightarrow> bus_message list" where
  "delivered batches = concat (List.map_filter (\<lambda>b. b) batches)"

lemma delivered_iff: "m \<in> set (delivered bs) \<longleftrightarrow> (\<exists>ms. Some ms \<in> set bs \<and> m \<in> set ms)"
  by (force simp: delivered_def List.map_filter_def)

text \<open>The polls of results that are still to come are among those of the start.\<close>

definition results_within :: "bus_message list option set \<Rightarrow> broker_world \<Rightarrow> bool" where
  "results_within S w \<longleftrightarrow> set (in_results (bw_in w)) \<subseteq> S"

interpretation within: broker_law "results_within S" "\<lambda>_ _. True" "\<lambda>_. True" "\<lambda>_ _. True" H "\<lambda>_. True" "\<lambda>_. True" for S H
  by unfold_locales (auto simp: results_within_def advances_def)

lemma within_results:
  "yields (results_within S) (next_input in_results in_results_update (Some [])) (\<lambda>b. b \<in> insert (Some []) S)"
  by (auto simp: yields_def results_within_def next_input_def split: list.splits)

definition found_in :: "broker_host \<Rightarrow> string \<Rightarrow> string \<Rightarrow> bus_message list option set \<Rightarrow> canonical_json \<times> bool \<Rightarrow> bool" where
  "found_in H call p S r \<longleftrightarrow> (\<exists>ms m. Some ms \<in> S \<and> m \<in> set ms \<and> bm_source_id m = p \<and>
     is_valid_provider_source_id H p \<and> match_result H (bm_payload m) call p p = Some r)"

lemma found_in_batch:
  "b \<in> insert (Some []) S \<Longrightarrow> Option.bind b (find_result H call p) = Some r \<Longrightarrow> found_in H call p S r"
  by (cases b) (force simp: found_in_def dest: find_result_from)+

definition genuine :: "broker_host \<Rightarrow> string \<Rightarrow> string \<Rightarrow> bus_message list option set \<Rightarrow> dispatch_outcome \<Rightarrow> bool" where
  "genuine H call p S out \<longleftrightarrow> (case out of DispatchResult c e \<Rightarrow> found_in H call p S (c, e) | _ \<Rightarrow> True)"

lemma genuine_signal: "signal_outcome d s = Some out \<Longrightarrow> genuine H call p S out"
  by (auto simp: signal_outcome_def genuine_def split: option.splits dispatch_outcome.splits)

lemma yields_option: "(x = None \<Longrightarrow> yields I m R) \<Longrightarrow> (\<And>y. x = Some y \<Longrightarrow> yields I (f y) R) \<Longrightarrow>
    yields I (case x of None \<Rightarrow> m | Some y \<Rightarrow> f y) R"
  by (cases x) simp_all

lemma drain_genuine: "yields (results_within S) (drain H tool call p d pr n) (genuine H call p S)"
proof (induction n)
  case (Suc n)
  note signals = yields_bind[OF keeps_yields[OF within.keeps_poll_signal]]
  show ?case
    unfolding drain.simps
    apply (rule yields_bind[OF keeps_yields[OF within.keeps_poll_failure]], rule yields_option)
     apply (rule signals, rule yields_option)
      apply (rule yields_bind[OF within_results], rule yields_option)
       apply (rule signals, rule yields_option, rule Suc, rule yields_ret, erule genuine_signal)
      apply (auto intro!: yields_ret intro: found_in_batch[OF insertI2] simp: genuine_def)[1]
     apply (rule yields_ret, erule genuine_signal)
    apply (simp add: yields_ret genuine_def)
    done
qed (simp add: yields_ret genuine_def)

lemma dispatch_genuine: "yields (results_within S) (dispatch_with_approval H tool call args p) (genuine H call p S)"
proof -
  note keeps = keeps_yields[OF within.keeps_caller] keeps_yields[OF within.keeps_subscribe_failures]
    keeps_yields[OF within.keeps_subscribe_fails] keeps_yields[OF within.keeps_publish_json]
    keeps_yields[OF keeps_get]
  show ?thesis
    unfolding dispatch_with_approval_def Let_def
    by (auto intro!: yields_ret yields_bind[OF keeps(1)] yields_bind[OF keeps(2)] yields_bind[OF keeps(3)]
        yields_bind[OF keeps(4)] yields_bind[OF keeps(5)] drain_genuine simp: genuine_def split: option.split sum.split)
qed

lemma drain_result_genuine:
  "yields (results_within S) (drain_result H call route pr n)
     (\<lambda>out. case out of None \<Rightarrow> True | Some r \<Rightarrow> found_in H call (pr_provider_source_id route) S r \<or> snd r)"
proof (induction n)
  case (Suc n)
  have polls: "keeps_world (results_within S) (case (pr_delivery_id route, pr) of
      (Some i, Some p) \<Rightarrow> poll_failure H i t p | _ \<Rightarrow> ret None)" for t
    by (auto intro: within.keeps_poll_failure keeps_ret split: option.split)
  show ?case
    unfolding drain_result.simps
    apply (rule yields_bind[OF keeps_yields[OF polls]], rule yields_option)
     apply (rule yields_bind[OF within_results], rule yields_option, rule Suc)
     apply (auto intro!: yields_ret intro: found_in_batch[OF insertI2])[1]
    apply (simp add: yields_ret)
    done
qed (simp add: yields_ret)

text \<open>What an answer says, by the members of its payload alone.\<close>

definition answers_call :: "canonical_json \<Rightarrow> string \<Rightarrow> canonical_json \<Rightarrow> bool \<Rightarrow> bool" where
  "answers_call v call c e \<longleftrightarrow> json_get v ''call_id'' = Some (CString call) \<and>
     c = (case json_member (json_get v ''result'') ''content'' of Some found \<Rightarrow> found | None \<Rightarrow> CString []) \<and>
     (e \<longleftrightarrow> json_member (json_get v ''result'') ''is_error'' = Some (CBool True))"

lemma match_result_answers:
  assumes "match_result H payload call m p = Some (c, e)"
  shows "\<exists>v. bh_parse H payload = Some v \<and> answers_call v call c e"
proof -
  have str: "json_str x = Some s \<longleftrightarrow> x = CString s" and bool: "json_bool x = Some b \<longleftrightarrow> x = CBool b" for x s b
    by (cases x; auto simp: json_str_def json_bool_def)+
  have flag: "(case Option.bind x json_bool of Some b \<Rightarrow> b | None \<Rightarrow> False) \<longleftrightarrow> x = Some (CBool True)" for x
    by (cases x; cases "json_bool (the x)") (auto simp: json_bool_def split: canonical_json.splits)
  have id: "Option.bind x json_str \<noteq> Some i \<longleftrightarrow> x \<noteq> Some (CString i)" for x i
    by (cases x) (simp_all add: str)
  obtain v where v: "bh_parse H payload = Some v"
    using assms by (auto simp: match_result_def split: option.splits if_splits)
  show ?thesis
    using assms v unfolding match_result_def Let_def id flag answers_call_def
    by (simp split: if_splits)
qed

text \<open>C22. Results come from the selected provider. When a dispatch yields a result, some message that the broker polled
  for it was stamped by the kernel with the very source that was selected for the tool; that source is a valid
  identity; the payload of the message parses to an object whose member \<open>call_id\<close> is the id that the request was
  dispatched under; and the outcome is the content and the error flag of that payload's result. No other capsule, and
  no answer to another call, becomes the result.\<close>

theorem results_come_from_provider:
  assumes "run_state (dispatch_with_approval H tool call args p) w = (DispatchResult c e, w')"
  shows "\<exists>m. m \<in> set (delivered (in_results (bw_in w))) \<and> bm_source_id m = p \<and> is_valid_provider_source_id H p \<and>
    (\<exists>v. bh_parse H (bm_payload m) = Some v \<and> json_get v ''call_id'' = Some (CString call) \<and>
      c = (case json_member (json_get v ''result'') ''content'' of Some found \<Rightarrow> found | None \<Rightarrow> CString []) \<and>
      (e \<longleftrightarrow> json_member (json_get v ''result'') ''is_error'' = Some (CBool True)))"
proof -
  have "found_in H call p (set (in_results (bw_in w))) (c, e)"
    using dispatch_genuine[of "set (in_results (bw_in w))" H tool call args p] assms
    by (auto simp: yields_def results_within_def genuine_def)
  then obtain ms m where m: "Some ms \<in> set (in_results (bw_in w))" "m \<in> set ms" "bm_source_id m = p"
    "is_valid_provider_source_id H p" and r: "match_result H (bm_payload m) call p p = Some (c, e)"
    by (auto simp: found_in_def)
  have "m \<in> set (delivered (in_results (bw_in w)))" using m(1,2) by (auto simp: delivered_iff)
  with m(3,4) match_result_answers [OF r, unfolded answers_call_def] show ?thesis by blast
qed

theorem results_come_from_provider_witness:
  "\<exists>(m :: bus_message) v. bm_source_id m = ''prov'' \<and> bh_parse demo_host (bm_payload m) = Some v \<and>
     json_get v ''call_id'' = Some (CString ''r-1'')"
proof -
  let ?w = "demo_world\<lparr>bw_in := demo_inputs\<lparr>in_results := [Some [demo_message ''result'']]\<rparr>\<rparr>"
  have "fst (run_state (dispatch_with_approval demo_host ''echo'' ''r-1'' CNull ''prov'') ?w) = DispatchResult (CString ''hi'') False"
    by code_simp
  then have "run_state (dispatch_with_approval demo_host ''echo'' ''r-1'' CNull ''prov'') ?w =
      (DispatchResult (CString ''hi'') False, snd (run_state (dispatch_with_approval demo_host ''echo'' ''r-1'' CNull ''prov'') ?w))"
    by (metis prod.collapse)
  from results_come_from_provider[OF this] show ?thesis by auto
qed

end
