(* ===== verification/Strategy.thy ===== *)
theory Strategy
  imports Canonical
begin

text \<open>
  \<open>capsules/capsule-context-engine/src/strategy.rs\<close>: the default compaction strategy. Messages are
  JSON values; the length of their serialized text (\<open>serde_json\<close>'s \<open>Value::to_string\<close>) is the
  parameter \<open>to_text\<close>. Token counts are \<open>u64\<close> words with saturating arithmetic; the index set
  \<open>removed\<close> is a set of positions. The facts show that the result is the list without the
  positions of a shortest prefix of the removable ones that brings the estimate under the target.
\<close>

section \<open>Token estimates\<close>

definition u64_saturating_add :: "u64 \<Rightarrow> u64 \<Rightarrow> u64" where
  "u64_saturating_add a b = (if unat a + unat b < 2 ^ 64 then a + b else - 1)"

definition u64_saturating_sub :: "u64 \<Rightarrow> u64 \<Rightarrow> u64" where
  "u64_saturating_sub a b = (if b \<le> a then a - b else 0)"

definition u64_div_ceil :: "u64 \<Rightarrow> u64 \<Rightarrow> u64" where
  "u64_div_ceil a b = (if a mod b > 0 then a div b + 1 else a div b)"

definition estimate_tokens :: "(canonical_json \<Rightarrow> string) \<Rightarrow> canonical_json \<Rightarrow> u64" where
  "estimate_tokens to_text message = u64_div_ceil (of_nat (length (to_text message))) 4"

definition estimate_total_tokens :: "(canonical_json \<Rightarrow> string) \<Rightarrow> canonical_json list \<Rightarrow> u64" where
  "estimate_total_tokens to_text messages =
     foldl u64_saturating_add 0 (map (estimate_tokens to_text) messages)"

section \<open>Message identity\<close>

definition value_get :: "canonical_json \<Rightarrow> string \<Rightarrow> canonical_json option" where
  "value_get v key = (case v of CObject ms \<Rightarrow> map_of ms key | _ \<Rightarrow> None)"

definition value_as_str :: "canonical_json \<Rightarrow> string option" where
  "value_as_str v = (case v of CString s \<Rightarrow> Some s | _ \<Rightarrow> None)"

definition message_id :: "canonical_json \<Rightarrow> string option" where
  "message_id msg =
     Option.bind (case value_get msg ''id'' of Some v \<Rightarrow> Some v | None \<Rightarrow> value_get msg ''message_id'') value_as_str"

definition is_protected :: "string set \<Rightarrow> canonical_json \<Rightarrow> bool" where
  "is_protected protected_ids msg = (case message_id msg of None \<Rightarrow> False | Some i \<Rightarrow> i \<in> protected_ids)"

section \<open>Compaction\<close>

definition removable_indices :: "string set \<Rightarrow> nat \<Rightarrow> canonical_json list \<Rightarrow> nat list" where
  "removable_indices protected_ids recent_start messages =
     map fst (filter (\<lambda>(i, msg). \<not> recent_start \<le> i \<and> \<not> is_protected protected_ids msg)
       (List.enumerate 0 messages))"

fun remove_oldest :: "(nat \<Rightarrow> u64) \<Rightarrow> u64 \<Rightarrow> nat list \<Rightarrow> u64 \<Rightarrow> nat set \<Rightarrow> nat set" where
  "remove_oldest cost target_tokens [] running_tokens removed = removed"
| "remove_oldest cost target_tokens (idx # rest) running_tokens removed =
     (if running_tokens \<le> target_tokens then removed
      else remove_oldest cost target_tokens rest (u64_saturating_sub running_tokens (cost idx))
             (insert idx removed))"

definition without :: "nat set \<Rightarrow> 'a list \<Rightarrow> 'a list" where
  "without removed xs = map snd (filter (\<lambda>(i, _). i \<notin> removed) (List.enumerate 0 xs))"

definition summarize_and_truncate ::
    "(canonical_json \<Rightarrow> string) \<Rightarrow> canonical_json list \<Rightarrow> u64 \<Rightarrow> string set \<Rightarrow> nat \<Rightarrow> canonical_json list" where
  "summarize_and_truncate to_text messages target_tokens protected_ids keep_recent =
     (if messages = [] then []
      else
        let current_tokens = estimate_total_tokens to_text messages in
        if current_tokens \<le> target_tokens then messages
        else
          let recent_start = length messages - keep_recent;
              removed = remove_oldest (\<lambda>i. estimate_tokens to_text (messages ! i)) target_tokens
                (removable_indices protected_ids recent_start messages) current_tokens {}
          in without removed messages)"

section \<open>Facts\<close>

lemma without_nths: "without R xs = nths xs (- R)"
  by (simp add: without_def nths_def enumerate_eq_zip zip_commute [of "[0..<length xs]"] filter_map
      o_def case_prod_unfold)

lemma without_empty [simp]: "without {} xs = xs"
  by (simp add: without_def case_prod_unfold)

lemma without_append:
  "without R (xs @ ys) = without R xs @ without {j. j + length xs \<in> R} ys"
proof -
  have "{j. j + length xs \<in> - R} = - {j. j + length xs \<in> R}" by auto
  then show ?thesis by (simp add: without_nths nths_append)
qed

lemma subseq_without: "subseq (without R xs) xs"
  by (auto simp: without_nths subseq_conv_nths)

lemma sum_without:
  fixes c :: "'a \<Rightarrow> nat"
  shows "sum_list (map c (without R xs)) + (\<Sum>i \<in> {i \<in> R. i < length xs}. c (xs ! i)) = sum_list (map c xs)"
proof (induction xs rule: rev_induct)
  case (snoc x xs)
  let ?A = "{i \<in> R. i < length xs}"
  have A: "{i \<in> R. i < length (xs @ [x])} = (if length xs \<in> R then insert (length xs) ?A else ?A)"
    by (auto simp: less_Suc_eq)
  have fin: "finite ?A" by simp
  have eq: "(\<Sum>i \<in> ?A. c ((xs @ [x]) ! i)) = (\<Sum>i \<in> ?A. c (xs ! i))"
    by (rule sum.cong) (simp_all add: nth_append)
  have w: "without {j. j + length xs \<in> R} [x] = (if length xs \<in> R then [] else [x])"
    by (simp add: without_nths)
  show ?case
  proof (cases "length xs \<in> R")
    case True
    have "(\<Sum>i \<in> insert (length xs) ?A. c ((xs @ [x]) ! i)) = c x + (\<Sum>i \<in> ?A. c (xs ! i))"
      by (subst sum.insert [OF fin]) (simp_all add: eq del: insert_Collect)
    with True snoc show ?thesis by (simp only: A) (simp add: without_append w)
  next
    case False
    with snoc show ?thesis by (simp only: A) (simp add: without_append w eq)
  qed
qed (simp add: without_nths)

lemma unat_saturating_add: "unat (u64_saturating_add a b) = min (unat a + unat b) (2 ^ 64 - 1)"
proof (cases "unat a + unat b < 2 ^ 64")
  case True
  then show ?thesis by (simp add: u64_saturating_add_def unat_word_ariths take_bit_nat_eq_self min_def)
next
  case False
  have "unat (- 1 :: u64) = 2 ^ 64 - 1" by (simp add: unsigned_minus_1_eq_mask mask_eq_exp_minus_1)
  with False show ?thesis by (simp add: u64_saturating_add_def)
qed

lemma unat_saturating_sub: "unat (u64_saturating_sub a b) = unat a - unat b"
  by (auto simp: u64_saturating_sub_def unat_sub word_le_nat_alt)

lemma unat_total_from:
  "unat (foldl u64_saturating_add a cs) = min (unat a + sum_list (map unat cs)) (2 ^ 64 - 1)"
proof (induction cs arbitrary: a)
  case Nil
  have "unat a < 2 ^ 64" using unsigned_less [where ?'a = nat, of a] by simp
  then show ?case by simp
next
  case (Cons c cs)
  show ?case by (simp add: Cons unat_saturating_add min_def)
qed

lemma unat_total:
  "unat (estimate_total_tokens t ms) = min (sum_list (map (\<lambda>m. unat (estimate_tokens t m)) ms)) (2 ^ 64 - 1)"
  by (simp add: estimate_total_tokens_def unat_total_from o_def)

lemma estimate_tokens_ceil:
  assumes "length (t m) < 2 ^ 64"
  shows "unat (estimate_tokens t m) = (length (t m) + 3) div 4"
proof -
  let ?n = "length (t m)"
  have u: "unat (of_nat ?n :: u64) = ?n" using assms by (simp add: unat_of_nat take_bit_nat_eq_self)
  have d: "unat ((of_nat ?n :: u64) div 4) = ?n div 4" by (simp add: unat_div u)
  have m: "unat ((of_nat ?n :: u64) mod 4) = ?n mod 4" by (simp add: unat_mod u)
  have "?n div 4 + 1 < 2 ^ 64" using assms by simp
  then have d1: "unat ((of_nat ?n :: u64) div 4 + 1) = ?n div 4 + 1"
    using unat_word_ariths(1) [of "(of_nat ?n :: u64) div 4" 1] unfolding d by simp
  have "(of_nat ?n :: u64) mod 4 > 0 \<longleftrightarrow> ?n mod 4 > 0"
    using m by (metis unat_gt_0 word_gt_0)
  moreover have "(?n + 3) div 4 = (if ?n mod 4 > 0 then ?n div 4 + 1 else ?n div 4)" by presburger
  ultimately show ?thesis by (simp add: estimate_tokens_def u64_div_ceil_def d d1)
qed

lemma remove_oldest_prefix:
  "\<exists>k \<le> length idxs. remove_oldest c target idxs running R = R \<union> set (take k idxs) \<and>
     (k = length idxs \<or> unat running - sum_list (map (\<lambda>i. unat (c i)) (take k idxs)) \<le> unat target) \<and>
     (\<forall>j < k. unat target < unat running - sum_list (map (\<lambda>i. unat (c i)) (take j idxs)))"
proof (induction idxs arbitrary: running R)
  case (Cons i idxs)
  show ?case
  proof (cases "running \<le> target")
    case True
    then show ?thesis by (intro exI [of _ 0]) (simp add: word_le_nat_alt)
  next
    case False
    let ?r = "u64_saturating_sub running (c i)"
    from Cons [of ?r "insert i R"] obtain k where k: "k \<le> length idxs"
      "remove_oldest c target idxs ?r (insert i R) = insert i R \<union> set (take k idxs)"
      "k = length idxs \<or> unat ?r - sum_list (map (\<lambda>i. unat (c i)) (take k idxs)) \<le> unat target"
      "\<forall>j < k. unat target < unat ?r - sum_list (map (\<lambda>i. unat (c i)) (take j idxs))" by blast
    have "unat target < unat running - sum_list (map (\<lambda>i. unat (c i)) (take j (i # idxs)))" if "j < Suc k" for j
      using that k(4) False by (cases j) (auto simp: unat_saturating_sub word_le_nat_alt)
    with k False show ?thesis
      by (intro exI [of _ "Suc k"]) (auto simp: unat_saturating_sub)
  qed
qed simp

lemma set_removable:
  "set (removable_indices P n ms) = {i. i < length ms \<and> i < n \<and> \<not> is_protected P (ms ! i)}"
  by (auto simp: removable_indices_def in_set_enumerate_eq image_iff)

lemma sorted_removable: "sorted_wrt (<) (removable_indices P n ms)"
proof -
  have "sorted_wrt (\<lambda>p q. fst p < fst q) (List.enumerate 0 ms)"
    by (simp add: sorted_wrt_iff_nth_less nth_enumerate_eq)
  then show ?thesis by (simp add: removable_indices_def sorted_wrt_map sorted_wrt_filter)
qed

lemma sum_list_strict:
  fixes f :: "nat \<Rightarrow> nat"
  assumes "sorted_wrt (<) is"
  shows "sum_list (map f is) = sum f (set is)"
  using assms strict_sorted_iff [of "is"] by (simp add: sum_list_distinct_conv_sum_set)

text \<open>What is left when the \<open>k\<close> oldest removable messages are dropped.\<close>

definition drop_oldest :: "string set \<Rightarrow> nat \<Rightarrow> canonical_json list \<Rightarrow> nat \<Rightarrow> canonical_json list" where
  "drop_oldest P keep_recent ms k = without (set (take k (removable_indices P (length ms - keep_recent) ms))) ms"

lemma drop_oldest_cost:
  fixes c :: "canonical_json \<Rightarrow> nat"
  shows "sum_list (map c (drop_oldest P keep ms k)) +
    sum_list (map (\<lambda>i. c (ms ! i)) (take k (removable_indices P (length ms - keep) ms))) = sum_list (map c ms)"
proof -
  let ?is = "take k (removable_indices P (length ms - keep) ms)"
  have "{i \<in> set ?is. i < length ms} = set ?is"
    using set_take_subset [of k "removable_indices P (length ms - keep) ms"] by (auto simp: set_removable)
  moreover have "sorted_wrt (<) ?is" by (rule sorted_wrt_take [OF sorted_removable])
  ultimately show ?thesis
    using sum_without [of c "set ?is" ms] by (simp add: drop_oldest_def sum_list_strict)
qed

abbreviation cost_of :: "(canonical_json \<Rightarrow> string) \<Rightarrow> canonical_json \<Rightarrow> nat" where
  "cost_of t m \<equiv> unat (estimate_tokens t m)"

lemma drop_oldest_total:
  assumes "sum_list (map (cost_of t) ms) < 2 ^ 64"
  shows "unat (estimate_total_tokens t (drop_oldest P keep ms k)) = unat (estimate_total_tokens t ms) -
    sum_list (map (\<lambda>i. cost_of t (ms ! i)) (take k (removable_indices P (length ms - keep) ms)))"
  using drop_oldest_cost [of "cost_of t" P keep ms k] assms by (simp add: unat_total min_def)

lemma compaction_runs:
  assumes "ms \<noteq> []" and "\<not> estimate_total_tokens t ms \<le> target"
  obtains k where "k \<le> length (removable_indices P (length ms - keep) ms)"
    and "summarize_and_truncate t ms target P keep = drop_oldest P keep ms k"
    and "k = length (removable_indices P (length ms - keep) ms) \<or>
       unat (estimate_total_tokens t ms) - sum_list (map (\<lambda>i. cost_of t (ms ! i))
         (take k (removable_indices P (length ms - keep) ms))) \<le> unat target"
    and "\<forall>j < k. unat target < unat (estimate_total_tokens t ms) - sum_list (map (\<lambda>i. cost_of t (ms ! i))
         (take j (removable_indices P (length ms - keep) ms)))"
proof -
  let ?is = "removable_indices P (length ms - keep) ms"
  obtain k where k: "k \<le> length ?is"
    "remove_oldest (\<lambda>i. estimate_tokens t (ms ! i)) target ?is (estimate_total_tokens t ms) {} =
       {} \<union> set (take k ?is)"
    "k = length ?is \<or> unat (estimate_total_tokens t ms) - sum_list (map (\<lambda>i. cost_of t (ms ! i)) (take k ?is))
       \<le> unat target"
    "\<forall>j < k. unat target < unat (estimate_total_tokens t ms) -
       sum_list (map (\<lambda>i. cost_of t (ms ! i)) (take j ?is))"
    using remove_oldest_prefix [of ?is "\<lambda>i. estimate_tokens t (ms ! i)" target "estimate_total_tokens t ms" "{}"]
    by blast
  have "summarize_and_truncate t ms target P keep = drop_oldest P keep ms k"
    using assms by (simp add: summarize_and_truncate_def Let_def drop_oldest_def k(2))
  from that [OF k(1) this k(3,4)] show thesis .
qed

lemma compaction_prefix:
  assumes "sum_list (map (cost_of t) ms) < 2 ^ 64"
  shows "\<exists>k \<le> length (removable_indices P (length ms - keep) ms).
    summarize_and_truncate t ms target P keep = drop_oldest P keep ms k \<and>
    (k = length (removable_indices P (length ms - keep) ms) \<or>
       estimate_total_tokens t (drop_oldest P keep ms k) \<le> target) \<and>
    (\<forall>j < k. target < estimate_total_tokens t (drop_oldest P keep ms j))"
proof (cases "ms = [] \<or> estimate_total_tokens t ms \<le> target")
  case True
  then show ?thesis
    by (intro exI [of _ 0]) (auto simp: summarize_and_truncate_def drop_oldest_def removable_indices_def)
next
  case False
  note le = word_le_nat_alt word_less_nat_alt drop_oldest_total [OF assms]
  from False have "ms \<noteq> []" "\<not> estimate_total_tokens t ms \<le> target" by simp_all
  then show ?thesis by (rule compaction_runs [where ms = ms and t = t and target = target and keep = keep and P = P]) (auto simp: le)
qed

lemma compaction_form:
  "\<exists>k. summarize_and_truncate t ms target P keep = drop_oldest P keep ms k"
proof (cases "ms = [] \<or> estimate_total_tokens t ms \<le> target")
  case True
  then show ?thesis by (intro exI [of _ 0]) (auto simp: summarize_and_truncate_def drop_oldest_def)
next
  case False
  then show ?thesis by (metis compaction_runs)
qed

lemma filter_without:
  assumes "\<And>i. i \<in> R \<Longrightarrow> i < length xs \<Longrightarrow> \<not> P (xs ! i)"
  shows "filter P (without R xs) = filter P xs"
  using assms
proof (induction xs rule: rev_induct)
  case (snoc x xs)
  have "filter P (without R xs) = filter P xs"
    using snoc.prems by (intro snoc.IH) (force simp: nth_append)
  moreover have "\<not> P x" if "length xs \<in> R" using snoc.prems [OF that] by simp
  moreover have "without {j. j + length xs \<in> R} [x] = (if length xs \<in> R then [] else [x])"
    by (simp add: without_nths)
  ultimately show ?case by (auto simp: without_append)
qed (simp add: without_nths)

lemma without_before:
  assumes "R \<subseteq> {..< length xs}"
  shows "without R (xs @ ys) = without R xs @ ys"
proof -
  have "{j. j + length xs \<in> R} = {}" using assms by auto
  then show ?thesis by (simp add: without_append)
qed

lemma set_without: "set (without R xs) = {xs ! i |i. i < length xs \<and> i \<notin> R}"
  by (auto simp: without_nths set_nths)

lemma drop_oldest_split:
  fixes keep :: nat and ms :: "canonical_json list"
  defines "n \<equiv> length ms - keep"
  shows "drop_oldest P keep ms k = without (set (take k (removable_indices P n ms))) (take n ms) @ drop n ms"
proof -
  have "set (take k (removable_indices P n ms)) \<subseteq> {..< length (take n ms)}"
    using set_take_subset [of k "removable_indices P n ms"] by (auto simp: set_removable n_def)
  from without_before [OF this, of "drop n ms"] show ?thesis by (simp add: drop_oldest_def n_def)
qed

lemma protected_kept_by_drop:
  "filter (is_protected P) (drop_oldest P keep ms k) = filter (is_protected P) ms"
  using set_take_subset [of k "removable_indices P (length ms - keep) ms"]
  unfolding drop_oldest_def by (intro filter_without) (auto simp: set_removable)

lemma suffix_kept_by_drop: "suffix (drop (length ms - keep) ms) (drop_oldest P keep ms k)"
  by (simp add: drop_oldest_split suffix_def)

lemma nothing_left:
  assumes "\<forall>m \<in> set as. is_protected P m" and "length bs \<le> keep"
  shows "removable_indices P (length (as @ bs) - keep) (as @ bs) = []"
proof -
  have "is_protected P ((as @ bs) ! i)" if "i < length (as @ bs) - keep" for i
    using that assms by (auto simp: nth_append)
  then have "set (removable_indices P (length (as @ bs) - keep) (as @ bs)) = {}"
    by (auto simp only: set_removable)
  then show ?thesis by (simp only: set_empty)
qed

lemma dropped_all_settled:
  fixes keep :: nat and ms :: "canonical_json list" and P :: "string set"
  defines "out \<equiv> drop_oldest P keep ms (length (removable_indices P (length ms - keep) ms))"
  shows "removable_indices P (length out - keep) out = []"
proof -
  let ?n = "length ms - keep"
  let ?as = "without (set (removable_indices P ?n ms)) (take ?n ms)"
  have "\<forall>m \<in> set ?as. is_protected P m" by (auto simp: set_without set_removable)
  from nothing_left [OF this, of "drop ?n ms" keep] show ?thesis
    unfolding out_def drop_oldest_split by simp
qed

definition demo_text :: "canonical_json \<Rightarrow> string" where
  "demo_text m = ''12345678''"

definition demo_message :: "string \<Rightarrow> canonical_json" where
  "demo_message i = CObject [(''id'', CString i)]"

definition demo_messages :: "canonical_json list" where
  "demo_messages = [demo_message ''m1'', demo_message ''m2'', demo_message ''m3'']"

lemma estimate_demo: "estimate_tokens (\<lambda>_. ''12345678'') m = 2"
  by (simp add: estimate_tokens_def u64_div_ceil_def)

lemmas compaction_run = summarize_and_truncate_def Let_def estimate_total_tokens_def u64_saturating_add_def
  u64_saturating_sub_def removable_indices_def is_protected_def message_id_def value_get_def value_as_str_def
  without_def

lemma demo_fits: "sum_list (map (\<lambda>m. unat (estimate_tokens demo_text m)) demo_messages) < 2 ^ 64"
  by (simp add: demo_messages_def estimate_tokens_ceil demo_text_def)

section \<open>Properties\<close>

text \<open>C37. Compaction drops a shortest run of the oldest removable messages that brings the estimate to the target:
  it stops as soon as the target is met, and misses it only when everything removable is gone (the
  total of the estimates fits \<open>u64\<close>).\<close>

theorem compaction_shortest_prefix:
  assumes "sum_list (map (\<lambda>m. unat (estimate_tokens t m)) ms) < 2 ^ 64"
  shows "\<exists>k \<le> length (removable_indices P (length ms - keep) ms).
    summarize_and_truncate t ms target P keep = drop_oldest P keep ms k \<and>
    (k = length (removable_indices P (length ms - keep) ms) \<or>
       estimate_total_tokens t (drop_oldest P keep ms k) \<le> target) \<and>
    (\<forall>j < k. target < estimate_total_tokens t (drop_oldest P keep ms j))"
  using assms by (rule compaction_prefix)

theorem compaction_shortest_prefix_witness:
  "\<exists>k \<le> length (removable_indices {''m1''} (length demo_messages - 1) demo_messages).
    summarize_and_truncate demo_text demo_messages 4 {''m1''} 1 = drop_oldest {''m1''} 1 demo_messages k \<and>
    (k = length (removable_indices {''m1''} (length demo_messages - 1) demo_messages) \<or>
       estimate_total_tokens demo_text (drop_oldest {''m1''} 1 demo_messages k) \<le> 4) \<and>
    (\<forall>j < k. 4 < estimate_total_tokens demo_text (drop_oldest {''m1''} 1 demo_messages j))"
  by (rule compaction_shortest_prefix [OF demo_fits])

text \<open>Compaction never invents, reorders or rewrites a message, and it keeps the \<open>keep_recent\<close> most recent
  messages and every protected message.\<close>

theorem compaction_keeps:
  "subseq (summarize_and_truncate t ms target P keep) ms \<and>
   suffix (drop (length ms - keep) ms) (summarize_and_truncate t ms target P keep) \<and>
   filter (is_protected P) (summarize_and_truncate t ms target P keep) = filter (is_protected P) ms"
proof -
  obtain k where "summarize_and_truncate t ms target P keep = drop_oldest P keep ms k"
    using compaction_form by blast
  then show ?thesis
    by (simp add: protected_kept_by_drop suffix_kept_by_drop) (simp add: drop_oldest_def subseq_without)
qed

text \<open>Compaction is idempotent: compacting the result again with the same target, protected set and number of
  recent messages changes nothing.\<close>

theorem compaction_idempotent:
  assumes "sum_list (map (\<lambda>m. unat (estimate_tokens t m)) ms) < 2 ^ 64"
  shows "summarize_and_truncate t (summarize_and_truncate t ms target P keep) target P keep =
    summarize_and_truncate t ms target P keep"
proof -
  obtain k where "summarize_and_truncate t ms target P keep = drop_oldest P keep ms k"
    "k = length (removable_indices P (length ms - keep) ms) \<or>
       estimate_total_tokens t (drop_oldest P keep ms k) \<le> target"
    using compaction_prefix [OF assms, where keep = keep and P = P and target = target] by blast
  then show ?thesis
    using dropped_all_settled [where P = P and ms = ms and keep = keep] by (auto simp: Let_def summarize_and_truncate_def [of t "drop_oldest P keep ms k"])
qed

theorem compaction_idempotent_witness:
  "summarize_and_truncate demo_text (summarize_and_truncate demo_text demo_messages 4 {''m1''} 1) 4 {''m1''} 1 =
     [demo_message ''m1'', demo_message ''m3'']"
proof -
  have "summarize_and_truncate demo_text demo_messages 4 {''m1''} 1 = [demo_message ''m1'', demo_message ''m3'']"
    by (simp add: demo_messages_def demo_message_def demo_text_def [abs_def] estimate_demo compaction_run)
  then show ?thesis using compaction_idempotent [OF demo_fits, of 4 "{''m1''}" 1] by simp
qed

text \<open>A message whose \<open>id\<close> is present but not a string is never protected, even when its \<open>message_id\<close> is one of
  the protected ids: the second field is read only when the first is absent.\<close>

theorem non_string_id_unprotects:
  "is_protected {''m1''} (CObject [(''message_id'', CString ''m1'')]) \<and>
   summarize_and_truncate (\<lambda>_. ''12345678'')
     [CObject [(''id'', CNull), (''message_id'', CString ''m1'')], CObject [(''id'', CString ''m2'')]] 2 {''m1''} 1 =
     [CObject [(''id'', CString ''m2'')]]"
proof
  show "is_protected {''m1''} (CObject [(''message_id'', CString ''m1'')])"
    by (simp add: is_protected_def message_id_def value_get_def value_as_str_def)
  show "summarize_and_truncate (\<lambda>_. ''12345678'')
     [CObject [(''id'', CNull), (''message_id'', CString ''m1'')], CObject [(''id'', CString ''m2'')]] 2 {''m1''} 1 =
     [CObject [(''id'', CString ''m2'')]]" by (simp add: estimate_demo compaction_run)
qed

end
