(* ===== verification/Context_Engine.thy ===== *)
theory Context_Engine
  imports Strategy Unicode
begin

text \<open>
  \<open>capsules/capsule-context-engine/src/lib.rs\<close>: the compaction service around the strategy. A
  compact request fires a hook at the plugin capsules, collects their answers within two time
  windows, merges them and answers the request; an estimate request is answered at once. The
  derived \<open>serde\<close> decoders are parameters (\<open>codec\<close>); clock, subscription and received messages of
  one hook round are a \<open>hook_round\<close>, whose events carry the two clock readings of a loop iteration
  (nanoseconds since the start) and what \<open>recv\<close> returned. Handlers return the messages they
  publish. The capsule runs on wasm32, so \<open>usize\<close> settings are parsed below \<open>2 ^ 32\<close>.
\<close>

section \<open>Messages\<close>


record compact_request =
  cr_session_id :: string
  cr_messages :: "canonical_json list"
  cr_max_tokens :: u64
  cr_target_tokens :: u64

record compact_response =
  cs_messages :: "canonical_json list"
  cs_compacted :: bool
  cs_messages_removed :: u32
  cs_strategy :: string

record before_compaction_payload =
  bc_session_id :: string
  bc_messages :: "canonical_json list"
  bc_message_count :: u32
  bc_estimated_tokens :: u64
  bc_max_tokens :: u64
  bc_response_topic :: string

record hook_response =
  hr_skip :: "bool option"
  hr_pinned_message_ids :: "string list"
  hr_custom_strategy :: "string option"

definition has_any_field :: "hook_response \<Rightarrow> bool" where
  "has_any_field r \<longleftrightarrow> hr_skip r \<noteq> None \<or> hr_pinned_message_ids r \<noteq> [] \<or> hr_custom_strategy r \<noteq> None"

record after_compaction_payload =
  ac_session_id :: string
  ac_messages_before :: u32
  ac_messages_after :: u32
  ac_tokens_before :: u64
  ac_tokens_after :: u64
  ac_strategy_used :: string

datatype engine_message =
    PubCompact compact_response
  | PubCompactError
  | PubEstimate u64
  | PubEstimateError
  | PubBefore before_compaction_payload
  | PubAfter after_compaction_payload

record codec =
  dec_json :: "string \<Rightarrow> canonical_json option"
  dec_compact :: "canonical_json \<Rightarrow> compact_request option"
  dec_estimate :: "canonical_json \<Rightarrow> canonical_json list option"
  dec_hook :: "canonical_json \<Rightarrow> hook_response option"

section \<open>Configuration\<close>

record config =
  cf_hook_timeout_ms :: u64
  cf_hook_first_response_ms :: u64
  cf_hook_idle_grace_ms :: u64
  cf_keep_recent :: nat

definition default_hook_poll_timeout_ms :: u64 where "default_hook_poll_timeout_ms = 2000"
definition max_hook_responses :: nat where "max_hook_responses = 50"
definition hook_first_response_default :: u64 where "hook_first_response_default = 250"
definition hook_idle_grace_default :: u64 where "hook_idle_grace_default = 100"
definition default_keep_recent :: nat where "default_keep_recent = 10"

definition trim_quotes :: "string \<Rightarrow> string" where
  "trim_quotes s = rev (dropWhile (\<lambda>c. c = CHR 0x22) (rev (dropWhile (\<lambda>c. c = CHR 0x22) s)))"

text \<open>\<open>str::parse\<close> for an unsigned integer type with values below \<open>limit\<close>.\<close>

definition parse_unsigned :: "nat \<Rightarrow> string \<Rightarrow> nat option" where
  "parse_unsigned limit s =
     (let ds = (case s of c # cs \<Rightarrow> if c = CHR ''+'' then cs else s | [] \<Rightarrow> []) in
      if ds = [] \<or> \<not> list_all is_ascii_digit ds then None
      else let n = foldl (\<lambda>a c. 10 * a + (of_char c - 48)) 0 ds in if n < limit then Some n else None)"

definition env_u64 :: "(string \<Rightarrow> string option) \<Rightarrow> string \<Rightarrow> u64 \<Rightarrow> u64" where
  "env_u64 env key d =
     (case Option.bind (env key) (\<lambda>s. parse_unsigned (2 ^ 64) (trim_quotes (trim s))) of
        None \<Rightarrow> d | Some n \<Rightarrow> of_nat n)"

definition config_load :: "(string \<Rightarrow> string option) \<Rightarrow> config" where
  "config_load env =
     \<lparr>cf_hook_timeout_ms = env_u64 env ''hook_timeout_ms'' default_hook_poll_timeout_ms,
      cf_hook_first_response_ms = env_u64 env ''hook_first_response_ms'' hook_first_response_default,
      cf_hook_idle_grace_ms = env_u64 env ''hook_idle_grace_ms'' hook_idle_grace_default,
      cf_keep_recent =
        (case Option.bind (env ''keep_recent'') (\<lambda>s. parse_unsigned (2 ^ 32) (trim_quotes (trim s))) of
           None \<Rightarrow> default_keep_recent | Some n \<Rightarrow> n)\<rparr>"

section \<open>The hook round\<close>

definition hook_recv_timeout :: "bool \<Rightarrow> u64 \<Rightarrow> u64 \<Rightarrow> u64 \<Rightarrow> u64 \<Rightarrow> u64 option" where
  "hook_recv_timeout have_response elapsed_ms remaining_ms first_response_ms idle_grace_ms =
     (if remaining_ms = 0 then None
      else if have_response then Some (min idle_grace_ms remaining_ms)
      else
        let first_remaining = u64_saturating_sub first_response_ms elapsed_ms in
        if first_remaining = 0 then None else Some (min first_remaining remaining_ms))"

definition parse_hook_message :: "codec \<Rightarrow> string \<Rightarrow> hook_response option" where
  "parse_hook_message D text =
     (case dec_json D text of
        None \<Rightarrow> None
      | Some payload \<Rightarrow>
          let accept = (\<lambda>v. case dec_hook D v of
                Some r \<Rightarrow> if has_any_field r then Some r else None
              | None \<Rightarrow> None)
          in (case accept payload of
                Some r \<Rightarrow> Some r
              | None \<Rightarrow> Option.bind (value_get payload ''data'') accept))"

definition parse_hook_responses :: "codec \<Rightarrow> string list \<Rightarrow> hook_response list" where
  "parse_hook_responses D messages = List.map_filter (parse_hook_message D) messages"

record merged_before_compaction =
  mb_skip :: bool
  mb_protected_ids :: "string set"

definition merge_before_compaction_responses :: "hook_response list \<Rightarrow> merged_before_compaction" where
  "merge_before_compaction_responses responses =
     \<lparr>mb_skip = list_ex (\<lambda>r. hr_skip r = Some True) responses,
      mb_protected_ids = set (concat (map hr_pinned_message_ids responses))\<rparr>"

datatype received = RecvErr | RecvOk "string list"

record hook_event =
  ev_tested_at :: nat
  ev_polled_at :: nat
  ev_received :: received

record hook_round =
  hk_response_topic :: string
  hk_subscribed :: bool
  hk_published :: bool
  hk_events :: "hook_event list"

definition millis :: "nat \<Rightarrow> u64" where
  "millis ns = (if ns div 1000000 < 2 ^ 64 then of_nat (ns div 1000000) else - 1)"

definition timeout_dur :: "config \<Rightarrow> nat" where
  "timeout_dur cf = unat (cf_hook_timeout_ms cf) * 1000000"

text \<open>\<open>None\<close>: the loop has not ended by the end of the trace.\<close>

fun collect_hooks :: "codec \<Rightarrow> config \<Rightarrow> hook_event list \<Rightarrow> hook_response list \<Rightarrow> hook_response list option" where
  "collect_hooks D cf [] responses = None"
| "collect_hooks D cf (e # es) responses =
     (if \<not> (ev_tested_at e < timeout_dur cf \<and> length responses < max_hook_responses) then Some responses
      else
        (case hook_recv_timeout (responses \<noteq> []) (millis (ev_polled_at e))
                (millis (timeout_dur cf - ev_polled_at e)) (cf_hook_first_response_ms cf) (cf_hook_idle_grace_ms cf) of
           None \<Rightarrow> Some responses
         | Some timeout \<Rightarrow>
            (case ev_received e of
               RecvErr \<Rightarrow> Some responses
             | RecvOk messages \<Rightarrow>
                 if messages = [] then Some responses
                 else collect_hooks D cf es (responses @ parse_hook_responses D messages))))"

definition no_hooks :: merged_before_compaction where
  "no_hooks = \<lparr>mb_skip = False, mb_protected_ids = {}\<rparr>"

definition fire_before_compaction ::
    "codec \<Rightarrow> config \<Rightarrow> hook_round \<Rightarrow> compact_request \<Rightarrow> u64 \<Rightarrow> u32 \<Rightarrow>
      (engine_message list \<times> merged_before_compaction) option" where
  "fire_before_compaction D cf rd request tokens_before message_count =
     (if \<not> hk_subscribed rd then Some ([], no_hooks)
      else if \<not> hk_published rd then Some ([], no_hooks)
      else
        let payload = \<lparr>bc_session_id = cr_session_id request, bc_messages = cr_messages request,
              bc_message_count = message_count, bc_estimated_tokens = tokens_before,
              bc_max_tokens = cr_max_tokens request, bc_response_topic = hk_response_topic rd\<rparr> in
        (case collect_hooks D cf (hk_events rd) [] of
           None \<Rightarrow> None
         | Some responses \<Rightarrow> Some ([PubBefore payload], merge_before_compaction_responses responses)))"

section \<open>Handlers\<close>

definition u32_of_usize :: "nat \<Rightarrow> u32" where
  "u32_of_usize n = (if n < 2 ^ 32 then of_nat n else - 1)"

definition u32_saturating_sub :: "u32 \<Rightarrow> u32 \<Rightarrow> u32" where
  "u32_saturating_sub a b = (if b \<le> a then a - b else 0)"

definition handle_compact ::
    "codec \<Rightarrow> (canonical_json \<Rightarrow> string) \<Rightarrow> config \<Rightarrow> hook_round \<Rightarrow> canonical_json \<Rightarrow> engine_message list option" where
  "handle_compact D to_text cf rd payload =
     (case dec_compact D payload of
        None \<Rightarrow> Some [PubCompactError]
      | Some request \<Rightarrow>
          let target_tokens = min (cr_target_tokens request) (cr_max_tokens request);
              message_count = u32_of_usize (length (cr_messages request));
              tokens_before = estimate_total_tokens to_text (cr_messages request)
          in (case fire_before_compaction D cf rd request tokens_before message_count of
                None \<Rightarrow> None
              | Some (fired, merged) \<Rightarrow>
                  if mb_skip merged then
                    Some (fired @ [PubCompact \<lparr>cs_messages = cr_messages request, cs_compacted = False,
                      cs_messages_removed = 0, cs_strategy = ''skipped''\<rparr>])
                  else
                    let compacted_messages = summarize_and_truncate to_text (cr_messages request) target_tokens
                          (mb_protected_ids merged) (cf_keep_recent cf);
                        messages_after = u32_of_usize (length compacted_messages);
                        messages_removed = u32_saturating_sub message_count messages_after;
                        tokens_after = estimate_total_tokens to_text compacted_messages;
                        strategy_name = ''summarize_and_truncate''
                    in Some (fired @
                      [PubAfter \<lparr>ac_session_id = cr_session_id request, ac_messages_before = message_count,
                         ac_messages_after = messages_after, ac_tokens_before = tokens_before,
                         ac_tokens_after = tokens_after, ac_strategy_used = strategy_name\<rparr>,
                       PubCompact \<lparr>cs_messages = compacted_messages, cs_compacted = messages_removed > 0,
                         cs_messages_removed = messages_removed, cs_strategy = strategy_name\<rparr>])))"

definition handle_estimate_tokens ::
    "codec \<Rightarrow> (canonical_json \<Rightarrow> string) \<Rightarrow> canonical_json \<Rightarrow> engine_message list" where
  "handle_estimate_tokens D to_text payload =
     (case dec_estimate D payload of
        None \<Rightarrow> [PubEstimateError]
      | Some messages \<Rightarrow> [PubEstimate (estimate_total_tokens to_text messages)])"

definition should_dispatch_topic :: "string \<Rightarrow> bool" where
  "should_dispatch_topic topic \<longleftrightarrow>
     \<not> prefix ''context_engine.v1.response.'' topic \<and>
     \<not> prefix ''context_engine.v1.hook_response.'' topic \<and>
     topic \<noteq> ''context_engine.v1.hook.before_compaction'' \<and>
     topic \<noteq> ''context_engine.v1.hook.after_compaction''"

text \<open>Messages are handled in order; \<open>rounds i\<close> is the hook round of the message at position \<open>i\<close>.\<close>

fun dispatch_messages ::
    "codec \<Rightarrow> (canonical_json \<Rightarrow> string) \<Rightarrow> config \<Rightarrow> (nat \<Rightarrow> hook_round) \<Rightarrow> nat \<Rightarrow> (string \<times> string) list \<Rightarrow>
      engine_message list option" where
  "dispatch_messages D to_text cf rounds i [] = Some []"
| "dispatch_messages D to_text cf rounds i ((topic, text) # rest) =
     (if \<not> should_dispatch_topic topic then dispatch_messages D to_text cf rounds (i + 1) rest
      else
        (case dec_json D text of
           None \<Rightarrow> dispatch_messages D to_text cf rounds (i + 1) rest
         | Some payload \<Rightarrow>
             let request_value = (case value_get payload ''data'' of Some v \<Rightarrow> v | None \<Rightarrow> payload) in
             (case (if topic = ''context_engine.v1.compact'' then handle_compact D to_text cf (rounds i) request_value
                    else if topic = ''context_engine.v1.estimate_tokens''
                    then Some (handle_estimate_tokens D to_text request_value)
                    else Some []) of
                None \<Rightarrow> None
              | Some published \<Rightarrow>
                  map_option ((@) published) (dispatch_messages D to_text cf rounds (i + 1) rest))))"

definition dispatch_poll_result ::
    "codec \<Rightarrow> (canonical_json \<Rightarrow> string) \<Rightarrow> config \<Rightarrow> (nat \<Rightarrow> hook_round) \<Rightarrow> (string \<times> string) list \<Rightarrow>
      engine_message list option" where
  "dispatch_poll_result D to_text cf rounds messages = dispatch_messages D to_text cf rounds 0 messages"

text \<open>One turn of \<open>run\<close>'s loop: \<open>None\<close> is a poll that timed out; each poll has its hook rounds. The
  configuration is read once, before the loop.\<close>

type_synonym poll = "(string \<times> string) list option \<times> (nat \<Rightarrow> hook_round)"

definition run_poll :: "codec \<Rightarrow> (canonical_json \<Rightarrow> string) \<Rightarrow> config \<Rightarrow> poll \<Rightarrow> engine_message list option" where
  "run_poll D to_text cf p =
     (case fst p of None \<Rightarrow> Some [] | Some messages \<Rightarrow> dispatch_poll_result D to_text cf (snd p) messages)"

fun run_turns ::
    "codec \<Rightarrow> (canonical_json \<Rightarrow> string) \<Rightarrow> config \<Rightarrow> (poll \<times> poll) list \<Rightarrow> engine_message list option" where
  "run_turns D to_text cf [] = Some []"
| "run_turns D to_text cf ((compact_sub, estimate_sub) # turns) =
     (case run_poll D to_text cf compact_sub of None \<Rightarrow> None | Some p1 \<Rightarrow>
     (case run_poll D to_text cf estimate_sub of None \<Rightarrow> None | Some p2 \<Rightarrow>
        map_option ((@) (p1 @ p2)) (run_turns D to_text cf turns)))"

definition context_engine_run ::
    "codec \<Rightarrow> (canonical_json \<Rightarrow> string) \<Rightarrow> (string \<Rightarrow> string option) \<Rightarrow> (poll \<times> poll) list \<Rightarrow>
      engine_message list option" where
  "context_engine_run D to_text env turns = run_turns D to_text (config_load env) turns"

section \<open>Facts\<close>

lemma unat_u32_of_usize: "n < 2 ^ 32 \<Longrightarrow> unat (u32_of_usize n) = n"
  by (simp add: u32_of_usize_def unat_of_nat take_bit_nat_eq_self)

lemma unat_u32_saturating_sub: "unat (u32_saturating_sub a b) = unat a - unat b"
  by (auto simp: u32_saturating_sub_def unat_sub word_le_nat_alt)

lemma removed_count:
  assumes "subseq ys xs" and "length xs < 2 ^ 32"
  shows "unat (u32_saturating_sub (u32_of_usize (length xs)) (u32_of_usize (length ys))) = length xs - length ys \<and>
    (u32_saturating_sub (u32_of_usize (length xs)) (u32_of_usize (length ys)) > 0 \<longleftrightarrow> ys \<noteq> xs)"
proof -
  have le: "length ys \<le> length xs" using assms(1) by (rule list_emb_length)
  with assms(2) have u: "unat (u32_saturating_sub (u32_of_usize (length xs)) (u32_of_usize (length ys))) =
      length xs - length ys"
    by (simp add: unat_u32_saturating_sub unat_u32_of_usize)
  have "length ys = length xs \<Longrightarrow> ys = xs" using assms(1) by (metis subseq_same_length)
  with le have "0 < length xs - length ys \<longleftrightarrow> ys \<noteq> xs" by (metis le_neq_implies_less less_irrefl zero_less_diff)
  with u show ?thesis by (metis unat_gt_0 word_gt_0)
qed

lemma fired_no_reply:
  "fire_before_compaction D cf rd request tb n = Some (fired, merged) \<Longrightarrow> PubCompact r \<notin> set fired"
  by (auto simp: fire_before_compaction_def Let_def split: if_splits option.splits)

lemma collect_hooks_unfold_timeout:
  assumes "e \<in> set es" and "timeout_dur cf \<le> ev_tested_at e"
  shows "\<exists>rs. collect_hooks D cf es responses = Some rs"
  using assms
  by (induction D cf es responses rule: collect_hooks.induct) (auto split: option.split received.split)

lemma collect_hooks_quiet:
  assumes "e \<in> set es" and "cf_hook_first_response_ms cf \<le> millis (ev_polled_at e)"
    and "\<forall>e' \<in> set es. \<forall>ms. ev_received e' = RecvOk ms \<longrightarrow> parse_hook_responses D ms = []"
  shows "collect_hooks D cf es [] = Some []"
  using assms
proof (induction es)
  case (Cons a es)
  have "u64_saturating_sub x y = 0" if "x \<le> y" for x y
    using that by (auto simp: u64_saturating_sub_def)
  with Cons show ?case
    by (auto simp: hook_recv_timeout_def Let_def split: option.split received.split)
qed simp

definition demo_codec :: codec where
  "demo_codec = \<lparr>dec_json = (\<lambda>s. if s = ''pin'' then Some (CObject []) else None),
     dec_compact = (\<lambda>_. Some \<lparr>cr_session_id = ''s'', cr_messages = demo_messages, cr_max_tokens = 100, cr_target_tokens = 4\<rparr>),
     dec_estimate = (\<lambda>_. None),
     dec_hook = (\<lambda>_. Some \<lparr>hr_skip = None, hr_pinned_message_ids = [''m1''], hr_custom_strategy = None\<rparr>)\<rparr>"

definition demo_config :: config where
  "demo_config = \<lparr>cf_hook_timeout_ms = 2000, cf_hook_first_response_ms = 250, cf_hook_idle_grace_ms = 100,
     cf_keep_recent = 1\<rparr>"

definition demo_round :: hook_round where
  "demo_round = \<lparr>hk_response_topic = ''r'', hk_subscribed = True, hk_published = True,
     hk_events = [\<lparr>ev_tested_at = 0, ev_polled_at = 0, ev_received = RecvOk [''pin'']\<rparr>,
       \<lparr>ev_tested_at = 1000000, ev_polled_at = 1000000, ev_received = RecvErr\<rparr>]\<rparr>"

section \<open>Properties\<close>

text \<open>A readable compact request is answered by exactly one response, last: its messages are an unchanged
  selection of the request's that keeps the recent ones and, unless a plugin asked to skip (then all), every message
  that a plugin pinned; count and flag in the response say exactly how many were removed.\<close>

theorem compact_answers:
  assumes "dec_compact D payload = Some request" and "length (cr_messages request) < 2 ^ 32"
    and "fire_before_compaction D cf rd request (estimate_total_tokens t (cr_messages request))
      (u32_of_usize (length (cr_messages request))) = Some (fired, merged)"
  shows "\<exists>pre resp. handle_compact D t cf rd payload = Some (pre @ [PubCompact resp]) \<and>
    (\<forall>r. PubCompact r \<notin> set pre) \<and>
    subseq (cs_messages resp) (cr_messages request) \<and>
    suffix (drop (length (cr_messages request) - cf_keep_recent cf) (cr_messages request)) (cs_messages resp) \<and>
    filter (is_protected (mb_protected_ids merged)) (cs_messages resp) =
      filter (is_protected (mb_protected_ids merged)) (cr_messages request) \<and>
    unat (cs_messages_removed resp) = length (cr_messages request) - length (cs_messages resp) \<and>
    (cs_compacted resp \<longleftrightarrow> cs_messages resp \<noteq> cr_messages request) \<and>
    (mb_skip merged \<longrightarrow> cs_messages resp = cr_messages request)"
proof (cases "mb_skip merged")
  case True
  then show ?thesis
    using assms fired_no_reply [OF assms(3)] suffix_drop
    by (intro exI [of _ fired] exI [of _ "\<lparr>cs_messages = cr_messages request, cs_compacted = False,
        cs_messages_removed = 0, cs_strategy = ''skipped''\<rparr>"]) (simp add: handle_compact_def Let_def)
next
  case False
  let ?out = "summarize_and_truncate t (cr_messages request) (min (cr_target_tokens request) (cr_max_tokens request))
    (mb_protected_ids merged) (cf_keep_recent cf)"
  obtain k where k: "?out = drop_oldest (mb_protected_ids merged) (cf_keep_recent cf) (cr_messages request) k"
    using compaction_form by blast
  have sub: "subseq ?out (cr_messages request)" unfolding k drop_oldest_def by (rule subseq_without)
  note kept = removed_count [OF sub assms(2)] protected_kept_by_drop suffix_kept_by_drop
  from False show ?thesis
    using assms fired_no_reply [OF assms(3)] sub kept(1)
      kept(2,3) [where P = "mb_protected_ids merged" and keep = "cf_keep_recent cf" and ms = "cr_messages request"
        and k = k]
    unfolding k [symmetric] by (simp add: handle_compact_def Let_def)
qed

theorem compact_answers_witness:
  "\<exists>pre resp. handle_compact demo_codec demo_text demo_config demo_round CNull = Some (pre @ [PubCompact resp]) \<and>
    is_protected {''m1''} (demo_message ''m1'') \<and> suffix [demo_message ''m3''] (cs_messages resp) \<and>
    filter (is_protected {''m1''}) (cs_messages resp) = [demo_message ''m1'']"
proof -
  have ids: "is_protected {''m1''} (demo_message i) \<longleftrightarrow> i = ''m1''" for i
    by (simp add: is_protected_def message_id_def value_get_def value_as_str_def demo_message_def)
  have round: "collect_hooks demo_codec demo_config (hk_events demo_round) [] =
      Some [\<lparr>hr_skip = None, hr_pinned_message_ids = [''m1''], hr_custom_strategy = None\<rparr>]"
    by (simp add: demo_codec_def demo_config_def demo_round_def timeout_dur_def max_hook_responses_def
        hook_recv_timeout_def millis_def u64_saturating_sub_def parse_hook_responses_def parse_hook_message_def
        has_any_field_def map_filter_def)
  have "hk_subscribed demo_round" "hk_published demo_round" by (simp_all add: demo_round_def)
  then obtain fired where "fire_before_compaction demo_codec demo_config demo_round
      \<lparr>cr_session_id = ''s'', cr_messages = demo_messages, cr_max_tokens = 100, cr_target_tokens = 4\<rparr>
      (estimate_total_tokens demo_text demo_messages) (u32_of_usize (length demo_messages)) =
      Some (fired, \<lparr>mb_skip = False, mb_protected_ids = {''m1''}\<rparr>)"
    by (simp add: fire_before_compaction_def round merge_before_compaction_responses_def Let_def)
  with compact_answers [of demo_codec CNull "\<lparr>cr_session_id = ''s'', cr_messages = demo_messages,
      cr_max_tokens = 100, cr_target_tokens = 4\<rparr>" demo_config demo_round demo_text]
  show ?thesis by (auto simp: demo_codec_def demo_config_def demo_messages_def ids)
qed

text \<open>A hook round ends: at the latest when the clock passes the outer timeout, and, when no plugin answers, with no
  responses as soon as the clock passes the first-response window, however many unrelated messages arrive.\<close>

theorem hook_round_ends:
  assumes "e \<in> set es"
    and "timeout_dur cf \<le> ev_tested_at e \<or>
      cf_hook_first_response_ms cf \<le> millis (ev_polled_at e) \<and>
      (\<forall>e' \<in> set es. \<forall>ms. ev_received e' = RecvOk ms \<longrightarrow> parse_hook_responses D ms = [])"
  shows "\<exists>rs. collect_hooks D cf es [] = Some rs \<and> (timeout_dur cf \<le> ev_tested_at e \<or> rs = [])"
  using assms collect_hooks_unfold_timeout [of e es cf D "[]"] collect_hooks_quiet [of e es cf D] by blast

theorem hook_round_ends_witness:
  "\<exists>rs. collect_hooks demo_codec demo_config
     [\<lparr>ev_tested_at = 0, ev_polled_at = 0, ev_received = RecvOk [''noise'']\<rparr>,
      \<lparr>ev_tested_at = 0, ev_polled_at = 250000000, ev_received = RecvOk [''noise'']\<rparr>] [] = Some rs \<and>
     (timeout_dur demo_config \<le> 0 \<or> rs = [])"
  using hook_round_ends [where e = "\<lparr>ev_tested_at = 0, ev_polled_at = 250000000, ev_received = RecvOk [''noise'']\<rparr>"
    and es = "[\<lparr>ev_tested_at = 0, ev_polled_at = 0, ev_received = RecvOk [''noise'']\<rparr>,
      \<lparr>ev_tested_at = 0, ev_polled_at = 250000000, ev_received = RecvOk [''noise'']\<rparr>]"
    and cf = demo_config and D = demo_codec]
  by (simp add: demo_config_def millis_def parse_hook_responses_def parse_hook_message_def map_filter_def demo_codec_def)

end
