(* ===== verification/Hook_Bridge.thy ===== *)
theory Hook_Bridge
  imports Host_World
begin

text \<open>
  \<open>capsules/capsule-hook-bridge/src/lib.rs\<close>: lifecycle events become hook requests on the bus, and the answers to the
  binding ones are merged. What the host answers (random bytes, the caller, the bus and the clock) is an input; the
  JSON printer and parser are parameters.
\<close>

section \<open>Mappings\<close>

datatype merge_semantics = MergeNone | ToolCallBefore | LastNonNull string

record hook_mapping =
  hm_hook_name :: string
  hm_merge :: merge_semantics

definition lifecycle_hooks :: "(string \<times> string \<times> merge_semantics) list" where
  "lifecycle_hooks = [
     (''session_created'', ''session_start'', MergeNone),
     (''session_ended'', ''session_end'', MergeNone),
     (''tool_call_started'', ''before_tool_call'', ToolCallBefore),
     (''tool_call_completed'', ''after_tool_call'', LastNonNull ''modified_result''),
     (''tool_result_persisting'', ''tool_result_persist'', LastNonNull ''transformed_result''),
     (''message_received'', ''message_received'', MergeNone),
     (''message_sending'', ''message_sending'', LastNonNull ''modified_content''),
     (''message_sent'', ''message_sent'', MergeNone),
     (''sub_agent_spawned'', ''subagent_start'', MergeNone),
     (''sub_agent_completed'', ''subagent_stop'', MergeNone),
     (''sub_agent_failed'', ''subagent_stop'', MergeNone),
     (''sub_agent_cancelled'', ''subagent_stop'', MergeNone),
     (''context_compaction_started'', ''on_compaction_started'', MergeNone),
     (''context_compaction_completed'', ''on_compaction_completed'', MergeNone),
     (''kernel_started'', ''kernel_start'', MergeNone),
     (''kernel_shutdown'', ''kernel_stop'', MergeNone)]"

definition lifecycle_event :: "string \<Rightarrow> string" where
  "lifecycle_event name = ''astrid.v1.lifecycle.'' @ name"

definition mapping_for_event :: "string \<Rightarrow> hook_mapping option" where
  "mapping_for_event event_type =
     map_option (\<lambda>(_, hook, merge). \<lparr>hm_hook_name = hook, hm_merge = merge\<rparr>)
       (find (\<lambda>(name, _). event_type = lifecycle_event name) lifecycle_hooks)"

section \<open>Merging\<close>

record hook_result =
  hr_skip :: "bool option"
  hr_data :: "string option"

record response_batch =
  rb_values :: "canonical_json list"
  rb_complete :: bool

text \<open>\<open>hj_text\<close> is \<open>Value::to_string\<close>, \<open>hj_parse\<close> is \<open>serde_json::from_str\<close>.\<close>

record hook_json =
  hj_text :: "canonical_json \<Rightarrow> string"
  hj_parse :: "string \<Rightarrow> canonical_json option"

definition no_result :: hook_result where
  "no_result = \<lparr>hr_skip = None, hr_data = None\<rparr>"

definition skip_requested :: "canonical_json \<Rightarrow> bool" where
  "skip_requested response \<longleftrightarrow> Option.bind (json_get response ''skip'') json_bool = Some True"

definition non_null_member :: "string \<Rightarrow> canonical_json \<Rightarrow> canonical_json option" where
  "non_null_member k response = (case json_get response k of Some v \<Rightarrow> if v = CNull then None else Some v | None \<Rightarrow> None)"

fun merge_tool_call :: "canonical_json list \<Rightarrow> bool \<times> canonical_json option \<Rightarrow> bool \<times> canonical_json option" where
  "merge_tool_call [] acc = acc"
| "merge_tool_call (response # rest) (skip, last_params) =
     merge_tool_call rest (skip \<or> skip_requested response,
       case non_null_member ''modified_params'' response of Some params \<Rightarrow> Some params | None \<Rightarrow> last_params)"

definition last_option :: "'a list \<Rightarrow> 'a option" where
  "last_option xs = (if xs = [] then None else Some (last xs))"

definition apply_merge :: "hook_json \<Rightarrow> merge_semantics \<Rightarrow> canonical_json list \<Rightarrow> hook_result" where
  "apply_merge J merge responses = (case merge of
     MergeNone \<Rightarrow> no_result
   | ToolCallBefore \<Rightarrow>
      (case merge_tool_call responses (False, None) of
         (skip, last_params) \<Rightarrow> \<lparr>hr_skip = (if skip then Some True else None), hr_data = map_option (hj_text J) last_params\<rparr>)
   | LastNonNull field \<Rightarrow>
       \<lparr>hr_skip = None, hr_data = map_option (hj_text J) (last_option (List.map_filter (non_null_member field) responses))\<rparr>)"

definition merge_batch :: "hook_json \<Rightarrow> merge_semantics \<Rightarrow> response_batch \<Rightarrow> hook_result" where
  "merge_batch J merge batch =
     (if rb_complete batch then apply_merge J merge (rb_values batch)
      else case merge of ToolCallBefore \<Rightarrow> \<lparr>hr_skip = Some True, hr_data = None\<rparr> | _ \<Rightarrow> no_result)"

section \<open>Collecting answers\<close>

datatype hook_error = HostError string | OtherError string

record hook_message =
  hk_topic :: string
  hk_verified :: "string option"
  hk_payload :: string

record hook_poll =
  hp_messages :: "hook_message list"
  hp_dropped :: nat
  hp_lagged :: nat

definition hook_collect_deadline_ms :: nat where "hook_collect_deadline_ms = 5000"
definition hook_quiescence_ms :: nat where "hook_quiescence_ms = 25"
definition max_hook_response_bytes :: nat where "max_hook_response_bytes = 1024 * 1024"

text \<open>Each round gets the milliseconds since the start and the host's answer to a wait of the given length.\<close>

type_synonym bridge_round = "nat \<times> (nat \<Rightarrow> hook_error + hook_poll)"

definition elapsed_u64 :: "nat \<Rightarrow> nat" where
  "elapsed_u64 millis = (if millis < 2 ^ 64 then millis else hook_collect_deadline_ms)"

definition hook_wait :: "response_batch \<Rightarrow> nat \<Rightarrow> nat" where
  "hook_wait batch elapsed_ms =
     (if rb_values batch = [] then hook_collect_deadline_ms - elapsed_ms
      else min hook_quiescence_ms (hook_collect_deadline_ms - elapsed_ms))"

definition answer_value :: "hook_json \<Rightarrow> string \<Rightarrow> string option \<Rightarrow> hook_message \<Rightarrow> canonical_json option" where
  "answer_value J reply_topic caller message =
     (if hk_topic message \<noteq> reply_topic \<or> hk_verified message \<noteq> caller then None
      else if length (hk_payload message) > max_hook_response_bytes then None
      else hj_parse J (hk_payload message))"

definition collect_message :: "hook_json \<Rightarrow> string \<Rightarrow> string option \<Rightarrow> hook_message \<Rightarrow> response_batch \<Rightarrow> response_batch" where
  "collect_message J reply_topic caller message batch =
     (case answer_value J reply_topic caller message of
        None \<Rightarrow> batch\<lparr>rb_complete := False\<rparr>
      | Some v \<Rightarrow> batch\<lparr>rb_values := rb_values batch @ [v]\<rparr>)"

definition collect_poll :: "hook_json \<Rightarrow> string \<Rightarrow> string option \<Rightarrow> hook_poll \<Rightarrow> response_batch \<Rightarrow> response_batch" where
  "collect_poll J reply_topic caller poll batch =
     fold (collect_message J reply_topic caller) (hp_messages poll)
       (if hp_dropped poll \<noteq> 0 \<or> hp_lagged poll \<noteq> 0 then batch\<lparr>rb_complete := False\<rparr> else batch)"

definition is_timeout :: "hook_error \<Rightarrow> bool" where
  "is_timeout e = (case e of HostError message \<Rightarrow> contains_str message ''Timeout'' | OtherError _ \<Rightarrow> False)"

text \<open>The rounds that are given reach the deadline: after the last of them the loop stops.\<close>

fun collect_rounds :: "hook_json \<Rightarrow> string \<Rightarrow> string option \<Rightarrow> response_batch \<Rightarrow> bridge_round list
    \<Rightarrow> hook_error + response_batch" where
  "collect_rounds J reply_topic caller batch [] = Ok batch"
| "collect_rounds J reply_topic caller batch ((millis, recv) # rounds) =
     (let elapsed_ms = elapsed_u64 millis in
      if elapsed_ms \<ge> hook_collect_deadline_ms then Ok batch
      else case recv (hook_wait batch elapsed_ms) of
        Ok poll \<Rightarrow> if hp_messages poll = [] then Ok batch
          else collect_rounds J reply_topic caller (collect_poll J reply_topic caller poll batch) rounds
      | Err e \<Rightarrow> if is_timeout e then Ok batch else Err e)"

definition collect_responses :: "hook_json \<Rightarrow> string \<Rightarrow> string option \<Rightarrow> bridge_round list \<Rightarrow> hook_error + response_batch" where
  "collect_responses J reply_topic caller rounds =
     collect_rounds J reply_topic caller \<lparr>rb_values = [], rb_complete = True\<rparr> rounds"

section \<open>Dispatching\<close>

record hook_event_request =
  he_hook :: string
  he_payload :: string
  he_correlation_id :: "string option"

text \<open>\<open>hi_publish\<close> and \<open>hi_subscribe\<close> are the errors of these calls, if any.\<close>

record hook_inputs =
  hi_random :: "hook_error + 8 word list"
  hi_caller :: "hook_error + string option"
  hi_subscribe :: "hook_error option"
  hi_publish :: "hook_error option"
  hi_rounds :: "bridge_round list"

definition hex_digit_of :: "nat \<Rightarrow> char" where
  "hex_digit_of n = (if n < 10 then char_of (48 + n) else if n < 16 then char_of (87 + n) else CHR ''0'')"

definition correlation_id :: "8 word list \<Rightarrow> string" where
  "correlation_id bytes = concat (map (\<lambda>b. [hex_digit_of (unat (drop_bit 4 b)), hex_digit_of (unat (and b 15))]) bytes)"

definition event_topic :: "string \<Rightarrow> string" where
  "event_topic hook = ''hook.v1.event.'' @ hook"

definition reply_topic_of :: "string \<Rightarrow> string \<Rightarrow> string" where
  "reply_topic_of hook correlation = ''hook.v1.response.'' @ hook @ ''.'' @ correlation"

definition publish_hook :: "hook_inputs \<Rightarrow> string \<Rightarrow> hook_event_request \<Rightarrow> (string \<times> hook_event_request) list \<times> (hook_error + unit)" where
  "publish_hook I topic request =
     (case hi_publish I of None \<Rightarrow> ([(topic, request)], Ok ()) | Some e \<Rightarrow> ([], Err e))"

definition dispatch_binding :: "hook_json \<Rightarrow> hook_inputs \<Rightarrow> hook_mapping \<Rightarrow> canonical_json
    \<Rightarrow> (string \<times> hook_event_request) list \<times> (hook_error + hook_result option)" where
  "dispatch_binding J I mapping payload =
     (case and_then (hi_random I) (\<lambda>bytes. and_then (hi_caller I) (\<lambda>caller.
             case hi_subscribe I of Some e \<Rightarrow> Err e | None \<Rightarrow> Ok (correlation_id bytes, caller))) of
        Err e \<Rightarrow> ([], Err e)
      | Ok (correlation, caller) \<Rightarrow>
         (case publish_hook I (event_topic (hm_hook_name mapping))
            \<lparr>he_hook = hm_hook_name mapping, he_payload = hj_text J payload, he_correlation_id = Some correlation\<rparr> of
            (published, Err e) \<Rightarrow> (published, Err e)
          | (published, Ok _) \<Rightarrow> (published,
              and_then (collect_responses J (reply_topic_of (hm_hook_name mapping) correlation) caller (hi_rounds I))
                (\<lambda>batch. Ok (Some (merge_batch J (hm_merge mapping) batch))))))"

definition dispatch_hook :: "hook_json \<Rightarrow> hook_inputs \<Rightarrow> string \<Rightarrow> canonical_json
    \<Rightarrow> (string \<times> hook_event_request) list \<times> (hook_error + hook_result option)" where
  "dispatch_hook J I event_type payload =
     (case mapping_for_event event_type of
        None \<Rightarrow> ([], Ok None)
      | Some mapping \<Rightarrow>
          if hm_merge mapping = MergeNone then
            (case publish_hook I (event_topic (hm_hook_name mapping))
               \<lparr>he_hook = hm_hook_name mapping, he_payload = hj_text J payload, he_correlation_id = None\<rparr> of
               (published, r) \<Rightarrow> (published, and_then r (\<lambda>_. Ok None)))
          else dispatch_binding J I mapping payload)"

text \<open>The interceptors pass their event's name on; those of events that are only observed drop the result.\<close>

definition observe_lifecycle :: "hook_json \<Rightarrow> hook_inputs \<Rightarrow> string \<Rightarrow> canonical_json
    \<Rightarrow> (string \<times> hook_event_request) list \<times> (hook_error + unit)" where
  "observe_lifecycle J I event_type payload =
     (case dispatch_hook J I event_type payload of (published, r) \<Rightarrow> (published, and_then r (\<lambda>_. Ok ())))"

section \<open>What the answers decide\<close>

text \<open>The polls that a collection reads, the one that ends it included.\<close>

fun drained_rounds :: "hook_json \<Rightarrow> string \<Rightarrow> string option \<Rightarrow> response_batch \<Rightarrow> bridge_round list \<Rightarrow> hook_poll list" where
  "drained_rounds J topic caller batch [] = []"
| "drained_rounds J topic caller batch ((millis, recv) # rounds) =
     (if elapsed_u64 millis \<ge> hook_collect_deadline_ms then []
      else case recv (hook_wait batch (elapsed_u64 millis)) of
        Ok poll \<Rightarrow> poll # (if hp_messages poll = [] then []
          else drained_rounds J topic caller (collect_poll J topic caller poll batch) rounds)
      | Err _ \<Rightarrow> [])"

definition drained :: "hook_json \<Rightarrow> string \<Rightarrow> string option \<Rightarrow> bridge_round list \<Rightarrow> hook_poll list" where
  "drained J topic caller rounds = drained_rounds J topic caller \<lparr>rb_values = [], rb_complete = True\<rparr> rounds"

text \<open>A poll lost nothing, and all its messages are readable answers of the caller on the topic.\<close>

definition clean_poll :: "hook_json \<Rightarrow> string \<Rightarrow> string option \<Rightarrow> hook_poll \<Rightarrow> bool" where
  "clean_poll J topic caller poll \<longleftrightarrow> hp_dropped poll = 0 \<and> hp_lagged poll = 0 \<and>
     (\<forall>m \<in> set (hp_messages poll). hk_topic m = topic \<and> hk_verified m = caller \<and>
        length (hk_payload m) \<le> max_hook_response_bytes \<and> hj_parse J (hk_payload m) \<noteq> None)"

definition answers_in :: "hook_json \<Rightarrow> string \<Rightarrow> string option \<Rightarrow> hook_poll list \<Rightarrow> canonical_json list" where
  "answers_in J topic caller polls = List.map_filter (answer_value J topic caller) (concat (map hp_messages polls))"

text \<open>What the merge takes for a complete batch: the polls that brought messages are clean. The poll that ends the
  drain brings none, and what it says about lost messages is not looked at.\<close>

definition all_answers_clean :: "hook_json \<Rightarrow> string \<Rightarrow> string option \<Rightarrow> hook_poll list \<Rightarrow> bool" where
  "all_answers_clean J topic caller polls \<longleftrightarrow> (\<forall>poll \<in> set polls. hp_messages poll = [] \<or> clean_poll J topic caller poll)"

lemma all_answers_clean_simps [simp]:
  "all_answers_clean J topic caller []"
  "all_answers_clean J topic caller (poll # polls) \<longleftrightarrow>
     (hp_messages poll = [] \<or> clean_poll J topic caller poll) \<and> all_answers_clean J topic caller polls"
  by (auto simp: all_answers_clean_def)

lemma drained_rounds_silent:
  "\<forall>poll \<in> set (butlast (drained_rounds J topic caller batch rounds)). hp_messages poll \<noteq> []"
  by (induction J topic caller batch rounds rule: drained_rounds.induct) (auto split: sum.splits)

lemma collect_messages:
  "rb_values (fold (collect_message J topic caller) ms batch) = rb_values batch @ List.map_filter (answer_value J topic caller) ms"
  "rb_complete (fold (collect_message J topic caller) ms batch) \<longleftrightarrow>
     rb_complete batch \<and> (\<forall>m \<in> set ms. answer_value J topic caller m \<noteq> None)"
  by (induction ms arbitrary: batch) (auto simp: collect_message_def List.map_filter_def split: option.splits)

lemma answer_value_None: "answer_value J topic caller m \<noteq> None \<longleftrightarrow> hk_topic m = topic \<and> hk_verified m = caller \<and>
    length (hk_payload m) \<le> max_hook_response_bytes \<and> hj_parse J (hk_payload m) \<noteq> None"
  by (auto simp: answer_value_def)

lemma collect_poll_effect:
  "rb_values (collect_poll J topic caller poll batch) =
     rb_values batch @ List.map_filter (answer_value J topic caller) (hp_messages poll)"
  "rb_complete (collect_poll J topic caller poll batch) \<longleftrightarrow> rb_complete batch \<and> clean_poll J topic caller poll"
  unfolding collect_poll_def clean_poll_def answer_value_None [symmetric]
  by (auto simp: collect_messages)

lemma collect_rounds_effect:
  "collect_rounds J topic caller batch rounds = Ok batch' \<Longrightarrow>
     rb_values batch' = rb_values batch @ answers_in J topic caller (drained_rounds J topic caller batch rounds) \<and>
     (rb_complete batch' \<longleftrightarrow> rb_complete batch \<and> all_answers_clean J topic caller (drained_rounds J topic caller batch rounds))"
proof (induction J topic caller batch rounds rule: collect_rounds.induct)
  case (1 J topic caller batch)
  then show ?case by (simp add: answers_in_def List.map_filter_def)
next
  case (2 J topic caller batch millis recv rounds)
  show ?case
  proof (cases "elapsed_u64 millis \<ge> hook_collect_deadline_ms")
    case True
    with 2(2) show ?thesis by (simp add: Let_def answers_in_def List.map_filter_def)
  next
    case False
    show ?thesis
    proof (cases "recv (hook_wait batch (elapsed_u64 millis))")
      case (Inl e)
      with False 2(2) show ?thesis by (auto simp: Let_def answers_in_def List.map_filter_def split: if_splits)
    next
      case (Inr poll)
      with False 2 show ?thesis
        by (auto simp: Let_def answers_in_def collect_poll_effect List.map_filter_def split: if_splits)
    qed
  qed
qed

lemma collect_responses_effect:
  assumes "collect_responses J topic caller rounds = Ok batch"
  shows "rb_values batch = answers_in J topic caller (drained J topic caller rounds)"
    and "rb_complete batch \<longleftrightarrow> all_answers_clean J topic caller (drained J topic caller rounds)"
  using collect_rounds_effect [OF assms [unfolded collect_responses_def]] by (simp_all add: drained_def)

lemma merge_tool_call_fold:
  "merge_tool_call responses (skip, params) = (skip \<or> (\<exists>v \<in> set responses. skip_requested v),
     case last_option (List.map_filter (non_null_member ''modified_params'') responses) of Some p \<Rightarrow> Some p | None \<Rightarrow> params)"
  by (induction responses arbitrary: skip params)
    (auto simp: last_option_def List.map_filter_def split: option.splits)

lemma tool_call_started_mapping:
  "mapping_for_event (lifecycle_event ''tool_call_started'') = Some \<lparr>hm_hook_name = ''before_tool_call'', hm_merge = ToolCallBefore\<rparr>"
  by (simp add: mapping_for_event_def lifecycle_event_def lifecycle_hooks_def)

section \<open>The gate before a tool call\<close>

text \<open>C19. What decides the hook before a tool call, exactly. When its dispatch returns a result, one request was
  published, under the correlation that the reply topic carries, and polls were read of which all but the last brought
  messages. The call is let through exactly when every poll that brought messages reported none as lost, all their
  messages are answers of the caller's own principal on that topic, of a bounded size and readable, and none of them
  asks to skip; otherwise the result is a skip. Changed parameters are passed on only under the same condition on the
  polls, and then they are those of the last answer that has any. A last poll without messages does not count: messages
  that it reports as lost close nothing, although the code calls lost messages a binding denial (the lemma below the
  theorem lets a call through after such a poll).\<close>

theorem tool_gate_decided_by_answers:
  assumes "dispatch_hook J I (lifecycle_event ''tool_call_started'') payload = (published, Ok (Some r))"
  shows "\<exists>bytes caller topic polls. hi_random I = Ok bytes \<and> hi_caller I = Ok caller \<and>
    topic = reply_topic_of ''before_tool_call'' (correlation_id bytes) \<and> polls = drained J topic caller (hi_rounds I) \<and>
    published = [(event_topic ''before_tool_call'', \<lparr>he_hook = ''before_tool_call'', he_payload = hj_text J payload,
      he_correlation_id = Some (correlation_id bytes)\<rparr>)] \<and>
    (\<forall>poll \<in> set (butlast polls). hp_messages poll \<noteq> []) \<and>
    hr_skip r = (if (\<forall>poll \<in> set polls. hp_messages poll = [] \<or> clean_poll J topic caller poll) \<and>
        (\<forall>v \<in> set (answers_in J topic caller polls). \<not> skip_requested v) then None else Some True) \<and>
    hr_data r = (if \<forall>poll \<in> set polls. hp_messages poll = [] \<or> clean_poll J topic caller poll
      then map_option (hj_text J) (last_option (List.map_filter (non_null_member ''modified_params'') (answers_in J topic caller polls)))
      else None)"
proof -
  let ?hook = "''before_tool_call''"
  from assms have d: "dispatch_binding J I \<lparr>hm_hook_name = ?hook, hm_merge = ToolCallBefore\<rparr> payload = (published, Ok (Some r))"
    by (simp add: dispatch_hook_def tool_call_started_mapping)
  then obtain bytes caller where io: "hi_random I = Ok bytes" "hi_caller I = Ok caller" "hi_subscribe I = None"
    by (auto simp: dispatch_binding_def and_then_def split: sum.splits option.splits)
  let ?topic = "reply_topic_of ?hook (correlation_id bytes)"
  from d io obtain batch where batch: "collect_responses J ?topic caller (hi_rounds I) = Ok batch" "r = merge_batch J ToolCallBefore batch"
    and published: "published = [(event_topic ?hook, \<lparr>he_hook = ?hook, he_payload = hj_text J payload,
      he_correlation_id = Some (correlation_id bytes)\<rparr>)]"
    by (auto simp: dispatch_binding_def publish_hook_def result_simps split: option.splits)
  have "hr_skip r = (if all_answers_clean J ?topic caller (drained J ?topic caller (hi_rounds I)) \<and>
      (\<forall>v \<in> set (answers_in J ?topic caller (drained J ?topic caller (hi_rounds I))). \<not> skip_requested v) then None else Some True)"
    and "hr_data r = (if all_answers_clean J ?topic caller (drained J ?topic caller (hi_rounds I))
      then map_option (hj_text J) (last_option (List.map_filter (non_null_member ''modified_params'')
        (answers_in J ?topic caller (drained J ?topic caller (hi_rounds I))))) else None)"
    by (auto simp: batch(2) merge_batch_def apply_merge_def collect_responses_effect [OF batch(1)] merge_tool_call_fold
        split: option.splits)
  note decided = this [unfolded all_answers_clean_def]
  have "\<forall>poll \<in> set (butlast (drained J ?topic caller (hi_rounds I))). hp_messages poll \<noteq> []"
    unfolding drained_def by (rule drained_rounds_silent)
  then show ?thesis
    using io(1,2) published decided by (intro exI conjI) (rule refl | assumption)+
qed

text \<open>A poll that reports lost messages but brings none ends the collection, and the batch still counts as complete.\<close>

lemma lost_answers_overlooked:
  assumes "hi_random I = Ok bytes" and "hi_caller I = Ok caller" and "hi_subscribe I = None" and "hi_publish I = None"
    and "hi_rounds I = [(0, \<lambda>_. Ok \<lparr>hp_messages = [], hp_dropped = 1, hp_lagged = 0\<rparr>)]"
  shows "snd (dispatch_hook J I (lifecycle_event ''tool_call_started'') payload) = Ok (Some no_result)"
  using assms
  by (simp add: dispatch_hook_def tool_call_started_mapping dispatch_binding_def publish_hook_def collect_responses_def
      elapsed_u64_def hook_collect_deadline_ms_def merge_batch_def apply_merge_def no_result_def result_simps)

section \<open>A concrete run\<close>

definition gate_json :: hook_json where
  "gate_json = \<lparr>hj_text = (\<lambda>_. ''{}''), hj_parse = (\<lambda>s. if s = ''deny'' then Some (CObject [(''skip'', CBool True)]) else None)\<rparr>"

definition gate_inputs :: hook_inputs where
  "gate_inputs = \<lparr>hi_random = Ok [], hi_caller = Ok (Some ''alice''), hi_subscribe = None, hi_publish = None,
     hi_rounds = [(1, \<lambda>_. Ok \<lparr>hp_messages = [\<lparr>hk_topic = ''hook.v1.response.before_tool_call.'',
       hk_verified = Some ''alice'', hk_payload = ''deny''\<rparr>], hp_dropped = 0, hp_lagged = 0\<rparr>),
       (2, \<lambda>wait. Err (HostError ''Timeout''))]\<rparr>"

lemma gate_run: "\<exists>published r. dispatch_hook gate_json gate_inputs (lifecycle_event ''tool_call_started'') CNull = (published, Ok (Some r)) \<and>
    hr_skip r = Some True"
  by (simp add: dispatch_hook_def tool_call_started_mapping dispatch_binding_def publish_hook_def gate_inputs_def
      collect_responses_def elapsed_u64_def hook_collect_deadline_ms_def collect_poll_def collect_message_def answer_value_def
      reply_topic_of_def correlation_id_def max_hook_response_bytes_def gate_json_def is_timeout_def merge_batch_def
      apply_merge_def merge_tool_call_fold skip_requested_def json_get_def bt_get_def json_bool_def and_then_def Let_def)

theorem tool_gate_decided_by_answers_witness:
  "\<exists>published r. dispatch_hook gate_json gate_inputs (lifecycle_event ''tool_call_started'') CNull = (published, Ok (Some r)) \<and>
     hr_skip r = Some True \<and> map fst published = [''hook.v1.event.before_tool_call'']"
proof -
  obtain published r where run: "dispatch_hook gate_json gate_inputs (lifecycle_event ''tool_call_started'') CNull = (published, Ok (Some r))"
    "hr_skip r = Some True" using gate_run by blast
  from tool_gate_decided_by_answers [OF run(1)] run show ?thesis by (auto simp: event_topic_def)
qed

end
