(* ===== verification/Mcp_Interaction.thy ===== *)
theory Mcp_Interaction
  imports Host_World Key_Value
begin

text \<open>
  \<open>crates/unicity-aos-bootstrap/src/mcp/interaction.rs\<close> and \<open>interaction/consent.rs\<close>: reading a form that a
  tool asks the user to fill in, and answering it through a presenter. Only constrained decisions are read; the
  presenters themselves (dialogs, pinentry, the tray) are the parameter of \<open>resolve\<close>.
\<close>

section \<open>Requests\<close>

datatype interaction_error = IUnsupported string | IInvalid string | IUnavailable string

record option_value =
  ov_label :: string
  ov_value :: canonical_json
  ov_affirmative :: bool

datatype response_kind = RespBoolean | RespString

datatype consent_kind = CapsuleAccess | ActionApproval | Ingress

datatype lifetime = LifeNone | LifeSession | UntilRuntimeRestart | Durable

record consent_presentation =
  cd_version :: u32
  cd_kind :: consent_kind
  cd_action :: "string option"
  cd_resource :: "string option"
  cd_reason :: "string option"
  cd_principal :: "string option"
  cd_capsule :: "string option"
  cd_tool :: "string option"
  cd_lifetimes :: "lifetime list"

record interaction_request =
  iq_message :: string
  iq_field :: string
  iq_response :: response_kind
  iq_options :: "option_value list"
  iq_consent :: "consent_presentation option"

definition max_message_bytes :: nat where
  "max_message_bytes = 4096"

definition safe_approval_choices :: "string list" where
  "safe_approval_choices = [''approve_once'', ''approve_session'', ''approve_always'', ''deny'']"

definition as_members :: "canonical_json \<Rightarrow> (string, canonical_json) btree_map option" where
  "as_members v = (case v of CObject m \<Rightarrow> Some m | _ \<Rightarrow> None)"

section \<open>Display metadata of a consent\<close>

text \<open>The derived deserializers: a unit variant is its name, or an object of its name and null.\<close>

definition variant_name :: "canonical_json \<Rightarrow> string option" where
  "variant_name v = (case v of CString s \<Rightarrow> Some s | CObject [(s, CNull)] \<Rightarrow> Some s | _ \<Rightarrow> None)"

definition read_kind :: "canonical_json \<Rightarrow> consent_kind option" where
  "read_kind v = Option.bind (variant_name v) (\<lambda>s.
     if s = ''capsule_access'' then Some CapsuleAccess
     else if s = ''action_approval'' then Some ActionApproval
     else if s = ''ingress'' then Some Ingress else None)"

definition read_lifetime :: "canonical_json \<Rightarrow> lifetime option" where
  "read_lifetime v = Option.bind (variant_name v) (\<lambda>s.
     if s = ''none'' then Some LifeNone
     else if s = ''session'' then Some LifeSession
     else if s = ''until_runtime_restart'' then Some UntilRuntimeRestart
     else if s = ''durable'' then Some Durable else None)"

definition read_u32 :: "canonical_json \<Rightarrow> u32 option" where
  "read_u32 v = Option.bind (json_u64 v) (\<lambda>n. if unat n < 2 ^ 32 then Some (of_nat (unat n)) else None)"

definition read_optional_text :: "canonical_json option \<Rightarrow> string option option" where
  "read_optional_text v = (case v of None \<Rightarrow> Some None | Some CNull \<Rightarrow> Some None | Some (CString s) \<Rightarrow> Some (Some s) | _ \<Rightarrow> None)"

fun read_all :: "('a \<Rightarrow> 'b option) \<Rightarrow> 'a list \<Rightarrow> 'b list option" where
  "read_all f [] = Some []"
| "read_all f (x # xs) = Option.bind (f x) (\<lambda>y. map_option (\<lambda>ys. y # ys) (read_all f xs))"

definition read_presentation :: "(string, canonical_json) btree_map \<Rightarrow> consent_presentation option" where
  "read_presentation m =
     Option.bind (Option.bind (bt_get m ''version'') read_u32) (\<lambda>version.
     Option.bind (Option.bind (bt_get m ''kind'') read_kind) (\<lambda>kind.
     Option.bind (read_optional_text (bt_get m ''action'')) (\<lambda>action.
     Option.bind (read_optional_text (bt_get m ''resource'')) (\<lambda>resource.
     Option.bind (read_optional_text (bt_get m ''reason'')) (\<lambda>reason.
     Option.bind (read_optional_text (bt_get m ''principal'')) (\<lambda>principal.
     Option.bind (read_optional_text (bt_get m ''capsule'')) (\<lambda>capsule.
     Option.bind (read_optional_text (bt_get m ''tool'')) (\<lambda>tool.
     Option.bind (Option.bind (Option.bind (bt_get m ''lifetimes'') json_array) (read_all read_lifetime)) (\<lambda>lifetimes.
       Some \<lparr>cd_version = version, cd_kind = kind, cd_action = action, cd_resource = resource, cd_reason = reason,
         cd_principal = principal, cd_capsule = capsule, cd_tool = tool, cd_lifetimes = lifetimes\<rparr>)))))))))"

definition invalid_consent :: interaction_error where
  "invalid_consent = IInvalid ''invalid Astrid consent display metadata''"

definition kind_matches_field :: "consent_kind \<Rightarrow> string \<Rightarrow> bool" where
  "kind_matches_field kind field \<longleftrightarrow>
     kind = ActionApproval \<and> field = ''choice'' \<or> kind = CapsuleAccess \<and> field = ''grant'' \<or>
     kind = Ingress \<and> field = ''allow''"

definition option_lifetime :: "canonical_json list \<Rightarrow> option_value \<Rightarrow> interaction_error + canonical_json" where
  "option_lifetime choices opt =
     (case filter (\<lambda>c. json_get c ''value'' = Some (ov_value opt)) choices of
        [choice] \<Rightarrow>
          and_then (ok_or invalid_consent (json_get choice ''lifetime'')) (\<lambda>l.
          if \<not> ov_affirmative opt \<and> l \<noteq> CString ''none'' then Err invalid_consent else Ok l)
      | _ \<Rightarrow> Err invalid_consent)"

fun option_lifetimes :: "canonical_json list \<Rightarrow> option_value list \<Rightarrow> interaction_error + canonical_json list" where
  "option_lifetimes choices [] = Ok []"
| "option_lifetimes choices (opt # opts) =
     and_then (option_lifetime choices opt) (\<lambda>l.
     and_then (option_lifetimes choices opts) (\<lambda>ls. Ok (l # ls)))"

definition displayed_texts :: "consent_presentation \<Rightarrow> string list" where
  "displayed_texts d = List.map_filter id
     [cd_action d, cd_resource d, cd_reason d, cd_principal d, cd_capsule d, cd_tool d]"

definition parse_consent :: "(string, canonical_json) btree_map \<Rightarrow> string \<Rightarrow> option_value list
    \<Rightarrow> interaction_error + consent_presentation option" where
  "parse_consent params field options =
     (case Option.bind (bt_get params ''_meta'') (\<lambda>m. json_get m ''org.astrid/consent'') of
        None \<Rightarrow> Ok None
      | Some raw \<Rightarrow>
          if (case Option.bind (json_get raw ''version'') json_u64 of None \<Rightarrow> False | Some v \<Rightarrow> v \<noteq> 1) then Ok None
          else
          and_then (ok_or invalid_consent (as_members raw)) (\<lambda>m.
          and_then (ok_or invalid_consent (Option.bind (bt_get m ''choices'') json_array)) (\<lambda>choices.
          if length choices \<noteq> length options then Err invalid_consent
          else
          and_then (option_lifetimes choices options) (\<lambda>ls.
          and_then (ok_or invalid_consent
            (read_presentation (bt_insert ''lifetimes'' (CArray ls) (bt_delete ''choices'' m)))) (\<lambda>display.
          if cd_version display \<noteq> 1 \<or>
             list_ex (\<lambda>s. s = [] \<or> length s > max_message_bytes) (displayed_texts display) \<or>
             \<not> kind_matches_field (cd_kind display) field
          then Err invalid_consent else Ok (Some display))))))"

definition apply_runtime_restart_labels :: "option_value list \<Rightarrow> consent_presentation \<Rightarrow> option_value list" where
  "apply_runtime_restart_labels options consent =
     map (\<lambda>(opt, l). if ov_affirmative opt \<and> l = UntilRuntimeRestart
        then opt\<lparr>ov_label := ''Until runtime restart''\<rparr> else opt) (zip options (cd_lifetimes consent)) @
     drop (length (cd_lifetimes consent)) options"

section \<open>Parsing a form\<close>

definition affirmative_label :: "string \<Rightarrow> string" where
  "affirmative_label field = (if field = ''grant'' then ''Grant'' else if field = ''allow'' then ''Allow'' else ''Approve'')"

definition choice_label :: "string \<Rightarrow> string" where
  "choice_label choice =
     (if choice = ''approve_once'' then ''Approve Once''
      else if choice = ''approve_session'' then ''Approve for Session''
      else if choice = ''approve_always'' then ''Always Approve'' else ''Deny'')"

fun read_choices :: "canonical_json list \<Rightarrow> interaction_error + option_value list" where
  "read_choices [] = Ok []"
| "read_choices (v # vs) =
     and_then (ok_or (IUnsupported ''approval choices must be strings'') (json_str v)) (\<lambda>choice.
     if choice \<notin> set safe_approval_choices
     then Err (IUnsupported ''local interaction refuses an unknown approval choice'')
     else and_then (read_choices vs) (\<lambda>opts.
       Ok (\<lparr>ov_label = choice_label choice, ov_value = CString choice, ov_affirmative = (choice \<noteq> ''deny'')\<rparr> # opts)))"

definition parse_safe_enum :: "canonical_json option \<Rightarrow> interaction_error + option_value list" where
  "parse_safe_enum value =
     and_then (ok_or (IUnsupported ''local interaction refuses unconstrained strings'') (Option.bind value json_array)) (\<lambda>vs.
     if vs = [] \<or> length vs > length safe_approval_choices
     then Err (IUnsupported ''approval choice set is empty or too large'')
     else and_then (read_choices vs) (\<lambda>options.
       if \<not> list_ex (\<lambda>opt. \<not> ov_affirmative opt) options
       then Err (IUnsupported ''approval choice set has no deny option'') else Ok options))"

definition field_options :: "string \<Rightarrow> (string, canonical_json) btree_map
    \<Rightarrow> interaction_error + (response_kind \<times> option_value list)" where
  "field_options field property =
     (if Option.bind (bt_get property ''type'') json_str = Some ''boolean''
      then Ok (RespBoolean,
        [\<lparr>ov_label = affirmative_label field, ov_value = CBool True, ov_affirmative = True\<rparr>,
         \<lparr>ov_label = ''Deny'', ov_value = CBool False, ov_affirmative = False\<rparr>])
      else if Option.bind (bt_get property ''type'') json_str = Some ''string''
      then and_then (parse_safe_enum (bt_get property ''enum'')) (\<lambda>options. Ok (RespString, options))
      else Err (IUnsupported ''local interaction refuses free-form or non-decision fields''))"

definition form_property :: "(string, canonical_json) btree_map
    \<Rightarrow> interaction_error + (string \<times> (string, canonical_json) btree_map)" where
  "form_property params =
     and_then (ok_or (IInvalid ''form elicitation has no requested schema'')
       (Option.bind (bt_get params ''requestedSchema'') as_members)) (\<lambda>schema.
     if Option.bind (bt_get schema ''type'') json_str \<noteq> Some ''object''
     then Err (IInvalid ''form elicitation schema must be an object'')
     else
     and_then (ok_or (IInvalid ''form elicitation has no properties'')
       (Option.bind (bt_get schema ''properties'') as_members)) (\<lambda>properties.
     case properties of
       [(field, property)] \<Rightarrow>
         and_then (ok_or (IInvalid ''form property must be an object'') (as_members property)) (\<lambda>property.
         if Option.bind (bt_get property ''format'') json_str = Some ''password''
         then Err (IUnsupported ''local interaction refuses password-shaped fields'')
         else Ok (field, property))
     | _ \<Rightarrow> Err (IUnsupported ''local interaction accepts exactly one constrained decision'')))"

definition parse_request :: "canonical_json \<Rightarrow> interaction_error + interaction_request" where
  "parse_request request =
     and_then (ok_or (IInvalid ''elicitation params must be an object'')
       (Option.bind (json_get request ''params'') as_members)) (\<lambda>params.
     if (case Option.bind (bt_get params ''mode'') json_str of None \<Rightarrow> False | Some m \<Rightarrow> m \<noteq> ''form'')
     then Err (IUnsupported ''local interaction only handles non-secret form decisions'')
     else
     and_then (ok_or (IInvalid ''elicitation message must be a string'')
       (Option.bind (bt_get params ''message'') json_str)) (\<lambda>message.
     if message = [] \<or> length message > max_message_bytes
     then Err (IInvalid ''elicitation message is empty or too large'')
     else
     and_then (form_property params) (\<lambda>(field, property).
     and_then (field_options field property) (\<lambda>(response, options).
     and_then (parse_consent params field options) (\<lambda>consent.
     Ok \<lparr>iq_message = message, iq_field = field, iq_response = response,
         iq_options = (case consent of None \<Rightarrow> options | Some d \<Rightarrow> apply_runtime_restart_labels options d),
         iq_consent = consent\<rparr>)))))"

section \<open>Answering\<close>

text \<open>A presenter has a state of its own; it selects an option, cancels or fails.\<close>

type_synonym 'p presenter = "interaction_request \<Rightarrow> 'p \<Rightarrow> (interaction_error + nat option) \<times> 'p"

definition form_response :: "canonical_json \<Rightarrow> string \<Rightarrow> canonical_json option \<Rightarrow> canonical_json" where
  "form_response i action content =
     json_obj [(''jsonrpc'', CString ''2.0''), (''id'', i),
       (''result'', json_obj ((''action'', CString action) #
          (case content of None \<Rightarrow> [] | Some c \<Rightarrow> [(''content'', c)])))]"

definition chosen_response :: "canonical_json \<Rightarrow> interaction_request \<Rightarrow> nat option
    \<Rightarrow> interaction_error + canonical_json" where
  "chosen_response i parsed selected =
     (case selected of
        None \<Rightarrow> Ok (form_response i ''cancel'' None)
      | Some index \<Rightarrow>
          if index < length (iq_options parsed)
          then Ok (form_response i ''accept'' (Some (json_obj [(iq_field parsed, ov_value (iq_options parsed ! index))])))
          else Err (IInvalid ''interaction provider returned an invalid choice''))"

definition resolve :: "'p presenter \<Rightarrow> canonical_json \<Rightarrow> 'p \<Rightarrow> (interaction_error + canonical_json) \<times> 'p" where
  "resolve present request p =
     (case and_then (ok_or (IInvalid ''elicitation request has no id'') (json_get request ''id'')) (\<lambda>i.
           and_then (parse_request request) (\<lambda>parsed. Ok (i, parsed))) of
        Err e \<Rightarrow> (Err e, p)
      | Ok (i, parsed) \<Rightarrow>
         (case present parsed p of
            (Err e, p') \<Rightarrow> (Err e, p')
          | (Ok selected, p') \<Rightarrow> (chosen_response i parsed selected, p')))"

definition cancelled_response :: "canonical_json \<Rightarrow> canonical_json option" where
  "cancelled_response request = map_option (\<lambda>i. form_response i ''cancel'' None) (json_get request ''id'')"

end
