(* ===== verification/Mcp_Session.thy ===== *)
theory Mcp_Session
  imports Mcp_Interaction "HOL-Library.FSet"
begin

text \<open>
  \<open>crates/unicity-aos-bootstrap/src/mcp/mrtr.rs\<close>: the tool calls of a session whose runtime may ask for input
  before it answers. A call is recorded under its JSON-RPC id; a result that requires input is turned into a
  resumed call, which repeats the recorded one and adds the user's answers and the opaque state of the runtime.
\<close>

section \<open>Identifiers of calls\<close>

datatype rpc_id = RpcNumber int | RpcString string

instantiation rpc_id :: linorder
begin

definition less_eq_rpc_id :: "rpc_id \<Rightarrow> rpc_id \<Rightarrow> bool" where
  "less_eq_rpc_id a b = (case (a, b) of
     (RpcNumber m, RpcNumber n) \<Rightarrow> m \<le> n
   | (RpcNumber _, RpcString _) \<Rightarrow> True
   | (RpcString _, RpcNumber _) \<Rightarrow> False
   | (RpcString s, RpcString t) \<Rightarrow> s \<le> t)"

definition less_rpc_id :: "rpc_id \<Rightarrow> rpc_id \<Rightarrow> bool" where
  "less_rpc_id a b \<longleftrightarrow> a \<le> b \<and> \<not> b \<le> (a :: rpc_id)"

instance
  by standard (auto simp: less_eq_rpc_id_def less_rpc_id_def split: rpc_id.splits)

end

definition number_as_i64 :: "json_number \<Rightarrow> int option" where
  "number_as_i64 n = (case n of PosInt w \<Rightarrow> if unat w < 2 ^ 63 then Some (uint w) else None
     | NegInt w \<Rightarrow> Some (sint w) | Float _ \<Rightarrow> None)"

section \<open>State and errors\<close>

record tracked_call =
  tc_jsonrpc :: canonical_json
  tc_id :: canonical_json
  tc_method :: string
  tc_params :: "(string, canonical_json) btree_map"
  tc_consumed_states :: "string fset"
  tc_consumed_stateless :: bool

record native_mrtr =
  nm_calls :: "(rpc_id, tracked_call) btree_map"
  nm_max_in_flight :: nat
  nm_max_input_rounds :: nat

datatype mrtr_error =
    MUnknownId | MAlreadySettled | MDuplicateId | MTooManyInFlight | MTooManyRounds
  | MMalformed string | MUnsupported string

record prepared_round =
  pr_key :: rpc_id
  pr_request_state :: "string option"
  pr_input_requests :: "(string, canonical_json) btree_map option"

definition max_input_requests :: nat where
  "max_input_requests = 8"

definition parse_rpc_id :: "canonical_json \<Rightarrow> mrtr_error + rpc_id" where
  "parse_rpc_id v = (case v of
     CString s \<Rightarrow> Ok (RpcString s)
   | CNumber n \<Rightarrow> ok_or (MMalformed ''JSON-RPC id must be a string or integer'') (map_option RpcNumber (number_as_i64 n))
   | _ \<Rightarrow> Err (MMalformed ''JSON-RPC id must be a string or integer''))"

definition mrtr_error_text :: "mrtr_error \<Rightarrow> string" where
  "mrtr_error_text e = (case e of
     MUnknownId \<Rightarrow> ''input_required id is not a tracked tools/call''
   | MAlreadySettled \<Rightarrow> ''tracked tools/call already consumed this input_required round''
   | MDuplicateId \<Rightarrow> ''tools/call id is already in flight''
   | MTooManyInFlight \<Rightarrow> ''too many in-flight native tools/call invocations''
   | MTooManyRounds \<Rightarrow> ''tracked tools/call exceeded the native input round limit''
   | MMalformed message \<Rightarrow> message
   | MUnsupported message \<Rightarrow> message)"

definition with_limits :: "nat \<Rightarrow> nat \<Rightarrow> native_mrtr" where
  "with_limits max_in_flight max_input_rounds =
     \<lparr>nm_calls = [], nm_max_in_flight = max_in_flight, nm_max_input_rounds = max_input_rounds\<rparr>"

section \<open>Recording calls\<close>

definition new_call :: "canonical_json \<Rightarrow> canonical_json \<Rightarrow> (string, canonical_json) btree_map \<Rightarrow> tracked_call" where
  "new_call request i params =
     \<lparr>tc_jsonrpc = (case json_get request ''jsonrpc'' of None \<Rightarrow> CString ''2.0'' | Some v \<Rightarrow> v), tc_id = i,
      tc_method = ''tools/call'', tc_params = bt_delete ''requestState'' (bt_delete ''inputResponses'' params),
      tc_consumed_states = {||}, tc_consumed_stateless = False\<rparr>"

definition record_call :: "native_mrtr \<Rightarrow> canonical_json \<Rightarrow> native_mrtr \<times> (mrtr_error + bool)" where
  "record_call M request =
     (if Option.bind (json_get request ''method'') json_str \<noteq> Some ''tools/call'' then (M, Ok False)
      else
        case
          and_then (ok_or (MMalformed ''tools/call has no id'') (json_get request ''id'')) (\<lambda>i.
          and_then (parse_rpc_id i) (\<lambda>key.
          and_then (ok_or (MMalformed ''tools/call params must be an object'')
            (Option.bind (json_get request ''params'') as_members)) (\<lambda>params.
          if Option.bind (bt_get params ''name'') json_str = None then Err (MMalformed ''tools/call has no tool name'')
          else if bt_contains_key (nm_calls M) key then Err MDuplicateId
          else if length (nm_calls M) \<ge> nm_max_in_flight M then Err MTooManyInFlight
          else Ok (key, new_call request i params)))) of
          Err e \<Rightarrow> (M, Err e)
        | Ok (key, call) \<Rightarrow> (M\<lparr>nm_calls := bt_insert key call (nm_calls M)\<rparr>, Ok True))"

definition complete_call :: "native_mrtr \<Rightarrow> canonical_json \<Rightarrow> native_mrtr \<times> bool" where
  "complete_call M i = (case parse_rpc_id i of Err _ \<Rightarrow> (M, False)
     | Ok key \<Rightarrow> (M\<lparr>nm_calls := bt_delete key (nm_calls M)\<rparr>, bt_contains_key (nm_calls M) key))"

definition forget_call :: "native_mrtr \<Rightarrow> canonical_json \<Rightarrow> native_mrtr" where
  "forget_call M i = fst (complete_call M i)"

section \<open>Rounds\<close>

definition round_already_consumed :: "tracked_call \<Rightarrow> string option \<Rightarrow> bool" where
  "round_already_consumed call request_state =
     (case request_state of Some s \<Rightarrow> s |\<in>| tc_consumed_states call | None \<Rightarrow> tc_consumed_stateless call)"

definition retained_rounds :: "tracked_call \<Rightarrow> nat" where
  "retained_rounds call = usize_saturating_add (fcard (tc_consumed_states call)) (if tc_consumed_stateless call then 1 else 0)"

definition prepare_round :: "native_mrtr \<Rightarrow> canonical_json \<Rightarrow> mrtr_error + prepared_round" where
  "prepare_round M message =
     (if json_get message ''method'' \<noteq> None
      then Err (MMalformed ''input_required must be a JSON-RPC result, not a request'')
      else if json_get message ''error'' \<noteq> None then Err (MMalformed ''JSON-RPC error is not input_required'')
      else
      and_then (ok_or (MMalformed ''input_required result has no id'') (json_get message ''id'')) (\<lambda>i.
      and_then (parse_rpc_id i) (\<lambda>key.
      and_then (ok_or MUnknownId (bt_get (nm_calls M) key)) (\<lambda>call.
      and_then (ok_or (MMalformed ''input_required result must be an object'')
        (Option.bind (json_get message ''result'') as_members)) (\<lambda>result.
      if Option.bind (bt_get result ''resultType'') json_str \<noteq> Some ''input_required''
      then Err (MMalformed ''InputRequiredResult requires resultType to be \"input_required\"'')
      else
      and_then (case bt_get result ''requestState'' of None \<Rightarrow> Ok None | Some (CString s) \<Rightarrow> Ok (Some s)
        | Some _ \<Rightarrow> Err (MMalformed ''requestState must be a string'')) (\<lambda>request_state.
      and_then (case bt_get result ''inputRequests'' of None \<Rightarrow> Ok None | Some (CObject m) \<Rightarrow> Ok (Some m)
        | Some _ \<Rightarrow> Err (MMalformed ''inputRequests must be an object'')) (\<lambda>input_requests.
      if request_state = None \<and> input_requests = None
      then Err (MMalformed ''InputRequiredResult requires at least one of inputRequests or requestState'')
      else if round_already_consumed call request_state then Err MAlreadySettled
      else if retained_rounds call \<ge> nm_max_input_rounds M then Err MTooManyRounds
      else Ok \<lparr>pr_key = key, pr_request_state = request_state, pr_input_requests = input_requests\<rparr>)))))))"

definition consume_round :: "tracked_call \<Rightarrow> string option \<Rightarrow> tracked_call" where
  "consume_round call request_state = (case request_state of
     Some s \<Rightarrow> call\<lparr>tc_consumed_states := finsert s (tc_consumed_states call)\<rparr>
   | None \<Rightarrow> call\<lparr>tc_consumed_stateless := True\<rparr>)"

definition resumed_params :: "tracked_call \<Rightarrow> string option \<Rightarrow> (string, canonical_json) btree_map
    \<Rightarrow> (string, canonical_json) btree_map" where
  "resumed_params call request_state responses =
     (let params = (if responses = [] then tc_params call
                    else bt_insert ''inputResponses'' (CObject responses) (tc_params call))
      in case request_state of None \<Rightarrow> params | Some s \<Rightarrow> bt_insert ''requestState'' (CString s) params)"

definition resumed_call :: "tracked_call \<Rightarrow> string option \<Rightarrow> (string, canonical_json) btree_map \<Rightarrow> canonical_json" where
  "resumed_call call request_state responses =
     json_obj [(''jsonrpc'', tc_jsonrpc call), (''id'', tc_id call), (''method'', CString (tc_method call)),
       (''params'', CObject (resumed_params call request_state responses))]"

definition finish_resume :: "native_mrtr \<Rightarrow> prepared_round \<Rightarrow> (string, canonical_json) btree_map
    \<Rightarrow> native_mrtr \<times> (mrtr_error + canonical_json)" where
  "finish_resume M prepared responses =
     (case bt_get (nm_calls M) (pr_key prepared) of
        None \<Rightarrow> (M, Err MUnknownId)
      | Some call \<Rightarrow>
          if round_already_consumed call (pr_request_state prepared) then (M, Err MAlreadySettled)
          else if retained_rounds call \<ge> nm_max_input_rounds M then (M, Err MTooManyRounds)
          else (M\<lparr>nm_calls := bt_insert (pr_key prepared) (consume_round call (pr_request_state prepared)) (nm_calls M)\<rparr>,
                Ok (resumed_call call (pr_request_state prepared) responses)))"

section \<open>The forms of a round\<close>

definition elicitation_envelope :: "string \<Rightarrow> canonical_json \<Rightarrow> mrtr_error + canonical_json" where
  "elicitation_envelope key request =
     and_then (ok_or (MMalformed ''input request must be an object'') (as_members request)) (\<lambda>m.
     case Option.bind (bt_get m ''method'') json_str of
       None \<Rightarrow> Err (MMalformed ''input request has no method'')
     | Some method \<Rightarrow>
         if method = ''sampling/createMessage'' \<or> method = ''roots/list''
         then Err (MUnsupported ''native consent only answers elicitation/create input requests'')
         else if method \<noteq> ''elicitation/create''
         then Err (MUnsupported ''native consent refused an unknown input request method'')
         else
         and_then (ok_or (MMalformed ''elicitation input request has no params'') (bt_get m ''params'')) (\<lambda>params.
         if as_members params = None then Err (MMalformed ''elicitation input request params must be an object'')
         else Ok (json_obj [(''jsonrpc'', CString ''2.0''), (''id'', CString key),
           (''method'', CString ''elicitation/create''), (''params'', params)])))"

definition form_error :: "interaction_error \<Rightarrow> mrtr_error" where
  "form_error e = (case e of IUnsupported _ \<Rightarrow> MUnsupported ''local interaction refused the form''
     | _ \<Rightarrow> MMalformed ''elicitation form is malformed'')"

fun collect_envelopes :: "(string \<times> canonical_json) list \<Rightarrow> mrtr_error + (string \<times> canonical_json) list" where
  "collect_envelopes [] = Ok []"
| "collect_envelopes ((key, request) # rest) =
     and_then (elicitation_envelope key request) (\<lambda>envelope.
     and_then (map_err form_error (parse_request envelope)) (\<lambda>_.
     and_then (collect_envelopes rest) (\<lambda>es. Ok ((key, envelope) # es))))"

definition collect_elicitations :: "(string, canonical_json) btree_map option
    \<Rightarrow> mrtr_error + (string \<times> canonical_json) list" where
  "collect_elicitations input_requests =
     (case input_requests of None \<Rightarrow> Ok [] | Some m \<Rightarrow>
        if length m > max_input_requests
        then Err (MUnsupported ''input_required asked for more forms than the native bridge will collect'')
        else collect_envelopes m)"

definition resolution_error :: "interaction_error \<Rightarrow> mrtr_error" where
  "resolution_error e = (case e of IUnsupported _ \<Rightarrow> MUnsupported ''local interaction refused the form''
     | IInvalid _ \<Rightarrow> MMalformed ''elicitation form is malformed''
     | IUnavailable _ \<Rightarrow> MUnsupported ''local interaction provider failed'')"

fun present_forms :: "'p presenter \<Rightarrow> (string \<times> canonical_json) list \<Rightarrow> (string, canonical_json) btree_map \<Rightarrow> 'p
    \<Rightarrow> (mrtr_error + (string, canonical_json) btree_map) \<times> 'p" where
  "present_forms present [] responses p = (Ok responses, p)"
| "present_forms present ((key, envelope) # rest) responses p =
     (case resolve present envelope p of
        (Err e, p') \<Rightarrow> (Err (resolution_error e), p')
      | (Ok resolved, p') \<Rightarrow>
         (case json_get resolved ''result'' of
            None \<Rightarrow> (Err (MMalformed ''local interaction returned no result''), p')
          | Some decision \<Rightarrow> present_forms present rest (bt_insert key decision responses) p'))"

definition cancel_all :: "(string, canonical_json) btree_map option \<Rightarrow> (string, canonical_json) btree_map" where
  "cancel_all input_requests =
     (case input_requests of None \<Rightarrow> [] | Some m \<Rightarrow>
        fold (\<lambda>key. bt_insert key (json_obj [(''action'', CString ''cancel'')])) (bt_keys m) [])"

section \<open>Deciding\<close>

definition validate_presentation :: "native_mrtr \<Rightarrow> canonical_json \<Rightarrow> mrtr_error + unit" where
  "validate_presentation M message =
     and_then (prepare_round M message) (\<lambda>prepared.
     and_then (collect_elicitations (pr_input_requests prepared)) (\<lambda>envelopes.
     if envelopes = [] then Err (MUnsupported ''no human decision in this round'') else Ok ()))"

definition round_responses :: "'p presenter \<Rightarrow> prepared_round \<Rightarrow> 'p \<Rightarrow> (string, canonical_json) btree_map \<times> 'p" where
  "round_responses present prepared p =
     (case collect_elicitations (pr_input_requests prepared) of
        Err _ \<Rightarrow> (cancel_all (pr_input_requests prepared), p)
      | Ok envelopes \<Rightarrow>
         (case present_forms present envelopes [] p of
            (Ok responses, p') \<Rightarrow> (responses, p')
          | (Err _, p') \<Rightarrow> (cancel_all (pr_input_requests prepared), p')))"

definition decide :: "'p presenter \<Rightarrow> native_mrtr \<Rightarrow> canonical_json \<Rightarrow> 'p
    \<Rightarrow> (native_mrtr \<times> (mrtr_error + canonical_json)) \<times> 'p" where
  "decide present M message p =
     (case prepare_round M message of
        Err e \<Rightarrow> ((M, Err e), p)
      | Ok prepared \<Rightarrow>
         (case round_responses present prepared p of (responses, p') \<Rightarrow> (finish_resume M prepared responses, p')))"

definition decline :: "native_mrtr \<Rightarrow> canonical_json \<Rightarrow> native_mrtr \<times> (mrtr_error + canonical_json)" where
  "decline M message =
     (case prepare_round M message of
        Err e \<Rightarrow> (M, Err e)
      | Ok prepared \<Rightarrow> finish_resume M prepared (cancel_all (pr_input_requests prepared)))"

definition is_input_required_result :: "canonical_json \<Rightarrow> bool" where
  "is_input_required_result message \<longleftrightarrow> json_get message ''method'' = None \<and> json_get message ''error'' = None \<and>
     Option.bind (Option.bind (json_get message ''result'') (\<lambda>r. json_get r ''resultType'')) json_str = Some ''input_required''"

definition cancelled_request_id :: "canonical_json \<Rightarrow> canonical_json option" where
  "cancelled_request_id message =
     (if Option.bind (json_get message ''method'') json_str \<noteq> Some ''notifications/cancelled'' then None
      else Option.bind (json_get message ''params'') (\<lambda>params. json_get params ''requestId''))"

end
