(* ===== verification/Mcp_Front.thy ===== *)
theory Mcp_Front
  imports Mcp_Session
begin

text \<open>
  \<open>crates/unicity-aos-bootstrap/src/mcp/mod.rs\<close>: what the endpoint does with a frame of the client and with a
  frame of the runtime. It advertises form elicitation to the runtime when it can answer forms itself, records tool
  calls, answers or declines the forms of the runtime, and gives the server its product name.
\<close>

section \<open>Modes and frames\<close>

datatype interaction_mode = ModeAuto | ModeClient | ModeNative | ModeDeny

text \<open>\<open>mh_parse\<close> is \<open>from_utf8\<close> and \<open>serde_json::from_str\<close> on a frame, \<open>mh_print\<close> is \<open>serde_json::to_vec\<close>.\<close>

record mcp_host =
  mh_parse :: "string \<Rightarrow> canonical_json option"
  mh_print :: "canonical_json \<Rightarrow> string option"

definition json_frame :: "mcp_host \<Rightarrow> canonical_json \<Rightarrow> string option" where
  "json_frame H v = map_option (\<lambda>text. text @ line_feed) (mh_print H v)"

definition has_method :: "canonical_json \<Rightarrow> string \<Rightarrow> bool" where
  "has_method v m \<longleftrightarrow> Option.bind (json_get v ''method'') json_str = Some m"

definition rpc_error :: "canonical_json \<Rightarrow> canonical_json \<Rightarrow> string \<Rightarrow> canonical_json" where
  "rpc_error message i text = json_obj [
     (''jsonrpc'', case json_get message ''jsonrpc'' of None \<Rightarrow> CString ''2.0'' | Some v \<Rightarrow> v), (''id'', i),
     (''error'', json_obj [(''code'', CNumber (NegInt (- 32603))), (''message'', CString text)])]"

definition jsonrpc_error_for :: "canonical_json \<Rightarrow> mrtr_error \<Rightarrow> canonical_json option" where
  "jsonrpc_error_for request e =
     map_option (\<lambda>i. rpc_error request i (mrtr_error_text e)) (json_get request ''id'')"

section \<open>Capabilities\<close>

text \<open>\<open>entry(key).or_insert_with(object)\<close>, then \<open>as_object_mut\<close>.\<close>

definition object_entry :: "(string, canonical_json) btree_map \<Rightarrow> string \<Rightarrow> (string, canonical_json) btree_map option" where
  "object_entry m key = (case bt_get m key of None \<Rightarrow> Some [] | Some v \<Rightarrow> as_members v)"

definition advertise_form_on_capabilities :: "(string, canonical_json) btree_map
    \<Rightarrow> (string, canonical_json) btree_map \<times> bool" where
  "advertise_form_on_capabilities capabilities =
     (case object_entry capabilities ''elicitation'' of
        None \<Rightarrow> (capabilities, False)
      | Some elicitation \<Rightarrow>
          if bt_contains_key elicitation ''form'' then (capabilities, False)
          else (bt_insert ''elicitation'' (CObject (bt_insert ''form'' (CObject []) elicitation)) capabilities, True))"

definition advertise_in :: "(string, canonical_json) btree_map \<Rightarrow> string
    \<Rightarrow> (string, canonical_json) btree_map \<times> bool" where
  "advertise_in m key = (case object_entry m key of None \<Rightarrow> (m, False)
     | Some capabilities \<Rightarrow>
        (case advertise_form_on_capabilities capabilities of (c, changed) \<Rightarrow> (bt_insert key (CObject c) m, changed)))"

definition advertise_form_elicitation :: "canonical_json \<Rightarrow> canonical_json \<times> bool" where
  "advertise_form_elicitation initialize =
     (case (as_members initialize, Option.bind (json_get initialize ''params'') as_members) of
        (Some m, Some params) \<Rightarrow>
          (case advertise_in params ''capabilities'' of
             (p, changed) \<Rightarrow> (CObject (bt_insert ''params'' (CObject p) m), changed))
      | _ \<Rightarrow> (initialize, False))"

definition client_capabilities_key :: string where
  "client_capabilities_key = ''io.modelcontextprotocol/clientCapabilities''"

definition advertise_request_form_meta :: "canonical_json \<Rightarrow> canonical_json \<times> bool" where
  "advertise_request_form_meta message =
     (case (as_members message, Option.bind (json_get message ''params'') as_members) of
        (Some m, Some params) \<Rightarrow>
          (case Option.bind (bt_get params ''_meta'') as_members of
             None \<Rightarrow> (message, False)
           | Some meta \<Rightarrow>
              (case advertise_in meta client_capabilities_key of
                 (c, changed) \<Rightarrow>
                   (CObject (bt_insert ''params'' (CObject (bt_insert ''_meta'' (CObject c) params)) m), changed)))
      | _ \<Rightarrow> (message, False))"

definition supports_form_elicitation :: "canonical_json \<Rightarrow> bool" where
  "supports_form_elicitation initialize \<longleftrightarrow>
     Option.bind (Option.bind (Option.bind (Option.bind (Option.bind (json_get initialize ''params'')
       (\<lambda>v. json_get v ''capabilities'')) (\<lambda>v. json_get v ''elicitation'')) (\<lambda>v. json_get v ''form'')) as_members)
       (\<lambda>_. Some ()) = Some ()"

section \<open>Frames of the client\<close>

datatype upstream_prepare = UpUnchanged | UpRewrite string | UpReply string | UpReject mrtr_error

definition intercepts_local_input :: "interaction_mode \<Rightarrow> bool \<Rightarrow> bool" where
  "intercepts_local_input mode client_supports_form =
     (case mode of ModeNative \<Rightarrow> True | ModeDeny \<Rightarrow> True | ModeAuto \<Rightarrow> \<not> client_supports_form | ModeClient \<Rightarrow> False)"

definition answers_locally :: "interaction_mode \<Rightarrow> bool" where
  "answers_locally mode \<longleftrightarrow> mode = ModeAuto \<or> mode = ModeNative"

definition frame_or :: "mcp_host \<Rightarrow> canonical_json \<Rightarrow> string \<Rightarrow> string" where
  "frame_or H v frame = (case json_frame H v of None \<Rightarrow> frame | Some f \<Rightarrow> f)"

definition prepare_tool_call :: "mcp_host \<Rightarrow> string \<Rightarrow> interaction_mode \<Rightarrow> canonical_json \<Rightarrow> native_mrtr
    \<Rightarrow> upstream_prepare \<times> native_mrtr" where
  "prepare_tool_call H frame mode message M =
     (let (v, advertised) = (if answers_locally mode then advertise_request_form_meta message else (message, False)) in
      case record_call M v of
        (M', Ok _) \<Rightarrow> (if advertised then UpRewrite (frame_or H v frame) else UpUnchanged, M')
      | (M', Err e) \<Rightarrow>
         (case (if e = MTooManyInFlight then Option.bind (jsonrpc_error_for v e) (json_frame H) else None) of
            Some reply \<Rightarrow> (UpReply reply, M')
          | None \<Rightarrow> (UpReject e, M')))"

definition prepare_client_message :: "mcp_host \<Rightarrow> string \<Rightarrow> interaction_mode \<Rightarrow> bool \<Rightarrow> native_mrtr
    \<Rightarrow> upstream_prepare \<times> bool \<times> native_mrtr" where
  "prepare_client_message H frame mode supports M =
     (case mh_parse H frame of
        None \<Rightarrow> (UpUnchanged, supports, M)
      | Some v \<Rightarrow>
          if has_method v ''initialize'' then
            (let supports' = supports_form_elicitation v; (v', changed) = advertise_form_elicitation v in
             (if answers_locally mode \<and> (mode = ModeNative \<or> \<not> supports') \<and> changed
              then UpRewrite (frame_or H v' frame) else UpUnchanged, supports', M))
          else if \<not> intercepts_local_input mode supports then (UpUnchanged, supports, M)
          else
            (case cancelled_request_id v of
               Some i \<Rightarrow> (UpUnchanged, supports, forget_call M i)
             | None \<Rightarrow>
                 if \<not> has_method v ''tools/call'' then (UpUnchanged, supports, M)
                 else (case prepare_tool_call H frame mode v M of (up, M') \<Rightarrow> (up, supports, M'))))"

section \<open>Frames of the runtime\<close>

datatype downstream_intercept =
    DownNone
  | DownResume canonical_json
  | DownSwallow
  | DownHostError canonical_json
  | DownExhausted canonical_json canonical_json

definition cancel_notification :: "canonical_json \<Rightarrow> canonical_json" where
  "cancel_notification i = json_obj [(''jsonrpc'', CString ''2.0''), (''method'', CString ''notifications/cancelled''),
     (''params'', json_obj [(''requestId'', i)])]"

definition failed_resume :: "canonical_json \<Rightarrow> mrtr_error \<Rightarrow> native_mrtr \<Rightarrow> downstream_intercept \<times> native_mrtr" where
  "failed_resume message e M =
     (if e = MUnknownId \<or> e = MAlreadySettled then (DownSwallow, M)
      else case json_get message ''id'' of
        None \<Rightarrow> (DownSwallow, M)
      | Some i \<Rightarrow>
          (if e = MTooManyRounds
           then DownExhausted (rpc_error message i (mrtr_error_text e)) (cancel_notification i)
           else DownHostError (rpc_error message i (mrtr_error_text e)), fst (complete_call M i)))"

definition intercept_downstream :: "mcp_host \<Rightarrow> string \<Rightarrow> interaction_mode \<Rightarrow> bool \<Rightarrow> 'p presenter \<Rightarrow> native_mrtr \<Rightarrow> 'p
    \<Rightarrow> (downstream_intercept \<times> native_mrtr) \<times> 'p" where
  "intercept_downstream H frame mode supports present M p =
     (if \<not> intercepts_local_input mode supports then ((DownNone, M), p)
      else case mh_parse H frame of
        None \<Rightarrow> ((DownNone, M), p)
      | Some message \<Rightarrow>
          if is_input_required_result message then
            (case (if mode = ModeDeny then (decline M message, p) else decide present M message p) of
               ((M', Ok resume), p') \<Rightarrow> ((DownResume resume, M'), p')
             | ((M', Err e), p') \<Rightarrow> (failed_resume message e M', p'))
          else if json_get message ''method'' = None
          then (case json_get message ''id'' of
                  None \<Rightarrow> ((DownNone, M), p)
                | Some i \<Rightarrow> ((DownNone, fst (complete_call M i)), p))
          else ((DownNone, M), p))"

datatype elicitation_handling = ElicitForward | ElicitPresent | ElicitCancel

definition elicitation_handling_of :: "canonical_json \<Rightarrow> interaction_mode \<Rightarrow> bool \<Rightarrow> elicitation_handling" where
  "elicitation_handling_of message mode client_supports_form =
     (if \<not> has_method message ''elicitation/create'' then ElicitForward
      else if mode = ModeDeny then ElicitCancel
      else if (case Option.bind (Option.bind (json_get message ''params'') (\<lambda>v. json_get v ''mode'')) json_str of
                 None \<Rightarrow> False | Some m \<Rightarrow> m \<noteq> ''form'') then ElicitForward
      else if mode = ModeNative \<or> mode = ModeAuto \<and> \<not> client_supports_form then ElicitPresent
      else ElicitForward)"

definition product_version :: string where
  "product_version = ''2026.10.1''"

definition rewritten_info :: "(string, canonical_json) btree_map \<Rightarrow> (string, canonical_json) btree_map" where
  "rewritten_info info = bt_insert ''version'' (CString product_version)
     (bt_insert ''title'' (CString ''Unicity AOS'') (bt_insert ''name'' (CString ''unicity-aos'') info))"

definition rewrite_server_identity :: "canonical_json \<Rightarrow> canonical_json \<times> bool" where
  "rewrite_server_identity message =
     (case (as_members message, Option.bind (json_get message ''result'') as_members) of
        (Some m, Some result) \<Rightarrow>
          if bt_get result ''protocolVersion'' = None \<or> bt_get result ''capabilities'' = None then (message, False)
          else (case Option.bind (bt_get result ''serverInfo'') as_members of
             None \<Rightarrow> (message, False)
           | Some info \<Rightarrow>
              (CObject (bt_insert ''result'' (CObject (bt_insert ''serverInfo'' (CObject (rewritten_info info)) result)) m),
               bt_get info ''name'' \<noteq> Some (CString ''unicity-aos'') \<or>
               bt_get info ''title'' \<noteq> Some (CString ''Unicity AOS'') \<or>
               bt_get info ''version'' \<noteq> Some (CString product_version)))
      | _ \<Rightarrow> (message, False))"

datatype transport_action = ActForward | ActRewrite canonical_json | ActPresent canonical_json | ActCancel canonical_json

definition transport_action_of :: "mcp_host \<Rightarrow> string \<Rightarrow> interaction_mode \<Rightarrow> bool \<Rightarrow> transport_action" where
  "transport_action_of H frame mode supports =
     (case mh_parse H frame of None \<Rightarrow> ActForward | Some message \<Rightarrow>
        (case elicitation_handling_of message mode supports of
           ElicitForward \<Rightarrow> (case rewrite_server_identity message of (v, changed) \<Rightarrow>
             if changed then ActRewrite v else ActForward)
         | ElicitPresent \<Rightarrow> ActPresent message
         | ElicitCancel \<Rightarrow> ActCancel message))"

end
