(* ===== verification/Mcp_Pending.thy ===== *)
theory Mcp_Pending
  imports Mcp_Front
begin

text \<open>
  \<open>crates/unicity-aos-bootstrap/src/mcp/pending.rs\<close>: approvals that outlive the host's tool call. The adapter gives
  every tool call a private id; when the runtime asks for a human decision, the host gets a ticket at once, the
  form is presented by a worker, and the status tool reads the outcome. The presenter of a worker, the fresh ids,
  the clock and the iteration order of a hash map are inputs.
\<close>

section \<open>State\<close>

definition status_tool :: string where
  "status_tool = ''aos_approval_status''"

definition private_prefix :: string where
  "private_prefix = ''aos-local-approval/''"

definition max_result_bytes :: nat where
  "max_result_bytes = 1048576"

record approval_entry =
  pe_tool :: string
  pe_host_id :: canonical_json
  pe_deferred :: bool
  pe_state :: string
  pe_result :: "canonical_json option"
  pe_deadline :: nat
  pe_context :: "native_mrtr option"
  pe_waiting :: bool
  pe_observed :: bool
  pe_worker_outstanding :: bool

record approval_decision =
  de_id :: string
  de_context :: native_mrtr
  de_resume :: "mrtr_error + canonical_json"

record pending_approvals =
  pd_guidance :: string
  pd_entries :: "(string, approval_entry) btree_map"
  pd_lists :: "(canonical_json \<times> bool) list"
  pd_limit :: nat
  pd_rounds :: nat
  pd_timeout :: nat

datatype upstream = UpstreamForward canonical_json | UpstreamReply canonical_json

datatype downstream = DownstreamForward canonical_json | DownstreamConsumed

text \<open>\<open>ph_text\<close> is \<open>Value::to_string\<close>; \<open>ph_order\<close> is the order in which a hash map is walked.\<close>

record pending_host =
  ph_text :: "canonical_json \<Rightarrow> string"
  ph_order :: "(string \<times> approval_entry) list \<Rightarrow> (string \<times> approval_entry) list"

definition pending_new :: "string \<Rightarrow> nat \<Rightarrow> nat \<Rightarrow> nat \<Rightarrow> pending_approvals" where
  "pending_new guidance limit rounds timeout =
     \<lparr>pd_guidance = guidance, pd_entries = [], pd_lists = [], pd_limit = limit, pd_rounds = rounds, pd_timeout = timeout\<rparr>"

section \<open>Replies\<close>

definition tool_result :: "pending_host \<Rightarrow> canonical_json \<Rightarrow> canonical_json \<Rightarrow> bool \<Rightarrow> canonical_json" where
  "tool_result H i v is_error = json_obj [(''jsonrpc'', CString ''2.0''), (''id'', i), (''result'', json_obj [
     (''content'', CArray [json_obj [(''type'', CString ''text''), (''text'', CString (ph_text H v))]]),
     (''structuredContent'', v), (''isError'', CBool is_error), (''resultType'', CString ''complete'')])]"

definition rpc_fault :: "canonical_json \<Rightarrow> string \<Rightarrow> canonical_json" where
  "rpc_fault i message = json_obj [(''jsonrpc'', CString ''2.0''), (''id'', i),
     (''error'', json_obj [(''code'', CNumber (NegInt (- 32602))), (''message'', CString message)])]"

definition rpc_message_id :: "canonical_json \<Rightarrow> canonical_json" where
  "rpc_message_id v = (case json_get v ''id'' of None \<Rightarrow> CNull | Some i \<Rightarrow> i)"

definition member_of :: "canonical_json option \<Rightarrow> string \<Rightarrow> canonical_json option" where
  "member_of v k = Option.bind v (\<lambda>v. json_get v k)"

definition with_member :: "canonical_json \<Rightarrow> string \<Rightarrow> canonical_json \<Rightarrow> canonical_json" where
  "with_member v k x = (case v of CObject m \<Rightarrow> CObject (bt_insert k x m) | _ \<Rightarrow> v)"

text \<open>Equality of JSON values, with the equality of floating-point numbers.\<close>

fun value_eq :: "canonical_json \<Rightarrow> canonical_json \<Rightarrow> bool"
and values_eq :: "canonical_json list \<Rightarrow> canonical_json list \<Rightarrow> bool"
and members_eq :: "(string \<times> canonical_json) list \<Rightarrow> (string \<times> canonical_json) list \<Rightarrow> bool" where
  "value_eq (CNumber (Float x)) (CNumber (Float y)) \<longleftrightarrow> f64_eq x y"
| "value_eq (CArray vs) (CArray ws) \<longleftrightarrow> values_eq vs ws"
| "value_eq (CObject m) (CObject n) \<longleftrightarrow> members_eq m n"
| "value_eq v w \<longleftrightarrow> v = w"
| "values_eq [] [] \<longleftrightarrow> True"
| "values_eq (v # vs) (w # ws) \<longleftrightarrow> value_eq v w \<and> values_eq vs ws"
| "values_eq _ _ \<longleftrightarrow> False"
| "members_eq [] [] \<longleftrightarrow> True"
| "members_eq ((k, v) # m) ((l, w) # n) \<longleftrightarrow> k = l \<and> value_eq v w \<and> members_eq m n"
| "members_eq _ _ \<longleftrightarrow> False"

section \<open>The status tool\<close>

definition status_message :: "pending_approvals \<Rightarrow> string \<Rightarrow> string" where
  "status_message P state =
     (if state = ''awaiting_approval'' then pd_guidance P
      else if state = ''running'' then ''The human decision has been sent to the runtime. The operation's outcome is not yet known. Do not repeat the original action.''
      else if state = ''expired'' then ''The local approval deadline expired. No late decision will resume this operation.''
      else if state = ''unavailable'' then ''The local approval could not be completed. No approval was synthesized.''
      else ''Report the original runtime outcome below; completion does not itself mean the operation succeeded.'')"

definition null_or :: "canonical_json option \<Rightarrow> canonical_json" where
  "null_or v = (case v of None \<Rightarrow> CNull | Some v \<Rightarrow> v)"

definition approval_status :: "pending_host \<Rightarrow> pending_approvals \<Rightarrow> canonical_json \<Rightarrow> canonical_json option
    \<Rightarrow> pending_approvals \<times> canonical_json" where
  "approval_status H P i arguments =
     (case Option.bind arguments as_members of
        None \<Rightarrow> (P, rpc_fault i ''provide only approval_id'')
      | Some args \<Rightarrow>
          if length args \<noteq> 1
          then (P, rpc_fault i ''status accepts only approval_id; decisions and secrets are never accepted'')
          else case Option.bind (bt_get args ''approval_id'') json_str of
            None \<Rightarrow> (P, rpc_fault i ''approval_id must be a string'')
          | Some key \<Rightarrow>
             (case bt_get (pd_entries P) key of
                Some entry \<Rightarrow>
                  if pe_deferred entry
                  then (P\<lparr>pd_entries := bt_insert key (entry\<lparr>pe_observed := True\<rparr>) (pd_entries P)\<rparr>,
                    tool_result H i (json_obj [(''approval_id'', CString key), (''status'', CString (pe_state entry)),
                      (''outcome'', null_or (pe_result entry)), (''tool'', CString (pe_tool entry)),
                      (''message'', CString (status_message P (pe_state entry)))]) False)
                  else (P, tool_result H i (json_obj [(''status'', CString ''unknown''),
                    (''message'', CString ''No approval with this id exists in this MCP session. Do not repeat the original action automatically.'')]) True)
              | None \<Rightarrow> (P, tool_result H i (json_obj [(''status'', CString ''unknown''),
                    (''message'', CString ''No approval with this id exists in this MCP session. Do not repeat the original action automatically.'')]) True)))"

section \<open>Messages of the host\<close>

text \<open>The tool call as it goes to the runtime, but for its id: its \<open>_meta\<close> announces the protocol and that forms
  can be answered.\<close>

definition announced_call :: "canonical_json \<Rightarrow> string + canonical_json" where
  "announced_call message =
     and_then (ok_or ''invalid tool invocation'' (Option.bind (json_get message ''params'') as_members)) (\<lambda>params.
     and_then (ok_or ''invalid tool metadata'' (object_entry params ''_meta'')) (\<lambda>meta.
     let meta = bt_insert ''io.modelcontextprotocol/protocolVersion'' (CString ''2026-07-28'') meta in
     and_then (ok_or ''invalid client capabilities'' (object_entry meta client_capabilities_key)) (\<lambda>capabilities.
     if (case bt_get capabilities ''elicitation'' of None \<Rightarrow> False | Some v \<Rightarrow> as_members v = None)
     then Err ''invalid elicitation capabilities''
     else Ok (with_member message ''params'' (CObject (bt_insert ''_meta''
       (CObject (bt_insert client_capabilities_key
         (CObject (fst (advertise_form_on_capabilities capabilities))) meta)) params))))))"

definition retirable :: "approval_entry \<Rightarrow> bool" where
  "retirable e \<longleftrightarrow> pe_observed e \<and> \<not> pe_worker_outstanding e \<and>
     pe_state e \<in> {''completed'', ''expired'', ''unavailable''}"

fun earliest :: "(string \<times> approval_entry) list \<Rightarrow> (string \<times> approval_entry) option" where
  "earliest [] = None"
| "earliest (e # es) = (case earliest es of None \<Rightarrow> Some e
     | Some f \<Rightarrow> if pe_deadline (snd f) < pe_deadline (snd e) then Some f else Some e)"

definition retire :: "pending_host \<Rightarrow> pending_approvals \<Rightarrow> pending_approvals" where
  "retire H P =
     (if length (pd_entries P) \<ge> pd_limit P
      then case earliest (filter (\<lambda>(_, e). retirable e) (ph_order H (pd_entries P))) of
             Some (k, _) \<Rightarrow> P\<lparr>pd_entries := bt_delete k (pd_entries P)\<rparr>
           | None \<Rightarrow> P
      else P)"

definition is_rpc_id :: "canonical_json \<Rightarrow> bool" where
  "is_rpc_id i \<longleftrightarrow> (case i of CString _ \<Rightarrow> True | CNumber n \<Rightarrow> number_as_i64 n \<noteq> None | _ \<Rightarrow> False)"

definition start_call :: "pending_approvals \<Rightarrow> canonical_json \<Rightarrow> canonical_json \<Rightarrow> string \<Rightarrow> nat
    \<Rightarrow> pending_approvals \<times> upstream" where
  "start_call P i message fresh now =
     (let private_id = private_prefix @ fresh; message = with_member message ''id'' (CString private_id) in
      case record_call (with_limits 1 (pd_rounds P)) message of
        (_, Err _) \<Rightarrow> (P, UpstreamReply (rpc_fault i ''invalid tool invocation''))
      | (context, Ok _) \<Rightarrow>
          (P\<lparr>pd_entries := bt_insert private_id
              \<lparr>pe_tool = (case Option.bind (member_of (json_get message ''params'') ''name'') json_str of
                   None \<Rightarrow> ''operation'' | Some s \<Rightarrow> s),
               pe_host_id = i, pe_deferred = False, pe_state = ''running'', pe_result = None,
               pe_deadline = now + pd_timeout P, pe_context = Some context, pe_waiting = False,
               pe_observed = False, pe_worker_outstanding = False\<rparr> (pd_entries P)\<rparr>,
           UpstreamForward message))"

definition host_tool_call :: "pending_host \<Rightarrow> pending_approvals \<Rightarrow> canonical_json \<Rightarrow> canonical_json \<Rightarrow> string \<Rightarrow> nat
    \<Rightarrow> pending_approvals \<times> upstream" where
  "host_tool_call H P i message fresh now =
     (case announced_call message of Err e \<Rightarrow> (P, UpstreamReply (rpc_fault i e)) | Ok message \<Rightarrow>
      let P = retire H P in
      if length (pd_entries P) \<ge> pd_limit P
      then (P, UpstreamReply (rpc_fault i ''approval session capacity reached; no new operation was started''))
      else if list_ex (\<lambda>(_, e). \<not> pe_deferred e \<and> value_eq (pe_host_id e) i) (pd_entries P)
      then (P, UpstreamReply (rpc_fault i ''tool request id already in flight''))
      else if \<not> is_rpc_id i then (P, UpstreamReply (rpc_fault i ''tool request id must be a string or integer''))
      else start_call P i message fresh now)"

definition host_cancelled :: "pending_host \<Rightarrow> pending_approvals \<Rightarrow> canonical_json \<Rightarrow> pending_approvals \<times> canonical_json" where
  "host_cancelled H P message =
     (case member_of (json_get message ''params'') ''requestId'' of
        None \<Rightarrow> (P, message)
      | Some host_id \<Rightarrow>
         (case find (\<lambda>(_, e). \<not> pe_deferred e \<and> value_eq (pe_host_id e) host_id) (ph_order H (pd_entries P)) of
            None \<Rightarrow> (P, message)
          | Some (key, _) \<Rightarrow>
              (P\<lparr>pd_entries := bt_delete key (pd_entries P)\<rparr>,
               with_member message ''params''
                 (with_member (null_or (json_get message ''params'')) ''requestId'' (CString key)))))"

definition pending_upstream :: "pending_host \<Rightarrow> pending_approvals \<Rightarrow> canonical_json \<Rightarrow> string \<Rightarrow> nat
    \<Rightarrow> pending_approvals \<times> upstream" where
  "pending_upstream H P message fresh now =
     (let i = rpc_message_id message; method = Option.bind (json_get message ''method'') json_str in
      if (case json_str i of None \<Rightarrow> False | Some s \<Rightarrow> prefix private_prefix s)
      then (P, UpstreamReply (rpc_fault i ''reserved request id''))
      else if method = Some ''tools/list'' then
        (if length (pd_lists P) \<ge> pd_limit P then (P, UpstreamReply (rpc_fault i ''too many pending tool listings''))
         else (P\<lparr>pd_lists := pd_lists P @
             [(i, member_of (json_get message ''params'') ''cursor'' \<in> {None, Some CNull})]\<rparr>, UpstreamForward message))
      else if method = Some ''tools/call'' then
        (if Option.bind (member_of (json_get message ''params'') ''name'') json_str = Some status_tool
         then (case approval_status H P i (member_of (json_get message ''params'') ''arguments'') of
                 (P', reply) \<Rightarrow> (P', UpstreamReply reply))
         else host_tool_call H P i message fresh now)
      else if method = Some ''notifications/cancelled''
      then (case host_cancelled H P message of (P', m) \<Rightarrow> (P', UpstreamForward m))
      else (P, UpstreamForward message))"

section \<open>Messages of the runtime\<close>

definition widened_schema :: "canonical_json \<Rightarrow> canonical_json" where
  "widened_schema schema = json_obj [(''type'', CString ''object''), (''anyOf'', CArray [schema, json_obj [
     (''type'', CString ''object''),
     (''properties'', json_obj [
       (''status'', json_obj [(''enum'', CArray [CString ''awaiting_approval'', CString ''unavailable''])]),
       (''message'', json_obj [(''type'', CString ''string'')])]),
     (''required'', CArray [CString ''status'', CString ''message''])]])]"

definition widened_tool :: "canonical_json \<Rightarrow> canonical_json" where
  "widened_tool tool = (case json_get tool ''outputSchema'' of None \<Rightarrow> tool
     | Some schema \<Rightarrow> with_member tool ''outputSchema'' (widened_schema schema))"

definition status_tool_entry :: canonical_json where
  "status_tool_entry = json_obj [(''name'', CString status_tool),
     (''description'', CString ''Read the outcome of an AOS pending approval in this session. Cannot approve, supply secrets, or repeat an operation. Tell the user when status is awaiting_approval; check again after their response, not continuously.''),
     (''inputSchema'', json_obj [(''type'', CString ''object''),
        (''properties'', json_obj [(''approval_id'', json_obj [(''type'', CString ''string'')])]),
        (''required'', CArray [CString ''approval_id'']), (''additionalProperties'', CBool False)]),
     (''annotations'', json_obj [(''readOnlyHint'', CBool True), (''destructiveHint'', CBool False),
        (''idempotentHint'', CBool True)])]"

definition listed_tools :: "canonical_json \<Rightarrow> canonical_json \<Rightarrow> bool \<Rightarrow> canonical_json" where
  "listed_tools message i first_page =
     (case Option.bind (member_of (json_get message ''result'') ''tools'') json_array of
        None \<Rightarrow> message
      | Some tools \<Rightarrow>
          if list_ex (\<lambda>t. Option.bind (json_get t ''name'') json_str = Some status_tool) tools
          then rpc_fault i ''runtime tool collides with AOS approval status''
          else with_member message ''result'' (with_member (null_or (json_get message ''result'')) ''tools''
            (CArray (map widened_tool tools @ (if first_page then [status_tool_entry] else [])))))"

text \<open>A job is what a worker gets: the id, the context and the message whose forms it presents.\<close>

type_synonym approval_job = "string \<times> native_mrtr \<times> canonical_json"

definition set_entry :: "pending_approvals \<Rightarrow> string \<Rightarrow> approval_entry \<Rightarrow> pending_approvals" where
  "set_entry P key e = P\<lparr>pd_entries := bt_insert key e (pd_entries P)\<rparr>"

definition await_human :: "pending_host \<Rightarrow> pending_approvals \<Rightarrow> string \<Rightarrow> approval_entry \<Rightarrow> native_mrtr \<Rightarrow> canonical_json
    \<Rightarrow> nat \<Rightarrow> bool \<Rightarrow> pending_approvals \<times> downstream \<times> approval_job option" where
  "await_human H P key entry context message now spawned =
     (let e = entry\<lparr>pe_context := None, pe_waiting := spawned, pe_worker_outstanding := spawned,
                pe_state := (if spawned then ''awaiting_approval'' else ''unavailable''),
                pe_deadline := now + pd_timeout P, pe_deferred := True\<rparr>
      in (set_entry P key e,
          if \<not> pe_deferred entry
          then DownstreamForward (tool_result H (pe_host_id entry) (json_obj [
            (''status'', CString (pe_state e)), (''approval_id'', CString key), (''status_tool'', CString status_tool),
            (''tool'', CString (pe_tool e)),
            (''message'', CString (if spawned then pd_guidance P
               else ''AOS could not start the approval presenter. No approval was granted.''))]) False)
          else DownstreamConsumed,
          if spawned then Some (key, context, message) else None))"

definition unpresentable :: "pending_host \<Rightarrow> pending_approvals \<Rightarrow> string \<Rightarrow> approval_entry
    \<Rightarrow> pending_approvals \<times> downstream" where
  "unpresentable H P key entry =
     (if pe_deferred entry then (set_entry P key (entry\<lparr>pe_state := ''unavailable''\<rparr>), DownstreamConsumed)
      else (P\<lparr>pd_entries := bt_delete key (pd_entries P)\<rparr>,
        DownstreamForward (tool_result H (pe_host_id entry) (json_obj [(''status'', CString ''unavailable''),
          (''message'', CString ''AOS could not present this approval safely. No consent was granted.'')]) True)))"

definition retained_outcome :: "pending_host \<Rightarrow> canonical_json \<Rightarrow> canonical_json" where
  "retained_outcome H message =
     (if length (ph_text H message) \<le> max_result_bytes
      then json_obj [(''result'', null_or (json_get message ''result'')), (''error'', null_or (json_get message ''error''))]
      else json_obj [(''error'', CString ''Runtime outcome exceeds the retained size limit. Do not repeat the action; inspect runtime records.'')])"

definition runtime_reply :: "pending_host \<Rightarrow> pending_approvals \<Rightarrow> string \<Rightarrow> canonical_json \<Rightarrow> nat \<Rightarrow> bool
    \<Rightarrow> pending_approvals \<times> downstream \<times> approval_job option" where
  "runtime_reply H P key message now spawned =
     (case bt_get (pd_entries P) key of
        None \<Rightarrow> (P, DownstreamConsumed, None)
      | Some entry \<Rightarrow>
          if pe_waiting entry \<or> pe_result entry \<noteq> None \<or> pe_state entry \<in> {''expired'', ''unavailable''}
          then (P, DownstreamConsumed, None)
          else if is_input_required_result message then
            (case pe_context entry of
               None \<Rightarrow> (P, DownstreamConsumed, None)
             | Some context \<Rightarrow>
                 if \<not> is_ok (validate_presentation context message)
                 then (case unpresentable H P key entry of (P', d) \<Rightarrow> (P', d, None))
                 else await_human H P key entry context message now spawned)
          else if \<not> pe_deferred entry
          then (P\<lparr>pd_entries := bt_delete key (pd_entries P)\<rparr>,
                DownstreamForward (with_member message ''id'' (pe_host_id entry)), None)
          else (set_entry P key (entry\<lparr>pe_state := ''completed'', pe_observed := False,
                  pe_result := Some (retained_outcome H message), pe_context := None\<rparr>), DownstreamConsumed, None))"

fun take_list :: "canonical_json \<Rightarrow> (canonical_json \<times> bool) list \<Rightarrow> (bool \<times> (canonical_json \<times> bool) list) option" where
  "take_list i [] = None"
| "take_list i ((j, first_page) # rest) =
     (if value_eq j i then Some (first_page, rest)
      else map_option (\<lambda>(b, rest'). (b, (j, first_page) # rest')) (take_list i rest))"

definition pending_downstream :: "pending_host \<Rightarrow> pending_approvals \<Rightarrow> canonical_json \<Rightarrow> nat \<Rightarrow> bool
    \<Rightarrow> pending_approvals \<times> downstream \<times> approval_job option" where
  "pending_downstream H P message now spawned =
     (if json_get message ''method'' \<noteq> None then (P, DownstreamForward message, None)
      else case Option.bind (json_get message ''id'') (\<lambda>i. map_option (\<lambda>r. (i, r)) (take_list i (pd_lists P))) of
        Some (i, first_page, left) \<Rightarrow>
          (P\<lparr>pd_lists := left\<rparr>, DownstreamForward (listed_tools message i first_page), None)
      | None \<Rightarrow>
         (case Option.bind (json_get message ''id'') json_str of
            Some key \<Rightarrow>
              if prefix private_prefix key then runtime_reply H P key message now spawned
              else (P, DownstreamForward message, None)
          | None \<Rightarrow> (P, DownstreamForward message, None)))"

section \<open>Decisions of the workers\<close>

definition expire_entry :: "nat \<Rightarrow> approval_entry \<Rightarrow> approval_entry" where
  "expire_entry now e =
     (if pe_waiting e \<and> pe_deadline e \<le> now
      then e\<lparr>pe_waiting := False, pe_state := ''expired'', pe_observed := False, pe_context := None\<rparr> else e)"

definition expire :: "nat \<Rightarrow> pending_approvals \<Rightarrow> pending_approvals" where
  "expire now P = P\<lparr>pd_entries := map (\<lambda>(k, e). (k, expire_entry now e)) (pd_entries P)\<rparr>"

definition settle_decision :: "nat \<Rightarrow> pending_approvals \<Rightarrow> approval_decision \<Rightarrow> pending_approvals \<times> canonical_json list" where
  "settle_decision now P d =
     (case bt_get (pd_entries P) (de_id d) of
        None \<Rightarrow> (P, [])
      | Some entry \<Rightarrow>
         (let e = entry\<lparr>pe_worker_outstanding := False\<rparr> in
          if \<not> pe_waiting e \<or> pe_deadline e \<le> now then (set_entry P (de_id d) e, [])
          else case de_resume d of
            Ok resume \<Rightarrow> (set_entry P (de_id d)
               (e\<lparr>pe_waiting := False, pe_context := Some (de_context d), pe_state := ''running''\<rparr>), [resume])
          | Err _ \<Rightarrow> (set_entry P (de_id d)
               (e\<lparr>pe_waiting := False, pe_state := ''unavailable'', pe_observed := False, pe_context := None\<rparr>), [])))"

fun settle_decisions :: "nat \<Rightarrow> pending_approvals \<Rightarrow> approval_decision list \<Rightarrow> pending_approvals \<times> canonical_json list" where
  "settle_decisions now P [] = (P, [])"
| "settle_decisions now P (d # ds) =
     (case settle_decision now P d of (P', out) \<Rightarrow>
        (case settle_decisions now P' ds of (P'', outs) \<Rightarrow> (P'', out @ outs)))"

definition pending_decisions :: "nat \<Rightarrow> pending_approvals \<Rightarrow> approval_decision list \<Rightarrow> pending_approvals \<times> canonical_json list" where
  "pending_decisions now P received = settle_decisions now (expire now P) received"

end
