(* ===== verification/Mcp_Laws.thy ===== *)
theory Mcp_Laws
  imports Mcp_Pending
begin

text \<open>
  Sessions of tool calls: where a resumed call comes from, how often a call can be resumed, and what an accepted
  form says about the presenter.
\<close>

section \<open>Sessions\<close>

datatype mrtr_call =
    SessRecord canonical_json
  | SessDecide canonical_json
  | SessDecline canonical_json
  | SessForget canonical_json

definition resumed :: "canonical_json \<Rightarrow> mrtr_error + canonical_json \<Rightarrow> (canonical_json \<times> canonical_json) list" where
  "resumed message res = (case res of Ok resume \<Rightarrow> [(message, resume)] | Err _ \<Rightarrow> [])"

text \<open>A step yields the state it leaves and the resumed calls it sends, each with the message it answers.\<close>

fun mrtr_step :: "'p presenter \<Rightarrow> native_mrtr \<times> 'p \<Rightarrow> mrtr_call
    \<Rightarrow> (native_mrtr \<times> 'p) \<times> (canonical_json \<times> canonical_json) list" where
  "mrtr_step present (M, p) (SessRecord r) = ((fst (record_call M r), p), [])"
| "mrtr_step present (M, p) (SessDecide m) =
     (case decide present M m p of ((M', res), p') \<Rightarrow> ((M', p'), resumed m res))"
| "mrtr_step present (M, p) (SessDecline m) =
     (case decline M m of (M', res) \<Rightarrow> ((M', p), resumed m res))"
| "mrtr_step present (M, p) (SessForget i) = ((forget_call M i, p), [])"

fun mrtr_run :: "'p presenter \<Rightarrow> native_mrtr \<times> 'p \<Rightarrow> mrtr_call list
    \<Rightarrow> (native_mrtr \<times> 'p) \<times> (canonical_json \<times> canonical_json) list" where
  "mrtr_run present st [] = (st, [])"
| "mrtr_run present st (c # cs) =
     (case mrtr_step present st c of (st', outs) \<Rightarrow>
        (case mrtr_run present st' cs of (st'', outs') \<Rightarrow> (st'', outs @ outs')))"

section \<open>Rounds\<close>

definition message_state :: "canonical_json \<Rightarrow> canonical_json option" where
  "message_state m = member_of (json_get m ''result'') ''requestState''"

lemma prepare_round_Ok:
  assumes "prepare_round M message = Ok prepared"
  obtains i call where "json_get message ''id'' = Some i" "parse_rpc_id i = Ok (pr_key prepared)"
    "bt_get (nm_calls M) (pr_key prepared) = Some call"
    "\<not> round_already_consumed call (pr_request_state prepared)" "retained_rounds call < nm_max_input_rounds M"
    "message_state message = map_option CString (pr_request_state prepared)"
    "member_of (json_get message ''result'') ''inputRequests'' = map_option CObject (pr_input_requests prepared)"
proof -
  from assms obtain i key call result where
    "json_get message ''id'' = Some i" "parse_rpc_id i = Ok key" "bt_get (nm_calls M) key = Some call"
    and r: "Option.bind (json_get message ''result'') as_members = Some result"
    and rest: "key = pr_key prepared" "\<not> round_already_consumed call (pr_request_state prepared)"
      "retained_rounds call < nm_max_input_rounds M"
      "bt_get result ''requestState'' = map_option CString (pr_request_state prepared)"
      "bt_get result ''inputRequests'' = map_option CObject (pr_input_requests prepared)"
    by (auto simp: prepare_round_def result_simps not_le split: if_splits option.splits canonical_json.splits)
  moreover have "member_of (json_get message ''result'') k = bt_get result k" for k
    using r by (auto simp: member_of_def json_get_def as_members_def split: option.splits canonical_json.splits bind_splits)
  ultimately show thesis by (intro that [of i call]) (simp_all add: message_state_def)
qed

lemma finish_resume_Ok:
  assumes "prepare_round M message = Ok prepared" and "finish_resume M prepared responses = (M', res)"
    and "bt_get (nm_calls M) (pr_key prepared) = Some call"
  shows "M' = M\<lparr>nm_calls := bt_insert (pr_key prepared) (consume_round call (pr_request_state prepared)) (nm_calls M)\<rparr>"
    and "res = Ok (resumed_call call (pr_request_state prepared) responses)"
  using assms by (auto simp: finish_resume_def elim!: prepare_round_Ok)

text \<open>A step that sends a resumed call, whether it decides or declines.\<close>

lemma mrtr_step_resumes:
  assumes "mrtr_step present (M, p) c = ((M', p'), outs)" and "(m, resume) \<in> set outs"
  obtains (resumes) prepared call responses where "prepare_round M m = Ok prepared" "outs = [(m, resume)]"
    "bt_get (nm_calls M) (pr_key prepared) = Some call"
    "resume = resumed_call call (pr_request_state prepared) responses"
    "M' = M\<lparr>nm_calls := bt_insert (pr_key prepared) (consume_round call (pr_request_state prepared)) (nm_calls M)\<rparr>"
    "c = SessDecide m \<and> (responses, p') = round_responses present prepared p \<or>
     c = SessDecline m \<and> responses = cancel_all (pr_input_requests prepared)"
proof -
  have common: "thesis"
    if pr: "prepare_round M m = Ok prepared" and fin: "finish_resume M prepared responses = (M', Ok resume)"
      and outs: "outs = [(m, resume)]"
      and origin: "c = SessDecide m \<and> (responses, p') = round_responses present prepared p \<or>
           c = SessDecline m \<and> responses = cancel_all (pr_input_requests prepared)" for prepared responses
  proof -
    from pr obtain call where call: "bt_get (nm_calls M) (pr_key prepared) = Some call" by (rule prepare_round_Ok)
    from finish_resume_Ok [OF pr fin call] call outs origin pr show thesis
      by (intro resumes [of prepared call responses]) auto
  qed
  show thesis
  proof (cases c)
    case (SessDecide d)
    with assms(1,2) common show thesis
      by (fastforce simp: decide_def resumed_def split: prod.splits sum.splits)
  next
    case (SessDecline d)
    with assms(1,2) common show thesis by (fastforce simp: decline_def resumed_def split: prod.splits sum.splits)
  qed (use assms(1,2) in auto)
qed

section \<open>Where tracked calls come from\<close>

text \<open>The call that recording a request tracks, under its key: the request's id, method, version and parameters,
  the members a resumed call adds left out.\<close>

definition tracks :: "canonical_json \<Rightarrow> rpc_id \<Rightarrow> tracked_call \<Rightarrow> bool" where
  "tracks request key call \<longleftrightarrow>
     json_get request ''id'' = Some (tc_id call) \<and> parse_rpc_id (tc_id call) = Ok key \<and>
     json_get request ''method'' = Some (CString ''tools/call'') \<and> tc_method call = ''tools/call'' \<and>
     tc_jsonrpc call = (case json_get request ''jsonrpc'' of None \<Rightarrow> CString ''2.0'' | Some v \<Rightarrow> v) \<and>
     (\<forall>k. bt_get (tc_params call) k = (if k \<in> {''inputResponses'', ''requestState''} then None
        else member_of (json_get request ''params'') k))"

definition calls_from :: "canonical_json set \<Rightarrow> native_mrtr \<Rightarrow> bool" where
  "calls_from R M \<longleftrightarrow> (\<forall>key call. bt_get (nm_calls M) key = Some call \<longrightarrow> (\<exists>request \<in> R. tracks request key call))"

lemma json_str_Some: "json_str v = Some s \<longleftrightarrow> v = CString s"
  by (cases v) (auto simp: json_str_def)

lemma json_object_Some: "as_members v = Some m \<longleftrightarrow> v = CObject m"
  by (cases v) (auto simp: as_members_def)

lemma member_of_object [simp]: "member_of (Some (CObject m)) k = bt_get m k" "member_of None k = None"
  by (simp_all add: member_of_def json_get_def)

lemma tracks_new_call:
  assumes "json_get request ''method'' = Some (CString ''tools/call'')" and "json_get request ''id'' = Some i"
    and "parse_rpc_id i = Ok key" and "json_get request ''params'' = Some (CObject params)"
  shows "tracks request key (new_call request i params)"
  using assms by (auto simp: tracks_def new_call_def bt_get_delete)

lemma record_call_cases:
  obtains (kept) "fst (record_call M request) = M"
  | (tracked) i key params where "json_get request ''method'' = Some (CString ''tools/call'')"
      "json_get request ''id'' = Some i" "parse_rpc_id i = Ok key" "json_get request ''params'' = Some (CObject params)"
      "fst (record_call M request) = M\<lparr>nm_calls := bt_insert key (new_call request i params) (nm_calls M)\<rparr>"
proof (cases "Option.bind (json_get request ''method'') json_str = Some ''tools/call''")
  case False
  then show thesis by (intro kept) (simp add: record_call_def)
next
  case True
  then have m: "json_get request ''method'' = Some (CString ''tools/call'')"
    by (auto simp: bind_eq_Some_conv json_str_Some)
  let ?checked = "and_then (ok_or (MMalformed ''tools/call has no id'') (json_get request ''id'')) (\<lambda>i.
    and_then (parse_rpc_id i) (\<lambda>key.
    and_then (ok_or (MMalformed ''tools/call params must be an object'')
      (Option.bind (json_get request ''params'') as_members)) (\<lambda>params.
    if Option.bind (bt_get params ''name'') json_str = None then Err (MMalformed ''tools/call has no tool name'')
    else if bt_contains_key (nm_calls M) key then Err MDuplicateId
    else if length (nm_calls M) \<ge> nm_max_in_flight M then Err MTooManyInFlight
    else Ok (key, new_call request i params))))"
  have rec: "record_call M request = (case ?checked of Err e \<Rightarrow> (M, Err e)
      | Ok (key, call) \<Rightarrow> (M\<lparr>nm_calls := bt_insert key call (nm_calls M)\<rparr>, Ok True))"
    unfolding record_call_def using True by (simp del: Option.bind.simps)
  show thesis
  proof (cases ?checked)
    case (Inl e)
    then show thesis by (intro kept) (simp add: rec del: Option.bind.simps)
  next
    case (Inr kc)
    obtain key call where kc: "kc = (key, call)" by (cases kc)
    from Inr obtain i params where "json_get request ''id'' = Some i" "parse_rpc_id i = Ok key"
      "json_get request ''params'' = Some (CObject params)" "call = new_call request i params"
      by (auto simp: kc result_simps bind_eq_Some_conv json_object_Some split: if_splits)
    with m Inr show thesis by (intro tracked [of i key params]) (simp_all add: rec kc)
  qed
qed

lemma calls_from_record: "calls_from R M \<Longrightarrow> calls_from (insert request R) (fst (record_call M request))"
  by (cases rule: record_call_cases [of M request]) (auto simp: calls_from_def intro: tracks_new_call)

lemma tracks_consume [simp]: "tracks request key (consume_round call st) = tracks request key call"
  by (simp add: tracks_def consume_round_def split: option.split)

lemma calls_from_consume:
  assumes "calls_from R M" and "bt_get (nm_calls M) key = Some call"
  shows "calls_from R (M\<lparr>nm_calls := bt_insert key (consume_round call st) (nm_calls M)\<rparr>)"
  using assms by (auto simp: calls_from_def)

lemma calls_from_forget: "calls_from R M \<Longrightarrow> calls_from R (forget_call M i)"
  by (auto simp: calls_from_def forget_call_def complete_call_def bt_get_delete split: sum.splits)

section \<open>What a resumed call repeats\<close>

text \<open>A resumed call answers message \<open>m\<close> for \<open>request\<close>: the same call, with the answers of the user and the state
  that the message carries.\<close>

definition repeats :: "canonical_json \<Rightarrow> canonical_json \<Rightarrow> canonical_json \<Rightarrow> bool" where
  "repeats request m resume \<longleftrightarrow>
     json_get resume ''id'' = json_get request ''id'' \<and>
     json_get resume ''method'' = Some (CString ''tools/call'') \<and> json_get request ''method'' = Some (CString ''tools/call'') \<and>
     json_get resume ''jsonrpc'' = Some (case json_get request ''jsonrpc'' of None \<Rightarrow> CString ''2.0'' | Some v \<Rightarrow> v) \<and>
     member_of (json_get resume ''params'') ''requestState'' = message_state m \<and>
     (\<forall>k. k \<noteq> ''inputResponses'' \<longrightarrow> k \<noteq> ''requestState'' \<longrightarrow>
        member_of (json_get resume ''params'') k = member_of (json_get request ''params'') k)"

definition answers_id :: "canonical_json \<Rightarrow> canonical_json \<Rightarrow> bool" where
  "answers_id request m \<longleftrightarrow> (\<exists>i j key. json_get request ''id'' = Some i \<and> json_get m ''id'' = Some j \<and>
     parse_rpc_id i = Ok key \<and> parse_rpc_id j = Ok key)"

lemma resumed_call_members:
  "json_get (resumed_call call st responses) ''id'' = Some (tc_id call)"
  "json_get (resumed_call call st responses) ''method'' = Some (CString (tc_method call))"
  "json_get (resumed_call call st responses) ''jsonrpc'' = Some (tc_jsonrpc call)"
  "json_get (resumed_call call st responses) ''params'' = Some (CObject (resumed_params call st responses))"
  by (simp_all add: resumed_call_def json_get_obj)

lemma bt_get_resumed_params:
  "bt_get (resumed_params call st responses) k =
     (if k = ''requestState'' \<and> st \<noteq> None then map_option CString st
      else if k = ''inputResponses'' \<and> responses \<noteq> [] then Some (CObject responses) else bt_get (tc_params call) k)"
  by (auto simp: resumed_params_def Let_def split: option.splits)

lemma resumed_call_repeats:
  assumes "prepare_round M m = Ok prepared" and "bt_get (nm_calls M) (pr_key prepared) = Some call"
    and "tracks request (pr_key prepared) call"
  shows "repeats request m (resumed_call call (pr_request_state prepared) responses) \<and> answers_id request m"
proof -
  from assms(1) obtain j where "json_get m ''id'' = Some j" "parse_rpc_id j = Ok (pr_key prepared)"
    "message_state m = map_option CString (pr_request_state prepared)" by (rule prepare_round_Ok)
  with assms(3) show ?thesis
    by (auto simp: repeats_def answers_id_def tracks_def resumed_call_members bt_get_resumed_params)
qed

definition recorded :: "mrtr_call list \<Rightarrow> canonical_json set" where
  "recorded cs = {r. SessRecord r \<in> set cs}"

lemma mrtr_step_calls_from:
  assumes "calls_from R M" and "mrtr_step present (M, p) c = ((M', p'), outs)"
  shows "calls_from (R \<union> recorded [c]) M'"
    and "(m, resume) \<in> set outs \<Longrightarrow> \<exists>request \<in> R. repeats request m resume \<and> answers_id request m"
proof -
  have grow: "calls_from (R \<union> S) N" if "calls_from R N" for S N
    using that by (auto simp: calls_from_def)
  have finish: "calls_from R M'" if "finish_resume M prepared responses = (M', res)" for prepared responses res
    using that assms(1) by (auto simp: finish_resume_def split: option.splits if_splits intro: calls_from_consume)
  show "calls_from (R \<union> recorded [c]) M'"
  proof (cases c)
    case (SessRecord r)
    then have "R \<union> recorded [c] = insert r R" "M' = fst (record_call M r)" using assms(2) by (auto simp: recorded_def)
    with calls_from_record [OF assms(1)] show ?thesis by simp
  next
    case (SessDecide d)
    with assms finish show ?thesis
      by (auto simp: decide_def intro!: grow split: prod.splits sum.splits)
  next
    case (SessDecline d)
    with assms finish show ?thesis by (auto simp: decline_def intro!: grow split: prod.splits sum.splits)
  next
    case (SessForget i)
    with assms show ?thesis by (auto intro!: grow calls_from_forget)
  qed
  show "\<exists>request \<in> R. repeats request m resume \<and> answers_id request m" if "(m, resume) \<in> set outs"
  proof -
    from assms(2) that obtain prepared call responses where pr: "prepare_round M m = Ok prepared"
      and call: "bt_get (nm_calls M) (pr_key prepared) = Some call"
      and resume: "resume = resumed_call call (pr_request_state prepared) responses"
      by (rule mrtr_step_resumes)
    from assms(1) call obtain request where "request \<in> R" "tracks request (pr_key prepared) call"
      by (auto simp: calls_from_def)
    with resumed_call_repeats [OF pr call] show ?thesis by (auto simp: resume)
  qed
qed

lemma mrtr_run_repeats:
  assumes "calls_from R M" and "mrtr_run present (M, p) cs = (st, outs)" and "(m, resume) \<in> set outs"
  shows "\<exists>request \<in> R \<union> recorded cs. repeats request m resume \<and> answers_id request m"
  using assms
proof (induction cs arbitrary: R M p st outs)
  case (Cons c cs)
  obtain M1 p1 o1 where c: "mrtr_step present (M, p) c = ((M1, p1), o1)" by (metis prod.exhaust)
  obtain o2 where cs: "mrtr_run present (M1, p1) cs = (st, o2)" and outs: "outs = o1 @ o2"
    using Cons.prems(2) by (auto simp: c split: prod.splits)
  show ?case
  proof (cases "(m, resume) \<in> set o1")
    case True
    with mrtr_step_calls_from(2) [OF Cons.prems(1) c] show ?thesis by auto
  next
    case False
    then have "(m, resume) \<in> set o2" using Cons.prems(3) outs by simp
    from Cons.IH [OF mrtr_step_calls_from(1) [OF Cons.prems(1) c] cs this]
    show ?thesis by (auto simp: recorded_def)
  qed
qed simp

section \<open>How often a call is resumed\<close>

definition rounds_used :: "tracked_call \<Rightarrow> nat" where
  "rounds_used call = fcard (tc_consumed_states call) + (if tc_consumed_stateless call then 1 else 0)"

definition message_key :: "canonical_json \<Rightarrow> rpc_id option" where
  "message_key m = Option.bind (json_get m ''id'') (\<lambda>i. case parse_rpc_id i of Ok key \<Rightarrow> Some key | Err _ \<Rightarrow> None)"

definition consumed :: "tracked_call \<Rightarrow> canonical_json option \<Rightarrow> bool" where
  "consumed call st \<longleftrightarrow> (case st of None \<Rightarrow> tc_consumed_stateless call | Some (CString s) \<Rightarrow> s |\<in>| tc_consumed_states call
     | _ \<Rightarrow> False)"

lemma consumed_state [simp]: "consumed call (map_option CString st) = round_already_consumed call st"
  by (simp add: consumed_def round_already_consumed_def split: option.split)

lemma rounds_used_consume:
  "\<not> round_already_consumed call st \<Longrightarrow> rounds_used (consume_round call st) = Suc (rounds_used call)"
  by (auto simp: rounds_used_def consume_round_def round_already_consumed_def fcard_finsert_disjoint split: option.splits)

lemma consumed_consume:
  "consumed (consume_round call st) x \<longleftrightarrow> consumed call x \<or> x = map_option CString st"
  by (auto simp: consumed_def consume_round_def split: option.splits canonical_json.splits)

lemma finish_resume_after_prepare:
  "prepare_round M m = Ok prepared \<Longrightarrow> \<exists>M' resume. finish_resume M prepared responses = (M', Ok resume)"
proof -
  assume pr: "prepare_round M m = Ok prepared"
  then obtain call where call: "bt_get (nm_calls M) (pr_key prepared) = Some call" by (rule prepare_round_Ok)
  obtain M' res where fin: "finish_resume M prepared responses = (M', res)" by fastforce
  from finish_resume_Ok(2) [OF pr fin call] fin show ?thesis by simp
qed

text \<open>A step that resumes nothing leaves the call under a key, unless it forgets that call or records it where none is.\<close>

lemma forget_call_get: "bt_get (nm_calls (forget_call M i)) key = (if parse_rpc_id i = Ok key then None else bt_get (nm_calls M) key)"
  by (cases "parse_rpc_id i") (auto simp: forget_call_def complete_call_def bt_get_delete)

lemma record_call_get:
  "bt_get (nm_calls (fst (record_call M r))) key = bt_get (nm_calls M) key \<or>
     message_key r = Some key \<and> bt_get (nm_calls M) key = None"
  by (auto simp: record_call_def message_key_def result_simps bt_get_insert bt_contains_key_def
      split: sum.splits option.splits if_splits)

lemma mrtr_step_quiet:
  assumes "mrtr_step present (M, p) c = ((M', p'), outs)" and "outs = []"
  shows "bt_get (nm_calls M') key = bt_get (nm_calls M) key \<or>
    (\<exists>i. c = SessForget i \<and> parse_rpc_id i = Ok key \<and> bt_get (nm_calls M') key = None) \<or>
    (\<exists>r. c = SessRecord r \<and> message_key r = Some key \<and> bt_get (nm_calls M) key = None)"
proof (cases c)
  case (SessRecord r)
  with assms record_call_get [of M r key] show ?thesis by auto
next
  case (SessForget i)
  with assms show ?thesis by (auto simp: forget_call_get split: if_splits)
next
  case (SessDecide m)
  show ?thesis
  proof (cases "prepare_round M m")
    case (Inr prepared)
    obtain responses q where r: "round_responses present prepared p = (responses, q)" by fastforce
    from finish_resume_after_prepare [OF Inr, of responses] assms show ?thesis
      by (auto simp: SessDecide decide_def Inr r resumed_def)
  qed (use assms in \<open>simp add: SessDecide decide_def resumed_def\<close>)
next
  case (SessDecline m)
  show ?thesis
  proof (cases "prepare_round M m")
    case (Inr prepared)
    from finish_resume_after_prepare [OF Inr, of "cancel_all (pr_input_requests prepared)"] assms show ?thesis
      by (auto simp: SessDecline decline_def Inr resumed_def)
  qed (use assms in \<open>simp add: SessDecline decline_def resumed_def\<close>)
qed

definition resumes_of :: "rpc_id \<Rightarrow> (canonical_json \<times> canonical_json) list \<Rightarrow> canonical_json option list" where
  "resumes_of key outs = map (\<lambda>(m, _). message_state m) (filter (\<lambda>(m, _). message_key m = Some key) outs)"

lemma resumes_of_simps [simp]:
  "resumes_of key [] = []"
  "resumes_of key ((m, r) # outs) = (if message_key m = Some key then message_state m # resumes_of key outs
     else resumes_of key outs)"
  "resumes_of key (outs @ outs') = resumes_of key outs @ resumes_of key outs'"
  by (simp_all add: resumes_of_def)

definition fresh_states :: "tracked_call option \<Rightarrow> nat \<Rightarrow> canonical_json option list \<Rightarrow> bool" where
  "fresh_states call bound states \<longleftrightarrow> distinct states \<and> (case call of None \<Rightarrow> states = []
     | Some c \<Rightarrow> length states + rounds_used c \<le> max bound (rounds_used c) \<and> (\<forall>st \<in> set states. \<not> consumed c st))"

lemma fresh_states_Nil [simp]: "fresh_states call bound []"
  by (simp add: fresh_states_def split: option.split)

lemma mrtr_step_max:
  assumes "mrtr_step present (M, p) c = ((M', p'), outs)"
  shows "nm_max_input_rounds M' = nm_max_input_rounds M"
proof (cases c)
  case (SessRecord r)
  have "nm_max_input_rounds (fst (record_call M r)) = nm_max_input_rounds M"
    by (cases rule: record_call_cases [of M r]) (auto simp del: fst_conv)
  with assms SessRecord show ?thesis by auto
qed (use assms in \<open>auto simp: decide_def decline_def finish_resume_def forget_call_def complete_call_def
       split: prod.splits sum.splits option.splits if_splits\<close>)

text \<open>No call under the key is both forgotten and recorded in these steps.\<close>

definition not_anew :: "rpc_id \<Rightarrow> mrtr_call list \<Rightarrow> tracked_call option \<Rightarrow> bool" where
  "not_anew key cs call \<longleftrightarrow> (\<forall>r. SessRecord r \<in> set cs \<longrightarrow> message_key r \<noteq> Some key) \<or>
     (\<forall>i. SessForget i \<in> set cs \<longrightarrow> parse_rpc_id i \<noteq> Ok key) \<and> call \<noteq> None"

lemma mrtr_run_fresh:
  assumes "mrtr_run present (M, p) cs = (st, outs)" and "not_anew key cs (bt_get (nm_calls M) key)"
    and "nm_max_input_rounds M \<le> usize_max"
  shows "fresh_states (bt_get (nm_calls M) key) (nm_max_input_rounds M) (resumes_of key outs)"
  using assms
proof (induction cs arbitrary: M p st outs)
  case (Cons c cs)
  obtain M1 p1 o1 where c: "mrtr_step present (M, p) c = ((M1, p1), o1)" by (metis prod.exhaust)
  obtain o2 where cs: "mrtr_run present (M1, p1) cs = (st, o2)" and outs: "outs = o1 @ o2"
    using Cons.prems(1) by (auto simp: c split: prod.splits)
  have bound: "nm_max_input_rounds M1 = nm_max_input_rounds M" by (rule mrtr_step_max [OF c])
  have rest: "fresh_states (bt_get (nm_calls M1) key) (nm_max_input_rounds M) (resumes_of key o2)"
    if "not_anew key cs (bt_get (nm_calls M1) key)"
    using Cons.IH [OF cs that] Cons.prems(3) bound by simp
  have tail: "not_anew key cs x" if "bt_get (nm_calls M) key \<noteq> None \<longrightarrow> x \<noteq> None" for x
    using Cons.prems(2) that by (auto simp: not_anew_def)
  show ?case
  proof (cases "o1 = []")
    case True
    from mrtr_step_quiet [OF c True, of key] Cons.prems(2)
    have "bt_get (nm_calls M1) key \<in> {bt_get (nm_calls M) key, None}" and "not_anew key cs (bt_get (nm_calls M1) key)"
      by (auto simp: not_anew_def)
    with rest True outs show ?thesis by (auto simp: fresh_states_def split: option.split)
  next
    case False
    then obtain m resume where "(m, resume) \<in> set o1" by (cases o1) auto
    from c this obtain prepared call where pr: "prepare_round M m = Ok prepared" and o1: "o1 = [(m, resume)]"
      and call: "bt_get (nm_calls M) (pr_key prepared) = Some call"
      and M1: "M1 = M\<lparr>nm_calls := bt_insert (pr_key prepared) (consume_round call (pr_request_state prepared)) (nm_calls M)\<rparr>"
      by (rule mrtr_step_resumes)
    from pr call have m: "message_key m = Some (pr_key prepared)"
      "message_state m = map_option CString (pr_request_state prepared)"
      and new: "\<not> round_already_consumed call (pr_request_state prepared)" "retained_rounds call < nm_max_input_rounds M"
      by (auto elim!: prepare_round_Ok simp: message_key_def)
    show ?thesis
    proof (cases "pr_key prepared = key")
      case True
      have "rounds_used call < nm_max_input_rounds M"
        using new(2) Cons.prems(3) by (auto simp: retained_rounds_def rounds_used_def usize_saturating_add_def)
      with rest [OF tail] new(1) call True show ?thesis
        by (auto simp: outs o1 m M1 fresh_states_def rounds_used_consume consumed_consume)
    next
      case False
      with rest [OF tail] show ?thesis by (simp add: outs o1 m M1)
    qed
  qed
qed simp

section \<open>What an accepted form says about the presenter\<close>

text \<open>A presenter that keeps a log of the forms it was shown and of its answers.\<close>

type_synonym presenter_log = "(interaction_request \<times> (interaction_error + nat option)) list"

definition with_log :: "'p presenter \<Rightarrow> ('p \<times> presenter_log) presenter" where
  "with_log present parsed pl = (case pl of (p, log) \<Rightarrow>
     (case present parsed p of (answer, p') \<Rightarrow> (answer, (p', log @ [(parsed, answer)]))))"

definition decision_values :: "canonical_json set" where
  "decision_values = {CBool True, CBool False} \<union> CString ` set safe_approval_choices"

text \<open>The form behind a key was shown, an option of it was selected, and the answer carries that option's value.\<close>

definition selected_answer :: "presenter_log \<Rightarrow> canonical_json \<Rightarrow> canonical_json \<Rightarrow> bool" where
  "selected_answer log envelope r \<longleftrightarrow> (\<exists>parsed index. parse_request envelope = Ok parsed \<and>
     (parsed, Ok (Some index)) \<in> set log \<and> index < length (iq_options parsed) \<and>
     ov_value (iq_options parsed ! index) \<in> decision_values \<and>
     json_get r ''content'' = Some (json_obj [(iq_field parsed, ov_value (iq_options parsed ! index))]))"

definition accepting :: "canonical_json \<Rightarrow> bool" where
  "accepting r \<longleftrightarrow> json_get r ''action'' = Some (CString ''accept'')"

lemma read_choices_values: "read_choices vs = Ok opts \<Longrightarrow> opt \<in> set opts \<Longrightarrow> ov_value opt \<in> decision_values"
  by (induction vs arbitrary: opts) (auto simp: result_simps decision_values_def split: if_splits)

lemma field_options_values: "field_options field property = Ok (k, opts) \<Longrightarrow> opt \<in> set opts \<Longrightarrow> ov_value opt \<in> decision_values"
  by (auto simp: field_options_def parse_safe_enum_def result_simps decision_values_def split: if_splits
      dest: read_choices_values)

lemma map_value_labels: "map ov_value (apply_runtime_restart_labels options d) = map ov_value options"
proof -
  have "map ov_value (map (\<lambda>(opt, l). if ov_affirmative opt \<and> l = UntilRuntimeRestart
      then opt\<lparr>ov_label := ''Until runtime restart''\<rparr> else opt) (zip options ls)) @
    map ov_value (drop (length ls) options) = map ov_value options" for ls
    by (induction options arbitrary: ls) (auto split: prod.splits, case_tac ls, auto)
  then show ?thesis by (simp add: apply_runtime_restart_labels_def)
qed

lemma parse_request_values:
  assumes "parse_request envelope = Ok parsed" and "opt \<in> set (iq_options parsed)"
  shows "ov_value opt \<in> decision_values"
proof -
  from assms(1) obtain field property k options consent where "field_options field property = Ok (k, options)"
    and "iq_options parsed = (case consent of None \<Rightarrow> options | Some d \<Rightarrow> apply_runtime_restart_labels options d)"
    by (auto simp: parse_request_def result_simps split: if_splits prod.splits)
  moreover from this(2) have "ov_value ` set (iq_options parsed) = ov_value ` set options"
    by (cases consent) (auto simp: map_value_labels simp flip: set_map)
  ultimately show ?thesis using assms(2) field_options_values by (metis image_iff)
qed

lemma resolve_accepts:
  assumes "resolve (with_log present) envelope (p, log) = (Ok resolved, (p', log'))" and "json_get resolved ''result'' = Some r"
  shows "prefix log log'" and "accepting r \<Longrightarrow> selected_answer (drop (length log) log') envelope r"
proof -
  from assms(1) obtain i parsed selected where parsed: "parse_request envelope = Ok parsed"
    and log': "log' = log @ [(parsed, Ok selected)]" and r: "chosen_response i parsed selected = Ok resolved"
    by (auto simp: resolve_def with_log_def result_simps split: sum.splits prod.splits)
  show "prefix log log'" by (simp add: log')
  show "selected_answer (drop (length log) log') envelope r" if "accepting r"
  proof -
    from r that assms(2) obtain index where sel: "selected = Some index" and index: "index < length (iq_options parsed)"
      and c: "json_get r ''content'' = Some (json_obj [(iq_field parsed, ov_value (iq_options parsed ! index))])"
      by (auto simp: chosen_response_def form_response_def accepting_def json_get_obj split: option.splits if_splits)
    have "ov_value (iq_options parsed ! index) \<in> decision_values"
      by (rule parse_request_values [OF parsed]) (simp add: index)
    with sel index c show ?thesis by (auto simp: selected_answer_def parsed log')
  qed
qed

lemma resolve_logs: "resolve (with_log present) envelope (p, log) = (x, (p', log')) \<Longrightarrow> prefix log log'"
  by (auto simp: resolve_def with_log_def split: sum.splits prod.splits)

lemma selected_answer_mono: "selected_answer log envelope r \<Longrightarrow> set log \<subseteq> set log' \<Longrightarrow> selected_answer log' envelope r"
  unfolding selected_answer_def by blast

lemma present_forms_logs: "present_forms (with_log present) envelopes responses (p, log) = (x, (p', log')) \<Longrightarrow> prefix log log'"
proof (induction envelopes arbitrary: responses p log)
  case (Cons ke envelopes)
  obtain key envelope where ke: "ke = (key, envelope)" by fastforce
  obtain y q log1 where y: "resolve (with_log present) envelope (p, log) = (y, (q, log1))" by (metis prod.exhaust)
  from resolve_logs [OF y] Cons.prems Cons.IH show ?case
    by (fastforce simp: ke y split: sum.splits option.splits intro: prefix_order.trans)
qed simp

lemma present_forms_accepts:
  assumes "present_forms (with_log present) envelopes responses (p, log) = (Ok out, (p', log'))"
    and "bt_get out key = Some r" and "accepting r"
  shows "bt_get responses key = Some r \<or>
    (\<exists>envelope. (key, envelope) \<in> set envelopes \<and> selected_answer (drop (length log) log') envelope r)"
  using assms
proof (induction envelopes arbitrary: responses p log)
  case (Cons ke envelopes)
  obtain k envelope where ke: "ke = (k, envelope)" by fastforce
  obtain y q log1 where y: "resolve (with_log present) envelope (p, log) = (y, (q, log1))" by (metis prod.exhaust)
  obtain resolved decision where res: "y = Ok resolved" "json_get resolved ''result'' = Some decision"
    and rest: "present_forms (with_log present) envelopes (bt_insert k decision responses) (q, log1) = (Ok out, (p', log'))"
    using Cons.prems(1) by (auto simp: ke y split: sum.splits option.splits)
  have logs: "prefix log log1" "prefix log1 log'" using resolve_logs [OF y] present_forms_logs [OF rest] by auto
  then have later: "set (drop (length log1) log') \<subseteq> set (drop (length log) log')"
    and earlier: "set (drop (length log) log1) \<subseteq> set (drop (length log) log')"
    by (auto simp: prefix_def)
  from Cons.IH [OF rest Cons.prems(2,3)] show ?case
  proof
    assume "bt_get (bt_insert k decision responses) key = Some r"
    then consider "key = k" "decision = r" | "bt_get responses key = Some r" by (auto split: if_splits)
    then show ?thesis
    proof cases
      case 1
      with resolve_accepts(2) [OF y [unfolded res] res(2)] Cons.prems(3) earlier show ?thesis
        by (auto simp: ke intro: selected_answer_mono)
    qed simp
  next
    assume "\<exists>envelope. (key, envelope) \<in> set envelopes \<and> selected_answer (drop (length log1) log') envelope r"
    with later show ?thesis by (auto simp: ke intro: selected_answer_mono)
  qed
qed simp

lemma collect_envelopes_from:
  "collect_envelopes m = Ok envelopes \<Longrightarrow> (key, envelope) \<in> set envelopes \<Longrightarrow>
     \<exists>request. (key, request) \<in> set m \<and> elicitation_envelope key request = Ok envelope"
proof (induction m arbitrary: envelopes)
  case (Cons kr m)
  then show ?case by (cases kr) (auto simp: result_simps, blast+)
qed simp

lemma cancel_all_cancels: "bt_get (cancel_all requests) key = Some r \<Longrightarrow> \<not> accepting r"
proof -
  have "bt_get (fold (\<lambda>key. bt_insert key (json_obj [(''action'', CString ''cancel'')])) ks m) key = Some r \<Longrightarrow>
      bt_get m key \<noteq> Some r \<Longrightarrow> \<not> accepting r" for ks m
    by (induction ks arbitrary: m) (fastforce simp: accepting_def json_get_obj split: if_splits)+
  then show "bt_get (cancel_all requests) key = Some r \<Longrightarrow> \<not> accepting r"
    by (auto simp: cancel_all_def split: option.splits)
qed

lemma round_responses_accept:
  assumes "round_responses (with_log present) prepared (p, log) = (responses, (p', log'))"
    and "bt_get responses key = Some r" and "accepting r"
  shows "\<exists>requests request envelope. pr_input_requests prepared = Some requests \<and> (key, request) \<in> set requests \<and>
    elicitation_envelope key request = Ok envelope \<and> selected_answer (drop (length log) log') envelope r"
proof -
  from assms cancel_all_cancels obtain envelopes where e: "collect_elicitations (pr_input_requests prepared) = Ok envelopes"
    and "present_forms (with_log present) envelopes [] (p, log) = (Ok responses, (p', log'))"
    by (auto simp: round_responses_def split: sum.splits prod.splits)
  from present_forms_accepts [OF this(2) assms(2,3)] obtain envelope where "(key, envelope) \<in> set envelopes"
    "selected_answer (drop (length log) log') envelope r" by auto
  moreover from this(1) e obtain requests request where "pr_input_requests prepared = Some requests"
    "(key, request) \<in> set requests" "elicitation_envelope key request = Ok envelope"
    using collect_envelopes_from by (fastforce simp: collect_elicitations_def split: option.splits if_splits)
  ultimately show ?thesis by blast
qed

section \<open>Runs from a fresh session\<close>

lemma calls_from_with_limits [simp]: "calls_from R (with_limits a b)"
  by (simp add: calls_from_def with_limits_def)

lemma mrtr_run_calls_from:
  "calls_from R M \<Longrightarrow> mrtr_run present (M, p) cs = ((M', p'), outs) \<Longrightarrow> calls_from (R \<union> recorded cs) M'"
proof (induction cs arbitrary: R M p outs)
  case (Cons c cs)
  obtain M1 p1 o1 where c: "mrtr_step present (M, p) c = ((M1, p1), o1)" by (metis prod.exhaust)
  obtain o2 where cs: "mrtr_run present (M1, p1) cs = ((M', p'), o2)"
    using Cons.prems(2) by (auto simp: c split: prod.splits)
  have "R \<union> recorded [c] \<union> recorded cs = R \<union> recorded (c # cs)" by (auto simp: recorded_def)
  with Cons.IH [OF mrtr_step_calls_from(1) [OF Cons.prems(1) c] cs] show ?case by simp
qed (simp add: recorded_def)

text \<open>The answers of a resumed call whose tracked call carries none of its own.\<close>

lemma resumed_answers:
  assumes "tracks request key call"
    and "member_of (json_get (resumed_call call st responses) ''params'') ''inputResponses'' = Some (CObject answers)"
  shows "answers = responses"
  using assms by (auto simp: resumed_call_members bt_get_resumed_params tracks_def split: if_splits)

text \<open>An accepted form of a resumed call was selected in the step that resumed it.\<close>

lemma mrtr_step_accepts:
  assumes "calls_from R M" and "mrtr_step (with_log present) (M, (p, log)) c = ((M', (p', log')), outs)"
    and "(m, resume) \<in> set outs" and "member_of (json_get resume ''params'') ''inputResponses'' = Some (CObject answers)"
    and "bt_get answers key = Some r" and "accepting r"
  shows "\<exists>requests request envelope. member_of (json_get m ''result'') ''inputRequests'' = Some (CObject requests) \<and>
    (key, request) \<in> set requests \<and> elicitation_envelope key request = Ok envelope \<and>
    selected_answer (drop (length log) log') envelope r"
proof -
  from assms(2,3) obtain prepared call responses where pr: "prepare_round M m = Ok prepared"
    and call: "bt_get (nm_calls M) (pr_key prepared) = Some call"
    and resume: "resume = resumed_call call (pr_request_state prepared) responses"
    and origin: "c = SessDecide m \<and> (responses, (p', log')) = round_responses (with_log present) prepared (p, log) \<or>
      c = SessDecline m \<and> responses = cancel_all (pr_input_requests prepared)"
    by (rule mrtr_step_resumes)
  from assms(1) call obtain request where "tracks request (pr_key prepared) call" by (auto simp: calls_from_def)
  from resumed_answers [OF this] assms(4) have answers: "answers = responses" by (simp add: resume)
  have "round_responses (with_log present) prepared (p, log) = (responses, (p', log'))"
    using origin cancel_all_cancels assms(5,6) by (auto simp: answers)
  from round_responses_accept [OF this] assms(5,6) answers pr show ?thesis by (auto elim!: prepare_round_Ok)
qed

end
