(* ===== verification/Mcp_Approvals.thy ===== *)
theory Mcp_Approvals
  imports Mcp_Laws
begin

text \<open>
  The machine of the approvals: messages of the host and of the runtime, workers that present forms, and ticks, in
  any order; the effects it records, and what holds of its state in every run.
\<close>

section \<open>The machine\<close>

record approvals_machine =
  pm_pending :: pending_approvals
  pm_jobs :: "approval_job list"
  pm_channel :: "approval_decision list"

text \<open>A message of the host comes with the fresh id that a new call would get, a message of the runtime with whether a
  worker could be started, a worker with its position among the running ones and a presenter of its own.\<close>

datatype 'p approvals_event =
    HostSends canonical_json string nat
  | RuntimeSends canonical_json nat bool
  | WorkerEnds nat 'p
  | Tick nat

text \<open>The effects: a call of the host goes to the runtime under a private id, the host gets the answer of such a call,
  a worker is started for a message, a worker ends, and a decision goes back to the runtime.\<close>

datatype 'p approvals_effect =
    Created string canonical_json canonical_json
  | Answered string canonical_json
  | Asked string canonical_json nat
  | Worked string 'p
  | Resumed nat canonical_json

definition created_effects :: "string \<Rightarrow> canonical_json \<Rightarrow> upstream \<Rightarrow> 'p approvals_effect list" where
  "created_effects fresh message up = (case up of
     UpstreamForward w \<Rightarrow> if Option.bind (json_get message ''method'') json_str = Some ''tools/call''
       then [Created (private_prefix @ fresh) message w] else []
   | UpstreamReply _ \<Rightarrow> [])"

definition private_key :: "canonical_json \<Rightarrow> string option" where
  "private_key message = (case Option.bind (json_get message ''id'') json_str of
     Some key \<Rightarrow> if json_get message ''method'' = None \<and> prefix private_prefix key then Some key else None
   | None \<Rightarrow> None)"

definition answered_effects :: "canonical_json \<Rightarrow> downstream \<Rightarrow> 'p approvals_effect list" where
  "answered_effects message down = (case (private_key message, down) of
     (Some key, DownstreamForward w) \<Rightarrow> [Answered key w] | _ \<Rightarrow> [])"

definition asked_effects :: "nat \<Rightarrow> approval_job option \<Rightarrow> 'p approvals_effect list" where
  "asked_effects now job = (case job of Some (key, _, message) \<Rightarrow> [Asked key message now] | None \<Rightarrow> [])"

fun approvals_step :: "'p presenter \<Rightarrow> pending_host \<Rightarrow> approvals_machine \<Rightarrow> 'p approvals_event
    \<Rightarrow> approvals_machine \<times> 'p approvals_effect list" where
  "approvals_step present H S (HostSends message fresh now) =
     (case pending_upstream H (pm_pending S) message fresh now of
        (P, up) \<Rightarrow> (S\<lparr>pm_pending := P\<rparr>, created_effects fresh message up))"
| "approvals_step present H S (RuntimeSends message now spawned) =
     (case pending_downstream H (pm_pending S) message now spawned of
        (P, down, job) \<Rightarrow> (S\<lparr>pm_pending := P, pm_jobs := pm_jobs S @ (case job of None \<Rightarrow> [] | Some j \<Rightarrow> [j])\<rparr>,
          answered_effects message down @ asked_effects now job))"
| "approvals_step present H S (WorkerEnds n p) =
     (if n < length (pm_jobs S) then
        case pm_jobs S ! n of (key, ctx, message) \<Rightarrow>
          (case decide present ctx message p of
             ((ctx', resume), p') \<Rightarrow>
               (S\<lparr>pm_jobs := take n (pm_jobs S) @ drop (Suc n) (pm_jobs S),
                  pm_channel := pm_channel S @ [\<lparr>de_id = key, de_context = ctx', de_resume = resume\<rparr>]\<rparr>,
                [Worked key p']))
      else (S, []))"
| "approvals_step present H S (Tick now) =
     (case pending_decisions now (pm_pending S) (pm_channel S) of
        (P, resumes) \<Rightarrow> (S\<lparr>pm_pending := P, pm_channel := []\<rparr>, map (Resumed now) resumes))"

fun approvals_run :: "'p presenter \<Rightarrow> pending_host \<Rightarrow> approvals_machine \<Rightarrow> 'p approvals_event list
    \<Rightarrow> approvals_machine \<times> 'p approvals_effect list" where
  "approvals_run present H S [] = (S, [])"
| "approvals_run present H S (ev # evs) =
     (case approvals_step present H S ev of (S', effs) \<Rightarrow>
        (case approvals_run present H S' evs of (S'', effs') \<Rightarrow> (S'', effs @ effs')))"

definition approvals_start :: "string \<Rightarrow> nat \<Rightarrow> nat \<Rightarrow> nat \<Rightarrow> approvals_machine" where
  "approvals_start guidance limit rounds timeout =
     \<lparr>pm_pending = pending_new guidance limit rounds timeout, pm_jobs = [], pm_channel = []\<rparr>"

fun fresh_of :: "'p approvals_event \<Rightarrow> string list" where
  "fresh_of (HostSends _ fresh _) = [fresh]"
| "fresh_of _ = []"

abbreviation entry_of :: "pending_approvals \<Rightarrow> string \<Rightarrow> approval_entry option" where
  "entry_of P key \<equiv> bt_get (pd_entries P) key"

section \<open>What a message of the host changes\<close>

definition new_entry :: "pending_approvals \<Rightarrow> canonical_json \<Rightarrow> native_mrtr \<Rightarrow> canonical_json \<Rightarrow> nat \<Rightarrow> approval_entry" where
  "new_entry P i ctx w now = \<lparr>pe_tool = (case Option.bind (member_of (json_get w ''params'') ''name'') json_str of
       None \<Rightarrow> ''operation'' | Some s \<Rightarrow> s),
     pe_host_id = i, pe_deferred = False, pe_state = ''running'', pe_result = None, pe_deadline = now + pd_timeout P,
     pe_context = Some ctx, pe_waiting = False, pe_observed = False, pe_worker_outstanding = False\<rparr>"

lemma retire_cases:
  obtains "retire H P = P" | key where "retire H P = P\<lparr>pd_entries := bt_delete key (pd_entries P)\<rparr>"
proof -
  have "retire H P = P \<or> (\<exists>key. retire H P = P\<lparr>pd_entries := bt_delete key (pd_entries P)\<rparr>)"
    by (auto simp: retire_def split: option.split)
  with that show thesis by blast
qed

lemma retire_fields [simp]:
  "pd_limit (retire H P) = pd_limit P" "pd_timeout (retire H P) = pd_timeout P" "pd_rounds (retire H P) = pd_rounds P"
  "pd_lists (retire H P) = pd_lists P"
  by (rule retire_cases [of H P]; simp)+

definition trimmed :: "(string, approval_entry) btree_map \<Rightarrow> (string, approval_entry) btree_map \<Rightarrow> bool" where
  "trimmed es es' \<longleftrightarrow> es' = es \<or> (\<exists>key. es' = bt_delete key es)"

lemma trimmed_get: "trimmed es es' \<Longrightarrow> bt_get es' k = Some e \<Longrightarrow> bt_get es k = Some e"
  by (auto simp: trimmed_def bt_get_delete split: if_splits)

lemma retire_trimmed: "trimmed (pd_entries P) (pd_entries (retire H P))"
  by (rule retire_cases [of H P]) (auto simp: trimmed_def)

text \<open>The call that goes to the runtime: the host's call under its private id, with its \<open>_meta\<close> announced.\<close>

definition forwards :: "canonical_json \<Rightarrow> string \<Rightarrow> canonical_json \<Rightarrow> bool" where
  "forwards message key w \<longleftrightarrow> json_get w ''id'' = Some (CString key) \<and>
     json_get w ''method'' = Some (CString ''tools/call'') \<and> json_get message ''method'' = Some (CString ''tools/call'') \<and>
     (\<forall>k. k \<noteq> ''_meta'' \<longrightarrow> member_of (json_get w ''params'') k = member_of (json_get message ''params'') k)"

lemma json_get_with_member: "json_get v k \<noteq> None \<Longrightarrow> json_get (with_member v k' x) j = (if j = k' then Some x else json_get v j)"
  by (cases v) (auto simp: with_member_def json_get_def)

lemma announced_call_Ok:
  assumes "announced_call message = Ok m"
  obtains params meta where "json_get message ''params'' = Some (CObject params)"
    "m = with_member message ''params'' (CObject (bt_insert ''_meta'' meta params))"
  using assms by (auto simp: announced_call_def result_simps Let_def bind_eq_Some_conv json_object_Some split: if_splits)

lemma start_call_cases:
  assumes "start_call P i message fresh now = (P', up)"
  obtains (refused) r where "P' = P" "up = UpstreamReply r"
  | (started) ctx w where "w = with_member message ''id'' (CString (private_prefix @ fresh))"
      "ctx = fst (record_call (with_limits 1 (pd_rounds P)) w)" "up = UpstreamForward w"
      "P' = set_entry P (private_prefix @ fresh) (new_entry P i ctx w now)"
proof -
  let ?w = "with_member message ''id'' (CString (private_prefix @ fresh))"
  obtain ctx r where r: "record_call (with_limits 1 (pd_rounds P)) ?w = (ctx, r)" by fastforce
  show thesis
  proof (cases r)
    case (Inl e)
    with assms r show thesis by (intro refused) (auto simp: start_call_def Let_def)
  next
    case (Inr b)
    with assms r show thesis
      by (intro started [of ?w ctx]) (auto simp: start_call_def Let_def set_entry_def new_entry_def)
  qed
qed

lemma host_tool_call_cases:
  assumes "host_tool_call H P i message fresh now = (P', up)"
  obtains (refused) r where "trimmed (pd_entries P) (pd_entries P')" "pd_lists P' = pd_lists P" "pd_timeout P' = pd_timeout P"
      "pd_limit P' = pd_limit P" "pd_rounds P' = pd_rounds P" "up = UpstreamReply r"
  | (started) m ctx w where "announced_call message = Ok m" "w = with_member m ''id'' (CString (private_prefix @ fresh))"
      "ctx = fst (record_call (with_limits 1 (pd_rounds P)) w)" "up = UpstreamForward w"
      "P' = set_entry (retire H P) (private_prefix @ fresh) (new_entry P i ctx w now)"
      "length (pd_entries (retire H P)) < pd_limit P"
      "\<not> list_ex (\<lambda>(_, e). \<not> pe_deferred e \<and> value_eq (pe_host_id e) i) (pd_entries (retire H P))" "is_rpc_id i"
proof (cases "announced_call message")
  case (Inl e)
  with assms show thesis by (intro refused) (auto simp: host_tool_call_def trimmed_def)
next
  case (Inr m)
  have new: "new_entry (retire H P) i ctx w now = new_entry P i ctx w now" for ctx w
    by (simp add: new_entry_def)
  consider (no) r where "P' = retire H P" "up = UpstreamReply r"
    | (go) "start_call (retire H P) i m fresh now = (P', up)" "length (pd_entries (retire H P)) < pd_limit P"
        "\<not> list_ex (\<lambda>(_, e). \<not> pe_deferred e \<and> value_eq (pe_host_id e) i) (pd_entries (retire H P))" "is_rpc_id i"
    using assms by (auto simp: host_tool_call_def Inr Let_def not_le split: if_splits)
  then show thesis
  proof cases
    case no
    then show thesis using retire_trimmed by (intro refused) auto
  next
    case go
    from go(1) show thesis
    proof (cases rule: start_call_cases)
      case (refused r)
      then show thesis using retire_trimmed by (intro that(1)) auto
    next
      case (started ctx w)
      with go(2-4) new show thesis by (intro that(2) [OF Inr]) simp_all
    qed
  qed
qed

definition tended :: "(string, approval_entry) btree_map \<Rightarrow> (string, approval_entry) btree_map \<Rightarrow> bool" where
  "tended es es' \<longleftrightarrow> trimmed es es' \<or> (\<exists>key e. bt_get es key = Some e \<and> pe_deferred e \<and>
     es' = bt_insert key (e\<lparr>pe_observed := True\<rparr>) es)"

lemma tended_refl [simp]: "tended es es"
  by (simp add: tended_def trimmed_def)

lemma trimmed_tended: "trimmed es es' \<Longrightarrow> tended es es'"
  by (simp add: tended_def)

lemma tended_get: "tended es es' \<Longrightarrow> bt_get es' k = Some e' \<Longrightarrow>
    \<exists>e. bt_get es k = Some e \<and> (e' = e \<or> pe_deferred e \<and> e' = e\<lparr>pe_observed := True\<rparr>)"
  by (auto simp: tended_def dest: trimmed_get split: if_splits)

lemma tended_wf: "tended es es' \<Longrightarrow> bt_wf es \<Longrightarrow> bt_wf es'"
  by (auto simp: tended_def trimmed_def bt_wf_delete)

text \<open>Same limits, and the listings of the host have no private ids.\<close>

definition same_frame :: "pending_approvals \<Rightarrow> pending_approvals \<Rightarrow> bool" where
  "same_frame P P' \<longleftrightarrow> pd_limit P' = pd_limit P \<and> pd_timeout P' = pd_timeout P \<and> pd_rounds P' = pd_rounds P \<and>
     ((\<forall>x \<in> set (pd_lists P). \<forall>key. prefix private_prefix key \<longrightarrow> fst x \<noteq> CString key) \<longrightarrow>
      (\<forall>x \<in> set (pd_lists P'). \<forall>key. prefix private_prefix key \<longrightarrow> fst x \<noteq> CString key))"

lemma approval_status_cases:
  "approval_status H P i arguments = (P', r) \<Longrightarrow> tended (pd_entries P) (pd_entries P') \<and> same_frame P P'"
  by (auto simp: approval_status_def tended_def same_frame_def split: option.splits if_splits) (auto simp: trimmed_def)

lemma host_cancelled_cases:
  "host_cancelled H P message = (P', m) \<Longrightarrow> trimmed (pd_entries P) (pd_entries P') \<and> same_frame P P'"
  by (auto simp: host_cancelled_def trimmed_def same_frame_def split: option.splits prod.splits)

lemma method_member: "Option.bind (json_get message k) json_str = Some s \<longleftrightarrow> json_get message k = Some (CString s)"
  by (auto simp: bind_eq_Some_conv json_str_Some)

lemma upstream_cases:
  assumes "pending_upstream H P message fresh now = (P', up)"
  obtains (kept) "tended (pd_entries P) (pd_entries P')" "same_frame P P'" "created_effects fresh message up = ([] :: 'p approvals_effect list)"
  | (started) m ctx w where "announced_call message = Ok m" "w = with_member m ''id'' (CString (private_prefix @ fresh))"
      "ctx = fst (record_call (with_limits 1 (pd_rounds P)) w)" "json_get message ''method'' = Some (CString ''tools/call'')"
      "created_effects fresh message up = ([Created (private_prefix @ fresh) message w] :: 'p approvals_effect list)"
      "P' = set_entry (retire H P) (private_prefix @ fresh) (new_entry P (rpc_message_id message) ctx w now)"
      "length (pd_entries (retire H P)) < pd_limit P"
      "\<not> list_ex (\<lambda>(_, e). \<not> pe_deferred e \<and> value_eq (pe_host_id e) (rpc_message_id message)) (pd_entries (retire H P))"
      "is_rpc_id (rpc_message_id message)"
proof -
  let ?i = "rpc_message_id message" and ?name = "Option.bind (json_get message ''method'') json_str"
  let ?reserved = "case json_str ?i of None \<Rightarrow> False | Some s \<Rightarrow> prefix private_prefix s"
  have priv: "?i = CString key \<Longrightarrow> prefix private_prefix key \<Longrightarrow> ?reserved" for key by (simp add: json_str_def)
  consider (reserved) "?reserved" | (listing) "\<not> ?reserved" "?name = Some ''tools/list''"
    | (call) "\<not> ?reserved" "?name = Some ''tools/call''" | (cancel) "\<not> ?reserved" "?name = Some ''notifications/cancelled''"
    | (other) "\<not> ?reserved" "?name \<noteq> Some ''tools/list''" "?name \<noteq> Some ''tools/call''" "?name \<noteq> Some ''notifications/cancelled''"
    by blast
  then show thesis
  proof cases
    case reserved
    with assms show thesis by (intro kept) (auto simp: pending_upstream_def Let_def created_effects_def same_frame_def)
  next
    case listing
    with assms show thesis using priv
      by (intro kept) (auto simp: pending_upstream_def Let_def created_effects_def same_frame_def split: if_splits)
  next
    case cancel
    with assms show thesis using host_cancelled_cases [of H P message]
      by (intro kept) (auto simp: pending_upstream_def Let_def created_effects_def split: prod.splits intro: trimmed_tended)
  next
    case other
    with assms show thesis by (intro kept) (auto simp: pending_upstream_def Let_def created_effects_def same_frame_def)
  next
    case call
    show thesis
    proof (cases "Option.bind (member_of (json_get message ''params'') ''name'') json_str = Some status_tool")
      case True
      with call assms show thesis
        using approval_status_cases [of H P ?i "member_of (json_get message ''params'') ''arguments''"]
        by (intro kept) (auto simp: pending_upstream_def Let_def created_effects_def split: prod.splits)
    next
      case False
      with call assms have "host_tool_call H P ?i message fresh now = (P', up)"
        by (simp add: pending_upstream_def Let_def)
      then show thesis
      proof (cases rule: host_tool_call_cases)
        case (refused r)
        then show thesis
          by (intro kept) (auto simp: created_effects_def same_frame_def intro: trimmed_tended)
      next
        case (started m ctx w)
        with call show thesis by (intro that(2) [of m w ctx]) (simp_all add: created_effects_def method_member json_str_Some)
      qed
    qed
  qed
qed

section \<open>What a message of the runtime changes\<close>

lemma value_eq_string [simp]: "value_eq v (CString s) \<longleftrightarrow> v = CString s"
proof (cases v)
  case (CNumber n)
  then show ?thesis by (cases n) auto
qed auto

lemma take_list_Some: "take_list i ls = Some (b, ls') \<Longrightarrow> (\<exists>x \<in> set ls. value_eq (fst x) i) \<and> (\<forall>x \<in> set ls'. x \<in> set ls)"
proof (induction ls arbitrary: ls')
  case (Cons x ls)
  then show ?case by (cases x) (fastforce split: if_splits)
qed simp

lemma downstream_cases:
  assumes "pending_downstream H P message now spawned = (P', down, job)"
    and "\<forall>x \<in> set (pd_lists P). \<forall>key. prefix private_prefix key \<longrightarrow> fst x \<noteq> CString key"
  obtains (other) "pd_entries P' = pd_entries P" "same_frame P P'" "answered_effects message down = []" "job = None"
  | (reply) key where "private_key message = Some key" "json_get message ''id'' = Some (CString key)"
      "runtime_reply H P key message now spawned = (P', down, job)"
proof (cases "private_key message")
  case None
  then have "pd_entries P' = pd_entries P \<and> same_frame P P' \<and> answered_effects message down = [] \<and> job = None"
    using assms(1) by (auto simp: pending_downstream_def private_key_def answered_effects_def same_frame_def bind_eq_Some_conv
        split: option.splits if_splits dest!: take_list_Some)
  with other show thesis by blast
next
  case (Some key)
  then have key: "json_get message ''method'' = None" "json_get message ''id'' = Some (CString key)" "prefix private_prefix key"
    by (auto simp: private_key_def bind_eq_Some_conv json_str_Some split: option.splits if_splits)
  then have "take_list (CString key) (pd_lists P) = None"
    using assms(2) take_list_Some [of "CString key" "pd_lists P"] by (cases "take_list (CString key) (pd_lists P)") auto
  with key assms(1) have "runtime_reply H P key message now spawned = (P', down, job)"
    by (simp add: pending_downstream_def json_str_def)
  with key Some reply show thesis by blast
qed

definition awaiting_entry :: "approval_entry \<Rightarrow> nat \<Rightarrow> bool \<Rightarrow> approval_entry" where
  "awaiting_entry e deadline spawned = e\<lparr>pe_context := None, pe_waiting := spawned, pe_worker_outstanding := spawned,
     pe_state := (if spawned then ''awaiting_approval'' else ''unavailable''), pe_deadline := deadline, pe_deferred := True\<rparr>"

text \<open>An entry that a runtime message can still move.\<close>

definition live_entry :: "approval_entry \<Rightarrow> bool" where
  "live_entry e \<longleftrightarrow> \<not> pe_waiting e \<and> pe_result e = None \<and> pe_state e \<noteq> ''expired'' \<and> pe_state e \<noteq> ''unavailable''"

lemma tool_result_id [simp]: "json_get (tool_result H i v b) ''id'' = Some i"
  by (simp add: tool_result_def json_get_obj)

lemma reply_cases:
  assumes "runtime_reply H P key message now spawned = (P', down, job)"
  obtains (consumed) "P' = P" "down = DownstreamConsumed" "job = None"
  | (unavailable) e where "entry_of P key = Some e" "live_entry e" "pe_deferred e"
      "P' = set_entry P key (e\<lparr>pe_state := ''unavailable''\<rparr>)" "down = DownstreamConsumed" "job = None"
  | (answered) e w where "entry_of P key = Some e" "live_entry e" "\<not> pe_deferred e"
      "P' = P\<lparr>pd_entries := bt_delete key (pd_entries P)\<rparr>" "down = DownstreamForward w" "job = None"
      "json_get message ''id'' \<noteq> None \<Longrightarrow> json_get w ''id'' = Some (pe_host_id e)"
  | (asked) e ctx where "entry_of P key = Some e" "live_entry e" "pe_context e = Some ctx"
      "P' = set_entry P key (awaiting_entry e (now + pd_timeout P) spawned)"
      "job = (if spawned then Some (key, ctx, message) else None)"
      "pe_deferred e \<Longrightarrow> down = DownstreamConsumed"
      "\<not> pe_deferred e \<Longrightarrow> \<exists>w. down = DownstreamForward w \<and> json_get w ''id'' = Some (pe_host_id e)"
  | (completed) e r where "entry_of P key = Some e" "live_entry e" "pe_deferred e"
      "P' = set_entry P key (e\<lparr>pe_state := ''completed'', pe_observed := False, pe_result := Some r, pe_context := None\<rparr>)"
      "down = DownstreamConsumed" "job = None"
proof (cases "entry_of P key")
  case None
  with assms show thesis by (intro consumed) (auto simp: runtime_reply_def)
next
  case (Some e)
  show thesis
  proof (cases "live_entry e")
    case False
    with Some assms show thesis by (intro consumed) (auto simp: runtime_reply_def live_entry_def)
  next
    case True
    then have live: "\<not> (pe_waiting e \<or> pe_result e \<noteq> None \<or> pe_state e \<in> {''expired'', ''unavailable''})"
      by (simp add: live_entry_def)
    note reply = assms [unfolded runtime_reply_def Some option.case if_not_P [OF live]]
    consider (none) "is_input_required_result message" "pe_context e = None"
      | (bad) c where "is_input_required_result message" "pe_context e = Some c" "\<not> is_ok (validate_presentation c message)"
      | (good) c where "is_input_required_result message" "pe_context e = Some c" "is_ok (validate_presentation c message)"
      | (final) "\<not> is_input_required_result message"
      by (cases "pe_context e") auto
    then show thesis
    proof cases
      case none
      with reply show thesis by (intro consumed) auto
    next
      case bad
      with reply Some True show thesis
        by (cases "pe_deferred e") (auto simp: unpresentable_def intro: that(2,3))
    next
      case good
      with reply have "await_human H P key e c message now spawned = (P', down, job)" by simp
      with Some True good(2) show thesis
        by (intro asked) (auto simp: await_human_def awaiting_entry_def Let_def)
    next
      case final
      show thesis
      proof (cases "pe_deferred e")
        case True
        with reply final Some \<open>live_entry e\<close> show thesis by (intro completed [of e "retained_outcome H message"]) simp_all
      next
        case False
        with reply final Some \<open>live_entry e\<close> show thesis
          by (intro answered [of e "with_member message ''id'' (pe_host_id e)"]) (simp_all add: json_get_with_member)
      qed
    qed
  qed
qed

section \<open>What a decision changes\<close>

lemma settle_cases:
  assumes "settle_decision now P d = (P', out)"
  obtains (gone) "entry_of P (de_id d) = None" "P' = P" "out = []"
  | (late) e where "entry_of P (de_id d) = Some e" "\<not> pe_waiting e \<or> pe_deadline e \<le> now"
      "P' = set_entry P (de_id d) (e\<lparr>pe_worker_outstanding := False\<rparr>)" "out = []"
  | (resumed) e r where "entry_of P (de_id d) = Some e" "pe_waiting e" "now < pe_deadline e" "de_resume d = Ok r" "out = [r]"
      "P' = set_entry P (de_id d) (e\<lparr>pe_worker_outstanding := False, pe_waiting := False,
         pe_context := Some (de_context d), pe_state := ''running''\<rparr>)"
  | (refused) e err where "entry_of P (de_id d) = Some e" "pe_waiting e" "now < pe_deadline e" "de_resume d = Err err" "out = []"
      "P' = set_entry P (de_id d) (e\<lparr>pe_worker_outstanding := False, pe_waiting := False, pe_state := ''unavailable'',
         pe_observed := False, pe_context := None\<rparr>)"
proof (cases "entry_of P (de_id d)")
  case None
  with assms show thesis by (intro gone) (auto simp: settle_decision_def)
next
  case (Some e)
  consider (no) "\<not> pe_waiting e \<or> pe_deadline e \<le> now" | (yes) "pe_waiting e" "now < pe_deadline e" by linarith
  then show thesis
  proof cases
    case no
    with Some assms show thesis by (intro late) (auto simp: settle_decision_def Let_def)
  next
    case yes
    show thesis
    proof (cases "de_resume d")
      case (Inl err)
      with Some yes assms show thesis by (intro refused) (auto simp: settle_decision_def Let_def)
    next
      case (Inr r)
      with Some yes assms show thesis by (intro resumed) (auto simp: settle_decision_def Let_def)
    qed
  qed
qed

lemma bt_get_map: "bt_get (map (\<lambda>(k, e). (k, f e)) m) key = map_option f (bt_get m key)"
  by (induction m) (auto simp: bt_get_def)

lemma entry_of_expire: "entry_of (expire now P) key = map_option (expire_entry now) (entry_of P key)"
  by (simp add: expire_def bt_get_map)

lemma expire_fields [simp]: "pd_limit (expire now P) = pd_limit P" "pd_timeout (expire now P) = pd_timeout P"
  "pd_rounds (expire now P) = pd_rounds P" "pd_lists (expire now P) = pd_lists P"
  by (simp_all add: expire_def)

lemma set_entry_fields [simp]: "pd_limit (set_entry P k e) = pd_limit P" "pd_timeout (set_entry P k e) = pd_timeout P"
  "pd_rounds (set_entry P k e) = pd_rounds P" "pd_lists (set_entry P k e) = pd_lists P"
  by (simp_all add: set_entry_def)

lemma entry_of_set [simp]: "entry_of (set_entry P k e) j = (if j = k then Some e else entry_of P j)"
  by (simp add: set_entry_def)

lemma same_frame_simps [simp]: "same_frame P P" "same_frame P (expire now P)" "same_frame P (set_entry P k e)"
  by (simp_all add: same_frame_def)

lemma same_frame_trans: "same_frame P Q \<Longrightarrow> same_frame Q R \<Longrightarrow> same_frame P R"
  by (auto simp: same_frame_def)

lemma settle_decision_frame: "settle_decision now P d = (P', out) \<Longrightarrow> same_frame P P'"
  by (erule settle_cases) auto

lemma settle_decisions_frame: "settle_decisions now P ds = (P', out) \<Longrightarrow> same_frame P P'"
proof (induction ds arbitrary: P out)
  case (Cons d ds)
  then show ?case by (auto split: prod.splits dest: settle_decision_frame intro: same_frame_trans)
qed simp

lemma pending_decisions_frame: "pending_decisions now P ds = (P', out) \<Longrightarrow> same_frame P P'"
  unfolding pending_decisions_def by (drule settle_decisions_frame) (rule same_frame_trans [OF same_frame_simps(2)])

section \<open>Effects by call\<close>

definition created_as :: "string \<Rightarrow> 'p approvals_effect list \<Rightarrow> (canonical_json \<times> canonical_json) list" where
  "created_as key T = concat (map (\<lambda>eff. case eff of Created k m w \<Rightarrow> if k = key then [(m, w)] else [] | _ \<Rightarrow> []) T)"

definition answers_to :: "string \<Rightarrow> 'p approvals_effect list \<Rightarrow> canonical_json list" where
  "answers_to key T = concat (map (\<lambda>eff. case eff of Answered k w \<Rightarrow> if k = key then [w] else [] | _ \<Rightarrow> []) T)"

definition asked_for :: "string \<Rightarrow> 'p approvals_effect list \<Rightarrow> (canonical_json \<times> nat) list" where
  "asked_for key T = concat (map (\<lambda>eff. case eff of Asked k m t \<Rightarrow> if k = key then [(m, t)] else [] | _ \<Rightarrow> []) T)"

definition resumed_for :: "string \<Rightarrow> 'p approvals_effect list \<Rightarrow> canonical_json list" where
  "resumed_for key T = concat (map (\<lambda>eff. case eff of
     Resumed _ r \<Rightarrow> if json_get r ''id'' = Some (CString key) then [r] else [] | _ \<Rightarrow> []) T)"

lemmas by_call = created_as_def answers_to_def asked_for_def resumed_for_def

lemma by_call_simps [simp]:
  "created_as key [] = []" "answers_to key [] = []" "asked_for key [] = []" "resumed_for key [] = []"
  "created_as key (Created k m w # T) = (if k = key then (m, w) # created_as key T else created_as key T)"
  "created_as key (Answered k w # T) = created_as key T" "created_as key (Asked k m t # T) = created_as key T"
  "created_as key (Worked k p # T) = created_as key T" "created_as key (Resumed t r # T) = created_as key T"
  "answers_to key (Answered k w # T) = (if k = key then w # answers_to key T else answers_to key T)"
  "answers_to key (Created k m w # T) = answers_to key T" "answers_to key (Asked k m t # T) = answers_to key T"
  "answers_to key (Worked k p # T) = answers_to key T" "answers_to key (Resumed t r # T) = answers_to key T"
  "asked_for key (Asked k m t # T) = (if k = key then (m, t) # asked_for key T else asked_for key T)"
  "asked_for key (Created k m w # T) = asked_for key T" "asked_for key (Answered k w # T) = asked_for key T"
  "asked_for key (Worked k p # T) = asked_for key T" "asked_for key (Resumed t r # T) = asked_for key T"
  "resumed_for key (Resumed t r # T) = (if json_get r ''id'' = Some (CString key) then r # resumed_for key T else resumed_for key T)"
  "resumed_for key (Created k m w # T) = resumed_for key T" "resumed_for key (Answered k w # T) = resumed_for key T"
  "resumed_for key (Worked k p # T) = resumed_for key T" "resumed_for key (Asked k m t # T) = resumed_for key T"
  by (simp_all add: by_call)

lemma by_call_append [simp]:
  "created_as key (T @ T') = created_as key T @ created_as key T'" "answers_to key (T @ T') = answers_to key T @ answers_to key T'"
  "asked_for key (T @ T') = asked_for key T @ asked_for key T'" "resumed_for key (T @ T') = resumed_for key T @ resumed_for key T'"
  by (simp_all add: by_call)

lemma by_call_set:
  "(m, w) \<in> set (created_as key T) \<longleftrightarrow> Created key m w \<in> set T" "w \<in> set (answers_to key T) \<longleftrightarrow> Answered key w \<in> set T"
  "(m, t) \<in> set (asked_for key T) \<longleftrightarrow> Asked key m t \<in> set T"
  by (force simp: by_call split: approvals_effect.splits if_splits)+

section \<open>Every call is answered at most once\<close>

definition open_call :: "pending_approvals \<Rightarrow> string \<Rightarrow> nat" where
  "open_call P key = (case entry_of P key of Some e \<Rightarrow> if pe_deferred e then 0 else 1 | None \<Rightarrow> 0)"

definition calls_kept :: "pending_approvals \<Rightarrow> pending_approvals \<Rightarrow> bool" where
  "calls_kept P P' \<longleftrightarrow> (\<forall>key e'. entry_of P' key = Some e' \<longrightarrow>
     (\<exists>e. entry_of P key = Some e \<and> pe_host_id e' = pe_host_id e \<and> (pe_deferred e \<longrightarrow> pe_deferred e')))"

lemma calls_kept_open: "calls_kept P P' \<Longrightarrow> open_call P' key \<le> open_call P key"
  unfolding calls_kept_def open_call_def by (cases "entry_of P' key") (auto split: option.split dest!: spec [of _ key])

lemma calls_kept_refl: "pd_entries P' = pd_entries P \<Longrightarrow> calls_kept P P'"
  by (simp add: calls_kept_def)

lemma calls_kept_trans: "calls_kept P Q \<Longrightarrow> calls_kept Q R \<Longrightarrow> calls_kept P R"
  unfolding calls_kept_def by metis

lemma calls_kept_set: "entry_of P key = Some e \<Longrightarrow> pe_host_id e' = pe_host_id e \<Longrightarrow> (pe_deferred e \<Longrightarrow> pe_deferred e') \<Longrightarrow>
    calls_kept P (set_entry P key e')"
  by (auto simp: calls_kept_def)

lemma tended_kept: "tended (pd_entries P) (pd_entries P') \<Longrightarrow> calls_kept P P'"
  by (fastforce simp: calls_kept_def dest: tended_get)

lemma settle_decisions_kept: "settle_decisions now P ds = (P', out) \<Longrightarrow> calls_kept P P'"
proof (induction ds arbitrary: P out)
  case (Cons d ds)
  obtain Q o1 where d: "settle_decision now P d = (Q, o1)" by fastforce
  then have "calls_kept P Q" by (cases rule: settle_cases) (auto intro: calls_kept_refl calls_kept_set)
  with Cons d show ?case by (auto split: prod.splits intro: calls_kept_trans)
qed (simp add: calls_kept_refl)

lemma pending_decisions_kept:
  assumes "pending_decisions now P ds = (P', out)"
  shows "calls_kept P P'"
proof -
  have "calls_kept P (expire now P)" by (auto simp: calls_kept_def entry_of_expire expire_entry_def)
  with assms settle_decisions_kept show ?thesis unfolding pending_decisions_def by (blast intro: calls_kept_trans)
qed

text \<open>What holds of the entries and the effects so far, \<open>T\<close>.\<close>

definition calls_inv :: "'p approvals_effect list \<Rightarrow> pending_approvals \<Rightarrow> bool" where
  "calls_inv T P \<longleftrightarrow>
     (\<forall>x \<in> set (pd_lists P). \<forall>key. prefix private_prefix key \<longrightarrow> fst x \<noteq> CString key) \<and>
     (\<forall>key e. entry_of P key = Some e \<longrightarrow> (\<exists>m w. Created key m w \<in> set T \<and> rpc_message_id m = pe_host_id e)) \<and>
     (\<forall>key. length (answers_to key T) + open_call P key \<le> length (created_as key T)) \<and>
     (\<forall>key w. Answered key w \<in> set T \<longrightarrow> (\<exists>m w'. Created key m w' \<in> set T \<and> json_get w ''id'' = Some (rpc_message_id m)))"

lemma calls_invD:
  assumes "calls_inv T P"
  shows "\<forall>x \<in> set (pd_lists P). \<forall>key. prefix private_prefix key \<longrightarrow> fst x \<noteq> CString key"
    and "entry_of P key = Some e \<Longrightarrow> \<exists>m w. Created key m w \<in> set T \<and> rpc_message_id m = pe_host_id e"
    and "length (answers_to key T) + open_call P key \<le> length (created_as key T)"
    and "Answered key w \<in> set T \<Longrightarrow> \<exists>m w'. Created key m w' \<in> set T \<and> json_get w ''id'' = Some (rpc_message_id m)"
  using assms by (auto simp: calls_inv_def)

lemma calls_invI:
  assumes "\<forall>x \<in> set (pd_lists P). \<forall>key. prefix private_prefix key \<longrightarrow> fst x \<noteq> CString key"
    and "\<And>key e. entry_of P key = Some e \<Longrightarrow> \<exists>m w. Created key m w \<in> set T' \<and> rpc_message_id m = pe_host_id e"
    and "\<And>key. length (answers_to key T) + open_call P key \<le> length (created_as key T)"
    and "\<And>key w. Answered key w \<in> set T \<Longrightarrow> \<exists>m w'. Created key m w' \<in> set T' \<and> json_get w ''id'' = Some (rpc_message_id m)"
    and "set T' \<subseteq> set T"
  shows "calls_inv T P"
  unfolding calls_inv_def using assms by blast

lemma calls_inv_keep:
  assumes "calls_inv T P" and "calls_kept P P'" and "same_frame P P'"
    and "\<And>key. answers_to key effs = []" and "\<And>key. created_as key effs = []" and "\<And>key w. Answered key w \<notin> set effs"
  shows "calls_inv (T @ effs) P'"
proof -
  have "length (answers_to key T) + open_call P' key \<le> length (created_as key T)" for key
    using assms(1) calls_kept_open [OF assms(2), of key] unfolding calls_inv_def by (meson add_left_mono order_trans)
  then show ?thesis
    using assms unfolding calls_inv_def calls_kept_def same_frame_def by (simp, metis)
qed

lemma calls_inv_host:
  fixes T :: "'p approvals_effect list"
  assumes "calls_inv T P" and "pending_upstream H P message fresh now = (P', up)"
  shows "calls_inv (T @ created_effects fresh message up) P'"
  using assms(2)
proof (cases rule: upstream_cases [where ?'p = 'p])
  case kept
  then show ?thesis by (intro calls_inv_keep [OF assms(1)]) (auto simp: tended_kept by_call)
next
  case (started m ctx w)
  let ?key = "private_prefix @ fresh"
  have kept: "calls_kept P (retire H P)" by (intro tended_kept trimmed_tended retire_trimmed)
  have P': "entry_of P' k = (if k = ?key then Some (new_entry P (rpc_message_id message) ctx w now) else entry_of (retire H P) k)"
    "pd_lists P' = pd_lists P" for k by (simp_all add: started(6))
  have count: "length (answers_to k T) + open_call P' k \<le> length (created_as k T) + (if k = ?key then 1 else 0)" for k
  proof (cases "k = ?key")
    case True
    with calls_invD(3) [OF assms(1), of k] show ?thesis by (simp add: open_call_def P' new_entry_def)
  next
    case False
    then have "open_call P' k = open_call (retire H P) k" by (simp add: open_call_def P')
    with False calls_invD(3) [OF assms(1), of k] calls_kept_open [OF kept, of k] show ?thesis by simp
  qed
  show ?thesis
    unfolding calls_inv_def started(5)
  proof (intro conjI allI impI)
    show "\<forall>x \<in> set (pd_lists P'). \<forall>key. prefix private_prefix key \<longrightarrow> fst x \<noteq> CString key"
      using calls_invD(1) [OF assms(1)] by (simp add: P')
    show "\<exists>m v. Created k m v \<in> set (T @ [Created ?key message w]) \<and> rpc_message_id m = pe_host_id e"
      if "entry_of P' k = Some e" for k e
    proof (cases "k = ?key")
      case True
      with that show ?thesis by (auto simp: P' new_entry_def)
    next
      case False
      with that kept obtain e' where "entry_of P k = Some e'" "pe_host_id e = pe_host_id e'"
        by (auto simp: P' calls_kept_def)
      with calls_invD(2) [OF assms(1), of k e'] show ?thesis by auto
    qed
    show "length (answers_to k (T @ [Created ?key message w])) + open_call P' k \<le> length (created_as k (T @ [Created ?key message w]))" for k
      using count [of k] by auto
    show "\<exists>m w'. Created k m w' \<in> set (T @ [Created ?key message w]) \<and> json_get v ''id'' = Some (rpc_message_id m)"
      if "Answered k v \<in> set (T @ [Created ?key message w])" for k v
      using that calls_invD(4) [OF assms(1), of k v] by auto
  qed
qed

lemma calls_inv_runtime:
  fixes T :: "'p approvals_effect list"
  assumes "calls_inv T P" and "pending_downstream H P message now spawned = (P', down, job)"
  shows "calls_inv (T @ answered_effects message down @ asked_effects now job) P'"
proof -
  let ?asked = "asked_effects now job :: 'p approvals_effect list"
  have asked: "answers_to k ?asked = []" "created_as k ?asked = []" "Answered k w \<notin> set ?asked" "Created k w w' \<notin> set ?asked"
    for k w w'
    by (cases job; auto simp: by_call asked_effects_def)+
  have lists: "\<forall>x \<in> set (pd_lists P). \<forall>key. prefix private_prefix key \<longrightarrow> fst x \<noteq> CString key"
    using assms(1) by (simp add: calls_inv_def)
  show ?thesis
    using assms(2) lists
  proof (cases rule: downstream_cases [where ?'a = 'p])
    case other
    then show ?thesis using asked by (intro calls_inv_keep [OF assms(1)]) (simp_all add: calls_kept_refl)
  next
    case (reply key)
    have silent: "answered_effects message DownstreamConsumed = ([] :: 'p approvals_effect list)" by (simp add: answered_effects_def split: option.split)
    have answer: "calls_inv (T @ [Answered key w] @ asked_effects now job) P'"
      if "entry_of P key = Some e" "\<not> pe_deferred e" "calls_kept P P'" "same_frame P P'" "open_call P' key = 0"
        "json_get w ''id'' = Some (pe_host_id e)" for e w
    proof -
      have one: "length (answers_to k T) + (if k = key then 1 else 0) + open_call P' k \<le> length (created_as k T)" for k
        using assms(1) calls_kept_open [OF that(3), of k] that(1,2,5)
        by (auto simp: calls_inv_def open_call_def intro: order_trans dest!: spec [of _ k])
      have count: "length (answers_to k (T @ [Answered key w] @ ?asked)) + open_call P' k
          \<le> length (created_as k (T @ [Answered key w] @ ?asked))" for k
        using one [of k] by (auto simp: asked)
      from assms(1) that(1) obtain m w' where "Created key m w' \<in> set T" "rpc_message_id m = pe_host_id e"
        unfolding calls_inv_def by blast
      with assms(1) that(6) have answers: "\<exists>m w'. Created k m w' \<in> set T \<and> json_get v ''id'' = Some (rpc_message_id m)"
        if "Answered k v \<in> set (T @ [Answered key w] @ ?asked)" for k v
        using that unfolding calls_inv_def by (auto simp: asked)
      have entries: "\<exists>m w. Created k m w \<in> set T \<and> rpc_message_id m = pe_host_id e'" if "entry_of P' k = Some e'" for k e'
        using assms(1) \<open>calls_kept P P'\<close> that unfolding calls_inv_def calls_kept_def by metis
      have "\<forall>x \<in> set (pd_lists P'). \<forall>key. prefix private_prefix key \<longrightarrow> fst x \<noteq> CString key"
        using lists \<open>same_frame P P'\<close> by (simp add: same_frame_def)
      then show ?thesis by (rule calls_invI [where T' = T]) (use entries count answers in auto)
    qed
    have quiet: "calls_inv (T @ answered_effects message DownstreamConsumed @ ?asked) P'" if "calls_kept P P'" "same_frame P P'"
      using that asked silent by (intro calls_inv_keep [OF assms(1)]) simp_all
    have loud: "answered_effects message (DownstreamForward w) = ([Answered key w] :: 'p approvals_effect list)" for w
      using reply(1) by (simp add: answered_effects_def)
    from reply(3) show ?thesis
    proof (cases rule: reply_cases)
      case consumed
      then show ?thesis using quiet by (simp add: calls_kept_refl)
    next
      case (unavailable e)
      then show ?thesis using quiet by (simp add: calls_kept_set)
    next
      case (answered e w)
      then show ?thesis
        using answer [of e w] reply(2) by (auto simp: loud calls_kept_def same_frame_def open_call_def bt_get_delete)
    next
      case (asked e ctx)
      have kept: "calls_kept P P'" "same_frame P P'" "open_call P' key = 0"
        using asked by (auto simp: awaiting_entry_def open_call_def intro: calls_kept_set)
      show ?thesis
      proof (cases "pe_deferred e")
        case True
        with asked(6) kept quiet show ?thesis by simp
      next
        case False
        with asked(7) answer [OF asked(1) False kept] show ?thesis by (auto simp: loud)
      qed
    next
      case (completed e r)
      then show ?thesis using quiet by (simp add: calls_kept_set)
    qed
  qed
qed

lemma calls_inv_step:
  fixes T :: "'p approvals_effect list"
  assumes "calls_inv T (pm_pending S)" and "approvals_step present H S ev = (S', effs)"
  shows "calls_inv (T @ effs) (pm_pending S')"
proof (cases ev)
  case (HostSends message fresh now)
  with assms show ?thesis by (auto split: prod.splits intro: calls_inv_host)
next
  case (RuntimeSends message now spawned)
  with assms show ?thesis by (auto split: prod.splits intro: calls_inv_runtime)
next
  case (WorkerEnds n p)
  have "calls_inv (T @ [Worked k q]) (pm_pending S)" for k and q :: 'p
    by (rule calls_inv_keep [OF assms(1)]) (simp_all add: calls_kept_refl)
  moreover have "calls_inv (T @ []) (pm_pending S)" using assms(1) by simp
  ultimately show ?thesis using assms(2) WorkerEnds by (auto split: prod.splits if_splits)
next
  case (Tick now)
  obtain P' rs where tick: "pending_decisions now (pm_pending S) (pm_channel S) = (P', rs)" by fastforce
  have "answers_to k (map (Resumed now) rs :: 'p approvals_effect list) = []" "created_as k (map (Resumed now) rs :: 'p approvals_effect list) = []"
    for k by (induction rs) simp_all
  then have "calls_inv (T @ map (Resumed now) rs) P'"
    using pending_decisions_kept [OF tick] pending_decisions_frame [OF tick]
    by (intro calls_inv_keep [OF assms(1)]) auto
  with assms(2) Tick tick show ?thesis by auto
qed

lemma calls_inv_run:
  fixes T :: "'p approvals_effect list"
  assumes "calls_inv T (pm_pending S)" and "approvals_run present H S evs = (S', effs)"
  shows "calls_inv (T @ effs) (pm_pending S')"
  using assms
proof (induction evs arbitrary: S T effs)
  case (Cons ev evs)
  obtain S1 e1 where ev: "approvals_step present H S ev = (S1, e1)" by fastforce
  obtain e2 where rest: "approvals_run present H S1 evs = (S', e2)" "effs = e1 @ e2"
    using Cons.prems(2) by (auto simp: ev split: prod.splits)
  from Cons.IH [OF calls_inv_step [OF Cons.prems(1) ev] rest(1)] show ?case by (simp add: rest(2))
qed simp

lemma calls_inv_start: "calls_inv [] (pm_pending (approvals_start g l r t))"
  by (simp add: calls_inv_def approvals_start_def pending_new_def open_call_def)

section \<open>A call is created once\<close>

lemma created_by_step:
  fixes effs :: "'p approvals_effect list"
  assumes "approvals_step present H S ev = (S', effs)"
  shows "length (created_as key effs) \<le> count_list (map ((@) private_prefix) (fresh_of ev)) key"
    and "Created key m w \<in> set effs \<Longrightarrow> forwards m key w"
proof -
  have "length (created_as key effs) \<le> count_list (map ((@) private_prefix) (fresh_of ev)) key \<and>
    (Created key m w \<in> set effs \<longrightarrow> forwards m key w)"
  proof (cases ev)
    case (HostSends message fresh now)
    with assms obtain P' up where up: "pending_upstream H (pm_pending S) message fresh now = (P', up)"
      and effs: "effs = created_effects fresh message up" by (auto split: prod.splits)
    from up show ?thesis
    proof (cases rule: upstream_cases [where ?'p = 'p])
      case kept
      then show ?thesis by (simp add: effs)
    next
      case (started a ctx v)
      from started(1) obtain params meta where a: "json_get message ''params'' = Some (CObject params)"
        "a = with_member message ''params'' (CObject (bt_insert ''_meta'' meta params))" by (rule announced_call_Ok)
      then obtain members where "message = CObject members" by (cases message) (simp_all add: json_get_def)
      then have "forwards message (private_prefix @ fresh) v"
        using started(4) a(1) by (simp add: forwards_def started(2) a(2) with_member_def json_get_def)
      then show ?thesis by (simp add: effs started(5) HostSends)
    qed
  next
    case (RuntimeSends message now spawned)
    then show ?thesis using assms
      by (auto simp: answered_effects_def asked_effects_def split: prod.splits option.splits downstream.splits)
  next
    case (WorkerEnds n p)
    then show ?thesis using assms by (auto split: prod.splits if_splits)
  next
    case (Tick now)
    have "created_as key (map (Resumed now) rs :: 'p approvals_effect list) = []" for rs by (induction rs) simp_all
    with Tick assms show ?thesis by (auto split: prod.splits)
  qed
  then show "length (created_as key effs) \<le> count_list (map ((@) private_prefix) (fresh_of ev)) key"
    and "Created key m w \<in> set effs \<Longrightarrow> forwards m key w" by simp_all
qed

definition fresh_ids :: "'p approvals_event list \<Rightarrow> string list" where
  "fresh_ids evs = concat (map fresh_of evs)"

lemma created_by_run:
  assumes "approvals_run present H S evs = (S', effs)"
  shows "length (created_as key effs) \<le> count_list (map ((@) private_prefix) (fresh_ids evs)) key"
    and "Created key m w \<in> set effs \<Longrightarrow> forwards m key w"
proof -
  have "length (created_as key effs) \<le> count_list (map ((@) private_prefix) (fresh_ids evs)) key \<and>
    (Created key m w \<in> set effs \<longrightarrow> forwards m key w)"
    using assms
  proof (induction evs arbitrary: S effs)
    case (Cons ev evs)
    obtain S1 e1 where ev: "approvals_step present H S ev = (S1, e1)" by fastforce
    obtain e2 where rest: "approvals_run present H S1 evs = (S', e2)" "effs = e1 @ e2"
      using Cons.prems by (auto simp: ev split: prod.splits)
    from Cons.IH [OF rest(1)] created_by_step [OF ev, of key] created_by_step(2) [OF ev, of key m w] show ?case
      by (auto simp: rest(2) fresh_ids_def)
  qed simp
  then show "length (created_as key effs) \<le> count_list (map ((@) private_prefix) (fresh_ids evs)) key"
    and "Created key m w \<in> set effs \<Longrightarrow> forwards m key w" by simp_all
qed

lemma distinct_count_list: "distinct xs \<Longrightarrow> count_list xs x \<le> 1"
  by (induction xs) auto

lemma created_once:
  assumes "approvals_run present H S evs = (S', effs)" and "distinct (fresh_ids evs)"
  shows "length (created_as key effs) \<le> 1"
proof -
  have "count_list (map ((@) private_prefix) (fresh_ids evs)) key \<le> 1"
    using assms(2) by (intro distinct_count_list) (simp add: distinct_map inj_on_def)
  with created_by_run(1) [OF assms(1), of key] show ?thesis by simp
qed

end
