(* ===== verification/Mcp_Workers.thy ===== *)
theory Mcp_Workers
  imports Mcp_Approvals
begin

text \<open>
  The workers that present approvals: what a decision on its way back belongs to, that it comes back once and in
  time, and that there are never more workers than calls.
\<close>

section \<open>The invariant\<close>

text \<open>A context tracks the call that was created under the key.\<close>

definition tracked :: "'p approvals_effect list \<Rightarrow> string \<Rightarrow> native_mrtr \<Rightarrow> bool" where
  "tracked T key c \<longleftrightarrow> (\<exists>m w. Created key m w \<in> set T \<and> forwards m key w \<and> calls_from {w} c)"

definition entry_inv :: "'p approvals_effect list \<Rightarrow> string \<Rightarrow> approval_entry \<Rightarrow> bool" where
  "entry_inv T key e \<longleftrightarrow> (\<exists>m w. Created key m w \<in> set T) \<and>
     (\<forall>c. pe_context e = Some c \<longrightarrow> tracked T key c \<and> \<not> pe_worker_outstanding e) \<and>
     (pe_waiting e \<longrightarrow> pe_worker_outstanding e) \<and>
     (pe_worker_outstanding e \<longrightarrow> pe_deferred e \<and> pe_context e = None \<and> (pe_waiting e \<or> pe_state e = ''expired''))"

definition entries_inv :: "'p approvals_effect list \<Rightarrow> pending_approvals \<Rightarrow> bool" where
  "entries_inv T P \<longleftrightarrow> (\<forall>key e. entry_of P key = Some e \<longrightarrow> entry_inv T key e)"

lemma entry_inv_observed [simp]: "entry_inv T key (e\<lparr>pe_observed := b\<rparr>) = entry_inv T key e"
  by (simp add: entry_inv_def)

text \<open>Work for a key was asked for, and while its entry waits, it waits for that work until the deadline.\<close>

definition work_inv :: "nat \<Rightarrow> 'p approvals_effect list \<Rightarrow> pending_approvals \<Rightarrow> string \<Rightarrow> canonical_json \<Rightarrow> bool" where
  "work_inv timeout T P key m \<longleftrightarrow> (\<exists>hm w. Created key hm w \<in> set T) \<and> (\<exists>t. Asked key m t \<in> set T \<and>
     (\<forall>e. entry_of P key = Some e \<longrightarrow> pe_worker_outstanding e \<and> (pe_waiting e \<longrightarrow> pe_deadline e = t + timeout)))"

definition decided_by :: "'p presenter \<Rightarrow> ('p \<Rightarrow> bool) \<Rightarrow> 'p approvals_effect list \<Rightarrow> native_mrtr \<Rightarrow> canonical_json
    \<Rightarrow> approval_decision \<Rightarrow> bool" where
  "decided_by present start T ctx m d \<longleftrightarrow> (\<exists>p p'. start p \<and> decide present ctx m p = ((de_context d, de_resume d), p') \<and>
     Worked (de_id d) p' \<in> set T)"

definition jobs_inv :: "nat \<Rightarrow> 'p approvals_effect list \<Rightarrow> pending_approvals \<Rightarrow> approval_job list \<Rightarrow> bool" where
  "jobs_inv timeout T P js \<longleftrightarrow> (\<forall>(key, ctx, m) \<in> set js. tracked T key ctx \<and> work_inv timeout T P key m)"

definition channel_inv :: "'p presenter \<Rightarrow> ('p \<Rightarrow> bool) \<Rightarrow> nat \<Rightarrow> 'p approvals_effect list \<Rightarrow> pending_approvals
    \<Rightarrow> approval_decision list \<Rightarrow> bool" where
  "channel_inv present start timeout T P ds \<longleftrightarrow> (\<forall>d \<in> set ds. \<exists>ctx m. tracked T (de_id d) ctx \<and>
     decided_by present start T ctx m d \<and> work_inv timeout T P (de_id d) m)"

text \<open>A resumed call was decided in time, for a message that asked, and repeats the call.\<close>

definition timely :: "'p presenter \<Rightarrow> ('p \<Rightarrow> bool) \<Rightarrow> nat \<Rightarrow> 'p approvals_effect list \<Rightarrow> nat \<Rightarrow> canonical_json \<Rightarrow> bool" where
  "timely present start timeout T now r \<longleftrightarrow> (\<exists>key hm w m t ctx p ctx' p'.
     Created key hm w \<in> set T \<and> forwards hm key w \<and> Asked key m t \<in> set T \<and> now < t + timeout \<and>
     calls_from {w} ctx \<and> start p \<and> decide present ctx m p = ((ctx', Ok r), p') \<and> Worked key p' \<in> set T \<and>
     json_get r ''id'' = Some (CString key) \<and> repeats w m r)"

definition keys_of :: "approval_job list \<Rightarrow> approval_decision list \<Rightarrow> string list" where
  "keys_of js ds = map fst js @ map de_id ds"

definition workers_inv :: "'p presenter \<Rightarrow> ('p \<Rightarrow> bool) \<Rightarrow> nat \<Rightarrow> 'p approvals_effect list \<Rightarrow> pending_approvals
    \<Rightarrow> approval_job list \<Rightarrow> approval_decision list \<Rightarrow> bool" where
  "workers_inv present start timeout T P js ds \<longleftrightarrow>
     pd_timeout P = timeout \<and> entries_inv T P \<and> jobs_inv timeout T P js \<and> channel_inv present start timeout T P ds \<and>
     distinct (keys_of js ds) \<and>
     (\<forall>key. length (resumed_for key T) + count_list (keys_of js ds) key \<le> length (asked_for key T)) \<and>
     (\<forall>now r. Resumed now r \<in> set T \<longrightarrow> timely present start timeout T now r)"

lemmas workers_defs = entries_inv_def jobs_inv_def channel_inv_def work_inv_def tracked_def decided_by_def

text \<open>More effects keep everything.\<close>

lemma tracked_mono: "tracked T key c \<Longrightarrow> set T \<subseteq> set T' \<Longrightarrow> tracked T' key c"
  by (auto simp: tracked_def)

lemma entries_inv_mono: "entries_inv T P \<Longrightarrow> set T \<subseteq> set T' \<Longrightarrow> entries_inv T' P"
  unfolding entries_inv_def entry_inv_def by (meson subsetD tracked_mono)

lemma work_inv_mono: "work_inv timeout T P key m \<Longrightarrow> set T \<subseteq> set T' \<Longrightarrow> work_inv timeout T' P key m"
  unfolding work_inv_def by (meson subsetD)

lemma decided_by_mono: "decided_by present start T ctx m d \<Longrightarrow> set T \<subseteq> set T' \<Longrightarrow> decided_by present start T' ctx m d"
  unfolding decided_by_def by (meson subsetD)

lemma jobs_inv_mono: "jobs_inv timeout T P js \<Longrightarrow> set T \<subseteq> set T' \<Longrightarrow> jobs_inv timeout T' P js"
  unfolding jobs_inv_def by (auto intro: tracked_mono work_inv_mono)

lemma channel_inv_mono: "channel_inv present start timeout T P ds \<Longrightarrow> set T \<subseteq> set T' \<Longrightarrow>
    channel_inv present start timeout T' P ds"
  unfolding channel_inv_def by (meson tracked_mono work_inv_mono decided_by_mono)

lemma timely_mono: "timely present start timeout T now r \<Longrightarrow> set T \<subseteq> set T' \<Longrightarrow> timely present start timeout T' now r"
  unfolding timely_def by (meson subsetD)

section \<open>A decision of a worker\<close>

lemma decide_resumes:
  assumes "decide present ctx m p = ((ctx', res), p')" and "tracked T key ctx"
  shows "tracked T key ctx'"
    and "res = Ok r \<Longrightarrow> \<exists>hm w. Created key hm w \<in> set T \<and> forwards hm key w \<and> calls_from {w} ctx \<and>
      json_get r ''id'' = Some (CString key) \<and> repeats w m r"
proof -
  from assms(2) obtain hm w where w: "Created key hm w \<in> set T" "forwards hm key w" "calls_from {w} ctx"
    by (auto simp: tracked_def)
  have step: "mrtr_step present (ctx, p) (SessDecide m) = ((ctx', p'), resumed m res)" by (simp add: assms(1))
  have "calls_from {w} ctx'" using mrtr_step_calls_from(1) [OF w(3) step] by (simp add: recorded_def)
  with w show "tracked T key ctx'" by (auto simp: tracked_def)
  show "\<exists>hm w. Created key hm w \<in> set T \<and> forwards hm key w \<and> calls_from {w} ctx \<and>
      json_get r ''id'' = Some (CString key) \<and> repeats w m r" if "res = Ok r"
  proof -
    from mrtr_step_calls_from(2) [OF w(3) step, of m r] that have "repeats w m r" by (auto simp: resumed_def)
    moreover have "json_get r ''id'' = Some (CString key)"
      using calculation w(2) by (simp add: repeats_def forwards_def)
    ultimately show ?thesis using w by blast
  qed
qed

section \<open>Entries that a step may leave\<close>

text \<open>\<open>P'\<close> keeps what other work relies on: an entry of a key with a worker stays as it is, or goes.\<close>

definition others_kept :: "string set \<Rightarrow> pending_approvals \<Rightarrow> pending_approvals \<Rightarrow> bool" where
  "others_kept K P P' \<longleftrightarrow> (\<forall>key \<in> K. \<forall>e'. entry_of P' key = Some e' \<longrightarrow> (\<exists>e. entry_of P key = Some e \<and>
     pe_worker_outstanding e' = pe_worker_outstanding e \<and> (pe_waiting e' \<longrightarrow> pe_waiting e \<and> pe_deadline e' = pe_deadline e)))"

lemma work_inv_kept:
  "work_inv timeout T P key m \<Longrightarrow> others_kept K P P' \<Longrightarrow> key \<in> K \<Longrightarrow> work_inv timeout T P' key m"
  unfolding work_inv_def others_kept_def by metis

lemma jobs_inv_kept:
  assumes "jobs_inv timeout T P js" and "others_kept K P P'" and "fst ` set js \<subseteq> K"
  shows "jobs_inv timeout T P' js"
  unfolding jobs_inv_def
proof (clarify)
  fix key ctx m
  assume j: "(key, ctx, m) \<in> set js"
  then have "key \<in> K" using assms(3) by force
  with j assms(1,2) show "tracked T key ctx \<and> work_inv timeout T P' key m"
    by (auto simp: jobs_inv_def intro: work_inv_kept)
qed

lemma channel_inv_kept:
  assumes "channel_inv present start timeout T P ds" and "others_kept K P P'" and "de_id ` set ds \<subseteq> K"
  shows "channel_inv present start timeout T P' ds"
  unfolding channel_inv_def
proof
  fix d
  assume "d \<in> set ds"
  with assms(1) obtain ctx m where "tracked T (de_id d) ctx" "decided_by present start T ctx m d" "work_inv timeout T P (de_id d) m"
    unfolding channel_inv_def by blast
  moreover have "de_id d \<in> K" using \<open>d \<in> set ds\<close> assms(3) by auto
  ultimately show "\<exists>ctx m. tracked T (de_id d) ctx \<and> decided_by present start T ctx m d \<and> work_inv timeout T P' (de_id d) m"
    using work_inv_kept [OF _ assms(2)] by blast
qed

lemma others_kept_refl [simp]: "pd_entries P' = pd_entries P \<Longrightarrow> others_kept K P P'"
  by (simp add: others_kept_def)

lemma others_kept_set: "key \<notin> K \<Longrightarrow> others_kept K P (set_entry P key e)"
  by (auto simp: others_kept_def)

lemma set_keys_of: "set (keys_of js ds) = fst ` set js \<union> de_id ` set ds"
  by (simp add: keys_of_def)

text \<open>The step rule: more effects, kept work, and entries that satisfy the invariant again.\<close>

lemma workers_inv_step:
  assumes "workers_inv present start timeout T P js ds"
    and "entries_inv (T @ effs) P'" and "others_kept (set (keys_of js ds)) P P'" and "pd_timeout P' = pd_timeout P"
    and "\<And>key. resumed_for key effs = []" and "\<And>now r. Resumed now r \<notin> set effs"
  shows "workers_inv present start timeout (T @ effs) P' js ds"
proof -
  have sub: "set T \<subseteq> set (T @ effs)" by simp
  have inv: "jobs_inv timeout T P js" "channel_inv present start timeout T P ds" using assms(1) by (simp_all add: workers_inv_def)
  have "jobs_inv timeout (T @ effs) P' js"
    by (rule jobs_inv_mono [OF jobs_inv_kept [OF inv(1) assms(3)] sub]) (simp add: set_keys_of)
  moreover have "channel_inv present start timeout (T @ effs) P' ds"
    by (rule channel_inv_mono [OF channel_inv_kept [OF inv(2) assms(3)] sub]) (simp add: set_keys_of)
  moreover have "length (resumed_for key (T @ effs)) + count_list (keys_of js ds) key \<le> length (asked_for key (T @ effs))" for key
    using assms(1,5) unfolding workers_inv_def by (simp add: trans_le_add1)
  moreover have "timely present start timeout (T @ effs) now r" if "Resumed now r \<in> set (T @ effs)" for now r
  proof (rule timely_mono [OF _ sub])
    show "timely present start timeout T now r" using that assms(1,6) by (auto simp: workers_inv_def)
  qed
  ultimately show ?thesis using assms(1,2,4) unfolding workers_inv_def by simp
qed

section \<open>Messages of the host and of the runtime\<close>

lemma entries_invD: "entries_inv T P \<Longrightarrow> entry_of P key = Some e \<Longrightarrow> entry_inv T key e"
  by (simp add: entries_inv_def)

lemma entries_inv_tended: "entries_inv T P \<Longrightarrow> tended (pd_entries P) (pd_entries P') \<Longrightarrow> entries_inv T P'"
  unfolding entries_inv_def by (metis entry_inv_observed tended_get)

lemma others_kept_tended:
  assumes "tended (pd_entries P) (pd_entries P')"
  shows "others_kept K P P'"
  unfolding others_kept_def
proof (intro ballI allI impI)
  fix key e'
  assume "entry_of P' key = Some e'"
  with tended_get [OF assms] obtain e where "entry_of P key = Some e" "e' = e \<or> e' = e\<lparr>pe_observed := True\<rparr>" by blast
  then show "\<exists>e. entry_of P key = Some e \<and> pe_worker_outstanding e' = pe_worker_outstanding e \<and>
      (pe_waiting e' \<longrightarrow> pe_waiting e \<and> pe_deadline e' = pe_deadline e)" by auto
qed

lemma entries_inv_set: "entries_inv T P \<Longrightarrow> entry_inv T key e \<Longrightarrow> entries_inv T (set_entry P key e)"
  by (simp add: entries_inv_def)

text \<open>A key that was never created has no entry and no work.\<close>

lemma fresh_has_no_work:
  assumes "workers_inv present start timeout T P js ds" and "created_as key T = []"
  shows "key \<notin> set (keys_of js ds)"
proof
  assume "key \<in> set (keys_of js ds)"
  then have "\<exists>m w. Created key m w \<in> set T"
    using assms(1) unfolding workers_inv_def jobs_inv_def channel_inv_def work_inv_def set_keys_of by fastforce
  then show False using assms(2) by_call_set(1) [of _ _ key T] by auto
qed

lemma workers_host:
  fixes T :: "'p approvals_effect list"
  assumes "workers_inv present start timeout T P js ds" and "pending_upstream H P message fresh now = (P', up)"
    and "created_as (private_prefix @ fresh) T = []"
  shows "workers_inv present start timeout (T @ created_effects fresh message up) P' js ds"
  using assms(2)
proof (cases rule: upstream_cases [where ?'p = 'p])
  case kept
  have "entries_inv T P'" using assms(1) kept(1) unfolding workers_inv_def by (blast intro: entries_inv_tended)
  then have "entries_inv (T @ created_effects fresh message up) P'" by (rule entries_inv_mono) simp
  then show ?thesis
    by (rule workers_inv_step [OF assms(1)]) (use kept in \<open>simp_all add: others_kept_tended same_frame_def\<close>)
next
  case (started m ctx w)
  let ?key = "private_prefix @ fresh" and ?e = "new_entry P (rpc_message_id message) ctx w now"
  let ?T = "T @ [Created (private_prefix @ fresh) message w]"
  obtain S' where "approvals_step present H \<lparr>pm_pending = P, pm_jobs = js, pm_channel = ds\<rparr> (HostSends message fresh now) =
      (S', [Created ?key message w])"
    using assms(2) started(5) by auto
  then have fwd: "forwards message ?key w" using created_by_step(2) by fastforce
  have "calls_from {w} ctx" unfolding started(3) using calls_from_record [of "{}"] by simp
  with fwd have "tracked ?T ?key ctx" by (auto simp: tracked_def)
  then have new: "entry_inv ?T ?key ?e" by (auto simp: entry_inv_def new_entry_def)
  have "entries_inv T (retire H P)"
    using assms(1) entries_inv_tended [OF _ trimmed_tended [OF retire_trimmed]] by (auto simp: workers_inv_def)
  then have "entries_inv ?T (retire H P)" by (rule entries_inv_mono) auto
  from entries_inv_set [OF this new] have "entries_inv ?T P'" by (simp add: started(6))
  moreover have "others_kept (set (keys_of js ds)) P P'"
  proof -
    have "?key \<notin> set (keys_of js ds)" by (rule fresh_has_no_work [OF assms(1,3)])
    then have "others_kept (set (keys_of js ds)) (retire H P) P'" by (simp add: started(6) others_kept_set)
    moreover have "others_kept (set (keys_of js ds)) P (retire H P)" by (intro others_kept_tended trimmed_tended retire_trimmed)
    ultimately show ?thesis unfolding others_kept_def by metis
  qed
  ultimately show ?thesis
    unfolding started(5) by (rule workers_inv_step [OF assms(1)]) (simp_all add: started(6))
qed

lemma no_resumes [simp]:
  "resumed_for key (answered_effects message down) = []" "Resumed now r \<notin> set (answered_effects message down)"
  "resumed_for key (asked_effects t job) = []" "Resumed now r \<notin> set (asked_effects t job)"
  by (auto simp: answered_effects_def asked_effects_def split: option.split downstream.split prod.split)

lemma workers_runtime:
  fixes T :: "'p approvals_effect list"
  assumes "workers_inv present start timeout T P js ds" and "calls_inv T P"
    and "pending_downstream H P message now spawned = (P', down, job)"
  shows "workers_inv present start timeout (T @ answered_effects message down @ asked_effects now job) P'
    (js @ (case job of None \<Rightarrow> [] | Some j \<Rightarrow> [j])) ds"
  using assms(3) calls_invD(1) [OF assms(2)]
proof (cases rule: downstream_cases [where ?'a = 'p])
  case other
  have "entries_inv T P'" using assms(1) other(1) by (simp add: workers_inv_def entries_inv_def)
  then have "entries_inv (T @ answered_effects message down) P'" by (rule entries_inv_mono) simp
  then have "workers_inv present start timeout (T @ answered_effects message down) P' js ds"
    by (rule workers_inv_step [OF assms(1)]) (use other(1,2) in \<open>simp_all add: same_frame_def\<close>)
  then show ?thesis by (simp add: other(4) asked_effects_def)
next
  case (reply key)
  let ?A = "answered_effects message down :: 'p approvals_effect list"
  have entry: "entry_inv T key e" if "entry_of P key = Some e" for e
    using assms(1) that by (auto simp: workers_inv_def entries_inv_def)
  have idle: "key \<notin> set (keys_of js ds)" if "entry_of P key = Some e" "live_entry e" for e
  proof
    assume "key \<in> set (keys_of js ds)"
    then have "pe_worker_outstanding e"
      using assms(1) that(1) unfolding workers_inv_def jobs_inv_def channel_inv_def work_inv_def set_keys_of by fastforce
    with entry [OF that(1)] that(2) show False by (auto simp: entry_inv_def live_entry_def)
  qed
  have silent: "workers_inv present start timeout (T @ ?A @ asked_effects now job) P' (js @ (case job of None \<Rightarrow> [] | Some j \<Rightarrow> [j])) ds"
    if "entries_inv T P'" "others_kept (set (keys_of js ds)) P P'" "pd_timeout P' = pd_timeout P" "job = None"
  proof -
    have "entries_inv (T @ ?A) P'" using that(1) by (rule entries_inv_mono) simp
    from workers_inv_step [OF assms(1) this that(2,3)] that(4) show ?thesis by (simp add: asked_effects_def)
  qed
  have key: "key \<notin> set (keys_of js ds)" if "entry_of P key = Some e" "live_entry e" "P' = set_entry P key e'" for e e'
    using idle that by blast
  have set_silent: "workers_inv present start timeout (T @ ?A @ asked_effects now job) P' (js @ (case job of None \<Rightarrow> [] | Some j \<Rightarrow> [j])) ds"
    if "entry_of P key = Some e" "live_entry e" "P' = set_entry P key e'" "entry_inv T key e'" "job = None" for e e'
    using that idle assms(1)
    by (intro silent) (auto simp: workers_inv_def intro: entries_inv_set others_kept_set)
  from reply(3) show ?thesis
  proof (cases rule: reply_cases)
    case consumed
    then show ?thesis using assms(1) by (intro silent) (simp_all add: workers_inv_def)
  next
    case (unavailable e)
    have "entry_inv T key (e\<lparr>pe_state := ''unavailable''\<rparr>)"
      using entry [OF unavailable(1)] unavailable(2) by (auto simp: entry_inv_def live_entry_def)
    from set_silent [OF unavailable(1,2,4) this unavailable(6)] show ?thesis .
  next
    case (answered e w)
    have "tended (pd_entries P) (pd_entries P')" by (auto simp: answered(4) tended_def trimmed_def)
    moreover have "entries_inv T P" using assms(1) by (simp add: workers_inv_def)
    then have "entries_inv T P'" by (rule entries_inv_tended) (rule calculation)
    ultimately show ?thesis using answered(4,6) others_kept_tended by (intro silent) auto
  next
    case (completed e r)
    have "entry_inv T key (e\<lparr>pe_state := ''completed'', pe_observed := False, pe_result := Some r, pe_context := None\<rparr>)"
      using entry [OF completed(1)] completed(2) by (auto simp: entry_inv_def live_entry_def)
    from set_silent [OF completed(1,2,4) this completed(6)] show ?thesis .
  next
    case (asked e ctx)
    let ?e = "awaiting_entry e (now + pd_timeout P) spawned"
    from entry [OF asked(1)] asked(3) have track: "tracked T key ctx" and created: "\<exists>m w. Created key m w \<in> set T"
      by (auto simp: entry_inv_def)
    show ?thesis
    proof (cases spawned)
      case False
      have "entry_inv T key ?e" using created False by (simp add: entry_inv_def awaiting_entry_def)
      from set_silent [OF asked(1,2,4) this] asked(5) False show ?thesis by simp
    next
      case True
      let ?T = "T @ ?A @ [Asked key message now]"
      have sub: "set T \<subseteq> set ?T" by auto
      have inv: "pd_timeout P = timeout" "jobs_inv timeout T P js" "channel_inv present start timeout T P ds" "distinct (keys_of js ds)"
        "length (resumed_for k T) + count_list (keys_of js ds) k \<le> length (asked_for k T)"
        "Resumed t r \<in> set T \<Longrightarrow> timely present start timeout T t r" for k t r
        using assms(1) by (simp_all add: workers_inv_def)
      have "entry_inv T key ?e" using created True by (simp add: entry_inv_def awaiting_entry_def)
      then have "entries_inv T P'" using assms(1) asked(4) by (auto simp: workers_inv_def intro: entries_inv_set)
      then have entries: "entries_inv ?T P'" by (rule entries_inv_mono) auto
      have kept: "others_kept (set (keys_of js ds)) P P'" using idle [OF asked(1,2)] by (simp add: asked(4) others_kept_set)
      have jobs: "jobs_inv timeout ?T P' js"
        by (rule jobs_inv_mono [OF jobs_inv_kept [OF inv(2) kept] sub]) (simp add: set_keys_of)
      have channel: "channel_inv present start timeout ?T P' ds"
        by (rule channel_inv_mono [OF channel_inv_kept [OF inv(3) kept] sub]) (simp add: set_keys_of)
      have "work_inv timeout ?T P' key message"
        using created by (auto simp: work_inv_def asked(4) awaiting_entry_def True inv(1))
      with jobs tracked_mono [OF track sub] have "jobs_inv timeout ?T P' (js @ [(key, ctx, message)])"
        by (auto simp: jobs_inv_def)
      moreover have "distinct (keys_of (js @ [(key, ctx, message)]) ds)"
        using inv(4) idle [OF asked(1,2)] by (auto simp: keys_of_def)
      moreover have "length (resumed_for k ?T) + count_list (keys_of (js @ [(key, ctx, message)]) ds) k \<le> length (asked_for k ?T)" for k
        using inv(5) [of k] by (auto simp: keys_of_def)
      moreover have "timely present start timeout ?T t r" if "Resumed t r \<in> set ?T" for t r
        by (rule timely_mono [OF inv(6) sub]) (use that in auto)
      ultimately have "workers_inv present start timeout ?T P' (js @ [(key, ctx, message)]) ds"
        using entries channel asked(4) inv(1) by (simp add: workers_inv_def)
      then show ?thesis by (simp add: asked(5) True asked_effects_def)
    qed
  qed
qed

section \<open>Workers that end\<close>

lemma workers_end:
  fixes T :: "'p approvals_effect list"
  assumes "workers_inv present start timeout T P js ds" and "n < length js" and "js ! n = (key, ctx, m)" and "start p"
    and "decide present ctx m p = ((ctx', res), p')"
  shows "workers_inv present start timeout (T @ [Worked key p']) P (take n js @ drop (Suc n) js)
    (ds @ [\<lparr>de_id = key, de_context = ctx', de_resume = res\<rparr>])"
proof -
  let ?T = "T @ [Worked key p']" and ?js = "take n js @ drop (Suc n) js" and ?d = "\<lparr>de_id = key, de_context = ctx', de_resume = res\<rparr>"
  have js: "js = take n js @ (key, ctx, m) # drop (Suc n) js" using id_take_nth_drop [OF assms(2)] assms(3) by simp
  have sub: "set T \<subseteq> set ?T" by auto
  have inv: "pd_timeout P = timeout" "entries_inv T P" "jobs_inv timeout T P js" "channel_inv present start timeout T P ds"
    "distinct (keys_of js ds)" "length (resumed_for k T) + count_list (keys_of js ds) k \<le> length (asked_for k T)"
    "Resumed t r \<in> set T \<Longrightarrow> timely present start timeout T t r" for k t r
    using assms(1) by (simp_all add: workers_inv_def)
  have perm: "mset (keys_of ?js (ds @ [?d])) = mset (keys_of js ds)"
    by (subst (3) js) (simp add: keys_of_def)
  have count: "count_list (keys_of ?js (ds @ [?d])) k = count_list (keys_of js ds) k" for k
    by (subst (3) js) (simp add: keys_of_def)
  have "distinct (keys_of ?js (ds @ [?d]))" using inv(5) perm by (metis mset_eq_imp_distinct_iff)
  moreover have "entries_inv ?T P" by (rule entries_inv_mono [OF inv(2) sub])
  moreover have "jobs_inv timeout ?T P ?js"
    using jobs_inv_mono [OF inv(3) sub] by (subst (asm) js) (auto simp: jobs_inv_def)
  moreover have "channel_inv present start timeout ?T P (ds @ [?d])"
  proof -
    have "(key, ctx, m) \<in> set js" using assms(2,3) by (metis nth_mem)
    then have "tracked ?T key ctx" "work_inv timeout ?T P key m"
      using jobs_inv_mono [OF inv(3) sub] by (auto simp: jobs_inv_def)
    moreover have "decided_by present start ?T ctx m ?d" using assms(4,5) by (auto simp: decided_by_def)
    ultimately show ?thesis using channel_inv_mono [OF inv(4) sub] by (auto simp: channel_inv_def)
  qed
  moreover have "timely present start timeout ?T t r" if "Resumed t r \<in> set ?T" for t r
    by (rule timely_mono [OF inv(7) sub]) (use that in auto)
  ultimately show ?thesis using inv(1,6) by (simp add: workers_inv_def count)
qed

section \<open>Ticks\<close>

definition none_overdue :: "nat \<Rightarrow> pending_approvals \<Rightarrow> bool" where
  "none_overdue now P \<longleftrightarrow> (\<forall>key e. entry_of P key = Some e \<longrightarrow> pe_waiting e \<longrightarrow> now < pe_deadline e)"

lemma none_overdue_expire: "none_overdue now (expire now P)"
proof -
  have "pe_waiting (expire_entry now e) \<Longrightarrow> now < pe_deadline (expire_entry now e)" for e
    by (simp add: expire_entry_def not_le split: if_splits)
  then show ?thesis by (auto simp: none_overdue_def entry_of_expire)
qed

lemma workers_expire:
  assumes "workers_inv present start timeout T P js ds"
  shows "workers_inv present start timeout T (expire now P) js ds"
proof -
  have "entry_inv T key (expire_entry now e)" if "entry_inv T key e" for key e
    using that by (auto simp: entry_inv_def expire_entry_def)
  then have "entries_inv T (expire now P)"
    using assms by (auto simp: workers_inv_def entries_inv_def entry_of_expire)
  moreover have "others_kept (set (keys_of js ds)) P (expire now P)"
    by (auto simp: others_kept_def entry_of_expire expire_entry_def)
  ultimately show ?thesis using workers_inv_step [OF assms, of "[]" "expire now P"] by simp
qed

lemma workers_settle:
  fixes T :: "'p approvals_effect list"
  assumes "workers_inv present start timeout T P js (d # ds)" and "none_overdue now P" and "settle_decision now P d = (P', out)"
  shows "workers_inv present start timeout (T @ map (Resumed now) out) P' js ds" and "none_overdue now P'"
proof -
  have inv: "pd_timeout P = timeout" "entries_inv T P" "jobs_inv timeout T P js" "channel_inv present start timeout T P (d # ds)"
    "distinct (keys_of js (d # ds))" "length (resumed_for k T) + count_list (keys_of js (d # ds)) k \<le> length (asked_for k T)"
    "Resumed t r \<in> set T \<Longrightarrow> timely present start timeout T t r" for k t r
    using assms(1) by (simp_all add: workers_inv_def)
  from inv(4) obtain ctx m where d: "tracked T (de_id d) ctx" "decided_by present start T ctx m d" "work_inv timeout T P (de_id d) m"
    by (auto simp: channel_inv_def)
  have new: "de_id d \<notin> set (keys_of js ds)" using inv(5) by (auto simp: keys_of_def)
  have rest: "workers_inv present start timeout (T @ map (Resumed now) out) P' js ds"
    if "entries_inv T P'" "others_kept (set (keys_of js ds)) P P'" "pd_timeout P' = pd_timeout P"
      "\<And>k. length (resumed_for k (map (Resumed now) out :: 'p approvals_effect list)) \<le> (if k = de_id d then 1 else 0)"
      "\<And>r. r \<in> set out \<Longrightarrow> timely present start timeout T now r"
  proof -
    let ?T = "T @ map (Resumed now) out"
    have sub: "set T \<subseteq> set ?T" by auto
    have "channel_inv present start timeout T P ds" using inv(4) by (simp add: channel_inv_def)
    then have "channel_inv present start timeout ?T P' ds"
      by (intro channel_inv_mono [OF channel_inv_kept [OF _ that(2)] sub]) (simp_all add: set_keys_of)
    moreover have "jobs_inv timeout ?T P' js"
      by (rule jobs_inv_mono [OF jobs_inv_kept [OF inv(3) that(2)] sub]) (simp add: set_keys_of)
    moreover have "length (resumed_for k ?T) + count_list (keys_of js ds) k \<le> length (asked_for k ?T)" for k
      using inv(6) [of k] that(4) [of k] by (auto simp: keys_of_def split: if_splits)
    moreover have "timely present start timeout ?T t r" if "Resumed t r \<in> set ?T" for t r
      by (rule timely_mono [OF _ sub]) (use that inv(7) \<open>\<And>r. r \<in> set out \<Longrightarrow> timely present start timeout T now r\<close> in auto)
    ultimately show ?thesis
      using entries_inv_mono [OF that(1) sub] that(3) inv(1,5) by (simp add: workers_inv_def keys_of_def)
  qed
  have one: "workers_inv present start timeout (T @ map (Resumed now) out) P' js ds"
    if "P' = set_entry P (de_id d) e'" "entry_inv T (de_id d) e'" "length out \<le> 1"
      "\<And>r. r \<in> set out \<Longrightarrow> timely present start timeout T now r \<and> json_get r ''id'' = Some (CString (de_id d))" for e'
  proof (rule rest)
    show "entries_inv T P'" by (simp add: that(1) entries_inv_set [OF inv(2) that(2)])
    show "others_kept (set (keys_of js ds)) P P'" using new by (simp add: that(1) others_kept_set)
    show "length (resumed_for k (map (Resumed now) out :: 'p approvals_effect list)) \<le> (if k = de_id d then 1 else 0)" for k
      using that(3,4) by (cases out) auto
  qed (use that in auto)
  show "none_overdue now P'"
    using assms(3,2) by (cases rule: settle_cases) (auto simp: none_overdue_def)
  from d(3) obtain t where t: "Asked (de_id d) m t \<in> set T" "entry_of P (de_id d) = Some e \<Longrightarrow> pe_worker_outstanding e"
    "entry_of P (de_id d) = Some e \<Longrightarrow> pe_waiting e \<Longrightarrow> pe_deadline e = t + timeout" for e
    unfolding work_inv_def by blast
  from d(2) obtain p p' where p: "start p" "decide present ctx m p = ((de_context d, de_resume d), p')" "Worked (de_id d) p' \<in> set T"
    by (auto simp: decided_by_def)
  have entry: "entry_inv T (de_id d) e" if "entry_of P (de_id d) = Some e" for e
    using inv(2) that by (simp add: entries_inv_def)
  from assms(3) show "workers_inv present start timeout (T @ map (Resumed now) out) P' js ds"
  proof (cases rule: settle_cases)
    case gone
    then show ?thesis using inv(2) by (intro rest) simp_all
  next
    case (late e)
    have "\<not> pe_waiting e" using late(1,2) assms(2) unfolding none_overdue_def by (meson leD)
    with entry [OF late(1)] t(2) [OF late(1)] have "entry_inv T (de_id d) (e\<lparr>pe_worker_outstanding := False\<rparr>)"
      by (auto simp: entry_inv_def)
    from one [OF late(3) this] late(4) show ?thesis by simp
  next
    case (refused e err)
    from one [OF refused(6)] entry [OF refused(1)] refused(5) show ?thesis by (simp add: entry_inv_def)
  next
    case (resumed e r)
    have "tracked T (de_id d) (de_context d)" by (rule decide_resumes(1) [OF p(2) d(1)])
    with entry [OF resumed(1)] have "entry_inv T (de_id d) (e\<lparr>pe_worker_outstanding := False, pe_waiting := False,
         pe_context := Some (de_context d), pe_state := ''running''\<rparr>)"
      by (simp add: entry_inv_def)
    moreover obtain hm w where w: "Created (de_id d) hm w \<in> set T" "forwards hm (de_id d) w" "calls_from {w} ctx"
      "json_get r ''id'' = Some (CString (de_id d))" "repeats w m r"
      using decide_resumes(2) [OF p(2) d(1) resumed(4)] by blast
    moreover have "timely present start timeout T now r"
      unfolding timely_def using w t(1) t(3) [OF resumed(1,2)] resumed(3,4) p by metis
    ultimately show ?thesis using one [OF resumed(6)] resumed(5) by simp
  qed
qed

lemma workers_settle_all:
  fixes T :: "'p approvals_effect list"
  assumes "workers_inv present start timeout T P js ds" and "none_overdue now P" and "settle_decisions now P ds = (P', outs)"
  shows "workers_inv present start timeout (T @ map (Resumed now) outs) P' js []"
  using assms
proof (induction ds arbitrary: T P outs)
  case (Cons d ds)
  obtain Q o1 where d: "settle_decision now P d = (Q, o1)" by fastforce
  obtain o2 where rest: "settle_decisions now Q ds = (P', o2)" "outs = o1 @ o2"
    using Cons.prems(3) by (auto simp: d split: prod.splits)
  from Cons.IH [OF workers_settle [OF Cons.prems(1,2) d] rest(1)] show ?case by (simp add: rest(2))
qed simp

section \<open>Runs\<close>

fun starts_well :: "('p \<Rightarrow> bool) \<Rightarrow> 'p approvals_event \<Rightarrow> bool" where
  "starts_well start (WorkerEnds n p) = start p"
| "starts_well start _ = True"

abbreviation machine_inv :: "'p presenter \<Rightarrow> ('p \<Rightarrow> bool) \<Rightarrow> nat \<Rightarrow> 'p approvals_effect list \<Rightarrow> approvals_machine \<Rightarrow> bool" where
  "machine_inv present start timeout T S \<equiv>
     workers_inv present start timeout T (pm_pending S) (pm_jobs S) (pm_channel S) \<and> calls_inv T (pm_pending S)"

lemma machine_inv_step:
  fixes T :: "'p approvals_effect list"
  assumes "machine_inv present start timeout T S" and "approvals_step present H S ev = (S', effs)" and "starts_well start ev"
    and "\<And>fresh. fresh \<in> set (fresh_of ev) \<Longrightarrow> created_as (private_prefix @ fresh) T = []"
  shows "machine_inv present start timeout (T @ effs) S'"
proof -
  have "workers_inv present start timeout (T @ effs) (pm_pending S') (pm_jobs S') (pm_channel S')"
  proof (cases ev)
    case (HostSends message fresh now)
    with assms show ?thesis by (auto split: prod.splits intro: workers_host)
  next
    case (RuntimeSends message now spawned)
    obtain P' down job where "pending_downstream H (pm_pending S) message now spawned = (P', down, job)" by (metis prod.exhaust)
    with workers_runtime [of present start timeout T "pm_pending S" "pm_jobs S" "pm_channel S" H message now spawned P' down job]
      RuntimeSends assms(1,2) show ?thesis by auto
  next
    case (WorkerEnds n p)
    show ?thesis
    proof (cases "n < length (pm_jobs S)")
      case True
      obtain key ctx m where j: "pm_jobs S ! n = (key, ctx, m)" by (metis prod.exhaust)
      obtain ctx' res p' where d: "decide present ctx m p = ((ctx', res), p')" by (metis prod.exhaust)
      from assms(3) WorkerEnds have "start p" by simp
      from workers_end [OF conjunct1 [OF assms(1)] True j this d] assms(2) show ?thesis
        by (auto simp: WorkerEnds True j d)
    next
      case False
      with assms(1,2) show ?thesis by (auto simp: WorkerEnds)
    qed
  next
    case (Tick now)
    obtain P' rs where t: "pending_decisions now (pm_pending S) (pm_channel S) = (P', rs)" by fastforce
    then have "settle_decisions now (expire now (pm_pending S)) (pm_channel S) = (P', rs)" by (simp add: pending_decisions_def)
    from workers_settle_all [OF workers_expire [OF conjunct1 [OF assms(1)]] none_overdue_expire this] assms(2) show ?thesis
      by (auto simp: Tick t)
  qed
  with calls_inv_step [OF conjunct2 [OF assms(1)] assms(2)] show ?thesis by simp
qed

lemma machine_inv_start: "machine_inv present start timeout [] (approvals_start g l r timeout)"
  using calls_inv_start
  by (simp add: workers_inv_def entries_inv_def jobs_inv_def channel_inv_def keys_of_def approvals_start_def pending_new_def)

section \<open>Capacity\<close>

text \<open>Walking a hash map visits entries of the map.\<close>

definition walks_entries :: "pending_host \<Rightarrow> bool" where
  "walks_entries H \<longleftrightarrow> (\<forall>es. set (ph_order H es) \<subseteq> set es)"

definition workers_kept :: "pending_approvals \<Rightarrow> pending_approvals \<Rightarrow> bool" where
  "workers_kept P P' \<longleftrightarrow> (\<forall>key e. entry_of P key = Some e \<longrightarrow> pe_worker_outstanding e \<longrightarrow>
     (\<exists>e'. entry_of P' key = Some e' \<and> pe_worker_outstanding e'))"

lemma workers_kept_refl: "pd_entries P' = pd_entries P \<Longrightarrow> workers_kept P P'"
  by (simp add: workers_kept_def)

lemma workers_kept_trans: "workers_kept P Q \<Longrightarrow> workers_kept Q R \<Longrightarrow> workers_kept P R"
  unfolding workers_kept_def by blast

lemma workers_kept_delete:
  assumes "bt_wf (pd_entries P)" and "(key, e) \<in> set (pd_entries P)" and "\<not> pe_worker_outstanding e"
  shows "workers_kept P (P\<lparr>pd_entries := bt_delete key (pd_entries P)\<rparr>)"
  using assms bt_get_entries [OF assms(1), of key e] by (auto simp: workers_kept_def bt_get_delete)

lemma workers_kept_set: "pe_worker_outstanding e \<Longrightarrow> workers_kept P (set_entry P key e)"
  "entry_of P key = None \<Longrightarrow> workers_kept P (set_entry P key e)"
  by (auto simp: workers_kept_def)

lemma earliest_member: "earliest es = Some e \<Longrightarrow> e \<in> set es"
  by (induction es arbitrary: e) (auto split: option.splits if_splits)

lemma retire_keeps_workers:
  assumes "walks_entries H" and "bt_wf (pd_entries P)"
  shows "workers_kept P (retire H P)"
proof -
  have "workers_kept P (P\<lparr>pd_entries := bt_delete key (pd_entries P)\<rparr>)"
    if "earliest (filter (\<lambda>(_, e). retirable e) (ph_order H (pd_entries P))) = Some (key, e)" for key e
  proof -
    from earliest_member [OF that] assms(1) have m: "(key, e) \<in> set (pd_entries P)" and "retirable e"
      by (auto simp: walks_entries_def)
    then show ?thesis by (intro workers_kept_delete [OF assms(2) m]) (simp add: retirable_def)
  qed
  then show ?thesis by (auto simp: retire_def workers_kept_refl split: option.split)
qed

lemma cancelled_keeps_workers:
  assumes "walks_entries H" and "bt_wf (pd_entries P)" and "entries_inv T P" and "host_cancelled H P message = (P', m)"
  shows "workers_kept P P'"
proof -
  have "workers_kept P (P\<lparr>pd_entries := bt_delete key (pd_entries P)\<rparr>)"
    if "find (\<lambda>(_, e). \<not> pe_deferred e \<and> value_eq (pe_host_id e) i) (ph_order H (pd_entries P)) = Some (key, e)" for key e i
  proof -
    from that have "(key, e) \<in> set (ph_order H (pd_entries P))" and d: "\<not> pe_deferred e"
      unfolding find_Some_iff by (metis nth_mem, auto)
    then have m: "(key, e) \<in> set (pd_entries P)" using assms(1) by (auto simp: walks_entries_def)
    then have "entry_inv T key e" using assms(2,3) by (simp add: entries_inv_def bt_get_entries)
    with d show ?thesis by (intro workers_kept_delete [OF assms(2) m]) (auto simp: entry_inv_def)
  qed
  then show ?thesis using assms(4) by (auto simp: host_cancelled_def workers_kept_refl split: option.splits)
qed

lemma status_keeps_workers: "approval_status H P i arguments = (P', r) \<Longrightarrow> workers_kept P P'"
  by (auto simp: approval_status_def workers_kept_def split: option.splits if_splits)

lemma tool_call_keeps_workers:
  assumes "walks_entries H" and "bt_wf (pd_entries P)" and "host_tool_call H P i message fresh now = (P', up)"
    and "entry_of P (private_prefix @ fresh) = None"
  shows "workers_kept P P'"
proof -
  have kept: "workers_kept P (retire H P)" by (rule retire_keeps_workers [OF assms(1,2)])
  have none: "entry_of (retire H P) (private_prefix @ fresh) = None"
    using trimmed_get [OF retire_trimmed [of P H]] assms(4) by (cases "entry_of (retire H P) (private_prefix @ fresh)") auto
  have start: "workers_kept (retire H P) Q" if "start_call (retire H P) i m fresh now = (Q, up)" for Q m
    using that by (cases rule: start_call_cases) (simp_all add: workers_kept_refl workers_kept_set(2) none)
  show ?thesis
    using assms(3) kept workers_kept_trans [OF kept start]
    by (auto simp: host_tool_call_def workers_kept_refl Let_def split: sum.splits if_splits)
qed

lemma upstream_keeps_workers:
  assumes "walks_entries H" and "bt_wf (pd_entries P)" and "entries_inv T P"
    and "pending_upstream H P message fresh now = (P', up)" and "entry_of P (private_prefix @ fresh) = None"
  shows "workers_kept P P'"
  using assms(4) cancelled_keeps_workers [OF assms(1-3), of message] status_keeps_workers [of H P "rpc_message_id message"]
    tool_call_keeps_workers [OF assms(1,2) _ assms(5), of "rpc_message_id message" message now]
  unfolding pending_upstream_def Let_def
  by (auto simp: workers_kept_refl split: if_splits prod.splits)

definition capacity_inv :: "pending_approvals \<Rightarrow> string set \<Rightarrow> bool" where
  "capacity_inv P K \<longleftrightarrow> bt_wf (pd_entries P) \<and> length (pd_entries P) \<le> pd_limit P \<and>
     (\<forall>key \<in> K. \<exists>e. entry_of P key = Some e \<and> pe_worker_outstanding e)"

lemma length_bt_keys: "bt_wf m \<Longrightarrow> length m = card {k. bt_get m k \<noteq> None}"
  by (metis bt_keys_def bt_keys_set bt_wf_distinct distinct_card length_map)

lemma finite_keys: "finite {k. bt_get m k \<noteq> None}"
  by (metis List.finite_set bt_keys_set)

lemma length_le_keys:
  assumes "bt_wf m" and "bt_wf n" and "\<And>k. bt_get m k \<noteq> None \<Longrightarrow> bt_get n k \<noteq> None"
  shows "length m \<le> length n"
  unfolding length_bt_keys [OF assms(1)] length_bt_keys [OF assms(2)]
  by (rule card_mono [OF finite_keys]) (use assms(3) in auto)

lemma capacity_workers:
  assumes "capacity_inv P (set ks)" and "distinct ks"
  shows "length ks \<le> pd_limit P"
proof -
  have "length ks = card (set ks)" using assms(2) by (simp add: distinct_card)
  also have "\<dots> \<le> card {k. entry_of P k \<noteq> None}"
    by (rule card_mono [OF finite_keys]) (use assms(1) in \<open>auto simp: capacity_inv_def\<close>)
  also have "\<dots> = length (pd_entries P)" using assms(1) length_bt_keys [of "pd_entries P"] by (simp add: capacity_inv_def)
  finally show ?thesis using assms(1) by (simp add: capacity_inv_def)
qed

lemma capacity_keep:
  assumes "capacity_inv P K" and "bt_wf (pd_entries P')" and "pd_limit P' = pd_limit P"
    and "\<And>k. entry_of P' k \<noteq> None \<Longrightarrow> entry_of P k \<noteq> None" and "\<And>key. key \<in> K' \<Longrightarrow>
      \<exists>e. entry_of P' key = Some e \<and> pe_worker_outstanding e"
  shows "capacity_inv P' K'"
proof -
  have "length (pd_entries P') \<le> length (pd_entries P)"
    by (rule length_le_keys [OF assms(2)]) (use assms(1,4) in \<open>simp_all add: capacity_inv_def\<close>)
  with assms(1-3,5) show ?thesis by (simp add: capacity_inv_def)
qed

lemma retire_wf: "bt_wf (pd_entries P) \<Longrightarrow> bt_wf (pd_entries (retire H P))"
  using tended_wf [OF trimmed_tended [OF retire_trimmed]] .

lemma capacity_host:
  assumes "capacity_inv P K" and "walks_entries H" and "entries_inv T P" and "pending_upstream H P message fresh now = (P', up)"
    and "entry_of P (private_prefix @ fresh) = None"
  shows "capacity_inv P' K"
proof -
  have wf: "bt_wf (pd_entries P)" using assms(1) by (simp add: capacity_inv_def)
  have "workers_kept P P'" by (rule upstream_keeps_workers [OF assms(2) wf assms(3-5)])
  then have workers: "\<exists>e. entry_of P' key = Some e \<and> pe_worker_outstanding e" if "key \<in> K" for key
    using that assms(1) unfolding capacity_inv_def workers_kept_def by blast
  from assms(4) show ?thesis
  proof (cases rule: upstream_cases [where ?'p = unit])
    case kept
    then show ?thesis using workers
      by (intro capacity_keep [OF assms(1)]) (auto simp: same_frame_def tended_wf [OF _ wf] dest: tended_get)
  next
    case (started m ctx w)
    let ?Q = "retire H P" and ?key = "private_prefix @ fresh"
    have wf': "bt_wf (pd_entries ?Q)" "bt_wf (pd_entries P')" using retire_wf [OF wf] by (simp_all add: started(6) set_entry_def)
    have "{k. entry_of P' k \<noteq> None} = insert ?key {k. entry_of ?Q k \<noteq> None}" by (auto simp: started(6))
    then have "length (pd_entries P') \<le> Suc (length (pd_entries ?Q))"
      unfolding length_bt_keys [OF wf'(1)] length_bt_keys [OF wf'(2)] by (simp add: card_insert_if [OF finite_keys] del: not_None_eq)
    with wf' workers started(7) show ?thesis by (simp add: capacity_inv_def started(6))
  qed
qed

lemma capacity_set:
  assumes "capacity_inv P K" and "entry_of P key = Some e" and "\<And>k. k \<in> K' \<Longrightarrow> k \<noteq> key \<Longrightarrow> k \<in> K"
    and "key \<in> K' \<Longrightarrow> pe_worker_outstanding e'"
  shows "capacity_inv (set_entry P key e') K'"
proof -
  have "bt_wf (pd_entries (set_entry P key e'))" using assms(1) by (simp add: capacity_inv_def set_entry_def)
  then show ?thesis
    by (rule capacity_keep [OF assms(1)]) (use assms in \<open>auto simp: capacity_inv_def split: if_splits\<close>)
qed

lemma capacity_subset: "capacity_inv P K \<Longrightarrow> K' \<subseteq> K \<Longrightarrow> capacity_inv P K'"
  by (auto simp: capacity_inv_def)

lemma capacity_runtime:
  assumes "capacity_inv P (set (keys_of js ds))" and "entries_inv T P"
    and "\<forall>x \<in> set (pd_lists P). \<forall>key. prefix private_prefix key \<longrightarrow> fst x \<noteq> CString key"
    and "pending_downstream H P message now spawned = (P', down, job)"
  shows "capacity_inv P' (set (keys_of (js @ (case job of None \<Rightarrow> [] | Some j \<Rightarrow> [j])) ds))"
  using assms(4,3)
proof (cases rule: downstream_cases [where ?'a = unit])
  case other
  with assms(1) show ?thesis by (simp add: capacity_inv_def same_frame_def keys_of_def)
next
  case (reply key)
  have idle: "k \<noteq> key" if "k \<in> set (keys_of js ds)" "entry_of P key = Some e" "live_entry e" for k e
  proof
    assume "k = key"
    with assms(1) that(1,2) have "pe_worker_outstanding e" by (auto simp: capacity_inv_def)
    with that(2,3) assms(2) show False by (auto simp: entries_inv_def entry_inv_def live_entry_def)
  qed
  have set_entry: "capacity_inv (set_entry P key e') (set (keys_of js ds))" if "entry_of P key = Some e" "live_entry e" for e e'
    using that idle by (intro capacity_set [OF assms(1)]) blast+
  from reply(3) show ?thesis
  proof (cases rule: reply_cases)
    case consumed
    with assms(1) show ?thesis by simp
  next
    case (unavailable e)
    with set_entry show ?thesis by simp
  next
    case (answered e w)
    have "bt_wf (pd_entries P')" using assms(1) by (simp add: answered(4) capacity_inv_def bt_wf_delete)
    then have "capacity_inv P' (set (keys_of js ds))"
    proof (rule capacity_keep [OF assms(1)])
      show "\<exists>e. entry_of P' k = Some e \<and> pe_worker_outstanding e" if "k \<in> set (keys_of js ds)" for k
        using that idle [OF that answered(1,2)] assms(1) by (auto simp: answered(4) capacity_inv_def bt_get_delete)
    qed (auto simp: answered(4) bt_get_delete split: if_splits)
    then show ?thesis by (simp add: answered(6))
  next
    case (asked e ctx)
    show ?thesis
    proof (cases spawned)
      case True
      then have "capacity_inv P' (insert key (set (keys_of js ds)))"
        unfolding asked(4) by (intro capacity_set [OF assms(1) asked(1)]) (auto simp: awaiting_entry_def)
      then show ?thesis by (simp add: asked(5) True keys_of_def)
    next
      case False
      with asked(1,2,4,5) set_entry show ?thesis by simp
    qed
  next
    case (completed e r)
    with set_entry show ?thesis by simp
  qed
qed

lemma capacity_expire: "capacity_inv P K \<Longrightarrow> capacity_inv (expire now P) K"
proof -
  assume inv: "capacity_inv P K"
  have "map fst (pd_entries (expire now P)) = map fst (pd_entries P)" by (auto simp: expire_def)
  then have "bt_wf (pd_entries (expire now P))" using inv by (simp add: capacity_inv_def bt_wf_def)
  then show ?thesis
  proof (rule capacity_keep [OF inv])
    fix key
    assume "key \<in> K"
    then obtain e where "entry_of P key = Some e" "pe_worker_outstanding e" using inv by (auto simp: capacity_inv_def)
    then show "\<exists>e. entry_of (expire now P) key = Some e \<and> pe_worker_outstanding e"
      by (auto simp: entry_of_expire expire_entry_def)
  qed (simp_all add: entry_of_expire)
qed

lemma capacity_settle:
  assumes "settle_decision now P d = (P', out)" and "capacity_inv P K"
  shows "capacity_inv P' (K - {de_id d})"
  using assms(1)
proof (cases rule: settle_cases)
  case gone
  with assms(2) show ?thesis by (auto intro: capacity_subset)
qed (use assms(2) in \<open>auto intro: capacity_set\<close>)

lemma capacity_settle_all:
  "settle_decisions now P ds = (P', outs) \<Longrightarrow> capacity_inv P K \<Longrightarrow> capacity_inv P' (K - de_id ` set ds)"
proof (induction ds arbitrary: P K outs)
  case (Cons d ds)
  obtain Q o1 where d: "settle_decision now P d = (Q, o1)" by fastforce
  obtain o2 where "settle_decisions now Q ds = (P', o2)" using Cons.prems(1) by (auto simp: d split: prod.splits)
  from Cons.IH [OF this capacity_settle [OF d Cons.prems(2)]] show ?case by (simp flip: Diff_insert2)
qed simp

abbreviation within_capacity :: "approvals_machine \<Rightarrow> bool" where
  "within_capacity S \<equiv> capacity_inv (pm_pending S) (set (keys_of (pm_jobs S) (pm_channel S)))"

lemma uncreated_no_entry:
  assumes "entries_inv T P" and "created_as key T = []"
  shows "entry_of P key = None"
proof (cases "entry_of P key")
  case (Some e)
  then obtain m w where "Created key m w \<in> set T" using assms(1) unfolding entries_inv_def entry_inv_def by blast
  with assms(2) by_call_set(1) [of m w key T] show ?thesis by simp
qed

lemma capacity_step:
  fixes T :: "'p approvals_effect list"
  assumes "machine_inv present start timeout T S \<and> within_capacity S" and "approvals_step present H S ev = (S', effs)" and "walks_entries H"
    and "\<And>fresh. fresh \<in> set (fresh_of ev) \<Longrightarrow> created_as (private_prefix @ fresh) T = []"
  shows "within_capacity S'"
proof -
  have entries: "entries_inv T (pm_pending S)" and calls: "calls_inv T (pm_pending S)"
    and cap: "capacity_inv (pm_pending S) (set (keys_of (pm_jobs S) (pm_channel S)))"
    using assms(1) by (simp_all add: workers_inv_def)
  show ?thesis
  proof (cases ev)
    case (HostSends message fresh now)
    have "entry_of (pm_pending S) (private_prefix @ fresh) = None"
      using uncreated_no_entry [OF entries] assms(4) HostSends by simp
    with capacity_host [OF cap assms(3) entries] assms(2) HostSends show ?thesis by (auto split: prod.splits)
  next
    case (RuntimeSends message now spawned)
    obtain P' down job where "pending_downstream H (pm_pending S) message now spawned = (P', down, job)" by (metis prod.exhaust)
    with capacity_runtime [OF cap entries calls_invD(1) [OF calls] this] RuntimeSends assms(2) show ?thesis by auto
  next
    case (WorkerEnds n p)
    show ?thesis
    proof (cases "n < length (pm_jobs S)")
      case True
      obtain key ctx m where j: "pm_jobs S ! n = (key, ctx, m)" by (metis prod.exhaust)
      obtain ctx' res p' where d: "decide present ctx m p = ((ctx', res), p')" by (metis prod.exhaust)
      have "fst ` set (pm_jobs S) = fst ` set (take n (pm_jobs S)) \<union> insert key (fst ` set (drop (Suc n) (pm_jobs S)))"
        using arg_cong [OF id_take_nth_drop [OF True], of "\<lambda>js. set (map fst js)"] j by simp
      then have "set (keys_of (pm_jobs S) (pm_channel S)) = set (keys_of (take n (pm_jobs S) @ drop (Suc n) (pm_jobs S))
          (pm_channel S @ [\<lparr>de_id = key, de_context = ctx', de_resume = res\<rparr>]))"
        by (auto simp: keys_of_def)
      with cap assms(2) show ?thesis by (auto simp: WorkerEnds True j d)
    next
      case False
      with cap assms(2) show ?thesis by (auto simp: WorkerEnds)
    qed
  next
    case (Tick now)
    obtain P' rs where t: "pending_decisions now (pm_pending S) (pm_channel S) = (P', rs)" by fastforce
    then have "capacity_inv P' (set (keys_of (pm_jobs S) (pm_channel S)) - de_id ` set (pm_channel S))"
      unfolding pending_decisions_def by (rule capacity_settle_all [OF _ capacity_expire [OF cap]])
    moreover have "set (keys_of (pm_jobs S) []) \<subseteq> set (keys_of (pm_jobs S) (pm_channel S)) - de_id ` set (pm_channel S)"
      using assms(1) by (auto simp: workers_inv_def keys_of_def)
    ultimately show ?thesis using assms(2) by (auto simp: Tick t intro: capacity_subset)
  qed
qed

lemma machine_inv_run:
  fixes T :: "'p approvals_effect list"
  assumes "machine_inv present start timeout T S" and "approvals_run present H S evs = (S', effs)"
    and "\<And>ev. ev \<in> set evs \<Longrightarrow> starts_well start ev" and "distinct (fresh_ids evs)"
    and "\<And>fresh. fresh \<in> set (fresh_ids evs) \<Longrightarrow> created_as (private_prefix @ fresh) T = []"
  shows "machine_inv present start timeout (T @ effs) S' \<and> (walks_entries H \<longrightarrow> within_capacity S \<longrightarrow> within_capacity S')"
  using assms
proof (induction evs arbitrary: S T effs)
  case (Cons ev evs)
  obtain S1 e1 where ev: "approvals_step present H S ev = (S1, e1)" by fastforce
  obtain e2 where rest: "approvals_run present H S1 evs = (S', e2)" "effs = e1 @ e2"
    using Cons.prems(2) by (auto simp: ev split: prod.splits)
  have "machine_inv present start timeout (T @ e1) S1"
    using Cons.prems(1,3,5) by (intro machine_inv_step [OF _ ev]) (auto simp: fresh_ids_def)
  moreover have "within_capacity S1" if "walks_entries H" "within_capacity S"
    using Cons.prems(1,5) that by (intro capacity_step [OF _ ev]) (auto simp: fresh_ids_def)
  moreover have "created_as (private_prefix @ fresh) (T @ e1) = []" if "fresh \<in> set (fresh_ids evs)" for fresh
  proof -
    have "fresh \<notin> set (fresh_of ev)" using that Cons.prems(4) by (auto simp: fresh_ids_def)
    then have "count_list (map ((@) private_prefix) (fresh_of ev)) (private_prefix @ fresh) = 0" by (auto simp: count_list_0_iff)
    then have "created_as (private_prefix @ fresh) e1 = []" using created_by_step(1) [OF ev, of "private_prefix @ fresh"] by simp
    then show ?thesis using Cons.prems(5) that by (simp add: fresh_ids_def)
  qed
  ultimately have "machine_inv present start timeout ((T @ e1) @ e2) S' \<and> (walks_entries H \<longrightarrow> within_capacity S1 \<longrightarrow> within_capacity S')"
    using Cons.prems(3,4) by (intro Cons.IH [OF _ rest(1)]) (auto simp: fresh_ids_def)
  with \<open>walks_entries H \<Longrightarrow> within_capacity S \<Longrightarrow> within_capacity S1\<close> show ?case by (simp add: rest(2))
qed simp

lemma within_capacity_start: "within_capacity (approvals_start g l r timeout)"
  by (simp add: capacity_inv_def keys_of_def approvals_start_def pending_new_def)

lemma step_limit:
  fixes T :: "'p approvals_effect list" and present :: "'p presenter"
  assumes "approvals_step present H S ev = (S', effs)" and "calls_inv T (pm_pending S)"
  shows "pd_limit (pm_pending S') = pd_limit (pm_pending S)"
proof (cases ev)
  case (HostSends message fresh now)
  obtain P' up where up: "pending_upstream H (pm_pending S) message fresh now = (P', up)" by fastforce
  then have "pd_limit P' = pd_limit (pm_pending S)"
    by (cases rule: upstream_cases [where ?'p = unit]) (simp_all add: same_frame_def)
  with assms(1) up HostSends show ?thesis by auto
next
  case (RuntimeSends message now spawned)
  obtain P' down job where down: "pending_downstream H (pm_pending S) message now spawned = (P', down, job)" by (metis prod.exhaust)
  from this calls_invD(1) [OF assms(2)] have "pd_limit P' = pd_limit (pm_pending S)"
  proof (cases rule: downstream_cases [where ?'a = unit])
    case (reply key)
    from reply(3) show ?thesis by (cases rule: reply_cases) simp_all
  qed (simp add: same_frame_def)
  with assms(1) down RuntimeSends show ?thesis by auto
next
  case (Tick now)
  with assms(1) show ?thesis by (auto split: prod.splits dest!: pending_decisions_frame simp: same_frame_def)
qed (use assms in \<open>auto split: prod.splits if_splits\<close>)

lemma run_limit:
  fixes T :: "'p approvals_effect list" and present :: "'p presenter"
  assumes "approvals_run present H S evs = (S', effs)" and "calls_inv T (pm_pending S)"
  shows "pd_limit (pm_pending S') = pd_limit (pm_pending S)"
  using assms
proof (induction evs arbitrary: S T effs)
  case (Cons ev evs)
  obtain S1 e1 where ev: "approvals_step present H S ev = (S1, e1)" by fastforce
  obtain e2 where rest: "approvals_run present H S1 evs = (S', e2)" using Cons.prems(1) by (auto simp: ev split: prod.splits)
  from Cons.IH [OF rest calls_inv_step [OF Cons.prems(2) ev]] step_limit [OF ev Cons.prems(2)] show ?case by simp
qed simp

end
