(* ===== verification/Mcp_Promises.thy ===== *)
theory Mcp_Promises
  imports Mcp_Workers
begin

text \<open>
  What the MCP front end promises, with concrete runs: a resumed call repeats the call it resumes, the rounds of a
  call are bounded, and an accepted form was selected by the presenter.
\<close>

section \<open>A concrete session\<close>

definition demo_call :: canonical_json where
  "demo_call = CObject [(''id'', CString ''c7''), (''method'', CString ''tools/call''),
     (''params'', CObject [(''name'', CString ''write'')])]"

definition demo_form :: canonical_json where
  "demo_form = CObject [(''message'', CString ''Run it?''), (''requestedSchema'', CObject [
     (''properties'', CObject [(''approve'', CObject [(''type'', CString ''boolean'')])]), (''type'', CString ''object'')])]"

definition demo_ask_for :: "string \<Rightarrow> canonical_json" where
  "demo_ask_for key = CObject [(''id'', CString key), (''result'', CObject [
     (''inputRequests'', CObject [(''q'', CObject [(''method'', CString ''elicitation/create''), (''params'', demo_form)])]),
     (''requestState'', CString ''s1''), (''resultType'', CString ''input_required'')])]"

definition demo_presenter :: "unit presenter" where
  "demo_presenter parsed p = (Ok (Some 0), p)"

definition demo_answer :: canonical_json where
  "demo_answer = json_obj [(''action'', CString ''accept''), (''content'', json_obj [(''approve'', CBool True)])]"

definition demo_tracked :: tracked_call where
  "demo_tracked = new_call demo_call (CString ''c7'') [(''name'', CString ''write'')]"

definition mcp_demo_session :: native_mrtr where
  "mcp_demo_session = (with_limits 4 4)\<lparr>nm_calls := [(RpcString ''c7'', demo_tracked)]\<rparr>"

lemma demo_record: "fst (record_call (with_limits 4 4) demo_call) = mcp_demo_session"
  by (simp add: record_call_def demo_call_def json_get_def json_str_def as_members_def bt_get_def parse_rpc_id_def
      with_limits_def bt_contains_key_def mcp_demo_session_def demo_tracked_def)

definition demo_ask :: canonical_json where
  "demo_ask = demo_ask_for ''c7''"

definition mcp_demo_round :: "string \<Rightarrow> prepared_round" where
  "mcp_demo_round key = \<lparr>pr_key = RpcString key, pr_request_state = Some ''s1'',
     pr_input_requests = Some [(''q'', CObject [(''method'', CString ''elicitation/create''), (''params'', demo_form)])]\<rparr>"

lemma demo_prepare:
  assumes "bt_get (nm_calls M) (RpcString key) = Some call" and "tc_consumed_states call = {||}"
    and "\<not> tc_consumed_stateless call" and "0 < nm_max_input_rounds M"
  shows "prepare_round M (demo_ask_for key) = Ok (mcp_demo_round key)"
  using assms
  by (simp add: prepare_round_def demo_ask_for_def json_get_def json_str_def as_members_def parse_rpc_id_def
      round_already_consumed_def retained_rounds_def usize_saturating_add_def fcard_fempty mcp_demo_round_def bt_get_def)

definition demo_parsed :: interaction_request where
  "demo_parsed = \<lparr>iq_message = ''Run it?'', iq_field = ''approve'', iq_response = RespBoolean,
     iq_options = [\<lparr>ov_label = ''Approve'', ov_value = CBool True, ov_affirmative = True\<rparr>,
       \<lparr>ov_label = ''Deny'', ov_value = CBool False, ov_affirmative = False\<rparr>], iq_consent = None\<rparr>"

definition demo_envelope :: canonical_json where
  "demo_envelope = json_obj [(''jsonrpc'', CString ''2.0''), (''id'', CString ''q''),
     (''method'', CString ''elicitation/create''), (''params'', demo_form)]"

lemma demo_parse: "parse_request demo_envelope = Ok demo_parsed"
proof -
  have "json_get demo_envelope ''params'' = Some demo_form" by (simp add: demo_envelope_def json_get_obj)
  then show ?thesis
    by (simp add: parse_request_def demo_form_def as_members_def bt_get_def json_str_def max_message_bytes_def
        form_property_def field_options_def parse_consent_def demo_parsed_def affirmative_label_def)
qed

lemma demo_resolve: "resolve (with_log demo_presenter) demo_envelope ((), log) =
    (Ok (form_response (CString ''q'') ''accept'' (Some (json_obj [(''approve'', CBool True)]))),
     ((), log @ [(demo_parsed, Ok (Some 0))]))"
proof -
  have "json_get demo_envelope ''id'' = Some (CString ''q'')" by (simp add: demo_envelope_def json_get_obj)
  then show ?thesis
    by (simp add: resolve_def demo_parse with_log_def demo_presenter_def chosen_response_def)
      (simp add: demo_parsed_def)
qed

lemma demo_responses: "round_responses (with_log demo_presenter) (mcp_demo_round key) ((), log) =
  ([(''q'', demo_answer)], ((), log @ [(demo_parsed, Ok (Some 0))]))"
proof -
  have "elicitation_envelope ''q'' (CObject [(''method'', CString ''elicitation/create''), (''params'', demo_form)]) = Ok demo_envelope"
    by (simp add: elicitation_envelope_def as_members_def bt_get_def json_str_def demo_envelope_def) (simp add: demo_form_def)
  then show ?thesis
    by (simp add: round_responses_def mcp_demo_round_def collect_elicitations_def max_input_requests_def demo_parse demo_resolve
        form_response_def json_get_obj demo_answer_def)
qed

lemma demo_decide:
  assumes "bt_get (nm_calls M) (RpcString key) = Some call" and "tc_consumed_states call = {||}"
    and "\<not> tc_consumed_stateless call" and "0 < nm_max_input_rounds M"
  shows "\<exists>M'. decide (with_log demo_presenter) M (demo_ask_for key) ((), log) =
    ((M', Ok (resumed_call call (Some ''s1'') [(''q'', demo_answer)])), ((), log @ [(demo_parsed, Ok (Some 0))]))"
  using assms
  by (simp add: decide_def demo_prepare demo_responses finish_resume_def)
    (simp add: mcp_demo_round_def round_already_consumed_def retained_rounds_def usize_saturating_add_def fcard_fempty)

definition demo_resume :: canonical_json where
  "demo_resume = resumed_call demo_tracked (Some ''s1'') [(''q'', demo_answer)]"

lemma demo_step: "\<exists>M'. mrtr_step (with_log demo_presenter) (mcp_demo_session, ((), log)) (SessDecide demo_ask) =
    ((M', ((), log @ [(demo_parsed, Ok (Some 0))])), [(demo_ask, demo_resume)])"
proof -
  have "bt_get (nm_calls mcp_demo_session) (RpcString ''c7'') = Some demo_tracked" "tc_consumed_states demo_tracked = {||}"
    "\<not> tc_consumed_stateless demo_tracked" "0 < nm_max_input_rounds mcp_demo_session"
    by (simp_all add: mcp_demo_session_def with_limits_def bt_get_def demo_tracked_def new_call_def)
  from demo_decide [OF this, of log] show ?thesis by (auto simp: demo_ask_def demo_resume_def resumed_def)
qed

lemma demo_start: "mrtr_run (with_log demo_presenter) (with_limits 4 4, ((), [])) [SessRecord demo_call] =
    ((mcp_demo_session, ((), [])), [])"
  by (simp add: demo_record)

lemma demo_run: "\<exists>st. mrtr_run (with_log demo_presenter) (with_limits 4 4, ((), [])) [SessRecord demo_call, SessDecide demo_ask] =
    (st, [(demo_ask, demo_resume)])"
  using demo_step [of "[]"] by (auto simp: demo_record simp del: mrtr_step.simps(2))

section \<open>Promises of a session\<close>

text \<open>C14. Whatever calls are recorded, decided, declined or forgotten, in any order and with any presenter, a call that
  the front end resumes repeats a call of the client that was recorded before, the one whose id the answered
  message carries: the same id, method, version and parameters, to which only the user's answers and the
  opaque state of that very message are added.\<close>

theorem resumes_repeat_the_call:
  assumes "mrtr_run present (with_limits max_in_flight max_input_rounds, p) cs = (st, outs)"
    and "(m, resume) \<in> set outs"
  shows "\<exists>request. SessRecord request \<in> set cs \<and> repeats request m resume \<and> answers_id request m"
  using mrtr_run_repeats [of "{}", OF _ assms] by (simp add: recorded_def)

theorem resumes_repeat_the_call_witness: "repeats demo_call demo_ask demo_resume \<and> answers_id demo_call demo_ask"
proof -
  obtain st where "mrtr_run (with_log demo_presenter) (with_limits 4 4, ((), [])) [SessRecord demo_call, SessDecide demo_ask] =
    (st, [(demo_ask, demo_resume)])" using demo_run by blast
  from resumes_repeat_the_call [OF this, of demo_ask demo_resume] show ?thesis by simp
qed

text \<open>C15. The rounds of a call end. Over any run of records, decisions, refusals and forgotten calls, of this call and of
  others, in which this call is not both forgotten and recorded anew under its id, a session resumes the call at most
  as often as rounds are left to it, each time for a state of the runtime that it has not consumed yet. So a runtime
  that keeps asking cannot keep a call going, and a client cannot get it more rounds by recording its id again, or by
  recording other calls.\<close>

theorem input_rounds_bounded:
  assumes "mrtr_run present (M, p) cs = (st, outs)"
    and "(\<forall>r. SessRecord r \<in> set cs \<longrightarrow> message_key r \<noteq> Some key) \<or> (\<forall>i. SessForget i \<in> set cs \<longrightarrow> parse_rpc_id i \<noteq> Ok key)"
    and "nm_max_input_rounds M \<le> usize_max" and "bt_get (nm_calls M) key = Some call"
    and "rounds_used call \<le> nm_max_input_rounds M"
  shows "length (resumes_of key outs) \<le> nm_max_input_rounds M - rounds_used call \<and> distinct (resumes_of key outs) \<and>
    (\<forall>st \<in> set (resumes_of key outs). \<not> consumed call st)"
proof -
  have "not_anew key cs (bt_get (nm_calls M) key)" using assms(2,4) by (auto simp: not_anew_def)
  from mrtr_run_fresh [OF assms(1) this assms(3)] assms(4,5) show ?thesis
    by (auto simp: fresh_states_def max_def split: if_splits)
qed

theorem input_rounds_bounded_witness:
  "length (resumes_of (RpcString ''c7'')
     (snd (mrtr_run (with_log demo_presenter) (mcp_demo_session, ((), []))
       (SessRecord demo_call # SessRecord (json_obj [(''id'', CString ''c8'')]) # replicate 9 (SessDecide demo_ask))))) \<le> 4"
proof -
  have session: "nm_max_input_rounds mcp_demo_session \<le> usize_max" "bt_get (nm_calls mcp_demo_session) (RpcString ''c7'') = Some demo_tracked"
    "rounds_used demo_tracked = 0" "nm_max_input_rounds mcp_demo_session = 4"
    by (simp_all add: mcp_demo_session_def with_limits_def usize_max_def bt_get_def rounds_used_def demo_tracked_def new_call_def
        fcard_fempty)
  obtain st outs where run: "mrtr_run (with_log demo_presenter) (mcp_demo_session, ((), []))
    (SessRecord demo_call # SessRecord (json_obj [(''id'', CString ''c8'')]) # replicate 9 (SessDecide demo_ask)) = (st, outs)"
    by fastforce
  from input_rounds_bounded [OF run _ session(1,2)] session(3,4) run show ?thesis by simp
qed

text \<open>In a session over any presenter, an accepted form in a resumed call was accepted by the presenter in that very
  step: the message asked for the form under that key, the form is one constrained decision, the presenter was
  shown its options and selected one, and the answer carries the value of the selected option, a boolean or one of
  the known approval choices. No answer is made up.\<close>

lemma consent_needs_selection:
  assumes "mrtr_run (with_log present) (with_limits max_in_flight max_input_rounds, (p0, log0)) cs = ((M, (p, log)), outs0)"
    and "mrtr_step (with_log present) (M, (p, log)) c = ((M', (p', log')), outs)" and "(m, resume) \<in> set outs"
    and "member_of (json_get resume ''params'') ''inputResponses'' = Some (CObject answers)"
    and "bt_get answers key = Some r" and "accepting r"
  shows "\<exists>requests request envelope. member_of (json_get m ''result'') ''inputRequests'' = Some (CObject requests) \<and>
    (key, request) \<in> set requests \<and> elicitation_envelope key request = Ok envelope \<and>
    selected_answer (drop (length log) log') envelope r"
  using mrtr_step_accepts [OF mrtr_run_calls_from [OF calls_from_with_limits assms(1)] assms(2-6)] .

lemma consent_needs_selection_witness:
  "selected_answer [(demo_parsed, Ok (Some 0))] demo_envelope demo_answer"
proof -
  obtain M' where step: "mrtr_step (with_log demo_presenter) (mcp_demo_session, ((), [])) (SessDecide demo_ask) =
    ((M', ((), [] @ [(demo_parsed, Ok (Some 0))])), [(demo_ask, demo_resume)])"
    using demo_step by blast
  have answers: "member_of (json_get demo_resume ''params'') ''inputResponses'' = Some (CObject [(''q'', demo_answer)])"
    by (simp add: demo_resume_def resumed_call_members bt_get_resumed_params)
  obtain requests request envelope where e:
    "member_of (json_get demo_ask ''result'') ''inputRequests'' = Some (CObject requests)" "(''q'', request) \<in> set requests"
    "elicitation_envelope ''q'' request = Ok envelope" "selected_answer [(demo_parsed, Ok (Some 0))] envelope demo_answer"
    using consent_needs_selection [OF demo_start step _ answers, of demo_ask "''q''" demo_answer]
    by (auto simp: bt_get_def accepting_def demo_answer_def json_get_obj)
  then have "envelope = demo_envelope"
    by (auto simp: demo_ask_def demo_ask_for_def json_get_def bt_get_def elicitation_envelope_def as_members_def json_str_def
        demo_envelope_def result_simps split: if_splits)
  with e(4) show ?thesis by simp
qed

section \<open>A concrete run of the approvals\<close>

lemma bt_get_Cons: "bt_get ((k, v) # m) k' = (if k' = k then Some v else bt_get m k')"
  by (simp add: bt_get_def)

lemmas demo_reads = bt_get_Cons json_get_def json_str_def as_members_def

definition demo_params :: "(string, canonical_json) btree_map" where
  "demo_params = bt_insert ''_meta'' (CObject (bt_insert client_capabilities_key
     (CObject (fst (advertise_form_on_capabilities [])))
     (bt_insert ''io.modelcontextprotocol/protocolVersion'' (CString ''2026-07-28'') []))) [(''name'', CString ''write'')]"

definition demo_announced :: canonical_json where
  "demo_announced = with_member demo_call ''params'' (CObject demo_params)"

definition demo_key :: string where
  "demo_key = private_prefix @ ''f1''"

definition demo_private :: canonical_json where
  "demo_private = with_member demo_announced ''id'' (CString demo_key)"

lemma demo_announce: "announced_call demo_call = Ok demo_announced"
proof -
  have "json_get demo_call ''params'' = Some (CObject [(''name'', CString ''write'')])" by (simp add: demo_call_def demo_reads)
  then show ?thesis
    by (simp add: announced_call_def as_members_def bt_get_Cons object_entry_def Let_def client_capabilities_key_def
          demo_announced_def demo_params_def del: bt_insert.simps)
qed

lemma demo_private_members:
  "json_get demo_private ''id'' = Some (CString demo_key)" "json_get demo_private ''method'' = Some (CString ''tools/call'')"
  "json_get demo_private ''params'' = Some (CObject demo_params)" "bt_get demo_params ''name'' = Some (CString ''write'')"
  by (simp_all add: demo_private_def demo_announced_def with_member_def demo_call_def demo_reads demo_params_def del: bt_insert.simps)

definition demo_private_tracked :: tracked_call where
  "demo_private_tracked = new_call demo_private (CString demo_key) demo_params"

definition demo_context :: native_mrtr where
  "demo_context = (with_limits 1 4)\<lparr>nm_calls := [(RpcString demo_key, demo_private_tracked)]\<rparr>"

lemma demo_private_record: "record_call (with_limits 1 4) demo_private = (demo_context, Ok True)"
  by (simp add: record_call_def demo_private_members json_str_def as_members_def parse_rpc_id_def with_limits_def
      bt_contains_key_def demo_context_def demo_private_tracked_def)

definition mcp_demo_host :: pending_host where
  "mcp_demo_host = \<lparr>ph_text = (\<lambda>_. ''''), ph_order = (\<lambda>es. es)\<rparr>"

definition demo_approvals :: approvals_machine where
  "demo_approvals = approvals_start ''look at the console'' 2 4 60"

definition mcp_demo_entry :: approval_entry where
  "mcp_demo_entry = new_entry (pending_new ''look at the console'' 2 4 60) (CString ''c7'') demo_context demo_private 0"

lemma demo_host_sends: "approvals_step present mcp_demo_host demo_approvals (HostSends demo_call ''f1'' 0) =
    (demo_approvals\<lparr>pm_pending := set_entry (pm_pending demo_approvals) demo_key mcp_demo_entry\<rparr>, [Created demo_key demo_call demo_private])"
proof -
  have "json_get demo_call ''method'' = Some (CString ''tools/call'')" "rpc_message_id demo_call = CString ''c7''"
    "json_get demo_call ''params'' = Some (CObject [(''name'', CString ''write'')])"
    by (simp_all add: demo_call_def rpc_message_id_def demo_reads)
  then show ?thesis
    by (simp add: pending_upstream_def json_str_def private_prefix_def Let_def status_tool_def bt_get_Cons)
      (simp add: host_tool_call_def demo_announce demo_approvals_def approvals_start_def pending_new_def retire_def Let_def
        is_rpc_id_def start_call_def demo_key_def [symmetric] demo_private_def [symmetric] demo_private_record [unfolded One_nat_def]
        created_effects_def set_entry_def mcp_demo_entry_def new_entry_def json_str_def)
qed

lemma demo_context_calls: "bt_get (nm_calls demo_context) (RpcString demo_key) = Some demo_private_tracked"
  "tc_consumed_states demo_private_tracked = {||}" "\<not> tc_consumed_stateless demo_private_tracked"
  "0 < nm_max_input_rounds demo_context"
  by (simp_all add: demo_context_def with_limits_def bt_get_Cons demo_private_tracked_def new_call_def)

lemma demo_valid: "is_ok (validate_presentation demo_context (demo_ask_for demo_key))"
proof -
  have "elicitation_envelope ''q'' (CObject [(''method'', CString ''elicitation/create''), (''params'', demo_form)]) = Ok demo_envelope"
    by (simp add: elicitation_envelope_def as_members_def bt_get_def json_str_def demo_envelope_def) (simp add: demo_form_def)
  then show ?thesis
    by (simp add: validate_presentation_def demo_prepare [OF demo_context_calls] collect_elicitations_def
        max_input_requests_def mcp_demo_round_def demo_parse is_ok_def)
qed

lemma demo_asks: "json_get (demo_ask_for key) ''method'' = None" "json_get (demo_ask_for key) ''id'' = Some (CString key)"
  "is_input_required_result (demo_ask_for key)"
  by (simp_all add: demo_ask_for_def demo_reads is_input_required_result_def)

lemma demo_runtime_sends:
  assumes "entry_of P demo_key = Some mcp_demo_entry" and "pd_lists P = []" and "pm_pending S = P" and "pm_jobs S = []"
  shows "\<exists>ask. approvals_step present H S (RuntimeSends (demo_ask_for demo_key) 5 True) =
    (S\<lparr>pm_pending := set_entry P demo_key (awaiting_entry mcp_demo_entry (5 + pd_timeout P) True),
       pm_jobs := [(demo_key, demo_context, demo_ask_for demo_key)]\<rparr>,
     [Answered demo_key ask, Asked demo_key (demo_ask_for demo_key) 5])"
proof -
  have key: "prefix private_prefix demo_key" by (simp add: demo_key_def)
  have e: "pe_context mcp_demo_entry = Some demo_context" "\<not> pe_waiting mcp_demo_entry" "pe_result mcp_demo_entry = None"
    "pe_state mcp_demo_entry = ''running''" "\<not> pe_deferred mcp_demo_entry"
    by (simp_all add: mcp_demo_entry_def new_entry_def)
  obtain P' down job where r: "runtime_reply H P demo_key (demo_ask_for demo_key) 5 True = (P', down, job)" by (metis prod.exhaust)
  then have "P' = set_entry P demo_key (awaiting_entry mcp_demo_entry (5 + pd_timeout P) True)" "\<exists>ask. down = DownstreamForward ask"
    "job = Some (demo_key, demo_context, demo_ask_for demo_key)"
    by (auto simp: runtime_reply_def assms(1) e demo_asks demo_valid await_human_def Let_def awaiting_entry_def)
  moreover have "pending_downstream H P (demo_ask_for demo_key) 5 True = (P', down, job)"
    by (simp add: pending_downstream_def demo_asks assms(2) json_str_def key r)
  ultimately show ?thesis
    using key by (auto simp: assms(3,4) answered_effects_def private_key_def demo_asks json_str_def asked_effects_def)
qed

definition demo_private_resume :: canonical_json where
  "demo_private_resume = resumed_call demo_private_tracked (Some ''s1'') [(''q'', demo_answer)]"

lemma demo_worker_ends:
  assumes "pm_jobs S = [(demo_key, demo_context, demo_ask_for demo_key)]" and "pm_channel S = []"
  shows "\<exists>c. approvals_step (with_log demo_presenter) H S (WorkerEnds 0 ((), [])) =
    (S\<lparr>pm_jobs := [], pm_channel := [\<lparr>de_id = demo_key, de_context = c, de_resume = Ok demo_private_resume\<rparr>]\<rparr>,
     [Worked demo_key ((), [(demo_parsed, Ok (Some 0))])])"
  using demo_decide [OF demo_context_calls, of "[]"] by (auto simp: assms demo_private_resume_def)

lemma demo_ticks:
  assumes "entry_of (pm_pending S) demo_key = Some (awaiting_entry e 65 True)"
    and "pm_channel S = [\<lparr>de_id = demo_key, de_context = c, de_resume = Ok r\<rparr>]"
  shows "\<exists>S'. approvals_step present H S (Tick 10) = (S', [Resumed 10 r])"
  using assms by (simp add: pending_decisions_def settle_decision_def entry_of_expire expire_entry_def awaiting_entry_def Let_def)

lemma demo_run_approvals:
  "\<exists>S ask. approvals_run (with_log demo_presenter) mcp_demo_host demo_approvals
     [HostSends demo_call ''f1'' 0, RuntimeSends (demo_ask_for demo_key) 5 True, WorkerEnds 0 ((), []), Tick 10] =
   (S, [Created demo_key demo_call demo_private, Answered demo_key ask, Asked demo_key (demo_ask_for demo_key) 5,
        Worked demo_key ((), [(demo_parsed, Ok (Some 0))]), Resumed 10 demo_private_resume])"
proof -
  let ?P = "set_entry (pm_pending demo_approvals) demo_key mcp_demo_entry"
  let ?S1 = "demo_approvals\<lparr>pm_pending := ?P\<rparr>"
  have start: "pd_lists ?P = []" "pd_timeout ?P = 60" "pm_jobs ?S1 = []" "pm_channel ?S1 = []" "entry_of ?P demo_key = Some mcp_demo_entry"
    by (simp_all add: demo_approvals_def approvals_start_def pending_new_def)
  obtain S2 ask where S2: "approvals_step (with_log demo_presenter) mcp_demo_host ?S1 (RuntimeSends (demo_ask_for demo_key) 5 True) =
      (S2, [Answered demo_key ask, Asked demo_key (demo_ask_for demo_key) 5])"
    "pm_jobs S2 = [(demo_key, demo_context, demo_ask_for demo_key)]" "pm_channel S2 = []"
    "entry_of (pm_pending S2) demo_key = Some (awaiting_entry mcp_demo_entry 65 True)"
    using demo_runtime_sends [of ?P ?S1 "with_log demo_presenter" mcp_demo_host] start by auto
  obtain S3 c where S3: "approvals_step (with_log demo_presenter) mcp_demo_host S2 (WorkerEnds 0 ((), [])) =
      (S3, [Worked demo_key ((), [(demo_parsed, Ok (Some 0))])])"
    "pm_channel S3 = [\<lparr>de_id = demo_key, de_context = c, de_resume = Ok demo_private_resume\<rparr>]"
    "pm_pending S3 = pm_pending S2"
    using demo_worker_ends [OF S2(2,3), of mcp_demo_host] by auto
  obtain S4 where "approvals_step (with_log demo_presenter) mcp_demo_host S3 (Tick 10) = (S4, [Resumed 10 demo_private_resume])"
    using demo_ticks [of S3 mcp_demo_entry c demo_private_resume] S3(2,3) S2(4) by auto
  with S2(1) S3(1) show ?thesis by (simp add: demo_host_sends del: approvals_step.simps)
qed

section \<open>Promises of the approvals\<close>

text \<open>C13. Every tool call that the approvals forward to the runtime is answered to the host at most once, under the id
  the host gave it, whatever the runtime, the workers and the clock do and in whatever order: the first of a final
  result, a refusal and the ticket of a pending approval closes the call, and every later message of the runtime
  for it only changes what the status tool reads. The identifiers drawn for the calls are distinct.\<close>

theorem host_call_answered_once:
  assumes "approvals_run present H (approvals_start guidance limit rounds timeout) evs = (S, T)"
    and "distinct (fresh_ids evs)" and "Created key m w \<in> set T"
  shows "length (answers_to key T) \<le> 1 \<and> (\<forall>v \<in> set (answers_to key T). json_get v ''id'' = Some (rpc_message_id m))"
proof -
  have inv: "calls_inv T (pm_pending S)" using calls_inv_run [OF calls_inv_start assms(1)] by simp
  have one: "length (created_as key T) \<le> 1" by (rule created_once [OF assms(1,2)])
  have m: "m' = m" if "Created key m' w' \<in> set T" for m' w'
    using one that assms(3) unfolding by_call_set(1) [symmetric] by (cases "created_as key T") auto
  have "json_get v ''id'' = Some (rpc_message_id m)" if "v \<in> set (answers_to key T)" for v
    using calls_invD(4) [OF inv, of key v] that m by (auto simp: by_call_set)
  with one calls_invD(3) [OF inv, of key] show ?thesis by auto
qed

theorem host_call_answered_once_witness:
  "\<exists>S T. approvals_run (with_log demo_presenter) mcp_demo_host demo_approvals
     [HostSends demo_call ''f1'' 0, RuntimeSends (demo_ask_for demo_key) 5 True, WorkerEnds 0 ((), []), Tick 10] = (S, T) \<and>
   length (answers_to demo_key T) = 1 \<and> (\<forall>v \<in> set (answers_to demo_key T). json_get v ''id'' = Some (CString ''c7''))"
proof -
  obtain S ask where run: "approvals_run (with_log demo_presenter) mcp_demo_host demo_approvals
     [HostSends demo_call ''f1'' 0, RuntimeSends (demo_ask_for demo_key) 5 True, WorkerEnds 0 ((), []), Tick 10] =
   (S, [Created demo_key demo_call demo_private, Answered demo_key ask, Asked demo_key (demo_ask_for demo_key) 5,
        Worked demo_key ((), [(demo_parsed, Ok (Some 0))]), Resumed 10 demo_private_resume])"
    using demo_run_approvals by blast
  have "rpc_message_id demo_call = CString ''c7''" by (simp add: demo_call_def rpc_message_id_def demo_reads)
  with host_call_answered_once [OF run [unfolded demo_approvals_def], of demo_key demo_call demo_private] run
  show ?thesis by (simp add: fresh_ids_def)
qed

text \<open>C12. A decision that goes back to the runtime belongs to a call of the host and was made for it in time: the call
  was forwarded under a private id, a message of the runtime asked for input for that id less than the timeout ago,
  a worker answered that very message, and the resumed call repeats the forwarded call, which carries the parameters
  of the host's call but for the announced metadata. An accepted form in it was shown to that worker's
  presenter, which selected the option whose value is sent. So an expired approval never resumes an operation.\<close>

theorem decision_resumes_own_call:
  assumes "approvals_run (with_log present) H (approvals_start guidance limit rounds timeout) evs = (S, T)"
    and "distinct (fresh_ids evs)" and "\<And>n p. WorkerEnds n p \<in> set evs \<Longrightarrow> snd p = []"
    and "Resumed now resume \<in> set T"
  shows "\<exists>key m w ask t p log. Created key m w \<in> set T \<and> forwards m key w \<and> Asked key ask t \<in> set T \<and> now < t + timeout \<and>
    json_get resume ''id'' = Some (CString key) \<and> repeats w ask resume \<and> Worked key (p, log) \<in> set T \<and>
    (\<forall>answers k r. member_of (json_get resume ''params'') ''inputResponses'' = Some (CObject answers) \<longrightarrow>
       bt_get answers k = Some r \<longrightarrow> accepting r \<longrightarrow>
       (\<exists>requests request envelope. member_of (json_get ask ''result'') ''inputRequests'' = Some (CObject requests) \<and>
          (k, request) \<in> set requests \<and> elicitation_envelope k request = Ok envelope \<and> selected_answer log envelope r))"
proof -
  have "starts_well (\<lambda>p. snd p = []) ev" if "ev \<in> set evs" for ev
    using assms(3) that by (cases ev) auto
  with machine_inv_run [OF machine_inv_start assms(1) _ assms(2), of "\<lambda>p. snd p = []"]
  have "timely (with_log present) (\<lambda>p. snd p = []) timeout T now resume"
    using assms(4) by (simp add: workers_inv_def created_as_def)
  then obtain key m w ask t ctx p ctx' p' log where c: "Created key m w \<in> set T" "forwards m key w" "Asked key ask t \<in> set T"
    "now < t + timeout" "calls_from {w} ctx" "decide (with_log present) ctx ask (p, []) = ((ctx', Ok resume), (p', log))"
    "Worked key (p', log) \<in> set T" "json_get resume ''id'' = Some (CString key)" "repeats w ask resume"
    unfolding timely_def by (metis prod.collapse)
  have "mrtr_step (with_log present) (ctx, (p, [])) (SessDecide ask) = ((ctx', (p', log)), [(ask, resume)])"
    by (simp add: c(6) resumed_def)
  from mrtr_step_accepts [OF c(5) this] c show ?thesis by fastforce
qed

theorem decision_resumes_own_call_witness:
  "\<exists>log. repeats demo_private (demo_ask_for demo_key) demo_private_resume \<and>
     selected_answer log demo_envelope demo_answer \<and> log = [(demo_parsed, Ok (Some 0))]"
proof -
  obtain S ask where run: "approvals_run (with_log demo_presenter) mcp_demo_host demo_approvals
     [HostSends demo_call ''f1'' 0, RuntimeSends (demo_ask_for demo_key) 5 True, WorkerEnds 0 ((), []), Tick 10] =
   (S, [Created demo_key demo_call demo_private, Answered demo_key ask, Asked demo_key (demo_ask_for demo_key) 5,
        Worked demo_key ((), [(demo_parsed, Ok (Some 0))]), Resumed 10 demo_private_resume])"
    using demo_run_approvals by blast
  have answers: "member_of (json_get demo_private_resume ''params'') ''inputResponses'' = Some (CObject [(''q'', demo_answer)])"
    by (simp add: demo_private_resume_def resumed_call_members bt_get_resumed_params)
  have r: "bt_get [(''q'', demo_answer)] ''q'' = Some demo_answer" "accepting demo_answer"
    by (simp_all add: bt_get_def accepting_def demo_answer_def json_get_obj)
  from decision_resumes_own_call [OF run [unfolded demo_approvals_def], of 10 demo_private_resume]
  have rep: "repeats demo_private (demo_ask_for demo_key) demo_private_resume"
    and "\<exists>requests request envelope. member_of (json_get (demo_ask_for demo_key) ''result'') ''inputRequests'' = Some (CObject requests) \<and>
      (''q'', request) \<in> set requests \<and> elicitation_envelope ''q'' request = Ok envelope \<and>
      selected_answer [(demo_parsed, Ok (Some 0))] envelope demo_answer"
    using answers r by (auto simp: fresh_ids_def)
  then obtain requests request envelope where e: "member_of (json_get (demo_ask_for demo_key) ''result'') ''inputRequests'' = Some (CObject requests)"
    "(''q'', request) \<in> set requests" "elicitation_envelope ''q'' request = Ok envelope"
    "selected_answer [(demo_parsed, Ok (Some 0))] envelope demo_answer" by blast
  then have "envelope = demo_envelope"
    by (auto simp: demo_ask_for_def json_get_def bt_get_def elicitation_envelope_def as_members_def json_str_def
        demo_envelope_def result_simps split: if_splits)
  with e(4) rep show ?thesis by simp
qed

text \<open>C16. The approvals are bounded by the limit on calls in flight, whatever messages arrive: never more entries than
  the limit, never more presenters running or waiting to be read than the limit, and each call is resumed at most as
  often as the runtime asked for input to it (a count per call; which question a resume answers is C12). Only that walking a hash map visits its own entries, and that drawn identifiers
  are distinct, is assumed.\<close>

theorem approvals_bounded:
  assumes "approvals_run present H (approvals_start guidance limit rounds timeout) evs = (S, T)"
    and "distinct (fresh_ids evs)" and "walks_entries H"
  shows "length (pd_entries (pm_pending S)) \<le> limit \<and> length (pm_jobs S) + length (pm_channel S) \<le> limit \<and>
    (\<forall>key. length (resumed_for key T) \<le> length (asked_for key T))"
proof -
  have well: "starts_well (\<lambda>_. True) ev" for ev :: "'a approvals_event" by (cases ev) simp_all
  have inv: "workers_inv present (\<lambda>_. True) timeout T (pm_pending S) (pm_jobs S) (pm_channel S)" "within_capacity S"
    using machine_inv_run [OF machine_inv_start assms(1) well assms(2)] assms(3) within_capacity_start
    by (auto simp: created_as_def)
  have limit: "pd_limit (pm_pending S) = limit"
    using run_limit [OF assms(1) calls_inv_start] by (simp add: approvals_start_def pending_new_def)
  have "length (keys_of (pm_jobs S) (pm_channel S)) \<le> limit"
    using capacity_workers [OF inv(2)] inv(1) limit by (simp add: workers_inv_def)
  then show ?thesis using inv limit by (auto simp: workers_inv_def capacity_inv_def keys_of_def intro: add_leD1)
qed

theorem approvals_bounded_witness:
  "case approvals_run (with_log demo_presenter) mcp_demo_host demo_approvals (replicate 1 (HostSends demo_call ''f1'' 0)) of (S, T) \<Rightarrow>
     length (pd_entries (pm_pending S)) \<le> 2 \<and> length (pm_jobs S) + length (pm_channel S) \<le> 2"
proof -
  have "walks_entries mcp_demo_host" by (simp add: walks_entries_def mcp_demo_host_def)
  then show ?thesis
    using approvals_bounded [of "with_log demo_presenter" mcp_demo_host "''look at the console''" 2 4 60 "[HostSends demo_call ''f1'' 0]"]
    by (auto simp: fresh_ids_def demo_approvals_def simp del: approvals_run.simps(2) split: prod.split)
qed

end
