(* ===== verification/Parked_Calls.thy ===== *)
theory Parked_Calls
  imports Broker_Answers
begin

text \<open>
  The routes of parked calls resume one call each, and discovered tools are attributed to the capsules that
  advertised them.
\<close>

section \<open>Routes\<close>

definition routes_of :: "broker_host \<Rightarrow> broker_world \<Rightarrow> pending_result_routes" where
  "routes_of H w = (case bt_get (bw_kv w) pending_result_routes_key of
     Some b \<Rightarrow> (case jc_decode (bh_routes H) b of Ok rs \<Rightarrow> rs | Err _ \<Rightarrow> []) | None \<Rightarrow> [])"

lemma load_routes:
  assumes "run_state (load_pending_result_routes H) w = (rs, w')"
  shows "bw_kv w' = bw_kv w \<and> in_clock (bw_in w') = in_clock (bw_in w) \<and> (rs = routes_of H w \<or> rs = [])"
  using assms
  by (auto simp: load_pending_result_routes_def bk_get_def kv_fails_def next_input_def routes_of_def State_Monad.get_def
      split: list.splits option.splits sum.splits if_splits)

lemma persist_routes:
  assumes "json_codec_ok (bh_routes H)" and "run_state (persist_pending_result_routes H rs) w = (True, w')"
  shows "routes_of H w' = rs"
  using assms
  by (auto simp: persist_pending_result_routes_def bk_set_def kv_fails_def next_input_def routes_of_def
      json_codec_ok_def State_Monad.update_def State_Monad.get_def State_Monad.set_def
      split: list.splits option.splits sum.splits if_splits)

lemma wall_ms_run: "run_state wall_ms w = (now, w') \<Longrightarrow> bw_kv w' = bw_kv w \<and> now = (case in_clock (bw_in w) of t # _ \<Rightarrow> t | [] \<Rightarrow> 0)"
  by (auto simp: wall_ms_def next_input_def split: list.splits)

lemma routes_of_kv: "bw_kv w' = bw_kv w \<Longrightarrow> routes_of H w' = routes_of H w"
  by (simp add: routes_of_def)

lemma take_absent:
  assumes "bt_get (routes_of H w) (av_request_id req) = None"
  shows "fst (run_state (take_pending_result_route H req) w) = None"
proof -
  obtain now w1 where 1: "run_state wall_ms w = (now, w1)" by (cases "run_state wall_ms w")
  obtain rs w2 where 2: "run_state (load_pending_result_routes H) w1 = (rs, w2)"
    by (cases "run_state (load_pending_result_routes H) w1")
  have "bt_get rs (av_request_id req) = None"
    using load_routes[OF 2] wall_ms_run[OF 1] routes_of_kv[of w1 w H] assms by auto
  then show ?thesis by (simp add: take_pending_result_route_def 1 2 split: prod.split)
qed

text \<open>C23. A parked call resumes at most once, and only for the answer it was parked for. When an approval takes a route,
  that route was stored under the answer's request id, names the tool and the call that the answer names and a valid
  provider, and is no older than two minutes; afterwards no route is stored under that id, so that no later answer
  with the same id takes one, whatever inputs it meets.\<close>

theorem parked_call_resumes_once:
  assumes "json_codec_ok (bh_routes H)" and "run_state (take_pending_result_route H req) w = (Some r, w')"
  shows "bt_get (routes_of H w) (av_request_id req) = Some r \<and>
    pr_tool_name r = av_tool_name req \<and> pr_call_id r = av_call_id req \<and>
    is_valid_provider_source_id H (pr_provider_source_id r) \<and>
    pr_created_at_ms r \<le> hd (in_clock (bw_in w)) \<and> unat (hd (in_clock (bw_in w))) < unat (pr_created_at_ms r) + 120000 \<and>
    (\<forall>other i. av_request_id other = av_request_id req \<longrightarrow>
       fst (run_state (take_pending_result_route H other) (w'\<lparr>bw_in := i\<rparr>)) = None)"
proof -
  obtain now w1 where 1: "run_state wall_ms w = (now, w1)" by (cases "run_state wall_ms w")
  obtain rs w2 where 2: "run_state (load_pending_result_routes H) w1 = (rs, w2)"
    by (cases "run_state (load_pending_result_routes H) w1")
  let ?left = "retain_fresh now (bt_delete (av_request_id req) rs)"
  obtain ok w3 where 3: "run_state (persist_pending_result_routes H ?left) w2 = (ok, w3)"
    by (cases "run_state (persist_pending_result_routes H ?left) w2")
  have ok: "ok" "bt_get rs (av_request_id req) = Some r" "route_is_fresh now r"
    "route_matches H r (av_tool_name req) (av_call_id req)" "w' = w3"
    using assms(2) by (auto simp: take_pending_result_route_def 1 2 3 split: if_splits option.splits)
  have stored: "bt_get (routes_of H w) (av_request_id req) = Some r"
    using load_routes[OF 2] wall_ms_run[OF 1] routes_of_kv[of w1 w H] ok(2) by auto
  have matches: "pr_tool_name r = av_tool_name req \<and> pr_call_id r = av_call_id req \<and>
      is_valid_provider_source_id H (pr_provider_source_id r)"
    using ok(4) by (simp add: route_matches_def)
  have "now = hd (in_clock (bw_in w))"
    using wall_ms_run[OF 1] ok(3) by (auto simp: route_is_fresh_def split: list.splits)
  with ok(3) have fresh: "pr_created_at_ms r \<le> hd (in_clock (bw_in w)) \<and> unat (hd (in_clock (bw_in w))) < unat (pr_created_at_ms r) + 120000"
    by (auto simp: route_is_fresh_def word_less_nat_alt unat_sub pending_result_route_ttl_ms_def word_le_nat_alt)
  have left: "routes_of H w' = ?left" using persist_routes[OF assms(1)] 3 ok(1,5) by simp
  have "bt_get (filter p (bt_delete k m)) k = None" for p k and m :: pending_result_routes
    by (auto simp: bt_get_None_iff bt_delete_def)
  then have gone: "bt_get (routes_of H w') (av_request_id req) = None" by (simp add: left retain_fresh_def)
  have later: "fst (run_state (take_pending_result_route H other) (w'\<lparr>bw_in := i\<rparr>)) = None"
    if "av_request_id other = av_request_id req" for other i
    using take_absent[of H "w'\<lparr>bw_in := i\<rparr>" other] gone that by (simp add: routes_of_def)
  from stored matches fresh later show ?thesis by blast
qed

definition parked_world :: broker_world where
  "parked_world = demo_world\<lparr>bw_kv := [(pending_result_routes_key, ''b'')]\<rparr>"

theorem parked_call_resumes_once_witness:
  "\<exists>w'. run_state (take_pending_result_route demo_host (the (bh_approval_respond demo_host CNull))) parked_world = (Some demo_route, w') \<and>
     fst (run_state (take_pending_result_route demo_host (the (bh_approval_respond demo_host CNull))) (w'\<lparr>bw_in := demo_inputs\<rparr>)) = None"
proof -
  let ?req = "the (bh_approval_respond demo_host CNull)"
  have "fst (run_state (take_pending_result_route demo_host ?req) parked_world) = Some demo_route"
    by code_simp
  then have run: "run_state (take_pending_result_route demo_host ?req) parked_world =
      (Some demo_route, snd (run_state (take_pending_result_route demo_host ?req) parked_world))"
    by (metis prod.collapse)
  from parked_call_resumes_once[OF demo_codecs(2) run] run show ?thesis by blast
qed

section \<open>Discovery\<close>

definition advertises :: "broker_host \<Rightarrow> bus_message \<Rightarrow> mcp_tool_descriptor \<Rightarrow> bool" where
  "advertises H m d \<longleftrightarrow> bm_source_id m = td_provider_source_id d \<and> is_valid_provider_source_id H (bm_source_id m) \<and>
     (case bh_parse H (bm_payload m) of None \<Rightarrow> False
      | Some v \<Rightarrow> list_ex (\<lambda>e. d = e\<lparr>td_provider_source_id := bm_source_id m\<rparr>) (parse_describe_response H v))"

lemma bound_advertises:
  "bh_parse H (bm_payload m) = Some v \<Longrightarrow> d \<in> set (bind_provider H (parse_describe_response H v) (bm_source_id m)) \<Longrightarrow>
     advertises H m d"
  by (auto simp: bind_provider_def advertises_def list_ex_iff split: if_splits)

lemma collected_advertised: "d \<in> set (collected H batches) \<Longrightarrow> list_ex (\<lambda>m. advertises H m d) (concat batches)"
proof -
  assume "d \<in> set (collected H batches)"
  then obtain m v where "m \<in> set (concat batches)" "bh_parse H (bm_payload m) = Some v"
      "d \<in> set (bind_provider H (parse_describe_response H v) (bm_source_id m))"
    unfolding collected_def set_concat set_map by (auto split: option.splits; metis)
  with bound_advertises show ?thesis unfolding list_ex_iff by blast
qed

lemma retain_new_names:
  "td_name ` set (retain_new seen ds) = td_name ` set ds - seen \<and> distinct (map td_name (retain_new seen ds))"
  by (induction seen ds rule: retain_new.induct) auto

lemma dedupe_names: "distinct (map td_name (dedupe_last ds))"
  using retain_new_names[of "{}" "rev ds"] by (simp add: dedupe_last_def rev_map[symmetric])

lemma dedupe_keeps_names: "td_name ` set (dedupe_last ds) = td_name ` set ds"
  using retain_new_names[of "{}" "rev ds"] by (simp add: dedupe_last_def)

lemma discover_run:
  "fst (run_state (discover H) w) = [] \<or> fst (run_state (discover H) w) = dedupe_last (collected H (in_describes (bw_in w)))"
  by (auto simp: discover_def subscribe_fails_def publish_json_def next_input_def State_Monad.update_def State_Monad.get_def
      State_Monad.set_def split: list.splits sum.splits)

text \<open>Tools belong to those who advertised them. Each tool that a discovery yields was advertised by a message of
  the collected batches, the source stamped on that message is the tool's provider and a valid identity, whatever
  provider the payload claims; no name occurs twice; and a discovery that reaches the bus drops no advertised name.\<close>

lemma discovered_tools_attributed:
  "list_all (\<lambda>d. list_ex (\<lambda>m. advertises H m d) (concat (in_describes (bw_in w)))) (fst (run_state (discover H) w)) \<and>
   distinct (map td_name (fst (run_state (discover H) w))) \<and>
   (fst (run_state (discover H) w) = [] \<or>
     td_name ` set (fst (run_state (discover H) w)) = td_name ` set (collected H (in_describes (bw_in w))))"
proof -
  note r = discover_run[of H w]
  have "list_ex (\<lambda>m. advertises H m d) (concat (in_describes (bw_in w)))" if "d \<in> set (fst (run_state (discover H) w))" for d
    using r that set_retain_new[of "{}" "rev (collected H (in_describes (bw_in w)))"]
    by (intro collected_advertised) (auto simp: dedupe_last_def)
  moreover have "distinct (map td_name (fst (run_state (discover H) w)))" using r dedupe_names by auto
  moreover have "fst (run_state (discover H) w) = [] \<or>
     td_name ` set (fst (run_state (discover H) w)) = td_name ` set (collected H (in_describes (bw_in w)))"
    using r dedupe_keeps_names[of "collected H (in_describes (bw_in w))"] by metis
  ultimately show ?thesis by (simp add: list_all_iff)
qed

end
