(* ===== verification/Session_Data.thy ===== *)
theory Session_Data
  imports Host_World Key_Value
begin

text \<open>
  Sessions of the session capsule (\<open>capsules/capsule-session/src/lib.rs\<close>): the stored record, its schema migration,
  the metadata summary, metadata patches and text search. Everything here is a function of its arguments; the
  host is in \<open>Session_Store\<close>. A message's tool calls and tool results are opaque to the capsule.
  \<open>str::to_lowercase\<close> is a parameter.
\<close>

section \<open>Constants\<close>

definition session_key_prefix :: string where "session_key_prefix = ''session.data.''"
definition default_session_id :: string where "default_session_id = ''default''"
definition session_data_schema_version :: u32 where "session_data_schema_version = 2"
definition default_thread_limit :: u32 where "default_thread_limit = 50"
definition max_thread_limit :: u32 where "max_thread_limit = 200"
definition default_search_limit :: u32 where "default_search_limit = 20"
definition max_search_limit :: u32 where "max_search_limit = 100"
definition search_key_scan_budget :: u32 where "search_key_scan_budget = 200"
definition list_total_count_cap :: nat where "list_total_count_cap = 1024"
definition preview_max_chars :: nat where "preview_max_chars = 80"
definition snippet_max_chars :: nat where "snippet_max_chars = 120"
definition meta_max_bytes :: nat where "meta_max_bytes = 8192"
definition cas_retry_limit :: nat where "cas_retry_limit = 8"

definition session_key :: "string \<Rightarrow> string" where
  "session_key i = session_key_prefix @ i"

section \<open>Data\<close>

datatype message_role = Role_System | Role_User | Role_Assistant | Role_Tool

datatype content_part = Text_Part string | Image_Part canonical_json

record tool_call =
  tc_id :: string
  tc_name :: string
  tc_arguments :: canonical_json

datatype message_content =
    Plain_Text string
  | Multi_Part "content_part list"
  | Tool_Calls "tool_call list"
  | Tool_Result canonical_json

record message =
  msg_role :: message_role
  msg_content :: message_content

record session_data =
  sd_schema_version :: u32
  sd_parent :: "string option"
  sd_created_at :: "u64 option"
  sd_updated_at :: "u64 option"
  sd_title :: "string option"
  sd_archived :: bool
  sd_meta :: "string option"
  sd_messages :: "message list"

definition session_default :: session_data where
  "session_default = \<lparr>sd_schema_version = session_data_schema_version, sd_parent = None, sd_created_at = None,
     sd_updated_at = None, sd_title = None, sd_archived = False, sd_meta = None, sd_messages = []\<rparr>"

datatype sys_error = Api_Error string | Host_Error string | Json_Error string | Out_Of_Fuel

section \<open>Text of messages\<close>

definition part_text :: "content_part \<Rightarrow> string option" where
  "part_text p = (case p of Text_Part t \<Rightarrow> Some t | Image_Part _ \<Rightarrow> None)"

fun find_map :: "('a \<Rightarrow> 'b option) \<Rightarrow> 'a list \<Rightarrow> 'b option" where
  "find_map f [] = None"
| "find_map f (x # xs) = (case f x of Some y \<Rightarrow> Some y | None \<Rightarrow> find_map f xs)"

definition message_text :: "message \<Rightarrow> string option" where
  "message_text m = (case msg_content m of
     Plain_Text s \<Rightarrow> Some s
   | Multi_Part parts \<Rightarrow> find_map part_text parts
   | Tool_Calls _ \<Rightarrow> None
   | Tool_Result _ \<Rightarrow> None)"

definition ellipsis :: string where
  "ellipsis = [CHR 0xE2, CHR 0x80, CHR 0xA6]"

definition truncate_chars :: "string \<Rightarrow> nat \<Rightarrow> string" where
  "truncate_chars s n =
     (if length (chars s) \<le> n then s else concat (take n (chars s)) @ ellipsis)"

definition session_preview :: "message list \<Rightarrow> string option" where
  "session_preview ms =
     (case find (\<lambda>m. msg_role m = Role_User) ms of
        None \<Rightarrow> None
      | Some m \<Rightarrow> map_option (\<lambda>t. truncate_chars (trim t) preview_max_chars) (message_text m))"

definition session_last_message_preview :: "message list \<Rightarrow> string option" where
  "session_last_message_preview ms =
     map_option (\<lambda>t. truncate_chars (trim t) preview_max_chars) (find_map message_text (rev ms))"

section \<open>Summaries\<close>

definition opt_string_json :: "string option \<Rightarrow> canonical_json" where
  "opt_string_json x = (case x of None \<Rightarrow> CNull | Some s \<Rightarrow> CString s)"

definition u64_json :: "u64 \<Rightarrow> canonical_json" where
  "u64_json n = CNumber (PosInt n)"

definition u64_or_null :: "u64 option \<Rightarrow> canonical_json" where
  "u64_or_null x = (case x of None \<Rightarrow> CNull | Some n \<Rightarrow> u64_json n)"

definition session_summary_json :: "string \<Rightarrow> session_data \<Rightarrow> canonical_json" where
  "session_summary_json session_id d = json_obj [
     (''session_id'', CString session_id),
     (''title'', opt_string_json (sd_title d)),
     (''preview'', opt_string_json (session_preview (sd_messages d))),
     (''last_message_preview'', opt_string_json (session_last_message_preview (sd_messages d))),
     (''message_count'', u64_json (of_nat (length (sd_messages d)))),
     (''created_at'', u64_or_null (sd_created_at d)),
     (''updated_at'', u64_or_null (sd_updated_at d)),
     (''archived'', CBool (sd_archived d)),
     (''parent_session_id'', opt_string_json (sd_parent d)),
     (''meta'', opt_string_json (sd_meta d))]"

section \<open>Metadata patches\<close>

datatype 'a patch_field = Keep | Replace 'a

definition string_patch_from :: "canonical_json \<Rightarrow> string \<Rightarrow> string option patch_field" where
  "string_patch_from payload key =
     (case Option.bind (json_get payload key) json_str of
        None \<Rightarrow> Keep
      | Some s \<Rightarrow> if s = [] then Replace None else Replace (Some s))"

definition bool_patch_from :: "canonical_json \<Rightarrow> string \<Rightarrow> bool patch_field" where
  "bool_patch_from payload key =
     (case Option.bind (json_get payload key) json_bool of None \<Rightarrow> Keep | Some b \<Rightarrow> Replace b)"

definition patched :: "'a patch_field \<Rightarrow> 'a \<Rightarrow> 'a" where
  "patched p x = (case p of Keep \<Rightarrow> x | Replace y \<Rightarrow> y)"

definition apply_update_patch :: "string option patch_field \<Rightarrow> bool patch_field \<Rightarrow> string option patch_field \<Rightarrow>
    session_data \<Rightarrow> sys_error + session_data" where
  "apply_update_patch title archived meta d =
     (let changed = d\<lparr>sd_title := patched title (sd_title d), sd_archived := patched archived (sd_archived d),
        sd_meta := patched meta (sd_meta d)\<rparr> in
      case meta of
        Replace (Some new_meta) \<Rightarrow>
          if meta_max_bytes < length new_meta
          then Err (Api_Error (''session meta exceeds '' @ show_nat meta_max_bytes @ '' bytes (got '' @
            show_nat (length new_meta) @ '')''))
          else Ok changed
      | _ \<Rightarrow> Ok changed)"

section \<open>Search\<close>

fun find_str :: "string \<Rightarrow> string \<Rightarrow> nat option" where
  "find_str n [] = (if n = [] then Some 0 else None)"
| "find_str n (c # cs) = (if prefix n (c # cs) then Some 0 else map_option Suc (find_str n cs))"

definition snippet_around :: "string \<Rightarrow> string \<Rightarrow> nat \<Rightarrow> string" where
  "snippet_around txt text_lower byte_pos =
     (let char_pos = length (chars (take byte_pos text_lower));
          total_chars = length (chars txt);
          half = snippet_max_chars div 2;
          stop = min ((char_pos - half) + snippet_max_chars) total_chars;
          start = stop - snippet_max_chars;
          excerpt = trim (concat (take (stop - start) (drop start (chars txt))))
      in (if 0 < start then ellipsis else []) @ excerpt @ (if stop < total_chars then ellipsis else []))"

definition search_message :: "(string \<Rightarrow> string) \<Rightarrow> string \<Rightarrow> message \<Rightarrow> u32 \<times> string option \<Rightarrow> u32 \<times> string option" where
  "search_message lower query_lower m acc =
     (case message_text m of
        None \<Rightarrow> acc
      | Some txt \<Rightarrow>
          (case find_str query_lower (lower txt) of
             None \<Rightarrow> acc
           | Some pos \<Rightarrow>
               (u32_saturating_add (fst acc) 1,
                case snd acc of None \<Rightarrow> Some (snippet_around txt (lower txt) pos) | Some s \<Rightarrow> Some s)))"

definition search_messages :: "(string \<Rightarrow> string) \<Rightarrow> message list \<Rightarrow> string \<Rightarrow> (u32 \<times> string option) option" where
  "search_messages lower ms query_lower =
     (let acc = fold (search_message lower query_lower) ms (0, None) in
      if fst acc = 0 then None else Some acc)"

section \<open>Migration and time stamps\<close>

definition migrate :: "session_data \<Rightarrow> session_data + session_data \<times> bool" where
  "migrate d =
     (if sd_schema_version d < session_data_schema_version
      then Ok (d\<lparr>sd_schema_version := session_data_schema_version\<rparr>, True)
      else if sd_schema_version d = session_data_schema_version then Ok (d, False)
      else Err session_default)"

definition touch :: "u64 \<Rightarrow> session_data \<Rightarrow> session_data" where
  "touch now d = d\<lparr>sd_created_at := (case sd_created_at d of None \<Rightarrow> Some now | Some t \<Rightarrow> Some t),
     sd_updated_at := Some now\<rparr>"

definition touch_opt :: "u64 option \<Rightarrow> session_data \<Rightarrow> session_data" where
  "touch_opt now d = (case now of None \<Rightarrow> d | Some t \<Rightarrow> touch t d)"

section \<open>Limits and visibility\<close>

definition is_visible :: "bool \<Rightarrow> bool \<Rightarrow> bool" where
  "is_visible archived include_archived \<longleftrightarrow> \<not> archived \<or> include_archived"

definition clamp_list_limit :: "u32 option \<Rightarrow> u32" where
  "clamp_list_limit l = (case l of None \<Rightarrow> default_thread_limit | Some n \<Rightarrow> min (max n 1) max_thread_limit)"

definition clamp_search_limit :: "u32 option \<Rightarrow> u32" where
  "clamp_search_limit l = (case l of None \<Rightarrow> default_search_limit | Some n \<Rightarrow> min (max n 1) max_search_limit)"

definition tail_messages :: "message list \<Rightarrow> u32 option \<Rightarrow> message list" where
  "tail_messages ms limit = (case limit of None \<Rightarrow> ms | Some n \<Rightarrow> drop (length ms - unat n) ms)"

section \<open>Arguments of the command\<close>

record command_flags =
  cf_all :: bool
  cf_limit :: "u32 option"

text \<open>\<open>str::parse::<u32>\<close>.\<close>

definition parse_u32 :: "string \<Rightarrow> u32 option" where
  "parse_u32 s =
     (let ds = (case s of c # cs \<Rightarrow> if c = CHR ''+'' then cs else s | [] \<Rightarrow> s) in
      if ds = [] then None
      else (case digits_value 0 ds of None \<Rightarrow> None | Some n \<Rightarrow> if n < 2 ^ 32 then Some (of_nat n) else None))"

fun parse_args_from :: "command_flags \<Rightarrow> string list \<Rightarrow> string list \<Rightarrow> command_flags \<times> string list" where
  "parse_args_from flags positional [] = (flags, positional)"
| "parse_args_from flags positional (tok # toks) =
     (if tok = ''--all'' then parse_args_from (flags\<lparr>cf_all := True\<rparr>) positional toks
      else if tok = ''--limit'' then
        (case toks of
           [] \<Rightarrow> (flags, positional)
         | n # rest \<Rightarrow> parse_args_from (flags\<lparr>cf_limit := parse_u32 n\<rparr>) positional rest)
      else if tok = ''--yes'' \<or> tok = ''-y'' then parse_args_from flags positional toks
      else if prefix ''--'' tok then parse_args_from flags positional toks
      else parse_args_from flags (positional @ [tok]) toks)"

definition parse_args :: "string list \<Rightarrow> command_flags \<times> string list" where
  "parse_args args = parse_args_from \<lparr>cf_all = False, cf_limit = None\<rparr> [] args"

end
