(* ===== verification/React_World.thy ===== *)
theory React_World
  imports Session_Data
begin

text \<open>
  What the agent loop (\<open>capsules/capsule-react/src/lib.rs\<close>) keeps and sees: the state of a turn, and the host of one
  principal with its key-value store, the messages it was asked to publish and the inputs of an invocation
  (readings of the clock, fresh ids, failing calls, replies to its requests, its configuration). Code that
  \<open>serde\<close> derives, the JSON parser and the \<open>uuid\<close> library are fields of \<open>react_host\<close>. As its comments say,
  reading an absent key with \<open>kv::get_bytes\<close> gives no bytes, not an error, and an absent configuration variable
  reads as the empty string.
\<close>

section \<open>Data\<close>

type_synonym uuid128 = "128 word"

datatype phase = Idle | Awaiting_Identity | Awaiting_Prompt_Build | Streaming | Awaiting_Tools

record pending_tool_call =
  pt_id :: string
  pt_name :: string
  pt_args_json :: string
  pt_complete :: bool

record dispatched_tool_call =
  dt_id :: string
  dt_name :: string
  dt_arguments :: canonical_json
  dt_result :: "canonical_json option"
  dt_turn_request_id :: uuid128

record turn_state =
  ts_schema_version :: u32
  ts_session_id :: string
  ts_phase :: phase
  ts_system_prompt :: string
  ts_request_id :: uuid128
  ts_completion_id :: uuid128
  ts_response_text :: string
  ts_pending_stream_tools :: "pending_tool_call list"
  ts_dispatched_tools :: "dispatched_tool_call list"
  ts_current_tools :: "canonical_json list"
  ts_iteration_count :: u32
  ts_phase_entered_at_ms :: u64
  ts_request_model_override :: "string option"

definition turn_default :: turn_state where
  "turn_default = \<lparr>ts_schema_version = 1, ts_session_id = default_session_id, ts_phase = Idle, ts_system_prompt = [],
     ts_request_id = 0, ts_completion_id = 0, ts_response_text = [], ts_pending_stream_tools = [],
     ts_dispatched_tools = [], ts_current_tools = [], ts_iteration_count = 0, ts_phase_entered_at_ms = 0,
     ts_request_model_override = None\<rparr>"

datatype stream_event =
    Text_Delta string
  | Tool_Call_Start string string
  | Tool_Call_Delta string string
  | Tool_Call_End string
  | Stream_Done
  | Stream_Error string
  | Stream_Other

text \<open>The payloads the loop publishes, and those it is handed.\<close>

datatype ipc_payload =
    Raw_Json canonical_json
  | Agent_Response string bool string
  | Tool_Execute_Request string string canonical_json
  | Tool_Cancel_Request "string list"
  | Llm_Request uuid128 string "message list" "canonical_json list" string

datatype ipc_input =
    User_Input string string "canonical_json option"
  | Llm_Stream_Event uuid128 stream_event
  | Tool_Execute_Result string canonical_json
  | Other_Payload

section \<open>The world\<close>

record react_inputs =
  ri_clock :: "nat \<Rightarrow> u64"
  ri_uuids :: "nat \<Rightarrow> uuid128"
  ri_kv_faults :: "string option list"
  ri_bus_faults :: "string option list"
  ri_subscribe_faults :: "bool list"
  ri_replies :: "(sys_error + canonical_json) list"
  ri_polls :: "(unit + string list) list"
  ri_env :: "string \<Rightarrow> unit + string option"

record react_world =
  rw_kv :: "(string, string) btree_map"
  rw_bus :: "(string \<times> ipc_payload) list"
  rw_in :: react_inputs

record react_host =
  rh_turn :: "turn_state json_codec"
  rh_active :: "string list json_codec"
  rh_parse :: "string \<Rightarrow> canonical_json option"
  rh_show_uuid :: "uuid128 \<Rightarrow> string"
  rh_parse_uuid :: "string \<Rightarrow> uuid128 option"
  rh_messages :: "canonical_json \<Rightarrow> string + message list"
  rh_message :: "canonical_json \<Rightarrow> message option"
  rh_tool :: "canonical_json \<Rightarrow> canonical_json option"
  rh_messages_json :: "message list \<Rightarrow> string + canonical_json"
  rh_message_json :: "message \<Rightarrow> canonical_json option"
  rh_show :: "sys_error \<Rightarrow> string"

type_synonym 'a react_op = "(react_world, 'a) state"
type_synonym 'a react_try = "(react_world, sys_error + 'a) state"

definition next_in :: "(react_inputs \<Rightarrow> 'a list) \<Rightarrow> (('a list \<Rightarrow> 'a list) \<Rightarrow> react_inputs \<Rightarrow> react_inputs) \<Rightarrow> 'a \<Rightarrow> 'a react_op" where
  "next_in sel upd d = State (\<lambda>w. case sel (rw_in w) of
     [] \<Rightarrow> (d, w) | x # xs \<Rightarrow> (x, w\<lparr>rw_in := upd (\<lambda>_. xs) (rw_in w)\<rparr>))"

text \<open>\<open>now_ms\<close>: a reading is 0 when the clock is unavailable. The clock and the ids are infinite sequences.\<close>

definition now_ms :: "u64 react_op" where
  "now_ms = State (\<lambda>w. (ri_clock (rw_in w) 0, w\<lparr>rw_in := ri_clock_update (\<lambda>f n. f (Suc n)) (rw_in w)\<rparr>))"

definition new_uuid :: "uuid128 react_op" where
  "new_uuid = State (\<lambda>w. (ri_uuids (rw_in w) 0, w\<lparr>rw_in := ri_uuids_update (\<lambda>f n. f (Suc n)) (rw_in w)\<rparr>))"

section \<open>Host calls\<close>

definition rk_call :: "((string, string) btree_map \<Rightarrow> 'a \<times> (string, string) btree_map) \<Rightarrow> 'a react_try" where
  "rk_call f = do {
     fault \<leftarrow> next_in ri_kv_faults ri_kv_faults_update None;
     w \<leftarrow> State_Monad.get;
     case fault of
       Some e \<Rightarrow> ret (Err (Host_Error e))
     | None \<Rightarrow> do { State_Monad.update (rw_kv_update (\<lambda>m. snd (f m))); ret (Ok (fst (f (rw_kv w)))) } }"

definition rk_get_opt :: "string \<Rightarrow> string option react_try" where
  "rk_get_opt key = rk_call (\<lambda>m. (bt_get m key, m))"

definition rk_get :: "string \<Rightarrow> string react_try" where
  "rk_get key = rk_call (\<lambda>m. (case bt_get m key of None \<Rightarrow> [] | Some b \<Rightarrow> b, m))"

definition rk_set :: "string \<Rightarrow> string \<Rightarrow> unit react_try" where
  "rk_set key v = rk_call (\<lambda>m. ((), bt_insert key v m))"

definition rk_delete :: "string \<Rightarrow> unit react_try" where
  "rk_delete key = rk_call (\<lambda>m. ((), bt_delete key m))"

definition rk_clear_prefix :: "string \<Rightarrow> unit react_try" where
  "rk_clear_prefix p = rk_call (\<lambda>m. ((), filter (\<lambda>e. \<not> prefix p (fst e)) m))"

definition rk_get_json :: "'a json_codec \<Rightarrow> string \<Rightarrow> 'a option react_try" where
  "rk_get_json J key = attempt (rk_get_opt key) (\<lambda>raw. case raw of
     None \<Rightarrow> ret (Ok None)
   | Some b \<Rightarrow> (case jc_decode J b of Err e \<Rightarrow> ret (Err (Json_Error e)) | Ok x \<Rightarrow> ret (Ok (Some x))))"

definition rk_set_json :: "'a json_codec \<Rightarrow> string \<Rightarrow> 'a \<Rightarrow> unit react_try" where
  "rk_set_json J key x = (case jc_encode J x of Err e \<Rightarrow> ret (Err (Json_Error e)) | Ok b \<Rightarrow> rk_set key b)"

definition react_publish :: "string \<Rightarrow> ipc_payload \<Rightarrow> unit react_try" where
  "react_publish topic payload = do {
     fault \<leftarrow> next_in ri_bus_faults ri_bus_faults_update None;
     case fault of
       Some e \<Rightarrow> ret (Err (Host_Error e))
     | None \<Rightarrow> do { State_Monad.update (rw_bus_update (\<lambda>bus. bus @ [(topic, payload)])); ret (Ok ()) } }"

text \<open>A request on the bus and its reply, or the error of the wait for it.\<close>

definition request_response :: "string \<Rightarrow> canonical_json \<Rightarrow> canonical_json react_try" where
  "request_response topic request = attempt (react_publish topic (Raw_Json request)) (\<lambda>_.
     next_in ri_replies ri_replies_update (Err (Host_Error ''timeout'')))"

definition subscribes :: "bool react_op" where
  "subscribes = do { failed \<leftarrow> next_in ri_subscribe_faults ri_subscribe_faults_update False; ret (\<not> failed) }"

definition poll_subscription :: "string list option react_op" where
  "poll_subscription = do { r \<leftarrow> next_in ri_polls ri_polls_update (Err ()); ret (case r of Err _ \<Rightarrow> None | Ok ms \<Rightarrow> Some ms) }"

definition env_var_opt :: "string \<Rightarrow> (unit + string option) react_op" where
  "env_var_opt key = do { w \<leftarrow> State_Monad.get; ret (ri_env (rw_in w) key) }"

definition var_or_empty :: "unit + string option \<Rightarrow> unit + string" where
  "var_or_empty v = (case v of Err e \<Rightarrow> Err e | Ok None \<Rightarrow> Ok [] | Ok (Some s) \<Rightarrow> Ok s)"

definition env_var :: "string \<Rightarrow> (unit + string) react_op" where
  "env_var key = do { v \<leftarrow> env_var_opt key; ret (var_or_empty v) }"

text \<open>Calls whose result the source drops or only logs.\<close>

definition quietly :: "'a react_op \<Rightarrow> unit react_op" where
  "quietly m = do { _ \<leftarrow> m; ret () }"

section \<open>Configuration\<close>

definition trim_quote_marks :: "string \<Rightarrow> string" where
  "trim_quote_marks s = rev (dropWhile (\<lambda>c. c = CHR 0x22) (rev (dropWhile (\<lambda>c. c = CHR 0x22) s)))"

text \<open>\<open>str::parse::<u64>\<close>.\<close>

definition parse_number :: "string \<Rightarrow> u64 option" where
  "parse_number s =
     (let ds = (case s of c # cs \<Rightarrow> if c = CHR ''+'' then cs else s | [] \<Rightarrow> s) in
      if ds = [] then None
      else (case digits_value 0 ds of None \<Rightarrow> None | Some n \<Rightarrow> if n < 2 ^ 64 then Some (of_nat n) else None))"

definition config_value :: "unit + string \<Rightarrow> u64 \<Rightarrow> u64" where
  "config_value v d = (case v of
     Err _ \<Rightarrow> d
   | Ok s \<Rightarrow> if trim s = [] then d
       else (case parse_number (trim_quote_marks (trim s)) of None \<Rightarrow> d | Some n \<Rightarrow> n))"

definition get_config_u64 :: "string \<Rightarrow> u64 \<Rightarrow> u64 react_op" where
  "get_config_u64 key d = do { v \<leftarrow> env_var key; ret (config_value v d) }"

section \<open>Numbers in the store\<close>

definition le_bytes :: "u64 \<Rightarrow> string" where
  "le_bytes n = map (\<lambda>i. char_of (unat (drop_bit (8 * i) n AND 0xFF))) [0..<8]"

fun le_value :: "string \<Rightarrow> nat" where
  "le_value [] = 0"
| "le_value (c # cs) = of_char c + 256 * le_value cs"

definition from_le_bytes :: "string \<Rightarrow> u64 option" where
  "from_le_bytes bs = (if length bs = 8 then Some (of_nat (le_value bs)) else None)"

end
