(* ===== verification/React_Loop.thy ===== *)
theory React_Loop
  imports React_World
begin

text \<open>
  The parts of the agent loop below its handlers (\<open>capsules/capsule-react/src/lib.rs\<close>): the correlation keys, the
  list of active sessions, the life of a turn with its timeouts, the resolution of the model, the requests to
  the session capsule and the context engine, and the dispatch at the end of a stream. A method on
  \<open>&mut TurnState\<close> returns the new turn.
\<close>

section \<open>Keys\<close>

definition turn_key_prefix :: string where "turn_key_prefix = ''react.turn.''"
definition request_session_prefix :: string where "request_session_prefix = ''react.req2sess.''"
definition call_session_prefix :: string where "call_session_prefix = ''react.call2sess.''"
definition active_sessions_key :: string where "active_sessions_key = ''react.active_sessions''"
definition kv_context_window :: string where "kv_context_window = ''react.context_window''"
definition kv_max_output_tokens :: string where "kv_max_output_tokens = ''react.max_output_tokens''"
definition kv_provider_model :: string where "kv_provider_model = ''react.llm_provider_model''"
definition kv_provider_topic :: string where "kv_provider_topic = ''llm_provider_topic''"
definition provider_topic_prefix :: string where "provider_topic_prefix = ''llm.v1.request.generate.''"
definition compact_request_topic :: string where "compact_request_topic = ''context_engine.v1.compact''"
definition max_redrive_retries :: u64 where "max_redrive_retries = 20"
definition default_max_iterations :: u32 where "default_max_iterations = 25"
definition response_topic_agent :: string where "response_topic_agent = ''agent.v1.response''"
definition get_messages_topic :: string where "get_messages_topic = ''session.v1.request.get_messages''"

definition turn_key :: "string \<Rightarrow> string" where
  "turn_key session_id = turn_key_prefix @ session_id"

definition request_key :: "react_host \<Rightarrow> uuid128 \<Rightarrow> string" where
  "request_key H request_id = request_session_prefix @ rh_show_uuid H request_id"

definition call_key :: "string \<Rightarrow> string" where
  "call_key call_id = call_session_prefix @ call_id"

definition store_request_session :: "react_host \<Rightarrow> uuid128 \<Rightarrow> string \<Rightarrow> unit react_try" where
  "store_request_session H request_id session_id = rk_set (request_key H request_id) session_id"

definition looked_up :: "sys_error + string \<Rightarrow> string option" where
  "looked_up r = (case r of Err _ \<Rightarrow> None | Ok b \<Rightarrow> if utf8_valid b then Some b else None)"

definition lookup_session_by_request :: "react_host \<Rightarrow> uuid128 \<Rightarrow> string option react_op" where
  "lookup_session_by_request H request_id = do { r \<leftarrow> rk_get (request_key H request_id); ret (looked_up r) }"

fun store_call_sessions :: "string list \<Rightarrow> string \<Rightarrow> unit react_try" where
  "store_call_sessions [] session_id = ret (Ok ())"
| "store_call_sessions (call_id # call_ids) session_id =
     attempt (rk_set (call_key call_id) session_id) (\<lambda>_. store_call_sessions call_ids session_id)"

definition lookup_session_by_call :: "string \<Rightarrow> string option react_op" where
  "lookup_session_by_call call_id = do { r \<leftarrow> rk_get (call_key call_id); ret (looked_up r) }"

definition delete_request_session :: "react_host \<Rightarrow> uuid128 \<Rightarrow> unit react_op" where
  "delete_request_session H request_id = quietly (rk_delete (request_key H request_id))"

fun delete_call_sessions :: "string list \<Rightarrow> unit react_op" where
  "delete_call_sessions [] = ret ()"
| "delete_call_sessions (call_id # call_ids) = do { quietly (rk_delete (call_key call_id)); delete_call_sessions call_ids }"

section \<open>Active sessions\<close>

definition load_active_sessions :: "react_host \<Rightarrow> string list react_op" where
  "load_active_sessions H = do {
     r \<leftarrow> rk_get_json (rh_active H) active_sessions_key;
     ret (case r of Ok (Some v) \<Rightarrow> v | Ok None \<Rightarrow> [] | Err _ \<Rightarrow> []) }"

definition register_active_session :: "react_host \<Rightarrow> string \<Rightarrow> unit react_op" where
  "register_active_session H session_id = do {
     sessions \<leftarrow> load_active_sessions H;
     if session_id \<in> set sessions then ret ()
     else quietly (rk_set_json (rh_active H) active_sessions_key (sessions @ [session_id])) }"

text \<open>\<open>Vec::swap_remove\<close>.\<close>

definition swap_remove :: "nat \<Rightarrow> 'a list \<Rightarrow> 'a list" where
  "swap_remove i xs = (if Suc i = length xs then butlast xs else (butlast xs)[i := last xs])"

fun position :: "'a \<Rightarrow> 'a list \<Rightarrow> nat option" where
  "position x [] = None"
| "position x (y # ys) = (if y = x then Some 0 else map_option Suc (position x ys))"

definition unregister_active_session :: "react_host \<Rightarrow> string \<Rightarrow> unit react_op" where
  "unregister_active_session H session_id = do {
     sessions \<leftarrow> load_active_sessions H;
     case position session_id sessions of
       None \<Rightarrow> ret ()
     | Some i \<Rightarrow> quietly (rk_set_json (rh_active H) active_sessions_key (swap_remove i sessions)) }"

definition clear_ephemeral_keys :: "unit react_op" where
  "clear_ephemeral_keys = do {
     quietly (rk_clear_prefix turn_key_prefix);
     quietly (rk_clear_prefix request_session_prefix);
     quietly (rk_clear_prefix call_session_prefix);
     quietly (rk_delete active_sessions_key) }"

section \<open>The life of a turn\<close>

definition load_turn :: "react_host \<Rightarrow> string \<Rightarrow> turn_state react_op" where
  "load_turn H session_id = do {
     r \<leftarrow> rk_get_json (rh_turn H) (turn_key session_id);
     let stored = (case r of Ok (Some s) \<Rightarrow> s | _ \<Rightarrow> turn_default);
     let known = (if ts_schema_version stored = 0 \<or> ts_schema_version stored = 1 then stored else turn_default);
     ret (known\<lparr>ts_session_id := session_id\<rparr>) }"

definition save_turn :: "react_host \<Rightarrow> turn_state \<Rightarrow> unit react_try" where
  "save_turn H st = rk_set_json (rh_turn H) (turn_key (ts_session_id st)) st"

definition reset_turn :: "turn_state \<Rightarrow> turn_state react_op" where
  "reset_turn st = do {
     request_id \<leftarrow> new_uuid;
     ret (st\<lparr>ts_response_text := [], ts_pending_stream_tools := [], ts_dispatched_tools := [],
       ts_request_id := request_id\<rparr>) }"

definition reset_conversation_turn :: "turn_state \<Rightarrow> turn_state react_op" where
  "reset_conversation_turn st = do {
     st' \<leftarrow> reset_turn st;
     completion_id \<leftarrow> new_uuid;
     ret (st'\<lparr>ts_completion_id := completion_id, ts_current_tools := [], ts_iteration_count := 0,
       ts_request_model_override := None\<rparr>) }"

definition set_phase :: "react_host \<Rightarrow> phase \<Rightarrow> turn_state \<Rightarrow> turn_state react_op" where
  "set_phase H p st = do {
     now \<leftarrow> now_ms;
     (if p = Idle then unregister_active_session H (ts_session_id st) else ret ());
     ret (st\<lparr>ts_phase := p, ts_phase_entered_at_ms := now\<rparr>) }"

definition completion_event :: "react_host \<Rightarrow> turn_state \<Rightarrow> string \<Rightarrow> bool \<Rightarrow> ipc_payload" where
  "completion_event H st txt is_final = Raw_Json (json_obj [
     (''text'', CString txt), (''is_final'', CBool is_final), (''session_id'', CString (ts_session_id st)),
     (''request_id'', CString (rh_show_uuid H (ts_completion_id st)))])"

definition phase_name :: "phase \<Rightarrow> string" where
  "phase_name p = (case p of Idle \<Rightarrow> ''Idle'' | Awaiting_Identity \<Rightarrow> ''AwaitingIdentity''
     | Awaiting_Prompt_Build \<Rightarrow> ''AwaitingPromptBuild'' | Streaming \<Rightarrow> ''Streaming'' | Awaiting_Tools \<Rightarrow> ''AwaitingTools'')"

text \<open>The default timeout in seconds and its configuration variable.\<close>

definition phase_timeout :: "phase \<Rightarrow> (u64 \<times> string) option" where
  "phase_timeout p = (case p of
     Idle \<Rightarrow> None
   | Awaiting_Identity \<Rightarrow> Some (30, ''identity_timeout_secs'')
   | Awaiting_Prompt_Build \<Rightarrow> Some (30, ''identity_timeout_secs'')
   | Streaming \<Rightarrow> Some (120, ''streaming_timeout_secs'')
   | Awaiting_Tools \<Rightarrow> Some (60, ''tool_timeout_secs''))"

definition elapsed_secs :: "u64 \<Rightarrow> u64 \<Rightarrow> u64" where
  "elapsed_secs now entered = (if entered \<le> now then now - entered else 0) div 1000"

definition timeout_text :: "phase \<Rightarrow> u64 \<Rightarrow> string" where
  "timeout_text p timeout = ''Request timed out ('' @ phase_name p @ '' phase exceeded '' @ show_nat (unat timeout) @ ''s limit)''"

text \<open>Back to \<open>Idle\<close> after an end of the turn: the reset, the phase and the save.\<close>

definition end_turn :: "react_host \<Rightarrow> turn_state \<Rightarrow> turn_state react_try" where
  "end_turn H st = do {
     st1 \<leftarrow> reset_conversation_turn st;
     st2 \<leftarrow> set_phase H Idle st1;
     attempt (save_turn H st2) (\<lambda>_. ret (Ok st2)) }"

definition check_phase_timeout :: "react_host \<Rightarrow> turn_state \<Rightarrow> (bool \<times> turn_state) react_try" where
  "check_phase_timeout H st =
     (case phase_timeout (ts_phase st) of
        None \<Rightarrow> ret (Ok (False, st))
      | Some (default_secs, config_key) \<Rightarrow> do {
          now \<leftarrow> now_ms;
          if now = 0 \<or> ts_phase_entered_at_ms st = 0 then ret (Ok (False, st))
          else do {
            timeout \<leftarrow> get_config_u64 config_key default_secs;
            if timeout \<le> elapsed_secs now (ts_phase_entered_at_ms st)
            then do {
              quietly (react_publish response_topic_agent
                (completion_event H st (timeout_text (ts_phase st) timeout) True));
              attempt (end_turn H st) (\<lambda>st'. ret (Ok (True, st'))) }
            else ret (Ok (False, st)) } })"

definition dispatched_ids :: "turn_state \<Rightarrow> string list" where
  "dispatched_ids st = map dt_id (ts_dispatched_tools st)"

definition cleanup_inflight_mappings :: "react_host \<Rightarrow> turn_state \<Rightarrow> unit react_op" where
  "cleanup_inflight_mappings H st = do {
     (if ts_request_id st \<noteq> 0 then delete_request_session H (ts_request_id st) else ret ());
     delete_call_sessions (dispatched_ids st) }"

definition check_timeout_with_cleanup :: "react_host \<Rightarrow> turn_state \<Rightarrow> (bool \<times> turn_state) react_try" where
  "check_timeout_with_cleanup H st =
     (if ts_phase st = Idle then ret (Ok (False, st))
      else attempt (check_phase_timeout H st) (\<lambda>r.
        if fst r then do { cleanup_inflight_mappings H st; ret (Ok r) } else ret (Ok r)))"

section \<open>The session capsule\<close>

definition fetch_messages_inner :: "react_host \<Rightarrow> string \<Rightarrow> message list option \<Rightarrow> message list react_try" where
  "fetch_messages_inner H session_id append_before_read =
     (let ask = (\<lambda>fields. attempt (request_response get_messages_topic (json_obj ((''session_id'', CString session_id) # fields)))
        (\<lambda>response. case json_get response ''messages'' of
           None \<Rightarrow> ret (Ok [])
         | Some v \<Rightarrow> (case rh_messages H v of
             Err e \<Rightarrow> ret (Err (Api_Error (''Failed to parse session messages: '' @ e)))
           | Ok ms \<Rightarrow> ret (Ok ms)))) in
      case append_before_read of
        None \<Rightarrow> ask []
      | Some msgs \<Rightarrow>
          if msgs = [] then ask []
          else (case rh_messages_json H msgs of
              Err e \<Rightarrow> ret (Err (Api_Error (''Failed to serialize append messages: '' @ e)))
            | Ok v \<Rightarrow> ask [(''append_before_read'', v)]))"

definition fetch_messages :: "react_host \<Rightarrow> string \<Rightarrow> message list react_try" where
  "fetch_messages H session_id = fetch_messages_inner H session_id None"

definition fetch_messages_with_append :: "react_host \<Rightarrow> string \<Rightarrow> message list \<Rightarrow> message list react_try" where
  "fetch_messages_with_append H session_id msgs = fetch_messages_inner H session_id (Some msgs)"

section \<open>The model\<close>

record active_llm_choice =
  al_topic :: string
  al_model :: "string option"

datatype broadcast_action = Clear_All | Set_Topic string | Reject_Topic string | Ignore_Broadcast

datatype model_cache_action = Set_Model string | Clear_Model

definition cleared_cache_keys :: "string list" where
  "cleared_cache_keys = [kv_provider_topic, kv_provider_model, kv_context_window, kv_max_output_tokens]"

definition payload_string :: "canonical_json \<Rightarrow> string \<Rightarrow> string option" where
  "payload_string payload key = Option.bind (json_get payload key) json_str"

definition broadcast_action_for :: "canonical_json \<Rightarrow> broadcast_action" where
  "broadcast_action_for payload =
     (if payload = CNull then Clear_All
      else (case payload_string payload ''request_topic'' of
          Some topic \<Rightarrow> if prefix provider_topic_prefix topic then Set_Topic topic else Reject_Topic topic
        | None \<Rightarrow> Ignore_Broadcast))"

definition non_blank :: "string option \<Rightarrow> string option" where
  "non_blank x = (case x of None \<Rightarrow> None | Some s \<Rightarrow> if trim s = [] then None else Some s)"

definition cached_model_action :: "canonical_json \<Rightarrow> model_cache_action" where
  "cached_model_action payload =
     (case non_blank (payload_string payload ''id'') of Some model \<Rightarrow> Set_Model model | None \<Rightarrow> Clear_Model)"

definition parse_active_provider :: "canonical_json \<Rightarrow> active_llm_choice option" where
  "parse_active_provider payload =
     (case payload of
        CObject _ \<Rightarrow> (case payload_string payload ''request_topic'' of
            None \<Rightarrow> None
          | Some topic \<Rightarrow>
              if prefix provider_topic_prefix topic
              then Some \<lparr>al_topic = topic, al_model = non_blank (payload_string payload ''id'')\<rparr>
              else None)
      | _ \<Rightarrow> None)"

definition resolve_request_model :: "string option \<Rightarrow> active_llm_choice \<Rightarrow> string option" where
  "resolve_request_model override_model active =
     (case non_blank override_model of Some m \<Rightarrow> Some m | None \<Rightarrow> non_blank (al_model active))"

definition cache_model :: "canonical_json \<Rightarrow> unit react_op" where
  "cache_model payload = (case cached_model_action payload of
     Set_Model model \<Rightarrow> quietly (rk_set kv_provider_model model)
   | Clear_Model \<Rightarrow> quietly (rk_delete kv_provider_model))"

definition payload_number :: "canonical_json \<Rightarrow> string \<Rightarrow> u64 option" where
  "payload_number payload key = Option.bind (json_get payload key) json_u64"

definition cache_limit_if_given :: "canonical_json \<Rightarrow> string \<Rightarrow> string \<Rightarrow> unit react_op" where
  "cache_limit_if_given payload kv_key payload_key = (case payload_number payload payload_key of
     None \<Rightarrow> ret () | Some v \<Rightarrow> quietly (rk_set kv_key (le_bytes v)))"

definition fetch_active_llm_topic_from_registry :: "react_host \<Rightarrow> active_llm_choice option react_op" where
  "fetch_active_llm_topic_from_registry H = do {
     subscribed \<leftarrow> subscribes;
     if \<not> subscribed then ret None
     else do {
       asked \<leftarrow> react_publish ''registry.v1.get_active_model'' (Raw_Json (json_obj []));
       case asked of
         Err _ \<Rightarrow> ret None
       | Ok _ \<Rightarrow> do {
           batch \<leftarrow> poll_subscription;
           case batch of
             None \<Rightarrow> ret None
           | Some [] \<Rightarrow> ret None
           | Some (m # _) \<Rightarrow>
               (case rh_parse H m of
                  None \<Rightarrow> ret None
                | Some payload \<Rightarrow>
                    (case parse_active_provider payload of
                       None \<Rightarrow> ret None
                     | Some active \<Rightarrow> do {
                         quietly (rk_set kv_provider_topic (al_topic active));
                         cache_model payload;
                         cache_limit_if_given payload kv_context_window ''context_window'';
                         cache_limit_if_given payload kv_max_output_tokens ''max_output_tokens'';
                         ret (Some active) })) } } }"

definition cached_active_llm :: "active_llm_choice option react_op" where
  "cached_active_llm = do {
     t \<leftarrow> rk_get_opt kv_provider_topic;
     case t of
       Ok (Some topic) \<Rightarrow>
         if utf8_valid topic \<and> topic \<noteq> [] then do {
           m \<leftarrow> rk_get_opt kv_provider_model;
           ret (Some \<lparr>al_topic = topic, al_model = (case m of
             Ok (Some b) \<Rightarrow> if utf8_valid b then non_blank (Some b) else None | _ \<Rightarrow> None)\<rparr>) }
         else ret None
     | _ \<Rightarrow> ret None }"

definition active_llm :: "react_host \<Rightarrow> active_llm_choice react_op" where
  "active_llm H = do {
     cached \<leftarrow> cached_active_llm;
     case cached of
       Some active \<Rightarrow> ret active
     | None \<Rightarrow> do {
         override \<leftarrow> env_var_opt kv_provider_topic;
         case override of
           Ok (Some (c # topic)) \<Rightarrow> ret \<lparr>al_topic = c # topic, al_model = None\<rparr>
         | _ \<Rightarrow> do {
             fetched \<leftarrow> fetch_active_llm_topic_from_registry H;
             ret (case fetched of
                 Some active \<Rightarrow> active
               | None \<Rightarrow> \<lparr>al_topic = provider_topic_prefix @ ''anthropic'', al_model = None\<rparr>) } } }"

section \<open>Compaction\<close>

definition cached_context_window :: "u64 option react_op" where
  "cached_context_window = do {
     r \<leftarrow> rk_get kv_context_window;
     ret (case r of Err _ \<Rightarrow> None | Ok b \<Rightarrow> (case from_le_bytes b of None \<Rightarrow> None | Some v \<Rightarrow> if v > 0 then Some v else None)) }"

definition cached_max_output_tokens :: "u64 react_op" where
  "cached_max_output_tokens = do {
     r \<leftarrow> rk_get kv_max_output_tokens;
     ret (case r of Err _ \<Rightarrow> 0 | Ok b \<Rightarrow> (case from_le_bytes b of None \<Rightarrow> 0 | Some v \<Rightarrow> v)) }"

definition parse_compaction_response :: "react_host \<Rightarrow> canonical_json \<Rightarrow> message list option" where
  "parse_compaction_response H payload =
     (case Option.bind (json_get payload ''messages'') json_array of
        None \<Rightarrow> None
      | Some vs \<Rightarrow> Some (List.map_filter (rh_message H) vs))"

definition ask_compaction :: "react_host \<Rightarrow> string \<Rightarrow> message list \<Rightarrow> u64 \<Rightarrow> u64 \<Rightarrow> message list option react_op" where
  "ask_compaction H session_id ms max_tokens target_tokens = do {
     asked \<leftarrow> react_publish compact_request_topic (Raw_Json (json_obj [
       (''session_id'', CString session_id), (''messages'', CArray (List.map_filter (rh_message_json H) ms)),
       (''max_tokens'', u64_json max_tokens), (''target_tokens'', u64_json target_tokens)]));
     case asked of
       Err _ \<Rightarrow> ret None
     | Ok _ \<Rightarrow> do {
         batch \<leftarrow> poll_subscription;
         ret (case batch of
             Some (m # _) \<Rightarrow> Option.bind (rh_parse H m) (parse_compaction_response H)
           | _ \<Rightarrow> None) } }"

definition compact_messages :: "react_host \<Rightarrow> string \<Rightarrow> message list \<Rightarrow> message list react_op" where
  "compact_messages H session_id ms = do {
     window \<leftarrow> cached_context_window;
     case window of
       None \<Rightarrow> ret ms
     | Some context_window \<Rightarrow> do {
         max_output \<leftarrow> cached_max_output_tokens;
         let max_tokens = (if max_output \<le> context_window then context_window - max_output else 0);
         if max_tokens = 0 then ret ms
         else do {
           subscribed \<leftarrow> subscribes;
           if \<not> subscribed then ret ms
           else do {
             r \<leftarrow> ask_compaction H session_id ms max_tokens (max_tokens * 9 div 10);
             ret (case r of Some compacted \<Rightarrow> compacted | None \<Rightarrow> ms) } } } }"

section \<open>The request to the model\<close>

definition no_model_message :: string where
  "no_model_message = ''No LLM model is selected. Run `aos models` to choose one, or install/configure an LLM provider.''"

definition fail_no_model_selected :: "react_host \<Rightarrow> turn_state \<Rightarrow> unit react_try" where
  "fail_no_model_selected H st = do {
     quietly (react_publish response_topic_agent (Agent_Response no_model_message True (ts_session_id st)));
     cleanup_inflight_mappings H st;
     attempt (end_turn H st) (\<lambda>_. ret (Ok ())) }"

definition publish_llm_request :: "react_host \<Rightarrow> turn_state \<Rightarrow> message list \<Rightarrow> unit react_try" where
  "publish_llm_request H st ms = do {
     active \<leftarrow> active_llm H;
     case resolve_request_model (ts_request_model_override st) active of
       None \<Rightarrow> fail_no_model_selected H st
     | Some model \<Rightarrow> do {
         compacted \<leftarrow> compact_messages H (ts_session_id st) ms;
         attempt (store_request_session H (ts_request_id st) (ts_session_id st)) (\<lambda>_. do {
           r \<leftarrow> react_publish (al_topic active)
             (Llm_Request (ts_request_id st) model compacted (ts_current_tools st) (ts_system_prompt st));
           case r of
             Err e \<Rightarrow> do { delete_request_session H (ts_request_id st); ret (Err e) }
           | Ok _ \<Rightarrow> ret (Ok ()) }) } }"

section \<open>The end of a stream\<close>

definition dispatch_call :: "react_host \<Rightarrow> uuid128 \<Rightarrow> pending_tool_call \<Rightarrow> dispatched_tool_call" where
  "dispatch_call H request_id tc = \<lparr>dt_id = pt_id tc, dt_name = pt_name tc,
     dt_arguments = (case rh_parse H (pt_args_json tc) of None \<Rightarrow> CObject [] | Some args \<Rightarrow> args),
     dt_result = None, dt_turn_request_id = request_id\<rparr>"

fun publish_tools :: "react_host \<Rightarrow> turn_state \<Rightarrow> string list \<Rightarrow> dispatched_tool_call list \<Rightarrow> unit react_try" where
  "publish_tools H st call_ids [] = ret (Ok ())"
| "publish_tools H st call_ids (tc # tcs) = do {
     r \<leftarrow> react_publish ''tool.v1.request.execute'' (Tool_Execute_Request (dt_id tc) (dt_name tc) (dt_arguments tc));
     case r of
       Ok _ \<Rightarrow> publish_tools H st call_ids tcs
     | Err e \<Rightarrow> do {
         delete_call_sessions call_ids;
         quietly (react_publish response_topic_agent (Agent_Response
           (''Failed to dispatch tool '' @ dt_name tc @ '': '' @ rh_show H e) True (ts_session_id st)));
         st' \<leftarrow> set_phase H Idle st;
         attempt (save_turn H st') (\<lambda>_. ret (Err e)) } }"

definition assistant_text :: "string \<Rightarrow> message" where
  "assistant_text t = \<lparr>msg_role = Role_Assistant, msg_content = Plain_Text t\<rparr>"

definition handle_stream_done :: "react_host \<Rightarrow> turn_state \<Rightarrow> unit react_try" where
  "handle_stream_done H st = do {
     delete_request_session H (ts_request_id st);
     if ts_pending_stream_tools st \<noteq> [] then do {
       let dispatched = map (dispatch_call H (ts_request_id st)) (ts_pending_stream_tools st);
       let call_ids = map dt_id dispatched;
       attempt (store_call_sessions call_ids (ts_session_id st)) (\<lambda>_. do {
         st' \<leftarrow> set_phase H Awaiting_Tools (st\<lparr>ts_dispatched_tools := dispatched, ts_pending_stream_tools := []\<rparr>);
         saved \<leftarrow> save_turn H st';
         case saved of
           Err e \<Rightarrow> do { delete_call_sessions call_ids; ret (Err e) }
         | Ok _ \<Rightarrow> publish_tools H st' call_ids dispatched }) }
     else if ts_response_text st \<noteq> [] then
       attempt (fetch_messages_with_append H (ts_session_id st) [assistant_text (ts_response_text st)]) (\<lambda>_.
       attempt (react_publish response_topic_agent (Agent_Response (ts_response_text st) True (ts_session_id st))) (\<lambda>_. do {
         st' \<leftarrow> set_phase H Idle st;
         save_turn H st' }))
     else do {
       st' \<leftarrow> set_phase H Idle st;
       save_turn H st' } }"

section \<open>Replies that belong to another turn\<close>

definition response_matches_turn :: "react_host \<Rightarrow> canonical_json \<Rightarrow> uuid128 \<Rightarrow> bool" where
  "response_matches_turn H payload request_id \<longleftrightarrow> request_id \<noteq> 0 \<and>
     Option.bind (payload_string payload ''request_id'') (rh_parse_uuid H) = Some request_id"

definition orchestration_reply_is_stale :: "react_host \<Rightarrow> turn_state \<Rightarrow> canonical_json \<Rightarrow> bool" where
  "orchestration_reply_is_stale H st payload \<longleftrightarrow>
     ts_phase st \<noteq> Idle \<and> ts_request_id st \<noteq> 0 \<and> \<not> response_matches_turn H payload (ts_request_id st)"

definition redrive_if_unready :: "phase \<Rightarrow> phase \<Rightarrow> string \<Rightarrow> canonical_json \<Rightarrow> bool react_op" where
  "redrive_if_unready expected actual topic payload =
     (if actual = expected then ret False
      else if actual = Idle then
        (let retry = (case payload_number payload ''_retry'' of None \<Rightarrow> 0 | Some n \<Rightarrow> n) in
         if retry < max_redrive_retries then
           (case payload of
              CObject m \<Rightarrow> do {
                quietly (react_publish topic (Raw_Json (CObject (bt_insert ''_retry'' (u64_json (retry + 1)) m))));
                ret True }
            | _ \<Rightarrow> ret True)
         else ret True)
      else ret True)"

definition parse_json_array_field :: "(canonical_json \<Rightarrow> 'a option) \<Rightarrow> canonical_json \<Rightarrow> string \<Rightarrow> 'a list" where
  "parse_json_array_field decode payload key =
     (case Option.bind (json_get payload key) json_array of None \<Rightarrow> [] | Some vs \<Rightarrow> List.map_filter decode vs)"

end
