(* ===== verification/React_Handlers.thy ===== *)
theory React_Handlers
  imports React_Loop
begin

text \<open>
  The interceptors of the agent loop (\<open>capsules/capsule-react/src/lib.rs\<close>), one definition for each, and the events
  that drive them. A payload that is not of the kind a handler expects leaves everything as it is. Log lines and
  the timeouts of the waits for replies (a wait that times out is an error among the replies) are left out.
\<close>

section \<open>Restart, clear, watchdog and lag\<close>

definition handle_lifecycle_restart :: "unit react_try" where
  "handle_lifecycle_restart = do { clear_ephemeral_keys; ret (Ok ()) }"

definition payload_session :: "canonical_json \<Rightarrow> string" where
  "payload_session payload = (case payload_string payload ''session_id'' of Some s \<Rightarrow> s | None \<Rightarrow> default_session_id)"

definition handle_session_clear :: "react_host \<Rightarrow> canonical_json \<Rightarrow> unit react_try" where
  "handle_session_clear H payload = (let old = payload_session payload in
     attempt (request_response ''session.v1.request.clear'' (json_obj [(''session_id'', CString old)])) (\<lambda>response.
       case payload_string response ''new_session_id'' of
         None \<Rightarrow> ret (Err (Api_Error ''Session clear response missing new_session_id''))
       | Some new \<Rightarrow> do {
           quietly (rk_delete (turn_key old));
           unregister_active_session H old;
           attempt (save_turn H (turn_default\<lparr>ts_session_id := new\<rparr>)) (\<lambda>_.
             react_publish ''agent.v1.session_changed''
               (Raw_Json (json_obj [(''old_session_id'', CString old), (''new_session_id'', CString new)]))) }))"

fun watch_sessions :: "react_host \<Rightarrow> string list \<Rightarrow> unit react_op" where
  "watch_sessions H [] = ret ()"
| "watch_sessions H (session_id # session_ids) = do {
     st \<leftarrow> load_turn H session_id;
     quietly (check_timeout_with_cleanup H st);
     watch_sessions H session_ids }"

definition handle_watchdog_tick :: "react_host \<Rightarrow> unit react_try" where
  "handle_watchdog_tick H = do {
     sessions \<leftarrow> load_active_sessions H;
     watch_sessions H sessions;
     ret (Ok ()) }"

definition bus_lag_message :: string where
  "bus_lag_message = ''Response interrupted: the event bus overflowed and stream data was lost. Please retry.''"

definition interrupt_turn :: "react_host \<Rightarrow> turn_state \<Rightarrow> unit react_op" where
  "interrupt_turn H st =
     (if ts_phase st = Streaming \<or> ts_phase st = Awaiting_Tools then do {
        quietly (react_publish response_topic_agent (Agent_Response bus_lag_message True (ts_session_id st)));
        cleanup_inflight_mappings H st;
        quietly (end_turn H st) }
      else ret ())"

fun interrupt_sessions :: "react_host \<Rightarrow> string list \<Rightarrow> unit react_op" where
  "interrupt_sessions H [] = ret ()"
| "interrupt_sessions H (session_id # session_ids) = do {
     st \<leftarrow> load_turn H session_id;
     interrupt_turn H st;
     interrupt_sessions H session_ids }"

definition handle_bus_lag :: "react_host \<Rightarrow> unit react_try" where
  "handle_bus_lag H = do {
     sessions \<leftarrow> load_active_sessions H;
     interrupt_sessions H sessions;
     ret (Ok ()) }"

section \<open>The user's prompt\<close>

definition handle_cancel :: "react_host \<Rightarrow> string \<Rightarrow> unit react_try" where
  "handle_cancel H session_id = do {
     st \<leftarrow> load_turn H session_id;
     if ts_phase st = Idle then ret (Ok ())
     else do {
       (if ts_phase st = Awaiting_Tools \<and> ts_dispatched_tools st \<noteq> []
        then quietly (react_publish ''tool.v1.request.cancel'' (Tool_Cancel_Request (dispatched_ids st)))
        else ret ());
       cleanup_inflight_mappings H st;
       attempt (end_turn H st) (\<lambda>_. ret (Ok ())) } }"

definition user_text :: "string \<Rightarrow> message" where
  "user_text t = \<lparr>msg_role = Role_User, msg_content = Plain_Text t\<rparr>"

definition cancels_turn :: "canonical_json option \<Rightarrow> bool" where
  "cancels_turn context = (case context of None \<Rightarrow> False | Some c \<Rightarrow> payload_string c ''action'' = Some ''cancel_turn'')"

definition requested_model :: "canonical_json option \<Rightarrow> string option" where
  "requested_model context = (case context of None \<Rightarrow> None | Some c \<Rightarrow> non_blank (payload_string c ''model''))"

definition begin_turn :: "react_host \<Rightarrow> canonical_json option \<Rightarrow> turn_state \<Rightarrow> unit react_try" where
  "begin_turn H context st = do {
     (if ts_phase st \<noteq> Idle then cleanup_inflight_mappings H st else ret ());
     st1 \<leftarrow> reset_conversation_turn st;
     st2 \<leftarrow> set_phase H Awaiting_Identity (st1\<lparr>ts_request_model_override := requested_model context\<rparr>);
     register_active_session H (ts_session_id st2);
     attempt (save_turn H st2) (\<lambda>_.
     attempt (react_publish response_topic_agent (completion_event H st2 [] False)) (\<lambda>_. do {
       workspace_root \<leftarrow> env_var ''workspace_root'';
       react_publish ''spark.v1.request.build'' (Raw_Json (json_obj [
         (''workspace_root'', CString (case workspace_root of Err _ \<Rightarrow> [] | Ok s \<Rightarrow> s)),
         (''session_id'', CString (ts_session_id st2)),
         (''request_id'', CString (rh_show_uuid H (ts_request_id st2)))])) })) }"

definition handle_user_prompt :: "react_host \<Rightarrow> ipc_input \<Rightarrow> unit react_try" where
  "handle_user_prompt H payload = (case payload of
     User_Input txt session_id context \<Rightarrow>
       if cancels_turn context then handle_cancel H session_id
       else if trim txt = [] then ret (Ok ())
       else do {
         st \<leftarrow> load_turn H session_id;
         attempt (fetch_messages_with_append H (ts_session_id st) [user_text txt]) (\<lambda>_. begin_turn H context st) }
   | _ \<Rightarrow> ret (Ok ()))"

section \<open>The replies that build the prompt\<close>

definition provider_name :: "string \<Rightarrow> string" where
  "provider_name topic = (if prefix provider_topic_prefix topic then drop (length provider_topic_prefix) topic else ''unknown'')"

definition assemble_request :: "react_host \<Rightarrow> turn_state \<Rightarrow> canonical_json \<Rightarrow> string \<Rightarrow> string \<Rightarrow> string \<Rightarrow> canonical_json" where
  "assemble_request H st messages prompt model provider = json_obj [
     (''messages'', messages), (''system_prompt'', CString prompt),
     (''request_id'', CString (rh_show_uuid H (ts_request_id st))), (''session_id'', CString (ts_session_id st)),
     (''model'', CString model), (''provider'', CString provider)]"

definition request_assembly :: "react_host \<Rightarrow> turn_state \<Rightarrow> message list \<Rightarrow> string \<Rightarrow> unit react_try" where
  "request_assembly H st ms prompt = do {
     active \<leftarrow> active_llm H;
     case resolve_request_model (ts_request_model_override st) active of
       None \<Rightarrow> fail_no_model_selected H st
     | Some model \<Rightarrow> react_publish ''prompt_builder.v1.assemble'' (Raw_Json (assemble_request H st
         (case rh_messages_json H ms of Err _ \<Rightarrow> CNull | Ok v \<Rightarrow> v) prompt model (provider_name (al_topic active)))) }"

definition identity_topic :: string where "identity_topic = ''spark.v1.response.ready''"
definition assembled_topic :: string where "assembled_topic = ''prompt_builder.v1.response.assemble''"

text \<open>The three checks both replies go through before they are applied.\<close>

definition with_turn :: "react_host \<Rightarrow> phase \<Rightarrow> string \<Rightarrow> canonical_json \<Rightarrow> (turn_state \<Rightarrow> unit react_try) \<Rightarrow> unit react_try" where
  "with_turn H expected topic payload apply_reply = do {
     st \<leftarrow> load_turn H (payload_session payload);
     if orchestration_reply_is_stale H st payload then ret (Ok ())
     else attempt (check_timeout_with_cleanup H st) (\<lambda>(timed_out, st').
       if timed_out then ret (Ok ())
       else do {
         unready \<leftarrow> redrive_if_unready expected (ts_phase st') topic payload;
         if unready then ret (Ok ()) else apply_reply st' }) }"

definition handle_identity_response :: "react_host \<Rightarrow> canonical_json \<Rightarrow> unit react_try" where
  "handle_identity_response H payload = with_turn H Awaiting_Identity identity_topic payload (\<lambda>st.
     let prompt = (case payload_string payload ''prompt'' of Some p \<Rightarrow> p | None \<Rightarrow> []) in do {
     st' \<leftarrow> set_phase H Awaiting_Prompt_Build (st\<lparr>ts_system_prompt := prompt\<rparr>);
     attempt (fetch_messages H (ts_session_id st')) (\<lambda>ms.
     attempt (save_turn H st') (\<lambda>_. request_assembly H st' ms prompt)) })"

text \<open>The prefix goes before the last message of the user, when that is plain text.\<close>

fun prefix_first_user :: "string \<Rightarrow> message list \<Rightarrow> message list" where
  "prefix_first_user p [] = []"
| "prefix_first_user p (m # ms) =
     (if msg_role m = Role_User
      then (case msg_content m of Plain_Text t \<Rightarrow> m\<lparr>msg_content := Plain_Text (p @ line_feed @ t)\<rparr> | _ \<Rightarrow> m) # ms
      else m # prefix_first_user p ms)"

definition apply_user_prefix :: "string option \<Rightarrow> message list \<Rightarrow> message list" where
  "apply_user_prefix p ms = (case p of
     None \<Rightarrow> ms | Some p \<Rightarrow> if p = [] then ms else rev (prefix_first_user p (rev ms)))"

definition handle_prompt_response :: "react_host \<Rightarrow> canonical_json \<Rightarrow> unit react_try" where
  "handle_prompt_response H payload = with_turn H Awaiting_Prompt_Build assembled_topic payload (\<lambda>st.
     let st1 = (case payload_string payload ''system_prompt'' of Some p \<Rightarrow> st\<lparr>ts_system_prompt := p\<rparr> | None \<Rightarrow> st);
         tools = parse_json_array_field (rh_tool H) payload ''tools'';
         ms = apply_user_prefix (payload_string payload ''user_context_prefix'')
                (parse_json_array_field (rh_message H) payload ''messages'') in do {
     st2 \<leftarrow> set_phase H Streaming (st1\<lparr>ts_current_tools := tools\<rparr>);
     attempt (save_turn H st2) (\<lambda>_. publish_llm_request H st2 ms) })"

section \<open>The stream of the model\<close>

fun update_first :: "('a \<Rightarrow> bool) \<Rightarrow> ('a \<Rightarrow> 'a) \<Rightarrow> 'a list \<Rightarrow> 'a list" where
  "update_first P f [] = []"
| "update_first P f (x # xs) = (if P x then f x # xs else x # update_first P f xs)"

definition save_stream :: "react_host \<Rightarrow> turn_state \<Rightarrow> unit react_try" where
  "save_stream H st = attempt (save_turn H st) (\<lambda>_. ret (Ok ()))"

definition on_pending :: "string \<Rightarrow> (pending_tool_call \<Rightarrow> pending_tool_call) \<Rightarrow> turn_state \<Rightarrow> turn_state" where
  "on_pending call_id f st =
     st\<lparr>ts_pending_stream_tools := update_first (\<lambda>tc. pt_id tc = call_id) f (ts_pending_stream_tools st)\<rparr>"

definition apply_stream_event :: "react_host \<Rightarrow> stream_event \<Rightarrow> turn_state \<Rightarrow> unit react_try" where
  "apply_stream_event H event st = (case event of
     Text_Delta t \<Rightarrow> do {
       (if t \<noteq> [] then quietly (react_publish ''agent.v1.stream.delta'' (Agent_Response t False (ts_session_id st)))
        else ret ());
       save_stream H (st\<lparr>ts_response_text := ts_response_text st @ t\<rparr>) }
   | Tool_Call_Start call_id name \<Rightarrow> save_stream H (st\<lparr>ts_pending_stream_tools := ts_pending_stream_tools st @
       [\<lparr>pt_id = call_id, pt_name = name, pt_args_json = [], pt_complete = False\<rparr>]\<rparr>)
   | Tool_Call_Delta call_id args \<Rightarrow> save_stream H (on_pending call_id (\<lambda>tc. tc\<lparr>pt_args_json := pt_args_json tc @ args\<rparr>) st)
   | Tool_Call_End call_id \<Rightarrow> save_stream H (on_pending call_id (\<lambda>tc. tc\<lparr>pt_complete := True\<rparr>) st)
   | Stream_Done \<Rightarrow> handle_stream_done H st
   | Stream_Error err \<Rightarrow> do {
       quietly (react_publish response_topic_agent (Agent_Response (''LLM error: '' @ err) True (ts_session_id st)));
       cleanup_inflight_mappings H st;
       attempt (end_turn H st) (\<lambda>_. ret (Ok ())) }
   | Stream_Other \<Rightarrow> save_stream H st)"

definition handle_llm_stream :: "react_host \<Rightarrow> ipc_input \<Rightarrow> unit react_try" where
  "handle_llm_stream H payload = (case payload of
     Llm_Stream_Event request_id event \<Rightarrow> do {
       found \<leftarrow> lookup_session_by_request H request_id;
       case found of
         None \<Rightarrow> ret (Ok ())
       | Some session_id \<Rightarrow> do {
           st \<leftarrow> load_turn H session_id;
           attempt (check_timeout_with_cleanup H st) (\<lambda>(timed_out, st').
             if timed_out \<or> ts_phase st' \<noteq> Streaming \<or> ts_request_id st' \<noteq> request_id then ret (Ok ())
             else do {
               now \<leftarrow> now_ms;
               apply_stream_event H event (st'\<lparr>ts_phase_entered_at_ms := now\<rparr>) }) } }
   | _ \<Rightarrow> ret (Ok ()))"

section \<open>Results of tools\<close>

definition stale_result :: "string \<Rightarrow> turn_state \<Rightarrow> bool" where
  "stale_result call_id st = (case List.find (\<lambda>tc. dt_id tc = call_id) (ts_dispatched_tools st) of
     None \<Rightarrow> False
   | Some tc \<Rightarrow> dt_turn_request_id tc \<noteq> 0 \<and> dt_turn_request_id tc \<noteq> ts_request_id st)"

definition record_result :: "string \<Rightarrow> canonical_json \<Rightarrow> turn_state \<Rightarrow> turn_state" where
  "record_result call_id r st = st\<lparr>ts_dispatched_tools :=
     update_first (\<lambda>tc. dt_id tc = call_id) (\<lambda>tc. tc\<lparr>dt_result := Some r\<rparr>) (ts_dispatched_tools st)\<rparr>"

definition all_tools_done :: "turn_state \<Rightarrow> bool" where
  "all_tools_done st \<longleftrightarrow> ts_dispatched_tools st \<noteq> [] \<and> (\<forall>tc \<in> set (ts_dispatched_tools st). dt_result tc \<noteq> None)"

definition max_iterations_of :: "u64 \<Rightarrow> u32" where
  "max_iterations_of n = (if unat n < 2 ^ 32 then ucast n else default_max_iterations)"

definition iteration_limit_text :: "u32 \<Rightarrow> string" where
  "iteration_limit_text n = ''Stopped: ReAct loop exceeded maximum of '' @ show_nat (unat n) @ '' iterations.''"

definition tool_round :: "dispatched_tool_call list \<Rightarrow> message list" where
  "tool_round tcs =
     \<lparr>msg_role = Role_Assistant, msg_content = Tool_Calls (map (\<lambda>tc.
        \<lparr>tc_id = dt_id tc, tc_name = dt_name tc, tc_arguments = dt_arguments tc\<rparr>) tcs)\<rparr>
     # map (\<lambda>r. \<lparr>msg_role = Role_Tool, msg_content = Tool_Result r\<rparr>) (List.map_filter dt_result tcs)"

definition stop_iterating :: "react_host \<Rightarrow> u32 \<Rightarrow> turn_state \<Rightarrow> unit react_try" where
  "stop_iterating H max_iterations st = do {
     quietly (react_publish response_topic_agent
       (Agent_Response (iteration_limit_text max_iterations) True (ts_session_id st)));
     attempt (end_turn H st) (\<lambda>_. do { delete_call_sessions (dispatched_ids st); ret (Ok ()) }) }"

definition next_iteration :: "react_host \<Rightarrow> turn_state \<Rightarrow> unit react_try" where
  "next_iteration H st =
     attempt (fetch_messages_with_append H (ts_session_id st) (tool_round (ts_dispatched_tools st))) (\<lambda>ms. do {
       st1 \<leftarrow> reset_turn st;
       st2 \<leftarrow> set_phase H Streaming st1;
       attempt (save_turn H st2) (\<lambda>_. do {
         delete_call_sessions (dispatched_ids st);
         publish_llm_request H st2 ms }) })"

definition apply_tool_result :: "react_host \<Rightarrow> string \<Rightarrow> canonical_json \<Rightarrow> turn_state \<Rightarrow> unit react_try" where
  "apply_tool_result H call_id r st =
     (if stale_result call_id st then ret (Ok ())
      else let st1 = record_result call_id r st in
        if \<not> all_tools_done st1 then save_stream H st1
        else do {
          let st2 = st1\<lparr>ts_iteration_count := ts_iteration_count st1 + 1\<rparr>;
          configured \<leftarrow> get_config_u64 ''max_iterations'' (ucast default_max_iterations);
          if max_iterations_of configured \<le> ts_iteration_count st2
          then stop_iterating H (max_iterations_of configured) st2
          else next_iteration H st2 })"

definition handle_tool_result :: "react_host \<Rightarrow> ipc_input \<Rightarrow> unit react_try" where
  "handle_tool_result H payload = (case payload of
     Tool_Execute_Result call_id r \<Rightarrow> do {
       found \<leftarrow> lookup_session_by_call call_id;
       case found of
         None \<Rightarrow> ret (Ok ())
       | Some session_id \<Rightarrow> do {
           st \<leftarrow> load_turn H session_id;
           attempt (check_timeout_with_cleanup H st) (\<lambda>(timed_out, st').
             if timed_out \<or> ts_phase st' \<noteq> Awaiting_Tools then ret (Ok ())
             else apply_tool_result H call_id r st') } }
   | _ \<Rightarrow> ret (Ok ()))"

section \<open>A change of the model\<close>

fun delete_keys :: "string list \<Rightarrow> unit react_op" where
  "delete_keys [] = ret ()"
| "delete_keys (k # ks) = do { quietly (rk_delete k); delete_keys ks }"

definition limit_or_zero :: "canonical_json \<Rightarrow> string \<Rightarrow> u64" where
  "limit_or_zero payload key = (case payload_number payload key of Some v \<Rightarrow> v | None \<Rightarrow> 0)"

definition handle_model_changed :: "canonical_json \<Rightarrow> unit react_try" where
  "handle_model_changed payload = (case broadcast_action_for payload of
     Clear_All \<Rightarrow> do { delete_keys cleared_cache_keys; ret (Ok ()) }
   | Set_Topic topic \<Rightarrow> do {
       quietly (rk_set kv_provider_topic topic);
       cache_model payload;
       quietly (rk_set kv_context_window (le_bytes (limit_or_zero payload ''context_window'')));
       quietly (rk_set kv_max_output_tokens (le_bytes (limit_or_zero payload ''max_output_tokens'')));
       ret (Ok ()) }
   | Reject_Topic _ \<Rightarrow> ret (Ok ())
   | Ignore_Broadcast \<Rightarrow> ret (Ok ()))"

section \<open>Events\<close>

datatype react_event =
    Lifecycle_Restart
  | Session_Clear_Requested canonical_json
  | Watchdog_Tick
  | Bus_Lag
  | User_Prompt ipc_input
  | Identity_Response canonical_json
  | Prompt_Response canonical_json
  | Llm_Stream ipc_input
  | Tool_Result_Arrived ipc_input
  | Model_Changed canonical_json

definition react_handle :: "react_host \<Rightarrow> react_event \<Rightarrow> unit react_try" where
  "react_handle H event = (case event of
     Lifecycle_Restart \<Rightarrow> handle_lifecycle_restart
   | Session_Clear_Requested p \<Rightarrow> handle_session_clear H p
   | Watchdog_Tick \<Rightarrow> handle_watchdog_tick H
   | Bus_Lag \<Rightarrow> handle_bus_lag H
   | User_Prompt p \<Rightarrow> handle_user_prompt H p
   | Identity_Response p \<Rightarrow> handle_identity_response H p
   | Prompt_Response p \<Rightarrow> handle_prompt_response H p
   | Llm_Stream p \<Rightarrow> handle_llm_stream H p
   | Tool_Result_Arrived p \<Rightarrow> handle_tool_result H p
   | Model_Changed p \<Rightarrow> handle_model_changed p)"

text \<open>A run: a sequence of events, each handled with inputs of its own, on the same store and bus, one after another: each
  handler sees every write of the ones before it. On the host, handlers may run at the same time in pooled instances,
  and a write may be seen late (the reason why orchestration responses are sent round again, \<open>redrive_if_unready\<close>); such
  interleavings are not runs of this model.\<close>

fun react_run :: "react_host \<Rightarrow> (react_event \<times> react_inputs) list \<Rightarrow> react_world \<Rightarrow> react_world" where
  "react_run H [] w = w"
| "react_run H ((event, i) # events) w = react_run H events (snd (run_state (react_handle H event) (w\<lparr>rw_in := i\<rparr>)))"

end
