(* ===== verification/React_Laws.thy ===== *)
theory React_Laws
  imports React_Handlers
begin

text \<open>
  How the agent loop's operations treat a predicate of its world. \<open>quiet_law\<close> is the contract of a predicate that
  does not look at what most operations change (correlation keys, cached limits, inputs, events of other
  kinds); \<open>loop_law\<close> adds the few operations that matter: a turn saved along an edge of the state machine, the
  list of active sessions, a request to a model. Its modes say where in a handler the predicate holds. Every
  handler is walked through once, under \<open>loop_law\<close>, for all the invariants at once.
\<close>

section \<open>Triples\<close>

definition triple :: "('w \<Rightarrow> bool) \<Rightarrow> ('w, 'a) state \<Rightarrow> ('a \<Rightarrow> 'w \<Rightarrow> bool) \<Rightarrow> bool" where
  "triple P m Q \<longleftrightarrow> (\<forall>w. P w \<longrightarrow> Q (fst (run_state m w)) (snd (run_state m w)))"

lemma tripleD: "triple P m Q \<Longrightarrow> P w \<Longrightarrow> run_state m w = (x, w') \<Longrightarrow> Q x w'"
  by (auto simp: triple_def)

lemma triple_keeps: "keeps_world P m \<Longrightarrow> triple P m (\<lambda>_. P)"
  by (simp add: keeps_world_def triple_def)

lemma keeps_triple: "triple P m (\<lambda>_. P) \<Longrightarrow> keeps_world P m"
  by (simp add: keeps_world_def triple_def)

lemma triple_ret: "(\<And>w. P w \<Longrightarrow> Q x w) \<Longrightarrow> triple P (ret x) Q"
  by (simp add: triple_def)

lemma triple_pre: "triple P m Q \<Longrightarrow> (\<And>w. P' w \<Longrightarrow> P w) \<Longrightarrow> triple P' m Q"
  by (simp add: triple_def)

lemma triple_post: "triple P m Q \<Longrightarrow> (\<And>x w. Q x w \<Longrightarrow> Q' x w) \<Longrightarrow> triple P m Q'"
  by (simp add: triple_def)

lemma triple_bind: "triple P m R \<Longrightarrow> (\<And>x. triple (R x) (f x) Q) \<Longrightarrow> triple P (State_Monad.bind m f) Q"
  by (fastforce simp: triple_def run_bind split: prod.split)

lemma triple_after: "keeps_world P m \<Longrightarrow> (\<And>x. triple P (f x) Q) \<Longrightarrow> triple P (State_Monad.bind m f) Q"
  by (rule triple_bind[OF triple_keeps])

lemma triple_attempt:
  assumes "triple P m R" and "\<And>e w. R (Err e) w \<Longrightarrow> Q (Err e) w" and "\<And>x. triple (R (Ok x)) (f x) Q"
  shows "triple P (attempt m f) Q"
  unfolding attempt_def
proof (rule triple_bind[OF assms(1)])
  fix r :: "'b + 'c"
  show "triple (R r) (case r of Err e \<Rightarrow> ret (Err e) | Ok x \<Rightarrow> f x) Q"
    using assms(2,3) by (cases r) (auto intro: triple_ret)
qed

lemma triple_attempt_keeps:
  "keeps_world P m \<Longrightarrow> (\<And>e w. P w \<Longrightarrow> Q (Err e) w) \<Longrightarrow> (\<And>x. triple P (f x) Q) \<Longrightarrow> triple P (attempt m f) Q"
  by (rule triple_attempt[OF triple_keeps])

lemma triple_if: "(b \<Longrightarrow> triple P m Q) \<Longrightarrow> (\<not> b \<Longrightarrow> triple P n Q) \<Longrightarrow> triple P (if b then m else n) Q"
  by simp

lemma triple_option:
  "(x = None \<Longrightarrow> triple P m Q) \<Longrightarrow> (\<And>y. x = Some y \<Longrightarrow> triple P (f y) Q) \<Longrightarrow>
     triple P (case x of None \<Rightarrow> m | Some y \<Rightarrow> f y) Q"
  by (cases x) simp_all

lemma triple_sum:
  "(\<And>y. x = Err y \<Longrightarrow> triple P (f y) Q) \<Longrightarrow> (\<And>y. x = Ok y \<Longrightarrow> triple P (g y) Q) \<Longrightarrow>
     triple P (case x of Err y \<Rightarrow> f y | Ok y \<Rightarrow> g y) Q"
  by (cases x) simp_all

lemma triple_assume: "(\<And>w. P w \<Longrightarrow> triple (\<lambda>w'. w' = w) m Q) \<Longrightarrow> triple P m Q"
  by (auto simp: triple_def)

lemma triple_fact: "(\<And>w. P w \<Longrightarrow> b) \<Longrightarrow> (b \<Longrightarrow> triple P m Q) \<Longrightarrow> triple P m Q"
  by (auto simp: triple_def)

lemma keeps_conj: "keeps_world P m \<Longrightarrow> keeps_world Q m \<Longrightarrow> keeps_world (\<lambda>w. P w \<and> Q w) m"
  by (simp add: keeps_world_def)

lemma keeps_read: "(\<And>w. snd (run_state m w) = w) \<Longrightarrow> keeps_world P m"
  by (simp add: keeps_world_def)

section \<open>What is stored\<close>

definition turn_of :: "react_host \<Rightarrow> string option \<Rightarrow> turn_state" where
  "turn_of H bytes = (case bytes of
     None \<Rightarrow> turn_default
   | Some b \<Rightarrow> (case jc_decode (rh_turn H) b of
       Err _ \<Rightarrow> turn_default
     | Ok st \<Rightarrow> if ts_schema_version st = 0 \<or> ts_schema_version st = 1 then st else turn_default))"

text \<open>The turn a reader of the store sees for a session.\<close>

definition stored :: "react_host \<Rightarrow> (string, string) btree_map \<Rightarrow> string \<Rightarrow> turn_state" where
  "stored H m session_id = (turn_of H (bt_get m (turn_key session_id)))\<lparr>ts_session_id := session_id\<rparr>"

definition listed :: "react_host \<Rightarrow> (string, string) btree_map \<Rightarrow> string list" where
  "listed H m = (case bt_get m active_sessions_key of
     None \<Rightarrow> [] | Some b \<Rightarrow> (case jc_decode (rh_active H) b of Err _ \<Rightarrow> [] | Ok xs \<Rightarrow> xs))"

definition tagged :: "turn_state \<Rightarrow> bool" where
  "tagged st \<longleftrightarrow> (\<forall>tc \<in> set (ts_dispatched_tools st). dt_turn_request_id tc = ts_request_id st)"

text \<open>A turn as it was loaded: as it is stored, unless the read failed, when it is idle.\<close>

definition loaded :: "react_host \<Rightarrow> turn_state \<Rightarrow> react_world \<Rightarrow> bool" where
  "loaded H st w \<longleftrightarrow> ts_phase st = Idle \<or> stored H (rw_kv w) (ts_session_id st) = st"

definition narrower :: "react_inputs \<Rightarrow> react_inputs \<Rightarrow> bool" where
  "narrower i i' \<longleftrightarrow> ri_env i' = ri_env i \<and> set (ri_kv_faults i') \<subseteq> set (ri_kv_faults i) \<and>
     range (ri_clock i') \<subseteq> range (ri_clock i) \<and> set (ri_bus_faults i') \<subseteq> set (ri_bus_faults i)"

lemma narrower_refl [simp]: "narrower i i"
  by (simp add: narrower_def)

lemma narrower_updates:
  "narrower i (ri_subscribe_faults_update g i)"
  "narrower i (ri_replies_update r i)" "narrower i (ri_polls_update p i)" "narrower i (ri_uuids_update u i)"
  "narrower i (ri_clock_update (\<lambda>f n. f (Suc n)) i)"
  by (auto simp: narrower_def)

definition provider_topic :: "react_world \<Rightarrow> string \<Rightarrow> bool" where
  "provider_topic w topic \<longleftrightarrow> prefix provider_topic_prefix topic \<or> ri_env (rw_in w) kv_provider_topic = Ok (Some topic)"

definition routed :: "(string, string) btree_map \<Rightarrow> bool" where
  "routed m \<longleftrightarrow> (\<forall>t. bt_get m kv_provider_topic = Some t \<longrightarrow> prefix provider_topic_prefix t)"

definition turns_tagged :: "react_host \<Rightarrow> (string, string) btree_map \<Rightarrow> bool" where
  "turns_tagged H m \<longleftrightarrow> json_codec_ok (rh_turn H) \<and> (\<forall>i. tagged (stored H m i))"

text \<open>Keys that hold neither turns nor the list of active sessions.\<close>

definition side_key :: "string \<Rightarrow> bool" where
  "side_key k \<longleftrightarrow> \<not> prefix turn_key_prefix k \<and> k \<noteq> active_sessions_key"

text \<open>Payloads other than requests to a model; an append to the transcript is a whole round of the conversation.\<close>

definition whole_round :: "message list \<Rightarrow> bool" where
  "whole_round ms \<longleftrightarrow>
     (\<exists>t. trim t \<noteq> [] \<and> ms = [user_text t]) \<or> (\<exists>t. t \<noteq> [] \<and> ms = [assistant_text t]) \<or>
     (\<exists>calls results. calls \<noteq> [] \<and> length results = length calls \<and>
        ms = \<lparr>msg_role = Role_Assistant, msg_content = Tool_Calls calls\<rparr>
          # map (\<lambda>r. \<lparr>msg_role = Role_Tool, msg_content = Tool_Result r\<rparr>) results)"

definition transcript_request :: "react_host \<Rightarrow> ipc_payload \<Rightarrow> bool" where
  "transcript_request H p \<longleftrightarrow> (\<exists>i. p = Raw_Json (json_obj [(''session_id'', CString i)])) \<or>
     (\<exists>i ms v. whole_round ms \<and> rh_messages_json H ms = Ok v \<and>
        p = Raw_Json (json_obj [(''session_id'', CString i), (''append_before_read'', v)]))"

definition side_event :: "react_host \<Rightarrow> string \<Rightarrow> ipc_payload \<Rightarrow> bool" where
  "side_event H topic p \<longleftrightarrow> (\<forall>r m ms ts s. p \<noteq> Llm_Request r m ms ts s) \<and>
     (topic = get_messages_topic \<longrightarrow> transcript_request H p)"

lemma world_updates:
  "rw_kv_update f w = w\<lparr>rw_kv := f (rw_kv w)\<rparr>" "rw_bus_update g w = w\<lparr>rw_bus := g (rw_bus w)\<rparr>"
  by (cases w, simp)+

named_theorems side \<open>side keys and side events\<close>

lemma side_keys [side]:
  "side_key (request_key H r)" "side_key (call_key c)" "side_key kv_provider_topic" "side_key kv_provider_model"
  "side_key kv_context_window" "side_key kv_max_output_tokens"
  by (auto simp: side_key_def request_key_def call_key_def turn_key_prefix_def request_session_prefix_def
      call_session_prefix_def active_sessions_key_def kv_provider_topic_def kv_provider_model_def
      kv_context_window_def kv_max_output_tokens_def)

lemma not_provider_topic [side]:
  "request_key H r \<noteq> kv_provider_topic" "call_key c \<noteq> kv_provider_topic" "kv_provider_model \<noteq> kv_provider_topic"
  "kv_context_window \<noteq> kv_provider_topic" "kv_max_output_tokens \<noteq> kv_provider_topic"
  by (auto simp: request_key_def call_key_def request_session_prefix_def
      call_session_prefix_def kv_provider_topic_def kv_provider_model_def
      kv_context_window_def kv_max_output_tokens_def)

lemma other_event:
  "(\<And>r m ms ts s. p \<noteq> Llm_Request r m ms ts s) \<Longrightarrow> t \<noteq> get_messages_topic \<Longrightarrow> side_event H t p"
  by (simp add: side_event_def)

lemma side_events [side]:
  "side_event H response_topic_agent (Agent_Response x b i)" "side_event H response_topic_agent (completion_event H st y f)"
  "side_event H ''session.v1.request.clear'' (Raw_Json v)" "side_event H ''agent.v1.session_changed'' (Raw_Json v)"
  "side_event H ''tool.v1.request.cancel'' (Tool_Cancel_Request ids)" "side_event H ''spark.v1.request.build'' (Raw_Json v)"
  "side_event H ''prompt_builder.v1.assemble'' (Raw_Json v)" "side_event H ''agent.v1.stream.delta'' (Agent_Response x b i)"
  "side_event H identity_topic (Raw_Json v)" "side_event H assembled_topic (Raw_Json v)"
  "side_event H compact_request_topic (Raw_Json v)" "side_event H ''registry.v1.get_active_model'' (Raw_Json v)"
  "side_event H ''tool.v1.request.execute'' (Tool_Execute_Request c n a)"
  by (rule other_event; simp add: response_topic_agent_def get_messages_topic_def completion_event_def identity_topic_def
      assembled_topic_def compact_request_topic_def)+

section \<open>Predicates most operations do not touch\<close>

lemma parsed_provider_prefix: "parse_active_provider p = Some a \<Longrightarrow> prefix provider_topic_prefix (al_topic a)"
  by (auto simp: parse_active_provider_def split: canonical_json.splits option.splits if_splits)

locale quiet_law =
  fixes H :: react_host and J :: "react_world \<Rightarrow> bool"
  assumes quiet_inputs: "J w \<Longrightarrow> narrower (rw_in w) i \<Longrightarrow> J (w\<lparr>rw_in := i\<rparr>)"
    and quiet_set: "J w \<Longrightarrow> side_key k \<Longrightarrow> (k = kv_provider_topic \<Longrightarrow> prefix provider_topic_prefix v) \<Longrightarrow>
      J (w\<lparr>rw_kv := bt_insert k v (rw_kv w)\<rparr>)"
    and quiet_delete: "J w \<Longrightarrow> side_key k \<Longrightarrow> J (w\<lparr>rw_kv := bt_delete k (rw_kv w)\<rparr>)"
    and quiet_publish: "J w \<Longrightarrow> side_event H t p \<Longrightarrow> J (w\<lparr>rw_bus := rw_bus w @ [(t, p)]\<rparr>)"
begin

lemma keeps_narrower:
  assumes "\<And>w. \<exists>i. snd (run_state m w) = w\<lparr>rw_in := i\<rparr> \<and> narrower (rw_in w) i"
  shows "keeps_world J m"
  unfolding keeps_world_def using assms quiet_inputs by metis

lemma keeps_now_ms [stays]: "keeps_world J now_ms"
  by (rule keeps_narrower) (auto simp: now_ms_def intro!: exI narrower_updates)

lemma keeps_new_uuid [stays]: "keeps_world J new_uuid"
  by (rule keeps_narrower) (auto simp: new_uuid_def intro!: exI narrower_updates)

lemma keeps_env [stays]: "keeps_world J (env_var_opt k)" "keeps_world J (env_var k)"
  by (rule keeps_read, simp add: env_var_def env_var_opt_def run_bind State_Monad.get_def)+

lemma keeps_next_faults:
  "keeps_world J (next_in ri_kv_faults ri_kv_faults_update None)"
  by (rule keeps_narrower) (auto simp: next_in_def narrower_def split: list.split intro!: exI)

lemma keeps_bus_faults [stays]: "keeps_world J (next_in ri_bus_faults ri_bus_faults_update b)"
  by (rule keeps_narrower) (auto simp: next_in_def narrower_def split: list.split intro!: exI)

lemma keeps_next_in:
  assumes "\<And>f i. narrower i (upd f i)"
  shows "keeps_world J (next_in sel upd d)"
proof (rule keeps_narrower)
  fix w show "\<exists>i. snd (run_state (next_in sel upd d) w) = w\<lparr>rw_in := i\<rparr> \<and> narrower (rw_in w) i"
  proof (cases "sel (rw_in w)")
    case Nil
    then show ?thesis by (auto simp: next_in_def intro!: exI[of _ "rw_in w"])
  next
    case (Cons x xs)
    then show ?thesis using assms by (auto simp: next_in_def)
  qed
qed

lemma keeps_inputs [stays]:
  "keeps_world J (next_in ri_subscribe_faults ri_subscribe_faults_update s)"
  "keeps_world J (next_in ri_replies ri_replies_update r)"
  "keeps_world J (next_in ri_polls ri_polls_update p)"
  by (rule keeps_next_in, rule narrower_updates)+

lemma keeps_rk_call:
  assumes "\<And>w. J w \<Longrightarrow> J (w\<lparr>rw_kv := snd (f (rw_kv w))\<rparr>)"
  shows "keeps_world J (rk_call f)"
  unfolding rk_call_def
  by (intro keeps_world_bind keeps_next_faults keeps_get keeps_world_option keeps_ret keeps_update) (subst world_updates(1), rule assms)

lemma keeps_rk_get [stays]: "keeps_world J (rk_get k)" "keeps_world J (rk_get_opt k)"
  unfolding rk_get_def rk_get_opt_def by (rule keeps_rk_call, simp)+

lemma keeps_rk_get_json [stays]: "keeps_world J (rk_get_json C k)"
  unfolding rk_get_json_def by (intro stays)

lemma keeps_rk_set: "side_key k \<Longrightarrow> (k = kv_provider_topic \<Longrightarrow> prefix provider_topic_prefix v) \<Longrightarrow> keeps_world J (rk_set k v)"
  unfolding rk_set_def by (rule keeps_rk_call) (simp add: quiet_set)

lemma keeps_rk_delete: "side_key k \<Longrightarrow> keeps_world J (rk_delete k)"
  unfolding rk_delete_def by (rule keeps_rk_call) (simp add: quiet_delete)

lemma keeps_quietly [stays]: "keeps_world J m \<Longrightarrow> keeps_world J (quietly m)"
  unfolding quietly_def by (intro stays)

lemma keeps_publish: "side_event H t p \<Longrightarrow> keeps_world J (react_publish t p)"
  unfolding react_publish_def by (intro stays keeps_update) (subst world_updates(2), rule quiet_publish)

lemma keeps_events [stays]:
  "keeps_world J (react_publish response_topic_agent (Agent_Response x b i))"
  "keeps_world J (react_publish response_topic_agent (completion_event H st y f))"
  "keeps_world J (react_publish ''agent.v1.session_changed'' (Raw_Json v))"
  "keeps_world J (react_publish ''tool.v1.request.cancel'' (Tool_Cancel_Request ids))"
  "keeps_world J (react_publish ''spark.v1.request.build'' (Raw_Json v))"
  "keeps_world J (react_publish ''prompt_builder.v1.assemble'' (Raw_Json v))"
  "keeps_world J (react_publish ''agent.v1.stream.delta'' (Agent_Response x b i))"
  "keeps_world J (react_publish ''registry.v1.get_active_model'' (Raw_Json v))"
  "keeps_world J (react_publish compact_request_topic (Raw_Json v))"
  "keeps_world J (react_publish ''tool.v1.request.execute'' (Tool_Execute_Request c n a))"
  by (rule keeps_publish, rule side)+

lemma keeps_request: "side_event H t (Raw_Json v) \<Longrightarrow> keeps_world J (request_response t v)"
  unfolding request_response_def by (intro stays keeps_publish)

lemma transcript_events:
  "side_event H get_messages_topic (Raw_Json (json_obj [(''session_id'', CString i)]))"
  "whole_round ms \<Longrightarrow> rh_messages_json H ms = Ok v \<Longrightarrow>
    side_event H get_messages_topic (Raw_Json (json_obj [(''session_id'', CString i), (''append_before_read'', v)]))"
  unfolding side_event_def transcript_request_def by blast+

lemma keeps_fetch_messages_inner:
  "(\<And>ms. app = Some ms \<Longrightarrow> ms = [] \<or> whole_round ms) \<Longrightarrow> keeps_world J (fetch_messages_inner H i app)"
  unfolding fetch_messages_inner_def Let_def
  by (intro stays keeps_request) (auto intro!: transcript_events)

lemma keeps_fetch_messages [stays]: "keeps_world J (fetch_messages H i)"
  unfolding fetch_messages_def by (rule keeps_fetch_messages_inner) simp

lemma keeps_fetch_with_append: "whole_round ms \<Longrightarrow> keeps_world J (fetch_messages_with_append H i ms)"
  unfolding fetch_messages_with_append_def by (rule keeps_fetch_messages_inner) simp

lemma keeps_side_sets [stays]:
  "keeps_world J (rk_set (request_key H r) v)" "keeps_world J (rk_set (call_key c) v)"
  "keeps_world J (rk_set kv_provider_model v)" "keeps_world J (rk_set kv_context_window v)"
  "keeps_world J (rk_set kv_max_output_tokens v)"
  by (rule keeps_rk_set, rule side, simp add: side)+

lemma keeps_side_deletes [stays]:
  "keeps_world J (rk_delete (request_key H r))" "keeps_world J (rk_delete (call_key c))"
  "keeps_world J (rk_delete kv_provider_model)"
  by (rule keeps_rk_delete, rule side)+

lemma keeps_sessions [stays]:
  "keeps_world J (store_request_session H r i)" "keeps_world J (lookup_session_by_request H r)"
  "keeps_world J (lookup_session_by_call c)" "keeps_world J (delete_request_session H r)"
  unfolding store_request_session_def lookup_session_by_request_def lookup_session_by_call_def delete_request_session_def
  by (intro stays)+

lemma keeps_store_call_sessions [stays]: "keeps_world J (store_call_sessions cs i)"
  by (induction cs) (simp, intro stays, simp, intro stays)

lemma keeps_delete_call_sessions [stays]: "keeps_world J (delete_call_sessions cs)"
  by (induction cs) (simp, intro stays, simp, intro stays)

lemma keeps_cleanup [stays]: "keeps_world J (cleanup_inflight_mappings H st)"
  unfolding cleanup_inflight_mappings_def by (intro stays)

lemma keeps_loads [stays]: "keeps_world J (load_active_sessions H)" "keeps_world J (load_turn H i)"
  unfolding load_active_sessions_def load_turn_def Let_def by (intro stays)+

lemma keeps_resets [stays]: "keeps_world J (reset_turn st)" "keeps_world J (reset_conversation_turn st)"
  unfolding reset_turn_def reset_conversation_turn_def by (intro stays)+

lemma keeps_set_phase: "p \<noteq> Idle \<Longrightarrow> keeps_world J (set_phase H p st)"
  unfolding set_phase_def by (simp, intro stays)

lemma keeps_get_config [stays]: "keeps_world J (get_config_u64 k d)"
  unfolding get_config_u64_def by (intro stays)

lemma keeps_bus_inputs [stays]: "keeps_world J subscribes" "keeps_world J poll_subscription"
  unfolding subscribes_def poll_subscription_def by (intro stays)+

lemma keeps_cached_limits [stays]: "keeps_world J cached_context_window" "keeps_world J cached_max_output_tokens"
  unfolding cached_context_window_def cached_max_output_tokens_def by (intro stays)+

lemma keeps_cache_model [stays]: "keeps_world J (cache_model p)"
  unfolding cache_model_def by (cases "cached_model_action p") (simp, intro stays, simp, intro stays)

lemma keeps_cache_limits [stays]:
  "keeps_world J (cache_limit_if_given p kv_context_window k)" "keeps_world J (cache_limit_if_given p kv_max_output_tokens k)"
  unfolding cache_limit_if_given_def by (intro stays)+

lemma keeps_list_case [stays]:
  "keeps_world J m \<Longrightarrow> (\<And>y ys. keeps_world J (f y ys)) \<Longrightarrow> keeps_world J (case xs of [] \<Rightarrow> m | y # ys \<Rightarrow> f y ys)"
  by (cases xs) simp_all

lemma keeps_fetch_active [stays]: "keeps_world J (fetch_active_llm_topic_from_registry H)"
  unfolding fetch_active_llm_topic_from_registry_def
  by (intro stays) (rule keeps_rk_set, rule side, erule parsed_provider_prefix)

lemma keeps_cached_active [stays]: "keeps_world J cached_active_llm"
  unfolding cached_active_llm_def by (intro stays)

lemma keeps_active_llm [stays]: "keeps_world J (active_llm H)"
  unfolding active_llm_def by (intro stays)

lemma keeps_compact [stays]: "keeps_world J (compact_messages H i ms)"
  unfolding compact_messages_def ask_compaction_def Let_def by (intro stays)

lemma keeps_redrive: "t = identity_topic \<or> t = assembled_topic \<Longrightarrow> keeps_world J (redrive_if_unready e a t p)"
  unfolding redrive_if_unready_def Let_def by (cases p; auto intro!: stays keeps_publish side)

lemma keeps_model_changed: "keeps_world J (handle_model_changed p)"
proof (cases "broadcast_action_for p")
  case (Set_Topic t)
  then have "prefix provider_topic_prefix t"
    by (auto simp: broadcast_action_for_def split: if_splits option.splits)
  then have "keeps_world J (rk_set kv_provider_topic t)" by (intro keeps_rk_set side)
  then show ?thesis by (simp add: handle_model_changed_def Set_Topic) (intro stays)
next
  case Clear_All
  have "keeps_world J (rk_delete kv_provider_topic)" "keeps_world J (rk_delete kv_context_window)"
    "keeps_world J (rk_delete kv_max_output_tokens)" by (rule keeps_rk_delete, rule side)+
  then show ?thesis by (simp add: handle_model_changed_def Clear_All cleared_cache_keys_def) (intro stays)
qed (simp_all add: handle_model_changed_def keeps_ret)

end

lemma quiet_loaded: "quiet_law H J \<Longrightarrow> quiet_law H (\<lambda>w. J w \<and> loaded H st w)"
proof -
  have [simp]: "side_key k \<Longrightarrow> turn_key i \<noteq> k" for k i by (auto simp: side_key_def turn_key_def)
  have [simp]: "side_key k \<Longrightarrow> stored H (bt_insert k v m) i = stored H m i"
    "side_key k \<Longrightarrow> stored H (bt_delete k m) i = stored H m i" for k v m i
    by (auto simp: stored_def bt_get_delete)
  assume "quiet_law H J"
  then show ?thesis by (auto simp: quiet_law_def loaded_def)
qed

definition max_iterations :: "react_world \<Rightarrow> u32" where
  "max_iterations w = max_iterations_of
     (config_value (var_or_empty (ri_env (rw_in w) ''max_iterations'')) (ucast default_max_iterations))"

lemma quiet_iterations: "quiet_law H J \<Longrightarrow> quiet_law H (\<lambda>w. J w \<and> max_iterations w = M)"
  by (auto simp: quiet_law_def max_iterations_def narrower_def)

lemma quiet_topic: "quiet_law H J \<Longrightarrow> quiet_law H (\<lambda>w. J w \<and> provider_topic w t)"
  by (auto simp: quiet_law_def provider_topic_def narrower_def)

section \<open>The edges of the state machine\<close>

definition advances :: "turn_state \<Rightarrow> turn_state \<Rightarrow> bool" where
  "advances old new \<longleftrightarrow> ts_session_id new = ts_session_id old \<and> ts_phase old \<noteq> Idle \<and> tagged new \<and>
     ts_iteration_count new = ts_iteration_count old \<and>
     (ts_phase new = ts_phase old \<or> ts_phase old = Awaiting_Identity \<and> ts_phase new = Awaiting_Prompt_Build \<or>
      ts_phase old = Streaming \<and> ts_phase new = Awaiting_Tools)"

definition sends :: "u32 \<Rightarrow> turn_state \<Rightarrow> turn_state \<Rightarrow> bool" where
  "sends M old new \<longleftrightarrow> ts_session_id new = ts_session_id old \<and> ts_schema_version new = ts_schema_version old \<and> ts_phase new = Streaming \<and> tagged new \<and>
     (ts_phase old = Awaiting_Prompt_Build \<and> ts_iteration_count new = ts_iteration_count old \<or>
      ts_phase old = Awaiting_Tools \<and> ts_iteration_count new = ts_iteration_count old + 1 \<and> ts_iteration_count new < M)"

definition starts :: "turn_state \<Rightarrow> bool" where
  "starts st \<longleftrightarrow> ts_phase st = Awaiting_Identity \<and> ts_iteration_count st = 0 \<and> ts_dispatched_tools st = []"

definition rests :: "turn_state \<Rightarrow> bool" where
  "rests st \<longleftrightarrow> ts_phase st = Idle \<and> tagged st"

text \<open>Where in a handler a predicate holds: between handlers, while a prompt may start a turn, with the session
  of a new turn registered, with a request to a model due, and with an ending turn unregistered.\<close>

datatype mode = Rest | Open | Registered string | Send | Leaving string

locale loop_law =
  fixes H :: react_host and I :: "mode \<Rightarrow> react_world \<Rightarrow> bool"
  assumes law_quiet: "quiet_law H (I m)"
    and law_routed: "I m w \<Longrightarrow> routed (rw_kv w)"
    and law_tagged: "I m w \<Longrightarrow> turns_tagged H (rw_kv w)"
    and law_open: "I Open w \<Longrightarrow> I Rest w"
    and law_unsent: "I Send w \<Longrightarrow> I Rest w"
    and law_registered: "I (Registered i) w \<Longrightarrow> I Rest w"
    and law_register: "triple (I Open) (register_active_session H i) (\<lambda>_. I (Registered i))"
    and law_unregister: "triple (I Rest) (unregister_active_session H i) (\<lambda>_. I (Leaving i))"
    and law_start: "starts st \<Longrightarrow> triple (I (Registered (ts_session_id st))) (save_turn H st) (\<lambda>_. I Rest)"
    and law_rest: "rests st \<Longrightarrow> triple (I (Leaving (ts_session_id st))) (save_turn H st) (\<lambda>_. I Rest)"
    and law_fresh: "rests st \<Longrightarrow> triple (I Rest) (save_turn H st) (\<lambda>_. I Rest)"
    and law_advance: "advances old new \<Longrightarrow> triple (\<lambda>w. I Rest w \<and> loaded H old w) (save_turn H new) (\<lambda>_. I Rest)"
    and law_send: "sends M old new \<Longrightarrow>
      triple (\<lambda>w. (I Rest w \<and> loaded H old w) \<and> max_iterations w = M) (save_turn H new)
        (\<lambda>r w. case r of Err _ \<Rightarrow> I Rest w | Ok _ \<Rightarrow> I Send w)"
    and law_forget: "triple (I Rest) (do { quietly (rk_delete (turn_key i)); unregister_active_session H i }) (\<lambda>_. I Rest)"
    and law_restart: "triple (I Rest) clear_ephemeral_keys (\<lambda>_. I Rest)"
    and law_request: "trim model \<noteq> [] \<Longrightarrow> triple (\<lambda>w. I Send w \<and> provider_topic w topic)
      (react_publish topic (Llm_Request r model ms ts s)) (\<lambda>_. I Rest)"

end
