(* ===== verification/React_Walk.thy ===== *)
theory React_Walk
  imports React_Laws
begin

text \<open>Every handler of the agent loop under \<open>loop_law\<close>: it may be run wherever its mode holds, and ends at rest.\<close>

section \<open>Results of the parts\<close>

lemma reset_turn_result:
  "triple P (reset_turn st) (\<lambda>st' _. ts_session_id st' = ts_session_id st \<and> ts_phase st' = ts_phase st \<and>
     ts_dispatched_tools st' = [] \<and> ts_iteration_count st' = ts_iteration_count st \<and>
     ts_schema_version st' = ts_schema_version st)"
  by (auto simp: triple_def reset_turn_def new_uuid_def run_bind)

lemma reset_conversation_result:
  "triple P (reset_conversation_turn st) (\<lambda>st' _. ts_session_id st' = ts_session_id st \<and> ts_phase st' = ts_phase st \<and>
     ts_dispatched_tools st' = [] \<and> ts_iteration_count st' = 0)"
  by (auto simp: triple_def reset_conversation_turn_def reset_turn_def new_uuid_def run_bind)

lemma triple_both: "keeps_world P m \<Longrightarrow> triple P m Q \<Longrightarrow> triple P m (\<lambda>x w. P w \<and> Q x w)"
  by (simp add: triple_def keeps_world_def)

lemma triple_pure: "triple P m (\<lambda>x _. R x) \<Longrightarrow> keeps_world P m \<Longrightarrow> (\<And>x. R x \<Longrightarrow> triple P (f x) Q) \<Longrightarrow>
    triple P (State_Monad.bind m f) Q"
  by (rule triple_bind[OF triple_both]) (assumption, assumption, auto simp: triple_def)

lemma set_phase_other:
  "p \<noteq> Idle \<Longrightarrow> triple P (set_phase H p st) (\<lambda>st' _. \<exists>t. st' = st\<lparr>ts_phase := p, ts_phase_entered_at_ms := t\<rparr>)"
  by (auto simp: triple_def set_phase_def run_bind now_ms_def)

lemma config_result: "triple P (get_config_u64 k d) (\<lambda>r w. r = config_value (var_or_empty (ri_env (rw_in w) k)) d)"
  by (simp add: triple_def get_config_u64_def env_var_def env_var_opt_def run_bind State_Monad.get_def)

lemma run_rk_call:
  "run_state (rk_call f) w = (case ri_kv_faults (rw_in w) of
     [] \<Rightarrow> (Ok (fst (f (rw_kv w))), w\<lparr>rw_kv := snd (f (rw_kv w))\<rparr>)
   | Some e # xs \<Rightarrow> (Err (Host_Error e), w\<lparr>rw_in := ri_kv_faults_update (\<lambda>_. xs) (rw_in w)\<rparr>)
   | None # xs \<Rightarrow> (Ok (fst (f (rw_kv w))), w\<lparr>rw_kv := snd (f (rw_kv w)), rw_in := ri_kv_faults_update (\<lambda>_. xs) (rw_in w)\<rparr>))"
  by (cases w) (simp add: rk_call_def next_in_def run_bind State_Monad.get_def State_Monad.update_def
    State_Monad.set_def split: list.split option.split)

lemma load_turn_result: "triple P (load_turn H i) (\<lambda>st w. ts_session_id st = i \<and> loaded H st w)"
  by (auto simp: triple_def load_turn_def rk_get_json_def rk_get_opt_def run_bind run_attempt run_rk_call loaded_def
      stored_def turn_of_def turn_default_def split: list.split option.split sum.split)

text \<open>What the loop takes for the provider's topic is one, or the override of the environment.\<close>

lemma cached_active_result:
  "triple (\<lambda>w. routed (rw_kv w)) cached_active_llm
     (\<lambda>a w. \<forall>x. a = Some x \<longrightarrow> prefix provider_topic_prefix (al_topic x))"
  unfolding cached_active_llm_def rk_get_opt_def
  by (auto simp: triple_def run_bind run_rk_call routed_def split: list.split option.split if_splits)

lemma fetched_active_result:
  "triple P (fetch_active_llm_topic_from_registry H)
     (\<lambda>a w. \<forall>x. a = Some x \<longrightarrow> prefix provider_topic_prefix (al_topic x))"
  unfolding fetch_active_llm_topic_from_registry_def triple_def
  by (auto simp: run_bind parsed_provider_prefix split: prod.split if_splits option.splits sum.splits list.splits)

context quiet_law
begin

lemma load_turn_triple: "triple J (load_turn H i) (\<lambda>st w. (J w \<and> loaded H st w) \<and> ts_session_id st = i)"
  by (rule triple_post[OF triple_both[OF keeps_loads(2) load_turn_result]]) auto

lemma active_llm_triple:
  assumes "\<And>w. J w \<Longrightarrow> routed (rw_kv w)"
  shows "triple J (active_llm H) (\<lambda>a w. J w \<and> provider_topic w (al_topic a))"
  unfolding active_llm_def
proof (rule triple_bind[OF triple_both[OF keeps_cached_active triple_pre[OF cached_active_result]]], fact)
  fix c :: "active_llm_choice option"
  show "triple (\<lambda>w. J w \<and> (\<forall>x. c = Some x \<longrightarrow> prefix provider_topic_prefix (al_topic x)))
    (case c of Some active \<Rightarrow> ret active
     | None \<Rightarrow> do {
         override \<leftarrow> env_var_opt kv_provider_topic;
         case override of
           Ok (Some (c # topic)) \<Rightarrow> ret \<lparr>al_topic = c # topic, al_model = None\<rparr>
         | _ \<Rightarrow> do {
             fetched \<leftarrow> fetch_active_llm_topic_from_registry H;
             ret (case fetched of
                 Some active \<Rightarrow> active
               | None \<Rightarrow> \<lparr>al_topic = provider_topic_prefix @ ''anthropic'', al_model = None\<rparr>) } })
    (\<lambda>a w. J w \<and> provider_topic w (al_topic a))"
  proof (cases c)
    case (Some x)
    then show ?thesis by (auto intro!: triple_ret simp: provider_topic_def)
  next
    case None
    have env: "triple J (env_var_opt kv_provider_topic) (\<lambda>v w. J w \<and> v = ri_env (rw_in w) kv_provider_topic)"
      by (simp add: triple_def env_var_opt_def run_bind State_Monad.get_def)
    have fetch: "triple J (do { fetched \<leftarrow> fetch_active_llm_topic_from_registry H;
             ret (case fetched of
                 Some active \<Rightarrow> active
               | None \<Rightarrow> \<lparr>al_topic = provider_topic_prefix @ ''anthropic'', al_model = None\<rparr>) })
        (\<lambda>a w. J w \<and> provider_topic w (al_topic a))"
      by (rule triple_bind[OF triple_both[OF keeps_fetch_active fetched_active_result]])
        (auto intro!: triple_ret simp: provider_topic_def split: option.split)
    show ?thesis unfolding None option.case
      by (rule triple_bind[OF triple_pre[OF env]])
        (auto intro!: triple_ret triple_pre[OF fetch[unfolded provider_topic_def]] simp: provider_topic_def split: sum.split option.split list.split)
  qed
qed

lemma iterations_triple:
  "triple J (get_config_u64 ''max_iterations'' (ucast default_max_iterations))
     (\<lambda>r w. J w \<and> max_iterations w = max_iterations_of r)"
  by (rule triple_post[OF triple_both[OF keeps_get_config(1) config_result]]) (auto simp: max_iterations_def)

end

section \<open>The handlers\<close>

sublocale loop_law < at_mode: quiet_law H "I m" for m
  by (rule law_quiet)

sublocale loop_law < at_turn: quiet_law H "\<lambda>w. I m w \<and> loaded H st w" for m st
  by (rule quiet_loaded, rule law_quiet)

sublocale loop_law < at_limit: quiet_law H "\<lambda>w. (I m w \<and> loaded H st w) \<and> max_iterations w = M" for m st M
  by (rule quiet_iterations, rule quiet_loaded, rule law_quiet)

sublocale loop_law < at_topic: quiet_law H "\<lambda>w. I m w \<and> provider_topic w t" for m t
  by (rule quiet_topic, rule law_quiet)

definition start_mode :: "react_event \<Rightarrow> mode" where
  "start_mode e = (case e of User_Prompt _ \<Rightarrow> Open | _ \<Rightarrow> Rest)"

text \<open>A check of the timeout that goes on leaves the turn as it was loaded.\<close>

definition checked :: "react_host \<Rightarrow> turn_state \<Rightarrow> sys_error + bool \<times> turn_state \<Rightarrow> react_world \<Rightarrow> bool" where
  "checked H st r w \<longleftrightarrow> (\<forall>st'. r = Ok (False, st') \<longrightarrow> st' = st \<and> loaded H st w)"

lemma resolved_not_blank: "resolve_request_model m a = Some model \<Longrightarrow> trim model \<noteq> []"
  by (auto simp: resolve_request_model_def non_blank_def split: option.splits if_splits)

context loop_law
begin

lemma loaded_tagged: "I m w \<Longrightarrow> loaded H st w \<Longrightarrow> ts_phase st \<noteq> Idle \<Longrightarrow> tagged st"
  using law_tagged[of m w] by (auto simp: loaded_def turns_tagged_def dest: spec[of _ "ts_session_id st"])

lemma set_idle: "triple (I Rest) (set_phase H Idle st)
    (\<lambda>st' w. I (Leaving (ts_session_id st)) w \<and> (\<exists>t. st' = st\<lparr>ts_phase := Idle, ts_phase_entered_at_ms := t\<rparr>))"
  unfolding set_phase_def
  by (rule triple_after[OF at_mode.keeps_now_ms], simp, rule triple_bind[OF law_unregister], rule triple_ret, blast)

lemma save_idle:
  assumes "tagged st"
  shows "triple (I Rest) (do { st' \<leftarrow> set_phase H Idle st; save_turn H st' }) (\<lambda>_. I Rest)"
proof (rule triple_bind[OF set_idle])
  fix st'
  show "triple (\<lambda>w. I (Leaving (ts_session_id st)) w \<and> (\<exists>t. st' = st\<lparr>ts_phase := Idle, ts_phase_entered_at_ms := t\<rparr>))
     (save_turn H st') (\<lambda>_. I Rest)"
  proof (rule triple_fact)
    assume "\<exists>t. st' = st\<lparr>ts_phase := Idle, ts_phase_entered_at_ms := t\<rparr>"
    then have "rests st'" "ts_session_id st' = ts_session_id st" using assms by (auto simp: rests_def tagged_def)
    with law_rest[of st'] show "triple (\<lambda>w. I (Leaving (ts_session_id st)) w \<and>
        (\<exists>t. st' = st\<lparr>ts_phase := Idle, ts_phase_entered_at_ms := t\<rparr>)) (save_turn H st') (\<lambda>_. I Rest)"
      by (auto elim: triple_pre)
  qed blast
qed

lemma save_idle_then:
  assumes "tagged st" and "\<And>st'. keeps_world (I Rest) (f st')"
  shows "triple (I Rest) (do { st' \<leftarrow> set_phase H Idle st; attempt (save_turn H st') (\<lambda>_. f st') }) (\<lambda>_. I Rest)"
proof (rule triple_bind[OF set_idle])
  fix st'
  show "triple (\<lambda>w. I (Leaving (ts_session_id st)) w \<and> (\<exists>t. st' = st\<lparr>ts_phase := Idle, ts_phase_entered_at_ms := t\<rparr>))
     (attempt (save_turn H st') (\<lambda>_. f st')) (\<lambda>_. I Rest)"
  proof (rule triple_fact)
    assume "\<exists>t. st' = st\<lparr>ts_phase := Idle, ts_phase_entered_at_ms := t\<rparr>"
    then have "rests st'" "ts_session_id st' = ts_session_id st" using assms(1) by (auto simp: rests_def tagged_def)
    with law_rest[of st'] have "triple (\<lambda>w. I (Leaving (ts_session_id st)) w \<and>
        (\<exists>t. st' = st\<lparr>ts_phase := Idle, ts_phase_entered_at_ms := t\<rparr>)) (save_turn H st') (\<lambda>_. I Rest)"
      by (auto elim: triple_pre)
    then show "triple (\<lambda>w. I (Leaving (ts_session_id st)) w \<and>
        (\<exists>t. st' = st\<lparr>ts_phase := Idle, ts_phase_entered_at_ms := t\<rparr>)) (attempt (save_turn H st') (\<lambda>_. f st')) (\<lambda>_. I Rest)"
      by (rule triple_attempt) (simp_all add: triple_keeps assms(2))
  qed blast
qed

lemma keeps_end_turn: "keeps_world (I Rest) (end_turn H st)"
  unfolding end_turn_def
  by (rule keeps_triple, rule triple_pure[OF reset_conversation_result at_mode.keeps_resets(2)],
      rule save_idle_then[OF _ keeps_ret]) (simp add: tagged_def)

lemma check_phase_timeout_triple:
  "triple (\<lambda>w. I Rest w \<and> loaded H st w) (check_phase_timeout H st) (\<lambda>r w. I Rest w \<and> checked H st r w)"
proof (cases "phase_timeout (ts_phase st)")
  case None
  then show ?thesis by (auto simp: check_phase_timeout_def checked_def intro!: triple_ret)
next
  case (Some d)
  obtain secs key where d: "d = (secs, key)" by (cases d)
  have over: "triple (\<lambda>w. I Rest w \<and> loaded H st w)
      (do { quietly (react_publish response_topic_agent (completion_event H st y f));
            attempt (end_turn H st) (\<lambda>st'. ret (Ok (True, st'))) }) (\<lambda>r w. I Rest w \<and> checked H st r w)" for y f
    by (rule triple_pre[of "I Rest"], rule triple_after, intro stays, rule triple_attempt_keeps[OF keeps_end_turn])
      (auto intro: triple_ret simp: checked_def)
  show ?thesis
    unfolding check_phase_timeout_def Some d option.case prod.case
    by (rule triple_after[OF at_turn.keeps_now_ms], rule triple_if, rule triple_ret, simp add: checked_def,
        rule triple_after[OF at_turn.keeps_get_config], rule triple_if, rule over, rule triple_ret, simp add: checked_def)
qed

lemma check_timeout_triple:
  "triple (\<lambda>w. I Rest w \<and> loaded H st w) (check_timeout_with_cleanup H st) (\<lambda>r w. I Rest w \<and> checked H st r w)"
  unfolding check_timeout_with_cleanup_def
proof (intro triple_if triple_attempt[OF check_phase_timeout_triple])
  fix r :: "bool \<times> turn_state"
  assume t: "fst r"
  show "triple (\<lambda>w. I Rest w \<and> checked H st (Ok r) w) (do { cleanup_inflight_mappings H st; ret (Ok r) })
      (\<lambda>r w. I Rest w \<and> checked H st r w)"
    by (rule triple_pre[of "I Rest"], rule triple_after[OF at_mode.keeps_cleanup])
      (use t in \<open>auto intro!: triple_ret simp: checked_def\<close>)
qed (auto intro!: triple_ret simp: checked_def)

lemma keeps_fail_no_model: "keeps_world (I Rest) (fail_no_model_selected H st)"
  unfolding fail_no_model_selected_def by (intro stays keeps_end_turn)

lemma publish_llm_request_triple: "triple (I Send) (publish_llm_request H st ms) (\<lambda>_. I Rest)"
  unfolding publish_llm_request_def
proof (rule triple_bind[OF at_mode.active_llm_triple], erule law_routed, rule triple_option)
  fix a :: active_llm_choice
  show "triple (\<lambda>w. I Send w \<and> provider_topic w (al_topic a)) (fail_no_model_selected H st) (\<lambda>_. I Rest)"
    by (rule triple_pre[OF triple_keeps[OF keeps_fail_no_model]]) (simp add: law_unsent)
next
  fix a model assume "resolve_request_model (ts_request_model_override st) a = Some model"
  then have m: "trim model \<noteq> []" by (rule resolved_not_blank)
  have sent: "triple (\<lambda>w. I Send w \<and> provider_topic w (al_topic a)) (do {
       r \<leftarrow> react_publish (al_topic a) (Llm_Request (ts_request_id st) model c (ts_current_tools st) (ts_system_prompt st));
       case r of Err e \<Rightarrow> do { delete_request_session H (ts_request_id st); ret (Err e) } | Ok _ \<Rightarrow> ret (Ok ()) })
     (\<lambda>_. I Rest)" for c
    by (rule triple_bind[OF law_request[OF m]], rule triple_keeps, intro stays)
  show "triple (\<lambda>w. I Send w \<and> provider_topic w (al_topic a)) (do {
         compacted \<leftarrow> compact_messages H (ts_session_id st) ms;
         attempt (store_request_session H (ts_request_id st) (ts_session_id st)) (\<lambda>_. do {
           r \<leftarrow> react_publish (al_topic a)
             (Llm_Request (ts_request_id st) model compacted (ts_current_tools st) (ts_system_prompt st));
           case r of
             Err e \<Rightarrow> do { delete_request_session H (ts_request_id st); ret (Err e) }
           | Ok _ \<Rightarrow> ret (Ok ()) }) }) (\<lambda>_. I Rest)"
    by (rule triple_after[OF at_topic.keeps_compact], rule triple_attempt_keeps[OF at_topic.keeps_sessions(1)], simp add: law_unsent, rule sent)
qed

lemma save_then_request:
  assumes "sends M old new" and "keeps_world (I Send) m"
  shows "triple (\<lambda>w. (I Rest w \<and> loaded H old w) \<and> max_iterations w = M)
    (attempt (save_turn H new) (\<lambda>_. do { _ \<leftarrow> m; publish_llm_request H new ms })) (\<lambda>_. I Rest)"
  by (rule triple_attempt[OF law_send[OF assms(1)]], simp, rule triple_after,
      simp add: assms(2), simp add: publish_llm_request_triple)

lemma keeps_publish_tools:
  assumes "tagged st"
  shows "keeps_world (I Rest) (publish_tools H st ids tcs)"
proof (induction tcs)
  case (Cons tc tcs)
  have "keeps_world (I Rest) (do { st' \<leftarrow> set_phase H Idle st; attempt (save_turn H st') (\<lambda>_. ret (Err e)) })" for e
    by (rule keeps_triple, rule save_idle_then[OF assms keeps_ret])
  then show ?case
    by simp (rule keeps_world_bind, rule at_mode.keeps_events, rule keeps_world_sum, rule keeps_world_bind, intro stays,
      rule keeps_world_bind, intro stays, assumption, rule Cons)
qed (simp add: keeps_ret)

lemma handle_stream_done_triple:
  assumes "ts_phase old = Streaming" and "advances old st"
  shows "triple (\<lambda>w. I Rest w \<and> loaded H old w) (handle_stream_done H st) (\<lambda>_. I Rest)"
proof -
  have tag: "tagged st" using assms(2) by (simp add: advances_def)
  let ?ds = "map (dispatch_call H (ts_request_id st)) (ts_pending_stream_tools st)"
  let ?st = "st\<lparr>ts_dispatched_tools := ?ds, ts_pending_stream_tools := []\<rparr>"
  have tools: "triple (\<lambda>w. I Rest w \<and> loaded H old w)
    (attempt (store_call_sessions (map dt_id ?ds) (ts_session_id st)) (\<lambda>_. do {
         st' \<leftarrow> set_phase H Awaiting_Tools ?st;
         saved \<leftarrow> save_turn H st';
         case saved of
           Err e \<Rightarrow> do { delete_call_sessions (map dt_id ?ds); ret (Err e) }
         | Ok _ \<Rightarrow> publish_tools H st' (map dt_id ?ds) ?ds })) (\<lambda>_. I Rest)"
  proof (rule triple_attempt_keeps[OF at_turn.keeps_store_call_sessions], simp,
      rule triple_pure[OF set_phase_other], simp, rule at_turn.keeps_set_phase, simp)
    fix st' assume "\<exists>t. st' = ?st\<lparr>ts_phase := Awaiting_Tools, ts_phase_entered_at_ms := t\<rparr>"
    then have a: "advances old st'" "tagged st'"
      using assms by (auto simp: advances_def tagged_def dispatch_call_def)
    show "triple (\<lambda>w. I Rest w \<and> loaded H old w) (do {
        saved \<leftarrow> save_turn H st';
         case saved of
           Err e \<Rightarrow> do { delete_call_sessions (map dt_id ?ds); ret (Err e) }
         | Ok _ \<Rightarrow> publish_tools H st' (map dt_id ?ds) ?ds }) (\<lambda>_. I Rest)"
      by (rule triple_bind[OF law_advance[OF a(1)]], rule triple_keeps, intro stays keeps_publish_tools[OF a(2)])
  qed
  have done_text: "triple (I Rest)
      (attempt (fetch_messages_with_append H (ts_session_id st) [assistant_text (ts_response_text st)]) (\<lambda>_.
       attempt (react_publish response_topic_agent (Agent_Response (ts_response_text st) True (ts_session_id st))) (\<lambda>_. do {
         st' \<leftarrow> set_phase H Idle st;
         save_turn H st' }))) (\<lambda>_. I Rest)" if "ts_response_text st \<noteq> []"
    by (rule triple_attempt_keeps[OF at_mode.keeps_fetch_with_append], use that in \<open>auto simp: whole_round_def\<close>)
      (rule triple_attempt_keeps[OF at_mode.keeps_events(1)], simp, rule save_idle[OF tag])
  show ?thesis
    unfolding handle_stream_done_def Let_def
    by (rule triple_after[OF at_turn.keeps_sessions(4)], intro triple_if, rule tools,
        rule triple_pre[OF done_text], assumption, simp, rule triple_pre[OF save_idle[OF tag]], simp)
qed

lemma keeps_end_quietly: "keeps_world (I Rest) (attempt (end_turn H st) (\<lambda>_. ret (Ok ())))"
  by (intro stays keeps_end_turn)

lemma save_stream_triple:
  "advances old st \<Longrightarrow> triple (\<lambda>w. I Rest w \<and> loaded H old w) (save_stream H st) (\<lambda>_. I Rest)"
  unfolding save_stream_def by (rule triple_attempt[OF law_advance]) (auto intro: triple_ret)

lemma apply_stream_event_triple:
  assumes "ts_phase old = Streaming" and "tagged old"
  shows "triple (\<lambda>w. I Rest w \<and> loaded H old w)
    (apply_stream_event H event (old\<lparr>ts_phase_entered_at_ms := now\<rparr>)) (\<lambda>_. I Rest)"
proof -
  let ?st = "old\<lparr>ts_phase_entered_at_ms := now\<rparr>"
  have adv: "ts_session_id st = ts_session_id old \<Longrightarrow> ts_phase st = Streaming \<Longrightarrow> ts_dispatched_tools st = ts_dispatched_tools old \<Longrightarrow>
      ts_request_id st = ts_request_id old \<Longrightarrow> ts_iteration_count st = ts_iteration_count old \<Longrightarrow> advances old st" for st
    using assms by (simp add: advances_def tagged_def)
  show ?thesis
  proof (cases event)
    case (Text_Delta t)
    show ?thesis
      unfolding Text_Delta apply_stream_event_def stream_event.case
      by (rule triple_after, intro stays, rule save_stream_triple, rule adv) (simp_all add: assms)
  next
    case (Stream_Error e)
    show ?thesis
      unfolding Stream_Error apply_stream_event_def stream_event.case
      by (rule triple_pre[of "I Rest"], rule triple_keeps, intro stays keeps_end_turn, simp)
  next
    case Stream_Done
    then show ?thesis
      by (simp add: apply_stream_event_def handle_stream_done_triple assms(1) adv)
  qed (simp_all add: apply_stream_event_def on_pending_def save_stream_triple adv assms)
qed

text \<open>After a timeout check that goes on.\<close>

lemma after_check:
  assumes "ts_phase st \<noteq> Idle \<longrightarrow> tagged st \<Longrightarrow> triple (\<lambda>w. I Rest w \<and> loaded H st w) (f st) (\<lambda>_. I Rest)"
  shows "triple (\<lambda>w. I Rest w \<and> loaded H st w)
    (attempt (check_timeout_with_cleanup H st) (\<lambda>(timed_out, st'). if timed_out then ret (Ok ()) else f st')) (\<lambda>_. I Rest)"
proof (rule triple_attempt[OF check_timeout_triple], simp)
  fix r :: "bool \<times> turn_state"
  show "triple (\<lambda>w. I Rest w \<and> checked H st (Ok r) w)
      (case r of (timed_out, st') \<Rightarrow> if timed_out then ret (Ok ()) else f st') (\<lambda>_. I Rest)"
  proof (cases r)
    case (Pair timed_out st')
    show ?thesis
    proof (cases timed_out)
      case True
      then show ?thesis by (auto simp: Pair intro: triple_ret)
    next
      case False
      have "triple (\<lambda>w. I Rest w \<and> checked H st (Ok r) w) (f st') (\<lambda>_. I Rest)"
      proof (rule triple_fact)
        fix w assume w: "I Rest w \<and> checked H st (Ok r) w"
        then show "st' = st \<and> (ts_phase st \<noteq> Idle \<longrightarrow> tagged st)"
          using False by (auto simp: checked_def Pair intro: loaded_tagged)
      next
        assume "st' = st \<and> (ts_phase st \<noteq> Idle \<longrightarrow> tagged st)"
        then show "triple (\<lambda>w. I Rest w \<and> checked H st (Ok r) w) (f st') (\<lambda>_. I Rest)"
          using assms False by (auto simp: checked_def Pair elim: triple_pre)
      qed
      then show ?thesis by (simp add: Pair False)
    qed
  qed
qed

lemma load_then:
  assumes "\<And>st. ts_session_id st = i \<Longrightarrow> triple (\<lambda>w. I Rest w \<and> loaded H st w) (f st) (\<lambda>_. I Rest)"
  shows "triple (I Rest) (do { st \<leftarrow> load_turn H i; f st }) (\<lambda>_. I Rest)"
proof (rule triple_bind[OF at_mode.load_turn_triple])
  fix st
  show "triple (\<lambda>w. (I Rest w \<and> loaded H st w) \<and> ts_session_id st = i) (f st) (\<lambda>_. I Rest)"
    by (rule triple_fact[of _ "ts_session_id st = i"], simp, rule triple_pre[OF assms]) simp_all
qed

lemma redrive_result: "triple P (redrive_if_unready e a t p) (\<lambda>unready _. \<not> unready \<longrightarrow> a = e)"
  by (auto simp: triple_def redrive_if_unready_def run_bind Let_def split: canonical_json.split prod.split)

lemma with_turn_triple:
  assumes t: "topic = identity_topic \<or> topic = assembled_topic"
    and f: "\<And>st. ts_phase st = expected \<Longrightarrow> ts_phase st \<noteq> Idle \<longrightarrow> tagged st \<Longrightarrow>
      triple (\<lambda>w. I Rest w \<and> loaded H st w) (f st) (\<lambda>_. I Rest)"
  shows "triple (I Rest) (with_turn H expected topic payload f) (\<lambda>_. I Rest)"
  unfolding with_turn_def
proof (rule load_then, rule triple_if, rule triple_ret, simp, rule after_check)
  fix st assume tag: "ts_phase st \<noteq> Idle \<longrightarrow> tagged st"
  show "triple (\<lambda>w. I Rest w \<and> loaded H st w)
     (do { unready \<leftarrow> redrive_if_unready expected (ts_phase st) topic payload;
           if unready then ret (Ok ()) else f st }) (\<lambda>_. I Rest)"
  proof (rule triple_bind[OF triple_both[OF at_turn.keeps_redrive[OF t] redrive_result]], rule triple_if)
    fix unready :: bool
    show "triple (\<lambda>w. (I Rest w \<and> loaded H st w) \<and> (\<not> unready \<longrightarrow> ts_phase st = expected)) (ret (Ok ())) (\<lambda>_. I Rest)"
      by (rule triple_ret) simp
    assume "\<not> unready"
    then show "triple (\<lambda>w. (I Rest w \<and> loaded H st w) \<and> (\<not> unready \<longrightarrow> ts_phase st = expected)) (f st) (\<lambda>_. I Rest)"
      using f[of st] tag by (cases "ts_phase st = expected") (auto elim: triple_pre simp: triple_def)
  qed
qed

lemma identity_triple: "triple (I Rest) (handle_identity_response H p) (\<lambda>_. I Rest)"
  unfolding handle_identity_response_def
proof (rule with_turn_triple, simp)
  fix st :: turn_state
  let ?prompt = "case payload_string p ''prompt'' of Some p \<Rightarrow> p | None \<Rightarrow> []"
  assume st: "ts_phase st = Awaiting_Identity" "ts_phase st \<noteq> Idle \<longrightarrow> tagged st"
  have req: "keeps_world (I Rest) (request_assembly H st' ms prompt)" for st' ms prompt
    unfolding request_assembly_def by (intro stays keeps_fail_no_model)
  show "triple (\<lambda>w. I Rest w \<and> loaded H st w)
     (let prompt = ?prompt in do {
       st' \<leftarrow> set_phase H Awaiting_Prompt_Build (st\<lparr>ts_system_prompt := prompt\<rparr>);
       attempt (fetch_messages H (ts_session_id st')) (\<lambda>ms.
       attempt (save_turn H st') (\<lambda>_. request_assembly H st' ms prompt)) }) (\<lambda>_. I Rest)"
    unfolding Let_def
  proof (rule triple_pure[OF set_phase_other], simp, rule at_turn.keeps_set_phase, simp)
    fix st' assume "\<exists>t. st' = st\<lparr>ts_system_prompt := ?prompt, ts_phase := Awaiting_Prompt_Build, ts_phase_entered_at_ms := t\<rparr>"
    then have "advances st st'" using st by (auto simp: advances_def tagged_def)
    then show "triple (\<lambda>w. I Rest w \<and> loaded H st w) (attempt (fetch_messages H (ts_session_id st')) (\<lambda>ms.
       attempt (save_turn H st') (\<lambda>_. request_assembly H st' ms ?prompt))) (\<lambda>_. I Rest)"
      by (intro triple_attempt_keeps[OF at_turn.keeps_fetch_messages] triple_attempt[OF law_advance])
        (simp_all add: triple_keeps req)
  qed
qed

lemma prompt_response_triple: "triple (I Rest) (handle_prompt_response H p) (\<lambda>_. I Rest)"
  unfolding handle_prompt_response_def
proof (rule with_turn_triple, simp)
  fix st :: turn_state
  assume st: "ts_phase st = Awaiting_Prompt_Build" "ts_phase st \<noteq> Idle \<longrightarrow> tagged st"
  define st1 where "st1 = (case payload_string p ''system_prompt'' of Some x \<Rightarrow> st\<lparr>ts_system_prompt := x\<rparr> | None \<Rightarrow> st)"
  define tools where "tools = parse_json_array_field (rh_tool H) p ''tools''"
  define ms where "ms = apply_user_prefix (payload_string p ''user_context_prefix'')
                (parse_json_array_field (rh_message H) p ''messages'')"
  have st1: "ts_session_id st1 = ts_session_id st" "ts_request_id st1 = ts_request_id st"
    "ts_dispatched_tools st1 = ts_dispatched_tools st" "ts_iteration_count st1 = ts_iteration_count st"
    "ts_schema_version st1 = ts_schema_version st"
    by (simp_all add: st1_def split: option.split)
  have "triple (\<lambda>w. I Rest w \<and> loaded H st w)
     (do { st2 \<leftarrow> set_phase H Streaming (st1\<lparr>ts_current_tools := tools\<rparr>);
       attempt (save_turn H st2) (\<lambda>_. publish_llm_request H st2 ms) }) (\<lambda>_. I Rest)"
  proof (rule triple_pure[OF set_phase_other], simp, rule at_turn.keeps_set_phase, simp)
    fix st2 assume "\<exists>t. st2 = st1\<lparr>ts_current_tools := tools, ts_phase := Streaming, ts_phase_entered_at_ms := t\<rparr>"
    then have "sends M st st2" for M using st st1 by (auto simp: sends_def tagged_def)
    then have "triple (\<lambda>w. (I Rest w \<and> loaded H st w) \<and> max_iterations w = M)
        (attempt (save_turn H st2) (\<lambda>_. publish_llm_request H st2 ms)) (\<lambda>_. I Rest)" for M
      by (rule triple_attempt[OF law_send]) (simp_all add: publish_llm_request_triple)
    then show "triple (\<lambda>w. I Rest w \<and> loaded H st w)
        (attempt (save_turn H st2) (\<lambda>_. publish_llm_request H st2 ms)) (\<lambda>_. I Rest)"
      by (simp add: triple_def)
  qed
  then show "triple (\<lambda>w. I Rest w \<and> loaded H st w)
     (let st1 = (case payload_string p ''system_prompt'' of Some x \<Rightarrow> st\<lparr>ts_system_prompt := x\<rparr> | None \<Rightarrow> st);
         tools = parse_json_array_field (rh_tool H) p ''tools'';
         ms = apply_user_prefix (payload_string p ''user_context_prefix'')
                (parse_json_array_field (rh_message H) p ''messages'') in do {
     st2 \<leftarrow> set_phase H Streaming (st1\<lparr>ts_current_tools := tools\<rparr>);
     attempt (save_turn H st2) (\<lambda>_. publish_llm_request H st2 ms) }) (\<lambda>_. I Rest)"
    by (simp add: Let_def st1_def tools_def ms_def)
qed

lemma llm_stream_triple: "triple (I Rest) (handle_llm_stream H p) (\<lambda>_. I Rest)"
proof (cases p)
  case (Llm_Stream_Event r event)
  have go: "triple (\<lambda>w. I Rest w \<and> loaded H st w)
      (attempt (check_timeout_with_cleanup H st) (\<lambda>(timed_out, st').
         if timed_out \<or> ts_phase st' \<noteq> Streaming \<or> ts_request_id st' \<noteq> r then ret (Ok ())
         else do { now \<leftarrow> now_ms; apply_stream_event H event (st'\<lparr>ts_phase_entered_at_ms := now\<rparr>) })) (\<lambda>_. I Rest)" for st
  proof -
    have "(\<lambda>(timed_out, st').
         if timed_out \<or> ts_phase st' \<noteq> Streaming \<or> ts_request_id st' \<noteq> r then ret (Ok ())
         else do { now \<leftarrow> now_ms; apply_stream_event H event (st'\<lparr>ts_phase_entered_at_ms := now\<rparr>) }) =
       (\<lambda>(timed_out, st'). if timed_out then ret (Ok ())
         else if ts_phase st' \<noteq> Streaming \<or> ts_request_id st' \<noteq> r then ret (Ok ())
         else do { now \<leftarrow> now_ms; apply_stream_event H event (st'\<lparr>ts_phase_entered_at_ms := now\<rparr>) })"
      by (auto simp: fun_eq_iff)
    then show ?thesis
      by (simp only:) (rule after_check, rule triple_if, rule triple_ret, simp,
        rule triple_after[OF at_turn.keeps_now_ms], rule apply_stream_event_triple, simp_all)
  qed
  show ?thesis
    unfolding handle_llm_stream_def Llm_Stream_Event ipc_input.case
    by (rule triple_after[OF at_mode.keeps_sessions(2)], rule triple_option, rule triple_ret, simp, rule load_then, rule go)
qed (auto simp: handle_llm_stream_def intro: triple_ret)

lemma map_filter_complete: "\<forall>x \<in> set xs. f x \<noteq> None \<Longrightarrow> length (List.map_filter f xs) = length xs"
  by (induction xs) (auto simp: List.map_filter_def)

lemma tool_round_whole: "all_tools_done st \<Longrightarrow> whole_round (tool_round (ts_dispatched_tools st))"
  unfolding whole_round_def tool_round_def all_tools_done_def
  by (intro disjI2 exI conjI) (auto simp: map_filter_complete)

lemma apply_tool_result_triple:
  assumes "ts_phase old = Awaiting_Tools" and "tagged old"
  shows "triple (\<lambda>w. I Rest w \<and> loaded H old w) (apply_tool_result H c r old) (\<lambda>_. I Rest)"
proof -
  let ?st1 = "record_result c r old"
  let ?st2 = "?st1\<lparr>ts_iteration_count := ts_iteration_count ?st1 + 1\<rparr>"
  have first: "tc \<in> set (update_first P f xs) \<Longrightarrow> (\<And>x. dt_turn_request_id (f x) = dt_turn_request_id x) \<Longrightarrow>
     \<exists>x \<in> set xs. dt_turn_request_id tc = dt_turn_request_id x" for tc P f xs
    by (induction xs) (auto split: if_splits)
  have tag: "tagged ?st1" using assms(2) by (auto simp: tagged_def record_result_def dest!: first)
  have adv: "advances old ?st1" using assms tag by (simp add: advances_def record_result_def)
  have stop: "keeps_world (I Rest) (stop_iterating H M st)" for M st
    unfolding stop_iterating_def by (intro stays keeps_end_turn)
  have go: "triple (\<lambda>w. (I Rest w \<and> loaded H old w) \<and> max_iterations w = M) (next_iteration H ?st2) (\<lambda>_. I Rest)"
    if d: "all_tools_done ?st1" and c: "\<not> M \<le> ts_iteration_count ?st2" for M
    unfolding next_iteration_def
  proof (rule triple_attempt_keeps[OF at_limit.keeps_fetch_with_append])
    show "whole_round (tool_round (ts_dispatched_tools ?st2))" using tool_round_whole[OF d] by simp
    fix ms :: "message list"
    show "triple (\<lambda>w. (I Rest w \<and> loaded H old w) \<and> max_iterations w = M) (do {
       st1 \<leftarrow> reset_turn ?st2;
       st2 \<leftarrow> set_phase H Streaming st1;
       attempt (save_turn H st2) (\<lambda>_. do {
         delete_call_sessions (dispatched_ids ?st2);
         publish_llm_request H st2 ms }) }) (\<lambda>_. I Rest)"
    proof (rule triple_pure[OF reset_turn_result], rule at_limit.keeps_resets, rule triple_pure[OF set_phase_other], simp,
        rule at_limit.keeps_set_phase, simp, rule save_then_request, elim exE)
      fix st1 st2 :: turn_state and t
      assume "ts_session_id st1 = ts_session_id ?st2 \<and> ts_phase st1 = ts_phase ?st2 \<and>
         ts_dispatched_tools st1 = [] \<and> ts_iteration_count st1 = ts_iteration_count ?st2 \<and>
         ts_schema_version st1 = ts_schema_version ?st2"
        and "st2 = st1\<lparr>ts_phase := Streaming, ts_phase_entered_at_ms := t\<rparr>"
      then show "sends M old st2" using assms(1) c by (simp add: sends_def tagged_def record_result_def)
    qed (intro stays)
  qed simp
  show ?thesis
    unfolding apply_tool_result_def Let_def
  proof (intro triple_if)
    show "triple (\<lambda>w. I Rest w \<and> loaded H old w) (do {
          configured \<leftarrow> get_config_u64 ''max_iterations'' (ucast default_max_iterations);
          if max_iterations_of configured \<le> ts_iteration_count ?st2
          then stop_iterating H (max_iterations_of configured) ?st2
          else next_iteration H ?st2 }) (\<lambda>_. I Rest)" if "\<not> \<not> all_tools_done ?st1"
      by (rule triple_bind[OF at_turn.iterations_triple], rule triple_if, rule triple_pre[OF triple_keeps[OF stop]], simp,
          rule go, use that in simp, assumption)
  qed (auto intro: triple_ret save_stream_triple adv)
qed

lemma tool_result_triple: "triple (I Rest) (handle_tool_result H p) (\<lambda>_. I Rest)"
proof (cases p)
  case (Tool_Execute_Result c r)
  have go: "triple (\<lambda>w. I Rest w \<and> loaded H st w)
      (attempt (check_timeout_with_cleanup H st) (\<lambda>(timed_out, st').
         if timed_out \<or> ts_phase st' \<noteq> Awaiting_Tools then ret (Ok ()) else apply_tool_result H c r st')) (\<lambda>_. I Rest)" for st
  proof -
    have "(\<lambda>(timed_out, st'). if timed_out \<or> ts_phase st' \<noteq> Awaiting_Tools then ret (Ok ()) else apply_tool_result H c r st') =
       (\<lambda>(timed_out, st'). if timed_out then ret (Ok ())
         else if ts_phase st' \<noteq> Awaiting_Tools then ret (Ok ()) else apply_tool_result H c r st')"
      by (auto simp: fun_eq_iff)
    then show ?thesis
      by (simp only:) (rule after_check, rule triple_if, rule triple_ret, simp, rule apply_tool_result_triple, simp_all)
  qed
  show ?thesis
    unfolding handle_tool_result_def Tool_Execute_Result ipc_input.case
    by (rule triple_after[OF at_mode.keeps_sessions(3)], rule triple_option, rule triple_ret, simp, rule load_then, rule go)
qed (auto simp: handle_tool_result_def intro: triple_ret)

lemma cancel_triple: "triple (I Rest) (handle_cancel H i) (\<lambda>_. I Rest)"
  unfolding handle_cancel_def by (rule triple_keeps, intro stays keeps_end_turn)

lemma begin_turn_triple: "triple (I Open) (begin_turn H context st) (\<lambda>_. I Rest)"
  unfolding begin_turn_def
proof (rule triple_after, intro stays, rule triple_pure[OF reset_conversation_result], rule at_mode.keeps_resets,
    rule triple_pure[OF set_phase_other], simp, rule at_mode.keeps_set_phase, simp, rule triple_bind[OF law_register])
  fix st1 st2 :: turn_state
  assume "ts_session_id st1 = ts_session_id st \<and> ts_phase st1 = ts_phase st \<and>
     ts_dispatched_tools st1 = [] \<and> ts_iteration_count st1 = 0"
    and "\<exists>t. st2 = st1\<lparr>ts_request_model_override := requested_model context, ts_phase := Awaiting_Identity,
      ts_phase_entered_at_ms := t\<rparr>"
  then have s: "starts st2" by (auto simp: starts_def)
  show "triple (I (Registered (ts_session_id st2))) (attempt (save_turn H st2) (\<lambda>_.
     attempt (react_publish response_topic_agent (completion_event H st2 [] False)) (\<lambda>_. do {
       workspace_root \<leftarrow> env_var ''workspace_root'';
       react_publish ''spark.v1.request.build'' (Raw_Json (json_obj [
         (''workspace_root'', CString (case workspace_root of Err _ \<Rightarrow> [] | Ok s \<Rightarrow> s)),
         (''session_id'', CString (ts_session_id st2)),
         (''request_id'', CString (rh_show_uuid H (ts_request_id st2)))])) }))) (\<lambda>_. I Rest)"
    by (rule triple_attempt[OF law_start[OF s]], simp, rule triple_keeps, intro stays)
qed

lemma user_prompt_triple: "triple (I Open) (handle_user_prompt H p) (\<lambda>_. I Rest)"
proof (cases p)
  case (User_Input t i ctx)
  have "triple (I Open) (do { st \<leftarrow> load_turn H i;
      attempt (fetch_messages_with_append H (ts_session_id st) [user_text t]) (\<lambda>_. begin_turn H ctx st) }) (\<lambda>_. I Rest)"
    if "trim t \<noteq> []"
    by (rule triple_after[OF at_mode.keeps_loads(2)], rule triple_attempt_keeps[OF at_mode.keeps_fetch_with_append],
        use that in \<open>auto simp: whole_round_def\<close>) (simp_all add: law_open begin_turn_triple)
  then show ?thesis
    by (auto simp: handle_user_prompt_def User_Input intro!: triple_ret law_open triple_pre[OF cancel_triple])
qed (auto simp: handle_user_prompt_def intro!: triple_ret law_open)

lemma session_clear_triple: "triple (I Rest) (handle_session_clear H p) (\<lambda>_. I Rest)"
  unfolding handle_session_clear_def Let_def
proof (rule triple_attempt_keeps, rule at_mode.keeps_request, rule side, simp, rule triple_option, rule triple_ret, simp)
  fix r new
  let ?old = "payload_session p" and ?st = "turn_default\<lparr>ts_session_id := new\<rparr>"
  let ?rest = "attempt (save_turn H ?st) (\<lambda>_. react_publish ''agent.v1.session_changed''
       (Raw_Json (json_obj [(''old_session_id'', CString ?old), (''new_session_id'', CString new)])))"
  have "rests ?st" by (simp add: rests_def tagged_def turn_default_def)
  then have rest: "triple (I Rest) ?rest (\<lambda>_. I Rest)"
    by (intro triple_attempt[OF law_fresh]) (simp_all add: triple_keeps at_mode.keeps_events)
  have "triple (I Rest) (do { _ \<leftarrow> (do { quietly (rk_delete (turn_key ?old)); unregister_active_session H ?old }); ?rest }) (\<lambda>_. I Rest)"
    by (rule triple_bind[OF law_forget rest])
  then show "triple (I Rest) (do { quietly (rk_delete (turn_key ?old)); unregister_active_session H ?old; ?rest }) (\<lambda>_. I Rest)"
    by (simp add: triple_def run_bind split: prod.splits)
qed

lemma keeps_quiet_timeout: "triple (\<lambda>w. I Rest w \<and> loaded H st w) (quietly (check_timeout_with_cleanup H st)) (\<lambda>_. I Rest)"
  unfolding quietly_def by (rule triple_bind[OF check_timeout_triple], rule triple_ret, simp)

lemma watch_sessions_triple: "triple (I Rest) (watch_sessions H is) (\<lambda>_. I Rest)"
proof (induction "is")
  case (Cons i js)
  then show ?case by simp (rule load_then, rule triple_bind[OF keeps_quiet_timeout])
qed (simp add: triple_ret)

lemma interrupt_sessions_keeps: "keeps_world (I Rest) (interrupt_sessions H is)"
proof (induction "is")
  case (Cons i js)
  have "keeps_world (I Rest) (interrupt_turn H st)" for st
    unfolding interrupt_turn_def by (intro stays keeps_end_turn)
  with Cons show ?case by simp (intro stays)
qed (simp add: keeps_ret)

theorem react_handle_triple: "triple (I (start_mode e)) (react_handle H e) (\<lambda>_. I Rest)"
proof (cases e)
  case Lifecycle_Restart
  then show ?thesis
    by (simp add: start_mode_def react_handle_def handle_lifecycle_restart_def) (rule triple_bind[OF law_restart], rule triple_ret, simp)
next
  case Watchdog_Tick
  then show ?thesis
    by (simp add: start_mode_def react_handle_def handle_watchdog_tick_def)
      (rule triple_after[OF at_mode.keeps_loads(1)], rule triple_bind[OF watch_sessions_triple], rule triple_ret, simp)
next
  case Bus_Lag
  then show ?thesis
    by (simp add: start_mode_def react_handle_def handle_bus_lag_def)
      (rule triple_keeps, intro stays interrupt_sessions_keeps)
next
  case (Model_Changed p)
  then show ?thesis by (simp add: start_mode_def react_handle_def triple_keeps at_mode.keeps_model_changed)
qed (simp_all add: start_mode_def react_handle_def session_clear_triple user_prompt_triple identity_triple
  prompt_response_triple llm_stream_triple tool_result_triple)

end

end
