(* ===== verification/React_Machine.thy ===== *)
theory React_Machine
  imports React_Walk
begin

text \<open>
  The agent loop as a machine over what its store says of every session and what it published: \<open>turn_step\<close>. Every
  handler is a chain of its steps (\<open>loop_machine\<close> is the instance of \<open>loop_law\<close> that says so), so what the
  machine never does, no handler does.
\<close>

type_synonym turn_view = "string \<Rightarrow> turn_state"
type_synonym event_bus = "(string \<times> ipc_payload) list"
type_synonym environment = "string \<Rightarrow> unit + string option"

definition iterations_in :: "environment \<Rightarrow> u32" where
  "iterations_in env = max_iterations_of (config_value (var_or_empty (env ''max_iterations'')) (ucast default_max_iterations))"

definition topic_in :: "environment \<Rightarrow> string \<Rightarrow> bool" where
  "topic_in env topic \<longleftrightarrow> prefix provider_topic_prefix topic \<or> env kv_provider_topic = Ok (Some topic)"

lemma in_environment:
  "max_iterations w = iterations_in (ri_env (rw_in w))" "provider_topic w t = topic_in (ri_env (rw_in w)) t"
  by (simp_all add: max_iterations_def iterations_in_def provider_topic_def topic_in_def)

definition no_turns :: turn_view where
  "no_turns i = turn_default\<lparr>ts_session_id := i\<rparr>"

inductive turn_step :: "react_host \<Rightarrow> environment \<Rightarrow> mode \<times> turn_view \<times> event_bus \<Rightarrow> mode \<times> turn_view \<times> event_bus \<Rightarrow> bool"
  for H env where
  start: "starts st \<Longrightarrow> turn_step H env (Open, v, b) (Rest, v(ts_session_id st := st), b)"
| rest: "rests st \<Longrightarrow> turn_step H env (Rest, v, b) (Rest, v(ts_session_id st := st), b)"
| advance: "advances (v i) st \<Longrightarrow> ts_session_id st = i \<Longrightarrow> turn_step H env (Rest, v, b) (Rest, v(i := st), b)"
| send: "sends (iterations_in env) (v i) st \<Longrightarrow> ts_session_id st = i \<Longrightarrow>
    turn_step H env (Rest, v, b) (Send, v(i := st), b)"
| request: "trim model \<noteq> [] \<Longrightarrow> topic_in env topic \<Longrightarrow>
    turn_step H env (Send, v, b) (Rest, v, b @ [(topic, Llm_Request r model ms ts s)])"
| event: "side_event H t p \<Longrightarrow> turn_step H env (m, v, b) (m, v, b @ [(t, p)])"
| clear: "turn_step H env (Rest, v, b) (Rest, no_turns, b)"
| unopened: "turn_step H env (Open, v, b) (Rest, v, b)"
| unsent: "turn_step H env (Send, v, b) (Rest, v, b)"

inductive_cases turn_stepE: "turn_step H env (m, v, b) (m', v', b')"

section \<open>What a store says\<close>

definition base :: "react_host \<Rightarrow> environment \<Rightarrow> react_world \<Rightarrow> bool" where
  "base H env w \<longleftrightarrow> routed (rw_kv w) \<and> turns_tagged H (rw_kv w) \<and> ri_env (rw_in w) = env"

definition machine_mode :: "mode \<Rightarrow> mode" where
  "machine_mode m = (case m of Registered _ \<Rightarrow> Open | Leaving _ \<Rightarrow> Rest | _ \<Rightarrow> m)"

lemma machine_mode_simps [simp]:
  "machine_mode Rest = Rest" "machine_mode Open = Open" "machine_mode Send = Send"
  "machine_mode (Registered i) = Open" "machine_mode (Leaving i) = Rest"
  by (simp_all add: machine_mode_def)

definition follows :: "react_host \<Rightarrow> environment \<Rightarrow> mode \<times> turn_view \<times> event_bus \<Rightarrow> mode \<Rightarrow> react_world \<Rightarrow> bool" where
  "follows H env start m w \<longleftrightarrow> base H env w \<and>
     (turn_step H env)\<^sup>*\<^sup>* start (machine_mode m, stored H (rw_kv w), rw_bus w)"

lemma turn_key_inj [simp]: "turn_key i = turn_key j \<longleftrightarrow> i = j"
  by (simp add: turn_key_def)

lemma turn_key_not_side: "side_key k \<Longrightarrow> turn_key i \<noteq> k"
  by (auto simp: side_key_def turn_key_def)

lemma turn_key_other: "turn_key i \<noteq> active_sessions_key" "turn_key i \<noteq> kv_provider_topic"
  "active_sessions_key \<noteq> kv_provider_topic" "\<not> prefix request_session_prefix (turn_key i)"
  "\<not> prefix call_session_prefix (turn_key i)" "prefix turn_key_prefix (turn_key i)"
  "\<not> prefix turn_key_prefix kv_provider_topic"
  by (auto simp: turn_key_def turn_key_prefix_def active_sessions_key_def kv_provider_topic_def
      request_session_prefix_def call_session_prefix_def)

lemma stored_other: "turn_key i \<noteq> k \<Longrightarrow> stored H (bt_insert k v m) i = stored H m i"
  "turn_key i \<noteq> k \<Longrightarrow> stored H (bt_delete k m) i = stored H m i"
  by (auto simp: stored_def bt_get_delete)

definition version_known :: "turn_state \<Rightarrow> bool" where
  "version_known st \<longleftrightarrow> ts_schema_version st = 0 \<or> ts_schema_version st = 1"

lemma stored_insert:
  assumes "json_codec_ok (rh_turn H)" and "jc_encode (rh_turn H) st = Ok b"
  shows "stored H (bt_insert (turn_key (ts_session_id st)) b m) = (stored H m)
    (ts_session_id st := if version_known st then st else no_turns (ts_session_id st))"
  using assms by (auto simp: stored_def turn_of_def json_codec_ok_def fun_eq_iff version_known_def no_turns_def)

lemma stored_version: "version_known (stored H m i)"
  by (auto simp: version_known_def stored_def turn_of_def turn_default_def split: option.split sum.split)

lemma no_turns_rest: "rests (no_turns i)" "tagged (no_turns i)" "ts_session_id (no_turns i) = i" "version_known (no_turns i)"
  by (simp_all add: no_turns_def rests_def tagged_def turn_default_def version_known_def)

lemma stored_delete: "stored H (bt_delete (turn_key i) m) = (stored H m)(i := no_turns i)"
  by (auto simp: stored_def turn_of_def no_turns_def fun_eq_iff bt_get_delete)

lemma triple_save:
  assumes "quiet_law H J"
    and "\<And>w b. J w \<Longrightarrow> jc_encode (rh_turn H) st = Ok b \<Longrightarrow> Q (Ok ()) (w\<lparr>rw_kv := bt_insert (turn_key (ts_session_id st)) b (rw_kv w)\<rparr>)"
    and "\<And>e w. J w \<Longrightarrow> Q (Err e) w"
  shows "triple J (save_turn H st) Q"
proof (cases "jc_encode (rh_turn H) st")
  case (Inl e)
  then show ?thesis by (simp add: save_turn_def rk_set_json_def triple_ret assms(3))
next
  case (Inr b)
  have q: "Q (Ok ()) (rw_kv_update (bt_insert (turn_key (ts_session_id st)) b) w)" if "J w" for w
    using assms(2)[OF that Inr] by (subst world_updates(1))
  show ?thesis
    unfolding save_turn_def rk_set_json_def Inr sum.case rk_set_def rk_call_def
    by (rule triple_after[OF quiet_law.keeps_next_faults[OF assms(1)]], rule triple_after[OF keeps_get], rule triple_option)
      (auto simp: triple_def run_bind State_Monad.update_def State_Monad.get_def State_Monad.set_def q assms(3))
qed

section \<open>Every handler is a chain of steps\<close>

lemma further: "r\<^sup>*\<^sup>* x y \<Longrightarrow> r y z \<Longrightarrow> r\<^sup>*\<^sup>* x z"
  by (rule rtranclp.rtrancl_into_rtrancl)

lemma triple_update: "(\<And>w. P w \<Longrightarrow> Q x (f w)) \<Longrightarrow> triple P (do { State_Monad.update f; ret x }) Q"
  by (simp add: triple_def run_bind State_Monad.update_def State_Monad.get_def State_Monad.set_def)

lemma two_steps: "r x y \<Longrightarrow> r y z \<Longrightarrow> r\<^sup>*\<^sup>* x z"
  by (rule converse_rtranclp_into_rtranclp, assumption, rule r_into_rtranclp)

lemma quiet_follows: "quiet_law H (follows H env start m)"
proof (rule quiet_law.intro)
  fix w i
  assume "follows H env start m w" "narrower (rw_in w) i"
  then show "follows H env start m (w\<lparr>rw_in := i\<rparr>)" by (simp add: follows_def base_def narrower_def)
next
  fix w k v
  assume w: "follows H env start m w" and k: "side_key k" "k = kv_provider_topic \<Longrightarrow> prefix provider_topic_prefix v"
  have "stored H (bt_insert k v (rw_kv w)) = stored H (rw_kv w)"
    using turn_key_not_side[OF k(1)] by (auto simp: fun_eq_iff stored_other)
  with w k show "follows H env start m (w\<lparr>rw_kv := bt_insert k v (rw_kv w)\<rparr>)"
    by (auto simp: follows_def base_def routed_def turns_tagged_def)
next
  fix w k
  assume w: "follows H env start m w" and k: "side_key k"
  have "stored H (bt_delete k (rw_kv w)) = stored H (rw_kv w)"
    using turn_key_not_side[OF k(1)] by (auto simp: fun_eq_iff stored_other)
  with w k show "follows H env start m (w\<lparr>rw_kv := bt_delete k (rw_kv w)\<rparr>)"
    by (auto simp: follows_def base_def routed_def turns_tagged_def bt_get_delete)
next
  fix w t p
  assume "follows H env start m w" "side_event H t p"
  then show "follows H env start m (w\<lparr>rw_bus := rw_bus w @ [(t, p)]\<rparr>)"
    by (auto simp: follows_def base_def intro: further event)
qed

lemma follows_save:
  assumes "follows H env start m w" and "jc_encode (rh_turn H) st = Ok b" and "tagged st"
    and "(turn_step H env)\<^sup>*\<^sup>* (machine_mode m, stored H (rw_kv w), rw_bus w)
      (machine_mode m', (stored H (rw_kv w))(ts_session_id st := if version_known st then st else no_turns (ts_session_id st)), rw_bus w)"
  shows "follows H env start m' (w\<lparr>rw_kv := bt_insert (turn_key (ts_session_id st)) b (rw_kv w)\<rparr>)"
proof -
  have c: "json_codec_ok (rh_turn H)" using assms(1) by (simp add: follows_def base_def turns_tagged_def)
  show ?thesis
    using assms rtranclp_trans[of "turn_step H env" start] turn_key_other(2)[symmetric]
    by (auto simp: follows_def base_def routed_def turns_tagged_def stored_insert[OF c assms(2)] no_turns_rest)
qed

lemma active_key_follows:
  "follows H env start m w \<Longrightarrow> follows H env start m (w\<lparr>rw_kv := bt_insert active_sessions_key v (rw_kv w)\<rparr>)"
  "follows H env start m w \<Longrightarrow> follows H env start m (w\<lparr>rw_kv := bt_delete active_sessions_key (rw_kv w)\<rparr>)"
proof -
  have "stored H (bt_insert active_sessions_key v k) = stored H k" "stored H (bt_delete active_sessions_key k) = stored H k" for k
    using turn_key_other(1) by (auto simp: fun_eq_iff stored_other)
  then show "follows H env start m w \<Longrightarrow> follows H env start m (w\<lparr>rw_kv := bt_insert active_sessions_key v (rw_kv w)\<rparr>)"
    "follows H env start m w \<Longrightarrow> follows H env start m (w\<lparr>rw_kv := bt_delete active_sessions_key (rw_kv w)\<rparr>)"
    using turn_key_other(3) by (auto simp: follows_def base_def routed_def turns_tagged_def bt_get_delete)
qed

lemma keeps_active:
  assumes q: "quiet_law H J" and a: "\<And>w v. J w \<Longrightarrow> J (w\<lparr>rw_kv := bt_insert active_sessions_key v (rw_kv w)\<rparr>)"
  shows "keeps_world J (register_active_session H i)" "keeps_world J (unregister_active_session H i)"
proof -
  have set: "keeps_world J (rk_set_json C active_sessions_key xs)" for C and xs :: "string list"
    unfolding rk_set_json_def by (intro stays, unfold rk_set_def, rule quiet_law.keeps_rk_call[OF q]) (simp add: a)
  note s = quiet_law.keeps_loads[OF q] quiet_law.keeps_quietly[OF q]
  show "keeps_world J (register_active_session H i)" "keeps_world J (unregister_active_session H i)"
    unfolding register_active_session_def unregister_active_session_def by (intro stays s set)+
qed

lemmas keeps_active_follows = keeps_active [OF quiet_follows active_key_follows(1)]

lemma follows_machine_mode: "machine_mode m = machine_mode m' \<Longrightarrow> follows H env start m w = follows H env start m' w"
  by (simp add: follows_def)

lemma follows_here: "follows H env start m w \<Longrightarrow>
    turn_step H env (machine_mode m, stored H (rw_kv w), rw_bus w) (machine_mode m', stored H (rw_kv w), rw_bus w) \<Longrightarrow>
    follows H env start m' w"
  by (auto simp: follows_def intro: further)

text \<open>A save is one step, or two when the turn's version is one that readers reject.\<close>

lemma save_steps:
  assumes "turn_step H env (m, v, b) (Rest, v(ts_session_id st := st), b)" and "m = Rest \<or> m = Open"
  shows "(turn_step H env)\<^sup>*\<^sup>* (m, v, b) (Rest, v(ts_session_id st := if version_known st then st else no_turns (ts_session_id st)), b)"
proof (cases "version_known st")
  case False
  have "turn_step H env (Rest, v, b) (Rest, v(ts_session_id (no_turns (ts_session_id st)) := no_turns (ts_session_id st)), b)"
    by (intro turn_step.rest no_turns_rest)
  with False assms(2) show ?thesis
    by (auto simp: no_turns_rest intro: r_into_rtranclp two_steps[of "turn_step H env", OF turn_step.unopened])
qed (use assms(1) in auto)

lemma clear_prefix_stored:
  "stored H (filter (\<lambda>e. \<not> prefix p (fst e)) m) i = (if prefix p (turn_key i) then no_turns i else stored H m i)"
proof -
  have "map_of (filter (\<lambda>e. \<not> prefix p (fst e)) m) k = (if prefix p k then None else map_of m k)" for k
    by (induction m) auto
  then show ?thesis by (simp add: stored_def bt_get_def turn_of_def no_turns_def)
qed

lemma clear_prefix_routed: "routed m \<Longrightarrow> routed (filter (\<lambda>e. \<not> prefix p (fst e)) m)"
proof -
  have "map_of (filter (\<lambda>e. \<not> prefix p (fst e)) m) k = (if prefix p k then None else map_of m k)" for k
    by (induction m) auto
  then show "routed m \<Longrightarrow> routed (filter (\<lambda>e. \<not> prefix p (fst e)) m)" by (auto simp: routed_def bt_get_def)
qed

lemma keeps_clear_prefix:
  assumes "p = turn_key_prefix \<or> p = request_session_prefix \<or> p = call_session_prefix"
  shows "keeps_world (follows H env start Rest) (quietly (rk_clear_prefix p))"
  unfolding quietly_def rk_clear_prefix_def
proof (intro stays quiet_law.keeps_rk_call[OF quiet_follows])
  fix w assume w: "follows H env start Rest w"
  let ?m = "filter (\<lambda>e. \<not> prefix p (fst e)) (rw_kv w)"
  have "stored H ?m = stored H (rw_kv w) \<or> stored H ?m = no_turns"
    using assms turn_key_other by (auto simp: fun_eq_iff clear_prefix_stored)
  then have "(turn_step H env)\<^sup>*\<^sup>* (Rest, stored H (rw_kv w), rw_bus w) (Rest, stored H ?m, rw_bus w)"
    by (elim disjE) (simp, simp only:, rule r_into_rtranclp, rule turn_step.clear)
  moreover have "base H env (w\<lparr>rw_kv := ?m\<rparr>)"
    using w by (auto simp: follows_def base_def clear_prefix_routed turns_tagged_def clear_prefix_stored no_turns_rest)
  ultimately show "follows H env start Rest (w\<lparr>rw_kv := snd ((), ?m)\<rparr>)"
    using w by (auto simp: follows_def)
qed

lemma keeps_turn_delete: "keeps_world (follows H env start Rest) (rk_delete (turn_key i))"
  unfolding rk_delete_def
proof (rule quiet_law.keeps_rk_call[OF quiet_follows])
  fix w assume w: "follows H env start Rest w"
  have "turn_step H env (Rest, stored H (rw_kv w), rw_bus w)
      (Rest, (stored H (rw_kv w))(ts_session_id (no_turns i) := no_turns i), rw_bus w)"
    by (intro turn_step.rest no_turns_rest)
  with w show "follows H env start Rest (w\<lparr>rw_kv := snd ((), bt_delete (turn_key i) (rw_kv w))\<rparr>)"
    by (auto simp: follows_def base_def routed_def turns_tagged_def bt_get_delete stored_delete no_turns_rest intro: further)
qed

lemma loaded_stored: "loaded H old w \<Longrightarrow> ts_phase old \<noteq> Idle \<Longrightarrow> stored H (rw_kv w) (ts_session_id old) = old"
  by (simp add: loaded_def)

lemma follows_loaded: "quiet_law H (\<lambda>w. follows H env start m w \<and> loaded H st w)"
  "quiet_law H (\<lambda>w. (follows H env start m w \<and> loaded H st w) \<and> max_iterations w = M)"
  by (intro quiet_iterations quiet_loaded quiet_follows)+

interpretation loop_machine: loop_law H "follows H env start" for H env start
proof (rule loop_law.intro)
  fix m w
  show "quiet_law H (follows H env start m)" by (rule quiet_follows)
  show "follows H env start m w \<Longrightarrow> routed (rw_kv w)" "follows H env start m w \<Longrightarrow> turns_tagged H (rw_kv w)"
    by (simp_all add: follows_def base_def)
next
  fix w i
  show "follows H env start Open w \<Longrightarrow> follows H env start Rest w" "follows H env start Send w \<Longrightarrow> follows H env start Rest w"
    "follows H env start (Registered i) w \<Longrightarrow> follows H env start Rest w"
    by (erule follows_here, simp add: turn_step.unopened turn_step.unsent)+
next
  fix i
  show "triple (follows H env start Open) (register_active_session H i) (\<lambda>_. follows H env start (Registered i))"
    using triple_keeps[OF keeps_active_follows(1)[of H env start Open i]] by (simp add: triple_def follows_def)
  show "triple (follows H env start Rest) (unregister_active_session H i) (\<lambda>_. follows H env start (Leaving i))"
    using triple_keeps[OF keeps_active_follows(2)[of H env start Rest i]] by (simp add: triple_def follows_def)
  show "triple (follows H env start Rest) (do { quietly (rk_delete (turn_key i)); unregister_active_session H i })
     (\<lambda>_. follows H env start Rest)"
    by (intro triple_keeps stays quiet_law.keeps_quietly[OF quiet_follows] keeps_turn_delete keeps_active_follows)
  show "triple (follows H env start Rest) clear_ephemeral_keys (\<lambda>_. follows H env start Rest)"
    unfolding clear_ephemeral_keys_def
  proof (rule triple_keeps, intro keeps_world_bind keeps_clear_prefix quiet_law.keeps_quietly[OF quiet_follows])
    show "keeps_world (follows H env start Rest) (rk_delete active_sessions_key)"
      unfolding rk_delete_def by (rule quiet_law.keeps_rk_call[OF quiet_follows]) (simp add: active_key_follows)
  qed simp_all
next
  fix st assume st: "starts st"
  show "triple (follows H env start (Registered (ts_session_id st))) (save_turn H st) (\<lambda>_. follows H env start Rest)"
  proof (rule triple_save[OF quiet_follows])
    fix w b assume w: "follows H env start (Registered (ts_session_id st)) w" "jc_encode (rh_turn H) st = Ok b"
    from st have "tagged st" by (simp add: starts_def tagged_def)
    with w show "follows H env start Rest (w\<lparr>rw_kv := bt_insert (turn_key (ts_session_id st)) b (rw_kv w)\<rparr>)"
      by (rule follows_save) (simp add: save_steps[OF turn_step.start[OF st]])
  next
    fix w assume "follows H env start (Registered (ts_session_id st)) w"
    then show "follows H env start Rest w" by (rule follows_here) (simp add: turn_step.unopened)
  qed
next
  fix st assume st: "rests st"
  then have t: "tagged st" by (simp add: rests_def)
  have *: "triple (follows H env start m) (save_turn H st) (\<lambda>_. follows H env start Rest)" if "machine_mode m = Rest" for m
  proof (rule triple_save[OF quiet_follows])
    fix w b assume w: "follows H env start m w" "jc_encode (rh_turn H) st = Ok b"
    then show "follows H env start Rest (w\<lparr>rw_kv := bt_insert (turn_key (ts_session_id st)) b (rw_kv w)\<rparr>)"
      by (rule follows_save[OF _ _ t]) (simp add: save_steps[OF turn_step.rest[OF st]] that)
  qed (use that in \<open>simp add: follows_def\<close>)
  show "triple (follows H env start (Leaving (ts_session_id st))) (save_turn H st) (\<lambda>_. follows H env start Rest)"
    "triple (follows H env start Rest) (save_turn H st) (\<lambda>_. follows H env start Rest)"
    by (rule *, simp)+
next
  fix old new assume adv: "advances old new"
  then have t: "tagged new" and i: "ts_session_id new = ts_session_id old" and p: "ts_phase old \<noteq> Idle" by (simp_all add: advances_def)
  show "triple (\<lambda>w. follows H env start Rest w \<and> loaded H old w) (save_turn H new) (\<lambda>_. follows H env start Rest)"
  proof (rule triple_save[OF follows_loaded(1)])
    fix w b assume w: "follows H env start Rest w \<and> loaded H old w" "jc_encode (rh_turn H) new = Ok b"
    then have "advances (stored H (rw_kv w) (ts_session_id new)) new" using adv i p by (simp add: loaded_stored)
    then have "(turn_step H env)\<^sup>*\<^sup>* (Rest, stored H (rw_kv w), rw_bus w) (Rest, (stored H (rw_kv w))
       (ts_session_id new := if version_known new then new else no_turns (ts_session_id new)), rw_bus w)"
      by (intro save_steps turn_step.advance) simp_all
    then show "follows H env start Rest (w\<lparr>rw_kv := bt_insert (turn_key (ts_session_id new)) b (rw_kv w)\<rparr>)"
      using w by (intro follows_save[OF _ _ t, of H env start Rest]) simp_all
  qed simp
next
  fix M old new assume snd: "sends M old new"
  then have t: "tagged new" and i: "ts_session_id new = ts_session_id old" and p: "ts_phase old \<noteq> Idle"
    and v: "ts_schema_version new = ts_schema_version old" by (auto simp: sends_def)
  show "triple (\<lambda>w. (follows H env start Rest w \<and> loaded H old w) \<and> max_iterations w = M) (save_turn H new)
        (\<lambda>r w. case r of Err _ \<Rightarrow> follows H env start Rest w | Ok _ \<Rightarrow> follows H env start Send w)"
  proof (rule triple_save[OF follows_loaded(2)])
    fix w b assume w: "(follows H env start Rest w \<and> loaded H old w) \<and> max_iterations w = M" "jc_encode (rh_turn H) new = Ok b"
    then have s: "stored H (rw_kv w) (ts_session_id new) = old" using i p by (simp add: loaded_stored)
    have "iterations_in env = M" using w by (auto simp: follows_def base_def in_environment)
    then have "turn_step H env (Rest, stored H (rw_kv w), rw_bus w) (Send, (stored H (rw_kv w))(ts_session_id new := new), rw_bus w)"
      using snd s by (intro turn_step.send) simp_all
    moreover have "version_known new" using stored_version[of H "rw_kv w" "ts_session_id new"] v s by (simp add: version_known_def)
    ultimately have "follows H env start Send (w\<lparr>rw_kv := bt_insert (turn_key (ts_session_id new)) b (rw_kv w)\<rparr>)"
      using w by (intro follows_save[OF _ _ t, of H env start Rest]) auto
    then show "case Ok () of Err _ \<Rightarrow> follows H env start Rest (w\<lparr>rw_kv := bt_insert (turn_key (ts_session_id new)) b (rw_kv w)\<rparr>)
       | Ok _ \<Rightarrow> follows H env start Send (w\<lparr>rw_kv := bt_insert (turn_key (ts_session_id new)) b (rw_kv w)\<rparr>)" by simp
  qed simp
next
  fix model topic r ms ts s assume m: "trim model \<noteq> []"
  show "triple (\<lambda>w. follows H env start Send w \<and> provider_topic w topic)
      (react_publish topic (Llm_Request r model ms ts s)) (\<lambda>_. follows H env start Rest)"
    unfolding react_publish_def
  proof (rule triple_after[OF quiet_law.keeps_bus_faults[OF quiet_topic[OF quiet_follows]]], rule triple_option)
    have "follows H env start Rest (w\<lparr>rw_bus := rw_bus w @ [(topic, Llm_Request r model ms ts s)]\<rparr>)"
      if "follows H env start Send w" "provider_topic w topic" for w
      using that m by (auto simp: follows_def base_def in_environment intro: further turn_step.request)
    then show "triple (\<lambda>w. follows H env start Send w \<and> provider_topic w topic)
        (do { State_Monad.update (rw_bus_update (\<lambda>bus. bus @ [(topic, Llm_Request r model ms ts s)])); ret (Ok ()) })
        (\<lambda>_. follows H env start Rest)"
      by (intro triple_update) (subst world_updates(2), simp)
  qed (auto intro!: triple_ret follows_here[of H env start Send _ Rest] simp: turn_step.unsent)
qed

end
