(* ===== verification/React_Properties.thy ===== *)
theory React_Properties
  imports React_Machine
begin

text \<open>
  What follows of the agent loop from its machine: which turns can start, how many requests to a model a prompt may
  cost, what goes into a request and into the transcript, and that the check for results of another turn never
  fires.
\<close>

section \<open>A handler, and a run of handlers\<close>

lemma handle_follows:
  assumes "base H env w"
  shows "base H env (snd (run_state (react_handle H e) w))"
    and "(turn_step H env)\<^sup>*\<^sup>* (start_mode e, stored H (rw_kv w), rw_bus w)
      (Rest, stored H (rw_kv (snd (run_state (react_handle H e) w))), rw_bus (snd (run_state (react_handle H e) w)))"
proof -
  have m: "machine_mode (start_mode e) = start_mode e" by (simp add: start_mode_def split: react_event.split)
  have "follows H env (start_mode e, stored H (rw_kv w), rw_bus w) (start_mode e) w"
    using assms by (simp add: follows_def m)
  with loop_machine.react_handle_triple[of H env _ e]
  have "follows H env (start_mode e, stored H (rw_kv w), rw_bus w) Rest (snd (run_state (react_handle H e) w))"
    by (auto simp: triple_def)
  then show "base H env (snd (run_state (react_handle H e) w))"
    "(turn_step H env)\<^sup>*\<^sup>* (start_mode e, stored H (rw_kv w), rw_bus w)
      (Rest, stored H (rw_kv (snd (run_state (react_handle H e) w))), rw_bus (snd (run_state (react_handle H e) w)))"
    by (simp_all add: follows_def)
qed

definition runs_in :: "environment \<Rightarrow> (react_event \<times> react_inputs) list \<Rightarrow> bool" where
  "runs_in env events \<longleftrightarrow> (\<forall>(e, i) \<in> set events. ri_env i = env)"

definition prompts :: "(react_event \<times> react_inputs) list \<Rightarrow> nat" where
  "prompts events = length (filter (\<lambda>(e, i). start_mode e = Open) events)"

text \<open>An invariant of the machine that every event may start from is one of runs; \<open>n\<close> counts the prompts.\<close>

lemma machine_invariant:
  "(turn_step H env)\<^sup>*\<^sup>* x y \<Longrightarrow> (\<And>x y. turn_step H env x y \<Longrightarrow> K x \<Longrightarrow> K y) \<Longrightarrow> K x \<Longrightarrow> K y"
  by (induction rule: rtranclp_induct) auto

lemma start_modes: "start_mode e = Open \<or> start_mode e = Rest"
  by (simp add: start_mode_def split: react_event.split)

lemma run_invariant:
  assumes step: "\<And>n x y. turn_step H env x y \<Longrightarrow> K n x \<Longrightarrow> K n y"
    and open_turn: "\<And>n v b. K n (Rest, v, b) \<Longrightarrow> K (Suc n) (Open, v, b)"
  shows "runs_in env events \<Longrightarrow> base H env (w\<lparr>rw_in := i\<rparr>) \<Longrightarrow> K n (Rest, stored H (rw_kv w), rw_bus w) \<Longrightarrow>
    K (n + prompts events) (Rest, stored H (rw_kv (react_run H events w)), rw_bus (react_run H events w))"
proof (induction events arbitrary: w n i)
  case (Cons ei events)
  obtain e j where ei: "ei = (e, j)" by (cases ei)
  let ?w = "w\<lparr>rw_in := j\<rparr>" and ?n = "n + (if start_mode e = Open then 1 else 0)"
  let ?w' = "snd (run_state (react_handle H e) ?w)"
  have b: "base H env ?w" using Cons.prems by (simp add: base_def runs_in_def ei)
  have "K ?n (start_mode e, stored H (rw_kv ?w), rw_bus ?w)"
    using Cons.prems(3) open_turn start_modes[of e] by auto
  with step have k: "K ?n (Rest, stored H (rw_kv ?w'), rw_bus ?w')"
    by (rule machine_invariant[OF handle_follows(2)[OF b], of "K ?n"])
  have b': "base H env (?w'\<lparr>rw_in := rw_in ?w'\<rparr>)" using handle_follows(1)[OF b, of e] by simp
  show ?case using Cons.IH[OF _ b' k] Cons.prems(1) by (simp add: ei runs_in_def prompts_def split: if_splits)
qed (simp add: prompts_def)

lemma base_start: "json_codec_ok (rh_turn H) \<Longrightarrow> base H (ri_env i) \<lparr>rw_kv = [], rw_bus = b, rw_in = i\<rparr>"
proof -
  have "stored H [] = no_turns" by (auto simp: stored_def turn_of_def no_turns_def)
  then show "json_codec_ok (rh_turn H) \<Longrightarrow> base H (ri_env i) \<lparr>rw_kv = [], rw_bus = b, rw_in = i\<rparr>"
    by (simp add: base_def routed_def turns_tagged_def no_turns_rest)
qed

lemma base_anywhere: "base H env w \<Longrightarrow> ri_env i = env \<Longrightarrow> base H env (w\<lparr>rw_in := i\<rparr>)"
  by (simp add: base_def)

definition react_empty :: "react_inputs \<Rightarrow> react_world" where
  "react_empty i = \<lparr>rw_kv = [], rw_bus = [], rw_in = i\<rparr>"

lemma run_from_empty:
  assumes "\<And>n x y. turn_step H env x y \<Longrightarrow> K n x \<Longrightarrow> K n y" and "\<And>n v b. K n (Rest, v, b) \<Longrightarrow> K (Suc n) (Open, v, b)"
    and "json_codec_ok (rh_turn H)" and "runs_in env events" and "K 0 (Rest, no_turns, [])"
  shows "K (prompts events) (Rest, stored H (rw_kv (react_run H events (react_empty i))), rw_bus (react_run H events (react_empty i)))"
proof -
  have "stored H [] = no_turns" by (auto simp: stored_def turn_of_def no_turns_def)
  moreover have "base H env ((react_empty i)\<lparr>rw_in := i\<lparr>ri_env := env\<rparr>\<rparr>)"
    using base_start[OF assms(3), of "i\<lparr>ri_env := env\<rparr>" "[]"] by (simp add: react_empty_def)
  ultimately show ?thesis
    using run_invariant[of H env K events "i\<lparr>ri_env := env\<rparr>" "react_empty i" 0] assms by (simp add: react_empty_def)
qed

section \<open>Turns move forward\<close>

definition phase_rank :: "phase \<Rightarrow> nat" where
  "phase_rank p = (case p of Awaiting_Identity \<Rightarrow> 0 | Awaiting_Prompt_Build \<Rightarrow> 1 | Streaming \<Rightarrow> 2 | Awaiting_Tools \<Rightarrow> 2 | Idle \<Rightarrow> 3)"

lemma phase_rank_le: "phase_rank p \<le> 3"
  by (cases p) (simp_all add: phase_rank_def)

lemma phase_ranks: "phase_rank Awaiting_Identity = 0" "phase_rank Awaiting_Prompt_Build = 1" "phase_rank Streaming = 2"
  "phase_rank Awaiting_Tools = 2" "phase_rank Idle = 3"
  by (simp_all add: phase_rank_def)

lemma edge_ranks:
  "advances old new \<Longrightarrow> phase_rank (ts_phase old) \<le> phase_rank (ts_phase new)"
  "sends M old new \<Longrightarrow> phase_rank (ts_phase old) \<le> phase_rank (ts_phase new)"
  "rests st \<Longrightarrow> phase_rank (ts_phase st) = 3" "phase_rank (ts_phase (no_turns i)) = 3"
  by (auto simp: advances_def sends_def rests_def no_turns_def turn_default_def phase_ranks)

lemma step_moves_forward:
  "turn_step H env x y \<Longrightarrow> fst x \<noteq> Open \<Longrightarrow>
     fst y \<noteq> Open \<and> phase_rank (ts_phase (fst (snd x) i)) \<le> phase_rank (ts_phase (fst (snd y) i))"
  by (induction rule: turn_step.induct)
    (auto simp: edge_ranks phase_rank_le)

lemma handle_moves_forward:
  assumes "base H env w" and "start_mode e \<noteq> Open"
  shows "phase_rank (ts_phase (stored H (rw_kv w) i)) \<le>
    phase_rank (ts_phase (stored H (rw_kv (snd (run_state (react_handle H e) w))) i))"
proof -
  let ?K = "\<lambda>x. fst x \<noteq> Open \<and> phase_rank (ts_phase (stored H (rw_kv w) i)) \<le> phase_rank (ts_phase (fst (snd x) i))"
  have "?K (Rest, stored H (rw_kv (snd (run_state (react_handle H e) w))), rw_bus (snd (run_state (react_handle H e) w)))"
  proof (rule machine_invariant[OF handle_follows(2)[OF assms(1), of e], of ?K])
    fix x y assume s: "turn_step H env x y" and k: "?K x"
    from step_moves_forward[OF s, of i] k show "?K y" by auto
  qed (use assms(2) in simp)
  then show ?thesis by simp
qed

section \<open>Requests to a model\<close>

fun is_llm_request :: "ipc_payload \<Rightarrow> bool" where
  "is_llm_request (Llm_Request r m ms ts s) = True"
| "is_llm_request _ = False"

definition llm_requests :: "event_bus \<Rightarrow> nat" where
  "llm_requests b = length (filter (\<lambda>(t, p). is_llm_request p) b)"

definition selected_request :: "environment \<Rightarrow> string \<times> ipc_payload \<Rightarrow> bool" where
  "selected_request env tp \<longleftrightarrow>
     (\<forall>r model ms ts s. snd tp = Llm_Request r model ms ts s \<longrightarrow> trim model \<noteq> [] \<and> topic_in env (fst tp))"

lemma step_selected:
  "turn_step H env x y \<Longrightarrow> \<forall>tp \<in> set (snd (snd x)). selected_request env tp \<Longrightarrow>
    \<forall>tp \<in> set (snd (snd y)). selected_request env tp"
  by (induction rule: turn_step.induct) (auto simp: selected_request_def side_event_def)

lemma run_selected:
  assumes "json_codec_ok (rh_turn H)" and "runs_in env events"
  shows "\<forall>tp \<in> set (rw_bus (react_run H events (react_empty i))). selected_request env tp"
proof -
  have "(\<lambda>n x. \<forall>tp \<in> set (snd (snd x)). selected_request env tp) (prompts events)
    (Rest, stored H (rw_kv (react_run H events (react_empty i))), rw_bus (react_run H events (react_empty i)))"
    by (rule run_from_empty[OF _ _ assms, where K = "\<lambda>n x. \<forall>tp \<in> set (snd (snd x)). selected_request env tp"])
      (rule step_selected, simp_all)
  then show ?thesis by simp
qed

section \<open>The transcript\<close>

definition transcript_event :: "react_host \<Rightarrow> string \<times> ipc_payload \<Rightarrow> bool" where
  "transcript_event H tp \<longleftrightarrow> (fst tp = get_messages_topic \<longrightarrow> is_llm_request (snd tp) \<or> transcript_request H (snd tp))"

lemma step_transcript:
  "turn_step H env x y \<Longrightarrow> \<forall>tp \<in> set (snd (snd x)). transcript_event H tp \<Longrightarrow>
    \<forall>tp \<in> set (snd (snd y)). transcript_event H tp"
  by (induction rule: turn_step.induct) (auto simp: transcript_event_def side_event_def)

lemma run_transcript:
  assumes "json_codec_ok (rh_turn H)" and "runs_in env events"
  shows "\<forall>tp \<in> set (rw_bus (react_run H events (react_empty i))). transcript_event H tp"
proof -
  have "(\<lambda>n x. \<forall>tp \<in> set (snd (snd x)). transcript_event H tp) (prompts events)
    (Rest, stored H (rw_kv (react_run H events (react_empty i))), rw_bus (react_run H events (react_empty i)))"
    by (rule run_from_empty[OF _ _ assms, where K = "\<lambda>n x. \<forall>tp \<in> set (snd (snd x)). transcript_event H tp"])
      (rule step_transcript, simp_all)
  then show ?thesis by simp
qed

section \<open>What a prompt may cost\<close>

text \<open>The requests a stored turn may still send, when at most \<open>M\<close> iterations are configured.\<close>

definition turn_budget :: "nat \<Rightarrow> turn_state \<Rightarrow> nat" where
  "turn_budget M st = (case ts_phase st of
     Idle \<Rightarrow> 0
   | Awaiting_Identity \<Rightarrow> Suc (M - 1 - unat (ts_iteration_count st))
   | Awaiting_Prompt_Build \<Rightarrow> Suc (M - 1 - unat (ts_iteration_count st))
   | Streaming \<Rightarrow> M - 1 - unat (ts_iteration_count st)
   | Awaiting_Tools \<Rightarrow> M - 1 - unat (ts_iteration_count st))"

definition busy :: "turn_view \<Rightarrow> string set" where
  "busy v = {i. ts_phase (v i) \<noteq> Idle}"

definition mode_credit :: "nat \<Rightarrow> mode \<Rightarrow> nat" where
  "mode_credit M m = (case m of Open \<Rightarrow> Suc (M - 1) | Send \<Rightarrow> 1 | _ \<Rightarrow> 0)"

definition view_budget :: "nat \<Rightarrow> turn_view \<Rightarrow> nat" where
  "view_budget M v = (\<Sum>i \<in> busy v. turn_budget M (v i))"

text \<open>Requests sent and requests still possible are within what the prompts so far allow.\<close>

definition within_budget :: "nat \<Rightarrow> nat \<Rightarrow> mode \<times> turn_view \<times> event_bus \<Rightarrow> bool" where
  "within_budget M n x \<longleftrightarrow> (case x of (m, v, b) \<Rightarrow> finite (busy v) \<and>
     (\<forall>i \<in> busy v. unat (ts_iteration_count (v i)) \<le> M - 1) \<and>
     llm_requests b + view_budget M v + mode_credit M m \<le> n * Suc (M - 1))"

lemma busy_update: "busy (v(i := st)) \<subseteq> insert i (busy v)" "ts_phase st \<noteq> Idle \<Longrightarrow> busy (v(i := st)) = insert i (busy v)"
  "ts_phase st = Idle \<Longrightarrow> busy (v(i := st)) = busy v - {i}"
  by (auto simp: busy_def)

lemma idle_budget: "ts_phase st = Idle \<Longrightarrow> turn_budget M st = 0"
  by (simp add: turn_budget_def)

lemma view_budget_update:
  assumes "finite (busy v)"
  shows "view_budget M (v(i := st)) + turn_budget M (v i) = view_budget M v + turn_budget M st"
proof -
  let ?B = "insert i (busy v)"
  have f: "finite ?B" using assms by simp
  have all: "view_budget M u = (\<Sum>j \<in> ?B. turn_budget M (u j))" if "busy u \<subseteq> ?B" for u
    unfolding view_budget_def using that f by (intro sum.mono_neutral_left) (auto simp: busy_def idle_budget)
  have "view_budget M (v(i := st)) = turn_budget M st + (\<Sum>j \<in> ?B - {i}. turn_budget M (v j))"
    by (subst all[OF busy_update(1)]) (simp add: sum.remove[OF f, of i])
  moreover have "view_budget M v = turn_budget M (v i) + (\<Sum>j \<in> ?B - {i}. turn_budget M (v j))"
    by (subst all) (auto simp: sum.remove[OF f, of i])
  ultimately show ?thesis by simp
qed

lemma llm_requests_append:
  "llm_requests (b @ [(t, Llm_Request r m ms ts s)]) = Suc (llm_requests b)"
  "side_event H t p \<Longrightarrow> llm_requests (b @ [(t, p)]) = llm_requests b"
  by (cases p; simp add: llm_requests_def side_event_def)+

lemma budget_of_edges:
  "advances old new \<Longrightarrow> turn_budget M new \<le> turn_budget M old"
  "starts st \<Longrightarrow> turn_budget M st = Suc (M - 1)"
  "rests st \<Longrightarrow> turn_budget M st = 0"
  by (auto simp: advances_def starts_def rests_def turn_budget_def split: phase.splits)

lemma budget_of_send:
  assumes "sends L old new" and "unat (ts_iteration_count old) \<le> unat L - 1"
  shows "Suc (turn_budget (unat L) new) \<le> turn_budget (unat L) old" and "unat (ts_iteration_count new) \<le> unat L - 1"
proof -
  have "unat L < 2 ^ 32" using unsigned_less[of L] by simp
  then have s: "unat (ts_iteration_count old + 1) = Suc (unat (ts_iteration_count old))" if "ts_iteration_count old + 1 < L"
    using assms(2) that by (simp add: unat_word_ariths word_less_nat_alt)
  from assms s show "Suc (turn_budget (unat L) new) \<le> turn_budget (unat L) old" "unat (ts_iteration_count new) \<le> unat L - 1"
    by (auto simp: sends_def turn_budget_def word_less_nat_alt)
qed

lemma budget_update:
  assumes "within_budget M n (m, v, b)" and "unat (ts_iteration_count st) \<le> M - 1 \<or> ts_phase st = Idle"
    and "turn_budget M st + mode_credit M m' \<le> turn_budget M (v i) + mode_credit M m"
  shows "within_budget M n (m', v(i := st), b)"
proof -
  have "finite (busy v)" using assms(1) by (simp add: within_budget_def)
  moreover have "finite (busy (v(i := st)))" using calculation by (rule finite_subset[OF busy_update(1) finite.insertI])
  moreover have "\<forall>j \<in> busy (v(i := st)). unat (ts_iteration_count ((v(i := st)) j)) \<le> M - 1"
    using assms(1,2) by (auto simp: within_budget_def busy_def)
  moreover have "view_budget M (v(i := st)) + mode_credit M m' \<le> view_budget M v + mode_credit M m"
    using view_budget_update[OF calculation(1), of M i st] assms(3) by linarith
  ultimately show ?thesis using assms(1) by (simp add: within_budget_def)
qed

lemma credits: "mode_credit M Rest = 0" "mode_credit M Open = Suc (M - 1)" "mode_credit M Send = 1"
  by (simp_all add: mode_credit_def)

lemma step_within_budget:
  "turn_step H env x y \<Longrightarrow> M = unat (iterations_in env) \<Longrightarrow> within_budget M n x \<Longrightarrow> within_budget M n y"
proof (induction rule: turn_step.induct)
  case (start st v b)
  then show ?case by (intro budget_update) (auto simp: budget_of_edges credits starts_def)
next
  case (rest st v b)
  then show ?case by (intro budget_update) (auto simp: budget_of_edges credits rests_def)
next
  case (advance v i st b)
  then have "unat (ts_iteration_count (v i)) \<le> M - 1" by (auto simp: within_budget_def busy_def advances_def)
  with advance show ?case by (intro budget_update) (auto simp: budget_of_edges credits advances_def)
next
  case (send v i st b)
  then have "unat (ts_iteration_count (v i)) \<le> M - 1" by (auto simp: within_budget_def busy_def sends_def)
  with budget_of_send[OF send.hyps(1)] send show ?case by (intro budget_update) (auto simp: credits)
next
  case (clear v b)
  have "busy no_turns = {}" by (simp add: busy_def no_turns_def turn_default_def)
  with clear show ?case by (simp add: within_budget_def view_budget_def)
qed (auto simp: within_budget_def credits llm_requests_append)

lemma run_within_budget:
  assumes "json_codec_ok (rh_turn H)" and "runs_in env events"
  shows "llm_requests (rw_bus (react_run H events (react_empty i))) \<le> prompts events * Suc (unat (iterations_in env) - 1)"
proof -
  let ?M = "unat (iterations_in env)"
  have "within_budget ?M (prompts events)
    (Rest, stored H (rw_kv (react_run H events (react_empty i))), rw_bus (react_run H events (react_empty i)))"
  proof (rule run_from_empty[OF _ _ assms, where K = "within_budget ?M"])
    show "turn_step H env x y \<Longrightarrow> within_budget ?M n x \<Longrightarrow> within_budget ?M n y" for n x y
      by (rule step_within_budget) simp_all
    show "within_budget ?M n (Rest, v, b) \<Longrightarrow> within_budget ?M (Suc n) (Open, v, b)" for n v b
      by (simp add: within_budget_def credits)
    have "busy no_turns = {}" by (simp add: busy_def no_turns_def turn_default_def)
    then show "within_budget ?M 0 (Rest, no_turns, [])"
      by (simp add: within_budget_def view_budget_def credits llm_requests_def)
  qed
  then show ?thesis by (simp add: within_budget_def)
qed

section \<open>Results of another turn\<close>

lemma tagged_never_stale: "tagged st \<Longrightarrow> \<not> stale_result c st"
  by (fastforce simp: stale_result_def tagged_def find_Some_iff split: option.splits)

lemma run_base:
  assumes "runs_in env events" and "base H env w"
  shows "turns_tagged H (rw_kv (react_run H events w))"
  using assms
proof (induction events arbitrary: w)
  case (Cons ei events)
  obtain e i where ei: "ei = (e, i)" by (cases ei)
  have "base H env (w\<lparr>rw_in := i\<rparr>)" using Cons.prems by (simp add: ei runs_in_def base_def)
  from Cons.IH[OF _ handle_follows(1)[OF this]] show ?case using Cons.prems by (simp add: ei runs_in_def)
qed (simp add: base_def)

lemma run_never_stale:
  assumes "json_codec_ok (rh_turn H)" and "runs_in env events"
  shows "\<not> stale_result c (stored H (rw_kv (react_run H events (react_empty i))) s)"
proof -
  have "base H env (react_empty (i\<lparr>ri_env := env\<rparr>))"
    using base_start[OF assms(1), of "i\<lparr>ri_env := env\<rparr>" "[]"] by (simp add: react_empty_def)
  moreover have "react_run H events (react_empty i) = react_run H events (react_empty (i\<lparr>ri_env := env\<rparr>)) \<or> events = []"
    by (cases events) (auto simp: react_empty_def)
  ultimately have "turns_tagged H (rw_kv (react_run H events (react_empty i)))"
    using run_base[OF assms(2), of H "react_empty (i\<lparr>ri_env := env\<rparr>)"] by (auto simp: react_empty_def base_def)
  then show ?thesis by (simp add: turns_tagged_def tagged_never_stale)
qed

end
