(* ===== verification/React_Watchdog.thy ===== *)
theory React_Watchdog
  imports React_Properties
begin

text \<open>
  The watchdog: while the key-value store answers, every turn that is under way is in the list of active sessions
  (\<open>watched\<close>, a second instance of \<open>loop_law\<close>), and a tick of the watchdog ends every turn of the list whose phase
  has timed out, with a final response.
\<close>

section \<open>Turns under way are watched\<close>

definition codec_total :: "'a json_codec \<Rightarrow> bool" where
  "codec_total C \<longleftrightarrow> json_codec_ok C \<and> (\<forall>x. \<exists>b. jc_encode C x = Ok b)"

definition calm :: "react_world \<Rightarrow> bool" where
  "calm w \<longleftrightarrow> set (ri_kv_faults (rw_in w)) \<subseteq> {None}"

definition excused :: "mode \<Rightarrow> string \<Rightarrow> bool" where
  "excused m i \<longleftrightarrow> m = Leaving i"

definition watched :: "react_host \<Rightarrow> mode \<Rightarrow> react_world \<Rightarrow> bool" where
  "watched H m w \<longleftrightarrow> calm w \<and> codec_total (rh_turn H) \<and> codec_total (rh_active H) \<and>
     (\<forall>i. ts_phase (stored H (rw_kv w) i) \<noteq> Idle \<longrightarrow> excused m i \<or> i \<in> set (listed H (rw_kv w))) \<and>
     (\<forall>i. m = Registered i \<longrightarrow> i \<in> set (listed H (rw_kv w)))"

lemma calm_rk_call:
  assumes "calm w"
  shows "\<exists>i. narrower (rw_in w) i \<and> run_state (rk_call f) w = (Ok (fst (f (rw_kv w))), w\<lparr>rw_kv := snd (f (rw_kv w)), rw_in := i\<rparr>)"
proof (cases "ri_kv_faults (rw_in w)")
  case Nil
  then show ?thesis by (intro exI[of _ "rw_in w"]) (simp add: run_rk_call)
next
  case (Cons x xs)
  with assms have "x = None" by (simp add: calm_def)
  with Cons show ?thesis
    by (intro exI[of _ "ri_kv_faults_update (\<lambda>_. xs) (rw_in w)"]) (auto simp: run_rk_call narrower_def)
qed

lemma triple_rk_call:
  assumes "\<And>w. J w \<Longrightarrow> calm w" and "\<And>w i. J w \<Longrightarrow> narrower (rw_in w) i \<Longrightarrow> Q (Ok (fst (f (rw_kv w)))) (w\<lparr>rw_kv := snd (f (rw_kv w)), rw_in := i\<rparr>)"
  shows "triple J (rk_call f) Q"
  unfolding triple_def
proof (intro allI impI)
  fix w assume w: "J w"
  from calm_rk_call[OF assms(1)[OF w], of f] obtain i where "narrower (rw_in w) i"
    "run_state (rk_call f) w = (Ok (fst (f (rw_kv w))), w\<lparr>rw_kv := snd (f (rw_kv w)), rw_in := i\<rparr>)" by blast
  with assms(2)[OF w] show "Q (fst (run_state (rk_call f) w)) (snd (run_state (rk_call f) w))" by simp
qed

lemma calm_narrower: "calm w \<Longrightarrow> narrower (rw_in w) i \<Longrightarrow> calm (w\<lparr>rw_in := i\<rparr>)"
  by (auto simp: calm_def narrower_def)

lemma calm_next: "calm w \<Longrightarrow> narrower (rw_in w) i \<Longrightarrow> calm (w\<lparr>rw_kv := m, rw_in := i\<rparr>)"
  by (auto simp: calm_def narrower_def)

lemma watched_calm: "watched H m w \<Longrightarrow> calm w"
  by (simp add: watched_def)

lemma listed_other: "k \<noteq> active_sessions_key \<Longrightarrow> listed H (bt_insert k v m) = listed H m"
  "k \<noteq> active_sessions_key \<Longrightarrow> listed H (bt_delete k m) = listed H m"
  by (auto simp: listed_def bt_get_delete)

lemma quiet_watched: "quiet_law H (watched H m)"
proof (rule quiet_law.intro)
  fix w i
  assume "watched H m w" "narrower (rw_in w) i"
  then show "watched H m (w\<lparr>rw_in := i\<rparr>)" by (auto simp: watched_def calm_def narrower_def)
next
  fix w k v
  assume w: "watched H m w" and k: "side_key k" "k = kv_provider_topic \<Longrightarrow> prefix provider_topic_prefix v"
  have "stored H (bt_insert k v (rw_kv w)) = stored H (rw_kv w)" "listed H (bt_insert k v (rw_kv w)) = listed H (rw_kv w)"
    using turn_key_not_side[OF k(1)] k(1) by (auto simp: fun_eq_iff stored_other listed_other side_key_def)
  with w k show "watched H m (w\<lparr>rw_kv := bt_insert k v (rw_kv w)\<rparr>)"
    by (simp add: watched_def calm_def)
next
  fix w k
  assume w: "watched H m w" and k: "side_key k"
  have "stored H (bt_delete k (rw_kv w)) = stored H (rw_kv w)" "listed H (bt_delete k (rw_kv w)) = listed H (rw_kv w)"
    using turn_key_not_side[OF k(1)] k(1) by (auto simp: fun_eq_iff stored_other listed_other side_key_def)
  with w k show "watched H m (w\<lparr>rw_kv := bt_delete k (rw_kv w)\<rparr>)"
    by (simp add: watched_def calm_def)
qed (simp add: watched_def calm_def)

lemma position_Some: "position i xs = Some k \<Longrightarrow> k < length xs \<and> xs ! k = i"
  by (induction xs arbitrary: k) (auto split: if_splits option.splits)

lemma position_None: "position i xs = None \<longleftrightarrow> i \<notin> set xs"
  by (induction xs) (auto split: if_splits option.splits)

lemma swap_remove_keeps:
  assumes "position i xs = Some k" and "j \<in> set xs" and "j \<noteq> i"
  shows "j \<in> set (swap_remove k xs)"
proof -
  have k: "k < length xs" "xs ! k = i" using position_Some[OF assms(1)] by auto
  from assms(2) obtain n where n: "n < length xs" "xs ! n = j" by (auto simp: in_set_conv_nth)
  have "n \<noteq> k" using n k assms(3) by auto
  show ?thesis
  proof (cases "Suc k = length xs")
    case True
    with n \<open>n \<noteq> k\<close> have "n < length (butlast xs)" "butlast xs ! n = j" by (auto simp: nth_butlast)
    then show ?thesis by (auto simp: swap_remove_def True intro: nth_mem)
  next
    case False
    let ?ys = "(butlast xs)[k := last xs]"
    have l: "length ?ys = length xs - 1" by simp
    show ?thesis
    proof (cases "Suc n = length xs")
      case True
      then have "last xs = j" using n by (cases xs rule: rev_cases) auto
      then have "?ys ! k = j" using k False by simp
      moreover have "k < length ?ys" using k False by auto
      ultimately show ?thesis using nth_mem[of k ?ys] by (simp add: swap_remove_def False)
    next
      case False2: False
      then have "?ys ! n = j" using n \<open>n \<noteq> k\<close> by (auto simp: nth_butlast)
      moreover have "n < length ?ys" using n False2 by auto
      ultimately show ?thesis using nth_mem[of n ?ys] by (simp add: swap_remove_def False)
    qed
  qed
qed

lemma load_active_run:
  assumes "watched H m w"
  shows "\<exists>i. narrower (rw_in w) i \<and> run_state (load_active_sessions H) w = (listed H (rw_kv w), w\<lparr>rw_in := i\<rparr>)"
proof -
  obtain i where i: "narrower (rw_in w) i"
    "run_state (rk_get_opt active_sessions_key) w = (Ok (bt_get (rw_kv w) active_sessions_key), w\<lparr>rw_in := i\<rparr>)"
    using calm_rk_call[OF watched_calm[OF assms], of "\<lambda>m. (bt_get m active_sessions_key, m)"]
    by (cases w) (auto simp: rk_get_opt_def)
  then have "run_state (load_active_sessions H) w = (listed H (rw_kv w), w\<lparr>rw_in := i\<rparr>)"
    by (simp add: load_active_sessions_def rk_get_json_def run_bind run_attempt listed_def split: option.split sum.split)
  with i(1) show ?thesis by blast
qed

lemma stored_active_key: "stored H (bt_insert active_sessions_key v m) = stored H m"
  "stored H (bt_delete active_sessions_key m) = stored H m"
  using turn_key_other(1) by (auto simp: fun_eq_iff stored_other)

lemma listed_insert: "json_codec_ok (rh_active H) \<Longrightarrow> jc_encode (rh_active H) xs = Ok b \<Longrightarrow>
    listed H (bt_insert active_sessions_key b m) = xs"
  by (simp add: listed_def json_codec_ok_def)

text \<open>Writing the list of active sessions.\<close>

lemma write_active:
  assumes w: "watched H m w"
    and "\<And>i. ts_phase (stored H (rw_kv w) i) \<noteq> Idle \<Longrightarrow> excused m' i \<or> i \<in> set xs"
    and "\<And>i. m' = Registered i \<Longrightarrow> i \<in> set xs"
  shows "watched H m' (snd (run_state (quietly (rk_set_json (rh_active H) active_sessions_key xs)) w))"
proof -
  from w have c: "json_codec_ok (rh_active H)" and "\<exists>b. jc_encode (rh_active H) xs = Ok b"
    by (simp_all add: watched_def codec_total_def)
  then obtain b where b: "jc_encode (rh_active H) xs = Ok b" by blast
  obtain i where i: "narrower (rw_in w) i" "run_state (rk_set active_sessions_key b) w =
      (Ok (), w\<lparr>rw_kv := bt_insert active_sessions_key b (rw_kv w), rw_in := i\<rparr>)"
    using calm_rk_call[OF watched_calm[OF w], of "\<lambda>m. ((), bt_insert active_sessions_key b m)"] by (auto simp: rk_set_def)
  have "calm (w\<lparr>rw_in := i\<rparr>)" using calm_narrower[OF watched_calm[OF w] i(1)] .
  then show ?thesis
    using w assms(2,3) by (simp add: quietly_def rk_set_json_def b run_bind i(2) watched_def listed_insert[OF c b] stored_active_key calm_def)
qed

lemma quiet_step: "watched H m w \<Longrightarrow> narrower (rw_in w) i \<Longrightarrow> watched H m (w\<lparr>rw_in := i\<rparr>)"
  by (rule quiet_law.quiet_inputs[OF quiet_watched])

lemma watched_register: "triple (watched H Open) (register_active_session H i) (\<lambda>_. watched H (Registered i))"
  unfolding triple_def
proof (intro allI impI)
  fix w assume w: "watched H Open w"
  from load_active_run[OF w] obtain j where j: "narrower (rw_in w) j"
    "run_state (load_active_sessions H) w = (listed H (rw_kv w), w\<lparr>rw_in := j\<rparr>)" by blast
  have w': "watched H Open (w\<lparr>rw_in := j\<rparr>)" by (rule quiet_step[OF w j(1)])
  show "watched H (Registered i) (snd (run_state (register_active_session H i) w))"
  proof (cases "i \<in> set (listed H (rw_kv w))")
    case True
    then show ?thesis using w' by (auto simp: register_active_session_def run_bind j(2) watched_def excused_def)
  next
    case False
    have "watched H (Registered i) (snd (run_state (quietly (rk_set_json (rh_active H) active_sessions_key
        (listed H (rw_kv w) @ [i]))) (w\<lparr>rw_in := j\<rparr>)))"
      by (rule write_active[OF w']) (use w in \<open>auto simp: watched_def excused_def\<close>)
    with False show ?thesis by (simp add: register_active_session_def run_bind j(2))
  qed
qed

lemma watched_unregister: "triple (watched H Rest) (unregister_active_session H i) (\<lambda>_. watched H (Leaving i))"
  unfolding triple_def
proof (intro allI impI)
  fix w assume w: "watched H Rest w"
  from load_active_run[OF w] obtain j where j: "narrower (rw_in w) j"
    "run_state (load_active_sessions H) w = (listed H (rw_kv w), w\<lparr>rw_in := j\<rparr>)" by blast
  have w': "watched H Rest (w\<lparr>rw_in := j\<rparr>)" by (rule quiet_step[OF w j(1)])
  show "watched H (Leaving i) (snd (run_state (unregister_active_session H i) w))"
  proof (cases "position i (listed H (rw_kv w))")
    case None
    then show ?thesis using w' by (auto simp: unregister_active_session_def run_bind j(2) watched_def excused_def)
  next
    case (Some k)
    have "watched H (Leaving i) (snd (run_state (quietly (rk_set_json (rh_active H) active_sessions_key
        (swap_remove k (listed H (rw_kv w))))) (w\<lparr>rw_in := j\<rparr>)))"
    proof (rule write_active[OF w'])
      fix s assume "ts_phase (stored H (rw_kv (w\<lparr>rw_in := j\<rparr>)) s) \<noteq> Idle"
      with w have "s \<in> set (listed H (rw_kv w))" by (auto simp: watched_def excused_def)
      then show "excused (Leaving i) s \<or> s \<in> set (swap_remove k (listed H (rw_kv w)))"
        using swap_remove_keeps[OF Some, of s] by (cases "s = i") (simp_all add: excused_def)
    qed simp
    with Some show ?thesis by (simp add: unregister_active_session_def run_bind j(2))
  qed
qed

lemma watched_save:
  assumes w: "watched H m w" and "\<And>i. excused m i \<Longrightarrow> i = ts_session_id st" and "m' = Rest \<or> m' = Send"
    and "ts_phase st \<noteq> Idle \<Longrightarrow> ts_session_id st \<in> set (listed H (rw_kv w))"
  shows "\<exists>w'. run_state (save_turn H st) w = (Ok (), w') \<and> watched H m' w' \<and> rw_bus w' = rw_bus w \<and>
    stored H (rw_kv w') = (stored H (rw_kv w))(ts_session_id st := if version_known st then st else no_turns (ts_session_id st)) \<and>
    narrower (rw_in w) (rw_in w')"
proof -
  from w have c: "json_codec_ok (rh_turn H)" and "\<exists>b. jc_encode (rh_turn H) st = Ok b"
    by (simp_all add: watched_def codec_total_def)
  then obtain b where b: "jc_encode (rh_turn H) st = Ok b" by blast
  let ?k = "turn_key (ts_session_id st)"
  obtain i where i: "narrower (rw_in w) i" "run_state (rk_set ?k b) w =
      (Ok (), w\<lparr>rw_kv := bt_insert ?k b (rw_kv w), rw_in := i\<rparr>)"
    using calm_rk_call[OF watched_calm[OF w], of "\<lambda>m. ((), bt_insert ?k b m)"] by (auto simp: rk_set_def)
  have l: "listed H (bt_insert ?k b (rw_kv w)) = listed H (rw_kv w)" using turn_key_other(1) by (simp add: listed_other)
  have "calm (w\<lparr>rw_in := i\<rparr>)" using calm_narrower[OF watched_calm[OF w] i(1)] .
  moreover have "i = ts_session_id st \<or> i \<in> set (listed H (rw_kv w))"
    if "ts_phase (stored H (rw_kv w) i) \<noteq> Idle" for i using w that assms(2) by (auto simp: watched_def)
  ultimately have "watched H m' (w\<lparr>rw_kv := bt_insert ?k b (rw_kv w), rw_in := i\<rparr>)"
    using w assms(3,4) by (auto simp: watched_def stored_insert[OF c b] l calm_def no_turns_def turn_default_def)
  with i show ?thesis by (auto simp: save_turn_def rk_set_json_def b stored_insert[OF c b])
qed

lemma watched_save_triple:
  assumes "\<And>w. J w \<Longrightarrow> watched H m w \<and> (ts_phase st \<noteq> Idle \<longrightarrow> ts_session_id st \<in> set (listed H (rw_kv w)))"
    and "\<And>i. excused m i \<Longrightarrow> i = ts_session_id st" and "m' = Rest \<or> m' = Send"
  shows "triple J (save_turn H st) (\<lambda>_. watched H m')"
  unfolding triple_def
proof (intro allI impI)
  fix w assume "J w"
  from assms(1)[OF this] have w: "watched H m w" "ts_phase st \<noteq> Idle \<Longrightarrow> ts_session_id st \<in> set (listed H (rw_kv w))" by auto
  from watched_save[OF w(1) assms(2,3) w(2)] show "watched H m' (snd (run_state (save_turn H st) w))" by auto
qed

lemma watched_loaded:
  "watched H Rest w \<Longrightarrow> loaded H old w \<Longrightarrow> ts_phase old \<noteq> Idle \<Longrightarrow> ts_session_id old \<in> set (listed H (rw_kv w))"
  by (auto simp: watched_def loaded_def excused_def dest: spec[of _ "ts_session_id old"])

lemma triple_conj: "triple P m Q \<Longrightarrow> triple P' m Q' \<Longrightarrow> triple (\<lambda>w. P w \<and> P' w) m (\<lambda>x w. Q x w \<and> Q' x w)"
  by (simp add: triple_def)

lemma quiet_stored: "quiet_law H (\<lambda>w. R (stored H (rw_kv w)))"
proof (rule quiet_law.intro)
  fix w k v
  assume k: "side_key k"
  have s: "stored H (bt_insert k v m) = stored H m" "stored H (bt_delete k m) = stored H m" for m
    using turn_key_not_side[OF k] by (simp_all add: fun_eq_iff stored_other)
  show "R (stored H (rw_kv w)) \<Longrightarrow> R (stored H (rw_kv (w\<lparr>rw_kv := bt_insert k v (rw_kv w)\<rparr>)))"
    "R (stored H (rw_kv w)) \<Longrightarrow> R (stored H (rw_kv (w\<lparr>rw_kv := bt_delete k (rw_kv w)\<rparr>)))" by (simp_all add: s)
qed simp_all

lemma watched_delete:
  "triple (watched H Rest) (quietly (rk_delete (turn_key i)))
     (\<lambda>_ w. watched H Rest w \<and> ts_phase (stored H (rw_kv w) i) = Idle)"
proof -
  have "watched H Rest (w\<lparr>rw_kv := bt_delete (turn_key i) (rw_kv w), rw_in := j\<rparr>)"
    if "watched H Rest w" "narrower (rw_in w) j" for w j
    using that turn_key_other(1) by (auto simp: watched_def stored_delete listed_other no_turns_def turn_default_def calm_next)
  then show ?thesis
    unfolding quietly_def rk_delete_def
    by (intro triple_bind[OF triple_rk_call[where Q = "\<lambda>_ w. watched H Rest w \<and> ts_phase (stored H (rw_kv w) i) = Idle"]])
      (auto intro: watched_calm triple_ret simp: stored_delete no_turns_def turn_default_def)
qed

lemma watched_forget:
  "triple (watched H Rest) (do { quietly (rk_delete (turn_key i)); unregister_active_session H i }) (\<lambda>_. watched H Rest)"
proof (rule triple_bind[OF watched_delete])
  let ?idle = "\<lambda>w. ts_phase (stored H (rw_kv w) i) = Idle"
  have "keeps_world ?idle (unregister_active_session H i)"
    by (rule keeps_active[OF quiet_stored[of H "\<lambda>v. ts_phase (v i) = Idle"]]) (simp add: stored_active_key)
  then have "triple (\<lambda>w. watched H Rest w \<and> ?idle w) (unregister_active_session H i) (\<lambda>_ w. watched H (Leaving i) w \<and> ?idle w)"
    by (intro triple_conj[OF watched_unregister triple_keeps])
  then show "triple (\<lambda>w. watched H Rest w \<and> ?idle w) (unregister_active_session H i) (\<lambda>_. watched H Rest)"
    by (rule triple_post) (auto simp: watched_def excused_def)
qed

lemma listed_clear: "\<not> prefix p active_sessions_key \<Longrightarrow> listed H (filter (\<lambda>e. \<not> prefix p (fst e)) m) = listed H m"
proof -
  have "map_of (filter (\<lambda>e. \<not> prefix p (fst e)) m) k = (if prefix p k then None else map_of m k)" for k
    by (induction m) auto
  then show "\<not> prefix p active_sessions_key \<Longrightarrow> listed H (filter (\<lambda>e. \<not> prefix p (fst e)) m) = listed H m"
    by (simp add: listed_def bt_get_def)
qed

lemma active_not_prefixed: "\<not> prefix turn_key_prefix active_sessions_key" "\<not> prefix request_session_prefix active_sessions_key"
  "\<not> prefix call_session_prefix active_sessions_key"
  by (simp_all add: turn_key_prefix_def active_sessions_key_def request_session_prefix_def call_session_prefix_def)

definition cleared :: "react_host \<Rightarrow> react_world \<Rightarrow> bool" where
  "cleared H w \<longleftrightarrow> watched H Rest w \<and> stored H (rw_kv w) = no_turns"

lemma no_turns_idle: "ts_phase (no_turns i) = Idle"
  by (simp add: no_turns_def turn_default_def)

lemma watched_restart: "triple (watched H Rest) clear_ephemeral_keys (\<lambda>_. watched H Rest)"
proof -
  have clear: "triple J (quietly (rk_clear_prefix p)) (\<lambda>_. cleared H)"
    if "\<And>w. J w \<Longrightarrow> watched H Rest w \<and> (p = turn_key_prefix \<or> cleared H w)"
      and p: "p = turn_key_prefix \<or> p = request_session_prefix \<or> p = call_session_prefix" for p J
  proof -
    have l: "\<not> prefix p active_sessions_key" using p active_not_prefixed by auto
    have s: "stored H (filter (\<lambda>e. \<not> prefix p (fst e)) (rw_kv w)) = no_turns" if "J w" for w
      using that(1) turn_key_other(6) p \<open>\<And>w. J w \<Longrightarrow> watched H Rest w \<and> (p = turn_key_prefix \<or> cleared H w)\<close>[OF that(1)]
      by (auto simp: fun_eq_iff clear_prefix_stored cleared_def)
    have c: "cleared H (w\<lparr>rw_kv := filter (\<lambda>e. \<not> prefix p (fst e)) (rw_kv w), rw_in := i\<rparr>)"
      if "J w" "narrower (rw_in w) i" for w i
      using that(2) s[OF that(1)] \<open>\<And>w. J w \<Longrightarrow> watched H Rest w \<and> (p = turn_key_prefix \<or> cleared H w)\<close>[OF that(1)]
      by (simp add: cleared_def watched_def listed_clear[OF l] no_turns_idle calm_next)
    have k: "calm w" if "J w" for w
      using \<open>\<And>w. J w \<Longrightarrow> watched H Rest w \<and> (p = turn_key_prefix \<or> cleared H w)\<close>[OF that] by (simp add: watched_def)
    show ?thesis
      unfolding quietly_def rk_clear_prefix_def
      by (rule triple_bind[where R = "\<lambda>_. cleared H"], rule triple_rk_call) (simp_all add: k c triple_ret)
  qed
  have drop: "triple (cleared H) (quietly (rk_delete active_sessions_key)) (\<lambda>_. watched H Rest)"
    unfolding quietly_def rk_delete_def
    by (rule triple_bind[where R = "\<lambda>_. watched H Rest"], rule triple_rk_call)
      (auto simp: cleared_def watched_def stored_active_key no_turns_idle calm_next intro!: triple_ret)
  show ?thesis
    unfolding clear_ephemeral_keys_def
    by (rule triple_bind[OF clear], simp, simp, rule triple_bind[OF clear], simp add: cleared_def, simp,
        rule triple_bind[OF clear], simp add: cleared_def, simp, rule drop)
qed

lemma quiet_both: "quiet_law H J \<Longrightarrow> quiet_law H K \<Longrightarrow> quiet_law H (\<lambda>w. J w \<and> K w)"
  by (auto simp: quiet_law_def)

lemma watched_rest: "watched H Open w \<Longrightarrow> watched H Rest w" "watched H Send w \<Longrightarrow> watched H Rest w"
  "watched H (Registered i) w \<Longrightarrow> watched H Rest w" "watched H Rest w \<Longrightarrow> watched H Send w"
  by (auto simp: watched_def excused_def)

interpretation loop_watch: loop_law H "\<lambda>m w. follows H env start m w \<and> watched H m w" for H env start
proof (rule loop_law.intro)
  fix m w
  show "quiet_law H (\<lambda>w. follows H env start m w \<and> watched H m w)" by (rule quiet_both[OF quiet_follows quiet_watched])
  show "follows H env start m w \<and> watched H m w \<Longrightarrow> routed (rw_kv w)"
    "follows H env start m w \<and> watched H m w \<Longrightarrow> turns_tagged H (rw_kv w)"
    using loop_machine.law_routed loop_machine.law_tagged by blast+
next
  fix w i
  show "follows H env start Open w \<and> watched H Open w \<Longrightarrow> follows H env start Rest w \<and> watched H Rest w"
    "follows H env start Send w \<and> watched H Send w \<Longrightarrow> follows H env start Rest w \<and> watched H Rest w"
    "follows H env start (Registered i) w \<and> watched H (Registered i) w \<Longrightarrow> follows H env start Rest w \<and> watched H Rest w"
    using loop_machine.law_open loop_machine.law_unsent loop_machine.law_registered watched_rest by blast+
next
  fix i
  show "triple (\<lambda>w. follows H env start Open w \<and> watched H Open w) (register_active_session H i)
      (\<lambda>_ w. follows H env start (Registered i) w \<and> watched H (Registered i) w)"
    by (rule triple_conj[OF loop_machine.law_register watched_register])
  show "triple (\<lambda>w. follows H env start Rest w \<and> watched H Rest w) (unregister_active_session H i)
      (\<lambda>_ w. follows H env start (Leaving i) w \<and> watched H (Leaving i) w)"
    by (rule triple_conj[OF loop_machine.law_unregister watched_unregister])
  show "triple (\<lambda>w. follows H env start Rest w \<and> watched H Rest w)
      (do { quietly (rk_delete (turn_key i)); unregister_active_session H i })
      (\<lambda>_ w. follows H env start Rest w \<and> watched H Rest w)"
    by (rule triple_conj[OF loop_machine.law_forget watched_forget])
  show "triple (\<lambda>w. follows H env start Rest w \<and> watched H Rest w) clear_ephemeral_keys
      (\<lambda>_ w. follows H env start Rest w \<and> watched H Rest w)"
    by (rule triple_conj[OF loop_machine.law_restart watched_restart])
next
  fix st assume st: "starts st"
  have "triple (watched H (Registered (ts_session_id st))) (save_turn H st) (\<lambda>_. watched H Rest)"
    by (rule watched_save_triple[where m = "Registered (ts_session_id st)"]) (auto simp: watched_def excused_def)
  then show "triple (\<lambda>w. follows H env start (Registered (ts_session_id st)) w \<and> watched H (Registered (ts_session_id st)) w)
      (save_turn H st) (\<lambda>_ w. follows H env start Rest w \<and> watched H Rest w)"
    by (rule triple_conj[OF loop_machine.law_start[OF st]])
next
  fix st assume st: "rests st"
  have w: "triple (watched H m) (save_turn H st) (\<lambda>_. watched H Rest)" if "m = Rest \<or> m = Leaving (ts_session_id st)" for m
    by (rule watched_save_triple[where m = m]) (use that st in \<open>auto simp: excused_def rests_def\<close>)
  show "triple (\<lambda>w. follows H env start (Leaving (ts_session_id st)) w \<and> watched H (Leaving (ts_session_id st)) w)
      (save_turn H st) (\<lambda>_ w. follows H env start Rest w \<and> watched H Rest w)"
    by (rule triple_conj[OF loop_machine.law_rest[OF st] w]) simp
  show "triple (\<lambda>w. follows H env start Rest w \<and> watched H Rest w)
      (save_turn H st) (\<lambda>_ w. follows H env start Rest w \<and> watched H Rest w)"
    by (rule triple_conj[OF loop_machine.law_fresh[OF st] w]) simp
next
  fix old new assume adv: "advances old new"
  then have i: "ts_session_id new = ts_session_id old" "ts_phase old \<noteq> Idle" by (simp_all add: advances_def)
  have "triple (\<lambda>w. watched H Rest w \<and> loaded H old w) (save_turn H new) (\<lambda>_. watched H Rest)"
    by (rule watched_save_triple[where m = Rest]) (use i watched_loaded in \<open>auto simp: excused_def\<close>)
  from triple_conj[OF loop_machine.law_advance[OF adv] this]
  show "triple (\<lambda>w. (follows H env start Rest w \<and> watched H Rest w) \<and> loaded H old w) (save_turn H new)
      (\<lambda>_ w. follows H env start Rest w \<and> watched H Rest w)" by (rule triple_pre) simp
next
  fix M old new assume snd: "sends M old new"
  then have i: "ts_session_id new = ts_session_id old" "ts_phase old \<noteq> Idle" by (auto simp: sends_def)
  have "triple (\<lambda>w. watched H Rest w \<and> loaded H old w) (save_turn H new) (\<lambda>_. watched H Send)"
    by (rule watched_save_triple[where m = Rest]) (use i watched_loaded in \<open>auto simp: excused_def\<close>)
  from triple_conj[OF loop_machine.law_send[OF snd] this]
  show "triple (\<lambda>w. ((follows H env start Rest w \<and> watched H Rest w) \<and> loaded H old w) \<and> max_iterations w = M) (save_turn H new)
      (\<lambda>r w. case r of Err _ \<Rightarrow> follows H env start Rest w \<and> watched H Rest w
        | Ok _ \<Rightarrow> follows H env start Send w \<and> watched H Send w)"
    by (rule triple_post[OF triple_pre]) (auto intro: watched_rest split: sum.splits)
next
  fix model topic r ms ts s assume m: "trim model \<noteq> []"
  have "keeps_world (watched H Rest) (react_publish topic (Llm_Request r model ms ts s))"
    unfolding react_publish_def
    by (intro stays quiet_law.keeps_bus_faults[OF quiet_watched] keeps_update) (simp add: watched_def calm_def)
  from triple_conj[OF loop_machine.law_request[OF m] triple_keeps[OF this]]
  show "triple (\<lambda>w. (follows H env start Send w \<and> watched H Send w) \<and> provider_topic w topic)
     (react_publish topic (Llm_Request r model ms ts s)) (\<lambda>_ w. follows H env start Rest w \<and> watched H Rest w)"
    by (rule triple_pre) (simp add: watched_rest)
qed

text \<open>After a run from the empty store on a key-value store that answers, every turn under way is watched.\<close>

definition calm_events :: "(react_event \<times> react_inputs) list \<Rightarrow> bool" where
  "calm_events events \<longleftrightarrow> (\<forall>(e, i) \<in> set events. set (ri_kv_faults i) \<subseteq> {None})"

lemma handle_watched:
  assumes "base H env w" and "watched H Rest w"
  shows "watched H Rest (snd (run_state (react_handle H e) w))"
proof -
  have m: "machine_mode (start_mode e) = start_mode e" "watched H (start_mode e) w"
    using assms(2) by (auto simp: start_mode_def watched_def excused_def split: react_event.split)
  have "follows H env (start_mode e, stored H (rw_kv w), rw_bus w) (start_mode e) w"
    using assms(1) by (simp add: follows_def m)
  with m loop_watch.react_handle_triple[of H env _ e] show ?thesis by (auto simp: triple_def)
qed

lemma run_watched:
  assumes "runs_in env events" and "calm_events events" and "base H env w" and "watched H Rest w"
  shows "watched H Rest (react_run H events w) \<and> routed (rw_kv (react_run H events w)) \<and> turns_tagged H (rw_kv (react_run H events w))"
  using assms
proof (induction events arbitrary: w)
  case (Cons ei events)
  obtain e i where ei: "ei = (e, i)" by (cases ei)
  have w: "base H env (w\<lparr>rw_in := i\<rparr>)" "watched H Rest (w\<lparr>rw_in := i\<rparr>)"
    using Cons.prems by (auto simp: ei runs_in_def calm_events_def base_def watched_def calm_def)
  from Cons.IH[OF _ _ handle_follows(1)[OF w(1)] handle_watched[OF w]] show ?case
    using Cons.prems by (simp add: ei runs_in_def calm_events_def)
qed (simp add: base_def)

section \<open>A tick of the watchdog\<close>

text \<open>The inputs of a tick at or after \<open>T\<close>, in an environment, with nothing failing.\<close>

definition patient :: "environment \<Rightarrow> u64 \<Rightarrow> react_world \<Rightarrow> bool" where
  "patient env T w \<longleftrightarrow> ri_env (rw_in w) = env \<and> (\<forall>n. T \<le> ri_clock (rw_in w) n) \<and> set (ri_bus_faults (rw_in w)) \<subseteq> {None}"

definition timeout_in :: "environment \<Rightarrow> u64 \<times> string \<Rightarrow> u64" where
  "timeout_in env d = config_value (var_or_empty (env (snd d))) (fst d)"

definition overdue :: "environment \<Rightarrow> u64 \<Rightarrow> turn_state \<Rightarrow> bool" where
  "overdue env T st \<longleftrightarrow> T \<noteq> 0 \<and> ts_phase_entered_at_ms st \<noteq> 0 \<and>
     (case phase_timeout (ts_phase st) of None \<Rightarrow> False
      | Some d \<Rightarrow> timeout_in env d \<le> elapsed_secs T (ts_phase_entered_at_ms st))"

definition timeout_response :: "react_host \<Rightarrow> environment \<Rightarrow> turn_state \<Rightarrow> string \<times> ipc_payload" where
  "timeout_response H env st = (response_topic_agent, completion_event H st
     (timeout_text (ts_phase st) (case phase_timeout (ts_phase st) of None \<Rightarrow> 0 | Some d \<Rightarrow> timeout_in env d)) True)"

definition snapshot :: "react_host \<Rightarrow> environment \<Rightarrow> u64 \<Rightarrow> mode \<Rightarrow> turn_view \<Rightarrow> (string \<times> ipc_payload) set \<Rightarrow> react_world \<Rightarrow> bool" where
  "snapshot H env T m v B w \<longleftrightarrow> watched H m w \<and> (patient env T w \<and> B \<subseteq> set (rw_bus w)) \<and> stored H (rw_kv w) = v"

lemma quiet_patient: "quiet_law H (\<lambda>w. patient env T w \<and> B \<subseteq> set (rw_bus w))"
proof (rule quiet_law.intro)
  fix w i
  assume p: "patient env T w \<and> B \<subseteq> set (rw_bus w)" and n: "narrower (rw_in w) i"
  have "T \<le> ri_clock i k" for k
  proof -
    have "ri_clock i k \<in> range (ri_clock (rw_in w))" using n by (auto simp: narrower_def)
    then show ?thesis using p by (auto simp: patient_def)
  qed
  with p n show "patient env T (w\<lparr>rw_in := i\<rparr>) \<and> B \<subseteq> set (rw_bus (w\<lparr>rw_in := i\<rparr>))"
    by (auto simp: patient_def narrower_def)
qed (auto simp: patient_def)

lemma quiet_snapshot: "quiet_law H (snapshot H env T m v B)"
  unfolding snapshot_def
  using quiet_both[OF quiet_both[OF quiet_watched[of H m] quiet_patient[of H env T B]] quiet_stored[of H "\<lambda>u. u = v"]]
  by (rule back_subst[where P = "quiet_law H"]) auto

lemma snapshot_unregister:
  "triple (snapshot H env T Rest v B) (unregister_active_session H i) (\<lambda>_. snapshot H env T (Leaving i) v B)"
proof -
  have "triple (\<lambda>w. watched H Rest w \<and> (patient env T w \<and> B \<subseteq> set (rw_bus w)) \<and> stored H (rw_kv w) = v)
      (unregister_active_session H i)
      (\<lambda>_ w. watched H (Leaving i) w \<and> (patient env T w \<and> B \<subseteq> set (rw_bus w)) \<and> stored H (rw_kv w) = v)"
    by (intro triple_conj triple_keeps watched_unregister keeps_active quiet_patient quiet_stored[of H "\<lambda>u. u = v"])
      (simp_all add: patient_def stored_active_key)
  then show ?thesis by (simp add: snapshot_def[abs_def])
qed

lemma snapshot_save:
  assumes "ts_phase st = Idle"
  shows "triple (snapshot H env T (Leaving (ts_session_id st)) v B) (save_turn H st)
    (\<lambda>r w. r = Ok () \<and> (\<exists>u. ts_phase u = Idle \<and> snapshot H env T Rest (v(ts_session_id st := u)) B w))"
  unfolding triple_def
proof (intro allI impI)
  fix w assume w: "snapshot H env T (Leaving (ts_session_id st)) v B w"
  then have "watched H (Leaving (ts_session_id st)) w" by (simp add: snapshot_def)
  from watched_save[OF this, of st Rest] obtain w' where w': "run_state (save_turn H st) w = (Ok (), w')"
    "watched H Rest w'" "rw_bus w' = rw_bus w" "narrower (rw_in w) (rw_in w')" and
    v: "stored H (rw_kv w') = (stored H (rw_kv w))(ts_session_id st := if version_known st then st else no_turns (ts_session_id st))"
    using assms by (auto simp: excused_def)
  have "patient env T (w\<lparr>rw_in := rw_in w'\<rparr>)"
    using quiet_law.quiet_inputs[OF quiet_patient[of H env T B] _ w'(4)] w by (simp add: snapshot_def)
  then have "patient env T w'" by (simp add: patient_def)
  then have "snapshot H env T Rest (v(ts_session_id st := if version_known st then st else no_turns (ts_session_id st))) B w'"
    using w w' v by (simp add: snapshot_def)
  moreover have "ts_phase (if version_known st then st else no_turns (ts_session_id st)) = Idle"
    using assms by (simp add: no_turns_idle)
  ultimately show "fst (run_state (save_turn H st) w) = Ok () \<and> (\<exists>u. ts_phase u = Idle \<and>
      snapshot H env T Rest (v(ts_session_id st := u)) B (snd (run_state (save_turn H st) w)))"
    using w'(1) by auto
qed

lemma snapshot_end_turn:
  "triple (snapshot H env T Rest v B) (end_turn H st)
    (\<lambda>r w. (\<exists>x. r = Ok x) \<and> (\<exists>u. ts_phase u = Idle \<and> snapshot H env T Rest (v(ts_session_id st := u)) B w))"
proof -
  let ?done = "\<lambda>(r :: sys_error + turn_state) w. (\<exists>x. r = Ok x) \<and>
    (\<exists>u. ts_phase u = Idle \<and> snapshot H env T Rest (v(ts_session_id st := u)) B w)"
  have phase: "triple (snapshot H env T Rest v B) (set_phase H Idle st')
      (\<lambda>st2 w. snapshot H env T (Leaving (ts_session_id st')) v B w \<and> ts_phase st2 = Idle \<and> ts_session_id st2 = ts_session_id st')" for st'
    unfolding set_phase_def
    by (rule triple_after[OF quiet_law.keeps_now_ms[OF quiet_snapshot]], simp, rule triple_bind[OF snapshot_unregister], rule triple_ret, simp)
  have save: "triple (\<lambda>w. snapshot H env T (Leaving i) v B w \<and> ts_phase st2 = Idle \<and> ts_session_id st2 = i)
      (attempt (save_turn H st2) (\<lambda>_. ret (Ok st2))) (\<lambda>r w. (\<exists>x. r = Ok x) \<and>
        (\<exists>u. ts_phase u = Idle \<and> snapshot H env T Rest (v(i := u)) B w))" for st2 i
  proof (rule triple_fact)
    assume a: "ts_phase st2 = Idle \<and> ts_session_id st2 = i"
    then have t: "triple (snapshot H env T (Leaving i) v B) (save_turn H st2)
       (\<lambda>r w. r = Ok () \<and> (\<exists>u. ts_phase u = Idle \<and> snapshot H env T Rest (v(i := u)) B w))"
      using snapshot_save[of st2 H env T v B] by simp
    show "triple (\<lambda>w. snapshot H env T (Leaving i) v B w \<and> ts_phase st2 = Idle \<and> ts_session_id st2 = i)
      (attempt (save_turn H st2) (\<lambda>_. ret (Ok st2))) (\<lambda>r w. (\<exists>x. r = Ok x) \<and>
        (\<exists>u. ts_phase u = Idle \<and> snapshot H env T Rest (v(i := u)) B w))"
      by (rule triple_attempt[OF triple_pre[OF t]]) (auto intro: triple_ret)
  qed simp
  show ?thesis
    unfolding end_turn_def
  proof (rule triple_pure[OF reset_conversation_result quiet_law.keeps_resets(2)[OF quiet_snapshot]])
    fix st1 :: turn_state assume "ts_session_id st1 = ts_session_id st \<and> ts_phase st1 = ts_phase st \<and>
       ts_dispatched_tools st1 = [] \<and> ts_iteration_count st1 = 0"
    then show "triple (snapshot H env T Rest v B) (do { st2 \<leftarrow> set_phase H Idle st1; attempt (save_turn H st2) (\<lambda>_. ret (Ok st2)) }) ?done"
      using triple_bind[OF phase[of st1] save[of "ts_session_id st1"]] by simp
  qed
qed

lemma publish_calm:
  assumes "patient env T w"
  shows "\<exists>i. narrower (rw_in w) i \<and> run_state (react_publish t p) w = (Ok (), w\<lparr>rw_in := i, rw_bus := rw_bus w @ [(t, p)]\<rparr>)"
proof (cases "ri_bus_faults (rw_in w)")
  case Nil
  then show ?thesis
    by (intro exI[of _ "rw_in w"]) (simp add: react_publish_def next_in_def run_bind State_Monad.update_def State_Monad.get_def State_Monad.set_def)
next
  case (Cons x xs)
  with assms have "x = None" by (simp add: patient_def)
  with Cons show ?thesis
    by (intro exI[of _ "ri_bus_faults_update (\<lambda>_. xs) (rw_in w)"])
      (auto simp: react_publish_def next_in_def run_bind State_Monad.update_def State_Monad.get_def State_Monad.set_def narrower_def)
qed

lemma snapshot_publish:
  assumes "side_event H t p"
  shows "triple (snapshot H env T m v B) (quietly (react_publish t p)) (\<lambda>_. snapshot H env T m v (insert (t, p) B))"
  unfolding triple_def
proof (intro allI impI)
  fix w assume w: "snapshot H env T m v B w"
  then obtain i where i: "narrower (rw_in w) i" "run_state (react_publish t p) w = (Ok (), w\<lparr>rw_in := i, rw_bus := rw_bus w @ [(t, p)]\<rparr>)"
    using publish_calm[of env T w t p] by (auto simp: snapshot_def)
  have "snapshot H env T m v B ((w\<lparr>rw_in := i\<rparr>)\<lparr>rw_bus := rw_bus (w\<lparr>rw_in := i\<rparr>) @ [(t, p)]\<rparr>)"
    by (rule quiet_law.quiet_publish[OF quiet_snapshot quiet_law.quiet_inputs[OF quiet_snapshot w i(1)] assms])
  then show "snapshot H env T m v (insert (t, p) B) (snd (run_state (quietly (react_publish t p)) w))"
    by (simp add: quietly_def run_bind i(2) snapshot_def)
qed

lemma elapsed_mono: "T \<le> now \<Longrightarrow> elapsed_secs T e \<le> elapsed_secs now e"
proof -
  assume t: "T \<le> now"
  have "unat (if e \<le> x then x - e else 0) = unat x - unat e" for x :: u64
    by (simp add: unat_sub word_le_nat_alt)
  then show ?thesis using t by (simp add: elapsed_secs_def word_le_nat_alt unat_div_distrib div_le_mono)
qed

definition timed_out :: "react_host \<Rightarrow> environment \<Rightarrow> u64 \<Rightarrow> turn_view \<Rightarrow> (string \<times> ipc_payload) set \<Rightarrow> turn_state \<Rightarrow>
    sys_error + bool \<times> turn_state \<Rightarrow> react_world \<Rightarrow> bool" where
  "timed_out H env T v B st r w \<longleftrightarrow>
     (\<exists>x. r = Ok (False, x)) \<and> \<not> overdue env T st \<and> snapshot H env T Rest v B w \<or>
     (\<exists>x u. r = Ok (True, x) \<and> ts_phase u = Idle \<and>
       snapshot H env T Rest (v(ts_session_id st := u)) (insert (timeout_response H env st) B) w)"

lemma snapshot_phase_timeout:
  "triple (snapshot H env T Rest v B) (check_phase_timeout H st) (timed_out H env T v B st)"
proof (cases "phase_timeout (ts_phase st)")
  case None
  then show ?thesis by (auto simp: check_phase_timeout_def timed_out_def overdue_def intro!: triple_ret)
next
  case (Some d)
  let ?J = "snapshot H env T Rest v B"
  obtain secs key where d: "d = (secs, key)" by (cases d)
  have now: "triple ?J now_ms (\<lambda>now w. ?J w \<and> T \<le> now)"
    by (rule triple_both[OF quiet_law.keeps_now_ms[OF quiet_snapshot]]) (simp add: triple_def now_ms_def snapshot_def patient_def)
  have conf: "triple ?J (get_config_u64 key secs) (\<lambda>t w. ?J w \<and> t = timeout_in env d)"
    by (rule triple_post[OF triple_both[OF quiet_law.keeps_get_config[OF quiet_snapshot] config_result]])
      (auto simp: snapshot_def patient_def timeout_in_def d)
  have over: "triple ?J (do {
        quietly (react_publish response_topic_agent (completion_event H st (timeout_text (ts_phase st) (timeout_in env d)) True));
        attempt (end_turn H st) (\<lambda>st'. ret (Ok (True, st'))) }) (timed_out H env T v B st)"
  proof (rule triple_bind[OF snapshot_publish], rule side)
    have r: "(response_topic_agent, completion_event H st (timeout_text (ts_phase st) (timeout_in env d)) True) = timeout_response H env st"
      by (simp add: timeout_response_def Some)
    show "triple (snapshot H env T Rest v (insert (response_topic_agent, completion_event H st
        (timeout_text (ts_phase st) (timeout_in env d)) True) B)) (attempt (end_turn H st) (\<lambda>st'. ret (Ok (True, st')))) (timed_out H env T v B st)"
      unfolding r by (rule triple_attempt[OF snapshot_end_turn]) (auto intro!: triple_ret simp: timed_out_def)
  qed
  show ?thesis
    unfolding check_phase_timeout_def Some d option.case prod.case
  proof (rule triple_bind[OF now], rule triple_fact, erule conjunct2)
    fix now :: u64 assume t: "T \<le> now"
    show "triple (\<lambda>w. ?J w \<and> T \<le> now) (if now = 0 \<or> ts_phase_entered_at_ms st = 0 then ret (Ok (False, st))
       else do { timeout \<leftarrow> get_config_u64 key secs;
            if timeout \<le> elapsed_secs now (ts_phase_entered_at_ms st)
            then do {
              quietly (react_publish response_topic_agent (completion_event H st (timeout_text (ts_phase st) timeout) True));
              attempt (end_turn H st) (\<lambda>st'. ret (Ok (True, st'))) }
            else ret (Ok (False, st)) }) (timed_out H env T v B st)"
    proof (rule triple_if)
      assume "now = 0 \<or> ts_phase_entered_at_ms st = 0"
      then show "triple (\<lambda>w. ?J w \<and> T \<le> now) (ret (Ok (False, st))) (timed_out H env T v B st)"
        using t by (auto intro!: triple_ret simp: timed_out_def overdue_def)
    next
      show "triple (\<lambda>w. ?J w \<and> T \<le> now) (do { timeout \<leftarrow> get_config_u64 key secs;
            if timeout \<le> elapsed_secs now (ts_phase_entered_at_ms st)
            then do {
              quietly (react_publish response_topic_agent (completion_event H st (timeout_text (ts_phase st) timeout) True));
              attempt (end_turn H st) (\<lambda>st'. ret (Ok (True, st'))) }
            else ret (Ok (False, st)) }) (timed_out H env T v B st)"
      proof (rule triple_bind[OF triple_pre[OF conf]], simp, rule triple_fact, erule conjunct2, rule triple_if)
        fix timeout assume "timeout = timeout_in env d" "\<not> timeout \<le> elapsed_secs now (ts_phase_entered_at_ms st)"
        then have "\<not> overdue env T st"
          using elapsed_mono[OF t, of "ts_phase_entered_at_ms st"] by (auto simp: overdue_def Some)
        then show "triple (\<lambda>w. ?J w \<and> timeout = timeout_in env d) (ret (Ok (False, st))) (timed_out H env T v B st)"
          by (auto intro!: triple_ret simp: timed_out_def)
      qed (simp add: triple_pre[OF over])
    qed
  qed
qed

lemma snapshot_timeout:
  "triple (snapshot H env T Rest v B) (check_timeout_with_cleanup H st) (timed_out H env T v B st)"
  unfolding check_timeout_with_cleanup_def
proof (rule triple_if)
  show "ts_phase st = Idle \<Longrightarrow> triple (snapshot H env T Rest v B) (ret (Ok (False, st))) (timed_out H env T v B st)"
    by (rule triple_ret) (simp add: timed_out_def overdue_def phase_timeout_def)
  show "triple (snapshot H env T Rest v B) (attempt (check_phase_timeout H st)
      (\<lambda>r. if fst r then do { cleanup_inflight_mappings H st; ret (Ok r) } else ret (Ok r))) (timed_out H env T v B st)"
  proof (rule triple_attempt[OF snapshot_phase_timeout])
    fix r :: "bool \<times> turn_state"
    have "keeps_world (timed_out H env T v B st (Ok r)) (cleanup_inflight_mappings H st)"
    proof -
      have "timed_out H env T v B st (Ok r) = (\<lambda>w. (\<not> fst r \<and> \<not> overdue env T st \<and> snapshot H env T Rest v B w) \<or>
         (fst r \<and> (\<exists>u. ts_phase u = Idle \<and>
           snapshot H env T Rest (v(ts_session_id st := u)) (insert (timeout_response H env st) B) w)))"
        by (cases r) (auto simp: timed_out_def fun_eq_iff)
      moreover have "keeps_world (snapshot H env T Rest v' B') (cleanup_inflight_mappings H st)" for v' B'
        by (rule quiet_law.keeps_cleanup[OF quiet_snapshot])
      ultimately show ?thesis by (auto simp: keeps_world_def)
    qed
    then show "triple (timed_out H env T v B st (Ok r))
      (if fst r then do { cleanup_inflight_mappings H st; ret (Ok r) } else ret (Ok r)) (timed_out H env T v B st)"
      by (intro triple_if triple_after) (auto intro!: triple_ret)
  qed (auto simp: timed_out_def)
qed

lemma load_calm:
  assumes "calm w"
  shows "\<exists>j. narrower (rw_in w) j \<and> run_state (load_turn H i) w = (stored H (rw_kv w) i, w\<lparr>rw_in := j\<rparr>)"
proof -
  obtain j where j: "narrower (rw_in w) j" "run_state (rk_get_opt (turn_key i)) w = (Ok (bt_get (rw_kv w) (turn_key i)), w\<lparr>rw_in := j\<rparr>)"
    using calm_rk_call[OF assms, of "\<lambda>m. (bt_get m (turn_key i), m)"] by (cases w) (auto simp: rk_get_opt_def)
  then have "run_state (load_turn H i) w = (stored H (rw_kv w) i, w\<lparr>rw_in := j\<rparr>)"
    by (simp add: load_turn_def rk_get_json_def run_bind run_attempt stored_def turn_of_def Let_def split: option.split sum.split)
  with j(1) show ?thesis by blast
qed

lemma snapshot_load: "triple (snapshot H env T m v B) (load_turn H i) (\<lambda>st w. snapshot H env T m v B w \<and> st = v i)"
  unfolding triple_def
proof (intro allI impI)
  fix w assume w: "snapshot H env T m v B w"
  then have "calm w" by (simp add: snapshot_def watched_def)
  from load_calm[OF this, of H i] obtain j where j: "narrower (rw_in w) j"
    "run_state (load_turn H i) w = (stored H (rw_kv w) i, w\<lparr>rw_in := j\<rparr>)" by blast
  with quiet_law.quiet_inputs[OF quiet_snapshot w j(1)] w
  show "snapshot H env T m v B (snd (run_state (load_turn H i) w)) \<and> fst (run_state (load_turn H i) w) = v i"
    by (simp add: snapshot_def)
qed

text \<open>One session of a tick: its turn is as it was, or idle; when it was overdue it is idle and answered.\<close>

definition ticking :: "react_host \<Rightarrow> environment \<Rightarrow> u64 \<Rightarrow> string \<Rightarrow> turn_state \<Rightarrow> bool \<Rightarrow> react_world \<Rightarrow> bool" where
  "ticking H env T s st ended w \<longleftrightarrow> (\<exists>v B. snapshot H env T Rest v B w \<and> ((\<not> ended \<and> v s = st) \<or>
     (ts_phase (v s) = Idle \<and> timeout_response H env st \<in> B)))"

lemma stored_session: "ts_session_id (stored H m i) = i"
  by (simp add: stored_def)

lemma tick_session:
  assumes st: "overdue env T st"
  shows "triple (ticking H env T s st ended) (do { x \<leftarrow> load_turn H i; quietly (check_timeout_with_cleanup H x) })
    (\<lambda>_. ticking H env T s st (ended \<or> s = i))"
  unfolding triple_def
proof (intro allI impI)
  fix w assume "ticking H env T s st ended w"
  then obtain v B where w: "snapshot H env T Rest v B w"
    and vb: "(\<not> ended \<and> v s = st) \<or> (ts_phase (v s) = Idle \<and> timeout_response H env st \<in> B)" by (auto simp: ticking_def)
  obtain w1 where l: "run_state (load_turn H i) w = (v i, w1)" and w1: "snapshot H env T Rest v B w1"
    using snapshot_load[of H env T Rest v B i] w by (cases "run_state (load_turn H i) w") (auto simp: triple_def)
  obtain r w2 where c: "run_state (check_timeout_with_cleanup H (v i)) w1 = (r, w2)" by (cases "run_state (check_timeout_with_cleanup H (v i)) w1")
  from tripleD[OF snapshot_timeout w1 c] have t: "timed_out H env T v B (v i) r w2" .
  have i: "ts_session_id (v i) = i" using w stored_session by (auto simp: snapshot_def)
  have "ticking H env T s st (ended \<or> s = i) w2"
  proof (cases "\<exists>x. r = Ok (False, x)")
    case True
    then have k: "\<not> overdue env T (v i)" "snapshot H env T Rest v B w2" using t by (auto simp: timed_out_def)
    then have "(\<not> (ended \<or> s = i) \<and> v s = st) \<or> (ts_phase (v s) = Idle \<and> timeout_response H env st \<in> B)"
      using vb st by auto
    with k(2) show ?thesis by (auto simp: ticking_def)
  next
    case False
    then obtain u where u: "ts_phase u = Idle" "snapshot H env T Rest (v(i := u)) (insert (timeout_response H env (v i)) B) w2"
      using t i by (auto simp: timed_out_def)
    have "(\<not> (ended \<or> s = i) \<and> (v(i := u)) s = st) \<or>
        (ts_phase ((v(i := u)) s) = Idle \<and> timeout_response H env st \<in> insert (timeout_response H env (v i)) B)"
      using vb u(1) by auto
    with u(2) show ?thesis unfolding ticking_def by blast
  qed
  then show "ticking H env T s st (ended \<or> s = i)
      (snd (run_state (do { x \<leftarrow> load_turn H i; quietly (check_timeout_with_cleanup H x) }) w))"
    by (simp add: run_bind l c quietly_def)
qed

lemma tick_sessions:
  "overdue env T st \<Longrightarrow> triple (ticking H env T s st ended) (watch_sessions H ids) (\<lambda>_. ticking H env T s st (ended \<or> s \<in> set ids))"
proof (induction ids arbitrary: ended)
  case (Cons i ids)
  have "triple (ticking H env T s st ended)
      (do { _ \<leftarrow> (do { x \<leftarrow> load_turn H i; quietly (check_timeout_with_cleanup H x) }); watch_sessions H ids })
      (\<lambda>_. ticking H env T s st ((ended \<or> s = i) \<or> s \<in> set ids))"
    by (rule triple_bind[OF tick_session[OF Cons.prems] Cons.IH[OF Cons.prems]])
  then show ?case by (auto simp: triple_def run_bind split: prod.splits)
qed (simp add: triple_ret)

lemma tick_ends:
  assumes "watched H Rest w" and "patient env T w" and "stored H (rw_kv w) s = st" and "overdue env T st"
  shows "ts_phase (stored H (rw_kv (snd (run_state (react_handle H Watchdog_Tick) w))) s) = Idle \<and>
    timeout_response H env st \<in> set (rw_bus (snd (run_state (react_handle H Watchdog_Tick) w)))"
proof -
  obtain j where j: "narrower (rw_in w) j" "run_state (load_active_sessions H) w = (listed H (rw_kv w), w\<lparr>rw_in := j\<rparr>)"
    using load_active_run[OF assms(1)] by blast
  let ?w = "w\<lparr>rw_in := j\<rparr>" and ?ids = "listed H (rw_kv w)"
  have "ts_phase st \<noteq> Idle" using assms(4) by (auto simp: overdue_def phase_timeout_def)
  then have s: "s \<in> set ?ids" using assms(1,3) by (auto simp: watched_def excused_def)
  have "snapshot H env T Rest (stored H (rw_kv w)) {} w" using assms by (simp add: snapshot_def)
  from quiet_law.quiet_inputs[OF quiet_snapshot this j(1)] have "ticking H env T s st False ?w"
    using assms(3) unfolding ticking_def by blast
  with tick_sessions[OF assms(4), of H s False ?ids] s
  have "ticking H env T s st True (snd (run_state (watch_sessions H ?ids) ?w))" by (auto simp: triple_def)
  moreover have "snd (run_state (react_handle H Watchdog_Tick) w) = snd (run_state (watch_sessions H ?ids) ?w)"
    by (simp add: react_handle_def handle_watchdog_tick_def run_bind j(2) split: prod.split)
  ultimately show ?thesis by (auto simp: ticking_def snapshot_def)
qed

end
