(* ===== verification/React_Promises.thy ===== *)
theory React_Promises
  imports React_Watchdog "HOL-Library.Countable"
begin

text \<open>
  The properties of the agent loop, over its handlers and over runs from an empty store, with a demonstration: a
  user's prompt with a host whose codecs number the values, and a tick of the watchdog two minutes later.
\<close>

section \<open>The demonstration\<close>

instance json_number :: countable by countable_datatype
instance canonical_json :: countable by countable_datatype
instance phase :: countable by countable_datatype

instance pending_tool_call_ext :: (countable) countable
  by (rule countable_classI[of "\<lambda>x. to_nat (pt_id x, pt_name x, pt_args_json x, pt_complete x, pending_tool_call.more x)"])
    simp

instance dispatched_tool_call_ext :: (countable) countable
  by (rule countable_classI[of "\<lambda>x. to_nat (dt_id x, dt_name x, dt_arguments x, dt_result x, dt_turn_request_id x,
      dispatched_tool_call.more x)"]) simp

instance turn_state_ext :: (countable) countable
  by (rule countable_classI[of "\<lambda>x. to_nat ((ts_schema_version x, ts_session_id x, ts_phase x, ts_system_prompt x,
      ts_request_id x, ts_completion_id x, ts_response_text x), ts_pending_stream_tools x, ts_dispatched_tools x,
      ts_current_tools x, ts_iteration_count x, ts_phase_entered_at_ms x, ts_request_model_override x, turn_state.more x)"])
    simp

definition tally :: "'a::countable \<Rightarrow> string" where
  "tally x = CHR ''#'' # replicate (to_nat x) CHR ''1''"

definition number_codec :: "'a::countable json_codec" where
  "number_codec = \<lparr>jc_encode = (\<lambda>x. Ok (tally x)), jc_decode = (\<lambda>b. Ok (from_nat (length b - 1)))\<rparr>"

lemma number_codec_simps: "jc_encode number_codec x = Ok (tally x)" "jc_decode number_codec (tally x) = Ok x"
  by (simp_all add: number_codec_def tally_def)

lemma number_codec_total: "codec_total number_codec"
  by (auto simp: codec_total_def json_codec_ok_def number_codec_simps) (simp add: tally_def)

definition react_demo_host :: react_host where
  "react_demo_host = \<lparr>rh_turn = number_codec, rh_active = number_codec, rh_parse = (\<lambda>_. None),
     rh_show_uuid = (\<lambda>u. show_nat (unat u)), rh_parse_uuid = (\<lambda>s. map_option of_nat (digits_value 0 s)),
     rh_messages = (\<lambda>_. Ok []), rh_message = (\<lambda>_. None), rh_tool = (\<lambda>_. None),
     rh_messages_json = (\<lambda>_. Ok (CArray [])), rh_message_json = (\<lambda>_. None), rh_show = (\<lambda>_. ''failed'')\<rparr>"

definition react_demo_inputs :: "u64 \<Rightarrow> react_inputs" where
  "react_demo_inputs now = \<lparr>ri_clock = (\<lambda>_. now), ri_uuids = (\<lambda>n. of_nat (Suc n)), ri_kv_faults = [], ri_bus_faults = [],
     ri_subscribe_faults = [], ri_replies = [Ok CNull], ri_polls = [], ri_env = (\<lambda>_. Ok None)\<rparr>"

definition react_demo_prompt :: "react_event \<times> react_inputs" where
  "react_demo_prompt = (User_Prompt (User_Input ''hi'' ''s'' (Some (CObject [(''model'', CString ''m'')]))), react_demo_inputs 1000)"

definition react_demo_turn :: turn_state where
  "react_demo_turn = turn_default\<lparr>ts_session_id := ''s'', ts_phase := Awaiting_Identity, ts_request_id := 1,
     ts_completion_id := 2, ts_phase_entered_at_ms := 1000, ts_request_model_override := Some ''m''\<rparr>"

lemmas demo_ops = run_bind run_attempt run_rk_call now_ms_def new_uuid_def next_in_def State_Monad.get_def
  State_Monad.update_def State_Monad.set_def quietly_def react_publish_def request_response_def rk_get_def rk_get_opt_def
  rk_set_def rk_delete_def rk_get_json_def rk_set_json_def env_var_def env_var_opt_def var_or_empty_def number_codec_simps

lemma demo_host_fields:
  "rh_turn react_demo_host = number_codec" "rh_active react_demo_host = number_codec"
  "rh_show_uuid react_demo_host = (\<lambda>u. show_nat (unat u))"
  "rh_parse_uuid react_demo_host = (\<lambda>s. map_option of_nat (digits_value 0 s))"
  "rh_messages react_demo_host = (\<lambda>_. Ok [])" "rh_messages_json react_demo_host = (\<lambda>_. Ok (CArray []))"
  by (simp_all add: react_demo_host_def)

lemmas demo_data = demo_host_fields react_demo_inputs_def react_empty_def bt_get_def payload_string_def json_get_def
  json_str_def

lemmas demo_turns = load_turn_def save_turn_def load_active_sessions_def register_active_session_def
  unregister_active_session_def reset_turn_def reset_conversation_turn_def set_phase_def fetch_messages_with_append_def
  fetch_messages_inner_def json_obj_def turn_default_def

lemma demo_turn_stored:
  "stored react_demo_host (rw_kv (react_run react_demo_host [react_demo_prompt] (react_empty (react_demo_inputs 0)))) ''s'' = react_demo_turn"
proof -
  have "trim ''hi'' \<noteq> []" "trim ''m'' \<noteq> []" by code_simp+
  then show ?thesis
    by (simp add: react_demo_prompt_def react_handle_def handle_user_prompt_def cancels_turn_def begin_turn_def
      requested_model_def non_blank_def demo_ops demo_data demo_turns stored_def turn_of_def react_demo_turn_def)
qed

definition react_demo_reply :: canonical_json where
  "react_demo_reply = CObject [(''request_id'', CString ''1''), (''session_id'', CString ''s'')]"

definition react_demo_kv :: "turn_state \<Rightarrow> (string, string) btree_map" where
  "react_demo_kv st = [(''react.active_sessions'', tally [''s'']), (''react.turn.s'', tally st)]"

lemma demo_facts:
  "trim ''m'' \<noteq> []" "trim [] = []" "is_ascii_digit CHR ''1''" "\<not> (30::u64) \<le> 1" "turn_key ''s'' = ''react.turn.s''"
  "active_sessions_key = ''react.active_sessions''" "kv_provider_topic = ''llm_provider_topic''"
  "kv_context_window = ''react.context_window''" "request_key react_demo_host 1 = ''react.req2sess.1''"
  by code_simp+

lemmas demo_checks = with_turn_def payload_session_def orchestration_reply_is_stale_def response_matches_turn_def
  check_timeout_with_cleanup_def check_phase_timeout_def phase_timeout_def get_config_u64_def config_value_def
  elapsed_secs_def redrive_if_unready_def

lemmas demo_model = active_llm_def cached_active_llm_def fetch_active_llm_topic_from_registry_def subscribes_def
  poll_subscription_def resolve_request_model_def non_blank_def

lemma demo_identity:
  "rw_kv (snd (run_state (react_handle react_demo_host (Identity_Response react_demo_reply))
     \<lparr>rw_kv = react_demo_kv react_demo_turn, rw_bus = b, rw_in = react_demo_inputs 2000\<rparr>)) =
   react_demo_kv (react_demo_turn\<lparr>ts_phase := Awaiting_Prompt_Build, ts_phase_entered_at_ms := 2000\<rparr>)"
  by (simp add: react_demo_reply_def react_handle_def react_demo_kv_def react_demo_turn_def demo_facts
      demo_ops demo_data demo_turns handle_identity_response_def demo_checks fetch_messages_def request_assembly_def demo_model)

lemma demo_identity_quiet:
  "llm_requests (rw_bus (snd (run_state (react_handle react_demo_host (Identity_Response react_demo_reply))
     \<lparr>rw_kv = react_demo_kv react_demo_turn, rw_bus = b, rw_in = react_demo_inputs 2000\<rparr>))) = llm_requests b"
  by (simp add: react_demo_reply_def react_handle_def react_demo_kv_def react_demo_turn_def demo_facts
      demo_ops demo_data demo_turns handle_identity_response_def demo_checks fetch_messages_def request_assembly_def demo_model
      llm_requests_def)

lemma demo_prompt_response:
  "llm_requests (rw_bus (snd (run_state (react_handle react_demo_host (Prompt_Response react_demo_reply))
     \<lparr>rw_kv = react_demo_kv (react_demo_turn\<lparr>ts_phase := Awaiting_Prompt_Build, ts_phase_entered_at_ms := 2000\<rparr>),
       rw_bus = b, rw_in = react_demo_inputs 3000\<rparr>))) = Suc (llm_requests b)"
  by (simp add: react_demo_reply_def react_handle_def react_demo_kv_def react_demo_turn_def demo_facts
      demo_ops demo_data demo_turns handle_prompt_response_def demo_checks demo_model publish_llm_request_def
      compact_messages_def cached_context_window_def from_le_bytes_def store_request_session_def
      llm_requests_def Let_def parse_json_array_field_def apply_user_prefix_def json_array_def)

lemma demo_prompt_kv:
  "rw_kv (react_run react_demo_host [react_demo_prompt] (react_empty (react_demo_inputs 0))) = react_demo_kv react_demo_turn"
  "llm_requests (rw_bus (react_run react_demo_host [react_demo_prompt] (react_empty (react_demo_inputs 0)))) = 0"
proof -
  have "trim ''hi'' \<noteq> []" "trim ''m'' \<noteq> []" by code_simp+
  then show "rw_kv (react_run react_demo_host [react_demo_prompt] (react_empty (react_demo_inputs 0))) = react_demo_kv react_demo_turn"
    "llm_requests (rw_bus (react_run react_demo_host [react_demo_prompt] (react_empty (react_demo_inputs 0)))) = 0"
    by (simp_all add: react_demo_prompt_def react_handle_def handle_user_prompt_def cancels_turn_def begin_turn_def
      requested_model_def non_blank_def demo_ops demo_data demo_turns react_demo_turn_def react_demo_kv_def llm_requests_def
      demo_facts completion_event_def)
qed

definition react_demo_events :: "(react_event \<times> react_inputs) list" where
  "react_demo_events = [react_demo_prompt, (Identity_Response react_demo_reply, react_demo_inputs 2000),
     (Prompt_Response react_demo_reply, react_demo_inputs 3000)]"

lemma demo_sent:
  "(provider_topic_prefix @ ''anthropic'', Llm_Request 1 ''m'' [] [] []) \<in>
     set (rw_bus (snd (run_state (react_handle react_demo_host (Prompt_Response react_demo_reply))
     \<lparr>rw_kv = react_demo_kv (react_demo_turn\<lparr>ts_phase := Awaiting_Prompt_Build, ts_phase_entered_at_ms := 2000\<rparr>),
       rw_bus = b, rw_in = react_demo_inputs 3000\<rparr>)))"
  by (simp add: react_demo_reply_def react_handle_def react_demo_kv_def react_demo_turn_def demo_facts
      demo_ops demo_data demo_turns handle_prompt_response_def demo_checks demo_model publish_llm_request_def
      compact_messages_def cached_context_window_def from_le_bytes_def store_request_session_def
      Let_def parse_json_array_field_def apply_user_prefix_def json_array_def)

lemma demo_request_sent:
  "llm_requests (rw_bus (react_run react_demo_host react_demo_events (react_empty (react_demo_inputs 0)))) = 1"
  "(provider_topic_prefix @ ''anthropic'', Llm_Request 1 ''m'' [] [] []) \<in>
     set (rw_bus (react_run react_demo_host react_demo_events (react_empty (react_demo_inputs 0))))"
proof -
  let ?w1 = "react_run react_demo_host [react_demo_prompt] (react_empty (react_demo_inputs 0))"
  let ?w2 = "snd (run_state (react_handle react_demo_host (Identity_Response react_demo_reply)) (?w1\<lparr>rw_in := react_demo_inputs 2000\<rparr>))"
  have w1: "?w1\<lparr>rw_in := react_demo_inputs 2000\<rparr> =
      \<lparr>rw_kv = react_demo_kv react_demo_turn, rw_bus = rw_bus ?w1, rw_in = react_demo_inputs 2000\<rparr>"
    using demo_prompt_kv(1) by (cases ?w1) simp
  then have kv2: "rw_kv ?w2 = react_demo_kv (react_demo_turn\<lparr>ts_phase := Awaiting_Prompt_Build, ts_phase_entered_at_ms := 2000\<rparr>)"
    and b2: "llm_requests (rw_bus ?w2) = 0"
    by (simp_all only: demo_identity demo_identity_quiet demo_prompt_kv(2))
  have w2: "?w2\<lparr>rw_in := react_demo_inputs 3000\<rparr> = \<lparr>rw_kv = react_demo_kv (react_demo_turn
      \<lparr>ts_phase := Awaiting_Prompt_Build, ts_phase_entered_at_ms := 2000\<rparr>), rw_bus = rw_bus ?w2, rw_in = react_demo_inputs 3000\<rparr>"
    using kv2 by (cases ?w2) simp
  have run: "react_run react_demo_host react_demo_events (react_empty (react_demo_inputs 0)) =
      snd (run_state (react_handle react_demo_host (Prompt_Response react_demo_reply)) (?w2\<lparr>rw_in := react_demo_inputs 3000\<rparr>))"
    by (simp add: react_demo_events_def react_demo_prompt_def)
  show "llm_requests (rw_bus (react_run react_demo_host react_demo_events (react_empty (react_demo_inputs 0)))) = 1"
    unfolding run w2 demo_prompt_response b2 by simp
  show "(provider_topic_prefix @ ''anthropic'', Llm_Request 1 ''m'' [] [] []) \<in>
     set (rw_bus (react_run react_demo_host react_demo_events (react_empty (react_demo_inputs 0))))"
    unfolding run w2 by (rule demo_sent)
qed

lemma demo_appended:
  "(get_messages_topic, Raw_Json (json_obj [(''session_id'', CString ''s''), (''append_before_read'', CArray [])])) \<in>
     set (rw_bus (react_run react_demo_host [react_demo_prompt] (react_empty (react_demo_inputs 0))))"
proof -
  have "trim ''hi'' \<noteq> []" "trim ''m'' \<noteq> []" by code_simp+
  then show ?thesis
    by (simp add: react_demo_prompt_def react_handle_def handle_user_prompt_def cancels_turn_def begin_turn_def
      requested_model_def non_blank_def demo_ops demo_data demo_turns demo_facts)
qed

lemma number_codec_ok: "json_codec_ok number_codec"
  by (rule number_codec_total[unfolded codec_total_def, THEN conjunct1])

lemma react_demo_codecs: "codec_total (rh_turn react_demo_host)" "codec_total (rh_active react_demo_host)"
  "json_codec_ok (rh_turn react_demo_host)"
  by (simp_all add: demo_host_fields number_codec_total number_codec_ok)

lemma react_demo_runs: "runs_in (\<lambda>_. Ok None) react_demo_events" "runs_in (\<lambda>_. Ok None) [react_demo_prompt]"
  "calm_events [react_demo_prompt]" "prompts react_demo_events = 1"
  by (simp_all add: runs_in_def calm_events_def prompts_def react_demo_events_def react_demo_prompt_def react_demo_inputs_def
      start_mode_def)

lemma demo_iterations: "unat (iterations_in (\<lambda>_. Ok None)) = 25"
proof -
  have "trim [] = []" by code_simp
  then show ?thesis
    by (simp add: iterations_in_def var_or_empty_def config_value_def max_iterations_of_def default_max_iterations_def)
qed

section \<open>Properties\<close>

text \<open>C31. Every handler of the agent loop refines the machine of turns: whatever its inputs (failing calls included), what the
  store says of the sessions' turns and what is on the bus after it is reached from before by steps of the
  machine, each a saved turn along an edge, an event, or a request to a selected model.
\<close>

theorem handlers_refine_machine:
  assumes "json_codec_ok (rh_turn H)" and "routed (rw_kv w)" and "\<forall>i. tagged (stored H (rw_kv w) i)"
    and "w' = snd (run_state (react_handle H e) w)"
  shows "(turn_step H (ri_env (rw_in w)))\<^sup>*\<^sup>* (start_mode e, stored H (rw_kv w), rw_bus w)
      (Rest, stored H (rw_kv w'), rw_bus w')"
  unfolding assms(4) by (rule handle_follows(2)) (simp add: base_def turns_tagged_def assms)

theorem handlers_refine_machine_witness:
  "(turn_step react_demo_host (\<lambda>_. Ok None))\<^sup>*\<^sup>* (Open, no_turns, [])
     (Rest, stored react_demo_host (rw_kv (react_run react_demo_host [react_demo_prompt] (react_empty (react_demo_inputs 0)))),
       rw_bus (react_run react_demo_host [react_demo_prompt] (react_empty (react_demo_inputs 0))))"
proof -
  have "stored react_demo_host [] = no_turns" by (auto simp: stored_def turn_of_def no_turns_def)
  then show ?thesis
    using handlers_refine_machine[of react_demo_host "react_empty (snd react_demo_prompt)" _ "fst react_demo_prompt", OF react_demo_codecs(3) _ _ refl]
    by (simp add: react_empty_def routed_def no_turns_rest react_demo_prompt_def react_demo_inputs_def start_mode_def)
qed

text \<open>Only a user's prompt starts a turn or takes it back: every other event moves each session's phase forward, from
  waiting for the identity over the prompt to streaming and tools, and to idle, where it stays.
\<close>

lemma turns_move_forward:
  assumes "json_codec_ok (rh_turn H)" and "routed (rw_kv w)" and "\<forall>i. tagged (stored H (rw_kv w) i)"
    and "\<forall>p. e \<noteq> User_Prompt p" and "w' = snd (run_state (react_handle H e) w)"
  shows "phase_rank (ts_phase (stored H (rw_kv w) i)) \<le> phase_rank (ts_phase (stored H (rw_kv w') i))"
proof -
  have "start_mode e \<noteq> Open" using assms(4) by (cases e) (auto simp: start_mode_def)
  then show ?thesis
    unfolding assms(5) by (intro handle_moves_forward[of H "ri_env (rw_in w)"]) (simp_all add: base_def turns_tagged_def assms)
qed

lemma turns_move_forward_witness:
  "phase_rank (ts_phase (stored react_demo_host (react_demo_kv react_demo_turn) ''s'')) \<le>
     phase_rank (ts_phase (stored react_demo_host (rw_kv (snd (run_state (react_handle react_demo_host (Identity_Response react_demo_reply))
       \<lparr>rw_kv = react_demo_kv react_demo_turn, rw_bus = [], rw_in = react_demo_inputs 2000\<rparr>))) ''s''))"
proof -
  have "routed (react_demo_kv react_demo_turn)" by (simp add: routed_def react_demo_kv_def bt_get_def kv_provider_topic_def)
  moreover have "\<forall>i. tagged (stored react_demo_host (react_demo_kv react_demo_turn) i)"
    by (auto simp: stored_def turn_of_def react_demo_kv_def bt_get_def demo_host_fields number_codec_simps
        react_demo_turn_def turn_default_def tagged_def turn_key_def turn_key_prefix_def)
  ultimately show ?thesis
    using turns_move_forward[OF react_demo_codecs(3), of "\<lparr>rw_kv = react_demo_kv react_demo_turn, rw_bus = [], rw_in = react_demo_inputs 2000\<rparr>"
      "Identity_Response react_demo_reply" _ "''s''"] by simp
qed

text \<open>C30. A prompt costs a bounded number of requests to a model: in a run from the empty store, whatever is replied, in
  whatever order events come and whichever calls fail, no more requests are published than the number of prompts times
  the limit of iterations, which is the configured one, the same over the whole run, or one if that is zero.
\<close>

theorem requests_bounded_by_prompts:
  assumes "json_codec_ok (rh_turn H)" and "runs_in env events"
  shows "llm_requests (rw_bus (react_run H events (react_empty i))) \<le> prompts events * max 1 (unat (iterations_in env))"
proof -
  have "max 1 (unat (iterations_in env)) = Suc (unat (iterations_in env) - 1)" by simp
  then show ?thesis using run_within_budget[OF assms, of i] by simp
qed

theorem requests_bounded_by_prompts_witness:
  "llm_requests (rw_bus (react_run react_demo_host react_demo_events (react_empty (react_demo_inputs 0)))) \<le> 25 \<and>
   llm_requests (rw_bus (react_run react_demo_host react_demo_events (react_empty (react_demo_inputs 0)))) = 1"
  using requests_bounded_by_prompts[OF react_demo_codecs(3) react_demo_runs(1), of "react_demo_inputs 0"] demo_request_sent(1)
  by (simp add: react_demo_runs demo_iterations)

text \<open>No model is made up: every request on the bus of a run names a model that is not blank, and goes to a
  provider's topic, or to the topic the environment overrides it with.
\<close>

lemma requests_name_selected_model:
  assumes "json_codec_ok (rh_turn H)" and "runs_in env events"
    and "(topic, Llm_Request r model ms tools system) \<in> set (rw_bus (react_run H events (react_empty i)))"
  shows "trim model \<noteq> [] \<and> (prefix provider_topic_prefix topic \<or> env kv_provider_topic = Ok (Some topic))"
  using run_selected[OF assms(1,2), of i] assms(3) by (auto simp: selected_request_def topic_in_def)

lemma requests_name_selected_model_witness:
  "trim ''m'' \<noteq> [] \<and> (prefix provider_topic_prefix (provider_topic_prefix @ ''anthropic'') \<or>
     (Ok None :: unit + string option) = Ok (Some (provider_topic_prefix @ ''anthropic'')))"
  by (rule requests_name_selected_model[OF react_demo_codecs(3) react_demo_runs(1) demo_request_sent(2)])

text \<open>C32. The transcript grows by whole rounds: every request to the session capsule for its messages appends nothing, one
  user's text that is not blank, one answer that is not empty, or the calls of tools with as many results as calls.
\<close>

theorem transcript_grows_by_rounds:
  assumes "json_codec_ok (rh_turn H)" and "runs_in env events"
    and "(get_messages_topic, Raw_Json v) \<in> set (rw_bus (react_run H events (react_empty i)))"
  shows "transcript_request H (Raw_Json v)"
  using run_transcript[OF assms(1,2), of i] assms(3) by (auto simp: transcript_event_def)

theorem transcript_grows_by_rounds_witness:
  "transcript_request react_demo_host
     (Raw_Json (json_obj [(''session_id'', CString ''s''), (''append_before_read'', CArray [])]))"
  by (rule transcript_grows_by_rounds[OF react_demo_codecs(3) react_demo_runs(2) demo_appended])

text \<open>The check for results of another turn never rejects one: in every state a run reaches, all dispatched tools carry the
  turn's current request id, so a result is matched by the id of its call alone.
\<close>

lemma stale_check_never_fires:
  assumes "json_codec_ok (rh_turn H)" and "runs_in env events"
  shows "\<not> stale_result call_id (stored H (rw_kv (react_run H events (react_empty i))) s)"
  by (rule run_never_stale[OF assms])

lemma stale_check_never_fires_witness:
  "\<not> stale_result ''c'' (stored react_demo_host (rw_kv (react_run react_demo_host react_demo_events (react_empty (react_demo_inputs 0)))) ''s'')"
  by (rule stale_check_never_fires[OF react_demo_codecs(3) react_demo_runs(1)])

text \<open>C29. No turn hangs: after any run of events, handled one after another from the empty store, on a key-value store that
  answers, a tick of the watchdog on a bus that accepts its messages ends every turn whose phase is past its configured
  timeout, and publishes the final response that says so.
\<close>

theorem watchdog_ends_overdue_turns:
  assumes "codec_total (rh_turn H)" and "codec_total (rh_active H)" and "runs_in env events" and "calm_events events"
    and "ri_env tick = env" and "set (ri_kv_faults tick) \<subseteq> {None}" and "set (ri_bus_faults tick) \<subseteq> {None}"
    and "\<forall>n. T \<le> ri_clock tick n"
    and "overdue env T (stored H (rw_kv (react_run H events (react_empty i))) s)"
    and "w' = react_run H (events @ [(Watchdog_Tick, tick)]) (react_empty i)"
  shows "ts_phase (stored H (rw_kv w') s) = Idle \<and>
    timeout_response H env (stored H (rw_kv (react_run H events (react_empty i))) s) \<in> set (rw_bus w')"
proof -
  let ?start = "react_empty (i\<lparr>ri_env := env, ri_kv_faults := []\<rparr>)" and ?w = "react_run H events (react_empty i)"
  have run: "react_run H (es @ es') w = react_run H es' (react_run H es w)" for es es' w
    by (induction es arbitrary: w) auto
  have store: "rw_kv (react_run H events ?start) = rw_kv ?w \<and> (events = [] \<or> react_run H events ?start = ?w)"
    by (cases events) (auto simp: react_empty_def)
  have "stored H [] = no_turns" by (auto simp: stored_def turn_of_def no_turns_def)
  then have "watched H Rest ?start"
    using assms(1,2) by (simp add: watched_def calm_def react_empty_def no_turns_idle)
  moreover have "base H env ?start"
    using base_start[of H "i\<lparr>ri_env := env, ri_kv_faults := []\<rparr>" "[]"] assms(1) by (simp add: react_empty_def codec_total_def)
  ultimately have "watched H Rest (react_run H events ?start)" using run_watched[OF assms(3,4)] by blast
  then have "watched H Rest (?w\<lparr>rw_in := tick\<rparr>)" using store assms(6) by (simp add: watched_def calm_def)
  from tick_ends[OF this _ refl] show ?thesis
    using assms(5,7,8,9) unfolding assms(10) by (simp add: run patient_def)
qed

lemma demo_overdue: "overdue (\<lambda>_. Ok None) 100000 react_demo_turn"
proof -
  have "trim [] = []" "(30::u64) \<le> 99" by code_simp+
  then show ?thesis
    by (simp add: overdue_def react_demo_turn_def turn_default_def phase_timeout_def timeout_in_def var_or_empty_def config_value_def
        elapsed_secs_def)
qed

theorem watchdog_ends_overdue_turns_witness:
  "ts_phase (stored react_demo_host (rw_kv (react_run react_demo_host
      ([react_demo_prompt] @ [(Watchdog_Tick, react_demo_inputs 100000)]) (react_empty (react_demo_inputs 0)))) ''s'') = Idle"
  using watchdog_ends_overdue_turns[OF react_demo_codecs(1,2) react_demo_runs(2,3), of "react_demo_inputs 100000" 100000 "react_demo_inputs 0" "''s''"]
    demo_overdue
  by (simp only: demo_turn_stored) (simp add: react_demo_inputs_def)

end
