(* ===== verification/Selection.thy ===== *)
theory Selection
  imports Canonical
begin

text \<open>
  \<open>capsules/capsule-registry/src/selection.rs\<close>: how an operator's input selects a model, how a stored
  selection is reconciled with the discovered providers, and the bodies of the \<open>models\<close> command.
  \<open>ProviderEntry\<close> is the record of the registry contract. Model ids are \<open>capsule:model\<close>, split at the
  first colon only.
\<close>

section \<open>Entries and ids\<close>

record provider_entry =
  pe_id :: string
  pe_description :: string
  pe_request_topic :: string
  pe_stream_topic :: string
  pe_capabilities :: "string list"
  pe_context_window :: "u64 option"
  pe_max_output_tokens :: "u64 option"

record registry_state =
  rs_providers :: "provider_entry list"
  rs_active_model_id :: "string option"

definition registry_default :: registry_state where
  "registry_default = \<lparr>rs_providers = [], rs_active_model_id = None\<rparr>"

definition llm_request_generate_prefix :: string where
  "llm_request_generate_prefix = ''llm.v1.request.generate.''"

definition is_known_subcommand :: "string \<Rightarrow> bool" where
  "is_known_subcommand sub \<longleftrightarrow> sub \<in> {''list'', ''current'', ''set'', ''unset''}"

definition first_arg :: "string list \<Rightarrow> string" where
  "first_arg args = (case args of [] \<Rightarrow> [] | a # _ \<Rightarrow> a)"

definition second_arg :: "string list \<Rightarrow> string option" where
  "second_arg args = (case args of _ # b # _ \<Rightarrow> Some b | _ \<Rightarrow> None)"

definition wants_json :: "string list \<Rightarrow> bool" where
  "wants_json args \<longleftrightarrow> ''--json'' \<in> set args"

definition subcommand_needs_discovery :: "string list \<Rightarrow> bool" where
  "subcommand_needs_discovery args =
     (let sub = first_arg args in
      if sub = ''list'' then True
      else if sub = ''current'' then wants_json args
      else if sub = ''set'' then second_arg args \<noteq> None
      else False)"

definition qualifier_of :: "string \<Rightarrow> string" where
  "qualifier_of i = (case split_once (CHR '':'') i of None \<Rightarrow> i | Some (cap, _) \<Rightarrow> cap)"

definition bare_model_of :: "string \<Rightarrow> string" where
  "bare_model_of i = (case split_once (CHR '':'') i of None \<Rightarrow> i | Some (_, model) \<Rightarrow> model)"

section \<open>Resolving a selection\<close>

datatype resolve_error = Unknown string | Ambiguous "string list"

fun join :: "string \<Rightarrow> string list \<Rightarrow> string" where
  "join sep [] = []"
| "join sep [x] = x"
| "join sep (x # y # xs) = x @ sep @ join sep (y # xs)"

fun resolve_error_message :: "resolve_error \<Rightarrow> string" where
  "resolve_error_message (Unknown input) = ''unknown model: '' @ input"
| "resolve_error_message (Ambiguous candidates) =
     ''ambiguous model; candidates: '' @ join '', '' candidates"

definition resolve_selection :: "string \<Rightarrow> provider_entry list \<Rightarrow> resolve_error + provider_entry" where
  "resolve_selection input entries =
     (case find (\<lambda>e. pe_id e = input) entries of
        Some exact \<Rightarrow> Ok exact
      | None \<Rightarrow>
         (case filter (\<lambda>e. bare_model_of (pe_id e) = input) entries of
            [one] \<Rightarrow> Ok one
          | many1 # many2 # many \<Rightarrow> Err (Ambiguous (map pe_id (many1 # many2 # many)))
          | [] \<Rightarrow>
             (case split_once (CHR '':'') input of
                None \<Rightarrow> Err (Unknown input)
              | Some (cap, model) \<Rightarrow>
                 (case filter (\<lambda>e. qualifier_of (pe_id e) = cap \<and> bare_model_of (pe_id e) = model) entries of
                    [one] \<Rightarrow> Ok one
                  | many1 # many2 # many \<Rightarrow> Err (Ambiguous (map pe_id (many1 # many2 # many)))
                  | [] \<Rightarrow> Err (Unknown input)))))"

section \<open>Routes\<close>

definition is_valid_provider_qualifier :: "string \<Rightarrow> bool" where
  "is_valid_provider_qualifier candidate \<longleftrightarrow> candidate \<noteq> [] \<and>
     list_all (\<lambda>b. is_ascii_alphanumeric b \<or> b = CHR ''-'' \<or> b = CHR ''_'') candidate"

definition request_topic_qualifier :: "string \<Rightarrow> string option" where
  "request_topic_qualifier request_topic =
     (case strip_prefix_str llm_request_generate_prefix request_topic of
        None \<Rightarrow> None
      | Some candidate \<Rightarrow> if \<not> is_valid_provider_qualifier candidate then None else Some candidate)"

section \<open>Reconciling the stored selection\<close>

datatype reconcile_outcome =
    Unchanged
  | Remapped string provider_entry
  | Cleared string

definition reconcile_active_model_in_place :: "registry_state \<Rightarrow> registry_state \<times> reconcile_outcome" where
  "reconcile_active_model_in_place s =
     (case rs_active_model_id s of
        None \<Rightarrow> (s, Unchanged)
      | Some i \<Rightarrow>
          if rs_providers s = [] then (s, Unchanged)
          else if list_ex (\<lambda>p. pe_id p = i) (rs_providers s) then (s, Unchanged)
          else (case find (\<lambda>p. qualifier_of (pe_id p) = i) (rs_providers s) of
              Some first \<Rightarrow> (s\<lparr>rs_active_model_id := Some (pe_id first)\<rparr>, Remapped i first)
            | None \<Rightarrow> (s\<lparr>rs_active_model_id := None\<rparr>, Cleared i)))"

definition auto_select_defaults_in_place :: "registry_state \<Rightarrow> registry_state \<times> provider_entry option" where
  "auto_select_defaults_in_place s =
     (case rs_active_model_id s of
        Some _ \<Rightarrow> (s, None)
      | None \<Rightarrow> (case rs_providers s of
          [] \<Rightarrow> (s, None)
        | provider # _ \<Rightarrow> (s\<lparr>rs_active_model_id := Some (pe_id provider)\<rparr>, Some provider)))"

section \<open>The \<open>models\<close> command\<close>

definition opt_u64_json :: "u64 option \<Rightarrow> raw_json" where
  "opt_u64_json n = (case n of None \<Rightarrow> RNull | Some k \<Rightarrow> RU64 k)"

definition entry_to_json :: "provider_entry \<Rightarrow> raw_json" where
  "entry_to_json e = RObj [(''id'', RStr (pe_id e)), (''description'', RStr (pe_description e)),
     (''request_topic'', RStr (pe_request_topic e)), (''stream_topic'', RStr (pe_stream_topic e)),
     (''capabilities'', RArr (map RStr (pe_capabilities e))),
     (''context_window'', opt_u64_json (pe_context_window e)),
     (''max_output_tokens'', opt_u64_json (pe_max_output_tokens e))]"

definition newline :: string where "newline = [char_of (10 :: nat)]"

definition render_list_table :: "provider_entry list \<Rightarrow> string option \<Rightarrow> string" where
  "render_list_table entries active =
     (if entries = [] then ''No LLM models available''
      else butlast (concat (map (\<lambda>e.
        (if active = Some (pe_id e) then ''* '' else ''  '') @ pe_id e @ ''  '' @ pe_description e @ newline)
        entries)))"

definition ok_output :: "string \<Rightarrow> raw_json" where
  "ok_output output = RObj [(''exit_code'', RU64 0), (''output'', RStr output)]"

definition err_output :: "string \<Rightarrow> raw_json" where
  "err_output e = RObj [(''exit_code'', RU64 1), (''error'', RStr e)]"

text \<open>\<open>to_text\<close> is \<open>serde_json\<close>'s \<open>Value::to_string\<close>.\<close>

definition models_result :: "(raw_json \<Rightarrow> string) \<Rightarrow> string list \<Rightarrow> provider_entry list \<Rightarrow> string option \<Rightarrow> raw_json" where
  "models_result to_text args entries active =
     (let sub = first_arg args in
      if sub = ''list'' then
        (if wants_json args then ok_output (to_text (RArr (map entry_to_json entries)))
         else ok_output (render_list_table entries active))
      else if sub = ''current'' then
        (if wants_json args then
           ok_output (to_text (RObj [(''active'',
             case active of None \<Rightarrow> RNull | Some i \<Rightarrow>
               (case find (\<lambda>e. pe_id e = i) entries of None \<Rightarrow> RNull | Some e \<Rightarrow> entry_to_json e))]))
         else ok_output (case active of None \<Rightarrow> ''none'' | Some i \<Rightarrow> i))
      else if sub = ''set'' then
        (case second_arg args of
           None \<Rightarrow> err_output ''usage: models set <id>''
         | Some input \<Rightarrow>
            (case resolve_selection input entries of
               Ok e \<Rightarrow> ok_output (''active model set to '' @ pe_id e)
             | Err e \<Rightarrow> err_output (resolve_error_message e)))
      else if sub = ''unset'' then ok_output ''active model cleared''
      else if sub = [] then err_output ''usage: models <list|current|set|unset> [--json]''
      else err_output (''unknown subcommand '' @ [CHR 0x27] @ sub @ [CHR 0x27] @
        ''; usage: models <list|current|set|unset> [--json]''))"

section \<open>Facts\<close>

lemma split_canonical:
  "CHR '':'' \<in> set i \<Longrightarrow> qualifier_of i @ '':'' @ bare_model_of i = i"
  by (cases "split_once (CHR '':'') i")
     (auto simp: qualifier_of_def bare_model_of_def split_once_None_iff split_once_Some_iff)

lemma qualifier_no_colon: "CHR '':'' \<notin> set (qualifier_of i)"
  by (auto simp: qualifier_of_def split_once_None_iff split_once_Some_iff split: option.splits)

lemma qualified_is_exact:
  assumes "split_once (CHR '':'') input = Some (cap, model)" and "CHR '':'' \<in> set i"
    and "qualifier_of i = cap" and "bare_model_of i = model"
  shows "i = input"
  using split_canonical [OF assms(2)] assms by (auto simp: split_once_Some_iff)

lemma find_eq_filter_distinct:
  assumes "distinct (map f xs)" and "x \<in> set xs" and "f x = v"
  shows "find (\<lambda>y. f y = v) xs = Some x"
  using assms by (induction xs) auto

lemma find_in: "find P xs = Some x \<Longrightarrow> x \<in> set xs \<and> P x"
  by (auto simp: find_Some_iff)

definition canonical_entries :: "provider_entry list \<Rightarrow> bool" where
  "canonical_entries es \<longleftrightarrow> distinct (map pe_id es) \<and> (\<forall>e \<in> set es. CHR '':'' \<in> set (pe_id e))"

lemma qualified_pass_empty:
  assumes "canonical_entries es" and "find (\<lambda>e. pe_id e = input) es = None"
    and "split_once (CHR '':'') input = Some (cap, model)"
  shows "filter (\<lambda>e. qualifier_of (pe_id e) = cap \<and> bare_model_of (pe_id e) = model) es = []"
proof -
  have "\<not> (qualifier_of (pe_id e) = cap \<and> bare_model_of (pe_id e) = model)" if "e \<in> set es" for e
    using that assms qualified_is_exact [OF assms(3)] by (auto simp: canonical_entries_def find_None_iff)
  then show ?thesis by (simp add: filter_empty_conv)
qed

lemma resolve_canonical:
  assumes "canonical_entries es"
  shows "resolve_selection input es =
    (case find (\<lambda>e. pe_id e = input) es of
       Some e \<Rightarrow> Ok e
     | None \<Rightarrow> (case filter (\<lambda>e. bare_model_of (pe_id e) = input) es of
         [] \<Rightarrow> Err (Unknown input)
       | [one] \<Rightarrow> Ok one
       | many \<Rightarrow> Err (Ambiguous (map pe_id many))))"
  using qualified_pass_empty [OF assms]
  by (auto simp: resolve_selection_def split: option.splits list.splits prod.splits)

lemma resolve_selection_member: "resolve_selection input es = Ok e \<Longrightarrow> e \<in> set es"
proof -
  have pick: "e \<in> set es" if "filter P es = [e]" for P
    using that by (metis filter_is_subset list.set_intros(1) subsetD)
  assume "resolve_selection input es = Ok e"
  then show ?thesis
    by (auto simp: resolve_selection_def dest: find_in pick split: option.splits list.splits prod.splits)
qed

definition heal :: "registry_state \<Rightarrow> registry_state" where
  "heal s = fst (auto_select_defaults_in_place (fst (reconcile_active_model_in_place s)))"

lemma heal_selects:
  "rs_providers (heal s) = rs_providers s \<and> (rs_providers s = [] \<longrightarrow> heal s = s) \<and>
     (rs_providers s \<noteq> [] \<longrightarrow> (\<exists>p \<in> set (rs_providers s). rs_active_model_id (heal s) = Some (pe_id p)))"
  by (auto simp: heal_def reconcile_active_model_in_place_def auto_select_defaults_in_place_def
      list_ex_iff dest: find_in split: option.splits list.splits) metis+

definition demo_entry :: "string \<Rightarrow> provider_entry" where
  "demo_entry i = \<lparr>pe_id = i, pe_description = ''demo'', pe_request_topic = ''llm.v1.request.generate.a'',
     pe_stream_topic = ''s'', pe_capabilities = [], pe_context_window = None, pe_max_output_tokens = None\<rparr>"

section \<open>Properties\<close>

text \<open>On canonical entries (distinct ids of the form capsule:model, as discovery produces them) a selection
  binds an entry exactly when its id is the input, or no id is and it is the only entry whose bare model is the
  input; so an exact id always wins and an ambiguous bare name never binds.\<close>

lemma resolve_selection_binds:
  assumes "canonical_entries es"
  shows "resolve_selection input es = Ok e \<longleftrightarrow> e \<in> set es \<and>
    (pe_id e = input \<or>
     (\<forall>e' \<in> set es. pe_id e' \<noteq> input) \<and> bare_model_of (pe_id e) = input \<and>
       (\<forall>e' \<in> set es. bare_model_of (pe_id e') = input \<longrightarrow> e' = e))"
proof (cases "find (\<lambda>e. pe_id e = input) es")
  case (Some x)
  then have x: "x \<in> set es" "pe_id x = input" by (auto simp: find_Some_iff)
  have unique: "e = x" if "e \<in> set es" "pe_id e = input" for e
    using that Some find_eq_filter_distinct [of pe_id es e input] assms by (simp add: canonical_entries_def)
  have "resolve_selection input es = Ok e \<longleftrightarrow> e = x"
    by (auto simp: resolve_canonical [OF assms] Some)
  then show ?thesis using x unique by blast
next
  case None
  let ?P = "\<lambda>e. bare_model_of (pe_id e) = input"
  have none: "\<forall>e \<in> set es. pe_id e \<noteq> input" using None by (auto simp: find_None_iff)
  have "distinct es" using assms by (simp add: canonical_entries_def distinct_map)
  then have d: "distinct (filter ?P es)" by simp
  have set: "set (filter ?P es) = {e \<in> set es. ?P e}" by simp
  show ?thesis
  proof (cases "filter ?P es" rule: remdups_adj.cases)
    case 1
    then have "\<forall>e \<in> set es. \<not> ?P e" by (simp add: filter_empty_conv)
    with none 1 show ?thesis by (simp add: resolve_canonical [OF assms] None)
  next
    case (2 x)
    then have "{e \<in> set es. ?P e} = {x}" using set by simp
    with none 2 show ?thesis by (auto simp: resolve_canonical [OF assms] None)
  next
    case (3 x y zs)
    then have "x \<noteq> y" "x \<in> {e \<in> set es. ?P e}" "y \<in> {e \<in> set es. ?P e}"
      using d set by (auto simp del: set_filter)
    with none 3 show ?thesis by (auto simp: resolve_canonical [OF assms] None)
  qed
qed

lemma resolve_selection_binds_witness:
  "resolve_selection ''m'' [demo_entry ''a:m'', demo_entry ''a:n''] = Ok (demo_entry ''a:m'')"
proof -
  have "canonical_entries [demo_entry ''a:m'', demo_entry ''a:n'']" by code_simp
  moreover have "bare_model_of ''a:m'' = ''m''" "bare_model_of ''a:n'' = ''n''" by code_simp+
  ultimately show ?thesis
    using resolve_selection_binds [of "[demo_entry ''a:m'', demo_entry ''a:n'']" "''m''" "demo_entry ''a:m''"]
    by (simp add: demo_entry_def)
qed

text \<open>The qualified pass of the resolver is dead on canonical entries: whether it runs or not, the result is that
  of the exact and the bare pass alone.\<close>

theorem qualified_pass_redundant:
  assumes "canonical_entries es" and "find (\<lambda>e. pe_id e = input) es = None"
    and "filter (\<lambda>e. bare_model_of (pe_id e) = input) es = []"
  shows "resolve_selection input es = Err (Unknown input)"
  by (simp add: resolve_canonical [OF assms(1)] assms(2,3))

theorem qualified_pass_redundant_witness:
  "resolve_selection ''a:o'' [demo_entry ''a:m''] = Err (Unknown ''a:o'')"
proof (rule qualified_pass_redundant)
  show "canonical_entries [demo_entry ''a:m'']" by code_simp
  show "find (\<lambda>e. pe_id e = ''a:o'') [demo_entry ''a:m''] = None" by code_simp
  show "filter (\<lambda>e. bare_model_of (pe_id e) = ''a:o'') [demo_entry ''a:m''] = []" by code_simp
qed

text \<open>Reconciling and then auto-selecting heals any stored selection: the providers are untouched, with no
  providers nothing changes, and with providers the active model is afterwards one of theirs, the same one as
  before when it was still offered; a second run changes nothing.\<close>

lemma heal_active_model:
  "rs_providers (heal s) = rs_providers s \<and>
   (if rs_providers s = [] then heal s = s
    else \<exists>p \<in> set (rs_providers s). rs_active_model_id (heal s) = Some (pe_id p) \<and>
      (\<forall>q \<in> set (rs_providers s). rs_active_model_id s = Some (pe_id q) \<longrightarrow> heal s = s)) \<and>
   heal (heal s) = heal s"
proof -
  have fix_point: "heal t = t" if "\<exists>p \<in> set (rs_providers t). rs_active_model_id t = Some (pe_id p)" for t
    using that by (auto simp: heal_def reconcile_active_model_in_place_def auto_select_defaults_in_place_def
        list_ex_iff)
  note cases = heal_selects [of s]
  show ?thesis
  proof (cases "rs_providers s = []")
    case True
    with cases show ?thesis by simp
  next
    case False
    with cases have "heal (heal s) = heal s" by (intro fix_point) auto
    with cases False fix_point [of s] show ?thesis by auto
  qed
qed

lemma heal_active_model_witness:
  "heal \<lparr>rs_providers = [demo_entry ''a:m'', demo_entry ''b:n''], rs_active_model_id = Some ''b:n''\<rparr> =
     \<lparr>rs_providers = [demo_entry ''a:m'', demo_entry ''b:n''], rs_active_model_id = Some ''b:n''\<rparr>"
  using heal_active_model [of "\<lparr>rs_providers = [demo_entry ''a:m'', demo_entry ''b:n''], rs_active_model_id = Some ''b:n''\<rparr>"]
  by (simp add: demo_entry_def)

text \<open>A route topic yields a qualifier exactly when it is the generate prefix followed by one segment of letters,
  digits, hyphens and underscores; such a qualifier has no topic separator, wildcard or colon.\<close>

theorem request_topic_qualifier_exact:
  "request_topic_qualifier topic = Some q \<longleftrightarrow>
     topic = ''llm.v1.request.generate.'' @ q \<and> q \<noteq> [] \<and>
     (\<forall>b \<in> set q. is_ascii_alphanumeric b \<or> b \<in> {CHR ''-'', CHR ''_''})"
proof -
  have "request_topic_qualifier topic = Some q \<longleftrightarrow>
      strip_prefix_str llm_request_generate_prefix topic = Some q \<and> is_valid_provider_qualifier q"
    by (auto simp: request_topic_qualifier_def split: option.splits)
  then show ?thesis
    by (auto simp: strip_prefix_str_Some is_valid_provider_qualifier_def llm_request_generate_prefix_def list_all_iff)
qed

theorem request_topic_qualifier_exact_witness:
  "request_topic_qualifier ''llm.v1.request.generate.open-ai'' = Some ''open-ai''"
  using request_topic_qualifier_exact [of "''llm.v1.request.generate.open-ai''" "''open-ai''"]
  by (simp add: is_ascii_alphanumeric_def)

text \<open>Skipping discovery never changes an answer: when \<open>subcommand_needs_discovery\<close> says no, the body of the
  reply is the same for all entries.\<close>

theorem discovery_skipped_safely:
  assumes "\<not> subcommand_needs_discovery args"
  shows "models_result to_text args entries active = models_result to_text args [] active"
  using assms by (auto simp: subcommand_needs_discovery_def models_result_def Let_def split: option.splits)

theorem discovery_skipped_safely_witness:
  "models_result (\<lambda>_. []) [''current''] [demo_entry ''a:m''] (Some ''a:m'') =
     models_result (\<lambda>_. []) [''current''] [] (Some ''a:m'')"
proof (rule discovery_skipped_safely)
  show "\<not> subcommand_needs_discovery [''current'']" by code_simp
qed

end
