(* ===== verification/Registry.thy ===== *)
theory Registry
  imports Selection Unicode
begin

text \<open>
  \<open>capsules/capsule-registry/src/lib.rs\<close>: the registry capsule as a machine. Its persistent state is one
  cell of the principal's key-value store; a discovery window yields the messages that providers sent
  (\<open>wd_found\<close> lists them window by window); \<open>wd_saves\<close> lists what happens to each save of the state: whether it
  serializes, what another writer stores in the middle of it, which calls of the host fail; what the capsule publishes
  is appended to \<open>wd_out\<close>. \<open>serde_json\<close>'s parser and accessors are the fields of \<open>json_api\<close>. Log lines are not modelled;
  reading the state does not fail, and a stored state reads back as it was written, so that equal states stand for
  equal bytes.
\<close>

section \<open>The outside\<close>

record 'j json_api =
  ja_parse :: "string \<Rightarrow> 'j option"
  ja_get :: "'j \<Rightarrow> string \<Rightarrow> 'j option"
  ja_str :: "'j \<Rightarrow> string option"
  ja_array :: "'j \<Rightarrow> 'j list option"
  ja_entry :: "'j \<Rightarrow> provider_entry option"
  ja_text :: "raw_json \<Rightarrow> string"

record ipc_message =
  mg_topic :: string
  mg_payload :: string

datatype publication =
    PubProviders "provider_entry list"
  | PubActive "provider_entry option"
  | PubModelChanged provider_entry
  | PubModelCleared
  | PubSetActive "(string + provider_entry)" "string option"
  | PubSelection "provider_entry list"
  | PubCliResult string raw_json

text \<open>One save: \<open>st_other\<close> is what another writer leaves in the cell between the reading of the expected value and the
  swap, if one comes in between.\<close>

record save_turn =
  st_serializes :: bool
  st_read_fails :: bool
  st_other :: "registry_state option option"
  st_cas_fails :: bool
  st_set_fails :: bool

definition quiet_save :: save_turn where
  "quiet_save = \<lparr>st_serializes = True, st_read_fails = False, st_other = None, st_cas_fails = False, st_set_fails = False\<rparr>"

record registry_world =
  wd_cell :: "registry_state option"
  wd_saves :: "save_turn list"
  wd_found :: "ipc_message list list"
  wd_out :: "publication list"

definition publish :: "publication \<Rightarrow> registry_world \<Rightarrow> registry_world" where
  "publish p w = w\<lparr>wd_out := wd_out w @ [p]\<rparr>"

section \<open>Persistence\<close>

definition load_state :: "registry_world \<Rightarrow> registry_state" where
  "load_state w = (case wd_cell w of None \<Rightarrow> registry_default | Some s \<Rightarrow> s)"

text \<open>\<open>save_state\<close> compares with the value it has just read itself (\<open>expected\<close>; a failed read counts as an absent
  value), not with the value its caller loaded; \<open>found\<close> is what the cell holds when the compare-and-swap runs. A lost
  swap is dropped, and a failed one falls back to a plain write. A save past the listed ones is undisturbed.\<close>

definition cas_write :: "save_turn \<Rightarrow> registry_state option \<Rightarrow> registry_state option \<Rightarrow> registry_state \<Rightarrow> registry_state option" where
  "cas_write t expected found new =
     (if st_cas_fails t then (if st_set_fails t then found else Some new)
      else if found = expected then Some new else found)"

definition save_once :: "save_turn \<Rightarrow> registry_state \<Rightarrow> registry_state option \<Rightarrow> registry_state option" where
  "save_once t s cell =
     (let found = (case st_other t of None \<Rightarrow> cell | Some other \<Rightarrow> other) in
      if \<not> st_serializes t then found
      else let expected = (if st_read_fails t then None else cell) in cas_write t expected found s)"

definition save_state :: "registry_state \<Rightarrow> registry_world \<Rightarrow> registry_world" where
  "save_state s w =
     (case wd_saves w of
        [] \<Rightarrow> w\<lparr>wd_cell := save_once quiet_save s (wd_cell w)\<rparr>
      | t # turns \<Rightarrow> w\<lparr>wd_cell := save_once t s (wd_cell w), wd_saves := turns\<rparr>)"

section \<open>Discovery\<close>

definition stamp_entry :: "provider_entry \<Rightarrow> provider_entry option" where
  "stamp_entry p = (case request_topic_qualifier (pe_request_topic p) of
     None \<Rightarrow> None
   | Some capsule \<Rightarrow> Some (p\<lparr>pe_id := capsule @ '':'' @ pe_id p\<rparr>))"

definition stamp_message_providers :: "'j json_api \<Rightarrow> string \<Rightarrow> provider_entry list" where
  "stamp_message_providers A payload =
     (case ja_parse A payload of None \<Rightarrow> [] | Some v \<Rightarrow>
      case Option.bind (ja_get A v ''providers'') (ja_array A) of None \<Rightarrow> [] | Some arr \<Rightarrow>
      List.map_filter (\<lambda>entry. Option.bind (ja_entry A entry) stamp_entry) arr)"

fun dedupe_from :: "string set \<Rightarrow> provider_entry list \<Rightarrow> provider_entry list" where
  "dedupe_from seen [] = []"
| "dedupe_from seen (p # ps) =
     (if pe_id p \<in> seen then dedupe_from seen ps else p # dedupe_from (insert (pe_id p) seen) ps)"

definition dedupe_providers_by_id :: "provider_entry list \<Rightarrow> provider_entry list" where
  "dedupe_providers_by_id ps = dedupe_from {} ps"

definition discover_providers :: "'j json_api \<Rightarrow> registry_world \<Rightarrow> provider_entry list \<times> registry_world" where
  "discover_providers A w = (case wd_found w of
     [] \<Rightarrow> ([], w)
   | window # rest \<Rightarrow>
       (dedupe_providers_by_id (concat (map (\<lambda>m. stamp_message_providers A (mg_payload m)) window)),
        w\<lparr>wd_found := rest\<rparr>))"

section \<open>Reconcile and auto-select with persistence\<close>

definition reconcile_active_model :: "registry_state \<times> registry_world \<Rightarrow> registry_state \<times> registry_world" where
  "reconcile_active_model = (\<lambda>(s, w).
     case reconcile_active_model_in_place s of
       (s', Unchanged) \<Rightarrow> (s', w)
     | (s', Remapped _ e) \<Rightarrow> (s', publish (PubModelChanged e) (save_state s' w))
     | (s', Cleared _) \<Rightarrow> (s', publish PubModelCleared (save_state s' w)))"

definition auto_select_defaults :: "registry_state \<times> registry_world \<Rightarrow> registry_state \<times> registry_world" where
  "auto_select_defaults = (\<lambda>(s, w).
     case auto_select_defaults_in_place s of
       (s', None) \<Rightarrow> (s', w)
     | (s', Some e) \<Rightarrow> (s', publish (PubModelChanged e) (save_state s' w)))"

section \<open>Handlers\<close>

definition handle_get_providers :: "'j json_api \<Rightarrow> registry_world \<Rightarrow> registry_world" where
  "handle_get_providers A w =
     (case discover_providers A w of (found, w1) \<Rightarrow>
      let s = load_state w1 in
      if found \<noteq> [] then
        (let s' = s\<lparr>rs_providers := found\<rparr>
         in publish (PubProviders (rs_providers s')) (save_state s' w1))
      else publish (PubProviders (rs_providers s)) w1)"

text \<open>The step shared by the handlers: discover when no provider is cached, and cache what was found.\<close>

definition ensure_providers :: "'j json_api \<Rightarrow> registry_state \<times> registry_world \<Rightarrow> registry_state \<times> registry_world" where
  "ensure_providers A = (\<lambda>(s, w).
     if rs_providers s = [] then
       (case discover_providers A w of (found, w1) \<Rightarrow>
        if found \<noteq> [] then (let s' = s\<lparr>rs_providers := found\<rparr> in (s', save_state s' w1)) else (s, w1))
     else (s, w))"

definition active_entry :: "registry_state \<Rightarrow> provider_entry option" where
  "active_entry s = Option.bind (rs_active_model_id s) (\<lambda>i. find (\<lambda>p. pe_id p = i) (rs_providers s))"

definition handle_get_active_model :: "'j json_api \<Rightarrow> registry_world \<Rightarrow> registry_world" where
  "handle_get_active_model A w =
     (case auto_select_defaults (reconcile_active_model (ensure_providers A (load_state w, w))) of
        (s, w') \<Rightarrow> publish (PubActive (active_entry s)) w')"

definition bind_selection :: "string \<Rightarrow> string option \<Rightarrow> registry_state \<times> registry_world \<Rightarrow> registry_world" where
  "bind_selection model_id corr_id = (\<lambda>(s, w).
     case resolve_selection model_id (rs_providers s) of
       Ok e \<Rightarrow> publish (PubSetActive (Ok e) corr_id) (publish (PubModelChanged e)
         (save_state (s\<lparr>rs_active_model_id := Some (pe_id e)\<rparr>) w))
     | Err err \<Rightarrow> publish (PubSetActive (Err (resolve_error_message err)) corr_id) w)"

definition set_active_model_by_id :: "'j json_api \<Rightarrow> string \<Rightarrow> string option \<Rightarrow> registry_world \<Rightarrow> registry_world" where
  "set_active_model_by_id A model_id corr_id w =
     (let s = load_state w in
      bind_selection model_id corr_id
        (if rs_providers s = []
         then (case discover_providers A w of (found, w1) \<Rightarrow> (s\<lparr>rs_providers := found\<rparr>, w1))
         else (s, w)))"

definition extract_request_field :: "'j json_api \<Rightarrow> 'j \<Rightarrow> string \<Rightarrow> string option" where
  "extract_request_field A payload key =
     (case Option.bind (Option.bind (ja_get A payload ''data'') (\<lambda>d. ja_get A d key)) (ja_str A) of
        Some v \<Rightarrow> Some v
      | None \<Rightarrow> Option.bind (ja_get A payload key) (ja_str A))"

definition handle_set_active_model :: "'j json_api \<Rightarrow> 'j \<Rightarrow> registry_world \<Rightarrow> registry_world" where
  "handle_set_active_model A payload w =
     (let corr_id = extract_request_field A payload ''corr_id'' in
      case extract_request_field A payload ''model_id'' of
        None \<Rightarrow> publish (PubSetActive (Err ''missing model_id'') corr_id) w
      | Some model_id \<Rightarrow> set_active_model_by_id A model_id corr_id w)"

definition emit_model_selection :: "'j json_api \<Rightarrow> registry_world \<Rightarrow> registry_world" where
  "emit_model_selection A w =
     (case discover_providers A w of (found, w1) \<Rightarrow>
      let s = load_state w1;
          (s1, w2) = (if found \<noteq> [] then (let s' = s\<lparr>rs_providers := found\<rparr> in (s', save_state s' w1)) else (s, w1))
      in if rs_providers s1 = [] then w2 else publish (PubSelection (rs_providers s1)) w2)"

section \<open>The \<open>models\<close> verb\<close>

definition cli_result_topic_prefix :: string where
  "cli_result_topic_prefix = ''cli.v1.command.result.''"

definition is_valid_req_id :: "string \<Rightarrow> bool" where
  "is_valid_req_id req_id \<longleftrightarrow> req_id \<noteq> [] \<and> length req_id \<le> 64 \<and>
     list_all (\<lambda>b. is_lower_hex b \<or> b = CHR ''-'') req_id"

definition is_models_command :: "'j json_api \<Rightarrow> 'j \<Rightarrow> bool" where
  "is_models_command A payload \<longleftrightarrow> Option.bind (ja_get A payload ''command'') (ja_str A) = Some ''models''"

definition run_args :: "'j json_api \<Rightarrow> 'j \<Rightarrow> string list" where
  "run_args A payload = (case Option.bind (ja_get A payload ''args'') (ja_array A) of
     None \<Rightarrow> [] | Some arr \<Rightarrow> List.map_filter (ja_str A) arr)"

definition succeeded :: "raw_json \<Rightarrow> bool" where
  "succeeded body = (case body of RObj ((_, RU64 c) # _) \<Rightarrow> c = 0 | _ \<Rightarrow> False)"

definition cli_run :: "'j json_api \<Rightarrow> string \<Rightarrow> string list \<Rightarrow> registry_world \<Rightarrow> registry_world" where
  "cli_run A req_id args w =
     (if \<not> is_known_subcommand (first_arg args)
      then publish (PubCliResult (cli_result_topic_prefix @ req_id) (models_result (ja_text A) args [] None)) w
      else
        (case reconcile_active_model
            (if subcommand_needs_discovery args then ensure_providers A (load_state w, w)
             else (load_state w, w)) of (s, w1) \<Rightarrow>
         let body = models_result (ja_text A) args (rs_providers s) (rs_active_model_id s);
             w2 = (if first_arg args = ''set'' \<and> succeeded body then
                     (case second_arg args of Some input \<Rightarrow> set_active_model_by_id A input None w1 | None \<Rightarrow> w1)
                   else if first_arg args = ''unset'' \<and> rs_active_model_id s \<noteq> None then
                     publish PubModelCleared (save_state (s\<lparr>rs_active_model_id := None\<rparr>) w1)
                   else w1)
         in publish (PubCliResult (cli_result_topic_prefix @ req_id) body) w2))"

definition dispatch_cli_run :: "'j json_api \<Rightarrow> ipc_message \<Rightarrow> registry_world \<Rightarrow> registry_world" where
  "dispatch_cli_run A m w =
     (case ja_parse A (mg_payload m) of None \<Rightarrow> w | Some payload \<Rightarrow>
      case Option.bind (ja_get A payload ''req_id'') (ja_str A) of None \<Rightarrow> w | Some req_id \<Rightarrow>
      if \<not> is_valid_req_id req_id then w
      else if \<not> is_models_command A payload then w
      else cli_run A req_id (run_args A payload) w)"

section \<open>Dispatch\<close>

definition dispatch_registry :: "'j json_api \<Rightarrow> ipc_message \<Rightarrow> registry_world \<Rightarrow> registry_world" where
  "dispatch_registry A m w =
     (if prefix ''registry.v1.response.'' (mg_topic m) \<or> mg_topic m = ''registry.v1.active_model_changed'' then w
      else if mg_topic m = ''registry.v1.get_providers'' then handle_get_providers A w
      else if mg_topic m = ''registry.v1.get_active_model'' then handle_get_active_model A w
      else if mg_topic m = ''registry.v1.set_active_model'' then
        (case ja_parse A (mg_payload m) of None \<Rightarrow> w | Some payload \<Rightarrow> handle_set_active_model A payload w)
      else w)"

definition dispatch_command :: "'j json_api \<Rightarrow> ipc_message \<Rightarrow> registry_world \<Rightarrow> registry_world" where
  "dispatch_command A m w =
     (case ja_parse A (mg_payload m) of None \<Rightarrow> w | Some payload \<Rightarrow>
      let body = (case Option.bind (ja_get A payload ''text'') (ja_str A) of None \<Rightarrow> [] | Some t \<Rightarrow> t);
          parts = split_whitespace body
      in if first_arg parts = ''/models'' then
           (case second_arg parts of
              Some model_id \<Rightarrow> set_active_model_by_id A model_id None w
            | None \<Rightarrow> emit_model_selection A w)
         else w)"

definition dispatch_selection :: "'j json_api \<Rightarrow> ipc_message \<Rightarrow> registry_world \<Rightarrow> registry_world" where
  "dispatch_selection A m w =
     (case ja_parse A (mg_payload m) of None \<Rightarrow> w | Some payload \<Rightarrow>
      case extract_request_field A payload ''selected_id'' of
        None \<Rightarrow> w
      | Some model_id \<Rightarrow> set_active_model_by_id A model_id None w)"

definition startup :: "'j json_api \<Rightarrow> registry_world \<Rightarrow> registry_world" where
  "startup A w =
     (case discover_providers A w of (found, w1) \<Rightarrow>
      let s = load_state w1;
          (s1, w2) = (if found \<noteq> [] then (let s' = s\<lparr>rs_providers := found\<rparr> in (s', save_state s' w1)) else (s, w1))
      in snd (auto_select_defaults (reconcile_active_model (s1, w2))))"

definition reload :: "'j json_api \<Rightarrow> registry_world \<Rightarrow> registry_world" where
  "reload A w =
     (case discover_providers A w of (found, w1) \<Rightarrow>
      let s = load_state w1 in
      if found \<noteq> [] then
        (let s' = s\<lparr>rs_providers := found\<rparr>
         in snd (auto_select_defaults (reconcile_active_model (s', save_state s' w1))))
      else w1)"

text \<open>Only the kernel's own announcement (by its source id) makes the capsule discover again.\<close>

definition kernel_uuid :: string where
  "kernel_uuid = ''00000000-0000-0000-0000-000000000000''"

definition has_kernel_message :: "string list \<Rightarrow> bool" where
  "has_kernel_message sources \<longleftrightarrow> kernel_uuid \<in> set sources"

datatype registry_event =
    OnRegistry ipc_message
  | OnCommand ipc_message
  | OnRun ipc_message
  | OnSelection ipc_message
  | OnStartup
  | OnCapsulesLoaded "string list"

fun registry_step :: "'j json_api \<Rightarrow> registry_world \<Rightarrow> registry_event \<Rightarrow> registry_world" where
  "registry_step A w (OnRegistry m) = dispatch_registry A m w"
| "registry_step A w (OnCommand m) = dispatch_command A m w"
| "registry_step A w (OnRun m) = dispatch_cli_run A m w"
| "registry_step A w (OnSelection m) = dispatch_selection A m w"
| "registry_step A w OnStartup = startup A w"
| "registry_step A w (OnCapsulesLoaded sources) = (if has_kernel_message sources then reload A w else w)"

section \<open>Facts\<close>

lemma quiet_save_once [simp]: "save_once quiet_save s cell = Some s"
  by (simp add: save_once_def cas_write_def quiet_save_def)

lemma load_save [simp]: "wd_saves w = [] \<Longrightarrow> load_state (save_state s w) = s"
  by (simp add: load_state_def save_state_def)

text \<open>A save leaves the new state, the old one, or that of another writer.\<close>

lemma save_once_result: "save_once t s cell \<in> {Some s, cell} \<union> set_option (st_other t)"
  by (auto simp: save_once_def cas_write_def Let_def split: option.splits if_splits)

lemma save_state_result:
  "wd_cell (save_state s w) \<in> {Some s, wd_cell w} \<union> (\<Union>t \<in> set (wd_saves w). set_option (st_other t))"
  "set (wd_saves (save_state s w)) \<subseteq> set (wd_saves w)"
  using save_once_result [of _ s "wd_cell w"] by (auto simp: save_state_def split: list.splits)

lemma load_publish [simp]: "load_state (publish p w) = load_state w"
  by (simp add: load_state_def publish_def)

lemma cell_publish [simp]: "wd_cell (publish p w) = wd_cell w"
  by (simp add: publish_def)

lemma out_publish [simp]: "wd_out (publish p w) = wd_out w @ [p]"
  by (simp add: publish_def)

lemma out_save [simp]: "wd_out (save_state s w) = wd_out w"
  by (simp add: save_state_def split: list.split)

lemma saves_simps [simp]:
  "wd_saves (publish p w) = wd_saves w" "wd_saves (w\<lparr>wd_found := f\<rparr>) = wd_saves w"
  "wd_saves w = [] \<Longrightarrow> wd_saves (save_state s w) = []"
  by (simp_all add: publish_def save_state_def)

lemma load_found [simp]: "load_state (w\<lparr>wd_found := f\<rparr>) = load_state w"
  by (simp add: load_state_def)

lemma discover_frame:
  assumes "discover_providers A w = (found, w1)"
  shows "wd_cell w1 = wd_cell w" and "wd_out w1 = wd_out w" and "load_state w1 = load_state w" and "wd_saves w1 = wd_saves w"
  using assms by (auto simp: discover_providers_def load_state_def split: list.splits)

lemma dedupe_from_spec:
  "distinct (map pe_id (dedupe_from seen ps)) \<and> set (dedupe_from seen ps) \<subseteq> set ps \<and>
     pe_id ` set (dedupe_from seen ps) = pe_id ` set ps - seen"
  by (induction seen ps rule: dedupe_from.induct) auto

lemma stamped_colon:
  assumes "p \<in> set (stamp_message_providers A payload)"
  shows "CHR '':'' \<in> set (pe_id p)"
proof -
  have "\<exists>q. stamp_entry q = Some p"
    using assms by (auto simp: stamp_message_providers_def map_filter_def bind_eq_Some_conv
        split: option.splits)
  then show ?thesis by (auto simp: stamp_entry_def split: option.splits)
qed

lemma discover_canonical:
  assumes "discover_providers A w = (found, w1)"
  shows "canonical_entries found"
proof (cases "wd_found w")
  case Nil
  with assms show ?thesis by (simp add: discover_providers_def canonical_entries_def)
next
  case (Cons window rest)
  let ?ps = "concat (map (\<lambda>m. stamp_message_providers A (mg_payload m)) window)"
  have found: "found = dedupe_from {} ?ps"
    using assms Cons by (simp add: discover_providers_def dedupe_providers_by_id_def)
  have "CHR '':'' \<in> set (pe_id p)" if "p \<in> set ?ps" for p
    using that stamped_colon by auto
  then show ?thesis
    unfolding canonical_entries_def found using dedupe_from_spec [of "{}" ?ps] by blast
qed

lemma canonical_Nil [simp]: "canonical_entries []"
  by (simp add: canonical_entries_def)

section \<open>The invariant of the capsule\<close>

text \<open>What may be published: entries with canonical ids, and results on a topic of a validated request id.\<close>

definition canonical_id :: "provider_entry \<Rightarrow> bool" where
  "canonical_id e \<longleftrightarrow> CHR '':'' \<in> set (pe_id e)"

definition publication_ok :: "publication \<Rightarrow> bool" where
  "publication_ok p \<longleftrightarrow> (case p of
     PubProviders es \<Rightarrow> canonical_entries es
   | PubSelection es \<Rightarrow> canonical_entries es
   | PubActive a \<Rightarrow> (\<forall>e. a = Some e \<longrightarrow> canonical_id e)
   | PubModelChanged e \<Rightarrow> canonical_id e
   | PubModelCleared \<Rightarrow> True
   | PubSetActive r _ \<Rightarrow> (\<forall>e. r = Ok e \<longrightarrow> canonical_id e)
   | PubCliResult t _ \<Rightarrow> (\<exists>i. is_valid_req_id i \<and> t = cli_result_topic_prefix @ i))"

definition canonical_cell :: "registry_state option \<Rightarrow> bool" where
  "canonical_cell cell \<longleftrightarrow> (\<forall>s. cell = Some s \<longrightarrow> canonical_entries (rs_providers s))"

definition canonical_turn :: "save_turn \<Rightarrow> bool" where
  "canonical_turn t \<longleftrightarrow> (\<forall>cell. st_other t = Some cell \<longrightarrow> canonical_cell cell)"

definition registry_ok :: "registry_world \<Rightarrow> bool" where
  "registry_ok w \<longleftrightarrow> canonical_cell (wd_cell w) \<and> (\<forall>p \<in> set (wd_out w). publication_ok p) \<and>
     (\<forall>t \<in> set (wd_saves w). canonical_turn t)"

lemma canonical_load: "registry_ok w \<Longrightarrow> canonical_entries (rs_providers (load_state w))"
  by (auto simp: registry_ok_def canonical_cell_def load_state_def registry_default_def split: option.split)

lemma canonical_member: "canonical_entries es \<Longrightarrow> e \<in> set es \<Longrightarrow> canonical_id e"
  by (simp add: canonical_entries_def canonical_id_def)

text \<open>The state a handler works on: its providers are canonical, and so is the world.\<close>

definition working :: "registry_state \<times> registry_world \<Rightarrow> bool" where
  "working sw \<longleftrightarrow> canonical_entries (rs_providers (fst sw)) \<and> registry_ok (snd sw)"

lemma registry_ok_publish:
  "registry_ok w \<Longrightarrow> publication_ok p \<Longrightarrow> registry_ok (publish p w)"
  by (auto simp: registry_ok_def)

lemma registry_ok_save:
  "registry_ok w \<Longrightarrow> canonical_entries (rs_providers s) \<Longrightarrow> registry_ok (save_state s w)"
proof -
  assume ok: "registry_ok w" and s: "canonical_entries (rs_providers s)"
  then have "canonical_cell cell" if "cell \<in> {Some s, wd_cell w} \<union> (\<Union>t \<in> set (wd_saves w). set_option (st_other t))" for cell
    using that by (auto simp: registry_ok_def canonical_turn_def) (auto simp: canonical_cell_def)
  with save_state_result [of s w] ok show ?thesis by (auto simp: registry_ok_def)
qed

lemma registry_ok_discover: "registry_ok w \<Longrightarrow> discover_providers A w = (found, w1) \<Longrightarrow> registry_ok w1"
  using discover_frame [of A w found w1] by (simp add: registry_ok_def)

lemma registry_ok_load: "registry_ok w \<Longrightarrow> working (load_state w, w)"
  by (simp add: working_def canonical_load)

lemma in_place_providers:
  "rs_providers (fst (reconcile_active_model_in_place s)) = rs_providers s"
  "rs_providers (fst (auto_select_defaults_in_place s)) = rs_providers s"
  by (auto simp: reconcile_active_model_in_place_def auto_select_defaults_in_place_def
      split: option.splits list.splits)

lemma reconcile_keeps: "working sw \<Longrightarrow> working (reconcile_active_model sw)"
proof -
  assume w: "working sw"
  obtain s v where sw: "sw = (s, v)" by (cases sw)
  obtain s' out where r: "reconcile_active_model_in_place s = (s', out)"
    by (cases "reconcile_active_model_in_place s")
  with in_place_providers(1) [of s] have same: "rs_providers s' = rs_providers s" by simp
  have "e \<in> set (rs_providers s)" if "out = Remapped i e" for i e
    using r that by (auto simp: reconcile_active_model_in_place_def dest: find_in split: option.splits if_splits)
  with w same show ?thesis
    by (cases out) (auto simp: sw reconcile_active_model_def r working_def publication_ok_def canonical_member
        intro!: registry_ok_publish registry_ok_save)
qed

lemma auto_select_keeps: "working sw \<Longrightarrow> working (auto_select_defaults sw)"
proof -
  assume w: "working sw"
  obtain s v where sw: "sw = (s, v)" by (cases sw)
  obtain s' out where r: "auto_select_defaults_in_place s = (s', out)"
    by (cases "auto_select_defaults_in_place s")
  with in_place_providers(2) [of s] have same: "rs_providers s' = rs_providers s" by simp
  have "e \<in> set (rs_providers s)" if "out = Some e" for e
    using r that by (auto simp: auto_select_defaults_in_place_def split: option.splits list.splits)
  with w same show ?thesis
    by (cases out) (auto simp: sw auto_select_defaults_def r working_def publication_ok_def canonical_member
        intro!: registry_ok_publish registry_ok_save)
qed

lemma ensure_keeps: "working sw \<Longrightarrow> working (ensure_providers A sw)"
proof -
  assume w: "working sw"
  obtain s v where sw: "sw = (s, v)" by (cases sw)
  obtain found v1 where d: "discover_providers A v = (found, v1)" by (cases "discover_providers A v")
  have "registry_ok v1" using registry_ok_discover [OF _ d] w by (simp add: working_def sw)
  with w discover_canonical [OF d] show ?thesis
    by (auto simp: working_def sw ensure_providers_def d Let_def intro!: registry_ok_save)
qed

lemma bind_keeps: "working sw \<Longrightarrow> registry_ok (bind_selection model_id corr_id sw)"
  by (cases sw) (auto simp: working_def bind_selection_def publication_ok_def canonical_member
      dest: resolve_selection_member intro!: registry_ok_publish registry_ok_save split: sum.splits)

lemma active_canonical: "canonical_entries (rs_providers s) \<Longrightarrow> active_entry s = Some e \<Longrightarrow> canonical_id e"
  by (auto simp: active_entry_def bind_eq_Some_conv canonical_member dest: find_in)

lemma set_active_keeps: "registry_ok w \<Longrightarrow> registry_ok (set_active_model_by_id A model_id corr_id w)"
proof -
  assume ok: "registry_ok w"
  obtain found w1 where d: "discover_providers A w = (found, w1)" by (cases "discover_providers A w")
  have "working ((load_state w)\<lparr>rs_providers := found\<rparr>, w1)"
    using discover_canonical [OF d] registry_ok_discover [OF ok d] by (simp add: working_def)
  then show ?thesis
    using registry_ok_load [OF ok] by (simp add: set_active_model_by_id_def Let_def d bind_keeps)
qed

lemma healed_keeps: "working sw \<Longrightarrow> working (auto_select_defaults (reconcile_active_model sw))"
  by (intro auto_select_keeps reconcile_keeps)

lemma cache_found_keeps:
  assumes "registry_ok w" and "discover_providers A w = (found, w1)"
  shows "registry_ok w1" and "working ((load_state w1)\<lparr>rs_providers := found\<rparr>,
      save_state ((load_state w1)\<lparr>rs_providers := found\<rparr>) w1)"
  using registry_ok_discover [OF assms] discover_canonical [OF assms(2)]
  by (simp_all add: working_def registry_ok_save)

lemma cli_run_keeps:
  assumes "registry_ok w" and "is_valid_req_id req_id"
  shows "registry_ok (cli_run A req_id args w)"
proof -
  have pub: "registry_ok (publish (PubCliResult (cli_result_topic_prefix @ req_id) b) v)"
    if "registry_ok v" for b v
    using that assms(2) by (auto simp: publication_ok_def intro!: registry_ok_publish)
  obtain s w1 where sw: "reconcile_active_model
      (if subcommand_needs_discovery args then ensure_providers A (load_state w, w) else (load_state w, w)) = (s, w1)"
    by (metis surj_pair)
  have "working (s, w1)"
    unfolding sw [symmetric] using assms(1) by (intro reconcile_keeps) (simp add: ensure_keeps registry_ok_load)
  then have "registry_ok w1" "canonical_entries (rs_providers s)" by (simp_all add: working_def)
  then show ?thesis
    using assms
    by (auto simp: cli_run_def sw Let_def set_active_keeps registry_ok_save pub publication_ok_def
        intro!: registry_ok_publish split: option.splits)
qed

lemma registry_step_keeps: "registry_ok w \<Longrightarrow> registry_ok (registry_step A w e)"
proof (cases e)
  case (OnRegistry m)
  assume ok: "registry_ok w"
  obtain found w1 where d: "discover_providers A w = (found, w1)" by (cases "discover_providers A w")
  have "registry_ok (handle_get_providers A w)"
    using cache_found_keeps [OF ok d] canonical_load
    by (auto simp: handle_get_providers_def d Let_def working_def publication_ok_def intro!: registry_ok_publish)
  moreover have "registry_ok (handle_get_active_model A w)"
    using healed_keeps [OF ensure_keeps [OF registry_ok_load [OF ok]], of A]
    by (auto simp: handle_get_active_model_def working_def publication_ok_def active_canonical
        intro!: registry_ok_publish split: prod.splits)
  moreover have "registry_ok (handle_set_active_model A v w)" for v
    using ok by (auto simp: handle_set_active_model_def Let_def set_active_keeps publication_ok_def
        intro!: registry_ok_publish split: option.splits)
  ultimately show ?thesis using ok by (auto simp: OnRegistry dispatch_registry_def split: option.splits)
next
  case (OnCommand m)
  assume ok: "registry_ok w"
  obtain found w1 where d: "discover_providers A w = (found, w1)" by (cases "discover_providers A w")
  have "registry_ok (emit_model_selection A w)"
    using cache_found_keeps [OF ok d] canonical_load
    by (auto simp: emit_model_selection_def d Let_def working_def publication_ok_def intro!: registry_ok_publish)
  then show ?thesis
    using ok by (auto simp: OnCommand dispatch_command_def Let_def set_active_keeps split: option.splits)
next
  case (OnRun m)
  assume "registry_ok w"
  then show ?thesis by (auto simp: OnRun dispatch_cli_run_def cli_run_keeps split: option.splits)
next
  case (OnSelection m)
  assume "registry_ok w"
  then show ?thesis by (auto simp: OnSelection dispatch_selection_def set_active_keeps split: option.splits)
next
  case OnStartup
  assume ok: "registry_ok w"
  obtain found w1 where d: "discover_providers A w = (found, w1)" by (cases "discover_providers A w")
  note c = cache_found_keeps [OF ok d]
  have "working (auto_select_defaults (reconcile_active_model
      (if found \<noteq> [] then ((load_state w1)\<lparr>rs_providers := found\<rparr>,
         save_state ((load_state w1)\<lparr>rs_providers := found\<rparr>) w1) else (load_state w1, w1))))"
    using c by (intro healed_keeps) (simp add: registry_ok_load)
  then show ?thesis by (cases "found = []") (simp_all add: OnStartup startup_def d Let_def working_def)
next
  case (OnCapsulesLoaded sources)
  assume ok: "registry_ok w"
  obtain found w1 where d: "discover_providers A w = (found, w1)" by (cases "discover_providers A w")
  note c = cache_found_keeps [OF ok d]
  show ?thesis
    using ok c healed_keeps [OF c(2)] by (simp add: OnCapsulesLoaded reload_def d Let_def working_def)
qed

interpretation registry: preserved registry_ok "registry_step A" for A
  by unfold_locales (rule registry_step_keeps)

section \<open>Properties\<close>

definition registry_start :: "ipc_message list list \<Rightarrow> save_turn list \<Rightarrow> registry_world" where
  "registry_start found saves = \<lparr>wd_cell = None, wd_saves = saves, wd_found = found, wd_out = []\<rparr>"

text \<open>C36. Whatever messages and discovery windows the capsule sees, from an empty store on, and whichever saves fail
  or are lost to other writers that store canonical entries themselves: the cached entries are canonical (distinct ids
  of the form provider:model, so the resolver is unambiguous on ids); every entry and every list of entries that the
  capsule publishes is canonical too, those it announces as the active model included; and a result is only ever
  published on a topic made of the fixed prefix and a validated request id. The stored selection is not part of this:
  a refresh by \<open>handle_get_providers\<close> may drop the selected entry from the cache, and the selection stays as it was
  until the next request for the active model reconciles it.\<close>

theorem registry_invariant:
  assumes "\<forall>t \<in> set saves. canonical_turn t"
    and "w = foldl (registry_step A) (registry_start found saves) es"
  shows "canonical_entries (rs_providers (load_state w)) \<and>
    (\<forall>p \<in> set (wd_out w). case p of
       PubProviders es \<Rightarrow> canonical_entries es
     | PubSelection es \<Rightarrow> canonical_entries es
     | PubActive a \<Rightarrow> (\<forall>e. a = Some e \<longrightarrow> canonical_id e)
     | PubModelChanged e \<Rightarrow> canonical_id e
     | PubModelCleared \<Rightarrow> True
     | PubSetActive r _ \<Rightarrow> (\<forall>e. r = Ok e \<longrightarrow> canonical_id e)
     | PubCliResult t _ \<Rightarrow> (\<exists>i. is_valid_req_id i \<and> t = cli_result_topic_prefix @ i))"
proof -
  have "registry_ok w"
    unfolding assms(2)
  proof (rule registry.inv_run)
    show "registry_ok (registry_start found saves)"
      using assms(1) by (simp add: registry_ok_def canonical_cell_def registry_start_def)
  qed
  with canonical_load show ?thesis by (simp add: registry_ok_def publication_ok_def)
qed

text \<open>A run in which the first save loses its swap to another writer.\<close>

definition demo_api :: "nat json_api" where
  "demo_api = \<lparr>ja_parse = (\<lambda>_. Some 0), ja_get = (\<lambda>_ _. Some 1), ja_str = (\<lambda>_. None), ja_array = (\<lambda>_. Some [2]),
     ja_entry = (\<lambda>_. Some (demo_entry ''m'')), ja_text = (\<lambda>_. [])\<rparr>"

definition lost_save :: save_turn where
  "lost_save = quiet_save\<lparr>st_other := Some (Some registry_default)\<rparr>"

definition demo_registry :: registry_world where
  "demo_registry = foldl (registry_step demo_api) (registry_start [[\<lparr>mg_topic = [], mg_payload = []\<rparr>]] [lost_save])
     [OnStartup, OnRegistry \<lparr>mg_topic = ''registry.v1.get_active_model'', mg_payload = []\<rparr>]"

lemma demo_registry_out:
  "PubModelChanged ((demo_entry ''m'')\<lparr>pe_id := ''a:m''\<rparr>) \<in> set (wd_out demo_registry)"
  by code_simp

theorem registry_invariant_witness:
  "canonical_entries (rs_providers (load_state demo_registry)) \<and>
   PubModelChanged ((demo_entry ''m'')\<lparr>pe_id := ''a:m''\<rparr>) \<in> set (wd_out demo_registry) \<and>
   canonical_id ((demo_entry ''m'')\<lparr>pe_id := ''a:m''\<rparr>)"
proof -
  have "canonical_turn lost_save"
    by (simp add: canonical_turn_def lost_save_def canonical_cell_def registry_default_def)
  then have turns: "\<forall>t \<in> set [lost_save]. canonical_turn t" by simp
  from registry_invariant [OF turns demo_registry_def] demo_registry_out show ?thesis by fastforce
qed

text \<open>Stamping and de-duplication of one discovery window: the result is canonical, every entry is a reported entry
  with its route's qualifier put in front of its id, and no reported id is lost.\<close>

theorem discovery_canonical:
  "canonical_entries (dedupe_providers_by_id (List.map_filter stamp_entry ps)) \<and>
   pe_id ` set (dedupe_providers_by_id (List.map_filter stamp_entry ps)) =
     {q @ '':'' @ pe_id p |p q. p \<in> set ps \<and> request_topic_qualifier (pe_request_topic p) = Some q}"
proof -
  let ?qs = "List.map_filter stamp_entry ps"
  have ids: "pe_id ` set ?qs =
      {q @ '':'' @ pe_id p |p q. p \<in> set ps \<and> request_topic_qualifier (pe_request_topic p) = Some q}"
  proof (intro set_eqI iffI)
    fix i
    assume "i \<in> pe_id ` set ?qs"
    then obtain p r where "p \<in> set ps" "stamp_entry p = Some r" "i = pe_id r"
      by (auto simp: map_filter_def)
    then obtain q where "request_topic_qualifier (pe_request_topic p) = Some q" "i = q @ '':'' @ pe_id p"
      by (auto simp: stamp_entry_def split: option.splits)
    with \<open>p \<in> set ps\<close>
    show "i \<in> {q @ '':'' @ pe_id p |p q. p \<in> set ps \<and> request_topic_qualifier (pe_request_topic p) = Some q}"
      by blast
  next
    fix i
    assume "i \<in> {q @ '':'' @ pe_id p |p q. p \<in> set ps \<and> request_topic_qualifier (pe_request_topic p) = Some q}"
    then obtain p q where p: "p \<in> set ps" "request_topic_qualifier (pe_request_topic p) = Some q"
      "i = q @ '':'' @ pe_id p" by auto
    then have "stamp_entry p = Some (p\<lparr>pe_id := i\<rparr>)" by (simp add: stamp_entry_def)
    with p(1) have "p\<lparr>pe_id := i\<rparr> \<in> set ?qs" by (force simp: map_filter_def)
    then show "i \<in> pe_id ` set ?qs" by force
  qed
  have colon: "CHR '':'' \<in> set i" if "i \<in> pe_id ` set ?qs" for i
    using that unfolding ids by auto
  note spec = dedupe_from_spec [of "{}" ?qs]
  then have "canonical_entries (dedupe_from {} ?qs)"
    using colon by (auto simp: canonical_entries_def)
  with spec ids show ?thesis by (simp add: dedupe_providers_by_id_def)
qed

lemma reconcile_load: "load_state w = s \<Longrightarrow> wd_saves w = [] \<Longrightarrow> (s', w') = reconcile_active_model (s, w) \<Longrightarrow>
    load_state w' = s' \<and> s' = fst (reconcile_active_model_in_place s) \<and> wd_saves w' = []"
  by (auto simp: reconcile_active_model_def reconcile_active_model_in_place_def split: option.splits if_splits)

lemma auto_select_load: "load_state w = s \<Longrightarrow> wd_saves w = [] \<Longrightarrow> (s', w') = auto_select_defaults (s, w) \<Longrightarrow>
    load_state w' = s' \<and> s' = fst (auto_select_defaults_in_place s)"
  by (auto simp: auto_select_defaults_def auto_select_defaults_in_place_def split: option.splits list.splits)

lemma ensure_load: "load_state w = s \<Longrightarrow> wd_saves w = [] \<Longrightarrow> (s', w') = ensure_providers A (s, w) \<Longrightarrow>
    load_state w' = s' \<and> wd_saves w' = []"
proof -
  assume s: "load_state w = s" "wd_saves w = []" and e: "(s', w') = ensure_providers A (s, w)"
  obtain found w1 where d: "discover_providers A w = (found, w1)" by (cases "discover_providers A w")
  from e s discover_frame(3,4) [OF d] show ?thesis
    by (auto simp: ensure_providers_def d Let_def split: if_splits)
qed

text \<open>When its saves are not disturbed, \<open>get_active_model\<close> always answers: what it publishes last is the entry of the stored selection, and when
  any provider is cached or answers discovery that is an entry of the cached providers, never nothing.\<close>

theorem get_active_answers:
  assumes "wd_saves w = []"
  shows "\<exists>w' a. handle_get_active_model A w = publish (PubActive a) w' \<and>
     (let s = load_state (handle_get_active_model A w) in
        if rs_providers s = [] then a = active_entry s
        else \<exists>p \<in> set (rs_providers s). a = Some p \<and> rs_active_model_id s = Some (pe_id p))"
proof -
  obtain s1 w1 where e: "(s1, w1) = ensure_providers A (load_state w, w)" by (metis surj_pair)
  obtain s2 w2 where r: "(s2, w2) = reconcile_active_model (s1, w1)" by (metis surj_pair)
  obtain s3 w3 where a: "(s3, w3) = auto_select_defaults (s2, w2)" by (metis surj_pair)
  have l1: "load_state w1 = s1" "wd_saves w1 = []" using ensure_load [OF refl assms e] by simp_all
  have l2: "load_state w2 = s2" "s2 = fst (reconcile_active_model_in_place s1)" "wd_saves w2 = []"
    using reconcile_load [OF l1 r] by simp_all
  have l3: "load_state w3 = s3" "s3 = heal s1"
    using auto_select_load [OF l2(1,3) a] by (simp_all add: heal_def l2(2))
  have eq: "handle_get_active_model A w = publish (PubActive (active_entry s3)) w3"
    by (simp add: handle_get_active_model_def e [symmetric] r [symmetric] a [symmetric])
  have "\<exists>p \<in> set (rs_providers s3). active_entry s3 = Some p \<and> rs_active_model_id s3 = Some (pe_id p)"
    if "rs_providers s3 \<noteq> []"
  proof -
    have "rs_providers s1 \<noteq> []" "rs_providers s3 = rs_providers s1"
      using that by (simp_all add: l3(2) heal_def in_place_providers)
    then obtain q where q: "q \<in> set (rs_providers s3)" "rs_active_model_id s3 = Some (pe_id q)"
      using heal_selects [of s1] by (auto simp: l3(2))
    then have "find (\<lambda>p. pe_id p = pe_id q) (rs_providers s3) \<noteq> None" by (auto simp: find_None_iff)
    then obtain p where p: "find (\<lambda>p. pe_id p = pe_id q) (rs_providers s3) = Some p" by blast
    with find_in [OF p] q show ?thesis by (auto simp: active_entry_def)
  qed
  with eq l3(1) show ?thesis
    by (intro exI [of _ w3] exI [of _ "active_entry s3"]) (auto simp: Let_def)
qed

text \<open>When its saves are not disturbed, setting the active model answers exactly once, with the request's correlation
  id: either with an entry whose canonical id is then the stored selection, or with an error that leaves the stored state as it was.\<close>

theorem set_active_replies:
  assumes "wd_saves w = []"
  shows "\<exists>w' r. set_active_model_by_id A model_id corr_id w = publish (PubSetActive r corr_id) w' \<and>
     (case r of
        Err _ \<Rightarrow> wd_cell (set_active_model_by_id A model_id corr_id w) = wd_cell w \<and> wd_out w' = wd_out w
      | Ok e \<Rightarrow> (let s = load_state (set_active_model_by_id A model_id corr_id w) in
          e \<in> set (rs_providers s) \<and> rs_active_model_id s = Some (pe_id e) \<and>
          wd_out w' = wd_out w @ [PubModelChanged e]))"
proof -
  obtain found w1 where d: "discover_providers A w = (found, w1)" by (cases "discover_providers A w")
  obtain s v where sv: "set_active_model_by_id A model_id corr_id w = bind_selection model_id corr_id (s, v)"
    and v: "wd_cell v = wd_cell w" "wd_out v = wd_out w" "wd_saves v = []"
    using discover_frame [OF d] assms by (cases "rs_providers (load_state w) = []")
      (auto simp: set_active_model_by_id_def Let_def d)
  show ?thesis
  proof (cases "resolve_selection model_id (rs_providers s)")
    case (Inl e)
    then show ?thesis
      by (intro exI [of _ v] exI [of _ "Err (resolve_error_message e)"]) (simp add: sv bind_selection_def v)
  next
    case (Inr e)
    then have "e \<in> set (rs_providers s)" by (rule resolve_selection_member)
    with Inr show ?thesis
      by (intro exI [of _ "publish (PubModelChanged e) (save_state (s\<lparr>rs_active_model_id := Some (pe_id e)\<rparr>) v)"]
          exI [of _ "Ok e"]) (simp add: sv bind_selection_def v)
  qed
qed

text \<open>The compare-and-swap of \<open>save_state\<close> does not protect against concurrent writers: whatever another handler
  stored between loading and saving is replaced, because the expected value is read again just before the swap.\<close>

theorem save_state_overwrites_concurrent:
  "wd_saves w = [] \<Longrightarrow> load_state (save_state ((load_state w)\<lparr>rs_active_model_id := a\<rparr>) (save_state other w)) =
     (load_state w)\<lparr>rs_active_model_id := a\<rparr>"
  by simp

end
