(* ===== verification/Session_Store.thy ===== *)
theory Session_Store
  imports Session_Data
begin

text \<open>
  Loading, modifying and enumerating sessions (\<open>capsules/capsule-session/src/lib.rs\<close>). The kernel scopes the
  key-value namespace to the invoking principal, but other invocations of the same principal write to it too:
  before every call of the host the other writers take one step (\<open>ht_others\<close>), whatever they like, and the
  call may fail (\<open>ht_fault\<close>). An exhausted list of turns is a host with no other writer and no failure.
  Code that \<open>serde\<close> derives, \<open>str::to_lowercase\<close>, the host's paging of keys and the printer of its errors are
  fields of \<open>session_host\<close>.
\<close>

section \<open>The world\<close>

type_synonym kv_table = "(string, string) btree_map"

record host_turn =
  ht_others :: "kv_table \<Rightarrow> kv_table"
  ht_fault :: "string option"

record session_inputs =
  si_turns :: "host_turn list"
  si_clock :: "u64 option list"
  si_bus_faults :: "string option list"
  si_uuid :: string

record session_world =
  sw_kv :: kv_table
  sw_bus :: "(string \<times> canonical_json) list"
  sw_in :: session_inputs

record session_host =
  sh_codec :: "session_data json_codec"
  sh_lower :: "string \<Rightarrow> string"
  sh_messages :: "canonical_json \<Rightarrow> string + message list"
  sh_message_json :: "message \<Rightarrow> canonical_json"
  sh_page :: "string list \<Rightarrow> string option \<Rightarrow> nat \<Rightarrow> string list \<times> string option"
  sh_show :: "sys_error \<Rightarrow> string"

type_synonym 'a session_op = "(session_world, 'a) state"
type_synonym 'a session_try = "(session_world, sys_error + 'a) state"

section \<open>Host calls\<close>

definition kv_turn :: "(kv_table \<Rightarrow> 'a \<times> kv_table) \<Rightarrow> 'a session_try" where
  "kv_turn f = State (\<lambda>w. case si_turns (sw_in w) of
     [] \<Rightarrow> (case f (sw_kv w) of (x, m) \<Rightarrow> (Ok x, w\<lparr>sw_kv := m\<rparr>))
   | t # ts \<Rightarrow>
       let kv0 = ht_others t (sw_kv w); w0 = w\<lparr>sw_kv := kv0, sw_in := (sw_in w)\<lparr>si_turns := ts\<rparr>\<rparr> in
       (case ht_fault t of
          Some e \<Rightarrow> (Err (Host_Error e), w0)
        | None \<Rightarrow> (case f kv0 of (x, m) \<Rightarrow> (Ok x, w0\<lparr>sw_kv := m\<rparr>))))"

definition sk_get :: "string \<Rightarrow> string option session_try" where
  "sk_get key = kv_turn (\<lambda>m. (bt_get m key, m))"

definition sk_cas :: "string \<Rightarrow> string option \<Rightarrow> string \<Rightarrow> bool session_try" where
  "sk_cas key expected v =
     kv_turn (\<lambda>m. if bt_get m key = expected then (True, bt_insert key v m) else (False, m))"

definition sk_delete :: "string \<Rightarrow> unit session_try" where
  "sk_delete key = kv_turn (\<lambda>m. ((), bt_delete key m))"

definition keys_with :: "string \<Rightarrow> kv_table \<Rightarrow> string list" where
  "keys_with p m = filter (prefix p) (bt_keys m)"

definition sk_list_keys :: "string \<Rightarrow> string list session_try" where
  "sk_list_keys p = kv_turn (\<lambda>m. (keys_with p m, m))"

definition sk_list_keys_page :: "session_host \<Rightarrow> string \<Rightarrow> string option \<Rightarrow> u32 \<Rightarrow>
    (string list \<times> string option) session_try" where
  "sk_list_keys_page H p cursor limit = kv_turn (\<lambda>m. (sh_page H (keys_with p m) cursor (unat limit), m))"

definition now_unix :: "u64 option session_op" where
  "now_unix = State (\<lambda>w. case si_clock (sw_in w) of
     [] \<Rightarrow> (None, w) | t # ts \<Rightarrow> (t, w\<lparr>sw_in := (sw_in w)\<lparr>si_clock := ts\<rparr>\<rparr>))"

definition session_publish :: "string \<Rightarrow> canonical_json \<Rightarrow> unit session_try" where
  "session_publish topic message = State (\<lambda>w. case si_bus_faults (sw_in w) of
     [] \<Rightarrow> (Ok (), w\<lparr>sw_bus := sw_bus w @ [(topic, message)]\<rparr>)
   | f # fs \<Rightarrow>
       let w0 = w\<lparr>sw_in := (sw_in w)\<lparr>si_bus_faults := fs\<rparr>\<rparr> in
       (case f of Some e \<Rightarrow> (Err (Host_Error e), w0)
        | None \<Rightarrow> (Ok (), w0\<lparr>sw_bus := sw_bus w0 @ [(topic, message)]\<rparr>)))"

definition session_uuid :: "string session_op" where
  "session_uuid = do { w \<leftarrow> State_Monad.get; ret (si_uuid (sw_in w)) }"

section \<open>Lifecycle events\<close>

datatype session_event_kind = Event_Created | Event_Updated | Event_Deleted

definition event_kind_str :: "session_event_kind \<Rightarrow> string" where
  "event_kind_str k = (case k of Event_Created \<Rightarrow> ''created'' | Event_Updated \<Rightarrow> ''updated'' | Event_Deleted \<Rightarrow> ''deleted'')"

definition publish_session_event :: "session_event_kind \<Rightarrow> string \<Rightarrow> canonical_json \<Rightarrow> unit session_op" where
  "publish_session_event k session_id summary = do {
     _ \<leftarrow> session_publish (''session.v1.event.'' @ event_kind_str k)
       (json_obj [(''kind'', CString (event_kind_str k)), (''session_id'', CString session_id), (''summary'', summary)]);
     ret () }"

section \<open>Loading\<close>

definition parse_session :: "session_host \<Rightarrow> string \<Rightarrow> session_data" where
  "parse_session H bytes = (case jc_decode (sh_codec H) bytes of Err _ \<Rightarrow> session_default | Ok d \<Rightarrow> d)"

definition save_migrated :: "session_host \<Rightarrow> string \<Rightarrow> string \<Rightarrow> session_data \<Rightarrow> (session_data \<times> string option) session_op" where
  "save_migrated H key bytes migrated =
     (case jc_encode (sh_codec H) migrated of
        Err _ \<Rightarrow> ret (migrated, Some bytes)
      | Ok migrated_bytes \<Rightarrow> do {
          swapped \<leftarrow> sk_cas key (Some bytes) migrated_bytes;
          ret (migrated, Some (if swapped = Ok True then migrated_bytes else bytes)) })"

definition load :: "session_host \<Rightarrow> string \<Rightarrow> (session_data \<times> string option) session_op" where
  "load H session_id = do {
     raw \<leftarrow> sk_get (session_key session_id);
     case raw of
       Err _ \<Rightarrow> ret (session_default, None)
     | Ok None \<Rightarrow> ret (session_default, None)
     | Ok (Some bytes) \<Rightarrow>
         (case migrate (parse_session H bytes) of
            Ok (migrated, needs_save) \<Rightarrow>
              if needs_save then save_migrated H (session_key session_id) bytes migrated
              else ret (migrated, Some bytes)
          | Err fresh \<Rightarrow> ret (fresh, Some bytes)) }"

section \<open>Modifying\<close>

fun modify_loop :: "session_host \<Rightarrow> string \<Rightarrow> (session_data \<Rightarrow> session_data) \<Rightarrow> nat \<Rightarrow> session_data session_try" where
  "modify_loop H session_id mutate 0 =
     ret (Err (Api_Error (''session '' @ quote @ session_id @ quote @ '' write contended for '' @
       show_nat cas_retry_limit @ '' attempts; giving up to avoid unbounded retry'')))"
| "modify_loop H session_id mutate (Suc attempts) = do {
     loaded \<leftarrow> load H session_id;
     let d = mutate (fst loaded);
     case jc_encode (sh_codec H) d of
       Err e \<Rightarrow> ret (Err (Json_Error e))
     | Ok new_bytes \<Rightarrow> do {
         swapped \<leftarrow> sk_cas (session_key session_id) (snd loaded) new_bytes;
         case swapped of
           Err e \<Rightarrow> ret (Err e)
         | Ok won \<Rightarrow> if won then ret (Ok d) else modify_loop H session_id mutate attempts } }"

definition modify_atomic :: "session_host \<Rightarrow> string \<Rightarrow> (session_data \<Rightarrow> session_data) \<Rightarrow> session_data session_try" where
  "modify_atomic H session_id mutate = modify_loop H session_id mutate cas_retry_limit"

fun modify_existing_loop :: "session_host \<Rightarrow> string \<Rightarrow> (session_data \<Rightarrow> sys_error + session_data) \<Rightarrow> nat \<Rightarrow>
    session_data option session_try" where
  "modify_existing_loop H session_id mutate 0 =
     ret (Err (Api_Error (''session '' @ quote @ session_id @ quote @ '' update contended for '' @
       show_nat cas_retry_limit @ '' attempts; giving up to avoid unbounded retry'')))"
| "modify_existing_loop H session_id mutate (Suc attempts) = do {
     loaded \<leftarrow> load H session_id;
     case snd loaded of
       None \<Rightarrow> ret (Ok None)
     | Some expected_bytes \<Rightarrow>
         (case mutate (fst loaded) of
            Err e \<Rightarrow> ret (Err e)
          | Ok d \<Rightarrow>
              (case jc_encode (sh_codec H) d of
                 Err e \<Rightarrow> ret (Err (Json_Error e))
               | Ok new_bytes \<Rightarrow> do {
                   swapped \<leftarrow> sk_cas (session_key session_id) (Some expected_bytes) new_bytes;
                   case swapped of
                     Err e \<Rightarrow> ret (Err e)
                   | Ok won \<Rightarrow> if won then ret (Ok (Some d)) else modify_existing_loop H session_id mutate attempts })) }"

definition modify_existing :: "session_host \<Rightarrow> string \<Rightarrow> (session_data \<Rightarrow> sys_error + session_data) \<Rightarrow>
    session_data option session_try" where
  "modify_existing H session_id mutate = modify_existing_loop H session_id mutate cas_retry_limit"

section \<open>Operations\<close>

record list_page =
  lp_sessions :: "canonical_json list"
  lp_next_cursor :: "string option"
  lp_total :: "u32 option"

fun list_summaries :: "session_host \<Rightarrow> bool \<Rightarrow> string list \<Rightarrow> canonical_json list session_op" where
  "list_summaries H include_archived [] = ret []"
| "list_summaries H include_archived (key # keys) =
     (case strip_prefix_str session_key_prefix key of
        None \<Rightarrow> list_summaries H include_archived keys
      | Some session_id \<Rightarrow> do {
          loaded \<leftarrow> load H session_id;
          rest \<leftarrow> list_summaries H include_archived keys;
          ret (if is_visible (sd_archived (fst loaded)) include_archived
               then session_summary_json session_id (fst loaded) # rest else rest) })"

definition do_list :: "session_host \<Rightarrow> bool \<Rightarrow> string option \<Rightarrow> u32 \<Rightarrow> list_page session_try" where
  "do_list H include_archived cursor limit =
     attempt (sk_list_keys_page H session_key_prefix cursor limit) (\<lambda>page. do {
       sessions \<leftarrow> list_summaries H include_archived (fst page);
       counted \<leftarrow> sk_list_keys session_key_prefix;
       ret (Ok \<lparr>lp_sessions = sessions, lp_next_cursor = snd page,
         lp_total = (case counted of
            Ok keys \<Rightarrow> if length keys \<le> list_total_count_cap then Some (of_nat (length keys)) else None
          | Err _ \<Rightarrow> None)\<rparr>) })"

definition do_get_meta :: "session_host \<Rightarrow> string \<Rightarrow> canonical_json option session_try" where
  "do_get_meta H session_id =
     attempt (sk_get (session_key session_id)) (\<lambda>raw.
       if raw = None then ret (Ok None)
       else do { loaded \<leftarrow> load H session_id; ret (Ok (Some (session_summary_json session_id (fst loaded)))) })"

definition update_mutation :: "string option patch_field \<Rightarrow> bool patch_field \<Rightarrow> string option patch_field \<Rightarrow> u64 option \<Rightarrow>
    session_data \<Rightarrow> sys_error + session_data" where
  "update_mutation title archived meta now d =
     and_then (apply_update_patch title archived meta d) (\<lambda>d'. Ok (touch_opt now d'))"

definition do_update :: "session_host \<Rightarrow> string \<Rightarrow> string option patch_field \<Rightarrow> bool patch_field \<Rightarrow> string option patch_field \<Rightarrow>
    canonical_json option session_try" where
  "do_update H session_id title archived meta =
     (case apply_update_patch title archived meta session_default of
        Err e \<Rightarrow> ret (Err e)
      | Ok _ \<Rightarrow> do {
          now \<leftarrow> now_unix;
          attempt (modify_existing H session_id (update_mutation title archived meta now)) (\<lambda>updated.
            case updated of
              None \<Rightarrow> ret (Ok None)
            | Some d \<Rightarrow> do {
                publish_session_event Event_Updated session_id (session_summary_json session_id d);
                ret (Ok (Some (session_summary_json session_id d))) }) })"

definition do_delete :: "string \<Rightarrow> bool session_try" where
  "do_delete session_id =
     attempt (sk_get (session_key session_id)) (\<lambda>raw.
       if raw = None then ret (Ok False)
       else attempt (sk_delete (session_key session_id)) (\<lambda>_. do {
         publish_session_event Event_Deleted session_id CNull;
         ret (Ok True) }))"

section \<open>Searching\<close>

text \<open>A scan of one page either stops with the cursor to resume from, or goes on with the hits and the count.\<close>

datatype scan_end = Stops "canonical_json list" string | Goes_On "canonical_json list" u32

definition search_hit :: "string \<Rightarrow> session_data \<Rightarrow> u32 \<times> string option \<Rightarrow> canonical_json" where
  "search_hit session_id d hit = json_obj [
     (''session_id'', CString session_id),
     (''title'', opt_string_json (sd_title d)),
     (''snippet'', opt_string_json (snd hit)),
     (''match_count'', u64_json (ucast (fst hit))),
     (''updated_at'', u64_or_null (sd_updated_at d))]"

definition session_hit :: "session_host \<Rightarrow> string \<Rightarrow> bool \<Rightarrow> string \<Rightarrow> session_data \<Rightarrow> canonical_json option" where
  "session_hit H query_lower include_archived session_id d =
     (if is_visible (sd_archived d) include_archived
      then map_option (search_hit session_id d) (search_messages (sh_lower H) (sd_messages d) query_lower)
      else None)"

fun scan_keys :: "session_host \<Rightarrow> string \<Rightarrow> bool \<Rightarrow> u32 \<Rightarrow> string list \<Rightarrow> canonical_json list \<Rightarrow> u32 \<Rightarrow> scan_end session_op" where
  "scan_keys H query_lower include_archived limit [] results scanned = ret (Goes_On results scanned)"
| "scan_keys H query_lower include_archived limit (key # keys) results scanned =
     (case strip_prefix_str session_key_prefix key of
        None \<Rightarrow> scan_keys H query_lower include_archived limit keys results scanned
      | Some session_id \<Rightarrow> do {
          let scanned' = u32_saturating_add scanned 1;
          loaded \<leftarrow> load H session_id;
          let hit = session_hit H query_lower include_archived session_id (fst loaded);
          let results' = results @ (case hit of None \<Rightarrow> [] | Some h \<Rightarrow> [h]);
          if hit \<noteq> None \<and> unat limit \<le> length results' then ret (Stops results' key)
          else if search_key_scan_budget \<le> scanned' then ret (Stops results' key)
          else scan_keys H query_lower include_archived limit keys results' scanned' })"

text \<open>The page loop; \<open>Out_Of_Fuel\<close> is the loop that goes on for ever.\<close>

fun scan_pages :: "nat \<Rightarrow> session_host \<Rightarrow> string \<Rightarrow> bool \<Rightarrow> u32 \<Rightarrow> string option \<Rightarrow> canonical_json list \<Rightarrow> u32 \<Rightarrow>
    (canonical_json list \<times> string option) session_try" where
  "scan_pages 0 H query_lower include_archived limit cursor results scanned = ret (Err Out_Of_Fuel)"
| "scan_pages (Suc fuel) H query_lower include_archived limit cursor results scanned =
     attempt (sk_list_keys_page H session_key_prefix cursor max_thread_limit) (\<lambda>page.
       if fst page = [] then ret (Ok (results, None))
       else do {
         r \<leftarrow> scan_keys H query_lower include_archived limit (fst page) results scanned;
         case r of
           Stops results' key \<Rightarrow> ret (Ok (results', Some key))
         | Goes_On results' scanned' \<Rightarrow>
             (case snd page of
                Some next \<Rightarrow> scan_pages fuel H query_lower include_archived limit (Some next) results' scanned'
              | None \<Rightarrow> ret (Ok (results', None))) })"

definition do_search :: "session_host \<Rightarrow> string \<Rightarrow> bool \<Rightarrow> string option \<Rightarrow> u32 \<Rightarrow>
    (canonical_json list \<times> string option) session_try" where
  "do_search H query include_archived cursor limit =
     (if sh_lower H query = [] then ret (Ok ([], None))
      else scan_pages (unat search_key_scan_budget) H (sh_lower H query) include_archived limit cursor [] 0)"

definition transcript_json :: "session_host \<Rightarrow> message list \<Rightarrow> u32 option \<Rightarrow> canonical_json" where
  "transcript_json H ms limit = CArray (map (sh_message_json H) (tail_messages ms limit))"

end
