(* ===== verification/Session_Handlers.thy ===== *)
theory Session_Handlers
  imports Session_Store
begin

text \<open>
  The doors of the session capsule (\<open>capsules/capsule-session/src/lib.rs\<close>): the handlers of its bus verbs, the
  read-only tools of the agent and the operator's \<open>session\<close> command. All of them go through the operations of
  \<open>Session_Store\<close>.
\<close>

section \<open>Requests\<close>

definition payload_str :: "canonical_json \<Rightarrow> string \<Rightarrow> string option" where
  "payload_str payload key = Option.bind (json_get payload key) json_str"

definition payload_session_id :: "canonical_json \<Rightarrow> string" where
  "payload_session_id payload = (case payload_str payload ''session_id'' of None \<Rightarrow> default_session_id | Some i \<Rightarrow> i)"

definition payload_include_archived :: "canonical_json \<Rightarrow> bool" where
  "payload_include_archived payload =
     (case Option.bind (json_get payload ''include_archived'') json_bool of None \<Rightarrow> False | Some b \<Rightarrow> b)"

definition payload_limit :: "canonical_json \<Rightarrow> u32 option" where
  "payload_limit payload = map_option (\<lambda>n. ucast (min n 0xFFFFFFFF)) (Option.bind (json_get payload ''limit'') json_u64)"

definition require_correlation_id :: "canonical_json \<Rightarrow> string \<Rightarrow> sys_error + string" where
  "require_correlation_id payload request_name =
     ok_or (Api_Error (request_name @ '' request missing or invalid correlation_id (must be non-empty, no dots)''))
       (case payload_str payload ''correlation_id'' of
          None \<Rightarrow> None
        | Some s \<Rightarrow> if s \<noteq> [] \<and> CHR ''.'' \<notin> set s then Some s else None)"

definition opt_json :: "canonical_json option \<Rightarrow> canonical_json" where
  "opt_json x = (case x of None \<Rightarrow> CNull | Some v \<Rightarrow> v)"

text \<open>A handler that answers: the correlation id is checked before anything else, and the body's answer is
  published on the topic that ends in it.\<close>

definition answering :: "string \<Rightarrow> canonical_json \<Rightarrow>
    (string \<Rightarrow> (string \<times> canonical_json) list session_try) \<Rightarrow> unit session_try" where
  "answering verb payload body =
     (case require_correlation_id payload verb of
        Err e \<Rightarrow> ret (Err e)
      | Ok correlation_id \<Rightarrow>
          attempt (body correlation_id) (\<lambda>answer.
            session_publish (''session.v1.response.'' @ verb @ ''.'' @ correlation_id)
              (json_obj ((''correlation_id'', CString correlation_id) # answer))))"

section \<open>Transcripts\<close>

definition append_messages :: "message list \<Rightarrow> u64 option \<Rightarrow> session_data \<Rightarrow> session_data" where
  "append_messages ms now d = touch_opt now (d\<lparr>sd_messages := sd_messages d @ ms\<rparr>)"

definition handle_append :: "session_host \<Rightarrow> canonical_json \<Rightarrow> unit session_try" where
  "handle_append H payload =
     (case (case json_get payload ''messages'' of None \<Rightarrow> Ok [] | Some v \<Rightarrow> sh_messages H v) of
        Err e \<Rightarrow> ret (Err (Api_Error (''Failed to parse messages: '' @ e)))
      | Ok ms \<Rightarrow>
          if ms = [] then ret (Ok ())
          else do {
            now \<leftarrow> now_unix;
            attempt (modify_atomic H (payload_session_id payload) (append_messages ms now)) (\<lambda>_. ret (Ok ())) })"

definition read_messages :: "session_host \<Rightarrow> string \<Rightarrow> session_data session_try" where
  "read_messages H session_id = do { loaded \<leftarrow> load H session_id; ret (Ok (fst loaded)) }"

definition append_before_read :: "session_host \<Rightarrow> canonical_json \<Rightarrow> session_data session_try" where
  "append_before_read H payload =
     (case json_get payload ''append_before_read'' of
        None \<Rightarrow> read_messages H (payload_session_id payload)
      | Some v \<Rightarrow>
          (case sh_messages H v of
             Err e \<Rightarrow> ret (Err (Api_Error (''Failed to parse append_before_read: '' @ e)))
           | Ok ms \<Rightarrow>
               if ms = [] then read_messages H (payload_session_id payload)
               else do {
                 now \<leftarrow> now_unix;
                 modify_atomic H (payload_session_id payload) (append_messages ms now) }))"

definition handle_get_messages :: "session_host \<Rightarrow> canonical_json \<Rightarrow> unit session_try" where
  "handle_get_messages H payload = answering ''get_messages'' payload (\<lambda>_.
     attempt (append_before_read H payload) (\<lambda>d.
       ret (Ok [(''messages'', CArray (map (sh_message_json H) (sd_messages d)))])))"

definition cleared_session :: "string \<Rightarrow> u64 option \<Rightarrow> session_data" where
  "cleared_session old_session_id now = session_default\<lparr>sd_parent := Some old_session_id, sd_created_at := now,
     sd_updated_at := now\<rparr>"

definition clear_session :: "session_host \<Rightarrow> string \<Rightarrow> (string \<times> canonical_json) list session_try" where
  "clear_session H old_session_id = do {
     new_session_id \<leftarrow> session_uuid;
     now \<leftarrow> now_unix;
     let new_data = cleared_session old_session_id now;
     case jc_encode (sh_codec H) new_data of
       Err e \<Rightarrow> ret (Err (Json_Error e))
     | Ok new_bytes \<Rightarrow>
         attempt (sk_cas (session_key new_session_id) None new_bytes) (\<lambda>created.
           if \<not> created
           then ret (Err (Api_Error (''session '' @ quote @ new_session_id @ quote @
             '' UUID collision detected; refusing to overwrite existing session'')))
           else do {
             publish_session_event Event_Created new_session_id (session_summary_json new_session_id new_data);
             ret (Ok [(''new_session_id'', CString new_session_id), (''old_session_id'', CString old_session_id)]) }) }"

definition handle_clear :: "session_host \<Rightarrow> canonical_json \<Rightarrow> unit session_try" where
  "handle_clear H payload = answering ''clear'' payload (\<lambda>_. clear_session H (payload_session_id payload))"

section \<open>Threads\<close>

definition list_answer :: "list_page \<Rightarrow> (string \<times> canonical_json) list" where
  "list_answer p = [(''sessions'', CArray (lp_sessions p)), (''next_cursor'', opt_string_json (lp_next_cursor p)),
     (''total'', u64_or_null (map_option ucast (lp_total p)))]"

definition handle_list :: "session_host \<Rightarrow> canonical_json \<Rightarrow> unit session_try" where
  "handle_list H payload = answering ''list'' payload (\<lambda>_.
     attempt (do_list H (payload_include_archived payload) (payload_str payload ''cursor'')
       (clamp_list_limit (payload_limit payload))) (\<lambda>p. ret (Ok (list_answer p))))"

definition handle_get_meta :: "session_host \<Rightarrow> canonical_json \<Rightarrow> unit session_try" where
  "handle_get_meta H payload = answering ''get_meta'' payload (\<lambda>_.
     attempt (do_get_meta H (payload_session_id payload)) (\<lambda>s. ret (Ok [(''session'', opt_json s)])))"

definition handle_update :: "session_host \<Rightarrow> canonical_json \<Rightarrow> unit session_try" where
  "handle_update H payload = answering ''update'' payload (\<lambda>_.
     attempt (do_update H (payload_session_id payload) (string_patch_from payload ''title'')
       (bool_patch_from payload ''archived'') (string_patch_from payload ''meta''))
       (\<lambda>s. ret (Ok [(''session'', opt_json s)])))"

definition handle_delete :: "session_host \<Rightarrow> canonical_json \<Rightarrow> unit session_try" where
  "handle_delete H payload = answering ''delete'' payload (\<lambda>_.
     attempt (do_delete (payload_session_id payload)) (\<lambda>b. ret (Ok [(''deleted'', CBool b)])))"

definition handle_search :: "session_host \<Rightarrow> canonical_json \<Rightarrow> unit session_try" where
  "handle_search H payload = answering ''search'' payload (\<lambda>_.
     attempt (do_search H (case payload_str payload ''query'' of None \<Rightarrow> [] | Some q \<Rightarrow> q)
       (payload_include_archived payload) (payload_str payload ''cursor'') (clamp_search_limit (payload_limit payload)))
       (\<lambda>r. ret (Ok [(''results'', CArray (fst r)), (''next_cursor'', opt_string_json (snd r))])))"

section \<open>Tools of the agent\<close>

definition list_threads :: "session_host \<Rightarrow> bool option \<Rightarrow> u32 option \<Rightarrow> canonical_json session_try" where
  "list_threads H include_archived limit =
     attempt (do_list H (include_archived = Some True) None
       (clamp_list_limit (case limit of None \<Rightarrow> Some default_thread_limit | Some n \<Rightarrow> Some n)))
       (\<lambda>p. ret (Ok (json_obj [(''sessions'', CArray (lp_sessions p)), (''next_cursor'', opt_string_json (lp_next_cursor p))])))"

definition get_thread :: "session_host \<Rightarrow> string \<Rightarrow> u32 option \<Rightarrow> canonical_json session_try" where
  "get_thread H session_id limit = do {
     loaded \<leftarrow> load H session_id;
     ret (Ok (json_obj [(''session_id'', CString session_id),
       (''messages'', transcript_json H (sd_messages (fst loaded)) limit)])) }"

definition search_conversations :: "session_host \<Rightarrow> string \<Rightarrow> u32 option \<Rightarrow> bool option \<Rightarrow> canonical_json session_try" where
  "search_conversations H query limit include_archived =
     attempt (do_search H query (include_archived = Some True) None
       (clamp_search_limit (case limit of None \<Rightarrow> Some default_search_limit | Some n \<Rightarrow> Some n)))
       (\<lambda>r. ret (Ok (json_obj [(''results'', CArray (fst r)), (''next_cursor'', opt_string_json (snd r))])))"

section \<open>The command\<close>

definition json_field :: "canonical_json \<Rightarrow> string \<Rightarrow> canonical_json" where
  "json_field v k = (case json_get v k of None \<Rightarrow> CNull | Some x \<Rightarrow> x)"

definition or_str :: "string option \<Rightarrow> string \<Rightarrow> string" where
  "or_str x d = (case x of None \<Rightarrow> d | Some s \<Rightarrow> s)"

definition trim_end :: "string \<Rightarrow> string" where
  "trim_end s = concat (rev (dropWhile is_whitespace (rev (chars s))))"

definition quoted :: "string \<Rightarrow> string" where
  "quoted s = quote @ s @ quote"

definition no_such_session :: "string \<Rightarrow> string" where
  "no_such_session i = ''No such session: '' @ quoted i"

definition list_line :: "canonical_json \<Rightarrow> string" where
  "list_line s = or_str (json_str (json_field s ''session_id'')) ''?'' @ ''  '' @
     or_str (case json_str (json_field s ''title'') of None \<Rightarrow> json_str (json_field s ''preview'') | Some t \<Rightarrow> Some t)
       ''(no title)'' @ ''  ('' @
     show_nat (case json_u64 (json_field s ''message_count'') of None \<Rightarrow> 0 | Some n \<Rightarrow> unat n) @ '' msgs, updated '' @
     (case json_u64 (json_field s ''updated_at'') of None \<Rightarrow> ''-'' | Some n \<Rightarrow> show_nat (unat n)) @ '')'' @
     (if json_bool (json_field s ''archived'') = Some True then '' [archived]'' else []) @ line_feed"

definition cmd_list :: "session_host \<Rightarrow> string list \<Rightarrow> string session_try" where
  "cmd_list H args =
     (let flags = fst (parse_args args) in
      attempt (do_list H (cf_all flags) None (clamp_list_limit (cf_limit flags))) (\<lambda>p.
        if lp_sessions p = [] then ret (Ok ''No sessions.'')
        else ret (Ok (trim_end ((case lp_total p of None \<Rightarrow> [] | Some n \<Rightarrow> show_nat (unat n) @ '' session(s):'' @ line_feed) @
          concat (map list_line (lp_sessions p)))))))"

definition role_name :: "message_role \<Rightarrow> string" where
  "role_name r = (case r of Role_System \<Rightarrow> ''system'' | Role_User \<Rightarrow> ''user'' | Role_Assistant \<Rightarrow> ''assistant'' | Role_Tool \<Rightarrow> ''tool'')"

definition show_line :: "message \<Rightarrow> string" where
  "show_line m = role_name (msg_role m) @ '': '' @ or_str (message_text m) ''(non-text content)'' @ line_feed"

definition cmd_show :: "session_host \<Rightarrow> string list \<Rightarrow> string session_try" where
  "cmd_show H args =
     (case parse_args args of
        (flags, []) \<Rightarrow> ret (Ok ''Usage: session show <id> [--limit N]'')
      | (flags, i # _) \<Rightarrow> do {
          loaded \<leftarrow> load H i;
          ret (Ok (if sd_messages (fst loaded) = []
            then ''Session '' @ quoted i @ '' has no messages (or does not exist).''
            else trim_end (concat (map show_line (tail_messages (sd_messages (fst loaded)) (cf_limit flags)))))) })"

fun join_words :: "string list \<Rightarrow> string" where
  "join_words [] = []"
| "join_words [w] = w"
| "join_words (w # ws) = w @ '' '' @ join_words ws"

definition rename_usage :: string where
  "rename_usage = ''Usage: session rename <id> <title'' @ ellipsis @ ''>''"

definition cmd_rename :: "session_host \<Rightarrow> string list \<Rightarrow> string session_try" where
  "cmd_rename H args =
     (case snd (parse_args args) of
        [] \<Rightarrow> ret (Ok rename_usage)
      | [_] \<Rightarrow> ret (Ok rename_usage)
      | i # title_parts \<Rightarrow>
          attempt (do_update H i (Replace (Some (join_words title_parts))) Keep Keep) (\<lambda>patched.
            case patched of
              Some _ \<Rightarrow> ret (Ok (''Renamed session '' @ quoted i @ '' to: '' @ join_words title_parts))
            | None \<Rightarrow> ret (Ok (no_such_session i))))"

definition cmd_set_archived :: "session_host \<Rightarrow> string list \<Rightarrow> bool \<Rightarrow> string session_try" where
  "cmd_set_archived H args archived =
     (case snd (parse_args args) of
        [] \<Rightarrow> ret (Ok (''Usage: session '' @ (if archived then ''archive'' else ''unarchive'') @ '' <id>''))
      | i # _ \<Rightarrow>
          attempt (do_update H i Keep (Replace archived) Keep) (\<lambda>patched.
            case patched of
              Some _ \<Rightarrow> ret (Ok ((if archived then ''Archived'' else ''Unarchived'') @ '' session '' @ quoted i))
            | None \<Rightarrow> ret (Ok (no_such_session i))))"

definition cmd_delete :: "string list \<Rightarrow> string session_try" where
  "cmd_delete args =
     (case snd (parse_args args) of
        [] \<Rightarrow> ret (Ok ''Usage: session delete <id>'')
      | i # _ \<Rightarrow> attempt (do_delete i) (\<lambda>deleted.
          ret (Ok (if deleted then ''Deleted session '' @ quoted i @ '' (irreversible).'' else no_such_session i))))"

definition search_line :: "canonical_json \<Rightarrow> string" where
  "search_line r = or_str (json_str (json_field r ''session_id'')) ''?'' @ ''  '' @
     or_str (json_str (json_field r ''title'')) ''(no title)'' @ ''  ('' @
     show_nat (case json_u64 (json_field r ''match_count'') of None \<Rightarrow> 0 | Some n \<Rightarrow> unat n) @ '' hits)  '' @
     or_str (json_str (json_field r ''snippet'')) [] @ line_feed"

definition cmd_search :: "session_host \<Rightarrow> string list \<Rightarrow> string session_try" where
  "cmd_search H args =
     (case parse_args args of (flags, positional) \<Rightarrow>
        if positional = []
        then ret (Ok (''Usage: session search <query'' @ ellipsis @ ''> [--all] [--limit N]''))
        else attempt (do_search H (join_words positional) (cf_all flags) None (clamp_search_limit (cf_limit flags))) (\<lambda>r.
          if fst r = [] then ret (Ok (''No matches for '' @ quoted (join_words positional) @ ''.''))
          else ret (Ok (trim_end (show_nat (length (fst r)) @ '' match(es) for '' @ quoted (join_words positional) @ '':'' @
            line_feed @ concat (map search_line (fst r)))))))"

definition run_session_command :: "session_host \<Rightarrow> string \<Rightarrow> string session_try" where
  "run_session_command H txt =
     (let tokens = split_whitespace txt; sub = (case drop 1 tokens of [] \<Rightarrow> [] | s # _ \<Rightarrow> s); rest = drop 2 tokens in
      if sub = ''list'' \<or> sub = [] then cmd_list H rest
      else if sub = ''show'' then cmd_show H rest
      else if sub = ''rename'' then cmd_rename H rest
      else if sub = ''archive'' then cmd_set_archived H rest True
      else if sub = ''unarchive'' then cmd_set_archived H rest False
      else if sub = ''delete'' then cmd_delete rest
      else if sub = ''search'' then cmd_search H rest
      else ret (Ok (''Unknown session subcommand '' @ quoted sub @
        ''. Try: list, show, rename, archive, unarchive, delete, search.'')))"

definition handle_session_command :: "session_host \<Rightarrow> canonical_json \<Rightarrow> unit session_try" where
  "handle_session_command H payload = do {
     output \<leftarrow> run_session_command H (or_str (payload_str payload ''text'') []);
     session_publish ''agent.v1.response'' (json_obj [
       (''type'', CString ''agent_response''),
       (''text'', CString (case output of Ok s \<Rightarrow> s | Err e \<Rightarrow> ''Error: '' @ sh_show H e)),
       (''is_final'', CBool True),
       (''session_id'', CString (payload_session_id payload))]) }"

section \<open>The capsule\<close>

datatype session_event =
    Ev_Append canonical_json
  | Ev_Get_Messages canonical_json
  | Ev_Clear canonical_json
  | Ev_List canonical_json
  | Ev_Get_Meta canonical_json
  | Ev_Update canonical_json
  | Ev_Delete canonical_json
  | Ev_Search canonical_json
  | Ev_List_Threads "bool option" "u32 option"
  | Ev_Get_Thread string "u32 option"
  | Ev_Search_Conversations string "u32 option" "bool option"
  | Ev_Command canonical_json

text \<open>One invocation, with its host inputs; the key-value store and the bus carry over to the next.\<close>

definition session_handle :: "session_host \<Rightarrow> session_event \<Rightarrow> unit session_op" where
  "session_handle H e = (case e of
     Ev_Append p \<Rightarrow> do { _ \<leftarrow> handle_append H p; ret () }
   | Ev_Get_Messages p \<Rightarrow> do { _ \<leftarrow> handle_get_messages H p; ret () }
   | Ev_Clear p \<Rightarrow> do { _ \<leftarrow> handle_clear H p; ret () }
   | Ev_List p \<Rightarrow> do { _ \<leftarrow> handle_list H p; ret () }
   | Ev_Get_Meta p \<Rightarrow> do { _ \<leftarrow> handle_get_meta H p; ret () }
   | Ev_Update p \<Rightarrow> do { _ \<leftarrow> handle_update H p; ret () }
   | Ev_Delete p \<Rightarrow> do { _ \<leftarrow> handle_delete H p; ret () }
   | Ev_Search p \<Rightarrow> do { _ \<leftarrow> handle_search H p; ret () }
   | Ev_List_Threads a l \<Rightarrow> do { _ \<leftarrow> list_threads H a l; ret () }
   | Ev_Get_Thread i l \<Rightarrow> do { _ \<leftarrow> get_thread H i l; ret () }
   | Ev_Search_Conversations q l a \<Rightarrow> do { _ \<leftarrow> search_conversations H q l a; ret () }
   | Ev_Command p \<Rightarrow> do { _ \<leftarrow> handle_session_command H p; ret () })"

definition session_step :: "session_host \<Rightarrow> session_world \<Rightarrow> session_inputs \<times> session_event \<Rightarrow> session_world" where
  "session_step H w c = snd (run_state (session_handle H (snd c)) (w\<lparr>sw_in := fst c\<rparr>))"

definition session_run :: "session_host \<Rightarrow> session_world \<Rightarrow> (session_inputs \<times> session_event) list \<Rightarrow> session_world" where
  "session_run H = foldl (session_step H)"

end
