(* ===== verification/Session_Laws.thy ===== *)
theory Session_Laws
  imports Session_Handlers
begin

text \<open>
  What the session store promises while others write to it. The abstract store is the map from session ids to
  the sessions a reader would see (\<open>view\<close>); \<open>session_law\<close> is the interface between a predicate of the stored
  table and the operations: which changes of one session's view the predicate tolerates. Its lemmas say of
  every operation what it needs to be tolerated, whatever the other writers do within the predicate.
\<close>

section \<open>The abstract store\<close>

definition session_of :: "session_host \<Rightarrow> string \<Rightarrow> session_data" where
  "session_of H bytes = (case migrate (parse_session H bytes) of Ok (d, _) \<Rightarrow> d | Err fresh \<Rightarrow> fresh)"

definition view :: "session_host \<Rightarrow> kv_table \<Rightarrow> string \<Rightarrow> session_data option" where
  "view H m i = map_option (session_of H) (bt_get m (session_key i))"

definition seen :: "session_data option \<Rightarrow> session_data" where
  "seen v = (case v of None \<Rightarrow> session_default | Some d \<Rightarrow> d)"

lemma seen_simps [simp]: "seen None = session_default" "seen (Some d) = d"
  by (simp_all add: seen_def)

lemma session_key_inj [simp]: "session_key i = session_key j \<longleftrightarrow> i = j"
  by (simp add: session_key_def)

lemma view_insert: "view H (bt_insert (session_key i) b m) j = (if j = i then Some (session_of H b) else view H m j)"
  by (auto simp: view_def)

lemma view_delete: "view H (bt_delete (session_key i) m) j = (if j = i then None else view H m j)"
  by (auto simp: view_def bt_get_delete)

lemma session_default_version: "sd_schema_version session_default = session_data_schema_version"
  by (simp add: session_default_def)

lemma session_of_version: "sd_schema_version (session_of H b) = session_data_schema_version"
  by (auto simp: session_of_def migrate_def session_default_version split: sum.split)

lemma session_of_encoded:
  assumes "json_codec_ok (sh_codec H)" and "jc_encode (sh_codec H) d = Ok b"
    and "sd_schema_version d = session_data_schema_version"
  shows "session_of H b = d"
  using assms by (simp add: session_of_def parse_session_def migrate_def json_codec_ok_def)

lemma migrate_session_of:
  "migrate (parse_session H b) = Ok (d, s) \<Longrightarrow> session_of H b = d"
  "migrate (parse_session H b) = Err d \<Longrightarrow> session_of H b = d"
  by (simp_all add: session_of_def)

section \<open>The interface\<close>

definition held :: "(kv_table \<Rightarrow> bool) \<Rightarrow> session_world \<Rightarrow> bool" where
  "held P w \<longleftrightarrow> P (sw_kv w) \<and> (\<forall>t \<in> set (si_turns (sw_in w)). \<forall>m. P m \<longrightarrow> P (ht_others t m))"

lemma held_bus [simp]: "held P (w\<lparr>sw_bus := b\<rparr>) = held P w"
  by (simp add: held_def)

lemma yields_kv_turn:
  assumes "\<And>m. P m \<Longrightarrow> R (Ok (fst (f m))) \<and> P (snd (f m))" and "\<And>e. R (Err (Host_Error e))"
  shows "yields (held P) (kv_turn f) R"
  unfolding yields_def
proof (intro allI impI)
  fix w assume w: "held P w"
  show "R (fst (run_state (kv_turn f) w)) \<and> held P (snd (run_state (kv_turn f) w))"
  proof (cases "si_turns (sw_in w)")
    case Nil
    with w assms(1)[of "sw_kv w"] show ?thesis by (cases "f (sw_kv w)") (simp add: kv_turn_def held_def)
  next
    case (Cons t ts)
    with w have "P (ht_others t (sw_kv w))" by (simp add: held_def)
    with Cons w assms(1)[of "ht_others t (sw_kv w)"] assms(2) show ?thesis
      by (auto simp: kv_turn_def held_def Let_def split: prod.split option.split)
  qed
qed

lemma keeps_kv_turn: "(\<And>m. P m \<Longrightarrow> P (snd (f m))) \<Longrightarrow> keeps_world (held P) (kv_turn f)"
  by (rule yields_keeps[OF yields_kv_turn[where R = "\<lambda>_. True"]]) simp_all

locale session_law =
  fixes H :: session_host
    and P :: "kv_table \<Rightarrow> bool"
    and may :: "string \<Rightarrow> session_data option \<Rightarrow> session_data option \<Rightarrow> bool"
  assumes law_codec: "P m \<Longrightarrow> json_codec_ok (sh_codec H)"
    and law_write: "P m \<Longrightarrow> may i (view H m i) (Some d) \<Longrightarrow> sd_schema_version d = session_data_schema_version \<Longrightarrow>
      jc_encode (sh_codec H) d = Ok b \<Longrightarrow> P (bt_insert (session_key i) b m)"
    and law_erase: "P m \<Longrightarrow> may i (view H m i) None \<Longrightarrow> P (bt_delete (session_key i) m)"
    and law_rewrite: "P m \<Longrightarrow> view H m i = Some d \<Longrightarrow> may i (Some d) (Some d)"
begin

lemma keeps_sk_get [stays]: "keeps_world (held P) (sk_get k)"
  unfolding sk_get_def by (rule keeps_kv_turn) simp

lemma keeps_sk_list_keys [stays]: "keeps_world (held P) (sk_list_keys p)"
  unfolding sk_list_keys_def by (rule keeps_kv_turn) simp

lemma keeps_sk_list_keys_page [stays]: "keeps_world (held P) (sk_list_keys_page H p c l)"
  unfolding sk_list_keys_page_def by (rule keeps_kv_turn) simp

lemma keeps_now_unix [stays]: "keeps_world (held P) now_unix"
  by (auto simp: keeps_world_def now_unix_def held_def split: list.split)

lemma keeps_session_uuid [stays]: "keeps_world (held P) session_uuid"
  unfolding session_uuid_def by (intro stays)

lemma keeps_session_publish [stays]: "keeps_world (held P) (session_publish t m)"
  by (auto simp: keeps_world_def session_publish_def held_def Let_def split: list.split option.split)

lemma keeps_publish_session_event [stays]: "keeps_world (held P) (publish_session_event k i s)"
  unfolding publish_session_event_def by (intro stays)

lemma keeps_sk_delete: "(\<And>m. P m \<Longrightarrow> may i (view H m i) None) \<Longrightarrow> keeps_world (held P) (sk_delete (session_key i))"
  unfolding sk_delete_def by (rule keeps_kv_turn) (simp add: law_erase)

lemma keeps_cas:
  assumes "\<And>m. P m \<Longrightarrow> bt_get m (session_key i) = e \<Longrightarrow> may i (view H m i) (Some d)"
    and "sd_schema_version d = session_data_schema_version" and "jc_encode (sh_codec H) d = Ok b"
  shows "keeps_world (held P) (sk_cas (session_key i) e b)"
  unfolding sk_cas_def by (rule keeps_kv_turn) (use assms in \<open>auto intro: law_write\<close>)

text \<open>What is loaded is what the expected bytes say, so a swap that succeeds replaces what was loaded.\<close>

lemma yields_with_codec: "(json_codec_ok (sh_codec H) \<Longrightarrow> yields (held P) m R) \<Longrightarrow> yields (held P) m R"
proof (cases "json_codec_ok (sh_codec H)")
  case False
  then have "\<not> held P w" for w using law_codec[of "sw_kv w"] by (auto simp: held_def)
  then show ?thesis by (simp add: yields_def)
qed simp

lemma yields_save_migrated:
  assumes "session_of H bytes = d"
  shows "yields (held P) (save_migrated H (session_key i) bytes d)
    (\<lambda>r. fst r = seen (map_option (session_of H) (snd r)))"
proof (cases "jc_encode (sh_codec H) d")
  case (Inl e)
  then show ?thesis using assms by (simp add: save_migrated_def yields_ret)
next
  case (Inr b)
  have v: "sd_schema_version d = session_data_schema_version" using assms session_of_version by blast
  have "keeps_world (held P) (sk_cas (session_key i) (Some bytes) b)"
  proof (rule keeps_cas[OF _ v Inr])
    fix m assume m: "P m" "bt_get m (session_key i) = Some bytes"
    then have "view H m i = Some d" by (simp add: view_def assms)
    with law_rewrite[OF m(1) this] show "may i (view H m i) (Some d)" by simp
  qed
  then have y: "yields (held P) (sk_cas (session_key i) (Some bytes) b) (\<lambda>_. True)" by (rule keeps_yields)
  show ?thesis
  proof (rule yields_with_codec)
    assume "json_codec_ok (sh_codec H)"
    then have "session_of H b = d" by (rule session_of_encoded[OF _ Inr v])
    then have "yields (held P) (ret (d, Some (if r = Ok True then b else bytes)))
        (\<lambda>r. fst r = seen (map_option (session_of H) (snd r)))" for r :: "sys_error + bool"
      using assms by (intro yields_ret) simp
    then show ?thesis
      unfolding save_migrated_def Inr sum.case by (rule yields_bind[OF y])
  qed
qed

lemma yields_load: "yields (held P) (load H i) (\<lambda>r. fst r = seen (map_option (session_of H) (snd r)))"
  unfolding load_def
proof (rule yields_bind[OF keeps_yields[OF keeps_sk_get]])
  fix raw :: "sys_error + string option"
  show "yields (held P) (case raw of Err _ \<Rightarrow> ret (session_default, None) | Ok None \<Rightarrow> ret (session_default, None)
     | Ok (Some bytes) \<Rightarrow> (case migrate (parse_session H bytes) of
            Ok (migrated, needs_save) \<Rightarrow>
              if needs_save then save_migrated H (session_key i) bytes migrated else ret (migrated, Some bytes)
          | Err fresh \<Rightarrow> ret (fresh, Some bytes))) (\<lambda>r. fst r = seen (map_option (session_of H) (snd r)))"
    by (auto split: sum.split option.split simp: migrate_session_of intro!: yields_ret yields_save_migrated)
qed

lemma keeps_load [stays]: "keeps_world (held P) (load H i)"
  by (rule yields_keeps[OF yields_load])

text \<open>A swap that was won replaced the session that was stored at that moment.\<close>

definition swapped_in :: "string \<Rightarrow> (session_data option \<Rightarrow> session_data \<Rightarrow> bool) \<Rightarrow> session_data \<Rightarrow> session_world \<Rightarrow> bool" where
  "swapped_in i rel d w \<longleftrightarrow>
     (\<exists>m b. P m \<and> rel (view H m i) d \<and> jc_encode (sh_codec H) d = Ok b \<and> sw_kv w = bt_insert (session_key i) b m \<and>
        (\<forall>t \<in> set (si_turns (sw_in w)). \<forall>m. P m \<longrightarrow> P (ht_others t m)))"

lemma cas_swaps:
  assumes "held P w" and "run_state (sk_cas (session_key i) e b) w = (r, w')"
    and "rel (map_option (session_of H) e) d" and "jc_encode (sh_codec H) d = Ok b"
  shows "if r = Ok True then swapped_in i rel d w' else held P w'"
proof (cases "si_turns (sw_in w)")
  case Nil
  with assms show ?thesis
    by (auto simp: sk_cas_def kv_turn_def held_def swapped_in_def view_def split: if_splits)
next
  case (Cons t ts)
  with assms(1) have "P (ht_others t (sw_kv w))" by (simp add: held_def)
  with Cons assms show ?thesis
    by (auto simp: sk_cas_def kv_turn_def held_def swapped_in_def view_def Let_def split: if_splits option.splits)
qed

lemma modify_loop_swaps:
  assumes "held P w" and "run_state (modify_loop H i f n) w = (r, w')"
  shows "case r of Ok d \<Rightarrow> swapped_in i (\<lambda>v d. d = f (seen v)) d w' | Err _ \<Rightarrow> held P w'"
  using assms
proof (induction n arbitrary: w)
  case (Suc n)
  obtain d e w1 where l: "run_state (load H i) w = ((d, e), w1)" by (metis surj_pair)
  with yields_load[of i] Suc.prems(1) have d: "d = seen (map_option (session_of H) e)" and w1: "held P w1"
    by (fastforce simp: yields_def)+
  show ?case
  proof (cases "jc_encode (sh_codec H) (f d)")
    case (Inl x)
    with l Suc.prems w1 show ?thesis by (auto simp: run_bind)
  next
    case (Inr b)
    obtain c w2 where c: "run_state (sk_cas (session_key i) e b) w1 = (c, w2)" by (metis surj_pair)
    from cas_swaps[OF w1 c _ Inr, of "\<lambda>v d. d = f (seen v)"] d
    have s: "if c = Ok True then swapped_in i (\<lambda>v d. d = f (seen v)) (f d) w2 else held P w2" by simp
    show ?thesis
    proof (cases c)
      case (Inl x)
      with l c Inr Suc.prems s show ?thesis by (auto simp: run_bind)
    next
      case won: (Inr won)
      with l c Inr Suc s show ?thesis by (cases won) (auto simp: run_bind)
    qed
  qed
qed auto

lemma modify_existing_loop_swaps:
  assumes "held P w" and "run_state (modify_existing_loop H i f n) w = (r, w')"
  shows "case r of Ok (Some d) \<Rightarrow> swapped_in i (\<lambda>v d. \<exists>d0. v = Some d0 \<and> f d0 = Ok d) d w' | _ \<Rightarrow> held P w'"
  using assms
proof (induction n arbitrary: w)
  case (Suc n)
  let ?rel = "\<lambda>v d. \<exists>d0. v = Some d0 \<and> f d0 = Ok d"
  obtain d e w1 where l: "run_state (load H i) w = ((d, e), w1)" by (metis surj_pair)
  with yields_load[of i] Suc.prems(1) have d: "d = seen (map_option (session_of H) e)" and w1: "held P w1"
    by (fastforce simp: yields_def)+
  show ?case
  proof (cases e)
    case None
    with l Suc.prems w1 show ?thesis by (auto simp: run_bind)
  next
    case (Some b0)
    show ?thesis
    proof (cases "f d")
      case (Inl x)
      with l Some Suc.prems w1 show ?thesis by (auto simp: run_bind)
    next
      case fd: (Inr d')
      show ?thesis
      proof (cases "jc_encode (sh_codec H) d'")
        case (Inl x)
        with l Some fd Suc.prems w1 show ?thesis by (auto simp: run_bind)
      next
        case (Inr b)
        obtain c w2 where c: "run_state (sk_cas (session_key i) (Some b0) b) w1 = (c, w2)" by (metis surj_pair)
        from cas_swaps[OF w1 c _ Inr, of ?rel] d Some fd
        have s: "if c = Ok True then swapped_in i ?rel d' w2 else held P w2" by simp
        show ?thesis
        proof (cases c)
          case (Inl x)
          with l Some fd c Inr Suc.prems s show ?thesis by (auto simp: run_bind)
        next
          case won: (Inr won)
          with l Some fd c Inr Suc s show ?thesis by (cases won) (auto simp: run_bind)
        qed
      qed
    qed
  qed
qed auto

lemma keeps_modify_atomic:
  assumes "\<And>m. P m \<Longrightarrow> may i (view H m i) (Some (f (seen (view H m i))))"
    and "\<And>d. sd_schema_version (f d) = sd_schema_version d"
  shows "keeps_world (held P) (modify_atomic H i f)"
  unfolding keeps_world_def
proof (intro allI impI)
  fix w assume w: "held P w"
  obtain r w' where r: "run_state (modify_atomic H i f) w = (r, w')" by (metis surj_pair)
  have "sd_schema_version (seen (view H m i)) = session_data_schema_version" for m
    by (cases "view H m i") (auto simp: view_def session_of_version session_default_version)
  then have "sd_schema_version (f (seen (view H m i))) = session_data_schema_version" for m
    by (simp add: assms(2))
  with modify_loop_swaps[OF w r[unfolded modify_atomic_def]] assms(1)
  have "held P w'"
    by (auto split: sum.splits simp: swapped_in_def held_def intro!: law_write)
  with r show "held P (snd (run_state (modify_atomic H i f) w))" by simp
qed

lemma keeps_modify_existing:
  assumes "\<And>m d0 d. P m \<Longrightarrow> view H m i = Some d0 \<Longrightarrow> f d0 = Ok d \<Longrightarrow> may i (Some d0) (Some d)"
    and "\<And>d d'. f d = Ok d' \<Longrightarrow> sd_schema_version d' = sd_schema_version d"
  shows "keeps_world (held P) (modify_existing H i f)"
  unfolding keeps_world_def
proof (intro allI impI)
  fix w assume w: "held P w"
  obtain r w' where r: "run_state (modify_existing H i f) w = (r, w')" by (metis surj_pair)
  have "sd_schema_version d = session_data_schema_version" if "view H m i = Some d0" "f d0 = Ok d" for m d0 d
    using that assms(2) by (auto simp: view_def session_of_version)
  with modify_existing_loop_swaps[OF w r[unfolded modify_existing_def]] assms(1)
  have "held P w'"
    by (auto split: sum.splits option.splits simp: swapped_in_def held_def intro!: law_write)
  with r show "held P (snd (run_state (modify_existing H i f) w))" by simp
qed

end

end
