(* ===== verification/Session_Spec.thy ===== *)
theory Session_Spec
  imports Session_Laws
begin

text \<open>
  The abstract specification of the session capsule: per event, the changes it may make to one session
  (\<open>event_change\<close>), over the abstract store of \<open>Session_Laws\<close>. In the context of \<open>session_law\<close>, every handler, tool
  and command is shown to change the store by such steps only, interleaved with those of the other writers.
\<close>

section \<open>Changes of one session\<close>

definition append_change :: "string + message list \<Rightarrow> session_data option \<Rightarrow> session_data option \<Rightarrow> bool" where
  "append_change parsed v v' \<longleftrightarrow>
     (\<exists>ms now. parsed = Ok ms \<and> ms \<noteq> [] \<and> v' = Some (append_messages ms now (seen v)))"

definition update_change :: "string option patch_field \<Rightarrow> bool patch_field \<Rightarrow> string option patch_field \<Rightarrow>
    session_data option \<Rightarrow> session_data option \<Rightarrow> bool" where
  "update_change title archived meta v v' \<longleftrightarrow>
     (\<exists>now d d'. v = Some d \<and> update_mutation title archived meta now d = Ok d' \<and> v' = Some d')"

definition parsed_messages :: "session_host \<Rightarrow> canonical_json \<Rightarrow> string \<Rightarrow> string + message list" where
  "parsed_messages H p key = (case json_get p key of None \<Rightarrow> Ok [] | Some v \<Rightarrow> sh_messages H v)"

definition command_change :: "string list \<Rightarrow> string \<Rightarrow> session_data option \<Rightarrow> session_data option \<Rightarrow> bool" where
  "command_change tokens i v v' \<longleftrightarrow>
     (let sub = (case drop 1 tokens of [] \<Rightarrow> [] | s # _ \<Rightarrow> s); positional = snd (parse_args (drop 2 tokens)) in
      positional \<noteq> [] \<and> i = hd positional \<and>
      (sub = ''rename'' \<and> update_change (Replace (Some (join_words (tl positional)))) Keep Keep v v' \<or>
       sub = ''archive'' \<and> update_change Keep (Replace True) Keep v v' \<or>
       sub = ''unarchive'' \<and> update_change Keep (Replace False) Keep v v' \<or>
       sub = ''delete'' \<and> v' = None))"

definition event_change :: "session_host \<Rightarrow> session_event \<Rightarrow> string \<Rightarrow> session_data option \<Rightarrow> session_data option \<Rightarrow> bool" where
  "event_change H e i v v' = (case e of
     Ev_Append p \<Rightarrow> i = payload_session_id p \<and> append_change (parsed_messages H p ''messages'') v v'
   | Ev_Get_Messages p \<Rightarrow> i = payload_session_id p \<and> append_change (parsed_messages H p ''append_before_read'') v v'
   | Ev_Clear p \<Rightarrow> v = None \<and> (\<exists>now. v' = Some (cleared_session (payload_session_id p) now))
   | Ev_Update p \<Rightarrow> i = payload_session_id p \<and>
       update_change (string_patch_from p ''title'') (bool_patch_from p ''archived'') (string_patch_from p ''meta'') v v'
   | Ev_Delete p \<Rightarrow> i = payload_session_id p \<and> v' = None
   | Ev_Command p \<Rightarrow> command_change (split_whitespace (or_str (payload_str p ''text'') [])) i v v'
   | _ \<Rightarrow> False)"

lemma apply_update_patch_Ok_iff:
  "apply_update_patch title archived meta d = Ok d' \<longleftrightarrow>
     (\<forall>s. meta = Replace (Some s) \<longrightarrow> length s \<le> meta_max_bytes) \<and>
     d' = d\<lparr>sd_title := patched title (sd_title d), sd_archived := patched archived (sd_archived d),
       sd_meta := patched meta (sd_meta d)\<rparr>"
  by (cases meta) (auto simp: apply_update_patch_def Let_def not_less split: option.split)

lemma update_mutation_Ok:
  assumes "update_mutation title archived meta now d = Ok d'"
  shows "d' = touch_opt now (d\<lparr>sd_title := patched title (sd_title d), sd_archived := patched archived (sd_archived d),
       sd_meta := patched meta (sd_meta d)\<rparr>)" and "\<forall>s. meta = Replace (Some s) \<longrightarrow> length s \<le> meta_max_bytes"
  using assms by (simp_all add: update_mutation_def result_simps apply_update_patch_Ok_iff)

lemma touch_opt_fields [simp]:
  "sd_schema_version (touch_opt now d) = sd_schema_version d" "sd_parent (touch_opt now d) = sd_parent d"
  "sd_messages (touch_opt now d) = sd_messages d" "sd_title (touch_opt now d) = sd_title d"
  "sd_archived (touch_opt now d) = sd_archived d" "sd_meta (touch_opt now d) = sd_meta d"
  by (simp_all add: touch_opt_def touch_def split: option.split)

lemma append_messages_fields [simp]:
  "sd_schema_version (append_messages ms now d) = sd_schema_version d" "sd_meta (append_messages ms now d) = sd_meta d"
  "sd_messages (append_messages ms now d) = sd_messages d @ ms"
  by (simp_all add: append_messages_def)

lemma update_mutation_version:
  "update_mutation title archived meta now d = Ok d' \<Longrightarrow> sd_schema_version d' = sd_schema_version d"
  using update_mutation_Ok(1) by fastforce

lemma cleared_version [simp]: "sd_schema_version (cleared_session old now) = session_data_schema_version"
  by (simp add: cleared_session_def session_default_def)

section \<open>Every operation steps within the specification\<close>

context session_law
begin

lemma keeps_append:
  assumes "\<And>m v'. P m \<Longrightarrow> append_change (Ok ms) (view H m i) v' \<Longrightarrow> may i (view H m i) v'" and "ms \<noteq> []"
  shows "keeps_world (held P) (modify_atomic H i (append_messages ms now))"
  by (rule keeps_modify_atomic) (use assms in \<open>auto simp: append_change_def\<close>)

lemma keeps_handle_append [stays]:
  assumes "\<And>m v'. P m \<Longrightarrow> append_change (parsed_messages H p ''messages'') (view H m (payload_session_id p)) v' \<Longrightarrow>
    may (payload_session_id p) (view H m (payload_session_id p)) v'"
  shows "keeps_world (held P) (handle_append H p)"
  unfolding handle_append_def parsed_messages_def[symmetric]
  by (intro stays keeps_append) (use assms in auto)

lemma keeps_read_messages [stays]: "keeps_world (held P) (read_messages H i)"
  unfolding read_messages_def by (intro stays)

lemma keeps_append_before_read:
  assumes "\<And>m v'. P m \<Longrightarrow> append_change (parsed_messages H p ''append_before_read'') (view H m (payload_session_id p)) v' \<Longrightarrow>
    may (payload_session_id p) (view H m (payload_session_id p)) v'"
  shows "keeps_world (held P) (append_before_read H p)"
  unfolding append_before_read_def
  by (intro stays keeps_append) (use assms in \<open>auto simp: parsed_messages_def\<close>)

lemma keeps_answering:
  assumes "\<And>c. keeps_world (held P) (body c)"
  shows "keeps_world (held P) (answering v p body)"
  unfolding answering_def by (intro stays assms)

lemma keeps_clear_session:
  assumes "\<And>i m now. P m \<Longrightarrow> view H m i = None \<Longrightarrow> may i None (Some (cleared_session old now))"
  shows "keeps_world (held P) (clear_session H old)"
  unfolding clear_session_def Let_def
  by (intro stays keeps_cas) (use assms in \<open>auto simp: view_def\<close>)

lemma keeps_do_update:
  assumes "\<And>m v'. P m \<Longrightarrow> update_change title archived meta (view H m i) v' \<Longrightarrow> may i (view H m i) v'"
  shows "keeps_world (held P) (do_update H i title archived meta)"
proof -
  have c: "may i (Some d0) (Some d)" if "P m" "view H m i = Some d0" "update_mutation title archived meta now d0 = Ok d" for m d0 d now
    using assms[OF that(1), of "Some d"] that by (auto simp: update_change_def)
  show ?thesis
    unfolding do_update_def
    by (intro stays keeps_modify_existing) (auto intro: c simp: update_mutation_version)
qed

lemma keeps_do_delete:
  assumes "\<And>m. P m \<Longrightarrow> may i (view H m i) None"
  shows "keeps_world (held P) (do_delete i)"
  unfolding do_delete_def by (intro stays keeps_sk_delete assms)

lemma keeps_list_summaries [stays]: "keeps_world (held P) (list_summaries H a keys)"
  by (induction keys) (auto intro!: stays split: option.split)

lemma keeps_do_list [stays]: "keeps_world (held P) (do_list H a c l)"
  unfolding do_list_def by (intro stays)

lemma keeps_do_get_meta [stays]: "keeps_world (held P) (do_get_meta H i)"
  unfolding do_get_meta_def by (intro stays)

lemma keeps_scan_keys [stays]: "keeps_world (held P) (scan_keys H q a l keys results n)"
  by (induction keys arbitrary: results n) (auto intro!: stays split: option.split simp: Let_def)

lemma keeps_scan_pages [stays]: "keeps_world (held P) (scan_pages fuel H q a l c results n)"
proof (induction fuel arbitrary: c results n)
  case (Suc fuel)
  show ?case
    by (auto intro!: stays Suc split: option.split scan_end.split)
qed (simp add: stays)

lemma keeps_do_search [stays]: "keeps_world (held P) (do_search H q a c l)"
  unfolding do_search_def by (intro stays)

lemma keeps_tools [stays]:
  "keeps_world (held P) (list_threads H a l)"
  "keeps_world (held P) (get_thread H i l)"
  "keeps_world (held P) (search_conversations H q l a)"
  unfolding list_threads_def get_thread_def search_conversations_def by (intro stays)+

lemma keeps_cmd_list [stays]: "keeps_world (held P) (cmd_list H args)"
  unfolding cmd_list_def Let_def by (intro stays)

lemma keeps_cmd_show [stays]: "keeps_world (held P) (cmd_show H args)"
  by (cases "parse_args args"; cases "snd (parse_args args)") (simp_all add: cmd_show_def stays)

lemma keeps_cmd_search [stays]: "keeps_world (held P) (cmd_search H args)"
  unfolding cmd_search_def by (intro stays)

lemma keeps_cmd_rename:
  assumes "\<And>i ps m v'. snd (parse_args args) = i # ps \<Longrightarrow> P m \<Longrightarrow>
    update_change (Replace (Some (join_words ps))) Keep Keep (view H m i) v' \<Longrightarrow> may i (view H m i) v'"
  shows "keeps_world (held P) (cmd_rename H args)"
proof (cases "snd (parse_args args)")
  case (Cons i ps)
  with assms have "keeps_world (held P) (do_update H i (Replace (Some (join_words ps))) Keep Keep)"
    by (intro keeps_do_update) blast
  with Cons show ?thesis by (cases ps) (simp_all add: cmd_rename_def stays)
qed (simp add: cmd_rename_def stays)

lemma keeps_cmd_set_archived:
  assumes "\<And>i ps m v'. snd (parse_args args) = i # ps \<Longrightarrow> P m \<Longrightarrow>
    update_change Keep (Replace b) Keep (view H m i) v' \<Longrightarrow> may i (view H m i) v'"
  shows "keeps_world (held P) (cmd_set_archived H args b)"
proof (cases "snd (parse_args args)")
  case (Cons i ps)
  with assms have "keeps_world (held P) (do_update H i Keep (Replace b) Keep)"
    by (intro keeps_do_update) blast
  with Cons show ?thesis by (simp add: cmd_set_archived_def stays)
qed (simp add: cmd_set_archived_def stays)

lemma keeps_cmd_delete:
  assumes "\<And>i ps m. snd (parse_args args) = i # ps \<Longrightarrow> P m \<Longrightarrow> may i (view H m i) None"
  shows "keeps_world (held P) (cmd_delete args)"
proof (cases "snd (parse_args args)")
  case (Cons i ps)
  with assms have "keeps_world (held P) (do_delete i)" by (intro keeps_do_delete) blast
  with Cons show ?thesis by (simp add: cmd_delete_def stays)
qed (simp add: cmd_delete_def stays)

lemma keeps_command:
  assumes "\<And>i m v'. P m \<Longrightarrow> command_change (split_whitespace txt) i (view H m i) v' \<Longrightarrow> may i (view H m i) v'"
  shows "keeps_world (held P) (run_session_command H txt)"
proof -
  define sub where "sub = (case drop 1 (split_whitespace txt) of [] \<Rightarrow> [] | s # _ \<Rightarrow> s)"
  define rest where "rest = drop 2 (split_whitespace txt)"
  have c: "command_change (split_whitespace txt) i v v' \<longleftrightarrow> snd (parse_args rest) \<noteq> [] \<and> i = hd (snd (parse_args rest)) \<and>
     (sub = ''rename'' \<and> update_change (Replace (Some (join_words (tl (snd (parse_args rest)))))) Keep Keep v v' \<or>
       sub = ''archive'' \<and> update_change Keep (Replace True) Keep v v' \<or>
       sub = ''unarchive'' \<and> update_change Keep (Replace False) Keep v v' \<or>
       sub = ''delete'' \<and> v' = None)" for i v v'
    by (simp add: command_change_def sub_def rest_def Let_def)
  have "keeps_world (held P) (cmd_rename H rest)" if "sub = ''rename''"
    by (rule keeps_cmd_rename) (use that in \<open>auto intro!: assms simp: c\<close>)
  moreover have "keeps_world (held P) (cmd_set_archived H rest True)" if "sub = ''archive''"
    by (rule keeps_cmd_set_archived) (use that in \<open>auto intro!: assms simp: c\<close>)
  moreover have "keeps_world (held P) (cmd_set_archived H rest False)" if "sub = ''unarchive''"
    by (rule keeps_cmd_set_archived) (use that in \<open>auto intro!: assms simp: c\<close>)
  moreover have "keeps_world (held P) (cmd_delete rest)" if "sub = ''delete''"
    by (rule keeps_cmd_delete) (use that in \<open>auto intro!: assms simp: c\<close>)
  ultimately show ?thesis
    unfolding run_session_command_def Let_def sub_def[symmetric] rest_def[symmetric]
    by (intro stays)
qed

theorem keeps_session_handle:
  assumes "\<And>i m v'. P m \<Longrightarrow> event_change H e i (view H m i) v' \<Longrightarrow> may i (view H m i) v'"
  shows "keeps_world (held P) (session_handle H e)"
proof (cases e)
  case (Ev_Append p)
  have "keeps_world (held P) (handle_append H p)"
    by (rule keeps_handle_append) (use assms Ev_Append in \<open>simp add: event_change_def\<close>)
  then show ?thesis by (simp add: session_handle_def Ev_Append stays)
next
  case (Ev_Get_Messages p)
  have "keeps_world (held P) (append_before_read H p)"
    by (rule keeps_append_before_read) (use assms Ev_Get_Messages in \<open>simp add: event_change_def\<close>)
  then show ?thesis
    by (simp add: session_handle_def Ev_Get_Messages handle_get_messages_def keeps_answering stays)
next
  case (Ev_Clear p)
  have "keeps_world (held P) (clear_session H (payload_session_id p))"
  proof (rule keeps_clear_session)
    fix i m now assume "P m" "view H m i = None"
    with assms[of m i "Some (cleared_session (payload_session_id p) now)"] Ev_Clear
    show "may i None (Some (cleared_session (payload_session_id p) now))" by (auto simp: event_change_def)
  qed
  then show ?thesis by (simp add: session_handle_def Ev_Clear handle_clear_def keeps_answering stays)
next
  case (Ev_Update p)
  have "keeps_world (held P) (do_update H (payload_session_id p) (string_patch_from p ''title'')
      (bool_patch_from p ''archived'') (string_patch_from p ''meta''))"
    by (rule keeps_do_update) (use assms Ev_Update in \<open>simp add: event_change_def\<close>)
  then show ?thesis by (simp add: session_handle_def Ev_Update handle_update_def keeps_answering stays)
next
  case (Ev_Delete p)
  have "keeps_world (held P) (do_delete (payload_session_id p))"
    by (rule keeps_do_delete) (use assms Ev_Delete in \<open>simp add: event_change_def\<close>)
  then show ?thesis by (simp add: session_handle_def Ev_Delete handle_delete_def keeps_answering stays)
next
  case (Ev_Command p)
  have "keeps_world (held P) (run_session_command H (or_str (payload_str p ''text'') []))"
    by (rule keeps_command) (use assms Ev_Command in \<open>simp add: event_change_def\<close>)
  then show ?thesis by (simp add: session_handle_def Ev_Command handle_session_command_def stays)
qed (simp_all add: session_handle_def handle_list_def handle_get_meta_def handle_search_def keeps_answering stays)

end

end
