(* ===== verification/Session_Properties.thy ===== *)
theory Session_Properties
  imports Session_Spec
begin

text \<open>
  What holds of the session capsule: its events refine the abstract store, an append is stored exactly once
  among the messages of other writers, an event changes only the session it names, and every stored session
  stays readable.
\<close>

section \<open>Refinement\<close>

definition change_step :: "session_host \<Rightarrow> session_event \<Rightarrow> (string \<Rightarrow> session_data option \<Rightarrow> session_data option \<Rightarrow> bool) \<Rightarrow>
    string \<Rightarrow> session_data option \<Rightarrow> session_data option \<Rightarrow> bool" where
  "change_step H e others i v v' \<longleftrightarrow> others i v v' \<or> event_change H e i v v'"

definition stepped :: "session_host \<Rightarrow> session_event \<Rightarrow> (string \<Rightarrow> session_data option \<Rightarrow> session_data option \<Rightarrow> bool) \<Rightarrow>
    (string \<Rightarrow> session_data option) \<Rightarrow> kv_table \<Rightarrow> bool" where
  "stepped H e others V m \<longleftrightarrow> json_codec_ok (sh_codec H) \<and> (\<forall>i. (change_step H e others i)\<^sup>*\<^sup>* (V i) (view H m i))"

lemma rtranclp_step: "r\<^sup>*\<^sup>* a b \<Longrightarrow> r\<^sup>=\<^sup>= b c \<Longrightarrow> r\<^sup>*\<^sup>* a c"
  by (auto intro: rtranclp.rtrancl_into_rtrancl)

interpretation refining: session_law H "stepped H e others V" "\<lambda>i. (change_step H e others i)\<^sup>=\<^sup>="
  for H e others V
proof
  fix m i d b
  assume m: "stepped H e others V m" "(change_step H e others i)\<^sup>=\<^sup>= (view H m i) (Some d)"
    "sd_schema_version d = session_data_schema_version" "jc_encode (sh_codec H) d = Ok b"
  have "(change_step H e others i)\<^sup>*\<^sup>* (V i) (Some d)"
    using m(1,2) by (auto simp: stepped_def intro: rtranclp_step)
  moreover have "session_of H b = d" using m session_of_encoded unfolding stepped_def by blast
  ultimately show "stepped H e others V (bt_insert (session_key i) b m)"
    using m(1) by (simp add: stepped_def view_insert)
next
  fix m i
  assume "stepped H e others V m" "(change_step H e others i)\<^sup>=\<^sup>= (view H m i) None"
  then show "stepped H e others V (bt_delete (session_key i) m)"
    by (auto simp: stepped_def view_delete intro: rtranclp_step)
qed (simp_all add: stepped_def)

text \<open>C24. Refinement of the abstract store: whatever an event does to the stored table, what a reader sees of each
  session moves by steps of the specification (\<open>event_change\<close>) and by the steps of the other writers, which
  run before any call of the host; calls of the host may fail at any point.
\<close>

theorem session_events_refine:
  assumes "json_codec_ok (sh_codec H)"
    and "\<forall>t \<in> set (si_turns ins). \<forall>m i. (others i)\<^sup>*\<^sup>* (view H m i) (view H (ht_others t m) i)"
  shows "\<forall>i. (change_step H e others i)\<^sup>*\<^sup>* (view H (sw_kv w) i) (view H (sw_kv (session_step H w (ins, e))) i)"
proof -
  let ?V = "view H (sw_kv w)"
  have "stepped H e others ?V (ht_others t m)" if "t \<in> set (si_turns ins)" "stepped H e others ?V m" for t m
  proof -
    have "(change_step H e others i)\<^sup>*\<^sup>* (view H m i) (view H (ht_others t m) i)" for i
      using assms(2) that(1) by (auto simp: change_step_def intro: mono_rtranclp[rule_format, of "others i"])
    with that(2) show ?thesis unfolding stepped_def by (meson rtranclp_trans)
  qed
  then have "held (stepped H e others ?V) (w\<lparr>sw_in := ins\<rparr>)"
    using assms(1) by (simp add: held_def stepped_def)
  moreover have "keeps_world (held (stepped H e others ?V)) (session_handle H e)"
    by (rule refining.keeps_session_handle) (simp add: change_step_def)
  ultimately have "held (stepped H e others ?V) (session_step H w (ins, e))"
    by (simp add: session_step_def keeps_world_def)
  then show ?thesis by (simp add: held_def stepped_def)
qed

section \<open>Appends among other writers\<close>

text \<open>The messages that are stored for a session, whatever version its blob has; and the sessions whose blob, if there
  is one, parses and has a version that the capsule knows. A reader sees the stored messages of these only: of any
  other blob it sees none.\<close>

definition transcript :: "session_host \<Rightarrow> kv_table \<Rightarrow> string \<Rightarrow> message list" where
  "transcript H m i = (case bt_get m (session_key i) of None \<Rightarrow> []
     | Some b \<Rightarrow> (case jc_decode (sh_codec H) b of Ok d \<Rightarrow> sd_messages d | Err _ \<Rightarrow> []))"

definition known_session :: "session_host \<Rightarrow> kv_table \<Rightarrow> string \<Rightarrow> bool" where
  "known_session H m i \<longleftrightarrow> (\<forall>b. bt_get m (session_key i) = Some b \<longrightarrow>
     (\<exists>d. jc_decode (sh_codec H) b = Ok d \<and> sd_schema_version d \<le> session_data_schema_version))"

lemma known_transcript:
  assumes "known_session H m i"
  shows "transcript H m i = sd_messages (seen (view H m i))"
proof (cases "bt_get m (session_key i)")
  case (Some b)
  with assms obtain d where "jc_decode (sh_codec H) b = Ok d" "sd_schema_version d \<le> session_data_schema_version"
    by (auto simp: known_session_def)
  with Some show ?thesis
    by (auto simp: transcript_def view_def session_of_def parse_session_def migrate_def)
qed (simp add: transcript_def view_def session_default_def)

lemma transcript_insert:
  assumes "json_codec_ok (sh_codec H)" and "jc_encode (sh_codec H) d = Ok b"
    and "sd_schema_version d = session_data_schema_version"
  shows "transcript H (bt_insert (session_key j) b m) i = (if i = j then sd_messages d else transcript H m i)"
    and "known_session H (bt_insert (session_key j) b m) i \<longleftrightarrow> i = j \<or> known_session H m i"
proof -
  have "jc_decode (sh_codec H) b = Ok d" using assms(1,2) by (auto simp: json_codec_ok_def)
  with assms(3) show "transcript H (bt_insert (session_key j) b m) i = (if i = j then sd_messages d else transcript H m i)"
    "known_session H (bt_insert (session_key j) b m) i \<longleftrightarrow> i = j \<or> known_session H m i"
    by (auto simp: transcript_def known_session_def bt_get_insert)
qed

lemma transcript_delete:
  "transcript H (bt_delete (session_key j) m) i = (if i = j then [] else transcript H m i)"
  "known_session H (bt_delete (session_key j) m) i \<longleftrightarrow> i = j \<or> known_session H m i"
  by (auto simp: transcript_def known_session_def bt_get_delete)

definition grown :: "session_host \<Rightarrow> message set \<Rightarrow> string \<Rightarrow> message list \<Rightarrow> kv_table \<Rightarrow> bool" where
  "grown H S i base m \<longleftrightarrow> json_codec_ok (sh_codec H) \<and> known_session H m i \<and>
     (\<exists>xs. set xs \<subseteq> S \<and> transcript H m i = base @ xs)"

definition same_messages :: "string \<Rightarrow> string \<Rightarrow> session_data option \<Rightarrow> session_data option \<Rightarrow> bool" where
  "same_messages i j v v' \<longleftrightarrow> (j = i \<longrightarrow> sd_messages (seen v') = sd_messages (seen v))"

interpretation growing: session_law H "grown H S i base" "same_messages i" for H S i base
proof
  fix m j d b
  assume "grown H S i base m" "same_messages i j (view H m j) (Some d)"
    "sd_schema_version d = session_data_schema_version" "jc_encode (sh_codec H) d = Ok b"
  then show "grown H S i base (bt_insert (session_key j) b m)"
    using transcript_insert[of H d b] known_transcript[of H m i] by (auto simp: grown_def same_messages_def)
next
  fix m j assume "grown H S i base m" "same_messages i j (view H m j) None"
  then show "grown H S i base (bt_delete (session_key j) m)"
    using known_transcript[of H m i] by (auto simp: grown_def same_messages_def transcript_delete session_default_def)
qed (auto simp: grown_def same_messages_def)

text \<open>The other writers of a session append messages of \<open>S\<close> to it as long as its blob is known, and do nothing else to
  it.\<close>

definition others_append :: "session_host \<Rightarrow> message set \<Rightarrow> string \<Rightarrow> session_inputs \<Rightarrow> bool" where
  "others_append H S i ins \<longleftrightarrow> (\<forall>t \<in> set (si_turns ins). \<forall>m. known_session H m i \<longrightarrow> known_session H (ht_others t m) i \<and>
     (\<exists>xs. set xs \<subseteq> S \<and> transcript H (ht_others t m) i = transcript H m i @ xs))"

lemma grown_start:
  assumes "json_codec_ok (sh_codec H)" and "others_append H S i (sw_in w)" and "known_session H (sw_kv w) i"
  shows "held (grown H S i (transcript H (sw_kv w) i)) w"
  unfolding held_def
proof (intro conjI ballI allI impI)
  show "grown H S i (transcript H (sw_kv w) i) (sw_kv w)"
    using assms(1,3) by (auto simp: grown_def intro: exI[of _ "[]"])
  fix t m assume t: "t \<in> set (si_turns (sw_in w))" "grown H S i (transcript H (sw_kv w) i) m"
  from t(2) obtain xs where "set xs \<subseteq> S" "transcript H m i = transcript H (sw_kv w) i @ xs" by (auto simp: grown_def)
  moreover from assms(2) t obtain ys where "known_session H (ht_others t m) i" "set ys \<subseteq> S"
    "transcript H (ht_others t m) i = transcript H m i @ ys"
    unfolding others_append_def grown_def by blast
  ultimately show "grown H S i (transcript H (sw_kv w) i) (ht_others t m)"
    using assms(1) by (auto simp: grown_def intro!: exI[of _ "xs @ ys"])
qed

lemma append_loop:
  assumes "json_codec_ok (sh_codec H)" and "others_append H S i (sw_in w)" and "known_session H (sw_kv w) i"
    and "run_state (modify_atomic H i (append_messages ms now)) w = (r, w')"
  shows "known_session H (sw_kv w') i \<and> (\<exists>xs. set xs \<subseteq> S \<and> (case r of
      Ok d \<Rightarrow> sd_messages d = transcript H (sw_kv w) i @ xs @ ms \<and> transcript H (sw_kv w') i = sd_messages d
    | Err _ \<Rightarrow> transcript H (sw_kv w') i = transcript H (sw_kv w) i @ xs))"
proof (cases r)
  case (Inl e)
  with growing.modify_loop_swaps[OF grown_start[OF assms(1-3)] assms(4)[unfolded modify_atomic_def]]
  show ?thesis by (auto simp: held_def grown_def)
next
  case (Inr d)
  with growing.modify_loop_swaps[OF grown_start[OF assms(1-3)] assms(4)[unfolded modify_atomic_def]]
  obtain m b where m: "grown H S i (transcript H (sw_kv w) i) m" "d = append_messages ms now (seen (view H m i))"
    and b: "jc_encode (sh_codec H) d = Ok b" "sw_kv w' = bt_insert (session_key i) b m"
    by (auto simp: growing.swapped_in_def)
  have "sd_schema_version d = session_data_schema_version"
    using m(2) by (cases "view H m i") (auto simp: session_default_version view_def session_of_version)
  from transcript_insert[OF assms(1) b(1) this]
  have "transcript H (sw_kv w') i = sd_messages d" "known_session H (sw_kv w') i" by (simp_all add: b(2))
  moreover have "transcript H m i = sd_messages (seen (view H m i))" using m(1) known_transcript by (auto simp: grown_def)
  ultimately show ?thesis using m Inr by (auto simp: grown_def)
qed

lemma now_unix_run: "run_state now_unix w = (t, w1) \<Longrightarrow> sw_kv w1 = sw_kv w \<and> si_turns (sw_in w1) = si_turns (sw_in w)"
  by (auto simp: now_unix_def split: list.splits)

text \<open>C25. On a session that is absent, or whose blob parses and has a version that the capsule knows, an append is
  stored exactly once and nothing is lost: if the other writers of the session keep it so and only append, then after
  \<open>handle_append\<close> the stored messages are the old ones, followed by what the others appended, followed by the request's
  messages when the handler reports success and by nothing of the request when it does not, however often the swap was
  lost and whichever host calls failed; and the session is still one the capsule knows. A blob of a newer version, or
  one that does not parse, is outside: an append replaces it and its messages are lost, as the last section of
  \<open>Session_Search\<close> shows.
\<close>

theorem append_stored_once:
  assumes "json_codec_ok (sh_codec H)" and "parsed_messages H p ''messages'' = Ok ms"
    and "known_session H (sw_kv w) (payload_session_id p)"
    and "others_append H S (payload_session_id p) (sw_in w)"
    and "run_state (handle_append H p) w = (r, w')"
  shows "known_session H (sw_kv w') (payload_session_id p) \<and>
    (\<exists>xs. set xs \<subseteq> S \<and> transcript H (sw_kv w') (payload_session_id p) =
      transcript H (sw_kv w) (payload_session_id p) @ xs @ (if r = Ok () then ms else []))"
proof (cases "ms = []")
  case True
  with assms(2,3,5) show ?thesis by (auto simp: handle_append_def parsed_messages_def intro: exI[of _ "[]"])
next
  case False
  obtain now w1 where n: "run_state now_unix w = (now, w1)" by (metis surj_pair)
  obtain q where q: "run_state (modify_atomic H (payload_session_id p) (append_messages ms now)) w1 = (q, w')"
      "r = (case q of Err e \<Rightarrow> Err e | Ok _ \<Rightarrow> Ok ())"
    using assms(2,5) False n
    by (auto simp: handle_append_def parsed_messages_def run_bind run_attempt split: prod.splits sum.splits)
  have "others_append H S (payload_session_id p) (sw_in w1)"
    "known_session H (sw_kv w1) (payload_session_id p)"
    using assms(3,4) now_unix_run[OF n] by (simp_all add: others_append_def)
  from append_loop[OF assms(1) this q(1)] now_unix_run[OF n] q(2) show ?thesis
    by (cases q) auto
qed

text \<open>Append-before-read reads its own write: when \<open>append_before_read\<close> succeeds with messages to append, the
  history it returns ends in them, contains everything stored before and what others appended meanwhile, and
  is what is stored.
\<close>

theorem append_before_read_atomic:
  assumes "json_codec_ok (sh_codec H)" and "json_get p ''append_before_read'' = Some v" and "sh_messages H v = Ok ms"
    and "ms \<noteq> []" and "others_append H S (payload_session_id p) (sw_in w)"
    and "known_session H (sw_kv w) (payload_session_id p)"
    and "run_state (append_before_read H p) w = (Ok d, w')"
  shows "\<exists>xs. set xs \<subseteq> S \<and> sd_messages d = transcript H (sw_kv w) (payload_session_id p) @ xs @ ms \<and>
    transcript H (sw_kv w') (payload_session_id p) = sd_messages d"
proof -
  obtain now w1 where n: "run_state now_unix w = (now, w1)" by (metis surj_pair)
  with assms have q: "run_state (modify_atomic H (payload_session_id p) (append_messages ms now)) w1 = (Ok d, w')"
    by (simp add: append_before_read_def run_bind)
  have "others_append H S (payload_session_id p) (sw_in w1)"
    "known_session H (sw_kv w1) (payload_session_id p)"
    using assms(5,6) now_unix_run[OF n] by (simp_all add: others_append_def)
  from append_loop[OF assms(1) this q] now_unix_run[OF n] show ?thesis by auto
qed

section \<open>Isolation\<close>

definition named_session :: "session_event \<Rightarrow> string option" where
  "named_session e = (case e of
     Ev_Append p \<Rightarrow> Some (payload_session_id p)
   | Ev_Get_Messages p \<Rightarrow> Some (payload_session_id p)
   | Ev_Update p \<Rightarrow> Some (payload_session_id p)
   | Ev_Delete p \<Rightarrow> Some (payload_session_id p)
   | Ev_Command p \<Rightarrow> (case snd (parse_args (drop 2 (split_whitespace (or_str (payload_str p ''text'') [])))) of
       [] \<Rightarrow> None | i # _ \<Rightarrow> Some i)
   | _ \<Rightarrow> None)"

definition stands :: "session_host \<Rightarrow> string \<Rightarrow> session_data \<Rightarrow> kv_table \<Rightarrow> bool" where
  "stands H i d m \<longleftrightarrow> json_codec_ok (sh_codec H) \<and> view H m i = Some d"

interpretation standing: session_law H "stands H i d" "\<lambda>j v v'. j = i \<longrightarrow> v' = v" for H i d
proof
  fix m j d' b
  assume "stands H i d m" "j = i \<longrightarrow> Some d' = view H m j"
    "sd_schema_version d' = session_data_schema_version" "jc_encode (sh_codec H) d' = Ok b"
  then show "stands H i d (bt_insert (session_key j) b m)"
    using session_of_encoded[of H d' b] by (auto simp: stands_def view_insert)
qed (auto simp: stands_def view_delete)

lemma unnamed_unchanged: "named_session e \<noteq> Some i \<Longrightarrow> event_change H e i (Some d) v' \<Longrightarrow> False"
  by (auto simp: named_session_def event_change_def command_change_def Let_def split: session_event.splits list.splits)

text \<open>An event leaves every existing session but the one it names as it was: lists, searches and the tools of
  the agent change no session, a clear leaves the old session in place, and an event cannot reach another
  session through the id it carries.
\<close>

lemma only_named_session_changes:
  assumes "json_codec_ok (sh_codec H)" and "view H (sw_kv w) i = Some d" and "named_session e \<noteq> Some i"
    and "\<forall>t \<in> set (si_turns ins). \<forall>m. view H m i = Some d \<longrightarrow> view H (ht_others t m) i = Some d"
  shows "view H (sw_kv (session_step H w (ins, e))) i = Some d"
proof -
  have "held (stands H i d) (w\<lparr>sw_in := ins\<rparr>)"
    using assms(1,2,4) by (simp add: held_def stands_def)
  moreover have "keeps_world (held (stands H i d)) (session_handle H e)"
    by (rule standing.keeps_session_handle) (auto simp: stands_def dest: unnamed_unchanged[OF assms(3)])
  ultimately have "held (stands H i d) (session_step H w (ins, e))"
    by (simp add: session_step_def keeps_world_def)
  then show ?thesis by (simp add: held_def stands_def)
qed

section \<open>The stored sessions\<close>

definition meta_bounded :: "session_data \<Rightarrow> bool" where
  "meta_bounded d \<longleftrightarrow> (\<forall>s. sd_meta d = Some s \<longrightarrow> length s \<le> meta_max_bytes)"

definition sessions_readable :: "session_host \<Rightarrow> kv_table \<Rightarrow> bool" where
  "sessions_readable H m \<longleftrightarrow> bt_wf m \<and> (\<forall>k b. bt_get m k = Some b \<longrightarrow> prefix session_key_prefix k \<and>
     (\<exists>d. jc_decode (sh_codec H) b = Ok d \<and> sd_schema_version d \<le> session_data_schema_version \<and> meta_bounded d))"

definition codec_readable :: "session_host \<Rightarrow> kv_table \<Rightarrow> bool" where
  "codec_readable H m \<longleftrightarrow> json_codec_ok (sh_codec H) \<and> sessions_readable H m"

definition keeps_bound :: "session_data option \<Rightarrow> session_data option \<Rightarrow> bool" where
  "keeps_bound v v' \<longleftrightarrow> ((\<forall>d. v = Some d \<longrightarrow> meta_bounded d) \<longrightarrow> (\<forall>d. v' = Some d \<longrightarrow> meta_bounded d))"

lemma readable_view:
  assumes "sessions_readable H m" and "view H m i = Some d"
  shows "meta_bounded d"
proof -
  from assms(2) obtain b where b: "bt_get m (session_key i) = Some b" "d = session_of H b" by (auto simp: view_def)
  with assms(1) obtain d0 where "jc_decode (sh_codec H) b = Ok d0" "sd_schema_version d0 \<le> session_data_schema_version"
    "meta_bounded d0" unfolding sessions_readable_def by blast
  with b(2) show ?thesis
    by (auto simp: session_of_def parse_session_def migrate_def meta_bounded_def)
qed

interpretation readable: session_law H "codec_readable H" "\<lambda>_. keeps_bound" for H
proof
  fix m i d b
  assume a: "codec_readable H m" "keeps_bound (view H m i) (Some d)"
    "sd_schema_version d = session_data_schema_version" "jc_encode (sh_codec H) d = Ok b"
  then have "jc_decode (sh_codec H) b = Ok d" by (auto simp: codec_readable_def json_codec_ok_def)
  moreover have "meta_bounded d"
    using a(1,2) readable_view by (auto simp: keeps_bound_def codec_readable_def)
  ultimately show "codec_readable H (bt_insert (session_key i) b m)"
    using a(1,3) by (auto simp: codec_readable_def sessions_readable_def session_key_def)
next
  fix m i assume "codec_readable H m"
  then show "codec_readable H (bt_delete (session_key i) m)"
    by (auto simp: codec_readable_def sessions_readable_def bt_wf_delete bt_get_delete split: if_splits)
qed (auto simp: codec_readable_def keeps_bound_def)

lemma event_keeps_bound: "event_change H e i v v' \<Longrightarrow> keeps_bound v v'"
proof -
  have a: "append_change r v v' \<Longrightarrow> keeps_bound v v'" for r
    by (cases v) (auto simp: append_change_def keeps_bound_def meta_bounded_def session_default_def)
  have u: "keeps_bound v v'" if c: "update_change t a m v v'" for t a m
  proof -
    from c obtain now d d' where d: "v = Some d" "update_mutation t a m now d = Ok d'" "v' = Some d'"
      by (auto simp: update_change_def)
    from update_mutation_Ok[OF d(2)] have "sd_meta d' = patched m (sd_meta d)" by simp
    with update_mutation_Ok(2)[OF d(2)] d(1,3) show ?thesis
      by (cases m) (simp_all add: keeps_bound_def meta_bounded_def patched_def)
  qed
  have n: "keeps_bound v None" by (simp add: keeps_bound_def)
  have c: "keeps_bound v0 (Some (cleared_session old now))" for v0 old now
    by (simp add: keeps_bound_def meta_bounded_def cleared_session_def session_default_def)
  show "event_change H e i v v' \<Longrightarrow> keeps_bound v v'"
    by (cases e) (auto simp: event_change_def command_change_def Let_def intro: a u n c)
qed

text \<open>C26. Invariant of the stored table: after any sequence of invocations, with any failures of the host and other
  writers that keep it, every stored value is a session that still parses, of a schema version the capsule
  knows (so that no later load starts afresh over it), under a session key, with client metadata of at most
  8192 bytes.
\<close>

theorem session_store_invariant:
  assumes "json_codec_ok (sh_codec H)" and "sessions_readable H (sw_kv w)"
    and "\<forall>c \<in> set es. \<forall>t \<in> set (si_turns (fst c)). \<forall>m. sessions_readable H m \<longrightarrow> sessions_readable H (ht_others t m)"
  shows "sessions_readable H (sw_kv (session_run H w es))"
  using assms(3)
proof (induction es rule: rev_induct)
  case Nil
  then show ?case using assms(2) by (simp add: session_run_def)
next
  case (snoc c es)
  have "held (codec_readable H) ((session_run H w es)\<lparr>sw_in := fst c\<rparr>)"
    using snoc assms(1) by (simp add: held_def codec_readable_def)
  moreover have "keeps_world (held (codec_readable H)) (session_handle H (snd c))"
    by (rule readable.keeps_session_handle) (rule event_keeps_bound)
  ultimately have "held (codec_readable H) (session_step H (session_run H w es) c)"
    by (simp add: session_step_def keeps_world_def)
  then show ?case by (simp add: held_def codec_readable_def session_run_def)
qed

end
