(* ===== verification/Session_Pages.thy ===== *)
theory Session_Pages
  imports Session_Properties
begin

text \<open>
  Sessions read without interference: what loading, listing, searching and updating return when no other writer
  acts and the host does not fail. A client that follows the cursors of \<open>do_list\<close> or \<open>do_search\<close> sees every
  session once, in the order of the keys, and comes to an end.
\<close>

section \<open>Pages of keys\<close>

definition after :: "string option \<Rightarrow> string list \<Rightarrow> string list" where
  "after c ks = (case c of None \<Rightarrow> ks | Some k \<Rightarrow> filter (\<lambda>x. k < x) ks)"

text \<open>The documented behaviour of the host's paging: pages are in the order of the keys, a cursor stands for the
  keys behind it, and a key may be used as a cursor.\<close>

definition pages_by_key :: "session_host \<Rightarrow> bool" where
  "pages_by_key H \<longleftrightarrow> (\<forall>ks c n. sorted_wrt (<) ks \<longrightarrow> 0 < n \<longrightarrow>
     fst (sh_page H ks c n) = take n (after c ks) \<and>
     (snd (sh_page H ks c n) = None \<longleftrightarrow> length (after c ks) \<le> n) \<and>
     (\<forall>c'. snd (sh_page H ks c n) = Some c' \<longrightarrow> after (Some c') ks = drop n (after c ks)))"

lemma sorted_after: "sorted_wrt (<) ks \<Longrightarrow> sorted_wrt (<) (after c ks)"
  by (simp add: after_def sorted_wrt_filter split: option.split)

lemma filter_behind:
  fixes xs :: "'a :: linorder list"
  shows "sorted_wrt (<) xs \<Longrightarrow> n < length xs \<Longrightarrow> filter (\<lambda>x. xs ! n < x) xs = drop (Suc n) xs"
proof (induction xs arbitrary: n)
  case (Cons x xs)
  show ?case
  proof (cases n)
    case 0
    with Cons.prems show ?thesis by (auto simp: filter_id_conv)
  next
    case (Suc k)
    with Cons.prems have "x < xs ! k" by simp
    then have "\<not> xs ! k < x" by (rule less_not_sym)
    with Cons.IH[of k] Cons.prems Suc show ?thesis by auto
  qed
qed simp

lemma after_key:
  assumes "sorted_wrt (<) ks" and "n < length (after c ks)"
  shows "after (Some (after c ks ! n)) ks = drop (Suc n) (after c ks)"
proof -
  have "filter (\<lambda>x. after c ks ! n < x) ks = filter (\<lambda>x. after c ks ! n < x) (after c ks)"
  proof (cases c)
    case (Some k)
    have "after c ks ! n \<in> set (after c ks)" using assms(2) by simp
    with Some have "k < after c ks ! n" by (simp add: after_def)
    with Some show ?thesis by (auto simp: after_def intro!: filter_cong)
  qed (simp add: after_def)
  with filter_behind[OF sorted_after[OF assms(1)] assms(2)] show ?thesis by (simp add: after_def)
qed

section \<open>A quiet world\<close>

definition quiet :: "session_host \<Rightarrow> string list \<Rightarrow> (string \<Rightarrow> session_data option) \<Rightarrow> session_world \<Rightarrow> bool" where
  "quiet H ks V w \<longleftrightarrow> json_codec_ok (sh_codec H) \<and> bt_wf (sw_kv w) \<and> keys_with session_key_prefix (sw_kv w) = ks \<and>
     (\<forall>i. view H (sw_kv w) i = V i) \<and> si_turns (sw_in w) = []"

lemma kv_turn_quiet:
  "si_turns (sw_in w) = [] \<Longrightarrow> run_state (kv_turn f) w = (Ok (fst (f (sw_kv w))), w\<lparr>sw_kv := snd (f (sw_kv w))\<rparr>)"
  by (cases "f (sw_kv w)") (simp add: kv_turn_def)

lemma keys_insert_present:
  assumes "bt_wf m" and "bt_get m k \<noteq> None"
  shows "bt_keys (bt_insert k v m) = bt_keys m"
proof -
  have "k \<in> fst ` set m" using assms(2) by (auto simp: bt_get_None_iff)
  then have "set (bt_keys (bt_insert k v m)) = set (bt_keys m)"
    by (auto simp: bt_keys_def set_keys_bt_insert)
  then show ?thesis
    using assms(1) bt_wf_insert[OF assms(1), of k v] by (auto simp: bt_keys_def bt_wf_def intro: strict_sorted_equal)
qed

lemma quiet_sorted: "quiet H ks V w \<Longrightarrow> sorted_wrt (<) ks"
  by (auto simp: quiet_def keys_with_def bt_keys_def bt_wf_def intro: sorted_wrt_filter)

lemma quiet_present:
  assumes "quiet H ks V w" and "k \<in> set ks"
  obtains i d where "k = session_key i" and "V i = Some d" and "strip_prefix_str session_key_prefix k = Some i"
proof -
  from assms obtain i where i: "k = session_key i"
    by (auto simp: quiet_def keys_with_def session_key_def prefix_def)
  moreover have "bt_get (sw_kv w) k \<noteq> None"
    using assms by (auto simp: quiet_def keys_with_def bt_keys_set)
  ultimately have "view H (sw_kv w) i \<noteq> None" by (simp add: view_def)
  with assms(1) obtain d where "V i = Some d" by (auto simp: quiet_def)
  with i that show thesis by (auto simp: strip_prefix_str_Some session_key_def)
qed

text \<open>A load in a quiet world returns what is stored, and what it expects is what is stored.\<close>

lemma quiet_load:
  assumes "quiet H ks V w"
  obtains w' where "run_state (load H i) w = ((seen (V i), bt_get (sw_kv w') (session_key i)), w')"
    and "quiet H ks V w'" and "sw_bus w' = sw_bus w" and "sw_in w' = sw_in w"
proof -
  have q: "si_turns (sw_in w) = []" and vi: "view H (sw_kv w) i = V i" using assms by (simp_all add: quiet_def)
  have get: "run_state (sk_get (session_key i)) w = (Ok (bt_get (sw_kv w) (session_key i)), w)"
    using q by (simp add: sk_get_def kv_turn_quiet)
  show thesis
  proof (cases "bt_get (sw_kv w) (session_key i)")
    case None
    with get vi assms show ?thesis by (intro that[of w]) (simp_all add: load_def run_bind view_def)
  next
    case (Some bytes)
    then have d: "V i = Some (session_of H bytes)" using vi by (simp add: view_def)
    show ?thesis
    proof (cases "migrate (parse_session H bytes)")
      case (Inl fresh)
      with get Some d assms show ?thesis
        by (intro that[of w]) (simp_all add: load_def run_bind migrate_session_of)
    next
      case (Inr p)
      obtain d' s where p: "p = (d', s)" by (cases p)
      with Inr have d': "session_of H bytes = d'" by (simp add: migrate_session_of)
      show ?thesis
      proof (cases "s \<and> is_ok (jc_encode (sh_codec H) d')")
        case False
        then show ?thesis
          using get Some d d' Inr p assms
          by (intro that[of w]) (auto simp: load_def run_bind save_migrated_def split: sum.split)
      next
        case True
        then obtain b where b: "jc_encode (sh_codec H) d' = Ok b" by (auto simp: is_ok_iff)
        have v: "sd_schema_version d' = session_data_schema_version" using d' session_of_version by blast
        let ?w = "w\<lparr>sw_kv := bt_insert (session_key i) b (sw_kv w)\<rparr>"
        have "session_of H b = d'" using assms session_of_encoded[OF _ b v] by (simp add: quiet_def)
        then have "quiet H ks V ?w"
          using assms d d' Some keys_insert_present[of "sw_kv w" "session_key i" b]
          by (auto simp: quiet_def view_insert keys_with_def)
        moreover have "run_state (load H i) w = ((d', Some b), ?w)"
          using get Some Inr p True b q
          by (simp add: load_def run_bind save_migrated_def sk_cas_def kv_turn_quiet)
        ultimately show ?thesis using d d' by (intro that[of ?w]) simp_all
      qed
    qed
  qed
qed

lemma yields_quiet_load: "yields (quiet H ks V) (load H i) (\<lambda>r. fst r = seen (V i))"
  unfolding yields_def by (metis fst_conv quiet_load snd_conv)

lemma yields_quiet_page:
  "yields (quiet H ks V) (sk_list_keys_page H session_key_prefix c l) (\<lambda>r. r = Ok (sh_page H ks c (unat l)))"
  unfolding yields_def sk_list_keys_page_def by (auto simp: quiet_def kv_turn_quiet)

lemma yields_quiet_keys:
  "yields (quiet H ks V) (sk_list_keys session_key_prefix) (\<lambda>r. r = Ok ks)"
  unfolding yields_def sk_list_keys_def by (auto simp: quiet_def kv_turn_quiet)

lemma yields_attempt_known:
  assumes "yields I m (\<lambda>r. r = Ok x)" and "yields I (f x) S"
  shows "yields I (attempt m f) S"
  unfolding attempt_def by (rule yields_bind[OF assms(1)]) (use assms(2) in simp)

section \<open>Listing\<close>

definition session_summaries :: "bool \<Rightarrow> (string \<Rightarrow> session_data option) \<Rightarrow> string list \<Rightarrow> canonical_json list" where
  "session_summaries a V keys = List.map_filter (\<lambda>k. case strip_prefix_str session_key_prefix k of
     None \<Rightarrow> None
   | Some i \<Rightarrow> if is_visible (sd_archived (seen (V i))) a then Some (session_summary_json i (seen (V i))) else None) keys"

lemma yields_list_summaries:
  "yields (quiet H ks V) (list_summaries H a keys) (\<lambda>r. r = session_summaries a V keys)"
proof (induction keys)
  case (Cons k keys)
  show ?case
  proof (cases "strip_prefix_str session_key_prefix k")
    case None
    with Cons show ?thesis by (simp add: session_summaries_def List.map_filter_simps)
  next
    case (Some i)
    have "yields (quiet H ks V) (load H i \<bind> (\<lambda>loaded. list_summaries H a keys \<bind> (\<lambda>rest.
        ret (if is_visible (sd_archived (fst loaded)) a then session_summary_json i (fst loaded) # rest else rest))))
      (\<lambda>r. r = session_summaries a V (k # keys))"
      by (rule yields_bind[OF yields_quiet_load], rule yields_bind[OF Cons], rule yields_ret)
        (simp add: session_summaries_def List.map_filter_simps Some)
    with Some show ?thesis by simp
  qed
qed (simp add: yields_ret session_summaries_def List.map_filter_simps)

lemma yields_do_list:
  "yields (quiet H ks V) (do_list H a c l) (\<lambda>r. \<exists>t. r = Ok \<lparr>lp_sessions = session_summaries a V (fst (sh_page H ks c (unat l))),
     lp_next_cursor = snd (sh_page H ks c (unat l)), lp_total = t\<rparr>)"
  unfolding do_list_def
  by (rule yields_attempt_known[OF yields_quiet_page], rule yields_bind[OF yields_list_summaries],
      rule yields_bind[OF yields_quiet_keys], rule yields_ret) simp

text \<open>A client of \<open>do_list\<close>.\<close>

fun read_list :: "nat \<Rightarrow> session_host \<Rightarrow> bool \<Rightarrow> string option \<Rightarrow> u32 \<Rightarrow> canonical_json list option session_op" where
  "read_list 0 H a c l = ret None"
| "read_list (Suc fuel) H a c l = do {
     r \<leftarrow> do_list H a c l;
     case r of
       Err _ \<Rightarrow> ret None
     | Ok p \<Rightarrow>
         (case lp_next_cursor p of
            None \<Rightarrow> ret (Some (lp_sessions p))
          | Some c' \<Rightarrow> do { rest \<leftarrow> read_list fuel H a (Some c') l; ret (map_option ((@) (lp_sessions p)) rest) }) }"

lemma session_summaries_append: "session_summaries a V (xs @ ys) = session_summaries a V xs @ session_summaries a V ys"
  by (simp add: session_summaries_def List.map_filter_def)

lemma yields_read_list:
  assumes "pages_by_key H" and "sorted_wrt (<) ks" and "l \<noteq> 0"
  shows "length (after c ks) < fuel \<Longrightarrow>
    yields (quiet H ks V) (read_list fuel H a c l) (\<lambda>r. r = Some (session_summaries a V (after c ks)))"
proof (induction fuel arbitrary: c)
  case (Suc fuel)
  let ?n = "unat l" and ?rest = "after c ks"
  have n: "0 < ?n" using assms(3) by (simp add: unat_gt_0)
  with assms(1,2) have p: "fst (sh_page H ks c ?n) = take ?n ?rest" "snd (sh_page H ks c ?n) = None \<longleftrightarrow> length ?rest \<le> ?n"
    "\<And>c'. snd (sh_page H ks c ?n) = Some c' \<Longrightarrow> after (Some c') ks = drop ?n ?rest"
    unfolding pages_by_key_def by blast+
  show ?case
    unfolding read_list.simps
  proof (rule yields_bind[OF yields_do_list])
    fix r assume "\<exists>t. r = Ok \<lparr>lp_sessions = session_summaries a V (fst (sh_page H ks c ?n)),
      lp_next_cursor = snd (sh_page H ks c ?n), lp_total = t\<rparr>"
    then obtain t where r: "r = Ok \<lparr>lp_sessions = session_summaries a V (take ?n ?rest),
      lp_next_cursor = snd (sh_page H ks c ?n), lp_total = t\<rparr>" using p(1) by auto
    show "yields (quiet H ks V) (case r of Err _ \<Rightarrow> ret None
      | Ok p \<Rightarrow> (case lp_next_cursor p of None \<Rightarrow> ret (Some (lp_sessions p))
          | Some c' \<Rightarrow> do { rest \<leftarrow> read_list fuel H a (Some c') l; ret (map_option ((@) (lp_sessions p)) rest) }))
      (\<lambda>r. r = Some (session_summaries a V ?rest))"
    proof (cases "snd (sh_page H ks c ?n)")
      case None
      with r p(2) show ?thesis by (simp add: yields_ret)
    next
      case (Some c')
      with p(2,3) have rest: "after (Some c') ks = drop ?n ?rest" "\<not> length ?rest \<le> ?n" by auto
      with n Suc.prems have "length (after (Some c') ks) < fuel" by simp
      note IH = Suc.IH[OF this]
      have "yields (quiet H ks V) (read_list fuel H a (Some c') l \<bind>
          (\<lambda>rest. ret (map_option ((@) (session_summaries a V (take ?n ?rest))) rest)))
        (\<lambda>r. r = Some (session_summaries a V ?rest))"
        by (rule yields_bind[OF IH], rule yields_ret)
          (simp add: rest session_summaries_append[symmetric])
      with r Some show ?thesis by simp
    qed
  qed
qed simp

section \<open>Searching\<close>

definition key_hit :: "session_host \<Rightarrow> string \<Rightarrow> bool \<Rightarrow> (string \<Rightarrow> session_data option) \<Rightarrow> string \<Rightarrow> canonical_json option" where
  "key_hit H q a V k = (case strip_prefix_str session_key_prefix k of
     None \<Rightarrow> None | Some i \<Rightarrow> session_hit H q a i (seen (V i)))"

definition session_hits :: "session_host \<Rightarrow> string \<Rightarrow> bool \<Rightarrow> (string \<Rightarrow> session_data option) \<Rightarrow> string list \<Rightarrow> canonical_json list" where
  "session_hits H q a V keys = List.map_filter (key_hit H q a V) keys"

lemma session_hits_simps:
  "session_hits H q a V [] = []"
  "session_hits H q a V (k # ks) = (case key_hit H q a V k of None \<Rightarrow> [] | Some h \<Rightarrow> [h]) @ session_hits H q a V ks"
  "session_hits H q a V (xs @ ys) = session_hits H q a V xs @ session_hits H q a V ys"
  by (simp_all add: session_hits_def List.map_filter_def split: option.split)

text \<open>What a scan of a page leaves: it either stops at a key, with the hits up to there, or has seen the page.\<close>

definition scan_result :: "session_host \<Rightarrow> string \<Rightarrow> bool \<Rightarrow> (string \<Rightarrow> session_data option) \<Rightarrow> string list \<Rightarrow>
    canonical_json list \<Rightarrow> u32 \<Rightarrow> scan_end \<Rightarrow> bool" where
  "scan_result H q a V keys results n r = (case r of
     Stops results' key \<Rightarrow> \<exists>j < length keys. key = keys ! j \<and> results' = results @ session_hits H q a V (take (Suc j) keys)
   | Goes_On results' n' \<Rightarrow> results' = results @ session_hits H q a V keys \<and>
       unat n' = unat n + length keys \<and> n' < search_key_scan_budget)"

lemma scan_result_Cons:
  assumes "scan_result H q a V keys (results @ (case key_hit H q a V k of None \<Rightarrow> [] | Some h \<Rightarrow> [h])) n' r"
    and "unat n' = Suc (unat n)"
  shows "scan_result H q a V (k # keys) results n r"
proof (cases r)
  case (Stops results' key)
  with assms(1) obtain j where "j < length keys" "key = keys ! j"
    "results' = results @ session_hits H q a V (take (Suc (Suc j)) (k # keys))"
    by (auto simp: scan_result_def session_hits_simps)
  with Stops show ?thesis by (auto simp: scan_result_def intro!: exI[of _ "Suc j"])
next
  case (Goes_On results' n'')
  with assms show ?thesis by (simp add: scan_result_def session_hits_simps)
qed

lemma budget_step:
  assumes "n < search_key_scan_budget"
  shows "unat (u32_saturating_add n 1) = Suc (unat n)"
proof -
  have "unat n < 200" using assms by (simp add: search_key_scan_budget_def word_less_nat_alt)
  then show ?thesis by (simp add: u32_saturating_add_def unat_word_ariths)
qed

lemma yields_scan_keys:
  assumes "\<forall>k \<in> set keys. strip_prefix_str session_key_prefix k \<noteq> None"
  shows "n < search_key_scan_budget \<Longrightarrow>
    yields (quiet H ks V) (scan_keys H q a l keys results n) (scan_result H q a V keys results n)"
  using assms
proof (induction keys arbitrary: results n)
  case Nil
  then show ?case by (simp add: yields_ret scan_result_def session_hits_simps)
next
  case (Cons k keys)
  from Cons.prems obtain i where i: "strip_prefix_str session_key_prefix k = Some i" by auto
  let ?n = "u32_saturating_add n 1" and ?hit = "session_hit H q a i (seen (V i))"
  let ?results = "results @ (case ?hit of None \<Rightarrow> [] | Some h \<Rightarrow> [h])"
  have kh: "key_hit H q a V k = ?hit" by (simp add: key_hit_def i)
  have stop: "scan_result H q a V (k # keys) results n (Stops ?results k)"
    by (auto simp: scan_result_def session_hits_simps kh intro!: exI[of _ 0])
  have go: "yields (quiet H ks V) (scan_keys H q a l keys ?results ?n) (scan_result H q a V (k # keys) results n)"
    if "?n < search_key_scan_budget"
    using Cons.IH[OF that, of ?results] Cons.prems(2) budget_step[OF Cons.prems(1)] scan_result_Cons kh
    by (auto intro: yields_weaken)
  show ?case
    unfolding scan_keys.simps i option.case Let_def
  proof (rule yields_bind[OF yields_quiet_load])
    fix r :: "session_data \<times> string option" assume r: "fst r = seen (V i)"
    show "yields (quiet H ks V)
      (if session_hit H q a i (fst r) \<noteq> None \<and>
          unat l \<le> length (results @ (case session_hit H q a i (fst r) of None \<Rightarrow> [] | Some h \<Rightarrow> [h]))
       then ret (Stops (results @ (case session_hit H q a i (fst r) of None \<Rightarrow> [] | Some h \<Rightarrow> [h])) k)
       else if search_key_scan_budget \<le> ?n
       then ret (Stops (results @ (case session_hit H q a i (fst r) of None \<Rightarrow> [] | Some h \<Rightarrow> [h])) k)
       else scan_keys H q a l keys (results @ (case session_hit H q a i (fst r) of None \<Rightarrow> [] | Some h \<Rightarrow> [h])) ?n)
      (scan_result H q a V (k # keys) results n)"
      unfolding r using stop go by (auto intro: yields_ret)
  qed
qed

text \<open>What a search from a cursor leaves: the hits of the next keys, and a cursor for the keys behind them.\<close>

definition search_result :: "session_host \<Rightarrow> string \<Rightarrow> bool \<Rightarrow> (string \<Rightarrow> session_data option) \<Rightarrow> string list \<Rightarrow> string option \<Rightarrow>
    canonical_json list \<Rightarrow> sys_error + canonical_json list \<times> string option \<Rightarrow> bool" where
  "search_result H q a V ks c results r \<longleftrightarrow>
     (\<exists>j c'. j \<le> length (after c ks) \<and> r = Ok (results @ session_hits H q a V (take j (after c ks)), c') \<and>
        (case c' of None \<Rightarrow> j = length (after c ks) | Some k \<Rightarrow> 0 < j \<and> after (Some k) ks = drop j (after c ks)))"

lemma search_result_later:
  assumes "search_result H q a V ks c' (results @ session_hits H q a V (take m (after c ks))) r"
    and "after c' ks = drop m (after c ks)" and "m \<le> length (after c ks)"
  shows "search_result H q a V ks c results r"
proof -
  from assms(1) obtain j c'' where j: "j \<le> length (after c' ks)"
    "r = Ok ((results @ session_hits H q a V (take m (after c ks))) @ session_hits H q a V (take j (after c' ks)), c'')"
    "case c'' of None \<Rightarrow> j = length (after c' ks) | Some k \<Rightarrow> 0 < j \<and> after (Some k) ks = drop j (after c' ks)"
    unfolding search_result_def by blast
  have "take (m + j) (after c ks) = take m (after c ks) @ take j (after c' ks)"
    by (simp add: take_add assms(2))
  with j assms(2,3) show ?thesis
    unfolding search_result_def
    by (intro exI[of _ "m + j"] exI[of _ c''])
      (auto simp: session_hits_simps add.commute split: option.splits)
qed

lemma yields_scan_pages:
  assumes "pages_by_key H" and "sorted_wrt (<) ks" and "\<forall>k \<in> set ks. strip_prefix_str session_key_prefix k \<noteq> None"
  shows "n < search_key_scan_budget \<Longrightarrow> 200 \<le> fuel + unat n \<Longrightarrow>
    yields (quiet H ks V) (scan_pages fuel H q a l c results n) (search_result H q a V ks c results)"
proof (induction fuel arbitrary: c results n)
  case 0
  then show ?case by (simp add: search_key_scan_budget_def word_less_nat_alt)
next
  case (Suc fuel)
  let ?rest = "after c ks" and ?page = "sh_page H ks c (unat max_thread_limit)"
  have "unat max_thread_limit = 200" by (simp add: max_thread_limit_def)
  with assms(1,2) have p: "fst ?page = take 200 ?rest" "snd ?page = None \<longleftrightarrow> length ?rest \<le> 200"
    "\<And>c'. snd ?page = Some c' \<Longrightarrow> after (Some c') ks = drop 200 ?rest"
    unfolding pages_by_key_def by (metis zero_less_numeral)+
  have keys: "\<forall>k \<in> set (fst ?page). strip_prefix_str session_key_prefix k \<noteq> None"
    using assms(3) p(1) by (auto simp: after_def dest!: in_set_takeD split: option.splits)
  show ?case
    unfolding scan_pages.simps
  proof (rule yields_attempt_known[OF yields_quiet_page])
    show "yields (quiet H ks V) (if fst ?page = [] then ret (Ok (results, None))
       else do {
         r \<leftarrow> scan_keys H q a l (fst ?page) results n;
         case r of
           Stops results' key \<Rightarrow> ret (Ok (results', Some key))
         | Goes_On results' scanned' \<Rightarrow>
             (case snd ?page of
                Some next \<Rightarrow> scan_pages fuel H q a l (Some next) results' scanned'
              | None \<Rightarrow> ret (Ok (results', None))) })
      (search_result H q a V ks c results)"
    proof (cases "fst ?page = []")
      case True
      with p(1) have "?rest = []" by simp
      with True show ?thesis by (auto simp: yields_ret search_result_def session_hits_simps)
    next
      case False
      have "yields (quiet H ks V) (case r of
           Stops results' key \<Rightarrow> ret (Ok (results', Some key))
         | Goes_On results' scanned' \<Rightarrow>
             (case snd ?page of
                Some next \<Rightarrow> scan_pages fuel H q a l (Some next) results' scanned'
              | None \<Rightarrow> ret (Ok (results', None))))
        (search_result H q a V ks c results)"
        if r: "scan_result H q a V (fst ?page) results n r" for r
      proof (cases r)
        case (Stops results' key)
        with r p(1) obtain j where "j < length (take 200 ?rest)" "key = take 200 ?rest ! j"
          "results' = results @ session_hits H q a V (take (Suc j) (take 200 ?rest))"
          by (auto simp: scan_result_def)
        then have j: "j < length ?rest" "key = ?rest ! j" "results' = results @ session_hits H q a V (take (Suc j) ?rest)"
          by (simp_all add: min_absorb1)
        with after_key[OF assms(2), of j c] Stops show ?thesis
          by (auto simp: search_result_def intro!: yields_ret exI[of _ "Suc j"])
      next
        case (Goes_On results' n')
        with r p(1) have g: "results' = results @ session_hits H q a V (take 200 ?rest)" "unat n' = unat n + length (take 200 ?rest)"
          "n' < search_key_scan_budget" by (auto simp: scan_result_def)
        show ?thesis
        proof (cases "snd ?page")
          case None
          with p(2) Goes_On g(1) show ?thesis
            by (auto simp: search_result_def intro!: yields_ret exI[of _ "length ?rest"])
        next
          case (Some c')
          with p(2) have len: "200 \<le> length ?rest" by auto
          with g(2) Suc.prems have "200 \<le> fuel + unat n'" by simp
          note IH = Suc.IH[OF g(3) this, of "Some c'" results']
          have "yields (quiet H ks V) (scan_pages fuel H q a l (Some c') results' n') (search_result H q a V ks c results)"
            by (rule yields_weaken[OF IH]) (use p(3)[OF Some] g(1) len in \<open>auto intro: search_result_later\<close>)
          with Goes_On Some show ?thesis by simp
        qed
      qed
      then show ?thesis unfolding if_not_P[OF False] by (rule yields_bind[OF yields_scan_keys[OF keys Suc.prems(1)]])
    qed
  qed
qed

text \<open>A client of \<open>do_search\<close>.\<close>

fun read_search :: "nat \<Rightarrow> session_host \<Rightarrow> string \<Rightarrow> bool \<Rightarrow> string option \<Rightarrow> u32 \<Rightarrow> canonical_json list option session_op" where
  "read_search 0 H query a c l = ret None"
| "read_search (Suc fuel) H query a c l = do {
     r \<leftarrow> do_search H query a c l;
     case r of
       Err _ \<Rightarrow> ret None
     | Ok (hits, c') \<Rightarrow>
         (case c' of
            None \<Rightarrow> ret (Some hits)
          | Some k \<Rightarrow> do { rest \<leftarrow> read_search fuel H query a (Some k) l; ret (map_option ((@) hits) rest) }) }"

lemma yields_read_search:
  assumes "pages_by_key H" and "sorted_wrt (<) ks" and "\<forall>k \<in> set ks. strip_prefix_str session_key_prefix k \<noteq> None"
    and "sh_lower H query \<noteq> []"
  shows "length (after c ks) < fuel \<Longrightarrow> yields (quiet H ks V) (read_search fuel H query a c l)
    (\<lambda>r. r = Some (session_hits H (sh_lower H query) a V (after c ks)))"
proof (induction fuel arbitrary: c)
  case (Suc fuel)
  let ?rest = "after c ks" and ?q = "sh_lower H query"
  have "yields (quiet H ks V) (do_search H query a c l) (search_result H ?q a V ks c [])"
    using yields_scan_pages[OF assms(1-3), of 0 "unat search_key_scan_budget"] assms(4)
    by (simp add: do_search_def search_key_scan_budget_def)
  then show ?case
    unfolding read_search.simps
  proof (rule yields_bind)
    fix r assume "search_result H ?q a V ks c [] r"
    then obtain j c' where j: "j \<le> length ?rest" "r = Ok (session_hits H ?q a V (take j ?rest), c')"
      "case c' of None \<Rightarrow> j = length ?rest | Some k \<Rightarrow> 0 < j \<and> after (Some k) ks = drop j ?rest"
      unfolding search_result_def by auto
    show "yields (quiet H ks V) (case r of Err _ \<Rightarrow> ret None | Ok (hits, c') \<Rightarrow>
         (case c' of None \<Rightarrow> ret (Some hits)
          | Some k \<Rightarrow> do { rest \<leftarrow> read_search fuel H query a (Some k) l; ret (map_option ((@) hits) rest) }))
      (\<lambda>r. r = Some (session_hits H ?q a V ?rest))"
    proof (cases c')
      case None
      with j show ?thesis by (simp add: yields_ret)
    next
      case (Some k)
      with j have k: "0 < j" "after (Some k) ks = drop j ?rest" by auto
      with j Suc.prems have "length (after (Some k) ks) < fuel" by simp
      note IH = Suc.IH[OF this]
      have "yields (quiet H ks V) (read_search fuel H query a (Some k) l \<bind>
          (\<lambda>rest. ret (map_option ((@) (session_hits H ?q a V (take j ?rest))) rest)))
        (\<lambda>r. r = Some (session_hits H ?q a V ?rest))"
        by (rule yields_bind[OF IH], rule yields_ret) (simp add: k session_hits_simps(3)[symmetric])
      with j Some show ?thesis by simp
    qed
  qed
qed simp

section \<open>Complete reads\<close>

lemma quiet_start:
  assumes "json_codec_ok (sh_codec H)" and "bt_wf (sw_kv w)" and "si_turns (sw_in w) = []"
  shows "quiet H (keys_with session_key_prefix (sw_kv w)) (view H (sw_kv w)) w"
  using assms by (simp add: quiet_def)

lemma fst_yields: "yields I m R \<Longrightarrow> I w \<Longrightarrow> R (fst (run_state m w))"
  by (simp add: yields_def)

lemma session_keys_stripped:
  "\<forall>k \<in> set (keys_with session_key_prefix m). strip_prefix_str session_key_prefix k \<noteq> None"
  by (auto simp: keys_with_def strip_prefix_str_def)

text \<open>Pages of the session list are complete: a client that follows the cursors of \<open>do_list\<close> from the first page
  on, with any page size but zero, gets the summary of every session it may see once, in the order of the keys,
  and comes to an end.
\<close>

theorem list_pages_complete:
  assumes "json_codec_ok (sh_codec H)" and "pages_by_key H" and "bt_wf (sw_kv w)" and "si_turns (sw_in w) = []"
    and "l \<noteq> 0" and "length (keys_with session_key_prefix (sw_kv w)) < fuel"
  shows "fst (run_state (read_list fuel H a None l) w) =
    Some (session_summaries a (view H (sw_kv w)) (keys_with session_key_prefix (sw_kv w)))"
  using fst_yields[OF yields_read_list[OF assms(2) quiet_sorted[OF quiet_start[OF assms(1,3,4)]] assms(5)]
      quiet_start[OF assms(1,3,4)], of None fuel a] assms(6)
  by (simp add: after_def)

text \<open>C27. Search is complete, on a host that does not fail, has no other writers meanwhile and pages its keys in order,
  for a query that is not empty when lowercased: a client that follows the cursors of \<open>do_search\<close> gets one hit for every session it may
  see with a matching message, in the order of the keys, whatever limit it asks for, and comes to an end; each
  call ends within its budget of scanned keys.
\<close>

theorem search_pages_complete:
  assumes "json_codec_ok (sh_codec H)" and "pages_by_key H" and "bt_wf (sw_kv w)" and "si_turns (sw_in w) = []"
    and "sh_lower H query \<noteq> []" and "length (keys_with session_key_prefix (sw_kv w)) < fuel"
  shows "fst (run_state (read_search fuel H query a None l) w) =
    Some (session_hits H (sh_lower H query) a (view H (sw_kv w)) (keys_with session_key_prefix (sw_kv w)))"
  using fst_yields[OF yields_read_search[OF assms(2) quiet_sorted[OF quiet_start[OF assms(1,3,4)]] session_keys_stripped
      assms(5)] quiet_start[OF assms(1,3,4)], of None fuel a] assms(6)
  by (simp add: after_def)

section \<open>Updating\<close>

lemma quiet_cas:
  assumes "si_turns (sw_in w) = []"
  shows "run_state (sk_cas (session_key i) (bt_get (sw_kv w) (session_key i)) b) w =
    (Ok True, w\<lparr>sw_kv := bt_insert (session_key i) b (sw_kv w)\<rparr>)"
  by (simp add: sk_cas_def kv_turn_quiet assms)

lemma quiet_modify_existing:
  assumes "quiet H ks V w"
  obtains w' where "run_state (modify_existing H i f) w =
      (case V i of
         None \<Rightarrow> (Ok None, w')
       | Some d \<Rightarrow> (case f d of
           Err e \<Rightarrow> (Err e, w')
         | Ok d' \<Rightarrow> (case jc_encode (sh_codec H) d' of
             Err e \<Rightarrow> (Err (Json_Error e), w')
           | Ok b \<Rightarrow> (Ok (Some d'), w'\<lparr>sw_kv := bt_insert (session_key i) b (sw_kv w')\<rparr>))))"
    and "quiet H ks V w'" and "sw_bus w' = sw_bus w" and "sw_in w' = sw_in w"
proof -
  obtain w' where l: "run_state (load H i) w = ((seen (V i), bt_get (sw_kv w') (session_key i)), w')"
    "quiet H ks V w'" "sw_bus w' = sw_bus w" "sw_in w' = sw_in w" using quiet_load[OF assms] by blast
  then have q: "si_turns (sw_in w') = []" "view H (sw_kv w') i = V i" by (auto simp: quiet_def)
  obtain k where n: "modify_existing H i f = modify_existing_loop H i f (Suc k)"
    by (simp add: modify_existing_def cas_retry_limit_def eval_nat_numeral del: modify_existing_loop.simps)
  show thesis
  proof (rule that[OF _ l(2-4)], cases "bt_get (sw_kv w') (session_key i)")
    case None
    with q(2) have "V i = None" by (simp add: view_def)
    with l(1) None show "run_state (modify_existing H i f) w = (case V i of
         None \<Rightarrow> (Ok None, w')
       | Some d \<Rightarrow> (case f d of Err e \<Rightarrow> (Err e, w')
         | Ok d' \<Rightarrow> (case jc_encode (sh_codec H) d' of Err e \<Rightarrow> (Err (Json_Error e), w')
           | Ok b \<Rightarrow> (Ok (Some d'), w'\<lparr>sw_kv := bt_insert (session_key i) b (sw_kv w')\<rparr>))))"
      unfolding n by (simp add: run_bind)
  next
    case (Some bytes)
    with q(2)[symmetric] have d: "V i = Some (session_of H bytes)" by (simp add: view_def)
    have "run_state (sk_cas (session_key i) (Some bytes) b) w' =
        (Ok True, w'\<lparr>sw_kv := bt_insert (session_key i) b (sw_kv w')\<rparr>)" for b
      using quiet_cas[OF q(1), of i b] Some by simp
    with l(1) Some d show "run_state (modify_existing H i f) w = (case V i of
         None \<Rightarrow> (Ok None, w')
       | Some d \<Rightarrow> (case f d of Err e \<Rightarrow> (Err e, w')
         | Ok d' \<Rightarrow> (case jc_encode (sh_codec H) d' of Err e \<Rightarrow> (Err (Json_Error e), w')
           | Ok b \<Rightarrow> (Ok (Some d'), w'\<lparr>sw_kv := bt_insert (session_key i) b (sw_kv w')\<rparr>))))"
      unfolding n by (simp add: run_bind split: sum.split)
  qed
qed

text \<open>The reading of the clock that an update sees, and the session it is to leave.\<close>

definition clock_reading :: "session_world \<Rightarrow> u64 option" where
  "clock_reading w = (case si_clock (sw_in w) of [] \<Rightarrow> None | t # _ \<Rightarrow> t)"

definition patched_session :: "string option patch_field \<Rightarrow> bool patch_field \<Rightarrow> string option patch_field \<Rightarrow> u64 option \<Rightarrow>
    session_data \<Rightarrow> session_data" where
  "patched_session title archived meta now d = touch_opt now (d\<lparr>sd_title := patched title (sd_title d),
     sd_archived := patched archived (sd_archived d), sd_meta := patched meta (sd_meta d)\<rparr>)"

definition updated_event :: "string \<Rightarrow> session_data \<Rightarrow> string \<times> canonical_json" where
  "updated_event i d = (''session.v1.event.updated'',
     json_obj [(''kind'', CString ''updated''), (''session_id'', CString i), (''summary'', session_summary_json i d)])"

text \<open>An update patches exactly what the request names: an oversize \<open>meta\<close> is refused with nothing changed at
  all; an absent session is not created and nothing is announced; a stored session gets the given fields and
  the time stamp, keeps its transcript, its parent and every other field, no other session changes, and one
  event with the new summary is published.
\<close>

lemma update_patches_exactly:
  assumes "json_codec_ok (sh_codec H)" and "bt_wf (sw_kv w)" and "si_turns (sw_in w) = []" and "si_bus_faults (sw_in w) = []"
    and "\<And>d. view H (sw_kv w) i = Some d \<Longrightarrow> is_ok (jc_encode (sh_codec H) (patched_session title archived meta (clock_reading w) d))"
    and "run_state (do_update H i title archived meta) w = (r, w')"
  shows "(\<forall>s. meta = Replace (Some s) \<and> meta_max_bytes < length s \<longrightarrow> is_ok r = False \<and> w' = w) \<and>
    ((\<forall>s. meta = Replace (Some s) \<longrightarrow> length s \<le> meta_max_bytes) \<longrightarrow>
       (case view H (sw_kv w) i of
          None \<Rightarrow> r = Ok None \<and> (\<forall>j. view H (sw_kv w') j = view H (sw_kv w) j) \<and> sw_bus w' = sw_bus w
        | Some d \<Rightarrow>
            let d' = patched_session title archived meta (clock_reading w) d in
              r = Ok (Some (session_summary_json i d')) \<and>
              (\<forall>j. view H (sw_kv w') j = (if j = i then Some d' else view H (sw_kv w) j)) \<and>
              sw_bus w' = sw_bus w @ [updated_event i d']))"
proof (cases "\<exists>s. meta = Replace (Some s) \<and> meta_max_bytes < length s")
  case True
  then show ?thesis
    using assms(6) by (auto simp: do_update_def apply_update_patch_def Let_def)
next
  case False
  then have small: "\<forall>s. meta = Replace (Some s) \<longrightarrow> length s \<le> meta_max_bytes" by (auto simp: not_less)
  define patch where "patch = (\<lambda>d :: session_data. d\<lparr>sd_title := patched title (sd_title d), sd_archived := patched archived (sd_archived d),
       sd_meta := patched meta (sd_meta d)\<rparr>)"
  have ps: "patched_session title archived meta now d = touch_opt now (patch d)" for now d
    by (simp add: patched_session_def patch_def)
  have ok: "apply_update_patch title archived meta d = Ok (patch d)" for d
    using small by (simp add: apply_update_patch_Ok_iff patch_def)
  obtain now w1 where n: "run_state now_unix w = (now, w1)" by (metis surj_pair)
  then have w1: "sw_kv w1 = sw_kv w" "sw_bus w1 = sw_bus w" "si_turns (sw_in w1) = []" "si_bus_faults (sw_in w1) = []"
    using assms(3,4) by (auto simp: now_unix_def split: list.splits)
  have um: "update_mutation title archived meta now = (\<lambda>d. Ok (touch_opt now (patch d)))"
    by (simp add: fun_eq_iff update_mutation_def ok)
  have "quiet H (keys_with session_key_prefix (sw_kv w)) (view H (sw_kv w)) w1"
    using assms(1,2) w1 by (simp add: quiet_def)
  then obtain w2 where m: "run_state (modify_existing H i (update_mutation title archived meta now)) w1 =
      (case view H (sw_kv w) i of None \<Rightarrow> (Ok None, w2)
       | Some d \<Rightarrow> (case jc_encode (sh_codec H) (touch_opt now (patch d)) of
             Err e \<Rightarrow> (Err (Json_Error e), w2)
           | Ok b \<Rightarrow> (Ok (Some (touch_opt now (patch d))), w2\<lparr>sw_kv := bt_insert (session_key i) b (sw_kv w2)\<rparr>)))"
    and q2: "quiet H (keys_with session_key_prefix (sw_kv w)) (view H (sw_kv w)) w2"
    and "sw_bus w2 = sw_bus w1" "sw_in w2 = sw_in w1"
    unfolding um by (rule quiet_modify_existing[of _ _ _ _ i "\<lambda>d. Ok (touch_opt now (patch d))", unfolded sum.case])
  with w1 have w2: "\<forall>j. view H (sw_kv w2) j = view H (sw_kv w) j" "sw_bus w2 = sw_bus w" "si_bus_faults (sw_in w2) = []"
    by (simp_all add: quiet_def)
  have run: "run_state (do_update H i title archived meta) w =
      (case run_state (modify_existing H i (update_mutation title archived meta now)) w1 of
         (Err e, u) \<Rightarrow> (Err e, u)
       | (Ok x, u) \<Rightarrow> run_state (case x of None \<Rightarrow> ret (Ok None)
           | Some d \<Rightarrow> do {
                publish_session_event Event_Updated i (session_summary_json i d);
                ret (Ok (Some (session_summary_json i d))) }) u)"
    by (simp add: do_update_def ok run_bind n run_attempt)
  show ?thesis
  proof (cases "view H (sw_kv w) i")
    case None
    with run m assms(6) w2 False show ?thesis by auto
  next
    case (Some d)
    let ?d = "touch_opt now (patch d)"
    have c: "clock_reading w = now" using n by (auto simp: clock_reading_def now_unix_def split: list.splits)
    from assms(5)[OF Some] obtain b where b: "jc_encode (sh_codec H) ?d = Ok b" by (auto simp: is_ok_iff c ps)
    have "sd_schema_version ?d = session_data_schema_version"
      using Some by (auto simp: patch_def view_def session_of_version)
    then have s: "session_of H b = ?d" using session_of_encoded[OF assms(1) b] by simp
    have "r = Ok (Some (session_summary_json i ?d)) \<and> sw_bus w' = sw_bus w @ [updated_event i ?d] \<and>
        sw_kv w' = bt_insert (session_key i) b (sw_kv w2)"
      using run m assms(6) w2 Some b
      by (auto simp: run_bind publish_session_event_def session_publish_def updated_event_def event_kind_str_def)
    then show ?thesis
      using False Some s w2 by (auto simp: view_insert c ps)
  qed
qed

end
