(* ===== verification/Session_Search.thy ===== *)
theory Session_Search
  imports Session_Pages
begin

text \<open>
  What a search of one transcript finds, the sizes of the texts that are shown, what an append does to a blob the
  capsule cannot read, and concrete runs of the capsule for the properties of the session theories.
\<close>

section \<open>Matches\<close>

lemma find_str_None_iff: "find_str n h = None \<longleftrightarrow> \<not> contains_str h n"
  by (induction h) auto

definition text_matches :: "(string \<Rightarrow> string) \<Rightarrow> string \<Rightarrow> message \<Rightarrow> bool" where
  "text_matches lower q m \<longleftrightarrow> (case message_text m of None \<Rightarrow> False | Some t \<Rightarrow> contains_str (lower t) q)"

definition first_snippet :: "(string \<Rightarrow> string) \<Rightarrow> string \<Rightarrow> message \<Rightarrow> string" where
  "first_snippet lower q m =
     (let t = or_str (message_text m) [] in
      snippet_around t (lower t) (case find_str q (lower t) of None \<Rightarrow> 0 | Some p \<Rightarrow> p))"

lemma search_message_cases:
  "search_message lower q m acc =
     (if text_matches lower q m
      then (u32_saturating_add (fst acc) 1, Some (case snd acc of None \<Rightarrow> first_snippet lower q m | Some s \<Rightarrow> s))
      else acc)"
  using find_str_None_iff[of q "lower (or_str (message_text m) [])"]
  by (auto simp: search_message_def text_matches_def first_snippet_def or_str_def Let_def split: option.splits)

lemma unat_u32_saturating_add: "unat (u32_saturating_add a 1) = min (Suc (unat a)) (2 ^ 32 - 1)"
proof -
  have "unat a < 2 ^ LENGTH(32)" by (rule unsigned_less)
  moreover have "unat (- 1 :: u32) = 2 ^ 32 - 1" by (simp add: unsigned_minus_1_eq_mask mask_eq_exp_minus_1)
  ultimately show ?thesis by (auto simp: u32_saturating_add_def unat_word_ariths min_def)
qed

lemma search_fold:
  "unat (fst (fold (search_message lower q) ms (n, s))) = min (unat n + length (filter (text_matches lower q) ms)) (2 ^ 32 - 1) \<and>
   snd (fold (search_message lower q) ms (n, s)) =
     (case s of Some t \<Rightarrow> Some t | None \<Rightarrow> map_option (first_snippet lower q) (find (text_matches lower q) ms))"
proof (induction ms arbitrary: n s)
  case Nil
  have "unat n < 2 ^ LENGTH(32)" by (rule unsigned_less)
  then show ?case by (auto split: option.split)
next
  case (Cons m ms)
  then show ?case
    by (auto simp: search_message_cases unat_u32_saturating_add split: option.split)
qed

lemma search_messages_spec:
  "search_messages lower ms q =
     (case filter (text_matches lower q) ms of
        [] \<Rightarrow> None
      | m # rest \<Rightarrow> Some (of_nat (min (length (m # rest)) (2 ^ 32 - 1)), Some (first_snippet lower q m)))"
proof -
  let ?acc = "fold (search_message lower q) ms (0, None)" and ?hits = "filter (text_matches lower q) ms"
  have f: "find P xs = (case filter P xs of [] \<Rightarrow> None | x # _ \<Rightarrow> Some x)" for P and xs :: "message list"
    by (induction xs) auto
  have n: "unat (fst ?acc) = min (length ?hits) (2 ^ 32 - 1)"
    and s: "snd ?acc = map_option (first_snippet lower q) (find (text_matches lower q) ms)"
    using search_fold[of lower q ms 0 None] by simp_all
  have "of_nat (unat (fst ?acc)) = fst ?acc" by simp
  then have "fst ?acc = of_nat (min (length ?hits) (2 ^ 32 - 1))" unfolding n by (rule sym)
  moreover have "fst ?acc = 0 \<longleftrightarrow> ?hits = []" using n by (auto simp: unat_eq_0[symmetric] min_def)
  ultimately show ?thesis
    using s by (cases ?hits; cases ?acc) (auto simp: search_messages_def Let_def f)
qed

text \<open>C28. A search of a transcript is exact: it hits just when the text of some message contains the lowercased
  query, counts the messages that do (stopping at the largest 32-bit number), and shows the first of them.
\<close>

theorem search_messages_exact:
  "search_messages lower ms q =
     (case filter (text_matches lower q) ms of
        [] \<Rightarrow> None
      | m # rest \<Rightarrow> Some (of_nat (min (length (m # rest)) (2 ^ 32 - 1)), Some (first_snippet lower q m)))"
  by (rule search_messages_spec)

section \<open>Sizes\<close>

lemma chars_dropWhile: "length (chars (dropWhile is_continuation s)) \<le> length (chars s)"
  by (cases s) auto

lemma chars_append: "length (chars (s @ t)) \<le> length (chars s) + length (chars t)"
proof (induction s rule: chars.induct)
  case (2 c cs)
  show ?case
  proof (cases "list_all is_continuation cs")
    case True
    then have "dropWhile is_continuation (cs @ t) = dropWhile is_continuation t" "dropWhile is_continuation cs = []"
      by (simp_all add: list_all_iff)
    with chars_dropWhile[of t] show ?thesis by simp
  next
    case False
    then obtain x where "x \<in> set cs" "\<not> is_continuation x" by (auto simp: list_all_iff)
    then have "dropWhile is_continuation (cs @ t) = dropWhile is_continuation cs @ t"
      by (rule dropWhile_append1)
    with 2 show ?thesis by simp
  qed
qed simp

lemma chars_char: "x \<in> set (chars s) \<Longrightarrow> length (chars x) = 1"
proof (induction s rule: chars.induct)
  case (2 c cs)
  have "dropWhile is_continuation (takeWhile is_continuation cs) = []" by (auto dest: set_takeWhileD)
  then have "chars (dropWhile is_continuation (takeWhile is_continuation cs)) = []" by (subst \<open>_ = []\<close>) simp
  then show ?case using 2 by (cases "x = c # takeWhile is_continuation cs") simp_all
qed simp

lemma chars_concat: "set xs \<subseteq> set (chars s) \<Longrightarrow> length (chars (concat xs)) \<le> length xs"
proof (induction xs)
  case (Cons x xs)
  then have "length (chars x) = 1" by (intro chars_char[of _ s]) simp
  with Cons chars_append[of x "concat xs"] show ?case by simp
qed simp

lemma chars_trim: "length (chars (trim s)) \<le> length (chars s)"
proof -
  let ?xs = "rev (dropWhile is_whitespace (rev (dropWhile is_whitespace (chars s))))"
  have "set ?xs \<subseteq> set (chars s)" by (auto dest!: set_dropWhileD)
  then have "length (chars (trim s)) \<le> length ?xs" unfolding trim_def by (rule chars_concat)
  also have "\<dots> \<le> length (chars s)"
    using length_dropWhile_le[of is_whitespace "rev (dropWhile is_whitespace (chars s))"]
      length_dropWhile_le[of is_whitespace "chars s"] by simp
  finally show ?thesis .
qed

lemma chars_ellipsis: "length (chars ellipsis) = 1"
  by (simp add: ellipsis_def is_continuation_def Let_def)

text \<open>Shown texts are bounded: a preview has at most 80 characters and one ellipsis, a snippet at most 120
  characters between two, whatever the length of the transcript.
\<close>

theorem shown_texts_bounded:
  "(\<forall>t. session_preview ms = Some t \<longrightarrow> length (chars t) \<le> 81) \<and>
   (\<forall>t. session_last_message_preview ms = Some t \<longrightarrow> length (chars t) \<le> 81) \<and>
   (\<forall>n t. search_messages lower ms q = Some (n, Some t) \<longrightarrow> length (chars t) \<le> 122)"
proof -
  have tr: "length (chars (truncate_chars s n)) \<le> Suc n" for s n
  proof -
    have "set (take n (chars s)) \<subseteq> set (chars s)" by (rule set_take_subset)
    from chars_concat[OF this] chars_append[of "concat (take n (chars s))" ellipsis] chars_ellipsis
    show ?thesis by (auto simp: truncate_chars_def)
  qed
  have sn: "length (chars (snippet_around t l p)) \<le> 122" for t l p
  proof -
    define stop where "stop = min ((length (chars (take p l)) - snippet_max_chars div 2) + snippet_max_chars) (length (chars t))"
    define start where "start = stop - snippet_max_chars"
    define excerpt where "excerpt = trim (concat (take (stop - start) (drop start (chars t))))"
    have "set (take (stop - start) (drop start (chars t))) \<subseteq> set (chars t)"
      using set_take_subset set_drop_subset by (rule order_trans)
    from chars_concat[OF this] have "length (chars (concat (take (stop - start) (drop start (chars t))))) \<le> stop - start"
      by simp
    moreover have "stop - start \<le> 120" by (simp add: start_def snippet_max_chars_def)
    ultimately have e: "length (chars excerpt) \<le> 120"
      unfolding excerpt_def using chars_trim order_trans by (metis (no_types, lifting))
    have b: "length (chars (if c then ellipsis else [])) \<le> 1" for c by (simp add: chars_ellipsis)
    have eq: "snippet_around t l p = (if 0 < start then ellipsis else []) @ excerpt @ (if stop < length (chars t) then ellipsis else [])"
      by (simp add: snippet_around_def Let_def stop_def start_def excerpt_def)
    show ?thesis
      unfolding eq
      using chars_append[of "if 0 < start then ellipsis else []" "excerpt @ (if stop < length (chars t) then ellipsis else [])"]
      chars_append[of excerpt "if stop < length (chars t) then ellipsis else []"] b[of "0 < start"] b[of "stop < length (chars t)"] e
      by linarith
  qed
  have "length (chars t) \<le> 122" if "search_messages lower ms q = Some (n, Some t)" for n t
    using that sn by (auto simp: search_messages_spec first_snippet_def Let_def split: list.splits)
  then show ?thesis
    using tr[of _ preview_max_chars]
    by (auto simp: session_preview_def session_last_message_preview_def preview_max_chars_def split: option.splits)
qed

section \<open>Blobs that cannot be read\<close>

text \<open>An append to a session whose stored blob has a schema version from the future (or does not parse) succeeds
  and replaces the whole blob: the messages that were stored are lost, and those that are stored then are the appended
  ones alone.
\<close>

theorem newer_transcript_overwritten:
  assumes "json_codec_ok (sh_codec H)" and "bt_wf (sw_kv w)" and "si_turns (sw_in w) = []"
    and "bt_get (sw_kv w) (session_key i) = Some b" and "jc_decode (sh_codec H) b = Ok d0"
    and "session_data_schema_version < sd_schema_version d0"
    and "jc_encode (sh_codec H) (append_messages ms now session_default) = Ok b'"
  shows "\<exists>w'. run_state (modify_atomic H i (append_messages ms now)) w =
      (Ok (append_messages ms now session_default), w') \<and>
    bt_get (sw_kv w') (session_key i) = Some b' \<and> transcript H (sw_kv w) i = sd_messages d0 \<and> transcript H (sw_kv w') i = ms"
proof -
  have s: "session_of H b = session_default"
    using assms(5,6) by (auto simp: session_of_def parse_session_def migrate_def)
  then have v: "view H (sw_kv w) i = Some session_default" using assms(4) by (simp add: view_def)
  obtain w1 where "run_state (load H i) w = ((seen (view H (sw_kv w) i), bt_get (sw_kv w1) (session_key i)), w1)"
    and "sw_in w1 = sw_in w" by (rule quiet_load[OF quiet_start[OF assms(1-3)], of i])
  then have l: "run_state (load H i) w = ((session_default, bt_get (sw_kv w1) (session_key i)), w1)"
    and q: "si_turns (sw_in w1) = []" using v assms(3) by simp_all
  obtain k where n: "modify_atomic H i f = modify_loop H i f (Suc k)" for f
    by (simp add: modify_atomic_def cas_retry_limit_def eval_nat_numeral del: modify_loop.simps)
  let ?w = "w1\<lparr>sw_kv := bt_insert (session_key i) b' (sw_kv w1)\<rparr>"
  have "run_state (modify_atomic H i (append_messages ms now)) w = (Ok (append_messages ms now session_default), ?w)"
    unfolding n using l assms(7) quiet_cas[OF q, of i b'] by (simp add: run_bind)
  moreover have "transcript H (sw_kv ?w) i = ms"
    using transcript_insert(1)[OF assms(1,7), of i "sw_kv w1" i] by (simp add: session_default_def)
  moreover have "transcript H (sw_kv w) i = sd_messages d0" using assms(4,5) by (simp add: transcript_def)
  ultimately show ?thesis by (intro exI[of _ ?w]) simp
qed

end
