(* ===== verification/Session_Demo.thy ===== *)
theory Session_Demo
  imports Session_Search
begin

text \<open>
  A concrete host and concrete runs of the session capsule, on which the hypotheses of the session properties
  hold: two stored sessions, and another writer that appends between a load and the swap that follows it.
\<close>

section \<open>The host\<close>

text \<open>A codec for a finite table of values.\<close>

definition table_codec :: "(string \<times> 'a) list \<Rightarrow> 'a json_codec" where
  "table_codec tbl = \<lparr>jc_encode = (\<lambda>x. case find (\<lambda>p. snd p = x) tbl of None \<Rightarrow> Err ''unknown'' | Some p \<Rightarrow> Ok (fst p)),
     jc_decode = (\<lambda>b. case map_of tbl b of None \<Rightarrow> Err ''unknown'' | Some x \<Rightarrow> Ok x)\<rparr>"

lemma table_codec_ok:
  assumes "distinct (map fst tbl)" and "[] \<notin> fst ` set tbl"
  shows "json_codec_ok (table_codec tbl)"
proof -
  have "b \<noteq> [] \<and> map_of tbl b = Some x" if "find (\<lambda>p. snd p = x) tbl = Some (b, y)" for b x y
  proof -
    from that obtain i where "i < length tbl" "snd (tbl ! i) = x" "(b, y) = tbl ! i" by (auto simp: find_Some_iff)
    then have "(b, y) \<in> set tbl" "y = x" using nth_mem by (metis, metis snd_conv)
    with assms show ?thesis by (auto simp: image_iff)
  qed
  then show ?thesis by (auto simp: json_codec_ok_def table_codec_def split: option.splits)
qed

definition key_page :: "string list \<Rightarrow> string option \<Rightarrow> nat \<Rightarrow> string list \<times> string option" where
  "key_page ks c n = (take n (after c ks),
     if length (after c ks) \<le> n then None else Some (after c ks ! (n - 1)))"

definition text_message :: "message_role \<Rightarrow> string \<Rightarrow> message" where
  "text_message r t = \<lparr>msg_role = r, msg_content = Plain_Text t\<rparr>"

definition demo_session :: "string list \<Rightarrow> session_data" where
  "demo_session ts = session_default\<lparr>sd_messages := map (text_message Role_User) ts\<rparr>"

definition future_session :: session_data where
  "future_session = (demo_session [''old''])\<lparr>sd_schema_version := 3\<rparr>"

definition session_demo_host :: session_host where
  "session_demo_host = \<lparr>
     sh_codec = table_codec [(''1'', demo_session [''hello'']), (''2'', demo_session [''hello'', ''other'']),
       (''3'', demo_session [''hello'', ''other'', ''mine'']), (''4'', (demo_session [''hello''])\<lparr>sd_title := Some ''T''\<rparr>),
       (''5'', future_session), (''6'', demo_session [''mine'']),
       (''7'', demo_session [''hello'', ''mine''])],
     sh_lower = to_ascii_lowercase,
     sh_messages = (\<lambda>v. if v = CNull then Ok [text_message Role_User ''mine''] else Err ''bad''),
     sh_message_json = (\<lambda>_. CNull), sh_page = key_page, sh_show = (\<lambda>_. ''failed'')\<rparr>"

lemma demo_session_codec: "json_codec_ok (sh_codec session_demo_host)"
  unfolding session_demo_host_def by (simp, rule table_codec_ok) simp_all

lemma demo_pages: "pages_by_key session_demo_host"
proof -
  have "snd (key_page ks c n) = Some c' \<Longrightarrow> after (Some c') ks = drop n (after c ks)"
    if "sorted_wrt (<) ks" "0 < n" for ks c n c'
    using after_key[OF that(1), of "n - 1" c] that(2) by (auto simp: key_page_def split: if_splits)
  then show ?thesis by (auto simp: pages_by_key_def session_demo_host_def key_page_def)
qed

definition quiet_inputs :: session_inputs where
  "quiet_inputs = \<lparr>si_turns = [], si_clock = [], si_bus_faults = [], si_uuid = ''u''\<rparr>"

text \<open>The other writer adds a message to session \<open>a\<close>, at its second turn.\<close>

definition other_append :: "kv_table \<Rightarrow> kv_table" where
  "other_append m = (if bt_get m (session_key ''a'') = Some ''1'' then bt_insert (session_key ''a'') ''2'' m else m)"

definition busy_inputs :: session_inputs where
  "busy_inputs = quiet_inputs\<lparr>si_turns := [\<lparr>ht_others = \<lambda>m. m, ht_fault = None\<rparr>, \<lparr>ht_others = other_append, ht_fault = None\<rparr>]\<rparr>"

definition demo_table :: kv_table where
  "demo_table = [(session_key ''a'', ''1''), (session_key ''b'', ''2'')]"

definition session_demo_world :: "session_inputs \<Rightarrow> session_world" where
  "session_demo_world i = \<lparr>sw_kv = demo_table, sw_bus = [], sw_in = i\<rparr>"

definition append_payload :: canonical_json where
  "append_payload = json_obj [(''append_before_read'', CNull), (''correlation_id'', CString ''c''), (''messages'', CNull),
     (''session_id'', CString ''a'')]"

section \<open>Facts of the example\<close>

lemma demo_session_simps:
  "demo_session ts = demo_session us \<longleftrightarrow> map (text_message Role_User) ts = map (text_message Role_User) us"
  "text_message r t = text_message r' t' \<longleftrightarrow> r = r' \<and> t = t'"
  "sd_messages (demo_session ts) = map (text_message Role_User) ts"
  "sd_schema_version (demo_session ts) = 2" "sd_archived (demo_session ts) = False" "sd_meta (demo_session ts) = None"
  "sd_title (demo_session ts) = None"
  by (auto simp: demo_session_def session_default_def text_message_def session_data_schema_version_def)

lemma demo_decode:
  "session_of session_demo_host ''1'' = demo_session [''hello'']"
  "session_of session_demo_host ''2'' = demo_session [''hello'', ''other'']"
  "session_of session_demo_host ''3'' = demo_session [''hello'', ''other'', ''mine'']"
  by (simp_all add: session_of_def parse_session_def session_demo_host_def table_codec_def migrate_def
      session_data_schema_version_def demo_session_simps)

lemma demo_view:
  "view session_demo_host demo_table ''a'' = Some (demo_session [''hello''])"
  "view session_demo_host demo_table ''b'' = Some (demo_session [''hello'', ''other''])"
  by (simp_all add: view_def demo_table_def bt_get_def demo_decode)

lemma demo_table_wf: "bt_wf demo_table"
  by (simp add: demo_table_def bt_wf_def session_key_def session_key_prefix_def)

lemma demo_keys: "keys_with session_key_prefix demo_table = [session_key ''a'', session_key ''b'']"
  by (simp add: keys_with_def demo_table_def bt_keys_def session_key_def)

lemma demo_blobs:
  "jc_decode (sh_codec session_demo_host) ''1'' = Ok (demo_session [''hello''])"
  "jc_decode (sh_codec session_demo_host) ''2'' = Ok (demo_session [''hello'', ''other''])"
  by (simp_all add: session_demo_host_def table_codec_def)

lemma demo_others:
  "transcript session_demo_host (other_append m) ''a'' =
     transcript session_demo_host m ''a'' @ (if bt_get m (session_key ''a'') = Some ''1'' then [text_message Role_User ''other''] else [])"
  "known_session session_demo_host m ''a'' \<Longrightarrow> known_session session_demo_host (other_append m) ''a''"
  by (simp_all add: other_append_def transcript_def known_session_def bt_get_insert demo_blobs demo_session_simps
      session_data_schema_version_def)

lemma demo_others_append: "others_append session_demo_host {text_message Role_User ''other''} ''a'' busy_inputs"
  by (auto simp: others_append_def busy_inputs_def quiet_inputs_def demo_others)

lemma demo_known: "known_session session_demo_host demo_table ''a''"
  by (simp add: known_session_def demo_table_def bt_get_def demo_blobs demo_session_simps session_data_schema_version_def)

lemma demo_world_simps [simp]:
  "sw_kv (session_demo_world i) = demo_table" "sw_bus (session_demo_world i) = []" "sw_in (session_demo_world i) = i"
  by (simp_all add: session_demo_world_def)

lemma quiet_inputs_simps [simp]: "si_turns quiet_inputs = []" "si_bus_faults quiet_inputs = []" "si_clock quiet_inputs = []"
  by (simp_all add: quiet_inputs_def)

lemma demo_payload: "payload_session_id append_payload = ''a''" "json_get append_payload ''messages'' = Some CNull"
    "json_get append_payload ''append_before_read'' = Some CNull"
  by (simp_all add: append_payload_def payload_session_id_def payload_str_def json_get_obj json_str_def)

lemma demo_parsed: "parsed_messages session_demo_host append_payload ''messages'' = Ok [text_message Role_User ''mine'']"
  by (simp add: parsed_messages_def demo_payload session_demo_host_def)

section \<open>Witnesses\<close>

definition demo_appended :: "(sys_error + unit) \<times> session_world" where
  "demo_appended = run_state (handle_append session_demo_host append_payload) (session_demo_world busy_inputs)"

lemma demo_append_run: "fst demo_appended = Ok () \<and>
    bt_get (sw_kv (snd demo_appended)) (session_key ''a'') = Some ''3''"
  by code_simp

text \<open>An append between whose load and swap another writer appended: both messages are there, in that order.\<close>

theorem append_stored_once_witness:
  "\<exists>xs. set xs \<subseteq> {text_message Role_User ''other''} \<and>
     transcript session_demo_host (sw_kv (snd demo_appended)) ''a'' =
       transcript session_demo_host demo_table ''a'' @ xs @ [text_message Role_User ''mine'']"
  using append_stored_once[OF demo_session_codec demo_parsed, of "session_demo_world busy_inputs"
      "{text_message Role_User ''other''}" "fst demo_appended" "snd demo_appended"] demo_others_append demo_append_run demo_known
  by (simp add: demo_payload session_demo_world_def demo_appended_def)

definition demo_read :: "(sys_error + session_data) \<times> session_world" where
  "demo_read = run_state (append_before_read session_demo_host append_payload) (session_demo_world busy_inputs)"

lemma demo_read_run: "fst demo_read = Ok (demo_session [''hello'', ''other'', ''mine''])"
  by code_simp

theorem append_before_read_atomic_witness:
  "\<exists>xs. set xs \<subseteq> {text_message Role_User ''other''} \<and>
     transcript session_demo_host demo_table ''a'' @ xs @ [text_message Role_User ''mine''] =
       map (text_message Role_User) [''hello'', ''other'', ''mine'']"
proof -
  have "run_state (append_before_read session_demo_host append_payload) (session_demo_world busy_inputs) =
      (Ok (demo_session [''hello'', ''other'', ''mine'']), snd demo_read)"
    using demo_read_run by (metis demo_read_def prod.collapse)
  from append_before_read_atomic[OF demo_session_codec demo_payload(3) _ _ _ _ this,
      of "[text_message Role_User ''mine'']" "{text_message Role_User ''other''}"] demo_others_append demo_known
  show ?thesis
    by (auto simp: demo_payload session_demo_world_def demo_session_simps session_demo_host_def)
qed

text \<open>The steps of the other writer of the example: it adds its one message to session \<open>a\<close>.\<close>

definition demo_writer :: "string \<Rightarrow> session_data option \<Rightarrow> session_data option \<Rightarrow> bool" where
  "demo_writer i v v' \<longleftrightarrow> i = ''a'' \<and> v = Some (demo_session [''hello'']) \<and> v' = Some (demo_session [''hello'', ''other''])"

definition demo_after_append :: session_world where
  "demo_after_append = session_step session_demo_host (session_demo_world quiet_inputs) (busy_inputs, Ev_Append append_payload)"

lemma demo_after:
  "bt_get (sw_kv demo_after_append) (session_key ''a'') = Some ''3''"
  "bt_get (sw_kv demo_after_append) (session_key ''b'') = Some ''2''"
  by code_simp+

theorem session_events_refine_witness:
  "(change_step session_demo_host (Ev_Append append_payload) demo_writer ''a'')\<^sup>*\<^sup>* (Some (demo_session [''hello'']))
     (Some (demo_session [''hello'', ''other'', ''mine''])) \<and>
   view session_demo_host (sw_kv demo_after_append) ''a'' = Some (demo_session [''hello'', ''other'', ''mine'']) \<and>
   view session_demo_host (sw_kv demo_after_append) ''b'' = Some (demo_session [''hello'', ''other''])"
proof -
  have writers: "\<forall>t \<in> set (si_turns busy_inputs). \<forall>m i. (demo_writer i)\<^sup>*\<^sup>* (view session_demo_host m i) (view session_demo_host (ht_others t m) i)"
    by (auto simp: busy_inputs_def quiet_inputs_def other_append_def view_insert demo_decode demo_writer_def
        intro!: r_into_rtranclp) (simp add: view_def demo_decode)
  have views: "view session_demo_host (sw_kv demo_after_append) ''a'' = Some (demo_session [''hello'', ''other'', ''mine''])"
    "view session_demo_host (sw_kv demo_after_append) ''b'' = Some (demo_session [''hello'', ''other''])"
    by (simp_all add: view_def demo_after demo_decode)
  from session_events_refine[OF demo_session_codec writers, of "Ev_Append append_payload" "session_demo_world quiet_inputs"]
  have "(change_step session_demo_host (Ev_Append append_payload) demo_writer ''a'')\<^sup>*\<^sup>* (view session_demo_host demo_table ''a'')
      (view session_demo_host (sw_kv demo_after_append) ''a'')"
    by (simp add: session_demo_world_def demo_after_append_def)
  with views demo_view(1) show ?thesis by simp
qed

theorem only_named_session_changes_witness:
  "view session_demo_host (sw_kv (session_step session_demo_host (session_demo_world quiet_inputs)
     (busy_inputs, Ev_Append append_payload))) ''b'' = Some (demo_session [''hello'', ''other''])"
  by (rule only_named_session_changes[OF demo_session_codec])
    (auto simp: session_demo_world_def demo_view named_session_def demo_payload busy_inputs_def quiet_inputs_def
      other_append_def view_insert)

theorem list_pages_complete_witness:
  "fst (run_state (read_list 3 session_demo_host False None 1) (session_demo_world quiet_inputs)) =
     Some [session_summary_json ''a'' (demo_session [''hello'']), session_summary_json ''b'' (demo_session [''hello'', ''other''])]"
  using list_pages_complete[OF demo_session_codec demo_pages, of "session_demo_world quiet_inputs" 1 3 False] demo_table_wf
  by (simp add: session_demo_world_def quiet_inputs_def demo_keys session_summaries_def List.map_filter_simps
      strip_prefix_str_def session_key_def demo_view is_visible_def demo_session_simps)

theorem search_pages_complete_witness:
  "fst (run_state (read_search 3 session_demo_host ''OTHER'' False None 1) (session_demo_world quiet_inputs)) =
     Some [search_hit ''b'' (demo_session [''hello'', ''other'']) (1, Some ''other'')]"
proof -
  have h: "session_hits session_demo_host ''other'' False (view session_demo_host demo_table) [session_key ''a'', session_key ''b''] =
      [search_hit ''b'' (demo_session [''hello'', ''other'']) (1, Some ''other'')]"
  proof -
    have m: "text_matches to_ascii_lowercase ''other'' (text_message Role_User ''other'')"
      "\<not> text_matches to_ascii_lowercase ''other'' (text_message Role_User ''hello'')"
      "first_snippet to_ascii_lowercase ''other'' (text_message Role_User ''other'') = ''other''"
      by code_simp+
    moreover have "sh_lower session_demo_host = to_ascii_lowercase" by (simp add: session_demo_host_def)
    ultimately show ?thesis
      by (simp add: session_hits_simps key_hit_def session_key_def strip_prefix_str_def session_hit_def demo_view
          is_visible_def demo_session_simps search_messages_spec)
  qed
  have l: "sh_lower session_demo_host ''OTHER'' = ''other''" by code_simp
  show ?thesis
    using search_pages_complete[OF demo_session_codec demo_pages, of "session_demo_world quiet_inputs" "''OTHER''" 3 False 1]
      demo_table_wf h
    by (simp add: session_demo_world_def quiet_inputs_def demo_keys l)
qed

theorem session_store_invariant_witness:
  "sessions_readable session_demo_host (sw_kv (session_run session_demo_host (session_demo_world quiet_inputs)
     [(busy_inputs, Ev_Append append_payload), (quiet_inputs, Ev_Delete append_payload)]))"
proof (rule session_store_invariant[OF demo_session_codec])
  have d: "jc_decode (sh_codec session_demo_host) ''1'' = Ok (demo_session [''hello''])"
    "jc_decode (sh_codec session_demo_host) ''2'' = Ok (demo_session [''hello'', ''other''])"
    by (simp_all add: session_demo_host_def table_codec_def)
  have b: "meta_bounded (demo_session ts)" for ts by (simp add: meta_bounded_def demo_session_simps)
  show "sessions_readable session_demo_host (sw_kv (session_demo_world quiet_inputs))"
    using demo_table_wf d b
    by (auto simp: sessions_readable_def session_demo_world_def bt_get_def demo_table_def session_key_def demo_session_simps
        session_data_schema_version_def split: if_splits)
  have "sessions_readable session_demo_host (other_append m)" if "sessions_readable session_demo_host m" for m
    using that d b
    by (auto simp: sessions_readable_def other_append_def session_key_def demo_session_simps session_data_schema_version_def)
  then show "\<forall>c \<in> set [(busy_inputs, Ev_Append append_payload), (quiet_inputs, Ev_Delete append_payload)].
      \<forall>t \<in> set (si_turns (fst c)). \<forall>m. sessions_readable session_demo_host m \<longrightarrow> sessions_readable session_demo_host (ht_others t m)"
    by (simp add: busy_inputs_def quiet_inputs_def)
qed

definition demo_retitled :: "(sys_error + canonical_json option) \<times> session_world" where
  "demo_retitled = run_state (do_update session_demo_host ''a'' (Replace (Some ''T'')) Keep Keep) (session_demo_world quiet_inputs)"

lemma update_patches_exactly_witness:
  "sw_bus (snd demo_retitled) = [updated_event ''a'' ((demo_session [''hello''])\<lparr>sd_title := Some ''T''\<rparr>)]"
proof -
  have p: "patched_session (Replace (Some ''T'')) Keep Keep (clock_reading (session_demo_world quiet_inputs)) (demo_session [''hello'']) =
      (demo_session [''hello''])\<lparr>sd_title := Some ''T''\<rparr>"
    by (simp add: patched_session_def patched_def clock_reading_def touch_opt_def)
  have e: "is_ok (jc_encode (sh_codec session_demo_host) ((demo_session [''hello''])\<lparr>sd_title := Some ''T''\<rparr>))"
    by code_simp
  have r: "run_state (do_update session_demo_host ''a'' (Replace (Some ''T'')) Keep Keep) (session_demo_world quiet_inputs) =
      (fst demo_retitled, snd demo_retitled)" by (simp add: demo_retitled_def)
  show ?thesis
    using update_patches_exactly[OF demo_session_codec _ _ _ _ r] demo_table_wf p e
    by (simp add: demo_view Let_def)
qed

theorem newer_transcript_overwritten_witness:
  "\<exists>w'. run_state (modify_atomic session_demo_host ''f'' (append_messages [text_message Role_User ''mine''] None))
       \<lparr>sw_kv = [(session_key ''f'', ''5'')], sw_bus = [], sw_in = quiet_inputs\<rparr> =
      (Ok (append_messages [text_message Role_User ''mine''] None session_default), w') \<and>
    bt_get (sw_kv w') (session_key ''f'') = Some ''6'' \<and>
    transcript session_demo_host [(session_key ''f'', ''5'')] ''f'' = [text_message Role_User ''old''] \<and>
    transcript session_demo_host (sw_kv w') ''f'' = [text_message Role_User ''mine'']"
proof -
  let ?w = "\<lparr>sw_kv = [(session_key ''f'', ''5'')], sw_bus = [], sw_in = quiet_inputs\<rparr>"
  have d: "jc_decode (sh_codec session_demo_host) ''5'' = Ok future_session"
    by (simp add: session_demo_host_def table_codec_def)
  have e: "jc_encode (sh_codec session_demo_host) (append_messages [text_message Role_User ''mine''] None session_default) = Ok ''6''"
    by code_simp
  have m: "sd_messages future_session = [text_message Role_User ''old'']"
    by (simp add: future_session_def demo_session_simps)
  have v: "session_data_schema_version < sd_schema_version future_session"
    by (simp add: future_session_def session_data_schema_version_def)
  from newer_transcript_overwritten[OF demo_session_codec _ _ _ d v e, of ?w "''f''", unfolded m]
  show ?thesis by (simp add: bt_get_def bt_wf_def)
qed

end
