(* ===== verification/Store_Edits.thy ===== *)
theory Store_Edits
  imports Store_Properties
begin

text \<open>
  What a patch, a rollback, a merge and a replay do to the content of a recipe
  (\<open>capsules/capsule-surface-model/src/store.rs\<close>): which nodes and fields change and which do not.
\<close>

section \<open>Single edits\<close>

text \<open>\<open>SetState\<close> changes the state of the addressed node and nothing else: the rows of the tree (depth,
  identity, kind, properties, state, accessibility, in preorder) differ only in that cell, and no other field of
  the recipe differs.\<close>

theorem set_state_is_local:
  assumes "scene_ok (rcp_root r)"
    and "apply_operation H (r, vc) (SetState i st) = Ok (r', vc')"
  shows "vc' \<and> r' = r\<lparr>rcp_root := rcp_root r'\<rparr> \<and>
    node_rows 0 (rcp_root r') =
      map (\<lambda>(d, j, k, p, s, a). (d, j, k, p, if j = i then st else s, a)) (node_rows 0 (rcp_root r))"
proof -
  from assms(2) obtain n where n: "find_node i (rcp_root r) = Some n"
    and r': "r' = r\<lparr>rcp_root := replace_node i (set_node_state n st) (rcp_root r)\<rparr>" "vc'"
    by (auto simp: result_simps)
  have "distinct (node_ids (rcp_root r))" using assms(1) by (simp add: scene_ok_def)
  from rows_set_state [OF this n] r' show ?thesis by simp
qed

theorem set_state_is_local_witness:
  "apply_operation demo_host (demo_recipe, False) (SetState 1 4) =
     Ok (demo_recipe\<lparr>rcp_root := set_node_state demo_root 4\<rparr>, True) \<and>
   node_rows 0 (set_node_state demo_root 4) =
     map (\<lambda>(d, j, k, p, s, a). (d, j, k, p, if j = 1 then 4 else s, a)) (node_rows 0 demo_root)"
proof -
  have step: "apply_operation demo_host (demo_recipe, False) (SetState 1 4) =
      Ok (demo_recipe\<lparr>rcp_root := set_node_state demo_root 4\<rparr>, True)"
    by (simp add: demo_root_def set_node_state_def)
  from set_state_is_local [OF _ step] step show ?thesis by (simp add: demo_scene)
qed

text \<open>\<open>SetProperty\<close> sets one property of the addressed node and nothing else, and only within the bounds of
  the property bag.\<close>

theorem set_property_is_local:
  assumes "scene_ok (rcp_root r)"
    and "apply_operation H (r, vc) (SetProperty i key v) = Ok (r', vc')"
  shows "vc' \<and> r' = r\<lparr>rcp_root := rcp_root r'\<rparr> \<and>
    node_rows 0 (rcp_root r') =
      map (\<lambda>(d, j, k, p, s, a). (d, j, k, if j = i then bt_insert key v p else p, s, a))
        (node_rows 0 (rcp_root r)) \<and>
    (\<exists>n. find_node i (rcp_root r) = Some n \<and> length (bt_insert key v (nprops n)) \<le> max_props)"
proof -
  have "apply_operation H (r, vc) (SetProperty i key v) = Ok (r', vc')" by (rule assms(2))
  then obtain n p where n: "find_node i (rcp_root r) = Some n"
    and p: "props_with (nprops n) key v = Ok p"
    and r': "r' = r\<lparr>rcp_root := replace_node i (set_node_props n p) (rcp_root r)\<rparr>" "vc'"
    unfolding apply_operation.simps and_then_Ok_iff ok_or_Ok_iff map_err_Ok_iff by blast
  have p': "p = bt_insert key v (nprops n)" "length (bt_insert key v (nprops n)) \<le> max_props"
    using p by (auto simp: props_with_Ok_iff)
  have "distinct (node_ids (rcp_root r))" using assms(1) by (simp add: scene_ok_def)
  from rows_set_props [OF this n] r' p' n show ?thesis by simp
qed

theorem set_property_is_local_witness:
  "node_rows 0 (set_node_props demo_root [(''text'', Text ''hi'')]) =
     map (\<lambda>(d, j, k, p, s, a). (d, j, k, if j = 1 then bt_insert ''text'' (Text ''hi'') p else p, s, a))
       (node_rows 0 demo_root)"
proof -
  have step: "apply_operation demo_host (demo_recipe, False) (SetProperty 1 ''text'' (Text ''hi'')) =
      Ok (demo_recipe\<lparr>rcp_root := set_node_props demo_root [(''text'', Text ''hi'')]\<rparr>, True)"
    by (simp add: demo_root_def set_node_props_def props_with_def props_new_def props_bytes_def usize_sum_def
        usize_saturating_add_def usize_max_def max_props_def max_prop_bytes_def)
  from set_property_is_local [OF _ step] show ?thesis by (simp add: demo_scene)
qed

section \<open>Rollback\<close>

text \<open>A rollback under a fresh patch id appends one revision whose tree, theme, metadata and bindings are those
  of the target revision, and the target stays in the history.\<close>

lemma rollback_restores_target:
  assumes "rollback H (run_calls H store_new cs) q pid = (s', Ok r)"
    and "\<forall>p \<in> logged (store_log (run_calls H store_new cs)). pat_patch_id p \<noteq> pid"
  shows "\<exists>t. store_revision (run_calls H store_new cs) (rb_recipe_id q) (rb_target_revision q) = Some t \<and>
    rcp_root r = rcp_root t \<and> rcp_theme_id r = rcp_theme_id t \<and>
    rcp_metadata r = rcp_metadata t \<and> rcp_bindings r = rcp_bindings t \<and>
    unat (rcp_revision r) = length (store_log (run_calls H store_new cs) (rb_recipe_id q)) + 1 \<and>
    store_get s' (rb_recipe_id q) = Some r \<and>
    store_revision s' (rb_recipe_id q) (rb_target_revision q) = Some t"
proof -
  let ?L = "store_log (run_calls H store_new cs)" and ?i = "rb_recipe_id q"
  have rep: "represents H (run_calls H store_new cs) ?L" by (rule reached_represents)
  obtain p t vc where app: "apply_patch H (run_calls H store_new cs) p = (s', Ok (Applied r vc))"
    and p: "pat_operations p = [RestoreRevision (rb_target_revision q) (rcp_digest t)]"
      "pat_recipe_id p = ?i" "pat_patch_id p = pid"
    and t: "bt_get (st_history (run_calls H store_new cs)) (?i, rb_target_revision q) = Some t"
    by (rule rollback_Ok [OF rep assms(1,2)])
  note ap = apply_represents [OF rep app, unfolded p(2)]
  have at: "map_option fst (log_at (?L ?i) (rb_target_revision q)) = Some t"
    using t representsD(3) [OF rep] by simp
  from ap(2) obtain c where c: "log_candidate H (?L ?i) p = Ok (c, vc)"
    and fin: "finish_revision H c (rcp_revision (log_head (?L ?i))) (rcp_digest (log_head (?L ?i))) = Ok r"
    by (auto simp: log_step_def Let_def)
  from c at have "restore_revision (log_head (?L ?i)) t (rcp_digest t) = Ok (c, vc)"
    by (auto simp: log_candidate_def p(1) sole_restore_def)
  then have content: "rcp_root c = rcp_root t" "rcp_theme_id c = rcp_theme_id t"
    "rcp_metadata c = rcp_metadata t" "rcp_bindings c = rcp_bindings t"
    by (auto simp: restore_revision_def split: if_splits)
  note f = finish_revision_fields [OF fin]
  have rev: "unat (rcp_revision r) = length (?L ?i) + 1"
    using log_step_fields(2) [OF ap(2)] chain_head [OF representsD(1) [OF rep ap(1)]] by simp
  have cur: "store_get s' ?i = Some r"
    using representsD(2) [OF ap(4), of ?i] by (simp add: store_get_def log_head_def)
  have len: "length (?L ?i) + 1 < 2 ^ 64" using rev u64_bound [of "rcp_revision r"] by simp
  have "unat (rb_target_revision q) \<noteq> length (?L ?i) + 1"
    using at by (auto simp: log_at_def split: if_splits)
  then have "log_at (?L ?i @ [(r, Some p)]) (rb_target_revision q) = log_at (?L ?i) (rb_target_revision q)"
    by (simp add: log_at_snoc [OF len])
  then have "store_revision s' ?i (rb_target_revision q) = Some t"
    using at representsD(3) [OF ap(4), of ?i] by (simp add: store_revision_def)
  with content f(8-11) rev cur t show ?thesis by (simp add: store_revision_def)
qed

lemma demo_apply:
  assumes "patch_validate p = Ok ()" "bt_get (st_applied_patches s) (pat_patch_id p) = None"
    "bt_get (st_current s) (pat_recipe_id p) = Some q" "rcp_owner_ref q = pat_owner_ref p"
    "rcp_revision q = pat_base_revision p" "rcp_digest q = pat_base_digest p"
    "build_candidate demo_host s p q = Ok (c, vc)"
    "finish_revision demo_host c (rcp_revision q) (rcp_digest q) = Ok r"
  shows "apply_patch demo_host s p = (commit s p r demo_digest, Ok (Applied r vc))"
  using assms unfolding apply_patch_Applied_iff by auto

definition demo_undo :: rollback_request where
  "demo_undo = \<lparr>rb_owner_ref = OwnerUser ''ann'', rb_recipe_id = ''home'', rb_target_revision = 1,
     rb_acting_principal = PrincipalAgent ''bot'', rb_reviewer = PrincipalUser ''ann'', rb_receipt = ''ok''\<rparr>"

definition demo_undone :: recipe where
  "demo_undone = demo_child (demo_recipe2\<lparr>rcp_metadata := []\<rparr>)"

lemma demo_rollback: "\<exists>s'. rollback demo_host demo_store demo_undo ''undo'' = (s', Ok demo_undone)"
proof -
  have "char_of (49 :: nat) = CHR ''1''" by code_simp
  then have num: "show_nat (Suc 0) = ''1''" by (simp add: show_nat.simps digit_char_def)
  define p where "p = (demo_patch ''undo'' 2 [RestoreRevision 1 demo_digest])
    \<lparr>pat_proposal_id := ''proposal:undo'', pat_summary := ''rollback to revision 1''\<rparr>"
  have valid: "patch_validate p = Ok ()"
    unfolding patch_validate_Ok_iff p_def
    by (simp add: demo_patch_def demo_documents_valid patch_fields_def max_patch_ops_def demo_digest_def)
      (simp flip: demo_digest_def)
  have "patch_new (OwnerUser ''ann'') (PrincipalAgent ''bot'') (PrincipalUser ''ann'') ''ok'' ''undo'' ''home''
      2 demo_digest ''rollback to revision 1'' [RestoreRevision 1 demo_digest] = Ok p"
    using valid by (simp add: patch_new_def p_def demo_patch_def)
  moreover have "finish_revision demo_host (demo_recipe2\<lparr>rcp_metadata := []\<rparr>) 2 demo_digest = Ok demo_undone"
    unfolding demo_undone_def
    by (rule demo_child_valid) (simp_all add: metadata_bytes_def usize_sum_def)
  then have "apply_patch demo_host demo_store p =
      (commit demo_store p demo_undone demo_digest, Ok (Applied demo_undone False))"
    by (intro demo_apply [where q = demo_recipe2 and c = "demo_recipe2\<lparr>rcp_metadata := []\<rparr>"])
       (simp_all add: valid, simp_all add: p_def build_candidate_def sole_restore_def restore_revision_def
          demo_root_def props_eq_def)
  moreover have "bt_values (st_applied_patch_by_revision demo_store) = [demo_pin]" "pat_patch_id demo_pin = ''pin''"
    by (simp_all add: demo_store_def bt_values_def demo_pin_def)
  ultimately show ?thesis
    by (simp add: rollback_def demo_undo_def num)
qed

lemma rollback_restores_target_witness: "rcp_metadata demo_undone = rcp_metadata demo_recipe"
proof -
  obtain s' where "rollback demo_host demo_store demo_undo ''undo'' = (s', Ok demo_undone)"
    using demo_rollback by blast
  then show ?thesis
    using rollback_restores_target [of demo_host demo_calls demo_undo "''undo''" s' demo_undone]
    by (simp add: demo_reached demo_logged demo_pin_def demo_undo_def store_revision_def)
qed

section \<open>Narrow merge\<close>

lemma merge_candidate:
  assumes "apply_patch H s p = (s, Err (Conflict n d))"
    and "apply_patch_with_narrow_merge H s p mid = (s', Ok (Applied r vc))"
  obtains q prev m where "bt_get (st_current s) (pat_recipe_id p) = Some q"
    and "bt_get (st_applied_patch_by_revision s) (pat_recipe_id p, rcp_revision q) = Some prev"
    and "m = prev\<lparr>pat_patch_id := mid, pat_proposal_id := ''proposal:'' @ mid,
        pat_operations := pat_operations prev @ pat_operations p,
        pat_base_revision := rcp_revision q, pat_base_digest := rcp_digest q\<rparr>"
    and "pat_recipe_id prev = pat_recipe_id p"
    and "disjoint_writes (pat_operations prev @ pat_operations p)"
    and "apply_patch H s m = (s', Ok (Applied r vc))"
proof -
  obtain cand m where cand: "compute_conflict_candidate s p mid = Ok cand" "cc_merged cand = Some m"
    and app: "apply_patch H s m = (s', Ok (Applied r vc))"
    using assms by (auto simp: apply_patch_with_narrow_merge_def apply_patch_eq
        split: sum.splits option.splits)
  from cand(1) obtain q where q: "bt_get (st_current s) (pat_recipe_id p) = Some q"
    unfolding compute_conflict_candidate_def and_then_Ok_iff ok_or_Ok_iff by blast
  obtain prev where prev: "bt_get (st_applied_patch_by_revision s) (pat_recipe_id p, rcp_revision q) = Some prev"
    using cand q by (cases "bt_get (st_applied_patch_by_revision s) (pat_recipe_id p, rcp_revision q)")
      (auto simp: compute_conflict_candidate_def and_then_Ok_iff split: if_splits)
  obtain m0 where m0: "merge_disjoint_fields prev p mid = Ok m0"
      "m = m0\<lparr>pat_base_revision := rcp_revision q, pat_base_digest := rcp_digest q\<rparr>"
    using cand q prev by (cases "merge_disjoint_fields prev p mid")
      (auto simp: compute_conflict_candidate_def and_then_Ok_iff split: if_splits)
  from m0(1) have m: "m0 = prev\<lparr>pat_patch_id := mid, pat_proposal_id := ''proposal:'' @ mid,
      pat_operations := pat_operations prev @ pat_operations p\<rparr>"
    and same: "pat_recipe_id prev = pat_recipe_id p"
    and dis: "is_ok (disjoint_fields {} {} (pat_operations prev @ pat_operations p))"
    by (auto simp: merge_disjoint_fields_def result_simps is_ok_iff Let_def split: if_splits)
  show thesis
    by (rule that [OF q prev _ same _ app]) (use dis in \<open>simp_all add: m m0(2) disjoint_fields_Ok_iff\<close>)
qed

lemma disjoint_no_restore: "disjoint_writes xs \<Longrightarrow> sole_restore xs = None"
  by (auto simp: disjoint_writes_def sole_restore_def split: list.splits patch_op.splits)

lemma finish_field_value: "finish_revision H c n d = Ok r \<Longrightarrow> field_value r f = field_value c f"
  using finish_revision_fields(9,10) by (cases f) auto

text \<open>When a conflicting patch is merged, the operations of the patch at the head and of the incoming patch write
  different fields, and the new revision has all those values; every other metadata entry and node property is as at
  the head.\<close>

theorem merge_keeps_both_patches:
  assumes "apply_patch H s p = (s, Err (Conflict n d))"
    and "apply_patch_with_narrow_merge H s p mid = (s', Ok (Applied r vc))"
  shows "\<exists>q prev. store_get s (pat_recipe_id p) = Some q \<and>
    bt_get (st_applied_patch_by_revision s) (pat_recipe_id p, rcp_revision q) = Some prev \<and>
    disjoint_writes (pat_operations prev @ pat_operations p) \<and>
    (\<forall>f. field_value r f = (case map_of (field_writes (pat_operations prev @ pat_operations p)) f of
       Some v \<Rightarrow> Some v | None \<Rightarrow> field_value q f))"
proof -
  obtain q prev m where q: "bt_get (st_current s) (pat_recipe_id p) = Some q"
    and prev: "bt_get (st_applied_patch_by_revision s) (pat_recipe_id p, rcp_revision q) = Some prev"
    and m: "m = prev\<lparr>pat_patch_id := mid, pat_proposal_id := ''proposal:'' @ mid,
        pat_operations := pat_operations prev @ pat_operations p,
        pat_base_revision := rcp_revision q, pat_base_digest := rcp_digest q\<rparr>"
    and same: "pat_recipe_id prev = pat_recipe_id p"
    and dis: "disjoint_writes (pat_operations prev @ pat_operations p)"
    and app: "apply_patch H s m = (s', Ok (Applied r vc))"
    by (rule merge_candidate [OF assms])
  from app obtain c where "build_candidate H s m q = Ok (c, vc)"
    and fin: "finish_revision H c (rcp_revision q) (rcp_digest q) = Ok r"
    unfolding apply_patch_Applied_iff by (auto simp: m same q)
  then have "apply_operations H (q, False) (pat_operations prev @ pat_operations p) = Ok (c, vc)"
    by (simp add: build_candidate_def m disjoint_no_restore [OF dis])
  from apply_field_writes [OF dis this] finish_field_value [OF fin]
  show ?thesis using q prev dis by (auto simp: store_get_def)
qed

text \<open>A merged revision is recorded under the acting principal and the review receipt of the patch at the head:
  the operations of the incoming patch enter the history, its own review does not.\<close>

theorem merge_recorded_under_head_review:
  assumes "apply_patch H s p = (s, Err (Conflict n d))"
    and "apply_patch_with_narrow_merge H s p mid = (s', Ok (Applied r vc))"
  shows "\<exists>q prev m. store_get s (pat_recipe_id p) = Some q \<and>
    bt_get (st_applied_patch_by_revision s) (pat_recipe_id p, rcp_revision q) = Some prev \<and>
    bt_get (st_applied_patch_by_revision s') (rcp_recipe_id r, rcp_revision r) = Some m \<and>
    pat_operations m = pat_operations prev @ pat_operations p \<and>
    pat_acting_principal m = pat_acting_principal prev \<and> pat_review m = pat_review prev"
proof -
  obtain q prev m where q: "bt_get (st_current s) (pat_recipe_id p) = Some q"
    and prev: "bt_get (st_applied_patch_by_revision s) (pat_recipe_id p, rcp_revision q) = Some prev"
    and m: "m = prev\<lparr>pat_patch_id := mid, pat_proposal_id := ''proposal:'' @ mid,
        pat_operations := pat_operations prev @ pat_operations p,
        pat_base_revision := rcp_revision q, pat_base_digest := rcp_digest q\<rparr>"
    and app: "apply_patch H s m = (s', Ok (Applied r vc))"
    by (rule merge_candidate [OF assms])
  from app obtain intent where "s' = commit s m r intent"
    unfolding apply_patch_Applied_iff by blast
  then have "bt_get (st_applied_patch_by_revision s') (rcp_recipe_id r, rcp_revision r) = Some m"
    by (simp add: commit_def record_revision_def Let_def)
  with q prev m show ?thesis by (auto simp: store_get_def)
qed

subsection \<open>A concrete merge\<close>

definition demo_tag :: patch where
  "demo_tag = demo_patch ''tag'' 2 [SetRecipeMetadata ''tag'' (Bool True)]"

definition demo_stale_tag :: patch where
  "demo_stale_tag = (demo_patch ''late'' 1 [SetRecipeMetadata ''tag'' (Bool True)])
     \<lparr>pat_review := \<lparr>rv_reviewer = PrincipalUser ''ann'', rv_receipt = ''other''\<rparr>\<rparr>"

definition demo_recipe3 :: recipe where
  "demo_recipe3 = demo_child (demo_recipe2\<lparr>rcp_metadata := [(''pinned'', Bool True), (''tag'', Bool True)]\<rparr>)"

lemma demo_finish3:
  "finish_revision demo_host (demo_recipe2\<lparr>rcp_metadata := [(''pinned'', Bool True), (''tag'', Bool True)]\<rparr>)
     2 demo_digest = Ok demo_recipe3"
  unfolding demo_recipe3_def
  by (rule demo_child_valid) (simp_all add: metadata_bytes_def usize_sum_def
      usize_saturating_add_def usize_max_def value_text_len_def)

definition demo_merged :: patch where
  "demo_merged = demo_pin\<lparr>pat_patch_id := ''merged'', pat_proposal_id := ''proposal:merged'',
     pat_operations := [SetRecipeMetadata ''pinned'' (Bool True), SetRecipeMetadata ''tag'' (Bool True)]\<rparr>"

lemma demo_stale_valid: "patch_validate demo_stale_tag = Ok ()"
  unfolding patch_validate_Ok_iff demo_stale_tag_def
  by (simp add: demo_patch_def demo_documents_valid patch_fields_def max_patch_ops_def demo_digest_def)
    (simp flip: demo_digest_def)

lemma demo_merged_valid:
  "n \<noteq> 0 \<Longrightarrow> patch_validate (demo_merged\<lparr>pat_base_revision := n\<rparr>) = Ok ()"
  unfolding patch_validate_Ok_iff demo_merged_def demo_pin_def
  by (simp add: demo_patch_def demo_documents_valid patch_fields_def max_patch_ops_def demo_digest_def)
    (simp flip: demo_digest_def)

lemma demo_conflict:
  "apply_patch demo_host demo_store demo_stale_tag = (demo_store, Err (Conflict 2 demo_digest))"
  using demo_stale_valid
  by (simp add: apply_patch_eq apply_patch_once_def) (simp add: demo_stale_tag_def)

lemma demo_merge:
  "\<exists>s'. apply_patch_with_narrow_merge demo_host demo_store demo_stale_tag ''merged'' =
     (s', Ok (Applied demo_recipe3 False))"
proof -
  have "apply_patch demo_host demo_store (demo_merged\<lparr>pat_base_revision := 2\<rparr>) =
      (commit demo_store (demo_merged\<lparr>pat_base_revision := 2\<rparr>) demo_recipe3 demo_digest,
       Ok (Applied demo_recipe3 False))"
    by (rule demo_apply [where q = demo_recipe2 and
          c = "demo_recipe2\<lparr>rcp_metadata := [(''pinned'', Bool True), (''tag'', Bool True)]\<rparr>"])
       (simp_all add: demo_merged_valid demo_finish3,
        simp_all add: demo_merged_def demo_pin_def build_candidate_def sole_restore_def)
  moreover have "merge_disjoint_fields demo_pin demo_stale_tag ''merged'' = Ok demo_merged"
  proof -
    have "patch_validate demo_pin = Ok ()"
      unfolding demo_pin_def by (rule demo_patch_valid) simp_all
    moreover have "patch_validate demo_merged = Ok ()"
      using demo_merged_valid [of 1] by (simp add: demo_merged_def demo_pin_def demo_patch_def)
    ultimately show ?thesis
      using demo_stale_valid
      by (simp add: merge_disjoint_fields_def max_patch_ops_def)
         (simp add: demo_stale_tag_def demo_pin_def demo_merged_def demo_patch_def)
  qed
  moreover have "demo_merged\<lparr>pat_base_revision := 2, pat_base_digest := demo_digest\<rparr> =
      demo_merged\<lparr>pat_base_revision := 2\<rparr>"
    by (simp add: demo_merged_def demo_pin_def demo_patch_def)
  ultimately show ?thesis
    using demo_conflict demo_stale_valid
    by (simp add: apply_patch_with_narrow_merge_def apply_patch_eq compute_conflict_candidate_def)
       (simp add: demo_stale_tag_def apply_patch_eq)
qed

theorem merge_keeps_both_patches_witness: "field_value demo_recipe3 (Inl ''tag'') = Some (Bool True)"
proof -
  obtain s' where "apply_patch_with_narrow_merge demo_host demo_store demo_stale_tag ''merged'' =
      (s', Ok (Applied demo_recipe3 False))"
    using demo_merge by blast
  from merge_keeps_both_patches [OF demo_conflict this]
  show ?thesis
    by (auto simp: store_get_def demo_stale_tag_def demo_pin_def field_writes_def
        dest!: spec [of _ "Inl ''tag''"])
qed

theorem merge_recorded_under_head_review_witness:
  "\<exists>(s' :: recipe_store) m. bt_get (st_applied_patch_by_revision s') (''home'', 3) = Some m \<and>
     rv_receipt (pat_review m) = ''ok'' \<and> rv_receipt (pat_review demo_stale_tag) = ''other''"
proof -
  obtain s' where "apply_patch_with_narrow_merge demo_host demo_store demo_stale_tag ''merged'' =
      (s', Ok (Applied demo_recipe3 False))"
    using demo_merge by blast
  from merge_recorded_under_head_review [OF demo_conflict this]
  obtain m where "bt_get (st_applied_patch_by_revision s') (''home'', 3) = Some m"
    and "rv_receipt (pat_review m) = ''ok''"
    by (auto simp: store_get_def demo_stale_tag_def demo_pin_def demo_patch_def demo_recipe3_def demo_child_def)
  moreover have "rv_receipt (pat_review demo_stale_tag) = ''other''" by (simp add: demo_stale_tag_def)
  ultimately show ?thesis by blast
qed

subsection \<open>A lost update\<close>

definition demo_unpin :: patch where
  "demo_unpin = demo_patch ''late'' 1 [SetRecipeMetadata ''pinned'' (Bool False)]"

definition demo_store3 :: recipe_store where
  "demo_store3 = commit demo_store demo_tag demo_recipe3 demo_digest"

definition demo_recipe4 :: recipe where
  "demo_recipe4 = demo_child (demo_recipe3\<lparr>rcp_metadata := [(''pinned'', Bool False), (''tag'', Bool True)]\<rparr>)"

definition demo_unpin_merged :: patch where
  "demo_unpin_merged = demo_tag\<lparr>pat_patch_id := ''merged'', pat_proposal_id := ''proposal:merged'',
     pat_operations := [SetRecipeMetadata ''tag'' (Bool True), SetRecipeMetadata ''pinned'' (Bool False)]\<rparr>"

lemma demo_recipe3_fields [simp]:
  "rcp_schema demo_recipe3 = recipe_schema" "rcp_owner_ref demo_recipe3 = OwnerUser ''ann''"
  "rcp_recipe_id demo_recipe3 = ''home''" "rcp_revision demo_recipe3 = 3"
  "rcp_digest demo_recipe3 = demo_digest" "rcp_theme_id demo_recipe3 = ''dark''"
  "rcp_metadata demo_recipe3 = [(''pinned'', Bool True), (''tag'', Bool True)]"
  "rcp_root demo_recipe3 = demo_root" "rcp_bindings demo_recipe3 = binding_set_default"
  by (simp_all add: demo_recipe3_def demo_child_def)

lemma demo_tag_valid: "patch_validate demo_tag = Ok ()"
  unfolding demo_tag_def by (rule demo_patch_valid) simp_all

lemma demo_unpin_valid: "patch_validate demo_unpin = Ok ()"
  unfolding demo_unpin_def by (rule demo_patch_valid) simp_all

lemma demo_unpin_merged_valid:
  "n \<noteq> 0 \<Longrightarrow> patch_validate (demo_unpin_merged\<lparr>pat_base_revision := n\<rparr>) = Ok ()"
  unfolding patch_validate_Ok_iff demo_unpin_merged_def demo_tag_def
  by (simp add: demo_patch_def demo_documents_valid patch_fields_def max_patch_ops_def demo_digest_def)
    (simp flip: demo_digest_def)

lemma demo_tag_applied:
  "apply_patch demo_host demo_store demo_tag = (demo_store3, Ok (Applied demo_recipe3 False))"
  unfolding demo_store3_def
  by (rule demo_apply [where q = demo_recipe2 and
        c = "demo_recipe2\<lparr>rcp_metadata := [(''pinned'', Bool True), (''tag'', Bool True)]\<rparr>"])
     (simp_all add: demo_tag_valid demo_finish3,
      simp_all add: demo_tag_def build_candidate_def sole_restore_def)

lemma demo_store3_gets [simp]:
  "bt_get (st_current demo_store3) ''home'' = Some demo_recipe3"
  "bt_get (st_applied_patches demo_store3) k = (if k = ''tag'' \<or> k = ''pin'' then Some demo_digest else None)"
  "bt_get (st_applied_patch_by_revision demo_store3) (''home'', 3) = Some demo_tag"
  by (simp_all add: demo_store3_def commit_def record_revision_def Let_def demo_tag_def)

lemma demo_unpin_applied:
  "apply_patch demo_host demo_store3 (demo_unpin_merged\<lparr>pat_base_revision := 3\<rparr>) =
     (commit demo_store3 (demo_unpin_merged\<lparr>pat_base_revision := 3\<rparr>) demo_recipe4 demo_digest,
      Ok (Applied demo_recipe4 False))"
proof -
  let ?r = "demo_recipe3\<lparr>rcp_metadata := [(''pinned'', Bool False), (''tag'', Bool True)]\<rparr>"
  have "finish_revision demo_host ?r 3 demo_digest = Ok demo_recipe4"
    unfolding demo_recipe4_def
    by (rule demo_child_valid) (simp_all add: metadata_bytes_def usize_sum_def
        usize_saturating_add_def usize_max_def value_text_len_def)
  then show ?thesis
    by (intro demo_apply [where q = demo_recipe3 and c = ?r])
       (simp_all add: demo_unpin_merged_valid,
        simp_all add: demo_unpin_merged_def demo_tag_def build_candidate_def sole_restore_def)
qed

text \<open>The narrow merge compares an incoming patch only with the patch at the head, whatever revision the
  incoming one was made against: here revision 2 sets \<open>pinned\<close> to true, revision 3 sets \<open>tag\<close>, and a patch that
  was made against revision 1 and sets \<open>pinned\<close> to false is merged, which silently reverts revision 2.\<close>

theorem narrow_merge_loses_update:
  "\<exists>s s' q r. s = run_calls demo_host store_new (demo_calls @ [CallApply demo_tag]) \<and>
     store_get s ''home'' = Some q \<and> field_value q (Inl ''pinned'') = Some (Bool True) \<and>
     pat_base_revision demo_unpin = 1 \<and>
     apply_patch_with_narrow_merge demo_host s demo_unpin ''merged'' = (s', Ok (Applied r False)) \<and>
     field_value r (Inl ''pinned'') = Some (Bool False)"
proof -
  have s: "run_calls demo_host store_new (demo_calls @ [CallApply demo_tag]) = demo_store3"
    using demo_reached by (simp add: run_calls_def demo_tag_applied)
  have "apply_patch demo_host demo_store3 demo_unpin = (demo_store3, Err (Conflict 3 demo_digest))"
    using demo_unpin_valid
    by (simp add: apply_patch_eq apply_patch_once_def) (simp add: demo_unpin_def)
  moreover have "merge_disjoint_fields demo_tag demo_unpin ''merged'' = Ok demo_unpin_merged"
  proof -
    have "patch_validate demo_unpin_merged = Ok ()"
      using demo_unpin_merged_valid [of 2] by (simp add: demo_unpin_merged_def demo_tag_def demo_patch_def)
    then show ?thesis
      using demo_tag_valid demo_unpin_valid
      by (simp add: merge_disjoint_fields_def max_patch_ops_def)
         (simp add: demo_unpin_def demo_tag_def demo_unpin_merged_def demo_patch_def)
  qed
  moreover have "demo_unpin_merged\<lparr>pat_base_revision := 3, pat_base_digest := demo_digest\<rparr> =
      demo_unpin_merged\<lparr>pat_base_revision := 3\<rparr>"
    by (simp add: demo_unpin_merged_def demo_tag_def demo_patch_def)
  ultimately have "\<exists>s'. apply_patch_with_narrow_merge demo_host demo_store3 demo_unpin ''merged'' =
      (s', Ok (Applied demo_recipe4 False))"
    using demo_unpin_valid demo_unpin_applied
    by (simp add: apply_patch_with_narrow_merge_def apply_patch_eq compute_conflict_candidate_def)
       (simp add: demo_unpin_def apply_patch_eq)
  moreover have "store_get demo_store3 ''home'' = Some demo_recipe3"
      "field_value demo_recipe3 (Inl ''pinned'') = Some (Bool True)"
      "field_value demo_recipe4 (Inl ''pinned'') = Some (Bool False)" "pat_base_revision demo_unpin = 1"
    by (simp_all add: store_get_def demo_unpin_def demo_recipe4_def demo_child_def)
       (simp_all add: bt_get_def)
  ultimately show ?thesis unfolding s by blast
qed

section \<open>Replay\<close>

text \<open>C33. The log of a recipe is enough to rebuild it: replaying the recorded patches, in order, on the serialized first
  revision gives the current head, for every recipe of every store that calls can reach.\<close>

theorem replay_reproduces_head:
  assumes "store_get (run_calls H store_new cs) i = Some q"
    and "parse_canonical H (\<lambda>text. case decode text of None \<Rightarrow> None
          | Some input \<Rightarrow> (case recipe_try_from H input of Err _ \<Rightarrow> None | Ok r \<Rightarrow> Some r)) first_revision =
        Ok (fst (hd (store_log (run_calls H store_new cs) i)))"
  shows "replay H decode first_revision (log_patches (store_log (run_calls H store_new cs) i)) = Ok q"
proof -
  let ?L = "store_log (run_calls H store_new cs)"
  have rep: "represents H (run_calls H store_new cs) ?L" by (rule reached_represents)
  have ne: "?L i \<noteq> []" and q: "q = log_head (?L i)"
    using assms(1) representsD(2) [OF rep, of i] by (simp_all add: store_get_def split: if_splits)
  have ch: "chain H i (?L i)" by (rule representsD(1) [OF rep ne])
  have dist: "distinct_log (?L i)"
    using representsD(6) [OF rep] unfolding distinct_patch_ids_def distinct_log_def by blast
  obtain s0 s where ins: "store_insert H store_new (fst (hd (?L i))) = (s0, Ok ())"
    and run: "replay_patches H s0 (log_patches (?L i)) = Ok s"
    and final: "represents H s (\<lambda>j. if j = i then ?L i else [])"
    using replay_chain [OF ch dist] by blast
  show ?thesis
    unfolding replay_def assms(2)
    by (simp add: ins run sole_value [OF final ne] q)
qed

theorem replay_reproduces_head_witness:
  "replay demo_host (\<lambda>_. Some demo_recipe) ''null'' [demo_pin] = Ok demo_recipe2"
proof -
  have "recipe_try_from demo_host demo_recipe = Ok demo_recipe"
    by (simp add: recipe_try_from_def demo_recipe_valid)
  then have "parse_canonical demo_host (\<lambda>text. case Some demo_recipe of None \<Rightarrow> None
        | Some input \<Rightarrow> (case recipe_try_from demo_host input of Err _ \<Rightarrow> None | Ok r \<Rightarrow> Some r)) ''null'' =
      Ok demo_recipe"
    by (simp add: parse_canonical_def demo_host_def max_canonical_document_bytes_def)
  moreover have "store_get demo_store ''home'' = Some demo_recipe2" by (simp add: store_get_def)
  ultimately show ?thesis
    using replay_reproduces_head [of demo_host demo_calls "''home''" demo_recipe2 "\<lambda>_. Some demo_recipe" "''null''"]
    by (simp add: demo_reached demo_log log_patches_def)
qed

end
