(* ===== verification/Users_Store.thy ===== *)
theory Users_Store
  imports Key_Value Unicode
begin

text \<open>
  \<open>capsules/capsule-users/src/types.rs\<close> and \<open>store.rs\<close>: users, the links from platform accounts to users and
  the display names per context, kept in the key-value service. The derived \<open>serde\<close> code and the
  printing of UUIDs are parameters (\<open>users_codec\<close>), as are a fresh UUID and the clock's text where the
  source asks for them. Error texts that only name a field are kept; the text of a decode error is the
  codec's.
\<close>

section \<open>Records\<close>

type_synonym uuid = "128 word"

record astrid_user =
  au_id :: uuid
  au_public_key :: "8 word list option"
  au_display_name :: "string option"
  au_created_at :: string

definition astrid_user_new :: "uuid \<Rightarrow> string \<Rightarrow> string option \<Rightarrow> astrid_user" where
  "astrid_user_new fresh now display_name =
     \<lparr>au_id = fresh, au_public_key = None, au_display_name = display_name, au_created_at = now\<rparr>"

record frontend_link =
  fl_platform :: string
  fl_platform_instance :: "string option"
  fl_platform_user_id :: string
  fl_astrid_user_id :: uuid
  fl_linked_at :: string
  fl_method :: string
  fl_display_name :: "string option"

record context_identity =
  ci_platform :: string
  ci_platform_instance :: "string option"
  ci_platform_user_id :: string
  ci_context_id :: string
  ci_display_name :: string
  ci_updated_at :: string

datatype users_error =
    InvalidInput string
  | UserNotFound uuid
  | LinkNotFound
  | Storage string

definition normalize_platform :: "string \<Rightarrow> string" where
  "normalize_platform name = to_ascii_lowercase (trim name)"

record resolved_display_name =
  rd_name :: string
  rd_source :: string

record 'a page =
  pg_items :: "'a list"
  pg_next_cursor :: "string option"

record users_codec =
  uc_uuid :: "uuid \<Rightarrow> string"
  uc_user :: "astrid_user json_codec"
  uc_link :: "frontend_link json_codec"
  uc_context :: "context_identity json_codec"

type_synonym 'a users_op = "(users_error, 'a) kv_op"

section \<open>Keys\<close>

definition instance_none_sentinel :: string where "instance_none_sentinel = ''_''"
definition default_list_limit :: nat where "default_list_limit = 100"
definition max_list_limit :: nat where "max_list_limit = 1000"

definition user_key :: "users_codec \<Rightarrow> uuid \<Rightarrow> string" where
  "user_key C i = ''user/'' @ uc_uuid C i"

definition instance_segment :: "string option \<Rightarrow> string" where
  "instance_segment inst = (case inst of Some s \<Rightarrow> s | None \<Rightarrow> instance_none_sentinel)"

definition link_key :: "string \<Rightarrow> string option \<Rightarrow> string \<Rightarrow> string" where
  "link_key platform inst platform_user_id =
     ''link/'' @ platform @ ''/'' @ instance_segment inst @ ''/'' @ platform_user_id"

definition name_key :: "string \<Rightarrow> string" where
  "name_key name = ''name/'' @ name"

definition context_key :: "string \<Rightarrow> string option \<Rightarrow> string \<Rightarrow> string \<Rightarrow> string" where
  "context_key platform inst context_id platform_user_id =
     ''context/'' @ platform @ ''/'' @ instance_segment inst @ ''/'' @ context_id @ ''/'' @ platform_user_id"

definition context_prefix_in_context :: "string \<Rightarrow> string option \<Rightarrow> string \<Rightarrow> string" where
  "context_prefix_in_context platform inst context_id =
     ''context/'' @ platform @ ''/'' @ instance_segment inst @ ''/'' @ context_id @ ''/''"

definition context_prefix_for_link_bucket :: "string \<Rightarrow> string option \<Rightarrow> string" where
  "context_prefix_for_link_bucket platform inst = ''context/'' @ platform @ ''/'' @ instance_segment inst @ ''/''"

section \<open>Validation\<close>

definition validate_non_empty :: "string \<Rightarrow> string \<Rightarrow> users_error + unit" where
  "validate_non_empty v field =
     (if trim v = [] then Err (InvalidInput (field @ '' must not be empty'')) else Ok ())"

definition breaks_key :: "string \<Rightarrow> bool" where
  "breaks_key v \<longleftrightarrow> CHR ''/'' \<in> set v \<or> CHR 0x00 \<in> set v"

definition validate_key_component :: "string \<Rightarrow> string \<Rightarrow> users_error + unit" where
  "validate_key_component v field =
     and_then (validate_non_empty v field) (\<lambda>_.
       if breaks_key v then Err (InvalidInput (field @ '' must not contain '' @ [CHR 0x27] @ ''/'' @ [CHR 0x27] @
         '' or null bytes''))
       else Ok ())"

definition validate_instance :: "string option \<Rightarrow> users_error + unit" where
  "validate_instance v =
     (case v of None \<Rightarrow> Ok ()
      | Some s \<Rightarrow>
          and_then (validate_key_component s ''platform_instance'') (\<lambda>_.
            if s = instance_none_sentinel
            then Err (InvalidInput (''platform_instance must not be '' @ [CHR 0x22] @ instance_none_sentinel @
              [CHR 0x22] @ '' (reserved sentinel)''))
            else Ok ()))"

definition validate_display_name :: "string option \<Rightarrow> users_error + unit" where
  "validate_display_name display_name =
     (case display_name of None \<Rightarrow> Ok ()
      | Some name \<Rightarrow>
          if breaks_key name then Err (InvalidInput (''display_name must not contain '' @ [CHR 0x27] @ ''/'' @
            [CHR 0x27] @ '' or null bytes''))
          else Ok ())"

definition validate_triple :: "string \<Rightarrow> string option \<Rightarrow> string \<Rightarrow> users_error + unit" where
  "validate_triple platform inst platform_user_id =
     and_then (validate_key_component platform ''platform'') (\<lambda>_.
     and_then (validate_instance inst) (\<lambda>_.
       validate_key_component platform_user_id ''platform_user_id''))"

section \<open>Typed access\<close>

definition get_json :: "'a json_codec \<Rightarrow> string \<Rightarrow> 'a option users_op" where
  "get_json J key =
     op_bind (kv_get Storage key) (\<lambda>bytes.
       case bytes of
         None \<Rightarrow> op_return None
       | Some b \<Rightarrow> op_lift (and_then (map_err (\<lambda>e. Storage (''decode '' @ key @ '': '' @ e)) (jc_decode J b))
                           (\<lambda>x. Ok (Some x))))"

definition set_json :: "'a json_codec \<Rightarrow> string \<Rightarrow> 'a \<Rightarrow> unit users_op" where
  "set_json J key v =
     op_bind (op_lift (map_err (\<lambda>e. Storage (''encode '' @ key @ '': '' @ e)) (jc_encode J v))) (\<lambda>bytes.
       kv_set Storage key bytes)"

section \<open>Users\<close>

definition index_name :: "users_codec \<Rightarrow> uuid \<Rightarrow> string option \<Rightarrow> unit users_op" where
  "index_name C i display_name =
     (case display_name of None \<Rightarrow> op_return ()
      | Some name \<Rightarrow> if trim name = [] then op_return () else kv_set Storage (name_key (trim name)) (uc_uuid C i))"

definition unindex_name :: "users_codec \<Rightarrow> uuid \<Rightarrow> string option \<Rightarrow> unit users_op" where
  "unindex_name C i display_name =
     (case display_name of None \<Rightarrow> op_return ()
      | Some name \<Rightarrow>
          op_bind (kv_get Storage (name_key (trim name))) (\<lambda>bytes.
            if bytes = Some (uc_uuid C i) then kv_delete Storage (name_key (trim name)) else op_return ()))"

definition create_user :: "users_codec \<Rightarrow> uuid \<Rightarrow> string \<Rightarrow> string option \<Rightarrow> astrid_user users_op" where
  "create_user C fresh now display_name =
     op_bind (op_lift (validate_display_name display_name)) (\<lambda>_.
     let user = astrid_user_new fresh now display_name in
     op_bind (set_json (uc_user C) (user_key C (au_id user)) user) (\<lambda>_.
     op_bind (index_name C (au_id user) display_name) (\<lambda>_. op_return user)))"

definition get_user :: "users_codec \<Rightarrow> uuid \<Rightarrow> astrid_user option users_op" where
  "get_user C i = get_json (uc_user C) (user_key C i)"

definition require_user :: "users_codec \<Rightarrow> uuid \<Rightarrow> astrid_user users_op" where
  "require_user C i = op_bind (get_user C i) (\<lambda>u. op_lift (ok_or (UserNotFound i) u))"

definition set_display_name :: "users_codec \<Rightarrow> uuid \<Rightarrow> string option \<Rightarrow> astrid_user users_op" where
  "set_display_name C i display_name =
     op_bind (op_lift (validate_display_name display_name)) (\<lambda>_.
     op_bind (require_user C i) (\<lambda>user.
     op_bind (unindex_name C i (au_display_name user)) (\<lambda>_.
     let user' = user\<lparr>au_display_name := display_name\<rparr> in
     op_bind (set_json (uc_user C) (user_key C i) user') (\<lambda>_.
     op_bind (index_name C i display_name) (\<lambda>_. op_return user')))))"

definition set_public_key :: "users_codec \<Rightarrow> uuid \<Rightarrow> 8 word list option \<Rightarrow> astrid_user users_op" where
  "set_public_key C i public_key =
     op_bind (require_user C i) (\<lambda>user.
     let user' = user\<lparr>au_public_key := public_key\<rparr> in
     op_bind (set_json (uc_user C) (user_key C i) user') (\<lambda>_. op_return user'))"

section \<open>Links\<close>

text \<open>Layered display names: context, then link, then the user's own.\<close>

definition layered_name :: "context_identity option \<Rightarrow> frontend_link \<Rightarrow> astrid_user option \<Rightarrow>
    resolved_display_name option" where
  "layered_name overlay lnk user =
     (case overlay of
        Some c \<Rightarrow> Some \<lparr>rd_name = ci_display_name c, rd_source = ''context''\<rparr>
      | None \<Rightarrow>
        (case fl_display_name lnk of
           Some name \<Rightarrow> Some \<lparr>rd_name = name, rd_source = ''link''\<rparr>
         | None \<Rightarrow>
           (case Option.bind user au_display_name of
              Some name \<Rightarrow> Some \<lparr>rd_name = name, rd_source = ''canonical''\<rparr>
            | None \<Rightarrow> None)))"

definition users_resolve :: "users_codec \<Rightarrow> string \<Rightarrow> string option \<Rightarrow> string \<Rightarrow> string option \<Rightarrow>
    (astrid_user option \<times> resolved_display_name option) users_op" where
  "users_resolve C platform inst platform_user_id context_id =
     op_bind (op_lift (validate_triple platform inst platform_user_id)) (\<lambda>_.
     op_bind (op_lift (case context_id of None \<Rightarrow> Ok () | Some c \<Rightarrow> validate_key_component c ''context_id'')) (\<lambda>_.
     let normalized = normalize_platform platform in
     op_bind (get_json (uc_link C) (link_key normalized inst platform_user_id)) (\<lambda>found.
     case found of None \<Rightarrow> op_return (None, None)
     | Some lnk \<Rightarrow>
         op_bind (get_user C (fl_astrid_user_id lnk)) (\<lambda>user.
         op_bind (case context_id of None \<Rightarrow> op_return None
                  | Some c \<Rightarrow> get_json (uc_context C) (context_key normalized inst c platform_user_id)) (\<lambda>overlay.
           op_return (user, layered_name overlay lnk user))))))"

definition users_link :: "users_codec \<Rightarrow> string \<Rightarrow> string \<Rightarrow> string option \<Rightarrow> string \<Rightarrow> uuid \<Rightarrow> string \<Rightarrow>
    string option \<Rightarrow> frontend_link users_op" where
  "users_link C now platform inst platform_user_id astrid_user_id link_method display_name =
     op_bind (op_lift (validate_triple platform inst platform_user_id)) (\<lambda>_.
     op_bind (op_lift (validate_non_empty link_method ''method'')) (\<lambda>_.
     op_bind (get_user C astrid_user_id) (\<lambda>user.
     if user = None then op_fail (UserNotFound astrid_user_id)
     else
       let normalized = normalize_platform platform;
           lnk = \<lparr>fl_platform = normalized, fl_platform_instance = inst, fl_platform_user_id = platform_user_id,
             fl_astrid_user_id = astrid_user_id, fl_linked_at = now, fl_method = link_method,
             fl_display_name = display_name\<rparr>
       in op_bind (set_json (uc_link C) (link_key normalized inst platform_user_id) lnk) (\<lambda>_. op_return lnk))))"

text \<open>The cascade over the overlays of one link: its bucket, filtered by the trailing account id.\<close>

definition delete_overlays :: "string \<Rightarrow> string option \<Rightarrow> string \<Rightarrow> unit users_op" where
  "delete_overlays platform inst platform_user_id =
     op_bind (kv_list_keys Storage (context_prefix_for_link_bucket platform inst)) (\<lambda>ctx_keys.
     op_bind (op_each (kv_delete Storage) (filter (suffix (''/'' @ platform_user_id)) ctx_keys)) (\<lambda>_. op_return ()))"

definition users_unlink :: "string \<Rightarrow> string option \<Rightarrow> string \<Rightarrow> bool users_op" where
  "users_unlink platform inst platform_user_id =
     op_bind (op_lift (validate_triple platform inst platform_user_id)) (\<lambda>_.
     let normalized = normalize_platform platform;
         key = link_key normalized inst platform_user_id
     in op_bind (kv_get Storage key) (\<lambda>found.
        if found = None then op_return False
        else op_bind (delete_overlays normalized inst platform_user_id) (\<lambda>_.
             op_bind (kv_delete Storage key) (\<lambda>_. op_return True))))"

definition list_links :: "users_codec \<Rightarrow> uuid \<Rightarrow> frontend_link list users_op" where
  "list_links C i =
     op_bind (kv_list_keys Storage ''link/'') (\<lambda>keys.
     op_bind (op_each (get_json (uc_link C)) keys) (\<lambda>found.
       op_return (filter (\<lambda>l. fl_astrid_user_id l = i) (List.map_filter id found))))"

text \<open>Cascade 1 of \<open>delete_user\<close>: delete each link to the user as it is found, and remember its triple.\<close>

definition drop_link :: "users_codec \<Rightarrow> uuid \<Rightarrow> string \<Rightarrow> (string \<times> string option \<times> string) list users_op" where
  "drop_link C i key =
     op_bind (get_json (uc_link C) key) (\<lambda>found.
     case found of None \<Rightarrow> op_return []
     | Some l \<Rightarrow>
         if fl_astrid_user_id l = i
         then op_bind (kv_delete Storage key) (\<lambda>_.
           op_return [(fl_platform l, fl_platform_instance l, fl_platform_user_id l)])
         else op_return [])"

definition delete_user :: "users_codec \<Rightarrow> uuid \<Rightarrow> bool users_op" where
  "delete_user C i =
     op_bind (get_user C i) (\<lambda>found.
     case found of None \<Rightarrow> op_return False
     | Some user \<Rightarrow>
         op_bind (kv_list_keys Storage ''link/'') (\<lambda>link_keys.
         op_bind (op_each (drop_link C i) link_keys) (\<lambda>affected_links.
         op_bind (op_each (\<lambda>(platform, inst, platform_user_id). delete_overlays platform inst platform_user_id)
                   (concat affected_links)) (\<lambda>_.
         op_bind (unindex_name C i (au_display_name user)) (\<lambda>_.
         op_bind (kv_delete Storage (user_key C i)) (\<lambda>_. op_return True))))))"

section \<open>Pages\<close>

text \<open>The window of a page over \<open>n\<close> sorted keys: where it starts and ends, and the next cursor. The cursor of a
  page that ends before the last key is the key before its end; with an empty page at the start there
  is none, and indexing it panics.\<close>

definition page_start :: "string option \<Rightarrow> string list \<Rightarrow> nat" where
  "page_start cursor keys = (case cursor of None \<Rightarrow> 0 | Some c \<Rightarrow> length (takeWhile (\<lambda>k. \<not> k > c) keys))"

definition page_end :: "nat option \<Rightarrow> nat \<Rightarrow> nat \<Rightarrow> nat" where
  "page_end limit start n =
     (let take_count = min (case limit of None \<Rightarrow> default_list_limit | Some l \<Rightarrow> l) max_list_limit
      in min (start + take_count) n)"

definition next_cursor :: "string list \<Rightarrow> nat \<Rightarrow> string option users_op" where
  "next_cursor keys end_idx =
     (if end_idx < length keys then (if end_idx = 0 then op_panic else op_return (Some (keys ! (end_idx - 1))))
      else op_return None)"

definition list_users_paginated :: "users_codec \<Rightarrow> string option \<Rightarrow> nat option \<Rightarrow> astrid_user page users_op" where
  "list_users_paginated C cursor limit =
     op_bind (kv_list_keys Storage ''user/'') (\<lambda>unsorted.
     let keys = sort unsorted;
         start_idx = page_start cursor keys;
         end_idx = page_end limit start_idx (length keys)
     in op_bind (op_each (get_json (uc_user C)) (drop start_idx (take end_idx keys))) (\<lambda>found.
        op_bind (next_cursor keys end_idx) (\<lambda>c.
          op_return \<lparr>pg_items = List.map_filter id found, pg_next_cursor = c\<rparr>)))"

section \<open>Context overlays\<close>

definition require_link_exists :: "string \<Rightarrow> string option \<Rightarrow> string \<Rightarrow> unit users_op" where
  "require_link_exists platform inst platform_user_id =
     op_bind (kv_get Storage (link_key platform inst platform_user_id)) (\<lambda>found.
       if found = None then op_fail LinkNotFound else op_return ())"

definition set_context :: "users_codec \<Rightarrow> string \<Rightarrow> string \<Rightarrow> string option \<Rightarrow> string \<Rightarrow> string \<Rightarrow> string \<Rightarrow>
    context_identity users_op" where
  "set_context C now platform inst platform_user_id context_id display_name =
     op_bind (op_lift (validate_triple platform inst platform_user_id)) (\<lambda>_.
     op_bind (op_lift (validate_key_component context_id ''context_id'')) (\<lambda>_.
     op_bind (op_lift (validate_non_empty display_name ''display_name'')) (\<lambda>_.
     let normalized = normalize_platform platform in
     op_bind (require_link_exists normalized inst platform_user_id) (\<lambda>_.
     let overlay = \<lparr>ci_platform = normalized, ci_platform_instance = inst, ci_platform_user_id = platform_user_id,
           ci_context_id = context_id, ci_display_name = display_name, ci_updated_at = now\<rparr>
     in op_bind (set_json (uc_context C) (context_key normalized inst context_id platform_user_id) overlay) (\<lambda>_.
          op_return overlay)))))"

definition clear_context :: "string \<Rightarrow> string option \<Rightarrow> string \<Rightarrow> string \<Rightarrow> bool users_op" where
  "clear_context platform inst platform_user_id context_id =
     op_bind (op_lift (validate_triple platform inst platform_user_id)) (\<lambda>_.
     op_bind (op_lift (validate_key_component context_id ''context_id'')) (\<lambda>_.
     let key = context_key (normalize_platform platform) inst context_id platform_user_id in
     op_bind (kv_get Storage key) (\<lambda>found.
       if found = None then op_return False
       else op_bind (kv_delete Storage key) (\<lambda>_. op_return True))))"

definition get_context :: "users_codec \<Rightarrow> string \<Rightarrow> string option \<Rightarrow> string \<Rightarrow> string \<Rightarrow>
    (context_identity option \<times> uuid option) users_op" where
  "get_context C platform inst platform_user_id context_id =
     op_bind (op_lift (validate_triple platform inst platform_user_id)) (\<lambda>_.
     op_bind (op_lift (validate_key_component context_id ''context_id'')) (\<lambda>_.
     let normalized = normalize_platform platform in
     op_bind (get_json (uc_context C) (context_key normalized inst context_id platform_user_id)) (\<lambda>overlay.
     op_bind (get_json (uc_link C) (link_key normalized inst platform_user_id)) (\<lambda>lnk.
       op_return (overlay, map_option fl_astrid_user_id lnk)))))"

definition overlays_of_link :: "users_codec \<Rightarrow> frontend_link \<Rightarrow> (string \<times> context_identity) list users_op" where
  "overlays_of_link C l =
     op_bind (kv_list_keys Storage (context_prefix_for_link_bucket (fl_platform l) (fl_platform_instance l))) (\<lambda>keys.
     let mine = filter (suffix (''/'' @ fl_platform_user_id l)) keys in
     op_bind (op_each (get_json (uc_context C)) mine) (\<lambda>found.
       op_return (List.map_filter (\<lambda>(k, c). map_option (Pair k) c) (zip mine found))))"

definition list_context_for_user :: "users_codec \<Rightarrow> uuid \<Rightarrow> string option \<Rightarrow> nat option \<Rightarrow>
    context_identity page users_op" where
  "list_context_for_user C i cursor limit =
     op_bind (list_links C i) (\<lambda>links.
     op_bind (op_each (overlays_of_link C) links) (\<lambda>found.
     let overlays = sort_key fst (concat found);
         keys = map fst overlays;
         start_idx = page_start cursor keys;
         end_idx = page_end limit start_idx (length overlays)
     in op_bind (next_cursor keys end_idx) (\<lambda>c.
          op_return \<lparr>pg_items = map snd (drop start_idx (take end_idx overlays)), pg_next_cursor = c\<rparr>)))"

definition with_link :: "users_codec \<Rightarrow> string \<Rightarrow> (context_identity \<times> uuid option) option users_op" where
  "with_link C key =
     op_bind (get_json (uc_context C) key) (\<lambda>found.
     case found of None \<Rightarrow> op_return None
     | Some c \<Rightarrow>
         op_bind (get_json (uc_link C) (link_key (ci_platform c) (ci_platform_instance c) (ci_platform_user_id c))) (\<lambda>lnk.
           op_return (Some (c, map_option fl_astrid_user_id lnk))))"

definition list_context_in_context :: "users_codec \<Rightarrow> string \<Rightarrow> string option \<Rightarrow> string \<Rightarrow> string option \<Rightarrow>
    nat option \<Rightarrow> (context_identity \<times> uuid option) page users_op" where
  "list_context_in_context C platform inst context_id cursor limit =
     op_bind (op_lift (and_then (validate_key_component platform ''platform'') (\<lambda>_.
       and_then (validate_instance inst) (\<lambda>_. validate_key_component context_id ''context_id'')))) (\<lambda>_.
     op_bind (kv_list_keys Storage (context_prefix_in_context (normalize_platform platform) inst context_id)) (\<lambda>unsorted.
     let keys = sort unsorted;
         start_idx = page_start cursor keys;
         end_idx = page_end limit start_idx (length keys)
     in op_bind (op_each (with_link C) (drop start_idx (take end_idx keys))) (\<lambda>found.
        op_bind (next_cursor keys end_idx) (\<lambda>c.
          op_return \<lparr>pg_items = List.map_filter id found, pg_next_cursor = c\<rparr>))))"

end
