(* ===== verification/Users_Properties.thy ===== *)
theory Users_Properties
  imports Users_Store
begin

text \<open>
  What the users store promises: its keys cannot be confused, linking and naming is seen by resolution, the
  cascades of unlinking and deletion remove exactly what belongs to the link or the user, and following
  the cursors reads every user once. The codecs are assumed to read back what they wrote
  (\<open>users_codec_ok\<close>).
\<close>

section \<open>Keys\<close>

lemma lower_no_slash: "CHR ''/'' \<notin> set s \<Longrightarrow> CHR ''/'' \<notin> set (to_ascii_lowercase s)"
proof -
  have "c = CHR ''/''" if "ascii_lower c = CHR ''/''" for c
  proof (rule ccontr)
    assume "c \<noteq> CHR ''/''"
    with that have n: "65 \<le> (of_char c :: nat)" "ascii_lower c = char_of ((of_char c :: nat) + 32)"
      by (auto simp: ascii_lower_def Let_def split: if_splits)
    have "(of_char (ascii_lower c) :: nat) = 47" by (simp add: that)
    moreover have "(of_char c :: nat) \<le> 90"
      using that \<open>c \<noteq> CHR ''/''\<close> by (auto simp: ascii_lower_def Let_def split: if_splits)
    ultimately show False using n by simp
  qed
  moreover assume "CHR ''/'' \<notin> set s"
  ultimately show ?thesis unfolding to_ascii_lowercase_def by force
qed

lemma set_trim: "set (trim s) \<subseteq> set s"
proof -
  have "set (concat (dropWhile P xs)) \<subseteq> set (concat xs)" for P and xs :: "string list"
    using set_dropWhileD by fastforce
  then have "set (concat (rev (dropWhile P (rev (dropWhile P xs))))) \<subseteq> set (concat xs)" for P and xs :: "string list"
    using set_dropWhileD by fastforce
  then show ?thesis unfolding trim_def using concat_chars [of s] by metis
qed

lemma validated:
  assumes "validate_triple platform inst platform_user_id = Ok ()"
  shows "CHR ''/'' \<notin> set (normalize_platform platform)" and "CHR ''/'' \<notin> set (instance_segment inst)"
    and "CHR ''/'' \<notin> set platform_user_id"
proof -
  have v: "\<not> breaks_key platform" "\<not> breaks_key platform_user_id" "inst = Some s \<Longrightarrow> \<not> breaks_key s" for s
    using assms by (auto simp: validate_triple_def validate_key_component_def validate_instance_def result_simps
        split: if_splits option.splits)
  have "CHR ''/'' \<notin> set (trim platform)" using v(1) set_trim by (auto simp: breaks_key_def)
  then show "CHR ''/'' \<notin> set (normalize_platform platform)"
    unfolding normalize_platform_def by (rule lower_no_slash)
  show "CHR ''/'' \<notin> set (instance_segment inst)"
    using v(3) by (auto simp: instance_segment_def instance_none_sentinel_def breaks_key_def split: option.splits)
  show "CHR ''/'' \<notin> set platform_user_id" using v(2) by (simp add: breaks_key_def)
qed

definition plain :: "string \<Rightarrow> bool" where
  "plain s \<longleftrightarrow> CHR ''/'' \<notin> set s"

definition plain_triple :: "string \<Rightarrow> string option \<Rightarrow> string \<Rightarrow> bool" where
  "plain_triple p i u \<longleftrightarrow> plain p \<and> plain (instance_segment i) \<and> i \<noteq> Some instance_none_sentinel \<and> plain u"

lemma plain_validated:
  "validate_triple p i u = Ok () \<Longrightarrow> plain_triple (normalize_platform p) i u"
  using validated [of p i u]
  by (auto simp: plain_triple_def plain_def validate_triple_def validate_instance_def result_simps split: option.splits)

lemma plain_component: "validate_key_component c field = Ok () \<Longrightarrow> plain c"
  by (auto simp: validate_key_component_def result_simps plain_def breaks_key_def split: if_splits)

lemma segment_inj:
  assumes "plain_triple p i u" and "plain_triple p' j u'" and "instance_segment i = instance_segment j"
  shows "i = j"
  using assms by (auto simp: plain_triple_def instance_segment_def split: option.splits)

lemma split_slash:
  assumes "a @ ''/'' @ b = a' @ ''/'' @ b'" and "plain a" and "plain a'"
  shows "a = a' \<and> b = b'"
  using assms by (auto simp: plain_def append_eq_append_conv2 append_eq_Cons_conv Cons_eq_append_conv)

lemma split_triple:
  assumes "p @ ''/'' @ instance_segment i @ ''/'' @ r = p' @ ''/'' @ instance_segment i' @ ''/'' @ r'"
    and "plain_triple p i u" and "plain_triple p' i' u'"
  shows "p = p' \<and> i = i' \<and> r = r'"
proof -
  have pl: "plain p" "plain p'" "plain (instance_segment i)" "plain (instance_segment i')"
    using assms(2,3) by (simp_all add: plain_triple_def)
  note first = split_slash [OF assms(1) pl(1,2)]
  have "instance_segment i = instance_segment i' \<and> r = r'" by (rule split_slash [OF _ pl(3,4)]) (use first in simp)
  with first segment_inj [OF assms(2,3)] show ?thesis by simp
qed

lemma link_key_inj:
  assumes "plain_triple p i u" and "plain_triple p' i' u'"
  shows "link_key p i u = link_key p' i' u' \<longleftrightarrow> p = p' \<and> i = i' \<and> u = u'"
  using split_triple [OF _ assms, of u u'] by (auto simp: link_key_def)

lemma context_key_inj:
  assumes "plain_triple p i u" and "plain_triple p' i' u'" and "plain c" and "plain c'"
  shows "context_key p i c u = context_key p' i' c' u' \<longleftrightarrow> p = p' \<and> i = i' \<and> c = c' \<and> u = u'"
proof
  assume "context_key p i c u = context_key p' i' c' u'"
  then have "p = p' \<and> i = i' \<and> c @ ''/'' @ u = c' @ ''/'' @ u'"
    by (intro split_triple [OF _ assms(1,2)]) (simp add: context_key_def)
  moreover from this have "c = c' \<and> u = u'" by (intro split_slash [OF _ assms(3,4)]) simp
  ultimately show "p = p' \<and> i = i' \<and> c = c' \<and> u = u'" by simp
qed simp

text \<open>The cascade's filter picks exactly the overlays of the link.\<close>

lemma overlay_of_link:
  assumes "plain_triple p i u" and "plain_triple p' i' u'" and "plain c'"
  shows "prefix (context_prefix_for_link_bucket p i) (context_key p' i' c' u') \<and>
     suffix (''/'' @ u) (context_key p' i' c' u') \<longleftrightarrow> p' = p \<and> i' = i \<and> u' = u"
proof
  assume a: "prefix (context_prefix_for_link_bucket p i) (context_key p' i' c' u') \<and>
     suffix (''/'' @ u) (context_key p' i' c' u')"
  then obtain r where "p' @ ''/'' @ instance_segment i' @ ''/'' @ c' @ ''/'' @ u' =
      p @ ''/'' @ instance_segment i @ ''/'' @ r"
    by (auto simp: context_prefix_for_link_bucket_def context_key_def prefix_def)
  note same = split_triple [OF this assms(2,1)]
  from a obtain q where "context_key p' i' c' u' = q @ ''/'' @ u" by (auto simp: suffix_def)
  then have "rev (context_key p' i' c' u') = rev (q @ ''/'' @ u)" by simp
  then have "rev u' @ ''/'' @ rev (''context/'' @ p' @ ''/'' @ instance_segment i' @ ''/'' @ c') =
      rev u @ ''/'' @ rev q"
    by (simp add: context_key_def)
  from split_slash [OF this] assms have "u' = u" by (simp add: plain_triple_def plain_def)
  with same show "p' = p \<and> i' = i \<and> u' = u" by simp
next
  assume "p' = p \<and> i' = i \<and> u' = u"
  then show "prefix (context_prefix_for_link_bucket p i) (context_key p' i' c' u') \<and>
     suffix (''/'' @ u) (context_key p' i' c' u')"
    using suffixI [of "context_key p i c' u" "''context/'' @ p @ ''/'' @ instance_segment i @ ''/'' @ c'" "''/'' @ u"]
    by (simp add: context_prefix_for_link_bucket_def context_key_def)
qed

lemma key_kinds:
  "link_key p i u \<noteq> context_key p' i' c' u'" "link_key p i u \<noteq> user_key C j" "link_key p i u \<noteq> name_key n"
  "context_key p' i' c' u' \<noteq> user_key C j" "context_key p' i' c' u' \<noteq> name_key n" "user_key C j \<noteq> name_key n"
  by (simp_all add: link_key_def context_key_def user_key_def name_key_def)

lemmas key_kinds_all = key_kinds key_kinds [symmetric]

section \<open>Running the operations\<close>

definition users_codec_ok :: "users_codec \<Rightarrow> bool" where
  "users_codec_ok C \<longleftrightarrow> json_codec_ok (uc_user C) \<and> json_codec_ok (uc_link C) \<and> json_codec_ok (uc_context C) \<and>
     inj (uc_uuid C) \<and> (\<forall>i. uc_uuid C i \<noteq> [])"

lemma user_key_inj: "users_codec_ok C \<Longrightarrow> user_key C i = user_key C j \<longleftrightarrow> i = j"
  by (auto simp: users_codec_ok_def user_key_def inj_def)

definition stored :: "'a json_codec \<Rightarrow> kv \<Rightarrow> string \<Rightarrow> 'a option" where
  "stored J s key = Option.bind (kv_value s key) (\<lambda>b. case jc_decode J b of Ok x \<Rightarrow> Some x | Err _ \<Rightarrow> None)"

definition readable :: "'a json_codec \<Rightarrow> kv \<Rightarrow> string \<Rightarrow> bool" where
  "readable J s key \<longleftrightarrow> (\<forall>b. kv_value s key = Some b \<longrightarrow> is_ok (jc_decode J b))"

lemma get_json_Ok_iff:
  assumes "healthy s"
  shows "get_json J key s = (Ok x, t) \<longleftrightarrow> readable J s key \<and> x = stored J s key \<and> t = s"
  using assms by (auto simp: get_json_def op_bind_Ok_iff op_simps op_Ok_iff readable_def stored_def result_simps
      is_ok_iff split: option.splits)

lemma get_json_run: "healthy s \<Longrightarrow> readable J s key \<Longrightarrow> get_json J key s = (Ok (stored J s key), s)"
  by (simp add: get_json_Ok_iff)

lemma get_json_each:
  assumes "healthy s"
  shows "op_each (get_json J) keys s = (Ok xs, t) \<longleftrightarrow>
    (\<forall>k \<in> set keys. readable J s k) \<and> xs = map (stored J s) keys \<and> t = s"
  by (induction keys arbitrary: xs t) (auto simp: op_bind_Ok_iff op_Ok_iff get_json_Ok_iff [OF assms])

lemma set_json_Ok_iff:
  assumes "healthy s"
  shows "set_json J key v s = (Ok u, t) \<longleftrightarrow>
    (\<exists>b. jc_encode J v = Ok b \<and> t = s\<lparr>kv_map := bt_insert key b (kv_map s)\<rparr>)"
  using assms by (auto simp: set_json_def op_bind_Ok_iff op_Ok_iff op_simps result_simps)

lemma stored_after_set:
  assumes "json_codec_ok J" and "jc_encode J v = Ok b"
  shows "stored J (s\<lparr>kv_map := bt_insert key b (kv_map s)\<rparr>) key = Some v"
    and "readable J (s\<lparr>kv_map := bt_insert key b (kv_map s)\<rparr>) key"
  using assms by (auto simp: stored_def readable_def json_codec_ok_def)

lemma same_value_stored:
  "kv_value t key = kv_value s key \<Longrightarrow> stored J t key = stored J s key \<and> readable J t key = readable J s key"
  by (simp add: stored_def readable_def)

lemma get_user_Ok_iff:
  "healthy s \<Longrightarrow> get_user C i s = (Ok x, t) \<longleftrightarrow>
     readable (uc_user C) s (user_key C i) \<and> x = stored (uc_user C) s (user_key C i) \<and> t = s"
  by (simp add: get_user_def get_json_Ok_iff)

text \<open>The keys of one kind, in order.\<close>

definition keys_under :: "string \<Rightarrow> kv \<Rightarrow> string list" where
  "keys_under p s = filter (prefix p) (bt_keys (kv_map s))"

lemma set_keys_under: "healthy s \<Longrightarrow> kv_value s k \<noteq> None \<Longrightarrow> prefix p k \<Longrightarrow> k \<in> set (keys_under p s)"
  by (auto simp: keys_under_def bt_keys_set kv_value_def split: option.splits)

lemma sorted_keys_under: "healthy s \<Longrightarrow> sorted_wrt (<) (keys_under p s)"
  by (simp add: keys_under_def healthy_def bt_wf_def bt_keys_def sorted_wrt_filter)

lemma delete_overlays_run:
  assumes "healthy s"
  shows "delete_overlays p i u s =
    (Ok (), kv_without (filter (suffix (''/'' @ u)) (keys_under (context_prefix_for_link_bucket p i) s)) s)"
  using assms by (simp add: delete_overlays_def op_simps delete_each_run keys_under_def)

text \<open>The keys that the cascade takes for overlays of a link.\<close>

definition overlay_key :: "string \<Rightarrow> string option \<Rightarrow> string \<Rightarrow> string \<Rightarrow> bool" where
  "overlay_key p i u k \<longleftrightarrow> prefix (context_prefix_for_link_bucket p i) k \<and> suffix (''/'' @ u) k"

lemma not_overlay_key [simp]:
  "\<not> overlay_key p i u (link_key p' i' u')" "\<not> overlay_key p i u (user_key C j)" "\<not> overlay_key p i u (name_key n)"
  by (simp_all add: overlay_key_def context_prefix_for_link_bucket_def link_key_def user_key_def name_key_def)

lemma overlay_key_iff:
  assumes "plain_triple p i u" and "plain_triple p' i' u'" and "plain c'"
  shows "overlay_key p i u (context_key p' i' c' u') \<longleftrightarrow> p' = p \<and> i' = i \<and> u' = u"
  using overlay_of_link [OF assms] by (simp add: overlay_key_def)

lemma delete_overlays_value:
  assumes "healthy s" and "delete_overlays p i u s = (Ok x, t)"
  shows "healthy t \<and> (\<forall>k. kv_value t k = (if overlay_key p i u k then None else kv_value s k))"
proof -
  have t: "t = kv_without (filter (suffix (''/'' @ u)) (keys_under (context_prefix_for_link_bucket p i) s)) s"
    using delete_overlays_run [OF assms(1), of p i u] assms(2) by simp
  have "kv_value s k = None" if "overlay_key p i u k" "k \<notin> set (keys_under (context_prefix_for_link_bucket p i) s)" for k
    using that set_keys_under [OF assms(1), of k] unfolding overlay_key_def by blast
  then show ?thesis
    using t assms(1) by (auto simp: kv_value_without overlay_key_def keys_under_def)
qed

lemma delete_overlays_each:
  assumes "healthy s" and "op_each (\<lambda>(p, i, u). delete_overlays p i u) links s = (Ok x, t)"
  shows "healthy t \<and>
    (\<forall>k. kv_value t k = (if \<exists>(p, i, u) \<in> set links. overlay_key p i u k then None else kv_value s k))"
  using assms
proof (induction links arbitrary: s x)
  case Nil
  then show ?case by (simp add: op_Ok_iff)
next
  case (Cons l links)
  obtain p i u where l: "l = (p, i, u)" by (cases l)
  from Cons.prems(2) obtain y s1 ys where y: "delete_overlays p i u s = (Ok y, s1)"
    and ys: "op_each (\<lambda>(p, i, u). delete_overlays p i u) links s1 = (Ok ys, t)"
    by (auto simp: op_bind_Ok_iff op_Ok_iff l)
  note one = delete_overlays_value [OF Cons.prems(1) y]
  with Cons.IH [OF _ ys] show ?case by (auto simp: l)
qed

text \<open>The index entry of a display name leads to the user: exactly then its removal removes it.\<close>

definition own_index :: "users_codec \<Rightarrow> uuid \<Rightarrow> string option \<Rightarrow> kv \<Rightarrow> string \<Rightarrow> bool" where
  "own_index C i display_name s k \<longleftrightarrow> (\<exists>m. display_name = Some m \<and> k = name_key (trim m)) \<and> kv_value s k = Some (uc_uuid C i)"

lemma unindex_run:
  assumes "healthy s"
  shows "\<exists>keys. unindex_name C i n s = (Ok (), kv_without keys s) \<and> (\<forall>k. k \<in> set keys \<longleftrightarrow> own_index C i n s k)"
proof -
  have one: "s\<lparr>kv_map := bt_delete k (kv_map s)\<rparr> = kv_without [k] s" for k
    by (simp add: kv_without_def btd.delete_all_def)
  have none: "kv_without [] s = s" by (simp add: kv_without_def btd.delete_all_def)
  show ?thesis
  proof (cases n)
    case None
    then show ?thesis using none by (intro exI [of _ "[]"]) (simp add: unindex_name_def own_index_def op_simps)
  next
    case (Some m)
    show ?thesis
    proof (cases "kv_value s (name_key (trim m)) = Some (uc_uuid C i)")
      case True
      with assms Some one show ?thesis
        by (intro exI [of _ "[name_key (trim m)]"]) (auto simp: unindex_name_def own_index_def op_simps)
    next
      case False
      with assms Some none show ?thesis by (intro exI [of _ "[]"]) (auto simp: unindex_name_def own_index_def op_simps)
    qed
  qed
qed

lemma unlink_run:
  assumes "healthy s" and "users_unlink p i u s = (Ok b, t)"
  defines "key \<equiv> link_key (normalize_platform p) i u"
  shows "validate_triple p i u = Ok ()" and "b \<longleftrightarrow> kv_value s key \<noteq> None" and "healthy t"
    and "kv_value t k = (if b \<and> (k = key \<or> overlay_key (normalize_platform p) i u k) then None else kv_value s k)"
proof -
  from assms(2) have v: "validate_triple p i u = Ok ()"
    by (auto simp: users_unlink_def op_bind_Ok_iff op_Ok_iff)
  obtain s1 where s1: "delete_overlays (normalize_platform p) i u s = (Ok (), s1)"
    using delete_overlays_run [OF assms(1)] by auto
  note one = delete_overlays_value [OF assms(1) s1]
  then have fin: "kv_delete Storage key s1 = (Ok (), s1\<lparr>kv_map := bt_delete key (kv_map s1)\<rparr>)"
    by (simp add: op_simps)
  have "users_unlink p i u s =
      (if kv_value s key = None then (Ok False, s) else (Ok True, s1\<lparr>kv_map := bt_delete key (kv_map s1)\<rparr>))"
    using assms(1) v fin s1 by (simp add: users_unlink_def Let_def key_def [symmetric] op_simps)
  with assms(2) have c: "b \<longleftrightarrow> kv_value s key \<noteq> None"
    "t = (if b then s1\<lparr>kv_map := bt_delete key (kv_map s1)\<rparr> else s)"
    by (auto split: if_splits)
  show "validate_triple p i u = Ok ()" "b \<longleftrightarrow> kv_value s key \<noteq> None" by fact+
  show "healthy t" using c(2) assms(1) one by simp
  show "kv_value t k = (if b \<and> (k = key \<or> overlay_key (normalize_platform p) i u k) then None else kv_value s k)"
    using c(2) one by simp
qed

definition aims_at :: "users_codec \<Rightarrow> uuid \<Rightarrow> kv \<Rightarrow> string \<Rightarrow> bool" where
  "aims_at C i s k \<longleftrightarrow> (\<exists>l. stored (uc_link C) s k = Some l \<and> fl_astrid_user_id l = i)"

text \<open>The triples of the links among some keys that lead to a user.\<close>

definition triples_to :: "users_codec \<Rightarrow> uuid \<Rightarrow> kv \<Rightarrow> string list \<Rightarrow> (string \<times> string option \<times> string) list" where
  "triples_to C i s keys = List.map_filter (\<lambda>k. case stored (uc_link C) s k of None \<Rightarrow> None
     | Some l \<Rightarrow> if fl_astrid_user_id l = i
         then Some (fl_platform l, fl_platform_instance l, fl_platform_user_id l) else None) keys"

lemma drop_link_run:
  assumes "healthy s" and "drop_link C i key s = (Ok x, t)"
  shows "readable (uc_link C) s key \<and> healthy t \<and> x = triples_to C i s [key] \<and>
    (\<forall>k. kv_value t k = (if k = key \<and> aims_at C i s key then None else kv_value s k))"
  using assms by (auto simp: drop_link_def op_bind_Ok_iff op_Ok_iff get_json_Ok_iff op_simps aims_at_def
      triples_to_def List.map_filter_simps split: option.splits if_splits)

lemma triples_to_Cons: "triples_to C i s (k # ks) = triples_to C i s [k] @ triples_to C i s ks"
  by (simp add: triples_to_def List.map_filter_simps split: option.splits)

lemma set_triples_to:
  "x \<in> set (triples_to C i s ks) \<longleftrightarrow> (\<exists>k \<in> set ks. \<exists>l. stored (uc_link C) s k = Some l \<and>
     fl_astrid_user_id l = i \<and> x = (fl_platform l, fl_platform_instance l, fl_platform_user_id l))"
  by (induction ks) (auto simp: triples_to_def List.map_filter_simps split: option.splits)

lemma triples_to_cong:
  "(\<And>k. k \<in> set ks \<Longrightarrow> stored (uc_link C) s k = stored (uc_link C) t k) \<Longrightarrow> triples_to C i s ks = triples_to C i t ks"
proof (induction ks)
  case (Cons k ks)
  then have "triples_to C i s [k] = triples_to C i t [k]"
    by (simp add: triples_to_def List.map_filter_def)
  with Cons show ?case
    using triples_to_Cons [of C i s k ks] triples_to_Cons [of C i t k ks] by simp
qed (simp add: triples_to_def List.map_filter_simps)

lemma drop_links_run:
  assumes "healthy s" and "op_each (drop_link C i) keys s = (Ok affected, t)" and "distinct keys"
  shows "healthy t \<and> (\<forall>k \<in> set keys. readable (uc_link C) s k) \<and> concat affected = triples_to C i s keys \<and>
    (\<forall>k. kv_value t k = (if k \<in> set keys \<and> aims_at C i s k then None else kv_value s k))"
  using assms
proof (induction keys arbitrary: s affected)
  case Nil
  then show ?case by (simp add: op_Ok_iff triples_to_def List.map_filter_simps)
next
  case (Cons key keys)
  from Cons.prems(2) obtain x xs s1 where x: "drop_link C i key s = (Ok x, s1)" and a: "affected = x # xs"
    and xs: "op_each (drop_link C i) keys s1 = (Ok xs, t)" by (auto simp: op_bind_Ok_iff op_Ok_iff)
  note o = drop_link_run [OF Cons.prems(1) x]
  have key: "key \<notin> set keys" using Cons.prems(3) by simp
  have same: "stored (uc_link C) s1 k = stored (uc_link C) s k \<and> readable (uc_link C) s1 k = readable (uc_link C) s k"
    if "k \<in> set keys" for k
  proof -
    have "k \<noteq> key" using that key by auto
    then show ?thesis using o by (intro same_value_stored) simp
  qed
  then have aims: "aims_at C i s1 k = aims_at C i s k" if "k \<in> set keys" for k
    using that by (simp add: aims_at_def)
  have trip: "triples_to C i s1 keys = triples_to C i s keys" using same by (intro triples_to_cong) simp
  have "healthy t \<and> (\<forall>k \<in> set keys. readable (uc_link C) s1 k) \<and> concat xs = triples_to C i s1 keys \<and>
      (\<forall>k. kv_value t k = (if k \<in> set keys \<and> aims_at C i s1 k then None else kv_value s1 k))"
    using Cons.IH [OF _ xs] o Cons.prems(3) by simp
  then show ?case using o aims same trip key triples_to_Cons [of C i s key keys] by (auto simp: a)
qed

end
