(* ===== verification/Users_Records.thy ===== *)
theory Users_Records
  imports Users_Properties
begin

text \<open>
  The invariant of the users store: every record lies under the key that its own fields spell, whatever
  sequence of operations ran and whichever of their calls to the service failed. \<open>keeps\<close> is the
  compositional form: an operation built from operations that keep a predicate keeps it, on success,
  failure and panic alike.
\<close>

section \<open>Operations that keep a predicate of the map\<close>

named_theorems keeps_intros \<open>operations that keep a predicate\<close>

definition keeps :: "((string, string) btree_map \<Rightarrow> bool) \<Rightarrow> ('e, 'a) kv_op \<Rightarrow> bool" where
  "keeps I m \<longleftrightarrow> (\<forall>s. I (kv_map s) \<longrightarrow> I (kv_map (snd (m s))))"

lemma keeps_basic [keeps_intros]:
  "keeps I (op_return x)" "keeps I (op_fail e)" "keeps I op_panic" "keeps I (op_lift r)"
  by (simp_all add: keeps_def op_return_def op_fail_def op_panic_def op_lift_def)

lemma keeps_bind [keeps_intros]:
  assumes "keeps I m" and "\<And>x. keeps I (f x)"
  shows "keeps I (op_bind m f)"
  unfolding keeps_def
proof (intro allI impI)
  fix s :: kv assume "I (kv_map s)"
  with assms(1) have m: "I (kv_map (snd (m s)))" by (simp add: keeps_def)
  obtain r t where "m s = (r, t)" by fastforce
  with m assms(2) show "I (kv_map (snd (op_bind m f s)))"
    by (cases r) (simp_all add: op_bind_def keeps_def)
qed

lemma keeps_each [keeps_intros]: "(\<And>x. keeps I (f x)) \<Longrightarrow> keeps I (op_each f xs)"
  by (induction xs) (auto intro: keeps_intros)

lemma keeps_call:
  assumes "\<And>s. I (kv_map s) \<Longrightarrow> I (kv_map (snd (f s)))"
  shows "keeps I (kv_call w f)"
  using assms by (auto simp: keeps_def kv_call_def Let_def case_prod_unfold split: list.split option.split)

lemma keeps_reads [keeps_intros]: "keeps I (kv_get w key)" "keeps I (kv_list_keys w p)"
  unfolding kv_get_def kv_list_keys_def by (rule keeps_call, simp)+

lemma keeps_delete [keeps_intros]:
  "(\<And>m. I m \<Longrightarrow> I (bt_delete key m)) \<Longrightarrow> keeps I (kv_delete w key)"
  unfolding kv_delete_def by (rule keeps_call) simp

lemma keeps_set:
  "(\<And>m. I m \<Longrightarrow> I (bt_insert key v m)) \<Longrightarrow> keeps I (kv_set w key v)"
  unfolding kv_set_def by (rule keeps_call) simp

lemma keeps_if [keeps_intros]: "(b \<Longrightarrow> keeps I m) \<Longrightarrow> (\<not> b \<Longrightarrow> keeps I n) \<Longrightarrow> keeps I (if b then m else n)"
  by simp

lemma keeps_option [keeps_intros]:
  "keeps I m \<Longrightarrow> (\<And>x. keeps I (f x)) \<Longrightarrow> keeps I (case o' of None \<Rightarrow> m | Some x \<Rightarrow> f x)"
  by (cases o') simp_all

lemma keeps_prod [keeps_intros]: "(\<And>a b. keeps I (f a b)) \<Longrightarrow> keeps I (case p of (a, b) \<Rightarrow> f a b)"
  by (cases p) simp

lemma keeps_get_json [keeps_intros]: "keeps I (get_json J key)"
  unfolding get_json_def by (intro keeps_intros)

section \<open>Records under their own keys\<close>

definition decoded :: "'a json_codec \<Rightarrow> (string, string) btree_map \<Rightarrow> string \<Rightarrow> 'a \<Rightarrow> bool" where
  "decoded J m key x \<longleftrightarrow> (\<exists>b. bt_get m key = Some b \<and> jc_decode J b = Ok x)"

definition user_at :: "users_codec \<Rightarrow> string \<Rightarrow> astrid_user \<Rightarrow> bool" where
  "user_at C key u \<longleftrightarrow> key = user_key C (au_id u)"

definition link_at :: "string \<Rightarrow> frontend_link \<Rightarrow> bool" where
  "link_at key l \<longleftrightarrow> key = link_key (fl_platform l) (fl_platform_instance l) (fl_platform_user_id l) \<and>
     plain_triple (fl_platform l) (fl_platform_instance l) (fl_platform_user_id l)"

definition context_at :: "string \<Rightarrow> context_identity \<Rightarrow> bool" where
  "context_at key c \<longleftrightarrow>
     key = context_key (ci_platform c) (ci_platform_instance c) (ci_context_id c) (ci_platform_user_id c) \<and>
     plain_triple (ci_platform c) (ci_platform_instance c) (ci_platform_user_id c) \<and> plain (ci_context_id c)"

definition records_ok :: "users_codec \<Rightarrow> (string, string) btree_map \<Rightarrow> bool" where
  "records_ok C m \<longleftrightarrow>
     (\<forall>key u. prefix ''user/'' key \<and> decoded (uc_user C) m key u \<longrightarrow> user_at C key u) \<and>
     (\<forall>key l. prefix ''link/'' key \<and> decoded (uc_link C) m key l \<longrightarrow> link_at key l) \<and>
     (\<forall>key c. prefix ''context/'' key \<and> decoded (uc_context C) m key c \<longrightarrow> context_at key c)"

lemma records_ok_empty: "records_ok C []"
  by (simp add: records_ok_def decoded_def)

lemma records_ok_delete [keeps_intros]: "records_ok C m \<Longrightarrow> records_ok C (bt_delete key m)"
  unfolding records_ok_def decoded_def bt_get_delete by simp

lemma records_ok_insert:
  assumes "records_ok C m"
    and "\<And>u. prefix ''user/'' key \<Longrightarrow> jc_decode (uc_user C) b = Ok u \<Longrightarrow> user_at C key u"
    and "\<And>l. prefix ''link/'' key \<Longrightarrow> jc_decode (uc_link C) b = Ok l \<Longrightarrow> link_at key l"
    and "\<And>c. prefix ''context/'' key \<Longrightarrow> jc_decode (uc_context C) b = Ok c \<Longrightarrow> context_at key c"
  shows "records_ok C (bt_insert key b m)"
  using assms unfolding records_ok_def decoded_def bt_get_insert by auto

lemma key_prefixes:
  "prefix ''user/'' (user_key C i)" "\<not> prefix ''link/'' (user_key C i)" "\<not> prefix ''context/'' (user_key C i)"
  "prefix ''link/'' (link_key p j u)" "\<not> prefix ''user/'' (link_key p j u)" "\<not> prefix ''context/'' (link_key p j u)"
  "prefix ''context/'' (context_key p j c u)" "\<not> prefix ''user/'' (context_key p j c u)"
  "\<not> prefix ''link/'' (context_key p j c u)"
  "\<not> prefix ''user/'' (name_key n)" "\<not> prefix ''link/'' (name_key n)" "\<not> prefix ''context/'' (name_key n)"
  by (simp_all add: user_key_def link_key_def context_key_def name_key_def)

lemma keeps_set_name [keeps_intros]: "keeps (records_ok C) (kv_set w (name_key n) v)"
  by (rule keeps_set) (auto intro: records_ok_insert simp: key_prefixes)

lemma keeps_set_json:
  assumes "json_codec_ok J" and "\<And>b m. records_ok C m \<Longrightarrow> jc_decode J b = Ok v \<Longrightarrow> records_ok C (bt_insert key b m)"
  shows "keeps (records_ok C) (set_json J key v)"
proof -
  have "keeps (records_ok C) (kv_set Storage key b)" if "jc_encode J v = Ok b" for b
    using assms that by (intro keeps_set) (auto simp: json_codec_ok_def)
  then show ?thesis
    by (cases "jc_encode J v") (simp_all add: keeps_def set_json_def op_bind_def op_lift_def)
qed

lemma keeps_set_user:
  assumes "users_codec_ok C" and "au_id u = i"
  shows "keeps (records_ok C) (set_json (uc_user C) (user_key C i) u)"
  using assms
  by (intro keeps_set_json) (auto simp: users_codec_ok_def user_at_def key_prefixes intro!: records_ok_insert)

lemma keeps_set_link:
  assumes "users_codec_ok C" and "link_at key l"
  shows "keeps (records_ok C) (set_json (uc_link C) key l)"
  using assms
  by (intro keeps_set_json) (auto simp: users_codec_ok_def link_at_def key_prefixes intro!: records_ok_insert)

lemma keeps_set_context:
  assumes "users_codec_ok C" and "context_at key c"
  shows "keeps (records_ok C) (set_json (uc_context C) key c)"
  using assms
  by (intro keeps_set_json) (auto simp: users_codec_ok_def context_at_def key_prefixes intro!: records_ok_insert)

section \<open>The operations\<close>

lemma keeps_lift:
  assumes "\<And>x. r = Ok x \<Longrightarrow> keeps I (f x)"
  shows "keeps I (op_bind (op_lift r) f)"
proof (cases r)
  case (Inr x)
  with assms show ?thesis by (simp add: keeps_def op_bind_def op_lift_def)
qed (simp add: keeps_def op_bind_def op_lift_def)

text \<open>A user that is read under an id has that id.\<close>

lemma keeps_require_user:
  assumes C: "users_codec_ok C" and f: "\<And>u. au_id u = i \<Longrightarrow> keeps (records_ok C) (f u)"
  shows "keeps (records_ok C) (op_bind (require_user C i) f)"
  unfolding keeps_def
proof (intro allI impI)
  fix s :: kv assume I: "records_ok C (kv_map s)"
  obtain r t where r: "require_user C i s = (r, t)" by fastforce
  have "keeps (records_ok C) (require_user C i)"
    unfolding require_user_def get_user_def by (intro keeps_intros)
  with I r have t: "records_ok C (kv_map t)" unfolding keeps_def by (metis snd_conv)
  show "records_ok C (kv_map (snd (op_bind (require_user C i) f s)))"
  proof (cases r)
    case (Inl e)
    with r t show ?thesis by (simp add: op_bind_def)
  next
    case (Inr u)
    then have "decoded (uc_user C) (kv_map s) (user_key C i) u"
      using r by (auto simp: require_user_def get_user_def get_json_def kv_get_def kv_call_def op_bind_def op_lift_def
          op_return_def decoded_def result_simps and_then_def map_err_def ok_or_def Let_def
          split: prod.splits sum.splits option.splits list.splits if_splits)
    with I have "user_at C (user_key C i) u" by (auto simp: records_ok_def key_prefixes)
    then have "au_id u = i" using user_key_inj [OF C] by (simp add: user_at_def)
    with f r t Inr show ?thesis by (simp add: op_bind_def keeps_def)
  qed
qed

lemma keeps_names [keeps_intros]: "keeps (records_ok C) (index_name C' i n)" "keeps (records_ok C) (unindex_name C' i n)"
  unfolding index_name_def unindex_name_def by (intro keeps_intros; assumption)+

lemma keeps_create: "users_codec_ok C \<Longrightarrow> keeps (records_ok C) (create_user C fresh now n)"
  unfolding create_user_def Let_def
  by (intro keeps_lift keeps_bind [OF keeps_set_user] keeps_intros) (simp_all add: astrid_user_new_def)

lemma keeps_set_display_name: "users_codec_ok C \<Longrightarrow> keeps (records_ok C) (set_display_name C i n)"
  unfolding set_display_name_def Let_def
  by (rule keeps_lift, rule keeps_require_user, assumption,
      intro keeps_bind [OF keeps_names(2)] keeps_bind [OF keeps_set_user] keeps_intros) simp_all

lemma keeps_set_public_key: "users_codec_ok C \<Longrightarrow> keeps (records_ok C) (set_public_key C i k)"
  unfolding set_public_key_def Let_def
  by (rule keeps_require_user, assumption, intro keeps_bind [OF keeps_set_user] keeps_intros) simp_all

lemma keeps_overlays [keeps_intros]: "keeps (records_ok C) (delete_overlays p i u)"
  unfolding delete_overlays_def by (intro keeps_intros; assumption)

lemma keeps_link: "users_codec_ok C \<Longrightarrow> keeps (records_ok C) (users_link C now p i u a m n)"
  unfolding users_link_def get_user_def Let_def
  by (rule keeps_lift, rule keeps_lift, intro keeps_bind [OF keeps_get_json] keeps_if keeps_basic
      keeps_bind [OF keeps_set_link]) (simp_all add: link_at_def plain_validated)

lemma keeps_unlink: "keeps (records_ok C) (users_unlink p i u)"
  unfolding users_unlink_def Let_def by (intro keeps_intros; assumption)

lemma keeps_delete_user: "keeps (records_ok C) (delete_user C i)"
  unfolding delete_user_def drop_link_def get_user_def by (intro keeps_intros; assumption)

lemma keeps_set_context_op: "users_codec_ok C \<Longrightarrow> keeps (records_ok C) (set_context C now p i u c n)"
  unfolding set_context_def require_link_exists_def Let_def
  by (rule keeps_lift, rule keeps_lift, rule keeps_lift, rule keeps_bind, intro keeps_intros,
      intro keeps_bind [OF keeps_set_context] keeps_basic)
    (simp_all add: context_at_def plain_validated plain_component)

lemma keeps_clear_context: "keeps (records_ok C) (clear_context p i u c)"
  unfolding clear_context_def Let_def by (intro keeps_intros; assumption)

section \<open>Whatever is called\<close>

datatype users_call =
    CreateUser uuid string "string option"
  | SetDisplayName uuid "string option"
  | SetPublicKey uuid "8 word list option"
  | LinkAccount string string "string option" string uuid string "string option"
  | UnlinkAccount string "string option" string
  | DeleteUser uuid
  | SetContext string string "string option" string string string
  | ClearContext string "string option" string string

text \<open>One call, with the failures the service will have during it.\<close>

fun run_users_call :: "users_codec \<Rightarrow> users_call \<Rightarrow> kv \<Rightarrow> kv" where
  "run_users_call C (CreateUser fresh now n) s = snd (create_user C fresh now n s)"
| "run_users_call C (SetDisplayName i n) s = snd (set_display_name C i n s)"
| "run_users_call C (SetPublicKey i k) s = snd (set_public_key C i k s)"
| "run_users_call C (LinkAccount now p j u i m n) s = snd (users_link C now p j u i m n s)"
| "run_users_call C (UnlinkAccount p j u) s = snd (users_unlink p j u s)"
| "run_users_call C (DeleteUser i) s = snd (delete_user C i s)"
| "run_users_call C (SetContext now p j u c n) s = snd (set_context C now p j u c n s)"
| "run_users_call C (ClearContext p j u c) s = snd (clear_context p j u c s)"

definition users_step :: "users_codec \<Rightarrow> kv \<Rightarrow> users_call \<times> string option list \<Rightarrow> kv" where
  "users_step C s = (\<lambda>(call, faults). run_users_call C call (s\<lparr>kv_faults := faults\<rparr>))"

lemma users_step_keeps:
  assumes "users_codec_ok C" and "records_ok C (kv_map s)"
  shows "records_ok C (kv_map (users_step C s c))"
proof -
  note keeps = keeps_create keeps_set_display_name keeps_set_public_key keeps_link keeps_unlink keeps_delete_user
    keeps_set_context_op keeps_clear_context
  obtain call faults where c: "c = (call, faults)" by fastforce
  show ?thesis
    using assms keeps unfolding c users_step_def
    by (cases call) (simp_all add: keeps_def)
qed

interpretation users: preserved "\<lambda>s. users_codec_ok C \<and> records_ok C (kv_map s)" "users_step C" for C
  by unfold_locales (auto intro: users_step_keeps)

section \<open>Properties\<close>

text \<open>C39. From an empty service on, whatever is called and whichever calls of the service fail, every stored user,
  link and context record lies under the key that its own fields spell, and no field of a link or context
  that is part of a key contains the separator.\<close>

theorem users_records_consistent:
  assumes "users_codec_ok C"
  shows "records_ok C (kv_map (foldl (users_step C) \<lparr>kv_map = [], kv_faults = []\<rparr> calls))"
  using users.inv_run [of C "\<lparr>kv_map = [], kv_faults = []\<rparr>" calls] assms records_ok_empty by simp

end
