(* ===== verification/Users_Laws.thy ===== *)
theory Users_Laws
  imports Users_Records
begin

text \<open>
  The theorems about the users store on a service that does not fail: linking and resolving, the cascades of
  unlinking and of deleting a user, and reading all users page by page. \<open>demo_codec\<close> is a codec that
  satisfies the assumptions, for the examples.
\<close>

section \<open>A codec\<close>

definition demo_uuid :: "uuid \<Rightarrow> string" where
  "demo_uuid i = map (\<lambda>n. if bit i n then CHR ''1'' else CHR ''0'') [0 ..< 128]"

definition demo_user :: astrid_user where
  "demo_user = astrid_user_new 7 ''now'' (Some ''bob'')"

definition demo_link :: frontend_link where
  "demo_link = \<lparr>fl_platform = ''irc'', fl_platform_instance = None, fl_platform_user_id = ''b1'',
     fl_astrid_user_id = 7, fl_linked_at = ''now'', fl_method = ''code'', fl_display_name = None\<rparr>"

definition demo_overlay :: context_identity where
  "demo_overlay = \<lparr>ci_platform = ''irc'', ci_platform_instance = None, ci_platform_user_id = ''b1'',
     ci_context_id = ''room'', ci_display_name = ''Bob!'', ci_updated_at = ''now''\<rparr>"

definition one_record :: "'a \<Rightarrow> 'a json_codec" where
  "one_record x = \<lparr>jc_encode = (\<lambda>y. if y = x then Ok ''1'' else Err ''no''),
     jc_decode = (\<lambda>b. if b = ''1'' then Ok x else Err ''no'')\<rparr>"

definition demo_codec :: users_codec where
  "demo_codec = \<lparr>uc_uuid = demo_uuid, uc_user = one_record demo_user, uc_link = one_record demo_link,
     uc_context = one_record demo_overlay\<rparr>"

lemma one_record_ok: "json_codec_ok (one_record x)"
  by (simp add: json_codec_ok_def one_record_def)

lemma demo_codec_ok: "users_codec_ok demo_codec"
proof -
  have "i = j" if "demo_uuid i = demo_uuid j" for i j
  proof (rule bit_eqI)
    fix n assume "possible_bit TYPE(128 word) n"
    then have n: "n < 128" by (simp add: possible_bit_word)
    have "demo_uuid i ! n = demo_uuid j ! n" using that by simp
    with n show "bit i n = bit j n" by (simp add: demo_uuid_def split: if_splits)
  qed
  then have "inj demo_uuid" by (rule injI)
  moreover have "demo_uuid i \<noteq> []" for i by (simp add: demo_uuid_def)
  ultimately show ?thesis by (simp add: users_codec_ok_def demo_codec_def one_record_ok)
qed

definition demo_kv :: kv where
  "demo_kv = \<lparr>kv_map = bt_insert (user_key demo_codec 7) ''1'' [], kv_faults = []\<rparr>"

lemma demo_kv_healthy: "healthy demo_kv"
  by (simp add: healthy_def demo_kv_def bt_wf_def)

lemma demo_kv_user: "readable (uc_user demo_codec) demo_kv (user_key demo_codec 7)"
    "stored (uc_user demo_codec) demo_kv (user_key demo_codec 7) = Some demo_user"
  by (simp_all add: readable_def stored_def kv_value_def demo_kv_def bt_get_def demo_codec_def one_record_def)

lemma demo_triple: "validate_triple ''IRC '' None ''b1'' = Ok ()" "normalize_platform ''IRC '' = ''irc''"
  by code_simp+

section \<open>Links\<close>

lemma users_link_Ok:
  assumes "healthy s" and "users_link C now p i u a m n s = (Ok l, t)"
  shows "validate_triple p i u = Ok ()" and "\<exists>x. stored (uc_user C) s (user_key C a) = Some x \<and> readable (uc_user C) s (user_key C a)"
    and "l = \<lparr>fl_platform = normalize_platform p, fl_platform_instance = i, fl_platform_user_id = u,
      fl_astrid_user_id = a, fl_linked_at = now, fl_method = m, fl_display_name = n\<rparr>"
    and "\<exists>b. jc_encode (uc_link C) l = Ok b \<and>
      t = s\<lparr>kv_map := bt_insert (link_key (normalize_platform p) i u) b (kv_map s)\<rparr>"
  using assms
  by (auto simp: users_link_def Let_def op_bind_Ok_iff op_Ok_iff get_user_Ok_iff set_json_Ok_iff split: if_splits)

text \<open>A link is seen by resolution: right after linking an account, resolving it returns the linked user,
  under the link's display name or else the user's own, and resolving does not change the store.\<close>

theorem link_then_resolve:
  assumes "users_codec_ok C" and "healthy s"
    and "users_link C now platform inst account user_id link_method name s = (Ok l, t)"
  shows "\<exists>user. get_user C user_id s = (Ok (Some user), s) \<and>
    users_resolve C platform inst account None t = (Ok (Some user, layered_name None l (Some user)), t)"
proof -
  note ok = users_link_Ok [OF assms(2,3)]
  let ?key = "link_key (normalize_platform platform) inst account"
  obtain x where x: "stored (uc_user C) s (user_key C user_id) = Some x" "readable (uc_user C) s (user_key C user_id)"
    using ok(2) by blast
  obtain b where b: "jc_encode (uc_link C) l = Ok b" "t = s\<lparr>kv_map := bt_insert ?key b (kv_map s)\<rparr>"
    using ok(4) by blast
  have h: "healthy t" using b(2) assms(2) by simp
  have lk: "stored (uc_link C) t ?key = Some l" "readable (uc_link C) t ?key"
    using stored_after_set [OF _ b(1)] assms(1) b(2) by (auto simp: users_codec_ok_def)
  have "kv_value t (user_key C user_id) = kv_value s (user_key C user_id)"
    using b(2) key_kinds(2) by (metis kv_value_insert)
  then have us: "stored (uc_user C) t (user_key C user_id) = Some x" "readable (uc_user C) t (user_key C user_id)"
    using same_value_stored x by metis+
  have "get_user C user_id s = (Ok (Some x), s)" using assms(2) x by (simp add: get_user_Ok_iff)
  moreover have "get_user C user_id t = (Ok (Some x), t)" using h us by (simp add: get_user_Ok_iff)
  moreover have "fl_astrid_user_id l = user_id" using ok(3) by simp
  ultimately show ?thesis
    using ok(1) lk get_json_run [OF h lk(2)]
    by (intro exI [of _ x]) (simp add: users_resolve_def Let_def op_simps)
qed

theorem link_then_resolve_witness:
  "\<exists>l t. users_link demo_codec ''now'' ''IRC '' None ''b1'' 7 ''code'' None demo_kv = (Ok l, t) \<and>
     users_resolve demo_codec ''IRC '' None ''b1'' None t =
       (Ok (Some demo_user, Some \<lparr>rd_name = ''bob'', rd_source = ''canonical''\<rparr>), t)"
proof -
  have "validate_non_empty ''code'' ''method'' = Ok ()" by code_simp
  then obtain t where l: "users_link demo_codec ''now'' ''IRC '' None ''b1'' 7 ''code'' None demo_kv = (Ok demo_link, t)"
    using demo_kv_healthy demo_kv_user demo_triple
    by (simp add: users_link_def Let_def op_simps get_user_def get_json_run set_json_def demo_link_def [symmetric])
      (simp add: demo_codec_def one_record_def op_simps)
  have "get_user demo_codec 7 demo_kv = (Ok (Some demo_user), demo_kv)"
    using demo_kv_healthy demo_kv_user by (simp add: get_user_Ok_iff)
  with link_then_resolve [OF demo_codec_ok demo_kv_healthy l] l show ?thesis
    by (auto simp: layered_name_def demo_link_def demo_user_def astrid_user_new_def)
qed

section \<open>Cascades\<close>

text \<open>Unlinking an account removes its link and every overlay of it, answers whether the link was there, and
  leaves every other link, every other account's overlays, the users and the name index alone.\<close>

theorem unlink_cascade:
  assumes "healthy s" and "users_unlink platform inst account s = (Ok b, t)"
  defines "p0 \<equiv> normalize_platform platform"
  shows "(b \<longleftrightarrow> kv_value s (link_key p0 inst account) \<noteq> None) \<and>
    (\<forall>p i u. plain_triple p i u \<longrightarrow> kv_value t (link_key p i u) =
       (if p = p0 \<and> i = inst \<and> u = account then None else kv_value s (link_key p i u))) \<and>
    (\<forall>p i c u. plain_triple p i u \<and> plain c \<longrightarrow> kv_value t (context_key p i c u) =
       (if b \<and> p = p0 \<and> i = inst \<and> u = account then None else kv_value s (context_key p i c u))) \<and>
    (\<forall>C j. kv_value t (user_key C j) = kv_value s (user_key C j)) \<and>
    (\<forall>n. kv_value t (name_key n) = kv_value s (name_key n))"
proof -
  note run = unlink_run [OF assms(1,2), folded p0_def]
  have pl: "plain_triple p0 inst account" using plain_validated [OF run(1)] by (simp add: p0_def)
  note inj = link_key_inj [OF _ pl] and over = overlay_key_iff [OF pl]
  have b: "\<not> b \<Longrightarrow> kv_value s (link_key p0 inst account) = None" using run(2) by simp
  show ?thesis
    using b by (intro conjI allI impI) (simp_all add: run(2) run(4) inj over key_kinds_all)
qed

lemma stored_present:
  assumes "stored J s k = Some x"
  shows "kv_value s k \<noteq> None" and "decoded J (kv_map s) k x"
proof -
  from assms obtain b where "kv_value s k = Some b" "(case jc_decode J b of Ok y \<Rightarrow> Some y | Err _ \<Rightarrow> None) = Some x"
    unfolding stored_def bind_eq_Some_conv by blast
  then have b: "kv_value s k = Some b" "jc_decode J b = Ok x" by (cases "jc_decode J b"; simp)+
  then show "kv_value s k \<noteq> None" by simp
  show "decoded J (kv_map s) k x"
    using b by (auto simp: kv_value_def decoded_def split: option.splits if_splits)
qed

lemma stored_link_at:
  assumes "records_ok C (kv_map s)" and "prefix ''link/'' k" and "stored (uc_link C) s k = Some l"
  shows "link_at k l"
  using assms(1,2) stored_present(2) [OF assms(3)] by (simp add: records_ok_def)

text \<open>The link of a plain triple that a user owns.\<close>

lemma aims_at_triples:
  assumes ok: "records_ok C (kv_map s)" and h: "healthy s" and pl: "plain_triple p i u"
  shows "(p, i, u) \<in> set (triples_to C j s (keys_under ''link/'' s)) \<longleftrightarrow> aims_at C j s (link_key p i u)"
proof -
  have rec: "link_at k l" if "k \<in> set (keys_under ''link/'' s)" "stored (uc_link C) s k = Some l" for k l
    using that by (intro stored_link_at [OF ok]) (auto simp: keys_under_def)
  have mem: "(p, i, u) \<in> set (triples_to C j s (keys_under ''link/'' s)) \<longleftrightarrow>
      (\<exists>k l. k \<in> set (keys_under ''link/'' s) \<and> stored (uc_link C) s k = Some l \<and> fl_astrid_user_id l = j \<and>
        fl_platform l = p \<and> fl_platform_instance l = i \<and> fl_platform_user_id l = u)"
    by (auto simp: set_triples_to)
  show ?thesis
  proof
    assume "(p, i, u) \<in> set (triples_to C j s (keys_under ''link/'' s))"
    then obtain k l where k: "k \<in> set (keys_under ''link/'' s)" "stored (uc_link C) s k = Some l"
      "fl_astrid_user_id l = j" "fl_platform l = p" "fl_platform_instance l = i" "fl_platform_user_id l = u"
      using mem by blast
    with rec [OF k(1,2)] have "k = link_key p i u" by (simp add: link_at_def)
    with k show "aims_at C j s (link_key p i u)" by (auto simp: aims_at_def)
  next
    assume "aims_at C j s (link_key p i u)"
    then obtain l where l: "stored (uc_link C) s (link_key p i u) = Some l" "fl_astrid_user_id l = j"
      by (auto simp: aims_at_def)
    then have v: "kv_value s (link_key p i u) \<noteq> None" by (intro stored_present(1))
    then have k: "link_key p i u \<in> set (keys_under ''link/'' s)"
      by (intro set_keys_under [OF h]) (simp_all add: key_prefixes)
    from rec [OF k l(1)] have at: "link_at (link_key p i u) l" .
    then have "fl_platform l = p \<and> fl_platform_instance l = i \<and> fl_platform_user_id l = u"
      using link_key_inj [OF pl, of "fl_platform l" "fl_platform_instance l" "fl_platform_user_id l"]
      by (auto simp: link_at_def)
    with k l show "(p, i, u) \<in> set (triples_to C j s (keys_under ''link/'' s))" using mem by blast
  qed
qed

lemma delete_user_run:
  assumes "healthy s" and "delete_user C i s = (Ok b, t)"
  shows "b \<longleftrightarrow> stored (uc_user C) s (user_key C i) \<noteq> None" and "\<not> b \<Longrightarrow> t = s"
    and "b \<Longrightarrow> \<exists>user. stored (uc_user C) s (user_key C i) = Some user \<and> healthy t \<and>
      (\<forall>k. kv_value t k =
        (if k = user_key C i \<or> own_index C i (au_display_name user) s k \<or>
            (\<exists>(p, j, u) \<in> set (triples_to C i s (keys_under ''link/'' s)). overlay_key p j u k) \<or>
            k \<in> set (keys_under ''link/'' s) \<and> aims_at C i s k
         then None else kv_value s k))"
proof -
  let ?found = "stored (uc_user C) s (user_key C i)"
  show "b \<longleftrightarrow> ?found \<noteq> None" "\<not> b \<Longrightarrow> t = s"
    using assms by (auto simp: delete_user_def op_bind_Ok_iff op_Ok_iff get_user_Ok_iff split: option.splits)
  assume b
  then obtain user where user: "?found = Some user"
    using assms by (auto simp: delete_user_def op_bind_Ok_iff op_Ok_iff get_user_Ok_iff split: option.splits)
  with assms obtain affected s1 x s2 s3 where run:
    "op_each (drop_link C i) (keys_under ''link/'' s) s = (Ok affected, s1)"
    "op_each (\<lambda>(p, j, u). delete_overlays p j u) (concat affected) s1 = (Ok x, s2)"
    "unindex_name C i (au_display_name user) s2 = (Ok (), s3)" "kv_delete Storage (user_key C i) s3 = (Ok (), t)"
    by (auto simp: delete_user_def op_bind_Ok_iff op_Ok_iff get_user_Ok_iff kv_list_run keys_under_def)
  have "distinct (keys_under ''link/'' s)"
    using sorted_keys_under [OF assms(1)] by (simp add: strict_sorted_iff)
  note links = drop_links_run [OF assms(1) run(1) this]
  note overs = delete_overlays_each [OF conjunct1 [OF links] run(2)]
  then have h2: "healthy s2" by simp
  have "kv_value s2 (name_key m) = kv_value s (name_key m)" for m
    using links overs by (simp add: key_kinds_all key_prefixes keys_under_def case_prod_unfold)
  then have own: "own_index C i n s2 k \<longleftrightarrow> own_index C i n s k" for n k
    by (auto simp: own_index_def)
  obtain names where names: "s3 = kv_without names s2" "\<And>k. k \<in> set names \<longleftrightarrow> own_index C i (au_display_name user) s k"
    using unindex_run [OF h2, of C i "au_display_name user"] run(3) by (auto simp: own)
  have t: "t = s3\<lparr>kv_map := bt_delete (user_key C i) (kv_map s3)\<rparr>"
    using run(4) names(1) h2 by (simp add: op_simps)
  show "\<exists>user. stored (uc_user C) s (user_key C i) = Some user \<and> healthy t \<and>
      (\<forall>k. kv_value t k =
        (if k = user_key C i \<or> own_index C i (au_display_name user) s k \<or>
            (\<exists>(p, j, u) \<in> set (triples_to C i s (keys_under ''link/'' s)). overlay_key p j u k) \<or>
            k \<in> set (keys_under ''link/'' s) \<and> aims_at C i s k
         then None else kv_value s k))"
    using names h2 links overs user by (intro exI [of _ user]) (simp add: t kv_value_without)
qed

lemma deleted_overlay:
  assumes "records_ok C (kv_map s)" and "healthy s" and pl: "plain_triple p' j' u'" "plain c"
  shows "(\<exists>(p, j, u) \<in> set (triples_to C i s (keys_under ''link/'' s)). overlay_key p j u (context_key p' j' c u')) \<longleftrightarrow>
    aims_at C i s (link_key p' j' u')"
proof -
  let ?trips = "triples_to C i s (keys_under ''link/'' s)"
  have pt: "plain_triple p j u" if "(p, j, u) \<in> set ?trips" for p j u
    using that stored_link_at [OF assms(1)] by (auto simp: set_triples_to keys_under_def link_at_def)
  have "(\<exists>(p, j, u) \<in> set ?trips. overlay_key p j u (context_key p' j' c u')) \<longleftrightarrow> (p', j', u') \<in> set ?trips"
    using overlay_key_iff [OF pt pl] by force
  then show ?thesis using aims_at_triples [OF assms(1,2) pl(1)] by simp
qed

text \<open>C40. On a service that does not fail, deleting a user removes its record, the links that lead to it and their
  overlays, and the index entry of its display name when that entry leads to it. Every other record stays: the users,
  links and overlays of others, and every other entry of the name index, also one under the user's display name that
  leads to someone else.\<close>

theorem delete_user_cascade:
  assumes "users_codec_ok C" and "records_ok C (kv_map s)" and "healthy s" and "delete_user C i s = (Ok b, t)"
  shows "get_user C i t = (Ok None, t) \<and>
    (\<forall>j. j \<noteq> i \<longrightarrow> kv_value t (user_key C j) = kv_value s (user_key C j)) \<and>
    (\<forall>p j u. plain_triple p j u \<longrightarrow> kv_value t (link_key p j u) =
       (if b \<and> aims_at C i s (link_key p j u) then None else kv_value s (link_key p j u))) \<and>
    (\<forall>p j c u. plain_triple p j u \<and> plain c \<longrightarrow> kv_value t (context_key p j c u) =
       (if b \<and> aims_at C i s (link_key p j u) then None else kv_value s (context_key p j c u))) \<and>
    (\<forall>n. kv_value t (name_key n) =
       (if b \<and> kv_value s (name_key n) = Some (uc_uuid C i) \<and>
            (\<exists>user m. stored (uc_user C) s (user_key C i) = Some user \<and> au_display_name user = Some m \<and> n = trim m)
        then None else kv_value s (name_key n)))"
proof (cases b)
  case False
  with delete_user_run [OF assms(3,4)] assms(3,4) have "t = s" "stored (uc_user C) s (user_key C i) = None"
    "readable (uc_user C) s (user_key C i)"
    by (auto simp: delete_user_def op_bind_Ok_iff get_user_Ok_iff)
  with False assms(3) show ?thesis by (simp add: get_user_Ok_iff)
next
  case True
  let ?trips = "triples_to C i s (keys_under ''link/'' s)"
  obtain user where n: "healthy t" "stored (uc_user C) s (user_key C i) = Some user" and t: "\<And>k. kv_value t k =
      (if k = user_key C i \<or> own_index C i (au_display_name user) s k \<or> (\<exists>(p, j, u) \<in> set ?trips. overlay_key p j u k) \<or>
          k \<in> set (keys_under ''link/'' s) \<and> aims_at C i s k
       then None else kv_value s k)"
    using delete_user_run(3) [OF assms(3,4) True] by blast
  have names: "\<not> own_index C i m s (user_key C j)" "\<not> own_index C i m s (link_key p k u)"
    "\<not> own_index C i m s (context_key p k c u)" for m j p k c u
    by (auto simp: own_index_def key_kinds_all)
  have under: "user_key C j \<notin> set (keys_under ''link/'' s)" "context_key p k c u \<notin> set (keys_under ''link/'' s)" for j p k c u
    by (simp_all add: keys_under_def key_prefixes)
  note over = deleted_overlay [OF assms(2,3)]
  have link: "aims_at C i s k \<Longrightarrow> prefix ''link/'' k \<Longrightarrow> k \<in> set (keys_under ''link/'' s)" for k
    by (intro set_keys_under [OF assms(3)]) (auto simp: aims_at_def dest: stored_present(1))
  have "kv_value t (user_key C i) = None" by (simp add: t)
  then have "get_user C i t = (Ok None, t)"
    using n(1) by (simp add: get_user_Ok_iff readable_def stored_def)
  moreover have "j \<noteq> i \<Longrightarrow> kv_value t (user_key C j) = kv_value s (user_key C j)" for j
    by (simp add: t names under user_key_inj [OF assms(1)] split: prod.splits)
  moreover have "kv_value t (link_key p j u) =
      (if b \<and> aims_at C i s (link_key p j u) then None else kv_value s (link_key p j u))" for p j u
    using link [of "link_key p j u"] by (simp add: t True names key_kinds_all key_prefixes case_prod_unfold)
  moreover have "kv_value t (context_key p j c u) =
      (if b \<and> aims_at C i s (link_key p j u) then None else kv_value s (context_key p j c u))"
    if "plain_triple p j u" "plain c" for p j c u
    using over [OF that] by (simp add: t True names under key_kinds_all)
  moreover have "kv_value t (name_key m) = (if b \<and> kv_value s (name_key m) = Some (uc_uuid C i) \<and>
      (\<exists>user l. stored (uc_user C) s (user_key C i) = Some user \<and> au_display_name user = Some l \<and> m = trim l)
      then None else kv_value s (name_key m))" for m
    using True n(2)
    by (auto simp: t own_index_def name_key_def [of m] name_key_def key_kinds_all keys_under_def key_prefixes
        user_key_def overlay_key_def context_prefix_for_link_bucket_def)
  ultimately show ?thesis by blast
qed

section \<open>Examples\<close>

definition demo_calls :: "(users_call \<times> string option list) list" where
  "demo_calls = [(CreateUser 7 ''now'' (Some ''bob''), []),
     (LinkAccount ''now'' ''IRC '' None ''b1'' 7 ''code'' None, []),
     (SetContext ''now'' ''IRC '' None ''b1'' ''room'' ''Bob!'', [])]"

definition demo_linked :: kv where
  "demo_linked = foldl (users_step demo_codec) \<lparr>kv_map = [], kv_faults = []\<rparr> demo_calls"

lemma demo_linked_eq: "demo_linked = \<lparr>kv_map =
    [(''context/irc/_/room/b1'', ''1''), (''link/irc/_/b1'', ''1''), (''name/bob'', demo_uuid 7),
     (''user/'' @ demo_uuid 7, ''1'')], kv_faults = []\<rparr>"
  by code_simp

lemma demo_linked_facts: "healthy demo_linked" "records_ok demo_codec (kv_map demo_linked)"
proof -
  show "healthy demo_linked" by code_simp
  show "records_ok demo_codec (kv_map demo_linked)"
    using users.inv_run [of demo_codec "\<lparr>kv_map = [], kv_faults = []\<rparr>" demo_calls] demo_codec_ok records_ok_empty
    by (simp add: demo_linked_def)
qed

theorem users_records_consistent_witness:
  "records_ok demo_codec (kv_map (foldl (users_step demo_codec) \<lparr>kv_map = [], kv_faults = []\<rparr> demo_calls)) \<and>
   kv_value demo_linked ''link/irc/_/b1'' = Some ''1''"
  using users_records_consistent [OF demo_codec_ok, of demo_calls] by (simp add: demo_linked_eq kv_value_def bt_get_def)

theorem unlink_cascade_witness:
  "\<exists>t. users_unlink ''IRC '' None ''b1'' demo_linked = (Ok True, t) \<and>
     kv_value t (context_key ''irc'' None ''room'' ''b1'') = None"
proof -
  obtain r t where u: "users_unlink ''IRC '' None ''b1'' demo_linked = (r, t)" by fastforce
  have "fst (users_unlink ''IRC '' None ''b1'' demo_linked) = Ok True" by code_simp
  with u have "r = Ok True" by simp
  with u unlink_cascade [OF demo_linked_facts(1), of "''IRC ''" None "''b1''" True t] show ?thesis
    by (simp add: demo_triple(2) plain_triple_def plain_def instance_segment_def instance_none_sentinel_def)
qed

theorem delete_user_cascade_witness:
  "\<exists>t. delete_user demo_codec 7 demo_linked = (Ok True, t) \<and> get_user demo_codec 7 t = (Ok None, t) \<and>
     kv_value t (name_key ''bob'') = None"
proof -
  obtain r t where u: "delete_user demo_codec 7 demo_linked = (r, t)" by fastforce
  have "fst (delete_user demo_codec 7 demo_linked) = Ok True" by code_simp
  with u have "r = Ok True" by simp
  have stored: "kv_value demo_linked (name_key ''bob'') = Some (uc_uuid demo_codec 7)"
    "stored (uc_user demo_codec) demo_linked (user_key demo_codec 7) = Some demo_user"
    by (simp_all add: stored_def kv_value_def demo_linked_eq bt_get_def name_key_def user_key_def demo_codec_def one_record_def
        demo_uuid_def)
  have name: "au_display_name demo_user = Some ''bob''" "trim ''bob'' = ''bob''" by code_simp+
  from u \<open>r = Ok True\<close> delete_user_cascade [OF demo_codec_ok demo_linked_facts(2,1), of 7 True t] stored name
  show ?thesis by auto
qed

text \<open>
  Reading the users page by page: a client that follows the cursors reads every user exactly once, and what
  happens with a page size of zero.
\<close>

section \<open>Following the cursors\<close>

text \<open>A client of \<open>list_users_paginated\<close>: it passes each page's cursor to the next request.\<close>

fun read_pages :: "nat \<Rightarrow> users_codec \<Rightarrow> string option \<Rightarrow> nat option \<Rightarrow> astrid_user list option users_op" where
  "read_pages 0 C cursor limit = op_return None"
| "read_pages (Suc fuel) C cursor limit =
     op_bind (list_users_paginated C cursor limit) (\<lambda>p.
     case pg_next_cursor p of
       None \<Rightarrow> op_return (Some (pg_items p))
     | Some c \<Rightarrow> op_bind (read_pages fuel C (Some c) limit) (\<lambda>rest. op_return (map_option ((@) (pg_items p)) rest)))"

lemma page_start_last:
  fixes keys :: "string list"
  assumes "sorted_wrt (<) keys" and "0 < n" and "n \<le> length keys"
  shows "page_start (Some (keys ! (n - 1))) keys = n"
proof -
  let ?c = "keys ! (n - 1)"
  have low: "\<not> keys ! i > ?c" if "i < n" for i
  proof (cases "i = n - 1")
    case False
    with that assms sorted_wrt_nth_less [OF assms(1), of i "n - 1"] have "keys ! i < ?c" by auto
    then show ?thesis by simp
  qed simp
  have high: "keys ! i > ?c" if "n \<le> i" "i < length keys" for i
    using that assms sorted_wrt_nth_less [OF assms(1), of "n - 1" i] by auto
  have "takeWhile (\<lambda>k. \<not> k > ?c) keys = take n keys"
    using assms(3) low high by (intro takeWhile_eq_take_P_nth) auto
  then show ?thesis using assms(3) by (simp add: page_start_def)
qed

lemma drop_window: "a \<le> b \<Longrightarrow> drop a xs = drop a (take b xs) @ drop b xs"
  using append_take_drop_id [of "b - a" "drop a xs"] by (simp add: drop_take)

lemma sort_keys_under: "healthy s \<Longrightarrow> sort (keys_under p s) = keys_under p s"
  using sorted_keys_under [of s p] by (simp add: sorted_sort_id strict_sorted_iff)

definition found_users :: "users_codec \<Rightarrow> kv \<Rightarrow> string list \<Rightarrow> astrid_user list" where
  "found_users C s keys = List.map_filter (stored (uc_user C) s) keys"

lemma found_users_append: "found_users C s (xs @ ys) = found_users C s xs @ found_users C s ys"
  by (simp add: found_users_def List.map_filter_def)

lemma page_run:
  assumes "healthy s" and "\<forall>k \<in> set (keys_under ''user/'' s). readable (uc_user C) s k"
    and "keys = keys_under ''user/'' s" and "start = page_start cursor keys" and "stop = page_end limit start (length keys)"
  shows "list_users_paginated C cursor limit s =
    (if stop < length keys \<and> stop = 0 then (Err Panics, s)
     else (Ok \<lparr>pg_items = found_users C s (drop start (take stop keys)),
       pg_next_cursor = (if stop < length keys then Some (keys ! (stop - 1)) else None)\<rparr>, s))"
proof -
  have "sort keys = keys" using sort_keys_under [OF assms(1)] by (simp add: assms(3))
  moreover have "kv_list_keys Storage ''user/'' s = (Ok keys, s)"
    using assms(1) by (simp add: op_simps assms(3) keys_under_def)
  moreover have "op_each (get_json (uc_user C)) (drop start (take stop keys)) s =
      (Ok (map (stored (uc_user C) s) (drop start (take stop keys))), s)"
    using assms(2) get_json_each [OF assms(1)] assms(3) by (metis in_set_dropD in_set_takeD)
  ultimately show ?thesis
    by (simp add: list_users_paginated_def Let_def op_simps assms(4,5) next_cursor_def
        found_users_def List.map_filter_def comp_def filter_map)
qed

lemma read_pages_from:
  assumes h: "healthy s" and r: "\<forall>k \<in> set (keys_under ''user/'' s). readable (uc_user C) s k" and l: "limit \<noteq> Some 0"
    and "page_start cursor (keys_under ''user/'' s) = start" and "start \<le> length (keys_under ''user/'' s)"
    and "length (keys_under ''user/'' s) - start < fuel"
  shows "read_pages fuel C cursor limit s = (Ok (Some (found_users C s (drop start (keys_under ''user/'' s)))), s)"
  using assms(4-)
proof (induction fuel arbitrary: cursor start)
  case (Suc fuel)
  let ?keys = "keys_under ''user/'' s"
  let ?stop = "page_end limit start (length ?keys)"
  have stop: "?stop \<le> length ?keys" "?stop < length ?keys \<Longrightarrow> start < ?stop" "start \<le> ?stop"
    using l Suc.prems(2) by (auto simp: page_end_def Let_def default_list_limit_def max_list_limit_def split: option.splits)
  note page = page_run [OF h r refl Suc.prems(1) [symmetric] refl, of limit]
  show ?case
  proof (cases "?stop < length ?keys")
    case True
    have "page_start (Some (?keys ! (?stop - 1))) ?keys = ?stop"
      using stop True by (intro page_start_last sorted_keys_under [OF h]) auto
    then have "read_pages fuel C (Some (?keys ! (?stop - 1))) limit s =
        (Ok (Some (found_users C s (drop ?stop ?keys))), s)"
      using Suc.prems stop True by (intro Suc.IH) auto
    moreover have "drop start ?keys = drop start (take ?stop ?keys) @ drop ?stop ?keys"
      by (rule drop_window [OF stop(3)])
    ultimately show ?thesis
      using page stop True by (simp add: op_simps found_users_append)
  next
    case False
    with page stop show ?thesis by (simp add: op_simps)
  qed
qed simp

text \<open>Pages cover the users exactly: a client that follows the cursors from the first page on, with any page size
  but zero, gets every stored user once, in the order of the keys, and then stops.\<close>

lemma pages_read_all_users:
  assumes "healthy s" and "\<forall>k \<in> set (keys_under ''user/'' s). readable (uc_user C) s k" and "limit \<noteq> Some 0"
    and "length (keys_under ''user/'' s) < fuel"
  shows "read_pages fuel C None limit s =
    (Ok (Some (List.map_filter (stored (uc_user C) s) (keys_under ''user/'' s))), s)"
  using read_pages_from [OF assms(1-3), of None 0 fuel] assms(4) by (simp add: page_start_def found_users_def)

section \<open>A page of size zero\<close>

text \<open>A request for a page of size zero without a cursor panics as soon as one user is stored: the cursor of the
  empty page is looked up before the first key.\<close>

theorem page_of_size_zero_panics:
  assumes "healthy s" and "keys_under ''user/'' s \<noteq> []"
  shows "list_users_paginated C None (Some 0) s = (Err Panics, s)"
  using assms by (simp add: list_users_paginated_def op_simps page_start_def page_end_def Let_def next_cursor_def
      keys_under_def [symmetric] sort_keys_under)

section \<open>Examples\<close>

lemma demo_user_keys: "keys_under ''user/'' demo_linked = [''user/'' @ demo_uuid 7]"
  by (simp add: keys_under_def bt_keys_def demo_linked_eq)

lemma demo_user_value:
  "readable (uc_user demo_codec) demo_linked (''user/'' @ demo_uuid 7)"
  "stored (uc_user demo_codec) demo_linked (''user/'' @ demo_uuid 7) = Some demo_user"
  by (simp_all add: readable_def stored_def kv_value_def bt_get_def demo_linked_eq demo_codec_def one_record_def is_ok_iff)

lemma pages_read_all_users_witness:
  "read_pages 2 demo_codec None (Some 1) demo_linked = (Ok (Some [demo_user]), demo_linked)"
  using pages_read_all_users [OF demo_linked_facts(1), of demo_codec "Some 1" 2] demo_user_value
  by (simp add: demo_user_keys List.map_filter_def)

theorem page_of_size_zero_panics_witness:
  "list_users_paginated demo_codec None (Some 0) demo_linked = (Err Panics, demo_linked)"
  using page_of_size_zero_panics [OF demo_linked_facts(1)] by (simp add: demo_user_keys)

end
