(* ===== verification/Workspace_Policy.thy ===== *)
theory Workspace_Policy
  imports Recipe_Store
begin

text \<open>
  \<open>capsules/capsule-workspace-recipes/src/policy.rs\<close>: who may change an owner's documents (grants), which names
  may become part of a storage key, and the scan that keeps capabilities, paths and secrets out of what is
  stored. The scan reads the canonical JSON of a document, so it is a function of the document's serialization.
\<close>

section \<open>Grants\<close>

record grant_record =
  gr_owner :: opaque_owner_ref
  gr_authorized_actor :: opaque_principal_ref
  gr_generation :: u64
  gr_revoked :: bool

type_synonym grant_directory = "(string, grant_record) btree_map"

record grant_proof =
  gp_grant_id :: string
  gp_generation :: u64

record owner_context =
  oc_owner :: opaque_owner_ref
  oc_acting_principal :: opaque_principal_ref
  oc_grant :: grant_proof

datatype policy_error = AuthorizationDenied | InvalidGrant | ForbiddenContent

definition directory_insert :: "grant_directory \<Rightarrow> string \<Rightarrow> grant_record \<Rightarrow> grant_directory" where
  "directory_insert grants grant_id entry = bt_insert grant_id entry grants"

definition key_id_char :: "char \<Rightarrow> bool" where
  "key_id_char c \<longleftrightarrow> is_ascii_alphanumeric c \<or> c \<in> set ''.-_:''"

definition valid_key_id :: "string \<Rightarrow> bool" where
  "valid_key_id value \<longleftrightarrow> value \<noteq> [] \<and> length value \<le> 128 \<and> \<not> contains_str value ''..'' \<and>
     list_all key_id_char value"

definition directory_authorize :: "grant_directory \<Rightarrow> grant_proof \<Rightarrow> opaque_owner_ref \<Rightarrow> opaque_principal_ref
    \<Rightarrow> policy_error + unit" where
  "directory_authorize grants proof expected_owner expected_actor =
     (if \<not> valid_key_id (gp_grant_id proof) \<or> gp_generation proof = 0 then Err InvalidGrant
      else case bt_get grants (gp_grant_id proof) of
        None \<Rightarrow> Err AuthorizationDenied
      | Some grant \<Rightarrow>
          if gr_revoked grant \<or> gr_generation grant \<noteq> gp_generation proof \<or>
             gr_owner grant \<noteq> expected_owner \<or> gr_authorized_actor grant \<noteq> expected_actor
          then Err AuthorizationDenied else Ok ())"

text \<open>What a proof needs to be accepted: a live grant of exactly this generation, owner and actor.\<close>

definition grants_actor :: "grant_directory \<Rightarrow> owner_context \<Rightarrow> bool" where
  "grants_actor grants ctx \<longleftrightarrow> (\<exists>grant. bt_get grants (gp_grant_id (oc_grant ctx)) = Some grant \<and>
     \<not> gr_revoked grant \<and> gr_generation grant = gp_generation (oc_grant ctx) \<and>
     gr_owner grant = oc_owner ctx \<and> gr_authorized_actor grant = oc_acting_principal ctx)"

lemma directory_authorize_Ok_iff:
  "directory_authorize grants (oc_grant ctx) (oc_owner ctx) (oc_acting_principal ctx) = Ok u \<longleftrightarrow>
     valid_key_id (gp_grant_id (oc_grant ctx)) \<and> gp_generation (oc_grant ctx) \<noteq> 0 \<and> grants_actor grants ctx"
  by (auto simp: directory_authorize_def grants_actor_def split: option.splits)

section \<open>Forbidden content\<close>

definition forbidden_keys :: "string list" where
  "forbidden_keys = [
    ''access_token'', ''api_key'', ''argv'', ''aos.surface'', ''authorization'', ''bearer'', ''cookie'',
    ''credential'', ''current_surface'', ''dom'', ''env'', ''file_descriptor'', ''function_call'',
    ''grant_token'', ''handle'', ''home'', ''host_path'', ''html'', ''incarnation'', ''mount'',
    ''password'', ''path'', ''pid'', ''pixels'', ''renderer'', ''screenshot'', ''secret'', ''socket'',
    ''surface_id'', ''token'', ''xdg'']"

definition forbidden_values :: "string list" where
  "forbidden_values = [
    ''aos.surface@1'', ''bearer '', ''file://'', ''function-call'', ''ghp_'', ''home://'', ''tmp://'',
    ''workspace://'', ''/users/'', ''$home'', ''-----begin'']"

definition squeezed :: "string \<Rightarrow> string" where
  "squeezed s = filter (\<lambda>c. c \<notin> set ''-_ .'') s"

definition forbidden_key :: "string \<Rightarrow> bool" where
  "forbidden_key key \<longleftrightarrow>
     (let normalized = squeezed (to_ascii_lowercase key)
      in list_ex (\<lambda>candidate. normalized = candidate \<or> suffix candidate normalized) (map squeezed forbidden_keys))"

definition forbidden_value :: "string \<Rightarrow> bool" where
  "forbidden_value value \<longleftrightarrow>
     (let normalized = to_ascii_lowercase value
      in list_ex (\<lambda>candidate. contains_str normalized candidate) forbidden_values)"

fun scan_json :: "canonical_json \<Rightarrow> policy_error + unit"
and scan_array :: "canonical_json list \<Rightarrow> policy_error + unit"
and scan_object :: "(string \<times> canonical_json) list \<Rightarrow> policy_error + unit" where
  "scan_json (CArray values) = scan_array values"
| "scan_json (CObject entries) = scan_object entries"
| "scan_json (CString s) = (if forbidden_value s then Err ForbiddenContent else Ok ())"
| "scan_json CNull = Ok ()"
| "scan_json (CBool _) = Ok ()"
| "scan_json (CNumber _) = Ok ()"
| "scan_array [] = Ok ()"
| "scan_array (v # vs) = and_then (scan_json v) (\<lambda>_. scan_array vs)"
| "scan_object [] = Ok ()"
| "scan_object ((key, child) # rest) =
     (if forbidden_key key then Err ForbiddenContent
      else and_then (scan_json child) (\<lambda>_. scan_object rest))"

definition scan_for_forbidden_content :: "host \<Rightarrow> raw_json \<Rightarrow> policy_error + unit" where
  "scan_for_forbidden_content H value =
     and_then (map_err (\<lambda>_. ForbiddenContent) (canonical_bytes H value)) (\<lambda>bytes.
     and_then (map_err (\<lambda>_. ForbiddenContent)
       (and_then (ok_or JsonSyntax (serde_from_slice H bytes)) visit)) scan_json)"

section \<open>What the scan accepts\<close>

text \<open>The keys and the texts of a JSON value, at any depth.\<close>

fun document_keys :: "canonical_json \<Rightarrow> string set" where
  "document_keys (CArray vs) = (\<Union>v \<in> set vs. document_keys v)"
| "document_keys (CObject m) = (\<Union>(k, v) \<in> set m. insert k (document_keys v))"
| "document_keys _ = {}"

fun document_texts :: "canonical_json \<Rightarrow> string set" where
  "document_texts (CString s) = {s}"
| "document_texts (CArray vs) = (\<Union>v \<in> set vs. document_texts v)"
| "document_texts (CObject m) = (\<Union>(k, v) \<in> set m. document_texts v)"
| "document_texts _ = {}"

definition harmless :: "canonical_json \<Rightarrow> bool" where
  "harmless v \<longleftrightarrow> (\<forall>k \<in> document_keys v. \<not> forbidden_key k) \<and> (\<forall>s \<in> document_texts v. \<not> forbidden_value s)"

lemma scan_Ok_iff:
  "scan_json v = Ok u \<longleftrightarrow> harmless v"
  "scan_array vs = Ok u \<longleftrightarrow> (\<forall>v \<in> set vs. harmless v)"
  "scan_object m = Ok u \<longleftrightarrow> (\<forall>(k, v) \<in> set m. \<not> forbidden_key k \<and> harmless v)"
  by (induction v and vs and m rule: scan_json_scan_array_scan_object.induct)
     (auto simp: harmless_def result_simps)

lemma scanned_document:
  assumes "scan_for_forbidden_content H j = Ok u"
  obtains bytes v where "canonical_bytes H j = Ok bytes"
    and "and_then (ok_or JsonSyntax (serde_from_slice H bytes)) visit = Ok v" and "harmless v"
  using assms by (auto simp: scan_for_forbidden_content_def result_simps scan_Ok_iff)

lemma key_id_no_slash: "valid_key_id s \<Longrightarrow> CHR ''/'' \<notin> set s"
  by (auto simp: valid_key_id_def list_all_iff key_id_char_def is_ascii_alphanumeric_def)

text \<open>
  \<open>capsules/capsule-workspace-recipes/src/documents.rs\<close>: what the backend keeps on disk, with the serialization
  of recipes, patches and activities that their \<open>derive(Serialize)\<close> gives. The derived deserializers are
  third-party code applied to the declarations: they are the fields of the parameter \<open>workspace_host\<close>.
\<close>

section \<open>Documents\<close>

record revision_envelope =
  re_recipe :: recipe
  re_patch :: "patch option"

record current_pointer =
  cp_revision :: u64
  cp_recipe_digest :: string

record activity_pointer =
  ap_activity_digest :: string

record journal_record =
  jr_patch_id :: string
  jr_recipe_id :: string
  jr_revision :: u64
  jr_recipe_digest :: string
  jr_intent_digest :: string

record conflict_record =
  cr_current_revision :: u64
  cr_current_recipe_digest :: string
  cr_incoming_patch_id :: string
  cr_incoming_base_revision :: u64
  cr_incoming_base_digest :: string

section \<open>Serialization\<close>

fun principal_json :: "opaque_principal_ref \<Rightarrow> raw_json" where
  "principal_json (PrincipalUser i) = RObj [(''kind'', RStr ''user''), (''id'', RStr i)]"
| "principal_json (PrincipalAgent i) = RObj [(''kind'', RStr ''agent''), (''id'', RStr i)]"
| "principal_json (PrincipalService i) = RObj [(''kind'', RStr ''service''), (''id'', RStr i)]"

text \<open>The members of a flattened \<open>BindingSet\<close>.\<close>

definition binding_members :: "binding_set \<Rightarrow> (string \<times> raw_json) list" where
  "binding_members bs = (case binding_set_json bs of RObj ms \<Rightarrow> ms | _ \<Rightarrow> [])"

definition recipe_json :: "recipe \<Rightarrow> raw_json" where
  "recipe_json r = RObj ([
     (''schema'', RStr (rcp_schema r)), (''owner_ref'', owner_json (rcp_owner_ref r)),
     (''recipe_id'', RStr (rcp_recipe_id r)), (''revision'', RU64 (rcp_revision r))] @
     optional_member ''parent_revision'' (map_option RU64 (rcp_parent_revision r)) @
     (if rcp_parent_digest r = [] then [] else [(''parent_digest'', RStr (rcp_parent_digest r))]) @ [
     (''digest'', RStr (rcp_digest r)), (''theme_id'', RStr (rcp_theme_id r)),
     (''metadata'', props_json (rcp_metadata r)), (''root'', node_json (rcp_root r))] @
     binding_members (rcp_bindings r))"

definition surface_pointer_json :: "surface_pointer \<Rightarrow> raw_json" where
  "surface_pointer_json p =
     RObj [(''surface_id'', RStr (sp_surface_id p)), (''incarnation'', RU64 (sp_incarnation p))]"

definition activity_json :: "activity \<Rightarrow> raw_json" where
  "activity_json a = RObj ([
     (''schema'', RStr (act_schema a)), (''activity_id'', RStr (act_activity_id a)),
     (''owner_ref'', owner_json (act_owner_ref a)), (''title'', RStr (act_title a)),
     (''recipe_id'', RStr (act_recipe_id a))] @
     binding_members (act_bindings a) @
     optional_member ''current_surface'' (map_option surface_pointer_json (act_current_surface a)))"

definition patch_json :: "patch \<Rightarrow> raw_json" where
  "patch_json p = RObj [
     (''schema'', RStr (pat_schema p)), (''owner_ref'', owner_json (pat_owner_ref p)),
     (''acting_principal'', principal_json (pat_acting_principal p)),
     (''proposal_id'', RStr (pat_proposal_id p)),
     (''review'', RObj [(''reviewer'', principal_json (rv_reviewer (pat_review p))),
        (''receipt'', RStr (rv_receipt (pat_review p)))]),
     (''patch_id'', RStr (pat_patch_id p)), (''recipe_id'', RStr (pat_recipe_id p)),
     (''base_revision'', RU64 (pat_base_revision p)), (''base_digest'', RStr (pat_base_digest p)),
     (''summary'', RStr (pat_summary p)), (''operations'', RArr (map patch_op_json (pat_operations p)))]"

definition envelope_json :: "revision_envelope \<Rightarrow> raw_json" where
  "envelope_json e = RObj [(''recipe'', recipe_json (re_recipe e)),
     (''patch'', (case re_patch e of None \<Rightarrow> RNull | Some p \<Rightarrow> patch_json p))]"

section \<open>Parameters\<close>

text \<open>\<open>wh_envelope\<close> and \<open>wh_activity\<close> are \<open>serde_json::from_slice\<close> on the derived \<open>Deserialize\<close> instances,
  their \<open>TryFrom\<close> conversions included.\<close>

record workspace_host =
  wh_json :: host
  wh_envelope :: "string \<Rightarrow> revision_envelope option"
  wh_activity :: "string \<Rightarrow> activity option"

definition read_envelope :: "workspace_host \<Rightarrow> string \<Rightarrow> json_error + revision_envelope" where
  "read_envelope W bytes = parse_canonical (wh_json W) (wh_envelope W) bytes"

definition read_activity_document :: "workspace_host \<Rightarrow> string \<Rightarrow> json_error + activity" where
  "read_activity_document W bytes = parse_canonical (wh_json W) (wh_activity W) bytes"

section \<open>Structural equality of recipes\<close>

definition recipe_eq :: "recipe \<Rightarrow> recipe \<Rightarrow> bool" where
  "recipe_eq r q \<longleftrightarrow> rcp_schema r = rcp_schema q \<and> rcp_owner_ref r = rcp_owner_ref q \<and>
     rcp_recipe_id r = rcp_recipe_id q \<and> rcp_revision r = rcp_revision q \<and>
     rcp_parent_revision r = rcp_parent_revision q \<and> rcp_parent_digest r = rcp_parent_digest q \<and>
     rcp_digest r = rcp_digest q \<and> rcp_theme_id r = rcp_theme_id q \<and>
     props_eq (rcp_metadata r) (rcp_metadata q) \<and> node_eq (rcp_root r) (rcp_root q) \<and>
     rcp_bindings r = rcp_bindings q"

end
