(* ===== verification/Workspace_Backend.thy ===== *)
theory Workspace_Backend
  imports Workspace_Policy Grant_Decision
begin

text \<open>
  \<open>capsules/capsule-workspace-recipes/src/backend.rs\<close>: the storage of the service, maps from textual keys to
  bytes and records. An operation that changes the storage may be told to crash once it has completed
  (\<open>fail_after\<close>); the storage keeps what was written.
\<close>

section \<open>State\<close>

datatype commit_stage = StageObject | StageRevision | StagePointer | StageJournal

datatype backend_error = CasMismatch | HashCollision | BackendCorrupt | BackendCrash commit_stage

record fixture_backend =
  be_objects :: "(string, string) btree_map"
  be_revisions :: "(string, string) btree_map"
  be_pointers :: "(string, current_pointer) btree_map"
  be_journals :: "(string, journal_record) btree_map"
  be_activity_objects :: "(string, string) btree_map"
  be_activity_pointers :: "(string, activity_pointer) btree_map"
  be_conflicts :: "(string, conflict_record) btree_map"
  be_quarantine :: "(string, string) btree_map"
  be_fail_after :: "commit_stage option"

definition backend_default :: fixture_backend where
  "backend_default = \<lparr>be_objects = [], be_revisions = [], be_pointers = [], be_journals = [],
     be_activity_objects = [], be_activity_pointers = [], be_conflicts = [], be_quarantine = [],
     be_fail_after = None\<rparr>"

section \<open>Keys\<close>

record recipe_location =
  loc_scope :: string
  loc_recipe_id :: string

definition object_key :: "string \<Rightarrow> string" where
  "object_key recipe_digest = ''object/'' @ recipe_digest"

definition revision_key :: "recipe_location \<Rightarrow> u64 \<Rightarrow> string" where
  "revision_key l n = ''revision/'' @ loc_scope l @ ''/'' @ loc_recipe_id l @ ''/'' @ show_nat (unat n)"

definition pointer_key :: "recipe_location \<Rightarrow> string" where
  "pointer_key l = ''pointer/'' @ loc_scope l @ ''/'' @ loc_recipe_id l @ ''/current''"

definition journal_key :: "recipe_location \<Rightarrow> string \<Rightarrow> string" where
  "journal_key l patch_id = ''journal/'' @ loc_scope l @ ''/'' @ loc_recipe_id l @ ''/'' @ patch_id"

definition conflict_key :: "recipe_location \<Rightarrow> string \<Rightarrow> string" where
  "conflict_key l patch_id = ''conflict/'' @ loc_scope l @ ''/'' @ loc_recipe_id l @ ''/'' @ patch_id"

definition activity_object_key :: "string \<Rightarrow> string" where
  "activity_object_key activity_digest = ''activity/'' @ activity_digest"

definition activity_pointer_key :: "string \<Rightarrow> string \<Rightarrow> string" where
  "activity_pointer_key scope activity_id = ''activity-pointer/'' @ scope @ ''/'' @ activity_id"

text \<open>\<open>digest_parts(&owner_json)\<close>: bytes serialize as an array of numbers; the result is \<open>expect\<close>ed.\<close>

definition bytes_json :: "string \<Rightarrow> raw_json" where
  "bytes_json bytes = RArr (map (\<lambda>c. RU64 (of_nat (of_char c))) bytes)"

definition scope_key :: "host \<Rightarrow> string \<Rightarrow> string option" where
  "scope_key H owner_bytes = (case digest_parts H (bytes_json owner_bytes) of Err _ \<Rightarrow> None | Ok d \<Rightarrow> Some d)"

definition rsplit_once :: "char \<Rightarrow> string \<Rightarrow> (string \<times> string) option" where
  "rsplit_once d s = map_option (\<lambda>(a, b). (rev b, rev a)) (split_once d (rev s))"

definition strip_suffix_str :: "string \<Rightarrow> string \<Rightarrow> string option" where
  "strip_suffix_str p s = map_option rev (strip_prefix_str (rev p) (rev s))"

definition referenced_revision_keys :: "string \<Rightarrow> (string \<times> string \<times> u64) set \<Rightarrow> bool" where
  "referenced_revision_keys key referenced =
     (case strip_prefix_str ''revision/'' key of None \<Rightarrow> False | Some remainder \<Rightarrow>
      case split_once (CHR ''/'') remainder of None \<Rightarrow> False | Some (scope, tail) \<Rightarrow>
      case rsplit_once (CHR ''/'') tail of None \<Rightarrow> False | Some (recipe_id, revision) \<Rightarrow>
      case parse_u64 revision of None \<Rightarrow> False | Some n \<Rightarrow> (scope, recipe_id, n) \<in> referenced)"

section \<open>Writing\<close>

definition clear_fault :: "fixture_backend \<Rightarrow> fixture_backend" where
  "clear_fault B = B\<lparr>be_fail_after := None\<rparr>"

definition set_fail_after :: "fixture_backend \<Rightarrow> commit_stage \<Rightarrow> fixture_backend" where
  "set_fail_after B stage = B\<lparr>be_fail_after := Some stage\<rparr>"

definition crash_if_requested :: "fixture_backend \<Rightarrow> commit_stage \<Rightarrow> fixture_backend \<times> (backend_error + unit)" where
  "crash_if_requested B completed =
     (if be_fail_after B = Some completed then (B\<lparr>be_fail_after := None\<rparr>, Err (BackendCrash completed))
      else (B, Ok ()))"

definition put_object_once :: "fixture_backend \<Rightarrow> string \<Rightarrow> string \<Rightarrow> fixture_backend \<times> (backend_error + unit)" where
  "put_object_once B recipe_digest recipe_bytes =
     (let key = object_key recipe_digest in
      case bt_get (be_objects B) key of
        Some existing \<Rightarrow>
          if existing \<noteq> recipe_bytes then (B, Err HashCollision) else crash_if_requested B StageObject
      | None \<Rightarrow> crash_if_requested (B\<lparr>be_objects := bt_insert key recipe_bytes (be_objects B)\<rparr>) StageObject)"

definition put_revision_once :: "host \<Rightarrow> fixture_backend \<Rightarrow> recipe_location \<Rightarrow> u64 \<Rightarrow> revision_envelope
    \<Rightarrow> fixture_backend \<times> (backend_error + unit)" where
  "put_revision_once H B l revision envelope =
     (let key = revision_key l revision in
      case canonical_bytes H (envelope_json envelope) of Err _ \<Rightarrow> (B, Err BackendCorrupt) | Ok bytes \<Rightarrow>
      case bt_get (be_revisions B) key of
        Some existing \<Rightarrow>
          if existing \<noteq> bytes then (B, Err HashCollision) else crash_if_requested B StageRevision
      | None \<Rightarrow> crash_if_requested (B\<lparr>be_revisions := bt_insert key bytes (be_revisions B)\<rparr>) StageRevision)"

definition cas_current :: "fixture_backend \<Rightarrow> recipe_location \<Rightarrow> current_pointer option \<Rightarrow> current_pointer
    \<Rightarrow> fixture_backend \<times> (backend_error + unit)" where
  "cas_current B l expected next =
     (let key = pointer_key l in
      if bt_get (be_pointers B) key \<noteq> expected then (B, Err CasMismatch)
      else crash_if_requested (B\<lparr>be_pointers := bt_insert key next (be_pointers B)\<rparr>) StagePointer)"

definition put_journal_once :: "fixture_backend \<Rightarrow> recipe_location \<Rightarrow> journal_record
    \<Rightarrow> fixture_backend \<times> (backend_error + unit)" where
  "put_journal_once B l entry =
     (let key = journal_key l (jr_patch_id entry) in
      case bt_get (be_journals B) key of
        Some existing \<Rightarrow> if existing \<noteq> entry then (B, Err HashCollision) else (B, Ok ())
      | None \<Rightarrow> crash_if_requested (B\<lparr>be_journals := bt_insert key entry (be_journals B)\<rparr>) StageJournal)"

definition retain_conflict :: "fixture_backend \<Rightarrow> recipe_location \<Rightarrow> conflict_record \<Rightarrow> fixture_backend" where
  "retain_conflict B l entry =
     B\<lparr>be_conflicts := bt_insert (conflict_key l (cr_incoming_patch_id entry)) entry (be_conflicts B)\<rparr>"

definition insert_recovered_journal :: "fixture_backend \<Rightarrow> recipe_location \<Rightarrow> journal_record \<Rightarrow> fixture_backend" where
  "insert_recovered_journal B l entry =
     (let key = journal_key l (jr_patch_id entry) in
      case bt_get (be_journals B) key of
        Some _ \<Rightarrow> B
      | None \<Rightarrow> B\<lparr>be_journals := bt_insert key entry (be_journals B)\<rparr>)"

text \<open>The keys are moved in order: those of the objects first, then those of the revisions.\<close>

definition quarantine_key :: "fixture_backend \<Rightarrow> string \<Rightarrow> fixture_backend" where
  "quarantine_key B key =
     (case bt_get (be_objects B) key of
        Some bytes \<Rightarrow> B\<lparr>be_objects := bt_delete key (be_objects B),
                        be_quarantine := bt_insert key bytes (be_quarantine B)\<rparr>
      | None \<Rightarrow>
         (case bt_get (be_revisions B) key of
            Some bytes \<Rightarrow> B\<lparr>be_revisions := bt_delete key (be_revisions B),
                            be_quarantine := bt_insert key bytes (be_quarantine B)\<rparr>
          | None \<Rightarrow> B))"

definition quarantine_orphans :: "fixture_backend \<Rightarrow> string set \<Rightarrow> (string \<times> string \<times> u64) set \<Rightarrow> fixture_backend" where
  "quarantine_orphans B referenced_objects referenced_revisions =
     fold (\<lambda>key B. quarantine_key B key)
       (filter (\<lambda>key. key \<notin> referenced_objects) (bt_keys (be_objects B)) @
        filter (\<lambda>key. \<not> referenced_revision_keys key referenced_revisions) (bt_keys (be_revisions B))) B"

definition save_activity_pointer :: "fixture_backend \<Rightarrow> string \<Rightarrow> string \<Rightarrow> string \<Rightarrow> string
    \<Rightarrow> activity_pointer option \<Rightarrow> fixture_backend \<times> (backend_error + unit)" where
  "save_activity_pointer B scope activity_id activity_digest activity_bytes expected =
     (let key = activity_object_key activity_digest;
          pointer = activity_pointer_key scope activity_id in
      case (case bt_get (be_activity_objects B) key of
              Some existing \<Rightarrow> if existing \<noteq> activity_bytes then Err HashCollision else Ok B
            | None \<Rightarrow> Ok (B\<lparr>be_activity_objects := bt_insert key activity_bytes (be_activity_objects B)\<rparr>)) of
        Err e \<Rightarrow> (B, Err e)
      | Ok B' \<Rightarrow>
          if bt_get (be_activity_pointers B') pointer \<noteq> expected then (B', Err CasMismatch)
          else (B'\<lparr>be_activity_pointers :=
                  bt_insert pointer \<lparr>ap_activity_digest = activity_digest\<rparr> (be_activity_pointers B')\<rparr>, Ok ()))"

section \<open>Reading\<close>

definition retained_conflict_at :: "fixture_backend \<Rightarrow> recipe_location \<Rightarrow> string \<Rightarrow> conflict_record option" where
  "retained_conflict_at B l patch_id = bt_get (be_conflicts B) (conflict_key l patch_id)"

definition current_of :: "workspace_host \<Rightarrow> fixture_backend \<Rightarrow> recipe_location
    \<Rightarrow> backend_error + current_pointer option" where
  "current_of W B l =
     (case bt_get (be_pointers B) (pointer_key l) of
        None \<Rightarrow> Ok None
      | Some pointer \<Rightarrow>
          and_then (ok_or BackendCorrupt (bt_get (be_revisions B) (revision_key l (cp_revision pointer)))) (\<lambda>bytes.
          and_then (map_err (\<lambda>_. BackendCorrupt) (read_envelope W bytes)) (\<lambda>envelope.
          if rcp_digest (re_recipe envelope) \<noteq> cp_recipe_digest pointer then Err BackendCorrupt
          else
            and_then (ok_or BackendCorrupt
              (bt_get (be_objects B) (object_key (rcp_digest (re_recipe envelope))))) (\<lambda>object.
            and_then (map_err (\<lambda>_. BackendCorrupt)
              (canonical_bytes (wh_json W) (recipe_json (re_recipe envelope)))) (\<lambda>canonical.
            if object \<noteq> canonical then Err BackendCorrupt else Ok (Some pointer))))))"

definition quarantine_len :: "fixture_backend \<Rightarrow> nat" where
  "quarantine_len B = length (be_quarantine B)"

text \<open>\<open>None\<close> is the panic of \<open>expect("backend pointer key")\<close> and \<open>expect("backend pointer location")\<close>.\<close>

definition committed_pointer :: "string \<Rightarrow> recipe_location option" where
  "committed_pointer key =
     (case Option.bind (strip_prefix_str ''pointer/'' key) (strip_suffix_str ''/current'') of
        None \<Rightarrow> None
      | Some remainder \<Rightarrow>
          map_option (\<lambda>(scope, recipe_id). \<lparr>loc_scope = scope, loc_recipe_id = recipe_id\<rparr>)
            (split_once (CHR ''/'') remainder))"

fun parse_pointers :: "(string \<times> current_pointer) list \<Rightarrow> (recipe_location \<times> current_pointer) list option" where
  "parse_pointers [] = Some []"
| "parse_pointers ((key, pointer) # rest) =
     (case committed_pointer key of None \<Rightarrow> None | Some l \<Rightarrow>
        map_option (\<lambda>ps. (l, pointer) # ps) (parse_pointers rest))"

definition committed_pointers :: "fixture_backend \<Rightarrow> (recipe_location \<times> current_pointer) list option" where
  "committed_pointers B = parse_pointers (be_pointers B)"

definition envelope_at :: "workspace_host \<Rightarrow> fixture_backend \<Rightarrow> recipe_location \<Rightarrow> u64
    \<Rightarrow> backend_error + revision_envelope" where
  "envelope_at W B l revision =
     and_then (ok_or BackendCorrupt (bt_get (be_revisions B) (revision_key l revision))) (\<lambda>bytes.
     map_err (\<lambda>_. BackendCorrupt) (read_envelope W bytes))"

definition journal_for_recipe :: "fixture_backend \<Rightarrow> recipe_location \<Rightarrow> string \<Rightarrow> journal_record option" where
  "journal_for_recipe B l patch_id = bt_get (be_journals B) (journal_key l patch_id)"

definition activity_pointer_of :: "fixture_backend \<Rightarrow> string \<Rightarrow> string \<Rightarrow> activity_pointer option" where
  "activity_pointer_of B scope activity_id = bt_get (be_activity_pointers B) (activity_pointer_key scope activity_id)"

definition activity_bytes :: "fixture_backend \<Rightarrow> activity_pointer \<Rightarrow> backend_error + string" where
  "activity_bytes B pointer =
     ok_or BackendCorrupt (bt_get (be_activity_objects B) (activity_object_key (ap_activity_digest pointer)))"

definition object_matches :: "fixture_backend \<Rightarrow> string \<Rightarrow> string \<Rightarrow> bool" where
  "object_matches B recipe_digest bytes \<longleftrightarrow> bt_get (be_objects B) (object_key recipe_digest) = Some bytes"

end
