(* ===== verification/Workspace_Service.thy ===== *)
theory Workspace_Service
  imports Workspace_Backend
begin

text \<open>
  \<open>capsules/capsule-workspace-recipes/src/service.rs\<close>: the recipe service. It keeps one \<open>RecipeStore\<close> per owner
  scope in memory and commits every accepted change to the backend (object, revision, pointer, journal) before
  it installs the new store; \<open>service_open\<close> rebuilds the stores from the committed pointers. An operation maps
  the service to the service it leaves and its result. A panic of the source is the error \<open>SvcPanic\<close>.
\<close>

section \<open>State and errors\<close>

record conflict_report =
  crp_current :: recipe
  crp_incoming :: patch
  crp_merged :: "patch option"

record activity_conflict_report =
  acr_current :: "activity option"
  acr_incoming :: activity

datatype service_error =
    SvcModel patch_error
  | SvcRecipe recipe_validation_error
  | SvcJson json_error
  | SvcBackend backend_error
  | SvcPolicy policy_error
  | SvcCrash commit_stage
  | SvcCorrupt
  | SvcDuplicateRecipe string
  | SvcConflict conflict_report
  | SvcActivityConflict activity_conflict_report
  | SvcPanic

record recipe_service =
  svc_backend :: fixture_backend
  svc_grants :: grant_directory
  svc_stores :: "(string, recipe_store) btree_map"

definition store_at :: "(string, recipe_store) btree_map \<Rightarrow> string \<Rightarrow> recipe_store" where
  "store_at stores scope = (case bt_get stores scope of None \<Rightarrow> store_new | Some s \<Rightarrow> s)"

definition scan_document :: "workspace_host \<Rightarrow> raw_json \<Rightarrow> service_error + unit" where
  "scan_document W j = map_err SvcPolicy (scan_for_forbidden_content (wh_json W) j)"

definition scope_for_owner :: "workspace_host \<Rightarrow> opaque_owner_ref \<Rightarrow> service_error + string" where
  "scope_for_owner W owner =
     and_then (scan_document W (owner_json owner)) (\<lambda>_.
     and_then (map_err SvcJson (canonical_bytes (wh_json W) (owner_json owner))) (\<lambda>bytes.
     ok_or SvcPanic (scope_key (wh_json W) bytes)))"

definition service_authorize :: "recipe_service \<Rightarrow> owner_context \<Rightarrow> opaque_owner_ref \<Rightarrow> opaque_principal_ref
    \<Rightarrow> service_error + unit" where
  "service_authorize S ctx owner actor =
     (if owner \<noteq> oc_owner ctx \<or> actor \<noteq> oc_acting_principal ctx then Err (SvcPolicy AuthorizationDenied)
      else map_err SvcPolicy
        (directory_authorize (svc_grants S) (oc_grant ctx) (oc_owner ctx) (oc_acting_principal ctx)))"

section \<open>Committing\<close>

definition commit_error :: "backend_error \<Rightarrow> service_error" where
  "commit_error e = (case e of BackendCrash stage \<Rightarrow> SvcCrash stage | other \<Rightarrow> SvcBackend other)"

definition pointer_to :: "recipe \<Rightarrow> current_pointer" where
  "pointer_to r = \<lparr>cp_revision = rcp_revision r, cp_recipe_digest = rcp_digest r\<rparr>"

definition journal_of :: "patch \<Rightarrow> recipe \<Rightarrow> string \<Rightarrow> journal_record" where
  "journal_of p r intent = \<lparr>jr_patch_id = pat_patch_id p, jr_recipe_id = pat_recipe_id p,
     jr_revision = rcp_revision r, jr_recipe_digest = rcp_digest r, jr_intent_digest = intent\<rparr>"

definition commit_journal :: "host \<Rightarrow> fixture_backend \<Rightarrow> recipe_location \<Rightarrow> recipe \<Rightarrow> patch option
    \<Rightarrow> fixture_backend \<times> (service_error + unit)" where
  "commit_journal H B l r p =
     (case p of None \<Rightarrow> (B, Ok ()) | Some p \<Rightarrow>
      case intent_digest H p of Err e \<Rightarrow> (B, Err (SvcModel e)) | Ok intent \<Rightarrow>
      case put_journal_once B l (journal_of p r intent) of (B', res) \<Rightarrow> (B', map_err commit_error res))"

definition commit_recipe :: "workspace_host \<Rightarrow> fixture_backend \<Rightarrow> recipe_location \<Rightarrow> recipe \<Rightarrow> patch option
    \<Rightarrow> current_pointer option \<Rightarrow> fixture_backend \<times> (service_error + unit)" where
  "commit_recipe W B l r p expected =
     (case canonical_bytes (wh_json W) (recipe_json r) of Err e \<Rightarrow> (B, Err (SvcJson e)) | Ok bytes \<Rightarrow>
      case put_object_once B (rcp_digest r) bytes of
        (B1, Err e) \<Rightarrow> (B1, Err (commit_error e))
      | (B1, Ok _) \<Rightarrow>
      case put_revision_once (wh_json W) B1 l (rcp_revision r) \<lparr>re_recipe = r, re_patch = p\<rparr> of
        (B2, Err e) \<Rightarrow> (B2, Err (commit_error e))
      | (B2, Ok _) \<Rightarrow>
      case cas_current B2 l expected (pointer_to r) of
        (B3, Err e) \<Rightarrow> (B3, Err (commit_error e))
      | (B3, Ok _) \<Rightarrow> commit_journal (wh_json W) B3 l r p)"

text \<open>The common tail of the operations: commit, then install the staged store of the scope.\<close>

definition commit_staged :: "workspace_host \<Rightarrow> recipe_service \<Rightarrow> recipe_location \<Rightarrow> recipe \<Rightarrow> patch option
    \<Rightarrow> current_pointer option \<Rightarrow> recipe_store \<Rightarrow> 'a \<Rightarrow> recipe_service \<times> (service_error + 'a)" where
  "commit_staged W S l r p expected staged x =
     (case commit_recipe W (svc_backend S) l r p expected of
        (B, Err e) \<Rightarrow> (S\<lparr>svc_backend := B\<rparr>, Err e)
      | (B, Ok _) \<Rightarrow>
          (S\<lparr>svc_backend := B, svc_stores := bt_insert (loc_scope l) staged (svc_stores S)\<rparr>, Ok x))"

section \<open>Creating a recipe\<close>

definition create_guard :: "workspace_host \<Rightarrow> recipe_service \<Rightarrow> owner_context \<Rightarrow> recipe
    \<Rightarrow> service_error + (recipe_location \<times> current_pointer option)" where
  "create_guard W S ctx r =
     and_then (service_authorize S ctx (rcp_owner_ref r) (oc_acting_principal ctx)) (\<lambda>_.
     if \<not> valid_key_id (rcp_recipe_id r) then Err (SvcPolicy ForbiddenContent)
     else
     and_then (scan_document W (recipe_json r)) (\<lambda>_.
     and_then (map_err SvcRecipe (recipe_validate (wh_json W) r)) (\<lambda>_.
     if rcp_schema r \<noteq> recipe_schema \<or> rcp_revision r \<noteq> 1 then Err SvcCorrupt
     else
     and_then (scope_for_owner W (rcp_owner_ref r)) (\<lambda>scope.
     let l = \<lparr>loc_scope = scope, loc_recipe_id = rcp_recipe_id r\<rparr> in
     and_then (map_err SvcBackend (current_of W (svc_backend S) l)) (\<lambda>existing.
     if existing \<noteq> None then Err (SvcDuplicateRecipe (rcp_recipe_id r))
     else
     and_then (map_err SvcBackend (current_of W (svc_backend S) l)) (\<lambda>expected. Ok (l, expected)))))))"

definition create_recipe :: "workspace_host \<Rightarrow> recipe_service \<Rightarrow> owner_context \<Rightarrow> recipe
    \<Rightarrow> recipe_service \<times> (service_error + recipe)" where
  "create_recipe W S ctx r =
     (case create_guard W S ctx r of Err e \<Rightarrow> (S, Err e) | Ok (l, expected) \<Rightarrow>
      case store_insert (wh_json W) (store_at (svc_stores S) (loc_scope l)) r of
        (_, Err e) \<Rightarrow> (S, Err (SvcModel e))
      | (staged, Ok _) \<Rightarrow> commit_staged W S l r None expected staged r)"

section \<open>Applying a patch\<close>

definition patch_location :: "workspace_host \<Rightarrow> recipe_service \<Rightarrow> patch
    \<Rightarrow> service_error + (recipe_location \<times> current_pointer option)" where
  "patch_location W S p =
     and_then (scan_document W (patch_json p)) (\<lambda>_.
     and_then (map_err SvcModel (patch_validate p)) (\<lambda>_.
     and_then (scope_for_owner W (pat_owner_ref p)) (\<lambda>scope.
     let l = \<lparr>loc_scope = scope, loc_recipe_id = pat_recipe_id p\<rparr> in
     and_then (map_err SvcBackend (current_of W (svc_backend S) l)) (\<lambda>expected. Ok (l, expected)))))"

definition apply_guard :: "workspace_host \<Rightarrow> recipe_service \<Rightarrow> owner_context \<Rightarrow> patch
    \<Rightarrow> service_error + (recipe_location \<times> current_pointer option)" where
  "apply_guard W S ctx p =
     and_then (service_authorize S ctx (pat_owner_ref p) (pat_acting_principal p)) (\<lambda>_.
     if \<not> valid_key_id (pat_patch_id p) \<or> \<not> valid_key_id (pat_recipe_id p)
     then Err (SvcPolicy ForbiddenContent)
     else patch_location W S p)"

text \<open>The free function \<open>conflict_candidate\<close> of the service.\<close>

definition service_candidate :: "recipe_store \<Rightarrow> patch \<Rightarrow> string \<Rightarrow> service_error + conflict_candidate" where
  "service_candidate store incoming merged_patch_id =
     (case compute_conflict_candidate store incoming merged_patch_id of
        Ok candidate \<Rightarrow> Ok candidate
      | Err DisjointFieldMergeRejected \<Rightarrow>
          and_then (ok_or (SvcModel UnknownRecipe) (store_get store (pat_recipe_id incoming))) (\<lambda>current.
          Ok \<lparr>cc_current = current, cc_incoming = incoming, cc_merged = None\<rparr>)
      | Err e \<Rightarrow> Err (SvcModel e))"

definition report :: "conflict_candidate \<Rightarrow> patch \<Rightarrow> conflict_report" where
  "report candidate incoming =
     \<lparr>crp_current = cc_current candidate, crp_incoming = incoming, crp_merged = cc_merged candidate\<rparr>"

definition report_conflict :: "recipe_service \<Rightarrow> recipe_location \<Rightarrow> patch \<Rightarrow> string
    \<Rightarrow> recipe_service \<times> (service_error + patch_outcome)" where
  "report_conflict S l p merged_patch_id =
     (case and_then (ok_or (SvcModel UnknownRecipe) (bt_get (svc_stores S) (loc_scope l)))
             (\<lambda>store. service_candidate store p merged_patch_id) of
        Err e \<Rightarrow> (S, Err e)
      | Ok candidate \<Rightarrow>
          (S\<lparr>svc_backend := retain_conflict (svc_backend S) l
              \<lparr>cr_current_revision = rcp_revision (cc_current candidate),
               cr_current_recipe_digest = rcp_digest (cc_current candidate),
               cr_incoming_patch_id = pat_patch_id p, cr_incoming_base_revision = pat_base_revision p,
               cr_incoming_base_digest = pat_base_digest p\<rparr>\<rparr>,
           Err (SvcConflict (report candidate p))))"

definition service_apply_patch :: "workspace_host \<Rightarrow> recipe_service \<Rightarrow> owner_context \<Rightarrow> patch
    \<Rightarrow> recipe_service \<times> (service_error + patch_outcome)" where
  "service_apply_patch W S ctx p =
     (case apply_guard W S ctx p of Err e \<Rightarrow> (S, Err e) | Ok (l, expected) \<Rightarrow>
      case apply_patch (wh_json W) (store_at (svc_stores S) (loc_scope l)) p of
        (staged, Ok (Applied r visual_changed)) \<Rightarrow>
          commit_staged W S l r (Some p) expected staged (Applied r visual_changed)
      | (_, Ok (AlreadyApplied r)) \<Rightarrow> (S, Ok (AlreadyApplied r))
      | (_, Err (Conflict _ _)) \<Rightarrow> report_conflict S l p ''unused''
      | (_, Err e) \<Rightarrow> (S, Err (SvcModel e)))"

section \<open>Narrow merge\<close>

definition merge_guard :: "workspace_host \<Rightarrow> recipe_service \<Rightarrow> owner_context \<Rightarrow> patch \<Rightarrow> string
    \<Rightarrow> service_error + (recipe_location \<times> current_pointer option \<times> recipe_store)" where
  "merge_guard W S ctx p merged_patch_id =
     (if \<not> valid_key_id merged_patch_id then Err (SvcPolicy ForbiddenContent)
      else
      and_then (service_authorize S ctx (pat_owner_ref p) (pat_acting_principal p)) (\<lambda>_.
      and_then (patch_location W S p) (\<lambda>(l, expected).
      and_then (ok_or (SvcModel UnknownRecipe) (bt_get (svc_stores S) (loc_scope l))) (\<lambda>store.
      Ok (l, expected, store)))))"

definition merge_commit_patch :: "recipe_store \<Rightarrow> patch \<Rightarrow> string \<Rightarrow> patch" where
  "merge_commit_patch store p merged_patch_id =
     (case compute_conflict_candidate store p merged_patch_id of
        Ok candidate \<Rightarrow>
          (case cc_merged candidate of
             Some merged \<Rightarrow> merged\<lparr>pat_acting_principal := pat_acting_principal p, pat_review := pat_review p\<rparr>
           | None \<Rightarrow> p)
      | Err NotConflicted \<Rightarrow> p
      | Err _ \<Rightarrow> p)"

definition service_narrow_merge :: "workspace_host \<Rightarrow> recipe_service \<Rightarrow> owner_context \<Rightarrow> patch \<Rightarrow> string
    \<Rightarrow> recipe_service \<times> (service_error + patch_outcome)" where
  "service_narrow_merge W S ctx p merged_patch_id =
     (case merge_guard W S ctx p merged_patch_id of Err e \<Rightarrow> (S, Err e) | Ok (l, expected, store) \<Rightarrow>
      case apply_patch_with_narrow_merge (wh_json W) (store_at (svc_stores S) (loc_scope l)) p merged_patch_id of
        (staged, Ok (Applied r visual_changed)) \<Rightarrow>
          commit_staged W S l r (Some (merge_commit_patch store p merged_patch_id)) expected staged
            (Applied r visual_changed)
      | (_, Ok (AlreadyApplied r)) \<Rightarrow> (S, Ok (AlreadyApplied r))
      | (_, Err (Conflict _ _)) \<Rightarrow> report_conflict S l p merged_patch_id
      | (_, Err e) \<Rightarrow> (S, Err (SvcModel e)))"

section \<open>Rollback\<close>

definition rollback_guard :: "workspace_host \<Rightarrow> recipe_service \<Rightarrow> owner_context \<Rightarrow> rollback_request \<Rightarrow> string
    \<Rightarrow> service_error + (recipe_location \<times> current_pointer option \<times> recipe \<times> patch)" where
  "rollback_guard W S ctx request patch_id =
     and_then (service_authorize S ctx (rb_owner_ref request) (rb_acting_principal request)) (\<lambda>_.
     if \<not> valid_key_id patch_id \<or> \<not> valid_key_id (rb_recipe_id request)
     then Err (SvcPolicy ForbiddenContent)
     else
     and_then (scope_for_owner W (rb_owner_ref request)) (\<lambda>scope.
     let l = \<lparr>loc_scope = scope, loc_recipe_id = rb_recipe_id request\<rparr> in
     and_then (map_err SvcBackend (current_of W (svc_backend S) l)) (\<lambda>expected.
     and_then (ok_or (SvcModel UnknownRecipe) (bt_get (svc_stores S) scope)) (\<lambda>store.
     and_then (ok_or (SvcModel UnknownRecipe) (store_get store (rb_recipe_id request))) (\<lambda>current.
     and_then (ok_or (SvcModel UnknownRecipeRevision)
       (store_revision store (rb_recipe_id request) (rb_target_revision request))) (\<lambda>target.
     and_then (map_err SvcModel
       (patch_new (rb_owner_ref request) (rb_acting_principal request) (rb_reviewer request)
         (rb_receipt request) patch_id (rb_recipe_id request) (rcp_revision current) (rcp_digest current)
         (''rollback to revision '' @ show_nat (unat (rb_target_revision request)))
         [RestoreRevision (rcp_revision target) (rcp_digest target)])) (\<lambda>restore_patch.
     Ok (l, expected, current, restore_patch))))))))"

definition service_rollback :: "workspace_host \<Rightarrow> recipe_service \<Rightarrow> owner_context \<Rightarrow> rollback_request \<Rightarrow> string
    \<Rightarrow> recipe_service \<times> (service_error + recipe)" where
  "service_rollback W S ctx request patch_id =
     (case rollback_guard W S ctx request patch_id of Err e \<Rightarrow> (S, Err e)
      | Ok (l, expected, current, restore_patch) \<Rightarrow>
      case rollback (wh_json W) (store_at (svc_stores S) (loc_scope l)) request patch_id of
        (_, Err e) \<Rightarrow> (S, Err (SvcModel e))
      | (staged, Ok r) \<Rightarrow>
          if rcp_revision r = rcp_revision current \<and> rcp_digest r = rcp_digest current then (S, Ok r)
          else commit_staged W S l r (Some restore_patch) expected staged r)"

section \<open>Reading recipes\<close>

definition require_recipe_scope :: "workspace_host \<Rightarrow> recipe_service \<Rightarrow> owner_context \<Rightarrow> string
    \<Rightarrow> service_error + string" where
  "require_recipe_scope W S ctx recipe_id =
     (if \<not> valid_key_id recipe_id then Err (SvcPolicy ForbiddenContent)
      else and_then (service_authorize S ctx (oc_owner ctx) (oc_acting_principal ctx)) (\<lambda>_.
        scope_for_owner W (oc_owner ctx)))"

definition current_recipe :: "workspace_host \<Rightarrow> recipe_service \<Rightarrow> owner_context \<Rightarrow> string
    \<Rightarrow> service_error + recipe option" where
  "current_recipe W S ctx recipe_id =
     and_then (require_recipe_scope W S ctx recipe_id) (\<lambda>scope.
     Ok (Option.bind (bt_get (svc_stores S) scope) (\<lambda>store. store_get store recipe_id)))"

definition revision_recipe :: "workspace_host \<Rightarrow> recipe_service \<Rightarrow> owner_context \<Rightarrow> string \<Rightarrow> u64
    \<Rightarrow> service_error + recipe option" where
  "revision_recipe W S ctx recipe_id revision =
     and_then (require_recipe_scope W S ctx recipe_id) (\<lambda>scope.
     Ok (Option.bind (bt_get (svc_stores S) scope) (\<lambda>store. store_revision store recipe_id revision)))"

definition retained_conflict :: "recipe_service \<Rightarrow> string \<Rightarrow> string \<Rightarrow> string \<Rightarrow> conflict_record option" where
  "retained_conflict S owner_scope recipe_id patch_id =
     retained_conflict_at (svc_backend S) \<lparr>loc_scope = owner_scope, loc_recipe_id = recipe_id\<rparr> patch_id"

section \<open>Activities\<close>

definition activity_digest :: "workspace_host \<Rightarrow> activity \<Rightarrow> json_error + string" where
  "activity_digest W a = digest_parts (wh_json W) (activity_json a)"

definition read_activity_pointer :: "workspace_host \<Rightarrow> recipe_service \<Rightarrow> activity_pointer option
    \<Rightarrow> service_error + activity option" where
  "read_activity_pointer W S pointer =
     (case pointer of None \<Rightarrow> Ok None | Some pointer \<Rightarrow>
        and_then (map_err SvcBackend (activity_bytes (svc_backend S) pointer)) (\<lambda>bytes.
        and_then (map_err SvcJson (read_activity_document W bytes)) (\<lambda>a.
        if act_schema a \<noteq> activity_schema \<or> act_current_surface a \<noteq> None then Err SvcCorrupt
        else and_then (map_err SvcJson (activity_digest W a)) (\<lambda>d.
          if d \<noteq> ap_activity_digest pointer then Err SvcCorrupt else Ok (Some a)))))"

definition activity_conflict :: "activity option \<Rightarrow> activity \<Rightarrow> service_error" where
  "activity_conflict current incoming =
     SvcActivityConflict \<lparr>acr_current = current, acr_incoming = incoming\<rparr>"

definition activity_guard :: "workspace_host \<Rightarrow> recipe_service \<Rightarrow> owner_context \<Rightarrow> activity
    \<Rightarrow> service_error + (activity \<times> string)" where
  "activity_guard W S ctx a =
     and_then (service_authorize S ctx (act_owner_ref a) (oc_acting_principal ctx)) (\<lambda>_.
     if \<not> valid_key_id (act_activity_id a) then Err (SvcPolicy ForbiddenContent)
     else let durable = a\<lparr>act_current_surface := None\<rparr> in
     and_then (map_err SvcRecipe (activity_validate (wh_json W) durable)) (\<lambda>_.
     and_then (scan_document W (activity_json durable)) (\<lambda>_.
     if act_schema durable \<noteq> activity_schema then Err SvcCorrupt
     else and_then (scope_for_owner W (act_owner_ref durable)) (\<lambda>scope. Ok (durable, scope)))))"

definition expected_activity :: "workspace_host \<Rightarrow> recipe_service \<Rightarrow> activity_pointer option \<Rightarrow> activity
    \<Rightarrow> string option \<Rightarrow> service_error + activity_pointer option" where
  "expected_activity W S current_pointer durable expected_digest =
     (case expected_digest of
        Some base \<Rightarrow>
          if (case current_pointer of None \<Rightarrow> False | Some p \<Rightarrow> ap_activity_digest p = base)
          then Ok (Some \<lparr>ap_activity_digest = base\<rparr>)
          else and_then (read_activity_pointer W S current_pointer) (\<lambda>current.
            Err (activity_conflict current durable))
      | None \<Rightarrow>
          if current_pointer \<noteq> None
          then and_then (read_activity_pointer W S current_pointer) (\<lambda>current.
            Err (activity_conflict current durable))
          else Ok None)"

definition save_activity :: "workspace_host \<Rightarrow> recipe_service \<Rightarrow> owner_context \<Rightarrow> activity \<Rightarrow> string option
    \<Rightarrow> recipe_service \<times> (service_error + activity)" where
  "save_activity W S ctx a expected_digest =
     (case activity_guard W S ctx a of Err e \<Rightarrow> (S, Err e) | Ok (durable, scope) \<Rightarrow>
      case and_then (expected_activity W S
               (activity_pointer_of (svc_backend S) scope (act_activity_id durable)) durable expected_digest) (\<lambda>expected.
           and_then (map_err SvcJson (canonical_bytes (wh_json W) (activity_json durable))) (\<lambda>bytes.
           and_then (map_err SvcJson (activity_digest W durable)) (\<lambda>d. Ok (expected, bytes, d)))) of
        Err e \<Rightarrow> (S, Err e)
      | Ok (expected, bytes, d) \<Rightarrow>
         (case save_activity_pointer (svc_backend S) scope (act_activity_id durable) d bytes expected of
            (B, Ok _) \<Rightarrow> (S\<lparr>svc_backend := B\<rparr>, Ok durable)
          | (B, Err CasMismatch) \<Rightarrow>
              (let S' = S\<lparr>svc_backend := B\<rparr> in
               (S', Err (activity_conflict
                  (case read_activity_pointer W S' (activity_pointer_of B scope (act_activity_id durable)) of
                     Ok (Some current) \<Rightarrow> Some current | _ \<Rightarrow> None) durable)))
          | (B, Err e) \<Rightarrow> (S\<lparr>svc_backend := B\<rparr>, Err (SvcBackend e))))"

definition read_activity :: "workspace_host \<Rightarrow> recipe_service \<Rightarrow> owner_context \<Rightarrow> string
    \<Rightarrow> service_error + activity option" where
  "read_activity W S ctx activity_id =
     (if \<not> valid_key_id activity_id then Err (SvcPolicy ForbiddenContent)
      else and_then (service_authorize S ctx (oc_owner ctx) (oc_acting_principal ctx)) (\<lambda>_.
        and_then (scope_for_owner W (oc_owner ctx)) (\<lambda>scope.
        read_activity_pointer W S (activity_pointer_of (svc_backend S) scope activity_id))))"

section \<open>Change of owner\<close>

definition transition_recipe_owner :: "workspace_host \<Rightarrow> recipe \<Rightarrow> opaque_owner_ref \<Rightarrow> service_error + recipe" where
  "transition_recipe_owner W source destination =
     and_then (map_err SvcRecipe (recipe_validate (wh_json W) source)) (\<lambda>_.
     and_then (scan_document W (recipe_json source)) (\<lambda>_.
     and_then (map_err SvcRecipe
       (recipe_new (wh_json W) destination (rcp_recipe_id source) (rcp_theme_id source) (rcp_root source))) (\<lambda>fresh.
     and_then (map_err SvcRecipe
       (refresh_after_declared_change (wh_json W) (fresh\<lparr>rcp_metadata := rcp_metadata source\<rparr>))) (\<lambda>r.
     and_then (scan_document W (recipe_json r)) (\<lambda>_. Ok r)))))"

definition transition_activity_owner :: "workspace_host \<Rightarrow> activity \<Rightarrow> opaque_owner_ref \<Rightarrow> service_error + activity" where
  "transition_activity_owner W source destination =
     and_then (map_err SvcRecipe (activity_validate (wh_json W) source)) (\<lambda>_.
     and_then (scan_document W (activity_json source)) (\<lambda>_.
     and_then (map_err SvcRecipe
       (activity_new (wh_json W) (act_activity_id source) destination (act_title source) (act_recipe_id source))) (\<lambda>a.
     and_then (scan_document W (activity_json a)) (\<lambda>_. Ok a))))"

section \<open>Opening: recovery from the committed pointers\<close>

record recovery =
  rc_backend :: fixture_backend
  rc_stores :: "(string, recipe_store) btree_map"
  rc_objects :: "string set"
  rc_revisions :: "(string \<times> string \<times> u64) set"

definition recover_first :: "workspace_host \<Rightarrow> recipe_location \<Rightarrow> recovery \<Rightarrow> revision_envelope
    \<Rightarrow> service_error + recovery" where
  "recover_first W l rc envelope =
     (if re_patch envelope \<noteq> None then Err SvcCorrupt
      else case store_insert (wh_json W) (store_at (rc_stores rc) (loc_scope l)) (re_recipe envelope) of
        (_, Err e) \<Rightarrow> Err (SvcModel e)
      | (store, Ok _) \<Rightarrow> Ok (rc\<lparr>rc_stores := bt_insert (loc_scope l) store (rc_stores rc)\<rparr>))"

definition recover_next :: "workspace_host \<Rightarrow> recipe_location \<Rightarrow> recovery \<Rightarrow> u64 \<Rightarrow> revision_envelope
    \<Rightarrow> service_error + recovery" where
  "recover_next W l rc revision envelope =
     (case re_patch envelope of None \<Rightarrow> Err SvcCorrupt | Some p \<Rightarrow>
      if pat_recipe_id p \<noteq> loc_recipe_id l then Err SvcCorrupt
      else
      and_then (scope_for_owner W (pat_owner_ref p)) (\<lambda>scope.
      if scope \<noteq> loc_scope l \<or> \<not> valid_key_id (pat_patch_id p) then Err SvcCorrupt
      else
      and_then (map_err SvcModel (intent_digest (wh_json W) p)) (\<lambda>intent.
      let expected = journal_of p ((re_recipe envelope)\<lparr>rcp_revision := revision\<rparr>) intent in
      and_then (case journal_for_recipe (rc_backend rc) l (pat_patch_id p) of
          Some existing \<Rightarrow> if existing \<noteq> expected then Err SvcCorrupt else Ok (rc_backend rc)
        | None \<Rightarrow> Ok (insert_recovered_journal (rc_backend rc) l expected)) (\<lambda>B.
      case apply_patch (wh_json W) (store_at (rc_stores rc) (loc_scope l)) p of
        (_, Err e) \<Rightarrow> Err (SvcModel e)
      | (store, Ok outcome) \<Rightarrow>
          if recipe_eq (case outcome of Applied applied _ \<Rightarrow> applied | AlreadyApplied applied \<Rightarrow> applied)
               (re_recipe envelope)
          then Ok (rc\<lparr>rc_backend := B, rc_stores := bt_insert (loc_scope l) store (rc_stores rc)\<rparr>)
          else Err SvcCorrupt))))"

definition recover_revision :: "workspace_host \<Rightarrow> recipe_location \<Rightarrow> recovery \<Rightarrow> u64
    \<Rightarrow> service_error + (recovery \<times> recipe)" where
  "recover_revision W l rc revision =
     and_then (map_err SvcBackend (envelope_at W (rc_backend rc) l revision)) (\<lambda>envelope.
     let r = re_recipe envelope in
     if rcp_schema r \<noteq> recipe_schema then Err SvcCorrupt
     else
     and_then (map_err SvcRecipe (content_digest (wh_json W) r)) (\<lambda>d.
     if rcp_digest r \<noteq> d then Err SvcCorrupt
     else
     and_then (scope_for_owner W (rcp_owner_ref r)) (\<lambda>scope.
     if scope \<noteq> loc_scope l \<or> rcp_recipe_id r \<noteq> loc_recipe_id l then Err SvcCorrupt
     else
     and_then (map_err SvcJson (canonical_bytes (wh_json W) (recipe_json r))) (\<lambda>bytes.
     if \<not> object_matches (rc_backend rc) (rcp_digest r) bytes then Err SvcCorrupt
     else
     let rc' = rc\<lparr>rc_objects := insert (object_key (rcp_digest r)) (rc_objects rc),
                  rc_revisions := insert (loc_scope l, loc_recipe_id l, revision) (rc_revisions rc)\<rparr> in
     and_then (if revision = 1 then recover_first W l rc' envelope else recover_next W l rc' revision envelope)
       (\<lambda>rc''. Ok (rc'', r))))))"

fun recover_revisions :: "workspace_host \<Rightarrow> recipe_location \<Rightarrow> recovery \<times> recipe option \<Rightarrow> u64 list
    \<Rightarrow> service_error + (recovery \<times> recipe option)" where
  "recover_revisions W l st [] = Ok st"
| "recover_revisions W l (rc, _) (n # ns) =
     and_then (recover_revision W l rc n) (\<lambda>(rc', r). recover_revisions W l (rc', Some r) ns)"

definition recover_recipe :: "workspace_host \<Rightarrow> recovery \<Rightarrow> recipe_location \<Rightarrow> current_pointer
    \<Rightarrow> service_error + recovery" where
  "recover_recipe W rc l pointer =
     and_then (recover_revisions W l (rc, None) (map of_nat [1..<Suc (unat (cp_revision pointer))])) (\<lambda>(rc', found).
     and_then (ok_or SvcCorrupt found) (\<lambda>r.
     if rcp_revision r \<noteq> cp_revision pointer \<or> rcp_digest r \<noteq> cp_recipe_digest pointer then Err SvcCorrupt
     else Ok rc'))"

fun recover_all :: "workspace_host \<Rightarrow> recovery \<Rightarrow> (recipe_location \<times> current_pointer) list
    \<Rightarrow> service_error + recovery" where
  "recover_all W rc [] = Ok rc"
| "recover_all W rc ((l, pointer) # rest) = and_then (recover_recipe W rc l pointer) (\<lambda>rc'. recover_all W rc' rest)"

definition service_open :: "workspace_host \<Rightarrow> fixture_backend \<Rightarrow> grant_directory \<Rightarrow> service_error + recipe_service" where
  "service_open W backend grants =
     (let B = clear_fault backend in
      and_then (ok_or SvcPanic (committed_pointers B)) (\<lambda>pointers.
      and_then (recover_all W \<lparr>rc_backend = B, rc_stores = [], rc_objects = {}, rc_revisions = {}\<rparr> pointers) (\<lambda>rc.
      Ok \<lparr>svc_backend = quarantine_orphans (rc_backend rc) (rc_objects rc) (rc_revisions rc),
          svc_grants = grants, svc_stores = rc_stores rc\<rparr>)))"

end
