(* ===== verification/Workspace_Disk.thy ===== *)
theory Workspace_Disk
  imports Workspace_Service Store_Laws
begin

text \<open>
  The storage keys of the recipe backend are texts that are also parsed: recovery reads the location of a recipe
  off its pointer key, and the quarantine reads the revision off its revision key. For locations whose parts hold
  no slash (a scope is a digest, a recipe id passed \<open>valid_key_id\<close>), the keys are injective and parse back.
  The second part is what moving the orphans away does to the maps.
\<close>

section \<open>Keys\<close>

definition slash_free :: "string \<Rightarrow> bool" where
  "slash_free s \<longleftrightarrow> CHR ''/'' \<notin> set s"

definition at_location :: "string \<Rightarrow> string \<Rightarrow> recipe_location" where
  "at_location scope recipe_id = \<lparr>loc_scope = scope, loc_recipe_id = recipe_id\<rparr>"

lemma at_location_simps [simp]:
  "loc_scope (at_location s i) = s" "loc_recipe_id (at_location s i) = i"
  "at_location s i = at_location t j \<longleftrightarrow> s = t \<and> i = j"
  "\<lparr>loc_scope = s, loc_recipe_id = i\<rparr> = at_location s i"
  by (simp_all only: at_location_def recipe_location.simps recipe_location.ext_inject simp_thms)

lemma at_location_parts [simp]: "at_location (loc_scope l) (loc_recipe_id l) = l"
  by (simp only: at_location_def recipe_location.surjective [symmetric]) (cases l, simp)

lemma valid_key_slash_free: "valid_key_id s \<Longrightarrow> slash_free s"
  using key_id_no_slash by (simp add: slash_free_def)

lemma show_nat_slash_free: "slash_free (show_nat n)"
  using show_nat_digits [of n] by (auto simp: slash_free_def list_all_iff is_ascii_digit_def)

lemma slash_split:
  "slash_free a \<Longrightarrow> slash_free a' \<Longrightarrow> a @ CHR ''/'' # b = a' @ CHR ''/'' # b' \<longleftrightarrow> a = a' \<and> b = b'"
proof (induction a arbitrary: a')
  case Nil
  then show ?case by (cases a') (auto simp: slash_free_def)
next
  case (Cons c a)
  then show ?case by (cases a') (auto simp: slash_free_def)
qed

lemma split_once_slash: "slash_free a \<Longrightarrow> split_once (CHR ''/'') (a @ CHR ''/'' # b) = Some (a, b)"
  by (simp add: split_once_Some_iff slash_free_def)

lemma rsplit_once_slash: "slash_free b \<Longrightarrow> rsplit_once (CHR ''/'') (a @ CHR ''/'' # b) = Some (a, b)"
proof -
  assume "slash_free b"
  then have "split_once (CHR ''/'') (rev b @ CHR ''/'' # rev a) = Some (rev b, rev a)"
    by (simp add: split_once_Some_iff slash_free_def)
  then show ?thesis by (simp add: rsplit_once_def)
qed

lemma strip_suffix_append [simp]: "strip_suffix_str p (s @ p) = Some s"
  by (simp add: strip_suffix_str_def strip_prefix_str_Some)

lemma strip_prefix_append [simp]: "strip_prefix_str p (p @ s) = Some s"
  by (simp add: strip_prefix_str_Some)

lemma committed_pointer_key: "slash_free s \<Longrightarrow> committed_pointer (pointer_key (at_location s i)) = Some (at_location s i)"
proof -
  assume s: "slash_free s"
  have "pointer_key (at_location s i) = ''pointer/'' @ ((s @ CHR ''/'' # i) @ ''/current'')"
    by (simp add: pointer_key_def)
  then show ?thesis
    unfolding committed_pointer_def by (simp only: strip_prefix_append strip_suffix_append Option.bind.bind_lunit)
      (simp add: split_once_slash [OF s])
qed

lemma pointer_key_inject:
  assumes "slash_free s" and "slash_free t"
  shows "pointer_key (at_location s i) = pointer_key (at_location t j) \<longleftrightarrow> s = t \<and> i = j"
  using committed_pointer_key [OF assms(1), of i] committed_pointer_key [OF assms(2), of j]
  by (metis at_location_simps(3) option.inject)

lemma show_nat_inject: "show_nat m = show_nat n \<longleftrightarrow> m = n"
  by (metis digits_value_show option.inject)

lemma revision_key_inject:
  assumes "slash_free s" "slash_free t" "slash_free i" "slash_free j"
  shows "revision_key (at_location s i) m = revision_key (at_location t j) n \<longleftrightarrow> s = t \<and> i = j \<and> m = n"
  using slash_split [OF assms(1,2)] slash_split [OF assms(3,4)]
  by (simp add: revision_key_def show_nat_inject word_unat_eq_iff)

lemma referenced_revision_key:
  assumes "slash_free s" "slash_free i"
  shows "referenced_revision_keys (revision_key (at_location s i) n) R \<longleftrightarrow> (s, i, n) \<in> R"
proof -
  have "revision_key (at_location s i) n = ''revision/'' @ (s @ CHR ''/'' # (i @ CHR ''/'' # show_nat (unat n)))"
    by (simp add: revision_key_def)
  then show ?thesis
    unfolding referenced_revision_keys_def
    by (simp only: strip_prefix_append option.case split_once_slash [OF assms(1)] prod.case
        rsplit_once_slash [OF show_nat_slash_free] parse_u64_show)
qed

lemma journal_key_inject:
  assumes "slash_free s" "slash_free t" "slash_free i" "slash_free j"
  shows "journal_key (at_location s i) p = journal_key (at_location t j) q \<longleftrightarrow> s = t \<and> i = j \<and> p = q"
  using slash_split [OF assms(1,2)] slash_split [OF assms(3,4)]
  by (simp add: journal_key_def)

lemma object_key_inject [simp]: "object_key d = object_key d' \<longleftrightarrow> d = d'"
  by (simp add: object_key_def)

lemma object_not_revision [simp]: "object_key d \<noteq> revision_key l n" "revision_key l n \<noteq> object_key d"
  by (simp_all add: object_key_def revision_key_def)

section \<open>Moving orphans\<close>

lemma quarantine_key_maps:
  "bt_get (be_objects (quarantine_key B key)) k = (if k = key then None else bt_get (be_objects B) k)"
  "bt_get (be_revisions (quarantine_key B key)) k =
     (if k = key \<and> bt_get (be_objects B) key = None then None else bt_get (be_revisions B) k)"
  by (auto simp: quarantine_key_def bt_get_delete split: option.split)

lemma quarantine_key_fields [simp]:
  "be_pointers (quarantine_key B key) = be_pointers B" "be_journals (quarantine_key B key) = be_journals B"
  "be_activity_objects (quarantine_key B key) = be_activity_objects B"
  "be_activity_pointers (quarantine_key B key) = be_activity_pointers B"
  "be_conflicts (quarantine_key B key) = be_conflicts B" "be_fail_after (quarantine_key B key) = be_fail_after B"
  by (simp_all add: quarantine_key_def split: option.split)

lemma quarantine_key_wf:
  "bt_wf (be_objects B) \<Longrightarrow> bt_wf (be_objects (quarantine_key B key))"
  "bt_wf (be_revisions B) \<Longrightarrow> bt_wf (be_revisions (quarantine_key B key))"
  by (simp_all add: quarantine_key_def bt_wf_delete split: option.split)

definition disjoint_maps :: "fixture_backend \<Rightarrow> bool" where
  "disjoint_maps B \<longleftrightarrow> (\<forall>k. bt_get (be_objects B) k = None \<or> bt_get (be_revisions B) k = None)"

lemma quarantine_fold:
  fixes B ks
  assumes "disjoint_maps B"
  defines "C \<equiv> fold (\<lambda>key B. quarantine_key B key) ks B"
  shows "bt_get (be_objects C) k = (if k \<in> set ks then None else bt_get (be_objects B) k)"
    and "bt_get (be_revisions C) k = (if k \<in> set ks then None else bt_get (be_revisions B) k)"
proof -
  have "bt_get (be_objects (fold (\<lambda>key B. quarantine_key B key) ks B)) k =
          (if k \<in> set ks then None else bt_get (be_objects B) k) \<and>
        bt_get (be_revisions (fold (\<lambda>key B. quarantine_key B key) ks B)) k =
          (if k \<in> set ks then None else bt_get (be_revisions B) k)"
    using assms(1)
  proof (induction ks arbitrary: B)
    case Nil
    then show ?case by simp
  next
    case (Cons x ks)
    have "disjoint_maps (quarantine_key B x)"
      using Cons.prems by (auto simp: disjoint_maps_def quarantine_key_maps)
    note IH = Cons.IH [OF this]
    have d: "bt_get (be_objects B) k = None \<or> bt_get (be_revisions B) k = None"
      using Cons.prems by (simp add: disjoint_maps_def)
    show ?case
      unfolding fold_Cons comp_apply IH [THEN conjunct1] IH [THEN conjunct2]
      using d by (auto simp: quarantine_key_maps)
  qed
  then show "bt_get (be_objects C) k = (if k \<in> set ks then None else bt_get (be_objects B) k)"
    "bt_get (be_revisions C) k = (if k \<in> set ks then None else bt_get (be_revisions B) k)"
    unfolding C_def by simp_all
qed

lemma quarantine_fold_fields:
  fixes ks B
  defines "C \<equiv> fold (\<lambda>key B. quarantine_key B key) ks B"
  shows "be_pointers C = be_pointers B" "be_journals C = be_journals B"
    "be_activity_objects C = be_activity_objects B" "be_activity_pointers C = be_activity_pointers B"
    "be_conflicts C = be_conflicts B" "be_fail_after C = be_fail_after B"
    "bt_wf (be_objects B) \<Longrightarrow> bt_wf (be_objects C)" "bt_wf (be_revisions B) \<Longrightarrow> bt_wf (be_revisions C)"
  unfolding C_def by (induction ks arbitrary: B) (simp_all add: quarantine_key_wf)

lemma quarantine_orphans_maps:
  assumes "disjoint_maps B"
  shows "bt_get (be_objects (quarantine_orphans B os rs)) k = (if k \<in> os then bt_get (be_objects B) k else None)"
    and "bt_get (be_revisions (quarantine_orphans B os rs)) k =
      (if referenced_revision_keys k rs then bt_get (be_revisions B) k else None)"
proof -
  have d: "bt_get (be_objects B) k = None \<or> bt_get (be_revisions B) k = None"
    using assms by (simp add: disjoint_maps_def)
  have ks: "k \<in> set (filter (\<lambda>key. key \<notin> os) (bt_keys (be_objects B)) @
      filter (\<lambda>key. \<not> referenced_revision_keys key rs) (bt_keys (be_revisions B))) \<longleftrightarrow>
      bt_get (be_objects B) k \<noteq> None \<and> k \<notin> os \<or> bt_get (be_revisions B) k \<noteq> None \<and> \<not> referenced_revision_keys k rs"
    by (auto simp: bt_keys_set)
  show "bt_get (be_objects (quarantine_orphans B os rs)) k = (if k \<in> os then bt_get (be_objects B) k else None)"
    "bt_get (be_revisions (quarantine_orphans B os rs)) k =
      (if referenced_revision_keys k rs then bt_get (be_revisions B) k else None)"
    unfolding quarantine_orphans_def quarantine_fold [OF assms] ks using d by auto
qed

lemma quarantine_orphans_fields:
  "be_pointers (quarantine_orphans B os rs) = be_pointers B"
  "be_journals (quarantine_orphans B os rs) = be_journals B"
  "be_activity_objects (quarantine_orphans B os rs) = be_activity_objects B"
  "be_activity_pointers (quarantine_orphans B os rs) = be_activity_pointers B"
  "be_conflicts (quarantine_orphans B os rs) = be_conflicts B"
  "be_fail_after (quarantine_orphans B os rs) = be_fail_after B"
  "bt_wf (be_objects B) \<Longrightarrow> bt_wf (be_objects (quarantine_orphans B os rs))"
  "bt_wf (be_revisions B) \<Longrightarrow> bt_wf (be_revisions (quarantine_orphans B os rs))"
  unfolding quarantine_orphans_def by (simp_all add: quarantine_fold_fields)

text \<open>
  What the backend is supposed to hold, in terms of the revision logs of the recipe store: \<open>on_disk\<close> relates a
  backend to one log per owner scope and recipe, whatever else a crash left behind, and \<open>clean\<close> says that it
  left nothing else. \<open>in_memory\<close> relates the stores of a service to logs. A log on disk and the log in memory
  may differ in the actor and the review of a patch, which narrow merging rewrites on its way to the disk.
\<close>

type_synonym ledger = "string \<Rightarrow> string \<Rightarrow> revision_log"

section \<open>Documents that survive a round trip\<close>

definition envelope_of :: "recipe \<times> patch option \<Rightarrow> revision_envelope" where
  "envelope_of e = \<lparr>re_recipe = fst e, re_patch = snd e\<rparr>"

lemma envelope_of_simps [simp]:
  "re_recipe (envelope_of e) = fst e" "re_patch (envelope_of e) = snd e"
  "\<lparr>re_recipe = r, re_patch = p\<rparr> = envelope_of (r, p)"
  by (simp_all add: envelope_of_def)

definition survives :: "workspace_host \<Rightarrow> recipe \<times> patch option \<Rightarrow> bool" where
  "survives W e \<longleftrightarrow> recipe_eq (fst e) (fst e) \<and>
     is_ok (canonical_bytes (wh_json W) (recipe_json (fst e))) \<and>
     (\<exists>bytes. canonical_bytes (wh_json W) (envelope_json (envelope_of e)) = Ok bytes \<and>
        read_envelope W bytes = Ok (envelope_of e))"

section \<open>Backends\<close>

definition stored :: "workspace_host \<Rightarrow> fixture_backend \<Rightarrow> recipe_location \<Rightarrow> u64 \<Rightarrow> recipe \<times> patch option \<Rightarrow> bool" where
  "stored W B l n e \<longleftrightarrow>
     (\<exists>bytes. bt_get (be_revisions B) (revision_key l n) = Some bytes \<and> read_envelope W bytes = Ok (envelope_of e)) \<and>
     (\<exists>bytes. bt_get (be_objects B) (object_key (rcp_digest (fst e))) = Some bytes \<and>
        canonical_bytes (wh_json W) (recipe_json (fst e)) = Ok bytes) \<and>
     recipe_eq (fst e) (fst e)"

definition stored_log :: "workspace_host \<Rightarrow> fixture_backend \<Rightarrow> string \<Rightarrow> string \<Rightarrow> revision_log \<Rightarrow> bool" where
  "stored_log W B s i L \<longleftrightarrow>
     chain (wh_json W) i L \<and> valid_key_id i \<and> slash_free s \<and>
     scope_for_owner W (rcp_owner_ref (log_head L)) = Ok s \<and>
     (\<forall>p. Some p \<in> snd ` set L \<longrightarrow> valid_key_id (pat_patch_id p)) \<and>
     (\<forall>j < length L. stored W B (at_location s i) (of_nat (Suc j)) (L ! j))"

definition journal_entry :: "workspace_host \<Rightarrow> string \<Rightarrow> string \<Rightarrow> revision_log \<Rightarrow> string \<Rightarrow> journal_record \<Rightarrow> bool" where
  "journal_entry W s i L key entry \<longleftrightarrow>
     (\<exists>r p d. (r, Some p) \<in> set L \<and> intent_digest (wh_json W) p = Ok d \<and>
        key = journal_key (at_location s i) (pat_patch_id p) \<and> entry = journal_of p r d)"

definition tidy :: "fixture_backend \<Rightarrow> bool" where
  "tidy B \<longleftrightarrow> bt_wf (be_objects B) \<and> bt_wf (be_revisions B) \<and> bt_wf (be_pointers B) \<and> bt_wf (be_journals B) \<and>
     (\<forall>k. bt_get (be_objects B) k \<noteq> None \<longrightarrow> (\<exists>d. k = object_key d)) \<and>
     (\<forall>k. bt_get (be_revisions B) k \<noteq> None \<longrightarrow>
        (\<exists>s i n. slash_free s \<and> slash_free i \<and> k = revision_key (at_location s i) n))"

definition on_disk :: "workspace_host \<Rightarrow> fixture_backend \<Rightarrow> ledger \<Rightarrow> bool" where
  "on_disk W B D \<longleftrightarrow> tidy B \<and> (\<forall>s. distinct_patch_ids (D s)) \<and>
     (\<forall>s i. D s i \<noteq> [] \<longrightarrow> stored_log W B s i (D s i)) \<and>
     (\<forall>s i. slash_free s \<longrightarrow> bt_get (be_pointers B) (pointer_key (at_location s i)) =
        (if D s i = [] then None else Some (pointer_to (log_head (D s i))))) \<and>
     (\<forall>k. bt_get (be_pointers B) k \<noteq> None \<longrightarrow> (\<exists>s i. D s i \<noteq> [] \<and> k = pointer_key (at_location s i))) \<and>
     (\<forall>k entry. bt_get (be_journals B) k = Some entry \<longrightarrow> (\<exists>s i. journal_entry W s i (D s i) k entry))"

lemma on_diskD:
  assumes "on_disk W B D"
  shows "tidy B" and "distinct_patch_ids (D s)"
    and "D s i \<noteq> [] \<Longrightarrow> stored_log W B s i (D s i)"
    and "slash_free s \<Longrightarrow> bt_get (be_pointers B) (pointer_key (at_location s i)) =
      (if D s i = [] then None else Some (pointer_to (log_head (D s i))))"
    and "bt_get (be_pointers B) k \<noteq> None \<Longrightarrow> \<exists>s i. D s i \<noteq> [] \<and> k = pointer_key (at_location s i)"
    and "bt_get (be_journals B) k = Some entry \<Longrightarrow> \<exists>s i. journal_entry W s i (D s i) k entry"
  using assms unfolding on_disk_def by blast+

lemma tidy_disjoint: "tidy B \<Longrightarrow> disjoint_maps B"
  unfolding tidy_def disjoint_maps_def by (metis object_not_revision(1))

text \<open>The revisions and the objects that a log refers to.\<close>

definition owns_revision :: "ledger \<Rightarrow> string \<Rightarrow> bool" where
  "owns_revision D k \<longleftrightarrow> (\<exists>s i j. j < length (D s i) \<and> k = revision_key (at_location s i) (of_nat (Suc j)))"

definition owns_object :: "ledger \<Rightarrow> string \<Rightarrow> bool" where
  "owns_object D k \<longleftrightarrow> (\<exists>s i e. e \<in> set (D s i) \<and> k = object_key (rcp_digest (fst e)))"

definition clean :: "workspace_host \<Rightarrow> fixture_backend \<Rightarrow> ledger \<Rightarrow> bool" where
  "clean W B D \<longleftrightarrow> on_disk W B D \<and>
     (\<forall>k. bt_get (be_revisions B) k \<noteq> None \<longrightarrow> owns_revision D k) \<and>
     (\<forall>k. bt_get (be_objects B) k \<noteq> None \<longrightarrow> owns_object D k)"

section \<open>Stores\<close>

definition in_memory :: "workspace_host \<Rightarrow> (string, recipe_store) btree_map \<Rightarrow> ledger \<Rightarrow> bool" where
  "in_memory W stores M \<longleftrightarrow> bt_wf stores \<and>
     (\<forall>s. represents (wh_json W) (store_at stores s) (M s) \<and> (bt_get stores s \<noteq> None \<longleftrightarrow> (\<exists>i. M s i \<noteq> [])))"

lemma in_memory_empty: "in_memory W [] (\<lambda>_ _. [])"
  by (simp add: in_memory_def bt_wf_def store_at_def represents_new)

lemma in_memory_update:
  assumes "in_memory W stores M" and "represents (wh_json W) staged (M'  s)" and "\<exists>i. M' s i \<noteq> []"
    and "\<And>t. t \<noteq> s \<Longrightarrow> M' t = M t"
  shows "in_memory W (bt_insert s staged stores) M'"
  using assms by (auto simp: in_memory_def store_at_def)

lemma in_memory_represents: "in_memory W stores M \<Longrightarrow> represents (wh_json W) (store_at stores s) (M s)"
  by (simp add: in_memory_def)

section \<open>Logs that differ in the actor only\<close>

definition same_intent :: "patch \<Rightarrow> patch \<Rightarrow> bool" where
  "same_intent p q \<longleftrightarrow>
     q = p\<lparr>pat_acting_principal := pat_acting_principal q, pat_review := pat_review q\<rparr>"

lemma same_intent_refl [simp]: "same_intent p p"
  by (simp add: same_intent_def)

lemma same_intent_fields:
  assumes "same_intent p q"
  shows "pat_patch_id q = pat_patch_id p" "pat_recipe_id q = pat_recipe_id p" "pat_owner_ref q = pat_owner_ref p"
    "pat_base_revision q = pat_base_revision p" "pat_base_digest q = pat_base_digest p"
    "pat_operations q = pat_operations p" "intent_digest H q = intent_digest H p"
proof -
  obtain a v where q: "q = p\<lparr>pat_acting_principal := a, pat_review := v\<rparr>"
    using assms unfolding same_intent_def by blast
  show "pat_patch_id q = pat_patch_id p" "pat_recipe_id q = pat_recipe_id p" "pat_owner_ref q = pat_owner_ref p"
    "pat_base_revision q = pat_base_revision p" "pat_base_digest q = pat_base_digest p"
    "pat_operations q = pat_operations p" "intent_digest H q = intent_digest H p"
    by (simp_all add: q intent_digest_def intent_json_def)
qed

definition same_entry :: "recipe \<times> patch option \<Rightarrow> recipe \<times> patch option \<Rightarrow> bool" where
  "same_entry e f \<longleftrightarrow> fst e = fst f \<and> rel_option same_intent (snd e) (snd f)"

definition same_log :: "revision_log \<Rightarrow> revision_log \<Rightarrow> bool" where
  "same_log L K \<longleftrightarrow> list_all2 same_entry L K"

lemma same_entry_refl [simp]: "same_entry e e"
  by (simp add: same_entry_def option.rel_refl)

lemma same_log_refl [simp]: "same_log L L"
  by (simp add: same_log_def list.rel_refl)

lemma same_log_fst: "same_log L K \<Longrightarrow> map fst L = map fst K"
  unfolding same_log_def by (induction rule: list_all2_induct) (auto simp: same_entry_def)

lemma same_log_Nil: "same_log L K \<Longrightarrow> L = [] \<longleftrightarrow> K = []"
  by (auto simp: same_log_def)

lemma same_log_head:
  assumes s: "same_log L K"
  shows "log_head L = log_head K"
proof (cases "L = []")
  case True
  with same_log_Nil [OF s] show ?thesis by simp
next
  case False
  with same_log_Nil [OF s] have "K \<noteq> []" by simp
  with False show ?thesis
    using same_log_fst [OF s] by (metis last_map log_head_def)
qed

lemma same_log_snoc: "same_log L K \<Longrightarrow> same_entry e f \<Longrightarrow> same_log (L @ [e]) (K @ [f])"
  by (simp add: same_log_def list_all2_appendI)

lemma same_log_at:
  assumes s: "same_log L K"
  shows "map_option fst (log_at L n) = map_option fst (log_at K n)"
proof -
  have len: "length L = length K" using s by (simp add: same_log_def list_all2_lengthD)
  have "fst (L ! j) = fst (K ! j)" if "j < length L" for j
    using that same_log_fst [OF s] len by (metis nth_map)
  moreover have "unat n - 1 < length L" if "n \<noteq> 0" "\<not> unat n > length L"
    using that u64_zero_iff [of n] by simp
  ultimately show ?thesis by (simp add: log_at_def len)
qed

lemma same_log_candidate:
  assumes "same_log L K"
  shows "log_candidate H L p = log_candidate H K p"
  unfolding log_candidate_def same_log_head [OF assms] same_log_at [OF assms] ..

lemma same_log_step:
  assumes "same_log L K" and "log_step H L p r vc" and "same_intent p q" and "patch_validate q = Ok ()"
  shows "log_step H K q r vc"
proof -
  have "log_candidate H K q = log_candidate H K p"
    unfolding log_candidate_def same_intent_fields(6) [OF assms(3)] ..
  then have "log_candidate H K q = log_candidate H L p"
    using same_log_candidate [OF assms(1)] by simp
  with assms show ?thesis
    using same_intent_fields [OF assms(3)] by (simp add: log_step_def Let_def same_log_head [OF assms(1)])
qed

end
