(* ===== verification/Workspace_Recovery.thy ===== *)
theory Workspace_Recovery
  imports Workspace_Disk
begin

text \<open>
  Recovery reads back exactly the logs on disk: from any backend that holds a ledger (\<open>on_disk\<close>), whatever else a
  crash left there, \<open>service_open\<close> succeeds, its stores represent the ledger, and the storage it leaves is
  \<open>clean\<close>. The loop is followed revision by revision: after each, the stores represent the part of the ledger
  that has been read (\<open>recovered\<close>).
\<close>

section \<open>One more revision of a family of logs\<close>

definition extended :: "ledger \<Rightarrow> string \<Rightarrow> string \<Rightarrow> recipe \<times> patch option \<Rightarrow> ledger" where
  "extended D s i e = D(s := (D s)(i := D s i @ [e]))"

lemma extended_simps [simp]:
  "extended D s i e s = (D s)(i := D s i @ [e])"
  "t \<noteq> s \<Longrightarrow> extended D s i e t = D t"
  by (simp_all add: extended_def)

lemma extended_at: "extended D s i e t j = (if t = s \<and> j = i then D s i @ [e] else D t j)"
  by (simp add: extended_def)

lemma root_inserts:
  assumes rep: "represents H st L" and "L i = []" and "chain H i [(r, None)]"
  obtains st' where "store_insert H st r = (st', Ok ())" and "represents H st' (L(i := [(r, None)]))"
proof -
  from assms(3) have r: "rcp_recipe_id r = i" "rcp_revision r = 1" "recipe_sealed H r"
    by (cases rule: chain.cases; simp)+
  then have "bt_get (st_current st) (rcp_recipe_id r) = None"
    using representsD(2) [OF rep, of i] assms(2) by simp
  with r obtain st' where ins: "store_insert H st r = (st', Ok ())" by (auto simp: store_insert_Ok_iff)
  from insert_represents(2) [OF rep ins] r(1) ins that show thesis by simp
qed

lemma step_applies:
  assumes rep: "represents H st L" and "L i \<noteq> []" and step: "log_step H (L i) p r vc"
    and fresh: "\<And>q. q \<in> logged L \<Longrightarrow> pat_patch_id q \<noteq> pat_patch_id p"
  obtains st' where "apply_patch H st p = (st', Ok (Applied r vc))"
    and "represents H st' (L(i := L i @ [(r, Some p)]))"
proof -
  have i: "pat_recipe_id p = i"
    using step chain_head [OF representsD(1) [OF rep assms(2)]] by (simp add: log_step_def Let_def)
  have "snd (spec_apply H L p) = Ok (Applied r vc)"
    using step fresh assms(2) by (auto simp: spec_apply_def Let_def i log_step_def is_ok_iff)
  moreover obtain st' res where app: "apply_patch H st p = (st', res)" by (cases "apply_patch H st p")
  ultimately have res: "res = Ok (Applied r vc)" using apply_spec [OF rep app] by simp
  from apply_represents(4) [OF rep app [unfolded res]] app that show thesis by (simp add: i res)
qed

section \<open>Facts about a stored log\<close>

lemma stored_logD:
  assumes "stored_log W B s i L"
  shows "chain (wh_json W) i L" and "valid_key_id i" and "slash_free s" and "slash_free i"
    and "j < length L \<Longrightarrow> stored W B (at_location s i) (of_nat (Suc j)) (L ! j)"
    and "e \<in> set L \<Longrightarrow> scope_for_owner W (rcp_owner_ref (fst e)) = Ok s"
    and "(r, Some p) \<in> set L \<Longrightarrow> valid_key_id (pat_patch_id p) \<and> pat_recipe_id p = i \<and>
           scope_for_owner W (pat_owner_ref p) = Ok s \<and> is_ok (intent_digest (wh_json W) p)"
proof -
  show ch: "chain (wh_json W) i L" and "valid_key_id i" and "slash_free s"
    using assms by (simp_all add: stored_log_def)
  then show "slash_free i" by (simp add: valid_key_slash_free)
  show "stored W B (at_location s i) (of_nat (Suc j)) (L ! j)" if "j < length L"
    using that assms by (simp add: stored_log_def)
  show "scope_for_owner W (rcp_owner_ref (fst e)) = Ok s" if "e \<in> set L"
  proof -
    from that obtain j where "j < length L" "L ! j = e" by (auto simp: in_set_conv_nth)
    with chain_owner [OF ch, of j] assms show ?thesis by (auto simp: stored_log_def)
  qed
  assume rp: "(r, Some p) \<in> set L"
  then have mem: "Some p \<in> snd ` set L" by force
  note c = chain_logged [OF ch mem]
  from rp obtain j where j: "j < length L" "L ! j = (r, Some p)" by (auto simp: in_set_conv_nth)
  with chain_nth_step [OF ch j(1)] have "is_ok (intent_digest (wh_json W) p)"
    by (auto simp: log_step_def Let_def)
  with c mem assms show "valid_key_id (pat_patch_id p) \<and> pat_recipe_id p = i \<and>
      scope_for_owner W (pat_owner_ref p) = Ok s \<and> is_ok (intent_digest (wh_json W) p)"
    by (auto simp: stored_log_def)
qed

lemma chain_revision: "chain H i L \<Longrightarrow> j < length L \<Longrightarrow> rcp_revision (fst (L ! j)) = of_nat (Suc j)"
proof -
  assume a: "chain H i L" "j < length L"
  have "of_nat (unat (rcp_revision (fst (L ! j)))) = rcp_revision (fst (L ! j))" by simp
  then show ?thesis using chain_nth(2) [OF a] by (metis Suc_eq_plus1)
qed

lemma index_inject:
  assumes "chain H i L" "j < length L"
  shows "(of_nat (Suc j) :: u64) = 1 \<longleftrightarrow> j = 0"
proof -
  have "unat (of_nat (Suc j) :: u64) = Suc j"
    using assms(2) chain_length_bound [OF assms(1)]
    by (simp add: unsigned_of_nat take_bit_nat_eq_self del: of_nat_Suc)
  then show ?thesis by (metis One_nat_def Suc_inject of_nat_1 unat_1)
qed

lemma stored_cong:
  assumes "be_revisions B' = be_revisions B" and "be_objects B' = be_objects B"
  shows "stored W B' = stored W B"
  using assms by (intro ext) (simp add: stored_def)

lemma journal_unique:
  assumes disk: "on_disk W B D" and j: "(r, Some p) \<in> set (D s i)"
    and d: "intent_digest (wh_json W) p = Ok d"
    and get: "bt_get (be_journals B) (journal_key (at_location s i) (pat_patch_id p)) = Some entry"
  shows "entry = journal_of p r d"
proof -
  from on_diskD(6) [OF disk get] obtain t k r' p' d' where
    e: "(r', Some p') \<in> set (D t k)" "intent_digest (wh_json W) p' = Ok d'"
      "journal_key (at_location s i) (pat_patch_id p) = journal_key (at_location t k) (pat_patch_id p')"
      "entry = journal_of p' r' d'"
    by (auto simp: journal_entry_def)
  from e(1) j have ne: "D t k \<noteq> []" "D s i \<noteq> []" by auto
  note sl = on_diskD(3) [OF disk ne(1)] on_diskD(3) [OF disk ne(2)]
  have same: "s = t" "i = k" "pat_patch_id p = pat_patch_id p'"
    using e(3) stored_logD(3,4) [OF sl(1)] stored_logD(3,4) [OF sl(2)] by (simp_all add: journal_key_inject)
  from j obtain a where a: "a < length (D s i)" "D s i ! a = (r, Some p)" by (auto simp: in_set_conv_nth)
  from e(1) obtain b where b: "b < length (D s i)" "D s i ! b = (r', Some p')"
    unfolding same [symmetric] by (auto simp: in_set_conv_nth)
  have "a = b"
    using on_diskD(2) [OF disk, of s] a b same(3) unfolding distinct_patch_ids_def by (metis snd_conv)
  with a b d e(2,4) show ?thesis by simp
qed

lemma on_disk_journal:
  assumes disk: "on_disk W B D" and j: "(r, Some p) \<in> set (D s i)"
    and d: "intent_digest (wh_json W) p = Ok d"
  shows "on_disk W (B\<lparr>be_journals := bt_insert (journal_key (at_location s i) (pat_patch_id p)) (journal_of p r d)
      (be_journals B)\<rparr>) D"
proof -
  let ?B = "B\<lparr>be_journals := bt_insert (journal_key (at_location s i) (pat_patch_id p)) (journal_of p r d)
      (be_journals B)\<rparr>"
  have "stored W ?B = stored W B" by (rule stored_cong) simp_all
  moreover have "tidy ?B" using on_diskD(1) [OF disk] by (simp add: tidy_def)
  moreover have "journal_entry W s i (D s i) (journal_key (at_location s i) (pat_patch_id p)) (journal_of p r d)"
    using j d by (auto simp: journal_entry_def)
  ultimately show ?thesis
    using disk unfolding on_disk_def stored_log_def by (auto split: if_splits)
qed

section \<open>The loop\<close>

definition recovered :: "workspace_host \<Rightarrow> fixture_backend \<Rightarrow> ledger \<Rightarrow> recovery \<Rightarrow> ledger \<Rightarrow> bool" where
  "recovered W B D rc P \<longleftrightarrow> on_disk W (rc_backend rc) D \<and> (\<exists>js. rc_backend rc = B\<lparr>be_journals := js\<rparr>) \<and>
     in_memory W (rc_stores rc) P \<and> rc_objects rc = {k. owns_object P k} \<and>
     rc_revisions rc = {(s, i, n). \<exists>j < length (P s i). n = of_nat (Suc j)}"

lemma owns_object_extended:
  "owns_object (extended P s i e) k \<longleftrightarrow> k = object_key (rcp_digest (fst e)) \<or> owns_object P k"
proof -
  have "f \<in> set (extended P s i e t j) \<longleftrightarrow> (t = s \<and> j = i \<and> f = e) \<or> f \<in> set (P t j)" for f t j
    by (auto simp: extended_at)
  note mem = this
  show ?thesis unfolding owns_object_def mem by blast
qed

lemma revisions_extended:
  "{(t, j, n). \<exists>k < length (extended P s i e t j). n = of_nat (Suc k)} =
     insert (s, i, of_nat (Suc (length (P s i)))) {(t, j, n). \<exists>k < length (P t j). n = of_nat (Suc k)}"
  by (auto simp: extended_at less_Suc_eq split: if_splits)

lemma recovered_refs:
  assumes "recovered W B D rc P"
  shows "insert (object_key (rcp_digest (fst e))) (rc_objects rc) = {k. owns_object (extended P s i e) k}"
    and "insert (s, i, of_nat (Suc (length (P s i)))) (rc_revisions rc) =
      {(t, j, n). \<exists>k < length (extended P s i e t j). n = of_nat (Suc k)}"
  using assms unfolding recovered_def revisions_extended by (auto simp: owns_object_extended)

text \<open>The part of a scope's family that has been read never holds the patch of a revision still to come.\<close>

lemma patch_fresh:
  assumes dist: "distinct_patch_ids L" and pre: "\<And>j. \<exists>m. K j = take m (L j)" and k: "K i = take k (L i)"
    and at: "k < length (L i)" "snd (L i ! k) = Some p" and q: "q \<in> logged K"
  shows "pat_patch_id q \<noteq> pat_patch_id p"
proof
  assume same: "pat_patch_id q = pat_patch_id p"
  from q obtain j b where b: "b < length (K j)" "snd (K j ! b) = Some q"
    by (force simp: logged_def in_set_conv_nth)
  from pre obtain m where m: "K j = take m (L j)" by blast
  with b have b': "b < length (L j)" "snd (L j ! b) = Some q" by auto
  with at same dist have "j = i" "b = k" unfolding distinct_patch_ids_def by metis+
  with b k show False by simp
qed

text \<open>What recovery does with the journal entry of a logged patch.\<close>

lemma recover_journal:
  assumes rc: "recovered W B D rc P" and mem: "(r, Some q) \<in> set (D s i)"
    and d: "intent_digest (wh_json W) q = Ok d"
  obtains B' where "(case journal_for_recipe (rc_backend rc) (at_location s i) (pat_patch_id q) of
          Some existing \<Rightarrow> if existing \<noteq> journal_of q r d then Err SvcCorrupt else Ok (rc_backend rc)
        | None \<Rightarrow> Ok (insert_recovered_journal (rc_backend rc) (at_location s i) (journal_of q r d))) = Ok B'"
    and "on_disk W B' D" and "\<exists>js. B' = B\<lparr>be_journals := js\<rparr>"
proof -
  let ?l = "at_location s i" and ?j = "journal_of q r d"
  have disk: "on_disk W (rc_backend rc) D" using rc by (simp add: recovered_def)
  show thesis
  proof (cases "journal_for_recipe (rc_backend rc) ?l (pat_patch_id q)")
    case None
    have id: "jr_patch_id ?j = pat_patch_id q" by (simp add: journal_of_def)
    have "insert_recovered_journal (rc_backend rc) ?l ?j =
        rc_backend rc\<lparr>be_journals := bt_insert (journal_key ?l (pat_patch_id q)) ?j (be_journals (rc_backend rc))\<rparr>"
      using None by (simp add: insert_recovered_journal_def journal_for_recipe_def Let_def id)
    with None on_disk_journal [OF disk mem d] rc show thesis
      by (intro that) (auto simp: recovered_def)
  next
    case (Some existing)
    then have "existing = ?j" using journal_unique [OF disk mem d] by (simp add: journal_for_recipe_def)
    with Some disk rc show thesis by (intro that) (auto simp: recovered_def)
  qed
qed

lemma recovered_extend:
  assumes rc: "recovered W B D rc P" and B': "on_disk W B' D" "\<exists>js. B' = B\<lparr>be_journals := js\<rparr>"
    and st': "represents (wh_json W) st' ((P s)(i := P s i @ [e]))"
  shows "recovered W B D (rc\<lparr>rc_objects := insert (object_key (rcp_digest (fst e))) (rc_objects rc),
      rc_revisions := insert (s, i, of_nat (Suc (length (P s i)))) (rc_revisions rc),
      rc_backend := B', rc_stores := bt_insert s st' (rc_stores rc)\<rparr>) (extended P s i e)"
proof -
  have "in_memory W (bt_insert s st' (rc_stores rc)) (extended P s i e)"
    using rc st' by (intro in_memory_update [of W _ P]) (auto simp: recovered_def)
  with B' recovered_refs [OF rc, where e = e and s = s and i = i] show ?thesis by (simp add: recovered_def del: of_nat_Suc)
qed

text \<open>The checks on the envelope of a revision pass.\<close>

lemma recover_revision_checks:
  assumes sl: "stored_log W (rc_backend rc) s i L" and k: "k < length L" and e: "L ! k = (r, p)"
  shows "recover_revision W (at_location s i) rc (of_nat (Suc k)) =
      (let rc' = rc\<lparr>rc_objects := insert (object_key (rcp_digest r)) (rc_objects rc),
             rc_revisions := insert (s, i, of_nat (Suc k)) (rc_revisions rc)\<rparr> in
       and_then (if k = 0 then recover_first W (at_location s i) rc' (envelope_of (r, p))
                 else recover_next W (at_location s i) rc' (of_nat (Suc k)) (envelope_of (r, p)))
         (\<lambda>rc''. Ok (rc'', r)))"
proof -
  note ch = stored_logD(1) [OF sl]
  have "stored W (rc_backend rc) (at_location s i) (of_nat (Suc k)) (r, p)"
    using stored_logD(5) [OF sl k] by (simp add: e)
  then obtain rb where env: "envelope_at W (rc_backend rc) (at_location s i) (of_nat (Suc k)) = Ok (envelope_of (r, p))"
    and obj: "canonical_bytes (wh_json W) (recipe_json r) = Ok rb" "object_matches (rc_backend rc) (rcp_digest r) rb"
    by (auto simp: stored_def envelope_at_def object_matches_def simp del: of_nat_Suc)
  have seal: "recipe_sealed (wh_json W) r" "rcp_recipe_id r = i"
    using chain_nth [OF ch k] by (simp_all add: e)
  have schema: "rcp_schema r = recipe_schema" "content_digest (wh_json W) r = Ok (rcp_digest r)"
    using seal(1) by (auto simp: recipe_sealed_def recipe_validate_Ok_iff)
  have scope: "scope_for_owner W (rcp_owner_ref r) = Ok s"
    using stored_logD(6) [OF sl nth_mem [OF k]] by (simp add: e)
  show ?thesis
    using index_inject [OF ch k]
    by (simp add: recover_revision_def env schema scope obj seal(2) Let_def del: of_nat_Suc)
qed

lemma recover_first_step:
  assumes rep: "represents (wh_json W) (store_at (rc_stores rc) s) L" and "L i = []"
    and ch: "chain (wh_json W) i K" and K: "0 < length K" "K ! 0 = (r, p)"
  obtains st' where "recover_first W (at_location s i) rc (envelope_of (r, p)) =
      Ok (rc\<lparr>rc_stores := bt_insert s st' (rc_stores rc)\<rparr>)"
    and "represents (wh_json W) st' (L(i := L i @ [(r, p)]))"
proof -
  have p: "p = None" using chain_nth_step [OF ch K(1)] K(2) by simp
  have "take 1 K = [(r, None)]" using K p by (cases K) auto
  with chain_take [OF ch, of 1] K(1) have "chain (wh_json W) i [(r, None)]" by simp
  with rep assms(2) obtain st' where "store_insert (wh_json W) (store_at (rc_stores rc) s) r = (st', Ok ())"
    and "represents (wh_json W) st' (L(i := [(r, None)]))" by (rule root_inserts)
  with that p assms(2) show thesis by (simp add: recover_first_def)
qed

lemma recover_next_step:
  assumes rc: "recovered W B D rc P" and sl: "stored_log W (rc_backend rc) s i (D s i)"
    and rev: "rcp_revision r = n" and self: "recipe_eq r r"
    and mem: "(r, Some q) \<in> set (D s i)" and step: "log_step (wh_json W) (P s i) q r vc" and ne: "P s i \<noteq> []"
    and fresh: "\<And>q'. q' \<in> logged (P s) \<Longrightarrow> pat_patch_id q' \<noteq> pat_patch_id q"
  obtains st' B' where "\<And>os rs. recover_next W (at_location s i) (rc\<lparr>rc_objects := os, rc_revisions := rs\<rparr>) n
        (envelope_of (r, Some q)) =
      Ok (rc\<lparr>rc_objects := os, rc_revisions := rs, rc_backend := B', rc_stores := bt_insert s st' (rc_stores rc)\<rparr>)"
    and "represents (wh_json W) st' ((P s)(i := P s i @ [(r, Some q)]))"
    and "on_disk W B' D" and "\<exists>js. B' = B\<lparr>be_journals := js\<rparr>"
proof -
  note ql = stored_logD(7) [OF sl mem]
  then obtain d where d: "intent_digest (wh_json W) q = Ok d" by (auto simp: is_ok_iff)
  have "represents (wh_json W) (store_at (rc_stores rc) s) (P s)"
    using rc in_memory_represents by (simp add: recovered_def)
  from step_applies [OF this ne step fresh]
  obtain st' where app: "apply_patch (wh_json W) (store_at (rc_stores rc) s) q = (st', Ok (Applied r vc))"
    and rep': "represents (wh_json W) st' ((P s)(i := P s i @ [(r, Some q)]))" by blast
  have j: "journal_of q (r\<lparr>rcp_revision := n\<rparr>) d = journal_of q r d" using rev by (simp add: journal_of_def)
  from recover_journal [OF rc mem d] obtain B' where
    B': "(case journal_for_recipe (rc_backend rc) (at_location s i) (pat_patch_id q) of
          Some existing \<Rightarrow> if existing \<noteq> journal_of q r d then Err SvcCorrupt else Ok (rc_backend rc)
        | None \<Rightarrow> Ok (insert_recovered_journal (rc_backend rc) (at_location s i) (journal_of q r d))) = Ok B'"
    and rest: "on_disk W B' D" "\<exists>js. B' = B\<lparr>be_journals := js\<rparr>" by blast
  have "recover_next W (at_location s i) (rc\<lparr>rc_objects := os, rc_revisions := rs\<rparr>) n (envelope_of (r, Some q)) =
      Ok (rc\<lparr>rc_objects := os, rc_revisions := rs, rc_backend := B', rc_stores := bt_insert s st' (rc_stores rc)\<rparr>)" for os rs
    using ql B'
    by (cases "journal_for_recipe (rc_backend rc) (at_location s i) (pat_patch_id q)")
       (simp_all add: recover_next_def d j app self Let_def split: if_splits)
  with that rep' rest show thesis by blast
qed

lemma recover_revision_step:
  assumes rc: "recovered W B D rc P" and pre: "\<And>j. \<exists>m. P s j = take m (D s j)"
    and k: "P s i = take k (D s i)" "k < length (D s i)"
  obtains rc' where "recover_revision W (at_location s i) rc (of_nat (Suc k)) = Ok (rc', fst (D s i ! k))"
    and "recovered W B D rc' (extended P s i (D s i ! k))"
proof -
  obtain r p where e: "D s i ! k = (r, p)" by (cases "D s i ! k")
  have disk: "on_disk W (rc_backend rc) D" using rc by (simp add: recovered_def)
  have sl: "stored_log W (rc_backend rc) s i (D s i)" using k(2) on_diskD(3) [OF disk, of s i] by (cases "D s i") auto
  note ch = stored_logD(1) [OF sl] and run = recover_revision_checks [OF sl k(2) e]
  have len: "length (P s i) = k" using k by simp
  have rep: "represents (wh_json W) (store_at (rc_stores rc) s) (P s)"
    using rc in_memory_represents by (simp add: recovered_def)
  show thesis
  proof (cases "k = 0")
    case True
    let ?rc = "rc\<lparr>rc_objects := insert (object_key (rcp_digest r)) (rc_objects rc),
             rc_revisions := insert (s, i, of_nat (Suc k)) (rc_revisions rc)\<rparr>"
    have "represents (wh_json W) (store_at (rc_stores ?rc) s) (P s)" "P s i = []" using rep True k(1) by simp_all
    from recover_first_step [OF this ch] k(2) e True obtain st' where
      first: "recover_first W (at_location s i) ?rc (envelope_of (r, p)) = Ok (?rc\<lparr>rc_stores := bt_insert s st' (rc_stores ?rc)\<rparr>)"
      and rep': "represents (wh_json W) st' ((P s)(i := P s i @ [(r, p)]))" by metis
    have "\<exists>js. rc_backend rc = B\<lparr>be_journals := js\<rparr>" using rc by (simp add: recovered_def)
    from recovered_extend [OF rc disk this rep', unfolded len fst_conv]
    have "recovered W B D (?rc\<lparr>rc_stores := bt_insert s st' (rc_stores rc)\<rparr>) (extended P s i (r, p))" by simp
    moreover have "recover_revision W (at_location s i) rc (of_nat (Suc k)) =
        Ok (?rc\<lparr>rc_stores := bt_insert s st' (rc_stores rc)\<rparr>, r)"
      unfolding run Let_def if_P [OF True] first by simp
    ultimately show thesis using that by (simp add: e del: of_nat_Suc)
  next
    case False
    with chain_nth_step [OF ch k(2)] obtain q vc where p: "p = Some q"
      and step: "log_step (wh_json W) (P s i) q r vc" by (auto simp: e k(1))
    have rev: "rcp_revision r = of_nat (Suc k)" using chain_revision [OF ch k(2)] by (simp add: e)
    have self: "recipe_eq r r" using stored_logD(5) [OF sl k(2)] by (simp add: e stored_def)
    have mem: "(r, Some q) \<in> set (D s i)" using nth_mem [OF k(2)] by (simp add: e p)
    have ne: "P s i \<noteq> []" using False k by auto
    have fresh: "pat_patch_id q' \<noteq> pat_patch_id q" if "q' \<in> logged (P s)" for q'
      using patch_fresh [OF on_diskD(2) [OF disk] pre k(1) k(2) _ that] by (simp add: e p)
    from recover_next_step [OF rc sl rev self mem step ne fresh] obtain st' B' where
      nxt: "\<And>os rs. recover_next W (at_location s i) (rc\<lparr>rc_objects := os, rc_revisions := rs\<rparr>) (of_nat (Suc k))
        (envelope_of (r, Some q)) =
      Ok (rc\<lparr>rc_objects := os, rc_revisions := rs, rc_backend := B', rc_stores := bt_insert s st' (rc_stores rc)\<rparr>)"
      and rep': "represents (wh_json W) st' ((P s)(i := P s i @ [(r, Some q)]))"
      and B': "on_disk W B' D" "\<exists>js. B' = B\<lparr>be_journals := js\<rparr>" by blast
    have "recover_revision W (at_location s i) rc (of_nat (Suc k)) =
        Ok (rc\<lparr>rc_objects := insert (object_key (rcp_digest r)) (rc_objects rc),
             rc_revisions := insert (s, i, of_nat (Suc k)) (rc_revisions rc),
             rc_backend := B', rc_stores := bt_insert s st' (rc_stores rc)\<rparr>, r)"
      unfolding run Let_def if_not_P [OF False] p nxt by simp
    with recovered_extend [OF rc B' rep', unfolded len fst_conv] that show thesis
      by (simp add: e p del: of_nat_Suc)
  qed
qed

text \<open>
  \<open>RecipeService::open\<close> as a whole: every committed pointer is followed, the orphans are moved away, and the
  result is a service whose stores represent the ledger on disk.
\<close>

section \<open>All revisions of a recipe\<close>

lemma take_extended:
  assumes "P s i = take k (D s i)" and "k < length (D s i)"
  shows "extended P s i (D s i ! k) s i = take (Suc k) (D s i)"
  using assms by (simp add: take_Suc_conv_app_nth)

lemma take_extended_others:
  assumes "\<And>j. \<exists>m. P s j = take m (D s j)" and "P s i = take k (D s i)" and "k < length (D s i)"
  shows "\<exists>m. extended P s i (D s i ! k) s j = take m (D s j)"
  using assms take_extended [of P s i k D] by (cases "j = i") (auto simp: extended_at)

lemma recover_revisions_all:
  assumes "recovered W B D rc P" and "\<And>j. \<exists>m. P s j = take m (D s j)"
    and "P s i = take k (D s i)" and "k \<le> length (D s i)"
  shows "\<exists>rc'. recover_revisions W (at_location s i) (rc, found) (map of_nat [Suc k..<Suc (length (D s i))]) =
      Ok (rc', if k = length (D s i) then found else Some (log_head (D s i))) \<and>
      recovered W B D rc' (P(s := (P s)(i := D s i)))"
  using assms
proof (induction "length (D s i) - k" arbitrary: k rc P found)
  case 0
  then have "k = length (D s i)" by simp
  with 0 show ?case by (auto simp: fun_upd_idem)
next
  case (Suc n)
  then have k: "k < length (D s i)" by simp
  then have upt: "[Suc k..<Suc (length (D s i))] = Suc k # [Suc (Suc k)..<Suc (length (D s i))]"
    by (simp add: upt_conv_Cons del: upt_Suc)
  let ?P = "extended P s i (D s i ! k)"
  from recover_revision_step [OF Suc.prems(1,2,3) k] obtain rc1 where
    one: "recover_revision W (at_location s i) rc (of_nat (Suc k)) = Ok (rc1, fst (D s i ! k))"
    and rc1: "recovered W B D rc1 ?P" by blast
  have "\<exists>rc'. recover_revisions W (at_location s i) (rc1, Some (fst (D s i ! k)))
        (map of_nat [Suc (Suc k)..<Suc (length (D s i))]) =
      Ok (rc', if Suc k = length (D s i) then Some (fst (D s i ! k)) else Some (log_head (D s i))) \<and>
      recovered W B D rc' (?P(s := (?P s)(i := D s i)))"
    using Suc.hyps(2) k by (intro Suc.hyps(1) rc1 take_extended_others take_extended Suc.prems) auto
  moreover have "?P(s := (?P s)(i := D s i)) = P(s := (P s)(i := D s i))" by (simp add: extended_def)
  moreover have "Suc k = length (D s i) \<Longrightarrow> fst (D s i ! k) = log_head (D s i)"
    using k by (metis log_head_def last_conv_nth diff_Suc_1 length_greater_0_conv gr_implies_not0 list.size(3))
  ultimately show ?case using k by (auto simp: upt one simp del: upt_Suc of_nat_Suc)
qed

lemma recover_recipe_all:
  assumes rc: "recovered W B D rc P" and pre: "\<And>j. \<exists>m. P s j = take m (D s j)" and "P s i = []"
    and ne: "D s i \<noteq> []"
  obtains rc' where "recover_recipe W rc (at_location s i) (pointer_to (log_head (D s i))) = Ok rc'"
    and "recovered W B D rc' (P(s := (P s)(i := D s i)))"
proof -
  have "on_disk W (rc_backend rc) D" using rc by (simp add: recovered_def)
  then have "chain (wh_json W) i (D s i)" using ne on_diskD(3) stored_logD(1) by blast
  then have len: "unat (rcp_revision (log_head (D s i))) = length (D s i)" using chain_head by blast
  from recover_revisions_all [OF rc pre, of i 0 None] assms(3) obtain rc' where
    "recover_revisions W (at_location s i) (rc, None) (map of_nat [Suc 0..<Suc (length (D s i))]) =
      Ok (rc', Some (log_head (D s i)))" "recovered W B D rc' (P(s := (P s)(i := D s i)))"
    using ne by auto
  with that show thesis by (simp add: recover_recipe_def pointer_to_def len del: upt_Suc)
qed

section \<open>All pointers\<close>

definition restricted :: "ledger \<Rightarrow> recipe_location set \<Rightarrow> ledger" where
  "restricted D T = (\<lambda>s i. if at_location s i \<in> T then D s i else [])"

lemma restricted_take: "\<exists>m. restricted D T s j = take m (D s j)"
proof (cases "at_location s j \<in> T")
  case True
  then have "restricted D T s j = take (length (D s j)) (D s j)" by (simp add: restricted_def)
  then show ?thesis ..
next
  case False
  then have "restricted D T s j = take 0 (D s j)" by (simp add: restricted_def)
  then show ?thesis ..
qed

lemma restricted_insert:
  "(restricted D T)(s := (restricted D T s)(i := D s i)) = restricted D (insert (at_location s i) T)"
  by (intro ext) (simp add: restricted_def)

lemma recover_all_pointers:
  assumes "recovered W B D rc (restricted D T)" and "distinct (map fst ps)" and "fst ` set ps \<inter> T = {}"
    and "\<And>l pointer. (l, pointer) \<in> set ps \<Longrightarrow> D (loc_scope l) (loc_recipe_id l) \<noteq> [] \<and>
      pointer = pointer_to (log_head (D (loc_scope l) (loc_recipe_id l)))"
  shows "\<exists>rc'. recover_all W rc ps = Ok rc' \<and> recovered W B D rc' (restricted D (T \<union> fst ` set ps))"
  using assms
proof (induction ps arbitrary: rc T)
  case Nil
  then show ?case by simp
next
  case (Cons lp ps)
  obtain l pointer where lp: "lp = (l, pointer)" by (cases lp)
  obtain s i where l: "l = at_location s i" by (metis at_location_parts)
  have at: "D s i \<noteq> []" "pointer = pointer_to (log_head (D s i))" "at_location s i \<notin> T"
    using Cons.prems(3) Cons.prems(4) [of l pointer] by (auto simp: lp l)
  then have "restricted D T s i = []" by (simp add: restricted_def)
  from recover_recipe_all [OF Cons.prems(1) restricted_take this at(1)] obtain rc1 where
    one: "recover_recipe W rc l pointer = Ok rc1"
    and rc1: "recovered W B D rc1 (restricted D (insert l T))"
    unfolding restricted_insert by (auto simp: at(2) l)
  have "\<exists>rc'. recover_all W rc1 ps = Ok rc' \<and> recovered W B D rc' (restricted D (insert l T \<union> fst ` set ps))"
    using Cons.prems(2,3) by (intro Cons.IH rc1 Cons.prems(4)) (auto simp: lp)
  then show ?case by (simp add: lp one)
qed

lemma parse_pointers_all:
  "(\<And>k p. (k, p) \<in> set m \<Longrightarrow> committed_pointer k \<noteq> None) \<Longrightarrow>
     parse_pointers m = Some (map (\<lambda>(k, p). (the (committed_pointer k), p)) m)"
  by (induction m) (force split: option.splits)+

lemma committed_pointers_on_disk:
  assumes disk: "on_disk W B D"
  obtains ps where "committed_pointers B = Some ps" and "distinct (map fst ps)"
    and "\<And>l pointer. (l, pointer) \<in> set ps \<Longrightarrow> D (loc_scope l) (loc_recipe_id l) \<noteq> [] \<and>
      pointer = pointer_to (log_head (D (loc_scope l) (loc_recipe_id l)))"
    and "\<And>s i. D s i \<noteq> [] \<Longrightarrow> at_location s i \<in> fst ` set ps"
proof -
  let ?m = "be_pointers B"
  let ?ps = "map (\<lambda>(k, p). (the (committed_pointer k), p)) ?m"
  have wf: "bt_wf ?m" using on_diskD(1) [OF disk] by (simp add: tidy_def)
  have slash: "slash_free s" if "D s i \<noteq> []" for s i using on_diskD(3) [OF disk that] by (simp add: stored_log_def)
  have key: "\<exists>s i. D s i \<noteq> [] \<and> k = pointer_key (at_location s i) \<and> committed_pointer k = Some (at_location s i) \<and>
      p = pointer_to (log_head (D s i))" if "(k, p) \<in> set ?m" for k p
  proof -
    have get: "bt_get ?m k = Some p" using that by (simp add: bt_get_entries [OF wf])
    with on_diskD(5) [OF disk, of k] obtain s i where si: "D s i \<noteq> []" "k = pointer_key (at_location s i)" by auto
    note sl = slash [OF si(1)]
    have "p = pointer_to (log_head (D s i))" using on_diskD(4) [OF disk sl, of i] get si by simp
    with si committed_pointer_key [OF sl] show ?thesis by blast
  qed
  show thesis
  proof
    show "committed_pointers B = Some ?ps"
      unfolding committed_pointers_def using key by (intro parse_pointers_all) force
    show "distinct (map fst ?ps)"
    proof -
      have "inj_on (\<lambda>k. the (committed_pointer k)) (fst ` set ?m)"
      proof (rule inj_onI)
        fix k k'
        assume "k \<in> fst ` set ?m" "k' \<in> fst ` set ?m" and same: "the (committed_pointer k) = the (committed_pointer k')"
        then obtain p p' where "(k, p) \<in> set ?m" "(k', p') \<in> set ?m" by auto
        from key [OF this(1)] key [OF this(2)] same show "k = k'" by auto
      qed
      with bt_wf_distinct [OF wf] have "distinct (map (\<lambda>k. the (committed_pointer k)) (map fst ?m))"
        by (simp add: distinct_map comp_inj_on)
      then show ?thesis by (simp add: comp_def case_prod_beta)
    qed
    show "D (loc_scope l) (loc_recipe_id l) \<noteq> [] \<and> pointer = pointer_to (log_head (D (loc_scope l) (loc_recipe_id l)))"
      if "(l, pointer) \<in> set ?ps" for l pointer
    proof -
      from that obtain k where "(k, pointer) \<in> set ?m" "l = the (committed_pointer k)" by auto
      with key [OF this(1)] show ?thesis by auto
    qed
    show "at_location s i \<in> fst ` set ?ps" if "D s i \<noteq> []" for s i
    proof -
      note sl = slash [OF that]
      have "(pointer_key (at_location s i), pointer_to (log_head (D s i))) \<in> set ?m"
        using on_diskD(4) [OF disk sl, of i] that by (simp add: bt_get_entries [OF wf])
      then have "(the (committed_pointer (pointer_key (at_location s i))), pointer_to (log_head (D s i))) \<in> set ?ps"
        by force
      then show ?thesis using committed_pointer_key [OF sl] by force
    qed
  qed
qed

section \<open>Opening\<close>

lemma on_disk_fields:
  assumes "on_disk W B D" and "be_objects B' = be_objects B" and "be_revisions B' = be_revisions B"
    and "be_pointers B' = be_pointers B" and "be_journals B' = be_journals B"
  shows "on_disk W B' D"
  using assms stored_cong [OF assms(3,2), of W] unfolding on_disk_def stored_log_def tidy_def by simp

lemma clean_fields:
  assumes "clean W B D" and "be_objects B' = be_objects B" and "be_revisions B' = be_revisions B"
    and "be_pointers B' = be_pointers B" and "be_journals B' = be_journals B"
  shows "clean W B' D"
  using assms on_disk_fields unfolding clean_def by metis

lemma quarantine_clean:
  assumes rc: "recovered W B D rc D"
  shows "clean W (quarantine_orphans (rc_backend rc) (rc_objects rc) (rc_revisions rc)) D"
proof -
  let ?B = "rc_backend rc" and ?C = "quarantine_orphans (rc_backend rc) (rc_objects rc) (rc_revisions rc)"
  have disk: "on_disk W ?B D" using rc by (simp add: recovered_def)
  note tidy = on_diskD(1) [OF disk]
  have objs: "bt_get (be_objects ?C) k = (if owns_object D k then bt_get (be_objects ?B) k else None)" for k
    using rc unfolding quarantine_orphans_maps(1) [OF tidy_disjoint [OF tidy]] by (simp add: recovered_def)
  have revs: "bt_get (be_revisions ?C) k =
      (if referenced_revision_keys k (rc_revisions rc) then bt_get (be_revisions ?B) k else None)" for k
    by (rule quarantine_orphans_maps(2) [OF tidy_disjoint [OF tidy]])
  have ref: "referenced_revision_keys (revision_key (at_location s i) n) (rc_revisions rc) \<longleftrightarrow>
      (\<exists>j < length (D s i). n = of_nat (Suc j))" if "slash_free s" "slash_free i" for s i n
    using rc unfolding referenced_revision_key [OF that] by (auto simp: recovered_def)
  have stored: "stored W ?C (at_location s i) (of_nat (Suc j)) (D s i ! j)"
    if "D s i \<noteq> []" "j < length (D s i)" for s i j
  proof -
    note sl = on_diskD(3) [OF disk that(1)]
    have "owns_object D (object_key (rcp_digest (fst (D s i ! j))))" using nth_mem [OF that(2)] unfolding owns_object_def by blast
    moreover have "referenced_revision_keys (revision_key (at_location s i) (of_nat (Suc j))) (rc_revisions rc)"
      using that(2) ref stored_logD(3,4) [OF sl] by blast
    ultimately show ?thesis using stored_logD(5) [OF sl that(2)] by (simp add: stored_def objs revs del: of_nat_Suc)
  qed
  have "tidy ?C"
    using tidy unfolding tidy_def by (auto simp: quarantine_orphans_fields objs revs split: if_splits)
  then have "on_disk W ?C D"
    using disk stored unfolding on_disk_def stored_log_def by (simp add: quarantine_orphans_fields)
  moreover have "owns_revision D k" if "bt_get (be_revisions ?C) k \<noteq> None" for k
  proof -
    from that have k: "bt_get (be_revisions ?B) k \<noteq> None" "referenced_revision_keys k (rc_revisions rc)"
      by (simp_all add: revs split: if_splits)
    from k(1) tidy obtain s i n where "slash_free s" "slash_free i" "k = revision_key (at_location s i) n"
      unfolding tidy_def by blast
    with k(2) ref show ?thesis by (auto simp: owns_revision_def)
  qed
  ultimately show ?thesis by (auto simp: clean_def objs split: if_splits)
qed

lemma open_on_disk:
  assumes disk: "on_disk W B D"
  obtains S where "service_open W B grants = Ok S" and "svc_grants S = grants" and "in_memory W (svc_stores S) D"
    and "clean W (svc_backend S) D" and "be_fail_after (svc_backend S) = None"
    and "be_activity_objects (svc_backend S) = be_activity_objects B"
    and "be_activity_pointers (svc_backend S) = be_activity_pointers B"
    and "be_conflicts (svc_backend S) = be_conflicts B"
proof -
  let ?B = "clear_fault B"
  let ?rc = "\<lparr>rc_backend = ?B, rc_stores = [], rc_objects = {}, rc_revisions = {}\<rparr>"
  have disk': "on_disk W ?B D" by (rule on_disk_fields [OF disk]) (simp_all add: clear_fault_def)
  from committed_pointers_on_disk [OF disk'] obtain ps where ps: "committed_pointers ?B = Some ps"
    "distinct (map fst ps)"
    "\<And>l pointer. (l, pointer) \<in> set ps \<Longrightarrow> D (loc_scope l) (loc_recipe_id l) \<noteq> [] \<and>
      pointer = pointer_to (log_head (D (loc_scope l) (loc_recipe_id l)))"
    "\<And>s i. D s i \<noteq> [] \<Longrightarrow> at_location s i \<in> fst ` set ps" by blast
  have none: "restricted D {} = (\<lambda>_ _. [])" by (simp add: restricted_def)
  have "\<exists>js. ?B = ?B\<lparr>be_journals := js\<rparr>" by (rule exI [of _ "be_journals ?B"]) simp
  then have "recovered W ?B D ?rc (restricted D {})"
    using disk' by (simp add: recovered_def none in_memory_empty owns_object_def)
  from recover_all_pointers [OF this ps(2) _ ps(3)] obtain rc where
    run: "recover_all W ?rc ps = Ok rc" and "recovered W ?B D rc (restricted D (fst ` set ps))" by auto
  moreover have "restricted D (fst ` set ps) = D"
  proof (intro ext)
    show "restricted D (fst ` set ps) s i = D s i" for s i
      using ps(4) [of s i] by (cases "D s i = []") (simp_all add: restricted_def)
  qed
  ultimately have rc: "recovered W ?B D rc D" by simp
  then obtain js where js: "rc_backend rc = ?B\<lparr>be_journals := js\<rparr>" by (auto simp: recovered_def)
  let ?S = "\<lparr>svc_backend = quarantine_orphans (rc_backend rc) (rc_objects rc) (rc_revisions rc),
      svc_grants = grants, svc_stores = rc_stores rc\<rparr>"
  have "service_open W B grants = Ok ?S" by (simp add: service_open_def Let_def ps(1) run)
  moreover have "in_memory W (rc_stores rc) D" using rc by (simp add: recovered_def)
  ultimately show thesis using quarantine_clean [OF rc]
    by (intro that [of ?S]) (simp_all add: quarantine_orphans_fields js clear_fault_def)
qed

end
