(* ===== verification/Workspace_Commit.thy ===== *)
theory Workspace_Commit
  imports Workspace_Recovery
begin

text \<open>
  One commit, stage by stage. From a clean backend, \<open>commit_recipe\<close> is a function of the requested fault: the
  states it can leave behind are the four stages below, the first two of which still hold the old ledger and the
  last two the extended one.
\<close>

section \<open>What may be committed\<close>

definition committable :: "workspace_host \<Rightarrow> ledger \<Rightarrow> string \<Rightarrow> string \<Rightarrow> recipe \<times> patch option \<Rightarrow> bool" where
  "committable W D s i e \<longleftrightarrow> slash_free s \<and> valid_key_id i \<and> scope_for_owner W (rcp_owner_ref (fst e)) = Ok s \<and>
     chain (wh_json W) i (D s i @ [e]) \<and>
     (\<forall>p. snd e = Some p \<longrightarrow> valid_key_id (pat_patch_id p) \<and>
        (\<forall>q \<in> logged (D s). pat_patch_id q \<noteq> pat_patch_id p)) \<and>
     survives W e"

definition expected_pointer :: "ledger \<Rightarrow> string \<Rightarrow> string \<Rightarrow> current_pointer option" where
  "expected_pointer D s i = (if D s i = [] then None else Some (pointer_to (log_head (D s i))))"

section \<open>The stages\<close>

definition object_stage :: "fixture_backend \<Rightarrow> string \<Rightarrow> string \<Rightarrow> fixture_backend" where
  "object_stage B d bytes = (case bt_get (be_objects B) (object_key d) of
     Some _ \<Rightarrow> B | None \<Rightarrow> B\<lparr>be_objects := bt_insert (object_key d) bytes (be_objects B)\<rparr>)"

definition revision_stage :: "fixture_backend \<Rightarrow> recipe_location \<Rightarrow> u64 \<Rightarrow> string \<Rightarrow> fixture_backend" where
  "revision_stage B l n bytes = B\<lparr>be_revisions := bt_insert (revision_key l n) bytes (be_revisions B)\<rparr>"

definition pointer_stage :: "fixture_backend \<Rightarrow> recipe_location \<Rightarrow> recipe \<Rightarrow> fixture_backend" where
  "pointer_stage B l r = B\<lparr>be_pointers := bt_insert (pointer_key l) (pointer_to r) (be_pointers B)\<rparr>"

definition journal_stage :: "fixture_backend \<Rightarrow> recipe_location \<Rightarrow> recipe \<Rightarrow> patch \<Rightarrow> string \<Rightarrow> fixture_backend" where
  "journal_stage B l r p d = B\<lparr>be_journals :=
     bt_insert (journal_key l (pat_patch_id p)) (journal_of p r d) (be_journals B)\<rparr>"

lemmas stage_defs = object_stage_def revision_stage_def pointer_stage_def journal_stage_def

lemma stage_fields [simp]:
  "be_revisions (object_stage B d b) = be_revisions B" "be_pointers (object_stage B d b) = be_pointers B"
  "be_journals (object_stage B d b) = be_journals B" "be_fail_after (object_stage B d b) = be_fail_after B"
  "be_activity_objects (object_stage B d b) = be_activity_objects B"
  "be_activity_pointers (object_stage B d b) = be_activity_pointers B"
  "be_conflicts (object_stage B d b) = be_conflicts B"
  by (simp_all add: object_stage_def split: option.split)

lemma object_stage_get:
  "bt_get (be_objects B) (object_key d) \<in> {None, Some b} \<Longrightarrow>
     bt_get (be_objects (object_stage B d b)) k = (if k = object_key d then Some b else bt_get (be_objects B) k)"
  by (auto simp: object_stage_def split: option.split)

section \<open>What the stages leave on disk\<close>

lemma stored_more:
  assumes "stored W B l n e"
    and "\<And>k b. bt_get (be_revisions B) k = Some b \<Longrightarrow> bt_get (be_revisions B') k = Some b"
    and "\<And>k b. bt_get (be_objects B) k = Some b \<Longrightarrow> bt_get (be_objects B') k = Some b"
  shows "stored W B' l n e"
  using assms unfolding stored_def by blast

lemma on_disk_more:
  assumes disk: "on_disk W B D" and "tidy B'" and "be_pointers B' = be_pointers B" and "be_journals B' = be_journals B"
    and "\<And>k b. bt_get (be_revisions B) k = Some b \<Longrightarrow> bt_get (be_revisions B') k = Some b"
    and "\<And>k b. bt_get (be_objects B) k = Some b \<Longrightarrow> bt_get (be_objects B') k = Some b"
  shows "on_disk W B' D"
proof -
  have "stored_log W B' s i (D s i)" if "D s i \<noteq> []" for s i
    using on_diskD(3) [OF disk that] stored_more [OF _ assms(5,6)] unfolding stored_log_def by blast
  with disk assms(2,3,4) show ?thesis unfolding on_disk_def by simp
qed

lemma distinct_ids_snoc:
  assumes d: "distinct_patch_ids L" and fresh: "\<And>p q. snd e = Some p \<Longrightarrow> q \<in> logged L \<Longrightarrow> pat_patch_id q \<noteq> pat_patch_id p"
  shows "distinct_patch_ids (L(i := L i @ [e]))"
  unfolding distinct_patch_ids_def
proof (intro allI impI, elim conjE)
  fix j k a b p1 p2
  let ?L = "L(i := L i @ [e])"
  assume h: "a < length (?L j)" "b < length (?L k)" "snd (?L j ! a) = Some p1"
    "snd (?L k ! b) = Some p2" "pat_patch_id p1 = pat_patch_id p2"
  have old: "q \<in> logged L" if "m < length (L l)" "snd (L l ! m) = Some q" for m l q
    using that by (force simp: logged_def in_set_conv_nth)
  let ?new = "\<lambda>l m. l = i \<and> m = length (L i)"
  have pos: "m < length (L l) \<and> snd (L l ! m) = Some q"
    if "m < length (?L l)" "snd (?L l ! m) = Some q" "\<not> ?new l m" for l m q
    using that by (auto simp: nth_append split: if_splits)
  have new: "snd e = Some q" if "snd (?L l ! m) = Some q" "?new l m" for l m q
    using that by auto
  show "j = k \<and> a = b"
  proof (cases "?new j a"; cases "?new k b")
    assume n: "?new j a" "\<not> ?new k b"
    have "p2 \<in> logged L" using pos [OF h(2,4) n(2)] old by blast
    with fresh [OF new [OF h(3) n(1)]] h(5) show ?thesis by metis
  next
    assume n: "\<not> ?new j a" "?new k b"
    have "p1 \<in> logged L" using pos [OF h(1,3) n(1)] old by blast
    with fresh [OF new [OF h(4) n(2)]] h(5) show ?thesis by metis
  next
    assume n: "\<not> ?new j a" "\<not> ?new k b"
    from pos [OF h(1,3) n(1)] pos [OF h(2,4) n(2)] h(5) d show ?thesis
      unfolding distinct_patch_ids_def by blast
  qed blast
qed

lemma on_disk_extended:
  assumes disk: "on_disk W B D" and c: "committable W D s i e"
    and new: "stored W B (at_location s i) (of_nat (Suc (length (D s i)))) e"
  shows "on_disk W (pointer_stage B (at_location s i) (fst e)) (extended D s i e)"
proof -
  let ?B = "pointer_stage B (at_location s i) (fst e)" and ?D = "extended D s i e"
  have keep: "stored W ?B = stored W B" by (rule stored_cong) (simp_all add: pointer_stage_def)
  have sf: "slash_free s" and ch: "chain (wh_json W) i (D s i @ [e])"
    and key: "valid_key_id i" and scope: "scope_for_owner W (rcp_owner_ref (fst e)) = Ok s"
    and ids: "\<And>p. snd e = Some p \<Longrightarrow> valid_key_id (pat_patch_id p)"
    and fresh: "\<And>p q. snd e = Some p \<Longrightarrow> q \<in> logged (D s) \<Longrightarrow> pat_patch_id q \<noteq> pat_patch_id p"
    using c by (auto simp: committable_def)
  have old: "stored_log W B t j (D t j)" if "D t j \<noteq> []" for t j by (rule on_diskD(3) [OF disk that])
  have "stored_log W ?B s i (?D s i)"
    unfolding stored_log_def keep
  proof (intro conjI allI impI)
    show "chain (wh_json W) i (?D s i)" using ch by simp
    show "valid_key_id i" "slash_free s" by (fact key, fact sf)
    show "scope_for_owner W (rcp_owner_ref (log_head (?D s i))) = Ok s" using scope by (simp add: log_head_def)
    show "valid_key_id (pat_patch_id p)" if "Some p \<in> snd ` set (?D s i)" for p
      using that ids old [of s i] by (cases "D s i = []") (auto simp: stored_log_def)
    show "stored W B (at_location s i) (of_nat (Suc j)) (?D s i ! j)" if "j < length (?D s i)" for j
      using that new old [of s i]
      by (cases "D s i = []"; cases "j < length (D s i)") (auto simp: stored_log_def nth_append less_Suc_eq)
  qed
  then have logs: "stored_log W ?B t j (?D t j)" if "?D t j \<noteq> []" for t j
    using that old [of t j] unfolding stored_log_def keep by (cases "t = s \<and> j = i") (auto simp: extended_at)
  have "distinct_patch_ids (?D t)" for t
    using distinct_ids_snoc [OF on_diskD(2) [OF disk, of s] fresh] on_diskD(2) [OF disk, of t]
    by (cases "t = s") auto
  moreover have "tidy ?B" using on_diskD(1) [OF disk] by (simp add: tidy_def pointer_stage_def)
  moreover have "bt_get (be_pointers ?B) (pointer_key (at_location t j)) =
      (if ?D t j = [] then None else Some (pointer_to (log_head (?D t j))))" if "slash_free t" for t j
    using on_diskD(4) [OF disk that, of j] pointer_key_inject [OF that sf, of j i]
    by (auto simp: pointer_stage_def extended_at log_head_def)
  moreover have "\<exists>t j. ?D t j \<noteq> [] \<and> k = pointer_key (at_location t j)" if "bt_get (be_pointers ?B) k \<noteq> None" for k
    using that on_diskD(5) [OF disk, of k] by (auto simp: pointer_stage_def extended_at split: if_splits)
  moreover have "\<exists>t j. journal_entry W t j (?D t j) k entry" if "bt_get (be_journals ?B) k = Some entry" for k entry
  proof -
    from that have "bt_get (be_journals B) k = Some entry" by (simp add: pointer_stage_def)
    from on_diskD(6) [OF disk this] obtain t j where "journal_entry W t j (D t j) k entry" by blast
    then have "journal_entry W t j (?D t j) k entry" by (auto simp: journal_entry_def extended_at)
    then show ?thesis by blast
  qed
  ultimately show ?thesis using logs unfolding on_disk_def by blast
qed

section \<open>The commit as a function of the requested fault\<close>

lemma committable_index:
  assumes "committable W D s i (r, p)"
  shows "rcp_revision r = of_nat (Suc (length (D s i)))" and "rcp_recipe_id r = i"
    and "length (D s i) + 1 < 2 ^ 64"
proof -
  have ch: "chain (wh_json W) i (D s i @ [(r, p)])" using assms by (simp add: committable_def)
  show "rcp_revision r = of_nat (Suc (length (D s i)))" "rcp_recipe_id r = i"
    using chain_revision [OF ch, of "length (D s i)"] chain_nth(1) [OF ch, of "length (D s i)"] by simp_all
  show "length (D s i) + 1 < 2 ^ 64" using chain_length_bound [OF ch] by simp
qed

lemma revision_key_free:
  assumes clean: "clean W B D" and c: "committable W D s i (r, p)"
  shows "bt_get (be_revisions B) (revision_key (at_location s i) (rcp_revision r)) = None"
proof (rule ccontr)
  assume "bt_get (be_revisions B) (revision_key (at_location s i) (rcp_revision r)) \<noteq> None"
  with clean obtain t k j where j: "j < length (D t k)"
    and key: "revision_key (at_location s i) (rcp_revision r) = revision_key (at_location t k) (of_nat (Suc j))"
    unfolding clean_def owns_revision_def by blast
  have "on_disk W B D" using clean by (simp add: clean_def)
  moreover have "D t k \<noteq> []" using j by auto
  ultimately have sl: "stored_log W B t k (D t k)" by (rule on_diskD(3))
  have "slash_free s" "slash_free i" using c by (simp_all add: committable_def valid_key_slash_free)
  with key stored_logD(3,4) [OF sl] have same: "s = t" "i = k" "rcp_revision r = of_nat (Suc j)"
    by (simp_all add: revision_key_inject del: of_nat_Suc)
  have unat: "unat (of_nat (Suc m) :: u64) = Suc m" if "Suc m < 2 ^ 64" for m
    using that by (simp add: unsigned_of_nat take_bit_nat_eq_self del: of_nat_Suc)
  have "(of_nat (Suc j) :: u64) = of_nat (Suc (length (D s i)))"
    using same(3) committable_index(1) [OF c] by simp
  then have "unat (of_nat (Suc j) :: u64) = unat (of_nat (Suc (length (D s i))) :: u64)" by simp
  with unat [of j] unat [of "length (D s i)"] committable_index(3) [OF c] j same
  show False by simp
qed

lemma journal_key_free:
  assumes disk: "on_disk W B D" and c: "committable W D s i (r, Some p)"
  shows "bt_get (be_journals B) (journal_key (at_location s i) (pat_patch_id p)) = None"
proof (rule ccontr)
  assume "bt_get (be_journals B) (journal_key (at_location s i) (pat_patch_id p)) \<noteq> None"
  then obtain entry where "bt_get (be_journals B) (journal_key (at_location s i) (pat_patch_id p)) = Some entry" by blast
  from on_diskD(6) [OF disk this] obtain t j q r' where q: "(r', Some q) \<in> set (D t j)"
    and key: "journal_key (at_location s i) (pat_patch_id p) = journal_key (at_location t j) (pat_patch_id q)"
    by (auto simp: journal_entry_def)
  then have sl: "stored_log W B t j (D t j)" using on_diskD(3) [OF disk, of t j] by (cases "D t j") auto
  have "slash_free s" "slash_free i" using c by (simp_all add: committable_def valid_key_slash_free)
  with key stored_logD(3,4) [OF sl] have "s = t" "i = j" "pat_patch_id p = pat_patch_id q"
    by (simp_all add: journal_key_inject)
  moreover have "q \<in> logged (D t)" using q unfolding logged_def by force
  ultimately show False using c by (auto simp: committable_def)
qed

definition journal_done :: "host \<Rightarrow> fixture_backend \<Rightarrow> recipe_location \<Rightarrow> recipe \<Rightarrow> patch option \<Rightarrow> fixture_backend" where
  "journal_done H B l r p =
     (case p of None \<Rightarrow> B | Some q \<Rightarrow> journal_stage B l r q (projr (intent_digest H q)))"

lemma commit_recipe_eq:
  assumes clean: "clean W B D" and c: "committable W D s i (r, p)"
    and rb: "canonical_bytes (wh_json W) (recipe_json r) = Ok rb"
    and eb: "canonical_bytes (wh_json W) (envelope_json (envelope_of (r, p))) = Ok eb"
  defines "l \<equiv> at_location s i"
  defines "B1 \<equiv> object_stage B (rcp_digest r) rb"
  defines "B2 \<equiv> revision_stage B1 l (rcp_revision r) eb"
  defines "B3 \<equiv> pointer_stage B2 l r"
  defines "B4 \<equiv> journal_done (wh_json W) B3 l r p"
  shows "commit_recipe W B l r p (expected_pointer D s i) =
    (if bt_get (be_objects B) (object_key (rcp_digest r)) \<notin> {None, Some rb} then (B, Err (SvcBackend HashCollision))
     else if be_fail_after B = Some StageObject then (clear_fault B1, Err (SvcCrash StageObject))
     else if be_fail_after B = Some StageRevision then (clear_fault B2, Err (SvcCrash StageRevision))
     else if be_fail_after B = Some StagePointer then (clear_fault B3, Err (SvcCrash StagePointer))
     else if be_fail_after B = Some StageJournal \<and> p \<noteq> None then (clear_fault B4, Err (SvcCrash StageJournal))
     else (B4, Ok ()))"
proof -
  have disk: "on_disk W B D" and sf: "slash_free s"
    using clean c by (simp_all add: clean_def committable_def)
  have put1: "put_object_once B (rcp_digest r) rb =
      (if bt_get (be_objects B) (object_key (rcp_digest r)) \<notin> {None, Some rb} then (B, Err HashCollision)
       else crash_if_requested B1 StageObject)"
    by (auto simp: put_object_once_def B1_def object_stage_def Let_def split: option.split)
  have put2: "put_revision_once (wh_json W) B1 l (rcp_revision r) (envelope_of (r, p)) = crash_if_requested B2 StageRevision"
    using revision_key_free [OF clean c] by (simp add: put_revision_once_def B1_def B2_def revision_stage_def l_def eb Let_def)
  have put3: "cas_current B2 l (expected_pointer D s i) (pointer_to r) = crash_if_requested B3 StagePointer"
    using on_diskD(4) [OF disk sf, of i]
    by (simp add: cas_current_def B3_def B2_def B1_def revision_stage_def pointer_stage_def expected_pointer_def l_def Let_def)
  have put4: "commit_journal (wh_json W) B3 l r p =
      (if p = None then (B4, Ok ()) else (case crash_if_requested B4 StageJournal of (B, res) \<Rightarrow> (B, map_err commit_error res)))"
  proof (cases p)
    case None
    then show ?thesis by (simp add: commit_journal_def B4_def journal_done_def)
  next
    case (Some q)
    then have step: "chain (wh_json W) i (D s i @ [(r, Some q)])" using c by (simp add: committable_def)
    then have "is_ok (intent_digest (wh_json W) q)"
      by (rule chain_snocE) (auto simp: log_step_def Let_def)
    then obtain d where "intent_digest (wh_json W) q = Ok d" by (auto simp: is_ok_iff)
    moreover have "bt_get (be_journals B3) (journal_key l (pat_patch_id q)) = None"
      using journal_key_free [OF disk] c Some
      by (simp add: B3_def B2_def B1_def revision_stage_def pointer_stage_def l_def)
    ultimately show ?thesis
      by (simp add: Some commit_journal_def put_journal_once_def journal_of_def B4_def journal_done_def
          journal_stage_def Let_def)
  qed
  have fails: "be_fail_after B1 = be_fail_after B" "be_fail_after B2 = be_fail_after B"
    "be_fail_after B3 = be_fail_after B" "be_fail_after B4 = be_fail_after B"
    by (simp_all add: B1_def B2_def B3_def B4_def revision_stage_def pointer_stage_def journal_done_def
        journal_stage_def split: option.split)
  have crash: "crash_if_requested C stage = (if be_fail_after C = Some stage then (clear_fault C, Err (BackendCrash stage))
      else (C, Ok ()))" for C stage by (simp add: crash_if_requested_def clear_fault_def)
  show ?thesis
    unfolding commit_recipe_def rb sum.case put1 envelope_of_simps(3) crash fails
    by (simp only: if_split put2 put3 put4 crash fails prod.case sum.case commit_error_def backend_error.case
        map_err_simps split: if_split) simp
qed

section \<open>The outcomes of a commit\<close>

definition same_side_maps :: "fixture_backend \<Rightarrow> fixture_backend \<Rightarrow> bool" where
  "same_side_maps B C \<longleftrightarrow> be_activity_objects B = be_activity_objects C \<and>
     be_activity_pointers B = be_activity_pointers C \<and> be_conflicts B = be_conflicts C"

lemma stages_on_disk:
  assumes clean: "clean W B D" and c: "committable W D s i (r, p)"
    and rb: "canonical_bytes (wh_json W) (recipe_json r) = Ok rb"
    and eb: "canonical_bytes (wh_json W) (envelope_json (envelope_of (r, p))) = Ok eb"
    and free: "bt_get (be_objects B) (object_key (rcp_digest r)) \<in> {None, Some rb}"
  defines "l \<equiv> at_location s i" and "D' \<equiv> extended D s i (r, p)"
  defines "B1 \<equiv> object_stage B (rcp_digest r) rb"
  defines "B2 \<equiv> revision_stage B1 l (rcp_revision r) eb"
  defines "B3 \<equiv> pointer_stage B2 l r"
  defines "B4 \<equiv> journal_done (wh_json W) B3 l r p"
  shows "on_disk W B1 D" and "on_disk W B2 D" and "on_disk W B3 D'" and "clean W B4 D'"
proof -
  have disk: "on_disk W B D" using clean by (simp add: clean_def)
  note tidy = on_diskD(1) [OF disk]
  have sf: "slash_free s" "slash_free i" using c by (simp_all add: committable_def valid_key_slash_free)
  note get1 = object_stage_get [OF free]
  have tidy1: "tidy B1"
    using tidy unfolding B1_def tidy_def by (auto simp: get1 object_stage_def split: option.split if_splits)
  have get2: "bt_get (be_revisions B2) k = (if k = revision_key l (rcp_revision r) then Some eb else bt_get (be_revisions B) k)" for k
    by (simp add: B2_def B1_def revision_stage_def)
  have objs2: "be_objects B2 = be_objects B1" by (simp add: B2_def revision_stage_def)
  show disk1: "on_disk W B1 D"
    by (rule on_disk_more [OF disk tidy1]) (use free in \<open>auto simp: B1_def get1\<close>)
  have "tidy B2" using tidy1 sf unfolding tidy_def B2_def revision_stage_def by (auto simp: l_def)
  then show disk2: "on_disk W B2 D"
  proof (rule on_disk_more [OF disk])
    show "be_pointers B2 = be_pointers B" "be_journals B2 = be_journals B"
      by (simp_all add: B2_def B1_def revision_stage_def)
    show "bt_get (be_revisions B2) k = Some b" if "bt_get (be_revisions B) k = Some b" for k b
      using that revision_key_free [OF clean c] by (auto simp: get2 l_def)
    show "bt_get (be_objects B2) k = Some b" if "bt_get (be_objects B) k = Some b" for k b
      using that free by (auto simp: objs2 B1_def get1)
  qed
  have "survives W (r, p)" using c by (simp add: committable_def)
  then have "stored W B2 l (of_nat (Suc (length (D s i)))) (r, p)"
    using rb eb committable_index(1) [OF c]
    by (auto simp: stored_def survives_def get2 objs2 B1_def get1 simp del: of_nat_Suc)
  from on_disk_extended [OF disk2 c this [unfolded l_def]]
  show disk3: "on_disk W B3 D'" by (simp add: B3_def l_def D'_def)
  have B4: "be_revisions B4 = be_revisions B2" "be_objects B4 = be_objects B1"
    by (simp_all add: B4_def B3_def objs2 journal_done_def journal_stage_def pointer_stage_def split: option.split)
  have disk4: "on_disk W B4 D'"
  proof (cases p)
    case None
    with disk3 show ?thesis by (simp add: B4_def journal_done_def)
  next
    case (Some q)
    then have mem: "(r, Some q) \<in> set (D' s i)" by (simp add: D'_def)
    have "D' s i \<noteq> []" by (simp add: D'_def)
    from stored_logD(7) [OF on_diskD(3) [OF disk3 this] mem] obtain d where
      d: "intent_digest (wh_json W) q = Ok d" by (auto simp: is_ok_iff)
    from on_disk_journal [where D = D', OF disk3 mem d] show ?thesis
      by (simp add: B4_def journal_done_def journal_stage_def Some d l_def)
  qed
  have "owns_revision D' k" if "bt_get (be_revisions B4) k \<noteq> None" for k
  proof (cases "k = revision_key l (rcp_revision r)")
    case True
    then have "length (D s i) < length (D' s i)" "k = revision_key (at_location s i) (of_nat (Suc (length (D s i))))"
      using committable_index(1) [OF c] by (simp_all add: D'_def l_def)
    then show ?thesis unfolding owns_revision_def by blast
  next
    case False
    with that clean have "owns_revision D k" by (simp add: B4 get2 clean_def)
    then obtain t j n where "n < length (D t j)" and k: "k = revision_key (at_location t j) (of_nat (Suc n))"
      unfolding owns_revision_def by blast
    moreover have "length (D t j) \<le> length (D' t j)" by (simp add: D'_def extended_at)
    ultimately have "n < length (D' t j)" by simp
    then show ?thesis unfolding owns_revision_def k by blast
  qed
  moreover have "owns_object D' k" if "bt_get (be_objects B4) k \<noteq> None" for k
    using that clean by (auto simp: B4 B1_def get1 D'_def owns_object_extended clean_def split: if_splits)
  ultimately show "clean W B4 D'" using disk4 by (simp add: clean_def)
qed

lemma same_side_maps_clear [simp]: "same_side_maps (clear_fault A) B \<longleftrightarrow> same_side_maps A B"
  by (simp add: same_side_maps_def clear_fault_def)

text \<open>A commit is refused because of a colliding object and changes nothing, or crashes at the requested stage,
  or completes; had no fault been requested, the one that crashes would have completed.\<close>

lemma commit_staged_cases:
  assumes clean: "clean W (svc_backend S) D" and c: "committable W D s i (r, p)"
    and run: "commit_staged W S (at_location s i) r p (expected_pointer D s i) staged x = (S', res)"
  obtains (collision) "res = Err (SvcBackend HashCollision)" "S' = S"
  | (crash) stage B' B'' where "res = Err (SvcCrash stage)" "S' = S\<lparr>svc_backend := B'\<rparr>"
      "be_fail_after (svc_backend S) = Some stage"
      "on_disk W B' (if stage \<in> {StageObject, StageRevision} then D else extended D s i (r, p))"
      "same_side_maps B' (svc_backend S)"
      "commit_staged W (S\<lparr>svc_backend := clear_fault (svc_backend S)\<rparr>) (at_location s i) r p (expected_pointer D s i) staged x =
         (S\<lparr>svc_backend := B'', svc_stores := bt_insert s staged (svc_stores S)\<rparr>, Ok x)"
  | (completed) B' where "res = Ok x" "S' = S\<lparr>svc_backend := B', svc_stores := bt_insert s staged (svc_stores S)\<rparr>"
      "clean W B' (extended D s i (r, p))" "same_side_maps B' (svc_backend S)"
proof -
  let ?B = "svc_backend S" and ?l = "at_location s i"
  have rbk: "survives W (r, p)" using c by (simp add: committable_def)
  then obtain rb eb where rb: "canonical_bytes (wh_json W) (recipe_json r) = Ok rb"
    and eb: "canonical_bytes (wh_json W) (envelope_json (envelope_of (r, p))) = Ok eb"
    by (auto simp: survives_def is_ok_iff)
  let ?B1 = "object_stage ?B (rcp_digest r) rb"
  let ?B2 = "revision_stage ?B1 ?l (rcp_revision r) eb"
  let ?B3 = "pointer_stage ?B2 ?l r"
  let ?B4 = "journal_done (wh_json W) ?B3 ?l r p"
  note eq = commit_recipe_eq [OF clean c rb eb]
  show thesis
  proof (cases "bt_get (be_objects ?B) (object_key (rcp_digest r)) \<in> {None, Some rb}")
    case False
    with run have "res = Err (SvcBackend HashCollision)" "S' = S" by (simp_all add: commit_staged_def eq)
    then show thesis by (rule collision)
  next
    case free: True
    note st = stages_on_disk [OF clean c rb eb free]
    have sides: "same_side_maps ?B1 ?B" "same_side_maps ?B2 ?B" "same_side_maps ?B3 ?B" "same_side_maps ?B4 ?B"
      by (simp_all add: same_side_maps_def revision_stage_def pointer_stage_def journal_done_def journal_stage_def
          split: option.split)
    have quiet: "\<exists>B''. commit_staged W (S\<lparr>svc_backend := clear_fault ?B\<rparr>) ?l r p (expected_pointer D s i) staged x =
        (S\<lparr>svc_backend := B'', svc_stores := bt_insert s staged (svc_stores S)\<rparr>, Ok x)"
    proof -
      have "clean W (clear_fault ?B) D" by (rule clean_fields [OF clean]) (simp_all add: clear_fault_def)
      note eq' = commit_recipe_eq [OF this c rb eb]
      have f: "be_fail_after (clear_fault ?B) = None" "be_objects (clear_fault ?B) = be_objects ?B"
        by (simp_all add: clear_fault_def)
      have "\<exists>B''. commit_recipe W (clear_fault ?B) ?l r p (expected_pointer D s i) = (B'', Ok ())"
        unfolding eq' f using free by simp
      then obtain B'' where "commit_recipe W (clear_fault ?B) ?l r p (expected_pointer D s i) = (B'', Ok ())" ..
      then show ?thesis by (intro exI [of _ B'']) (simp add: commit_staged_def)
    qed
    then obtain B'' where B'': "commit_staged W (S\<lparr>svc_backend := clear_fault ?B\<rparr>) ?l r p (expected_pointer D s i) staged x =
        (S\<lparr>svc_backend := B'', svc_stores := bt_insert s staged (svc_stores S)\<rparr>, Ok x)" by blast
    have cleared: "on_disk W (clear_fault C) E" if "on_disk W C E" for C E
      by (rule on_disk_fields [OF that]) (simp_all add: clear_fault_def)
    have all: "on_disk W ?B4 (extended D s i (r, p))" using st(4) by (simp add: clean_def)
    show thesis
    proof (cases "\<exists>stage. be_fail_after ?B = Some stage \<and> (stage = StageJournal \<longrightarrow> p \<noteq> None)")
      case False
      then have "res = Ok x \<and> S' = S\<lparr>svc_backend := ?B4, svc_stores := bt_insert s staged (svc_stores S)\<rparr>"
        using run free unfolding commit_staged_def eq
        by (cases "be_fail_after ?B") (auto split: if_splits)
      with st(4) sides(4) show thesis by (intro completed) auto
    next
      case True
      then obtain stage where stage: "be_fail_after ?B = Some stage" "stage = StageJournal \<longrightarrow> p \<noteq> None" by blast
      show thesis
      proof (rule crash [OF _ _ stage(1) _ _ B''])
        let ?C = "clear_fault (case stage of StageObject \<Rightarrow> ?B1 | StageRevision \<Rightarrow> ?B2 | StagePointer \<Rightarrow> ?B3 | StageJournal \<Rightarrow> ?B4)"
        show "res = Err (SvcCrash stage)" "S' = S\<lparr>svc_backend := ?C\<rparr>"
          using run free stage unfolding commit_staged_def eq by (cases stage; auto)+
        show "on_disk W ?C (if stage \<in> {StageObject, StageRevision} then D else extended D s i (r, p))"
          using st(1,2,3) all by (intro cleared) (cases stage; simp)
        show "same_side_maps ?C ?B" using sides by (cases stage) simp_all
      qed
    qed
  qed
qed

end
