(* ===== verification/Workspace_Calls.thy ===== *)
theory Workspace_Calls
  imports Workspace_Commit
begin

text \<open>
  The calls of the recipe service over a ledger. \<open>sound\<close> relates a live service to the ledger on its disk; each
  call either leaves stores and recipe storage alone (\<open>undisturbed\<close>) or is one commit of one entry (\<open>commits\<close>).
\<close>

section \<open>Calls\<close>

datatype service_call =
    CreateRecipe owner_context recipe
  | ApplyPatch owner_context patch
  | NarrowMerge owner_context patch string
  | RollBack owner_context rollback_request string
  | SaveActivity owner_context activity "string option"

datatype service_reply = RecipeReply recipe | PatchReply patch_outcome | ActivityReply activity

definition replying :: "('a \<Rightarrow> service_reply) \<Rightarrow> recipe_service \<times> (service_error + 'a)
    \<Rightarrow> recipe_service \<times> (service_error + service_reply)" where
  "replying f result = (case result of (S, Err e) \<Rightarrow> (S, Err e) | (S, Ok x) \<Rightarrow> (S, Ok (f x)))"

fun serve :: "workspace_host \<Rightarrow> recipe_service \<Rightarrow> service_call \<Rightarrow> recipe_service \<times> (service_error + service_reply)" where
  "serve W S (CreateRecipe ctx r) = replying RecipeReply (create_recipe W S ctx r)"
| "serve W S (ApplyPatch ctx p) = replying PatchReply (service_apply_patch W S ctx p)"
| "serve W S (NarrowMerge ctx p i) = replying PatchReply (service_narrow_merge W S ctx p i)"
| "serve W S (RollBack ctx q i) = replying RecipeReply (service_rollback W S ctx q i)"
| "serve W S (SaveActivity ctx a d) = replying ActivityReply (save_activity W S ctx a d)"

fun call_context :: "service_call \<Rightarrow> owner_context" where
  "call_context (CreateRecipe ctx _) = ctx"
| "call_context (ApplyPatch ctx _) = ctx"
| "call_context (NarrowMerge ctx _ _) = ctx"
| "call_context (RollBack ctx _ _) = ctx"
| "call_context (SaveActivity ctx _ _) = ctx"

lemma replying_iff:
  "replying f result = (S', Err e) \<longleftrightarrow> result = (S', Err e)"
  "replying f result = (S', Ok y) \<longleftrightarrow> (\<exists>x. result = (S', Ok x) \<and> y = f x)"
  by (auto simp: replying_def split: prod.splits sum.splits)

section \<open>The entry that a call would commit\<close>

fun staged_entry :: "workspace_host \<Rightarrow> recipe_service \<Rightarrow> service_call \<Rightarrow> (recipe \<times> patch option) option" where
  "staged_entry W S (CreateRecipe ctx r) = Some (r, None)"
| "staged_entry W S (ApplyPatch ctx p) =
     (case scope_for_owner W (pat_owner_ref p) of Err _ \<Rightarrow> None | Ok s \<Rightarrow>
        (case apply_patch (wh_json W) (store_at (svc_stores S) s) p of
           (_, Ok (Applied r _)) \<Rightarrow> Some (r, Some p) | _ \<Rightarrow> None))"
| "staged_entry W S (NarrowMerge ctx p i) =
     (case scope_for_owner W (pat_owner_ref p) of Err _ \<Rightarrow> None | Ok s \<Rightarrow>
        (case apply_patch_with_narrow_merge (wh_json W) (store_at (svc_stores S) s) p i of
           (_, Ok (Applied r _)) \<Rightarrow> Some (r, Some (merge_commit_patch (store_at (svc_stores S) s) p i)) | _ \<Rightarrow> None))"
| "staged_entry W S (RollBack ctx q i) =
     (case rollback_guard W S ctx q i of Err _ \<Rightarrow> None | Ok (l, _, _, p) \<Rightarrow>
        (case rollback (wh_json W) (store_at (svc_stores S) (loc_scope l)) q i of
           (_, Ok r) \<Rightarrow> Some (r, Some p) | _ \<Rightarrow> None))"
| "staged_entry W S (SaveActivity ctx a d) = None"

text \<open>The document a call commits must survive being written and read, and the identifier of a patch that is
  offered for merging must be a storage key: \<open>apply_patch_with_narrow_merge\<close> checks neither.\<close>

definition storable :: "workspace_host \<Rightarrow> recipe_service \<Rightarrow> service_call \<Rightarrow> bool" where
  "storable W S c \<longleftrightarrow> (\<forall>e. staged_entry W S c = Some e \<longrightarrow> survives W e) \<and>
     (case c of NarrowMerge _ p _ \<Rightarrow> valid_key_id (pat_patch_id p) | _ \<Rightarrow> True)"

section \<open>Sound services\<close>

definition memory :: "recipe_service \<Rightarrow> ledger" where
  "memory S s = store_log (store_at (svc_stores S) s)"

definition sound :: "workspace_host \<Rightarrow> recipe_service \<Rightarrow> ledger \<Rightarrow> bool" where
  "sound W S D \<longleftrightarrow> clean W (svc_backend S) D \<and> in_memory W (svc_stores S) (memory S) \<and>
     (\<forall>s i. same_log (memory S s i) (D s i))"

definition hex_digests :: "workspace_host \<Rightarrow> bool" where
  "hex_digests W \<longleftrightarrow> (\<forall>x. valid_blake3_digest (blake3_hex (wh_json W) x))"

lemma soundD:
  assumes "sound W S D"
  shows "clean W (svc_backend S) D" and "on_disk W (svc_backend S) D" and "in_memory W (svc_stores S) (memory S)"
    and "same_log (memory S s i) (D s i)"
    and "represents (wh_json W) (store_at (svc_stores S) s) (memory S s)"
  using assms in_memory_represents by (auto simp: sound_def clean_def)

lemma in_memory_memory: "in_memory W (svc_stores S) M \<Longrightarrow> memory S = M"
  using store_log_represents by (intro ext) (metis in_memory_def memory_def)

lemma opened_sound:
  assumes "on_disk W B D"
  obtains S where "service_open W B grants = Ok S" "sound W S D" "svc_grants S = grants" "memory S = D"
    "be_fail_after (svc_backend S) = None" "same_side_maps (svc_backend S) B"
proof -
  from open_on_disk [OF assms, where grants = grants] obtain S where S: "service_open W B grants = Ok S" "svc_grants S = grants"
    "in_memory W (svc_stores S) D" "clean W (svc_backend S) D" "be_fail_after (svc_backend S) = None"
    "same_side_maps (svc_backend S) B" unfolding same_side_maps_def by blast
  with in_memory_memory [OF S(3)] that show thesis by (simp add: sound_def)
qed

lemma scope_slash_free:
  assumes "hex_digests W" and "scope_for_owner W owner = Ok s"
  shows "slash_free s"
proof -
  have hex: "\<exists>x. d = blake3_hex H x" if "scope_key H b = Some d" for H b d
    using that by (auto simp: scope_key_def digest_parts_def and_then_def split: sum.splits)
  obtain b where "scope_key (wh_json W) b = Some s"
    using assms(2) by (auto simp: scope_for_owner_def result_simps)
  with hex obtain x where "s = blake3_hex (wh_json W) x" by blast
  with assms(1) have "list_all is_lower_hex s" by (auto simp: hex_digests_def valid_blake3_digest_def)
  moreover have "\<not> is_lower_hex (CHR ''/'')" by (simp add: is_lower_hex_def is_ascii_digit_def)
  ultimately show ?thesis unfolding slash_free_def list_all_iff by blast
qed

lemma current_of_on_disk:
  assumes disk: "on_disk W B D" and sf: "slash_free s"
  shows "current_of W B (at_location s i) = Ok (expected_pointer D s i)"
proof (cases "D s i = []")
  case True
  with on_diskD(4) [OF disk sf, of i] show ?thesis by (simp add: current_of_def expected_pointer_def)
next
  case False
  note sl = on_diskD(3) [OF disk False] and get = on_diskD(4) [OF disk sf, of i]
  let ?n = "length (D s i) - 1"
  have n: "?n < length (D s i)" "D s i ! ?n = last (D s i)" using False by (simp_all add: last_conv_nth)
  have rev: "of_nat (Suc ?n) = rcp_revision (log_head (D s i))"
    using chain_revision [OF stored_logD(1) [OF sl] n(1)] n(2) by (simp add: log_head_def)
  from stored_logD(5) [OF sl n(1)] show ?thesis
    unfolding rev n(2) using get False
    by (auto simp: stored_def current_of_def pointer_to_def log_head_def expected_pointer_def)
qed

lemma same_logs_logged:
  assumes "\<And>i. same_log (L i) (K i)" and "q \<in> logged K"
  obtains p where "p \<in> logged L" "same_intent p q"
proof -
  from assms(2) obtain i a where a: "a < length (K i)" "snd (K i ! a) = Some q"
    by (force simp: logged_def in_set_conv_nth)
  with assms(1) [of i] have a': "a < length (L i)" "same_entry (L i ! a) (K i ! a)"
    by (auto simp: same_log_def list_all2_conv_all_nth)
  with a obtain p where p: "snd (L i ! a) = Some p" "same_intent p q"
    by (cases "snd (L i ! a)") (auto simp: same_entry_def)
  from a' p(1) have "p \<in> logged L" unfolding logged_def by (force simp: in_set_conv_nth)
  with p(2) that show thesis by blast
qed

section \<open>The two kinds of outcome\<close>

definition undisturbed :: "recipe_service \<Rightarrow> recipe_service \<Rightarrow> bool" where
  "undisturbed S S' \<longleftrightarrow> svc_stores S' = svc_stores S \<and> svc_grants S' = svc_grants S \<and>
     be_objects (svc_backend S') = be_objects (svc_backend S) \<and>
     be_revisions (svc_backend S') = be_revisions (svc_backend S) \<and>
     be_pointers (svc_backend S') = be_pointers (svc_backend S) \<and>
     be_journals (svc_backend S') = be_journals (svc_backend S)"

definition crashed :: "service_error + 'a \<Rightarrow> bool" where
  "crashed res \<longleftrightarrow> (\<exists>stage. res = Err (SvcCrash stage))"

definition commits :: "workspace_host \<Rightarrow> recipe_service \<Rightarrow> ledger \<Rightarrow> string \<Rightarrow> string \<Rightarrow> recipe \<times> patch option
    \<Rightarrow> recipe \<times> patch option \<Rightarrow> recipe_store \<Rightarrow> bool" where
  "commits W S D s i e me staged \<longleftrightarrow> committable W D s i e \<and> same_entry me e \<and>
     represents (wh_json W) staged ((memory S s)(i := memory S s i @ [me]))"

lemma undisturbed_refl [simp]: "undisturbed S S"
  by (simp add: undisturbed_def)

lemma undisturbed_sound: "sound W S D \<Longrightarrow> undisturbed S S' \<Longrightarrow> sound W S' D \<and> memory S' = memory S"
  unfolding sound_def undisturbed_def using clean_fields by (metis memory_def ext)

lemma committed_sound:
  assumes snd: "sound W S D" and c: "commits W S D s i e me staged" and B': "clean W B' (extended D s i e)"
  defines "S' \<equiv> S\<lparr>svc_backend := B', svc_stores := bt_insert s staged (svc_stores S)\<rparr>"
  shows "sound W S' (extended D s i e)" and "memory S' = extended (memory S) s i me"
proof -
  have staged: "represents (wh_json W) staged (extended (memory S) s i me s)" using c by (simp add: commits_def)
  have mem: "in_memory W (svc_stores S') (extended (memory S) s i me)"
    unfolding S'_def using soundD(3) [OF snd] staged
    by (auto intro!: in_memory_update [of W _ "memory S"] exI [of _ i] simp: extended_at)
  then show eq: "memory S' = extended (memory S) s i me" by (rule in_memory_memory)
  have "same_log (extended (memory S) s i me t j) (extended D s i e t j)" for t j
    using soundD(4) [OF snd] c by (auto simp: extended_at commits_def intro!: same_log_snoc)
  with mem B' show "sound W S' (extended D s i e)" unfolding sound_def eq by (simp add: S'_def)
qed

text \<open>A patch that the store of a scope accepts may be committed, under any actor that keeps it valid.\<close>

lemma apply_commits:
  assumes snd: "sound W S D" and app: "apply_patch (wh_json W) (store_at (svc_stores S) s) p = (staged, Ok (Applied r vc))"
    and sf: "slash_free s" and q: "same_intent p q" "patch_validate q = Ok ()" "valid_key_id (pat_patch_id q)"
    and rb: "survives W (r, Some q)"
  shows "commits W S D s (pat_recipe_id p) (r, Some q) (r, Some p) staged"
proof -
  let ?i = "pat_recipe_id p"
  note ap = apply_represents [OF soundD(5) [OF snd] app]
  note same = soundD(4) [OF snd, of s]
  have ne: "D s ?i \<noteq> []" using ap(1) same_log_Nil [OF same] by blast
  note sl = on_diskD(3) [OF soundD(2) [OF snd] ne]
  have step: "log_step (wh_json W) (D s ?i) q r vc" by (rule same_log_step [OF same ap(2) q(1,2)])
  have fresh: "pat_patch_id q' \<noteq> pat_patch_id q" if "q' \<in> logged (D s)" for q'
    using same_logs_logged [OF same that] ap(3) same_intent_fields(1) q(1) by metis
  have "scope_for_owner W (rcp_owner_ref r) = Ok s"
    using log_step_fields(6) [OF step] sl by (simp add: stored_log_def)
  then have "committable W D s ?i (r, Some q)"
    using sf stored_logD(1,2) [OF sl] chain_step [OF _ step] q(3) rb fresh by (simp add: committable_def)
  with ap(4) q(1) show ?thesis by (simp add: commits_def same_entry_def)
qed

text \<open>
  Each call of the service, from a sound service: what its guard established, and which of the two kinds of
  outcome it has. The commit is stated for every requested fault, so that the crashing run of a call can be
  compared with the run that does not crash.
\<close>

definition with_fault :: "recipe_service \<Rightarrow> commit_stage option \<Rightarrow> recipe_service" where
  "with_fault S fa = S\<lparr>svc_backend := (svc_backend S)\<lparr>be_fail_after := fa\<rparr>\<rparr>"

lemma with_fault_simps [simp]:
  "svc_stores (with_fault S fa) = svc_stores S" "svc_grants (with_fault S fa) = svc_grants S"
  "with_fault S (be_fail_after (svc_backend S)) = S"
  "current_of W (svc_backend (with_fault S fa)) l = current_of W (svc_backend S) l"
  "service_authorize (with_fault S fa) = service_authorize S"
proof -
  have maps: "be_pointers (svc_backend (with_fault S fa)) = be_pointers (svc_backend S)"
    "be_revisions (svc_backend (with_fault S fa)) = be_revisions (svc_backend S)"
    "be_objects (svc_backend (with_fault S fa)) = be_objects (svc_backend S)"
    by (simp_all add: with_fault_def)
  show "current_of W (svc_backend (with_fault S fa)) l = current_of W (svc_backend S) l"
    unfolding current_of_def maps ..
  show "svc_stores (with_fault S fa) = svc_stores S" and grants: "svc_grants (with_fault S fa) = svc_grants S"
    "with_fault S (be_fail_after (svc_backend S)) = S" by (simp_all add: with_fault_def)
  show "service_authorize (with_fault S fa) = service_authorize S"
    by (intro ext) (simp add: service_authorize_def grants)
qed

lemma with_fault_guards [simp]:
  "create_guard W (with_fault S fa) = create_guard W S"
  "patch_location W (with_fault S fa) = patch_location W S"
  "apply_guard W (with_fault S fa) = apply_guard W S"
  "merge_guard W (with_fault S fa) = merge_guard W S"
  "rollback_guard W (with_fault S fa) = rollback_guard W S"
proof -
  show "create_guard W (with_fault S fa) = create_guard W S"
    by (intro ext) (unfold create_guard_def with_fault_simps, rule refl)
  show loc: "patch_location W (with_fault S fa) = patch_location W S"
    by (intro ext) (unfold patch_location_def with_fault_simps, rule refl)
  show "rollback_guard W (with_fault S fa) = rollback_guard W S"
    by (intro ext) (unfold rollback_guard_def with_fault_simps, rule refl)
  show "apply_guard W (with_fault S fa) = apply_guard W S"
    by (intro ext) (unfold apply_guard_def with_fault_simps loc, rule refl)
  show "merge_guard W (with_fault S fa) = merge_guard W S"
    by (intro ext) (unfold merge_guard_def with_fault_simps loc, rule refl)
qed

section \<open>What the guards establish\<close>

lemma create_guard_Ok:
  assumes "create_guard W S ctx r = Ok (l, expected)"
  obtains s where "l = at_location s (rcp_recipe_id r)" "scope_for_owner W (rcp_owner_ref r) = Ok s"
    "valid_key_id (rcp_recipe_id r)" "current_of W (svc_backend S) l = Ok expected" "expected = None"
  using assms by (auto simp: create_guard_def result_simps Let_def split: if_splits)

lemma patch_location_Ok:
  assumes "patch_location W S p = Ok (l, expected)"
  obtains s where "l = at_location s (pat_recipe_id p)" "scope_for_owner W (pat_owner_ref p) = Ok s"
    "patch_validate p = Ok ()" "current_of W (svc_backend S) l = Ok expected"
  using assms by (auto simp: patch_location_def result_simps Let_def)

lemma apply_guard_Ok:
  assumes "apply_guard W S ctx p = Ok (l, expected)"
  shows "valid_key_id (pat_patch_id p)" and "patch_location W S p = Ok (l, expected)"
  using assms by (auto simp: apply_guard_def result_simps split: if_splits)

lemma merge_guard_Ok:
  assumes "merge_guard W S ctx p i = Ok (l, expected, store)"
  shows "valid_key_id i" and "patch_location W S p = Ok (l, expected)"
    and "bt_get (svc_stores S) (loc_scope l) = Some store"
  using assms by (auto simp: merge_guard_def result_simps split: if_splits)

lemma rollback_guard_Ok:
  assumes "rollback_guard W S ctx q i = Ok (l, expected, current, p)"
  obtains s store target where "l = at_location s (rb_recipe_id q)" "scope_for_owner W (rb_owner_ref q) = Ok s"
    "valid_key_id i" "current_of W (svc_backend S) l = Ok expected"
    "bt_get (svc_stores S) s = Some store" "bt_get (st_current store) (rb_recipe_id q) = Some current"
    "bt_get (st_history store) (rb_recipe_id q, rb_target_revision q) = Some target"
    "patch_new (rb_owner_ref q) (rb_acting_principal q) (rb_reviewer q) (rb_receipt q) i (rb_recipe_id q)
       (rcp_revision current) (rcp_digest current)
       (''rollback to revision '' @ show_nat (unat (rb_target_revision q)))
       [RestoreRevision (rcp_revision target) (rcp_digest target)] = Ok p"
  using assms by (auto simp: rollback_guard_def result_simps Let_def store_get_def store_revision_def split: if_splits)

lemma report_conflict_undisturbed:
  "report_conflict S l p i = (S', res) \<Longrightarrow> undisturbed S S' \<and> \<not> crashed res"
  by (auto simp: report_conflict_def retain_conflict_def undisturbed_def crashed_def service_candidate_def
      split: sum.splits patch_error.splits option.splits simp: result_simps and_then_def ok_or_def)

section \<open>The outcome of each call\<close>

lemma create_outcome:
  assumes snd: "sound W S D" and hex: "hex_digests W" and rb: "survives W (r, None)"
    and run: "create_recipe W S ctx r = (S', res)"
  obtains (quiet) "undisturbed S S'" "\<not> crashed res"
  | (commit) s i e me staged where "commits W S D s i e me staged"
      "\<And>fa. create_recipe W (with_fault S fa) ctx r =
         commit_staged W (with_fault S fa) (at_location s i) (fst e) (snd e) (expected_pointer D s i) staged r"
proof (cases "create_guard W S ctx r")
  case (Inl e)
  have "e \<noteq> SvcCrash st" for st
    using Inl by (auto simp: create_guard_def service_authorize_def scan_document_def scope_for_owner_def result_simps
        Let_def split: if_splits)
  with Inl run show thesis by (intro quiet) (auto simp: create_recipe_def crashed_def)
next
  case (Inr le)
  then obtain l expected where g: "create_guard W S ctx r = Ok (l, expected)" by (cases le) auto
  then obtain s where l: "l = at_location s (rcp_recipe_id r)" "scope_for_owner W (rcp_owner_ref r) = Ok s"
    "valid_key_id (rcp_recipe_id r)" "current_of W (svc_backend S) l = Ok expected" by (elim create_guard_Ok)
  note sf = scope_slash_free [OF hex l(2)]
  have exp: "expected = expected_pointer D s (rcp_recipe_id r)"
    using l(4) current_of_on_disk [OF soundD(2) [OF snd] sf] by (simp add: l(1))
  obtain staged res1 where ins: "store_insert (wh_json W) (store_at (svc_stores S) s) r = (staged, res1)"
    by (cases "store_insert (wh_json W) (store_at (svc_stores S) s) r") auto
  show thesis
  proof (cases res1)
    case (Inl e)
    with g ins l run show thesis by (intro quiet) (auto simp: create_recipe_def crashed_def)
  next
    case (Inr u)
    then have ins: "store_insert (wh_json W) (store_at (svc_stores S) s) r = (staged, Ok ())" using ins by simp
    note ir = insert_represents [OF soundD(5) [OF snd] ins]
    have "D s (rcp_recipe_id r) = []" using ir(1) same_log_Nil [OF soundD(4) [OF snd]] by blast
    moreover have "chain (wh_json W) (rcp_recipe_id r) [(r, None)]"
      using ins by (auto simp: store_insert_Ok_iff intro: chain_root)
    ultimately have "commits W S D s (rcp_recipe_id r) (r, None) (r, None) staged"
      using sf l ir rb by (simp add: commits_def committable_def)
    then show thesis by (rule commit) (simp add: create_recipe_def g l(1) ins exp)
  qed
qed

lemma apply_outcome:
  assumes snd: "sound W S D" and hex: "hex_digests W" and st: "storable W S (ApplyPatch ctx p)"
    and run: "service_apply_patch W S ctx p = (S', res)"
  obtains (quiet) "undisturbed S S'" "\<not> crashed res"
  | (commit) s i e me staged r vc where "commits W S D s i e me staged"
      "\<And>fa. service_apply_patch W (with_fault S fa) ctx p =
         commit_staged W (with_fault S fa) (at_location s i) (fst e) (snd e) (expected_pointer D s i) staged (Applied r vc)"
      "e = (r, Some p)" "i = pat_recipe_id p" "log_step (wh_json W) (D s i) p r vc"
      "apply_guard W S ctx p = Ok (at_location s i, expected_pointer D s i)"
proof (cases "apply_guard W S ctx p")
  case (Inl e)
  have "e \<noteq> SvcCrash st" for st
    using Inl by (auto simp: apply_guard_def patch_location_def service_authorize_def scan_document_def
        scope_for_owner_def result_simps Let_def split: if_splits)
  with Inl run show thesis by (intro quiet) (auto simp: service_apply_patch_def crashed_def)
next
  case (Inr le)
  then obtain l expected where g: "apply_guard W S ctx p = Ok (l, expected)" by (cases le) auto
  note ag = apply_guard_Ok [OF g]
  from ag(2) obtain s where l: "l = at_location s (pat_recipe_id p)" "scope_for_owner W (pat_owner_ref p) = Ok s"
    "patch_validate p = Ok ()" "current_of W (svc_backend S) l = Ok expected" by (elim patch_location_Ok)
  note sf = scope_slash_free [OF hex l(2)]
  have exp: "expected = expected_pointer D s (pat_recipe_id p)"
    using l(4) current_of_on_disk [OF soundD(2) [OF snd] sf] by (simp add: l(1))
  obtain staged res1 where app: "apply_patch (wh_json W) (store_at (svc_stores S) s) p = (staged, res1)"
    by (cases "apply_patch (wh_json W) (store_at (svc_stores S) s) p") auto
  show thesis
  proof (cases "\<exists>r vc. res1 = Ok (Applied r vc)")
    case False
    with g app l run show thesis
      by (intro quiet) (auto simp: service_apply_patch_def crashed_def split: sum.splits patch_outcome.splits
          patch_error.splits dest!: report_conflict_undisturbed)
  next
    case True
    then obtain r vc where app: "apply_patch (wh_json W) (store_at (svc_stores S) s) p = (staged, Ok (Applied r vc))"
      using app by blast
    then have "survives W (r, Some p)" using st by (simp add: storable_def l(2))
    note com = apply_commits [OF snd app sf same_intent_refl l(3) ag(1) this]
    note ar = apply_represents [OF soundD(5) [OF snd] app]
    have step: "log_step (wh_json W) (D s (pat_recipe_id p)) p r vc"
      by (rule same_log_step [OF soundD(4) [OF snd] ar(2) same_intent_refl l(3)])
    show thesis by (rule commit [OF com _ refl refl step]) (simp_all add: service_apply_patch_def g l(1) app exp)
  qed
qed

lemma candidate_merged:
  assumes "compute_conflict_candidate st p i = Ok cand" and "cc_merged cand = Some m"
  shows "pat_patch_id m = i" and "pat_recipe_id m = pat_recipe_id p"
proof -
  from assms(1) obtain cur where cur: "bt_get (st_current st) (pat_recipe_id p) = Some cur"
    unfolding compute_conflict_candidate_def and_then_Ok_iff ok_or_Ok_iff by blast
  from assms cur obtain base m0 where "merge_disjoint_fields base p i = Ok m0"
    "m = m0\<lparr>pat_base_revision := rcp_revision cur, pat_base_digest := rcp_digest cur\<rparr>"
    by (auto simp: compute_conflict_candidate_def and_then_Ok_iff split: if_splits option.splits sum.splits)
  then show "pat_patch_id m = i" "pat_recipe_id m = pat_recipe_id p"
    by (auto simp: merge_disjoint_fields_def result_simps Let_def split: if_splits)
qed

lemma rewritten_patch_valid:
  assumes "patch_validate m = Ok ()" and "patch_validate p = Ok ()"
  shows "patch_validate (m\<lparr>pat_acting_principal := pat_acting_principal p, pat_review := pat_review p\<rparr>) = Ok ()"
  using assms unfolding patch_validate_Ok_iff by (simp add: patch_fields_def)

text \<open>What a narrow merge applies in memory, and what it writes.\<close>

lemma merge_applied:
  assumes run: "apply_patch_with_narrow_merge H st p i = (staged, Ok (Applied r vc))" and val: "patch_validate p = Ok ()"
  obtains m where "apply_patch H st m = (staged, Ok (Applied r vc))" "same_intent m (merge_commit_patch st p i)"
    "patch_validate (merge_commit_patch st p i) = Ok ()" "pat_recipe_id m = pat_recipe_id p"
    "pat_patch_id (merge_commit_patch st p i) \<in> {pat_patch_id p, i}"
proof (cases "\<exists>st1 r1 vc1. apply_patch H st p = (st1, Ok (Applied r1 vc1))")
  case True
  then have app: "apply_patch H st p = (staged, Ok (Applied r vc))"
    using run by (auto simp: apply_patch_with_narrow_merge_def apply_patch_eq)
  then have "compute_conflict_candidate st p i = Err NotConflicted"
    unfolding apply_patch_Applied_iff by (auto simp: compute_conflict_candidate_def)
  then have "merge_commit_patch st p i = p" by (simp add: merge_commit_patch_def)
  with app val that show thesis by simp
next
  case False
  obtain st1 res1 where once: "apply_patch H st p = (st1, res1)" by (cases "apply_patch H st p")
  with False apply_patch_unchanged have st1: "st1 = st" by blast
  with run once obtain cand m where cand: "compute_conflict_candidate st p i = Ok cand" "cc_merged cand = Some m"
    and app: "apply_patch H st m = (staged, Ok (Applied r vc))"
    using False by (auto simp: apply_patch_with_narrow_merge_def apply_patch_eq
        split: sum.splits option.splits patch_error.splits)
  then have q: "merge_commit_patch st p i = m\<lparr>pat_acting_principal := pat_acting_principal p, pat_review := pat_review p\<rparr>"
    by (simp add: merge_commit_patch_def)
  have "patch_validate m = Ok ()" using app unfolding apply_patch_Applied_iff by blast
  from rewritten_patch_valid [OF this val] candidate_merged [OF cand] app show thesis
    by (intro that [of m]) (simp_all add: q same_intent_def)
qed

lemma merge_outcome:
  assumes snd: "sound W S D" and hex: "hex_digests W" and st: "storable W S (NarrowMerge ctx p i)"
    and run: "service_narrow_merge W S ctx p i = (S', res)"
  obtains (quiet) "undisturbed S S'" "\<not> crashed res"
  | (commit) s j e me staged r vc where "commits W S D s j e me staged"
      "\<And>fa. service_narrow_merge W (with_fault S fa) ctx p i =
         commit_staged W (with_fault S fa) (at_location s j) (fst e) (snd e) (expected_pointer D s j) staged (Applied r vc)"
proof (cases "merge_guard W S ctx p i")
  case (Inl e)
  have "e \<noteq> SvcCrash st" for st
    using Inl by (auto simp: merge_guard_def patch_location_def service_authorize_def scan_document_def
        scope_for_owner_def result_simps Let_def split: if_splits)
  with Inl run show thesis by (intro quiet) (auto simp: service_narrow_merge_def crashed_def)
next
  case (Inr le)
  then obtain l expected store where g: "merge_guard W S ctx p i = Ok (l, expected, store)" by (cases le) auto
  note mg = merge_guard_Ok [OF g]
  from mg(2) obtain s where l: "l = at_location s (pat_recipe_id p)" "scope_for_owner W (pat_owner_ref p) = Ok s"
    "patch_validate p = Ok ()" "current_of W (svc_backend S) l = Ok expected" by (elim patch_location_Ok)
  have store: "store_at (svc_stores S) s = store" using mg(3) by (simp add: l(1) store_at_def)
  note sf = scope_slash_free [OF hex l(2)]
  have exp: "expected = expected_pointer D s (pat_recipe_id p)"
    using l(4) current_of_on_disk [OF soundD(2) [OF snd] sf] by (simp add: l(1))
  obtain staged res1 where app: "apply_patch_with_narrow_merge (wh_json W) store p i = (staged, res1)"
    by (cases "apply_patch_with_narrow_merge (wh_json W) store p i") auto
  show thesis
  proof (cases "\<exists>r vc. res1 = Ok (Applied r vc)")
    case False
    with g app l run store show thesis
      by (intro quiet) (auto simp: service_narrow_merge_def crashed_def split: sum.splits patch_outcome.splits
          patch_error.splits dest!: report_conflict_undisturbed)
  next
    case True
    then obtain r vc where mrg: "apply_patch_with_narrow_merge (wh_json W) store p i = (staged, Ok (Applied r vc))"
      using app by blast
    let ?q = "merge_commit_patch store p i"
    from merge_applied [OF mrg l(3)] obtain m where m: "apply_patch (wh_json W) store m = (staged, Ok (Applied r vc))"
      "same_intent m ?q" "patch_validate ?q = Ok ()" "pat_recipe_id m = pat_recipe_id p"
      "pat_patch_id ?q \<in> {pat_patch_id p, i}" by blast
    have rb: "survives W (r, Some ?q)" and "valid_key_id (pat_patch_id p)"
      using st mrg by (simp_all add: storable_def l(2) store)
    then have "valid_key_id (pat_patch_id ?q)" using m(5) mg(1) by auto
    from apply_commits [OF snd m(1) [folded store] sf m(2,3) this rb]
    show thesis unfolding m(4) by (rule commit) (simp add: service_narrow_merge_def g l(1) mrg store exp)
  qed
qed

lemma log_revision_number:
  assumes rep: "represents H st L" and "bt_get (st_history st) (i, n) = Some r"
  shows "rcp_revision r = n"
proof -
  from assms(2) representsD(3) [OF rep, of i n] have at: "n \<noteq> 0" "\<not> unat n > length (L i)" "r = fst (L i ! (unat n - 1))"
    by (auto simp: log_at_def split: if_splits)
  then have n: "unat n - 1 < length (L i)" "Suc (unat n - 1) = unat n" using u64_zero_iff [of n] by auto
  then have "L i \<noteq> []" by auto
  from chain_nth(2) [OF representsD(1) [OF rep this] n(1)] n(2) show ?thesis
    by (simp add: at(3) word_unat_eq_iff)
qed

lemma rollback_applied:
  assumes run: "rollback H st q i = (staged, Ok r)" and rep: "represents H st L"
    and cur: "bt_get (st_current st) (rb_recipe_id q) = Some current"
    and tgt: "bt_get (st_history st) (rb_recipe_id q, rb_target_revision q) = Some target"
    and new: "patch_new (rb_owner_ref q) (rb_acting_principal q) (rb_reviewer q) (rb_receipt q) i (rb_recipe_id q)
       (rcp_revision current) (rcp_digest current)
       (''rollback to revision '' @ show_nat (unat (rb_target_revision q)))
       [RestoreRevision (rcp_revision target) (rcp_digest target)] = Ok p"
    and changed: "\<not> (rcp_revision r = rcp_revision current \<and> rcp_digest r = rcp_digest current)"
  obtains vc where "apply_patch H st p = (staged, Ok (Applied r vc))"
    and "pat_recipe_id p = rb_recipe_id q" "pat_patch_id p = i" "patch_validate p = Ok ()"
proof -
  have p: "pat_recipe_id p = rb_recipe_id q" "pat_patch_id p = i" "patch_validate p = Ok ()"
    using new by (auto simp: patch_new_def Let_def result_simps)
  note new' = new [unfolded log_revision_number [OF rep tgt]]
  obtain st' res where app: "apply_patch H st p = (st', res)" by (cases "apply_patch H st p")
  have none: "find (\<lambda>p. pat_patch_id p = i) (bt_values (st_applied_patch_by_revision st)) = None"
    using run changed cur by (cases "find (\<lambda>p. pat_patch_id p = i) (bt_values (st_applied_patch_by_revision st))")
      (auto simp: rollback_def existing_restore_outcome_def split: if_splits option.splits)
  have res: "staged = st'" "res = Ok (Applied r vc) \<or> res = Ok (AlreadyApplied r)" if "res = Ok (Applied r vc) \<or> (\<forall>vc. res \<noteq> Ok (Applied r vc))" for vc
    using run cur tgt new' none app that
    by (auto simp: rollback_def split: if_splits sum.splits patch_outcome.splits)
  have "res \<noteq> Ok (AlreadyApplied r)"
  proof
    assume "res = Ok (AlreadyApplied r)"
    then have "bt_get (st_current st) (pat_recipe_id p) = Some r"
      using app unfolding apply_patch_eq apply_patch_once_def
      by (auto simp: result_simps Let_def split: sum.splits option.splits if_splits prod.splits)
    with cur p(1) changed show False by simp
  qed
  with res app p that show thesis by metis
qed

lemma rollback_outcome:
  assumes snd: "sound W S D" and hex: "hex_digests W" and st: "storable W S (RollBack ctx q i)"
    and run: "service_rollback W S ctx q i = (S', res)"
  obtains (quiet) "undisturbed S S'" "\<not> crashed res"
  | (commit) s j e me staged where "commits W S D s j e me staged"
      "\<And>fa. service_rollback W (with_fault S fa) ctx q i =
         commit_staged W (with_fault S fa) (at_location s j) (fst e) (snd e) (expected_pointer D s j) staged (fst e)"
proof (cases "rollback_guard W S ctx q i")
  case (Inl e)
  have "e \<noteq> SvcCrash st" for st
    using Inl by (auto simp: rollback_guard_def service_authorize_def scan_document_def
        scope_for_owner_def result_simps Let_def split: if_splits)
  with Inl run show thesis by (intro quiet) (auto simp: service_rollback_def crashed_def)
next
  case (Inr le)
  then obtain l expected current p where g: "rollback_guard W S ctx q i = Ok (l, expected, current, p)" by (cases le) auto
  from g obtain s store target where l: "l = at_location s (rb_recipe_id q)" "scope_for_owner W (rb_owner_ref q) = Ok s"
    "valid_key_id i" "current_of W (svc_backend S) l = Ok expected" "bt_get (svc_stores S) s = Some store"
    and look: "bt_get (st_current store) (rb_recipe_id q) = Some current"
    "bt_get (st_history store) (rb_recipe_id q, rb_target_revision q) = Some target"
    "patch_new (rb_owner_ref q) (rb_acting_principal q) (rb_reviewer q) (rb_receipt q) i (rb_recipe_id q)
       (rcp_revision current) (rcp_digest current)
       (''rollback to revision '' @ show_nat (unat (rb_target_revision q)))
       [RestoreRevision (rcp_revision target) (rcp_digest target)] = Ok p"
    by (elim rollback_guard_Ok)
  have store: "store_at (svc_stores S) s = store" using l(5) by (simp add: store_at_def)
  note sf = scope_slash_free [OF hex l(2)]
  have exp: "expected = expected_pointer D s (rb_recipe_id q)"
    using l(4) current_of_on_disk [OF soundD(2) [OF snd] sf] by (simp add: l(1))
  obtain staged res1 where roll: "rollback (wh_json W) store q i = (staged, res1)"
    by (cases "rollback (wh_json W) store q i") auto
  show thesis
  proof (cases "\<exists>r. res1 = Ok r \<and> \<not> (rcp_revision r = rcp_revision current \<and> rcp_digest r = rcp_digest current)")
    case False
    with g roll l(1) run store show thesis
      by (intro quiet) (auto simp: service_rollback_def crashed_def split: sum.splits)
  next
    case True
    then obtain r where roll: "rollback (wh_json W) store q i = (staged, Ok r)"
      and ch: "\<not> (rcp_revision r = rcp_revision current \<and> rcp_digest r = rcp_digest current)" using roll by blast
    from rollback_applied [OF roll soundD(5) [OF snd, of s, unfolded store] look ch] obtain vc where
      app: "apply_patch (wh_json W) store p = (staged, Ok (Applied r vc))"
      and p: "pat_recipe_id p = rb_recipe_id q" "pat_patch_id p = i" "patch_validate p = Ok ()" by blast
    have rb: "survives W (r, Some p)" using st roll by (simp add: storable_def g l(1) store)
    from apply_commits [OF snd app [folded store] sf same_intent_refl p(3) _ rb] l(3)
    have "commits W S D s (rb_recipe_id q) (r, Some p) (r, Some p) staged" by (simp add: p)
    then show thesis by (rule commit) (use ch in \<open>auto simp: service_rollback_def g l(1) roll store exp\<close>)
  qed
qed

lemma activity_outcome: "save_activity W S ctx a d = (S', res) \<Longrightarrow> undisturbed S S' \<and> \<not> crashed res"
proof -
  assume run: "save_activity W S ctx a d = (S', res)"
  have read: "read_activity_pointer W S x \<noteq> Err (SvcCrash st)" for x st
    by (auto simp: read_activity_pointer_def result_simps Let_def split: option.splits if_splits)
  have guard: "activity_guard W S ctx a \<noteq> Err (SvcCrash st)" for st
    by (auto simp: activity_guard_def service_authorize_def scan_document_def scope_for_owner_def result_simps Let_def
        split: if_splits)
  have expected: "expected_activity W S x y z \<noteq> Err (SvcCrash st)" for x y z st
    using read by (auto simp: expected_activity_def activity_conflict_def result_simps split: option.splits if_splits)
  have put: "save_activity_pointer B s i g b x = (B', r) \<Longrightarrow> (\<forall>st. r \<noteq> Err (BackendCrash st)) \<and>
      be_objects B' = be_objects B \<and> be_revisions B' = be_revisions B \<and> be_pointers B' = be_pointers B \<and>
      be_journals B' = be_journals B" for B s i g b x B' r
    by (auto simp: save_activity_pointer_def Let_def split: option.splits if_splits)
  show ?thesis
    using run guard expected
    by (auto simp: save_activity_def crashed_def undisturbed_def activity_conflict_def Let_def result_simps
        split: sum.splits prod.splits backend_error.splits dest!: put)
qed

end
