(* ===== verification/Workspace_Runs.thy ===== *)
theory Workspace_Runs
  imports Workspace_Calls
begin

text \<open>
  Runs of the recipe service: calls, restarts and requested faults, where a call that crashes is followed by a
  restart on what its storage holds. The interface \<open>durable_service\<close> says what a step of such a service promises;
  the recipe service provides it for its revision histories.
\<close>

section \<open>The outcome of any call\<close>

lemma replying_commit: "replying f (commit_staged W S l r p expected staged x) = commit_staged W S l r p expected staged (f x)"
  by (auto simp: replying_def commit_staged_def split: prod.splits sum.splits)

lemma serve_outcome:
  assumes snd: "sound W S D" and hex: "hex_digests W" and st: "storable W S c" and run: "serve W S c = (S', res)"
  obtains (quiet) "undisturbed S S'" "\<not> crashed res"
  | (commit) s i e me staged y where "commits W S D s i e me staged"
      "\<And>fa. serve W (with_fault S fa) c =
         commit_staged W (with_fault S fa) (at_location s i) (fst e) (snd e) (expected_pointer D s i) staged y"
proof -
  have lower: "undisturbed S S' \<and> \<not> crashed res"
    if "replying f (S1, r1) = (S', res)" "undisturbed S S1" "\<not> crashed r1" for f :: "'x \<Rightarrow> service_reply" and S1 r1
    using that by (cases r1) (auto simp: replying_def crashed_def)
  show thesis
  proof (cases c)
    case (CreateRecipe ctx r)
    obtain S1 r1 where op: "create_recipe W S ctx r = (S1, r1)" by (cases "create_recipe W S ctx r")
    have "survives W (r, None)" using st CreateRecipe by (simp add: storable_def)
    from snd hex this op show thesis
    proof (cases rule: create_outcome)
      case quiet
      with lower [of RecipeReply S1 r1] op run CreateRecipe that(1) show thesis by simp
    next
      case (commit s i e me staged)
      from commit(1) show thesis by (rule that(2)) (simp add: CreateRecipe commit(2) replying_commit)
    qed
  next
    case (ApplyPatch ctx p)
    obtain S1 r1 where op: "service_apply_patch W S ctx p = (S1, r1)" by (cases "service_apply_patch W S ctx p")
    from snd hex st [unfolded ApplyPatch] op show thesis
    proof (cases rule: apply_outcome)
      case quiet
      with lower [of PatchReply S1 r1] op run ApplyPatch that(1) show thesis by simp
    next
      case (commit s i e me staged r vc)
      from commit(1) show thesis by (rule that(2)) (simp add: ApplyPatch commit(2) replying_commit)
    qed
  next
    case (NarrowMerge ctx p i)
    obtain S1 r1 where op: "service_narrow_merge W S ctx p i = (S1, r1)" by (cases "service_narrow_merge W S ctx p i")
    from snd hex st [unfolded NarrowMerge] op show thesis
    proof (cases rule: merge_outcome)
      case quiet
      with lower [of PatchReply S1 r1] op run NarrowMerge that(1) show thesis by simp
    next
      case (commit s j e me staged r vc)
      from commit(1) show thesis by (rule that(2)) (simp add: NarrowMerge commit(2) replying_commit)
    qed
  next
    case (RollBack ctx q i)
    obtain S1 r1 where op: "service_rollback W S ctx q i = (S1, r1)" by (cases "service_rollback W S ctx q i")
    from snd hex st [unfolded RollBack] op show thesis
    proof (cases rule: rollback_outcome)
      case quiet
      with lower [of RecipeReply S1 r1] op run RollBack that(1) show thesis by simp
    next
      case (commit s j e me staged)
      from commit(1) show thesis by (rule that(2)) (simp add: RollBack commit(2) replying_commit)
    qed
  next
    case (SaveActivity ctx a d)
    obtain S1 r1 where op: "save_activity W S ctx a d = (S1, r1)" by (cases "save_activity W S ctx a d")
    with lower [of ActivityReply S1 r1] activity_outcome [OF op] run SaveActivity that(1) show thesis by simp
  qed
qed

section \<open>Revision histories\<close>

definition recipes :: "recipe_service \<Rightarrow> string \<Rightarrow> string \<Rightarrow> recipe list" where
  "recipes S s i = map fst (memory S s i)"

definition ledger_recipes :: "ledger \<Rightarrow> string \<Rightarrow> string \<Rightarrow> recipe list" where
  "ledger_recipes D s i = map fst (D s i)"

lemma sound_recipes: "sound W S D \<Longrightarrow> recipes S = ledger_recipes D"
  using soundD(4) same_log_fst by (intro ext) (auto simp: recipes_def ledger_recipes_def)

lemma ledger_recipes_extended: "prefix (ledger_recipes D s i) (ledger_recipes (extended D t j e) s i)"
  by (simp add: ledger_recipes_def extended_at)

text \<open>A call ends with a sound service, or crashes and leaves a ledger that is the old one or the one that the
  call completed without the fault leaves.\<close>

lemma serve_cases:
  assumes snd: "sound W S D" and hex: "hex_digests W" and st: "storable W S c" and run: "serve W S c = (S', res)"
  obtains (ended) D' where "\<not> crashed res" "sound W S' D'" "svc_grants S' = svc_grants S"
      "\<And>s i. prefix (ledger_recipes D s i) (ledger_recipes D' s i)"
  | (crash) stage D' T y where "res = Err (SvcCrash stage)" "svc_grants S' = svc_grants S"
      "be_fail_after (svc_backend S) = Some stage"
      "on_disk W (svc_backend S') (if stage \<in> {StageObject, StageRevision} then D else D')"
      "\<And>s i. prefix (ledger_recipes D s i) (ledger_recipes D' s i)"
      "serve W (with_fault S None) c = (T, Ok y)" "sound W T D'" "svc_grants T = svc_grants S"
  using snd hex st run
proof (cases rule: serve_outcome)
  case quiet
  from undisturbed_sound [OF snd quiet(1)] quiet show thesis
    by (intro ended) (auto simp: undisturbed_def)
next
  case (commit s i e me staged y)
  obtain r p where e: "e = (r, p)" by (cases e)
  have com: "committable W D s i (r, p)" using commit(1) by (simp add: commits_def e)
  have now: "commit_staged W S (at_location s i) r p (expected_pointer D s i) staged y = (S', res)"
    using commit(2) [of "be_fail_after (svc_backend S)"] run by (simp add: e)
  have fault: "with_fault S None = S\<lparr>svc_backend := clear_fault (svc_backend S)\<rparr>"
    by (simp add: with_fault_def clear_fault_def)
  from soundD(1) [OF snd] com now show thesis
  proof (cases rule: commit_staged_cases)
    case collision
    with snd show thesis by (intro ended) (auto simp: crashed_def)
  next
    case (crash stage B' B'')
    have free: "serve W (with_fault S None) c = (S\<lparr>svc_backend := B'', svc_stores := bt_insert s staged (svc_stores S)\<rparr>, Ok y)"
      using commit(2) [of None] crash(6) by (simp add: e fault)
    have snd0: "sound W (with_fault S None) D"
      using undisturbed_sound [OF snd, of "with_fault S None"] by (simp add: undisturbed_def with_fault_def)
    have com0: "commits W (with_fault S None) D s i e me staged"
      using commit(1) by (simp add: commits_def memory_def)
    from soundD(1) [OF snd0] com crash(6) [folded fault]
    have "clean W B'' (extended D s i e)"
      by (cases rule: commit_staged_cases) (auto simp: e dest!: arg_cong [where f = svc_backend])
    from committed_sound(1) [OF snd commit(1) this]
    have good: "sound W (S\<lparr>svc_backend := B'', svc_stores := bt_insert s staged (svc_stores S)\<rparr>) (extended D s i e)" .
    show thesis
      by (rule that(2) [OF crash(1) _ crash(3) _ ledger_recipes_extended free good])
         (use crash(2,4) in \<open>auto simp: e split: if_splits\<close>)
  next
    case (completed B')
    from committed_sound(1) [OF snd commit(1)] completed show thesis
      by (intro ended [of "extended D s i e"]) (auto simp: crashed_def e ledger_recipes_extended)
  qed
qed

section \<open>Services that survive crashes\<close>

text \<open>A step may fail to produce a service only if recovery fails.\<close>

fun steps :: "('s \<Rightarrow> 'e \<Rightarrow> 's option) \<Rightarrow> 's \<Rightarrow> 'e list \<Rightarrow> 's option" where
  "steps f s [] = Some s"
| "steps f s (e # es) = (case f s e of None \<Rightarrow> None | Some t \<Rightarrow> steps f t es)"

fun allowed_steps :: "('s \<Rightarrow> 'e \<Rightarrow> 's option) \<Rightarrow> ('s \<Rightarrow> 'e \<Rightarrow> bool) \<Rightarrow> 's \<Rightarrow> 'e list \<Rightarrow> bool" where
  "allowed_steps f ok s [] \<longleftrightarrow> True"
| "allowed_steps f ok s (e # es) \<longleftrightarrow> ok s e \<and> (case f s e of None \<Rightarrow> True | Some t \<Rightarrow> allowed_steps f ok t es)"

locale durable_service =
  fixes good :: "'s \<Rightarrow> bool"
    and ok :: "'s \<Rightarrow> 'e \<Rightarrow> bool"
    and step :: "'s \<Rightarrow> 'e \<Rightarrow> 's option"
    and view :: "'s \<Rightarrow> 'k \<Rightarrow> 'r list"
  assumes step_recovers: "good s \<Longrightarrow> ok s e \<Longrightarrow> \<exists>t. step s e = Some t \<and> good t \<and> (\<forall>k. prefix (view s k) (view t k))"
begin

lemma steps_recover:
  "good s \<Longrightarrow> allowed_steps step ok s es \<Longrightarrow> \<exists>t. steps step s es = Some t \<and> good t \<and> (\<forall>k. prefix (view s k) (view t k))"
proof (induction es arbitrary: s)
  case Nil
  then show ?case by simp
next
  case (Cons e es)
  from Cons.prems step_recovers obtain t where t: "step s e = Some t" "good t" "\<forall>k. prefix (view s k) (view t k)"
    by fastforce
  with Cons.prems Cons.IH [OF t(2)] obtain u where "steps step t es = Some u" "good u" "\<forall>k. prefix (view t k) (view u k)"
    by auto
  with t show ?case using prefix_order.trans by fastforce
qed

end

section \<open>The recipe service\<close>

datatype service_event = Serving service_call | Restart | RequestFault commit_stage

definition reopened :: "workspace_host \<Rightarrow> recipe_service \<Rightarrow> recipe_service option" where
  "reopened W S = (case service_open W (svc_backend S) (svc_grants S) of Err _ \<Rightarrow> None | Ok T \<Rightarrow> Some T)"

fun service_step :: "workspace_host \<Rightarrow> recipe_service \<Rightarrow> service_event \<Rightarrow> recipe_service option" where
  "service_step W S (Serving c) =
     (case serve W S c of (S', res) \<Rightarrow>
        (case res of Err (SvcCrash _) \<Rightarrow> reopened W S' | _ \<Rightarrow> Some S'))"
| "service_step W S Restart = reopened W S"
| "service_step W S (RequestFault stage) = Some (with_fault S (Some stage))"

fun storable_event :: "workspace_host \<Rightarrow> recipe_service \<Rightarrow> service_event \<Rightarrow> bool" where
  "storable_event W S (Serving c) \<longleftrightarrow> storable W S c"
| "storable_event W S _ \<longleftrightarrow> True"

lemma service_step_serving:
  "serve W S c = (S', res) \<Longrightarrow> service_step W S (Serving c) = (if crashed res then reopened W S' else Some S')"
  by (auto simp: crashed_def split: sum.splits service_error.splits)

definition sound_service :: "workspace_host \<Rightarrow> recipe_service \<Rightarrow> bool" where
  "sound_service W S \<longleftrightarrow> (\<exists>D. sound W S D)"

lemma reopened_sound:
  assumes "on_disk W (svc_backend S) D"
  obtains T where "reopened W S = Some T" "sound W T D" "svc_grants T = svc_grants S"
    "be_fail_after (svc_backend T) = None" "memory T = D"
proof -
  from opened_sound [OF assms, where grants = "svc_grants S"] obtain T where
    "service_open W (svc_backend S) (svc_grants S) = Ok T" "sound W T D" "svc_grants T = svc_grants S"
    "be_fail_after (svc_backend T) = None" "memory T = D" by blast
  with that show thesis by (simp add: reopened_def)
qed

lemma step_durable:
  assumes "sound_service W S" and hex: "hex_digests W" and ok: "storable_event W S ev"
  shows "\<exists>T. service_step W S ev = Some T \<and> sound_service W T \<and>
     (\<forall>k. prefix (case_prod (recipes S) k) (case_prod (recipes T) k))"
proof -
  from assms(1) obtain D where snd: "sound W S D" by (auto simp: sound_service_def)
  have goal: "\<exists>T. service_step W S ev = Some T \<and> sound_service W T \<and>
      (\<forall>k. prefix (case_prod (recipes S) k) (case_prod (recipes T) k))"
    if "service_step W S ev = Some T" "sound W T D'" "\<And>s i. prefix (ledger_recipes D s i) (ledger_recipes D' s i)" for T D'
    using that sound_recipes [OF snd] sound_recipes [OF that(2)] by (auto simp: sound_service_def)
  show ?thesis
  proof (cases ev)
    case (Serving c)
    obtain S' res where run: "serve W S c = (S', res)" by (cases "serve W S c")
    note step = service_step_serving [OF run]
    have "storable W S c" using ok Serving by simp
    from snd hex this run show ?thesis
    proof (cases rule: serve_cases)
      case (ended D')
      with step Serving goal show ?thesis by simp
    next
      case (crash stage D' T y)
      from reopened_sound [OF crash(4)] obtain U where U: "reopened W S' = Some U"
        "sound W U (if stage \<in> {StageObject, StageRevision} then D else D')" by blast
      have "service_step W S ev = Some U" using step U(1) crash(1) Serving by (simp add: crashed_def)
      from goal [OF this U(2)] crash(5) show ?thesis by auto
    qed
  next
    case Restart
    from reopened_sound [OF soundD(2) [OF snd]] obtain T where "reopened W S = Some T" "sound W T D" by blast
    with goal [of T D] Restart show ?thesis by simp
  next
    case (RequestFault stage)
    have "sound W (with_fault S (Some stage)) D"
      using undisturbed_sound [OF snd, of "with_fault S (Some stage)"] by (simp add: undisturbed_def with_fault_def)
    with goal RequestFault show ?thesis by simp
  qed
qed

interpretation recipe_runs: durable_service
  "\<lambda>S. hex_digests W \<and> sound_service W S" "storable_event W" "service_step W" "\<lambda>S. case_prod (recipes S)" for W
proof
  fix S ev
  assume "hex_digests W \<and> sound_service W S" "storable_event W S ev"
  with step_durable [of W S ev] show "\<exists>T. service_step W S ev = Some T \<and> (hex_digests W \<and> sound_service W T) \<and>
      (\<forall>k. prefix (case_prod (recipes S) k) (case_prod (recipes T) k))" by blast
qed

text \<open>A new service, on an empty backend.\<close>

lemma empty_on_disk: "on_disk W backend_default (\<lambda>_ _. [])"
  by (simp add: on_disk_def tidy_def backend_default_def bt_wf_def distinct_patch_ids_def)

lemma fresh_service:
  assumes "service_open W backend_default grants = Ok S"
  shows "sound_service W S" and "recipes S s i = []"
proof -
  from opened_sound [OF empty_on_disk, of W grants] assms have "sound W S (\<lambda>_ _. [])" by auto
  then show "sound_service W S" "recipes S s i = []"
    using sound_recipes by (auto simp: sound_service_def ledger_recipes_def)
qed

end
