(* ===== verification/Workspace_Faults.thy ===== *)
theory Workspace_Faults
  imports Workspace_Runs
begin

text \<open>
  Consequences for single calls: who may change what, what a retry after a crash does, and which commits recovery
  cannot read back.
\<close>

section \<open>Authorization\<close>

lemma authorized:
  "service_authorize S ctx owner actor = Ok u \<Longrightarrow> grants_actor (svc_grants S) ctx \<and> owner = oc_owner ctx"
  by (auto simp: service_authorize_def result_simps directory_authorize_Ok_iff split: if_splits)

lemma create_guard_authorized:
  "create_guard W S ctx r = Ok (l, x) \<Longrightarrow> grants_actor (svc_grants S) ctx \<and> scope_for_owner W (oc_owner ctx) = Ok (loc_scope l)"
  by (auto simp: create_guard_def result_simps Let_def split: if_splits dest!: authorized)

lemma patch_location_scope: "patch_location W S p = Ok (l, x) \<Longrightarrow> scope_for_owner W (pat_owner_ref p) = Ok (loc_scope l)"
  by (elim patch_location_Ok) simp

lemma apply_guard_authorized:
  "apply_guard W S ctx p = Ok (l, x) \<Longrightarrow> grants_actor (svc_grants S) ctx \<and> scope_for_owner W (oc_owner ctx) = Ok (loc_scope l)"
  by (auto simp: apply_guard_def result_simps split: if_splits dest!: authorized patch_location_scope)

lemma merge_guard_authorized:
  "merge_guard W S ctx p i = Ok (l, x) \<Longrightarrow> grants_actor (svc_grants S) ctx \<and> scope_for_owner W (oc_owner ctx) = Ok (loc_scope l)"
  by (auto simp: merge_guard_def result_simps split: if_splits dest!: authorized patch_location_scope)

lemma rollback_guard_authorized:
  "rollback_guard W S ctx q i = Ok (l, x) \<Longrightarrow> grants_actor (svc_grants S) ctx \<and> scope_for_owner W (oc_owner ctx) = Ok (loc_scope l)"
  by (auto simp: rollback_guard_def result_simps Let_def split: if_splits dest!: authorized)

lemma activity_guard_authorized:
  "activity_guard W S ctx a = Ok (d, s) \<Longrightarrow> grants_actor (svc_grants S) ctx \<and> scope_for_owner W (oc_owner ctx) = Ok s"
  by (auto simp: activity_guard_def result_simps Let_def split: if_splits dest!: authorized)

text \<open>The stores of a service differ in one scope at most.\<close>

definition confined :: "recipe_service \<Rightarrow> recipe_service \<Rightarrow> string \<Rightarrow> bool" where
  "confined S S' s \<longleftrightarrow> (\<forall>t. t \<noteq> s \<longrightarrow> bt_get (svc_stores S') t = bt_get (svc_stores S) t)"

lemma confined_refl [simp]: "confined S S s"
  by (simp add: confined_def)

lemma confined_recipes: "confined S S' s \<Longrightarrow> t \<noteq> s \<Longrightarrow> recipes S' t i = recipes S t i"
  by (simp add: confined_def recipes_def memory_def store_at_def)

lemma commit_staged_confined: "commit_staged W S l r p x st y = (S', res) \<Longrightarrow> confined S S' (loc_scope l)"
  by (auto simp: commit_staged_def confined_def split: prod.splits sum.splits)

lemma report_conflict_confined: "report_conflict S l p i = (S', res) \<Longrightarrow> confined S S' s"
  by (auto simp: report_conflict_def confined_def split: sum.splits)

lemmas confined_results = commit_staged_confined report_conflict_confined

lemma serve_confined:
  assumes "serve W S c = (S', res)"
  shows "S' = S \<and> \<not> is_ok res \<or>
    grants_actor (svc_grants S) (call_context c) \<and>
    (\<exists>s. scope_for_owner W (oc_owner (call_context c)) = Ok s \<and> confined S S' s)"
proof (cases c)
  case (CreateRecipe ctx r)
  show ?thesis
  proof (cases "create_guard W S ctx r")
    case (Inr le)
    then show ?thesis using assms CreateRecipe create_guard_authorized [of W S ctx r]
      by (cases le) (fastforce simp: create_recipe_def replying_def split: sum.splits prod.splits dest: confined_results)
  qed (use assms CreateRecipe in \<open>auto simp: create_recipe_def replying_def\<close>)
next
  case (ApplyPatch ctx p)
  show ?thesis
  proof (cases "apply_guard W S ctx p")
    case (Inr le)
    then show ?thesis using assms ApplyPatch apply_guard_authorized [of W S ctx p]
      by (cases le) (fastforce simp: service_apply_patch_def replying_def
          split: sum.splits prod.splits patch_outcome.splits patch_error.splits dest: confined_results)
  qed (use assms ApplyPatch in \<open>auto simp: service_apply_patch_def replying_def\<close>)
next
  case (NarrowMerge ctx p i)
  show ?thesis
  proof (cases "merge_guard W S ctx p i")
    case (Inr le)
    then show ?thesis using assms NarrowMerge merge_guard_authorized [of W S ctx p i]
      by (cases le) (fastforce simp: service_narrow_merge_def replying_def
          split: sum.splits prod.splits patch_outcome.splits patch_error.splits dest: confined_results)
  qed (use assms NarrowMerge in \<open>auto simp: service_narrow_merge_def replying_def\<close>)
next
  case (RollBack ctx q i)
  show ?thesis
  proof (cases "rollback_guard W S ctx q i")
    case (Inr le)
    then show ?thesis using assms RollBack rollback_guard_authorized [of W S ctx q i]
      by (cases le) (fastforce simp: service_rollback_def replying_def split: sum.splits prod.splits if_splits
          dest: confined_results)
  qed (use assms RollBack in \<open>auto simp: service_rollback_def replying_def\<close>)
next
  case (SaveActivity ctx a d)
  show ?thesis
  proof (cases "activity_guard W S ctx a")
    case (Inr le)
    obtain S1 r1 where op: "save_activity W S ctx a d = (S1, r1)" by (cases "save_activity W S ctx a d")
    then have "svc_stores S1 = svc_stores S" using activity_outcome by (auto simp: undisturbed_def)
    moreover have "S' = S1" using assms op by (auto simp: SaveActivity replying_def split: sum.splits)
    ultimately have "confined S S' s" for s by (simp add: confined_def)
    with Inr SaveActivity activity_guard_authorized [of W S ctx a] show ?thesis by (cases le) auto
  qed (use assms SaveActivity in \<open>auto simp: save_activity_def replying_def\<close>)
qed

section \<open>What recovery has to read\<close>

definition readable_at :: "workspace_host \<Rightarrow> fixture_backend \<Rightarrow> recipe_location \<Rightarrow> u64 \<Rightarrow> bool" where
  "readable_at W B l n \<longleftrightarrow> (\<exists>env. envelope_at W B l n = Ok env \<and>
     (n \<noteq> 1 \<longrightarrow> (\<exists>p. re_patch env = Some p \<and> valid_key_id (pat_patch_id p))))"

lemma readable_cong: "be_revisions B = be_revisions C \<Longrightarrow> readable_at W B l n = readable_at W C l n"
  by (simp add: readable_at_def envelope_at_def)

lemma recover_next_reads:
  assumes "recover_next W l rc n env = Ok rc'"
  shows "be_revisions (rc_backend rc') = be_revisions (rc_backend rc) \<and>
     (\<exists>p. re_patch env = Some p \<and> valid_key_id (pat_patch_id p))"
proof -
  have keep: "be_revisions (insert_recovered_journal B l j) = be_revisions B" for B j
    by (simp add: insert_recovered_journal_def Let_def split: option.split)
  from assms show ?thesis
    by (auto simp: recover_next_def result_simps Let_def keep split: option.splits if_splits prod.splits sum.splits)
qed

lemma recover_revision_reads:
  assumes "recover_revision W l rc n = Ok (rc', r)"
  shows "be_revisions (rc_backend rc') = be_revisions (rc_backend rc)" and "readable_at W (rc_backend rc) l n"
proof -
  have first: "be_revisions (rc_backend rc2) = be_revisions (rc_backend rc1)" if "recover_first W l rc1 env = Ok rc2" for rc1 rc2 env
    using that by (auto simp: recover_first_def split: if_splits prod.splits sum.splits)
  show "be_revisions (rc_backend rc') = be_revisions (rc_backend rc)" "readable_at W (rc_backend rc) l n"
    using assms by (auto simp: recover_revision_def readable_at_def result_simps Let_def
        split: if_splits dest!: first recover_next_reads)
qed

lemma recover_revisions_reads:
  "recover_revisions W l st ns = Ok st' \<Longrightarrow> be_revisions (rc_backend (fst st')) = be_revisions (rc_backend (fst st)) \<and>
     (\<forall>n \<in> set ns. readable_at W (rc_backend (fst st)) l n)"
proof (induction W l st ns rule: recover_revisions.induct)
  case (1 W l st)
  then show ?case by simp
next
  case (2 W l rc x n ns)
  from "2.prems" obtain rc1 r where one: "recover_revision W l rc n = Ok (rc1, r)"
    and rest: "recover_revisions W l (rc1, Some r) ns = Ok st'" by (auto simp: result_simps)
  note reads = recover_revision_reads [OF one]
  from "2.IH" [OF rest] reads readable_cong [OF reads(1)] show ?case by simp
qed

lemma recover_recipe_reads:
  assumes "recover_recipe W rc l pointer = Ok rc'"
  shows "be_revisions (rc_backend rc') = be_revisions (rc_backend rc)"
    and "n \<noteq> 0 \<Longrightarrow> unat n \<le> unat (cp_revision pointer) \<Longrightarrow> readable_at W (rc_backend rc) l n"
proof -
  from assms obtain st where run: "recover_revisions W l (rc, None) (map of_nat [1..<Suc (unat (cp_revision pointer))]) = Ok st"
    and rc': "fst st = rc'" by (auto simp: recover_recipe_def result_simps split: if_splits)
  note reads = recover_revisions_reads [OF run]
  show "be_revisions (rc_backend rc') = be_revisions (rc_backend rc)" using reads rc' by simp
  assume n: "n \<noteq> 0" "unat n \<le> unat (cp_revision pointer)"
  then have "unat n \<noteq> 0" by (simp add: u64_zero_iff)
  with n(2) have "unat n \<in> set [1..<Suc (unat (cp_revision pointer))]" by (simp del: upt_Suc)
  moreover have "n = of_nat (unat n)" by simp
  ultimately have "n \<in> set (map of_nat [1..<Suc (unat (cp_revision pointer))])" by (metis image_eqI set_map)
  with conjunct2 [OF reads] show "readable_at W (rc_backend rc) l n" unfolding fst_conv by blast
qed

lemma recover_all_reads:
  "recover_all W rc ps = Ok rc' \<Longrightarrow> (l, pointer) \<in> set ps \<Longrightarrow> n \<noteq> 0 \<Longrightarrow> unat n \<le> unat (cp_revision pointer) \<Longrightarrow>
     readable_at W (rc_backend rc) l n"
proof (induction W rc ps rule: recover_all.induct)
  case (2 W rc l' pointer' rest)
  from "2.prems"(1) obtain rc1 where one: "recover_recipe W rc l' pointer' = Ok rc1"
    and rest: "recover_all W rc1 rest = Ok rc'" by (auto simp: result_simps)
  show ?case
  proof (cases "(l, pointer) = (l', pointer')")
    case True
    with recover_recipe_reads(2) [OF one] "2.prems"(3,4) show ?thesis by simp
  next
    case False
    with "2.prems"(2) have "(l, pointer) \<in> set rest" by auto
    from "2.IH" [OF rest this "2.prems"(3,4)] recover_recipe_reads(1) [OF one] show ?thesis
      using readable_cong by metis
  qed
qed simp

lemma parse_pointers_member:
  "parse_pointers m = Some ps \<Longrightarrow> (k, pointer) \<in> set m \<Longrightarrow> committed_pointer k = Some l \<Longrightarrow> (l, pointer) \<in> set ps"
  by (induction m arbitrary: ps) (auto split: option.splits)

lemma open_reads:
  assumes run: "service_open W B grants = Ok S" and sf: "slash_free s"
    and get: "bt_get (be_pointers B) (pointer_key (at_location s i)) = Some pointer"
    and n: "n \<noteq> 0" "unat n \<le> unat (cp_revision pointer)"
  shows "readable_at W B (at_location s i) n"
proof -
  from run obtain ps rc where ps: "committed_pointers (clear_fault B) = Some ps"
    and rec: "recover_all W \<lparr>rc_backend = clear_fault B, rc_stores = [], rc_objects = {}, rc_revisions = {}\<rparr> ps = Ok rc"
    by (auto simp: service_open_def Let_def result_simps)
  have "(pointer_key (at_location s i), pointer) \<in> set (be_pointers (clear_fault B))"
    using get by (simp add: clear_fault_def bt_get_def map_of_SomeD)
  from parse_pointers_member [OF ps [unfolded committed_pointers_def] this committed_pointer_key [OF sf]]
  have "(at_location s i, pointer) \<in> set ps" .
  from recover_all_reads [OF rec this n] show ?thesis
    using readable_cong [of "clear_fault B" B] by (simp add: clear_fault_def)
qed

text \<open>What a completed commit has written.\<close>

lemma commit_recipe_writes:
  assumes "commit_recipe W B l r p expected = (B', Ok u)"
  obtains bytes where "canonical_bytes (wh_json W) (envelope_json (envelope_of (r, p))) = Ok bytes"
    "bt_get (be_revisions B') (revision_key l (rcp_revision r)) = Some bytes"
    "bt_get (be_pointers B') (pointer_key l) = Some (pointer_to r)"
proof -
  have crash: "crash_if_requested C st = (C', Ok v) \<Longrightarrow> C' = C" for C st C' v
    by (auto simp: crash_if_requested_def split: if_splits)
  from assms obtain B2 B3 where two: "put_revision_once (wh_json W) B2 l (rcp_revision r) (envelope_of (r, p)) = (B3, Ok ())"
    and three: "\<exists>B4. cas_current B3 l expected (pointer_to r) = (B4, Ok ()) \<and> commit_journal (wh_json W) B4 l r p = (B', Ok u)"
    by (auto simp: commit_recipe_def split: sum.splits prod.splits)
  from two obtain bytes where b: "canonical_bytes (wh_json W) (envelope_json (envelope_of (r, p))) = Ok bytes"
    "bt_get (be_revisions B3) (revision_key l (rcp_revision r)) = Some bytes"
    by (auto simp: put_revision_once_def Let_def split: sum.splits option.splits if_splits dest!: crash)
  from three obtain B4 where B4: "cas_current B3 l expected (pointer_to r) = (B4, Ok ())"
    "commit_journal (wh_json W) B4 l r p = (B', Ok u)" by blast
  from B4(1) have p4: "be_revisions B4 = be_revisions B3" "bt_get (be_pointers B4) (pointer_key l) = Some (pointer_to r)"
    by (auto simp: cas_current_def Let_def split: if_splits dest!: crash)
  have "be_revisions B' = be_revisions B4 \<and> be_pointers B' = be_pointers B4"
    using B4(2) by (auto simp: commit_journal_def put_journal_once_def Let_def result_simps
        split: option.splits sum.splits prod.splits if_splits dest!: crash)
  with b p4 that show thesis by simp
qed

text \<open>A commit whose envelope cannot be read back stops every later recovery.\<close>

lemma unreadable_commit_blocks:
  assumes run: "commit_staged W S (at_location s i) r p expected staged x = (S', Ok y)" and sf: "slash_free s"
    and "rcp_revision r \<noteq> 0"
    and bad: "\<And>bytes env. canonical_bytes (wh_json W) (envelope_json (envelope_of (r, p))) = Ok bytes \<Longrightarrow>
      read_envelope W bytes = Ok env \<Longrightarrow> rcp_revision r \<noteq> 1 \<and> (\<forall>q. re_patch env = Some q \<longrightarrow> \<not> valid_key_id (pat_patch_id q))"
  shows "\<not> is_ok (service_open W (svc_backend S') grants)"
proof
  assume "is_ok (service_open W (svc_backend S') grants)"
  then obtain T where op: "service_open W (svc_backend S') grants = Ok T" by (auto simp: is_ok_iff)
  from run have "commit_recipe W (svc_backend S) (at_location s i) r p expected = (svc_backend S', Ok ())"
    by (auto simp: commit_staged_def split: prod.splits sum.splits)
  then obtain bytes where b: "canonical_bytes (wh_json W) (envelope_json (envelope_of (r, p))) = Ok bytes"
    "bt_get (be_revisions (svc_backend S')) (revision_key (at_location s i) (rcp_revision r)) = Some bytes"
    "bt_get (be_pointers (svc_backend S')) (pointer_key (at_location s i)) = Some (pointer_to r)"
    by (rule commit_recipe_writes)
  from open_reads [OF op sf b(3) assms(3)] have "readable_at W (svc_backend S') (at_location s i) (rcp_revision r)"
    by (simp add: pointer_to_def)
  with b(1,2) bad show False by (auto simp: readable_at_def envelope_at_def result_simps)
qed

text \<open>
  Retrying a patch after a crash: the service that was reopened accepts the call that crashed, because its storage
  is clean and holds the same objects as before (early crash), or answers that the patch has been applied (late
  crash).
\<close>

section \<open>Two clean backends of one ledger\<close>

lemma clean_object:
  assumes "clean W B D" and "clean W B' D" and get: "bt_get (be_objects B) k = Some b"
  shows "bt_get (be_objects B') k = Some b"
proof -
  from assms(1) get have "owns_object D k" by (simp add: clean_def)
  then obtain s i e where e: "e \<in> set (D s i)" and k: "k = object_key (rcp_digest (fst e))"
    unfolding owns_object_def by blast
  then have ne: "D s i \<noteq> []" by auto
  obtain j where j: "j < length (D s i)" "D s i ! j = e" using e by (auto simp: in_set_conv_nth)
  have "stored W C (at_location s i) (of_nat (Suc j)) e" if "clean W C D" for C
  proof -
    have "stored_log W C s i (D s i)" by (rule on_diskD(3)) (use that ne in \<open>simp_all add: clean_def\<close>)
    from stored_logD(5) [OF this j(1)] j(2) show ?thesis by simp
  qed
  from this [OF assms(1)] this [OF assms(2)] get k show ?thesis by (auto simp: stored_def)
qed

lemma clean_objects:
  assumes "clean W B D" and "clean W B' D"
  shows "bt_get (be_objects B) k = bt_get (be_objects B') k"
proof (cases "bt_get (be_objects B) k")
  case None
  with clean_object [OF assms(2,1)] show ?thesis by (cases "bt_get (be_objects B') k") auto
qed (use clean_object [OF assms] in simp)

lemma commit_again:
  assumes clean: "clean W B D" "clean W B' D" and c: "committable W D s i (r, p)"
    and run: "commit_recipe W B (at_location s i) r p (expected_pointer D s i) = (C, Ok u)"
    and quiet: "be_fail_after B' = None"
  shows "\<exists>C'. commit_recipe W B' (at_location s i) r p (expected_pointer D s i) = (C', Ok ())"
proof -
  have "survives W (r, p)" using c by (simp add: committable_def)
  then obtain rb eb where rb: "canonical_bytes (wh_json W) (recipe_json r) = Ok rb"
    and eb: "canonical_bytes (wh_json W) (envelope_json (envelope_of (r, p))) = Ok eb"
    by (auto simp: survives_def is_ok_iff)
  have "bt_get (be_objects B) (object_key (rcp_digest r)) \<in> {None, Some rb}"
    using run unfolding commit_recipe_eq [OF clean(1) c rb eb] by (simp split: if_splits)
  then show ?thesis
    unfolding commit_recipe_eq [OF clean(2) c rb eb] clean_objects [OF clean] quiet by simp
qed

section \<open>The same call on the reopened service\<close>

lemma apply_guard_again:
  assumes "apply_guard W S ctx p = Ok (at_location s i, x)" and "svc_grants T = svc_grants S"
    and "on_disk W (svc_backend T) E" and "slash_free s"
  shows "apply_guard W T ctx p = Ok (at_location s i, expected_pointer E s i)"
proof -
  have auth: "service_authorize T = service_authorize S"
    using assms(2) by (intro ext) (simp add: service_authorize_def)
  have "current_of W (svc_backend T) (at_location s i) = Ok (expected_pointer E s i)"
    by (rule current_of_on_disk [OF assms(3,4)])
  with assms(1) show ?thesis
    by (auto simp: apply_guard_def patch_location_def auth result_simps Let_def split: if_splits)
qed

text \<open>A store that already holds the revision of the patch.\<close>

lemma applied_before:
  assumes rep: "represents H st ((L)(i := L i @ [(r, Some p)]))" and i: "pat_recipe_id p = i"
    and "patch_validate p = Ok ()" and "intent_digest H p = Ok d"
  shows "\<exists>st'. apply_patch H st p = (st', Ok (AlreadyApplied r))"
proof -
  obtain st' res where app: "apply_patch H st p = (st', res)" by (cases "apply_patch H st p")
  have "Some p \<in> snd ` set ((L(i := L i @ [(r, Some p)])) i)" by simp
  then have mem: "p \<in> logged (L(i := L i @ [(r, Some p)]))" unfolding logged_def by blast
  have "snd (spec_apply H (L(i := L i @ [(r, Some p)])) p) = Ok (AlreadyApplied r)"
    using assms(3,4) mem by (auto simp: spec_apply_def Let_def i log_head_def)
  with apply_spec [OF rep app] app show ?thesis by simp
qed

lemma completed_recipes:
  assumes "sound W S D" and "commits W S D s i e me staged"
    and "commit_staged W S (at_location s i) (fst e) (snd e) (expected_pointer D s i) staged x = (V, Ok y)"
  shows "recipes V = ledger_recipes (extended D s i e)" and "y = x"
proof -
  obtain r p where e: "e = (r, p)" by (cases e)
  have com: "committable W D s i (r, p)" using assms(2) by (simp add: commits_def e)
  from assms(3) have run: "commit_staged W S (at_location s i) r p (expected_pointer D s i) staged x = (V, Ok y)"
    by (simp add: e)
  from soundD(1) [OF assms(1)] com run have "y = x \<and> (\<exists>B'. clean W B' (extended D s i e) \<and>
      V = S\<lparr>svc_backend := B', svc_stores := bt_insert s staged (svc_stores S)\<rparr>)"
    by (cases rule: commit_staged_cases) (auto simp: e)
  then obtain B' where "y = x" and B': "clean W B' (extended D s i e)"
    and V: "V = S\<lparr>svc_backend := B', svc_stores := bt_insert s staged (svc_stores S)\<rparr>" by blast
  from committed_sound(1) [OF assms(1,2) B'] have "sound W V (extended D s i e)" by (simp add: V)
  then show "recipes V = ledger_recipes (extended D s i e)" by (rule sound_recipes)
  show "y = x" by fact
qed

lemma retry_apply:
  assumes snd: "sound W S D" and hex: "hex_digests W" and st: "storable W S (ApplyPatch ctx p)"
    and run: "service_apply_patch W S ctx p = (S', Err (SvcCrash stage))" and re: "reopened W S' = Some T"
  obtains U V r vc where "service_apply_patch W (with_fault S None) ctx p = (V, Ok (Applied r vc))"
    "service_apply_patch W T ctx p =
       (U, Ok (if stage \<in> {StageObject, StageRevision} then Applied r vc else AlreadyApplied r))"
    "recipes U = recipes V"
  using snd hex st run
proof (cases rule: apply_outcome)
  case quiet
  then show thesis by (simp add: crashed_def)
next
  case (commit s i e me staged r vc)
  have com: "committable W D s i (r, Some p)" using commit(1,3) by (simp add: commits_def)
  then have sf: "slash_free s" by (simp add: committable_def)
  let ?D = "extended D s i (r, Some p)" and ?early = "stage \<in> {StageObject, StageRevision}"
  have fault: "with_fault S None = S\<lparr>svc_backend := clear_fault (svc_backend S)\<rparr>"
    by (simp add: with_fault_def clear_fault_def)
  have now: "commit_staged W S (at_location s i) r (Some p) (expected_pointer D s i) staged (Applied r vc) =
      (S', Err (SvcCrash stage))"
    using commit(2) [of "be_fail_after (svc_backend S)"] run by (simp add: commit(3))
  from soundD(1) [OF snd] com now obtain B' V where
    S': "S' = S\<lparr>svc_backend := B'\<rparr>" "on_disk W B' (if ?early then D else ?D)"
    and free: "commit_staged W (with_fault S None) (at_location s i) r (Some p) (expected_pointer D s i) staged
      (Applied r vc) = (V, Ok (Applied r vc))"
    by (cases rule: commit_staged_cases) (auto simp: fault)
  have snd0: "sound W (with_fault S None) D"
    using undisturbed_sound [OF snd, of "with_fault S None"] by (simp add: undisturbed_def with_fault_def)
  have com0: "commits W (with_fault S None) D s i (r, Some p) me staged"
    using commit(1,3) by (simp add: commits_def memory_def)
  have V: "recipes V = ledger_recipes ?D" using completed_recipes(1) [OF snd0 com0] free by simp
  have free': "service_apply_patch W (with_fault S None) ctx p = (V, Ok (Applied r vc))"
    using commit(2) [of None] free by (simp add: commit(3))
  have "on_disk W (svc_backend S') (if ?early then D else ?D)" using S' by simp
  then obtain T' where T': "reopened W S' = Some T'" "sound W T' (if ?early then D else ?D)"
    "svc_grants T' = svc_grants S'" "be_fail_after (svc_backend T') = None" "memory T' = (if ?early then D else ?D)"
    by (rule reopened_sound)
  with re have T: "sound W T (if ?early then D else ?D)" "svc_grants T = svc_grants S"
    "be_fail_after (svc_backend T) = None" "memory T = (if ?early then D else ?D)" by (simp_all add: S'(1))
  note guard = apply_guard_again [OF commit(6) T(2) soundD(2) [OF T(1)] sf]
  have rep: "represents (wh_json W) (store_at (svc_stores T) s) ((if ?early then D else ?D) s)"
    using soundD(5) [OF T(1), of s] unfolding T(4) .
  have val: "patch_validate p = Ok ()" "is_ok (intent_digest (wh_json W) p)"
    using commit(5) by (simp_all add: log_step_def Let_def)
  show thesis
  proof (cases ?early)
    case False
    then have "represents (wh_json W) (store_at (svc_stores T) s) ((D s)(i := D s i @ [(r, Some p)]))"
      using rep by simp
    with val commit(4) obtain st' where "apply_patch (wh_json W) (store_at (svc_stores T) s) p = (st', Ok (AlreadyApplied r))"
      using applied_before [where i = i] by (fastforce simp: is_ok_iff)
    with guard have "service_apply_patch W T ctx p = (T, Ok (AlreadyApplied r))"
      by (simp add: service_apply_patch_def)
    with free' V sound_recipes [OF T(1)] False that show thesis by simp
  next
    case True
    have ne: "D s i \<noteq> []"
      using chain_nth_step [of "wh_json W" i "D s i @ [(r, Some p)]" "length (D s i)"] com
      by (auto simp: committable_def)
    have fresh: "pat_patch_id q \<noteq> pat_patch_id p" if "q \<in> logged (D s)" for q
      using com that by (simp add: committable_def)
    have D: "represents (wh_json W) (store_at (svc_stores T) s) (D s)" using rep True by simp
    from step_applies [OF D ne commit(5) fresh] obtain st' where
      st': "apply_patch (wh_json W) (store_at (svc_stores T) s) p = (st', Ok (Applied r vc))"
        "represents (wh_json W) st' ((D s)(i := D s i @ [(r, Some p)]))" by blast
    have snT: "sound W T D" and mT: "memory T = D" using T(1,4) True by auto
    have comT: "commits W T D s i (r, Some p) (r, Some p) st'" using com st'(2) by (simp add: commits_def mT)
    from free obtain C where "commit_recipe W (svc_backend (with_fault S None)) (at_location s i) r (Some p)
        (expected_pointer D s i) = (C, Ok ())" by (auto simp: commit_staged_def split: prod.splits sum.splits)
    from commit_again [OF soundD(1) [OF snd0] soundD(1) [OF snT] com this T(3)] obtain U where
      U: "commit_staged W T (at_location s i) r (Some p) (expected_pointer D s i) st' (Applied r vc) = (U, Ok (Applied r vc))"
      by (auto simp: commit_staged_def)
    have "service_apply_patch W T ctx p = (U, Ok (Applied r vc))"
      using guard st'(1) U True by (simp add: service_apply_patch_def)
    moreover have "recipes U = recipes V" using completed_recipes(1) [OF snT comT] U V by simp
    ultimately show thesis using free' True that by simp
  qed
qed

end
