(* ===== verification/Workspace_Demo.thy ===== *)
theory Workspace_Demo
  imports Workspace_Faults Store_Properties
begin

text \<open>
  A concrete host and a short run of the recipe service, for the witnesses: a recipe is created, then patched.
  The host prints a revision envelope with a given function of the revision, so that the two envelopes differ on disk,
  and reads the second one as a revision made by a given patch.
\<close>

section \<open>The host\<close>

definition ws_print :: "(nat \<Rightarrow> string) \<Rightarrow> raw_json \<Rightarrow> string" where
  "ws_print f j = (case j of RStr s \<Rightarrow> s
     | RObj ((_, RObj (_ # _ # _ # (_, RU64 n) # _)) # _) \<Rightarrow> f (unat n)
     | _ \<Rightarrow> ''null'')"

definition ws_json :: "(nat \<Rightarrow> string) \<Rightarrow> host" where
  "ws_json f = \<lparr>serde_to_vec = (\<lambda>j. Some (ws_print f j)), serde_from_slice = (\<lambda>s. Some (RStr s)),
     blake3_hex = (\<lambda>_. demo_digest), blake3_bytes = (\<lambda>_. replicate 32 0)\<rparr>"

definition demo_activity :: activity where
  "demo_activity = \<lparr>act_schema = activity_schema, act_activity_id = ''desk'', act_owner_ref = OwnerUser ''ann'',
     act_title = ''Desk'', act_recipe_id = ''home'', act_bindings = binding_set_default, act_current_surface = None\<rparr>"

definition ws_host :: "(nat \<Rightarrow> string) \<Rightarrow> patch \<Rightarrow> workspace_host" where
  "ws_host f q = \<lparr>wh_json = ws_json f,
     wh_envelope = (\<lambda>s. if s = ''1'' then Some (envelope_of (demo_recipe, None))
       else if s = ''2'' then Some (envelope_of (demo_recipe2, Some q)) else None),
     wh_activity = (\<lambda>_. Some demo_activity)\<rparr>"

definition ws_grants :: grant_directory where
  "ws_grants = [(''g'', \<lparr>gr_owner = OwnerUser ''ann'', gr_authorized_actor = PrincipalAgent ''bot'',
     gr_generation = 1, gr_revoked = False\<rparr>)]"

definition ws_context :: owner_context where
  "ws_context = \<lparr>oc_owner = OwnerUser ''ann'', oc_acting_principal = PrincipalAgent ''bot'',
     oc_grant = \<lparr>gp_grant_id = ''g'', gp_generation = 1\<rparr>\<rparr>"

lemma ws_json_field [simp]: "wh_json (ws_host f q) = (ws_json f)"
  by (simp add: ws_host_def)

lemma ws_bytes [simp]: "canonical_bytes (ws_json f) j = Ok (ws_print f j)"
  by (simp add: canonical_bytes_def ws_json_def ws_print_def)

lemma ws_parts [simp]: "digest_parts (ws_json f) j = Ok demo_digest"
  by (simp add: digest_parts_def) (simp add: ws_json_def)

lemma ws_content [simp]: "content_digest (ws_json f) r = Ok demo_digest" "intent_digest (ws_json f) p = Ok demo_digest"
  by (simp_all add: content_digest_def intent_digest_def)

lemma ws_hex: "hex_digests (ws_host f q)"
  by (simp add: hex_digests_def) (simp add: ws_json_def)

lemma ws_scan: "scan_for_forbidden_content (ws_json f) j = (if forbidden_value (ws_print f j) then Err ForbiddenContent else Ok ())"
  by (simp add: scan_for_forbidden_content_def) (simp add: ws_json_def)

lemma ws_prints [simp]:
  "ws_print f (RObj ((k, RStr x) # m)) = ''null''" "ws_print f (recipe_json r) = ''null''"
  "ws_print f (patch_json p) = ''null''" "ws_print f (activity_json a) = ''null''"
  "ws_print f (envelope_json (envelope_of (r, q))) = f (unat (rcp_revision r))"
  by (simp_all add: ws_print_def recipe_json_def patch_json_def activity_json_def envelope_json_def)

lemma ws_harmless [simp]: "\<not> forbidden_value ''null''"
  by code_simp

lemma ws_scope [simp]: "scope_for_owner (ws_host f q) (OwnerUser x) = Ok demo_digest"
  by (simp add: scope_for_owner_def scan_document_def ws_scan scope_key_def)

section \<open>The documents\<close>

lemma ws_recipe_valid: "recipe_validate (ws_json f) demo_recipe = Ok ()"
proof -
  have "binding_set_validate (ws_json f) binding_set_default = Ok ()"
    by (simp add: binding_set_validate_def binding_set_default_def extensions_validate_def extensions_new_def)
  then show ?thesis
    using demo_documents_valid
    by (simp add: recipe_validate_Ok_iff demo_recipe_def demo_scene parent_link_ok_def metadata_bytes_def
        usize_sum_def bounded_nonempty_def max_recipe_metadata_def max_recipe_metadata_bytes_def)
qed

lemma ws_insert:
  "store_insert (ws_json f) store_new demo_recipe = (fst (store_insert demo_host store_new demo_recipe), Ok ())"
  unfolding demo_insert by (simp add: store_insert_def ws_recipe_valid store_new_def bt_contains_key_def)

lemma ws_child: "finish_revision (ws_json f) (demo_recipe\<lparr>rcp_metadata := [(''pinned'', Bool True)]\<rparr>) 1 demo_digest = Ok demo_recipe2"
proof -
  let ?r = "demo_recipe\<lparr>rcp_metadata := [(''pinned'', Bool True)]\<rparr>"
  have "binding_set_validate (ws_json f) binding_set_default = Ok ()"
    by (simp add: binding_set_validate_def binding_set_default_def extensions_validate_def extensions_new_def)
  then have "recipe_validate (ws_json f) (?r\<lparr>rcp_parent_revision := Some 1, rcp_parent_digest := demo_digest,
      rcp_revision := 2\<rparr>) = Ok ()"
    using demo_documents_valid
    by (simp add: recipe_validate_Ok_iff demo_scene parent_link_ok_def bounded_nonempty_def max_recipe_metadata_def
        max_recipe_metadata_bytes_def metadata_bytes_def usize_sum_def usize_saturating_add_def usize_max_def
        value_text_len_def)
  then show ?thesis
    by (simp add: finish_revision_Ok_iff refresh_digest_def demo_recipe2_def demo_child_def)
qed

lemma ws_pin: "apply_patch (ws_json f) (fst (store_insert demo_host store_new demo_recipe)) demo_pin =
     (demo_store, Ok (Applied demo_recipe2 False))"
proof -
  have "patch_validate demo_pin = Ok ()" unfolding demo_pin_def by (rule demo_patch_valid) simp_all
  then show ?thesis
    unfolding apply_patch_Applied_iff demo_insert using ws_child
    by (auto simp: demo_pin_def build_candidate_def sole_restore_def commit_def record_revision_def
        demo_store_def bt_get_def)
qed

lemma ws_texts: "show_nat (Suc 0) = ''1''" "show_nat 2 = ''2''"
  by code_simp+

lemma ws_recipes_equal: "recipe_eq demo_recipe demo_recipe" "recipe_eq demo_recipe2 demo_recipe2"
  by code_simp+

lemma ws_survives: "survives (ws_host show_nat q) (demo_recipe, None)" "survives (ws_host show_nat q) (demo_recipe2, Some q)"
proof -
  have read: "read_envelope (ws_host show_nat q) s = ok_or JsonSyntax (wh_envelope (ws_host show_nat q) s)"
    if "length s < 2" for s
    using that by (simp add: read_envelope_def parse_canonical_def max_canonical_document_bytes_def)
      (simp add: ws_json_def ws_print_def)
  show "survives (ws_host show_nat q) (demo_recipe, None)" "survives (ws_host show_nat q) (demo_recipe2, Some q)"
    by (simp_all add: survives_def ws_recipes_equal ws_texts read) (simp_all add: ws_host_def)
qed

section \<open>The run\<close>

definition ws_fresh :: recipe_service where
  "ws_fresh = \<lparr>svc_backend = backend_default, svc_grants = ws_grants, svc_stores = []\<rparr>"

definition ws_created :: "(nat \<Rightarrow> string) \<Rightarrow> recipe_service" where
  "ws_created f = ws_fresh\<lparr>svc_backend := pointer_stage (revision_stage (object_stage backend_default demo_digest ''null'')
        (at_location demo_digest ''home'') 1 (f 1)) (at_location demo_digest ''home'') demo_recipe,
     svc_stores := [(demo_digest, fst (store_insert demo_host store_new demo_recipe))]\<rparr>"

abbreviation ws_demo :: workspace_host where
  "ws_demo \<equiv> ws_host show_nat demo_pin"

abbreviation ws_service :: recipe_service where
  "ws_service \<equiv> ws_created show_nat"

lemma ws_open: "service_open (ws_host f q) backend_default ws_grants = Ok ws_fresh"
  by (simp add: ws_fresh_def service_open_def clear_fault_def backend_default_def committed_pointers_def quarantine_orphans_def
      bt_keys_def Let_def)

lemma ws_authorized:
  assumes "svc_grants S = ws_grants"
  shows "service_authorize S ws_context (OwnerUser ''ann'') (PrincipalAgent ''bot'') = Ok ()"
proof -
  have "directory_authorize ws_grants (oc_grant ws_context) (OwnerUser ''ann'') (PrincipalAgent ''bot'') = Ok ()" by code_simp
  then show ?thesis using assms by (simp add: service_authorize_def) (simp add: ws_context_def)
qed

lemma ws_context_fields [simp]: "oc_owner ws_context = OwnerUser ''ann''" "oc_acting_principal ws_context = PrincipalAgent ''bot''"
  by (simp_all add: ws_context_def)

lemma ws_keys: "valid_key_id ''home''" "valid_key_id ''pin''" "valid_key_id ''desk''"
  by code_simp+

lemma ws_create:
  "create_recipe (ws_host f q) (with_fault ws_fresh fa) ws_context demo_recipe =
     commit_staged (ws_host f q) (with_fault ws_fresh fa) (at_location demo_digest ''home'') demo_recipe None None
       (fst (store_insert demo_host store_new demo_recipe)) demo_recipe"
proof -
  have "create_guard (ws_host f q) ws_fresh ws_context demo_recipe = Ok (at_location demo_digest ''home'', None)"
    by (simp add: create_guard_def ws_authorized ws_keys scan_document_def ws_scan ws_recipe_valid Let_def)
      (simp add: ws_fresh_def ws_authorized current_of_def backend_default_def bt_get_def)
  then show ?thesis
    by (simp add: create_recipe_def ws_insert store_at_def) (simp add: ws_fresh_def bt_get_def store_at_def ws_insert)
qed

lemma ws_created_eq:
  "serve (ws_host f q) ws_fresh (CreateRecipe ws_context demo_recipe) = (ws_created f, Ok (RecipeReply demo_recipe))"
  using ws_create [of f q None]
  by (simp add: with_fault_def replying_def commit_staged_def commit_recipe_def put_object_once_def put_revision_once_def
      cas_current_def crash_if_requested_def commit_journal_def stage_defs ws_created_def ws_fresh_def backend_default_def
      bt_get_def Let_def)

lemma ws_apply:
  "service_apply_patch ws_demo (with_fault ws_service fa) ws_context demo_pin =
     commit_staged ws_demo (with_fault ws_service fa) (at_location demo_digest ''home'') demo_recipe2 (Some demo_pin)
       (Some (pointer_to demo_recipe)) demo_store (Applied demo_recipe2 False)"
proof -
  have pin: "pat_owner_ref demo_pin = OwnerUser ''ann''" "pat_acting_principal demo_pin = PrincipalAgent ''bot''"
    "pat_patch_id demo_pin = ''pin''" "pat_recipe_id demo_pin = ''home''" "patch_validate demo_pin = Ok ()"
    using demo_patch_valid [of "''pin''" 1 "[SetRecipeMetadata ''pinned'' (Bool True)]"]
    by (simp_all add: demo_pin_def demo_patch_def)
  have grants: "svc_grants ws_service = ws_grants" by (simp add: ws_created_def ws_fresh_def)
  have read: "read_envelope ws_demo ''1'' = Ok (envelope_of (demo_recipe, None))"
    using ws_survives(1) by (simp add: survives_def ws_texts)
  have "current_of ws_demo (svc_backend ws_service) (at_location demo_digest ''home'') = Ok (Some (pointer_to demo_recipe))"
    by (simp add: current_of_def ws_created_def stage_defs backend_default_def bt_get_def read ws_texts pointer_to_def Let_def)
  then have "apply_guard ws_demo ws_service ws_context demo_pin = Ok (at_location demo_digest ''home'', Some (pointer_to demo_recipe))"
    by (simp add: apply_guard_def pin ws_authorized grants ws_keys patch_location_def scan_document_def ws_scan Let_def)
  moreover have "store_at (svc_stores ws_service) demo_digest = fst (store_insert demo_host store_new demo_recipe)"
    by (simp add: ws_created_def store_at_def bt_get_def)
  ultimately show ?thesis by (simp add: service_apply_patch_def ws_pin)
qed

lemma ws_crash:
  "\<exists>S'. service_apply_patch ws_demo (with_fault ws_service (Some StagePointer)) ws_context demo_pin =
     (S', Err (SvcCrash StagePointer))"
proof -
  have keys: "revision_key l 2 \<noteq> revision_key l 1" for l by (simp add: revision_key_def ws_texts)
  show ?thesis
    unfolding ws_apply
    by (simp add: ws_created_def with_fault_def commit_staged_def commit_recipe_def put_object_once_def
        put_revision_once_def cas_current_def crash_if_requested_def commit_error_def stage_defs ws_fresh_def
        backend_default_def bt_get_def ws_texts keys Let_def)
qed

lemma ws_storable: "storable ws_demo S (CreateRecipe ctx demo_recipe)"
  "svc_stores S = svc_stores ws_service \<Longrightarrow> storable ws_demo S (ApplyPatch ws_context demo_pin)"
proof -
  show "storable ws_demo S (CreateRecipe ctx demo_recipe)" by (simp add: storable_def ws_survives)
  assume "svc_stores S = svc_stores ws_service"
  then have "store_at (svc_stores S) demo_digest = fst (store_insert demo_host store_new demo_recipe)"
    by (simp add: ws_created_def store_at_def bt_get_def)
  then show "storable ws_demo S (ApplyPatch ws_context demo_pin)"
    by (simp add: storable_def demo_pin_def demo_patch_def) (simp flip: demo_patch_def demo_pin_def add: ws_pin ws_survives)
qed

end
