(* ===== verification/Workspace_Promises.thy ===== *)
theory Workspace_Promises
  imports Workspace_Demo
begin

text \<open>
  What the recipe service promises over whole runs: commits are atomic across crashes, acknowledged revisions
  survive, a retried patch is applied once, calls stay in the scope of their grant, a stale activity is never
  written; and the two inputs after which recovery refuses what the service has accepted.
\<close>

section \<open>Reached services\<close>

text \<open>The services that calls, restarts and requested faults lead to from a service opened on an empty backend.\<close>

definition reached :: "workspace_host \<Rightarrow> recipe_service \<Rightarrow> bool" where
  "reached W S \<longleftrightarrow> (\<exists>grants S0 events. service_open W backend_default grants = Ok S0 \<and>
     allowed_steps (service_step W) (storable_event W) S0 events \<and> steps (service_step W) S0 events = Some S)"

lemma reached_sound:
  assumes "reached W S" and "hex_digests W"
  obtains D where "sound W S D" "recipes S = ledger_recipes D"
proof -
  from assms(1) obtain grants S0 events where "service_open W backend_default grants = Ok S0"
    and run: "allowed_steps (service_step W) (storable_event W) S0 events" "steps (service_step W) S0 events = Some S"
    unfolding reached_def by blast
  then have "hex_digests W \<and> sound_service W S0" using fresh_service(1) assms(2) by blast
  from recipe_runs.steps_recover [OF this run(1)] run(2) have "sound_service W S" by auto
  with that sound_recipes show thesis by (auto simp: sound_service_def)
qed

lemma steps_append: "steps f s (es @ fs) = Option.bind (steps f s es) (\<lambda>t. steps f t fs)"
  by (induction es arbitrary: s) (auto split: option.split)

lemma allowed_steps_append:
  "allowed_steps f ok s (es @ fs) \<longleftrightarrow> allowed_steps f ok s es \<and> (\<forall>t. steps f s es = Some t \<longrightarrow> allowed_steps f ok t fs)"
  by (induction es arbitrary: s) (auto split: option.split)

lemma reached_step:
  assumes "reached W S" and "storable_event W S ev" and "service_step W S ev = Some T"
  shows "reached W T"
proof -
  from assms(1) obtain grants S0 es where "service_open W backend_default grants = Ok S0"
    "allowed_steps (service_step W) (storable_event W) S0 es" "steps (service_step W) S0 es = Some S"
    unfolding reached_def by blast
  with assms(2,3) show ?thesis
    unfolding reached_def
    by (intro exI [of _ grants] exI [of _ S0] exI [of _ "es @ [ev]"]) (simp add: steps_append allowed_steps_append)
qed

lemma ws_reached: "reached ws_demo ws_fresh" "reached ws_demo ws_service"
proof -
  show fresh: "reached ws_demo ws_fresh"
    unfolding reached_def using ws_open by (intro exI [of _ ws_grants] exI [of _ ws_fresh] exI [of _ "[]"]) simp
  have "service_step ws_demo ws_fresh (Serving (CreateRecipe ws_context demo_recipe)) = Some ws_service"
    unfolding service_step_serving [OF ws_created_eq] by (simp add: crashed_def)
  from reached_step [OF fresh _ this] show "reached ws_demo ws_service" by (simp add: ws_storable)
qed

lemma ws_faulty: "reached ws_demo (with_fault ws_service (Some st))"
  by (rule reached_step [OF ws_reached(2), of "RequestFault st"]) simp_all

lemma ws_unfault: "with_fault (with_fault ws_service (Some st)) None = ws_service"
  by (simp add: with_fault_def ws_created_def stage_defs ws_fresh_def backend_default_def)

section \<open>Crashes\<close>

lemma crash_reopens:
  assumes "hex_digests W" and "reached W S" and "storable W S c" and run: "serve W S c = (S', res)" and "crashed res"
  shows "\<exists>T. reopened W S' = Some T"
proof -
  from reached_sound [OF assms(2,1)] obtain D where snd: "sound W S D" by blast
  from snd assms(1,3) run show ?thesis
  proof (cases rule: serve_cases)
    case (crash stage D' U y)
    from reopened_sound [OF crash(4)] show ?thesis by blast
  qed (use assms(5) in simp)
qed

text \<open>C5. A commit is atomic, for calls whose document can be read back. Take a service that such calls, restarts and
  requested faults led to from an empty backend (\<open>reached\<close>), and a call that is \<open>storable\<close>: the revision document that it
  stages is within the size limit of reading and reads back as the entry, and a patch offered for merging has a storage
  key as its id. When that call crashes, the service can be reopened, and it then has the histories of before the call
  if the crash hit the first two stages, and otherwise the histories that the same call leaves when no fault is
  requested. Digests are taken to be 64 lower-case hexadecimal digits (\<open>hex_digests\<close>). The service itself does not check
  that a call is storable: for one that is not, the service may not be reopened at all
  (the section on what recovery cannot read, below).\<close>

theorem crash_is_atomic:
  assumes "hex_digests W" and "reached W S" and "storable W S c" and "serve W S c = (S', Err (SvcCrash stage))"
  shows "\<exists>T U y. reopened W S' = Some T \<and> serve W (with_fault S None) c = (U, Ok y) \<and>
     recipes T = (if stage \<in> {StageObject, StageRevision} then recipes S else recipes U)"
proof -
  from reached_sound [OF assms(2,1)] obtain D where snd: "sound W S D" and D: "recipes S = ledger_recipes D" by blast
  from snd assms(1,3,4) show ?thesis
  proof (cases rule: serve_cases)
    case ended
    then show ?thesis by (simp add: crashed_def)
  next
    case (crash stage' D' U y)
    from reopened_sound [OF crash(4)] obtain T where "reopened W S' = Some T"
      "sound W T (if stage \<in> {StageObject, StageRevision} then D else D')" using crash(1) by auto
    with crash(6) sound_recipes [OF crash(7)] D show ?thesis by (auto dest: sound_recipes)
  qed
qed

lemma crash_is_atomic_witness:
  "\<exists>S' T U y. serve ws_demo (with_fault ws_service (Some StagePointer)) (ApplyPatch ws_context demo_pin) =
       (S', Err (SvcCrash StagePointer)) \<and> reopened ws_demo S' = Some T \<and>
     serve ws_demo ws_service (ApplyPatch ws_context demo_pin) = (U, Ok y) \<and> recipes T = recipes U"
proof -
  from ws_crash obtain S' where run: "serve ws_demo (with_fault ws_service (Some StagePointer)) (ApplyPatch ws_context demo_pin) =
       (S', Err (SvcCrash StagePointer))" by (auto simp: replying_def)
  with crash_is_atomic [OF ws_hex ws_faulty ws_storable(2) run] show ?thesis by (simp add: ws_unfault)
qed

text \<open>C7. A patch whose commit crashed may be sent again, when its document can be read back (\<open>storable\<close>). On the reopened service the same call succeeds: it
  applies the patch if the crash hit the first two stages, and reports that the patch has been applied otherwise;
  in both cases the histories are then those of the call without the crash, so the patch is applied exactly once.\<close>

theorem retry_applies_once:
  assumes "hex_digests W" and "reached W S" and "storable W S (ApplyPatch ctx p)"
    and "serve W S (ApplyPatch ctx p) = (S', Err (SvcCrash stage))" and "reopened W S' = Some T"
  shows "\<exists>U V r vc. serve W (with_fault S None) (ApplyPatch ctx p) = (V, Ok (PatchReply (Applied r vc))) \<and>
     serve W T (ApplyPatch ctx p) =
       (U, Ok (PatchReply (if stage \<in> {StageObject, StageRevision} then Applied r vc else AlreadyApplied r))) \<and>
     recipes U = recipes V"
proof -
  from reached_sound [OF assms(2,1)] obtain D where snd: "sound W S D" by blast
  from assms(4) have run: "service_apply_patch W S ctx p = (S', Err (SvcCrash stage))" by (simp add: replying_iff)
  obtain U V r vc where
    "service_apply_patch W (with_fault S None) ctx p = (V, Ok (Applied r vc))"
    "service_apply_patch W T ctx p =
       (U, Ok (if stage \<in> {StageObject, StageRevision} then Applied r vc else AlreadyApplied r))"
    "recipes U = recipes V" by (rule retry_apply [OF snd assms(1,3) run assms(5)])
  moreover have "serve W S0 (ApplyPatch ctx p) = (S1, Ok (PatchReply x))"
    if "service_apply_patch W S0 ctx p = (S1, Ok x)" for S0 S1 x
    using that by (simp add: replying_def)
  ultimately show ?thesis by blast
qed

lemma retry_applies_once_witness:
  "\<exists>S' T U V r vc. serve ws_demo (with_fault ws_service (Some StagePointer)) (ApplyPatch ws_context demo_pin) =
       (S', Err (SvcCrash StagePointer)) \<and> reopened ws_demo S' = Some T \<and>
     serve ws_demo ws_service (ApplyPatch ws_context demo_pin) = (V, Ok (PatchReply (Applied r vc))) \<and>
     serve ws_demo T (ApplyPatch ws_context demo_pin) = (U, Ok (PatchReply (AlreadyApplied r))) \<and> recipes U = recipes V"
proof -
  from ws_crash obtain S' where run: "serve ws_demo (with_fault ws_service (Some StagePointer)) (ApplyPatch ws_context demo_pin) =
       (S', Err (SvcCrash StagePointer))" by (auto simp: replying_def)
  from crash_reopens [OF ws_hex ws_faulty ws_storable(2) run] obtain T where T: "reopened ws_demo S' = Some T"
    by (auto simp: crashed_def)
  from retry_applies_once [OF ws_hex ws_faulty ws_storable(2) run T] run T show ?thesis by (simp add: ws_unfault)
qed

text \<open>C6. What has been acknowledged survives, as long as what is committed can be read back. Take a service that was
  reached as for C5 and any later calls, restarts and requested faults of which every call is \<open>storable\<close> in the state it
  is made in, a call that crashes being followed by a restart. Then recovery never fails, and every revision history
  only grows at its end. Calls that are not storable are accepted by the service and are excluded here: after an
  oversized recipe or a merge under an unchecked id recovery does fail (the section on what recovery cannot read).\<close>

theorem acknowledged_revisions_survive:
  assumes "hex_digests W" and "reached W S" and "allowed_steps (service_step W) (storable_event W) S events"
  shows "\<exists>T. steps (service_step W) S events = Some T \<and> (\<forall>s i. prefix (recipes S s i) (recipes T s i))"
proof -
  from reached_sound [OF assms(2,1)] have "hex_digests W \<and> sound_service W S"
    using assms(1) by (auto simp: sound_service_def)
  from recipe_runs.steps_recover [OF this assms(3)] show ?thesis by auto
qed

lemma acknowledged_revisions_survive_witness:
  "\<exists>T. steps (service_step ws_demo) ws_service
        [RequestFault StagePointer, Serving (ApplyPatch ws_context demo_pin), Restart] = Some T \<and>
     (\<forall>s i. prefix (recipes ws_service s i) (recipes T s i))"
  by (rule acknowledged_revisions_survive [OF ws_hex ws_reached(2)])
    (auto simp: ws_storable simp del: service_step.simps split: option.split intro: exI simp: service_step.simps(3))

section \<open>Authority\<close>

text \<open>C8. A call changes something or succeeds only under a live grant of its owner and actor, and then the
  recipes of every other owner's scope are untouched.\<close>

theorem calls_confined_to_grant:
  assumes "serve W S c = (S', res)" and "S' \<noteq> S \<or> is_ok res"
  shows "grants_actor (svc_grants S) (call_context c) \<and>
    (\<exists>s. scope_for_owner W (oc_owner (call_context c)) = Ok s \<and> (\<forall>t i. t \<noteq> s \<longrightarrow> recipes S' t i = recipes S t i))"
  using serve_confined [OF assms(1)] assms(2) confined_recipes by blast

lemma calls_confined_to_grant_witness:
  "grants_actor ws_grants ws_context \<and> recipes ws_service ''other'' ''home'' = recipes ws_fresh ''other'' ''home''"
proof -
  have "''other'' \<noteq> demo_digest" by code_simp
  then show ?thesis
    using calls_confined_to_grant [OF ws_created_eq [of show_nat demo_pin]] by (simp add: ws_fresh_def)
qed

section \<open>Activities\<close>

lemma save_activity_Ok:
  assumes "save_activity W S ctx a expected = (S', Ok b)"
  obtains s bytes d where "activity_guard W S ctx a = Ok (b, s)" "b = a\<lparr>act_current_surface := None\<rparr>"
    "canonical_bytes (wh_json W) (activity_json b) = Ok bytes" "activity_digest W b = Ok d"
    "map_option ap_activity_digest (activity_pointer_of (svc_backend S) s (act_activity_id a)) = expected"
    "bt_get (be_activity_objects (svc_backend S')) (activity_object_key d) = Some bytes"
    "be_activity_pointers (svc_backend S') =
       bt_insert (activity_pointer_key s (act_activity_id a)) \<lparr>ap_activity_digest = d\<rparr> (be_activity_pointers (svc_backend S))"
    "svc_grants S' = svc_grants S"
proof -
  have put: "bt_get (be_activity_objects B') (activity_object_key g) = Some bytes \<and> activity_pointer_of B s i = x \<and>
      be_activity_pointers B' = bt_insert (activity_pointer_key s i) \<lparr>ap_activity_digest = g\<rparr> (be_activity_pointers B)"
    if "save_activity_pointer B s i g bytes x = (B', Ok u)" for B s i g bytes x B' u
    using that by (auto simp: save_activity_pointer_def activity_pointer_of_def Let_def split: option.splits if_splits)
  have exp: "map_option ap_activity_digest pointer = expected"
    if "expected_activity W S pointer dur expected = Ok x" for pointer dur x
    using that by (auto simp: expected_activity_def result_simps split: option.splits if_splits)
  obtain dur s where g: "activity_guard W S ctx a = Ok (dur, s)"
    using assms by (auto simp: save_activity_def split: sum.splits)
  then have dur: "dur = a\<lparr>act_current_surface := None\<rparr>"
    by (auto simp: activity_guard_def result_simps Let_def split: if_splits)
  then have i: "act_activity_id dur = act_activity_id a" by simp
  from assms obtain x bytes d where x: "expected_activity W S (activity_pointer_of (svc_backend S) s (act_activity_id dur)) dur expected = Ok x"
    "canonical_bytes (wh_json W) (activity_json dur) = Ok bytes" "activity_digest W dur = Ok d"
    and res: "b = dur" "save_activity_pointer (svc_backend S) s (act_activity_id dur) d bytes x = (svc_backend S', Ok ())"
      "svc_grants S' = svc_grants S"
    by (auto simp: save_activity_def g result_simps Let_def split: prod.splits sum.splits backend_error.splits)
  show thesis
    by (rule that [of s bytes d]) (use g dur x res put [OF res(2)] exp [OF x(1)] in \<open>simp_all add: i\<close>)
qed

lemma save_activity_Err:
  assumes "save_activity W S ctx a expected = (S', Err e)"
  shows "be_activity_pointers (svc_backend S') = be_activity_pointers (svc_backend S)"
proof -
  have "be_activity_pointers B' = be_activity_pointers B" if "save_activity_pointer B s i g bytes x = (B', Err e)"
    for B s i g bytes x B' e
    using that by (auto simp: save_activity_pointer_def Let_def split: option.splits if_splits)
  with assms show ?thesis
    by (auto simp: save_activity_def Let_def split: prod.splits sum.splits backend_error.splits)
qed

text \<open>C9. Saving an activity is a compare-and-swap: it succeeds only if the digest that the caller saw is that of
  the stored activity (or nothing was stored and nothing expected), it then changes the pointer of this activity
  only, and reading returns what was saved, without its surface; when it fails, every stored activity stays. That the
  serialized activity reads back as itself is a hypothesis on the JSON library.\<close>

theorem activity_compare_and_swap:
  assumes run: "save_activity W S ctx a expected = (S', res)"
    and reads: "\<And>bytes. canonical_bytes (wh_json W) (activity_json (a\<lparr>act_current_surface := None\<rparr>)) = Ok bytes \<Longrightarrow>
       read_activity_document W bytes = Ok (a\<lparr>act_current_surface := None\<rparr>)"
  shows "if is_ok res
    then res = Ok (a\<lparr>act_current_surface := None\<rparr>) \<and>
      read_activity W S' ctx (act_activity_id a) = Ok (Some (a\<lparr>act_current_surface := None\<rparr>)) \<and>
      (\<exists>s. scope_for_owner W (oc_owner ctx) = Ok s \<and>
         map_option ap_activity_digest (activity_pointer_of (svc_backend S) s (act_activity_id a)) = expected \<and>
         (\<forall>k. k \<noteq> activity_pointer_key s (act_activity_id a) \<longrightarrow>
            bt_get (be_activity_pointers (svc_backend S')) k = bt_get (be_activity_pointers (svc_backend S)) k))
    else be_activity_pointers (svc_backend S') = be_activity_pointers (svc_backend S)"
proof (cases res)
  case (Inl e)
  with run save_activity_Err show ?thesis by (auto simp: is_ok_def)
next
  case (Inr b)
  let ?b = "a\<lparr>act_current_surface := None\<rparr>"
  from run [unfolded Inr] obtain s bytes d where g: "activity_guard W S ctx a = Ok (b, s)" and b: "b = ?b"
    and bytes: "canonical_bytes (wh_json W) (activity_json b) = Ok bytes" and d: "activity_digest W b = Ok d"
    and exp: "map_option ap_activity_digest (activity_pointer_of (svc_backend S) s (act_activity_id a)) = expected"
    and obj: "bt_get (be_activity_objects (svc_backend S')) (activity_object_key d) = Some bytes"
    and ptr: "be_activity_pointers (svc_backend S') =
       bt_insert (activity_pointer_key s (act_activity_id a)) \<lparr>ap_activity_digest = d\<rparr> (be_activity_pointers (svc_backend S))"
    and grants: "svc_grants S' = svc_grants S" by (rule save_activity_Ok)
  from g have guard: "valid_key_id (act_activity_id a)" "act_schema a = activity_schema"
    "scope_for_owner W (oc_owner ctx) = Ok s" "service_authorize S ctx (oc_owner ctx) (oc_acting_principal ctx) = Ok ()"
    by (auto simp: activity_guard_def service_authorize_def result_simps Let_def split: if_splits)
  have auth: "service_authorize S' = service_authorize S" using grants by (intro ext) (simp add: service_authorize_def)
  have "read_activity W S' ctx (act_activity_id a) = Ok (Some ?b)"
    using guard bytes d reads obj
    by (simp add: read_activity_def auth activity_pointer_of_def ptr read_activity_pointer_def activity_bytes_def b)
  with guard(3) exp ptr show ?thesis by (auto simp: Inr b is_ok_def)
qed

lemma ws_activity:
  "\<exists>S'. save_activity ws_demo ws_fresh ws_context demo_activity None = (S', Ok demo_activity)"
proof -
  have a: "demo_activity\<lparr>act_current_surface := None\<rparr> = demo_activity" "act_owner_ref demo_activity = OwnerUser ''ann''"
    "act_activity_id demo_activity = ''desk''" "act_schema demo_activity = activity_schema"
    by (simp_all add: demo_activity_def)
  have "binding_set_validate (ws_json show_nat) binding_set_default = Ok ()"
    by (simp add: binding_set_validate_def binding_set_default_def extensions_validate_def extensions_new_def)
  moreover have "valid_document_id ''desk''" "valid_document_id ''home''" "owner_is_valid (OwnerUser ''ann'')" by code_simp+
  ultimately have "activity_validate (ws_json show_nat) demo_activity = Ok ()"
    by (simp add: activity_validate_def demo_activity_def bounded_nonempty_def max_semantic_text_bytes_def)
  then have "activity_guard ws_demo ws_fresh ws_context demo_activity = Ok (demo_activity, demo_digest)"
    by (simp add: activity_guard_def a ws_fresh_def ws_authorized ws_keys scan_document_def ws_scan Let_def)
  then show ?thesis
    by (simp add: save_activity_def expected_activity_def activity_digest_def save_activity_pointer_def
        activity_pointer_of_def ws_fresh_def backend_default_def bt_get_def Let_def)
qed

lemma activity_compare_and_swap_witness:
  "\<exists>S'. save_activity ws_demo ws_fresh ws_context demo_activity None = (S', Ok demo_activity) \<and>
     read_activity ws_demo S' ws_context ''desk'' = Ok (Some demo_activity)"
proof -
  from ws_activity obtain S' where run: "save_activity ws_demo ws_fresh ws_context demo_activity None = (S', Ok demo_activity)" ..
  have a: "demo_activity\<lparr>act_current_surface := None\<rparr> = demo_activity" "act_activity_id demo_activity = ''desk''"
    by (simp_all add: demo_activity_def)
  have "read_activity_document ws_demo bytes = Ok (demo_activity\<lparr>act_current_surface := None\<rparr>)"
    if "canonical_bytes (wh_json ws_demo) (activity_json (demo_activity\<lparr>act_current_surface := None\<rparr>)) = Ok bytes" for bytes
  proof -
    have "bytes = ''null''" using that by simp
    then show ?thesis
      by (simp add: read_activity_document_def parse_canonical_def max_canonical_document_bytes_def a)
        (simp add: ws_host_def ws_json_def ws_print_def)
  qed
  from activity_compare_and_swap [OF run this] run show ?thesis by (simp add: a is_ok_def)
qed

section \<open>What recovery cannot read\<close>

text \<open>C10. The service accepts a recipe whose revision document is longer than the limit that reading a document
  enforces (no limit is checked when it is written); from then on the service cannot be opened again.\<close>

theorem oversized_recipe_blocks_recovery:
  assumes "hex_digests W" and run: "serve W S (CreateRecipe ctx r) = (S', Ok y)"
    and big: "canonical_bytes (wh_json W) (envelope_json (envelope_of (r, None))) = Ok bytes"
      "max_canonical_document_bytes < length bytes"
  shows "\<not> is_ok (service_open W (svc_backend S') grants)"
proof -
  from run obtain x where op: "create_recipe W S ctx r = (S', Ok x)" by (auto simp: replying_iff)
  then obtain l e staged where g: "create_guard W S ctx r = Ok (l, e)"
    and com: "commit_staged W S l r None e staged r = (S', Ok x)"
    by (auto simp: create_recipe_def split: sum.splits prod.splits)
  from g obtain s where l: "l = at_location s (rcp_recipe_id r)" "scope_for_owner W (rcp_owner_ref r) = Ok s"
    by (elim create_guard_Ok)
  from g have "rcp_revision r = 1" by (auto simp: create_guard_def result_simps Let_def split: if_splits)
  moreover have "slash_free s" by (rule scope_slash_free [OF assms(1) l(2)])
  ultimately show ?thesis
    by (intro unreadable_commit_blocks [OF com [unfolded l(1)]]) (use big in \<open>simp_all add: read_envelope_def parse_canonical_def\<close>)
qed

definition big_text :: "nat \<Rightarrow> string" where
  "big_text n = replicate (Suc max_canonical_document_bytes) (CHR ''x'')"

lemma oversized_recipe_blocks_recovery_witness:
  "\<not> is_ok (service_open (ws_host big_text demo_pin) (svc_backend (ws_created big_text)) ws_grants)"
proof (rule oversized_recipe_blocks_recovery [OF ws_hex ws_created_eq])
  show "max_canonical_document_bytes < length (big_text 1)" by (simp only: big_text_def length_replicate lessI)
qed simp

lemma applied_revision:
  assumes "apply_patch H st p = (st', Ok (Applied r vc))"
  shows "rcp_revision r \<noteq> 0" and "rcp_revision r \<noteq> 1"
proof -
  from assms obtain q c where "pat_base_revision p \<noteq> 0" "rcp_revision q = pat_base_revision p"
    and c: "build_candidate H st p q = Ok (c, vc)" and fin: "finish_revision H c (rcp_revision q) (rcp_digest q) = Ok r"
    unfolding apply_patch_Applied_iff patch_validate_Ok_iff by (auto simp: patch_fields_def)
  moreover have "same_identity q c"
    using c by (auto simp: build_candidate_def result_simps split: option.splits if_splits
        dest: apply_operations_identity restore_revision_identity)
  ultimately have "unat (rcp_revision c) \<noteq> 0" by (simp add: same_identity_def u64_zero_iff)
  with finish_revision_fields(3) [OF fin] have "1 < unat (rcp_revision r)" by linarith
  then show "rcp_revision r \<noteq> 0" "rcp_revision r \<noteq> 1" by auto
qed

text \<open>C11. A patch offered for merging that applies directly is committed under its own identifier, which is not
  checked to be a storage key; recovery does check it, and can then no longer open the service.\<close>

theorem unchecked_merge_id_blocks_recovery:
  assumes "hex_digests W" and run: "serve W S (NarrowMerge ctx p i) = (S', Ok (PatchReply (Applied r vc)))"
    and scope: "scope_for_owner W (pat_owner_ref p) = Ok s"
    and app: "apply_patch (wh_json W) (store_at (svc_stores S) s) p = (st, Ok (Applied r vc))"
    and reads: "survives W (r, Some p)" and bad: "\<not> valid_key_id (pat_patch_id p)"
  shows "\<not> is_ok (service_open W (svc_backend S') grants)"
proof -
  from run have op: "service_narrow_merge W S ctx p i = (S', Ok (Applied r vc))" by (auto simp: replying_iff)
  then obtain l e store where g: "merge_guard W S ctx p i = Ok (l, e, store)"
    by (auto simp: service_narrow_merge_def split: sum.splits)
  note mg = merge_guard_Ok [OF g]
  from mg(2) scope have l: "l = at_location s (pat_recipe_id p)" by (elim patch_location_Ok) simp
  have store: "store_at (svc_stores S) s = store" using mg(3) by (simp add: l store_at_def)
  from app have "compute_conflict_candidate store p i = Err NotConflicted"
    unfolding store apply_patch_Applied_iff by (auto simp: compute_conflict_candidate_def)
  then have "merge_commit_patch store p i = p" by (simp add: merge_commit_patch_def)
  moreover have "apply_patch_with_narrow_merge (wh_json W) store p i = (st, Ok (Applied r vc))"
    using app unfolding store by (simp add: apply_patch_with_narrow_merge_def apply_patch_eq)
  ultimately have com: "commit_staged W S (at_location s (pat_recipe_id p)) r (Some p) e st (Applied r vc) = (S', Ok (Applied r vc))"
    using op g by (simp add: service_narrow_merge_def l store)
  note rev = applied_revision [OF app]
  from reads obtain bytes where "canonical_bytes (wh_json W) (envelope_json (envelope_of (r, Some p))) = Ok bytes"
    "read_envelope W bytes = Ok (envelope_of (r, Some p))" by (auto simp: survives_def)
  with rev bad show ?thesis
    by (intro unreadable_commit_blocks [OF com scope_slash_free [OF assms(1) scope]]) auto
qed

definition stray_pin :: patch where
  "stray_pin = demo_patch ''a/b'' 1 [SetRecipeMetadata ''pinned'' (Bool True)]"

lemma stray_applied:
  "\<exists>st. apply_patch (ws_json f) (fst (store_insert demo_host store_new demo_recipe)) stray_pin = (st, Ok (Applied demo_recipe2 False))"
proof -
  have "patch_validate stray_pin = Ok ()" unfolding stray_pin_def by (rule demo_patch_valid) simp_all
  then show ?thesis
    unfolding apply_patch_Applied_iff demo_insert using ws_child
    by (auto simp: stray_pin_def build_candidate_def sole_restore_def bt_get_def)
qed

lemma stray_merged:
  "\<exists>S'. serve (ws_host show_nat stray_pin) ws_service (NarrowMerge ws_context stray_pin ''m'') =
     (S', Ok (PatchReply (Applied demo_recipe2 False)))"
proof -
  let ?W = "ws_host show_nat stray_pin" and ?st = "fst (store_insert demo_host store_new demo_recipe)"
  obtain st where app: "apply_patch (ws_json show_nat) ?st stray_pin = (st, Ok (Applied demo_recipe2 False))"
    using stray_applied by blast
  have pin: "pat_owner_ref stray_pin = OwnerUser ''ann''" "pat_acting_principal stray_pin = PrincipalAgent ''bot''"
    "pat_recipe_id stray_pin = ''home''" "patch_validate stray_pin = Ok ()" "pat_patch_id stray_pin = ''a/b''"
    using demo_patch_valid [of "''a/b''" 1 "[SetRecipeMetadata ''pinned'' (Bool True)]"]
    by (simp_all add: stray_pin_def demo_patch_def)
  have cur: "current_of ?W (svc_backend ws_service) (at_location demo_digest ''home'') = Ok (Some (pointer_to demo_recipe))"
    using ws_survives(1) [of stray_pin]
    by (simp add: survives_def current_of_def ws_created_def stage_defs backend_default_def bt_get_def ws_texts
        pointer_to_def Let_def)
  have stores: "svc_stores ws_service = [(demo_digest, ?st)]" "svc_grants ws_service = ws_grants"
    by (simp_all add: ws_created_def ws_fresh_def)
  have "valid_key_id ''m''" by code_simp
  then have g: "merge_guard ?W ws_service ws_context stray_pin ''m'' =
      Ok (at_location demo_digest ''home'', Some (pointer_to demo_recipe), ?st)"
    by (simp add: merge_guard_def pin ws_authorized stores patch_location_def scan_document_def ws_scan cur bt_get_def Let_def)
  have "compute_conflict_candidate ?st stray_pin ''m'' = Err NotConflicted"
    using app unfolding apply_patch_Applied_iff by (auto simp: compute_conflict_candidate_def)
  then have q: "merge_commit_patch ?st stray_pin ''m'' = stray_pin" by (simp add: merge_commit_patch_def)
  have m: "apply_patch_with_narrow_merge (ws_json show_nat) ?st stray_pin ''m'' = (st, Ok (Applied demo_recipe2 False))"
    using app by (simp add: apply_patch_with_narrow_merge_def apply_patch_eq)
  have at: "store_at (svc_stores ws_service) demo_digest = ?st" by (simp add: stores store_at_def bt_get_def)
  have "service_narrow_merge ?W ws_service ws_context stray_pin ''m'' =
      commit_staged ?W ws_service (at_location demo_digest ''home'') demo_recipe2 (Some stray_pin)
        (Some (pointer_to demo_recipe)) st (Applied demo_recipe2 False)"
    by (simp add: service_narrow_merge_def g m q at)
  moreover have "revision_key l 2 \<noteq> revision_key l 1" for l by (simp add: revision_key_def ws_texts)
  ultimately show ?thesis
    by (simp add: replying_def commit_staged_def commit_recipe_def put_object_once_def put_revision_once_def cas_current_def
        crash_if_requested_def commit_journal_def put_journal_once_def stage_defs ws_created_def ws_fresh_def
        backend_default_def bt_get_def ws_texts Let_def)
qed

lemma unchecked_merge_id_blocks_recovery_witness:
  "\<exists>S'. serve (ws_host show_nat stray_pin) ws_service (NarrowMerge ws_context stray_pin ''m'') =
       (S', Ok (PatchReply (Applied demo_recipe2 False))) \<and>
     \<not> is_ok (service_open (ws_host show_nat stray_pin) (svc_backend S') ws_grants)"
proof -
  from stray_merged obtain S' where run: "serve (ws_host show_nat stray_pin) ws_service (NarrowMerge ws_context stray_pin ''m'') =
       (S', Ok (PatchReply (Applied demo_recipe2 False)))" ..
  have bad: "\<not> valid_key_id (pat_patch_id stray_pin)" by code_simp
  have scope: "scope_for_owner (ws_host show_nat stray_pin) (pat_owner_ref stray_pin) = Ok demo_digest"
    by (simp add: stray_pin_def)
  have "store_at (svc_stores ws_service) demo_digest = fst (store_insert demo_host store_new demo_recipe)"
    by (simp add: ws_created_def store_at_def bt_get_def)
  then obtain st where "apply_patch (wh_json (ws_host show_nat stray_pin)) (store_at (svc_stores ws_service) demo_digest) stray_pin =
      (st, Ok (Applied demo_recipe2 False))" using stray_applied by auto
  from unchecked_merge_id_blocks_recovery [OF ws_hex run scope this ws_survives(2) bad] run show ?thesis by blast
qed

end
