(* ===== verification/Spec2Isabelle.thy ===== *)
theory Spec2Isabelle
  imports
    A2ui
    Approval
    Bindings
    Broker
    Broker_Answers
    Broker_Frame
    Broker_Handlers
    Broker_Trace
    Broker_Wire
    Broker_World
    Canonical
    Components
    Consent_Properties
    Context_Engine
    Dispatch
    Identity
    Field_Writes
    Grant_Decision
    Hook_Bridge
    Host_World
    Key_Value
    Ledger
    Mcp_Promises
    Ordered_Map
    Parked_Calls
    Patches
    Policy
    Prelude
    React_Handlers
    React_Laws
    React_Loop
    React_Machine
    React_Promises
    React_Properties
    React_Walk
    React_Watchdog
    React_World
    Recipe_Store
    Recipes
    Registry
    Scene_Validation
    Selection
    Session_Data
    Session_Demo
    Session_Handlers
    Session_Laws
    Session_Pages
    Session_Properties
    Session_Search
    Session_Spec
    Session_Store
    Store_Edits
    Store_Laws
    Store_Properties
    Strategy
    Tool_Cache
    Unicode
    Users_Laws
    Users_Properties
    Users_Records
    Users_Store
    Workspace_Promises
begin

text \<open>
  A model of the parts of AOS community edition that decide something, with the theorems that make them
  correct. AOS is a host for capsules: sandboxed programs that talk over a message bus and keep their state in
  a key-value service. The program's own logic lies in the capsules under \<open>src/capsules\<close>, in the MCP broker under
  \<open>src/crates/aos-mcp-broker\<close>, and in the installer and the shell, which are mostly file, process and terminal work.

  \<^bold>\<open>Data.\<close> A Rust \<open>String\<close> is the list of its bytes (\<open>string\<close>), \<open>u64\<close> and \<open>u16\<close> are words, a \<open>usize\<close> is a
  natural number bounded by \<open>usize_max\<close> with its wrap-around or saturation written out, a \<open>BTreeMap\<close> is a list
  sorted by key (\<open>Ordered_Map\<close>), a \<open>Result\<close> is a sum with \<open>Err\<close> on the left and \<open>Ok\<close> on the right, and \<open>?\<close> is
  \<open>and_then\<close>. Release builds wrap on overflow. Code outside the repository is a parameter: BLAKE3 and the printing
  of numbers (\<open>host\<close>), the JSON printer and parser where a component calls them (\<open>json_lib\<close>, \<open>json_api\<close>,
  \<open>json_codec\<close>), fresh UUIDs, the clock, and the key-value service.

  \<^bold>\<open>Theories.\<close>
  \<^item> \<open>Prelude\<close>, \<open>Ordered_Map\<close>, \<open>Unicode\<close>, \<open>Key_Value\<close>: results, maps, text and the key-value service with its failures;
    the interfaces \<open>keyed_store\<close>, \<open>deletable_store\<close> and \<open>preserved\<close>.
  \<^item> \<open>Canonical\<close>, \<open>Components\<close>, \<open>Scene_Validation\<close>, \<open>Identity\<close>, \<open>Bindings\<close>, \<open>Recipes\<close>, \<open>Patches\<close>,
    \<open>Recipe_Store\<close>, \<open>A2ui\<close>: the files of \<open>capsule-surface-model\<close>. A recipe is a versioned document with a tree of
    semantic nodes; the store keeps its current revision, its history and the patches that made it.
    \<open>Ledger\<close>, \<open>Store_Laws\<close>, \<open>Field_Writes\<close>, \<open>Store_Properties\<close> and \<open>Store_Edits\<close> prove that the store's four maps
    represent one append-only log per recipe (\<open>append_only_log\<close>) and what patches, merges and rollbacks do to it.
  \<^item> \<open>Host_World\<close>: JSON values, operations as state monads with \<open>?\<close> as \<open>attempt\<close>, and the laws of operations that keep
    a predicate of their world, shared by the capsules below.
  \<^item> \<open>Session_Data\<close>, \<open>Session_Store\<close>, \<open>Session_Handlers\<close>: the conversation store (\<open>capsule-session\<close>), over a key-value
    service on which other writers act before every call. \<open>Session_Laws\<close> states what a predicate of the stored table
    must tolerate (\<open>session_law\<close>); \<open>Session_Spec\<close> specifies what each event may do to one session and shows that
    every handler, tool and command stays within it; \<open>Session_Properties\<close> draws the refinement, the appends, the
    isolation and the invariant from it; \<open>Session_Pages\<close> and \<open>Session_Search\<close> prove listing, searching and updating
    exact in a quiet world; \<open>Session_Demo\<close> holds concrete runs.
  \<^item> \<open>React_World\<close>, \<open>React_Loop\<close>, \<open>React_Handlers\<close>: the agent loop (\<open>capsule-react\<close>), which drives a turn of a conversation
    through identity, prompt, stream and tools. \<open>React_Laws\<close> states what a predicate of its world must tolerate
    (\<open>quiet_law\<close>, \<open>loop_law\<close>) and \<open>React_Walk\<close> walks through every handler under that interface; \<open>React_Machine\<close> is the
    abstract machine of turns, which the handlers refine; \<open>React_Properties\<close> draws the bound on requests, the selected
    models, the rounds of the transcript and the phases from the machine, \<open>React_Watchdog\<close> shows that turns under way
    are watched and that a tick ends those that are overdue; \<open>React_Promises\<close> holds the properties and a run.
  \<^item> \<open>Policy\<close>: the deny rules of the MCP broker, their globbing and their loading.
  \<^item> \<open>Broker_World\<close>, \<open>Broker_Wire\<close>: what the broker sees of its host for one principal (store, bus, inputs of an invocation)
    as a state monad, and its records; \<open>Grant_Decision\<close>, \<open>Dispatch\<close>, \<open>Tool_Cache\<close>, \<open>Approval\<close>, \<open>Broker\<close>: its files.
    \<open>Broker_Frame\<close> states what a predicate of the world must tolerate (\<open>world_law\<close>, \<open>broker_law\<close>) and, with
    \<open>Broker_Handlers\<close>, that every operation then keeps it. \<open>Broker_Trace\<close> gathers the handlers into a machine and proves
    what it stores; \<open>Consent_Properties\<close> traces trust, dispatches and approvals back to answers of the
    user; \<open>Broker_Answers\<close> and \<open>Parked_Calls\<close> prove replies, results and attributions. \<open>Broker_Frame\<close> opens with a small host.
  \<^item> \<open>Selection\<close>, \<open>Registry\<close>: the registry of model providers, its resolution of a user's choice and its message loop.
  \<^item> \<open>Strategy\<close>, \<open>Context_Engine\<close>: compaction of a conversation and the service around it, with its hook rounds.
  \<^item> \<open>Users_Store\<close>: users, account links and context names over the key-value service; \<open>Users_Properties\<close>,
    \<open>Users_Records\<close> and \<open>Users_Laws\<close> prove its invariant, its cascades and its pages.

  \<^item> \<open>Workspace_Policy\<close>, \<open>Workspace_Backend\<close>, \<open>Workspace_Service\<close>: the files of
    \<open>capsule-workspace-recipes\<close>, which keeps the recipe store of each owner on a backend that may be told to crash
    after a stage of a commit. \<open>Workspace_Disk\<close> says what the backend holds for given revision logs;
    \<open>Workspace_Recovery\<close> shows that opening reads exactly these logs back; \<open>Workspace_Commit\<close>
    computes the state after each stage; \<open>Workspace_Calls\<close> reduces every call to one commit or none;
    \<open>Workspace_Runs\<close> puts calls, crashes and restarts in sequence (\<open>durable_service\<close>); \<open>Workspace_Faults\<close>
    treats authority, unreadable commits and retries; \<open>Workspace_Promises\<close> holds the properties, on the
    run of \<open>Workspace_Demo\<close>. A document is taken to survive being written and read (\<open>survives\<close>), as a hypothesis.
  \<^item> \<open>Hook_Bridge\<close>: the capsule that turns lifecycle events into hook requests and merges the answers
    (\<open>capsule-hook-bridge\<close>), with the gate before a tool call.
  \<^item> \<open>Mcp_Interaction\<close>, \<open>Mcp_Session\<close>, \<open>Mcp_Front\<close>, \<open>Mcp_Pending\<close>: the MCP front end of the installer's binary
    (\<open>crates/unicity-aos-bootstrap/src/mcp\<close>), which sits between a coding host and the runtime and answers the forms of the
    runtime: \<open>interaction.rs\<close> and \<open>consent.rs\<close>, \<open>mrtr.rs\<close>, the frame handlers of \<open>mod.rs\<close>, and \<open>pending.rs\<close>. What shows a
    form is a parameter (\<open>presenter\<close>). \<open>Mcp_Laws\<close> puts the operations of a session in sequence and shows where a
    resumed call comes from, how often it is resumed and what an accepted form says of the presenter;
    \<open>Mcp_Approvals\<close> is the machine of the approvals that outlive the host's call, with the effects of a run;
    \<open>Mcp_Workers\<close> follows a question to its worker and its decision back, and bounds the workers;
    \<open>Mcp_Promises\<close> holds the properties and concrete runs.

  \<^bold>\<open>Bounds.\<close> Loops over lists and trees are structural and the globbing loop has a measure, so nothing needs fuel; a
  hook round and the drains of the broker run over the inputs they poll, at most as often as their windows have
  slices. The page loop of a session search has as much fuel as its budget of keys, which it spends before the fuel
  (\<open>search_pages_complete\<close>). The rounds of a resumable call are bounded by the code (\<open>input_rounds_bounded\<close>). The size of a \<open>usize\<close> is that of a 64-bit host (compiled to wasm32 it is smaller, which no theorem but
  the wrap-around of property bags depends on).

  \<^bold>\<open>What is assumed of runs.\<close> The handlers of the agent loop run one after another (\<open>react_run\<close>), every write being seen
  by the next one; the host's pooled instances may run them at the same time and may show a stale value right after a
  write, and neither is modelled. The durability of recipes (\<open>Workspace_Promises\<close>) is that of calls whose documents can be
  read back, within the size limit; the service does not check this, and the last section of that theory shows what
  happens otherwise. The appends of \<open>Session_Properties\<close> are those to sessions whose blob the capsule can read, and
  \<open>Session_Search\<close> shows the loss of the others. The saves of the registry may fail or be lost to other writers
  (\<open>wd_saves\<close>); its reads do not fail. The gate of \<open>Hook_Bridge\<close> is decided by the polls that brought messages: what a last,
  empty poll reports as lost is ignored by the code.

  \<^bold>\<open>Not modelled.\<close> Log lines, readings of the clock that only reach them, and the texts of host errors; the timing of the
  broker's describe window (its batches are inputs); the loop of the MCP front end that reads and writes frames, its
  signals and child process, and the dialogs, pinentry and tray that present forms. Terminal, file, process and network work (the command-line front end, the installer, the tool
  capsules, the streaming model clients), the Swift tray application, and the capsules that assemble prompts.
\<close>

end
